(* ===== verification/Alarm_Prelude.thy ===== *)
theory Alarm_Prelude
  imports Main "HOL-Library.Monad_Syntax"
begin

text \<open>
  What every component of the development shares.

  \<^item> Undefined behaviour of C (a NULL or dangling pointer read, a double free, a write past the
    end of an array) is the value \<open>None\<close> of an \<open>option\<close>; a handler is a function
    \<open>state \<Rightarrow> state option\<close> written with the do-notation of \<open>Monad_Syntax\<close>.
  \<^item> \<open>run_opt\<close> runs such a handler over a list of inputs, and the locale \<open>safe_machine\<close> is
    the contract \<open>the handler keeps an invariant and is never undefined\<close>, from which whole runs
    are safe.
  \<^item> The locale \<open>tail_list\<close> is the contract of the intrusive singly linked lists of the program
    (append at the tail, unlink one node), seen as lists of node addresses.
  \<^item> \<open>queue_send\<close> is a FreeRTOS queue of bounded length as its callers use it, and the locale
    \<open>mailbox\<close> its contract.
  \<^item> \<open>cjson\<close>: what the third-party parser cJSON gives, a parameter of every definition that uses it.
  \<^item> C strings in arrays of fixed size: \<open>c_strncpy\<close>, \<open>c_strncat\<close>, \<open>c_str\<close>.
\<close>

named_theorems ub_simps \<open>unfolding of the option monad in handlers\<close>

type_synonym addr = nat

section \<open>The option monad of possibly undefined handlers\<close>

lemma bind_Some_ex [ub_simps]:
  "(Option.bind m f = Some y) \<longleftrightarrow> (\<exists>x. m = Some x \<and> f x = Some y)"
  by (cases m) simp_all

lemma bind_Some_left [simp]: "Option.bind (Some x) f = f x"
  by simp

fun run_opt :: "('i \<Rightarrow> 's \<Rightarrow> 's option) \<Rightarrow> 'i list \<Rightarrow> 's \<Rightarrow> 's option" where
  "run_opt step [] s = Some s"
| "run_opt step (i # is) s = Option.bind (step i s) (run_opt step is)"

lemma run_opt_append:
  "run_opt step (is @ js) s = Option.bind (run_opt step is s) (run_opt step js)"
proof (induction "is" arbitrary: s)
  case Nil
  show ?case by simp
next
  case (Cons i "is")
  then show ?case by (cases "step i s") simp_all
qed

text \<open>
  A machine with an input set the environment promises to keep to (\<open>ok\<close>) and an invariant.
\<close>

locale safe_machine =
  fixes step :: "'i \<Rightarrow> 's \<Rightarrow> 's option"
    and inv :: "'s \<Rightarrow> bool"
    and ok :: "'i \<Rightarrow> 's \<Rightarrow> bool"
  assumes step_safe: "inv s \<Longrightarrow> ok i s \<Longrightarrow> \<exists>s'. step i s = Some s' \<and> inv s'"
begin

text \<open>Inputs all of which the environment may send, each in the state it meets.\<close>

fun oks :: "'i list \<Rightarrow> 's \<Rightarrow> bool" where
  "oks [] s = True"
| "oks (i # is) s = (ok i s \<and> (\<forall>s'. step i s = Some s' \<longrightarrow> oks is s'))"

lemma step_inv: "inv s \<Longrightarrow> ok i s \<Longrightarrow> step i s = Some s' \<Longrightarrow> inv s'"
  using step_safe by fastforce

lemma run_safe: "inv s \<Longrightarrow> oks is s \<Longrightarrow> \<exists>s'. run_opt step is s = Some s' \<and> inv s'"
proof (induction "is" arbitrary: s)
  case Nil
  then show ?case by simp
next
  case (Cons i "is")
  then obtain s1 where s1: "step i s = Some s1" "inv s1"
    using step_safe by fastforce
  with Cons.prems have "oks is s1" by simp
  with Cons.IH s1(2) obtain s2 where "run_opt step is s1 = Some s2" "inv s2"
    by blast
  with s1(1) show ?case by simp
qed

lemma run_inv: "inv s \<Longrightarrow> oks is s \<Longrightarrow> run_opt step is s = Some s' \<Longrightarrow> inv s'"
  using run_safe by fastforce

end

text \<open>The states a machine can reach under inputs its environment may send.\<close>

inductive reach :: "('i \<Rightarrow> 's \<Rightarrow> 's option) \<Rightarrow> ('i \<Rightarrow> 's \<Rightarrow> bool) \<Rightarrow> 's set \<Rightarrow> 's \<Rightarrow> bool"
  for step :: "'i \<Rightarrow> 's \<Rightarrow> 's option" and ok :: "'i \<Rightarrow> 's \<Rightarrow> bool" and init :: "'s set" where
  reach_init: "s \<in> init \<Longrightarrow> reach step ok init s"
| reach_step: "reach step ok init s \<Longrightarrow> ok i s \<Longrightarrow> step i s = Some s' \<Longrightarrow> reach step ok init s'"

context safe_machine
begin

lemma reach_inv: "reach step ok init s \<Longrightarrow> (\<And>s. s \<in> init \<Longrightarrow> inv s) \<Longrightarrow> inv s"
  by (induction rule: reach.induct) (auto dest: step_inv)

lemma reach_not_stuck:
  "reach step ok init s \<Longrightarrow> (\<And>s. s \<in> init \<Longrightarrow> inv s) \<Longrightarrow> ok i s
    \<Longrightarrow> \<exists>s'. step i s = Some s' \<and> inv s'"
  by (rule step_safe) (auto intro: reach_inv)

lemma reach_run: "reach step ok init s \<Longrightarrow> oks is s \<Longrightarrow> run_opt step is s = Some s' \<Longrightarrow> reach step ok init s'"
  by (induction "is" arbitrary: s) (auto split: Option.bind_splits intro: reach_step)

end

section \<open>Intrusive linked lists, as lists of node addresses\<close>

text \<open>
  \<open>ins\<close> walks to the last node and links the new one behind it; \<open>del\<close> unlinks one node. The
  component that owns the list provides them; \<open>nodes\<close> reads the chain from the head.
\<close>

locale tail_list =
  fixes nodes :: "'s \<Rightarrow> addr list"
    and ins :: "addr \<Rightarrow> 's \<Rightarrow> 's"
    and del :: "addr \<Rightarrow> 's \<Rightarrow> 's"
  assumes nodes_ins: "nodes (ins a s) = nodes s @ [a]"
    and nodes_del: "a \<in> set (nodes s) \<Longrightarrow> nodes (del a s) = remove1 a (nodes s)"
begin

lemma set_ins: "set (nodes (ins a s)) = insert a (set (nodes s))"
  by (simp add: nodes_ins)

lemma distinct_ins:
  "distinct (nodes s) \<Longrightarrow> a \<notin> set (nodes s) \<Longrightarrow> distinct (nodes (ins a s))"
  by (simp add: nodes_ins)

lemma set_del:
  "distinct (nodes s) \<Longrightarrow> a \<in> set (nodes s) \<Longrightarrow> set (nodes (del a s)) = set (nodes s) - {a}"
  by (simp add: nodes_del)

lemma distinct_del:
  "distinct (nodes s) \<Longrightarrow> a \<in> set (nodes s) \<Longrightarrow> distinct (nodes (del a s))"
  by (simp add: nodes_del)

lemma ins_del_cancel: "a \<notin> set (nodes s) \<Longrightarrow> nodes (del a (ins a s)) = nodes s"
  by (simp add: nodes_del nodes_ins remove1_append)

lemma length_del: "a \<in> set (nodes s) \<Longrightarrow> length (nodes (del a s)) = length (nodes s) - 1"
  by (simp add: nodes_del length_remove1)

end

text \<open>
  The loop that walks a chain and stops at the first node with a property: \<open>Some None\<close> when there is
  none, \<open>None\<close> when it meets a node that is not live.
\<close>

fun find_node :: "('a \<Rightarrow> bool) \<Rightarrow> (addr \<rightharpoonup> 'a) \<Rightarrow> addr list \<Rightarrow> addr option option" where
  "find_node P m [] = Some None"
| "find_node P m (a # as) =
     (case m a of
        None \<Rightarrow> None
      | Some c \<Rightarrow> if P c then Some (Some a) else find_node P m as)"

lemma find_node_total:
  "set as \<subseteq> dom m \<Longrightarrow> \<exists>r. find_node P m as = Some r \<and>
     (case r of None \<Rightarrow> \<forall>a\<in>set as. \<not> P (the (m a))
      | Some a \<Rightarrow> a \<in> set as \<and> P (the (m a)))"
  by (induction as) (auto split: option.splits)

lemma find_node_none:
  "set ys \<subseteq> dom m \<Longrightarrow> \<forall>b\<in>set ys. \<not> P (the (m b)) \<Longrightarrow> find_node P m ys = Some None"
  by (induction ys) auto

lemma find_node_first:
  "set ys \<subseteq> dom m \<Longrightarrow> b \<in> set ys \<Longrightarrow> P (the (m b)) \<Longrightarrow> \<exists>r. find_node P m ys = Some (Some r)"
  by (induction ys) auto

lemma find_node_app:
  "set xs \<subseteq> dom m \<Longrightarrow> \<forall>b\<in>set xs. \<not> P (the (m b)) \<Longrightarrow> m a = Some c \<Longrightarrow> P c
    \<Longrightarrow> find_node P m (xs @ a # ys) = Some (Some a)"
  by (induction xs) auto

lemma find_node_cong:
  "\<forall>a\<in>set xs. m a = m' a \<Longrightarrow> find_node P m xs = find_node P m' xs"
  by (induction xs) (auto split: option.splits)

section \<open>Bounded queues\<close>

text \<open>
  A FreeRTOS queue of \<open>cap\<close> items as its senders and receivers see it: \<open>xQueueSend\<close> appends at
  the back and fails when the queue is full, \<open>xQueueReceive\<close> takes the front item. A sender that
  waits is a sender that runs later.
\<close>

definition queue_send :: "nat \<Rightarrow> 'a \<Rightarrow> 'a list \<Rightarrow> 'a list" where
  "queue_send cap x q = (if length q < cap then q @ [x] else q)"

definition queue_receive :: "'a list \<Rightarrow> ('a \<times> 'a list) option" where
  "queue_receive q = (case q of [] \<Rightarrow> None | x # xs \<Rightarrow> Some (x, xs))"

locale mailbox =
  fixes send :: "'a \<Rightarrow> 'q \<Rightarrow> 'q"
    and receive :: "'q \<Rightarrow> ('a \<times> 'q) option"
    and pending :: "'q \<Rightarrow> 'a list"
    and cap :: nat
  assumes pending_send:
      "pending (send x q) = (if length (pending q) < cap then pending q @ [x] else pending q)"
    and receive_None: "receive q = None \<longleftrightarrow> pending q = []"
    and receive_Some: "receive q = Some (x, q') \<Longrightarrow> pending q = x # pending q'"
begin

lemma send_bounded: "length (pending q) \<le> cap \<Longrightarrow> length (pending (send x q)) \<le> cap"
  by (simp add: pending_send)

lemma receive_bounded:
  "length (pending q) \<le> cap \<Longrightarrow> receive q = Some (x, q') \<Longrightarrow> length (pending q') < cap"
  by (auto dest!: receive_Some)

lemma send_receive_fifo:
  "pending q = y # ys \<Longrightarrow> length (pending q) < cap \<Longrightarrow> receive (send x q) = Some (z, q')
    \<Longrightarrow> z = y \<and> pending q' = ys @ [x]"
  by (auto simp: pending_send dest!: receive_Some)

end

lemma queue_receive_simps [simp]:
  "queue_receive [] = None" "queue_receive (x # xs) = Some (x, xs)"
  by (simp_all add: queue_receive_def)

lemma queue_receive_eq_Some: "queue_receive q = Some (x, q') \<longleftrightarrow> q = x # q'"
  by (cases q) auto

lemma queue_receive_eq_None: "queue_receive q = None \<longleftrightarrow> q = []"
  by (cases q) auto

interpretation queue: mailbox "queue_send n" queue_receive "\<lambda>q. q" n for n
  by unfold_locales
    (auto simp: queue_send_def queue_receive_eq_None queue_receive_eq_Some)

section \<open>C strings in arrays\<close>

text \<open>
  A \<open>char\<close> array of \<open>size\<close> bytes is the list of its bytes before the first NUL, at most
  \<open>size\<close> of them; a list of length \<open>size\<close> is an array with no terminator in it, and reading it
  as a string (\<open>c_str\<close>) runs past its end.
\<close>

definition c_str :: "nat \<Rightarrow> string \<Rightarrow> string option" where
  "c_str sz buf = (if length buf < sz then Some buf else None)"

text \<open>\<open>strncpy(dst, src, n)\<close> into a zeroed array: at most \<open>n\<close> bytes, no terminator of its own.\<close>

definition c_strncpy :: "nat \<Rightarrow> string \<Rightarrow> nat \<Rightarrow> string option" where
  "c_strncpy sz src n = (if n \<le> sz then Some (take n src) else None)"

text \<open>\<open>strncat(dst, src, n)\<close>: at most \<open>n\<close> bytes of \<open>src\<close> and always a terminator behind them.\<close>

definition c_strncat :: "nat \<Rightarrow> string \<Rightarrow> string \<Rightarrow> nat \<Rightarrow> string option" where
  "c_strncat sz dst src n =
     (if length dst + min n (length src) < sz then Some (dst @ take n src) else None)"

lemma c_strncat_Some:
  "c_strncat sz dst src n = Some r \<Longrightarrow> length r < sz \<and> r = dst @ take n src"
  by (auto simp: c_strncat_def split: if_splits)

lemma c_strncpy_Some: "c_strncpy sz src n = Some r \<Longrightarrow> r = take n src \<and> length r \<le> sz"
  by (auto simp: c_strncpy_def split: if_splits)

lemma c_strncat_defined:
  "(\<exists>r. c_strncat sz dst src n = Some r) \<longleftrightarrow> length dst + min n (length src) < sz"
  by (simp add: c_strncat_def)

text \<open>\<open>strstr(text, pat)\<close>: the text from the first place of the pattern on.\<close>

fun strstr :: "string \<Rightarrow> string \<Rightarrow> string option" where
  "strstr [] pat = (if pat = [] then Some [] else None)"
| "strstr (c # cs) pat = (if take (length pat) (c # cs) = pat then Some (c # cs) else strstr cs pat)"

lemma strstr_length: "strstr s pat = Some t \<Longrightarrow> length t \<le> length s"
  by (induction s pat rule: strstr.induct) (auto split: if_splits)

lemma strstr_suffix: "strstr s pat = Some t \<Longrightarrow> \<exists>u. s = u @ t"
proof (induction s pat rule: strstr.induct)
  case (2 c cs pat)
  then show ?case by (auto split: if_splits intro: exI [of _ "c # _"])
qed (simp split: if_splits)

lemma strstr_first:
  "\<forall>k<length a. take (length pat) (drop k (a @ pat @ b)) \<noteq> pat \<Longrightarrow> strstr (a @ pat @ b) pat = Some (pat @ b)"
proof (induction a)
  case Nil
  then show ?case by (cases pat; cases b) auto
next
  case (Cons c a)
  from Cons.prems have "\<forall>k<length a. take (length pat) (drop k (a @ pat @ b)) \<noteq> pat"
    using spec [OF Cons.prems, of "Suc _"] by simp
  with Cons.IH Cons.prems show ?case by auto
qed

lemma strstr_char: "strstr s [c] = (if c \<in> set s then Some (dropWhile (\<lambda>x. x \<noteq> c) s) else None)"
  by (induction s) auto

text \<open>\<open>%d\<close> of a number that is not negative.\<close>

fun dec_nat :: "nat \<Rightarrow> string" where
  "dec_nat n = (if n < 10 then [char_of (48 + n)] else dec_nat (n div 10) @ [char_of (48 + n mod 10)])"

declare dec_nat.simps [simp del]

section \<open>The JSON library\<close>

text \<open>What cJSON gives for a text: the tree, its members, strings and numbers.\<close>

record 'j cjson =
  cJSON_Parse :: "string \<Rightarrow> 'j option"
  cJSON_GetObjectItem :: "'j \<Rightarrow> string \<Rightarrow> 'j option"
  cj_valuestring :: "'j \<Rightarrow> string option"
  cj_valueint :: "'j \<Rightarrow> int"

text \<open>What cJSON gives for an array: \<open>cJSON_GetArrayItem\<close> is the child of that place, NULL behind the last.\<close>

record 'j cjson_array = "'j cjson" +
  cj_children :: "'j \<Rightarrow> 'j list"

section \<open>Generic list and map facts\<close>

lemma remove1_eq_filter: "distinct xs \<Longrightarrow> remove1 x xs = filter (\<lambda>y. y \<noteq> x) xs"
  by (auto simp: distinct_remove1_removeAll removeAll_filter_not_eq intro!: filter_cong)

lemma filter_length_le_1_unique:
  "length (filter P xs) \<le> 1 \<Longrightarrow> x \<in> set xs \<Longrightarrow> y \<in> set xs \<Longrightarrow> P x \<Longrightarrow> P y \<Longrightarrow> x = y"
  by (induction xs) (auto simp: filter_empty_conv split: if_splits)

lemma dom_fun_upd_None [simp]: "dom (m(a := None)) = dom m - {a}"
  by auto

end
