(* ===== verification/Audio_Types.thy ===== *)
theory Audio_Types
  imports Alarm_Prelude
begin

text \<open>
  The types of \<open>include/audiomanagerservice.h\<close> that the audio manager and its clients share: the
  application that plays or records, the command, the status a client is notified of, and the
  parameters of \<open>play_start\<close>. Constructors are the enumerators; \<open>code\<close> functions give the C
  values, because the program compares enumerators with \<open><\<close> and \<open>>=\<close> and in one place uses an
  enumerator of one type where another type is meant.
\<close>

datatype AudioAppType =
    AUDIO_APP_WECHAT | AUDIO_APP_VOICE_RECOGNITION | AUDIO_APP_ALARM | AUDIO_APP_HABIT
  | AUDIO_APP_ENGLISH | AUDIO_APP_NOTIFY | AUDIO_APP_REALTIME_PUSH | AUDIO_APP_UNDEFINED

datatype AudioManagerMsg =
    AUDIO_MANAGER_VOL_UP | AUDIO_MANAGER_VOL_DOWN | AUDIO_MANAGER_PLAY_START
  | AUDIO_MANAGER_PLAY_STOP | AUDIO_MANAGER_PLAY_PAUSE | AUDIO_MANAGER_PLAY_RESUME
  | AUDIO_MANAGER_RECORD_START | AUDIO_MANAGER_RECORD_STOP | AUDIO_MANAGER_UNDEFINE

datatype NotifyStatus =
    NOTIFY_STATUS_PLAY_FINISH | NOTIFY_STATUS_PLAY_DISTURBED | NOTIFY_STATUS_PLAY_ERROR
  | NOTIFY_STATUS_PLAY_STOPPED | NOTIFY_STATUS_PLAY_PAUSE | NOTIFY_STATUS_PLAY_RESTART
  | NOTIFY_STATUS_RECORD_STOPPED | NOTIFY_STATUS_RECORD_DISTURBED | NOTIFY_STATUS_RECORD_EXCEED
  | NOTIFY_STATUS_RECORD_ERROR | NOTIFY_STATUS_RECORD_SEND | NOTIFY_STATUS_RECORD_READ
  | NOTIFY_STATUS_COMMAND_IGNORED | NOTIFY_STATUS_UNDEFINE

fun app_code :: "AudioAppType \<Rightarrow> nat" where
  "app_code AUDIO_APP_WECHAT = 0"
| "app_code AUDIO_APP_VOICE_RECOGNITION = 1"
| "app_code AUDIO_APP_ALARM = 2"
| "app_code AUDIO_APP_HABIT = 3"
| "app_code AUDIO_APP_ENGLISH = 4"
| "app_code AUDIO_APP_NOTIFY = 5"
| "app_code AUDIO_APP_REALTIME_PUSH = 6"
| "app_code AUDIO_APP_UNDEFINED = 7"

fun notify_code :: "NotifyStatus \<Rightarrow> nat" where
  "notify_code NOTIFY_STATUS_PLAY_FINISH = 0"
| "notify_code NOTIFY_STATUS_PLAY_DISTURBED = 1"
| "notify_code NOTIFY_STATUS_PLAY_ERROR = 2"
| "notify_code NOTIFY_STATUS_PLAY_STOPPED = 3"
| "notify_code NOTIFY_STATUS_PLAY_PAUSE = 4"
| "notify_code NOTIFY_STATUS_PLAY_RESTART = 5"
| "notify_code NOTIFY_STATUS_RECORD_STOPPED = 6"
| "notify_code NOTIFY_STATUS_RECORD_DISTURBED = 7"
| "notify_code NOTIFY_STATUS_RECORD_EXCEED = 8"
| "notify_code NOTIFY_STATUS_RECORD_ERROR = 9"
| "notify_code NOTIFY_STATUS_RECORD_SEND = 10"
| "notify_code NOTIFY_STATUS_RECORD_READ = 11"
| "notify_code NOTIFY_STATUS_COMMAND_IGNORED = 12"
| "notify_code NOTIFY_STATUS_UNDEFINE = 13"

lemma app_code_inj: "app_code a = app_code b \<Longrightarrow> a = b"
  by (cases a; cases b) simp_all

lemma notify_code_inj: "notify_code a = notify_code b \<Longrightarrow> a = b"
  by (cases a; cases b) simp_all

text \<open>Enumerators compare by their values.\<close>

instantiation AudioAppType :: linorder
begin

definition less_eq_AudioAppType :: "AudioAppType \<Rightarrow> AudioAppType \<Rightarrow> bool" where
  "less_eq_AudioAppType a b = (app_code a \<le> app_code b)"

definition less_AudioAppType :: "AudioAppType \<Rightarrow> AudioAppType \<Rightarrow> bool" where
  "less_AudioAppType a b = (app_code a < app_code b)"

instance
  by intro_classes (auto simp: less_eq_AudioAppType_def less_AudioAppType_def dest: app_code_inj)

end

instantiation NotifyStatus :: linorder
begin

definition less_eq_NotifyStatus :: "NotifyStatus \<Rightarrow> NotifyStatus \<Rightarrow> bool" where
  "less_eq_NotifyStatus a b = (notify_code a \<le> notify_code b)"

definition less_NotifyStatus :: "NotifyStatus \<Rightarrow> NotifyStatus \<Rightarrow> bool" where
  "less_NotifyStatus a b = (notify_code a < notify_code b)"

instance
  by intro_classes (auto simp: less_eq_NotifyStatus_def less_NotifyStatus_def dest: notify_code_inj)

end

lemma app_undefined_top [simp]: "AUDIO_APP_UNDEFINED \<le> a \<longleftrightarrow> a = AUDIO_APP_UNDEFINED"
  by (cases a) (simp_all add: less_eq_AudioAppType_def)

lemma play_status_range:
  "NOTIFY_STATUS_PLAY_FINISH \<le> st \<and> st < NOTIFY_STATUS_RECORD_STOPPED \<longleftrightarrow>
   st \<in> {NOTIFY_STATUS_PLAY_FINISH, NOTIFY_STATUS_PLAY_DISTURBED, NOTIFY_STATUS_PLAY_ERROR,
     NOTIFY_STATUS_PLAY_STOPPED, NOTIFY_STATUS_PLAY_PAUSE, NOTIFY_STATUS_PLAY_RESTART}"
  by (cases st) (simp_all add: less_eq_NotifyStatus_def less_NotifyStatus_def)

text \<open>A client callback is named by a number, the function pointer; \<open>None\<close> is \<open>NULL\<close>.\<close>

record play_param_t =
  pp_play_app_type :: AudioAppType
  pp_is_local_file :: bool
  pp_uri :: "string option"
  pp_tone :: "string option"
  pp_cb :: "addr option"
  pp_cb_param :: "addr option"

end
