(* ===== verification/AudioManager.thy ===== *)
theory AudioManager
  imports Audio_Types
begin

text \<open>
  The audio manager service, \<open>sys/audio_manager/AudioManagerService.c\<close>: the task that owns the
  player and the recorder, and the list of commands its clients have sent.

  \<^item> \<open>ams\<close> is \<open>g_audio_manager\<close> with the memory its pointers reach: \<open>am_head\<close> is the chain of
    command nodes through their \<open>next\<close> fields as a list of addresses, \<open>am_store\<close> the live nodes
    (a node that was freed is not in it), \<open>am_current\<close> the command being executed.
  \<^item> \<open>am_trace\<close> records, in order, every call the manager makes on other parts: client callbacks,
    media player, power amplifier, wake lock, record queue.
  \<^item> \<open>ams_env\<close> is what the code reads from outside during one step: whether the media service
    blocks, positions and lengths it reports, the result of \<open>heap_caps_malloc\<close> and of a queue send.
  \<^item> A handler returns \<open>None\<close> where the C program is undefined (a NULL or dangling command, a
    double free, a string read past its array) or waits for a semaphore nobody will give.
\<close>

section \<open>Data\<close>

datatype audio_manager_state_t =
    AUDIO_MANAGER_ST_IDLE | AUDIO_MANAGER_ST_START_PLAY | AUDIO_MANAGER_ST_PLAYING
  | AUDIO_MANAGER_ST_STOP_PLAY | AUDIO_MANAGER_ST_PAUSE_PLAY | AUDIO_MANAGER_ST_RESUME_PLAY
  | AUDIO_MANAGER_ST_START_RECORD | AUDIO_MANAGER_ST_RECORDING | AUDIO_MANAGER_ST_STOP_RECORD
  | AUDIO_MANAGER_ST_UNDEFINE

datatype audio_type_t = AUDIO_TYPE_SONG | AUDIO_TYPE_TONE | AUDIO_TYPE_UNDEFINE

datatype AudioStatus =
    AUDIO_STATUS_UNKNOWN | AUDIO_STATUS_PLAYING | AUDIO_STATUS_PAUSED | AUDIO_STATUS_FINISHED
  | AUDIO_STATUS_STOP | AUDIO_STATUS_ERROR | AUDIO_STATUS_AUX_IN

record audio_command_t =
  ac_app :: AudioAppType
  ac_cmd :: AudioManagerMsg
  ac_record_type :: string
  ac_tone_path :: string
  ac_file_path :: string
  ac_record_buffer :: "addr option"
  ac_callback :: "addr option"
  ac_callback_param :: "addr option"

datatype ams_event =
    EvNotify addr NotifyStatus AudioAppType AudioManagerMsg "addr option"
  | EvAcquireWakeLock | EvReleaseWakeLock
  | EvSetPlayMode | EvAddUri string | EvGetSongInfo | EvMediaPlay
  | EvMediaPause | EvMediaResume | EvMediaStop | EvSeekByTime nat
  | EvPA bool
  | EvItemTime addr nat
  | EvDeviceStatus nat
  | EvRecordPlayTime
  | EvRecordCmd AudioAppType addr
  | EvSemGiveRun | EvSemSyncStop
  | EvHalSetVolume int | EvSetVolume int | EvNvVolume int

record ams =
  am_state :: audio_manager_state_t
  am_current :: "addr option"
  am_current_type :: audio_type_t
  am_head :: "addr list"
  am_store :: "addr \<rightharpoonup> audio_command_t"
  am_rthread_run :: bool
  am_music_wake_lock :: bool
  am_trace :: "ams_event list"

record ams_env =
  e_blocking :: bool
  e_record_exceed_limit :: bool
  e_pos :: nat
  e_total_time :: nat
  e_item_time :: "addr \<Rightarrow> nat"
  e_record_send_ok :: bool
  e_malloc :: "addr option"
  e_hal_volume :: "int option"
  e_hal_set_ok :: "int \<Rightarrow> bool"
  e_set_volume :: "(int \<Rightarrow> int) option"
  e_get_volume :: "int option"

abbreviation AUDIO_VOLUME_STEP :: int where "AUDIO_VOLUME_STEP \<equiv> 10"
abbreviation TONE_FILE_PATH_SIZE :: nat where "TONE_FILE_PATH_SIZE \<equiv> 64"
abbreviation AUDIO_FILE_PATH_SIZE :: nat where "AUDIO_FILE_PATH_SIZE \<equiv> 2048"
abbreviation AUDIO_RECORD_DESCRIP_SIZE :: nat where "AUDIO_RECORD_DESCRIP_SIZE \<equiv> 32"
abbreviation AUDIO_MANGER_COMMAND_QUEUE_SIZE :: nat where
  "AUDIO_MANGER_COMMAND_QUEUE_SIZE \<equiv> 20"

text \<open>The C values of the two enumerations one search confuses.\<close>

fun msg_code :: "AudioManagerMsg \<Rightarrow> nat" where
  "msg_code AUDIO_MANAGER_VOL_UP = 0"
| "msg_code AUDIO_MANAGER_VOL_DOWN = 1"
| "msg_code AUDIO_MANAGER_PLAY_START = 2"
| "msg_code AUDIO_MANAGER_PLAY_STOP = 3"
| "msg_code AUDIO_MANAGER_PLAY_PAUSE = 4"
| "msg_code AUDIO_MANAGER_PLAY_RESUME = 5"
| "msg_code AUDIO_MANAGER_RECORD_START = 6"
| "msg_code AUDIO_MANAGER_RECORD_STOP = 7"
| "msg_code AUDIO_MANAGER_UNDEFINE = 8"

fun state_code :: "audio_manager_state_t \<Rightarrow> nat" where
  "state_code AUDIO_MANAGER_ST_IDLE = 0"
| "state_code AUDIO_MANAGER_ST_START_PLAY = 1"
| "state_code AUDIO_MANAGER_ST_PLAYING = 2"
| "state_code AUDIO_MANAGER_ST_STOP_PLAY = 3"
| "state_code AUDIO_MANAGER_ST_PAUSE_PLAY = 4"
| "state_code AUDIO_MANAGER_ST_RESUME_PLAY = 5"
| "state_code AUDIO_MANAGER_ST_START_RECORD = 6"
| "state_code AUDIO_MANAGER_ST_RECORDING = 7"
| "state_code AUDIO_MANAGER_ST_STOP_RECORD = 8"
| "state_code AUDIO_MANAGER_ST_UNDEFINE = 9"

definition emit :: "ams_event \<Rightarrow> ams \<Rightarrow> ams" where
  "emit e s = s\<lparr>am_trace := am_trace s @ [e]\<rparr>"

definition emits :: "ams_event list \<Rightarrow> ams \<Rightarrow> ams" where
  "emits es s = s\<lparr>am_trace := am_trace s @ es\<rparr>"

text \<open>\<open>free\<close> of a command node: undefined on a node that is not allocated.\<close>

definition free_cmd :: "addr \<Rightarrow> ams \<Rightarrow> ams option" where
  "free_cmd a s =
     (case am_store s a of
        None \<Rightarrow> None
      | Some _ \<Rightarrow> Some (s\<lparr>am_store := (am_store s)(a := None)\<rparr>))"

section \<open>The command list\<close>

definition insert_cmd :: "addr \<Rightarrow> ams \<Rightarrow> ams" where
  "insert_cmd a s = s\<lparr>am_head := am_head s @ [a]\<rparr>"

text \<open>
  \<open>delete_cmd\<close> returns \<open>found\<close>, which stays false when the head itself is unlinked; on an
  empty list it reads through the NULL head.
\<close>

definition delete_cmd :: "addr \<Rightarrow> ams \<Rightarrow> (ams \<times> bool) option" where
  "delete_cmd a s =
     (case am_head s of
        [] \<Rightarrow> None
      | h # t \<Rightarrow>
          if h = a then Some (s\<lparr>am_head := t\<rparr>, False)
          else Some (s\<lparr>am_head := h # remove1 a t\<rparr>, a \<in> set t))"

fun find_last_cmd :: "(audio_command_t \<Rightarrow> bool) \<Rightarrow> (addr \<rightharpoonup> audio_command_t) \<Rightarrow> addr option
    \<Rightarrow> addr list \<Rightarrow> addr option option" where
  "find_last_cmd P m pos [] = Some pos"
| "find_last_cmd P m pos (a # as) =
     (case m a of
        None \<Rightarrow> None
      | Some c \<Rightarrow> find_last_cmd P m (if P c then Some a else pos) as)"

definition search_cmd_by_app ::
    "ams \<Rightarrow> AudioAppType \<Rightarrow> addr option \<Rightarrow> addr option option" where
  "search_cmd_by_app s app pos =
     find_node (\<lambda>c. ac_app c = app) (am_store s)
       (case pos of None \<Rightarrow> am_head s | Some p \<Rightarrow> tl (dropWhile (\<lambda>a. a \<noteq> p) (am_head s)))"

definition is_start :: "audio_command_t \<Rightarrow> bool" where
  "is_start c \<longleftrightarrow>
     ac_cmd c = AUDIO_MANAGER_PLAY_START \<or> ac_cmd c = AUDIO_MANAGER_RECORD_START"

definition search_last_start_cmd :: "ams \<Rightarrow> addr option option" where
  "search_last_start_cmd s = find_last_cmd is_start (am_store s) None (am_head s)"

definition search_app_cmd_by_msg ::
    "ams \<Rightarrow> AudioAppType \<Rightarrow> AudioManagerMsg \<Rightarrow> addr option option" where
  "search_app_cmd_by_msg s app msg =
     (if app \<noteq> AUDIO_APP_UNDEFINED
      then find_node (\<lambda>c. ac_cmd c = msg \<and> ac_app c = app) (am_store s) (am_head s)
      else find_node (\<lambda>c. ac_cmd c = msg) (am_store s) (am_head s))"

text \<open>A search for an enumerator of the other enumeration compares its value.\<close>

definition search_app_cmd_by_code :: "ams \<Rightarrow> AudioAppType \<Rightarrow> nat \<Rightarrow> addr option option" where
  "search_app_cmd_by_code s app msg =
     (if app \<noteq> AUDIO_APP_UNDEFINED
      then find_node (\<lambda>c. msg_code (ac_cmd c) = msg \<and> ac_app c = app) (am_store s) (am_head s)
      else find_node (\<lambda>c. msg_code (ac_cmd c) = msg) (am_store s) (am_head s))"

section \<open>Notifying clients\<close>

definition notify_app_status :: "addr \<Rightarrow> NotifyStatus \<Rightarrow> ams \<Rightarrow> ams option" where
  "notify_app_status a status s = do {
     c \<leftarrow> am_store s a;
     let s1 = (if NOTIFY_STATUS_PLAY_FINISH \<le> status \<and> status < NOTIFY_STATUS_RECORD_STOPPED
                  \<and> am_music_wake_lock s
               then emit EvReleaseWakeLock s else s);
     Some (case ac_callback c of
             None \<Rightarrow> s1
           | Some f \<Rightarrow> emit (EvNotify f status (ac_app c) (ac_cmd c) (ac_callback_param c)) s1)
   }"

definition notify_current :: "NotifyStatus \<Rightarrow> ams \<Rightarrow> ams option" where
  "notify_current status s = do { a \<leftarrow> am_current s; notify_app_status a status s }"

text \<open>\<open>state = IDLE; free(current); current = NULL\<close>; \<open>free(NULL)\<close> does nothing.\<close>

definition drop_current :: "ams \<Rightarrow> ams option" where
  "drop_current s =
     (case am_current s of
        None \<Rightarrow> Some (s\<lparr>am_state := AUDIO_MANAGER_ST_IDLE\<rparr>)
      | Some a \<Rightarrow> do {
          s1 \<leftarrow> free_cmd a (s\<lparr>am_state := AUDIO_MANAGER_ST_IDLE\<rparr>);
          Some (s1\<lparr>am_current := None\<rparr>) })"

definition set_type :: "audio_type_t \<Rightarrow> ams \<Rightarrow> ams" where
  "set_type t s = s\<lparr>am_current_type := t\<rparr>"

section \<open>Executing one command\<close>

definition story_app :: "AudioAppType \<Rightarrow> bool" where
  "story_app app \<longleftrightarrow> app = AUDIO_APP_HABIT \<or> app = AUDIO_APP_ENGLISH"

text \<open>The command argument of pause and resume is never read, and never freed.\<close>

definition execute_pause_command :: "ams_env \<Rightarrow> ams \<Rightarrow> (ams \<times> bool) option" where
  "execute_pause_command e s =
     (case am_current s of
        None \<Rightarrow> Some (s, True)
      | Some _ \<Rightarrow>
         (case am_state s of
            AUDIO_MANAGER_ST_PLAYING \<Rightarrow>
              if \<not> e_blocking e then do {
                s1 \<leftarrow> notify_current NOTIFY_STATUS_PLAY_PAUSE (emit EvMediaPause s);
                Some (s1\<lparr>am_state := AUDIO_MANAGER_ST_PAUSE_PLAY\<rparr>, True) }
              else Some (s, False)
          | AUDIO_MANAGER_ST_IDLE \<Rightarrow> Some (s, True)
          | _ \<Rightarrow> Some (s, False)))"

definition acquire_music_lock :: "ams \<Rightarrow> ams" where
  "acquire_music_lock s = (if am_music_wake_lock s then emit EvAcquireWakeLock s else s)"

definition execute_resume_command :: "ams_env \<Rightarrow> ams \<Rightarrow> (ams \<times> bool) option" where
  "execute_resume_command e s =
     (case am_current s of
        None \<Rightarrow> Some (s, True)
      | Some _ \<Rightarrow>
         (case am_state s of
            AUDIO_MANAGER_ST_PAUSE_PLAY \<Rightarrow>
              if \<not> e_blocking e then
                Some ((emit EvMediaResume (acquire_music_lock s))
                        \<lparr>am_state := AUDIO_MANAGER_ST_PLAYING\<rparr>, True)
              else Some (s, False)
          | AUDIO_MANAGER_ST_IDLE \<Rightarrow> Some (s, True)
          | _ \<Rightarrow> Some (s, False)))"

text \<open>
  Stopping the current command: the played position goes into the story item it was given, the
  stop command is freed before the client hears \<open>STOPPED\<close>; with no stop command it hears
  \<open>DISTURBED\<close>.
\<close>

definition record_item_time :: "ams_env \<Rightarrow> audio_command_t \<Rightarrow> ams \<Rightarrow> ams" where
  "record_item_time e c s =
     (case ac_callback_param c of
        Some p \<Rightarrow> if story_app (ac_app c) then emit (EvItemTime p (e_pos e)) s else s
      | None \<Rightarrow> s)"

definition stop_playing :: "ams_env \<Rightarrow> addr option \<Rightarrow> ams \<Rightarrow> (ams \<times> bool) option" where
  "stop_playing e command s =
     (if \<not> e_blocking e then do {
        cur \<leftarrow> am_current s;
        c \<leftarrow> am_store s cur;
        let s1 = emits [EvPA False, EvMediaStop] (record_item_time e c s);
        s2 \<leftarrow> (case command of
                 Some a \<Rightarrow> do {
                   s' \<leftarrow> free_cmd a s1;
                   notify_current NOTIFY_STATUS_PLAY_STOPPED s' }
               | None \<Rightarrow> notify_current NOTIFY_STATUS_PLAY_DISTURBED s1);
        Some (s2\<lparr>am_state := AUDIO_MANAGER_ST_STOP_PLAY\<rparr>, True) }
      else Some (s, False))"

definition stop_recording :: "addr option \<Rightarrow> ams \<Rightarrow> (ams \<times> bool) option" where
  "stop_recording command s = do {
     let s1 = emits [EvSemGiveRun, EvSemSyncStop] (s\<lparr>am_rthread_run := True\<rparr>);
     s2 \<leftarrow> (case command of
              Some a \<Rightarrow> do {
                s' \<leftarrow> free_cmd a s1;
                notify_current NOTIFY_STATUS_RECORD_STOPPED s' }
            | None \<Rightarrow> notify_current NOTIFY_STATUS_RECORD_DISTURBED s1);
     Some (s2\<lparr>am_state := AUDIO_MANAGER_ST_STOP_RECORD\<rparr>, True) }"

definition execute_stop_command ::
    "ams_env \<Rightarrow> addr option \<Rightarrow> ams \<Rightarrow> (ams \<times> bool) option" where
  "execute_stop_command e command s =
     (case am_current s of
        None \<Rightarrow> Some (s, True)
      | Some _ \<Rightarrow>
         (case am_state s of
            AUDIO_MANAGER_ST_PLAYING \<Rightarrow> stop_playing e command s
          | AUDIO_MANAGER_ST_PAUSE_PLAY \<Rightarrow> stop_playing e command s
          | AUDIO_MANAGER_ST_RECORDING \<Rightarrow> stop_recording command s
          | AUDIO_MANAGER_ST_IDLE \<Rightarrow> Some (s, True)
          | _ \<Rightarrow> Some (s, False)))"

text \<open>
  Starting a command while nothing is current. A command with a tone plays the tone first and
  clears the path, so that the same command plays its song when the tone has finished. The
  record semaphore is taken with no time limit: a handler that meets it taken never returns.
\<close>

definition play_uri :: "string \<Rightarrow> bool \<Rightarrow> ams \<Rightarrow> ams" where
  "play_uri uri song s =
     emits ([EvSetPlayMode, EvAddUri uri] @ (if song then [EvGetSongInfo] else []) @ [EvMediaPlay]) s"

definition story_started :: "ams_env \<Rightarrow> audio_command_t \<Rightarrow> ams \<Rightarrow> ams" where
  "story_started e c s =
     (if am_current_type s = AUDIO_TYPE_SONG \<and> story_app (ac_app c)
      then emit (EvDeviceStatus (e_total_time e))
             (case ac_callback_param c of
                Some p \<Rightarrow> if e_item_time e p div 1000 > 0
                          then emit (EvSeekByTime (e_item_time e p div 1000)) s else s
              | None \<Rightarrow> s)
      else s)"

definition start_play :: "ams_env \<Rightarrow> addr \<Rightarrow> audio_command_t \<Rightarrow> ams \<Rightarrow> ams option" where
  "start_play e a c s = do {
     let s1 = acquire_music_lock s;
     s2 \<leftarrow> (if ac_tone_path c \<noteq> [] then do {
              uri \<leftarrow> c_str TONE_FILE_PATH_SIZE (ac_tone_path c);
              Some ((play_uri uri False s1)
                \<lparr>am_store := (am_store s)(a \<mapsto> c\<lparr>ac_tone_path := []\<rparr>),
                 am_current := Some a, am_current_type := AUDIO_TYPE_TONE,
                 am_state := AUDIO_MANAGER_ST_START_PLAY\<rparr>) }
            else do {
              uri \<leftarrow> c_str AUDIO_FILE_PATH_SIZE (ac_file_path c);
              Some ((play_uri uri True s1)
                \<lparr>am_current := Some a, am_current_type := AUDIO_TYPE_SONG,
                 am_state := AUDIO_MANAGER_ST_START_PLAY\<rparr>) });
     Some (story_started e c (emit (EvPA True) s2)) }"

definition start_record :: "ams_env \<Rightarrow> addr \<Rightarrow> audio_command_t \<Rightarrow> ams \<Rightarrow> (ams \<times> bool) option" where
  "start_record e a c s =
     (if \<not> am_rthread_run s then None
      else if e_record_send_ok e
      then Some ((emit (EvRecordCmd (ac_app c) a) s)
                   \<lparr>am_rthread_run := False, am_current := Some a,
                    am_state := AUDIO_MANAGER_ST_START_RECORD\<rparr>, True)
      else Some (emit EvSemGiveRun s, False))"

definition execute_start_command :: "ams_env \<Rightarrow> addr \<Rightarrow> ams \<Rightarrow> (ams \<times> bool) option" where
  "execute_start_command e a s =
     (case am_current s of
        None \<Rightarrow> do {
          c \<leftarrow> am_store s a;
          (case ac_cmd c of
             AUDIO_MANAGER_PLAY_START \<Rightarrow>
               if \<not> e_blocking e then do { s1 \<leftarrow> start_play e a c s; Some (s1, True) }
               else Some (s, False)
           | AUDIO_MANAGER_RECORD_START \<Rightarrow> start_record e a c s
           | _ \<Rightarrow> Some (s, False)) }
      | Some _ \<Rightarrow> Some (s, True))"

text \<open>Every command still in the list is answered \<open>IGNORED\<close> and freed, from the head.\<close>

fun ignore_nodes :: "addr list \<Rightarrow> ams \<Rightarrow> ams option" where
  "ignore_nodes [] s = Some s"
| "ignore_nodes (a # as) s = do {
     r \<leftarrow> delete_cmd a s;
     s1 \<leftarrow> notify_app_status a NOTIFY_STATUS_COMMAND_IGNORED (fst r);
     s2 \<leftarrow> free_cmd a s1;
     ignore_nodes as s2 }"

definition ignore_all_command :: "ams \<Rightarrow> ams option" where
  "ignore_all_command s = ignore_nodes (am_head s) s"

section \<open>Player status\<close>

text \<open>
  \<open>update_audio_manager_state\<close>, one function per state the manager can be in. \<open>fail_play\<close> and
  \<open>end_record\<close> are the bodies its branches repeat.
\<close>

definition end_play :: "NotifyStatus \<Rightarrow> ams \<Rightarrow> ams option" where
  "end_play status s = do {
     s1 \<leftarrow> notify_current status (emit (EvPA False) s);
     s2 \<leftarrow> drop_current s1;
     Some (set_type AUDIO_TYPE_UNDEFINE s2) }"

definition end_record :: "NotifyStatus \<Rightarrow> ams \<Rightarrow> ams option" where
  "end_record status s = do {
     s1 \<leftarrow> notify_current status (emit EvSemGiveRun (s\<lparr>am_rthread_run := True\<rparr>));
     drop_current s1 }"

definition update_start_play :: "AudioStatus \<Rightarrow> ams \<Rightarrow> ams option" where
  "update_start_play st s =
     (if st = AUDIO_STATUS_PLAYING then do {
        a \<leftarrow> am_current s;
        c \<leftarrow> am_store s a;
        Some ((if story_app (ac_app c) \<and> am_current_type s = AUDIO_TYPE_SONG
               then emit EvRecordPlayTime s else s)\<lparr>am_state := AUDIO_MANAGER_ST_PLAYING\<rparr>) }
      else if st = AUDIO_STATUS_ERROR then end_play NOTIFY_STATUS_PLAY_ERROR s
      else Some s)"

definition update_playing :: "ams_env \<Rightarrow> AudioStatus \<Rightarrow> ams \<Rightarrow> ams option" where
  "update_playing e st s =
     (if st = AUDIO_STATUS_STOP \<or> st = AUDIO_STATUS_FINISHED then
        (if am_current_type s = AUDIO_TYPE_TONE then do {
           temp \<leftarrow> am_current s;
           r \<leftarrow> execute_start_command e temp
                  (s\<lparr>am_state := AUDIO_MANAGER_ST_IDLE, am_current := None\<rparr>);
           Some (fst r) }
         else end_play NOTIFY_STATUS_PLAY_FINISH s)
      else if st = AUDIO_STATUS_ERROR then end_play NOTIFY_STATUS_PLAY_ERROR s
      else Some s)"

definition update_stop_play :: "AudioStatus \<Rightarrow> ams \<Rightarrow> ams option" where
  "update_stop_play st s =
     (if st = AUDIO_STATUS_STOP \<or> st = AUDIO_STATUS_FINISHED \<or> st = AUDIO_STATUS_ERROR
      then do { s1 \<leftarrow> drop_current s; Some (set_type AUDIO_TYPE_UNDEFINE s1) }
      else Some s)"

definition update_pause_play :: "AudioStatus \<Rightarrow> ams \<Rightarrow> ams option" where
  "update_pause_play st s =
     (if st = AUDIO_STATUS_PAUSED then Some (s\<lparr>am_state := AUDIO_MANAGER_ST_PAUSE_PLAY\<rparr>)
      else if st = AUDIO_STATUS_ERROR then end_play NOTIFY_STATUS_PLAY_ERROR s
      else Some s)"

definition update_resume_play :: "AudioStatus \<Rightarrow> ams \<Rightarrow> ams option" where
  "update_resume_play st s =
     (if st = AUDIO_STATUS_PLAYING then Some (s\<lparr>am_state := AUDIO_MANAGER_ST_PLAYING\<rparr>)
      else if st = AUDIO_STATUS_ERROR then end_play NOTIFY_STATUS_PLAY_ERROR s
      else Some s)"

definition update_start_record :: "AudioStatus \<Rightarrow> ams \<Rightarrow> ams option" where
  "update_start_record st s =
     (if st = AUDIO_STATUS_PLAYING then Some (s\<lparr>am_state := AUDIO_MANAGER_ST_RECORDING\<rparr>)
      else if st = AUDIO_STATUS_ERROR then end_record NOTIFY_STATUS_RECORD_ERROR s
      else Some s)"

definition update_recording :: "ams_env \<Rightarrow> AudioStatus \<Rightarrow> ams \<Rightarrow> ams option" where
  "update_recording e st s =
     (if st = AUDIO_STATUS_STOP \<or> st = AUDIO_STATUS_FINISHED then
        end_record (if e_record_exceed_limit e then NOTIFY_STATUS_RECORD_EXCEED
                    else NOTIFY_STATUS_RECORD_STOPPED) s
      else if st = AUDIO_STATUS_ERROR then end_record NOTIFY_STATUS_RECORD_ERROR s
      else Some s)"

definition update_stop_record :: "AudioStatus \<Rightarrow> ams \<Rightarrow> ams option" where
  "update_stop_record st s =
     (if st = AUDIO_STATUS_STOP \<or> st = AUDIO_STATUS_FINISHED \<or> st = AUDIO_STATUS_ERROR
      then drop_current s else Some s)"

definition update_audio_manager_state :: "ams_env \<Rightarrow> AudioStatus \<Rightarrow> ams \<Rightarrow> ams option" where
  "update_audio_manager_state e st s =
     (case am_state s of
        AUDIO_MANAGER_ST_START_PLAY \<Rightarrow> update_start_play st s
      | AUDIO_MANAGER_ST_PLAYING \<Rightarrow> update_playing e st s
      | AUDIO_MANAGER_ST_STOP_PLAY \<Rightarrow> update_stop_play st s
      | AUDIO_MANAGER_ST_PAUSE_PLAY \<Rightarrow> update_pause_play st s
      | AUDIO_MANAGER_ST_RESUME_PLAY \<Rightarrow> update_resume_play st s
      | AUDIO_MANAGER_ST_START_RECORD \<Rightarrow> update_start_record st s
      | AUDIO_MANAGER_ST_RECORDING \<Rightarrow> update_recording e st s
      | AUDIO_MANAGER_ST_STOP_RECORD \<Rightarrow> update_stop_record st s
      | _ \<Rightarrow> Some s)"

section \<open>Choosing the command to execute\<close>

definition delay_process :: "ams \<Rightarrow> bool" where
  "delay_process s \<longleftrightarrow> am_state s \<in>
     {AUDIO_MANAGER_ST_START_PLAY, AUDIO_MANAGER_ST_STOP_PLAY,
      AUDIO_MANAGER_ST_START_RECORD, AUDIO_MANAGER_ST_STOP_RECORD}"

definition stop_msg :: "ams \<Rightarrow> AudioManagerMsg" where
  "stop_msg s = (if am_state s = AUDIO_MANAGER_ST_PLAYING then AUDIO_MANAGER_PLAY_STOP
                 else AUDIO_MANAGER_RECORD_STOP)"

definition current_app :: "ams \<Rightarrow> AudioAppType option" where
  "current_app s = do { a \<leftarrow> am_current s; c \<leftarrow> am_store s a; Some (ac_app c) }"

text \<open>Unlink the stop command of the current application, if there is one.\<close>

definition take_stop_cmd :: "ams \<Rightarrow> (ams \<times> addr option) option" where
  "take_stop_cmd s = do {
     app \<leftarrow> current_app s;
     stop_cmd \<leftarrow> search_app_cmd_by_msg s app (stop_msg s);
     (case stop_cmd of
        None \<Rightarrow> Some (s, None)
      | Some a \<Rightarrow> do { r \<leftarrow> delete_cmd a s; Some (fst r, Some a) }) }"

text \<open>Stop what is current, with its stop command if it has sent one.\<close>

definition stop_current :: "ams_env \<Rightarrow> ams \<Rightarrow> ams option" where
  "stop_current e s = do {
     r \<leftarrow> take_stop_cmd s;
     r' \<leftarrow> execute_stop_command e (snd r) (fst r);
     Some (fst r') }"

text \<open>
  With a start command of \<open>start_app\<close> in the list: if the same application sent something
  later, nothing is started; otherwise the start command is executed, after the current one has
  been stopped and the player has reported it.
\<close>

definition execute_with_start :: "ams_env \<Rightarrow> addr \<Rightarrow> ams \<Rightarrow> ams option" where
  "execute_with_start e start_cmd s = do {
     c \<leftarrow> am_store s start_cmd;
     lastest \<leftarrow> search_cmd_by_app s (ac_app c) (Some start_cmd);
     (case lastest of
        Some _ \<Rightarrow> do {
          s1 \<leftarrow> (if am_current s \<noteq> None then stop_current e s else Some s);
          ignore_all_command s1 }
      | None \<Rightarrow> do {
          r \<leftarrow> delete_cmd start_cmd s;
          (if am_current (fst r) \<noteq> None then do {
             s1 \<leftarrow> stop_current e (fst r);
             s2 \<leftarrow> ignore_all_command s1;
             Some (insert_cmd start_cmd s2) }
           else do {
             r1 \<leftarrow> execute_start_command e start_cmd (fst r);
             ignore_all_command (fst r1) }) }) }"

text \<open>
  A command the code looks for by an enumerator of \<open>audio_manager_state_t\<close>, when the manager
  is in state \<open>st\<close>; in any other state it looks for \<open>AUDIO_MANAGER_UNDEFINE\<close>.
\<close>

definition search_by_state :: "ams \<Rightarrow> audio_manager_state_t \<Rightarrow> audio_manager_state_t
    \<Rightarrow> addr option option" where
  "search_by_state s st as_msg = do {
     app \<leftarrow> current_app s;
     search_app_cmd_by_code s app
       (if am_state s = st then state_code as_msg else msg_code AUDIO_MANAGER_UNDEFINE) }"

definition stop_if_asked :: "ams_env \<Rightarrow> ams \<Rightarrow> ams option" where
  "stop_if_asked e s = do {
     app \<leftarrow> current_app s;
     stop_cmd \<leftarrow> search_app_cmd_by_msg s app (stop_msg s);
     (case stop_cmd of
        None \<Rightarrow> Some s
      | Some a \<Rightarrow> do {
          r \<leftarrow> delete_cmd a s;
          r' \<leftarrow> execute_stop_command e (Some a) (fst r);
          Some (fst r') }) }"

definition pause_resume_or_stop :: "ams_env \<Rightarrow> ams \<Rightarrow> ams option" where
  "pause_resume_or_stop e s = do {
     stop_cmd \<leftarrow> search_by_state s AUDIO_MANAGER_ST_PAUSE_PLAY AUDIO_MANAGER_ST_STOP_PLAY;
     (case stop_cmd of
        Some a \<Rightarrow> do {
          r \<leftarrow> delete_cmd a s;
          r' \<leftarrow> execute_stop_command e (Some a) (fst r);
          Some (fst r') }
      | None \<Rightarrow> do {
          pause_cmd \<leftarrow> search_by_state s AUDIO_MANAGER_ST_PLAYING AUDIO_MANAGER_ST_PAUSE_PLAY;
          (case pause_cmd of
             Some a \<Rightarrow> do {
               r \<leftarrow> delete_cmd a s;
               r' \<leftarrow> execute_pause_command e (fst r);
               Some (fst r') }
           | None \<Rightarrow> do {
               resume_cmd \<leftarrow>
                 search_by_state s AUDIO_MANAGER_ST_PAUSE_PLAY AUDIO_MANAGER_ST_RESUME_PLAY;
               (case resume_cmd of
                  Some a \<Rightarrow> do {
                    r \<leftarrow> delete_cmd a s;
                    r' \<leftarrow> execute_resume_command e (fst r);
                    Some (fst r') }
                | None \<Rightarrow> Some s) }) }) }"

definition execute_without_start :: "ams_env \<Rightarrow> ams \<Rightarrow> ams option" where
  "execute_without_start e s = do {
     s1 \<leftarrow> (if am_current s \<noteq> None
            then Option.bind (stop_if_asked e s) (pause_resume_or_stop e) else Some s);
     ignore_all_command s1 }"

definition execute_audio_command :: "ams_env \<Rightarrow> ams \<Rightarrow> (ams \<times> bool) option" where
  "execute_audio_command e s =
     (if delay_process s then Some (s, True)
      else if am_head s = [] then Some (s, False)
      else do {
        start_cmd \<leftarrow> search_last_start_cmd s;
        s1 \<leftarrow> (case start_cmd of
                 Some a \<Rightarrow> execute_with_start e a s
               | None \<Rightarrow> execute_without_start e s);
        Some (s1, False) })"

section \<open>The task\<close>

datatype ams_input = Command audio_command_t | Player AudioStatus

definition volume_blocking :: "ams_env \<Rightarrow> (int \<Rightarrow> int) \<Rightarrow> ams \<Rightarrow> ams" where
  "volume_blocking e change s =
     (case e_hal_volume e of
        None \<Rightarrow> s
      | Some vol \<Rightarrow>
          if e_hal_set_ok e (change vol)
          then emits [EvHalSetVolume (change vol), EvNvVolume (change vol)] s
          else emit (EvHalSetVolume (change vol)) s)"

definition volume_service :: "ams_env \<Rightarrow> int \<Rightarrow> ams \<Rightarrow> ams" where
  "volume_service e amount s =
     (case e_set_volume e of
        None \<Rightarrow> s
      | Some f \<Rightarrow>
          if f amount < 0 then emit (EvSetVolume amount) s
          else (case e_get_volume e of
                  None \<Rightarrow> emit (EvSetVolume amount) s
                | Some v \<Rightarrow> emits [EvSetVolume amount, EvNvVolume v] s))"

definition vol_up :: "int \<Rightarrow> int" where
  "vol_up vol = (if vol + AUDIO_VOLUME_STEP > 100 then vol else vol + AUDIO_VOLUME_STEP)"

definition vol_down :: "int \<Rightarrow> int" where
  "vol_down vol = (if vol - AUDIO_VOLUME_STEP < 0 then vol else vol - AUDIO_VOLUME_STEP)"

definition command_received :: "ams_env \<Rightarrow> audio_command_t \<Rightarrow> ams \<Rightarrow> ams option" where
  "command_received e c s =
     (case ac_cmd c of
        AUDIO_MANAGER_VOL_UP \<Rightarrow>
          Some (if e_blocking e then volume_blocking e vol_up s
                else volume_service e AUDIO_VOLUME_STEP s)
      | AUDIO_MANAGER_VOL_DOWN \<Rightarrow>
          Some (if e_blocking e then volume_blocking e vol_down s
                else volume_service e (1 - AUDIO_VOLUME_STEP) s)
      | AUDIO_MANAGER_UNDEFINE \<Rightarrow> Some s
      | _ \<Rightarrow> do {
          r \<leftarrow> execute_audio_command e
                 (case e_malloc e of
                    None \<Rightarrow> s
                  | Some a \<Rightarrow> insert_cmd a (s\<lparr>am_store := (am_store s)(a \<mapsto> c)\<rparr>));
          Some (fst r) })"

definition AudioManagerServiceTask :: "ams_env \<times> ams_input \<Rightarrow> ams \<Rightarrow> ams option" where
  "AudioManagerServiceTask i s =
     (case i of
        (e, Command c) \<Rightarrow> command_received e c s
      | (e, Player st) \<Rightarrow> do {
          s1 \<leftarrow> update_audio_manager_state e st s;
          r \<leftarrow> execute_audio_command e s1;
          Some (fst r) })"

definition ams_init :: "bool \<Rightarrow> ams" where
  "ams_init wake_lock =
     \<lparr>am_state = AUDIO_MANAGER_ST_IDLE, am_current = None, am_current_type = AUDIO_TYPE_SONG,
      am_head = [], am_store = Map.empty, am_rthread_run = True, am_music_wake_lock = wake_lock,
      am_trace = []\<rparr>"

end
