(* ===== verification/AudioManager_Inv.thy ===== *)
theory AudioManager_Inv
  imports AudioManager
begin

text \<open>
  The invariant of the audio manager and the proof that every handler keeps it. \<open>ams_inv X s\<close>
  says that the command list has no duplicates and only live nodes, that the current command is
  live, not in the list and of the kind (play or record) the state says, that the record
  semaphore is taken exactly while a recording starts or runs, and that the nodes \<open>X\<close>, which a
  handler has unlinked and holds in local variables, are live and in nobody's list. Every handler
  is total on the invariant: it never reads a freed node, frees one twice, overruns a path array
  or waits for the record semaphore forever. The task with these inputs is an instance of
  \<open>safe_machine\<close>.
\<close>

section \<open>Reading the record through trace updates\<close>

lemma emit_fields [simp]:
  "am_state (emit ev s) = am_state s" "am_current (emit ev s) = am_current s"
  "am_current_type (emit ev s) = am_current_type s" "am_head (emit ev s) = am_head s"
  "am_store (emit ev s) = am_store s" "am_rthread_run (emit ev s) = am_rthread_run s"
  "am_music_wake_lock (emit ev s) = am_music_wake_lock s"
  "am_trace (emit ev s) = am_trace s @ [ev]"
  by (simp_all add: emit_def)

lemma emits_fields [simp]:
  "am_state (emits es s) = am_state s" "am_current (emits es s) = am_current s"
  "am_current_type (emits es s) = am_current_type s" "am_head (emits es s) = am_head s"
  "am_store (emits es s) = am_store s" "am_rthread_run (emits es s) = am_rthread_run s"
  "am_music_wake_lock (emits es s) = am_music_wake_lock s"
  "am_trace (emits es s) = am_trace s @ es"
  by (simp_all add: emits_def)

text \<open>What \<open>notify_app_status\<close> adds to the trace.\<close>

definition notify_events :: "bool \<Rightarrow> audio_command_t \<Rightarrow> NotifyStatus \<Rightarrow> ams_event list" where
  "notify_events wake c status =
     (if NOTIFY_STATUS_PLAY_FINISH \<le> status \<and> status < NOTIFY_STATUS_RECORD_STOPPED \<and> wake
      then [EvReleaseWakeLock] else []) @
     (case ac_callback c of None \<Rightarrow> []
      | Some f \<Rightarrow> [EvNotify f status (ac_app c) (ac_cmd c) (ac_callback_param c)])"

lemma notify_app_status_eq:
  "am_store s a = Some c \<Longrightarrow>
   notify_app_status a status s = Some (emits (notify_events (am_music_wake_lock s) c status) s)"
  by (auto simp: notify_app_status_def notify_events_def emits_def emit_def Let_def
      split: option.splits)

lemma notify_current_eq:
  "am_current s = Some a \<Longrightarrow> am_store s a = Some c \<Longrightarrow>
   notify_current status s = Some (emits (notify_events (am_music_wake_lock s) c status) s)"
  by (simp add: notify_current_def notify_app_status_eq)

section \<open>The invariant\<close>

definition play_states :: "audio_manager_state_t set" where
  "play_states = {AUDIO_MANAGER_ST_START_PLAY, AUDIO_MANAGER_ST_PLAYING,
     AUDIO_MANAGER_ST_STOP_PLAY, AUDIO_MANAGER_ST_PAUSE_PLAY}"

definition record_states :: "audio_manager_state_t set" where
  "record_states = {AUDIO_MANAGER_ST_START_RECORD, AUDIO_MANAGER_ST_RECORDING,
     AUDIO_MANAGER_ST_STOP_RECORD}"

definition cmd_ok :: "audio_command_t \<Rightarrow> bool" where
  "cmd_ok c \<longleftrightarrow> length (ac_tone_path c) < TONE_FILE_PATH_SIZE
     \<and> length (ac_file_path c) < AUDIO_FILE_PATH_SIZE"

definition current_ok :: "addr set \<Rightarrow> ams \<Rightarrow> bool" where
  "current_ok X s \<longleftrightarrow>
     (case am_current s of
        None \<Rightarrow> am_state s = AUDIO_MANAGER_ST_IDLE
      | Some a \<Rightarrow> a \<notin> X \<and> a \<notin> set (am_head s) \<and>
          (\<exists>c. am_store s a = Some c \<and>
             (am_state s \<in> play_states \<and> ac_cmd c = AUDIO_MANAGER_PLAY_START \<or>
              am_state s \<in> record_states \<and> ac_cmd c = AUDIO_MANAGER_RECORD_START)))"

text \<open>\<open>X\<close>: nodes a handler holds in its local variables.\<close>

definition ams_inv :: "addr set \<Rightarrow> ams \<Rightarrow> bool" where
  "ams_inv X s \<longleftrightarrow>
     distinct (am_head s) \<and> set (am_head s) \<subseteq> dom (am_store s) \<and>
     X \<subseteq> dom (am_store s) \<and> X \<inter> set (am_head s) = {} \<and>
     (\<forall>a c. am_store s a = Some c \<longrightarrow> cmd_ok c) \<and>
     current_ok X s \<and>
     (am_rthread_run s \<longleftrightarrow>
        am_state s \<notin> {AUDIO_MANAGER_ST_START_RECORD, AUDIO_MANAGER_ST_RECORDING})"

lemma inv_emit [simp]: "ams_inv X (emit ev s) = ams_inv X s"
  by (simp add: ams_inv_def current_ok_def cong: option.case_cong)

lemma inv_emits [simp]: "ams_inv X (emits es s) = ams_inv X s"
  by (simp add: ams_inv_def current_ok_def cong: option.case_cong)

lemma inv_set_type [simp]: "ams_inv X (s\<lparr>am_current_type := t\<rparr>) = ams_inv X s"
  by (simp add: ams_inv_def current_ok_def cong: option.case_cong)

lemma inv_current:
  assumes "ams_inv X s" "am_current s = Some a"
  obtains c where "am_store s a = Some c" "a \<notin> X" "a \<notin> set (am_head s)" "cmd_ok c"
    "am_state s \<in> play_states \<and> ac_cmd c = AUDIO_MANAGER_PLAY_START \<or>
     am_state s \<in> record_states \<and> ac_cmd c = AUDIO_MANAGER_RECORD_START"
  using assms by (auto simp: ams_inv_def current_ok_def)

lemma inv_idle: "ams_inv X s \<Longrightarrow> am_current s = None \<longleftrightarrow> am_state s = AUDIO_MANAGER_ST_IDLE"
  by (auto simp: ams_inv_def current_ok_def play_states_def record_states_def split: option.splits)

section \<open>The command list as a linked list\<close>

lemma delete_cmd_eq:
  "a \<in> set (am_head s) \<Longrightarrow> \<exists>b. delete_cmd a s = Some (s\<lparr>am_head := remove1 a (am_head s)\<rparr>, b)"
  by (auto simp: delete_cmd_def split: list.splits)

interpretation cmds: tail_list am_head insert_cmd "\<lambda>a s. fst (the (delete_cmd a s))"
proof unfold_locales
  show "am_head (insert_cmd a s) = am_head s @ [a]" for a s
    by (simp add: insert_cmd_def)
  show "am_head (fst (the (delete_cmd a s))) = remove1 a (am_head s)"
    if "a \<in> set (am_head s)" for a s
    using delete_cmd_eq [OF that] by auto
qed

lemma delete_cmd_inv:
  assumes "ams_inv X s" "a \<in> set (am_head s)"
  shows "\<exists>s' b. delete_cmd a s = Some (s', b) \<and> s' = s\<lparr>am_head := remove1 a (am_head s)\<rparr>
    \<and> a \<notin> X \<and> ams_inv (insert a X) s'"
proof -
  obtain b where b: "delete_cmd a s = Some (s\<lparr>am_head := remove1 a (am_head s)\<rparr>, b)"
    using delete_cmd_eq [OF assms(2)] by blast
  then have eq: "am_head (fst (the (delete_cmd a s))) = remove1 a (am_head s)" by simp
  have d: "distinct (am_head s)" using assms(1) by (simp add: ams_inv_def)
  have set_eq: "set (remove1 a (am_head s)) = set (am_head s) - {a}"
    using cmds.set_del [OF d assms(2)] eq by simp
  have "distinct (remove1 a (am_head s))"
    using cmds.distinct_del [OF d assms(2)] eq by simp
  moreover have "a \<notin> X" using assms by (auto simp: ams_inv_def)
  moreover have "ams_inv (insert a X) (s\<lparr>am_head := remove1 a (am_head s)\<rparr>)"
    using assms set_eq \<open>distinct (remove1 a (am_head s))\<close>
    by (auto simp: ams_inv_def current_ok_def split: option.splits)
  ultimately show ?thesis using b by auto
qed

lemma free_cmd_inv:
  assumes "ams_inv (insert a X) s" "a \<notin> X"
  shows "\<exists>s'. free_cmd a s = Some s' \<and> s' = s\<lparr>am_store := (am_store s)(a := None)\<rparr> \<and> ams_inv X s'"
  using assms by (auto simp: free_cmd_def ams_inv_def current_ok_def split: option.splits)

lemma insert_cmd_inv:
  "ams_inv (insert a X) s \<Longrightarrow> a \<notin> X \<Longrightarrow> ams_inv X (insert_cmd a s)"
  by (auto simp: insert_cmd_def ams_inv_def current_ok_def split: option.splits)

lemma find_last_cmd_total:
  "set as \<subseteq> dom m \<Longrightarrow> \<exists>r. find_last_cmd P m pos as = Some r \<and>
     (r = pos \<or> (\<exists>a\<in>set as. r = Some a \<and> P (the (m a))))"
proof (induction as arbitrary: pos)
  case Nil
  then show ?case by simp
next
  case (Cons a as)
  then obtain c where c: "m a = Some c" by auto
  from Cons obtain r where "find_last_cmd P m (if P c then Some a else pos) as = Some r"
    "r = (if P c then Some a else pos) \<or> (\<exists>a\<in>set as. r = Some a \<and> P (the (m a)))"
    by force
  with c show ?case by (auto split: if_splits)
qed

lemma ignore_nodes_inv:
  "ams_inv X s \<Longrightarrow> am_head s = as \<Longrightarrow>
   \<exists>es. ignore_nodes as s =
     Some (emits es (s\<lparr>am_head := [], am_store := am_store s |` (- set as)\<rparr>))
     \<and> ams_inv X (s\<lparr>am_head := [], am_store := am_store s |` (- set as)\<rparr>)"
proof (induction as arbitrary: s)
  case Nil
  then have "s = emits [] (s\<lparr>am_head := [], am_store := am_store s |` (- set [])\<rparr>)"
    by (cases s) (simp add: emits_def restrict_map_def)
  with Nil show ?case
    by (metis ignore_nodes.simps(1) inv_emits)
next
  case (Cons a as)
  obtain c where c: "am_store s a = Some c" using Cons.prems by (auto simp: ams_inv_def)
  let ?s1 = "s\<lparr>am_head := as\<rparr>"
  let ?es = "notify_events (am_music_wake_lock s) c NOTIFY_STATUS_COMMAND_IGNORED"
  let ?s2 = "(emits ?es ?s1)\<lparr>am_store := (am_store s)(a := None)\<rparr>"
  have inv2: "ams_inv X ?s2"
    using Cons.prems by (auto simp: ams_inv_def current_ok_def split: option.splits)
  have "am_head ?s2 = as" by simp
  from Cons.IH [OF inv2 this] obtain es where es:
    "ignore_nodes as ?s2 =
       Some (emits es (?s2\<lparr>am_head := [], am_store := am_store ?s2 |` (- set as)\<rparr>))"
    and inv3: "ams_inv X (?s2\<lparr>am_head := [], am_store := am_store ?s2 |` (- set as)\<rparr>)" by blast
  have st: "(am_store s)(a := None) |` (- set as) = am_store s |` (- set (a # as))"
    by (auto simp: restrict_map_def)
  have step: "ignore_nodes (a # as) s = ignore_nodes as ?s2"
    using c Cons.prems(2)
    by (simp add: notify_app_status_eq free_cmd_def delete_cmd_def)
  have "?s2\<lparr>am_head := [], am_store := am_store ?s2 |` (- set as)\<rparr> =
     emits ?es (s\<lparr>am_head := [], am_store := am_store s |` (- set (a # as))\<rparr>)"
    using st by (simp add: emits_def)
  moreover have "emits es (emits ?es t) = emits (?es @ es) t" for t by (simp add: emits_def)
  ultimately show ?case using step es inv3 by (metis inv_emits)
qed

lemma ignore_all_inv:
  "ams_inv X s \<Longrightarrow> \<exists>s'. ignore_all_command s = Some s' \<and> ams_inv X s' \<and> am_head s' = []
     \<and> am_state s' = am_state s \<and> am_current s' = am_current s"
  using ignore_nodes_inv [of X s "am_head s"] by (auto simp: ignore_all_command_def)

section \<open>Every handler keeps the invariant\<close>

lemma inv_state:
  assumes "ams_inv X s" "am_current s \<noteq> None"
    and "am_state s \<in> play_states \<and> st \<in> play_states \<or>
         am_state s \<in> record_states \<and> st \<in> record_states"
    and "am_rthread_run s \<longleftrightarrow>
         st \<notin> {AUDIO_MANAGER_ST_START_RECORD, AUDIO_MANAGER_ST_RECORDING}"
  shows "ams_inv X (s\<lparr>am_state := st\<rparr>)"
  using assms by (auto simp: ams_inv_def current_ok_def play_states_def record_states_def)

lemma inv_run:
  "ams_inv X s \<Longrightarrow> am_rthread_run s \<longleftrightarrow>
     am_state s \<notin> {AUDIO_MANAGER_ST_START_RECORD, AUDIO_MANAGER_ST_RECORDING}"
  by (simp add: ams_inv_def)

lemma state_classes [simp]:
  "AUDIO_MANAGER_ST_START_PLAY \<in> play_states" "AUDIO_MANAGER_ST_PLAYING \<in> play_states"
  "AUDIO_MANAGER_ST_STOP_PLAY \<in> play_states" "AUDIO_MANAGER_ST_PAUSE_PLAY \<in> play_states"
  "AUDIO_MANAGER_ST_START_RECORD \<in> record_states" "AUDIO_MANAGER_ST_RECORDING \<in> record_states"
  "AUDIO_MANAGER_ST_STOP_RECORD \<in> record_states"
  "AUDIO_MANAGER_ST_START_PLAY \<notin> record_states" "AUDIO_MANAGER_ST_PLAYING \<notin> record_states"
  "AUDIO_MANAGER_ST_STOP_PLAY \<notin> record_states" "AUDIO_MANAGER_ST_PAUSE_PLAY \<notin> record_states"
  "AUDIO_MANAGER_ST_START_RECORD \<notin> play_states" "AUDIO_MANAGER_ST_RECORDING \<notin> play_states"
  "AUDIO_MANAGER_ST_STOP_RECORD \<notin> play_states"
  "AUDIO_MANAGER_ST_IDLE \<notin> play_states" "AUDIO_MANAGER_ST_IDLE \<notin> record_states"
  by (simp_all add: play_states_def record_states_def)

lemma pause_inv:
  assumes inv: "ams_inv X s"
  shows "\<exists>r. execute_pause_command e s = Some r \<and> ams_inv X (fst r)"
proof (cases "am_current s")
  case None
  with inv show ?thesis by (simp add: execute_pause_command_def)
next
  case (Some a)
  with inv obtain c where c: "am_store s a = Some c" by (rule inv_current)
  let ?s1 = "emits (notify_events (am_music_wake_lock s) c NOTIFY_STATUS_PLAY_PAUSE)
              (emit EvMediaPause s)"
  have n: "notify_current NOTIFY_STATUS_PLAY_PAUSE (emit EvMediaPause s) = Some ?s1"
    using Some c by (simp add: notify_current_eq)
  have "ams_inv X (?s1\<lparr>am_state := AUDIO_MANAGER_ST_PAUSE_PLAY\<rparr>)"
    if "am_state s = AUDIO_MANAGER_ST_PLAYING"
    using inv Some that inv_run [OF inv] by (intro inv_state) auto
  with Some n inv show ?thesis
    by (cases "am_state s") (auto simp: execute_pause_command_def)
qed

lemma resume_inv:
  assumes inv: "ams_inv X s"
  shows "\<exists>r. execute_resume_command e s = Some r \<and> ams_inv X (fst r)"
proof (cases "am_current s")
  case None
  with inv show ?thesis by (simp add: execute_resume_command_def)
next
  case (Some a)
  have "ams_inv X ((emit EvMediaResume (acquire_music_lock s))\<lparr>am_state := AUDIO_MANAGER_ST_PLAYING\<rparr>)"
    if "am_state s = AUDIO_MANAGER_ST_PAUSE_PLAY"
    using inv Some that inv_run [OF inv]
    by (intro inv_state) (auto simp: acquire_music_lock_def)
  with Some inv show ?thesis
    by (cases "am_state s") (auto simp: execute_resume_command_def)
qed

text \<open>Freeing the stop command, if any, then telling the client of the current command.\<close>

lemma stop_notify:
  assumes inv: "ams_inv (set_option cmd \<union> X) s" and new: "set_option cmd \<inter> X = {}"
    and cur: "am_current s = Some a"
  shows "\<exists>es. (case cmd of
             Some b \<Rightarrow> Option.bind (free_cmd b s) (notify_current st1)
           | None \<Rightarrow> notify_current st2 s) =
         Some (emits es (s\<lparr>am_store := am_store s |` (- set_option cmd)\<rparr>)) \<and>
         ams_inv X (s\<lparr>am_store := am_store s |` (- set_option cmd)\<rparr>)"
proof (cases cmd)
  case None
  obtain c where "am_store s a = Some c" using inv_current [OF inv cur] .
  moreover have "s\<lparr>am_store := am_store s |` (- set_option cmd)\<rparr> = s"
    using None by (simp add: restrict_map_def)
  ultimately show ?thesis using None inv cur by (auto simp: notify_current_eq)
next
  case (Some b)
  then have inv': "ams_inv (insert b X) s" and bX: "b \<notin> X" using inv new by auto
  from free_cmd_inv [OF inv' bX] have free: "free_cmd b s = Some (s\<lparr>am_store := (am_store s)(b := None)\<rparr>)"
    and inv2: "ams_inv X (s\<lparr>am_store := (am_store s)(b := None)\<rparr>)" by auto
  have "am_store s |` (- set_option cmd) = (am_store s)(b := None)"
    using Some by (auto simp: restrict_map_def)
  moreover obtain c where "am_store (s\<lparr>am_store := (am_store s)(b := None)\<rparr>) a = Some c"
    using inv_current [OF inv2] cur by (metis ams.select_convs(2) ams.surjective ams.update_convs(5))
  ultimately show ?thesis using Some free inv2 cur by (auto simp: notify_current_eq)
qed

lemma inv_mono: "ams_inv Y s \<Longrightarrow> X \<subseteq> Y \<Longrightarrow> ams_inv X s"
  by (auto simp: ams_inv_def current_ok_def split: option.splits)

lemma stop_playing_inv:
  assumes inv: "ams_inv (set_option cmd \<union> X) s" and new: "set_option cmd \<inter> X = {}"
    and cur: "am_current s = Some a"
    and st: "am_state s = AUDIO_MANAGER_ST_PLAYING \<or> am_state s = AUDIO_MANAGER_ST_PAUSE_PLAY"
  shows "\<exists>r. stop_playing e cmd s = Some r \<and> ams_inv X (fst r) \<and> am_head (fst r) = am_head s
    \<and> am_current (fst r) = am_current s"
proof (cases "e_blocking e")
  case True
  with inv_mono [OF inv] show ?thesis by (simp add: stop_playing_def)
next
  case False
  obtain c where c: "am_store s a = Some c" using inv_current [OF inv cur] .
  define s1 where "s1 = emits [EvPA False, EvMediaStop] (record_item_time e c s)"
  have s1: "ams_inv (set_option cmd \<union> X) s1" "am_current s1 = Some a" "am_state s1 = am_state s"
    "am_head s1 = am_head s"
    using inv cur by (auto simp: s1_def record_item_time_def split: option.splits)
  obtain s2 where s2: "(case cmd of
       Some b \<Rightarrow> Option.bind (free_cmd b s1) (notify_current NOTIFY_STATUS_PLAY_STOPPED)
     | None \<Rightarrow> notify_current NOTIFY_STATUS_PLAY_DISTURBED s1) = Some s2"
    "ams_inv X s2" "am_current s2 = Some a" "am_state s2 = am_state s" "am_head s2 = am_head s"
    using stop_notify [OF s1(1) new s1(2), of NOTIFY_STATUS_PLAY_DISTURBED
        NOTIFY_STATUS_PLAY_STOPPED] s1 by fastforce
  have "ams_inv X (s2\<lparr>am_state := AUDIO_MANAGER_ST_STOP_PLAY\<rparr>)"
    using s2 st inv_run [OF s2(2)] by (intro inv_state) auto
  moreover have "stop_playing e cmd s = Some (s2\<lparr>am_state := AUDIO_MANAGER_ST_STOP_PLAY\<rparr>, True)"
    using False cur c s2(1) by (auto simp: stop_playing_def s1_def [symmetric] split: option.splits)
  ultimately show ?thesis using s2 cur by simp
qed

lemma free_cmd_state:
  "free_cmd b (s\<lparr>am_state := st\<rparr>) = map_option (\<lambda>t. t\<lparr>am_state := st\<rparr>) (free_cmd b s)"
  by (simp add: free_cmd_def split: option.splits)

lemma notify_current_state:
  "notify_current n (s\<lparr>am_state := st\<rparr>) = map_option (\<lambda>t. t\<lparr>am_state := st\<rparr>) (notify_current n s)"
  by (auto simp: notify_current_def notify_app_status_def emit_def Let_def
      split: option.splits bind_splits)

lemma stop_recording_inv:
  assumes inv: "ams_inv (set_option cmd \<union> X) s" and new: "set_option cmd \<inter> X = {}"
    and cur: "am_current s = Some a" and st: "am_state s = AUDIO_MANAGER_ST_RECORDING"
  shows "\<exists>r. stop_recording cmd s = Some r \<and> ams_inv X (fst r) \<and> am_head (fst r) = am_head s
    \<and> am_current (fst r) = am_current s"
proof -
  define s0 where "s0 = emits [EvSemGiveRun, EvSemSyncStop] (s\<lparr>am_rthread_run := True\<rparr>)"
  define s1 where "s1 = s0\<lparr>am_state := AUDIO_MANAGER_ST_STOP_RECORD\<rparr>"
  have s1: "ams_inv (set_option cmd \<union> X) s1" "am_current s1 = Some a" "am_head s1 = am_head s"
    using inv cur st by (auto simp: s1_def s0_def ams_inv_def current_ok_def)
  let ?f = "\<lambda>s. case cmd of
       Some b \<Rightarrow> Option.bind (free_cmd b s) (notify_current NOTIFY_STATUS_RECORD_STOPPED)
     | None \<Rightarrow> notify_current NOTIFY_STATUS_RECORD_DISTURBED s"
  obtain es where es: "?f s1 = Some (emits es (s1\<lparr>am_store := am_store s1 |` (- set_option cmd)\<rparr>))"
    and inv2: "ams_inv X (s1\<lparr>am_store := am_store s1 |` (- set_option cmd)\<rparr>)"
    using stop_notify [OF s1(1) new s1(2)] by blast
  have "?f s1 = map_option (\<lambda>t. t\<lparr>am_state := AUDIO_MANAGER_ST_STOP_RECORD\<rparr>) (?f s0)"
    by (cases cmd; cases "free_cmd (the cmd) s0")
      (simp_all add: s1_def free_cmd_state notify_current_state)
  then have "map_option (\<lambda>t. t\<lparr>am_state := AUDIO_MANAGER_ST_STOP_RECORD\<rparr>) (?f s0) =
      Some (emits es (s1\<lparr>am_store := am_store s1 |` (- set_option cmd)\<rparr>))"
    using es by (rule trans [OF sym])
  then obtain s2 where s2: "?f s0 = Some s2" "s2\<lparr>am_state := AUDIO_MANAGER_ST_STOP_RECORD\<rparr> =
      emits es (s1\<lparr>am_store := am_store s1 |` (- set_option cmd)\<rparr>)"
    unfolding map_option_eq_Some by blast
  have "stop_recording cmd s = Some (s2\<lparr>am_state := AUDIO_MANAGER_ST_STOP_RECORD\<rparr>, True)"
    using s2(1) by (auto simp: stop_recording_def s0_def [symmetric] split: option.splits)
  then show ?thesis using s2(2) inv2 s1 cur by simp
qed

lemma execute_stop_inv:
  assumes inv: "ams_inv (set_option cmd \<union> X) s" and new: "set_option cmd \<inter> X = {}"
  shows "\<exists>r. execute_stop_command e cmd s = Some r \<and> ams_inv X (fst r)
    \<and> am_head (fst r) = am_head s \<and> am_current (fst r) = am_current s"
proof (cases "am_current s")
  case None
  with inv_mono [OF inv] show ?thesis by (simp add: execute_stop_command_def)
next
  case (Some a)
  from inv_mono [OF inv] have "ams_inv X s" by simp
  with Some stop_playing_inv [OF inv new Some] stop_recording_inv [OF inv new Some]
  show ?thesis by (cases "am_state s") (simp_all add: execute_stop_command_def)
qed

lemma current_app_eq:
  "ams_inv X s \<Longrightarrow> am_current s = Some a \<Longrightarrow> \<exists>c. am_store s a = Some c \<and> current_app s = Some (ac_app c)"
  by (erule (1) inv_current) (auto simp: current_app_def)

lemma search_app_cmd_by_msg_total:
  assumes "ams_inv X s"
  shows "\<exists>r. search_app_cmd_by_msg s app msg = Some r \<and> set_option r \<subseteq> set (am_head s)"
proof -
  have "set (am_head s) \<subseteq> dom (am_store s)" using assms by (simp add: ams_inv_def)
  from find_node_total [OF this] show ?thesis
    by (force simp: search_app_cmd_by_msg_def split: option.splits)
qed

lemma search_by_state_total:
  assumes "ams_inv X s" "am_current s \<noteq> None"
  shows "\<exists>r. search_by_state s st m = Some r \<and> set_option r \<subseteq> set (am_head s)"
proof -
  obtain app where "current_app s = Some app" using assms current_app_eq by blast
  moreover have "set (am_head s) \<subseteq> dom (am_store s)" using assms by (simp add: ams_inv_def)
  note find_node_total [OF this]
  ultimately show ?thesis
    by (force simp: search_by_state_def search_app_cmd_by_code_def split: option.splits)
qed

lemma take_stop_cmd_inv:
  assumes inv: "ams_inv X s" and cur: "am_current s \<noteq> None"
  shows "\<exists>s' cmd. take_stop_cmd s = Some (s', cmd) \<and> ams_inv (set_option cmd \<union> X) s'
    \<and> set_option cmd \<inter> X = {} \<and> set (am_head s') \<subseteq> set (am_head s) \<and> am_current s' = am_current s"
proof -
  obtain app where app: "current_app s = Some app" using assms current_app_eq by blast
  obtain r where r: "search_app_cmd_by_msg s app (stop_msg s) = Some r" "set_option r \<subseteq> set (am_head s)"
    using search_app_cmd_by_msg_total [OF inv] by blast
  show ?thesis
  proof (cases r)
    case None
    with inv app r show ?thesis by (simp add: take_stop_cmd_def)
  next
    case (Some a)
    then have "a \<in> set (am_head s)" using r by simp
    from delete_cmd_inv [OF inv this] app r Some show ?thesis
      by (auto simp: take_stop_cmd_def dest: subsetD [OF set_remove1_subset])
  qed
qed

lemma stop_current_inv:
  assumes inv: "ams_inv X s" and cur: "am_current s \<noteq> None"
  shows "\<exists>s'. stop_current e s = Some s' \<and> ams_inv X s' \<and> set (am_head s') \<subseteq> set (am_head s)
    \<and> am_current s' = am_current s"
proof -
  obtain s1 cmd where t: "take_stop_cmd s = Some (s1, cmd)" "ams_inv (set_option cmd \<union> X) s1"
    "set_option cmd \<inter> X = {}" "set (am_head s1) \<subseteq> set (am_head s)" "am_current s1 = am_current s"
    using take_stop_cmd_inv [OF assms] by blast
  obtain r where "execute_stop_command e cmd s1 = Some r" "ams_inv X (fst r)"
    "am_head (fst r) = am_head s1" "am_current (fst r) = am_current s1"
    using execute_stop_inv [OF t(2,3)] by blast
  with t show ?thesis by (simp add: stop_current_def)
qed

lemma inv_start:
  assumes inv: "ams_inv (insert a X) s" and aX: "a \<notin> X" and cur: "am_current s = None"
    and c: "cmd_ok c'"
    and st: "st \<in> play_states \<and> ac_cmd c' = AUDIO_MANAGER_PLAY_START \<and> r \<or>
      st = AUDIO_MANAGER_ST_START_RECORD \<and> ac_cmd c' = AUDIO_MANAGER_RECORD_START \<and> \<not> r"
  shows "ams_inv X (s\<lparr>am_state := st, am_current := Some a, am_store := (am_store s)(a \<mapsto> c'),
    am_rthread_run := r\<rparr>)"
  using assms by (auto simp: ams_inv_def current_ok_def play_states_def)

lemma story_started_inv [simp]: "ams_inv X (story_started e c s) = ams_inv X s"
  by (auto simp: story_started_def split: option.splits)

lemma play_uri_inv: "ams_inv X (play_uri uri song s) = ams_inv X s"
  by (simp add: play_uri_def)

lemma acquire_inv [simp]: "ams_inv X (acquire_music_lock s) = ams_inv X s"
  by (simp add: acquire_music_lock_def)

lemma acquire_fields [simp]:
  "am_state (acquire_music_lock s) = am_state s" "am_current (acquire_music_lock s) = am_current s"
  "am_head (acquire_music_lock s) = am_head s" "am_store (acquire_music_lock s) = am_store s"
  "am_rthread_run (acquire_music_lock s) = am_rthread_run s"
  by (simp_all add: acquire_music_lock_def)

lemma story_started_fields [simp]:
  "am_state (story_started e c s) = am_state s" "am_current (story_started e c s) = am_current s"
  "am_head (story_started e c s) = am_head s" "am_store (story_started e c s) = am_store s"
  "am_current_type (story_started e c s) = am_current_type s"
  "am_rthread_run (story_started e c s) = am_rthread_run s"
  by (auto simp: story_started_def split: option.splits)

lemma play_uri_fields [simp]:
  "am_state (play_uri u b s) = am_state s" "am_current (play_uri u b s) = am_current s"
  "am_head (play_uri u b s) = am_head s" "am_store (play_uri u b s) = am_store s"
  "am_rthread_run (play_uri u b s) = am_rthread_run s"
  by (simp_all add: play_uri_def)

lemma start_play_inv:
  assumes inv: "ams_inv (insert a X) s" and aX: "a \<notin> X" and cur: "am_current s = None"
    and c: "am_store s a = Some c" and cmd: "ac_cmd c = AUDIO_MANAGER_PLAY_START"
  shows "\<exists>s'. start_play e a c s = Some s' \<and> ams_inv X s' \<and> am_head s' = am_head s
    \<and> am_current s' = Some a"
proof -
  have ok: "cmd_ok c" using inv c by (auto simp: ams_inv_def)
  then have ok': "cmd_ok (c\<lparr>ac_tone_path := []\<rparr>)" by (simp add: cmd_ok_def)
  have run: "am_rthread_run s" using inv_run [OF inv] inv_idle [OF inv] cur by simp
  have m: "(am_store s)(a \<mapsto> c) = am_store s" using c by auto
  note st = inv_start [OF inv aX cur, of _ AUDIO_MANAGER_ST_START_PLAY True]
  from st [OF ok'] st [OF ok] cmd ok run c m show ?thesis
    unfolding start_play_def Let_def
    by (auto simp: c_str_def cmd_ok_def ams_inv_def current_ok_def)
qed

lemma start_record_inv:
  assumes inv: "ams_inv (insert a X) s" and aX: "a \<notin> X" and cur: "am_current s = None"
    and c: "am_store s a = Some c" and cmd: "ac_cmd c = AUDIO_MANAGER_RECORD_START"
  shows "\<exists>r. start_record e a c s = Some r \<and> ams_inv X (fst r) \<and> am_head (fst r) = am_head s
    \<and> am_current (fst r) = (if e_record_send_ok e then Some a else None)"
proof -
  have run: "am_rthread_run s" using inv_run [OF inv] inv_idle [OF inv] cur by simp
  from inv_mono [OF inv] have "ams_inv X s" by auto
  with run inv aX cur c cmd show ?thesis
    by (auto simp: start_record_def ams_inv_def current_ok_def)
qed

lemma execute_start_inv:
  assumes inv: "ams_inv (insert a X) s" and aX: "a \<notin> X"
  shows "\<exists>r. execute_start_command e a s = Some r \<and> ams_inv X (fst r)
    \<and> am_head (fst r) = am_head s"
proof (cases "am_current s")
  case None
  obtain c where c: "am_store s a = Some c" using inv by (auto simp: ams_inv_def)
  from inv_mono [OF inv] have "ams_inv X s" by auto
  with None c start_play_inv [OF inv aX None c, of e] start_record_inv [OF inv aX None c, of e]
  show ?thesis by (cases "ac_cmd c") (auto simp: execute_start_command_def)
next
  case (Some b)
  with inv_mono [OF inv] show ?thesis by (auto simp: execute_start_command_def)
qed

lemma drop_inv:
  assumes inv: "ams_inv X (s\<lparr>am_rthread_run := r\<rparr>)" and run: "am_rthread_run s"
    and cur: "am_current s = Some a"
  shows "\<exists>s'. drop_current s = Some s' \<and> ams_inv X s' \<and> am_state s' = AUDIO_MANAGER_ST_IDLE
    \<and> am_current s' = None \<and> am_head s' = am_head s \<and> am_store s' = (am_store s)(a := None)"
proof -
  obtain c where c: "am_store s a = Some c" "a \<notin> X" "a \<notin> set (am_head s)"
    using inv_current [OF inv] cur by auto
  with assms show ?thesis
    by (auto simp: drop_current_def free_cmd_def ams_inv_def current_ok_def)
qed

lemma end_play_inv:
  assumes inv: "ams_inv X s" and cur: "am_current s = Some a" and run: "am_rthread_run s"
  shows "\<exists>s'. end_play st s = Some s' \<and> ams_inv X s' \<and> am_state s' = AUDIO_MANAGER_ST_IDLE"
proof -
  obtain c where c: "am_store s a = Some c" using inv_current [OF inv cur] .
  define s1 where
    "s1 = emits (notify_events (am_music_wake_lock s) c st) (emit (EvPA False) s)"
  have n: "notify_current st (emit (EvPA False) s) = Some s1"
    using cur c by (simp add: notify_current_eq s1_def)
  have "s1\<lparr>am_rthread_run := True\<rparr> = s1" using run by (cases s) (simp add: s1_def emits_def emit_def)
  then have "ams_inv X (s1\<lparr>am_rthread_run := True\<rparr>)" using inv by (simp add: s1_def)
  moreover have "am_rthread_run s1" "am_current s1 = Some a" using cur run by (simp_all add: s1_def)
  ultimately obtain s2 where "drop_current s1 = Some s2" "ams_inv X s2" "am_state s2 = AUDIO_MANAGER_ST_IDLE"
    using drop_inv by blast
  with n show ?thesis by (auto simp: end_play_def set_type_def)
qed

lemma end_record_inv:
  assumes inv: "ams_inv X s" and cur: "am_current s = Some a"
  shows "\<exists>s'. end_record st s = Some s' \<and> ams_inv X s' \<and> am_state s' = AUDIO_MANAGER_ST_IDLE"
proof -
  obtain c where c: "am_store s a = Some c" using inv_current [OF inv cur] .
  define s1 where "s1 = emits (notify_events (am_music_wake_lock s) c st)
    (emit EvSemGiveRun (s\<lparr>am_rthread_run := True\<rparr>))"
  have n: "notify_current st (emit EvSemGiveRun (s\<lparr>am_rthread_run := True\<rparr>)) = Some s1"
    using cur c by (simp add: notify_current_eq s1_def)
  have "s1\<lparr>am_rthread_run := am_rthread_run s\<rparr> =
      emits (notify_events (am_music_wake_lock s) c st) (emit EvSemGiveRun s)"
    by (cases s) (simp add: s1_def emits_def emit_def)
  then have "ams_inv X (s1\<lparr>am_rthread_run := am_rthread_run s\<rparr>)" using inv by simp
  moreover have "am_rthread_run s1" "am_current s1 = Some a" using cur by (simp_all add: s1_def)
  ultimately obtain s2 where "drop_current s1 = Some s2" "ams_inv X s2" "am_state s2 = AUDIO_MANAGER_ST_IDLE"
    using drop_inv by blast
  with n show ?thesis by (auto simp: end_record_def)
qed

lemma update_start_play_inv:
  assumes inv: "ams_inv X s" and st: "am_state s = AUDIO_MANAGER_ST_START_PLAY"
  shows "\<exists>s'. update_start_play m s = Some s' \<and> ams_inv X s'"
proof -
  have run: "am_rthread_run s" using inv_run [OF inv] st by simp
  obtain a where cur: "am_current s = Some a" using inv_idle [OF inv] st by fastforce
  obtain c where c: "am_store s a = Some c" using inv_current [OF inv cur] .
  have "ams_inv X (s'\<lparr>am_state := AUDIO_MANAGER_ST_PLAYING\<rparr>)"
    if "s' = s \<or> s' = emit EvRecordPlayTime s" for s'
    using inv that st cur run by (intro inv_state) auto
  with end_play_inv [OF inv cur run] inv cur c show ?thesis
    by (auto simp: update_start_play_def)
qed

lemma update_playing_inv:
  assumes inv: "ams_inv X s" and st: "am_state s = AUDIO_MANAGER_ST_PLAYING"
  shows "\<exists>s'. update_playing e m s = Some s' \<and> ams_inv X s'"
proof -
  have run: "am_rthread_run s" using inv_run [OF inv] st by simp
  obtain a where cur: "am_current s = Some a" using inv_idle [OF inv] st by fastforce
  obtain c where c: "am_store s a = Some c" "a \<notin> X" using inv_current [OF inv cur] by metis
  let ?s1 = "s\<lparr>am_state := AUDIO_MANAGER_ST_IDLE, am_current := None\<rparr>"
  have "ams_inv (insert a X) ?s1"
    using inv cur c run by (auto simp: ams_inv_def current_ok_def)
  from execute_start_inv [OF this c(2), of e] obtain r
    where "execute_start_command e a ?s1 = Some r" "ams_inv X (fst r)" by blast
  with end_play_inv [OF inv cur run] inv cur show ?thesis
    by (auto simp: update_playing_def)
qed

lemma update_player_inv:
  assumes inv: "ams_inv X s"
  shows "\<exists>s'. update_audio_manager_state e m s = Some s' \<and> ams_inv X s'"
proof (cases "am_current s")
  case None
  then have "am_state s = AUDIO_MANAGER_ST_IDLE" using inv_idle [OF inv] by simp
  with inv show ?thesis by (simp add: update_audio_manager_state_def)
next
  case (Some a)
  have play: "am_rthread_run s" if "am_state s \<in> play_states \<or> am_state s = AUDIO_MANAGER_ST_STOP_RECORD"
    using that inv_run [OF inv] by auto
  note ep = end_play_inv [OF inv Some play] and er = end_record_inv [OF inv Some]
  have dr: "\<exists>s'. drop_current s = Some s' \<and> ams_inv X s'"
    if "am_state s \<in> play_states \<or> am_state s = AUDIO_MANAGER_ST_STOP_RECORD"
  proof -
    have "s\<lparr>am_rthread_run := am_rthread_run s\<rparr> = s" by simp
    with inv have "ams_inv X (s\<lparr>am_rthread_run := am_rthread_run s\<rparr>)" by metis
    from drop_inv [OF this play [OF that] Some] show ?thesis by blast
  qed
  have st: "ams_inv X (s\<lparr>am_state := st\<rparr>)"
    if "am_state s = AUDIO_MANAGER_ST_PAUSE_PLAY \<and> st = AUDIO_MANAGER_ST_PAUSE_PLAY \<or>
      am_state s = AUDIO_MANAGER_ST_START_RECORD \<and> st = AUDIO_MANAGER_ST_RECORDING" for st
    using that Some inv inv_run [OF inv] by (intro inv_state) auto
  have nr: "am_state s \<noteq> AUDIO_MANAGER_ST_RESUME_PLAY"
    using inv Some by (auto simp: ams_inv_def current_ok_def play_states_def record_states_def)
  show ?thesis
  proof (cases "am_state s")
    case AUDIO_MANAGER_ST_STOP_PLAY
    with dr inv show ?thesis
      by (auto simp: update_audio_manager_state_def update_stop_play_def set_type_def)
  next
    case AUDIO_MANAGER_ST_PAUSE_PLAY
    with ep st inv show ?thesis
      by (auto simp: update_audio_manager_state_def update_pause_play_def)
  next
    case AUDIO_MANAGER_ST_START_RECORD
    with er st inv show ?thesis
      by (auto simp: update_audio_manager_state_def update_start_record_def)
  next
    case AUDIO_MANAGER_ST_RECORDING
    with er inv show ?thesis
      by (auto simp: update_audio_manager_state_def update_recording_def)
  next
    case AUDIO_MANAGER_ST_STOP_RECORD
    with dr inv show ?thesis
      by (auto simp: update_audio_manager_state_def update_stop_record_def)
  qed (use nr inv update_start_play_inv update_playing_inv in
        \<open>auto simp: update_audio_manager_state_def\<close>)
qed

lemma execute_with_start_inv:
  assumes inv: "ams_inv X s" and a: "a \<in> set (am_head s)"
  shows "\<exists>s'. execute_with_start e a s = Some s' \<and> ams_inv X s'"
proof -
  obtain c where c: "am_store s a = Some c" using inv a by (auto simp: ams_inv_def)
  have "set (tl (dropWhile (\<lambda>b. b \<noteq> a) (am_head s))) \<subseteq> dom (am_store s)"
    using inv by (force simp: ams_inv_def drop_Suc [of 0, simplified, symmetric]
        dest: in_set_dropD set_dropWhileD)
  from find_node_total [OF this] obtain l where l: "search_cmd_by_app s (ac_app c) (Some a) = Some l"
    unfolding search_cmd_by_app_def by force
  show ?thesis
  proof (cases l)
    case (Some b)
    have "\<exists>s1. (if am_current s \<noteq> None then stop_current e s else Some s) = Some s1 \<and> ams_inv X s1"
      using stop_current_inv [OF inv, of e] inv by auto
    then obtain s1 where "(if am_current s \<noteq> None then stop_current e s else Some s) = Some s1"
      "ams_inv X s1" by blast
    with ignore_all_inv [of X s1] c l Some show ?thesis by (auto simp: execute_with_start_def)
  next
    case None
    obtain s1 b where del: "delete_cmd a s = Some (s1, b)" "a \<notin> X" "ams_inv (insert a X) s1"
      using delete_cmd_inv [OF inv a] by blast
    show ?thesis
    proof (cases "am_current s1")
      case cur: None
      obtain r where r: "execute_start_command e a s1 = Some r" "ams_inv X (fst r)"
        using execute_start_inv [OF del(3,2)] by blast
      with ignore_all_inv [OF r(2)] c l del cur None show ?thesis
        by (auto simp: execute_with_start_def)
    next
      case cur: (Some b')
      then obtain s2 where s2: "stop_current e s1 = Some s2" "ams_inv (insert a X) s2"
        using stop_current_inv [OF del(3), of e] by auto
      from ignore_all_inv [OF s2(2)] obtain s3
        where "ignore_all_command s2 = Some s3" "ams_inv (insert a X) s3" by blast
      with s2 c l del cur None insert_cmd_inv [OF _ del(2)] show ?thesis
        by (auto simp: execute_with_start_def)
    qed
  qed
qed

text \<open>Unlinking a command the search found and stopping with it.\<close>

lemma delete_then_stop:
  assumes inv: "ams_inv X s" and a: "a \<in> set (am_head s)"
  shows "\<exists>s'. Option.bind (delete_cmd a s) (\<lambda>r. Option.bind
      (execute_stop_command e (Some a) (fst r)) (\<lambda>r'. Some (fst r'))) = Some s'
    \<and> ams_inv X s' \<and> am_current s' = am_current s"
proof -
  obtain s1 b where del: "delete_cmd a s = Some (s1, b)" "a \<notin> X" "ams_inv (insert a X) s1"
    "s1 = s\<lparr>am_head := remove1 a (am_head s)\<rparr>" using delete_cmd_inv [OF inv a] by blast
  obtain r where "execute_stop_command e (Some a) s1 = Some r" "ams_inv X (fst r)"
    "am_current (fst r) = am_current s1"
    using execute_stop_inv [of "Some a" X s1 e] del(2,3) by auto
  with del(1,4) show ?thesis by simp
qed

lemma stop_if_asked_inv:
  assumes inv: "ams_inv X s" and cur: "am_current s \<noteq> None"
  shows "\<exists>s'. stop_if_asked e s = Some s' \<and> ams_inv X s' \<and> am_current s' = am_current s"
proof -
  obtain app where app: "current_app s = Some app" using assms current_app_eq by blast
  obtain r where r: "search_app_cmd_by_msg s app (stop_msg s) = Some r"
    "set_option r \<subseteq> set (am_head s)" using search_app_cmd_by_msg_total [OF inv] by blast
  with app inv delete_then_stop [OF inv, of _ e] show ?thesis
    by (cases r) (auto simp: stop_if_asked_def)
qed

lemma pause_resume_or_stop_inv:
  assumes inv: "ams_inv X s" and cur: "am_current s \<noteq> None"
  shows "\<exists>s'. pause_resume_or_stop e s = Some s' \<and> ams_inv X s'"
proof -
  have del: "\<exists>s1 b. delete_cmd a s = Some (s1, b) \<and> ams_inv X s1" if "a \<in> set (am_head s)" for a
    using delete_cmd_inv [OF inv that] inv_mono by blast
  note look = search_by_state_total [OF inv cur]
  obtain r1 where r1: "search_by_state s AUDIO_MANAGER_ST_PAUSE_PLAY AUDIO_MANAGER_ST_STOP_PLAY = Some r1"
    "set_option r1 \<subseteq> set (am_head s)" using look by blast
  obtain r2 where r2: "search_by_state s AUDIO_MANAGER_ST_PLAYING AUDIO_MANAGER_ST_PAUSE_PLAY = Some r2"
    "set_option r2 \<subseteq> set (am_head s)" using look by blast
  obtain r3 where r3: "search_by_state s AUDIO_MANAGER_ST_PAUSE_PLAY AUDIO_MANAGER_ST_RESUME_PLAY = Some r3"
    "set_option r3 \<subseteq> set (am_head s)" using look by blast
  show ?thesis
  proof (cases r1)
    case (Some a)
    with r1 delete_then_stop [OF inv, of a e] show ?thesis
      by (auto simp: pause_resume_or_stop_def)
  next
    case r1n: None
    show ?thesis
    proof (cases r2)
      case (Some a)
      with r2 have "a \<in> set (am_head s)" by simp
      with del obtain s1 b where d: "delete_cmd a s = Some (s1, b)" "ams_inv X s1" by blast
      with pause_inv [of X s1 e] d r1 r2 r1n Some show ?thesis
        by (auto simp: pause_resume_or_stop_def)
    next
      case r2n: None
      show ?thesis
      proof (cases r3)
        case (Some a)
        with r3 have "a \<in> set (am_head s)" by simp
        with del obtain s1 b where d: "delete_cmd a s = Some (s1, b)" "ams_inv X s1" by blast
        with resume_inv [of X s1 e] d r1 r2 r3 r1n r2n Some show ?thesis
          by (auto simp: pause_resume_or_stop_def)
      qed (use r1 r1n r2 r2n r3 inv in \<open>simp add: pause_resume_or_stop_def\<close>)
    qed
  qed
qed

lemma execute_without_start_inv:
  assumes inv: "ams_inv X s"
  shows "\<exists>s'. execute_without_start e s = Some s' \<and> ams_inv X s'"
proof -
  have "\<exists>s1. (if am_current s \<noteq> None
            then Option.bind (stop_if_asked e s) (pause_resume_or_stop e) else Some s) = Some s1
     \<and> ams_inv X s1"
  proof (cases "am_current s = None")
    case False
    obtain s1 where "stop_if_asked e s = Some s1" "ams_inv X s1" "am_current s1 = am_current s"
      using stop_if_asked_inv [OF inv False] by blast
    with pause_resume_or_stop_inv [of X s1 e] False show ?thesis by simp
  qed (use inv in simp)
  then obtain s1 where "(if am_current s \<noteq> None
            then Option.bind (stop_if_asked e s) (pause_resume_or_stop e) else Some s) = Some s1"
     "ams_inv X s1" by blast
  with ignore_all_inv [of X s1] show ?thesis by (auto simp: execute_without_start_def)
qed

lemma search_last_start_total:
  assumes "ams_inv X s"
  shows "\<exists>r. search_last_start_cmd s = Some r \<and> set_option r \<subseteq> set (am_head s)"
proof -
  have "set (am_head s) \<subseteq> dom (am_store s)" using assms by (simp add: ams_inv_def)
  from find_last_cmd_total [OF this] show ?thesis
    by (force simp: search_last_start_cmd_def)
qed

lemma execute_audio_inv:
  assumes inv: "ams_inv X s"
  shows "\<exists>r. execute_audio_command e s = Some r \<and> ams_inv X (fst r)"
proof -
  obtain r where r: "search_last_start_cmd s = Some r" "set_option r \<subseteq> set (am_head s)"
    using search_last_start_total [OF inv] by blast
  show ?thesis
  proof (cases r)
    case None
    with r execute_without_start_inv [OF inv, of e] inv show ?thesis
      by (auto simp: execute_audio_command_def)
  next
    case (Some a)
    with r execute_with_start_inv [OF inv, of a e] inv show ?thesis
      by (auto simp: execute_audio_command_def)
  qed
qed

text \<open>
  What the environment promises: a command whose strings fit their arrays, and memory that is
  not in use.
\<close>

definition input_ok :: "ams_env \<times> ams_input \<Rightarrow> ams \<Rightarrow> bool" where
  "input_ok i s \<longleftrightarrow>
     (case i of
        (e, Command c) \<Rightarrow> cmd_ok c \<and>
          (case e_malloc e of None \<Rightarrow> True | Some a \<Rightarrow> am_store s a = None)
      | (e, Player st) \<Rightarrow> True)"

lemma malloc_inv:
  assumes inv: "ams_inv X s" and new: "am_store s a = None" and c: "cmd_ok c"
  shows "ams_inv X (insert_cmd a (s\<lparr>am_store := (am_store s)(a \<mapsto> c)\<rparr>))"
proof (rule insert_cmd_inv)
  show "ams_inv (insert a X) (s\<lparr>am_store := (am_store s)(a \<mapsto> c)\<rparr>)"
    using assms by (auto simp: ams_inv_def current_ok_def split: option.splits)
  show "a \<notin> X" using inv new by (auto simp: ams_inv_def)
qed

lemma volume_inv [simp]:
  "ams_inv X (volume_blocking e f s) = ams_inv X s" "ams_inv X (volume_service e n s) = ams_inv X s"
  by (simp_all add: volume_blocking_def volume_service_def split: option.splits)

text \<open>The task keeps the invariant for every set of nodes nobody refers to.\<close>

lemma task_inv:
  assumes inv: "ams_inv X s" and ok: "input_ok i s"
  shows "\<exists>s'. AudioManagerServiceTask i s = Some s' \<and> ams_inv X s'"
proof -
  obtain e m where i: "i = (e, m)" by (cases i)
  show ?thesis
  proof (cases m)
    case (Command c)
    define s1 where "s1 = (case e_malloc e of None \<Rightarrow> s
        | Some a \<Rightarrow> insert_cmd a (s\<lparr>am_store := (am_store s)(a \<mapsto> c)\<rparr>))"
    have "ams_inv X s1"
      using inv ok i Command malloc_inv [OF inv]
      by (auto simp: s1_def input_ok_def split: option.splits)
    from execute_audio_inv [OF this] obtain r
      where "execute_audio_command e s1 = Some r" "ams_inv X (fst r)" by blast
    with inv i Command show ?thesis
      by (cases "ac_cmd c")
        (auto simp: AudioManagerServiceTask_def command_received_def s1_def [symmetric])
  next
    case (Player st)
    obtain s1 where s1: "update_audio_manager_state e st s = Some s1" "ams_inv X s1"
      using update_player_inv [OF inv] by blast
    with execute_audio_inv [OF s1(2), of e] Player i show ?thesis
      by (auto simp: AudioManagerServiceTask_def)
  qed
qed

interpretation ams: safe_machine AudioManagerServiceTask "ams_inv X" input_ok for X
  by unfold_locales (rule task_inv)

lemma ams_init_inv: "s \<in> {ams_init w} \<Longrightarrow> ams_inv {} s"
  by (simp add: ams_init_def ams_inv_def current_ok_def)

end
