(* ===== verification/AudioManager_Props.thy ===== *)
theory AudioManager_Props
  imports AudioManager_Inv
begin

text \<open>
  What the audio manager does, over the definitions of \<open>AudioManager\<close>: exact results of the
  handlers (which command is started, who is told what, in which order, which nodes are freed),
  and from them the properties of the component.
\<close>

section \<open>Exact results\<close>

definition ignored :: "(addr \<rightharpoonup> audio_command_t) \<Rightarrow> addr \<Rightarrow> ams_event list" where
  "ignored m a =
     (case ac_callback (the (m a)) of
        None \<Rightarrow> []
      | Some f \<Rightarrow> [EvNotify f NOTIFY_STATUS_COMMAND_IGNORED (ac_app (the (m a)))
                     (ac_cmd (the (m a))) (ac_callback_param (the (m a)))])"

lemma ignored_eq: "m a = Some c \<Longrightarrow> notify_events w c NOTIFY_STATUS_COMMAND_IGNORED = ignored m a"
  by (simp add: notify_events_def ignored_def less_NotifyStatus_def cong: option.case_cong)

lemma emits_emits [simp]: "emits es (emits es' s) = emits (es' @ es) s"
  by (simp add: emits_def)

lemma emits_update [simp]:
  "(emits es s)\<lparr>am_store := m\<rparr> = emits es (s\<lparr>am_store := m\<rparr>)"
  "(emits es s)\<lparr>am_head := h\<rparr> = emits es (s\<lparr>am_head := h\<rparr>)"
  "(emits es s)\<lparr>am_state := st\<rparr> = emits es (s\<lparr>am_state := st\<rparr>)"
  "(emits es s)\<lparr>am_current := cur\<rparr> = emits es (s\<lparr>am_current := cur\<rparr>)"
  "(emits es s)\<lparr>am_current_type := ct\<rparr> = emits es (s\<lparr>am_current_type := ct\<rparr>)"
  "(emits es s)\<lparr>am_rthread_run := b\<rparr> = emits es (s\<lparr>am_rthread_run := b\<rparr>)"
  by (simp_all add: emits_def)

lemma emit_emits: "emit ev s = emits [ev] s"
  by (simp add: emit_def emits_def)

lemma emits_Nil: "s = emits [] s"
  by (simp add: emits_def)

lemma ignore_nodes_eq:
  "set as \<subseteq> dom (am_store s) \<Longrightarrow> distinct as \<Longrightarrow> am_head s = as \<Longrightarrow>
   ignore_nodes as s = Some (emits (concat (map (ignored (am_store s)) as))
     (s\<lparr>am_head := [], am_store := am_store s |` (- set as)\<rparr>))"
proof (induction as arbitrary: s)
  case Nil
  then show ?case by (cases s) (simp add: emits_def restrict_map_def)
next
  case (Cons a as)
  then obtain c where c: "am_store s a = Some c" by auto
  let ?s2 = "emits (ignored (am_store s) a) (s\<lparr>am_head := as, am_store := (am_store s)(a := None)\<rparr>)"
  have step: "ignore_nodes (a # as) s = ignore_nodes as ?s2"
    using c Cons.prems(3)
    by (simp add: notify_app_status_eq free_cmd_def delete_cmd_def ignored_eq [where m="am_store s" and a=a])
  have "concat (map (ignored ((am_store s)(a := None))) as) = concat (map (ignored (am_store s)) as)"
    by (rule arg_cong [where f=concat], rule map_cong)
      (use Cons.prems(2) in \<open>auto simp: ignored_def split: option.splits\<close>)
  moreover have "(am_store s)(a := None) |` (- set as) = am_store s |` (- set (a # as))"
    by (auto simp: restrict_map_def)
  moreover have "ignore_nodes as ?s2 = Some (emits (concat (map (ignored (am_store ?s2)) as))
     (?s2\<lparr>am_head := [], am_store := am_store ?s2 |` (- set as)\<rparr>))"
    using Cons.prems by (intro Cons.IH) auto
  ultimately show ?case using step by simp
qed

lemma ignore_all_eq:
  "ams_inv X s \<Longrightarrow> ignore_all_command s = Some (emits (concat (map (ignored (am_store s)) (am_head s)))
     (s\<lparr>am_head := [], am_store := am_store s |` (- set (am_head s))\<rparr>))"
  unfolding ignore_all_command_def by (rule ignore_nodes_eq) (auto simp: ams_inv_def)

text \<open>The calls a start makes on the player.\<close>

definition start_events :: "ams_env \<Rightarrow> bool \<Rightarrow> audio_command_t \<Rightarrow> ams_event list" where
  "start_events e wake c =
     (if wake then [EvAcquireWakeLock] else []) @
     (if ac_tone_path c \<noteq> []
      then [EvSetPlayMode, EvAddUri (ac_tone_path c), EvMediaPlay, EvPA True]
      else [EvSetPlayMode, EvAddUri (ac_file_path c), EvGetSongInfo, EvMediaPlay, EvPA True] @
        (if story_app (ac_app c)
         then (case ac_callback_param c of None \<Rightarrow> []
               | Some p \<Rightarrow> if e_item_time e p div 1000 > 0
                          then [EvSeekByTime (e_item_time e p div 1000)] else []) @
              [EvDeviceStatus (e_total_time e)]
         else []))"

definition started :: "ams_env \<Rightarrow> addr \<Rightarrow> audio_command_t \<Rightarrow> ams \<Rightarrow> ams" where
  "started e a c s = emits (start_events e (am_music_wake_lock s) c)
     (s\<lparr>am_store := (am_store s)(a \<mapsto> c\<lparr>ac_tone_path := []\<rparr>), am_current := Some a,
        am_current_type := (if ac_tone_path c \<noteq> [] then AUDIO_TYPE_TONE else AUDIO_TYPE_SONG),
        am_state := AUDIO_MANAGER_ST_START_PLAY\<rparr>)"

lemma start_play_eq:
  assumes c: "am_store s a = Some c" and ok: "cmd_ok c"
  shows "start_play e a c s = Some (started e a c s)"
proof (cases "ac_tone_path c = []")
  case True
  then have "c\<lparr>ac_tone_path := []\<rparr> = c" by simp
  moreover have "(am_store s)(a \<mapsto> c) = am_store s" using c by auto
  ultimately have "(am_store s)(a \<mapsto> c\<lparr>ac_tone_path := []\<rparr>) = am_store s" by metis
  then have "s\<lparr>am_store := (am_store s)(a \<mapsto> c\<lparr>ac_tone_path := []\<rparr>), am_current := Some a,
      am_current_type := t, am_state := st\<rparr> =
    s\<lparr>am_current := Some a, am_current_type := t, am_state := st\<rparr>" for t st
    by simp
  with True ok show ?thesis
    by (simp add: start_play_def started_def start_events_def story_started_def play_uri_def
        acquire_music_lock_def c_str_def cmd_ok_def emit_emits split: option.splits)
next
  case False
  with ok show ?thesis
    by (simp add: start_play_def started_def start_events_def story_started_def play_uri_def
        acquire_music_lock_def c_str_def cmd_ok_def emit_emits split: option.splits)
qed


lemma find_last_cmd_app:
  "set xs \<subseteq> dom m \<Longrightarrow> find_last_cmd P m pos (xs @ ys) = Option.bind (find_last_cmd P m pos xs)
     (\<lambda>p. find_last_cmd P m p ys)"
  by (induction xs arbitrary: pos) (auto split: option.splits)

lemma find_last_cmd_none:
  "set ys \<subseteq> dom m \<Longrightarrow> \<forall>b\<in>set ys. \<not> P (the (m b)) \<Longrightarrow> find_last_cmd P m pos ys = Some pos"
  by (induction ys arbitrary: pos) auto

lemma find_last_cmd_at:
  assumes "set (xs @ a # ys) \<subseteq> dom m" "P (the (m a))" "\<forall>b\<in>set ys. \<not> P (the (m b))"
  shows "find_last_cmd P m pos (xs @ a # ys) = Some (Some a)"
proof -
  obtain r where "find_last_cmd P m pos xs = Some r"
    using find_last_cmd_total [of xs m P pos] assms(1) by auto
  with assms show ?thesis by (auto simp: find_last_cmd_app find_last_cmd_none split: option.splits)
qed

lemma after_node:
  "distinct (xs @ a # ys) \<Longrightarrow> tl (dropWhile (\<lambda>b. b \<noteq> a) (xs @ a # ys)) = ys"
  by (induction xs) auto

lemma remove1_mid: "distinct (xs @ a # ys) \<Longrightarrow> remove1 a (xs @ a # ys) = xs @ ys"
  by (simp add: remove1_append)

text \<open>The start command of an application that sent nothing after it.\<close>

definition chosen :: "ams \<Rightarrow> addr list \<Rightarrow> addr \<Rightarrow> addr list \<Rightarrow> audio_command_t \<Rightarrow> bool" where
  "chosen s xs a ys c \<longleftrightarrow> am_head s = xs @ a # ys \<and> am_store s a = Some c \<and> is_start c \<and>
     (\<forall>b\<in>set ys. \<not> is_start (the (am_store s b)) \<and> ac_app (the (am_store s b)) \<noteq> ac_app c)"

lemma chosen_search:
  assumes inv: "ams_inv X s" and ch: "chosen s xs a ys c"
  shows "search_last_start_cmd s = Some (Some a)"
    "search_cmd_by_app s (ac_app c) (Some a) = Some None"
    "\<exists>b. delete_cmd a s = Some (s\<lparr>am_head := xs @ ys\<rparr>, b)"
proof -
  have h: "am_head s = xs @ a # ys" using ch by (simp add: chosen_def)
  have d: "distinct (xs @ a # ys)" "set (xs @ a # ys) \<subseteq> dom (am_store s)"
    using inv h by (simp_all add: ams_inv_def)
  show "search_last_start_cmd s = Some (Some a)"
    unfolding search_last_start_cmd_def h
    by (rule find_last_cmd_at) (use d ch in \<open>auto simp: chosen_def\<close>)
  show "search_cmd_by_app s (ac_app c) (Some a) = Some None"
    unfolding search_cmd_by_app_def h option.case after_node [OF d(1)]
    by (rule find_node_none) (use d ch in \<open>auto simp: chosen_def\<close>)
  show "\<exists>b. delete_cmd a s = Some (s\<lparr>am_head := xs @ ys\<rparr>, b)"
    using delete_cmd_eq [of a s] h remove1_mid [OF d(1)] by auto
qed

lemma last_start_wins:
  assumes inv: "ams_inv {} s" and idle: "am_current s = None" and ch: "chosen s xs a ys c"
    and play: "ac_cmd c = AUDIO_MANAGER_PLAY_START" and free: "\<not> e_blocking e"
  shows "execute_audio_command e s = Some (emits
      (start_events e (am_music_wake_lock s) c @ concat (map (ignored (am_store s)) (xs @ ys)))
      (s\<lparr>am_head := [], am_current := Some a, am_state := AUDIO_MANAGER_ST_START_PLAY,
         am_current_type := (if ac_tone_path c \<noteq> [] then AUDIO_TYPE_TONE else AUDIO_TYPE_SONG),
         am_store := (am_store s |` (- set (xs @ ys)))(a \<mapsto> c\<lparr>ac_tone_path := []\<rparr>)\<rparr>), False)"
proof -
  note look = chosen_search [OF inv ch]
  have st: "am_state s = AUDIO_MANAGER_ST_IDLE" using inv idle inv_idle by blast
  have h: "am_head s = xs @ a # ys" and c: "am_store s a = Some c"
    using ch by (simp_all add: chosen_def)
  have d: "a \<notin> set (xs @ ys)" "cmd_ok c" using inv h c by (auto simp: ams_inv_def)
  let ?s1 = "s\<lparr>am_head := xs @ ys\<rparr>" and ?s2 = "started e a c (s\<lparr>am_head := xs @ ys\<rparr>)"
  have ex: "execute_start_command e a ?s1 = Some (?s2, True)"
    using idle free play c start_play_eq [of ?s1 a c e] d(2)
    by (simp add: execute_start_command_def)
  have head2: "am_head ?s2 = xs @ ys" by (simp add: started_def)
  have "concat (map (ignored (am_store ?s2)) (xs @ ys)) = concat (map (ignored (am_store s)) (xs @ ys))"
    by (rule arg_cong [where f=concat], rule map_cong)
      (use d in \<open>auto simp: ignored_def started_def split: option.splits\<close>)
  moreover have "ignore_all_command ?s2 =
     Some (emits (concat (map (ignored (am_store ?s2)) (xs @ ys)))
       (?s2\<lparr>am_head := [], am_store := am_store ?s2 |` (- set (xs @ ys))\<rparr>))"
    unfolding ignore_all_command_def head2
    by (rule ignore_nodes_eq) (use inv h in \<open>auto simp: ams_inv_def started_def\<close>)
  moreover have "am_store ?s2 |` (- set (xs @ ys)) =
      (am_store s |` (- set (xs @ ys)))(a \<mapsto> c\<lparr>ac_tone_path := []\<rparr>)"
    using d by (auto simp: started_def restrict_map_def)
  ultimately have "ignore_all_command ?s2 = Some (emits
      (start_events e (am_music_wake_lock s) c @ concat (map (ignored (am_store s)) (xs @ ys)))
      (s\<lparr>am_head := [], am_current := Some a, am_state := AUDIO_MANAGER_ST_START_PLAY,
         am_current_type := (if ac_tone_path c \<noteq> [] then AUDIO_TYPE_TONE else AUDIO_TYPE_SONG),
         am_store := (am_store s |` (- set (xs @ ys)))(a \<mapsto> c\<lparr>ac_tone_path := []\<rparr>)\<rparr>))"
    by (simp add: started_def)
  with look ex st idle h c show ?thesis
    by (auto simp: execute_audio_command_def delay_process_def execute_with_start_def)
qed


lemma superseded_start_is_ignored:
  assumes inv: "ams_inv {} s" and idle: "am_current s = None"
    and h: "am_head s = xs @ a # ys" and c: "am_store s a = Some c" "is_start c"
    and last: "\<forall>b\<in>set ys. \<not> is_start (the (am_store s b))"
    and later: "b \<in> set ys" "ac_app (the (am_store s b)) = ac_app c"
  shows "execute_audio_command e s = Some (emits (concat (map (ignored (am_store s)) (am_head s)))
      (s\<lparr>am_head := [], am_store := am_store s |` (- set (am_head s))\<rparr>), False)"
proof -
  have st: "am_state s = AUDIO_MANAGER_ST_IDLE" using inv idle inv_idle by blast
  have d: "distinct (xs @ a # ys)" "set (xs @ a # ys) \<subseteq> dom (am_store s)"
    using inv h by (simp_all add: ams_inv_def)
  have "search_last_start_cmd s = Some (Some a)"
    unfolding search_last_start_cmd_def h
    by (rule find_last_cmd_at) (use d c last in \<open>auto\<close>)
  moreover obtain r where "search_cmd_by_app s (ac_app c) (Some a) = Some (Some r)"
    using find_node_first [of ys "am_store s" b "\<lambda>c'. ac_app c' = ac_app c"] d(2) later
    by (auto simp: search_cmd_by_app_def h after_node [OF d(1)])
  ultimately show ?thesis using st idle h c ignore_all_eq [OF inv]
    by (simp add: execute_audio_command_def delay_process_def execute_with_start_def)
qed

section \<open>Errors and the end of a song\<close>

definition playing_states :: "audio_manager_state_t set" where
  "playing_states =
     {AUDIO_MANAGER_ST_START_PLAY, AUDIO_MANAGER_ST_PLAYING, AUDIO_MANAGER_ST_PAUSE_PLAY}"

lemma drop_current_eq:
  "am_current s = Some a \<Longrightarrow> am_store s a = Some c \<Longrightarrow> drop_current s =
     Some (s\<lparr>am_state := AUDIO_MANAGER_ST_IDLE, am_current := None, am_store := (am_store s)(a := None)\<rparr>)"
  by (simp add: drop_current_def free_cmd_def)

lemma end_play_eq:
  assumes "am_current s = Some a" "am_store s a = Some c"
  shows "end_play n s = Some (emits (EvPA False # notify_events (am_music_wake_lock s) c n)
     (s\<lparr>am_state := AUDIO_MANAGER_ST_IDLE, am_current := None, am_current_type := AUDIO_TYPE_UNDEFINE,
        am_store := (am_store s)(a := None)\<rparr>))"
  using assms by (simp add: end_play_def notify_current_eq drop_current_eq [where a=a and c=c]
      set_type_def emit_emits)

lemma player_error_ends_play:
  assumes "am_state s \<in> playing_states" "am_current s = Some a" "am_store s a = Some c"
  shows "update_audio_manager_state e AUDIO_STATUS_ERROR s =
     Some (emits (EvPA False # notify_events (am_music_wake_lock s) c NOTIFY_STATUS_PLAY_ERROR)
       (s\<lparr>am_state := AUDIO_MANAGER_ST_IDLE, am_current := None,
          am_current_type := AUDIO_TYPE_UNDEFINE, am_store := (am_store s)(a := None)\<rparr>))"
  using assms end_play_eq [OF assms(2,3)]
  by (auto simp: playing_states_def update_audio_manager_state_def update_start_play_def
      update_playing_def update_pause_play_def)

lemma tone_then_song:
  assumes inv: "ams_inv {} s" and st: "am_state s = AUDIO_MANAGER_ST_PLAYING"
    and tone: "am_current_type s = AUDIO_TYPE_TONE"
    and cur: "am_current s = Some a" and c: "am_store s a = Some c" and t: "ac_tone_path c = []"
    and fin: "m = AUDIO_STATUS_FINISHED \<or> m = AUDIO_STATUS_STOP" and free: "\<not> e_blocking e"
  shows "update_audio_manager_state e m s = Some (emits (start_events e (am_music_wake_lock s) c)
      (s\<lparr>am_state := AUDIO_MANAGER_ST_START_PLAY, am_current_type := AUDIO_TYPE_SONG\<rparr>))
    \<and> EvAddUri (ac_file_path c) \<in> set (start_events e (am_music_wake_lock s) c)"
proof -
  have ok: "cmd_ok c" using inv c by (auto simp: ams_inv_def)
  have cmd: "ac_cmd c = AUDIO_MANAGER_PLAY_START"
    using inv_current [OF inv cur] c st by (auto simp: record_states_def)
  let ?s1 = "s\<lparr>am_state := AUDIO_MANAGER_ST_IDLE, am_current := None\<rparr>"
  have "c\<lparr>ac_tone_path := []\<rparr> = c" using t by simp
  then have m: "(am_store s)(a \<mapsto> c\<lparr>ac_tone_path := []\<rparr>) = am_store s"
    using c by (metis fun_upd_triv)
  have "s\<lparr>am_current := Some a\<rparr> = s" using cur by (cases s) simp
  then have "started e a c ?s1 = emits (start_events e (am_music_wake_lock s) c)
      (s\<lparr>am_state := AUDIO_MANAGER_ST_START_PLAY, am_current_type := AUDIO_TYPE_SONG\<rparr>)"
    using m t cur by (cases s) (simp add: started_def emits_def)
  moreover have "execute_start_command e a ?s1 = Some (started e a c ?s1, True)"
    using c ok cmd free start_play_eq [of ?s1 a c e] by (simp add: execute_start_command_def)
  moreover have "EvAddUri (ac_file_path c) \<in> set (start_events e (am_music_wake_lock s) c)"
    using t by (simp add: start_events_def)
  ultimately show ?thesis using st fin tone cur
    by (auto simp: update_audio_manager_state_def update_playing_def)
qed

section \<open>Commands that wait\<close>

lemma delayed_command_queues:
  assumes "delay_process s" "e_malloc e = Some a" "ac_cmd c \<notin> {AUDIO_MANAGER_VOL_UP,
     AUDIO_MANAGER_VOL_DOWN, AUDIO_MANAGER_UNDEFINE}"
  shows "AudioManagerServiceTask (e, Command c) s =
     Some (s\<lparr>am_store := (am_store s)(a \<mapsto> c), am_head := am_head s @ [a]\<rparr>)"
  using assms by (cases "ac_cmd c")
    (simp_all add: AudioManagerServiceTask_def command_received_def execute_audio_command_def
      delay_process_def insert_cmd_def)

section \<open>Looking for a command by the wrong enumerator\<close>

lemma msg_code_inj: "msg_code a = msg_code b \<longleftrightarrow> a = b"
  by (cases a; cases b) simp_all

lemma search_by_wrong_enumerator:
  "search_app_cmd_by_code s app (state_code AUDIO_MANAGER_ST_STOP_PLAY) =
     search_app_cmd_by_msg s app AUDIO_MANAGER_PLAY_STOP"
  "search_app_cmd_by_code s app (state_code AUDIO_MANAGER_ST_PAUSE_PLAY) =
     search_app_cmd_by_msg s app AUDIO_MANAGER_PLAY_PAUSE"
  "search_app_cmd_by_code s app (state_code AUDIO_MANAGER_ST_RESUME_PLAY) =
     search_app_cmd_by_msg s app AUDIO_MANAGER_PLAY_RESUME"
proof -
  have k: "state_code AUDIO_MANAGER_ST_STOP_PLAY = msg_code AUDIO_MANAGER_PLAY_STOP"
    "state_code AUDIO_MANAGER_ST_PAUSE_PLAY = msg_code AUDIO_MANAGER_PLAY_PAUSE"
    "state_code AUDIO_MANAGER_ST_RESUME_PLAY = msg_code AUDIO_MANAGER_PLAY_RESUME" by simp_all
  have eq: "search_app_cmd_by_code s app (msg_code m) = search_app_cmd_by_msg s app m" for m
    by (simp only: search_app_cmd_by_code_def search_app_cmd_by_msg_def msg_code_inj)
  show "search_app_cmd_by_code s app (state_code AUDIO_MANAGER_ST_STOP_PLAY) =
     search_app_cmd_by_msg s app AUDIO_MANAGER_PLAY_STOP"
    "search_app_cmd_by_code s app (state_code AUDIO_MANAGER_ST_PAUSE_PLAY) =
     search_app_cmd_by_msg s app AUDIO_MANAGER_PLAY_PAUSE"
    "search_app_cmd_by_code s app (state_code AUDIO_MANAGER_ST_RESUME_PLAY) =
     search_app_cmd_by_msg s app AUDIO_MANAGER_PLAY_RESUME"
    unfolding k by (rule eq)+
qed

section \<open>Volume\<close>

lemma vol_range [simp]:
  "0 \<le> v \<Longrightarrow> v \<le> 100 \<Longrightarrow> 0 \<le> vol_up v \<and> vol_up v \<le> 100"
  "0 \<le> v \<Longrightarrow> v \<le> 100 \<Longrightarrow> 0 \<le> vol_down v \<and> vol_down v \<le> 100"
  by (auto simp: vol_up_def vol_down_def)


section \<open>Preemption\<close>

text \<open>Nobody in the list asks to stop what is current.\<close>

definition no_stop_for :: "ams \<Rightarrow> audio_command_t \<Rightarrow> bool" where
  "no_stop_for s c0 \<longleftrightarrow> (\<forall>b\<in>set (am_head s).
     \<not> (ac_cmd (the (am_store s b)) = AUDIO_MANAGER_PLAY_STOP \<and> ac_app (the (am_store s b)) = ac_app c0))"

definition disturbed_events :: "ams_env \<Rightarrow> bool \<Rightarrow> audio_command_t \<Rightarrow> ams_event list" where
  "disturbed_events e wake c0 =
     (case ac_callback_param c0 of
        Some p \<Rightarrow> if story_app (ac_app c0) then [EvItemTime p (e_pos e)] else []
      | None \<Rightarrow> []) @
     [EvPA False, EvMediaStop] @ notify_events wake c0 NOTIFY_STATUS_PLAY_DISTURBED"

lemma stop_playing_disturbed:
  assumes "am_current s = Some cur" "am_store s cur = Some c0" "\<not> e_blocking e"
  shows "stop_playing e None s = Some (emits (disturbed_events e (am_music_wake_lock s) c0)
     (s\<lparr>am_state := AUDIO_MANAGER_ST_STOP_PLAY\<rparr>), True)"
  using assms
  by (auto simp: stop_playing_def record_item_time_def disturbed_events_def notify_current_eq
      emit_emits Let_def split: option.splits)

lemma stop_current_disturbed:
  assumes inv: "ams_inv X s" and cur: "am_current s = Some cur" "am_store s cur = Some c0"
    and st: "am_state s = AUDIO_MANAGER_ST_PLAYING" and free: "\<not> e_blocking e"
    and none: "no_stop_for s c0" and app: "ac_app c0 \<noteq> AUDIO_APP_UNDEFINED"
  shows "stop_current e s = Some (emits (disturbed_events e (am_music_wake_lock s) c0)
     (s\<lparr>am_state := AUDIO_MANAGER_ST_STOP_PLAY\<rparr>))"
proof -
  have "search_app_cmd_by_msg s (ac_app c0) AUDIO_MANAGER_PLAY_STOP = Some None"
    using app inv none unfolding search_app_cmd_by_msg_def
    by (auto simp: no_stop_for_def ams_inv_def intro!: find_node_none)
  with cur st stop_playing_disturbed [OF cur free] show ?thesis
    by (simp add: stop_current_def take_stop_cmd_def current_app_def stop_msg_def
        execute_stop_command_def)
qed

lemma preempt:
  assumes inv: "ams_inv {} s" and cur: "am_current s = Some cur" "am_store s cur = Some c0"
    and st: "am_state s = AUDIO_MANAGER_ST_PLAYING" and free: "\<not> e_blocking e"
    and none: "no_stop_for s c0" and app: "ac_app c0 \<noteq> AUDIO_APP_UNDEFINED"
    and ch: "chosen s xs a ys c"
  shows "execute_audio_command e s = Some (emits
      (disturbed_events e (am_music_wake_lock s) c0 @ concat (map (ignored (am_store s)) (xs @ ys)))
      (s\<lparr>am_state := AUDIO_MANAGER_ST_STOP_PLAY, am_head := [a],
         am_store := am_store s |` (- set (xs @ ys))\<rparr>), False)"
proof -
  note look = chosen_search [OF inv ch]
  have h: "am_head s = xs @ a # ys" and c: "am_store s a = Some c"
    using ch by (simp_all add: chosen_def)
  have a: "a \<in> set (am_head s)" using h by simp
  let ?s1 = "s\<lparr>am_head := xs @ ys\<rparr>"
  have inv1: "ams_inv {a} ?s1" using delete_cmd_inv [OF inv a] look(3) by auto
  have none1: "no_stop_for ?s1 c0" using none h by (simp add: no_stop_for_def)
  let ?s2 = "emits (disturbed_events e (am_music_wake_lock s) c0)
     (?s1\<lparr>am_state := AUDIO_MANAGER_ST_STOP_PLAY\<rparr>)"
  have s2: "stop_current e ?s1 = Some ?s2"
    using stop_current_disturbed [OF inv1 _ _ _ free none1 app, of cur] cur st by simp
  have "ignore_all_command ?s2 = Some (emits (concat (map (ignored (am_store s)) (xs @ ys)))
      (?s2\<lparr>am_head := [], am_store := am_store s |` (- set (xs @ ys))\<rparr>))"
    using ignore_nodes_eq [of "xs @ ys" ?s2] inv h
    by (auto simp: ignore_all_command_def ams_inv_def)
  with s2 look h c cur st show ?thesis
    by (auto simp: execute_audio_command_def delay_process_def execute_with_start_def insert_cmd_def)
qed

text \<open>The player reports that the old song is over: its command is dropped.\<close>

lemma stop_play_over:
  assumes "am_state s = AUDIO_MANAGER_ST_STOP_PLAY" "am_current s = Some cur" "am_store s cur = Some c0"
    and "m \<in> {AUDIO_STATUS_STOP, AUDIO_STATUS_FINISHED, AUDIO_STATUS_ERROR}"
  shows "update_audio_manager_state e m s = Some (s\<lparr>am_state := AUDIO_MANAGER_ST_IDLE,
    am_current := None, am_store := (am_store s)(cur := None), am_current_type := AUDIO_TYPE_UNDEFINE\<rparr>)"
  using assms
  by (auto simp: update_audio_manager_state_def update_stop_play_def drop_current_eq set_type_def)

lemma handover:
  assumes inv: "ams_inv {} s" and st: "am_state s = AUDIO_MANAGER_ST_STOP_PLAY"
    and cur: "am_current s = Some cur" and ch: "chosen s xs a ys c"
    and c: "ac_cmd c = AUDIO_MANAGER_PLAY_START"
    and m: "m \<in> {AUDIO_STATUS_STOP, AUDIO_STATUS_FINISHED, AUDIO_STATUS_ERROR}"
    and free: "\<not> e_blocking e"
  shows "\<exists>s'. AudioManagerServiceTask (e, Player m) s = Some s' \<and>
     am_state s' = AUDIO_MANAGER_ST_START_PLAY \<and> am_current s' = Some a \<and> am_head s' = [] \<and>
     (\<forall>b\<in>set (cur # xs @ ys). am_store s' b = None) \<and>
     am_trace s' = am_trace s @ start_events e (am_music_wake_lock s) c @
       concat (map (ignored (am_store s)) (xs @ ys))"
proof -
  obtain c0 where c0: "am_store s cur = Some c0" "cur \<notin> set (am_head s)"
    using inv_current [OF inv cur] by metis
  have h: "am_head s = xs @ a # ys" using ch by (simp add: chosen_def)
  let ?s1 = "s\<lparr>am_state := AUDIO_MANAGER_ST_IDLE, am_current := None,
    am_store := (am_store s)(cur := None), am_current_type := AUDIO_TYPE_UNDEFINE\<rparr>"
  have u: "update_audio_manager_state e m s = Some ?s1" by (rule stop_play_over [OF st cur c0(1) m])
  then have inv1: "ams_inv {} ?s1" using update_player_inv [OF inv, of e m] by auto
  have ch1: "chosen ?s1 xs a ys c" using ch c0(2) h by (auto simp: chosen_def)
  have "concat (map (ignored ((am_store s)(cur := None))) (xs @ ys)) =
      concat (map (ignored (am_store s)) (xs @ ys))"
    by (rule arg_cong [where f=concat], rule map_cong)
      (use c0 h in \<open>auto simp: ignored_def split: option.splits\<close>)
  moreover have "a \<notin> set (xs @ ys)" using inv h by (auto simp: ams_inv_def)
  ultimately show ?thesis using last_start_wins [OF inv1 _ ch1 c free] u c0 h
    by (auto simp: AudioManagerServiceTask_def restrict_map_def)
qed

section \<open>A node that is lost stays allocated\<close>

text \<open>
  A pause command is unlinked and then only its application is looked at: the node is neither
  freed nor kept.
\<close>

lemma pause_keeps_node:
  assumes inv: "ams_inv {} s" and st: "am_state s = AUDIO_MANAGER_ST_PLAYING"
    and cur: "am_current s = Some a" "am_store s a = Some c" and h: "am_head s = []"
    and app: "ac_app c \<noteq> AUDIO_APP_UNDEFINED"
    and p: "ac_cmd p = AUDIO_MANAGER_PLAY_PAUSE" "ac_app p = ac_app c" "cmd_ok p"
    and b: "e_malloc e = Some b" "am_store s b = None"
    and step: "AudioManagerServiceTask (e, Command p) s = Some s1"
  shows "ams_inv {b} s1 \<and> (\<not> e_blocking e \<longrightarrow> am_state s1 = AUDIO_MANAGER_ST_PAUSE_PLAY)"
proof -
  define t where "t = insert_cmd b (s\<lparr>am_store := (am_store s)(b \<mapsto> p)\<rparr>)"
  have ab: "a \<noteq> b" using cur b by auto
  have t: "am_head t = [b]" "am_store t b = Some p" "am_store t a = Some c" "am_current t = Some a"
    "am_state t = AUDIO_MANAGER_ST_PLAYING"
    using st cur h ab by (simp_all add: t_def insert_cmd_def)
  have inv_t: "ams_inv {} t" unfolding t_def by (rule malloc_inv [OF inv b(2) p(3)])
  obtain t1 b' where t1: "delete_cmd b t = Some (t1, b')" "ams_inv {b} t1"
    "t1 = t\<lparr>am_head := []\<rparr>"
    using delete_cmd_inv [OF inv_t, of b] t(1) by auto
  obtain r where r: "execute_pause_command e t1 = Some r" "ams_inv {b} (fst r)"
    using pause_inv [OF t1(2)] by blast
  have "stop_if_asked e t = Some t"
    using t app p by (simp add: stop_if_asked_def current_app_def stop_msg_def
        search_app_cmd_by_msg_def)
  moreover have "pause_resume_or_stop e t = Some (fst r)"
    using t app p t1(1) r(1)
    by (simp add: pause_resume_or_stop_def search_by_state_def current_app_def
        search_app_cmd_by_code_def)
  ultimately have run: "execute_audio_command e t = map_option (\<lambda>s. (s, False)) (ignore_all_command (fst r))"
    using t p by (cases "ignore_all_command (fst r)")
      (simp_all add: execute_audio_command_def delay_process_def search_last_start_cmd_def is_start_def
        execute_without_start_def)
  obtain s2 where s2: "ignore_all_command (fst r) = Some s2" "ams_inv {b} s2"
    "am_state s2 = am_state (fst r)"
    using ignore_all_inv [OF r(2)] by blast
  have "s1 = s2"
    using step run s2(1) p b(1) by (simp add: AudioManagerServiceTask_def command_received_def t_def)
  moreover have "am_state (fst r) = AUDIO_MANAGER_ST_PAUSE_PLAY" if "\<not> e_blocking e"
    using r(1) t1(3) t that by (auto simp: execute_pause_command_def notify_current_eq)
  ultimately show ?thesis using s2 by auto
qed


section \<open>Properties\<close>

text \<open>Concrete states for the witnesses.\<close>

definition wit_cmd :: "AudioAppType \<Rightarrow> AudioManagerMsg \<Rightarrow> addr \<Rightarrow> audio_command_t" where
  "wit_cmd app msg f = \<lparr>ac_app = app, ac_cmd = msg, ac_record_type = [], ac_tone_path = [],
     ac_file_path = ''a.mp3'', ac_record_buffer = None, ac_callback = Some f,
     ac_callback_param = None\<rparr>"

definition wit_env :: "addr \<Rightarrow> ams_env" where
  "wit_env a = \<lparr>e_blocking = False, e_record_exceed_limit = False, e_pos = 0, e_total_time = 0,
     e_item_time = (\<lambda>_. 0), e_record_send_ok = True, e_malloc = Some a, e_hal_volume = Some 50,
     e_hal_set_ok = (\<lambda>_. True), e_set_volume = None, e_get_volume = None\<rparr>"

definition wit_state :: "audio_manager_state_t \<Rightarrow> audio_type_t \<Rightarrow> ams" where
  "wit_state st ty = (ams_init False)\<lparr>am_state := st, am_current := Some 1, am_current_type := ty,
     am_store := [1 \<mapsto> wit_cmd AUDIO_APP_HABIT AUDIO_MANAGER_PLAY_START 7]\<rparr>"

lemmas wit_defs = wit_cmd_def wit_env_def wit_state_def ams_init_def

lemma wit_state_inv: "st \<in> play_states \<Longrightarrow> ams_inv {} (wit_state st ty)"
  by (auto simp: wit_defs ams_inv_def current_ok_def cmd_ok_def play_states_def split: if_splits)

text \<open>C1: the audio manager task, started by \<open>ams_init\<close> and given any sequence of commands and
  player reports whose strings fit their arrays, never reads or frees a node that is not live,
  never overruns a path array and never waits for the record semaphore forever: each further
  step is defined. It is idle exactly when nothing is current, its command list has live nodes
  without repetition, the current command is live and not in the list, and the record semaphore
  is taken exactly while a recording starts or runs.\<close>

theorem ams_task_safe:
  assumes "reach AudioManagerServiceTask input_ok {ams_init w} s" "input_ok i s"
  shows "\<exists>s'. AudioManagerServiceTask i s = Some s' \<and>
    (am_current s' = None \<longleftrightarrow> am_state s' = AUDIO_MANAGER_ST_IDLE) \<and>
    distinct (am_head s') \<and> set (am_head s') \<union> set_option (am_current s') \<subseteq> dom (am_store s') \<and>
    set (am_head s') \<inter> set_option (am_current s') = {} \<and>
    (am_rthread_run s' \<longleftrightarrow>
       am_state s' \<notin> {AUDIO_MANAGER_ST_START_RECORD, AUDIO_MANAGER_ST_RECORDING})"
proof -
  obtain s' where s': "AudioManagerServiceTask i s = Some s'" "ams_inv {} s'"
    using ams.reach_not_stuck [OF assms(1) ams_init_inv [of _ w] assms(2)] by auto
  with inv_idle [OF s'(2)] show ?thesis
    by (cases "am_current s'") (auto simp: ams_inv_def current_ok_def)
qed

theorem ams_task_safe_witness:
  "\<exists>s'. AudioManagerServiceTask
      (wit_env 3, Command (wit_cmd AUDIO_APP_ALARM AUDIO_MANAGER_RECORD_START 9)) (ams_init True) = Some s' \<and>
    (am_rthread_run s' \<longleftrightarrow>
       am_state s' \<notin> {AUDIO_MANAGER_ST_START_RECORD, AUDIO_MANAGER_ST_RECORDING})"
proof -
  have "input_ok (wit_env 3, Command (wit_cmd AUDIO_APP_ALARM AUDIO_MANAGER_RECORD_START 9)) (ams_init True)"
    by (simp add: input_ok_def wit_defs cmd_ok_def)
  from ams_task_safe [OF reach_init this, of True] show ?thesis by auto
qed

text \<open>When the player reports that the old song is over, of all queued commands the last
  start wins, if its application sent nothing after it: it becomes the current command, the
  player is driven with its tone or file, and every other queued command is answered
  \<open>COMMAND_IGNORED\<close> once, in order, and freed together with the old one.\<close>

theorem latest_start_wins:
  assumes "ams_inv {} s" "am_state s = AUDIO_MANAGER_ST_STOP_PLAY" "am_current s = Some cur"
    and "chosen s xs a ys c" "ac_cmd c = AUDIO_MANAGER_PLAY_START"
    and "m \<in> {AUDIO_STATUS_STOP, AUDIO_STATUS_FINISHED, AUDIO_STATUS_ERROR}" "\<not> e_blocking e"
  shows "\<exists>s'. AudioManagerServiceTask (e, Player m) s = Some s' \<and>
     am_state s' = AUDIO_MANAGER_ST_START_PLAY \<and> am_current s' = Some a \<and> am_head s' = [] \<and>
     (\<forall>b\<in>set (cur # xs @ ys). am_store s' b = None) \<and>
     am_trace s' = am_trace s @ start_events e (am_music_wake_lock s) c @
       concat (map (ignored (am_store s)) (xs @ ys))"
  using handover [OF assms] .

theorem latest_start_wins_witness:
  "\<exists>s'. AudioManagerServiceTask (wit_env 9, Player AUDIO_STATUS_STOP)
      ((wit_state AUDIO_MANAGER_ST_STOP_PLAY AUDIO_TYPE_SONG)
         \<lparr>am_head := [2, 3], am_store := [1 \<mapsto> wit_cmd AUDIO_APP_HABIT AUDIO_MANAGER_PLAY_START 7,
            2 \<mapsto> wit_cmd AUDIO_APP_WECHAT AUDIO_MANAGER_PLAY_START 8,
            3 \<mapsto> wit_cmd AUDIO_APP_ALARM AUDIO_MANAGER_PLAY_START 9]\<rparr>) = Some s' \<and>
     am_current s' = Some 3"
proof -
  let ?s = "(wit_state AUDIO_MANAGER_ST_STOP_PLAY AUDIO_TYPE_SONG)
         \<lparr>am_head := [2, 3], am_store := [1 \<mapsto> wit_cmd AUDIO_APP_HABIT AUDIO_MANAGER_PLAY_START 7,
            2 \<mapsto> wit_cmd AUDIO_APP_WECHAT AUDIO_MANAGER_PLAY_START 8,
            3 \<mapsto> wit_cmd AUDIO_APP_ALARM AUDIO_MANAGER_PLAY_START 9]\<rparr>"
  have "ams_inv {} ?s" by (auto simp: wit_defs ams_inv_def current_ok_def cmd_ok_def split: if_splits)
  moreover have "chosen ?s [2] 3 [] (wit_cmd AUDIO_APP_ALARM AUDIO_MANAGER_PLAY_START 9)"
    by (simp add: chosen_def is_start_def wit_cmd_def)
  ultimately show ?thesis
    using latest_start_wins [of ?s 1 "[2]" 3 "[]" "wit_cmd AUDIO_APP_ALARM AUDIO_MANAGER_PLAY_START 9"
        AUDIO_STATUS_STOP "wit_env 9"] by (auto simp: wit_defs)
qed

text \<open>C2: a start command that arrives while a song of another command plays preempts it: the
  player is stopped, the old client hears \<open>PLAY_DISTURBED\<close> and the new command waits; when the
  player reports the end, the old command is freed and the new one drives the player. The trace
  is exact.\<close>

theorem playing_song_is_preempted:
  assumes inv: "ams_inv {} s" and st: "am_state s = AUDIO_MANAGER_ST_PLAYING" and h: "am_head s = []"
    and cur: "am_current s = Some cur" "am_store s cur = Some c0" "ac_app c0 \<noteq> AUDIO_APP_UNDEFINED"
    and c: "ac_cmd c = AUDIO_MANAGER_PLAY_START" "cmd_ok c"
    and a: "e_malloc e = Some a" "am_store s a = None" and free: "\<not> e_blocking e" "\<not> e_blocking e'"
    and m: "m \<in> {AUDIO_STATUS_STOP, AUDIO_STATUS_FINISHED, AUDIO_STATUS_ERROR}"
  shows "\<exists>s'. run_opt AudioManagerServiceTask [(e, Command c), (e', Player m)] s = Some s' \<and>
     am_state s' = AUDIO_MANAGER_ST_START_PLAY \<and> am_current s' = Some a \<and> am_store s' cur = None \<and>
     am_trace s' = am_trace s @ disturbed_events e (am_music_wake_lock s) c0 @
       start_events e' (am_music_wake_lock s) c"
proof -
  let ?t = "insert_cmd a (s\<lparr>am_store := (am_store s)(a \<mapsto> c)\<rparr>)"
  have inv_t: "ams_inv {} ?t" by (rule malloc_inv [OF inv a(2) c(2)])
  have ch: "chosen ?t [] a [] c" using h c by (simp add: chosen_def insert_cmd_def is_start_def)
  have none: "no_stop_for ?t c0" using h c by (simp add: no_stop_for_def insert_cmd_def)
  have ne: "cur \<noteq> a" using cur a by auto
  let ?s1 = "emits (disturbed_events e (am_music_wake_lock s) c0)
      (s\<lparr>am_state := AUDIO_MANAGER_ST_STOP_PLAY, am_head := [a], am_store := (am_store s)(a \<mapsto> c)\<rparr>)"
  have "(am_store s |` (UNIV - {a}))(a \<mapsto> c) = (am_store s)(a \<mapsto> c)"
    by (auto simp: restrict_map_def)
  then have s1: "AudioManagerServiceTask (e, Command c) s = Some ?s1"
    using preempt [OF inv_t _ _ _ free(1) none cur(3) ch, of cur] st cur ne h c a
    by (simp add: AudioManagerServiceTask_def command_received_def insert_cmd_def)
  have ok: "input_ok (e, Command c) s" using c a by (simp add: input_ok_def)
  have inv1: "ams_inv {} ?s1" by (rule ams.step_inv [OF inv ok s1])
  have ch1: "chosen ?s1 [] a [] c" using c by (simp add: chosen_def is_start_def)
  from handover [OF inv1 _ _ ch1 c(1) m free(2), of cur] cur obtain s' where
    "AudioManagerServiceTask (e', Player m) ?s1 = Some s'" "am_state s' = AUDIO_MANAGER_ST_START_PLAY"
    "am_current s' = Some a" "am_store s' cur = None"
    "am_trace s' = am_trace ?s1 @ start_events e' (am_music_wake_lock s) c"
    by auto
  with s1 show ?thesis by simp
qed

theorem playing_song_is_preempted_witness:
  "\<exists>s'. run_opt AudioManagerServiceTask
       [(wit_env 2, Command (wit_cmd AUDIO_APP_WECHAT AUDIO_MANAGER_PLAY_START 8)),
        (wit_env 9, Player AUDIO_STATUS_STOP)]
       (wit_state AUDIO_MANAGER_ST_PLAYING AUDIO_TYPE_SONG) = Some s' \<and> am_current s' = Some 2"
  using playing_song_is_preempted [OF wit_state_inv [of AUDIO_MANAGER_ST_PLAYING AUDIO_TYPE_SONG],
      of 1 "wit_cmd AUDIO_APP_HABIT AUDIO_MANAGER_PLAY_START 7"
        "wit_cmd AUDIO_APP_WECHAT AUDIO_MANAGER_PLAY_START 8" "wit_env 2" 2 "wit_env 9" AUDIO_STATUS_STOP]
  by (auto simp: wit_defs cmd_ok_def)

text \<open>An application that asked to start and then sent anything else changed its mind: when
  the manager is idle nothing is started, not even an older start of another application, and all
  queued commands are answered \<open>COMMAND_IGNORED\<close> and freed.\<close>

theorem superseded_start_is_dropped:
  assumes "ams_inv {} s" "am_current s = None"
    and "am_head s = xs @ a # ys" "am_store s a = Some c" "is_start c"
    and "\<forall>b\<in>set ys. \<not> is_start (the (am_store s b))"
    and "b \<in> set ys" "ac_app (the (am_store s b)) = ac_app c"
  shows "execute_audio_command e s = Some (emits (concat (map (ignored (am_store s)) (am_head s)))
      (s\<lparr>am_head := [], am_store := am_store s |` (- set (am_head s))\<rparr>), False)"
  using superseded_start_is_ignored [OF assms] .

theorem superseded_start_is_dropped_witness:
  "\<exists>s'. execute_audio_command (wit_env 9) ((ams_init False)\<lparr>am_head := [2, 3],
      am_store := [2 \<mapsto> wit_cmd AUDIO_APP_HABIT AUDIO_MANAGER_PLAY_START 8,
        3 \<mapsto> wit_cmd AUDIO_APP_HABIT AUDIO_MANAGER_PLAY_STOP 9]\<rparr>) = Some (s', False) \<and>
     am_current s' = None \<and> am_head s' = []"
proof -
  let ?s = "(ams_init False)\<lparr>am_head := [2, 3],
      am_store := [2 \<mapsto> wit_cmd AUDIO_APP_HABIT AUDIO_MANAGER_PLAY_START 8,
        3 \<mapsto> wit_cmd AUDIO_APP_HABIT AUDIO_MANAGER_PLAY_STOP 9]\<rparr>"
  have "ams_inv {} ?s" by (auto simp: wit_defs ams_inv_def current_ok_def cmd_ok_def split: if_splits)
  from superseded_start_is_dropped [OF this, of "[]" 2 "[3]"
      "wit_cmd AUDIO_APP_HABIT AUDIO_MANAGER_PLAY_START 8" 3 "wit_env 9"]
  show ?thesis by (simp add: wit_defs is_start_def)
qed

text \<open>A player error in any state of a song (starting, playing, paused) ends it: the power
  amplifier is switched off, its client hears \<open>PLAY_ERROR\<close>, the command is freed and the manager
  is idle.\<close>

theorem player_error_frees_song:
  assumes "am_state s \<in> playing_states" "am_current s = Some a" "am_store s a = Some c"
  shows "update_audio_manager_state e AUDIO_STATUS_ERROR s =
     Some (emits (EvPA False # notify_events (am_music_wake_lock s) c NOTIFY_STATUS_PLAY_ERROR)
       (s\<lparr>am_state := AUDIO_MANAGER_ST_IDLE, am_current := None,
          am_current_type := AUDIO_TYPE_UNDEFINE, am_store := (am_store s)(a := None)\<rparr>))"
  using player_error_ends_play [OF assms] .

theorem player_error_frees_song_witness:
  "\<exists>s'. update_audio_manager_state (wit_env 9) AUDIO_STATUS_ERROR
      (wit_state AUDIO_MANAGER_ST_PAUSE_PLAY AUDIO_TYPE_SONG) = Some s' \<and> am_store s' 1 = None"
  using player_error_frees_song [of "wit_state AUDIO_MANAGER_ST_PAUSE_PLAY AUDIO_TYPE_SONG" 1
      "wit_cmd AUDIO_APP_HABIT AUDIO_MANAGER_PLAY_START 7" "wit_env 9"]
  by (simp add: wit_defs playing_states_def)

text \<open>A command with a tone plays in two stages: when the player reports the end of the
  tone, the same command starts again, now with its song file, and nobody is notified in
  between.\<close>

theorem tone_is_followed_by_song:
  assumes "ams_inv {} s" "am_state s = AUDIO_MANAGER_ST_PLAYING" "am_current_type s = AUDIO_TYPE_TONE"
    and "am_current s = Some a" "am_store s a = Some c" "ac_tone_path c = []"
    and "m = AUDIO_STATUS_FINISHED \<or> m = AUDIO_STATUS_STOP" "\<not> e_blocking e"
  shows "update_audio_manager_state e m s = Some (emits (start_events e (am_music_wake_lock s) c)
      (s\<lparr>am_state := AUDIO_MANAGER_ST_START_PLAY, am_current_type := AUDIO_TYPE_SONG\<rparr>))
    \<and> EvAddUri (ac_file_path c) \<in> set (start_events e (am_music_wake_lock s) c)"
  using tone_then_song [OF assms] .

theorem tone_is_followed_by_song_witness:
  "\<exists>s'. update_audio_manager_state (wit_env 9) AUDIO_STATUS_FINISHED
      (wit_state AUDIO_MANAGER_ST_PLAYING AUDIO_TYPE_TONE) = Some s' \<and>
    am_state s' = AUDIO_MANAGER_ST_START_PLAY \<and> am_current s' = Some 1"
  using tone_is_followed_by_song [OF wit_state_inv [of AUDIO_MANAGER_ST_PLAYING AUDIO_TYPE_TONE],
      of 1 "wit_cmd AUDIO_APP_HABIT AUDIO_MANAGER_PLAY_START 7" AUDIO_STATUS_FINISHED "wit_env 9"]
  by (simp add: wit_defs)

text \<open>A pause command leaks its node. Whatever the task is given after a pause command was
  executed, the node stays allocated and is neither in the command list nor current, so nothing
  can free it any more.\<close>

theorem pause_command_leaks:
  assumes "ams_inv {} s" "am_state s = AUDIO_MANAGER_ST_PLAYING"
    and "am_current s = Some a" "am_store s a = Some c" "am_head s = []"
    and "ac_app c \<noteq> AUDIO_APP_UNDEFINED"
    and "ac_cmd p = AUDIO_MANAGER_PLAY_PAUSE" "ac_app p = ac_app c" "cmd_ok p"
    and "e_malloc e = Some b" "am_store s b = None"
    and "AudioManagerServiceTask (e, Command p) s = Some s1"
    and "reach AudioManagerServiceTask input_ok {s1} s2"
  shows "b \<in> dom (am_store s2) \<and> b \<notin> set (am_head s2) \<and> am_current s2 \<noteq> Some b"
proof -
  have "ams_inv {b} s1" using pause_keeps_node [OF assms(1-12)] by blast
  then have "ams_inv {b} s2" by (intro ams.reach_inv [OF assms(13)]) auto
  then show ?thesis by (auto simp: ams_inv_def current_ok_def)
qed

theorem pause_command_leaks_witness:
  "\<exists>s1. AudioManagerServiceTask
       (wit_env 2, Command (wit_cmd AUDIO_APP_HABIT AUDIO_MANAGER_PLAY_PAUSE 7))
       (wit_state AUDIO_MANAGER_ST_PLAYING AUDIO_TYPE_SONG) = Some s1 \<and>
     2 \<in> dom (am_store s1) \<and> am_head s1 = [] \<and> am_current s1 = Some 1"
proof -
  let ?s = "wit_state AUDIO_MANAGER_ST_PLAYING AUDIO_TYPE_SONG"
  let ?p = "wit_cmd AUDIO_APP_HABIT AUDIO_MANAGER_PLAY_PAUSE 7"
  have inv: "ams_inv {} ?s" by (rule wit_state_inv) simp
  have step: "\<exists>s1. AudioManagerServiceTask (wit_env 2, Command ?p) ?s = Some s1 \<and>
      am_head s1 = [] \<and> am_current s1 = Some 1"
    by (simp add: wit_defs AudioManagerServiceTask_def command_received_def insert_cmd_def
        execute_audio_command_def delay_process_def search_last_start_cmd_def is_start_def
        execute_without_start_def stop_if_asked_def current_app_def stop_msg_def delete_cmd_def
        search_app_cmd_by_msg_def pause_resume_or_stop_def search_by_state_def
        search_app_cmd_by_code_def execute_pause_command_def notify_current_eq ignore_all_command_def)
  then obtain s1 where s1: "AudioManagerServiceTask (wit_env 2, Command ?p) ?s = Some s1"
    "am_head s1 = []" "am_current s1 = Some 1" by blast
  from pause_command_leaks [OF inv _ _ _ _ _ _ _ _ _ _ s1(1) reach_init,
      of 1 "wit_cmd AUDIO_APP_HABIT AUDIO_MANAGER_PLAY_START 7" 2] s1
  show ?thesis by (simp add: wit_defs cmd_ok_def)
qed

text \<open>The three searches that pass an enumerator of the state type where a message is meant
  still look for the right message: the C values coincide.\<close>

theorem wrong_enumerator_finds_right_command:
  "search_app_cmd_by_code s app (state_code AUDIO_MANAGER_ST_STOP_PLAY) =
     search_app_cmd_by_msg s app AUDIO_MANAGER_PLAY_STOP \<and>
   search_app_cmd_by_code s app (state_code AUDIO_MANAGER_ST_PAUSE_PLAY) =
     search_app_cmd_by_msg s app AUDIO_MANAGER_PLAY_PAUSE \<and>
   search_app_cmd_by_code s app (state_code AUDIO_MANAGER_ST_RESUME_PLAY) =
     search_app_cmd_by_msg s app AUDIO_MANAGER_PLAY_RESUME"
  by (simp only: search_by_wrong_enumerator simp_thms)

end
