(* ===== verification/AudioClient.thy ===== *)
theory AudioClient
  imports AudioManager_Inv "HOL-Library.Word" "HOL-Library.Signed_Division"
begin

text \<open>
  The other side of \<open>sys/audio_manager/AudioManagerService.c\<close>: the calls by which applications
  send commands to the audio manager (\<open>play_start\<close> to \<open>volume_down\<close>), the synchronous tones, and
  the recorder: \<open>record_thread\<close>, which reads the microphone, and \<open>amr_code_task\<close>, which runs the
  voice activity detection over what was read.

  \<^item> \<open>aclient\<close> is what the calls share: the command queue (\<open>None\<close> before the task made it), the
    queues synchronous callers wait on (a deleted one is not in the map), \<open>tone_cmd\<close>, and a trace
    of codec register writes and of client callbacks called directly.
  \<^item> Time enters as an input: the answer a waiting caller gets within its ten seconds, or none.
  \<^item> The recorder's loops take one input per round: what \<open>rawRead\<close> returned, and whether the exit
    semaphore could be taken. A loop whose inputs are used up has not ended.
\<close>

section \<open>Sending commands\<close>

abbreviation ESP_ERR_NO_MEM :: int where "ESP_ERR_NO_MEM \<equiv> 0x101"
abbreviation ESP_ERR_INVALID_ARG :: int where "ESP_ERR_INVALID_ARG \<equiv> 0x102"
abbreviation ESP_ERR_INVALID_STATE :: int where "ESP_ERR_INVALID_STATE \<equiv> 0x103"
abbreviation ESP_ERR_TIMEOUT :: int where "ESP_ERR_TIMEOUT \<equiv> 0x107"

definition LOCAL_FILE_PREFIX :: string where "LOCAL_FILE_PREFIX = ''file://''"
definition RECORD_TYPE_WECHAT :: string where "RECORD_TYPE_WECHAT = ''i2s://8000:1@record.amr#raw''"
definition RECORD_TYPE_DEFAULT :: string where "RECORD_TYPE_DEFAULT = ''i2s://16000:1@record.pcm#raw''"

record tone_command_t =
  tc_app :: AudioAppType
  tc_file_path :: string
  tc_callback :: "addr option"
  tc_callback_param :: "addr option"

datatype client_event =
    EvAdcGain nat
  | EvCallback addr NotifyStatus AudioAppType AudioManagerMsg addr

record aclient =
  cl_queue :: "audio_command_t list option"
  cl_waits :: "addr \<rightharpoonup> NotifyStatus list"
  cl_tone :: tone_command_t
  cl_trace :: "client_event list"

text \<open>\<open>memset(&cmd, 0, sizeof(audio_command_t))\<close>.\<close>

definition zero_cmd :: audio_command_t where
  "zero_cmd = \<lparr>ac_app = AUDIO_APP_WECHAT, ac_cmd = AUDIO_MANAGER_VOL_UP, ac_record_type = [],
     ac_tone_path = [], ac_file_path = [], ac_record_buffer = None, ac_callback = None,
     ac_callback_param = None\<rparr>"

definition zero_tone :: tone_command_t where
  "zero_tone = \<lparr>tc_app = AUDIO_APP_WECHAT, tc_file_path = [], tc_callback = None,
     tc_callback_param = None\<rparr>"

text \<open>The send is not checked: a full or missing queue only makes a log line.\<close>

definition send_cmd :: "audio_command_t \<Rightarrow> aclient \<Rightarrow> aclient" where
  "send_cmd c s = s\<lparr>cl_queue := map_option (queue_send AUDIO_MANGER_COMMAND_QUEUE_SIZE c) (cl_queue s)\<rparr>"

text \<open>The prefix is copied into the zeroed array, the name is appended behind it.\<close>

definition local_path :: "nat \<Rightarrow> string \<Rightarrow> string option" where
  "local_path sz name = do {
     p \<leftarrow> c_strncpy sz LOCAL_FILE_PREFIX (length LOCAL_FILE_PREFIX);
     c_strncat sz p name (sz - length LOCAL_FILE_PREFIX) }"

definition play_start :: "play_param_t option \<Rightarrow> aclient \<Rightarrow> (int \<times> aclient) option" where
  "play_start param s =
     (case param of
        None \<Rightarrow> Some (- ESP_ERR_INVALID_ARG, s)
      | Some p \<Rightarrow>
          if AUDIO_APP_UNDEFINED \<le> pp_play_app_type p then Some (- ESP_ERR_INVALID_ARG, s)
          else (case pp_uri p of
                  None \<Rightarrow> Some (- ESP_ERR_INVALID_ARG, s)
                | Some uri \<Rightarrow> do {
                    file \<leftarrow> (if pp_is_local_file p then local_path AUDIO_FILE_PATH_SIZE uri
                             else c_strncpy AUDIO_FILE_PATH_SIZE uri AUDIO_FILE_PATH_SIZE);
                    tone \<leftarrow> (case pp_tone p of
                              None \<Rightarrow> Some []
                            | Some t \<Rightarrow> local_path TONE_FILE_PATH_SIZE t);
                    Some (0, send_cmd (zero_cmd\<lparr>ac_app := pp_play_app_type p,
                               ac_cmd := AUDIO_MANAGER_PLAY_START, ac_file_path := file,
                               ac_tone_path := tone, ac_callback := pp_cb p,
                               ac_callback_param := pp_cb_param p\<rparr>) s) }))"

definition simple_command :: "AudioManagerMsg \<Rightarrow> AudioAppType \<Rightarrow> aclient \<Rightarrow> int \<times> aclient" where
  "simple_command msg app s =
     (if AUDIO_APP_UNDEFINED \<le> app then (- ESP_ERR_INVALID_ARG, s)
      else (0, send_cmd (zero_cmd\<lparr>ac_app := app, ac_cmd := msg\<rparr>) s))"

definition play_resume :: "AudioAppType \<Rightarrow> aclient \<Rightarrow> int \<times> aclient" where
  "play_resume = simple_command AUDIO_MANAGER_PLAY_RESUME"

definition play_pause :: "AudioAppType \<Rightarrow> aclient \<Rightarrow> int \<times> aclient" where
  "play_pause = simple_command AUDIO_MANAGER_PLAY_PAUSE"

definition play_stop :: "AudioAppType \<Rightarrow> aclient \<Rightarrow> int \<times> aclient" where
  "play_stop = simple_command AUDIO_MANAGER_PLAY_STOP"

definition record_stop :: "AudioAppType \<Rightarrow> aclient \<Rightarrow> int \<times> aclient" where
  "record_stop = simple_command AUDIO_MANAGER_RECORD_STOP"

text \<open>
  \<open>uri\<close> is a \<open>void *\<close>: a path, or for voice recognition the record buffer. \<open>as_path\<close> reads it as a
  path.
\<close>

definition record_start :: "(addr \<Rightarrow> string) \<Rightarrow> AudioAppType \<Rightarrow> addr option \<Rightarrow> addr option
    \<Rightarrow> addr option \<Rightarrow> aclient \<Rightarrow> int \<times> aclient" where
  "record_start as_path app uri cb cb_param s =
     (if AUDIO_APP_UNDEFINED \<le> app then (- ESP_ERR_INVALID_ARG, s)
      else (case uri of
              None \<Rightarrow> (- ESP_ERR_INVALID_ARG, s)
            | Some u \<Rightarrow>
                if cb = None then (- ESP_ERR_INVALID_ARG, s)
                else
                  let base = zero_cmd\<lparr>ac_app := app, ac_cmd := AUDIO_MANAGER_RECORD_START,
                               ac_callback := cb, ac_callback_param := cb_param\<rparr>;
                      path = take AUDIO_FILE_PATH_SIZE (as_path u);
                      (c, ev) =
                        (case app of
                           AUDIO_APP_WECHAT \<Rightarrow>
                             (base\<lparr>ac_record_type := take AUDIO_RECORD_DESCRIP_SIZE RECORD_TYPE_WECHAT,
                                   ac_file_path := path\<rparr>, [EvAdcGain 0xE2])
                         | AUDIO_APP_VOICE_RECOGNITION \<Rightarrow>
                             (base\<lparr>ac_record_type := take AUDIO_RECORD_DESCRIP_SIZE RECORD_TYPE_DEFAULT,
                                   ac_record_buffer := Some u\<rparr>, [EvAdcGain 0x02])
                         | _ \<Rightarrow>
                             (base\<lparr>ac_record_type := take AUDIO_RECORD_DESCRIP_SIZE RECORD_TYPE_DEFAULT,
                                   ac_file_path := path\<rparr>, []))
                  in (0, send_cmd c (s\<lparr>cl_trace := cl_trace s @ ev\<rparr>))))"

definition volume_up :: "bool \<Rightarrow> aclient \<Rightarrow> aclient" where
  "volume_up malloc_ok s =
     (if malloc_ok then send_cmd (zero_cmd\<lparr>ac_cmd := AUDIO_MANAGER_VOL_UP\<rparr>) s else s)"

definition volume_down :: "bool \<Rightarrow> aclient \<Rightarrow> aclient" where
  "volume_down malloc_ok s =
     (if malloc_ok then send_cmd (zero_cmd\<lparr>ac_cmd := AUDIO_MANAGER_VOL_DOWN\<rparr>) s else s)"

text \<open>The volume in grades; \<open>nv\<close> is the stored item, \<open>DEFAULT_VOLUME\<close> a parameter.\<close>

definition get_volume_grade :: "int option \<Rightarrow> int \<Rightarrow> int" where
  "get_volume_grade nv DEFAULT_VOLUME =
     (let value = (case nv of Some v \<Rightarrow> v | None \<Rightarrow> DEFAULT_VOLUME) in
      if value > 90 then value sdiv 9
      else if value smod 9 = 0 then value sdiv 9 else value sdiv 9 + 1)"

section \<open>Synchronous tones\<close>

text \<open>The function pointer of \<open>play_tone_sync_cb\<close>.\<close>

definition TONE_SYNC_CB :: addr where "TONE_SYNC_CB = 0"

definition play_tone_sync_cb :: "NotifyStatus \<Rightarrow> addr option \<Rightarrow> aclient \<Rightarrow> aclient option" where
  "play_tone_sync_cb status param s =
     (case param of
        None \<Rightarrow> Some s
      | Some q \<Rightarrow> do {
          l \<leftarrow> cl_waits s q;
          Some (s\<lparr>cl_waits := (cl_waits s)(q \<mapsto> queue_send 1 status l)\<rparr>) })"

definition tone_param :: "string \<Rightarrow> addr \<Rightarrow> play_param_t" where
  "tone_param url q = \<lparr>pp_play_app_type = AUDIO_APP_NOTIFY, pp_is_local_file = True,
     pp_uri = Some url, pp_tone = None, pp_cb = Some TONE_SYNC_CB, pp_cb_param = Some q\<rparr>"

definition tone_result :: "NotifyStatus option \<Rightarrow> int" where
  "tone_result answer =
     (case answer of
        Some notify \<Rightarrow> if notify \<noteq> NOTIFY_STATUS_PLAY_FINISH then - ESP_ERR_INVALID_STATE else 0
      | None \<Rightarrow> - ESP_ERR_TIMEOUT)"

definition play_tone_sync :: "string option \<Rightarrow> addr option \<Rightarrow> NotifyStatus option \<Rightarrow> aclient
    \<Rightarrow> (int \<times> aclient) option" where
  "play_tone_sync url queue answer s =
     (case url of
        None \<Rightarrow> Some (0, s)
      | Some u \<Rightarrow>
         (case queue of
            None \<Rightarrow> Some (- ESP_ERR_NO_MEM, s)
          | Some q \<Rightarrow> do {
              r \<leftarrow> play_start (Some (tone_param u q)) (s\<lparr>cl_waits := (cl_waits s)(q \<mapsto> [])\<rparr>);
              Some (tone_result answer,
                    (snd r)\<lparr>cl_waits := (cl_waits (snd r))(q := None)\<rparr>) }))"

text \<open>
  \<open>play_tone_and_restart\<close> remembers the story that plays, plays the tone and starts the story
  again. \<open>current\<close> is what \<open>g_audio_manager.current\<close> points to.
\<close>

definition remember_story :: "bool \<Rightarrow> audio_command_t option \<Rightarrow> aclient \<Rightarrow> aclient option" where
  "remember_story playing current s =
     (if playing then do {
        c \<leftarrow> current;
        Some (if story_app (ac_app c)
              then s\<lparr>cl_tone := \<lparr>tc_app = ac_app c, tc_file_path = take 64 (drop 7 (ac_file_path c)),
                      tc_callback = ac_callback c, tc_callback_param = ac_callback_param c\<rparr>\<rparr>
              else s) }
      else Some s)"

definition restart_story :: "aclient \<Rightarrow> aclient option" where
  "restart_story s =
     (case (tc_callback (cl_tone s), tc_callback_param (cl_tone s)) of
        (Some f, Some p) \<Rightarrow> do {
          let t = cl_tone s;
          path \<leftarrow> c_str 64 (tc_file_path t);
          r \<leftarrow> play_start (Some \<lparr>pp_play_app_type = tc_app t, pp_is_local_file = True,
                 pp_uri = Some path, pp_tone = None, pp_cb = Some f, pp_cb_param = Some p\<rparr>)
               (s\<lparr>cl_trace := cl_trace s @
                   [EvCallback f NOTIFY_STATUS_PLAY_RESTART (tc_app t) AUDIO_MANAGER_PLAY_START p]\<rparr>);
          Some ((snd r)\<lparr>cl_tone := zero_tone\<rparr>) }
      | _ \<Rightarrow> Some s)"

definition play_tone_and_restart :: "string option \<Rightarrow> addr option \<Rightarrow> bool \<Rightarrow> audio_command_t option
    \<Rightarrow> NotifyStatus option \<Rightarrow> aclient \<Rightarrow> (int \<times> aclient) option" where
  "play_tone_and_restart url queue playing current answer s =
     (case url of
        None \<Rightarrow> Some (0, s)
      | Some u \<Rightarrow>
         (case queue of
            None \<Rightarrow> Some (- ESP_ERR_NO_MEM, s)
          | Some q \<Rightarrow> do {
              s1 \<leftarrow> remember_story playing current (s\<lparr>cl_waits := (cl_waits s)(q \<mapsto> [])\<rparr>);
              r \<leftarrow> play_start (Some (tone_param u q)) s1;
              s2 \<leftarrow> (if answer = Some NOTIFY_STATUS_PLAY_FINISH then restart_story (snd r)
                     else Some (snd r));
              Some (tone_result answer, s2\<lparr>cl_waits := (cl_waits s2)(q := None)\<rparr>) }))"

section \<open>The recorder\<close>

datatype rec_event = RawStart string | RawStop | SemStopTake | SemStopGive | PlayerError
  | NotifyCurrent NotifyStatus | SendCode nat | OpenFile string | CloseFile nat

text \<open>
  \<open>out_buffer\<close> and the \<open>record_ram_buffer_t\<close> behind it (without its bytes), the static
  \<open>record_task_run\<close> and \<open>record_exceed_limit\<close>, and whether \<open>amr_code_task\<close> holds its copy buffer.
\<close>

record recorder =
  out_buffer :: "addr option"
  rb_record_timer :: int
  rb_is_overflow :: bool
  rb_vad_handler :: bool
  rb_vad_enable :: bool
  rb_vad_slient_ms :: "32 word"
  rb_talk_ms :: "32 word"
  rb_used_size :: nat
  record_task_run :: bool
  record_exceed_limit :: bool
  pcm_data :: bool
  rec_trace :: "rec_event list"

abbreviation AUDIO_RECORD_SIZE :: nat where "AUDIO_RECORD_SIZE \<equiv> 3200"
abbreviation RAW_PCM_10MS :: nat where "RAW_PCM_10MS \<equiv> 320"
abbreviation RECORD_FILE_MAX_SIZE :: nat where "RECORD_FILE_MAX_SIZE \<equiv> 24 * 1024"

definition rec_emit :: "rec_event list \<Rightarrow> recorder \<Rightarrow> recorder" where
  "rec_emit es r = r\<lparr>rec_trace := rec_trace r @ es\<rparr>"

text \<open>
  The detector over the frames of one read; \<open>verdict\<close> is \<open>DB_Vad_Process\<close> on the frame at an offset.
  A frame past the end of the copy is undefined.
\<close>

function vad_frames :: "(nat \<Rightarrow> bool) \<Rightarrow> nat \<Rightarrow> nat \<Rightarrow> recorder \<Rightarrow> recorder option" where
  "vad_frames verdict frame_len frame_start r =
     (if frame_len < RAW_PCM_10MS then Some r
      else if frame_start + RAW_PCM_10MS > AUDIO_RECORD_SIZE then None
      else
        let r1 = (if verdict frame_start
                  then r\<lparr>rb_talk_ms := rb_talk_ms r + 10, rb_vad_slient_ms := 0, rb_record_timer := 0\<rparr>
                  else r\<lparr>rb_vad_slient_ms := rb_vad_slient_ms r + 10\<rparr>)
        in if 100 \<le> rb_vad_slient_ms r1 \<and> 400 \<le> rb_talk_ms r1
           then Some (r1\<lparr>record_task_run := False, rb_record_timer := 0, rb_vad_enable := True,
                         rb_vad_handler := False, pcm_data := False\<rparr>)
           else vad_frames verdict (frame_len - RAW_PCM_10MS) (frame_start + RAW_PCM_10MS) r1)"
  by pat_completeness auto
termination
  by (relation "measure (\<lambda>(_, n, _, _). n)") auto

declare vad_frames.simps [simp del]

text \<open>What the code task meets when it takes a node: its allocations and the verdicts.\<close>

record code_env =
  ce_vad_create_ok :: bool
  ce_alloc_ok :: bool
  ce_verdict :: "nat \<Rightarrow> bool"

definition amr_code_task :: "code_env \<Rightarrow> recorder \<Rightarrow> recorder option" where
  "amr_code_task e r =
     (if out_buffer r \<noteq> None \<and> record_task_run r \<and> \<not> rb_vad_enable r then
        (if \<not> rb_vad_handler r \<and> \<not> ce_vad_create_ok e then Some r
         else if \<not> pcm_data r \<and> \<not> ce_alloc_ok e then Some (r\<lparr>rb_vad_handler := False\<rparr>)
         else vad_frames (ce_verdict e) (rb_used_size r) 0 (r\<lparr>rb_vad_handler := True, pcm_data := True\<rparr>))
      else Some r)"

text \<open>
  One round of the voice loop: what \<open>rawRead\<close> gave (\<open>None\<close> is an error), what the code task does
  while the thread waits, and whether the exit semaphore came.
\<close>

record voice_round =
  vr_read :: "nat option"
  vr_code :: "code_env option"
  vr_exit :: bool

definition notify_cur :: "audio_command_t option \<Rightarrow> NotifyStatus \<Rightarrow> recorder \<Rightarrow> recorder option" where
  "notify_cur current status r =
     (case current of None \<Rightarrow> None | Some _ \<Rightarrow> Some (rec_emit [NotifyCurrent status] r))"

fun voice_loop :: "audio_command_t option \<Rightarrow> voice_round list \<Rightarrow> recorder
    \<Rightarrow> (recorder \<times> bool) option" where
  "voice_loop cur [] r = Some (r, \<not> record_task_run r)"
| "voice_loop cur (i # is) r =
     (if \<not> record_task_run r then Some (r, True)
      else (case vr_read i of
              None \<Rightarrow> Some (rec_emit [PlayerError] r, True)
            | Some len \<Rightarrow> do {
                r1 \<leftarrow> notify_cur cur NOTIFY_STATUS_RECORD_READ (r\<lparr>rb_used_size := len\<rparr>);
                let r2 = rec_emit [SendCode len] r1;
                r3 \<leftarrow> (case vr_code i of None \<Rightarrow> Some r2 | Some e \<Rightarrow> amr_code_task e r2);
                if vr_exit i then Some (r3, True) else voice_loop cur is r3 }))"

definition record_voice :: "audio_command_t option \<Rightarrow> audio_command_t \<Rightarrow> voice_round list
    \<Rightarrow> recorder \<Rightarrow> (recorder \<times> bool) option" where
  "record_voice cur command is r0 = do {
     let r = r0\<lparr>record_exceed_limit := False\<rparr>;
     (r1, ended) \<leftarrow>
       (case ac_record_buffer command of
          None \<Rightarrow> Some (r, True)
        | Some b \<Rightarrow>
            voice_loop cur is
              (rec_emit [SemStopTake, RawStart (ac_record_type command)]
                 (r\<lparr>out_buffer := Some b, rb_is_overflow := False, rb_used_size := 0,
                    rb_vad_slient_ms := 0, rb_vad_enable := False, rb_talk_ms := 0,
                    record_task_run := True\<rparr>)));
     if \<not> ended then Some (r1, False)
     else do {
       _ \<leftarrow> out_buffer r1;
       r2 \<leftarrow> (if rb_vad_enable r1 then notify_cur cur NOTIFY_STATUS_RECORD_SEND r1 else Some r1);
       Some (rec_emit [RawStop, SemStopGive] r2, True) } }"

text \<open>
  The wechat loop: the exit semaphore first, then a read. The result is the size written and
  whether the loop has ended.
\<close>

fun wechat_loop :: "(bool \<times> nat option) list \<Rightarrow> nat \<Rightarrow> recorder \<Rightarrow> nat \<times> recorder \<times> bool" where
  "wechat_loop [] file_size r = (file_size, r, False)"
| "wechat_loop ((exit, read) # is) file_size r =
     (if exit then (file_size, r, True)
      else (case read of
              None \<Rightarrow> (file_size, r, True)
            | Some len \<Rightarrow>
                if file_size + len \<ge> RECORD_FILE_MAX_SIZE
                then (file_size + len, r\<lparr>record_exceed_limit := True\<rparr>, True)
                else wechat_loop is (file_size + len) r))"

definition record_wechat :: "bool \<Rightarrow> bool \<Rightarrow> audio_command_t \<Rightarrow> (bool \<times> nat option) list
    \<Rightarrow> recorder \<Rightarrow> recorder \<times> bool" where
  "record_wechat open_ok alloc_ok command is r0 =
     (let r = r0\<lparr>record_exceed_limit := False\<rparr> in
      if \<not> open_ok \<or> \<not> alloc_ok then (rec_emit [PlayerError] r, True)
      else
        let (file_size, r1, ended) =
              wechat_loop is 0 (rec_emit [OpenFile (ac_file_path command), SemStopTake,
                                          RawStart (ac_record_type command)] r)
        in (if ended then rec_emit [CloseFile file_size, RawStop, SemStopGive] r1 else r1, ended))"

text \<open>
  The thread dispatches on the application of the node it received; the environment says how the
  rounds of either loop go.
\<close>

record record_env =
  re_rounds :: "voice_round list"
  re_open_ok :: bool
  re_alloc_ok :: bool
  re_reads :: "(bool \<times> nat option) list"

definition record_thread :: "AudioAppType \<Rightarrow> audio_command_t option \<Rightarrow> audio_command_t
    \<Rightarrow> record_env \<Rightarrow> recorder \<Rightarrow> (recorder \<times> bool) option" where
  "record_thread app cur command e r =
     (case app of
        AUDIO_APP_VOICE_RECOGNITION \<Rightarrow> record_voice cur command (re_rounds e) r
      | AUDIO_APP_WECHAT \<Rightarrow>
          Some (record_wechat (re_open_ok e) (re_alloc_ok e) command (re_reads e) r)
      | _ \<Rightarrow> Some (r\<lparr>record_exceed_limit := False\<rparr>, True))"

section \<open>Lemmas\<close>

lemma prefix_length [simp]: "length LOCAL_FILE_PREFIX = 7"
  by (simp add: LOCAL_FILE_PREFIX_def)

lemma local_path_eq:
  assumes "7 < sz"
  shows "local_path sz name =
    (if length name + 7 < sz then Some (LOCAL_FILE_PREFIX @ name) else None)"
proof -
  have "take 7 LOCAL_FILE_PREFIX = LOCAL_FILE_PREFIX" by (simp add: LOCAL_FILE_PREFIX_def)
  then show ?thesis using assms by (auto simp: local_path_def c_strncpy_def c_strncat_def)
qed

definition song_path :: "bool \<Rightarrow> string \<Rightarrow> string" where
  "song_path is_local uri = (if is_local then LOCAL_FILE_PREFIX @ uri else take AUDIO_FILE_PATH_SIZE uri)"

definition start_fits :: "play_param_t \<Rightarrow> string \<Rightarrow> bool" where
  "start_fits p uri \<longleftrightarrow> (pp_is_local_file p \<longrightarrow> length uri + 7 < AUDIO_FILE_PATH_SIZE) \<and>
     (\<forall>t. pp_tone p = Some t \<longrightarrow> length t + 7 < TONE_FILE_PATH_SIZE)"

definition start_cmd :: "play_param_t \<Rightarrow> string \<Rightarrow> audio_command_t" where
  "start_cmd p uri = \<lparr>ac_app = pp_play_app_type p, ac_cmd = AUDIO_MANAGER_PLAY_START,
     ac_record_type = [],
     ac_tone_path = (case pp_tone p of None \<Rightarrow> [] | Some t \<Rightarrow> LOCAL_FILE_PREFIX @ t),
     ac_file_path = song_path (pp_is_local_file p) uri,
     ac_record_buffer = None, ac_callback = pp_cb p, ac_callback_param = pp_cb_param p\<rparr>"

lemma play_start_eq:
  assumes "pp_play_app_type p \<noteq> AUDIO_APP_UNDEFINED" "pp_uri p = Some uri"
  shows "play_start (Some p) s =
    (if start_fits p uri then Some (0, send_cmd (start_cmd p uri) s) else None)"
  using assms
  by (cases "pp_tone p") (auto simp: play_start_def start_fits_def start_cmd_def song_path_def zero_cmd_def
      local_path_eq c_strncpy_def)

lemma tone_sync_eq:
  assumes "length url + 7 < AUDIO_FILE_PATH_SIZE"
  shows "play_tone_sync (Some url) (Some q) answer s =
    Some (tone_result answer,
      (send_cmd (start_cmd (tone_param url q) url) s)\<lparr>cl_waits := (cl_waits s)(q := None)\<rparr>)"
  using assms play_start_eq [of "tone_param url q" url]
  by (simp add: play_tone_sync_def tone_param_def start_fits_def send_cmd_def)

text \<open>The recorder is told of speech only when there was enough of it.\<close>

definition speech_inv :: "recorder \<Rightarrow> bool" where
  "speech_inv r \<longleftrightarrow> (rb_vad_enable r \<longrightarrow> \<not> record_task_run r \<and> \<not> rb_vad_handler r \<and> \<not> pcm_data r \<and>
     400 \<le> rb_talk_ms r \<and> 100 \<le> rb_vad_slient_ms r)"

lemma vad_frames_total:
  "frame_start + frame_len \<le> AUDIO_RECORD_SIZE \<Longrightarrow> \<not> rb_vad_enable r \<Longrightarrow>
   \<exists>r'. vad_frames verdict frame_len frame_start r = Some r' \<and> speech_inv r' \<and>
     out_buffer r' = out_buffer r \<and> rec_trace r' = rec_trace r"
proof (induction verdict frame_len frame_start r rule: vad_frames.induct)
  case (1 verdict frame_len frame_start r)
  show ?case
  proof (cases "frame_len < RAW_PCM_10MS")
    case True
    with 1(3) show ?thesis by (simp add: vad_frames.simps [of verdict frame_len] speech_inv_def)
  next
    case False
    define r1 where "r1 = (if verdict frame_start
        then r\<lparr>rb_talk_ms := rb_talk_ms r + 10, rb_vad_slient_ms := 0, rb_record_timer := 0\<rparr>
        else r\<lparr>rb_vad_slient_ms := rb_vad_slient_ms r + 10\<rparr>)"
    have r1: "\<not> rb_vad_enable r1" "out_buffer r1 = out_buffer r" "rec_trace r1 = rec_trace r"
      using 1(3) by (simp_all add: r1_def)
    have fits: "\<not> frame_start + RAW_PCM_10MS > AUDIO_RECORD_SIZE" using 1(2) False by simp
    show ?thesis
    proof (cases "100 \<le> rb_vad_slient_ms r1 \<and> 400 \<le> rb_talk_ms r1")
      case True
      with False fits r1 show ?thesis
        by (simp add: vad_frames.simps [of verdict frame_len] r1_def [symmetric] Let_def speech_inv_def)
    next
      case not_off: False
      have "\<exists>r'. vad_frames verdict (frame_len - RAW_PCM_10MS) (frame_start + RAW_PCM_10MS) r1 = Some r' \<and>
          speech_inv r' \<and> out_buffer r' = out_buffer r1 \<and> rec_trace r' = rec_trace r1"
        by (rule 1(1) [OF False fits r1_def not_off]) (use 1(2) False r1 in auto)
      moreover have "vad_frames verdict frame_len frame_start r =
          vad_frames verdict (frame_len - RAW_PCM_10MS) (frame_start + RAW_PCM_10MS) r1"
        by (subst vad_frames.simps) (simp only: False not_off fits r1_def [symmetric] Let_def if_False)
      ultimately show ?thesis using r1 by simp
    qed
  qed
qed

lemma speech_rec_emit [simp]: "speech_inv (rec_emit es r) = speech_inv r"
  by (simp add: speech_inv_def rec_emit_def)

lemma speech_used [simp]: "speech_inv (r\<lparr>rb_used_size := n\<rparr>) = speech_inv r"
  by (simp add: speech_inv_def)

lemma amr_code_total:
  assumes "speech_inv r" "rb_used_size r \<le> AUDIO_RECORD_SIZE"
  shows "\<exists>r'. amr_code_task e r = Some r' \<and> speech_inv r' \<and> out_buffer r' = out_buffer r \<and>
    rec_trace r' = rec_trace r"
proof (cases "out_buffer r \<noteq> None \<and> record_task_run r \<and> \<not> rb_vad_enable r")
  case True
  then have "\<exists>r'. vad_frames (ce_verdict e) (rb_used_size r) 0
      (r\<lparr>rb_vad_handler := True, pcm_data := True\<rparr>) = Some r' \<and> speech_inv r' \<and>
      out_buffer r' = out_buffer r \<and> rec_trace r' = rec_trace r"
    using vad_frames_total [of 0 "rb_used_size r" "r\<lparr>rb_vad_handler := True, pcm_data := True\<rparr>"]
      assms(2) by auto
  with True show ?thesis by (auto simp: amr_code_task_def speech_inv_def)
next
  case False
  with assms show ?thesis by (auto simp: amr_code_task_def)
qed

definition rounds_fit :: "voice_round list \<Rightarrow> bool" where
  "rounds_fit is \<longleftrightarrow> (\<forall>i\<in>set is. \<forall>len. vr_read i = Some len \<longrightarrow> len \<le> AUDIO_RECORD_SIZE)"

lemma voice_loop_total:
  assumes "rounds_fit is" "speech_inv r" "cur \<noteq> None"
    and "NotifyCurrent NOTIFY_STATUS_RECORD_SEND \<notin> set (rec_trace r)"
  shows "\<exists>r' ended. voice_loop cur is r = Some (r', ended) \<and> speech_inv r' \<and>
    out_buffer r' = out_buffer r \<and> NotifyCurrent NOTIFY_STATUS_RECORD_SEND \<notin> set (rec_trace r')"
  using assms
proof (induction "is" arbitrary: r)
  case Nil
  then show ?case by simp
next
  case (Cons i "is")
  show ?case
  proof (cases "record_task_run r \<and> vr_read i \<noteq> None")
    case False
    with Cons.prems show ?thesis by (auto simp: rec_emit_def speech_inv_def split: option.splits)
  next
    case True
    then obtain len where len: "vr_read i = Some len" "len \<le> AUDIO_RECORD_SIZE"
      using Cons.prems(1) by (auto simp: rounds_fit_def)
    define r2 where "r2 = rec_emit [SendCode len]
      (rec_emit [NotifyCurrent NOTIFY_STATUS_RECORD_READ] (r\<lparr>rb_used_size := len\<rparr>))"
    have r2: "speech_inv r2" "rb_used_size r2 \<le> AUDIO_RECORD_SIZE" "out_buffer r2 = out_buffer r"
      "NotifyCurrent NOTIFY_STATUS_RECORD_SEND \<notin> set (rec_trace r2)"
      using Cons.prems len(2) by (simp_all add: r2_def) (simp_all add: rec_emit_def)
    obtain r3 where r3: "(case vr_code i of None \<Rightarrow> Some r2 | Some e \<Rightarrow> amr_code_task e r2) = Some r3"
      "speech_inv r3" "out_buffer r3 = out_buffer r"
      "NotifyCurrent NOTIFY_STATUS_RECORD_SEND \<notin> set (rec_trace r3)"
      using r2 amr_code_total [OF r2(1,2)] by (cases "vr_code i") fastforce+
    have "rounds_fit is" using Cons.prems(1) by (simp add: rounds_fit_def)
    from Cons.IH [OF this r3(2) assms(3) r3(4)] r3 True len Cons.prems(3)
    show ?thesis
      by (auto simp: notify_cur_def r2_def [symmetric])
  qed
qed

lemma record_voice_total:
  assumes "rounds_fit is" "cur \<noteq> None" "ac_record_buffer command \<noteq> None"
    and "NotifyCurrent NOTIFY_STATUS_RECORD_SEND \<notin> set (rec_trace r)"
  shows "\<exists>r' ended. record_voice cur command is r = Some (r', ended) \<and>
    (NotifyCurrent NOTIFY_STATUS_RECORD_SEND \<in> set (rec_trace r') \<longrightarrow>
       400 \<le> rb_talk_ms r' \<and> 100 \<le> rb_vad_slient_ms r')"
proof -
  obtain b where b: "ac_record_buffer command = Some b" using assms(3) by blast
  define r1 where "r1 = rec_emit [SemStopTake, RawStart (ac_record_type command)]
      (r\<lparr>record_exceed_limit := False, out_buffer := Some b, rb_is_overflow := False,
         rb_used_size := 0, rb_vad_slient_ms := 0, rb_vad_enable := False, rb_talk_ms := 0,
         record_task_run := True\<rparr>)"
  have "speech_inv r1" "out_buffer r1 = Some b"
    "NotifyCurrent NOTIFY_STATUS_RECORD_SEND \<notin> set (rec_trace r1)"
    using assms(4) by (simp_all add: r1_def speech_inv_def rec_emit_def)
  from voice_loop_total [OF assms(1) this(1) assms(2) this(3)] this(2)
  obtain r2 ended where r2: "voice_loop cur is r1 = Some (r2, ended)" "speech_inv r2"
    "out_buffer r2 = Some b" "NotifyCurrent NOTIFY_STATUS_RECORD_SEND \<notin> set (rec_trace r2)"
    by auto
  have "record_voice cur command is r = Option.bind (voice_loop cur is r1) (\<lambda>(r1, ended).
      if \<not> ended then Some (r1, False)
      else Option.bind (out_buffer r1) (\<lambda>_. Option.bind
        (if rb_vad_enable r1 then notify_cur cur NOTIFY_STATUS_RECORD_SEND r1 else Some r1)
        (\<lambda>r2. Some (rec_emit [RawStop, SemStopGive] r2, True))))"
    using b by (simp add: record_voice_def r1_def)
  with r2 assms(2) show ?thesis
    by (cases ended; cases "rb_vad_enable r2") (auto simp: notify_cur_def rec_emit_def speech_inv_def)
qed

text \<open>The wechat file.\<close>

lemma wechat_loop_size:
  assumes "\<forall>(exit, read)\<in>set is. \<forall>len. read = Some len \<longrightarrow> len \<le> 320" "n < RECORD_FILE_MAX_SIZE"
    and "wechat_loop is n r = (m, r', ended)"
  shows "m < RECORD_FILE_MAX_SIZE + 320 \<and> n \<le> m \<and>
    (record_exceed_limit r' \<longleftrightarrow> record_exceed_limit r \<or> RECORD_FILE_MAX_SIZE \<le> m) \<and>
    (\<not> ended \<longrightarrow> m < RECORD_FILE_MAX_SIZE)"
  using assms
proof (induction "is" arbitrary: n)
  case Nil
  then show ?case by simp
next
  case (Cons i "is")
  obtain exit read where i: "i = (exit, read)" by (cases i)
  show ?case
  proof (cases "exit \<or> read = None")
    case True
    with Cons.prems i show ?thesis by (auto split: option.splits if_splits)
  next
    case False
    then obtain len where len: "read = Some len" "len \<le> 320" using Cons.prems(1) i by auto
    show ?thesis
    proof (cases "RECORD_FILE_MAX_SIZE \<le> n + len")
      case True
      with Cons.prems i len False show ?thesis by auto
    next
      case fits: False
      then have "wechat_loop is (n + len) r = (m, r', ended)" using Cons.prems(3) i len False by simp
      from Cons.IH [OF _ _ this] fits Cons.prems(1) show ?thesis by auto
    qed
  qed
qed

section \<open>Properties\<close>

definition wit_client :: aclient where
  "wit_client = \<lparr>cl_queue = Some [], cl_waits = Map.empty, cl_tone = zero_tone, cl_trace = []\<rparr>"

definition wit_recorder :: recorder where
  "wit_recorder = \<lparr>out_buffer = None, rb_record_timer = 0, rb_is_overflow = False,
     rb_vad_handler = False, rb_vad_enable = False, rb_vad_slient_ms = 0, rb_talk_ms = 0,
     rb_used_size = 0, record_task_run = False, record_exceed_limit = False, pcm_data = False,
     rec_trace = []\<rparr>"

definition wit_song :: play_param_t where
  "wit_song = \<lparr>pp_play_app_type = AUDIO_APP_HABIT, pp_is_local_file = True,
     pp_uri = Some ''/sdcard/a.mp3'', pp_tone = Some ''/t.mp3'', pp_cb = Some 7, pp_cb_param = Some 8\<rparr>"

text \<open>\<open>play_start\<close> writes past an array exactly when the name of a local song has more than
  2040 bytes or a tone more than 56: the bound given to \<open>strncat\<close> leaves no room for the
  terminator it always writes.\<close>

theorem play_start_overruns_iff:
  assumes "pp_play_app_type p \<noteq> AUDIO_APP_UNDEFINED" "pp_uri p = Some uri"
  shows "play_start (Some p) s = None \<longleftrightarrow>
    (pp_is_local_file p \<and> 2040 < length uri) \<or> (\<exists>t. pp_tone p = Some t \<and> 56 < length t)"
  using play_start_eq [OF assms] by (auto simp: start_fits_def)

theorem play_start_overruns_iff_witness:
  "play_start (Some (wit_song\<lparr>pp_tone := Some (replicate 57 (CHR ''a''))\<rparr>)) wit_client = None"
  using play_start_overruns_iff [of "wit_song\<lparr>pp_tone := Some (replicate 57 (CHR ''a''))\<rparr>"
      "''/sdcard/a.mp3''" wit_client]
  by (simp add: wit_song_def)

text \<open>With names that fit, \<open>play_start\<close> returns 0 and queues one start command whose song path
  is the name behind the local prefix (or the URL itself) and whose strings are terminated within
  their arrays, which is what the audio manager relies on for every command it receives. It
  returns 0 as well when the queue is full and the command is lost.\<close>

theorem play_start_sends_valid_command:
  assumes "pp_play_app_type p \<noteq> AUDIO_APP_UNDEFINED" "pp_uri p = Some uri"
    and "length uri + 7 < AUDIO_FILE_PATH_SIZE" "\<forall>t. pp_tone p = Some t \<longrightarrow> length t + 7 < TONE_FILE_PATH_SIZE"
    and "cl_queue s = Some q"
  shows "\<exists>c. play_start (Some p) s =
      Some (0, s\<lparr>cl_queue := Some (if length q < AUDIO_MANGER_COMMAND_QUEUE_SIZE then q @ [c] else q)\<rparr>) \<and>
    input_ok (e\<lparr>e_malloc := None\<rparr>, Command c) am \<and> ac_cmd c = AUDIO_MANAGER_PLAY_START \<and>
    ac_file_path c = (if pp_is_local_file p then LOCAL_FILE_PREFIX @ uri else uri) \<and>
    ac_callback c = pp_cb p \<and> ac_callback_param c = pp_cb_param p"
proof (intro exI conjI)
  show "play_start (Some p) s = Some (0, s\<lparr>cl_queue := Some
      (if length q < AUDIO_MANGER_COMMAND_QUEUE_SIZE then q @ [start_cmd p uri] else q)\<rparr>)"
    using assms play_start_eq [OF assms(1,2), of s]
    by (simp add: start_fits_def send_cmd_def queue_send_def)
  show "input_ok (e\<lparr>e_malloc := None\<rparr>, Command (start_cmd p uri)) am"
    using assms(3,4)
    by (auto simp: input_ok_def cmd_ok_def start_cmd_def song_path_def split: option.splits)
qed (use assms(3) in \<open>simp_all add: start_cmd_def song_path_def\<close>)

theorem play_start_sends_valid_command_witness:
  "\<exists>c. play_start (Some wit_song) wit_client = Some (0, wit_client\<lparr>cl_queue := Some [c]\<rparr>) \<and>
    ac_file_path c = LOCAL_FILE_PREFIX @ ''/sdcard/a.mp3''"
  using play_start_sends_valid_command [of wit_song "''/sdcard/a.mp3''" wit_client "[]"]
  by (auto simp: wit_song_def wit_client_def)

text \<open>When a synchronous tone is not answered within its ten seconds, the caller deletes the
  queue, but the start command that was sent still names it: the callback for that command, run by
  the audio manager later, sends to a queue that no longer exists.\<close>

theorem tone_timeout_leaves_dangling_queue:
  assumes "length url + 7 < AUDIO_FILE_PATH_SIZE" "cl_queue s = Some l"
    and "length l < AUDIO_MANGER_COMMAND_QUEUE_SIZE"
  shows "\<exists>s' c. play_tone_sync (Some url) (Some q) None s = Some (- ESP_ERR_TIMEOUT, s') \<and>
    cl_queue s' = Some (l @ [c]) \<and> ac_callback c = Some TONE_SYNC_CB \<and>
    play_tone_sync_cb status (ac_callback_param c) s' = None"
  using assms tone_sync_eq [OF assms(1), of q None s]
  by (simp add: tone_result_def send_cmd_def queue_send_def start_cmd_def tone_param_def
      play_tone_sync_cb_def)

theorem tone_timeout_leaves_dangling_queue_witness:
  "\<exists>s' c. play_tone_sync (Some ''a.mp3'') (Some 5) None wit_client = Some (- ESP_ERR_TIMEOUT, s') \<and>
    cl_queue s' = Some [c] \<and>
    play_tone_sync_cb NOTIFY_STATUS_PLAY_FINISH (ac_callback_param c) s' = None"
  using tone_timeout_leaves_dangling_queue [of "''a.mp3''" wit_client "[]" 5
      NOTIFY_STATUS_PLAY_FINISH]
  by (auto simp: wit_client_def)



text \<open>A wechat recording ends within one read of 24 kB, and the limit is reported as exceeded
  exactly when the file has reached it.\<close>

theorem wechat_file_bounded:
  assumes "\<forall>(exit, read)\<in>set (re_reads e). \<forall>len. read = Some len \<longrightarrow> len \<le> 320"
    and "re_open_ok e" "re_alloc_ok e" "\<forall>n. CloseFile n \<notin> set (rec_trace r)"
    and "record_thread AUDIO_APP_WECHAT cur command e r = Some (r', True)"
  shows "\<exists>n. CloseFile n \<in> set (rec_trace r') \<and> n < RECORD_FILE_MAX_SIZE + 320 \<and>
    (record_exceed_limit r' \<longleftrightarrow> RECORD_FILE_MAX_SIZE \<le> n)"
proof -
  let ?r0 = "rec_emit [OpenFile (ac_file_path command), SemStopTake, RawStart (ac_record_type command)]
    (r\<lparr>record_exceed_limit := False\<rparr>)"
  obtain n r1 ended where w: "wechat_loop (re_reads e) 0 ?r0 = (n, r1, ended)"
    by (cases "wechat_loop (re_reads e) 0 ?r0")
  have "n < RECORD_FILE_MAX_SIZE + 320 \<and> (record_exceed_limit r1 \<longleftrightarrow> RECORD_FILE_MAX_SIZE \<le> n)"
    using wechat_loop_size [OF assms(1) _ w] by (simp add: rec_emit_def)
  moreover have "r' = rec_emit [CloseFile n, RawStop, SemStopGive] r1"
    using assms(2,3,5) w by (auto simp: record_thread_def record_wechat_def Let_def split: if_splits)
  ultimately show ?thesis by (auto simp: rec_emit_def)
qed

theorem wechat_file_bounded_witness:
  "\<exists>n. CloseFile n \<in> set (rec_trace (fst (the (record_thread AUDIO_APP_WECHAT None zero_cmd
      \<lparr>re_rounds = [], re_open_ok = True, re_alloc_ok = True,
       re_reads = [(False, Some 320), (True, None)]\<rparr> wit_recorder)))) \<and>
     n < RECORD_FILE_MAX_SIZE + 320"
proof -
  let ?e = "\<lparr>re_rounds = [], re_open_ok = True, re_alloc_ok = True,
       re_reads = [(False, Some 320), (True, None)]\<rparr>"
  obtain r' where r': "record_thread AUDIO_APP_WECHAT None zero_cmd ?e wit_recorder = Some (r', True)"
    by (simp add: record_thread_def record_wechat_def)
  from wechat_file_bounded [OF _ _ _ _ this] r' show ?thesis
    by (auto simp: wit_recorder_def)
qed

end
