(* ===== verification/KeyEvent.thy ===== *)
theory KeyEvent
  imports Alarm_Prelude "HOL-Library.Word" "HOL-Library.Signed_Division"
begin

unbundle bit_operations_syntax

text \<open>
  Key events, \<open>sys/keyevent.c\<close> and \<open>include/keyevent.h\<close>: the key task turns press and release
  messages of the drivers into events and delivers them to the registered clients, whose masks say
  which keys they want.

  \<^item> \<open>kstate\<close> is \<open>g_keyactmap\<close> (one entry per key), \<open>g_keyclient\<close> (the chain of clients as a list of
    addresses, with the live clients in \<open>k_store\<close>), the queue, and a trace of deliveries and wake lock
    calls.
  \<^item> Times are \<open>struct timeval\<close> with 32-bit fields; \<open>ms\<close> multiplies in 32 bits as the machine does.
  \<^item> What a client answers (\<open>KEY_PROCESS_PRIVATE\<close> stops the delivery) is an input.
\<close>

section \<open>Data\<close>

abbreviation KEY_CODE_HABIT :: nat where "KEY_CODE_HABIT \<equiv> 8"
abbreviation KEY_CODE_ENGLISH :: nat where "KEY_CODE_ENGLISH \<equiv> 9"
abbreviation KEY_CODE_PLAY_NEXT :: nat where "KEY_CODE_PLAY_NEXT \<equiv> 5"
abbreviation KEY_CODE_PLAY_PREV :: nat where "KEY_CODE_PLAY_PREV \<equiv> 6"
abbreviation KEY_CODE_PAT :: nat where "KEY_CODE_PAT \<equiv> 11"
abbreviation KEY_CODE_UNDEFINE :: nat where "KEY_CODE_UNDEFINE \<equiv> 13"

datatype keypress_t = KEY_ACTION_PRESS | KEY_ACTION_RELEASE | KEY_ACTION_UNDEFINE

datatype keystate_t = KEY_STATE_WAIT_PRESS | KEY_STATE_WAIT_RELEASE
  | KEY_STATE_WAIT_CONFIRM_SHORT | KEY_STATE_WAIT_CONFIRM_LONG | KEY_STATE_UNDEFINE

datatype keypress_event_t = KEY_EVNET_SHORT_PRESS | KEY_EVNET_LONG_PRESS | KEY_EVNET_PRESS
  | KEY_EVNET_RELEASE | KEY_EVNET_UNDEFINE

datatype keyprocess_t = KEY_PROCESS_PRIVATE | KEY_PROCESS_PUBLIC

record timeval =
  tv_sec :: "32 word"
  tv_usec :: "32 word"

record keymsg_t =
  km_code :: nat
  km_press :: keypress_t
  km_press_time :: timeval

record keyaction_t =
  ka_is_mask :: bool
  ka_state :: keystate_t
  ka_press_time :: timeval
  ka_release_time :: timeval

record keyevent_t =
  ke_code :: nat
  ke_type :: keypress_event_t
  ke_timestamp :: timeval

record keycode_client_t =
  kc_key_code_map :: "32 word"
  kc_notify :: addr

datatype key_trace = KAcquireWakeLock | KReleaseWakeLock | KDeliver addr keyevent_t

record kstate =
  k_actmap :: "keyaction_t list"
  k_client :: "addr list"
  k_store :: "addr \<rightharpoonup> keycode_client_t"
  k_wake_lock :: bool
  k_queue :: "keymsg_t list option"
  k_trace :: "key_trace list"

definition KEYCODE_TO_KEYMASK :: "nat \<Rightarrow> 32 word" where
  "KEYCODE_TO_KEYMASK k = push_bit k 1"

section \<open>Operations\<close>

definition ms :: "timeval \<Rightarrow> 32 word" where
  "ms t = tv_sec t * 1000 + word_of_int (sint (tv_usec t) sdiv 1000)"

definition time_threshold :: "timeval \<Rightarrow> timeval \<Rightarrow> int" where
  "time_threshold press_time last_time =
     (let a = ms press_time; b = ms last_time in
      if sint b < sint a then sint (a - b)
      else if sint a < sint b then 1100
      else 0)"

text \<open>Delivery walks the chain; \<open>answer\<close> is what a callback returns for the event.\<close>

fun deliver :: "(addr \<Rightarrow> keyevent_t \<Rightarrow> keyprocess_t) \<Rightarrow> keyevent_t \<Rightarrow> (addr \<rightharpoonup> keycode_client_t)
    \<Rightarrow> addr list \<Rightarrow> addr list option" where
  "deliver answer ev m [] = Some []"
| "deliver answer ev m (a # as) =
     (case m a of
        None \<Rightarrow> None
      | Some c \<Rightarrow>
          if kc_key_code_map c AND KEYCODE_TO_KEYMASK (ke_code ev) \<noteq> 0
          then (if answer (kc_notify c) ev = KEY_PROCESS_PRIVATE then Some [kc_notify c]
                else map_option (\<lambda>cs. kc_notify c # cs) (deliver answer ev m as))
          else deliver answer ev m as)"

text \<open>The wake lock call that goes with an event.\<close>

definition wake_call :: "bool \<Rightarrow> keypress_event_t \<Rightarrow> key_trace list" where
  "wake_call wake ty =
     (if \<not> wake then []
      else if ty = KEY_EVNET_PRESS then [KAcquireWakeLock]
      else if ty = KEY_EVNET_RELEASE then [KReleaseWakeLock] else [])"

definition notify_keyevent :: "(addr \<Rightarrow> keyevent_t \<Rightarrow> keyprocess_t) \<Rightarrow> keyevent_t \<Rightarrow> kstate
    \<Rightarrow> kstate option" where
  "notify_keyevent answer ev s =
     (if k_client s = [] then Some s
      else do {
        cs \<leftarrow> deliver answer ev (k_store s) (k_client s);
        Some (s\<lparr>k_trace := k_trace s @ wake_call (k_wake_lock s) (ke_type ev) @
                            map (\<lambda>c. KDeliver c ev) cs\<rparr>) })"

definition set_action :: "nat \<Rightarrow> keyaction_t \<Rightarrow> kstate \<Rightarrow> kstate" where
  "set_action k a s = s\<lparr>k_actmap := (k_actmap s)[k := a]\<rparr>"

definition event_unless_masked :: "(addr \<Rightarrow> keyevent_t \<Rightarrow> keyprocess_t) \<Rightarrow> keyaction_t \<Rightarrow> nat
    \<Rightarrow> keypress_event_t \<Rightarrow> timeval \<Rightarrow> kstate \<Rightarrow> kstate option" where
  "event_unless_masked answer a code type t s =
     (if ka_is_mask a then Some s
      else notify_keyevent answer \<lparr>ke_code = code, ke_type = type, ke_timestamp = t\<rparr> s)"

text \<open>One message of the key task.\<close>

definition key_task :: "(addr \<Rightarrow> keyevent_t \<Rightarrow> keyprocess_t) \<times> keymsg_t \<Rightarrow> kstate \<Rightarrow> kstate option" where
  "key_task i s =
     (let (answer, msg) = i; k = km_code msg; t = km_press_time msg in
      if KEY_CODE_UNDEFINE \<le> k then Some s
      else if length (k_actmap s) \<le> k then None
      else
        let a = k_actmap s ! k in
        if k = KEY_CODE_PAT \<and> 1000 < time_threshold t (ka_press_time a) then
          event_unless_masked answer a k KEY_EVNET_PRESS t (set_action k (a\<lparr>ka_press_time := t\<rparr>) s)
        else
          (case ka_state a of
             KEY_STATE_WAIT_PRESS \<Rightarrow>
               if km_press msg = KEY_ACTION_PRESS then
                 event_unless_masked answer a k KEY_EVNET_PRESS t
                   (set_action k (a\<lparr>ka_state := KEY_STATE_WAIT_RELEASE, ka_press_time := t\<rparr>) s)
               else Some s
           | KEY_STATE_WAIT_RELEASE \<Rightarrow>
               if km_press msg = KEY_ACTION_RELEASE then
                 event_unless_masked answer a k KEY_EVNET_RELEASE t
                   (set_action k (a\<lparr>ka_state := KEY_STATE_WAIT_PRESS, ka_release_time := t\<rparr>) s)
               else Some s
           | _ \<Rightarrow> Some s))"

text \<open>A client that is not registered is neither unlinked nor freed, and the answer is 0.\<close>

definition keyevent_unregister_listener :: "addr \<Rightarrow> kstate \<Rightarrow> (int \<times> kstate) option" where
  "keyevent_unregister_listener client s =
     (if k_client s = [] then Some (-1, s)
      else if client \<in> set (k_client s) then
        (case k_store s client of
           None \<Rightarrow> None
         | Some _ \<Rightarrow> Some (0, s\<lparr>k_client := remove1 client (k_client s),
                               k_store := (k_store s)(client := None)\<rparr>))
      else Some (0, s))"

definition link_client :: "addr \<Rightarrow> kstate \<Rightarrow> kstate" where
  "link_client a s = s\<lparr>k_client := k_client s @ [a]\<rparr>"

definition keyevent_register_listener :: "addr option \<Rightarrow> 32 word \<Rightarrow> addr \<Rightarrow> kstate
    \<Rightarrow> addr option \<times> kstate" where
  "keyevent_register_listener malloc key_code callback s =
     (case malloc of
        None \<Rightarrow> (None, s)
      | Some a \<Rightarrow> (Some a, link_client a (s\<lparr>k_store := (k_store s)
          (a \<mapsto> \<lparr>kc_key_code_map = key_code, kc_notify = callback\<rparr>)\<rparr>)))"

text \<open>The loop over the keys, setting \<open>is_mask\<close> of each key in the map.\<close>

fun mask_loop :: "bool \<Rightarrow> 32 word \<Rightarrow> nat \<Rightarrow> keyaction_t list \<Rightarrow> keyaction_t list option" where
  "mask_loop b key_code_map 0 acts = Some acts"
| "mask_loop b key_code_map (Suc n) acts = do {
     let k = KEY_CODE_UNDEFINE - Suc n;
     if k < length acts
     then mask_loop b key_code_map n
            (if key_code_map AND KEYCODE_TO_KEYMASK k \<noteq> 0 \<and> ka_is_mask (acts ! k) \<noteq> b
             then acts[k := (acts ! k)\<lparr>ka_is_mask := b\<rparr>] else acts)
     else None }"

definition keyevent_mask_notify :: "32 word \<Rightarrow> kstate \<Rightarrow> kstate option" where
  "keyevent_mask_notify key_code_map s =
     map_option (\<lambda>m. s\<lparr>k_actmap := m\<rparr>) (mask_loop True key_code_map KEY_CODE_UNDEFINE (k_actmap s))"

definition keyevent_unmask_notify :: "32 word \<Rightarrow> kstate \<Rightarrow> kstate option" where
  "keyevent_unmask_notify key_code_map s =
     map_option (\<lambda>m. s\<lparr>k_actmap := m\<rparr>) (mask_loop False key_code_map KEY_CODE_UNDEFINE (k_actmap s))"

definition keyaction_notfiy :: "timeval \<Rightarrow> keymsg_t option \<Rightarrow> kstate \<Rightarrow> int \<times> kstate" where
  "keyaction_notfiy now msg s =
     (case (msg, k_queue s) of
        (Some m, Some q) \<Rightarrow> (0, s\<lparr>k_queue := Some (queue_send 10 (m\<lparr>km_press_time := now\<rparr>) q)\<rparr>)
      | _ \<Rightarrow> (0, s))"

text \<open>
  Before the start there is no map and no queue, but clients can register: the audio manager and the Wi-Fi connection do. The
  memory of the key map is not cleared: its times are whatever \<open>junk\<close> was there.
\<close>

definition keys_before :: kstate where
  "keys_before = \<lparr>k_actmap = [], k_client = [], k_store = Map.empty, k_wake_lock = False, k_queue = None, k_trace = []\<rparr>"

definition keyevent_dispatch_init :: "(nat \<Rightarrow> keyaction_t) \<Rightarrow> bool \<Rightarrow> kstate \<Rightarrow> kstate" where
  "keyevent_dispatch_init junk wake_lock s =
     s\<lparr>k_actmap := map (\<lambda>i. (junk i)\<lparr>ka_state := KEY_STATE_WAIT_PRESS, ka_is_mask := False\<rparr>) [0..<KEY_CODE_UNDEFINE],
       k_wake_lock := wake_lock, k_queue := Some []\<rparr>"

section \<open>All that happens to the key state\<close>

datatype key_input =
    KeyMsg "addr \<Rightarrow> keyevent_t \<Rightarrow> keyprocess_t" keymsg_t
  | Register "addr option" "32 word" addr
  | Unregister addr
  | Mask "32 word"
  | Unmask "32 word"

definition key_step :: "key_input \<Rightarrow> kstate \<Rightarrow> kstate option" where
  "key_step i s =
     (case i of
        KeyMsg answer msg \<Rightarrow> key_task (answer, msg) s
      | Register malloc codes callback \<Rightarrow>
          Some (snd (keyevent_register_listener malloc codes callback s))
      | Unregister client \<Rightarrow> map_option snd (keyevent_unregister_listener client s)
      | Mask codes \<Rightarrow> keyevent_mask_notify codes s
      | Unmask codes \<Rightarrow> keyevent_unmask_notify codes s)"

text \<open>\<open>malloc\<close> gives memory that is not in use.\<close>

definition key_input_ok :: "key_input \<Rightarrow> kstate \<Rightarrow> bool" where
  "key_input_ok i s =
     (case i of Register (Some a) codes callback \<Rightarrow> k_store s a = None | _ \<Rightarrow> True)"

section \<open>Lemmas\<close>

definition key_inv :: "kstate \<Rightarrow> bool" where
  "key_inv s \<longleftrightarrow> length (k_actmap s) = KEY_CODE_UNDEFINE \<and> distinct (k_client s) \<and>
     set (k_client s) = dom (k_store s)"

interpretation clients: tail_list k_client link_client
  "\<lambda>a s. s\<lparr>k_client := remove1 a (k_client s)\<rparr>"
  by unfold_locales (simp_all add: link_client_def)

definition wants :: "(addr \<rightharpoonup> keycode_client_t) \<Rightarrow> nat \<Rightarrow> addr \<Rightarrow> bool" where
  "wants m code a \<longleftrightarrow> kc_key_code_map (the (m a)) AND KEYCODE_TO_KEYMASK code \<noteq> 0"

text \<open>The callbacks that want a key, up to the first that keeps it for itself.\<close>

definition receivers :: "(addr \<Rightarrow> keyevent_t \<Rightarrow> keyprocess_t) \<Rightarrow> keyevent_t \<Rightarrow> (addr \<rightharpoonup> keycode_client_t)
    \<Rightarrow> addr list \<Rightarrow> addr list" where
  "receivers answer ev m as =
     (let cs = map (\<lambda>a. kc_notify (the (m a))) (filter (wants m (ke_code ev)) as);
          public = (\<lambda>c. answer c ev \<noteq> KEY_PROCESS_PRIVATE)
      in takeWhile public cs @ take 1 (dropWhile public cs))"

lemma deliver_eq:
  "set as \<subseteq> dom m \<Longrightarrow> deliver answer ev m as = Some (receivers answer ev m as)"
  by (induction as) (auto simp: receivers_def wants_def Let_def)

definition event_trace :: "(addr \<Rightarrow> keyevent_t \<Rightarrow> keyprocess_t) \<Rightarrow> keyevent_t \<Rightarrow> kstate
    \<Rightarrow> key_trace list" where
  "event_trace answer ev s =
     (if k_client s = [] then []
      else wake_call (k_wake_lock s) (ke_type ev) @
        map (\<lambda>c. KDeliver c ev) (receivers answer ev (k_store s) (k_client s)))"

lemma notify_eq:
  assumes "key_inv s"
  shows "notify_keyevent answer ev s = Some (s\<lparr>k_trace := k_trace s @ event_trace answer ev s\<rparr>)"
proof -
  have "set (k_client s) \<subseteq> dom (k_store s)" using assms by (simp add: key_inv_def)
  from deliver_eq [OF this] show ?thesis by (simp add: notify_keyevent_def event_trace_def)
qed

lemma key_inv_trace [simp]: "key_inv (s\<lparr>k_trace := tr\<rparr>) = key_inv s"
  by (simp add: key_inv_def)

lemma key_inv_action [simp]: "key_inv (set_action k a s) = key_inv s"
  by (simp add: key_inv_def set_action_def)

lemma event_eq:
  "key_inv s \<Longrightarrow> event_unless_masked answer a k ty t s = Some (s\<lparr>k_trace := k_trace s @
     (if ka_is_mask a then []
      else event_trace answer \<lparr>ke_code = k, ke_type = ty, ke_timestamp = t\<rparr> s)\<rparr>)"
  by (simp add: event_unless_masked_def notify_eq)

lemma event_inv:
  assumes "key_inv s"
  shows "\<exists>s'. event_unless_masked answer a k ty t s = Some s' \<and> key_inv s'"
  using event_eq [OF assms] assms by simp

lemma key_task_inv:
  assumes "key_inv s"
  shows "\<exists>s'. key_task i s = Some s' \<and> key_inv s'"
proof -
  obtain answer msg where i: "i = (answer, msg)" by (cases i)
  have ev: "\<exists>s'. event_unless_masked answer a k ty t (set_action k' a' s) = Some s' \<and> key_inv s'"
    for a k ty t k' a'
    by (rule event_inv) (use assms in simp)
  have len: "length (k_actmap s) = KEY_CODE_UNDEFINE" using assms by (simp add: key_inv_def)
  show ?thesis
    using assms ev len
    by (simp add: i key_task_def Let_def split: keystate_t.splits)
qed

lemma mask_loop_total:
  "length acts = KEY_CODE_UNDEFINE \<Longrightarrow> n \<le> KEY_CODE_UNDEFINE \<Longrightarrow>
   \<exists>m. mask_loop b w n acts = Some m \<and> length m = KEY_CODE_UNDEFINE"
  by (induction n arbitrary: acts) (auto simp: Let_def)

lemma key_step_safe:
  assumes inv: "key_inv s" and ok: "key_input_ok i s"
  shows "\<exists>s'. key_step i s = Some s' \<and> key_inv s'"
proof (cases i)
  case (KeyMsg answer msg)
  with key_task_inv [OF inv] show ?thesis by (simp add: key_step_def)
next
  case (Register malloc codes callback)
  with inv ok show ?thesis
    by (cases malloc)
      (auto simp: key_step_def key_input_ok_def keyevent_register_listener_def key_inv_def
        link_client_def)
next
  case (Unregister client)
  with inv show ?thesis
    by (auto simp: key_step_def keyevent_unregister_listener_def key_inv_def split: option.splits)
next
  case (Mask codes)
  have "length (k_actmap s) = KEY_CODE_UNDEFINE" using inv by (simp add: key_inv_def)
  from mask_loop_total [OF this, of KEY_CODE_UNDEFINE True codes] inv Mask show ?thesis
    by (auto simp: key_step_def keyevent_mask_notify_def key_inv_def)
next
  case (Unmask codes)
  have "length (k_actmap s) = KEY_CODE_UNDEFINE" using inv by (simp add: key_inv_def)
  from mask_loop_total [OF this, of KEY_CODE_UNDEFINE False codes] inv Unmask show ?thesis
    by (auto simp: key_step_def keyevent_unmask_notify_def key_inv_def)
qed

interpretation keys: safe_machine key_step key_inv key_input_ok
  by unfold_locales (rule key_step_safe)

text \<open>The state before the start, after registrations.\<close>

definition clients_wf :: "kstate \<Rightarrow> bool" where
  "clients_wf s \<longleftrightarrow> distinct (k_client s) \<and> set (k_client s) = dom (k_store s)"

lemma early_clients:
  "clients_wf keys_before"
  "clients_wf s \<Longrightarrow> k_store s a = None \<Longrightarrow> clients_wf (snd (keyevent_register_listener (Some a) codes cb s))"
  by (auto simp: clients_wf_def keys_before_def keyevent_register_listener_def link_client_def)

definition key_starts :: "kstate set" where
  "key_starts = {keyevent_dispatch_init junk w s0 | junk w s0. clients_wf s0}"

lemma key_init_inv: "s \<in> key_starts \<Longrightarrow> key_inv s"
  by (auto simp: key_starts_def keyevent_dispatch_init_def key_inv_def clients_wf_def)

text \<open>Masks.\<close>

lemma keymask_bit: "k < 32 \<Longrightarrow> w AND KEYCODE_TO_KEYMASK k \<noteq> 0 \<longleftrightarrow> bit w k"
  for w :: "32 word"
proof -
  assume "k < 32"
  have "w AND KEYCODE_TO_KEYMASK k = (if bit w k then KEYCODE_TO_KEYMASK k else 0)"
    by (rule bit_eqI) (auto simp: KEYCODE_TO_KEYMASK_def bit_simps)
  moreover have "KEYCODE_TO_KEYMASK k \<noteq> 0"
    using \<open>k < 32\<close> by (auto simp: KEYCODE_TO_KEYMASK_def bit_eq_iff bit_simps)
  ultimately show ?thesis by simp
qed

lemma mask_loop_eq:
  assumes "length acts = KEY_CODE_UNDEFINE" "n \<le> KEY_CODE_UNDEFINE" "mask_loop b w n acts = Some m"
    "k < KEY_CODE_UNDEFINE"
  shows "m ! k = (if KEY_CODE_UNDEFINE - n \<le> k \<and> bit w k
    then (acts ! k)\<lparr>ka_is_mask := b\<rparr> else acts ! k)"
  using assms
proof (induction n arbitrary: acts)
  case 0
  then show ?case by simp
next
  case (Suc n)
  let ?j = "KEY_CODE_UNDEFINE - Suc n"
  let ?acts = "if w AND KEYCODE_TO_KEYMASK ?j \<noteq> 0 \<and> ka_is_mask (acts ! ?j) \<noteq> b
      then acts[?j := (acts ! ?j)\<lparr>ka_is_mask := b\<rparr>] else acts"
  have "mask_loop b w (Suc n) acts = mask_loop b w n ?acts"
  proof -
    have "?j < length acts" using Suc.prems(1,2) by simp
    then show ?thesis by (simp only: mask_loop.simps Let_def if_True)
  qed
  then have "mask_loop b w n ?acts = Some m" using Suc.prems(3) by simp
  moreover have "length ?acts = KEY_CODE_UNDEFINE" using Suc.prems(1) by simp
  ultimately have IH: "m ! k = (if KEY_CODE_UNDEFINE - n \<le> k \<and> bit w k
      then (?acts ! k)\<lparr>ka_is_mask := b\<rparr> else ?acts ! k)"
    using Suc.IH Suc.prems(2,4) by simp
  have j: "?j < KEY_CODE_UNDEFINE" using Suc.prems(2) by simp
  show ?case
  proof (cases "k = ?j")
    case True
    have "\<not> KEY_CODE_UNDEFINE - n \<le> k" using True Suc.prems(2) by simp
    with IH have "m ! k = ?acts ! k" by simp
    moreover have "?acts ! k = (if bit w k then (acts ! k)\<lparr>ka_is_mask := b\<rparr> else acts ! k)"
      using keymask_bit [of ?j w] True Suc.prems(1) j by auto
    ultimately show ?thesis using True by simp
  next
    case False
    then have "?acts ! k = acts ! k" by auto
    moreover have "KEY_CODE_UNDEFINE - n \<le> k \<longleftrightarrow> KEY_CODE_UNDEFINE - Suc n \<le> k"
      using False Suc.prems(2) by auto
    ultimately show ?thesis using IH by simp
  qed
qed

text \<open>The wake lock is held by the keys that are down.\<close>

definition held :: "kstate \<Rightarrow> nat" where
  "held s = length (filter (\<lambda>a. ka_state a = KEY_STATE_WAIT_RELEASE) (k_actmap s))"

definition lock_balance :: "key_trace list \<Rightarrow> int" where
  "lock_balance tr = int (count_list tr KAcquireWakeLock) - int (count_list tr KReleaseWakeLock)"

lemma lock_balance_append [simp]: "lock_balance (xs @ ys) = lock_balance xs + lock_balance ys"
  by (simp add: lock_balance_def)

lemma lock_balance_deliver [simp]: "lock_balance (map (\<lambda>c. KDeliver c ev) cs) = 0"
  by (induction cs) (simp_all add: lock_balance_def)

lemma lock_balance_event:
  "k_client s \<noteq> [] \<Longrightarrow> k_wake_lock s \<Longrightarrow> lock_balance (event_trace answer ev s) =
    (if ke_type ev = KEY_EVNET_PRESS then 1 else if ke_type ev = KEY_EVNET_RELEASE then -1 else 0)"
  by (simp add: event_trace_def wake_call_def) (simp add: lock_balance_def)

lemma filter_update_length:
  "i < length xs \<Longrightarrow> int (length (filter P (xs[i := y]))) =
     int (length (filter P xs)) - (if P (xs ! i) then 1 else 0) + (if P y then 1 else 0)"
proof (induction xs arbitrary: i)
  case Nil
  then show ?case by simp
next
  case (Cons x xs)
  show ?case
  proof (cases i)
    case (Suc j)
    with Cons.prems Cons.IH [of j] show ?thesis by (simp split: if_splits)
  qed simp
qed

definition unmasked :: "kstate \<Rightarrow> bool" where
  "unmasked s \<longleftrightarrow> key_inv s \<and> k_client s \<noteq> [] \<and> k_wake_lock s \<and> (\<forall>a\<in>set (k_actmap s). \<not> ka_is_mask a)"

lemma key_task_balance:
  assumes um: "unmasked s" and pat: "km_code msg \<noteq> KEY_CODE_PAT"
    and step: "key_task (answer, msg) s = Some s'"
  shows "unmasked s' \<and> lock_balance (k_trace s') - int (held s') = lock_balance (k_trace s) - int (held s)"
proof (cases "KEY_CODE_UNDEFINE \<le> km_code msg")
  case True
  with step um show ?thesis by (simp add: key_task_def Let_def)
next
  case False
  define k where "k = km_code msg"
  define a where "a = k_actmap s ! k"
  have k: "k < KEY_CODE_UNDEFINE" "k \<noteq> KEY_CODE_PAT" using False pat by (simp_all add: k_def)
  have len: "k < length (k_actmap s)" using um k by (simp add: unmasked_def key_inv_def)
  then have a: "\<not> ka_is_mask a" using um by (auto simp: unmasked_def a_def)
  have upd: "unmasked (set_action k a' s)" if "\<not> ka_is_mask a'" for a'
    using um that by (auto simp: unmasked_def key_inv_def set_action_def dest!: set_update_subset_insert [THEN subsetD])
  have h: "int (held (set_action k a' s)) = int (held s)
      - (if ka_state a = KEY_STATE_WAIT_RELEASE then 1 else 0)
      + (if ka_state a' = KEY_STATE_WAIT_RELEASE then 1 else 0)" for a'
    using filter_update_length [OF len] by (simp add: held_def set_action_def a_def)
  have ev: "unmasked s1 \<and> lock_balance (k_trace s1) = lock_balance (k_trace s) +
      (if ty = KEY_EVNET_PRESS then 1 else if ty = KEY_EVNET_RELEASE then -1 else 0) \<and> held s1 = held (set_action k a' s)"
    if "event_unless_masked answer a k ty t (set_action k a' s) = Some s1" "\<not> ka_is_mask a'" for ty t a' s1
  proof -
    from upd [OF that(2)] have u: "unmasked (set_action k a' s)" .
    then have i: "key_inv (set_action k a' s)" by (simp add: unmasked_def)
    have lb: "lock_balance (event_trace answer ev (set_action k a' s)) =
        (if ke_type ev = KEY_EVNET_PRESS then 1 else if ke_type ev = KEY_EVNET_RELEASE then -1 else 0)" for ev
      using u by (intro lock_balance_event) (simp_all add: unmasked_def)
    have "k_trace (set_action k a' s) = k_trace s" by (simp add: set_action_def)
    with that event_eq [OF i] a u lb show ?thesis
      by (auto simp: unmasked_def held_def)
  qed
  show ?thesis
  proof (cases "ka_state a")
    case KEY_STATE_WAIT_PRESS
    with step k len a um ev h show ?thesis
      by (auto simp: key_task_def Let_def k_def [symmetric] a_def [symmetric] split: if_splits dest!: ev)
  next
    case KEY_STATE_WAIT_RELEASE
    with step k len a um ev h show ?thesis
      by (auto simp: key_task_def Let_def k_def [symmetric] a_def [symmetric] split: if_splits dest!: ev)
  qed (use step k len um in
    \<open>simp_all add: key_task_def Let_def k_def [symmetric] a_def [symmetric]\<close>)
qed

lemma run_balance:
  assumes "unmasked s" "\<forall>i\<in>set is. km_code (snd i) \<noteq> KEY_CODE_PAT"
    and "run_opt key_task is s = Some s'"
  shows "unmasked s' \<and> lock_balance (k_trace s') - int (held s') = lock_balance (k_trace s) - int (held s)"
  using assms
proof (induction "is" arbitrary: s)
  case Nil
  then show ?case by simp
next
  case (Cons i "is")
  then obtain s1 where s1: "key_task i s = Some s1" "run_opt key_task is s1 = Some s'"
    by (cases "key_task i s") auto
  obtain answer msg where i: "i = (answer, msg)" by (cases i)
  with key_task_balance [OF Cons.prems(1)] s1 Cons.prems(2)
  have "unmasked s1" "lock_balance (k_trace s1) - int (held s1) = lock_balance (k_trace s) - int (held s)"
    by auto
  with Cons.IH [OF this(1) _ s1(2)] Cons.prems(2) show ?case by simp
qed

section \<open>Properties\<close>

definition wit_time :: "int \<Rightarrow> timeval" where
  "wit_time s = \<lparr>tv_sec = word_of_int s, tv_usec = 0\<rparr>"

definition wit_action :: keyaction_t where
  "wit_action = \<lparr>ka_is_mask = False, ka_state = KEY_STATE_WAIT_PRESS, ka_press_time = wit_time 0,
     ka_release_time = wit_time 0\<rparr>"

definition wit_keys :: kstate where
  "wit_keys = (keyevent_dispatch_init (\<lambda>_. wit_action) True keys_before)
     \<lparr>k_client := [1], k_store := [1 \<mapsto> \<lparr>kc_key_code_map = KEYCODE_TO_KEYMASK 8, kc_notify = 5\<rparr>]\<rparr>"

definition wit_msg :: "nat \<Rightarrow> keypress_t \<Rightarrow> int \<Rightarrow> keymsg_t" where
  "wit_msg k p t = \<lparr>km_code = k, km_press = p, km_press_time = wit_time t\<rparr>"

lemmas wit_key_defs = wit_time_def wit_action_def wit_keys_def wit_msg_def keyevent_dispatch_init_def keys_before_def

lemma wit_keys_unmasked: "unmasked wit_keys"
  by (auto simp: unmasked_def key_inv_def wit_key_defs)

text \<open>From the start of the dispatcher, whatever messages, registrations, unregistrations and
  masks arrive, no step reads outside the key map or a client that was freed, and the chain of
  clients has exactly the live clients, each once.\<close>

theorem key_clients_safe:
  assumes "reach key_step key_input_ok key_starts s" "key_input_ok i s"
  shows "\<exists>s'. key_step i s = Some s' \<and> distinct (k_client s') \<and> set (k_client s') = dom (k_store s') \<and>
    length (k_actmap s') = KEY_CODE_UNDEFINE"
  using keys.reach_not_stuck [OF assms(1) key_init_inv assms(2)]
  by (auto simp: key_inv_def)

theorem key_clients_safe_witness:
  "\<exists>s'. key_step (Register (Some 4) 0x100 7) (keyevent_dispatch_init (\<lambda>_. wit_action) False keys_before) = Some s' \<and>
    set (k_client s') = dom (k_store s')"
proof -
  have "key_input_ok (Register (Some 4) 0x100 7) (keyevent_dispatch_init (\<lambda>_. wit_action) False keys_before)"
    by (simp add: key_input_ok_def keyevent_dispatch_init_def keys_before_def)
  moreover have "keyevent_dispatch_init (\<lambda>_. wit_action) False keys_before \<in> key_starts"
    using early_clients(1) by (auto simp: key_starts_def)
  ultimately show ?thesis using key_clients_safe [OF reach_init] by blast
qed

text \<open>While no key is masked and the pat sensor is silent, the calls on the wake lock balance:
  acquires minus releases is the number of keys that are held down, whatever sequence of press and
  release messages, doubled or lost ones included, the drivers send.\<close>

theorem wake_lock_follows_held_keys:
  assumes "unmasked s" "held s = 0" "k_trace s = []"
    and "\<forall>i\<in>set is. km_code (snd i) \<noteq> KEY_CODE_PAT" "run_opt key_task is s = Some s'"
  shows "lock_balance (k_trace s') = int (held s')"
  using run_balance [OF assms(1,4,5)] assms(2,3) by (simp add: lock_balance_def)

theorem wake_lock_follows_held_keys_witness:
  "lock_balance (k_trace (the (run_opt key_task
      [(\<lambda>_ _. KEY_PROCESS_PUBLIC, wit_msg 8 KEY_ACTION_PRESS 3),
       (\<lambda>_ _. KEY_PROCESS_PUBLIC, wit_msg 8 KEY_ACTION_PRESS 4)] wit_keys))) =
   int (held (the (run_opt key_task
      [(\<lambda>_ _. KEY_PROCESS_PUBLIC, wit_msg 8 KEY_ACTION_PRESS 3),
       (\<lambda>_ _. KEY_PROCESS_PUBLIC, wit_msg 8 KEY_ACTION_PRESS 4)] wit_keys)))"
proof -
  let ?is = "[(\<lambda>_ _. KEY_PROCESS_PUBLIC, wit_msg 8 KEY_ACTION_PRESS 3),
       (\<lambda>_ _. KEY_PROCESS_PUBLIC, wit_msg 8 KEY_ACTION_PRESS 4)]"
  have "key_inv wit_keys" using wit_keys_unmasked by (simp add: unmasked_def)
  then have "\<exists>s'. run_opt key_task ?is wit_keys = Some s'"
    using key_task_inv by (auto simp: bind_Some_ex) (metis key_task_inv)
  then obtain s' where s': "run_opt key_task ?is wit_keys = Some s'" by blast
  have "held wit_keys = 0" by (simp add: held_def wit_key_defs)
  moreover have "\<forall>i\<in>set ?is. km_code (snd i) \<noteq> KEY_CODE_PAT" by (simp add: wit_msg_def)
  ultimately show ?thesis
    using wake_lock_follows_held_keys [OF wit_keys_unmasked _ _ _ s'] s'
    by (simp add: wit_key_defs)
qed

text \<open>An event is delivered, in the order of registration, to the clients whose mask has its
  key, up to and including the first that answers \<open>KEY_PROCESS_PRIVATE\<close>, and to nobody else.\<close>

theorem events_go_to_receivers:
  assumes "key_inv s" "k_client s \<noteq> []"
  shows "notify_keyevent answer ev s = Some (s\<lparr>k_trace := k_trace s @ wake_call (k_wake_lock s) (ke_type ev) @
    map (\<lambda>c. KDeliver c ev) (receivers answer ev (k_store s) (k_client s))\<rparr>)"
  using notify_eq [OF assms(1)] assms(2) by (simp add: event_trace_def)

theorem events_go_to_receivers_witness:
  "notify_keyevent (\<lambda>_ _. KEY_PROCESS_PUBLIC)
      \<lparr>ke_code = 8, ke_type = KEY_EVNET_PRESS, ke_timestamp = wit_time 1\<rparr> wit_keys =
    Some (wit_keys\<lparr>k_trace := [KAcquireWakeLock,
      KDeliver 5 \<lparr>ke_code = 8, ke_type = KEY_EVNET_PRESS, ke_timestamp = wit_time 1\<rparr>]\<rparr>)"
proof -
  have "key_inv wit_keys" using wit_keys_unmasked by (simp add: unmasked_def)
  moreover have "KEYCODE_TO_KEYMASK 8 \<noteq> 0" by (simp add: KEYCODE_TO_KEYMASK_def)
  ultimately show ?thesis
    using events_go_to_receivers [of wit_keys "\<lambda>_ _. KEY_PROCESS_PUBLIC"
        "\<lparr>ke_code = 8, ke_type = KEY_EVNET_PRESS, ke_timestamp = wit_time 1\<rparr>"]
    by (simp add: wit_key_defs receivers_def wants_def wake_call_def)
qed

text \<open>Masking sets \<open>is_mask\<close> of exactly the keys whose bit is in the map, unmasking clears
  exactly those, and nothing else of the key map changes.\<close>

theorem masks_are_exact:
  assumes "key_inv s" "k < KEY_CODE_UNDEFINE"
  shows "\<exists>s1 s2. keyevent_mask_notify codes s = Some s1 \<and> keyevent_unmask_notify codes s = Some s2 \<and>
    k_actmap s1 ! k = (if bit codes k then (k_actmap s ! k)\<lparr>ka_is_mask := True\<rparr> else k_actmap s ! k) \<and>
    k_actmap s2 ! k = (if bit codes k then (k_actmap s ! k)\<lparr>ka_is_mask := False\<rparr> else k_actmap s ! k)"
proof -
  have len: "length (k_actmap s) = KEY_CODE_UNDEFINE" using assms(1) by (simp add: key_inv_def)
  obtain m1 where m1: "mask_loop True codes KEY_CODE_UNDEFINE (k_actmap s) = Some m1"
    using mask_loop_total [OF len] by blast
  obtain m2 where m2: "mask_loop False codes KEY_CODE_UNDEFINE (k_actmap s) = Some m2"
    using mask_loop_total [OF len] by blast
  from mask_loop_eq [OF len _ m1 assms(2)] mask_loop_eq [OF len _ m2 assms(2)] m1 m2 show ?thesis
    by (auto simp: keyevent_mask_notify_def keyevent_unmask_notify_def)
qed

theorem masks_are_exact_witness:
  "\<exists>s1. keyevent_mask_notify 0x100 wit_keys = Some s1 \<and> ka_is_mask (k_actmap s1 ! 8)"
proof -
  have "key_inv wit_keys" using wit_keys_unmasked by (simp add: unmasked_def)
  from masks_are_exact [OF this, of 8 "0x100"] show ?thesis by (auto simp: bit_numeral_rec)
qed

text \<open>The limit of one pat per second does not limit pats. A message of the pat sensor more
  than a second after the last is reported as a press, a release message too; and a second press
  within that second is reported as well, because it then runs through the state machine of the
  other keys.\<close>

theorem pat_is_not_throttled:
  assumes "key_inv s" "a = k_actmap s ! KEY_CODE_PAT"
    and "\<not> ka_is_mask a" "ka_state a = KEY_STATE_WAIT_PRESS"
    and "1000 < time_threshold t1 (ka_press_time a)" "time_threshold t2 t1 \<le> 1000"
  shows "\<exists>s'. run_opt key_task
      [(answer, \<lparr>km_code = KEY_CODE_PAT, km_press = p, km_press_time = t1\<rparr>),
       (answer, \<lparr>km_code = KEY_CODE_PAT, km_press = KEY_ACTION_PRESS, km_press_time = t2\<rparr>)] s = Some s' \<and>
    k_trace s' = k_trace s @
      event_trace answer \<lparr>ke_code = KEY_CODE_PAT, ke_type = KEY_EVNET_PRESS, ke_timestamp = t1\<rparr> s @
      event_trace answer \<lparr>ke_code = KEY_CODE_PAT, ke_type = KEY_EVNET_PRESS, ke_timestamp = t2\<rparr> s"
proof -
  let ?a1 = "a\<lparr>ka_press_time := t1\<rparr>" and ?k = KEY_CODE_PAT
  let ?e1 = "event_trace answer \<lparr>ke_code = ?k, ke_type = KEY_EVNET_PRESS, ke_timestamp = t1\<rparr> s"
  let ?s1 = "(set_action ?k ?a1 s)\<lparr>k_trace := k_trace s @ ?e1\<rparr>"
  have len: "length (k_actmap s) = KEY_CODE_UNDEFINE" using assms(1) by (simp add: key_inv_def)
  have et: "event_trace answer ev (set_action k a' s) = event_trace answer ev s"
    "event_trace answer ev (set_action k a' ?s1) = event_trace answer ev s" for ev k a'
    by (simp_all add: event_trace_def set_action_def)
  have s1: "key_task (answer, \<lparr>km_code = ?k, km_press = p, km_press_time = t1\<rparr>) s = Some ?s1"
    using assms len by (simp add: key_task_def Let_def event_eq et) (simp add: set_action_def)
  have inv1: "key_inv ?s1" using assms(1) by simp
  have a1: "k_actmap ?s1 ! ?k = ?a1" using len by (simp add: set_action_def)
  have "key_task (answer, \<lparr>km_code = ?k, km_press = KEY_ACTION_PRESS, km_press_time = t2\<rparr>) ?s1 =
      Some ((set_action ?k (?a1\<lparr>ka_state := KEY_STATE_WAIT_RELEASE, ka_press_time := t2\<rparr>) ?s1)
        \<lparr>k_trace := k_trace ?s1 @ event_trace answer \<lparr>ke_code = ?k, ke_type = KEY_EVNET_PRESS, ke_timestamp = t2\<rparr> s\<rparr>)"
    using assms(3,4,6) a1 inv1 len et
    by (simp add: key_task_def Let_def event_eq) (simp add: set_action_def)
  with s1 show ?thesis by simp
qed

theorem pat_is_not_throttled_witness:
  "\<exists>s'. run_opt key_task
      [(\<lambda>_ _. KEY_PROCESS_PUBLIC, wit_msg KEY_CODE_PAT KEY_ACTION_RELEASE 10),
       (\<lambda>_ _. KEY_PROCESS_PUBLIC, wit_msg KEY_CODE_PAT KEY_ACTION_PRESS 10)] wit_keys = Some s'"
proof -
  have "key_inv wit_keys" using wit_keys_unmasked by (simp add: unmasked_def)
  moreover have "1000 < time_threshold (wit_time 10) (wit_time 0)"
    by (simp add: time_threshold_def ms_def wit_time_def)
  moreover have "time_threshold (wit_time 10) (wit_time 10) \<le> 1000"
    by (simp add: time_threshold_def)
  ultimately show ?thesis
    using pat_is_not_throttled [of wit_keys wit_action "wit_time 10" "wit_time 10"
        "\<lambda>_ _. KEY_PROCESS_PUBLIC" KEY_ACTION_RELEASE]
    by (auto simp: wit_key_defs upt_rec)
qed

end
