(* ===== verification/StoryPlayer.thy ===== *)
theory StoryPlayer
  imports KeyEvent Audio_Types
begin

text \<open>
  The story player, \<open>app/story_player.c\<close>: four players (stories, English stories, and the songs of
  both), each with a play list of the files of its directory, one of them current; the task that
  executes the commands of keys, of the server and of the audio manager's notifications; and the
  task that writes down how far a story was played.

  \<^item> \<open>story\<close> holds the globals. A play list is the chain of its items as a list of addresses, the
    items live in \<open>st_items\<close>; a removed item is not in it.
  \<^item> Calls on the audio manager, the server and the system manager are recorded in \<open>st_calls\<close>, in
    order.
  \<^item> The files of \<open>/sdcard/PLAYLOG\<close> are part of the state: one log per player and one key log.
  \<^item> JSON is read with the third-party library cJSON; what it gives is a parameter (\<open>cjson\<close>).
  \<^item> The configuration is that of \<open>audiomanagerservice.h\<close>: \<open>STORY_PLAY_PAUSE\<close> is defined,
    \<open>ALLOW_PLAY_START\<close> is not.
\<close>

section \<open>Data\<close>

datatype item_state_t = ITEM_ST_IDLE | ITEM_ST_PLAY | ITEM_ST_PAUSE | ITEM_ST_STOP | ITEM_ST_DAMAGE
  | ITEM_ST_UNDEFINE

record item_entry_t =
  it_state :: item_state_t
  it_file_name :: string
  it_time :: nat

abbreviation STORY_FILE_NAME_LENGTH :: nat where "STORY_FILE_NAME_LENGTH \<equiv> 48"
abbreviation FOLDER_PATH_LENGTH :: nat where "FOLDER_PATH_LENGTH \<equiv> 80"
abbreviation STORY_PLAYER_QUEUE_SIZE :: nat where "STORY_PLAYER_QUEUE_SIZE \<equiv> 10"

datatype player_id = g_story_player | g_english_player | g_story_song_player | g_english_song_player

record story_player_t =
  sp_audio_type :: AudioAppType
  sp_folder_path :: string
  sp_list :: "addr list"

datatype application_t = APP_WECHAT | APP_STORY | APP_ALARM | APP_DEEPBRAIN | APP_UNDEFINE

datatype story_player_cmd_value =
    STORY_PLAYER_CMD_SWITCH_STORY | STORY_PLAYER_CMD_SWITCH_ENGLISH | STORY_PLAYER_CMD_SWITCH_SONG
  | STORY_PLAYER_CMD_SWITCH_E_SONG | STORY_PLAYER_CMD_PLAY_START | STORY_PLAYER_CMD_PLAY_STOP
  | STORY_PLAYER_CMD_PLAY_PAUSE | STORY_PLAYER_CMD_PLAY_PREV | STORY_PLAYER_CMD_PLAY_NEXT
  | STORY_PLAYER_CMD_PLAY_REVERT | STORY_PLAYER_CMD_REALTIME_PUSH | STORY_PLAYER_CMD_PUSH_CONTROL
  | STORY_PLAYER_CMD_UNDEFINE

text \<open>\<open>param\<close> carries the data of a server command.\<close>

record story_player_cmd_node =
  nd_cmd_value :: story_player_cmd_value
  nd_param :: "string option"
  nd_cb_sig :: int

record realtime_push_t =
  rp_albumUid :: string
  rp_songUid :: string
  rp_play_mode :: nat

record player_name_time_t =
  pt_time :: nat
  pt_player_name :: string

record key_sign_t =
  ks_habit_key :: nat
  ks_english_key :: nat

datatype player_record_cmd = PR_STOP bool | PR_PLAY | PR_UNDEFINE

datatype push_command = PUSH_NEXT | PUSH_PREV | PUSH_NOTHING

datatype story_call =
    PlayStart play_param_t | PlayStop AudioAppType | PlayPause AudioAppType | PlayResume AudioAppType
  | PlayToneSync string | VolumeUp | VolumeDown
  | SendDeviceStatus
  | RequestSong push_command string string nat NotifyStatus
  | Unlink string

record story =
  st_player :: "player_id \<Rightarrow> story_player_t"
  st_items :: "addr \<rightharpoonup> item_entry_t"
  st_current :: "player_id option"
  st_realtime_push_song :: bool
  st_habit_key_press_cnt :: nat
  st_english_key_press_cnt :: nat
  st_r_push_player :: realtime_push_t
  st_record_play_msg :: bool
  st_s_key :: key_sign_t
  st_playlog :: "player_id \<Rightarrow> player_name_time_t option"
  st_keysign :: "key_sign_t option"
  st_queue :: "story_player_cmd_node list option"
  st_front_app :: application_t
  st_record_queue :: "player_record_cmd list option"
  st_audio_service :: bool
  st_calls :: "story_call list"

text \<open>The function pointers \<open>story_audio_play_cb\<close> and \<open>realtime_push_play_cb\<close>.\<close>

definition STORY_AUDIO_PLAY_CB :: addr where "STORY_AUDIO_PLAY_CB = 1"
definition REALTIME_PUSH_PLAY_CB :: addr where "REALTIME_PUSH_PLAY_CB = 2"

definition call :: "story_call list \<Rightarrow> story \<Rightarrow> story" where
  "call cs s = s\<lparr>st_calls := st_calls s @ cs\<rparr>"

definition set_item :: "addr \<Rightarrow> item_entry_t \<Rightarrow> story \<Rightarrow> story" where
  "set_item a i s = s\<lparr>st_items := (st_items s)(a \<mapsto> i)\<rparr>"

definition items_of :: "player_id \<Rightarrow> story \<Rightarrow> addr list" where
  "items_of p s = sp_list (st_player s p)"

section \<open>Play lists\<close>

definition insert_in_play_list :: "player_id \<Rightarrow> addr \<Rightarrow> story \<Rightarrow> story" where
  "insert_in_play_list p a s =
     s\<lparr>st_player := (st_player s)(p := (st_player s p)\<lparr>sp_list := a # sp_list (st_player s p)\<rparr>)\<rparr>"

definition remove_from_play_list :: "player_id \<Rightarrow> addr \<Rightarrow> story \<Rightarrow> story \<times> addr option" where
  "remove_from_play_list p a s =
     (if a \<in> set (items_of p s)
      then (s\<lparr>st_player := (st_player s)
               (p := (st_player s p)\<lparr>sp_list := remove1 a (sp_list (st_player s p))\<rparr>)\<rparr>, Some a)
      else (s, None))"

definition search_in_play_list_by_state :: "player_id \<Rightarrow> item_state_t \<Rightarrow> story \<Rightarrow> addr option option" where
  "search_in_play_list_by_state p state s =
     find_node (\<lambda>i. it_state i = state) (st_items s) (items_of p s)"

text \<open>\<open>strncmp\<close> over \<open>n\<close> bytes of a name that has at least \<open>n\<close> of them.\<close>

definition name_matches :: "string \<Rightarrow> string \<Rightarrow> bool" where
  "name_matches name file =
     (let n = min (length name) STORY_FILE_NAME_LENGTH in take n file = take n name)"

definition search_in_play_list_by_name :: "player_id \<Rightarrow> string \<Rightarrow> story \<Rightarrow> addr option option" where
  "search_in_play_list_by_name p name s =
     find_node (\<lambda>i. name_matches name (it_file_name i)) (st_items s) (items_of p s)"

fun next_in :: "addr list \<Rightarrow> addr list \<Rightarrow> addr \<Rightarrow> addr option" where
  "next_in all [] a = (case all of [] \<Rightarrow> None | h # _ \<Rightarrow> Some h)"
| "next_in all (x # xs) a =
     (if x = a then (case xs of
                       [] \<Rightarrow> (case all of [] \<Rightarrow> None | h # _ \<Rightarrow> Some h)
                     | y # _ \<Rightarrow> Some y)
      else next_in all xs a)"

definition get_next_item :: "addr list \<Rightarrow> addr option \<Rightarrow> addr option" where
  "get_next_item list pos =
     (case pos of
        None \<Rightarrow> (case list of [] \<Rightarrow> None | h # _ \<Rightarrow> Some h)
      | Some a \<Rightarrow> next_in list list a)"

fun prev_in :: "addr list \<Rightarrow> addr list \<Rightarrow> addr \<Rightarrow> addr option" where
  "prev_in all (x # y # xs) a = (if y = a then Some x else prev_in all (y # xs) a)"
| "prev_in all _ a = (case all of [] \<Rightarrow> None | h # _ \<Rightarrow> Some h)"

definition get_prev_item :: "addr list \<Rightarrow> addr option \<Rightarrow> addr option" where
  "get_prev_item list pos =
     (case pos of
        None \<Rightarrow> (case list of [] \<Rightarrow> None | h # _ \<Rightarrow> Some h)
      | Some a \<Rightarrow>
         (case list of
            [] \<Rightarrow> prev_in list list a
          | h # _ \<Rightarrow> if a = h then Some (last list) else prev_in list list a))"

section \<open>Playing\<close>

text \<open>\<open>folder/name\<close>, copied into an array of 128 bytes.\<close>

definition file_path :: "player_id \<Rightarrow> item_entry_t \<Rightarrow> story \<Rightarrow> string option" where
  "file_path p i s = do {
     folder \<leftarrow> c_str FOLDER_PATH_LENGTH (sp_folder_path (st_player s p));
     name \<leftarrow> c_str STORY_FILE_NAME_LENGTH (it_file_name i);
     Some (folder @ ''/'' @ name) }"

definition start_param :: "player_id \<Rightarrow> addr \<Rightarrow> string \<Rightarrow> string option \<Rightarrow> story \<Rightarrow> play_param_t" where
  "start_param p a path tone s =
     \<lparr>pp_play_app_type = sp_audio_type (st_player s p), pp_is_local_file = True, pp_uri = Some path,
      pp_tone = tone, pp_cb = Some STORY_AUDIO_PLAY_CB, pp_cb_param = Some a\<rparr>"

text \<open>The log read is that of the current player.\<close>

definition search_play_in_playmsg_file :: "player_id \<Rightarrow> story \<Rightarrow> (story \<times> addr option) option" where
  "search_play_in_playmsg_file p s =
     (case Option.bind (st_current s) (st_playlog s) of
        None \<Rightarrow> Some (s, None)
      | Some msg \<Rightarrow> do {
          name \<leftarrow> c_str STORY_FILE_NAME_LENGTH (pt_player_name msg);
          pos \<leftarrow> search_in_play_list_by_name p name s;
          (case pos of
             None \<Rightarrow> Some (s, None)
           | Some a \<Rightarrow> do {
               i \<leftarrow> st_items s a;
               Some (set_item a (i\<lparr>it_time := pt_time msg\<rparr>) s, Some a) }) })"

definition player_is_playing :: "player_id option \<Rightarrow> story \<Rightarrow> bool option" where
  "player_is_playing player s =
     (case player of
        None \<Rightarrow> Some False
      | Some p \<Rightarrow> map_option (\<lambda>e. e \<noteq> None) (search_in_play_list_by_state p ITEM_ST_PLAY s))"

text \<open>Setting an item to play and starting its file.\<close>

definition start_item :: "player_id \<Rightarrow> addr \<Rightarrow> string option \<Rightarrow> story \<Rightarrow> story option" where
  "start_item p a tone s = do {
     i \<leftarrow> st_items s a;
     path \<leftarrow> file_path p i s;
     Some (call [PlayStart (start_param p a path tone s)] (set_item a (i\<lparr>it_state := ITEM_ST_PLAY\<rparr>) s)) }"

definition player_play_start :: "player_id option \<Rightarrow> string option \<Rightarrow> story \<Rightarrow> story option" where
  "player_play_start player tone s = do {
     s' \<leftarrow> (case player of
             None \<Rightarrow> Some s
           | Some p \<Rightarrow> do {
               paused \<leftarrow> search_in_play_list_by_state p ITEM_ST_PAUSE s;
               (case paused of
                  Some a \<Rightarrow> do {
                    i \<leftarrow> st_items s a;
                    _ \<leftarrow> file_path p i s;
                    Some (call [PlayResume (sp_audio_type (st_player s p))]
                            (set_item a (i\<lparr>it_state := ITEM_ST_PLAY, it_time := 0\<rparr>) s)) }
                | None \<Rightarrow> do {
                    stopped \<leftarrow> search_in_play_list_by_state p ITEM_ST_STOP s;
                    (case stopped of
                       Some a \<Rightarrow> start_item p a tone s
                     | None \<Rightarrow> do {
                         r \<leftarrow> search_play_in_playmsg_file p s;
                         entry \<leftarrow> (case snd r of
                                    Some a \<Rightarrow> Some (Some a)
                                  | None \<Rightarrow> search_in_play_list_by_state p ITEM_ST_IDLE (fst r));
                         (case entry of
                            Some a \<Rightarrow> start_item p a tone (fst r)
                          | None \<Rightarrow> Some (fst r)) }) }) });
     Some (s'\<lparr>st_realtime_push_song := False\<rparr>) }"

text \<open>Changing the state of the first item in state \<open>from\<close>, if there is one.\<close>

definition move_item :: "player_id \<Rightarrow> item_state_t \<Rightarrow> item_state_t \<Rightarrow> story_call \<Rightarrow> story
    \<Rightarrow> (story \<times> bool) option" where
  "move_item p from to c s = do {
     entry \<leftarrow> search_in_play_list_by_state p from s;
     (case entry of
        None \<Rightarrow> Some (s, False)
      | Some a \<Rightarrow> do {
          i \<leftarrow> st_items s a;
          Some (call [c] (set_item a (i\<lparr>it_state := to\<rparr>) s), True) }) }"

definition player_play_pause :: "player_id option \<Rightarrow> story \<Rightarrow> story option" where
  "player_play_pause player s =
     (case player of
        None \<Rightarrow> Some s
      | Some p \<Rightarrow> map_option fst
          (move_item p ITEM_ST_PLAY ITEM_ST_PAUSE (PlayPause (sp_audio_type (st_player s p))) s))"

definition stop_player :: "player_id \<Rightarrow> item_state_t \<Rightarrow> story \<Rightarrow> story option" where
  "stop_player p to s = do {
     r \<leftarrow> move_item p ITEM_ST_PAUSE to (PlayStop (sp_audio_type (st_player s p))) s;
     if snd r then Some (fst r)
     else map_option fst (move_item p ITEM_ST_PLAY to (PlayStop (sp_audio_type (st_player s p))) s) }"

definition player_switch_stop :: "player_id option \<Rightarrow> story \<Rightarrow> story option" where
  "player_switch_stop player s =
     (case player of None \<Rightarrow> Some s | Some p \<Rightarrow> stop_player p ITEM_ST_STOP s)"

definition player_play_stop :: "player_id option \<Rightarrow> int \<Rightarrow> story \<Rightarrow> story option" where
  "player_play_stop player cb s = do {
     s1 \<leftarrow> (case player of
             None \<Rightarrow> Some s
           | Some p \<Rightarrow> stop_player p (if cb = 1 then ITEM_ST_STOP else ITEM_ST_IDLE) s);
     Some (if st_realtime_push_song s1 then s1 else call [SendDeviceStatus] s1) }"

text \<open>From the playing item to the item \<open>get\<close> gives; the same item in a list of one.\<close>

definition play_step :: "(addr list \<Rightarrow> addr option \<Rightarrow> addr option) \<Rightarrow> player_id option \<Rightarrow> story
    \<Rightarrow> story option" where
  "play_step get player s = do {
     s' \<leftarrow> (case player of
             None \<Rightarrow> Some s
           | Some p \<Rightarrow> do {
               entry \<leftarrow> search_in_play_list_by_state p ITEM_ST_PLAY s;
               (case entry of
                  None \<Rightarrow> Some s
                | Some a \<Rightarrow> do {
                    i \<leftarrow> st_items s a;
                    let s1 = set_item a (i\<lparr>it_state := ITEM_ST_IDLE, it_time := 0\<rparr>)
                               (call [PlayStop (sp_audio_type (st_player s p))] s);
                    b \<leftarrow> get (items_of p s1) (Some a);
                    j \<leftarrow> st_items s1 b;
                    start_item p b None (set_item b (j\<lparr>it_time := 0\<rparr>) s1) }) });
     Some (s'\<lparr>st_realtime_push_song := False\<rparr>) }"

definition player_play_next :: "player_id option \<Rightarrow> story \<Rightarrow> story option" where
  "player_play_next = play_step get_next_item"

definition player_play_prev :: "player_id option \<Rightarrow> story \<Rightarrow> story option" where
  "player_play_prev = play_step get_prev_item"

section \<open>Notifications\<close>

definition story_player_notify :: "story_player_cmd_node \<Rightarrow> story \<Rightarrow> story" where
  "story_player_notify node s =
     s\<lparr>st_queue := map_option (queue_send STORY_PLAYER_QUEUE_SIZE node) (st_queue s)\<rparr>"

definition command_node :: "story_player_cmd_value \<Rightarrow> story_player_cmd_node" where
  "command_node c = \<lparr>nd_cmd_value = c, nd_param = None, nd_cb_sig = 0\<rparr>"

text \<open>The press counters run 0, 1, 2, 0, ... and back.\<close>

definition count_up :: "nat \<Rightarrow> nat" where
  "count_up c = (if c > 1 then 0 else c + 1)"

definition count_down :: "nat \<Rightarrow> nat" where
  "count_down c = (if c < 1 then 2 else c - 1)"

definition current_type :: "story \<Rightarrow> AudioAppType option" where
  "current_type s = map_option (\<lambda>p. sp_audio_type (st_player s p)) (st_current s)"

text \<open>
  The counter of the application's key, when the type of the current player is (\<open>same\<close>) or is not
  the application.
\<close>

definition adjust_key_cnt :: "(nat \<Rightarrow> nat) \<Rightarrow> bool \<Rightarrow> AudioAppType \<Rightarrow> story \<Rightarrow> story option" where
  "adjust_key_cnt f same app s =
     (if app = AUDIO_APP_HABIT \<or> app = AUDIO_APP_ENGLISH then do {
        cur \<leftarrow> current_type s;
        Some (if (cur = app) \<noteq> same then s
              else if app = AUDIO_APP_HABIT
              then s\<lparr>st_habit_key_press_cnt := f (st_habit_key_press_cnt s)\<rparr>
              else s\<lparr>st_english_key_press_cnt := f (st_english_key_press_cnt s)\<rparr>) }
      else Some s)"

text \<open>
  The callback of the audio manager for the item \<open>param\<close>. An item that could not be played is taken
  out of the current list and freed.
\<close>

definition story_audio_play_cb :: "NotifyStatus \<Rightarrow> AudioAppType \<Rightarrow> addr option \<Rightarrow> story
    \<Rightarrow> story option" where
  "story_audio_play_cb ret apptype param s =
     (case ret of
        NOTIFY_STATUS_PLAY_FINISH \<Rightarrow>
          Some (story_player_notify (command_node STORY_PLAYER_CMD_PLAY_NEXT)
                  (s\<lparr>st_record_play_msg := False\<rparr>))
      | NOTIFY_STATUS_PLAY_ERROR \<Rightarrow> do {
          let s1 = s\<lparr>st_record_play_msg := False\<rparr>;
          s2 \<leftarrow> (case param of
                  None \<Rightarrow> Some s1
                | Some a \<Rightarrow> do {
                    p \<leftarrow> st_current s1;
                    let r = remove_from_play_list p a s1;
                    (case snd r of
                       None \<Rightarrow> Some (fst r)
                     | Some e \<Rightarrow> do {
                         _ \<leftarrow> st_items (fst r) e;
                         Some ((fst r)\<lparr>st_items := (st_items (fst r))(e := None)\<rparr>) }) });
          Some (story_player_notify (command_node STORY_PLAYER_CMD_PLAY_NEXT) s2) }
      | NOTIFY_STATUS_PLAY_DISTURBED \<Rightarrow>
          let s1 = s\<lparr>st_record_play_msg := False\<rparr>;
              s2 = (if apptype = AUDIO_APP_HABIT
                    then s1\<lparr>st_habit_key_press_cnt := count_down (st_habit_key_press_cnt s1)\<rparr>
                    else if apptype = AUDIO_APP_ENGLISH
                    then s1\<lparr>st_english_key_press_cnt := count_down (st_english_key_press_cnt s1)\<rparr>
                    else s1)
          in Some (story_player_notify
               \<lparr>nd_cmd_value = STORY_PLAYER_CMD_PLAY_STOP, nd_param = None, nd_cb_sig = 1\<rparr> s2)
      | NOTIFY_STATUS_PLAY_STOPPED \<Rightarrow>
          adjust_key_cnt count_down False apptype (s\<lparr>st_record_play_msg := False\<rparr>)
      | NOTIFY_STATUS_PLAY_RESTART \<Rightarrow> do {
          s2 \<leftarrow> adjust_key_cnt count_up True apptype (s\<lparr>st_record_play_msg := True\<rparr>);
          (case param of
             None \<Rightarrow> Some s2
           | Some a \<Rightarrow> do {
               i \<leftarrow> st_items s2 a;
               Some (set_item a (i\<lparr>it_state := ITEM_ST_PLAY\<rparr>) s2) }) }
      | _ \<Rightarrow> Some s)"

definition push_pending :: "story \<Rightarrow> bool" where
  "push_pending s \<longleftrightarrow> rp_songUid (st_r_push_player s) \<noteq> [] \<and> rp_albumUid (st_r_push_player s) \<noteq> []"

definition zero_push :: realtime_push_t where
  "zero_push = \<lparr>rp_albumUid = [], rp_songUid = [], rp_play_mode = 0\<rparr>"

definition request_play_online_song :: "push_command \<Rightarrow> NotifyStatus \<Rightarrow> story \<Rightarrow> story option" where
  "request_play_online_song command status s =
     (if push_pending s then do {
        song \<leftarrow> c_str 20 (rp_songUid (st_r_push_player s));
        album \<leftarrow> c_str 20 (rp_albumUid (st_r_push_player s));
        Some (call [RequestSong command song album (rp_play_mode (st_r_push_player s)) status]
                (s\<lparr>st_r_push_player := zero_push\<rparr>)) }
      else Some s)"

definition realtime_push_play_cb :: "NotifyStatus \<Rightarrow> story \<Rightarrow> story option" where
  "realtime_push_play_cb ret s =
     (if ret = NOTIFY_STATUS_PLAY_FINISH \<or> ret = NOTIFY_STATUS_PLAY_ERROR
         \<or> ret = NOTIFY_STATUS_PLAY_DISTURBED
      then request_play_online_song PUSH_NOTHING ret s else Some s)"

text \<open>Commands of the server: the data is copied and queued.\<close>

datatype server_type = S2C_STORY_REALTIME_PUSH | S2C_STORY_VOLUME_CONTROL | S2C_OTHER

definition story_player_command_cb :: "string \<Rightarrow> server_type \<Rightarrow> bool \<Rightarrow> story \<Rightarrow> story" where
  "story_player_command_cb data ty malloc_ok s =
     (if \<not> malloc_ok then s
      else (case ty of
              S2C_STORY_REALTIME_PUSH \<Rightarrow>
                story_player_notify \<lparr>nd_cmd_value = STORY_PLAYER_CMD_REALTIME_PUSH,
                  nd_param = Some data, nd_cb_sig = 0\<rparr> s
            | S2C_STORY_VOLUME_CONTROL \<Rightarrow>
                story_player_notify \<lparr>nd_cmd_value = STORY_PLAYER_CMD_PUSH_CONTROL,
                  nd_param = Some data, nd_cb_sig = 0\<rparr> s
            | S2C_OTHER \<Rightarrow> s))"

section \<open>Keys\<close>

definition send_front :: "story_player_cmd_value \<Rightarrow> story \<Rightarrow> story" where
  "send_front c s = story_player_notify (command_node c) (s\<lparr>st_front_app := APP_STORY\<rparr>)"

text \<open>\<open>disk_ok\<close>: the key log can be opened.\<close>

definition story_keyprocess :: "bool \<Rightarrow> keyevent_t \<Rightarrow> story \<Rightarrow> story \<times> keyprocess_t" where
  "story_keyprocess disk_ok event s =
     (let press = (ke_type event = KEY_EVNET_PRESS); release = (ke_type event = KEY_EVNET_RELEASE);
          s1 =
            (if ke_code event = KEY_CODE_HABIT then
               (if press then
                  send_front (if st_habit_key_press_cnt s = 0 then STORY_PLAYER_CMD_SWITCH_SONG
                              else if st_habit_key_press_cnt s = 1 then STORY_PLAYER_CMD_SWITCH_STORY
                              else STORY_PLAYER_CMD_PLAY_PAUSE)
                    (s\<lparr>st_s_key := (st_s_key s)\<lparr>ks_habit_key := st_habit_key_press_cnt s\<rparr>\<rparr>)
                else if release then s\<lparr>st_habit_key_press_cnt := count_up (st_habit_key_press_cnt s)\<rparr>
                else s)
             else if ke_code event = KEY_CODE_ENGLISH then
               (if press then
                  send_front (if st_english_key_press_cnt s = 0 then STORY_PLAYER_CMD_SWITCH_E_SONG
                              else if st_english_key_press_cnt s = 1 then STORY_PLAYER_CMD_SWITCH_ENGLISH
                              else STORY_PLAYER_CMD_PLAY_PAUSE)
                    (s\<lparr>st_s_key := (st_s_key s)\<lparr>ks_english_key := st_english_key_press_cnt s\<rparr>\<rparr>)
                else if release
                then s\<lparr>st_english_key_press_cnt := count_up (st_english_key_press_cnt s)\<rparr>
                else s)
             else if ke_code event = KEY_CODE_PLAY_NEXT then
               (if press then send_front STORY_PLAYER_CMD_PLAY_NEXT s else s)
             else if ke_code event = KEY_CODE_PLAY_PREV then
               (if press then send_front STORY_PLAYER_CMD_PLAY_PREV s else s)
             else if ke_code event = KEY_CODE_PAT \<and> st_front_app s = APP_STORY then
               story_player_notify (command_node STORY_PLAYER_CMD_PLAY_REVERT) s
             else s)
      in (if disk_ok then s1\<lparr>st_keysign := Some (st_s_key s1)\<rparr> else s1, KEY_PROCESS_PUBLIC))"

section \<open>The task\<close>

definition switch_player :: "player_id \<Rightarrow> story \<Rightarrow> story option" where
  "switch_player new s =
     (case st_current s of
        None \<Rightarrow> Some (s\<lparr>st_current := Some new\<rparr>)
      | Some old \<Rightarrow> do {
          s1 \<leftarrow> player_switch_stop (Some old) s;
          Some (s1\<lparr>st_current := Some new\<rparr>) })"

text \<open>
  \<open>check_https_to_http\<close>: the loop shifts an array by one place; the length of the string is read
  again in each round.
\<close>

definition strlen :: "string \<Rightarrow> nat" where
  "strlen a = length (takeWhile (\<lambda>c. c \<noteq> CHR 0x00) a)"

function shift_loop :: "nat \<Rightarrow> nat \<Rightarrow> string \<Rightarrow> (nat \<times> string) option" where
  "shift_loop i j a =
     (if i < strlen a then
        (if i + 1 < length a then shift_loop (i + 1) (i + 1) (a[i := a ! (i + 1)]) else None)
      else Some (j, a))"
  by pat_completeness auto
termination
  by (relation "measure (\<lambda>(i, _, a). length a - i)") auto

declare shift_loop.simps [simp del]

definition check_https_to_http :: "string \<Rightarrow> string option" where
  "check_https_to_http a =
     (if take 5 a = ''https'' then do {
        r \<leftarrow> shift_loop 4 0 a;
        if fst r = 0 then None else Some ((snd r)[fst r - 1 := CHR 0x00]) }
      else Some a)"

definition terminated :: "string \<Rightarrow> string" where
  "terminated a = takeWhile (\<lambda>c. c \<noteq> CHR 0x00) a"

definition set_push :: "(realtime_push_t \<Rightarrow> realtime_push_t) \<Rightarrow> story \<Rightarrow> story" where
  "set_push f s = s\<lparr>st_r_push_player := f (st_r_push_player s)\<rparr>"

definition push_url :: "string \<Rightarrow> bool \<Rightarrow> story \<Rightarrow> story option" where
  "push_url value malloc_ok s =
     (if malloc_ok then do {
        url \<leftarrow> check_https_to_http (value @ [CHR 0x00]);
        Some (call [PlayStop AUDIO_APP_REALTIME_PUSH,
                PlayStart \<lparr>pp_play_app_type = AUDIO_APP_REALTIME_PUSH, pp_is_local_file = False,
                  pp_uri = Some (terminated url), pp_tone = None,
                  pp_cb = Some REALTIME_PUSH_PLAY_CB, pp_cb_param = None\<rparr>]
                (s\<lparr>st_realtime_push_song := True\<rparr>)) }
      else Some s)"

definition play_realtime_push :: "'j cjson \<Rightarrow> string \<Rightarrow> bool \<Rightarrow> story \<Rightarrow> story option" where
  "play_realtime_push j data malloc_ok s =
     (case Option.bind (cJSON_Parse j data) (\<lambda>t. cJSON_GetObjectItem j t ''data'') of
        None \<Rightarrow> Some s
      | Some d \<Rightarrow>
          let s1 = set_push (\<lambda>r. r\<lparr>rp_songUid := []\<rparr>) s in
         (case cJSON_GetObjectItem j d ''songUid'' of
            None \<Rightarrow> Some s1
          | Some song_item \<Rightarrow> do {
              song \<leftarrow> cj_valuestring j song_item;
              let s2 = set_push (\<lambda>r. r\<lparr>rp_songUid := take 20 song\<rparr>) s1;
              (case cJSON_GetObjectItem j d ''albumUid'' of
                 None \<Rightarrow> Some s2
               | Some album_item \<Rightarrow> do {
                   album \<leftarrow> cj_valuestring j album_item;
                   let mode = (case cJSON_GetObjectItem j d ''mode'' of
                                 None \<Rightarrow> 2
                               | Some m \<Rightarrow> nat (cj_valueint j m mod 256));
                   let s3 = set_push (\<lambda>r. r\<lparr>rp_albumUid := take 20 album, rp_play_mode := mode\<rparr>) s2;
                   (case cJSON_GetObjectItem j d ''play_url'' of
                      None \<Rightarrow> Some (s3\<lparr>st_r_push_player := zero_push\<rparr>)
                    | Some u \<Rightarrow> do { value \<leftarrow> cj_valuestring j u; push_url value malloc_ok s3 }) }) }))"

definition push_control_cmd :: "'j cjson \<Rightarrow> string \<Rightarrow> story \<Rightarrow> story" where
  "push_control_cmd j data s =
     (case Option.bind (cJSON_Parse j data) (\<lambda>t. cJSON_GetObjectItem j t ''data'') of
        None \<Rightarrow> s
      | Some d \<Rightarrow>
         (case cJSON_GetObjectItem j d ''command'' of
            None \<Rightarrow> s
          | Some item \<Rightarrow>
              let cmd = cj_valueint j item in
              if cmd = 0 then call [VolumeDown] s
              else if cmd = 1 then call [VolumeUp] s
              else if cmd = 2 then call [PlayPause AUDIO_APP_REALTIME_PUSH] s
              else if cmd = 3 then call [PlayResume AUDIO_APP_REALTIME_PUSH] s
              else if cmd = 4 then
                (case cJSON_GetObjectItem j d ''mode'' of
                   None \<Rightarrow> s
                 | Some m \<Rightarrow> set_push (\<lambda>r. r\<lparr>rp_play_mode := nat (cj_valueint j m mod 256)\<rparr>) s)
              else s))"

definition switch_and_start :: "player_id \<Rightarrow> string \<Rightarrow> story \<Rightarrow> story option" where
  "switch_and_start p tone s = do {
     s1 \<leftarrow> (if st_current s \<noteq> Some p then switch_player p s else Some s);
     player_play_start (st_current s1) (Some tone) s1 }"

definition NOTIFY_AUDIO_ENGLISH :: string where "NOTIFY_AUDIO_ENGLISH = ''/sdcard/notify/e_story.mp3''"
definition NOTIFY_AUDIO_HABIT :: string where "NOTIFY_AUDIO_HABIT = ''/sdcard/notify/story.mp3''"
definition NOTIFY_AUDIO_ENGLISH_SONG :: string where
  "NOTIFY_AUDIO_ENGLISH_SONG = ''/sdcard/notify/e_song.mp3''"
definition NOTIFY_AUDIO_HABIT_SONG :: string where
  "NOTIFY_AUDIO_HABIT_SONG = ''/sdcard/notify/song.mp3''"
definition NOTIFY_AUDIO_STORY_PAUSE :: string where
  "NOTIFY_AUDIO_STORY_PAUSE = ''/sdcard/notify/play_pause.mp3''"

definition story_player_task :: "'j cjson \<Rightarrow> bool \<Rightarrow> story_player_cmd_node \<Rightarrow> story
    \<Rightarrow> story option" where
  "story_player_task j malloc_ok node s =
     (case nd_cmd_value node of
        STORY_PLAYER_CMD_REALTIME_PUSH \<Rightarrow> do {
          data \<leftarrow> nd_param node; play_realtime_push j data malloc_ok s }
      | STORY_PLAYER_CMD_SWITCH_STORY \<Rightarrow> switch_and_start g_story_player NOTIFY_AUDIO_HABIT s
      | STORY_PLAYER_CMD_SWITCH_ENGLISH \<Rightarrow>
          switch_and_start g_english_player NOTIFY_AUDIO_ENGLISH s
      | STORY_PLAYER_CMD_SWITCH_E_SONG \<Rightarrow>
          switch_and_start g_english_song_player NOTIFY_AUDIO_ENGLISH_SONG s
      | STORY_PLAYER_CMD_SWITCH_SONG \<Rightarrow>
          switch_and_start g_story_song_player NOTIFY_AUDIO_HABIT_SONG s
      | STORY_PLAYER_CMD_PLAY_PAUSE \<Rightarrow> do {
          s1 \<leftarrow> player_play_stop (st_current s) 1 s;
          Some (call [PlayToneSync NOTIFY_AUDIO_STORY_PAUSE] s1) }
      | STORY_PLAYER_CMD_PLAY_STOP \<Rightarrow> player_play_stop (st_current s) (nd_cb_sig node) s
      | STORY_PLAYER_CMD_PLAY_PREV \<Rightarrow>
          if push_pending s then request_play_online_song PUSH_PREV NOTIFY_STATUS_PLAY_DISTURBED s
          else player_play_prev (st_current s) s
      | STORY_PLAYER_CMD_PLAY_NEXT \<Rightarrow>
          if push_pending s then request_play_online_song PUSH_NEXT NOTIFY_STATUS_PLAY_DISTURBED s
          else player_play_next (st_current s) s
      | STORY_PLAYER_CMD_PUSH_CONTROL \<Rightarrow> do {
          data \<leftarrow> nd_param node; Some (push_control_cmd j data s) }
      | STORY_PLAYER_CMD_PLAY_REVERT \<Rightarrow> do {
          playing \<leftarrow> player_is_playing (st_current s) s;
          if playing then player_play_pause (st_current s) s
          else player_play_start (st_current s) None s }
      | _ \<Rightarrow> Some s)"

section \<open>Recording the position\<close>

definition save_playlog_to_file :: "bool \<Rightarrow> player_name_time_t \<Rightarrow> story \<Rightarrow> story" where
  "save_playlog_to_file disk_ok msg s =
     (case st_current s of
        None \<Rightarrow> s
      | Some p \<Rightarrow> if disk_ok then s\<lparr>st_playlog := (st_playlog s)(p \<mapsto> msg)\<rparr> else s)"

definition notification_record_play_time :: "player_record_cmd \<Rightarrow> story \<Rightarrow> story" where
  "notification_record_play_time cmd s =
     (case st_record_queue s of
        None \<Rightarrow> s
      | Some q \<Rightarrow> s\<lparr>st_record_play_msg := True,
                    st_record_queue := Some (queue_send STORY_PLAYER_QUEUE_SIZE cmd q)\<rparr>)"

definition play_record_tick :: "story \<Rightarrow> story" where
  "play_record_tick s =
     (case st_record_queue s of
        None \<Rightarrow> s
      | Some q \<Rightarrow> if st_record_play_msg s
                  then s\<lparr>st_record_queue := Some (queue_send STORY_PLAYER_QUEUE_SIZE PR_PLAY q)\<rparr>
                  else s)"

text \<open>\<open>pos\<close> is what \<open>getPosByTime\<close> gives.\<close>

definition player_record_task :: "nat \<Rightarrow> bool \<Rightarrow> player_record_cmd \<Rightarrow> story \<Rightarrow> story option" where
  "player_record_task pos disk_ok node s =
     (case node of
        PR_STOP service \<Rightarrow> Some (if service then s\<lparr>st_audio_service := True\<rparr> else s)
      | PR_PLAY \<Rightarrow> do {
          p \<leftarrow> st_current s;
          entry \<leftarrow> search_in_play_list_by_state p ITEM_ST_PLAY s;
          (case entry of
             None \<Rightarrow> Some s
           | Some a \<Rightarrow> do {
               i \<leftarrow> st_items s a;
               let time = (if st_audio_service s then pos else 0);
               name \<leftarrow> c_str STORY_FILE_NAME_LENGTH (it_file_name i);
               Some (save_playlog_to_file disk_ok \<lparr>pt_time = time, pt_player_name = name\<rparr>
                       (set_item a (i\<lparr>it_time := time\<rparr>) s)) }) }
      | PR_UNDEFINE \<Rightarrow> Some s)"

definition key_number_init :: "story \<Rightarrow> story" where
  "key_number_init s =
     (case st_keysign s of
        None \<Rightarrow> s
      | Some k \<Rightarrow>
          s\<lparr>st_habit_key_press_cnt := (if ks_habit_key k = 2 then 0 else ks_habit_key k),
            st_english_key_press_cnt := (if ks_english_key k = 2 then 0 else ks_english_key k)\<rparr>)"

datatype local_status = PR_STATUS_STOP | PR_STATUS_PLAY

text \<open>The name and status of what was last played; no item leaves the caller's buffers as they are.\<close>

definition get_play_status :: "story \<Rightarrow> ((string \<times> local_status) option) option" where
  "get_play_status s = do {
     p \<leftarrow> st_current s;
     play \<leftarrow> search_in_play_list_by_state p ITEM_ST_PLAY s;
     (case play of
        Some a \<Rightarrow> do { i \<leftarrow> st_items s a; Some (Some (it_file_name i, PR_STATUS_PLAY)) }
      | None \<Rightarrow> do {
          stop \<leftarrow> search_in_play_list_by_state p ITEM_ST_STOP s;
          (case stop of
             Some a \<Rightarrow> do { i \<leftarrow> st_items s a; Some (Some (it_file_name i, PR_STATUS_STOP)) }
           | None \<Rightarrow> do {
               pause \<leftarrow> search_in_play_list_by_state p ITEM_ST_PAUSE s;
               (case pause of
                  Some a \<Rightarrow> do { i \<leftarrow> st_items s a; Some (Some (it_file_name i, PR_STATUS_STOP)) }
                | None \<Rightarrow> Some None) }) }) }"

section \<open>Start and end\<close>

definition STORY_FILE_PREFIX :: string where "STORY_FILE_PREFIX = ''token_''"

definition is_token :: "string \<Rightarrow> bool" where
  "is_token name \<longleftrightarrow> take 6 name = STORY_FILE_PREFIX"

text \<open>
  \<open>check_file_in_dir\<close>: files without a token file are deleted. \<open>pair\<close> is not initialised before the
  first file, so its first value is a parameter. \<open>reopen_ok\<close>: the inner \<open>opendir\<close> succeeds. The
  result is what is left.
\<close>

fun check_files :: "(string \<Rightarrow> bool) \<Rightarrow> string list \<Rightarrow> bool \<Rightarrow> string list \<Rightarrow> string list option" where
  "check_files reopen_ok dir pair [] = Some []"
| "check_files reopen_ok dir pair (d # ds) =
     (if is_token d then map_option (\<lambda>r. d # r) (check_files reopen_ok dir False ds)
      else if 64 \<le> length d + 6 then None
      else
        let token_name = STORY_FILE_PREFIX @ d;
            pair' = (pair \<or> reopen_ok d \<and>
                     (\<exists>t\<in>set dir. is_token t \<and> take (length token_name) t = token_name))
        in map_option (\<lambda>r. if pair' then d # r else r) (check_files reopen_ok dir False ds))"

definition check_file_in_dir :: "(string \<Rightarrow> bool) \<Rightarrow> bool \<Rightarrow> string list \<Rightarrow> string list option" where
  "check_file_in_dir reopen_ok pair dir = check_files reopen_ok dir pair dir"

text \<open>The play list is built from the directory; \<open>alloc\<close> gives the memory for a file's item.\<close>

fun load_items :: "player_id \<Rightarrow> (string \<Rightarrow> addr option) \<Rightarrow> string list \<Rightarrow> story \<Rightarrow> story" where
  "load_items p alloc [] s = s"
| "load_items p alloc (d # ds) s =
     load_items p alloc ds
       (if is_token d then s
        else (case alloc d of
                None \<Rightarrow> s
              | Some a \<Rightarrow> insert_in_play_list p a
                  (set_item a \<lparr>it_state = ITEM_ST_IDLE, it_file_name = take STORY_FILE_NAME_LENGTH d,
                               it_time = 0\<rparr> s)))"

definition player_init :: "player_id \<Rightarrow> AudioAppType \<Rightarrow> string \<Rightarrow> (string \<Rightarrow> bool) \<Rightarrow> bool
    \<Rightarrow> string list \<Rightarrow> (string \<Rightarrow> addr option) \<Rightarrow> story \<Rightarrow> story option" where
  "player_init p ty folder reopen_ok pair dir alloc s = do {
     names \<leftarrow> check_file_in_dir reopen_ok pair dir;
     Some (load_items p alloc names
       (s\<lparr>st_player := (st_player s)
           (p := \<lparr>sp_audio_type = ty, sp_folder_path = folder, sp_list = []\<rparr>)\<rparr>)) }"

fun free_items :: "addr list \<Rightarrow> (addr \<rightharpoonup> item_entry_t) \<Rightarrow> (addr \<rightharpoonup> item_entry_t) option" where
  "free_items [] m = Some m"
| "free_items (a # as) m = (case m a of None \<Rightarrow> None | Some _ \<Rightarrow> free_items as (m(a := None)))"

definition player_uninit :: "player_id \<Rightarrow> story \<Rightarrow> story option" where
  "player_uninit p s = do {
     m \<leftarrow> free_items (items_of p s) (st_items s);
     Some (s\<lparr>st_items := m, st_player := (st_player s)(p := (st_player s p)\<lparr>sp_list := []\<rparr>)\<rparr>) }"

definition story_player_uninit :: "story \<Rightarrow> story option" where
  "story_player_uninit s = do {
     s1 \<leftarrow> player_uninit g_english_player
            (story_player_notify (command_node STORY_PLAYER_CMD_UNDEFINE) s);
     s2 \<leftarrow> player_uninit g_story_player s1;
     Some (s2\<lparr>st_queue := None\<rparr>) }"

definition story_zero :: "(player_id \<Rightarrow> player_name_time_t option) \<Rightarrow> key_sign_t option \<Rightarrow> story" where
  "story_zero playlog keysign =
     \<lparr>st_player = (\<lambda>_. \<lparr>sp_audio_type = AUDIO_APP_UNDEFINED, sp_folder_path = [], sp_list = []\<rparr>),
      st_items = Map.empty, st_current = None, st_realtime_push_song = False,
      st_habit_key_press_cnt = 0, st_english_key_press_cnt = 0, st_r_push_player = zero_push,
      st_record_play_msg = False, st_s_key = \<lparr>ks_habit_key = 0, ks_english_key = 0\<rparr>,
      st_playlog = playlog, st_keysign = keysign, st_queue = None, st_front_app = APP_UNDEFINE,
      st_record_queue = None, st_audio_service = False, st_calls = []\<rparr>"

text \<open>What the directories hold, and what the allocations of each player's items give.\<close>

record story_disk =
  sd_dir :: "player_id \<Rightarrow> string list"
  sd_reopen_ok :: "string \<Rightarrow> bool"
  sd_pair :: "player_id \<Rightarrow> bool"
  sd_alloc :: "player_id \<Rightarrow> string \<Rightarrow> addr option"

definition init_one :: "story_disk \<Rightarrow> player_id \<Rightarrow> AudioAppType \<Rightarrow> string \<Rightarrow> story \<Rightarrow> story option" where
  "init_one d p ty folder s =
     player_init p ty folder (sd_reopen_ok d) (sd_pair d p) (sd_dir d p) (sd_alloc d p) s"

text \<open>The successful start.\<close>

definition story_player_init :: "story_disk \<Rightarrow> story \<Rightarrow> story option" where
  "story_player_init d s = do {
     s1 \<leftarrow> init_one d g_story_player AUDIO_APP_HABIT ''/sdcard/story'' (s\<lparr>st_queue := Some []\<rparr>);
     s2 \<leftarrow> init_one d g_english_player AUDIO_APP_ENGLISH ''/sdcard/e_story'' s1;
     s3 \<leftarrow> init_one d g_story_song_player AUDIO_APP_HABIT ''/sdcard/song'' s2;
     s4 \<leftarrow> init_one d g_english_song_player AUDIO_APP_ENGLISH ''/sdcard/e_song'' s3;
     Some (key_number_init (s4\<lparr>st_current := Some g_story_player, st_record_play_msg := False,
                               st_record_queue := Some []\<rparr>)) }"

end
