(* ===== verification/StoryPlayer_Inv.thy ===== *)
theory StoryPlayer_Inv
  imports StoryPlayer
begin

text \<open>
  The story player as one machine: its tasks, callbacks and timer are the inputs \<open>story_input\<close>, and
  \<open>story_inv\<close> is the invariant every one of them keeps: the four play lists have no item twice and no
  item in common, all their items are live, file names and identifiers are terminated within their
  arrays, and every queued command carries the data its handler reads.
\<close>

section \<open>All that happens to the story player\<close>

datatype story_input =
    Audio NotifyStatus AudioAppType "addr option"
  | PushAudio NotifyStatus
  | Server string server_type bool
  | Key bool keyevent_t
  | Task bool
  | Tick
  | RecordNotify player_record_cmd
  | RecordTask nat bool

definition story_step :: "'j cjson \<Rightarrow> story_input \<Rightarrow> story \<Rightarrow> story option" where
  "story_step j i s =
     (case i of
        Audio ret app param \<Rightarrow> story_audio_play_cb ret app param s
      | PushAudio ret \<Rightarrow> realtime_push_play_cb ret s
      | Server data ty ok \<Rightarrow> Some (story_player_command_cb data ty ok s)
      | Key ok ev \<Rightarrow> Some (fst (story_keyprocess ok ev s))
      | Task ok \<Rightarrow>
          (case st_queue s of
             Some (n # q) \<Rightarrow> story_player_task j ok n (s\<lparr>st_queue := Some q\<rparr>)
           | _ \<Rightarrow> Some s)
      | Tick \<Rightarrow> Some (play_record_tick s)
      | RecordNotify c \<Rightarrow> Some (notification_record_play_time c s)
      | RecordTask pos ok \<Rightarrow>
          (case st_record_queue s of
             Some (c # q) \<Rightarrow> player_record_task pos ok c (s\<lparr>st_record_queue := Some q\<rparr>)
           | _ \<Rightarrow> Some s))"

text \<open>A push message whose members, where present, are strings that fit.\<close>

definition member_ok :: "'j cjson \<Rightarrow> 'j \<Rightarrow> string \<Rightarrow> nat \<Rightarrow> bool" where
  "member_ok j d name n \<longleftrightarrow>
     (case cJSON_GetObjectItem j d name of
        None \<Rightarrow> True
      | Some m \<Rightarrow> (case cj_valuestring j m of None \<Rightarrow> False | Some v \<Rightarrow> length v < n \<and> CHR 0x00 \<notin> set v))"

definition push_ok :: "'j cjson \<Rightarrow> string \<Rightarrow> bool" where
  "push_ok j data \<longleftrightarrow>
     (case Option.bind (cJSON_Parse j data) (\<lambda>t. cJSON_GetObjectItem j t ''data'') of
        None \<Rightarrow> True
      | Some d \<Rightarrow> member_ok j d ''songUid'' 20 \<and> member_ok j d ''albumUid'' 20 \<and>
          member_ok j d ''play_url'' (2 ^ 31))"

definition story_input_ok :: "'j cjson \<Rightarrow> story_input \<Rightarrow> story \<Rightarrow> bool" where
  "story_input_ok j i s \<longleftrightarrow>
     (case i of
        Audio NOTIFY_STATUS_PLAY_RESTART app (Some a) \<Rightarrow> a \<in> dom (st_items s)
      | Server data ty ok \<Rightarrow> push_ok j data
      | _ \<Rightarrow> True)"

section \<open>The invariant\<close>

definition lists_ok :: "story \<Rightarrow> bool" where
  "lists_ok s \<longleftrightarrow>
     (\<forall>p. distinct (items_of p s) \<and> set (items_of p s) \<subseteq> dom (st_items s)) \<and>
     (\<forall>p q. p \<noteq> q \<longrightarrow> set (items_of p s) \<inter> set (items_of q s) = {})"

definition names_ok :: "story \<Rightarrow> bool" where
  "names_ok s \<longleftrightarrow>
     (\<forall>a i. st_items s a = Some i \<longrightarrow> length (it_file_name i) < STORY_FILE_NAME_LENGTH) \<and>
     (\<forall>p. length (sp_folder_path (st_player s p)) < FOLDER_PATH_LENGTH) \<and>
     (\<forall>p m. st_playlog s p = Some m \<longrightarrow> length (pt_player_name m) < STORY_FILE_NAME_LENGTH)"

definition push_names_ok :: "story \<Rightarrow> bool" where
  "push_names_ok s \<longleftrightarrow> length (rp_songUid (st_r_push_player s)) < 20 \<and>
     length (rp_albumUid (st_r_push_player s)) < 20"

definition node_ok :: "'j cjson \<Rightarrow> story_player_cmd_node \<Rightarrow> bool" where
  "node_ok j n \<longleftrightarrow>
     (nd_cmd_value n \<in> {STORY_PLAYER_CMD_REALTIME_PUSH, STORY_PLAYER_CMD_PUSH_CONTROL} \<longrightarrow>
        (\<exists>d. nd_param n = Some d \<and> push_ok j d))"

definition counters_ok :: "story \<Rightarrow> bool" where
  "counters_ok s \<longleftrightarrow> st_habit_key_press_cnt s \<le> 2 \<and> st_english_key_press_cnt s \<le> 2"

definition story_inv :: "'j cjson \<Rightarrow> story \<Rightarrow> bool" where
  "story_inv j s \<longleftrightarrow> lists_ok s \<and> names_ok s \<and> push_names_ok s \<and> counters_ok s \<and>
     st_current s \<noteq> None \<and> (\<forall>q. st_queue s = Some q \<longrightarrow> (\<forall>n\<in>set q. node_ok j n))"

lemmas story_inv_defs = story_inv_def lists_ok_def names_ok_def push_names_ok_def counters_ok_def
  items_of_def

lemma inv_call [simp]: "story_inv j (call cs s) = story_inv j s"
  by (simp add: story_inv_defs call_def)

lemma call_fields [simp]:
  "st_items (call cs s) = st_items s" "st_player (call cs s) = st_player s"
  "st_current (call cs s) = st_current s" "items_of p (call cs s) = items_of p s"
  "st_calls (call cs s) = st_calls s @ cs" "st_playlog (call cs s) = st_playlog s"
  "st_r_push_player (call cs s) = st_r_push_player s"
  "st_habit_key_press_cnt (call cs s) = st_habit_key_press_cnt s"
  "st_english_key_press_cnt (call cs s) = st_english_key_press_cnt s"
  "st_queue (call cs s) = st_queue s" "st_realtime_push_song (call cs s) = st_realtime_push_song s"
  by (simp_all add: call_def items_of_def)

lemma set_item_fields [simp]:
  "st_items (set_item a i s) = (st_items s)(a \<mapsto> i)" "st_player (set_item a i s) = st_player s"
  "st_current (set_item a i s) = st_current s" "items_of p (set_item a i s) = items_of p s"
  "st_calls (set_item a i s) = st_calls s" "st_playlog (set_item a i s) = st_playlog s"
  "st_r_push_player (set_item a i s) = st_r_push_player s"
  "st_habit_key_press_cnt (set_item a i s) = st_habit_key_press_cnt s"
  "st_english_key_press_cnt (set_item a i s) = st_english_key_press_cnt s"
  "st_queue (set_item a i s) = st_queue s" "st_realtime_push_song (set_item a i s) = st_realtime_push_song s"
  by (simp_all add: set_item_def items_of_def)

lemma inv_flags [simp]:
  "story_inv j (s\<lparr>st_realtime_push_song := b\<rparr>) = story_inv j s"
  "story_inv j (s\<lparr>st_record_play_msg := b\<rparr>) = story_inv j s"
  "story_inv j (s\<lparr>st_s_key := k\<rparr>) = story_inv j s"
  "story_inv j (s\<lparr>st_keysign := ks\<rparr>) = story_inv j s"
  "story_inv j (s\<lparr>st_front_app := app\<rparr>) = story_inv j s"
  "story_inv j (s\<lparr>st_record_queue := rq\<rparr>) = story_inv j s"
  "story_inv j (s\<lparr>st_audio_service := b\<rparr>) = story_inv j s"
  by (simp_all add: story_inv_defs)

lemma inv_set_item:
  "story_inv j s \<Longrightarrow> st_items s a = Some i \<Longrightarrow> it_file_name i' = it_file_name i
    \<Longrightarrow> story_inv j (set_item a i' s)"
  by (auto simp: story_inv_defs)

lemma inv_set_player: "story_inv j s \<Longrightarrow> story_inv j (s\<lparr>st_current := Some p\<rparr>)"
  by (simp add: story_inv_defs)

lemma inv_live: "story_inv j s \<Longrightarrow> a \<in> set (items_of p s) \<Longrightarrow> \<exists>i. st_items s a = Some i"
  by (auto simp: story_inv_def lists_ok_def)

lemma inv_notify:
  "story_inv j s \<Longrightarrow> node_ok j n \<Longrightarrow> story_inv j (story_player_notify n s)"
  by (cases "st_queue s") (auto simp: story_player_notify_def story_inv_defs queue_send_def)

lemma command_node_ok [simp]:
  "c \<notin> {STORY_PLAYER_CMD_REALTIME_PUSH, STORY_PLAYER_CMD_PUSH_CONTROL} \<Longrightarrow> node_ok j (command_node c)"
  by (simp add: node_ok_def command_node_def)

section \<open>Every operation keeps it\<close>

lemma search_state_total:
  assumes "story_inv j s"
  shows "\<exists>r. search_in_play_list_by_state p st s = Some r \<and>
    (case r of None \<Rightarrow> \<forall>a\<in>set (items_of p s). it_state (the (st_items s a)) \<noteq> st
     | Some a \<Rightarrow> a \<in> set (items_of p s) \<and> (\<exists>i. st_items s a = Some i \<and> it_state i = st))"
proof -
  have "set (items_of p s) \<subseteq> dom (st_items s)" using assms by (simp add: story_inv_def lists_ok_def)
  from find_node_total [OF this, of "\<lambda>i. it_state i = st"] obtain r
    where r: "find_node (\<lambda>i. it_state i = st) (st_items s) (items_of p s) = Some r"
      "case r of None \<Rightarrow> \<forall>a\<in>set (items_of p s). it_state (the (st_items s a)) \<noteq> st
       | Some a \<Rightarrow> a \<in> set (items_of p s) \<and> it_state (the (st_items s a)) = st" by blast
  show ?thesis
  proof (cases r)
    case None
    with r show ?thesis by (simp add: search_in_play_list_by_state_def)
  next
    case (Some a)
    with r inv_live [OF assms, of a p] show ?thesis
      by (auto simp: search_in_play_list_by_state_def)
  qed
qed

lemma search_name_total:
  assumes "story_inv j s"
  shows "\<exists>r. search_in_play_list_by_name p name s = Some r \<and> set_option r \<subseteq> set (items_of p s)"
proof -
  have "set (items_of p s) \<subseteq> dom (st_items s)" using assms by (simp add: story_inv_def lists_ok_def)
  from find_node_total [OF this, of "\<lambda>i. name_matches name (it_file_name i)"] show ?thesis
    unfolding search_in_play_list_by_name_def by (auto split: option.splits)
qed

lemma file_path_total:
  assumes "story_inv j s" "st_items s a = Some i"
  shows "file_path p i s = Some (sp_folder_path (st_player s p) @ ''/'' @ it_file_name i)"
proof -
  have "length (sp_folder_path (st_player s p)) < FOLDER_PATH_LENGTH"
    "length (it_file_name i) < STORY_FILE_NAME_LENGTH"
    using assms by (auto simp: story_inv_def names_ok_def)
  then show ?thesis by (simp add: file_path_def c_str_def)
qed

text \<open>What an operation of a player keeps.\<close>

definition keeps :: "'j cjson \<Rightarrow> story \<Rightarrow> story \<Rightarrow> bool" where
  "keeps j s s' \<longleftrightarrow> story_inv j s' \<and> st_player s' = st_player s \<and> dom (st_items s') = dom (st_items s) \<and>
     st_current s' = st_current s \<and> st_queue s' = st_queue s"

lemma keeps_refl: "story_inv j s \<Longrightarrow> keeps j s s"
  by (simp add: keeps_def)

lemma keeps_trans: "keeps j s s1 \<Longrightarrow> keeps j s1 s2 \<Longrightarrow> keeps j s s2"
  by (simp add: keeps_def)

lemma keeps_inv: "keeps j s s' \<Longrightarrow> story_inv j s'"
  by (simp add: keeps_def)

lemma keeps_call [simp]: "keeps j s (call cs s') = keeps j s s'"
  by (simp add: keeps_def)

lemma keeps_set_item:
  "story_inv j s \<Longrightarrow> st_items s a = Some i \<Longrightarrow> it_file_name i' = it_file_name i
    \<Longrightarrow> keeps j s (set_item a i' s)"
  by (auto simp: keeps_def inv_set_item)

lemma start_item_total:
  assumes "story_inv j s" "a \<in> set (items_of p s)"
  shows "\<exists>s'. start_item p a tone s = Some s' \<and> keeps j s s'"
proof -
  obtain i where i: "st_items s a = Some i" using inv_live [OF assms] by blast
  with file_path_total [OF assms(1) i] keeps_set_item [OF assms(1) i] show ?thesis
    by (simp add: start_item_def)
qed

lemma playmsg_total:
  assumes inv: "story_inv j s"
  shows "\<exists>s' r. search_play_in_playmsg_file p s = Some (s', r) \<and> keeps j s s' \<and>
    set_option r \<subseteq> set (items_of p s)"
proof (cases "Option.bind (st_current s) (st_playlog s)")
  case None
  with keeps_refl [OF inv] show ?thesis by (simp add: search_play_in_playmsg_file_def)
next
  case (Some msg)
  then obtain q where "st_playlog s q = Some msg" by (cases "st_current s") auto
  then have len: "length (pt_player_name msg) < STORY_FILE_NAME_LENGTH"
    using inv by (auto simp: story_inv_def names_ok_def)
  obtain r where r: "search_in_play_list_by_name p (pt_player_name msg) s = Some r"
    "set_option r \<subseteq> set (items_of p s)" using search_name_total [OF inv] by blast
  show ?thesis
  proof (cases r)
    case None
    with Some len r keeps_refl [OF inv] show ?thesis
      by (simp add: search_play_in_playmsg_file_def c_str_def)
  next
    case (Some a)
    then obtain i where i: "st_items s a = Some i" using inv_live [OF inv] r by auto
    have "keeps j s (set_item a (i\<lparr>it_time := pt_time msg\<rparr>) s)"
      by (rule keeps_set_item [OF inv i]) simp
    with Some \<open>Option.bind _ _ = Some msg\<close> len r i show ?thesis
      by (simp add: search_play_in_playmsg_file_def c_str_def)
  qed
qed


lemma keeps_realtime [simp]: "keeps j s (s'\<lparr>st_realtime_push_song := b\<rparr>) = keeps j s s'"
  by (simp add: keeps_def)

lemma play_start_total:
  assumes inv: "story_inv j s"
  shows "\<exists>s'. player_play_start player tone s = Some s' \<and> keeps j s s'"
proof (cases player)
  case None
  with keeps_refl [OF inv] show ?thesis by (simp add: player_play_start_def)
next
  case (Some p)
  obtain r1 where r1: "search_in_play_list_by_state p ITEM_ST_PAUSE s = Some r1"
    "set_option r1 \<subseteq> set (items_of p s)"
    using search_state_total [OF inv, of p ITEM_ST_PAUSE] by (auto split: option.splits)
  obtain r2 where r2: "search_in_play_list_by_state p ITEM_ST_STOP s = Some r2"
    "set_option r2 \<subseteq> set (items_of p s)"
    using search_state_total [OF inv, of p ITEM_ST_STOP] by (auto split: option.splits)
  obtain s1 r3 where r3: "search_play_in_playmsg_file p s = Some (s1, r3)" "keeps j s s1"
    "set_option r3 \<subseteq> set (items_of p s)" using playmsg_total [OF inv] by blast
  have inv1: "story_inv j s1" by (rule keeps_inv [OF r3(2)])
  have items1: "items_of p s1 = items_of p s" using r3(2) by (simp add: keeps_def items_of_def)
  obtain r4 where r4: "(case r3 of Some a \<Rightarrow> Some (Some a)
      | None \<Rightarrow> search_in_play_list_by_state p ITEM_ST_IDLE s1) = Some r4" "set_option r4 \<subseteq> set (items_of p s1)"
    using search_state_total [OF inv1, of p ITEM_ST_IDLE] r3(3) items1
    by (cases r3) (auto split: option.splits)
  show ?thesis
  proof (cases r1)
    case (Some a)
    then obtain i where i: "st_items s a = Some i" using inv_live [OF inv] r1 by auto
    with Some \<open>player = Some p\<close> r1 file_path_total [OF inv i] keeps_set_item [OF inv i] show ?thesis
      by (simp add: player_play_start_def)
  next
    case r1n: None
    show ?thesis
    proof (cases r2)
      case (Some a)
      with start_item_total [OF inv, of a p tone] r2 r1 r1n \<open>player = Some p\<close> show ?thesis
        by (auto simp: player_play_start_def)
    next
      case r2n: None
      show ?thesis
      proof (cases r4)
        case None
        with r1 r1n r2 r2n r3 r4 \<open>player = Some p\<close> show ?thesis
          by (cases r3) (auto simp: player_play_start_def)
      next
        case (Some a)
        with start_item_total [OF inv1, of a p tone] r4 obtain s' where
          "start_item p a tone s1 = Some s'" "keeps j s1 s'" by auto
        with Some r1 r1n r2 r2n r3 r4 \<open>player = Some p\<close> keeps_trans [OF r3(2)] show ?thesis
          by (cases r3) (auto simp: player_play_start_def)
      qed
    qed
  qed
qed

lemma move_item_total:
  assumes inv: "story_inv j s"
  shows "\<exists>r. move_item p from to c s = Some r \<and> keeps j s (fst r) \<and>
    (\<not> snd r \<longrightarrow> fst r = s)"
proof -
  obtain r where r: "search_in_play_list_by_state p from s = Some r"
    "set_option r \<subseteq> set (items_of p s)"
    using search_state_total [OF inv, of p "from"] by (auto split: option.splits)
  show ?thesis
  proof (cases r)
    case None
    with r keeps_refl [OF inv] show ?thesis by (simp add: move_item_def)
  next
    case (Some a)
    then obtain i where i: "st_items s a = Some i" using inv_live [OF inv] r by auto
    with Some r keeps_set_item [OF inv i] show ?thesis by (simp add: move_item_def)
  qed
qed

lemma play_pause_total:
  assumes inv: "story_inv j s"
  shows "\<exists>s'. player_play_pause player s = Some s' \<and> keeps j s s'"
  using move_item_total [OF inv] keeps_refl [OF inv]
  by (fastforce simp: player_play_pause_def split: option.splits)

lemma stop_player_total:
  assumes inv: "story_inv j s"
  shows "\<exists>s'. stop_player p to s = Some s' \<and> keeps j s s'"
proof -
  let ?c = "PlayStop (sp_audio_type (st_player s p))"
  obtain r where r: "move_item p ITEM_ST_PAUSE to ?c s = Some r" "keeps j s (fst r)"
    "\<not> snd r \<longrightarrow> fst r = s" using move_item_total [OF inv] by blast
  obtain r' where r': "move_item p ITEM_ST_PLAY to ?c s = Some r'" "keeps j s (fst r')"
    using move_item_total [OF inv] by blast
  from r r' show ?thesis by (simp add: stop_player_def)
qed

lemma switch_stop_total:
  assumes inv: "story_inv j s"
  shows "\<exists>s'. player_switch_stop player s = Some s' \<and> keeps j s s'"
  using stop_player_total [OF inv] keeps_refl [OF inv]
  by (cases player) (auto simp: player_switch_stop_def)

lemma play_stop_total:
  assumes inv: "story_inv j s"
  shows "\<exists>s'. player_play_stop player cb s = Some s' \<and> keeps j s s'"
proof -
  obtain s1 where "(case player of None \<Rightarrow> Some s
      | Some p \<Rightarrow> stop_player p (if cb = 1 then ITEM_ST_STOP else ITEM_ST_IDLE) s) = Some s1" "keeps j s s1"
    using stop_player_total [OF inv] keeps_refl [OF inv] by (cases player) auto
  then show ?thesis by (simp add: player_play_stop_def)
qed

lemma next_in_mem: "next_in all xs a = Some b \<Longrightarrow> b \<in> set all \<union> set xs"
proof (induction xs)
  case Nil
  then show ?case by (cases all) auto
next
  case (Cons x xs)
  then show ?case by (cases "x = a"; cases xs; cases all) auto
qed

lemma prev_in_mem: "prev_in all xs a = Some b \<Longrightarrow> b \<in> set all \<union> set xs"
proof (induction all xs a rule: prev_in.induct)
  case (1 all x y xs a)
  then show ?case by (cases "y = a") auto
qed (auto split: list.splits)

lemma next_in_total: "all \<noteq> [] \<Longrightarrow> \<exists>b. next_in all xs a = Some b"
  by (induction xs) (auto split: list.splits)

lemma prev_in_total: "all \<noteq> [] \<Longrightarrow> \<exists>b. prev_in all xs a = Some b"
  by (induction all xs a rule: prev_in.induct) (auto split: list.splits)

text \<open>What \<open>play_step\<close> needs of \<open>get_next_item\<close> and \<open>get_prev_item\<close>.\<close>

definition neighbour :: "(addr list \<Rightarrow> addr option \<Rightarrow> addr option) \<Rightarrow> bool" where
  "neighbour get \<longleftrightarrow> (\<forall>as a. a \<in> set as \<longrightarrow> (\<exists>b. get as (Some a) = Some b \<and> b \<in> set as))"

lemma neighbour_next: "neighbour get_next_item"
  unfolding neighbour_def
proof (intro allI impI)
  fix as :: "addr list" and a
  assume "a \<in> set as"
  then have "as \<noteq> []" by auto
  then obtain b where b: "next_in as as a = Some b" using next_in_total by blast
  then have "b \<in> set as" using next_in_mem [OF b] by simp
  with b show "\<exists>b. get_next_item as (Some a) = Some b \<and> b \<in> set as"
    by (simp add: get_next_item_def del: next_in.simps)
qed

lemma neighbour_prev: "neighbour get_prev_item"
  unfolding neighbour_def
proof (intro allI impI)
  fix as :: "addr list" and a
  assume "a \<in> set as"
  then obtain h t where as: "as = h # t" by (cases as) auto
  obtain b where b: "prev_in as as a = Some b" using prev_in_total [of as as a] as by auto
  then have "b \<in> set as" using prev_in_mem [OF b] by simp
  with b as show "\<exists>b. get_prev_item as (Some a) = Some b \<and> b \<in> set as"
    by (cases "a = h") (simp_all add: get_prev_item_def del: prev_in.simps)
qed

lemma play_step_total:
  assumes inv: "story_inv j s" and get: "neighbour get"
  shows "\<exists>s'. play_step get player s = Some s' \<and> keeps j s s'"
proof (cases player)
  case None
  with keeps_refl [OF inv] show ?thesis by (simp add: play_step_def)
next
  case (Some p)
  obtain r where r: "search_in_play_list_by_state p ITEM_ST_PLAY s = Some r"
    "set_option r \<subseteq> set (items_of p s)"
    using search_state_total [OF inv, of p ITEM_ST_PLAY] by (auto split: option.splits)
  show ?thesis
  proof (cases r)
    case None
    with Some r keeps_refl [OF inv] show ?thesis by (simp add: play_step_def)
  next
    case (Some a)
    then have a: "a \<in> set (items_of p s)" using r by simp
    then obtain i where i: "st_items s a = Some i" using inv_live [OF inv] by blast
    let ?s1 = "set_item a (i\<lparr>it_state := ITEM_ST_IDLE, it_time := 0\<rparr>)
        (call [PlayStop (sp_audio_type (st_player s p))] s)"
    have k1: "keeps j s ?s1"
      using keeps_set_item [of j "call [PlayStop (sp_audio_type (st_player s p))] s" a i] inv i
      by (simp add: keeps_def)
    obtain b where b: "get (items_of p s) (Some a) = Some b" "b \<in> set (items_of p s)"
      using get a by (auto simp: neighbour_def)
    have inv1: "story_inv j ?s1" by (rule keeps_inv [OF k1])
    then obtain jt where jt: "st_items ?s1 b = Some jt" using inv_live [of j ?s1 b p] b by auto
    let ?s2 = "set_item b (jt\<lparr>it_time := 0\<rparr>) ?s1"
    have k2: "keeps j ?s1 ?s2" by (rule keeps_set_item [OF inv1 jt]) simp
    obtain s3 where s3: "start_item p b None ?s2 = Some s3" "keeps j ?s2 s3"
      using start_item_total [OF keeps_inv [OF k2], of b p None] b by auto
    from keeps_trans [OF k1 keeps_trans [OF k2 s3(2)]] have "keeps j s s3" .
    with \<open>player = Some p\<close> Some r i b jt s3(1) show ?thesis
      by (simp add: play_step_def Let_def)
  qed
qed

section \<open>Callbacks, keys and the task\<close>

lemma count_range [simp]: "c \<le> 2 \<Longrightarrow> count_up c \<le> 2" "c \<le> 2 \<Longrightarrow> count_down c \<le> 2"
  by (auto simp: count_up_def count_down_def)

lemma inv_counters:
  "story_inv j s \<Longrightarrow> c \<le> 2 \<Longrightarrow> story_inv j (s\<lparr>st_habit_key_press_cnt := c\<rparr>)"
  "story_inv j s \<Longrightarrow> c \<le> 2 \<Longrightarrow> story_inv j (s\<lparr>st_english_key_press_cnt := c\<rparr>)"
  by (simp_all add: story_inv_defs)

lemma inv_counters_le: "story_inv j s \<Longrightarrow> st_habit_key_press_cnt s \<le> 2 \<and> st_english_key_press_cnt s \<le> 2"
  by (simp add: story_inv_def counters_ok_def)

lemma inv_current_ex: "story_inv j s \<Longrightarrow> \<exists>p. st_current s = Some p"
  by (simp add: story_inv_def)

lemma adjust_total:
  assumes inv: "story_inv j s" and f: "\<And>c. c \<le> 2 \<Longrightarrow> f c \<le> 2"
  shows "\<exists>s2. adjust_key_cnt f same app s = Some s2 \<and> story_inv j s2 \<and> st_items s2 = st_items s"
proof -
  obtain p where "st_current s = Some p" using inv_current_ex [OF inv] by blast
  with inv f inv_counters_le [OF inv] show ?thesis
    by (auto simp: adjust_key_cnt_def current_type_def intro!: inv_counters)
qed

lemma remove_free_inv:
  assumes inv: "story_inv j s" and a: "a \<in> set (items_of p s)"
  shows "story_inv j (s\<lparr>st_player := (st_player s)
      (p := (st_player s p)\<lparr>sp_list := remove1 a (sp_list (st_player s p))\<rparr>),
      st_items := (st_items s)(a := None)\<rparr>)"
proof -
  have l: "distinct (items_of q s)" "set (items_of q s) \<subseteq> dom (st_items s)" for q
    using inv by (simp_all add: story_inv_def lists_ok_def)
  have disj: "set (items_of q s) \<inter> set (items_of r s) = {}" if "q \<noteq> r" for q r
    using inv that by (simp add: story_inv_def lists_ok_def)
  let ?s = "s\<lparr>st_player := (st_player s)
      (p := (st_player s p)\<lparr>sp_list := remove1 a (sp_list (st_player s p))\<rparr>),
      st_items := (st_items s)(a := None)\<rparr>"
  have items: "set (items_of q ?s) = set (items_of q s) - {a}" "distinct (items_of q ?s)" for q
    using l [of q] l [of p] disj [of q p] a by (auto simp: items_of_def)
  have "lists_ok ?s"
    unfolding lists_ok_def
  proof (intro conjI allI impI)
    show "set (items_of q ?s) \<subseteq> dom (st_items ?s)" for q
      using items(1) [of q] l(2) [of q] by auto
    show "set (items_of q ?s) \<inter> set (items_of r ?s) = {}" if "q \<noteq> r" for q r
      using items(1) disj [OF that] by auto
  qed (rule items(2))
  moreover have "names_ok ?s"
    using inv by (auto simp: story_inv_def names_ok_def)
  ultimately show ?thesis
    using inv by (simp add: story_inv_def push_names_ok_def counters_ok_def)
qed

lemma audio_error_total:
  assumes inv: "story_inv j s"
  shows "\<exists>s'. story_audio_play_cb NOTIFY_STATUS_PLAY_ERROR app param s = Some s' \<and> story_inv j s'"
proof -
  obtain p where p: "st_current s = Some p" using inv_current_ex [OF inv] by blast
  let ?s1 = "s\<lparr>st_record_play_msg := False\<rparr>"
  have inv1: "story_inv j ?s1" using inv by simp
  have node: "story_inv j (story_player_notify (command_node STORY_PLAYER_CMD_PLAY_NEXT) s')"
    if "story_inv j s'" for s'
    using inv_notify [OF that] by simp
  show ?thesis
  proof (cases param)
    case None
    with node [OF inv1] show ?thesis by (simp add: story_audio_play_cb_def)
  next
    case (Some a)
    show ?thesis
    proof (cases "a \<in> set (items_of p s)")
      case False
      with Some p node [OF inv1] show ?thesis
        by (simp add: story_audio_play_cb_def remove_from_play_list_def items_of_def)
    next
      case True
      then obtain i where "st_items s a = Some i" using inv_live [OF inv] by blast
      moreover have "a \<in> set (items_of p ?s1)" using True by (simp add: items_of_def)
      note node [OF remove_free_inv [OF inv1 this]]
      ultimately show ?thesis using Some p True
        by (simp add: story_audio_play_cb_def remove_from_play_list_def items_of_def)
    qed
  qed
qed

lemma audio_total:
  assumes inv: "story_inv j s" and ok: "story_input_ok j (Audio ret app param) s"
  shows "\<exists>s'. story_audio_play_cb ret app param s = Some s' \<and> story_inv j s'"
proof -
  obtain p where p: "st_current s = Some p" using inv_current_ex [OF inv] by blast
  note cnt = inv_counters_le [OF inv]
  have stop: "node_ok j \<lparr>nd_cmd_value = STORY_PLAYER_CMD_PLAY_STOP, nd_param = None, nd_cb_sig = 1\<rparr>"
    by (simp add: node_ok_def)
  show ?thesis
  proof (cases ret)
    case NOTIFY_STATUS_PLAY_FINISH
    with inv show ?thesis by (auto simp: story_audio_play_cb_def intro!: inv_notify)
  next
    case NOTIFY_STATUS_PLAY_ERROR
    with audio_error_total [OF inv] show ?thesis by simp
  next
    case NOTIFY_STATUS_PLAY_DISTURBED
    with inv cnt stop show ?thesis
      by (auto simp: story_audio_play_cb_def Let_def intro!: inv_notify inv_counters)
  next
    case NOTIFY_STATUS_PLAY_STOPPED
    with inv adjust_total [of j "s\<lparr>st_record_play_msg := False\<rparr>" count_down] show ?thesis
      by (auto simp: story_audio_play_cb_def)
  next
    case NOTIFY_STATUS_PLAY_RESTART
    have "\<exists>s2. adjust_key_cnt count_up True app (s\<lparr>st_record_play_msg := True\<rparr>) = Some s2 \<and>
        story_inv j s2 \<and> st_items s2 = st_items s"
      using adjust_total [of j "s\<lparr>st_record_play_msg := True\<rparr>" count_up] inv by simp
    then obtain s2 where s2: "adjust_key_cnt count_up True app (s\<lparr>st_record_play_msg := True\<rparr>) = Some s2"
      "story_inv j s2" "st_items s2 = st_items s" by blast
    show ?thesis
    proof (cases param)
      case None
      with NOTIFY_STATUS_PLAY_RESTART s2 show ?thesis
        by (simp add: story_audio_play_cb_def)
    next
      case (Some a)
      with ok NOTIFY_STATUS_PLAY_RESTART obtain i where "st_items s a = Some i"
        by (auto simp: story_input_ok_def)
      with Some NOTIFY_STATUS_PLAY_RESTART s2 inv_set_item [OF s2(2), of a i] show ?thesis
        by (simp add: story_audio_play_cb_def)
    qed
  qed (use inv in \<open>simp_all add: story_audio_play_cb_def\<close>)
qed

text \<open>The shift of \<open>check_https_to_http\<close>.\<close>

lemma strlen_terminated: "CHR 0x00 \<notin> set s \<Longrightarrow> strlen (s @ CHR 0x00 # r) = length s"
  by (induction s) (auto simp: strlen_def)

lemma terminated_append: "CHR 0x00 \<notin> set p \<Longrightarrow> terminated (p @ CHR 0x00 # r) = p"
  by (induction p) (auto simp: terminated_def)

lemma shift_loop_eq:
  "CHR 0x00 \<notin> set (p @ x # q) \<Longrightarrow>
   shift_loop (length p) j (p @ x # q @ [CHR 0x00]) =
     Some (length p + length q + 1, p @ q @ [CHR 0x00, CHR 0x00])"
proof (induction q arbitrary: p x j)
  case Nil
  have l1: "strlen (p @ x # [CHR 0x00]) = length p + 1"
    using Nil strlen_terminated [of "p @ [x]" "[]"] by simp
  have l2: "strlen (p @ [CHR 0x00, CHR 0x00]) = length p"
    using Nil strlen_terminated [of p "[CHR 0x00]"] by simp
  have "(p @ [x, CHR 0x00])[length p := CHR 0x00] = p @ [CHR 0x00, CHR 0x00]"
    by (simp add: list_update_append)
  with l1 l2 show ?case
    by (simp add: shift_loop.simps [of "length p" j] shift_loop.simps [of "Suc (length p)"] nth_append)
next
  case (Cons y q)
  have l1: "strlen (p @ x # y # q @ [CHR 0x00]) = length p + length q + 2"
    using Cons.prems strlen_terminated [of "p @ x # y # q" "[]"] by simp
  have nth: "(p @ x # y # q @ [CHR 0x00]) ! Suc (length p) = y"
    by (induction p) simp_all
  have upd: "(p @ x # y # q @ [CHR 0x00])[length p := y] = (p @ [y]) @ y # q @ [CHR 0x00]"
    by (simp add: list_update_append)
  have "shift_loop (length p) j (p @ x # y # q @ [CHR 0x00]) =
      shift_loop (length (p @ [y])) (Suc (length p)) ((p @ [y]) @ y # q @ [CHR 0x00])"
    by (subst shift_loop.simps) (simp add: l1 nth upd)
  also have "\<dots> = Some (length (p @ [y]) + length q + 1, (p @ [y]) @ q @ [CHR 0x00, CHR 0x00])"
    by (rule Cons.IH) (use Cons.prems in auto)
  finally show ?case by simp
qed

lemma https_eq:
  assumes "CHR 0x00 \<notin> set s"
  shows "\<exists>b. check_https_to_http (s @ [CHR 0x00]) = Some b \<and> length b = length s + 1 \<and>
    terminated b = (if take 5 s = ''https'' then ''http'' @ drop 5 s else s)"
proof (cases "take 5 s = ''https''")
  case True
  define q where "q = drop 5 s"
  have s: "s = ''http'' @ CHR ''s'' # q" using True append_take_drop_id [of 5 s] by (simp add: q_def)
  have q0: "CHR 0x00 \<notin> set q" using assms s by simp
  have "shift_loop 4 0 (s @ [CHR 0x00]) =
      Some (length q + 5, ''http'' @ q @ [CHR 0x00, CHR 0x00])"
    using shift_loop_eq [of "''http''" "CHR ''s''" q 0] q0 s by (simp add: eval_nat_numeral)
  moreover have "(''http'' @ q @ [CHR 0x00, CHR 0x00])[length q + 4 := CHR 0x00] =
      ''http'' @ q @ [CHR 0x00, CHR 0x00]"
    using list_update_append [of "''http'' @ q" "[CHR 0x00, CHR 0x00]" "length q + 4" "CHR 0x00"] by simp
  ultimately have "check_https_to_http (s @ [CHR 0x00]) = Some (''http'' @ q @ [CHR 0x00, CHR 0x00])"
    using s by (simp add: check_https_to_http_def)
  moreover have "terminated (''http'' @ q @ [CHR 0x00, CHR 0x00]) = ''http'' @ q"
    using q0 terminated_append [of "''http'' @ q" "[CHR 0x00]"] by simp
  ultimately show ?thesis using True s by simp
next
  case False
  have "take 5 (s @ [CHR 0x00]) \<noteq> ''https''"
  proof
    assume eq: "take 5 (s @ [CHR 0x00]) = ''https''"
    then have "CHR 0x00 \<notin> set (take 5 (s @ [CHR 0x00]))" by simp
    then have "5 \<le> length s" by (cases "5 \<le> length s") auto
    with eq False show False by simp
  qed
  then have "check_https_to_http (s @ [CHR 0x00]) = Some (s @ [CHR 0x00])"
    by (simp only: check_https_to_http_def if_False)
  with terminated_append [OF assms, of "[]"] False show ?thesis by simp
qed

section \<open>Every input keeps the invariant\<close>

lemma inv_push:
  assumes "story_inv j s" "length (rp_songUid r) < 20" "length (rp_albumUid r) < 20"
  shows "story_inv j (s\<lparr>st_r_push_player := r\<rparr>)"
  using assms by (simp add: story_inv_defs)

lemma inv_push_names: "story_inv j s \<Longrightarrow> push_names_ok s"
  by (simp add: story_inv_def)

lemma request_total:
  assumes inv: "story_inv j s"
  shows "\<exists>s'. request_play_online_song c ret s = Some s' \<and> story_inv j s'"
proof (cases "push_pending s")
  case True
  moreover have "story_inv j (s\<lparr>st_r_push_player := zero_push\<rparr>)"
    by (rule inv_push [OF inv]) (simp_all add: zero_push_def)
  ultimately show ?thesis using inv_push_names [OF inv]
    by (simp add: request_play_online_song_def c_str_def push_names_ok_def)
qed (use inv in \<open>simp add: request_play_online_song_def\<close>)

lemma push_url_total:
  assumes "story_inv j s" "CHR 0x00 \<notin> set value"
  shows "\<exists>s'. push_url value ok s = Some s' \<and> story_inv j s'"
  using https_eq [OF assms(2)] assms(1) by (auto simp: push_url_def)

lemma push_total:
  assumes inv: "story_inv j s" and ok: "push_ok j data"
  shows "\<exists>s'. play_realtime_push j data m s = Some s' \<and> story_inv j s'"
proof (cases "Option.bind (cJSON_Parse j data) (\<lambda>t. cJSON_GetObjectItem j t ''data'')")
  case None
  with inv show ?thesis by (simp add: play_realtime_push_def)
next
  case (Some d)
  with ok have mem: "member_ok j d ''songUid'' 20" "member_ok j d ''albumUid'' 20"
    "member_ok j d ''play_url'' (2 ^ 31)" by (simp_all add: push_ok_def)
  note pn = inv_push_names [OF inv, unfolded push_names_ok_def]
  have inv1: "story_inv j (set_push (\<lambda>r. r\<lparr>rp_songUid := []\<rparr>) s)"
    unfolding set_push_def by (rule inv_push [OF inv]) (use pn in simp_all)
  show ?thesis
  proof (cases "cJSON_GetObjectItem j d ''songUid''")
    case None
    with Some inv1 show ?thesis by (simp add: play_realtime_push_def)
  next
    case (Some si)
    then obtain song where song: "cj_valuestring j si = Some song" "length song < 20"
      using mem(1) by (auto simp: member_ok_def split: option.splits)
    define s2 where "s2 = set_push (\<lambda>r. r\<lparr>rp_songUid := song\<rparr>) (set_push (\<lambda>r. r\<lparr>rp_songUid := []\<rparr>) s)"
    have inv2: "story_inv j s2"
      unfolding s2_def set_push_def by (rule inv_push [OF inv1 [unfolded set_push_def]])
        (use pn song in simp_all)
    show ?thesis
    proof (cases "cJSON_GetObjectItem j d ''albumUid''")
      case None
      with Some song \<open>Option.bind _ _ = Some d\<close> inv2 show ?thesis
        by (simp add: play_realtime_push_def s2_def)
    next
      case album_item: (Some ai)
      then obtain album where album: "cj_valuestring j ai = Some album" "length album < 20"
        using mem(2) by (auto simp: member_ok_def split: option.splits)
      define s3 where "s3 = set_push (\<lambda>r. r\<lparr>rp_albumUid := album, rp_play_mode :=
          (case cJSON_GetObjectItem j d ''mode'' of None \<Rightarrow> 2
           | Some m \<Rightarrow> nat (cj_valueint j m mod 256))\<rparr>) s2"
      have inv3: "story_inv j s3"
        unfolding s3_def set_push_def by (rule inv_push [OF inv2])
          (use inv_push_names [OF inv2, unfolded push_names_ok_def] album in simp_all)
      show ?thesis
      proof (cases "cJSON_GetObjectItem j d ''play_url''")
        case None
        have "story_inv j (s3\<lparr>st_r_push_player := zero_push\<rparr>)"
          by (rule inv_push [OF inv3]) (simp_all add: zero_push_def)
        with None Some song album_item album \<open>Option.bind _ _ = Some d\<close> show ?thesis
          by (simp add: play_realtime_push_def s2_def [symmetric] s3_def [symmetric] Let_def)
      next
        case url_item: (Some u)
        then obtain val where v: "cj_valuestring j u = Some val" "CHR 0x00 \<notin> set val"
          using mem(3) by (auto simp: member_ok_def split: option.splits)
        with url_item Some song album_item album \<open>Option.bind _ _ = Some d\<close>
          push_url_total [OF inv3 v(2), of m]
        show ?thesis
          by (simp add: play_realtime_push_def s2_def [symmetric] s3_def [symmetric] Let_def)
      qed
    qed
  qed
qed

lemma control_inv:
  assumes inv: "story_inv j s"
  shows "story_inv j (push_control_cmd j data s)"
proof -
  have "story_inv j (set_push (\<lambda>r. r\<lparr>rp_play_mode := m\<rparr>) s)" for m
    unfolding set_push_def
    by (rule inv_push [OF inv]) (use inv_push_names [OF inv] in \<open>simp_all add: push_names_ok_def\<close>)
  with inv show ?thesis
    by (auto simp: push_control_cmd_def Let_def split: option.splits)
qed

lemma switch_total:
  assumes inv: "story_inv j s"
  shows "\<exists>s'. switch_and_start p tone s = Some s' \<and> story_inv j s'"
proof -
  have "\<exists>s1. (if st_current s \<noteq> Some p then switch_player p s else Some s) = Some s1 \<and> story_inv j s1"
  proof (cases "st_current s = Some p")
    case False
    obtain old where old: "st_current s = Some old" using inv_current_ex [OF inv] by blast
    obtain s1 where "player_switch_stop (Some old) s = Some s1" "keeps j s s1"
      using switch_stop_total [OF inv] by blast
    with False old inv_set_player [OF keeps_inv [of j s s1]] show ?thesis by (simp add: switch_player_def)
  qed (use inv in simp)
  then obtain s1 where s1: "(if st_current s \<noteq> Some p then switch_player p s else Some s) = Some s1"
    "story_inv j s1" by blast
  obtain s2 where "player_play_start (st_current s1) (Some tone) s1 = Some s2" "keeps j s1 s2"
    using play_start_total [OF s1(2)] by blast
  with s1 keeps_inv [of j s1 s2] show ?thesis by (auto simp: switch_and_start_def)
qed

lemma task_total:
  assumes inv: "story_inv j s" and n: "node_ok j n"
  shows "\<exists>s'. story_player_task j m n s = Some s' \<and> story_inv j s'"
proof (cases "nd_cmd_value n")
  case STORY_PLAYER_CMD_REALTIME_PUSH
  with n obtain d where "nd_param n = Some d" "push_ok j d" by (auto simp: node_ok_def)
  with STORY_PLAYER_CMD_REALTIME_PUSH push_total [OF inv] show ?thesis
    by (simp add: story_player_task_def)
next
  case STORY_PLAYER_CMD_PUSH_CONTROL
  with n obtain d where "nd_param n = Some d" by (auto simp: node_ok_def)
  with STORY_PLAYER_CMD_PUSH_CONTROL control_inv [OF inv] show ?thesis
    by (simp add: story_player_task_def)
next
  case STORY_PLAYER_CMD_PLAY_PAUSE
  with play_stop_total [OF inv, of "st_current s" 1] keeps_inv show ?thesis
    by (fastforce simp: story_player_task_def)
next
  case STORY_PLAYER_CMD_PLAY_STOP
  with play_stop_total [OF inv, of "st_current s" "nd_cb_sig n"] keeps_inv show ?thesis
    by (fastforce simp: story_player_task_def)
next
  case STORY_PLAYER_CMD_PLAY_PREV
  with request_total [OF inv] play_step_total [OF inv neighbour_prev, of "st_current s"] keeps_inv
  show ?thesis by (fastforce simp: story_player_task_def player_play_prev_def)
next
  case STORY_PLAYER_CMD_PLAY_NEXT
  with request_total [OF inv] play_step_total [OF inv neighbour_next, of "st_current s"] keeps_inv
  show ?thesis by (fastforce simp: story_player_task_def player_play_next_def)
next
  case STORY_PLAYER_CMD_PLAY_REVERT
  obtain p where p: "st_current s = Some p" using inv_current_ex [OF inv] by blast
  obtain r where "search_in_play_list_by_state p ITEM_ST_PLAY s = Some r"
    using search_state_total [OF inv] by blast
  with STORY_PLAYER_CMD_PLAY_REVERT p play_pause_total [OF inv, of "Some p"]
    play_start_total [OF inv, of "Some p" None] keeps_inv
  show ?thesis by (fastforce simp: story_player_task_def player_is_playing_def)
qed (use inv switch_total [OF inv] in \<open>simp_all add: story_player_task_def\<close>)

lemma key_inv_story: "story_inv j s \<Longrightarrow> story_inv j (fst (story_keyprocess ok ev s))"
  using inv_counters_le [of j s]
  by (auto simp: story_keyprocess_def send_front_def Let_def intro!: inv_notify inv_counters)

lemma server_inv:
  assumes "story_inv j s" "push_ok j data"
  shows "story_inv j (story_player_command_cb data ty ok s)"
  using assms
  by (cases ty) (auto simp: story_player_command_cb_def node_ok_def intro!: inv_notify)

lemma record_task_total:
  assumes inv: "story_inv j s"
  shows "\<exists>s'. player_record_task pos ok c s = Some s' \<and> story_inv j s'"
proof (cases c)
  case PR_PLAY
  obtain p where p: "st_current s = Some p" using inv_current_ex [OF inv] by blast
  obtain r where r: "search_in_play_list_by_state p ITEM_ST_PLAY s = Some r"
    "set_option r \<subseteq> set (items_of p s)"
    using search_state_total [OF inv, of p ITEM_ST_PLAY] by (auto split: option.splits)
  show ?thesis
  proof (cases r)
    case None
    with PR_PLAY p r inv show ?thesis by (simp add: player_record_task_def)
  next
    case (Some a)
    then obtain i where i: "st_items s a = Some i" using inv_live [OF inv] r by auto
    then have len: "length (it_file_name i) < STORY_FILE_NAME_LENGTH"
      using inv by (auto simp: story_inv_def names_ok_def)
    let ?time = "if st_audio_service s then pos else 0"
    let ?s1 = "set_item a (i\<lparr>it_time := ?time\<rparr>) s"
    have inv1: "story_inv j ?s1" by (rule inv_set_item [OF inv i]) simp
    have "story_inv j (save_playlog_to_file ok \<lparr>pt_time = t, pt_player_name = it_file_name i\<rparr> ?s1)" for t
      using inv1 len p by (auto simp: save_playlog_to_file_def story_inv_defs)
    with PR_PLAY p r Some i len show ?thesis
      by (simp add: player_record_task_def c_str_def Let_def)
  qed
qed (use inv in \<open>auto simp: player_record_task_def\<close>)

lemma inv_queue_tail:
  "story_inv j s \<Longrightarrow> st_queue s = Some (n # q) \<Longrightarrow> node_ok j n \<and> story_inv j (s\<lparr>st_queue := Some q\<rparr>)"
  by (simp add: story_inv_defs)

lemma story_step_safe:
  assumes inv: "story_inv j s" and ok: "story_input_ok j i s"
  shows "\<exists>s'. story_step j i s = Some s' \<and> story_inv j s'"
proof (cases i)
  case (Audio ret app param)
  with audio_total [OF inv] ok show ?thesis by (simp add: story_step_def)
next
  case (PushAudio ret)
  with request_total [OF inv] inv show ?thesis
    by (simp add: story_step_def realtime_push_play_cb_def)
next
  case (Server data ty m)
  with server_inv [OF inv] ok show ?thesis by (simp add: story_step_def story_input_ok_def)
next
  case (Key m ev)
  with key_inv_story [OF inv] show ?thesis by (simp add: story_step_def)
next
  case (Task m)
  with inv task_total inv_queue_tail [OF inv] show ?thesis
    by (auto simp: story_step_def split: option.splits list.splits)
next
  case Tick
  with inv show ?thesis by (auto simp: story_step_def play_record_tick_def split: option.splits)
next
  case (RecordNotify c)
  with inv show ?thesis
    by (auto simp: story_step_def notification_record_play_time_def split: option.splits)
next
  case (RecordTask pos m)
  have "\<exists>s'. player_record_task pos m c (s\<lparr>st_record_queue := Some q\<rparr>) = Some s' \<and> story_inv j s'" for c q
    by (rule record_task_total) (use inv in simp)
  with RecordTask inv show ?thesis
    by (simp add: story_step_def split: option.splits list.splits)
qed

interpretation story: safe_machine "story_step j" "story_inv j" "story_input_ok j" for j
  by unfold_locales (rule story_step_safe)

end
