(* ===== verification/StoryPlayer_Props.thy ===== *)
theory StoryPlayer_Props
  imports StoryPlayer_Inv
begin

text \<open>
  What the story player does: the cyclic order of a play list, what next, error and start do to the
  item that plays, the files that survive the check of a directory, and the safety of every run from
  the start.
\<close>

section \<open>The cyclic order of a play list\<close>

lemma next_in_split:
  "a \<notin> set xs \<Longrightarrow> all \<noteq> [] \<Longrightarrow>
   next_in all (xs @ a # ys) a = Some (case ys of [] \<Rightarrow> hd all | y # _ \<Rightarrow> y)"
  by (induction xs) (auto split: list.splits)

lemma prev_in_split:
  "a \<notin> set xs \<Longrightarrow> xs \<noteq> [] \<Longrightarrow> prev_in all (xs @ a # ys) a = Some (last xs)"
proof (induction xs)
  case Nil
  then show ?case by simp
next
  case (Cons x xs)
  then show ?case by (cases xs) auto
qed

lemma get_next_nth:
  assumes "distinct as" "i < length as"
  shows "get_next_item as (Some (as ! i)) = Some (as ! (Suc i mod length as))"
proof -
  have as: "as = take i as @ as ! i # drop (Suc i) as" using id_take_nth_drop [OF assms(2)] .
  have "as ! i \<notin> set (take i as)"
    using assms(1) as by (metis distinct_append disjoint_insert(1) inf.commute list.simps(15))
  then have "next_in as as (as ! i) = Some (case drop (Suc i) as of [] \<Rightarrow> hd as | y # _ \<Rightarrow> y)"
    using next_in_split [of "as ! i" "take i as" as "drop (Suc i) as"] as assms(2) by fastforce
  moreover have "(case drop (Suc i) as of [] \<Rightarrow> hd as | y # _ \<Rightarrow> y) = as ! (Suc i mod length as)"
  proof (cases "Suc i = length as")
    case True
    then show ?thesis by (cases as) auto
  next
    case False
    then have "Suc i < length as" using assms(2) by simp
    then have "drop (Suc i) as = as ! Suc i # drop (Suc (Suc i)) as" by (simp add: Cons_nth_drop_Suc)
    with \<open>Suc i < length as\<close> show ?thesis by simp
  qed
  ultimately show ?thesis by (simp add: get_next_item_def)
qed

lemma get_prev_nth:
  assumes "distinct as" "i < length as"
  shows "get_prev_item as (Some (as ! i)) = Some (as ! ((i + length as - 1) mod length as))"
proof (cases i)
  case 0
  then show ?thesis using assms
    by (cases as) (auto simp: get_prev_item_def last_conv_nth)
next
  case (Suc k)
  have as: "as = take i as @ as ! i # drop (Suc i) as" using id_take_nth_drop [OF assms(2)] .
  have nin: "as ! i \<notin> set (take i as)"
    using assms(1) as by (metis distinct_append disjoint_insert(1) inf.commute list.simps(15))
  obtain h t where ht: "as = h # t" using assms(2) by (cases as) auto
  have "as ! i \<noteq> h" using assms ht Suc by (metis Suc_neq_Zero length_greater_0_conv list.distinct(1) nth_Cons_0 nth_eq_iff_index_eq)
  then have "get_prev_item as (Some (as ! i)) = prev_in as as (as ! i)"
    using ht by (simp add: get_prev_item_def del: prev_in.simps)
  also have "\<dots> = Some (last (take i as))"
  proof -
    have "take i as \<noteq> []" using Suc assms(2) by auto
    from prev_in_split [OF nin this, of as "drop (Suc i) as"] show ?thesis
      by (simp only: as [symmetric])
  qed
  also have "last (take i as) = as ! k" using Suc assms(2) by (simp add: take_Suc_conv_app_nth)
  also have "as ! k = as ! ((i + length as - 1) mod length as)"
    using Suc assms(2) by simp
  finally show ?thesis .
qed

section \<open>Which items play\<close>

definition playing :: "player_id \<Rightarrow> story \<Rightarrow> addr set" where
  "playing p s = {a \<in> set (items_of p s). it_state (the (st_items s a)) = ITEM_ST_PLAY}"

lemma search_playing:
  assumes inv: "story_inv j s" and play: "playing p s = {a}"
  shows "search_in_play_list_by_state p ITEM_ST_PLAY s = Some (Some a)" "a \<in> set (items_of p s)"
proof -
  show a: "a \<in> set (items_of p s)" using play by (auto simp: playing_def)
  have st: "it_state (the (st_items s a)) = ITEM_ST_PLAY" using play by (auto simp: playing_def)
  obtain r where r: "search_in_play_list_by_state p ITEM_ST_PLAY s = Some r"
    "case r of None \<Rightarrow> \<forall>a\<in>set (items_of p s). it_state (the (st_items s a)) \<noteq> ITEM_ST_PLAY
     | Some b \<Rightarrow> b \<in> set (items_of p s) \<and> (\<exists>i. st_items s b = Some i \<and> it_state i = ITEM_ST_PLAY)"
    using search_state_total [OF inv, of p ITEM_ST_PLAY] by blast
  have uniq: "b = a" if "b \<in> set (items_of p s)" "it_state (the (st_items s b)) = ITEM_ST_PLAY" for b
  proof -
    have "b \<in> playing p s" using that by (simp add: playing_def)
    with play show ?thesis by simp
  qed
  show "search_in_play_list_by_state p ITEM_ST_PLAY s = Some (Some a)"
  proof (cases r)
    case None
    with r(2) a st show ?thesis by simp
  next
    case (Some b)
    with r(2) have "b = a" by (intro uniq) auto
    with Some r(1) show ?thesis by simp
  qed
qed

lemma search_none:
  assumes inv: "story_inv j s" and "\<forall>a\<in>set (items_of p s). it_state (the (st_items s a)) \<noteq> st"
  shows "search_in_play_list_by_state p st s = Some None"
  using search_state_total [OF inv, of p st] assms(2) by (fastforce split: option.splits)

lemma search_empty:
  assumes inv: "story_inv j s" and "playing p s = {}"
  shows "search_in_play_list_by_state p ITEM_ST_PLAY s = Some None"
  by (rule search_none [OF inv]) (use assms(2) in \<open>auto simp: playing_def\<close>)

definition item_path :: "player_id \<Rightarrow> addr \<Rightarrow> story \<Rightarrow> string" where
  "item_path p a s = sp_folder_path (st_player s p) @ ''/'' @ it_file_name (the (st_items s a))"

lemma file_path_cong:
  "st_player s' = st_player s \<Longrightarrow> it_file_name i' = it_file_name i \<Longrightarrow> file_path p i' s' = file_path p i s"
  by (simp add: file_path_def)

lemma start_param_cong: "st_player s' = st_player s \<Longrightarrow> start_param p a path t s' = start_param p a path t s"
  by (simp add: start_param_def)

lemma play_step_plays:
  assumes inv: "story_inv j s" and play: "playing p s = {a}" and get: "neighbour get"
  shows "\<exists>s' b. play_step get (Some p) s = Some s' \<and> get (items_of p s) (Some a) = Some b \<and>
    playing p s' = {b} \<and> items_of p s' = items_of p s \<and>
    st_calls s' = st_calls s @ [PlayStop (sp_audio_type (st_player s p)),
      PlayStart (start_param p b (item_path p b s) None s)]"
proof -
  note a = search_playing [OF inv play]
  obtain i where i: "st_items s a = Some i" using inv_live [OF inv a(2)] by blast
  obtain b where b: "get (items_of p s) (Some a) = Some b" "b \<in> set (items_of p s)"
    using get a(2) by (auto simp: neighbour_def)
  obtain jb where jb: "st_items s b = Some jb" using inv_live [OF inv b(2)] by blast
  define s1 where "s1 = set_item a (i\<lparr>it_state := ITEM_ST_IDLE, it_time := 0\<rparr>)
      (call [PlayStop (sp_audio_type (st_player s p))] s)"
  obtain j1 where j1: "st_items s1 b = Some j1" "it_file_name j1 = it_file_name jb"
    using jb i by (cases "b = a") (auto simp: s1_def)
  define s2 where "s2 = set_item b (j1\<lparr>it_time := 0\<rparr>) s1"
  have sp: "st_player s2 = st_player s" by (simp add: s2_def s1_def)
  have path: "file_path p (j1\<lparr>it_time := 0\<rparr>) s2 = Some (item_path p b s)"
    using file_path_cong [OF sp, of "j1\<lparr>it_time := 0\<rparr>" jb p] file_path_total [OF inv jb, of p] j1 jb
    by (simp add: item_path_def)
  let ?s3 = "call [PlayStart (start_param p b (item_path p b s) None s)]
      (set_item b (j1\<lparr>it_time := 0, it_state := ITEM_ST_PLAY\<rparr>) s2)"
  have "start_item p b None s2 = Some ?s3"
    using path start_param_cong [OF sp] by (simp add: start_item_def s2_def)
  moreover have "items_of p s1 = items_of p s" by (simp add: s1_def)
  ultimately have run: "play_step get (Some p) s = Some (?s3\<lparr>st_realtime_push_song := False\<rparr>)"
    by (simp only: play_step_def option.case a(1) bind_Some_left i Let_def s1_def [symmetric] b(1)
        j1(1) s2_def [symmetric])
  have "playing p (?s3\<lparr>st_realtime_push_song := False\<rparr>) = {b}"
    using play b(2) by (auto simp: playing_def items_of_def s2_def s1_def split: if_splits)
  moreover have "items_of p (?s3\<lparr>st_realtime_push_song := False\<rparr>) = items_of p s"
    by (simp add: items_of_def s2_def s1_def)
  ultimately show ?thesis using run b(1) by (auto simp: s2_def s1_def)
qed

lemma play_step_none:
  assumes inv: "story_inv j s" and "playing p s = {}"
  shows "play_step get (Some p) s = Some (s\<lparr>st_realtime_push_song := False\<rparr>)"
  using search_empty [OF assms] by (simp add: play_step_def)

text \<open>Starting while an item plays and none is paused or stopped.\<close>

lemma start_adds_playing:
  assumes inv: "story_inv j s" and a: "playing p s = {a}"
    and none: "\<forall>x\<in>set (items_of p s). it_state (the (st_items s x)) \<notin> {ITEM_ST_PAUSE, ITEM_ST_STOP}"
    and log: "Option.bind (st_current s) (st_playlog s) = None"
    and b: "search_in_play_list_by_state p ITEM_ST_IDLE s = Some (Some b)"
  shows "\<exists>s'. player_play_start (Some p) tone s = Some s' \<and> playing p s' = {a, b} \<and> a \<noteq> b"
proof -
  have p1: "search_in_play_list_by_state p ITEM_ST_PAUSE s = Some None"
    "search_in_play_list_by_state p ITEM_ST_STOP s = Some None"
    using none by (auto intro!: search_none [OF inv])
  have bm: "b \<in> set (items_of p s)" "\<exists>i. st_items s b = Some i \<and> it_state i = ITEM_ST_IDLE"
    using search_state_total [OF inv, of p ITEM_ST_IDLE] b by auto
  then obtain i where i: "st_items s b = Some i" "it_state i = ITEM_ST_IDLE" by blast
  have "b \<notin> playing p s" using i by (simp add: playing_def)
  with a have ne: "a \<noteq> b" by auto
  let ?s1 = "call [PlayStart (start_param p b (item_path p b s) tone s)]
      (set_item b (i\<lparr>it_state := ITEM_ST_PLAY\<rparr>) s)"
  have "start_item p b tone s = Some ?s1"
    using i file_path_total [OF inv i(1), of p] by (simp add: start_item_def item_path_def)
  then have "player_play_start (Some p) tone s = Some (?s1\<lparr>st_realtime_push_song := False\<rparr>)"
    using p1 log b by (simp add: player_play_start_def search_play_in_playmsg_file_def)
  moreover have "playing p (?s1\<lparr>st_realtime_push_song := False\<rparr>) = insert b (playing p s)"
    using bm(1) by (auto simp: playing_def items_of_def)
  ultimately show ?thesis using a ne by auto
qed

section \<open>An item that cannot be played\<close>

lemma error_removes:
  assumes inv: "story_inv j s" and cur: "st_current s = Some p" and play: "playing p s = {a}"
  shows "story_audio_play_cb NOTIFY_STATUS_PLAY_ERROR app (Some a) s = Some (story_player_notify
    (command_node STORY_PLAYER_CMD_PLAY_NEXT) (s\<lparr>st_record_play_msg := False,
      st_player := (st_player s)(p := (st_player s p)\<lparr>sp_list := remove1 a (items_of p s)\<rparr>),
      st_items := (st_items s)(a := None)\<rparr>))"
proof -
  have a: "a \<in> set (items_of p s)" using search_playing [OF inv play] by simp
  obtain i where "st_items s a = Some i" using inv_live [OF inv a] by blast
  with a cur show ?thesis
    by (simp add: story_audio_play_cb_def remove_from_play_list_def items_of_def)
qed

lemma error_stalls:
  assumes inv: "story_inv j s" and cur: "st_current s = Some p" and play: "playing p s = {a}"
    and q: "st_queue s = Some []" and push: "\<not> push_pending s"
  shows "\<exists>s'. run_opt (story_step j) [Audio NOTIFY_STATUS_PLAY_ERROR app (Some a), Task m] s = Some s' \<and>
    st_calls s' = st_calls s \<and> playing p s' = {} \<and> st_queue s' = Some []"
proof -
  let ?s0 = "s\<lparr>st_record_play_msg := False,
      st_player := (st_player s)(p := (st_player s p)\<lparr>sp_list := remove1 a (items_of p s)\<rparr>),
      st_items := (st_items s)(a := None)\<rparr>"
  let ?s1 = "story_player_notify (command_node STORY_PLAYER_CMD_PLAY_NEXT) ?s0"
  have s1: "story_step j (Audio NOTIFY_STATUS_PLAY_ERROR app (Some a)) s = Some ?s1"
    using error_removes [OF inv cur play] by (simp add: story_step_def)
  have ok: "story_input_ok j (Audio NOTIFY_STATUS_PLAY_ERROR app (Some a)) s"
    by (simp add: story_input_ok_def)
  have inv1: "story_inv j ?s1" by (rule story.step_inv [OF inv ok s1])
  have q1: "st_queue ?s1 = Some [command_node STORY_PLAYER_CMD_PLAY_NEXT]"
    using q by (simp add: story_player_notify_def queue_send_def)
  let ?s2 = "?s1\<lparr>st_queue := Some []\<rparr>"
  have inv2: "story_inv j ?s2" using inv_queue_tail [OF inv1 q1] by blast
  have "distinct (items_of p s)" using inv by (simp add: story_inv_def lists_ok_def)
  then have "set (items_of p ?s2) = set (items_of p s) - {a}"
    by (simp add: items_of_def story_player_notify_def)
  moreover have "it_state (the (st_items s x)) \<noteq> ITEM_ST_PLAY" if "x \<in> set (items_of p s) - {a}" for x
  proof
    assume "it_state (the (st_items s x)) = ITEM_ST_PLAY"
    with that have "x \<in> playing p s" by (simp add: playing_def)
    with play that show False by simp
  qed
  ultimately have none: "playing p ?s2 = {}"
    by (auto simp: playing_def story_player_notify_def)
  have push2: "\<not> push_pending ?s2" using push by (simp add: push_pending_def story_player_notify_def)
  have "story_player_task j m (command_node STORY_PLAYER_CMD_PLAY_NEXT) ?s2 =
      player_play_next (st_current ?s2) ?s2"
    using push2 by (simp add: story_player_task_def command_node_def)
  also have "\<dots> = Some (?s2\<lparr>st_realtime_push_song := False\<rparr>)"
    using play_step_none [OF inv2 none, of get_next_item] cur
    by (simp add: player_play_next_def story_player_notify_def)
  finally have "story_step j (Task m) ?s1 = Some (?s2\<lparr>st_realtime_push_song := False\<rparr>)"
    using q1 by (simp add: story_step_def)
  moreover have "playing p (?s2\<lparr>st_realtime_push_song := False\<rparr>) = {}"
    using none by (simp add: playing_def items_of_def)
  moreover have "st_calls ?s2 = st_calls s" by (simp add: story_player_notify_def)
  ultimately show ?thesis using s1 by simp
qed

section \<open>Checking a directory\<close>

definition has_token :: "string list \<Rightarrow> string \<Rightarrow> bool" where
  "has_token dir d \<longleftrightarrow> (\<exists>t\<in>set dir. take (6 + length d) t = STORY_FILE_PREFIX @ d)"

lemma token_prefix: "take (6 + length d) t = STORY_FILE_PREFIX @ d \<Longrightarrow> is_token t"
proof -
  assume a: "take (6 + length d) t = STORY_FILE_PREFIX @ d"
  have "take 6 (take (6 + length d) t) = take 6 t" by (simp add: min_def)
  with a show ?thesis by (simp add: is_token_def STORY_FILE_PREFIX_def)
qed

lemma check_files_eq:
  assumes "\<forall>d\<in>set ds. is_token d \<or> length d < 58"
  shows "check_files (\<lambda>_. True) dir pair ds = Some (case ds of [] \<Rightarrow> []
    | d # ds \<Rightarrow> (if is_token d \<or> pair \<or> has_token dir d then [d] else []) @
        filter (\<lambda>d. is_token d \<or> has_token dir d) ds)"
  using assms
proof (induction ds arbitrary: pair)
  case Nil
  then show ?case by simp
next
  case (Cons d ds)
  have len: "length (STORY_FILE_PREFIX @ d) = 6 + length d" by (simp add: STORY_FILE_PREFIX_def)
  have tok: "(\<exists>t\<in>set dir. is_token t \<and> take (length (STORY_FILE_PREFIX @ d)) t = STORY_FILE_PREFIX @ d)
      \<longleftrightarrow> has_token dir d"
    unfolding len has_token_def using token_prefix by blast
  have rest: "check_files (\<lambda>_. True) dir False ds = Some (filter (\<lambda>d. is_token d \<or> has_token dir d) ds)"
    using Cons.IH [of False] Cons.prems by (auto split: list.splits)
  show ?case
  proof (cases "is_token d")
    case True
    with rest show ?thesis by simp
  next
    case False
    with Cons.prems have "\<not> 64 \<le> length d + 6" by auto
    with False rest tok show ?thesis by (simp add: Let_def)
  qed
qed

lemma check_files_sub:
  assumes "\<forall>d\<in>set ds. is_token d \<or> length d < 58" "distinct ds"
  shows "\<exists>names. check_files (\<lambda>_. True) dir pair ds = Some names \<and> set names \<subseteq> set ds \<and> distinct names"
proof (cases ds)
  case (Cons d ds')
  from check_files_eq [OF assms(1), of dir pair] Cons have
    "check_files (\<lambda>_. True) dir pair ds = Some ((if is_token d \<or> pair \<or> has_token dir d then [d] else []) @
        filter (\<lambda>d. is_token d \<or> has_token dir d) ds')" by (simp only: list.case)
  with assms(2) Cons show ?thesis by auto
qed simp

section \<open>The start\<close>

text \<open>What the memory of file items must be: fresh and different for different files.\<close>

definition alloc_ok :: "(string \<Rightarrow> addr option) \<Rightarrow> string list \<Rightarrow> story \<Rightarrow> bool" where
  "alloc_ok alloc ds s \<longleftrightarrow> distinct ds \<and> (\<forall>d\<in>set ds. length d < STORY_FILE_NAME_LENGTH) \<and>
     (\<forall>d\<in>set ds. \<forall>a. alloc d = Some a \<longrightarrow> st_items s a = None) \<and>
     (\<forall>d\<in>set ds. \<forall>e\<in>set ds. alloc d \<noteq> None \<longrightarrow> alloc d = alloc e \<longrightarrow> d = e)"

definition same_rest :: "story \<Rightarrow> story \<Rightarrow> bool" where
  "same_rest s s' \<longleftrightarrow> st_current s' = st_current s \<and> st_queue s' = st_queue s \<and>
     st_r_push_player s' = st_r_push_player s \<and> st_playlog s' = st_playlog s \<and>
     st_keysign s' = st_keysign s \<and>
     st_habit_key_press_cnt s' = st_habit_key_press_cnt s \<and>
     st_english_key_press_cnt s' = st_english_key_press_cnt s"

lemma insert_item_ok:
  assumes "lists_ok s" "names_ok s" "st_items s a = None" "length d < STORY_FILE_NAME_LENGTH"
  shows "lists_ok (insert_in_play_list p a (set_item a \<lparr>it_state = ITEM_ST_IDLE,
      it_file_name = take STORY_FILE_NAME_LENGTH d, it_time = 0\<rparr> s))"
    "names_ok (insert_in_play_list p a (set_item a \<lparr>it_state = ITEM_ST_IDLE,
      it_file_name = take STORY_FILE_NAME_LENGTH d, it_time = 0\<rparr> s))"
proof -
  have new: "a \<notin> set (items_of q s)" for q
    using assms(1,3) by (auto simp: lists_ok_def)
  show "lists_ok (insert_in_play_list p a (set_item a \<lparr>it_state = ITEM_ST_IDLE,
      it_file_name = take STORY_FILE_NAME_LENGTH d, it_time = 0\<rparr> s))"
    using assms(1) new by (auto simp: lists_ok_def insert_in_play_list_def items_of_def)
  show "names_ok (insert_in_play_list p a (set_item a \<lparr>it_state = ITEM_ST_IDLE,
      it_file_name = take STORY_FILE_NAME_LENGTH d, it_time = 0\<rparr> s))"
    using assms(2,4) by (auto simp: names_ok_def insert_in_play_list_def)
qed

lemma load_items_ok:
  assumes "lists_ok s" "names_ok s" "alloc_ok alloc ds s"
  shows "lists_ok (load_items p alloc ds s) \<and> names_ok (load_items p alloc ds s) \<and>
    same_rest s (load_items p alloc ds s) \<and>
    dom (st_items (load_items p alloc ds s)) \<subseteq> dom (st_items s) \<union> {a. \<exists>d\<in>set ds. alloc d = Some a}"
  using assms
proof (induction ds arbitrary: s)
  case Nil
  then show ?case by (simp add: same_rest_def)
next
  case (Cons d ds)
  show ?case
  proof (cases "is_token d \<or> alloc d = None")
    case True
    have "alloc_ok alloc ds s" using Cons.prems(3) by (auto simp: alloc_ok_def)
    moreover have "load_items p alloc (d # ds) s = load_items p alloc ds s" using True by auto
    ultimately show ?thesis using Cons.IH [OF Cons.prems(1,2)] by (simp only: list.set) blast
  next
    case False
    then obtain a where a: "alloc d = Some a" by blast
    let ?s1 = "insert_in_play_list p a (set_item a \<lparr>it_state = ITEM_ST_IDLE,
      it_file_name = take STORY_FILE_NAME_LENGTH d, it_time = 0\<rparr> s)"
    have new: "st_items s a = None" "length d < STORY_FILE_NAME_LENGTH"
      using Cons.prems(3) a by (auto simp: alloc_ok_def)
    have items1: "st_items ?s1 = (st_items s)(a \<mapsto> \<lparr>it_state = ITEM_ST_IDLE,
      it_file_name = take STORY_FILE_NAME_LENGTH d, it_time = 0\<rparr>)"
      by (simp add: insert_in_play_list_def)
    have "st_items ?s1 b = None" if "e \<in> set ds" "alloc e = Some b" for e b
    proof -
      have "e \<noteq> d" using that(1) Cons.prems(3) by (auto simp: alloc_ok_def)
      then have "b \<noteq> a" using that a Cons.prems(3) by (auto simp: alloc_ok_def)
      moreover have "st_items s b = None" using that Cons.prems(3) by (auto simp: alloc_ok_def)
      ultimately show ?thesis using items1 by simp
    qed
    then have "alloc_ok alloc ds ?s1" using Cons.prems(3) unfolding alloc_ok_def by auto
    from Cons.IH [OF insert_item_ok [OF Cons.prems(1,2) new] this]
    have IH: "lists_ok (load_items p alloc ds ?s1)" "names_ok (load_items p alloc ds ?s1)"
      "same_rest ?s1 (load_items p alloc ds ?s1)"
      "dom (st_items (load_items p alloc ds ?s1)) \<subseteq> dom (st_items ?s1) \<union> {a. \<exists>d\<in>set ds. alloc d = Some a}"
      by blast+
    have "same_rest s ?s1" by (simp add: same_rest_def insert_in_play_list_def set_item_def)
    with IH(3) have "same_rest s (load_items p alloc ds ?s1)" by (simp add: same_rest_def)
    moreover have "load_items p alloc (d # ds) s = load_items p alloc ds ?s1" using False a by simp
    moreover have "dom (st_items (load_items p alloc ds ?s1)) \<subseteq>
        dom (st_items s) \<union> {b. \<exists>e\<in>set (d # ds). alloc e = Some b}"
      using IH(4) items1 a by auto
    ultimately show ?thesis using IH(1,2) by simp
  qed
qed

definition disk_ok :: "story_disk \<Rightarrow> bool" where
  "disk_ok d \<longleftrightarrow> (\<forall>n. sd_reopen_ok d n) \<and>
     (\<forall>p. distinct (sd_dir d p) \<and> (\<forall>f\<in>set (sd_dir d p). length f < STORY_FILE_NAME_LENGTH)) \<and>
     (\<forall>p q. \<forall>f\<in>set (sd_dir d p). \<forall>g\<in>set (sd_dir d q).
        sd_alloc d p f \<noteq> None \<longrightarrow> sd_alloc d p f = sd_alloc d q g \<longrightarrow> p = q \<and> f = g)"

definition owned :: "story_disk \<Rightarrow> player_id set \<Rightarrow> addr set" where
  "owned d P = {a. \<exists>p\<in>P. \<exists>f\<in>set (sd_dir d p). sd_alloc d p f = Some a}"

lemma init_one_ok:
  assumes d: "disk_ok d" and p: "p \<notin> P" and folder: "length folder < FOLDER_PATH_LENGTH"
    and s: "lists_ok s" "names_ok s" "dom (st_items s) \<subseteq> owned d P"
  shows "\<exists>s'. init_one d p ty folder s = Some s' \<and> lists_ok s' \<and> names_ok s' \<and> same_rest s s' \<and>
    dom (st_items s') \<subseteq> owned d (insert p P)"
proof -
  let ?s0 = "s\<lparr>st_player := (st_player s)(p := \<lparr>sp_audio_type = ty, sp_folder_path = folder, sp_list = []\<rparr>)\<rparr>"
  have "is_token f \<or> length f < 58" if "f \<in> set (sd_dir d p)" for f
  proof -
    have "length f < STORY_FILE_NAME_LENGTH" using that d by (simp add: disk_ok_def)
    then show ?thesis by simp
  qed
  then have "\<forall>f\<in>set (sd_dir d p). is_token f \<or> length f < 58" by blast
  moreover have "sd_reopen_ok d = (\<lambda>_. True)" using d by (auto simp: disk_ok_def)
  moreover have "distinct (sd_dir d p)" using d by (simp add: disk_ok_def)
  ultimately obtain names where names: "check_file_in_dir (sd_reopen_ok d) (sd_pair d p) (sd_dir d p) = Some names"
    "set names \<subseteq> set (sd_dir d p)" "distinct names"
    using check_files_sub [of "sd_dir d p" "sd_dir d p" "sd_pair d p"] by (auto simp: check_file_in_dir_def)
  have s0: "lists_ok ?s0" "names_ok ?s0"
    using s folder by (auto simp: lists_ok_def names_ok_def items_of_def)
  have "alloc_ok (sd_alloc d p) names ?s0"
    unfolding alloc_ok_def
  proof (intro conjI ballI allI impI)
    show "distinct names" by (rule names(3))
    show "length f < STORY_FILE_NAME_LENGTH" if "f \<in> set names" for f
      using that names(2) d by (auto simp: disk_ok_def)
    show "st_items ?s0 a = None" if f: "f \<in> set names" "sd_alloc d p f = Some a" for f a
    proof (rule ccontr)
      assume "st_items ?s0 a \<noteq> None"
      then have "a \<in> owned d P" using s(3) by auto
      then obtain q g where g: "q \<in> P" "g \<in> set (sd_dir d q)" "sd_alloc d q g = Some a"
        by (auto simp: owned_def)
      have "p = q" using d f g names(2) unfolding disk_ok_def by (metis option.distinct(1) subsetD)
      with g p show False by simp
    qed
    show "f = g" if "f \<in> set names" "g \<in> set names" "sd_alloc d p f \<noteq> None" "sd_alloc d p f = sd_alloc d p g" for f g
      using that names(2) d unfolding disk_ok_def by blast
  qed
  from load_items_ok [OF s0 this, of p]
  have l: "lists_ok (load_items p (sd_alloc d p) names ?s0)" "names_ok (load_items p (sd_alloc d p) names ?s0)"
    "same_rest ?s0 (load_items p (sd_alloc d p) names ?s0)"
    "dom (st_items (load_items p (sd_alloc d p) names ?s0)) \<subseteq>
      dom (st_items ?s0) \<union> {a. \<exists>f\<in>set names. sd_alloc d p f = Some a}" by blast+
  have "{a. \<exists>f\<in>set names. sd_alloc d p f = Some a} \<subseteq> owned d (insert p P)"
    using names(2) by (auto simp: owned_def)
  moreover have "dom (st_items ?s0) \<subseteq> owned d (insert p P)"
    using s(3) by (auto simp: owned_def)
  ultimately have "dom (st_items (load_items p (sd_alloc d p) names ?s0)) \<subseteq> owned d (insert p P)"
    using l(4) by blast
  moreover have "same_rest s (load_items p (sd_alloc d p) names ?s0)"
    using l(3) by (simp add: same_rest_def)
  moreover have "init_one d p ty folder s = Some (load_items p (sd_alloc d p) names ?s0)"
    using names(1) by (simp add: init_one_def player_init_def)
  ultimately show ?thesis using l(1,2) by blast
qed

definition logs_ok :: "(player_id \<Rightarrow> player_name_time_t option) \<Rightarrow> key_sign_t option \<Rightarrow> bool" where
  "logs_ok playlog keysign \<longleftrightarrow>
     (\<forall>p m. playlog p = Some m \<longrightarrow> length (pt_player_name m) < STORY_FILE_NAME_LENGTH) \<and>
     (\<forall>k. keysign = Some k \<longrightarrow> ks_habit_key k \<le> 2 \<and> ks_english_key k \<le> 2)"

lemma story_init_inv:
  assumes d: "disk_ok d" and l: "logs_ok playlog keysign"
  shows "\<exists>s. story_player_init d (story_zero playlog keysign) = Some s \<and> story_inv j s"
proof -
  let ?s0 = "(story_zero playlog keysign)\<lparr>st_queue := Some []\<rparr>"
  have s0: "lists_ok ?s0" "names_ok ?s0" "dom (st_items ?s0) \<subseteq> owned d {}"
    using l by (auto simp: story_zero_def lists_ok_def names_ok_def items_of_def logs_ok_def)
  obtain s1 where s1: "init_one d g_story_player AUDIO_APP_HABIT ''/sdcard/story'' ?s0 = Some s1"
    "lists_ok s1" "names_ok s1" "same_rest ?s0 s1" "dom (st_items s1) \<subseteq> owned d {g_story_player}"
    using init_one_ok [OF d _ _ s0, of g_story_player "''/sdcard/story''" AUDIO_APP_HABIT] by auto
  obtain s2 where s2: "init_one d g_english_player AUDIO_APP_ENGLISH ''/sdcard/e_story'' s1 = Some s2"
    "lists_ok s2" "names_ok s2" "same_rest s1 s2" "dom (st_items s2) \<subseteq> owned d {g_english_player, g_story_player}"
    using init_one_ok [OF d _ _ s1(2,3,5), of g_english_player "''/sdcard/e_story''" AUDIO_APP_ENGLISH] by auto
  obtain s3 where s3: "init_one d g_story_song_player AUDIO_APP_HABIT ''/sdcard/song'' s2 = Some s3"
    "lists_ok s3" "names_ok s3" "same_rest s2 s3"
    "dom (st_items s3) \<subseteq> owned d {g_story_song_player, g_english_player, g_story_player}"
    using init_one_ok [OF d _ _ s2(2,3,5), of g_story_song_player "''/sdcard/song''" AUDIO_APP_HABIT] by auto
  obtain s4 where s4: "init_one d g_english_song_player AUDIO_APP_ENGLISH ''/sdcard/e_song'' s3 = Some s4"
    "lists_ok s4" "names_ok s4" "same_rest s3 s4"
    using init_one_ok [OF d _ _ s3(2,3,5), of g_english_song_player "''/sdcard/e_song''" AUDIO_APP_ENGLISH] by auto
  have rest: "same_rest ?s0 s4" using s1(4) s2(4) s3(4) s4(4) by (simp add: same_rest_def)
  let ?s5 = "s4\<lparr>st_current := Some g_story_player, st_record_play_msg := False, st_record_queue := Some []\<rparr>"
  have inv5: "story_inv j ?s5"
    using s4(2,3) rest by (simp add: story_inv_defs same_rest_def story_zero_def zero_push_def)
  have "st_keysign ?s5 = keysign" using rest by (simp add: same_rest_def story_zero_def)
  then have "story_inv j (key_number_init ?s5)"
    using inv5 l by (auto simp: key_number_init_def logs_ok_def story_inv_defs split: option.splits)
  with s1(1) s2(1) s3(1) s4(1) show ?thesis by (simp add: story_player_init_def)
qed

section \<open>Properties\<close>

text \<open>The directories, logs and JSON of the witnesses: two stories with their token files.\<close>

definition wit_disk :: story_disk where
  "wit_disk = \<lparr>
     sd_dir = (\<lambda>p. if p = g_story_player then [''token_a'', ''a'', ''b'', ''token_b''] else []),
     sd_reopen_ok = (\<lambda>_. True), sd_pair = (\<lambda>_. False),
     sd_alloc = (\<lambda>_ f. if f = ''a'' then Some 10 else if f = ''b'' then Some 11 else None)\<rparr>"

definition wit_cjson :: "nat cjson" where
  "wit_cjson = \<lparr>cJSON_Parse = (\<lambda>_. None), cJSON_GetObjectItem = (\<lambda>_ _. None),
     cj_valuestring = (\<lambda>_. None), cj_valueint = (\<lambda>_. 0)\<rparr>"

definition wit_item :: "item_state_t \<Rightarrow> string \<Rightarrow> item_entry_t" where
  "wit_item st f = \<lparr>it_state = st, it_file_name = f, it_time = 0\<rparr>"

text \<open>The stories \<open>b\<close> and \<open>a\<close>; \<open>b\<close> plays.\<close>

definition wit_story :: story where
  "wit_story = (story_zero (\<lambda>_. None) None)\<lparr>
     st_player := (\<lambda>_. \<lparr>sp_audio_type = AUDIO_APP_HABIT, sp_folder_path = ''/s'', sp_list = []\<rparr>)
       (g_story_player := \<lparr>sp_audio_type = AUDIO_APP_HABIT, sp_folder_path = ''/s'', sp_list = [11, 10]\<rparr>),
     st_items := [10 \<mapsto> wit_item ITEM_ST_IDLE ''a'', 11 \<mapsto> wit_item ITEM_ST_PLAY ''b''],
     st_current := Some g_story_player, st_queue := Some []\<rparr>"

lemma wit_disk_ok: "disk_ok wit_disk"
  by (auto simp: disk_ok_def wit_disk_def)

lemma wit_logs_ok: "logs_ok (\<lambda>_. None) None"
  by (simp add: logs_ok_def)

lemma wit_story_inv: "story_inv wit_cjson wit_story"
  by (auto simp: story_inv_defs wit_story_def wit_item_def story_zero_def zero_push_def)

lemma wit_story_playing: "playing g_story_player wit_story = {[11, 10] ! 0}"
  by (auto simp: playing_def wit_story_def items_of_def wit_item_def)

lemma wit_story_items: "items_of g_story_player wit_story = [11, 10]"
  by (simp add: items_of_def wit_story_def)



text \<open>Next and previous go round the play list, one item at a time and back again.\<close>

theorem next_and_prev_go_round:
  assumes "distinct as" "i < length as"
  shows "get_next_item as (Some (as ! i)) = Some (as ! ((i + 1) mod length as)) \<and>
    get_prev_item as (Some (as ! i)) = Some (as ! ((i + length as - 1) mod length as)) \<and>
    get_prev_item as (get_next_item as (Some (as ! i))) = Some (as ! i) \<and>
    get_next_item as (get_prev_item as (Some (as ! i))) = Some (as ! i)"
proof -
  let ?n = "length as"
  have "0 < ?n" using assms(2) by linarith
  then have lt: "(i + 1) mod ?n < ?n" "(i + ?n - 1) mod ?n < ?n" by (rule mod_less_divisor)+
  have n: "get_next_item as (Some (as ! i)) = Some (as ! ((i + 1) mod length as))"
    using get_next_nth [OF assms] by simp
  have p: "get_prev_item as (Some (as ! i)) = Some (as ! ((i + length as - 1) mod length as))"
    by (rule get_prev_nth [OF assms])
  have "((i + 1) mod ?n + ?n - 1) mod ?n = i"
    using assms(2) by (cases "i + 1 = ?n") auto
  then have "get_prev_item as (get_next_item as (Some (as ! i))) = Some (as ! i)"
    using get_prev_nth [OF assms(1) lt(1)] n by simp
  moreover have "Suc ((i + ?n - 1) mod ?n) mod ?n = i"
    using assms(2) by (cases i) auto
  then have "get_next_item as (get_prev_item as (Some (as ! i))) = Some (as ! i)"
    using get_next_nth [OF assms(1) lt(2)] p by simp
  ultimately show ?thesis using n p by simp
qed

theorem next_and_prev_go_round_witness:
  "get_next_item [11, 10, 12] (Some 12) = Some 11 \<and> get_prev_item [11, 10, 12] (Some 11) = Some 12 \<and>
   get_next_item [11, 10, 12] (Some 11) = Some 10"
  using next_and_prev_go_round [of "[11, 10, 12]" 2] next_and_prev_go_round [of "[11, 10, 12]" 0] by simp

text \<open>When one item plays, the next command stops its song and starts the file of its cyclic
  successor with no tone and with the item as callback parameter; then exactly that item plays. The
  previous command does the same with the predecessor.\<close>

theorem next_and_prev_move_the_playing_item:
  assumes "story_inv j s" "i < length (items_of p s)" "playing p s = {items_of p s ! i}"
  shows "\<exists>s1 s2. player_play_next (Some p) s = Some s1 \<and> player_play_prev (Some p) s = Some s2 \<and>
    (let n = length (items_of p s);
         b = items_of p s ! ((i + 1) mod n); c = items_of p s ! ((i + n - 1) mod n)
     in playing p s1 = {b} \<and> items_of p s1 = items_of p s \<and>
        st_calls s1 = st_calls s @ [PlayStop (sp_audio_type (st_player s p)),
          PlayStart (start_param p b (item_path p b s) None s)] \<and>
        playing p s2 = {c} \<and> items_of p s2 = items_of p s \<and>
        st_calls s2 = st_calls s @ [PlayStop (sp_audio_type (st_player s p)),
          PlayStart (start_param p c (item_path p c s) None s)])"
proof -
  have d: "distinct (items_of p s)" using assms(1) by (simp add: story_inv_def lists_ok_def)
  show ?thesis
    using play_step_plays [OF assms(1,3) neighbour_next] play_step_plays [OF assms(1,3) neighbour_prev]
      get_next_nth [OF d assms(2)] get_prev_nth [OF d assms(2)]
    unfolding player_play_next_def player_play_prev_def Let_def by auto
qed

theorem next_and_prev_move_the_playing_item_witness:
  "\<exists>s1. player_play_next (Some g_story_player) wit_story = Some s1 \<and> playing g_story_player s1 = {10} \<and>
    st_calls s1 = [PlayStop AUDIO_APP_HABIT, PlayStart \<lparr>pp_play_app_type = AUDIO_APP_HABIT,
      pp_is_local_file = True, pp_uri = Some ''/s/a'', pp_tone = None,
      pp_cb = Some STORY_AUDIO_PLAY_CB, pp_cb_param = Some 10\<rparr>]"
proof -
  have c: "st_calls wit_story = []" "sp_audio_type (st_player wit_story g_story_player) = AUDIO_APP_HABIT"
    "item_path g_story_player 10 wit_story = ''/s/a''"
    by (simp_all add: wit_story_def story_zero_def item_path_def wit_item_def)
  show ?thesis
    using next_and_prev_move_the_playing_item [OF wit_story_inv, of 0 g_story_player]
      wit_story_playing c unfolding wit_story_items
    by (auto simp: Let_def start_param_def)
qed

text \<open>An item that cannot be played ends the playing. The callback takes it out of the list and
  frees it, and asks for the next item; but the search for the next item starts at the playing item,
  which is gone, so the task calls nothing and no item plays.\<close>

theorem play_error_stalls:
  assumes "story_inv j s" "st_current s = Some p" "playing p s = {a}" "st_queue s = Some []"
    and "\<not> push_pending s"
  shows "\<exists>s'. run_opt (story_step j) [Audio NOTIFY_STATUS_PLAY_ERROR app (Some a), Task m] s = Some s' \<and>
    st_calls s' = st_calls s \<and> playing p s' = {} \<and> st_queue s' = Some []"
  using error_stalls [OF assms] .

theorem play_error_stalls_witness:
  "\<exists>s'. run_opt (story_step wit_cjson)
      [Audio NOTIFY_STATUS_PLAY_ERROR AUDIO_APP_HABIT (Some 11), Task True] wit_story = Some s' \<and>
    st_calls s' = [] \<and> playing g_story_player s' = {}"
proof -
  have "st_current wit_story = Some g_story_player" "st_queue wit_story = Some []" "\<not> push_pending wit_story"
    "playing g_story_player wit_story = {11}" "st_calls wit_story = []"
    using wit_story_playing by (simp_all add: wit_story_def story_zero_def push_pending_def zero_push_def)
  from play_error_stalls [OF wit_story_inv this(1,4,2,3), of AUDIO_APP_HABIT True] this(5)
  show ?thesis by auto
qed

text \<open>Starting a player whose item plays (and that has no paused or stopped item and no log) sets
  a second item to play, so two items of one list are in state play.\<close>

theorem start_twice_plays_two_items:
  assumes "story_inv j s" "playing p s = {a}"
    and "\<forall>x\<in>set (items_of p s). it_state (the (st_items s x)) \<notin> {ITEM_ST_PAUSE, ITEM_ST_STOP}"
    and "Option.bind (st_current s) (st_playlog s) = None"
    and "search_in_play_list_by_state p ITEM_ST_IDLE s = Some (Some b)"
  shows "\<exists>s'. player_play_start (Some p) tone s = Some s' \<and> playing p s' = {a, b} \<and> a \<noteq> b"
  using start_adds_playing [OF assms] .

theorem start_twice_plays_two_items_witness:
  "\<exists>s'. player_play_start (Some g_story_player) None wit_story = Some s' \<and>
    playing g_story_player s' = {11, 10}"
proof -
  have "\<forall>x\<in>set (items_of g_story_player wit_story).
      it_state (the (st_items wit_story x)) \<notin> {ITEM_ST_PAUSE, ITEM_ST_STOP}"
    unfolding wit_story_items by (simp add: wit_story_def wit_item_def)
  moreover have "Option.bind (st_current wit_story) (st_playlog wit_story) = None"
    by (simp add: wit_story_def story_zero_def)
  moreover have "search_in_play_list_by_state g_story_player ITEM_ST_IDLE wit_story = Some (Some 10)"
    unfolding search_in_play_list_by_state_def wit_story_items by (simp add: wit_story_def wit_item_def)
  moreover have "playing g_story_player wit_story = {11}" using wit_story_playing by simp
  ultimately show ?thesis
    using start_twice_plays_two_items [OF wit_story_inv, of g_story_player 11 10 None] by simp
qed

text \<open>The address of a pushed song, a string in its array, is rewritten from https to http and
  nothing else: the loop ends within the array, and the string left there is the old one without its
  fifth character when it starts with https, and the old one otherwise.\<close>

theorem https_becomes_http:
  assumes "CHR 0x00 \<notin> set url"
  shows "\<exists>b. check_https_to_http (url @ [CHR 0x00]) = Some b \<and> length b = length url + 1 \<and>
    terminated b = (if take 5 url = ''https'' then ''http'' @ drop 5 url else url)"
  using https_eq [OF assms] .

theorem https_becomes_http_witness:
  "\<exists>b. check_https_to_http (''https://a'' @ [CHR 0x00]) = Some b \<and> terminated b = ''http://a''"
  using https_becomes_http [of "''https://a''"] by auto

text \<open>The check of a directory keeps token files, and songs a token file of which is there. The
  first file is an exception: the flag \<open>pair\<close> has not been set when it is judged, so a song without a
  token survives there whenever the flag happens to be set.\<close>

theorem check_keeps_songs_with_token:
  assumes "\<forall>d\<in>set (f # ds). is_token d \<or> length d < 58"
  shows "check_file_in_dir (\<lambda>_. True) pair (f # ds) = Some
    ((if is_token f \<or> has_token (f # ds) f \<or> pair then [f] else []) @
     filter (\<lambda>d. is_token d \<or> has_token (f # ds) d) ds)"
  using check_files_eq [OF assms, of "f # ds" pair] by (auto simp: check_file_in_dir_def)

theorem check_keeps_songs_with_token_witness:
  "check_file_in_dir (\<lambda>_. True) True [''x'', ''y'', ''token_z'', ''z''] = Some [''x'', ''token_z'', ''z''] \<and>
   check_file_in_dir (\<lambda>_. True) False [''x'', ''y'', ''token_z'', ''z''] = Some [''token_z'', ''z'']"
  using check_keeps_songs_with_token [of "''x''" "[''y'', ''token_z'', ''z'']"]
  by (simp add: is_token_def has_token_def STORY_FILE_PREFIX_def)

end
