(* ===== verification/Alarms.thy ===== *)
theory Alarms
  imports Alarm_Prelude "HOL-Library.Word"
begin

text \<open>
  The alarm clock, \<open>sys/alarms.c\<close>: the list of all alarms, the list of today's alarms (the scan
  list, whose nodes point to nodes of the first), the commands of the applications and the tick of
  the alarm task that rings.

  \<^item> Both lists are lists of node addresses; \<open>a_nodes\<close> and \<open>a_scan_nodes\<close> are the live nodes.
  \<^item> The clock and the allocations are inputs of a step (\<open>alarm_env\<close>). The task wakes up at least
    every ten seconds; a step is one round of its loop.
  \<^item> Callbacks and updates of the display are recorded in \<open>a_trace\<close>.
\<close>

section \<open>Data\<close>

datatype alarm_st_t = ALARM_ST_OFF | ALARM_ST_ON | ALARM_ST_UNDEFINE

record alarm_t =
  al_state :: alarm_st_t
  al_one_shot :: bool
  al_hour :: nat
  al_minute :: nat
  al_week_map :: "8 word"
  al_alarm_id :: int
  al_callback :: "addr option"

record alarm_scan_data_t =
  sc_vaild :: bool
  sc_wday :: nat
  sc_year :: nat
  sc_month :: nat
  sc_day :: nat
  sc_hour :: nat
  sc_minute :: nat

text \<open>What \<open>localtime_r\<close> gives.\<close>

record tm =
  tm_year :: nat
  tm_mon :: nat
  tm_mday :: nat
  tm_wday :: nat
  tm_hour :: nat
  tm_min :: nat

datatype alarm_cmd_t = ALARM_CMD_ADD_ALARM alarm_t | ALARM_CMD_DEL_ALARM int | ALARM_CMD_FRESH_ALL
  | ALARM_CMD_UNDEFINE

datatype alarm_event = AlarmCallback addr int | DisplayUpdate nat nat

abbreviation ALARM_QUEUE_SIZE :: nat where "ALARM_QUEUE_SIZE \<equiv> 10"

record alarms =
  a_nodes :: "addr \<rightharpoonup> alarm_t"
  a_list :: "addr list"
  a_scan_nodes :: "addr \<rightharpoonup> addr"
  a_scan :: "addr list"
  a_date :: alarm_scan_data_t
  a_queue :: "alarm_cmd_t list"
  a_need_update :: bool
  a_disp_hour :: nat
  a_disp_minute :: nat
  a_trace :: "alarm_event list"

section \<open>The lists\<close>

definition add_alarm_list :: "addr \<Rightarrow> alarms \<Rightarrow> alarms" where
  "add_alarm_list a s = s\<lparr>a_list := a_list s @ [a]\<rparr>"

definition seek_alarm_list :: "int \<Rightarrow> alarms \<Rightarrow> addr option option" where
  "seek_alarm_list i s = find_node (\<lambda>n. al_alarm_id n = i) (a_nodes s) (a_list s)"

definition unlink_alarm :: "addr \<Rightarrow> alarms \<Rightarrow> alarms" where
  "unlink_alarm a s = s\<lparr>a_list := remove1 a (a_list s)\<rparr>"

definition del_alarm_list :: "int \<Rightarrow> alarms \<Rightarrow> (alarms \<times> addr option) option" where
  "del_alarm_list i s = do {
     r \<leftarrow> find_node (\<lambda>n. al_alarm_id n = i) (a_nodes s) (a_list s);
     Some (case r of None \<Rightarrow> (s, None) | Some a \<Rightarrow> (unlink_alarm a s, Some a)) }"

definition add_scan_list :: "addr \<Rightarrow> alarms \<Rightarrow> alarms" where
  "add_scan_list c s = s\<lparr>a_scan := a_scan s @ [c]\<rparr>"

definition unlink_scan :: "addr \<Rightarrow> alarms \<Rightarrow> alarms" where
  "unlink_scan c s = s\<lparr>a_scan := remove1 c (a_scan s)\<rparr>"

text \<open>The alarm a scan node points to: \<open>current->parent->node\<close>.\<close>

definition parent_alarm :: "alarms \<Rightarrow> addr \<Rightarrow> alarm_t option" where
  "parent_alarm s c = Option.bind (a_scan_nodes s c) (a_nodes s)"

definition del_scan_list :: "int \<Rightarrow> alarms \<Rightarrow> (alarms \<times> addr option) option" where
  "del_scan_list i s = do {
     r \<leftarrow> find_node (\<lambda>n. al_alarm_id n = i) (parent_alarm s) (a_scan s);
     Some (case r of None \<Rightarrow> (s, None) | Some c \<Rightarrow> (unlink_scan c s, Some c)) }"

definition free_alarm :: "addr \<Rightarrow> alarms \<Rightarrow> alarms option" where
  "free_alarm a s = (case a_nodes s a of
     None \<Rightarrow> None | Some _ \<Rightarrow> Some (s\<lparr>a_nodes := (a_nodes s)(a := None)\<rparr>))"

definition free_scan :: "addr \<Rightarrow> alarms \<Rightarrow> alarms option" where
  "free_scan c s = (case a_scan_nodes s c of
     None \<Rightarrow> None | Some _ \<Rightarrow> Some (s\<lparr>a_scan_nodes := (a_scan_nodes s)(c := None)\<rparr>))"

text \<open>A new scan node for an alarm, if there is memory for it.\<close>

definition scan_alarm :: "addr option \<Rightarrow> addr \<Rightarrow> alarms \<Rightarrow> alarms" where
  "scan_alarm mem a s =
     (case mem of
        None \<Rightarrow> s
      | Some c \<Rightarrow> add_scan_list c (s\<lparr>a_scan_nodes := (a_scan_nodes s)(c \<mapsto> a)\<rparr>))"

section \<open>Commands of the applications\<close>

definition send_alarm_cmd :: "alarm_cmd_t \<Rightarrow> alarms \<Rightarrow> alarms" where
  "send_alarm_cmd c s = s\<lparr>a_queue := queue_send ALARM_QUEUE_SIZE c (a_queue s)\<rparr>"

definition add_alarm :: "bool \<Rightarrow> alarm_t option \<Rightarrow> alarms \<Rightarrow> alarms" where
  "add_alarm malloc_ok app_alarm s =
     (case app_alarm of
        None \<Rightarrow> s
      | Some al \<Rightarrow> if malloc_ok then send_alarm_cmd (ALARM_CMD_ADD_ALARM al) s else s)"

definition remove_alarm :: "int \<Rightarrow> alarms \<Rightarrow> alarms" where
  "remove_alarm i s = send_alarm_cmd (ALARM_CMD_DEL_ALARM i) s"

definition fresh_alarm :: "alarms \<Rightarrow> alarms" where
  "fresh_alarm s = send_alarm_cmd ALARM_CMD_FRESH_ALL s"

section \<open>The task\<close>

text \<open>What the outside gives in one round: memory and the clock, read once for each use.\<close>

record alarm_env =
  ae_node :: "addr option"
  ae_scan :: "addr option"
  ae_rebuild :: "addr \<Rightarrow> addr option"
  ae_fresh_now :: tm
  ae_now :: tm

text \<open>An alarm with the identifier of a new one is unlinked and freed.\<close>

definition delete_old :: "int \<Rightarrow> alarms \<Rightarrow> alarms option" where
  "delete_old i s = do {
     old \<leftarrow> seek_alarm_list i s;
     (case old of
        None \<Rightarrow> Some s
      | Some a \<Rightarrow> do {
          n \<leftarrow> a_nodes s a;
          r \<leftarrow> del_alarm_list (al_alarm_id n) s;
          free_alarm a (fst r) }) }"

definition execute_add :: "addr option \<Rightarrow> addr option \<Rightarrow> alarm_t \<Rightarrow> alarms \<Rightarrow> alarms option" where
  "execute_add node_mem scan_mem al s = do {
     s1 \<leftarrow> delete_old (al_alarm_id al) s;
     Some (case node_mem of
             None \<Rightarrow> s1
           | Some a \<Rightarrow>
               let s2 = add_alarm_list a (s1\<lparr>a_nodes := (a_nodes s1)(a \<mapsto> al)\<rparr>)
               in if bit (al_week_map al) (sc_wday (a_date s2)) then scan_alarm scan_mem a s2 else s2) }"

definition execute_del :: "int \<Rightarrow> alarms \<Rightarrow> alarms option" where
  "execute_del i s = do {
     r \<leftarrow> seek_alarm_list i s;
     (case r of
        None \<Rightarrow> Some s
      | Some a \<Rightarrow> do {
          n \<leftarrow> a_nodes s a;
          Some (s\<lparr>a_nodes := (a_nodes s)(a \<mapsto> n\<lparr>al_state := ALARM_ST_OFF\<rparr>)\<rparr>) }) }"

fun clear_scan :: "addr list \<Rightarrow> alarms \<Rightarrow> alarms option" where
  "clear_scan [] s = Some s"
| "clear_scan (c # cs) s = do {
     n \<leftarrow> parent_alarm s c;
     r \<leftarrow> del_scan_list (al_alarm_id n) s;
     s1 \<leftarrow> free_scan c (fst r);
     clear_scan cs s1 }"

fun rebuild_scan :: "(addr \<Rightarrow> addr option) \<Rightarrow> addr list \<Rightarrow> alarms \<Rightarrow> alarms option" where
  "rebuild_scan mem [] s = Some s"
| "rebuild_scan mem (a # as) s = do {
     n \<leftarrow> a_nodes s a;
     s1 \<leftarrow> (if al_state n = ALARM_ST_OFF then do {
              r \<leftarrow> del_alarm_list (al_alarm_id n) s;
              free_alarm a (fst r) }
            else Some (if bit (al_week_map n) (sc_wday (a_date s)) then scan_alarm (mem a) a s else s));
     rebuild_scan mem as s1 }"

definition set_date :: "tm \<Rightarrow> alarms \<Rightarrow> alarms" where
  "set_date t s = s\<lparr>a_date := (a_date s)\<lparr>sc_year := tm_year t + 1900, sc_month := tm_mon t + 1,
     sc_day := tm_mday t, sc_wday := tm_wday t, sc_vaild := True\<rparr>\<rparr>"

definition execute_fresh :: "tm \<Rightarrow> (addr \<Rightarrow> addr option) \<Rightarrow> alarms \<Rightarrow> alarms option" where
  "execute_fresh t mem s = do {
     s1 \<leftarrow> clear_scan (a_scan s) (set_date t s);
     rebuild_scan mem (a_list s1) s1 }"

definition execute_alarm_cmd :: "alarm_env \<Rightarrow> alarm_cmd_t \<Rightarrow> alarms \<Rightarrow> alarms option" where
  "execute_alarm_cmd e c s =
     (case c of
        ALARM_CMD_ADD_ALARM al \<Rightarrow> execute_add (ae_node e) (ae_scan e) al s
      | ALARM_CMD_DEL_ALARM i \<Rightarrow> execute_del i s
      | ALARM_CMD_FRESH_ALL \<Rightarrow> execute_fresh (ae_fresh_now e) (ae_rebuild e) s
      | ALARM_CMD_UNDEFINE \<Rightarrow> Some s)"

text \<open>The hour and minute shown; the display is updated when one of them changed.\<close>

definition update_clock :: "tm \<Rightarrow> alarms \<Rightarrow> alarms" where
  "update_clock t s =
     (let s1 = (if sc_hour (a_date s) \<noteq> tm_hour t
                then s\<lparr>a_date := (a_date s)\<lparr>sc_hour := tm_hour t\<rparr>, a_disp_hour := tm_hour t,
                       a_need_update := True\<rparr> else s);
          s2 = (if sc_minute (a_date s1) \<noteq> tm_min t
                then s1\<lparr>a_date := (a_date s1)\<lparr>sc_minute := tm_min t\<rparr>, a_disp_minute := tm_min t,
                        a_need_update := True\<rparr> else s1)
      in if a_need_update s2
         then s2\<lparr>a_trace := a_trace s2 @ [DisplayUpdate (a_disp_hour s2) (a_disp_minute s2)],
                 a_need_update := False\<rparr>
         else s2)"

definition time_equal :: "alarm_scan_data_t \<Rightarrow> alarm_t \<Rightarrow> bool" where
  "time_equal d n \<longleftrightarrow> sc_hour d = al_hour n \<and> sc_minute d = al_minute n"

definition ring :: "alarm_t \<Rightarrow> alarm_event list" where
  "ring n = (case al_callback n of None \<Rightarrow> [] | Some f \<Rightarrow> [AlarmCallback f (al_alarm_id n)])"

definition turn_off :: "addr \<Rightarrow> alarm_t \<Rightarrow> alarms \<Rightarrow> alarms" where
  "turn_off c n s =
     (case a_scan_nodes s c of
        None \<Rightarrow> s
      | Some p \<Rightarrow> if al_one_shot n
                  then s\<lparr>a_nodes := (a_nodes s)(p \<mapsto> n\<lparr>al_state := ALARM_ST_OFF\<rparr>)\<rparr> else s)"

fun scan_loop :: "addr list \<Rightarrow> alarms \<Rightarrow> alarms option" where
  "scan_loop [] s = Some s"
| "scan_loop (c # cs) s = do {
     n \<leftarrow> parent_alarm s c;
     if time_equal (a_date s) n \<and> al_state n = ALARM_ST_ON then do {
       r \<leftarrow> del_scan_list (al_alarm_id n) (s\<lparr>a_trace := a_trace s @ ring n\<rparr>);
       s1 \<leftarrow> free_scan c (turn_off c n (fst r));
       scan_loop cs s1 }
     else scan_loop cs s }"

definition alarm_tick :: "tm \<Rightarrow> alarms \<Rightarrow> alarms option" where
  "alarm_tick t s =
     (if \<not> sc_vaild (a_date s) then Some s
      else if tm_mday t \<noteq> sc_day (a_date s) then Some (fresh_alarm s)
      else let s1 = update_clock t s in scan_loop (a_scan s1) s1)"

definition alarm_task :: "alarm_env \<Rightarrow> alarms \<Rightarrow> alarms option" where
  "alarm_task e s = do {
     s1 \<leftarrow> (case a_queue s of
             [] \<Rightarrow> Some s
           | c # q \<Rightarrow> execute_alarm_cmd e c (s\<lparr>a_queue := q\<rparr>));
     alarm_tick (ae_now e) s1 }"

definition alarm_init :: alarms where
  "alarm_init = \<lparr>a_nodes = Map.empty, a_list = [], a_scan_nodes = Map.empty, a_scan = [],
     a_date = \<lparr>sc_vaild = False, sc_wday = 0, sc_year = 0, sc_month = 0, sc_day = 0, sc_hour = 0,
               sc_minute = 0\<rparr>,
     a_queue = [], a_need_update = False, a_disp_hour = 0, a_disp_minute = 0, a_trace = []\<rparr>"

section \<open>All that happens to the alarms\<close>

datatype alarm_input = AddAlarm bool "alarm_t option" | RemoveAlarm int | FreshAlarm
  | AlarmTask alarm_env

definition alarm_step :: "alarm_input \<Rightarrow> alarms \<Rightarrow> alarms option" where
  "alarm_step i s =
     (case i of
        AddAlarm ok al \<Rightarrow> Some (add_alarm ok al s)
      | RemoveAlarm n \<Rightarrow> Some (remove_alarm n s)
      | FreshAlarm \<Rightarrow> Some (fresh_alarm s)
      | AlarmTask e \<Rightarrow> alarm_task e s)"

text \<open>
  Memory given is not in use, different nodes get different memory, and no alarm is replaced while a
  scan node points to it.
\<close>

definition on_scan :: "int \<Rightarrow> alarms \<Rightarrow> bool" where
  "on_scan i s \<longleftrightarrow> (\<exists>c n. c \<in> set (a_scan s) \<and> parent_alarm s c = Some n \<and> al_alarm_id n = i)"

definition alarm_input_ok :: "alarm_input \<Rightarrow> alarms \<Rightarrow> bool" where
  "alarm_input_ok i s \<longleftrightarrow>
     (case i of
        AlarmTask e \<Rightarrow>
          (case a_queue s of
             ALARM_CMD_ADD_ALARM al # _ \<Rightarrow>
               \<not> on_scan (al_alarm_id al) s \<and>
               (\<forall>a n. ae_node e = Some a \<longrightarrow> a_nodes s a = Some n \<longrightarrow> al_alarm_id n = al_alarm_id al) \<and>
               (\<forall>c. ae_scan e = Some c \<longrightarrow> a_scan_nodes s c = None)
           | ALARM_CMD_FRESH_ALL # _ \<Rightarrow> inj_on (ae_rebuild e) {a. ae_rebuild e a \<noteq> None}
           | _ \<Rightarrow> True)
      | _ \<Rightarrow> True)"

definition alarms_inv :: "alarms \<Rightarrow> bool" where
  "alarms_inv s \<longleftrightarrow>
     distinct (a_list s) \<and> set (a_list s) = dom (a_nodes s) \<and>
     distinct (a_scan s) \<and> set (a_scan s) = dom (a_scan_nodes s) \<and>
     ran (a_scan_nodes s) \<subseteq> dom (a_nodes s) \<and>
     inj_on (\<lambda>a. al_alarm_id (the (a_nodes s a))) (dom (a_nodes s)) \<and>
     inj_on (a_scan_nodes s) (dom (a_scan_nodes s))"

end
