(* ===== verification/Alarms_Inv.thy ===== *)
theory Alarms_Inv
  imports Alarms
begin

text \<open>
  The invariant of the alarm lists and what every step does to it: identifiers are unique, every scan
  node points to a live alarm, and no two to the same. The lists are interpretations of the contract
  of tail lists, the whole machine one of the contract of safe machines.
\<close>

interpretation alarm_list: tail_list a_list add_alarm_list unlink_alarm
  by unfold_locales (simp_all add: add_alarm_list_def unlink_alarm_def)

interpretation scan_list: tail_list a_scan add_scan_list unlink_scan
  by unfold_locales (simp_all add: add_scan_list_def unlink_scan_def)

section \<open>The invariant\<close>

lemma alarms_invD:
  assumes "alarms_inv s"
  shows "distinct (a_list s)" "set (a_list s) = dom (a_nodes s)" "distinct (a_scan s)"
    "set (a_scan s) = dom (a_scan_nodes s)" "ran (a_scan_nodes s) \<subseteq> dom (a_nodes s)"
    "inj_on (\<lambda>a. al_alarm_id (the (a_nodes s a))) (dom (a_nodes s))"
    "inj_on (a_scan_nodes s) (dom (a_scan_nodes s))"
  using assms by (simp_all add: alarms_inv_def)

lemma scan_parent:
  assumes "alarms_inv s" "c \<in> set (a_scan s)"
  obtains p n where "a_scan_nodes s c = Some p" "a_nodes s p = Some n" "parent_alarm s c = Some n"
proof -
  obtain p where p: "a_scan_nodes s c = Some p" using alarms_invD(4) [OF assms(1)] assms(2) by auto
  then have "p \<in> dom (a_nodes s)" using alarms_invD(5) [OF assms(1)] by (auto simp: ran_def)
  then obtain n where "a_nodes s p = Some n" by auto
  with p that show thesis by (simp add: parent_alarm_def)
qed

lemma same_id_same_node:
  "alarms_inv s \<Longrightarrow> a_nodes s a = Some n \<Longrightarrow> a_nodes s b = Some m \<Longrightarrow> al_alarm_id n = al_alarm_id m
    \<Longrightarrow> a = b"
  using alarms_invD(6) [of s] by (auto dest!: inj_onD [of _ _ a b])

lemma same_id_same_scan:
  assumes inv: "alarms_inv s" and "c \<in> set (a_scan s)" "d \<in> set (a_scan s)"
    and "parent_alarm s c = Some n" "parent_alarm s d = Some m" "al_alarm_id n = al_alarm_id m"
  shows "c = d"
proof -
  obtain p where p: "a_scan_nodes s c = Some p" "a_nodes s p = Some n"
    using scan_parent [OF assms(1,2)] assms(4) by (metis option.inject)
  obtain q where q: "a_scan_nodes s d = Some q" "a_nodes s q = Some m"
    using scan_parent [OF assms(1,3)] assms(5) by (metis option.inject)
  have "p = q" using same_id_same_node [OF inv p(2) q(2) assms(6)] .
  with p q have "a_scan_nodes s c = a_scan_nodes s d" by simp
  then show ?thesis using inj_onD [OF alarms_invD(7) [OF inv], of c d] p(1) q(1) by (simp add: domIff)
qed

lemma seek_eq:
  assumes inv: "alarms_inv s" and a: "a_nodes s a = Some n"
  shows "seek_alarm_list (al_alarm_id n) s = Some (Some a)"
    "del_alarm_list (al_alarm_id n) s = Some (unlink_alarm a s, Some a)"
proof -
  have sub: "set (a_list s) \<subseteq> dom (a_nodes s)" using alarms_invD(2) [OF inv] by simp
  have mem: "a \<in> set (a_list s)" using alarms_invD(2) [OF inv] a by auto
  obtain b where b: "find_node (\<lambda>m. al_alarm_id m = al_alarm_id n) (a_nodes s) (a_list s) = Some (Some b)"
    using find_node_first [OF sub mem, of "\<lambda>m. al_alarm_id m = al_alarm_id n"] a by auto
  with find_node_total [OF sub, of "\<lambda>m. al_alarm_id m = al_alarm_id n"]
  have "b \<in> set (a_list s)" "al_alarm_id (the (a_nodes s b)) = al_alarm_id n" by simp_all
  with sub obtain m where "a_nodes s b = Some m" "al_alarm_id m = al_alarm_id n" by auto
  then have "b = a" using same_id_same_node [OF inv] a by blast
  with b show "seek_alarm_list (al_alarm_id n) s = Some (Some a)"
    "del_alarm_list (al_alarm_id n) s = Some (unlink_alarm a s, Some a)"
    by (simp_all add: seek_alarm_list_def del_alarm_list_def)
qed

lemma seek_total:
  assumes inv: "alarms_inv s"
  shows "seek_alarm_list i s = Some None \<and> (\<forall>a n. a_nodes s a = Some n \<longrightarrow> al_alarm_id n \<noteq> i) \<or>
    (\<exists>a n. seek_alarm_list i s = Some (Some a) \<and> a_nodes s a = Some n \<and> al_alarm_id n = i)"
proof (cases "\<exists>a n. a_nodes s a = Some n \<and> al_alarm_id n = i")
  case True
  with seek_eq(1) [OF inv] show ?thesis by blast
next
  case False
  have "\<forall>b\<in>set (a_list s). al_alarm_id (the (a_nodes s b)) \<noteq> i"
  proof
    fix b assume "b \<in> set (a_list s)"
    then obtain m where m: "a_nodes s b = Some m" using alarms_invD(2) [OF inv] by auto
    with False have "al_alarm_id m \<noteq> i" by blast
    with m show "al_alarm_id (the (a_nodes s b)) \<noteq> i" by simp
  qed
  then have "find_node (\<lambda>n. al_alarm_id n = i) (a_nodes s) (a_list s) = Some None"
    by (intro find_node_none) (simp_all add: alarms_invD(2) [OF inv])
  with False show ?thesis by (simp add: seek_alarm_list_def)
qed

lemma del_scan_eq:
  assumes inv: "alarms_inv s" and c: "c \<in> set (a_scan s)" "parent_alarm s c = Some n"
  shows "del_scan_list (al_alarm_id n) s = Some (unlink_scan c s, Some c)"
proof -
  have sub: "set (a_scan s) \<subseteq> dom (parent_alarm s)"
    using scan_parent [OF inv] by blast
  obtain b where b: "find_node (\<lambda>m. al_alarm_id m = al_alarm_id n) (parent_alarm s) (a_scan s) = Some (Some b)"
    using find_node_first [OF sub c(1), of "\<lambda>m. al_alarm_id m = al_alarm_id n"] c(2) by auto
  with find_node_total [OF sub, of "\<lambda>m. al_alarm_id m = al_alarm_id n"]
  have mem: "b \<in> set (a_scan s)" "al_alarm_id (the (parent_alarm s b)) = al_alarm_id n" by simp_all
  with sub obtain m where "parent_alarm s b = Some m" "al_alarm_id m = al_alarm_id n" by auto
  then have "b = c" using same_id_same_scan [OF inv mem(1) c(1)] c(2) by blast
  with b show ?thesis by (simp add: del_scan_list_def)
qed

lemma alarms_inv_fields [simp]:
  "alarms_inv (s\<lparr>a_trace := tr\<rparr>) = alarms_inv s" "alarms_inv (s\<lparr>a_queue := q\<rparr>) = alarms_inv s"
  "alarms_inv (s\<lparr>a_date := d\<rparr>) = alarms_inv s" "alarms_inv (s\<lparr>a_disp_hour := h\<rparr>) = alarms_inv s"
  "alarms_inv (s\<lparr>a_disp_minute := m\<rparr>) = alarms_inv s" "alarms_inv (s\<lparr>a_need_update := b\<rparr>) = alarms_inv s"
  by (simp_all add: alarms_inv_def)

lemma alarms_inv_update:
  assumes inv: "alarms_inv s" and n: "a_nodes s p = Some n" and i: "al_alarm_id n' = al_alarm_id n"
  shows "alarms_inv (s\<lparr>a_nodes := (a_nodes s)(p \<mapsto> n')\<rparr>)"
proof -
  have "(\<lambda>a. al_alarm_id (the (((a_nodes s)(p \<mapsto> n')) a))) = (\<lambda>a. al_alarm_id (the (a_nodes s a)))"
    using n i by auto
  moreover have "dom ((a_nodes s)(p \<mapsto> n')) = dom (a_nodes s)" using n by auto
  ultimately show ?thesis using inv by (simp add: alarms_inv_def)
qed

text \<open>A scan node taken out and freed; an alarm that no scan node points to taken out and freed.\<close>

definition drop_scan :: "addr \<Rightarrow> alarms \<Rightarrow> alarms" where
  "drop_scan c s = s\<lparr>a_scan := remove1 c (a_scan s), a_scan_nodes := (a_scan_nodes s)(c := None)\<rparr>"

definition drop_alarm :: "addr \<Rightarrow> alarms \<Rightarrow> alarms" where
  "drop_alarm a s = s\<lparr>a_list := remove1 a (a_list s), a_nodes := (a_nodes s)(a := None)\<rparr>"

lemma drop_scan_inv:
  assumes "alarms_inv s"
  shows "alarms_inv (drop_scan c s)"
proof -
  note inv = alarms_invD [OF assms]
  have "ran ((a_scan_nodes s)(c := None)) \<subseteq> ran (a_scan_nodes s)" by (auto simp: ran_def)
  moreover have "inj_on ((a_scan_nodes s)(c := None)) (dom (a_scan_nodes s) - {c})"
    using inv(7) by (auto simp: inj_on_def)
  ultimately show ?thesis using inv
    by (auto simp: alarms_inv_def drop_scan_def)
qed

lemma drop_alarm_inv:
  assumes "alarms_inv s" "a \<notin> ran (a_scan_nodes s)"
  shows "alarms_inv (drop_alarm a s)"
proof -
  note inv = alarms_invD [OF assms(1)]
  have "inj_on (\<lambda>b. al_alarm_id (the (((a_nodes s)(a := None)) b))) (dom (a_nodes s) - {a})"
    using inv(6) by (auto simp: inj_on_def)
  with inv assms(2) show ?thesis by (auto simp: alarms_inv_def drop_alarm_def)
qed

lemma add_alarm_inv:
  assumes "alarms_inv s" "a_nodes s a = None"
    and new: "\<forall>b n. a_nodes s b = Some n \<longrightarrow> al_alarm_id n \<noteq> al_alarm_id al"
  shows "alarms_inv (add_alarm_list a (s\<lparr>a_nodes := (a_nodes s)(a \<mapsto> al)\<rparr>))"
proof -
  note inv = alarms_invD [OF assms(1)]
  have "inj_on (\<lambda>b. al_alarm_id (the (((a_nodes s)(a \<mapsto> al)) b))) (insert a (dom (a_nodes s)))"
  proof (rule inj_onI)
    fix x y assume xy: "x \<in> insert a (dom (a_nodes s))" "y \<in> insert a (dom (a_nodes s))"
      "al_alarm_id (the (((a_nodes s)(a \<mapsto> al)) x)) = al_alarm_id (the (((a_nodes s)(a \<mapsto> al)) y))"
    have ne: "al_alarm_id (the (a_nodes s b)) \<noteq> al_alarm_id al" if "b \<in> insert a (dom (a_nodes s))" "b \<noteq> a" for b
      using that new by auto
    show "x = y"
    proof (cases "x = a \<or> y = a")
      case True
      show ?thesis
      proof (rule ccontr)
        assume "x \<noteq> y"
        with True xy(3) ne [OF xy(1)] ne [OF xy(2)] show False by (cases "x = a") simp_all
      qed
    next
      case False
      with xy show ?thesis by (intro inj_onD [OF inv(6), of x y]) simp_all
    qed
  qed
  moreover have "a \<notin> set (a_list s)" using inv(2) assms(2) by auto
  ultimately show ?thesis using inv by (simp add: alarms_inv_def add_alarm_list_def subset_insertI2 del: inj_on_insert fun_upd_apply)
qed

lemma scan_alarm_inv:
  assumes "alarms_inv s" "a \<in> dom (a_nodes s)" "a \<notin> ran (a_scan_nodes s)"
    and "\<forall>c. mem = Some c \<longrightarrow> a_scan_nodes s c = None"
  shows "alarms_inv (scan_alarm mem a s)"
proof (cases mem)
  case (Some c)
  note inv = alarms_invD [OF assms(1)]
  have c: "a_scan_nodes s c = None" using assms(4) Some by simp
  then have "ran ((a_scan_nodes s)(c \<mapsto> a)) = insert a (ran (a_scan_nodes s))" by simp
  moreover have "inj_on ((a_scan_nodes s)(c \<mapsto> a)) (insert c (dom (a_scan_nodes s)))"
    using inv(7) assms(3) c by (auto simp: inj_on_def ran_def)
  moreover have "c \<notin> set (a_scan s)" using inv(4) c by auto
  ultimately show ?thesis using inv assms(2) Some
    by (auto simp: alarms_inv_def scan_alarm_def add_scan_list_def)
qed (use assms(1) in \<open>simp add: scan_alarm_def\<close>)

lemma not_on_scan:
  assumes "alarms_inv s" "\<not> on_scan (al_alarm_id n) s" "a_nodes s a = Some n"
  shows "a \<notin> ran (a_scan_nodes s)"
proof
  assume "a \<in> ran (a_scan_nodes s)"
  then obtain c where c: "a_scan_nodes s c = Some a" by (auto simp: ran_def)
  then have "c \<in> set (a_scan s)" using alarms_invD(4) [OF assms(1)] by auto
  with c assms(2,3) show False by (auto simp: on_scan_def parent_alarm_def)
qed

section \<open>Adding and removing\<close>

lemma delete_old_total:
  assumes inv: "alarms_inv s" and off: "\<not> on_scan i s"
  shows "\<exists>s1. delete_old i s = Some s1 \<and> alarms_inv s1 \<and> a_scan_nodes s1 = a_scan_nodes s \<and>
    (\<forall>b n. a_nodes s1 b = Some n \<longrightarrow> al_alarm_id n \<noteq> i \<and> a_nodes s b = Some n)"
proof (cases "\<exists>a n. a_nodes s a = Some n \<and> al_alarm_id n = i")
  case True
  then obtain a n where a: "a_nodes s a = Some n" "al_alarm_id n = i" by blast
  have "alarms_inv (drop_alarm a s)"
    using drop_alarm_inv [OF inv] not_on_scan [OF inv _ a(1)] off a(2) by simp
  moreover have "al_alarm_id m \<noteq> i" if "b \<noteq> a" "a_nodes s b = Some m" for b m
    using same_id_same_node [OF inv a(1) that(2)] a(2) that(1) by auto
  moreover have "delete_old i s = Some (drop_alarm a s)"
    using seek_eq [OF inv a(1)] a
    by (simp add: delete_old_def free_alarm_def unlink_alarm_def drop_alarm_def)
  ultimately show ?thesis by (auto simp: drop_alarm_def)
next
  case False
  then have "seek_alarm_list i s = Some None" using seek_total [OF inv, of i] by blast
  with False inv show ?thesis by (auto simp: delete_old_def)
qed

lemma execute_add_total:
  assumes inv: "alarms_inv s" and off: "\<not> on_scan (al_alarm_id al) s"
    and mem: "\<forall>a n. node_mem = Some a \<longrightarrow> a_nodes s a = Some n \<longrightarrow> al_alarm_id n = al_alarm_id al"
    and scan: "\<forall>c. scan_mem = Some c \<longrightarrow> a_scan_nodes s c = None"
  shows "\<exists>s'. execute_add node_mem scan_mem al s = Some s' \<and> alarms_inv s'"
proof -
  obtain s1 where s1: "delete_old (al_alarm_id al) s = Some s1" "alarms_inv s1" "a_scan_nodes s1 = a_scan_nodes s"
    "\<forall>b n. a_nodes s1 b = Some n \<longrightarrow> al_alarm_id n \<noteq> al_alarm_id al \<and> a_nodes s b = Some n"
    using delete_old_total [OF inv off] by blast
  let ?s2 = "\<lambda>a. add_alarm_list a (s1\<lparr>a_nodes := (a_nodes s1)(a \<mapsto> al)\<rparr>)"
  have new: "a_nodes s1 a = None" if "node_mem = Some a" for a
    using s1(4) mem that by (cases "a_nodes s1 a") auto
  have inv2: "alarms_inv (?s2 a)" if "node_mem = Some a" for a
    by (rule add_alarm_inv [OF s1(2) new [OF that]]) (use s1(4) in blast)
  have inv3: "alarms_inv (scan_alarm scan_mem a (?s2 a))" if "node_mem = Some a" for a
  proof (rule scan_alarm_inv [OF inv2 [OF that]])
    show "a \<in> dom (a_nodes (?s2 a))" by (simp add: add_alarm_list_def)
    show "a \<notin> ran (a_scan_nodes (?s2 a))"
      using new [OF that] alarms_invD(5) [OF s1(2)] by (auto simp: add_alarm_list_def)
    show "\<forall>c. scan_mem = Some c \<longrightarrow> a_scan_nodes (?s2 a) c = None"
      using scan s1(3) by (simp add: add_alarm_list_def)
  qed
  show ?thesis
  proof (cases node_mem)
    case None
    with s1 show ?thesis by (simp add: execute_add_def)
  next
    case (Some a)
    have "execute_add node_mem scan_mem al s =
        Some (if bit (al_week_map al) (sc_wday (a_date (?s2 a))) then scan_alarm scan_mem a (?s2 a) else ?s2 a)"
      using s1(1) Some by (simp add: execute_add_def Let_def)
    with inv2 [OF Some] inv3 [OF Some] show ?thesis by auto
  qed
qed

lemma execute_del_eq:
  assumes inv: "alarms_inv s"
  shows "execute_del i s = Some (s\<lparr>a_nodes := (\<lambda>a. map_option
    (\<lambda>n. if al_alarm_id n = i then n\<lparr>al_state := ALARM_ST_OFF\<rparr> else n) (a_nodes s a))\<rparr>)"
proof (cases "\<exists>a n. a_nodes s a = Some n \<and> al_alarm_id n = i")
  case True
  then obtain a n where a: "a_nodes s a = Some n" "al_alarm_id n = i" by blast
  have "map_option (\<lambda>n. if al_alarm_id n = i then n\<lparr>al_state := ALARM_ST_OFF\<rparr> else n) (a_nodes s b) =
      ((a_nodes s)(a \<mapsto> n\<lparr>al_state := ALARM_ST_OFF\<rparr>)) b" for b
  proof (cases "b = a")
    case False
    then have "a_nodes s b = Some m \<Longrightarrow> al_alarm_id m \<noteq> i" for m
      using same_id_same_node [OF inv, of b m a n] a by auto
    with False show ?thesis by (cases "a_nodes s b") simp_all
  qed (use a in simp)
  then have "(\<lambda>b. map_option (\<lambda>n. if al_alarm_id n = i then n\<lparr>al_state := ALARM_ST_OFF\<rparr> else n) (a_nodes s b)) =
      (a_nodes s)(a \<mapsto> n\<lparr>al_state := ALARM_ST_OFF\<rparr>)" by (rule ext)
  with seek_eq(1) [OF inv a(1)] a show ?thesis by (simp add: execute_del_def)
next
  case False
  have "map_option (\<lambda>n. if al_alarm_id n = i then n\<lparr>al_state := ALARM_ST_OFF\<rparr> else n) (a_nodes s b) = a_nodes s b" for b
    using False by (cases "a_nodes s b") auto
  moreover have "seek_alarm_list i s = Some None" using False seek_total [OF inv, of i] by blast
  ultimately show ?thesis by (simp add: execute_del_def)
qed

lemma execute_del_inv:
  assumes inv: "alarms_inv s"
  shows "\<exists>s'. execute_del i s = Some s' \<and> alarms_inv s'"
proof (cases "\<exists>a n. a_nodes s a = Some n \<and> al_alarm_id n = i")
  case True
  then obtain a n where a: "a_nodes s a = Some n" "al_alarm_id n = i" by blast
  with seek_eq(1) [OF inv a(1)] alarms_inv_update [OF inv a(1)] show ?thesis
    by (simp add: execute_del_def)
next
  case False
  with seek_total [OF inv, of i] inv show ?thesis by (auto simp: execute_del_def)
qed

section \<open>The fresh command\<close>

lemma clear_scan_eq:
  "alarms_inv s \<Longrightarrow> a_scan s = cs \<Longrightarrow>
   clear_scan cs s = Some (s\<lparr>a_scan := [], a_scan_nodes := Map.empty\<rparr>)"
proof (induction cs arbitrary: s)
  case Nil
  then have "dom (a_scan_nodes s) = {}" using alarms_invD(4) [OF Nil(1)] by simp
  then have "a_scan_nodes s = Map.empty" by simp
  with Nil show ?case by simp
next
  case (Cons c cs)
  then have c: "c \<in> set (a_scan s)" by simp
  obtain p n where n: "a_scan_nodes s c = Some p" "parent_alarm s c = Some n"
    using scan_parent [OF Cons.prems(1) c] by metis
  have "a_scan (drop_scan c s) = cs" using Cons.prems(2) by (simp add: drop_scan_def)
  with Cons.IH [OF drop_scan_inv [OF Cons.prems(1)]]
  have "clear_scan cs (drop_scan c s) = Some (s\<lparr>a_scan := [], a_scan_nodes := Map.empty\<rparr>)"
    by (simp add: drop_scan_def)
  with n del_scan_eq [OF Cons.prems(1) c n(2)] show ?case
    by (simp add: unlink_scan_def free_scan_def drop_scan_def)
qed

definition off :: "alarms \<Rightarrow> addr \<Rightarrow> bool" where
  "off s a \<longleftrightarrow> (\<exists>n. a_nodes s a = Some n \<and> al_state n = ALARM_ST_OFF)"

text \<open>An alarm that is not off and set for the weekday of the scan date.\<close>

definition active :: "alarms \<Rightarrow> addr \<Rightarrow> bool" where
  "active s a \<longleftrightarrow> (\<exists>n. a_nodes s a = Some n \<and> al_state n \<noteq> ALARM_ST_OFF \<and>
     bit (al_week_map n) (sc_wday (a_date s)))"

definition rebuilt :: "(addr \<Rightarrow> addr option) \<Rightarrow> addr list \<Rightarrow> alarms \<Rightarrow> alarms \<Rightarrow> bool" where
  "rebuilt mem as s s' \<longleftrightarrow> alarms_inv s' \<and> a_date s' = a_date s \<and> a_trace s' = a_trace s \<and>
     a_queue s' = a_queue s \<and>
     a_nodes s' = (\<lambda>a. if a \<in> set as \<and> off s a then None else a_nodes s a) \<and>
     (\<forall>c p. a_scan_nodes s' c = Some p \<longleftrightarrow>
        a_scan_nodes s c = Some p \<or> p \<in> set as \<and> active s p \<and> mem p = Some c)"

definition rebuild_pre :: "(addr \<Rightarrow> addr option) \<Rightarrow> addr list \<Rightarrow> alarms \<Rightarrow> bool" where
  "rebuild_pre mem as s \<longleftrightarrow> alarms_inv s \<and> set as \<subseteq> dom (a_nodes s) \<and> distinct as \<and>
     set as \<inter> ran (a_scan_nodes s) = {} \<and> inj_on mem {a. mem a \<noteq> None} \<and>
     (\<forall>a\<in>set as. \<forall>c. mem a = Some c \<longrightarrow> a_scan_nodes s c = None)"

lemma off_active_cong:
  "a_nodes s' x = a_nodes s x \<Longrightarrow> a_date s' = a_date s \<Longrightarrow> off s' x = off s x \<and> active s' x = active s x"
  by (simp add: off_def active_def)

lemma rebuild_off:
  assumes pre: "rebuild_pre mem (a # as) s" and n: "a_nodes s a = Some n" "al_state n = ALARM_ST_OFF"
  shows "rebuild_pre mem as (drop_alarm a s)"
    "rebuilt mem as (drop_alarm a s) s' \<Longrightarrow> rebuilt mem (a # as) s s'"
proof -
  have inv: "alarms_inv s" and a: "a \<notin> ran (a_scan_nodes s)" "a \<notin> set as"
    using pre by (auto simp: rebuild_pre_def)
  show "rebuild_pre mem as (drop_alarm a s)"
    using pre a drop_alarm_inv [OF inv a(1)] by (auto simp: rebuild_pre_def drop_alarm_def)
  have cong: "off (drop_alarm a s) x = off s x \<and> active (drop_alarm a s) x = active s x" if "x \<noteq> a" for x
    by (rule off_active_cong) (use that in \<open>simp_all add: drop_alarm_def\<close>)
  have na: "\<not> active s a" "off s a" using n by (simp_all add: active_def off_def)
  assume r: "rebuilt mem as (drop_alarm a s) s'"
  have "a_nodes s' x = (if x \<in> set (a # as) \<and> off s x then None else a_nodes s x)" for x
    using r cong [of x] na a(2) by (cases "x = a") (auto simp: rebuilt_def drop_alarm_def)
  moreover have "p \<in> set as \<and> active (drop_alarm a s) p \<longleftrightarrow> p \<in> set (a # as) \<and> active s p" for p
    using cong [of p] na a(2) by (cases "p = a") auto
  ultimately show "rebuilt mem (a # as) s s'"
    using r by (auto simp: rebuilt_def drop_alarm_def fun_eq_iff)
qed

lemma rebuild_on:
  assumes pre: "rebuild_pre mem (a # as) s" and n: "a_nodes s a = Some n" "al_state n \<noteq> ALARM_ST_OFF"
    and s1: "s1 = (if bit (al_week_map n) (sc_wday (a_date s)) then scan_alarm (mem a) a s else s)"
  shows "rebuild_pre mem as s1" "rebuilt mem as s1 s' \<Longrightarrow> rebuilt mem (a # as) s s'"
proof -
  have inv: "alarms_inv s" and a: "a \<notin> ran (a_scan_nodes s)" "a \<notin> set as" "a \<in> dom (a_nodes s)"
    and fresh: "\<forall>c. mem a = Some c \<longrightarrow> a_scan_nodes s c = None" and inj: "inj_on mem {a. mem a \<noteq> None}"
    using pre by (auto simp: rebuild_pre_def)
  have inv1: "alarms_inv s1" using inv scan_alarm_inv [OF inv a(3,1) fresh] s1 by simp
  have f: "a_nodes s1 = a_nodes s" "a_date s1 = a_date s" "a_trace s1 = a_trace s" "a_queue s1 = a_queue s"
    by (simp_all add: s1 scan_alarm_def add_scan_list_def split: option.splits)
  have act: "active s a \<longleftrightarrow> bit (al_week_map n) (sc_wday (a_date s))" "\<not> off s a"
    using n by (simp_all add: active_def off_def)
  have sc: "a_scan_nodes s1 c = Some p \<longleftrightarrow> a_scan_nodes s c = Some p \<or> p = a \<and> active s a \<and> mem a = Some c" for c p
    using fresh act by (auto simp: s1 scan_alarm_def add_scan_list_def split: option.splits)
  have ran1: "ran (a_scan_nodes s1) \<subseteq> insert a (ran (a_scan_nodes s))"
    using sc by (auto simp: ran_def)
  have "a_scan_nodes s1 c = None" if "b \<in> set as" "mem b = Some c" for b c
  proof -
    have "a_scan_nodes s c = None" using pre that by (auto simp: rebuild_pre_def)
    moreover have "mem a \<noteq> Some c"
    proof
      assume "mem a = Some c"
      with that have "a = b" by (intro inj_onD [OF inj]) auto
      with that a show False by simp
    qed
    ultimately have "a_scan_nodes s1 c \<noteq> Some p" for p using sc by simp
    then show ?thesis by (cases "a_scan_nodes s1 c") auto
  qed
  with pre inv1 f ran1 a(2) show "rebuild_pre mem as s1"
    unfolding rebuild_pre_def by auto
  have cong: "off s1 x = off s x \<and> active s1 x = active s x" for x
    by (rule off_active_cong) (simp_all add: f)
  assume r: "rebuilt mem as s1 s'"
  have "a_nodes s' x = (if x \<in> set (a # as) \<and> off s x then None else a_nodes s x)" for x
    using r cong f act(2) by (auto simp: rebuilt_def)
  moreover have "a_scan_nodes s' c = Some p \<longleftrightarrow>
      a_scan_nodes s c = Some p \<or> p \<in> set (a # as) \<and> active s p \<and> mem p = Some c" for c p
    using r cong sc by (auto simp: rebuilt_def)
  ultimately show "rebuilt mem (a # as) s s'"
    using r f by (auto simp: rebuilt_def fun_eq_iff)
qed

lemma rebuild_total:
  "rebuild_pre mem as s \<Longrightarrow> \<exists>s'. rebuild_scan mem as s = Some s' \<and> rebuilt mem as s s'"
proof (induction as arbitrary: s)
  case Nil
  then show ?case by (simp add: rebuild_pre_def rebuilt_def)
next
  case (Cons a as)
  have inv: "alarms_inv s" using Cons.prems by (simp add: rebuild_pre_def)
  obtain n where n: "a_nodes s a = Some n" using Cons.prems by (auto simp: rebuild_pre_def)
  show ?case
  proof (cases "al_state n = ALARM_ST_OFF")
    case True
    note off = rebuild_off [OF Cons.prems n True]
    obtain s' where "rebuild_scan mem as (drop_alarm a s) = Some s'" "rebuilt mem as (drop_alarm a s) s'"
      using Cons.IH [OF off(1)] by blast
    with off(2) n True seek_eq(2) [OF inv n] show ?thesis
      by (auto simp: free_alarm_def unlink_alarm_def drop_alarm_def)
  next
    case False
    define s1 where "s1 = (if bit (al_week_map n) (sc_wday (a_date s)) then scan_alarm (mem a) a s else s)"
    note on = rebuild_on [OF Cons.prems n False s1_def]
    obtain s' where "rebuild_scan mem as s1 = Some s'" "rebuilt mem as s1 s'"
      using Cons.IH [OF on(1)] by blast
    with on(2) n False show ?thesis by (simp add: s1_def [symmetric])
  qed
qed

lemma execute_fresh_total:
  assumes inv: "alarms_inv s" and inj: "inj_on mem {a. mem a \<noteq> None}"
  shows "\<exists>s'. execute_fresh t mem s = Some s' \<and>
    rebuilt mem (a_list s) ((set_date t s)\<lparr>a_scan := [], a_scan_nodes := Map.empty\<rparr>) s'"
proof -
  let ?s1 = "(set_date t s)\<lparr>a_scan := [], a_scan_nodes := Map.empty\<rparr>"
  have inv0: "alarms_inv (set_date t s)" using inv by (simp add: set_date_def)
  have c: "clear_scan (a_scan s) (set_date t s) = Some ?s1"
    by (rule clear_scan_eq [OF inv0]) (simp add: set_date_def)
  have "alarms_inv ?s1" using inv by (simp add: alarms_inv_def set_date_def)
  then have "rebuild_pre mem (a_list ?s1) ?s1"
    using inj alarms_invD(1,2) [OF inv] by (simp add: rebuild_pre_def set_date_def)
  moreover have "a_list ?s1 = a_list s" by (simp add: set_date_def)
  ultimately show ?thesis using rebuild_total [of mem "a_list ?s1" ?s1] c
    by (simp add: execute_fresh_def)
qed

section \<open>The tick\<close>

definition due :: "alarms \<Rightarrow> addr \<Rightarrow> bool" where
  "due s c \<longleftrightarrow> (\<exists>n. parent_alarm s c = Some n \<and> time_equal (a_date s) n \<and> al_state n = ALARM_ST_ON)"

text \<open>What the scan does to the state, as one equation for each field.\<close>

definition scanned :: "addr list \<Rightarrow> alarms \<Rightarrow> alarms \<Rightarrow> bool" where
  "scanned cs s s' \<longleftrightarrow> alarms_inv s' \<and> a_date s' = a_date s \<and> a_queue s' = a_queue s \<and>
     a_trace s' = a_trace s @ concat (map (\<lambda>c. ring (the (parent_alarm s c))) (filter (due s) cs)) \<and>
     a_scan s' = filter (\<lambda>c. c \<notin> set (filter (due s) cs)) (a_scan s) \<and>
     (\<forall>c\<in>set (a_scan s'). parent_alarm s' c = parent_alarm s c) \<and>
     (\<forall>c p n. c \<in> set (filter (due s) cs) \<longrightarrow> a_scan_nodes s c = Some p \<longrightarrow> a_nodes s p = Some n \<longrightarrow>
        a_nodes s' p = Some (if al_one_shot n then n\<lparr>al_state := ALARM_ST_OFF\<rparr> else n)) \<and>
     (\<forall>a. (\<nexists>c. c \<in> set (filter (due s) cs) \<and> a_scan_nodes s c = Some a) \<longrightarrow> a_nodes s' a = a_nodes s a)"

text \<open>The state after one alarm rang.\<close>

definition rung :: "addr \<Rightarrow> alarm_t \<Rightarrow> alarms \<Rightarrow> alarms" where
  "rung c n s = drop_scan c (turn_off c n (s\<lparr>a_trace := a_trace s @ ring n\<rparr>))"

lemma scan_loop_rung:
  assumes inv: "alarms_inv s" and c: "c \<in> set (a_scan s)" "parent_alarm s c = Some n"
    and due: "time_equal (a_date s) n" "al_state n = ALARM_ST_ON"
  shows "scan_loop (c # cs) s = scan_loop cs (rung c n s)"
proof -
  obtain p where p: "a_scan_nodes s c = Some p" using scan_parent [OF inv c(1)] by metis
  let ?s = "s\<lparr>a_trace := a_trace s @ ring n\<rparr>"
  have "parent_alarm ?s c = Some n" using c(2) by (simp add: parent_alarm_def)
  then have "del_scan_list (al_alarm_id n) ?s = Some (unlink_scan c ?s, Some c)"
    using inv c(1) by (intro del_scan_eq) simp_all
  moreover have "free_scan c (turn_off c n (unlink_scan c ?s)) = Some (rung c n s)"
    using p by (simp add: free_scan_def turn_off_def unlink_scan_def rung_def drop_scan_def)
  ultimately show ?thesis using c due by simp
qed

lemma rung_fields:
  assumes inv: "alarms_inv s" and c: "a_scan_nodes s c = Some p" "a_nodes s p = Some n"
  shows "alarms_inv (rung c n s)" "a_date (rung c n s) = a_date s" "a_queue (rung c n s) = a_queue s"
    "a_trace (rung c n s) = a_trace s @ ring n" "a_scan (rung c n s) = remove1 c (a_scan s)"
    "a_scan_nodes (rung c n s) = (a_scan_nodes s)(c := None)"
    "a_nodes (rung c n s) = (a_nodes s)(p \<mapsto> (if al_one_shot n then n\<lparr>al_state := ALARM_ST_OFF\<rparr> else n))"
    "d \<noteq> c \<Longrightarrow> parent_alarm (rung c n s) d = parent_alarm s d"
proof -
  have "alarms_inv (turn_off c n (s\<lparr>a_trace := a_trace s @ ring n\<rparr>))"
    using alarms_inv_update [of "s\<lparr>a_trace := a_trace s @ ring n\<rparr>" p n "n\<lparr>al_state := ALARM_ST_OFF\<rparr>"] inv c
    by (simp add: turn_off_def)
  then show "alarms_inv (rung c n s)" unfolding rung_def by (rule drop_scan_inv)
  show f: "a_date (rung c n s) = a_date s" "a_queue (rung c n s) = a_queue s"
    "a_trace (rung c n s) = a_trace s @ ring n" "a_scan (rung c n s) = remove1 c (a_scan s)"
    "a_scan_nodes (rung c n s) = (a_scan_nodes s)(c := None)"
    using c by (simp_all add: rung_def drop_scan_def turn_off_def)
  show nodes: "a_nodes (rung c n s) = (a_nodes s)(p \<mapsto> (if al_one_shot n then n\<lparr>al_state := ALARM_ST_OFF\<rparr> else n))"
    using c by (auto simp: rung_def drop_scan_def turn_off_def fun_eq_iff)
  assume d: "d \<noteq> c"
  have "a_scan_nodes s d \<noteq> Some p"
    using d c(1) alarms_invD(7) [OF inv] by (auto simp: inj_on_def domIff)
  then show "parent_alarm (rung c n s) d = parent_alarm s d"
    using d f(5) nodes by (cases "a_scan_nodes s d") (auto simp: parent_alarm_def)
qed

lemma scanned_rung:
  assumes inv: "alarms_inv s" and c: "c \<in> set (a_scan s)" "a_scan_nodes s c = Some p" "a_nodes s p = Some n"
    and due: "due s c" and nin: "c \<notin> set cs" and r: "scanned cs (rung c n s) s'"
  shows "scanned (c # cs) s s'"
proof -
  note f = rung_fields [OF inv c(2,3)]
  let ?s1 = "rung c n s"
  have pc: "parent_alarm s c = Some n" using c by (simp add: parent_alarm_def)
  have d: "due ?s1 d = due s d" if "d \<noteq> c" for d
    using f(8) [OF that] f(2) by (simp add: due_def)
  have fil: "filter (due ?s1) cs = filter (due s) cs"
  proof (rule filter_cong [OF refl])
    fix x assume "x \<in> set cs"
    then have "x \<noteq> c" using nin by auto
    then show "due ?s1 x = due s x" by (rule d)
  qed
  have "map (\<lambda>c. ring (the (parent_alarm ?s1 c))) (filter (due s) cs) =
      map (\<lambda>c. ring (the (parent_alarm s c))) (filter (due s) cs)"
  proof (rule map_cong [OF refl])
    fix x assume "x \<in> set (filter (due s) cs)"
    then have "x \<noteq> c" using nin by auto
    then show "ring (the (parent_alarm ?s1 x)) = ring (the (parent_alarm s x))" using f(8) [of x] by simp
  qed
  note rings = this
  have "a_trace s' = a_trace ?s1 @ concat (map (\<lambda>c. ring (the (parent_alarm ?s1 c))) (filter (due ?s1) cs))"
    using r by (simp only: scanned_def)
  then have trace: "a_trace s' = a_trace s @ concat (map (\<lambda>c. ring (the (parent_alarm s c))) (filter (due s) (c # cs)))"
    unfolding fil rings f(4) using due pc by simp
  have "remove1 c (a_scan s) = filter (\<lambda>d. d \<noteq> c) (a_scan s)"
    by (rule remove1_eq_filter [OF alarms_invD(3) [OF inv]])
  then have scan: "a_scan s' = filter (\<lambda>d. d \<notin> set (filter (due s) (c # cs))) (a_scan s)"
    using r f(5) d due by (auto simp: scanned_def intro!: filter_cong)
  have par: "\<forall>d\<in>set (a_scan s'). parent_alarm s' d = parent_alarm s d"
  proof
    fix d assume "d \<in> set (a_scan s')"
    moreover from this have "d \<noteq> c" using scan due by auto
    ultimately show "parent_alarm s' d = parent_alarm s d" using r f(8) by (simp add: scanned_def)
  qed
  have other: "a_scan_nodes s d \<noteq> Some p" if "d \<noteq> c" for d
    using that c(2) alarms_invD(7) [OF inv] by (auto simp: inj_on_def domIff)
  have keep: "a_nodes s' a = a_nodes ?s1 a" if "\<forall>d\<in>set cs. due s d \<longrightarrow> a_scan_nodes s d \<noteq> Some a" for a
  proof -
    have "\<nexists>d. d \<in> set (filter (due ?s1) cs) \<and> a_scan_nodes ?s1 d = Some a"
      unfolding fil using that f(6) by (auto split: if_splits)
    with r show ?thesis unfolding scanned_def by blast
  qed
  have n1: "a_nodes s' q = Some (if al_one_shot m then m\<lparr>al_state := ALARM_ST_OFF\<rparr> else m)"
    if x: "x \<in> set (filter (due s) (c # cs))" "a_scan_nodes s x = Some q" "a_nodes s q = Some m" for x q m
  proof (cases "x = c")
    case True
    then have "q = p" "m = n" using x c by auto
    moreover have "a_nodes s' p = a_nodes ?s1 p" by (rule keep) (use other nin in metis)
    ultimately show ?thesis using f(7) by simp
  next
    case False
    then have "x \<in> set (filter (due ?s1) cs)" "a_scan_nodes ?s1 x = Some q" "q \<noteq> p"
      using x d f(6) other due by (auto split: if_splits)
    moreover from this have "a_nodes ?s1 q = Some m" using f(7) x(3) by simp
    ultimately show ?thesis using r unfolding scanned_def by blast
  qed
  have "a_nodes s' a = a_nodes s a" if "\<nexists>x. x \<in> set (filter (due s) (c # cs)) \<and> a_scan_nodes s x = Some a" for a
  proof -
    have "a \<noteq> p" using that due c(2) by auto
    then show ?thesis using keep [of a] that f(7) by simp
  qed
  with trace scan par n1 r f(2,3) show ?thesis
    unfolding scanned_def by (simp only: simp_thms) blast
qed

lemma scanned_skip:
  assumes "\<not> due s c" "scanned cs s s'"
  shows "scanned (c # cs) s s'"
proof -
  have "filter (due s) (c # cs) = filter (due s) cs" using assms(1) by simp
  show ?thesis using assms(2) unfolding scanned_def \<open>filter (due s) (c # cs) = filter (due s) cs\<close> .
qed

lemma scan_loop_total:
  "alarms_inv s \<Longrightarrow> set cs \<subseteq> set (a_scan s) \<Longrightarrow> distinct cs \<Longrightarrow>
   \<exists>s'. scan_loop cs s = Some s' \<and> scanned cs s s'"
proof (induction cs arbitrary: s)
  case Nil
  then show ?case by (simp add: scanned_def)
next
  case (Cons c cs)
  have c: "c \<in> set (a_scan s)" using Cons.prems(2) by simp
  obtain p n where n: "a_scan_nodes s c = Some p" "a_nodes s p = Some n" "parent_alarm s c = Some n"
    by (rule scan_parent [OF Cons.prems(1) c])
  show ?case
  proof (cases "due s c")
    case True
    then have due: "time_equal (a_date s) n" "al_state n = ALARM_ST_ON" using n by (simp_all add: due_def)
    note f = rung_fields [OF Cons.prems(1) n(1,2)]
    have "set cs \<subseteq> set (a_scan (rung c n s))"
      using Cons.prems f(5) alarms_invD(3) [OF Cons.prems(1)] by auto
    then obtain s' where "scan_loop cs (rung c n s) = Some s'" "scanned cs (rung c n s) s'"
      using Cons.IH [OF f(1)] Cons.prems(3) by auto
    with scanned_rung [OF Cons.prems(1) c n(1,2) True] Cons.prems(3)
      scan_loop_rung [OF Cons.prems(1) c n(3) due] show ?thesis by auto
  next
    case False
    then have "scan_loop (c # cs) s = scan_loop cs s" using n by (auto simp: due_def)
    moreover obtain s' where "scan_loop cs s = Some s'" "scanned cs s s'"
      using Cons.IH [OF Cons.prems(1)] Cons.prems(2,3) by auto
    ultimately show ?thesis using scanned_skip [OF False] by auto
  qed
qed

lemma update_clock_fields:
  "alarms_inv (update_clock t s) = alarms_inv s" "a_scan (update_clock t s) = a_scan s"
  "a_scan_nodes (update_clock t s) = a_scan_nodes s" "a_nodes (update_clock t s) = a_nodes s"
  "a_queue (update_clock t s) = a_queue s"
  "a_date (update_clock t s) = (a_date s)\<lparr>sc_hour := tm_hour t, sc_minute := tm_min t\<rparr>"
  by (auto simp: update_clock_def Let_def)

lemma update_clock_trace: "\<exists>us. a_trace (update_clock t s) = a_trace s @ us \<and>
    (\<forall>f i. AlarmCallback f i \<notin> set us)"
  by (auto simp: update_clock_def Let_def)

lemma tick_total:
  assumes inv: "alarms_inv s"
  shows "\<exists>s'. alarm_tick t s = Some s' \<and> alarms_inv s'"
proof (cases "sc_vaild (a_date s) \<and> tm_mday t = sc_day (a_date s)")
  case True
  let ?s1 = "update_clock t s"
  have inv1: "alarms_inv ?s1" using inv update_clock_fields by simp
  from scan_loop_total [OF inv1 subset_refl alarms_invD(3) [OF inv1]] True show ?thesis
    by (auto simp: alarm_tick_def scanned_def Let_def)
qed (use inv in \<open>auto simp: alarm_tick_def fresh_alarm_def send_alarm_cmd_def\<close>)

lemma alarm_cmd_total:
  assumes inv: "alarms_inv s" and q: "a_queue s = c # q" and ok: "alarm_input_ok (AlarmTask e) s"
  shows "\<exists>s'. execute_alarm_cmd e c (s\<lparr>a_queue := q\<rparr>) = Some s' \<and> alarms_inv s'"
proof (cases c)
  case (ALARM_CMD_ADD_ALARM al)
  have "on_scan i (s\<lparr>a_queue := q\<rparr>) = on_scan i s" for i by (simp add: on_scan_def parent_alarm_def)
  then show ?thesis
    using execute_add_total [of "s\<lparr>a_queue := q\<rparr>" al "ae_node e" "ae_scan e"] inv ok q ALARM_CMD_ADD_ALARM
    by (simp add: execute_alarm_cmd_def alarm_input_ok_def)
next
  case (ALARM_CMD_DEL_ALARM i)
  with execute_del_inv [of "s\<lparr>a_queue := q\<rparr>" i] inv show ?thesis by (simp add: execute_alarm_cmd_def)
next
  case ALARM_CMD_FRESH_ALL
  with execute_fresh_total [of "s\<lparr>a_queue := q\<rparr>" "ae_rebuild e" "ae_fresh_now e"] inv ok q show ?thesis
    by (auto simp: execute_alarm_cmd_def alarm_input_ok_def rebuilt_def)
qed (use inv in \<open>simp add: execute_alarm_cmd_def\<close>)

lemma alarm_step_safe:
  assumes inv: "alarms_inv s" and ok: "alarm_input_ok i s"
  shows "\<exists>s'. alarm_step i s = Some s' \<and> alarms_inv s'"
proof (cases i)
  case (AlarmTask e)
  show ?thesis
  proof (cases "a_queue s")
    case Nil
    with AlarmTask tick_total [OF inv] show ?thesis by (simp add: alarm_step_def alarm_task_def)
  next
    case (Cons c q)
    obtain s1 where "execute_alarm_cmd e c (s\<lparr>a_queue := q\<rparr>) = Some s1" "alarms_inv s1"
      using alarm_cmd_total [OF inv Cons] ok AlarmTask by auto
    with AlarmTask Cons tick_total [of s1] show ?thesis by (simp add: alarm_step_def alarm_task_def)
  qed
qed (use inv in \<open>auto simp: alarm_step_def add_alarm_def remove_alarm_def fresh_alarm_def
      send_alarm_cmd_def split: option.splits\<close>)

interpretation alarm_machine: safe_machine alarm_step alarms_inv alarm_input_ok
  by unfold_locales (rule alarm_step_safe)

lemma alarm_init_inv: "s \<in> {alarm_init} \<Longrightarrow> alarms_inv s"
  by (simp add: alarms_inv_def alarm_init_def)

end
