(* ===== verification/Alarms_Props.thy ===== *)
theory Alarms_Props
  imports Alarms_Inv
begin

text \<open>
  What the alarm clock promises: an alarm that is on and set for today rings exactly once in its
  minute, a removed alarm does not ring, the fresh command rebuilds the lists; and what goes wrong
  when an alarm of today is replaced.
\<close>

section \<open>Rings in a run of ticks\<close>

lemma tick_day:
  assumes inv: "alarms_inv s" and d: "sc_vaild (a_date s)" "tm_mday t = sc_day (a_date s)"
  shows "\<exists>s'. alarm_tick t s = Some s' \<and> scanned (a_scan s) (update_clock t s) s'"
proof -
  have inv1: "alarms_inv (update_clock t s)" using inv update_clock_fields by simp
  have "a_scan (update_clock t s) = a_scan s" by (rule update_clock_fields)
  with scan_loop_total [OF inv1 subset_refl alarms_invD(3) [OF inv1]] d show ?thesis
    by (simp add: alarm_tick_def Let_def)
qed

text \<open>No alarm with this identifier can ring today.\<close>

definition quiet :: "int \<Rightarrow> alarms \<Rightarrow> bool" where
  "quiet i s \<longleftrightarrow> (\<forall>c\<in>set (a_scan s). \<forall>n. parent_alarm s c = Some n \<longrightarrow> al_alarm_id n = i
     \<longrightarrow> al_state n \<noteq> ALARM_ST_ON)"

lemma count_ring: "count_list (ring n) (AlarmCallback f i) =
  (if al_callback n = Some f \<and> al_alarm_id n = i then 1 else 0)"
  by (auto simp: ring_def split: option.splits)

lemma count_quiet:
  assumes "quiet i s" "set xs \<subseteq> set (a_scan s)"
  shows "count_list (concat (map (\<lambda>c. ring (the (parent_alarm s c))) (filter (due s) xs))) (AlarmCallback f i) = 0"
  using assms(2)
proof (induction xs)
  case (Cons c xs)
  show ?case
  proof (cases "due s c")
    case True
    then obtain n where n: "parent_alarm s c = Some n" "al_state n = ALARM_ST_ON" by (auto simp: due_def)
    moreover have "c \<in> set (a_scan s)" using Cons.prems by simp
    ultimately have "al_alarm_id n \<noteq> i" using assms(1) by (auto simp: quiet_def)
    with True n Cons show ?thesis by (simp add: count_ring)
  qed (use Cons in simp)
qed simp

lemma count_due:
  assumes inv: "alarms_inv s" and c: "c \<in> set (a_scan s)" "parent_alarm s c = Some n" "al_callback n = Some f"
    and xs: "set xs \<subseteq> set (a_scan s)" "distinct xs"
  shows "count_list (concat (map (\<lambda>c. ring (the (parent_alarm s c))) (filter (due s) xs)))
    (AlarmCallback f (al_alarm_id n)) = (if c \<in> set xs \<and> due s c then 1 else 0)"
  using xs
proof (induction xs)
  case (Cons x xs)
  show ?case
  proof (cases "x = c")
    case True
    with Cons c show ?thesis by (simp add: count_ring)
  next
    case False
    have "x \<in> set (a_scan s)" using Cons.prems by simp
    then obtain m where m: "parent_alarm s x = Some m" using scan_parent [OF inv] by metis
    have "al_alarm_id m \<noteq> al_alarm_id n"
      using same_id_same_scan [OF inv \<open>x \<in> set (a_scan s)\<close> c(1) m c(2)] False by blast
    with False m Cons show ?thesis by (simp add: count_ring)
  qed
qed simp

lemma clock_parent: "parent_alarm (update_clock t s) c = parent_alarm s c"
  by (simp add: parent_alarm_def update_clock_fields)

lemma count_clock:
  "\<exists>us. a_trace (update_clock t s) = a_trace s @ us \<and> count_list us (AlarmCallback f i) = 0"
  using update_clock_trace [of t s] by (auto simp: count_list_0_iff)

lemma tick_date:
  "scanned cs (update_clock t s) s' \<Longrightarrow> sc_vaild (a_date s') = sc_vaild (a_date s) \<and> sc_day (a_date s') = sc_day (a_date s)"
  by (simp add: scanned_def update_clock_fields)

lemma tick_quiet:
  assumes inv: "alarms_inv s" and sc: "scanned (a_scan s) (update_clock t s) s'" and q: "quiet i s"
  shows "quiet i s' \<and> (\<exists>us. a_trace s' = a_trace s @ us \<and> count_list us (AlarmCallback f i) = 0)"
proof
  let ?s1 = "update_clock t s"
  have q1: "quiet i ?s1" using q by (simp add: quiet_def clock_parent update_clock_fields)
  have sub: "set (a_scan s') \<subseteq> set (a_scan ?s1)" using sc unfolding scanned_def by auto
  show "quiet i s'"
    unfolding quiet_def
  proof (intro ballI allI impI)
    fix c n assume c: "c \<in> set (a_scan s')" "parent_alarm s' c = Some n" "al_alarm_id n = i"
    then have "parent_alarm ?s1 c = Some n" using sc by (simp add: scanned_def)
    with c sub q1 show "al_state n \<noteq> ALARM_ST_ON" unfolding quiet_def by blast
  qed
  obtain us where us: "a_trace ?s1 = a_trace s @ us" "count_list us (AlarmCallback f i) = 0"
    using count_clock by blast
  have "a_scan ?s1 = a_scan s" by (rule update_clock_fields)
  then have "count_list (concat (map (\<lambda>c. ring (the (parent_alarm ?s1 c))) (filter (due ?s1) (a_scan s))))
      (AlarmCallback f i) = 0"
    using count_quiet [OF q1, of "a_scan s"] by simp
  moreover have "a_trace s' = a_trace s @ us @ concat (map (\<lambda>c. ring (the (parent_alarm ?s1 c))) (filter (due ?s1) (a_scan s)))"
    using sc us(1) by (simp add: scanned_def)
  ultimately show "\<exists>us. a_trace s' = a_trace s @ us \<and> count_list us (AlarmCallback f i) = 0"
    using us(2) by auto
qed

lemma quiet_run:
  assumes "alarms_inv s" "sc_vaild (a_date s)" "\<forall>t\<in>set ts. tm_mday t = sc_day (a_date s)" "quiet i s"
  shows "\<exists>s' us. run_opt alarm_tick ts s = Some s' \<and> a_trace s' = a_trace s @ us \<and>
    count_list us (AlarmCallback f i) = 0"
  using assms
proof (induction ts arbitrary: s)
  case (Cons t ts)
  obtain s1 where s1: "alarm_tick t s = Some s1" "scanned (a_scan s) (update_clock t s) s1"
    using tick_day [OF Cons.prems(1,2), of t] Cons.prems(3) by auto
  obtain us where us: "a_trace s1 = a_trace s @ us" "count_list us (AlarmCallback f i) = 0" "quiet i s1"
    using tick_quiet [OF Cons.prems(1) s1(2) Cons.prems(4)] by blast
  have "alarms_inv s1" using s1(2) by (simp add: scanned_def)
  from Cons.IH [OF this _ _ us(3)] tick_date [OF s1(2)] Cons.prems(2,3) s1(1) us(1,2) show ?case by fastforce
qed simp

lemma due_clock: "due (update_clock t s) c \<longleftrightarrow> (\<exists>n. parent_alarm s c = Some n \<and>
  al_hour n = tm_hour t \<and> al_minute n = tm_min t \<and> al_state n = ALARM_ST_ON)"
  by (auto simp: due_def clock_parent update_clock_fields time_equal_def)

lemma tick_armed:
  assumes inv: "alarms_inv s" and sc: "scanned (a_scan s) (update_clock t s) s'"
    and c: "c \<in> set (a_scan s)" "parent_alarm s c = Some n" "al_state n = ALARM_ST_ON" "al_callback n = Some f"
  shows "if al_hour n = tm_hour t \<and> al_minute n = tm_min t
    then quiet (al_alarm_id n) s' \<and> (\<exists>us. a_trace s' = a_trace s @ us \<and> count_list us (AlarmCallback f (al_alarm_id n)) = 1)
    else c \<in> set (a_scan s') \<and> parent_alarm s' c = Some n \<and>
      (\<exists>us. a_trace s' = a_trace s @ us \<and> count_list us (AlarmCallback f (al_alarm_id n)) = 0)"
proof -
  let ?s1 = "update_clock t s"
  let ?rings = "concat (map (\<lambda>c. ring (the (parent_alarm ?s1 c))) (filter (due ?s1) (a_scan s)))"
  have inv1: "alarms_inv ?s1" using inv update_clock_fields by simp
  have scan: "a_scan ?s1 = a_scan s" by (rule update_clock_fields)
  have par: "parent_alarm ?s1 c = Some n" using c(2) by (simp add: clock_parent)
  have d: "due ?s1 c \<longleftrightarrow> al_hour n = tm_hour t \<and> al_minute n = tm_min t" using c by (auto simp: due_clock)
  obtain us where us: "a_trace ?s1 = a_trace s @ us" "count_list us (AlarmCallback f (al_alarm_id n)) = 0"
    using count_clock by blast
  have "a_trace s' = a_trace s @ us @ ?rings" using sc us(1) by (simp add: scanned_def)
  moreover have "count_list ?rings (AlarmCallback f (al_alarm_id n)) = (if due ?s1 c then 1 else 0)"
    using count_due [OF inv1, of c n f "a_scan s"] par c(1,4) scan alarms_invD(3) [OF inv] by simp
  ultimately have tr: "\<exists>us. a_trace s' = a_trace s @ us \<and>
      count_list us (AlarmCallback f (al_alarm_id n)) = (if due ?s1 c then 1 else 0)"
    using us(2) by (intro exI [of _ "us @ ?rings"]) simp
  have sc': "a_scan s' = filter (\<lambda>x. x \<notin> set (filter (due ?s1) (a_scan s))) (a_scan s)"
    using sc scan by (simp add: scanned_def)
  have keep: "parent_alarm s' x = parent_alarm s x" if "x \<in> set (a_scan s')" for x
    using sc that by (simp add: scanned_def clock_parent)
  show ?thesis
  proof (cases "due ?s1 c")
    case True
    have "quiet (al_alarm_id n) s'"
      unfolding quiet_def
    proof (intro ballI allI impI)
      fix x m assume x: "x \<in> set (a_scan s')" "parent_alarm s' x = Some m" "al_alarm_id m = al_alarm_id n"
      then have "x \<in> set (a_scan s)" "parent_alarm s x = Some m" using sc' keep by auto
      with x(3) have "x = c" using same_id_same_scan [OF inv _ c(1) _ c(2)] by blast
      with x(1) sc' True c(1) show "al_state m \<noteq> ALARM_ST_ON" by simp
    qed
    with tr True d show ?thesis by simp
  next
    case False
    then have "c \<in> set (a_scan s')" using sc' c(1) by simp
    moreover from this have "parent_alarm s' c = Some n" using keep c(2) by simp
    moreover have "\<not> (al_hour n = tm_hour t \<and> al_minute n = tm_min t)" using False d by simp
    ultimately show ?thesis using tr False by (simp only: if_False simp_thms)
  qed
qed

lemma armed_run:
  assumes "alarms_inv s" "sc_vaild (a_date s)" "\<forall>t\<in>set ts. tm_mday t = sc_day (a_date s)"
    and "c \<in> set (a_scan s)" "parent_alarm s c = Some n" "al_state n = ALARM_ST_ON" "al_callback n = Some f"
  shows "\<exists>s' us. run_opt alarm_tick ts s = Some s' \<and> a_trace s' = a_trace s @ us \<and>
    count_list us (AlarmCallback f (al_alarm_id n)) =
      (if \<exists>t\<in>set ts. tm_hour t = al_hour n \<and> tm_min t = al_minute n then 1 else 0)"
  using assms
proof (induction ts arbitrary: s)
  case (Cons t ts)
  obtain s1 where s1: "alarm_tick t s = Some s1" "scanned (a_scan s) (update_clock t s) s1"
    using tick_day [OF Cons.prems(1,2), of t] Cons.prems(3) by auto
  have inv1: "alarms_inv s1" using s1(2) by (simp add: scanned_def)
  have date: "sc_vaild (a_date s1)" "\<forall>t\<in>set ts. tm_mday t = sc_day (a_date s1)"
    using tick_date [OF s1(2)] Cons.prems(2,3) by auto
  note t = tick_armed [OF Cons.prems(1) s1(2) Cons.prems(4-7)]
  show ?case
  proof (cases "al_hour n = tm_hour t \<and> al_minute n = tm_min t")
    case True
    with t obtain us where us: "quiet (al_alarm_id n) s1" "a_trace s1 = a_trace s @ us"
      "count_list us (AlarmCallback f (al_alarm_id n)) = 1" by auto
    obtain s2 vs where "run_opt alarm_tick ts s1 = Some s2" "a_trace s2 = a_trace s1 @ vs"
      "count_list vs (AlarmCallback f (al_alarm_id n)) = 0"
      using quiet_run [OF inv1 date us(1)] by blast
    with True s1(1) us show ?thesis by auto
  next
    case False
    with t obtain us where us: "c \<in> set (a_scan s1)" "parent_alarm s1 c = Some n" "a_trace s1 = a_trace s @ us"
      "count_list us (AlarmCallback f (al_alarm_id n)) = 0" by auto
    obtain s2 vs where "run_opt alarm_tick ts s1 = Some s2" "a_trace s2 = a_trace s1 @ vs"
      "count_list vs (AlarmCallback f (al_alarm_id n)) =
        (if \<exists>t\<in>set ts. tm_hour t = al_hour n \<and> tm_min t = al_minute n then 1 else 0)"
      using Cons.IH [OF inv1 date us(1,2) Cons.prems(6,7)] by blast
    moreover have "(\<exists>u\<in>set (t # ts). tm_hour u = al_hour n \<and> tm_min u = al_minute n) \<longleftrightarrow>
        (\<exists>u\<in>set ts. tm_hour u = al_hour n \<and> tm_min u = al_minute n)" using False by auto
    ultimately show ?thesis using s1(1) us by auto
  qed
qed simp

lemma fresh_armed:
  assumes inv: "alarms_inv s" and fresh: "execute_fresh t mem s = Some s1" and inj: "inj_on mem {a. mem a \<noteq> None}"
    and a: "a_nodes s a = Some n" "al_state n = ALARM_ST_ON" "bit (al_week_map n) (tm_wday t)" "mem a = Some c"
  shows "alarms_inv s1 \<and> sc_vaild (a_date s1) \<and> sc_day (a_date s1) = tm_mday t \<and>
    c \<in> set (a_scan s1) \<and> parent_alarm s1 c = Some n \<and> a_trace s1 = a_trace s"
proof -
  let ?s0 = "(set_date t s)\<lparr>a_scan := [], a_scan_nodes := Map.empty\<rparr>"
  have r: "rebuilt mem (a_list s) ?s0 s1"
    using execute_fresh_total [OF inv inj, of t] fresh by auto
  have "a \<in> set (a_list s)" using a(1) alarms_invD(2) [OF inv] by auto
  moreover have "active ?s0 a" using a by (simp add: active_def set_date_def)
  ultimately have c: "a_scan_nodes s1 c = Some a" using r a(4) by (simp add: rebuilt_def)
  have "\<not> off ?s0 a" using a(1,2) by (simp add: off_def set_date_def)
  then have "a_nodes s1 a = Some n" using r a(1) by (simp add: rebuilt_def set_date_def)
  with c have "parent_alarm s1 c = Some n" by (simp add: parent_alarm_def)
  moreover have "c \<in> set (a_scan s1)" using c alarms_invD(4) [of s1] r by (auto simp: rebuilt_def)
  ultimately show ?thesis using r by (simp add: rebuilt_def set_date_def)
qed

section \<open>Replacing an alarm of today\<close>

lemma del_scan_fields:
  "del_scan_list i s = Some r \<Longrightarrow> a_nodes (fst r) = a_nodes s \<and> a_scan_nodes (fst r) = a_scan_nodes s"
  by (auto simp: del_scan_list_def unlink_scan_def ub_simps split: option.splits)

lemma dangling_scan: "parent_alarm s c = None \<Longrightarrow> c \<in> set cs \<Longrightarrow> scan_loop cs s = None"
proof (induction cs arbitrary: s)
  case (Cons x cs)
  show ?case
  proof (cases "parent_alarm s x")
    case (Some n)
    then have cs: "c \<in> set cs" using Cons.prems by auto
    have keep: "parent_alarm s1 c = None"
      if "del_scan_list i (s\<lparr>a_trace := tr\<rparr>) = Some r" "free_scan x (turn_off x n (fst r)) = Some s1" for i tr r s1
    proof -
      have f: "a_nodes (fst r) = a_nodes s" "a_scan_nodes (fst r) = a_scan_nodes s"
        using del_scan_fields [OF that(1)] by simp_all
      have s1: "a_scan_nodes s1 = (a_scan_nodes s)(x := None)"
        "a_nodes s1 = a_nodes s \<or> (\<exists>p m. a_scan_nodes s x = Some p \<and> a_nodes s1 = (a_nodes s)(p \<mapsto> m))"
        using that(2) f by (auto simp: free_scan_def turn_off_def split: option.splits if_splits)
      show ?thesis using s1 Cons.prems(1) Some
        by (auto simp: parent_alarm_def Option.bind_eq_None_conv split: if_splits option.splits)
    qed
    show ?thesis
    proof (rule ccontr)
      assume "scan_loop (x # cs) s \<noteq> None"
      then obtain s' where s': "scan_loop (x # cs) s = Some s'" by blast
      show False
      proof (cases "time_equal (a_date s) n \<and> al_state n = ALARM_ST_ON")
        case True
        with s' Some obtain r s1 where "del_scan_list (al_alarm_id n) (s\<lparr>a_trace := a_trace s @ ring n\<rparr>) = Some r"
          "free_scan x (turn_off x n (fst r)) = Some s1" "scan_loop cs s1 = Some s'"
          by (auto simp: ub_simps)
        with keep Cons.IH cs show False by fastforce
      next
        case False
        have "scan_loop (x # cs) s = scan_loop cs s"
          by (simp only: scan_loop.simps Some bind_Some_left False if_False)
        with s' Cons.IH [OF Cons.prems(1) cs] show False by simp
      qed
    qed
  qed simp
qed simp

lemma dangling_clear: "parent_alarm s c = None \<Longrightarrow> c \<in> set cs \<Longrightarrow> clear_scan cs s = None"
proof (induction cs arbitrary: s)
  case (Cons x cs)
  show ?case
  proof (rule ccontr)
    assume "clear_scan (x # cs) s \<noteq> None"
    then obtain s' where "clear_scan (x # cs) s = Some s'" by blast
    then obtain n r s1 where n: "parent_alarm s x = Some n" "del_scan_list (al_alarm_id n) s = Some r"
      "free_scan x (fst r) = Some s1" "clear_scan cs s1 = Some s'" by (auto simp: ub_simps)
    then have cs: "c \<in> set cs" using Cons.prems by auto
    have "a_nodes s1 = a_nodes s" "a_scan_nodes s1 = (a_scan_nodes s)(x := None)"
      using n(3) del_scan_fields [OF n(2)] by (auto simp: free_scan_def split: option.splits)
    then have "parent_alarm s1 c = None" using Cons.prems(1) by (simp add: parent_alarm_def)
    with Cons.IH cs n(4) show False by fastforce
  qed
qed simp

lemma replace_dangles:
  assumes inv: "alarms_inv s" and c: "c \<in> set (a_scan s)" "parent_alarm s c = Some n" "al_alarm_id n = al_alarm_id al"
    and mem: "\<forall>a. node_mem = Some a \<longrightarrow> a_nodes s a = None" "\<forall>d. scan_mem = Some d \<longrightarrow> a_scan_nodes s d = None"
  shows "\<exists>s1. execute_add node_mem scan_mem al s = Some s1 \<and> c \<in> set (a_scan s1) \<and>
    parent_alarm s1 c = None \<and> a_date s1 = a_date s"
proof -
  obtain p where p: "a_scan_nodes s c = Some p" "a_nodes s p = Some n"
    using scan_parent [OF inv c(1)] c(2) by (metis option.inject)
  have del: "delete_old (al_alarm_id al) s = Some (drop_alarm p s)"
    using seek_eq [OF inv p(2)] p(2) c(3)
    by (simp add: delete_old_def free_alarm_def unlink_alarm_def drop_alarm_def)
  show ?thesis
  proof (cases node_mem)
    case None
    with del p c(1) show ?thesis by (simp add: execute_add_def drop_alarm_def parent_alarm_def)
  next
    case (Some a)
    then have "a \<noteq> p" using mem(1) p(2) by auto
    moreover have "scan_mem \<noteq> Some c" using mem(2) p(1) by auto
    ultimately show ?thesis using Some del p c(1)
      by (auto simp: execute_add_def drop_alarm_def parent_alarm_def add_alarm_list_def scan_alarm_def
          add_scan_list_def Let_def split: option.splits)
  qed
qed

text \<open>Two scan nodes with one parent ring twice.\<close>

lemma scan_two:
  assumes "a_scan s = [c, d]" "a_scan_nodes s = [c \<mapsto> q, d \<mapsto> q]" "c \<noteq> d" "a_nodes s q = Some n"
    and "time_equal (a_date s) n" "al_state n = ALARM_ST_ON" "\<not> al_one_shot n"
  shows "\<exists>s'. scan_loop [c, d] s = Some s' \<and> a_trace s' = a_trace s @ ring n @ ring n"
  using assms
  by (simp add: parent_alarm_def del_scan_list_def unlink_scan_def free_scan_def turn_off_def)

lemma replace_in_place:
  assumes "a_list s = [q]" "a_nodes s = [q \<mapsto> n]" "a_scan s = [c]" "a_scan_nodes s = [c \<mapsto> q]" "c \<noteq> d"
    and "al_alarm_id n = al_alarm_id al" "bit (al_week_map al) (sc_wday (a_date s))"
  shows "\<exists>s1. execute_add (Some q) (Some d) al s = Some s1 \<and> a_scan s1 = [c, d] \<and>
    a_scan_nodes s1 = [c \<mapsto> q, d \<mapsto> q] \<and> a_nodes s1 q = Some al \<and> a_date s1 = a_date s \<and> a_trace s1 = a_trace s"
  using assms
  by (simp add: execute_add_def delete_old_def seek_alarm_list_def del_alarm_list_def unlink_alarm_def
      free_alarm_def add_alarm_list_def scan_alarm_def add_scan_list_def Let_def)

section \<open>Properties\<close>

definition wit_alarm :: alarm_t where
  "wit_alarm = \<lparr>al_state = ALARM_ST_ON, al_one_shot = False, al_hour = 6, al_minute = 30, al_week_map = 8,
     al_alarm_id = 7, al_callback = Some 99\<rparr>"

definition wit_tm :: "nat \<Rightarrow> nat \<Rightarrow> tm" where
  "wit_tm h m = \<lparr>tm_year = 118, tm_mon = 0, tm_mday = 10, tm_wday = 3, tm_hour = h, tm_min = m\<rparr>"

definition wit_alarms :: alarms where
  "wit_alarms = alarm_init\<lparr>a_nodes := [1 \<mapsto> wit_alarm], a_list := [1], a_scan_nodes := [5 \<mapsto> 1], a_scan := [5],
     a_date := \<lparr>sc_vaild = True, sc_wday = 3, sc_year = 2018, sc_month = 1, sc_day = 10, sc_hour = 6,
       sc_minute = 29\<rparr>\<rparr>"

lemma wit_alarms_inv: "alarms_inv wit_alarms"
  by (simp add: alarms_inv_def wit_alarms_def alarm_init_def)

lemma wit_mem_inj: "inj_on (\<lambda>a. if a = 1 then Some 9 else None :: addr option) {a. (if a = 1 then Some 9 else None :: addr option) \<noteq> None}"
  by (auto simp: inj_on_def split: if_splits)

text \<open>From the start, whatever alarms are added and removed and whatever the clock shows, every round
  of the alarm task is defined, as long as no alarm that is on today's list is replaced: no freed node
  is read, the two lists hold exactly the live nodes, and every scan node points to a live alarm.\<close>

theorem alarm_task_safe:
  assumes "reach alarm_step alarm_input_ok {alarm_init} s" "alarm_input_ok i s"
  shows "\<exists>s'. alarm_step i s = Some s' \<and> distinct (a_list s') \<and> set (a_list s') = dom (a_nodes s') \<and>
    distinct (a_scan s') \<and> set (a_scan s') = dom (a_scan_nodes s') \<and> ran (a_scan_nodes s') \<subseteq> set (a_list s')"
  using alarm_machine.reach_not_stuck [OF assms(1) alarm_init_inv assms(2)]
  by (auto simp: alarms_inv_def)

theorem alarm_task_safe_witness:
  "\<exists>s1 s2. alarm_step (AddAlarm True (Some wit_alarm)) alarm_init = Some s1 \<and>
    alarm_step (AlarmTask \<lparr>ae_node = Some 1, ae_scan = None, ae_rebuild = \<lambda>_. None, ae_fresh_now = wit_tm 6 0,
      ae_now = wit_tm 6 0\<rparr>) s1 = Some s2 \<and> set (a_list s2) = dom (a_nodes s2)"
proof -
  let ?s1 = "add_alarm True (Some wit_alarm) alarm_init"
  let ?i = "AlarmTask \<lparr>ae_node = Some 1, ae_scan = None, ae_rebuild = \<lambda>_. None, ae_fresh_now = wit_tm 6 0,
      ae_now = wit_tm 6 0\<rparr>"
  have s1: "alarm_step (AddAlarm True (Some wit_alarm)) alarm_init = Some ?s1" by (simp add: alarm_step_def)
  have "reach alarm_step alarm_input_ok {alarm_init} ?s1"
    by (rule reach_step [where step = alarm_step and i = "AddAlarm True (Some wit_alarm)", OF _ _ s1])
      (auto intro: reach_init simp: alarm_input_ok_def)
  moreover have "alarm_input_ok ?i ?s1"
    by (simp add: alarm_input_ok_def add_alarm_def send_alarm_cmd_def queue_send_def alarm_init_def on_scan_def)
  ultimately show ?thesis using alarm_task_safe [of ?s1 ?i] s1 by blast
qed



text \<open>A removed alarm does not ring any more that day, although it stays in both lists.\<close>

theorem removed_alarm_stays_silent:
  assumes "alarms_inv s" "execute_del i s = Some s1" "sc_vaild (a_date s)"
    and "\<forall>u\<in>set us. tm_mday u = sc_day (a_date s)"
  shows "\<exists>s2 tr. run_opt alarm_tick us s1 = Some s2 \<and> a_trace s2 = a_trace s @ tr \<and>
    count_list tr (AlarmCallback f i) = 0"
proof -
  have s1: "s1 = s\<lparr>a_nodes := (\<lambda>a. map_option
      (\<lambda>n. if al_alarm_id n = i then n\<lparr>al_state := ALARM_ST_OFF\<rparr> else n) (a_nodes s a))\<rparr>"
    using execute_del_eq [OF assms(1)] assms(2) by simp
  have "quiet i s1"
    unfolding quiet_def
  proof (intro ballI allI impI)
    fix c n assume n: "parent_alarm s1 c = Some n" "al_alarm_id n = i"
    then obtain p m where "a_nodes s p = Some m"
      "n = (if al_alarm_id m = i then m\<lparr>al_state := ALARM_ST_OFF\<rparr> else m)"
      unfolding s1 parent_alarm_def by (cases "a_scan_nodes s c") auto
    with n(2) show "al_state n \<noteq> ALARM_ST_ON" by (simp split: if_splits)
  qed
  moreover have "alarms_inv s1" using execute_del_inv [OF assms(1), of i] assms(2) by auto
  ultimately show ?thesis using quiet_run [of s1 us i f] assms(3,4) s1 by simp
qed

theorem removed_alarm_stays_silent_witness:
  "\<exists>s1 s2. execute_del 7 wit_alarms = Some s1 \<and> run_opt alarm_tick [wit_tm 6 30] s1 = Some s2 \<and>
    count_list (a_trace s2) (AlarmCallback 99 7) = 0"
proof -
  obtain s1 where s1: "execute_del 7 wit_alarms = Some s1" using execute_del_inv [OF wit_alarms_inv] by blast
  from removed_alarm_stays_silent [OF wit_alarms_inv s1, of "[wit_tm 6 30]" 99] s1 show ?thesis
    by (auto simp: wit_alarms_def wit_tm_def alarm_init_def)
qed

text \<open>The fresh command keeps exactly the alarms that are not off, and afterwards the scan list points
  exactly to those of them that are set for the new weekday (and got memory).\<close>

theorem fresh_rebuilds_the_lists:
  assumes "alarms_inv s" "inj_on mem {a. mem a \<noteq> None}"
  shows "\<exists>s1. execute_fresh t mem s = Some s1 \<and> sc_vaild (a_date s1) \<and> sc_day (a_date s1) = tm_mday t \<and>
    set (a_list s1) = {a \<in> set (a_list s). al_state (the (a_nodes s a)) \<noteq> ALARM_ST_OFF} \<and>
    ran (a_scan_nodes s1) = {a \<in> set (a_list s1). bit (al_week_map (the (a_nodes s a))) (tm_wday t) \<and> mem a \<noteq> None}"
proof -
  let ?s0 = "(set_date t s)\<lparr>a_scan := [], a_scan_nodes := Map.empty\<rparr>"
  obtain s1 where s1: "execute_fresh t mem s = Some s1" "rebuilt mem (a_list s) ?s0 s1"
    using execute_fresh_total [OF assms] by blast
  have l: "set (a_list s) = dom (a_nodes s)" "set (a_list s1) = dom (a_nodes s1)"
    using alarms_invD(2) [OF assms(1)] alarms_invD(2) [of s1] s1(2) by (simp_all add: rebuilt_def)
  have n: "a_nodes s1 a = (if off ?s0 a then None else a_nodes s a)" for a
    using s1(2) l(1) by (auto simp: rebuilt_def set_date_def)
  have o: "off ?s0 a \<longleftrightarrow> a \<in> dom (a_nodes s) \<and> al_state (the (a_nodes s a)) = ALARM_ST_OFF" for a
    by (auto simp: off_def set_date_def)
  have list: "set (a_list s1) = {a \<in> set (a_list s). al_state (the (a_nodes s a)) \<noteq> ALARM_ST_OFF}"
    using n o l by (auto split: if_splits)
  have act: "active ?s0 a \<longleftrightarrow> a \<in> set (a_list s1) \<and> bit (al_week_map (the (a_nodes s a))) (tm_wday t)" for a
    unfolding list l(1) by (auto simp: active_def set_date_def)
  have "a \<in> ran (a_scan_nodes s1) \<longleftrightarrow> a \<in> set (a_list s) \<and> active ?s0 a \<and> mem a \<noteq> None" for a
    using s1(2) by (auto simp: rebuilt_def ran_def)
  then have "ran (a_scan_nodes s1) =
      {a \<in> set (a_list s1). bit (al_week_map (the (a_nodes s a))) (tm_wday t) \<and> mem a \<noteq> None}"
    using act list by auto
  with s1 list show ?thesis by (simp add: rebuilt_def set_date_def)
qed

theorem fresh_rebuilds_the_lists_witness:
  "\<exists>s1. execute_fresh (wit_tm 0 0) (\<lambda>a. if a = 1 then Some 9 else None) wit_alarms = Some s1 \<and>
    ran (a_scan_nodes s1) = {1}"
proof -
  have "bit (8 :: 8 word) 3" by (simp add: bit_numeral_rec)
  with fresh_rebuilds_the_lists [OF wit_alarms_inv wit_mem_inj, of "wit_tm 0 0"] show ?thesis
    by (auto simp: wit_alarms_def wit_alarm_def wit_tm_def alarm_init_def)
qed

text \<open>Replacing an alarm that is on today's list leaves its scan node behind with a pointer to freed
  memory. If the new alarm does not get the same memory, every later tick of the day and every fresh
  command reads the freed alarm.\<close>

theorem replaced_alarm_is_read_after_free:
  assumes "alarms_inv s" "c \<in> set (a_scan s)" "parent_alarm s c = Some n" "al_alarm_id n = al_alarm_id al"
    and "\<forall>a. node_mem = Some a \<longrightarrow> a_nodes s a = None" "\<forall>d. scan_mem = Some d \<longrightarrow> a_scan_nodes s d = None"
    and "sc_vaild (a_date s)" "tm_mday t = sc_day (a_date s)"
  shows "\<exists>s1. execute_add node_mem scan_mem al s = Some s1 \<and> alarm_tick t s1 = None \<and>
    execute_fresh u mem s1 = None"
proof -
  obtain s1 where s1: "execute_add node_mem scan_mem al s = Some s1" "c \<in> set (a_scan s1)"
    "parent_alarm s1 c = None" "a_date s1 = a_date s"
    using replace_dangles [OF assms(1-6)] by blast
  have "parent_alarm (set_date u s1) c = None" "parent_alarm (update_clock t s1) c = None"
    using s1(3) by (simp_all add: parent_alarm_def set_date_def update_clock_fields)
  with s1 dangling_scan [of "update_clock t s1" c "a_scan s1"] dangling_clear [of "set_date u s1" c "a_scan s1"]
    assms(7,8) show ?thesis
    by (simp add: alarm_tick_def execute_fresh_def Let_def update_clock_fields)
qed

theorem replaced_alarm_is_read_after_free_witness:
  "\<exists>s1. execute_add (Some 2) (Some 6) wit_alarm wit_alarms = Some s1 \<and> alarm_tick (wit_tm 6 30) s1 = None"
proof -
  have "5 \<in> set (a_scan wit_alarms)" "parent_alarm wit_alarms 5 = Some wit_alarm"
    by (simp_all add: wit_alarms_def parent_alarm_def)
  from replaced_alarm_is_read_after_free [OF wit_alarms_inv this refl, of "Some 2" "Some 6" "wit_tm 6 30"]
  show ?thesis by (auto simp: wit_alarms_def wit_tm_def alarm_init_def)
qed

text \<open>If the new alarm gets the memory of the old one (which was freed just before), the scan list has
  two nodes for it, and it rings twice in its minute.\<close>

theorem alarm_replaced_in_place_rings_twice:
  assumes "a_list s = [q]" "a_nodes s = [q \<mapsto> n]" "a_scan s = [c]" "a_scan_nodes s = [c \<mapsto> q]" "c \<noteq> d"
    and "al_alarm_id n = al_alarm_id al" "bit (al_week_map al) (sc_wday (a_date s))"
    and "al_state al = ALARM_ST_ON" "\<not> al_one_shot al" "al_callback al = Some f"
    and "sc_vaild (a_date s)" "tm_mday t = sc_day (a_date s)" "tm_hour t = al_hour al" "tm_min t = al_minute al"
  shows "\<exists>s1 s2 tr. execute_add (Some q) (Some d) al s = Some s1 \<and> alarm_tick t s1 = Some s2 \<and>
    a_trace s2 = a_trace s @ tr \<and> count_list tr (AlarmCallback f (al_alarm_id al)) = 2"
proof -
  obtain s1 where s1: "execute_add (Some q) (Some d) al s = Some s1" "a_scan s1 = [c, d]"
    "a_scan_nodes s1 = [c \<mapsto> q, d \<mapsto> q]" "a_nodes s1 q = Some al" "a_date s1 = a_date s" "a_trace s1 = a_trace s"
    using replace_in_place [OF assms(1-7)] by blast
  let ?s1 = "update_clock t s1"
  obtain us where us: "a_trace ?s1 = a_trace s @ us" "count_list us (AlarmCallback f (al_alarm_id al)) = 0"
    using count_clock [of t s1] s1(6) by metis
  have "\<exists>s2. scan_loop [c, d] ?s1 = Some s2 \<and> a_trace s2 = a_trace ?s1 @ ring al @ ring al"
    by (rule scan_two [of _ _ _ q]) (use s1 assms in \<open>simp_all add: update_clock_fields time_equal_def\<close>)
  then obtain s2 where s2: "scan_loop [c, d] ?s1 = Some s2" "a_trace s2 = a_trace s @ us @ ring al @ ring al"
    using us(1) by auto
  then have "alarm_tick t s1 = Some s2"
    using s1 assms(11,12) by (simp add: alarm_tick_def Let_def update_clock_fields)
  with s1(1) s2(2) us(2) assms(10) show ?thesis
    by (intro exI [of _ s1] exI [of _ s2] exI [of _ "us @ ring al @ ring al"]) (simp add: count_ring)
qed

theorem alarm_replaced_in_place_rings_twice_witness:
  "\<exists>s1 s2. execute_add (Some 1) (Some 6) wit_alarm wit_alarms = Some s1 \<and>
    alarm_tick (wit_tm 6 30) s1 = Some s2 \<and> count_list (a_trace s2) (AlarmCallback 99 7) = 2"
proof -
  have "bit (8 :: 8 word) 3" by (simp add: bit_numeral_rec)
  then show ?thesis
    using alarm_replaced_in_place_rings_twice [of wit_alarms 1 wit_alarm 5 6 wit_alarm 99 "wit_tm 6 30"]
    by (auto simp: wit_alarms_def wit_alarm_def wit_tm_def alarm_init_def)
qed

end
