(* ===== verification/RemotePacket.thy ===== *)
theory RemotePacket
  imports Alarm_Prelude "HOL-Library.Word"
begin

text \<open>
  The connection to the server, part one: the registration table of
  \<open>sys/remote_command/remote_command.c\<close>, the dispatch of received commands to it, and the packets on
  the wire (\<open>include/remote_command.h\<close>, \<open>sys/remote_command/send_remote_cmd.c\<close>).

  \<^item> The table is the list of its ten entries; NULL is \<open>None\<close>; an access behind the end is \<open>None\<close> of
    the operation.
  \<^item> A socket is what the peer sends, cut into the chunks that arrive: one \<open>read\<close> gives at most one
    chunk, and what it leaves stays for the next (\<open>net_read\<close>). An error is an item of its own; an
    empty chunk is the end of the stream, which \<open>read\<close> reports again and again.
  \<^item> Words in packets are bytes in the order of the little-endian processor.
\<close>

type_synonym byte = "8 word"

section \<open>The registration table\<close>

abbreviation REGISTER_TASK_SIZE :: nat where "REGISTER_TASK_SIZE \<equiv> 10"

record register_node_t =
  rn_cmd_map :: "32 word"
  rn_callback :: "addr option"

type_synonym register_table = "register_node_t list"

definition s_cmd_map :: "16 word list" where
  "s_cmd_map = [0x0002, 0x8205, 0x8202, 0x8207, 0x8204, 0x8203, 0x8206, 0x8208, 0x8209, 0x820a, 0x820b,
     0x8201, 0x820c]"

fun find_offset :: "'a \<Rightarrow> 'a list \<Rightarrow> nat \<Rightarrow> nat option" where
  "find_offset x [] i = None"
| "find_offset x (y # ys) i = (if y = x then Some i else find_offset x ys (i + 1))"

text \<open>\<open>None\<close> is -1.\<close>

definition find_type_bit_offset :: "16 word \<Rightarrow> nat option" where
  "find_type_bit_offset ty = find_offset ty s_cmd_map 0"

text \<open>\<open>remote_cmd_register_query\<close> has no bound: with a full table it reads behind the end.\<close>

fun query_loop :: "addr \<Rightarrow> register_table \<Rightarrow> 32 word option" where
  "query_loop cb [] = None"
| "query_loop cb (r # rs) =
     (if rn_callback r = None then Some 0
      else if rn_callback r = Some cb then Some (rn_cmd_map r)
      else query_loop cb rs)"

definition remote_cmd_register_query :: "addr \<Rightarrow> register_table \<Rightarrow> 32 word option" where
  "remote_cmd_register_query cb t = query_loop cb t"

text \<open>
  The loop of \<open>remote_cmd_register\<close> reads an entry before it tests the bound, so it is undefined when
  it gets behind the last.
\<close>

fun register_loop :: "addr \<Rightarrow> register_table \<Rightarrow> nat \<Rightarrow> nat option" where
  "register_loop cb [] i = None"
| "register_loop cb (r # rs) i =
     (if rn_callback r = None \<or> rn_callback r = Some cb then Some i else register_loop cb rs (i + 1))"

definition remote_cmd_register :: "32 word \<Rightarrow> addr \<Rightarrow> register_table \<Rightarrow> (register_table \<times> nat) option" where
  "remote_cmd_register bits cb t = do {
     i \<leftarrow> register_loop cb t 0;
     Some (t[i := \<lparr>rn_cmd_map = or (rn_cmd_map (t ! i)) bits, rn_callback = Some cb\<rparr>], i) }"

definition remote_cmd_unregister :: "nat \<Rightarrow> register_table \<Rightarrow> register_table \<times> int" where
  "remote_cmd_unregister code t =
     (if code \<le> REGISTER_TASK_SIZE - 1 \<and> rn_callback (t ! code) \<noteq> None
      then (t[code := \<lparr>rn_cmd_map = 0, rn_callback = None\<rparr>], 0) else (t, - 1))"

definition register_zero :: register_table where
  "register_zero = replicate REGISTER_TASK_SIZE \<lparr>rn_cmd_map = 0, rn_callback = None\<rparr>"

text \<open>The callbacks called for a bit: up to the first empty entry.\<close>

fun notify_loop :: "nat \<Rightarrow> register_table \<Rightarrow> addr list" where
  "notify_loop b [] = []"
| "notify_loop b (r # rs) =
     (case rn_callback r of
        None \<Rightarrow> []
      | Some cb \<Rightarrow> (if bit (rn_cmd_map r) b then [cb] else []) @ notify_loop b rs)"

section \<open>Words in memory\<close>

definition BSWAP_32 :: "32 word \<Rightarrow> 32 word" where
  "BSWAP_32 x = or (or (or (drop_bit 24 (and x 0xff000000)) (drop_bit 8 (and x 0x00ff0000)))
                        (push_bit 8 (and x 0x0000ff00))) (push_bit 24 (and x 0x000000ff))"

definition le_bytes :: "32 word \<Rightarrow> byte list" where
  "le_bytes w = map (\<lambda>i. ucast (drop_bit (8 * i) w)) [0, 1, 2, 3]"

definition le_word :: "byte list \<Rightarrow> 32 word" where
  "le_word bs = or (or (or (ucast (bs ! 0)) (push_bit 8 (ucast (bs ! 1)))) (push_bit 16 (ucast (bs ! 2))))
     (push_bit 24 (ucast (bs ! 3)))"

section \<open>Packets\<close>

abbreviation PACKET_HEADER_LEN :: nat where "PACKET_HEADER_LEN \<equiv> 6"
abbreviation BUFFER_SIZE :: nat where "BUFFER_SIZE \<equiv> 12288"

text \<open>The memory of a \<open>tx_data_t\<close> as \<open>assemble_remote_json\<close> fills it.\<close>

definition tx_packet :: "byte \<Rightarrow> byte list \<Rightarrow> byte list" where
  "tx_packet version data =
     [version, 7] @ le_bytes (BSWAP_32 (of_nat (length data))) @ data"

type_synonym socket = "byte list option list"

text \<open>What \<open>read(s, p, n)\<close> gives: nothing yet, or the bytes (\<open>None\<close> is -1) and the rest.\<close>

definition net_read :: "nat \<Rightarrow> socket \<Rightarrow> (byte list option \<times> socket) option" where
  "net_read n s =
     (case s of
        [] \<Rightarrow> None
      | None # rest \<Rightarrow> Some (None, rest)
      | Some [] # rest \<Rightarrow> Some (Some [], s)
      | Some bs # rest \<Rightarrow>
          if length bs \<le> n then Some (Some bs, rest)
          else Some (Some (take n bs), Some (drop n bs) # rest))"

datatype recv_result = Waiting | Received "byte list" socket | Overrun

text \<open>
  The loop that reads the body: \<open>buf\<close> is what is in the buffer, from its start, and \<open>tot\<close> what of the
  body there is. At the end of the stream \<open>read\<close> gives nothing, and the loop goes round without an
  end: it is not total, and then its value is \<open>None\<close>.
\<close>

partial_function (option) body_loop :: "nat \<Rightarrow> nat \<Rightarrow> byte list \<Rightarrow> socket \<Rightarrow> recv_result option" where
  "body_loop len tot buf s =
     (if tot < len \<and> len < BUFFER_SIZE then
        (if BUFFER_SIZE \<le> tot then Some (Received buf s)
         else (case net_read (len - tot) s of
                 None \<Rightarrow> Some Waiting
               | Some (None, s') \<Rightarrow> Some (Received buf s')
               | Some (Some bs, s') \<Rightarrow>
                   if BUFFER_SIZE < length buf + length bs then Some Overrun
                   else body_loop len (tot + length bs) (buf @ bs) s'))
      else Some (Received buf s))"

text \<open>The buffer is zero behind what was read.\<close>

definition buf_at :: "byte list \<Rightarrow> nat \<Rightarrow> byte" where
  "buf_at buf i = (if i < length buf then buf ! i else 0)"

definition rx_version :: "byte list \<Rightarrow> byte" where
  "rx_version buf = buf_at buf 0"

definition rx_length :: "byte list \<Rightarrow> 32 word" where
  "rx_length buf = BSWAP_32 (le_word (map (buf_at buf) [2, 3, 4, 5]))"

datatype packet_result = Closed socket | NoPacket | Packet byte "32 word" "byte list" socket | PacketOverrun

text \<open>
  One packet: a header read that gives nothing ends the connection. A header shorter than its six
  bytes is taken as it is, and its body is not read (\<open>total_size\<close> is negative and compared as an
  unsigned number).
\<close>

definition recv_packet :: "socket \<Rightarrow> packet_result option" where
  "recv_packet s =
     (case net_read PACKET_HEADER_LEN s of
        None \<Rightarrow> Some NoPacket
      | Some (None, s') \<Rightarrow> Some (Closed s')
      | Some (Some [], s') \<Rightarrow> Some (Closed s')
      | Some (Some hdr, s') \<Rightarrow> do {
          r \<leftarrow> (if length hdr = PACKET_HEADER_LEN then body_loop (unat (rx_length hdr)) 0 hdr s'
                else Some (Received hdr s'));
          Some (case r of
                  Waiting \<Rightarrow> NoPacket
                | Overrun \<Rightarrow> PacketOverrun
                | Received buf s'' \<Rightarrow>
                    Packet (rx_version hdr) (rx_length hdr) (drop PACKET_HEADER_LEN buf) s'') })"

section \<open>Dispatch\<close>

definition S2C_DEVICE_HEARTBEAT_ACK :: "16 word" where "S2C_DEVICE_HEARTBEAT_ACK = 0x0002"
definition DEVICE_HEARTBEAT_VERSION :: byte where "DEVICE_HEARTBEAT_VERSION = 0x02"
definition DEVICE_MSGID_VERSION :: byte where "DEVICE_MSGID_VERSION = 0x0a"
definition DEVICE_DATA_VERSION :: byte where "DEVICE_DATA_VERSION = 0x80"

text \<open>
  The data of a packet as the string cJSON reads: it ends at the first NUL, and the buffer behind the
  data is zero; a buffer filled to its end has no terminator.
\<close>

definition data_string :: "byte list \<Rightarrow> string option" where
  "data_string data =
     (if 0 \<in> set data \<or> length data + PACKET_HEADER_LEN < BUFFER_SIZE
      then Some (map (\<lambda>b. char_of (unat b)) (takeWhile (\<lambda>b. b \<noteq> 0) data)) else None)"

text \<open>The type of a packet, the bit of the table and the message to acknowledge.\<close>

definition rx_type :: "'j cjson \<Rightarrow> byte \<Rightarrow> byte list \<Rightarrow> (int \<times> nat option \<times> string option) option option" where
  "rx_type j version data =
     (if version \<le> DEVICE_HEARTBEAT_VERSION
      then Some (Some (int (unat version), find_type_bit_offset (ucast DEVICE_HEARTBEAT_VERSION), None))
      else if version = DEVICE_DATA_VERSION then do {
        text \<leftarrow> data_string data;
        (case Option.bind (cJSON_Parse j text)
                (\<lambda>root. map_option (Pair root) (cJSON_GetObjectItem j root ''type'')) of
           None \<Rightarrow> Some None
         | Some (root, type_item) \<Rightarrow>
             let ty = cj_valueint j type_item; ret = find_type_bit_offset (word_of_int ty)
             in (case cJSON_GetObjectItem j root ''msgID'' of
                   None \<Rightarrow> Some (Some (ty, ret, None))
                 | Some m \<Rightarrow> do {
                     v \<leftarrow> cj_valuestring j m;
                     if ret = None then Some (Some (ty, ret, None))
                     else do { msgid \<leftarrow> c_str 30 (take 30 v); Some (Some (ty, ret, Some msgid)) } })) }
      else Some (Some (0, None, None)))"

text \<open>
  The result is what the function returns, the callbacks it calls with the type, and the message
  identifier it acknowledges.
\<close>

definition notify_all_register_app :: "'j cjson \<Rightarrow> register_table \<Rightarrow> byte \<Rightarrow> byte list
    \<Rightarrow> (bool \<times> (addr \<times> int) list \<times> string option) option" where
  "notify_all_register_app j t version data = do {
     r \<leftarrow> rx_type j version data;
     Some (case r of
             None \<Rightarrow> (False, [], None)
           | Some (ty, None, ack) \<Rightarrow> (False, [], ack)
           | Some (ty, Some b, ack) \<Rightarrow> (True, map (\<lambda>cb. (cb, ty)) (notify_loop b t), ack)) }"

end
