(* ===== verification/RemoteCommand.thy ===== *)
theory RemoteCommand
  imports RemotePacket
begin

text \<open>
  The connection to the server, part two: the answer of the login, the task that logs in, connects and
  sends the queued requests, and the task that receives (\<open>sys/remote_command/remote_command.c\<close>), with
  the function that queues a request (\<open>sys/remote_command/send_remote_cmd.c\<close>).

  \<^item> A request is a block of memory whose address travels in the queue to the send task, which frees it;
    \<open>r_heap\<close> holds the live blocks with their bytes.
  \<^item> \<open>login_cmd_info_t\<close> is packed; it is the list of its 59 bytes, so that a string that is too long
    runs into the fields behind it.
  \<^item> A step of the send task runs from one place where it waits for a queue to the next (\<open>send_pc\<close>).
  \<^item> Calls on the network, the clock and the other components are recorded in \<open>r_trace\<close>.
\<close>

section \<open>Data\<close>

datatype remote_cmd_all_status_t = REMOTE_CMD_LOGIN | REMOTE_CMD_INIT | REMOTE_CMD_CONNECT
  | REMOTE_CMD_DISCONNECT

record remote_cmd_info_t =
  ri_task_code :: nat
  ri_pdata :: "addr option"
  ri_len :: nat
  ri_type :: "16 word"

record sync_recv_cmd_t =
  sr_task_code :: nat
  sr_cmd_type :: "16 word"

text \<open>Where the send task is: at the head of its loop, waiting for the login, or for a request.\<close>

datatype send_pc = PcTop | PcLogin | PcReceive

datatype remote_event = GetLogin | SetTime string | FreshAlarms | FactoryReset | Connect string string
  | Handshake | SockWrite "byte list" | SockSelect | SockClose | CallApp addr int

abbreviation RECEVE_REMOTE_CMD_SIZE :: nat where "RECEVE_REMOTE_CMD_SIZE \<equiv> 10"
abbreviation LOGIN_QUEUE_SIZE :: nat where "LOGIN_QUEUE_SIZE \<equiv> 20"
abbreviation ERROR_RETRY_COUNT :: nat where "ERROR_RETRY_COUNT \<equiv> 3"
abbreviation SYNC_DISCONNECT_TYPE :: "16 word" where "SYNC_DISCONNECT_TYPE \<equiv> 0xffff"

record remote =
  r_status :: remote_cmd_all_status_t
  r_table :: register_table
  r_heap :: "addr \<rightharpoonup> byte list"
  r_send_queue :: "remote_cmd_info_t list"
  r_sync_queue :: "sync_recv_cmd_t list"
  r_login_queue :: "byte list list"
  r_device_id :: "byte list"
  r_ip :: "byte list"
  r_port :: string
  r_req :: remote_cmd_info_t
  r_pc :: send_pc
  r_wait_type :: "16 word"
  r_reading :: bool
  r_trace :: "remote_event list"

definition r_emit :: "remote_event list \<Rightarrow> remote \<Rightarrow> remote" where
  "r_emit es s = s\<lparr>r_trace := r_trace s @ es\<rparr>"

definition zero_request :: remote_cmd_info_t where
  "zero_request = \<lparr>ri_task_code = 0, ri_pdata = None, ri_len = 0, ri_type = 0\<rparr>"

section \<open>Requests\<close>

definition get_server_connect_status :: "remote \<Rightarrow> bool" where
  "get_server_connect_status s \<longleftrightarrow> r_status s = REMOTE_CMD_CONNECT"

definition send_net_req_Q :: "remote_cmd_info_t \<Rightarrow> remote \<Rightarrow> remote" where
  "send_net_req_Q b s = s\<lparr>r_send_queue := queue_send RECEVE_REMOTE_CMD_SIZE b (r_send_queue s)\<rparr>"

definition set_server_connect_status :: "remote_cmd_all_status_t \<Rightarrow> remote \<Rightarrow> remote" where
  "set_server_connect_status st s =
     send_net_req_Q (zero_request\<lparr>ri_type := SYNC_DISCONNECT_TYPE\<rparr>) (s\<lparr>r_status := st\<rparr>)"

text \<open>\<open>mem\<close> is what \<open>malloc\<close> gives. A caller that finds the queue full waits, that is, calls later.\<close>

definition assemble_remote_json :: "16 word \<Rightarrow> nat \<Rightarrow> 16 word \<Rightarrow> byte list \<Rightarrow> addr option \<Rightarrow> remote
    \<Rightarrow> remote \<times> int" where
  "assemble_remote_json version task_code ty data mem s =
     (if \<not> get_server_connect_status s then (s, -1)
      else (case mem of
              None \<Rightarrow> (s, -1)
            | Some a \<Rightarrow>
                (s\<lparr>r_heap := (r_heap s)(a \<mapsto> tx_packet (ucast version) data),
                   r_send_queue := r_send_queue s @
                     [\<lparr>ri_task_code = task_code, ri_pdata = Some a,
                       ri_len = length data + PACKET_HEADER_LEN, ri_type = ty\<rparr>]\<rparr>, 0)))"

section \<open>The answer of the login\<close>

abbreviation LOGIN_INFO_SIZE :: nat where "LOGIN_INFO_SIZE \<equiv> 59"

text \<open>The offsets of \<open>server_ip\<close>, \<open>port\<close>, \<open>id\<close>, \<open>result_code\<close> and \<open>finish_reason\<close>.\<close>

abbreviation OFF_IP :: nat where "OFF_IP \<equiv> 0"
abbreviation OFF_PORT :: nat where "OFF_PORT \<equiv> 15"
abbreviation OFF_ID :: nat where "OFF_ID \<equiv> 19"
abbreviation OFF_CODE :: nat where "OFF_CODE \<equiv> 51"
abbreviation OFF_REASON :: nat where "OFF_REASON \<equiv> 55"

definition put_bytes :: "nat \<Rightarrow> byte list \<Rightarrow> byte list \<Rightarrow> byte list option" where
  "put_bytes off bs m =
     (if off + length bs \<le> length m then Some (take off m @ bs @ drop (off + length bs) m) else None)"

definition put_word :: "nat \<Rightarrow> 32 word \<Rightarrow> byte list \<Rightarrow> byte list option" where
  "put_word off w m = put_bytes off (le_bytes w) m"

definition get_word :: "nat \<Rightarrow> byte list \<Rightarrow> 32 word" where
  "get_word off m = le_word (take 4 (drop off m))"

definition str_bytes :: "string \<Rightarrow> byte list" where
  "str_bytes v = map of_char v"

text \<open>\<open>strcpy\<close> into the record, and \<open>strncpy\<close> of \<open>n\<close> bytes out of it.\<close>

definition put_string :: "nat \<Rightarrow> string \<Rightarrow> byte list \<Rightarrow> byte list option" where
  "put_string off v m = put_bytes off (str_bytes v @ [0]) m"

definition get_string :: "nat \<Rightarrow> nat \<Rightarrow> byte list \<Rightarrow> byte list" where
  "get_string off n m = takeWhile (\<lambda>b. b \<noteq> 0) (take n (drop off m))"

definition member :: "'j cjson \<Rightarrow> 'j \<Rightarrow> string \<Rightarrow> ('j \<Rightarrow> byte list \<Rightarrow> byte list option) \<Rightarrow> byte list
    \<Rightarrow> byte list option" where
  "member j d name f m =
     (case cJSON_GetObjectItem j d name of None \<Rightarrow> put_word OFF_CODE (-1) m | Some i \<Rightarrow> f i m)"

text \<open>The members of \<open>data\<close>; \<open>Some None\<close> is the order to reset to the factory settings.\<close>

definition login_data :: "'j cjson \<Rightarrow> 'j \<Rightarrow> byte list \<Rightarrow> byte list \<Rightarrow> (byte list \<times> byte list) option option" where
  "login_data j d dev m =
     (if \<exists>r. cJSON_GetObjectItem j d ''result'' = Some r \<and> cj_valueint j r = -2 then Some None
      else do {
        m1 \<leftarrow> member j d ''ip'' (\<lambda>i m. do { v \<leftarrow> cj_valuestring j i; put_string OFF_IP v m }) m;
        m2 \<leftarrow> member j d ''port'' (\<lambda>i. put_word OFF_PORT (word_of_int (cj_valueint j i))) m1;
        m3 \<leftarrow> member j d ''sid'' (\<lambda>i m. do { v \<leftarrow> cj_valuestring j i; put_string OFF_ID v m }) m2;
        Some (Some (m3, if cJSON_GetObjectItem j d ''sid'' = None then dev else get_string OFF_ID 32 m3)) })"

text \<open>The ten digits behind \<open>timestamp":\<close>, if the text has them.\<close>

definition login_time :: "string \<Rightarrow> remote_event list option" where
  "login_time text =
     (case strstr text ''timestamp'' of
        None \<Rightarrow> Some []
      | Some t \<Rightarrow> if length t < 11 then None else Some [SetTime (take 10 (drop 11 t)), FreshAlarms])"

text \<open>
  \<open>file\<close> is the text of the answer, if the file opens. The array it is read into is not cleared; the
  model takes it to be zero behind the text, which is then read as a string.
\<close>

definition download_callback :: "'j cjson \<Rightarrow> 32 word \<Rightarrow> string option \<Rightarrow> remote \<Rightarrow> remote option" where
  "download_callback j reason file s = do {
     m0 \<leftarrow> put_word OFF_REASON reason (replicate LOGIN_INFO_SIZE 0);
     let reply = (\<lambda>m s. Some (s\<lparr>r_login_queue := queue_send LOGIN_QUEUE_SIZE m (r_login_queue s)\<rparr>));
     if reason \<noteq> 0 then reply m0 s
     else (case file of
             None \<Rightarrow> do { m \<leftarrow> put_word OFF_CODE (-1) m0; reply m s }
           | Some text \<Rightarrow>
               if 256 \<le> length text then None
               else (case cJSON_Parse j text of
                  None \<Rightarrow> do { m \<leftarrow> put_word OFF_CODE (-1) m0; reply m s }
                | Some root \<Rightarrow> do {
                    m1 \<leftarrow> member j root ''resultCode''
                            (\<lambda>i. put_word OFF_CODE (word_of_int (cj_valueint j i))) m0;
                    r \<leftarrow> (case cJSON_GetObjectItem j root ''data'' of
                            None \<Rightarrow> Some (Some (m1, r_device_id s))
                          | Some d \<Rightarrow> login_data j d (r_device_id s) m1);
                    (case r of
                       None \<Rightarrow> Some (r_emit [FactoryReset] s)
                     | Some (m, dev) \<Rightarrow> do {
                         es \<leftarrow> login_time text;
                         reply m (r_emit es (s\<lparr>r_device_id := dev\<rparr>)) }) })) }"

section \<open>The send task\<close>

text \<open>\<open>sprintf(port, "%d", x)\<close> into an array of ten bytes.\<close>

definition sprintf_port :: "32 word \<Rightarrow> string option" where
  "sprintf_port w =
     (let x = sint w; r = (if x < 0 then CHR ''-'' # dec_nat (nat (- x)) else dec_nat (nat x))
      in if length r < 10 then Some r else None)"

text \<open>What the outside gives in one step.\<close>

record send_env =
  se_wifi :: bool
  se_connect_error :: int
  se_write_ok :: "nat \<Rightarrow> bool"
  se_select_ready :: bool

text \<open>\<open>xQueueReceive\<close> into \<open>req_buff\<close>, which keeps its value when nothing comes.\<close>

definition take_request :: "remote \<Rightarrow> remote" where
  "take_request s =
     (case r_send_queue s of [] \<Rightarrow> s | b # q \<Rightarrow> s\<lparr>r_req := b, r_send_queue := q\<rparr>)"

text \<open>\<open>free(req_buff.pdata)\<close> and clearing \<open>req_buff\<close>.\<close>

definition free_request :: "remote \<Rightarrow> remote option" where
  "free_request s =
     (case ri_pdata (r_req s) of
        None \<Rightarrow> Some (s\<lparr>r_req := zero_request\<rparr>)
      | Some a \<Rightarrow>
          (case r_heap s a of
             None \<Rightarrow> None
           | Some _ \<Rightarrow> Some (s\<lparr>r_heap := (r_heap s)(a := None), r_req := zero_request\<rparr>)))"

definition start_login :: "remote \<Rightarrow> remote" where
  "start_login s = r_emit [GetLogin] (s\<lparr>r_pc := PcLogin\<rparr>)"

text \<open>One round of the login loop, from the answer on.\<close>

definition login_answer :: "byte list \<Rightarrow> remote \<Rightarrow> remote option" where
  "login_answer m s =
     (if get_word OFF_REASON m = 0 \<and> get_word OFF_CODE m = 0 then do {
        port \<leftarrow> sprintf_port (get_word OFF_PORT m);
        Some (s\<lparr>r_port := port, r_ip := get_string OFF_IP 15 m, r_status := REMOTE_CMD_INIT, r_pc := PcTop\<rparr>) }
      else Some (start_login (take_request (s\<lparr>r_status := REMOTE_CMD_LOGIN\<rparr>))))"

text \<open>Requests left from the last connection: freed up to the first without data.\<close>

function drain :: "remote \<Rightarrow> remote option" where
  "drain s =
     (if ri_pdata (r_req s) = None then Some s
      else (case free_request s of
              None \<Rightarrow> None
            | Some s1 \<Rightarrow> if r_send_queue s1 = [] then Some s1 else drain (take_request s1)))"
  by pat_completeness auto
termination
  by (relation "measure (\<lambda>s. length (r_send_queue s))")
    (auto simp: take_request_def neq_Nil_conv free_request_def split: option.splits)

declare drain.simps [simp del]

definition connect_server :: "send_env \<Rightarrow> remote \<Rightarrow> remote option" where
  "connect_server e s = do {
     s1 \<leftarrow> drain s;
     if length (r_ip s1) < 15 then
       (let s2 = r_emit [Connect (map (\<lambda>b. char_of (unat b)) (r_ip s1)) (r_port s1)] s1
        in if se_connect_error e = 0
           then Some (r_emit [Handshake] (s2\<lparr>r_status := REMOTE_CMD_CONNECT\<rparr>))
           else Some (s2\<lparr>r_status := REMOTE_CMD_LOGIN\<rparr>))
     else None }"

fun write_loop :: "(nat \<Rightarrow> bool) \<Rightarrow> nat \<Rightarrow> nat \<Rightarrow> nat" where
  "write_loop ok 0 i = i"
| "write_loop ok (Suc n) i = (if ok i then i else write_loop ok n (i + 1))"

text \<open>A request that came while the task waited in the connected state.\<close>

definition send_request :: "send_env \<Rightarrow> remote \<Rightarrow> remote option" where
  "send_request e s =
     (if r_status s = REMOTE_CMD_DISCONNECT then Some (s\<lparr>r_pc := PcTop\<rparr>)
      else do {
        r \<leftarrow> (if ri_type (r_req s) \<noteq> SYNC_DISCONNECT_TYPE then do {
                a \<leftarrow> ri_pdata (r_req s);
                data \<leftarrow> r_heap s a;
                let i = write_loop (se_write_ok e) ERROR_RETRY_COUNT 0;
                Some (i, r_emit (replicate (min (i + 1) ERROR_RETRY_COUNT)
                                  (SockWrite (take (ri_len (r_req s)) data))) s) }
              else Some (0, s));
        let s1 = snd r;
        let s2 = (if ERROR_RETRY_COUNT \<le> fst r then s1\<lparr>r_status := REMOTE_CMD_DISCONNECT\<rparr>
                  else if ri_type (r_req s1) = 2 then
                    r_emit [SockSelect]
                      (s1\<lparr>r_status := (if se_select_ready e then REMOTE_CMD_CONNECT else REMOTE_CMD_DISCONNECT),
                          r_sync_queue := queue_send RECEVE_REMOTE_CMD_SIZE
                            \<lparr>sr_task_code = ri_task_code (r_req s1), sr_cmd_type = 2\<rparr> (r_sync_queue s1)\<rparr>)
                  else s1\<lparr>r_status := REMOTE_CMD_CONNECT\<rparr>);
        free_request (s2\<lparr>r_pc := PcTop\<rparr>) })"

definition send_top :: "send_env \<Rightarrow> remote \<Rightarrow> remote option" where
  "send_top e s =
     (let s1 = (if \<not> se_wifi e \<and> r_status s = REMOTE_CMD_CONNECT
                then s\<lparr>r_status := REMOTE_CMD_DISCONNECT\<rparr> else s)
      in if \<not> se_wifi e \<and> r_status s1 = REMOTE_CMD_LOGIN then Some (take_request s1)
         else (case r_status s1 of
                 REMOTE_CMD_LOGIN \<Rightarrow> Some (start_login s1)
               | REMOTE_CMD_INIT \<Rightarrow> connect_server e s1
               | REMOTE_CMD_CONNECT \<Rightarrow> Some (s1\<lparr>r_pc := PcReceive\<rparr>)
               | REMOTE_CMD_DISCONNECT \<Rightarrow> do {
                   s2 \<leftarrow> free_request (s1\<lparr>r_status := REMOTE_CMD_LOGIN\<rparr>);
                   Some (r_emit [SockClose] s2) }))"

definition remote_command_connect_send_task :: "send_env \<Rightarrow> remote \<Rightarrow> remote option" where
  "remote_command_connect_send_task e s =
     (case r_pc s of
        PcTop \<Rightarrow> send_top e s
      | PcLogin \<Rightarrow>
          (case r_login_queue s of
             [] \<Rightarrow> Some s
           | m # q \<Rightarrow> login_answer m (s\<lparr>r_login_queue := q\<rparr>))
      | PcReceive \<Rightarrow>
          if r_send_queue s = [] then Some s else send_request e (take_request s))"

section \<open>The receive task\<close>

definition take_sync :: "remote \<Rightarrow> remote" where
  "take_sync s =
     (case r_sync_queue s of
        [] \<Rightarrow> s | c # q \<Rightarrow> s\<lparr>r_wait_type := sr_cmd_type c, r_sync_queue := q\<rparr>)"

function clear_sync :: "remote \<Rightarrow> remote" where
  "clear_sync s =
     (if r_wait_type s = 0 then s
      else if r_sync_queue s = [] then s\<lparr>r_wait_type := 0\<rparr>
      else clear_sync (take_sync (s\<lparr>r_wait_type := 0\<rparr>)))"
  by pat_completeness auto
termination
  by (relation "measure (\<lambda>s. length (r_sync_queue s))") (auto simp: take_sync_def neq_Nil_conv)

declare clear_sync.simps [simp del]

text \<open>
  A packet of the loop that reads from the socket; the loop goes on until a read fails, whatever the
  send task makes of the status (\<open>r_reading\<close>). \<open>mem\<close> is the memory for an acknowledgement. \<open>None\<close> is a
  body loop that never ends or memory that is not the buffer's.
\<close>

definition receive_packet :: "'j cjson \<Rightarrow> addr option \<Rightarrow> socket \<Rightarrow> remote \<Rightarrow> (remote \<times> socket) option" where
  "receive_packet j mem sock s = do {
     p \<leftarrow> recv_packet sock;
     (case p of
        NoPacket \<Rightarrow> Some (s\<lparr>r_reading := True\<rparr>, sock)
      | Closed sock' \<Rightarrow> Some (s\<lparr>r_status := REMOTE_CMD_DISCONNECT, r_reading := False\<rparr>, sock')
      | PacketOverrun \<Rightarrow> None
      | Packet version len data sock' \<Rightarrow> do {
          let s1 = take_sync (s\<lparr>r_wait_type := 0, r_reading := True\<rparr>);
          n \<leftarrow> notify_all_register_app j (r_table s1) version data;
          let s2 = (case snd (snd n) of
                      None \<Rightarrow> s1
                    | Some msgid \<Rightarrow>
                        fst (assemble_remote_json (ucast DEVICE_MSGID_VERSION) (unat DEVICE_MSGID_VERSION)
                               (ucast DEVICE_MSGID_VERSION) (str_bytes msgid) mem s1));
          Some (r_emit (map (\<lambda>(cb, ty). CallApp cb ty) (fst (snd n))) s2, sock') }) }"

text \<open>A round of the receive task. The socket is the environment's, and is given back.\<close>

definition receive_round :: "'j cjson \<Rightarrow> addr option \<Rightarrow> socket \<Rightarrow> remote \<Rightarrow> (remote \<times> socket) option" where
  "receive_round j mem sock s =
     (if r_reading s then receive_packet j mem sock s
      else (case r_status s of
              REMOTE_CMD_LOGIN \<Rightarrow> Some (take_sync s, sock)
            | REMOTE_CMD_INIT \<Rightarrow> Some (take_sync s, sock)
            | REMOTE_CMD_DISCONNECT \<Rightarrow>
                Some (send_net_req_Q (zero_request\<lparr>ri_type := SYNC_DISCONNECT_TYPE\<rparr>) (clear_sync s), sock)
            | REMOTE_CMD_CONNECT \<Rightarrow> receive_packet j mem sock s))"

text \<open>The start (\<open>remote_command_init\<close>).\<close>

definition remote_zero :: remote where
  "remote_zero = \<lparr>r_status = REMOTE_CMD_LOGIN, r_table = register_zero, r_heap = Map.empty,
     r_send_queue = [], r_sync_queue = [], r_login_queue = [], r_device_id = [], r_ip = [], r_port = [],
     r_req = zero_request, r_pc = PcTop, r_wait_type = 0, r_reading = False, r_trace = []\<rparr>"

end
