(* ===== verification/RemotePacket_Props.thy ===== *)
theory RemotePacket_Props
  imports RemotePacket
begin

text \<open>
  Packets that are sent arrive whole, however the network cuts them up, up to the size that fits the
  buffer; what happens to longer, shorter and broken ones; and who hears of a command.
\<close>

section \<open>Words in memory\<close>

lemma byte_masks:
  "(0xff000000 :: 32 word) = push_bit 24 (mask 8)" "(0x00ff0000 :: 32 word) = push_bit 16 (mask 8)"
  "(0x0000ff00 :: 32 word) = push_bit 8 (mask 8)" "(0x000000ff :: 32 word) = mask 8"
  by (simp_all add: mask_eq_exp_minus_1 push_bit_eq_mult)

lemma BSWAP_bit: "n < 32 \<Longrightarrow> bit (BSWAP_32 x) n = bit x (24 - 8 * (n div 8) + n mod 8)"
proof -
  assume n: "n < 32"
  consider "n < 8" | "8 \<le> n \<and> n < 16" | "16 \<le> n \<and> n < 24" | "24 \<le> n \<and> n < 32" using n by linarith
  then show ?thesis
  proof cases
    case 1
    then show ?thesis by (auto simp: BSWAP_32_def byte_masks bit_simps)
  next
    case 2
    then have "n div 8 = 1" "n mod 8 = n - 8" by (auto simp: div_nat_eqI mod_if)
    with 2 show ?thesis by (auto simp: BSWAP_32_def byte_masks bit_simps)
  next
    case 3
    then have "n div 8 = 2" "n mod 8 = n - 16" by (auto simp: div_nat_eqI mod_if)
    with 3 show ?thesis by (auto simp: BSWAP_32_def byte_masks bit_simps)
  next
    case 4
    then have "n div 8 = 3" "n mod 8 = n - 24" by (auto simp: div_nat_eqI mod_if)
    with 4 show ?thesis by (auto simp: BSWAP_32_def byte_masks bit_simps)
  qed
qed

lemma BSWAP_swap [simp]: "BSWAP_32 (BSWAP_32 x) = x"
proof (rule bit_word_eqI)
  fix n assume "n < LENGTH(32)"
  then have n: "n < 32" by simp
  let ?m = "24 - 8 * (n div 8) + n mod 8"
  have d: "n div 8 \<le> 3" using n by (simp add: less_mult_imp_div_less [of n 4 8, simplified] less_Suc_eq_le)
  then have m: "?m < 32" by (simp add: trans_less_add1)
  have "?m = 8 * (3 - n div 8) + n mod 8" using d by simp
  then have eq: "?m div 8 = 3 - n div 8" "?m mod 8 = n mod 8" by simp_all
  have "24 - 8 * (?m div 8) + ?m mod 8 = n"
    unfolding eq using d div_mult_mod_eq [of n 8] by arith
  then show "bit (BSWAP_32 (BSWAP_32 x)) n = bit x n"
    unfolding BSWAP_bit [OF n] BSWAP_bit [OF m] by (rule arg_cong)
qed

lemma le_bytes_length [simp]: "length (le_bytes w) = 4"
  by (simp add: le_bytes_def)

lemma le_word_bytes [simp]: "le_word (le_bytes w) = w"
proof (rule bit_word_eqI)
  fix n assume "n < LENGTH(32)"
  then consider "n < 8" | "8 \<le> n \<and> n < 16" | "16 \<le> n \<and> n < 24" | "24 \<le> n \<and> n < 32" by fastforce
  then show "bit (le_word (le_bytes w)) n = bit w n"
    by cases (auto simp: le_word_def le_bytes_def bit_simps)
qed

section \<open>Streams\<close>

text \<open>Chunks that arrive without an error and before the end of the stream, and their bytes.\<close>

definition good :: "socket \<Rightarrow> bool" where
  "good s \<longleftrightarrow> (\<forall>x\<in>set s. \<exists>bs. x = Some bs \<and> bs \<noteq> [])"

definition flat :: "socket \<Rightarrow> byte list" where
  "flat s = concat (map the s)"

lemma good_read:
  assumes "good s" "flat s \<noteq> []" "0 < n"
  obtains bs s' where "net_read n (s @ rest) = Some (Some bs, s' @ rest)" "bs \<noteq> []" "length bs \<le> n"
    "flat s = bs @ flat s'" "good s'"
proof (cases s)
  case Nil
  with assms(2) show ?thesis by (simp add: flat_def)
next
  case (Cons x s1)
  then obtain bs where x: "x = Some bs" "bs \<noteq> []" using assms(1) by (auto simp: good_def)
  then obtain y ys where ys: "bs = y # ys" by (cases bs) auto
  show ?thesis
  proof (cases "length bs \<le> n")
    case True
    with Cons x ys assms(1) show ?thesis
      by (intro that [of bs s1]) (auto simp: net_read_def flat_def good_def)
  next
    case False
    have "flat s = take n bs @ flat (Some (drop n bs) # s1)" using Cons x by (simp add: flat_def)
    moreover have "good (Some (drop n bs) # s1)" using assms(1) Cons False by (auto simp: good_def)
    moreover have "net_read n (s @ rest) = Some (Some (take n bs), (Some (drop n bs) # s1) @ rest)"
      using Cons x ys False by (simp add: net_read_def)
    ultimately show ?thesis using x assms(3) False by (intro that) auto
  qed
qed

lemma body_loop_whole:
  assumes "tot \<le> len" "len + 6 \<le> BUFFER_SIZE" "length buf = 6 + tot" "good s" "len - tot \<le> length (flat s)"
  shows "\<exists>s'. body_loop len tot buf (s @ rest) = Some (Received (buf @ take (len - tot) (flat s)) (s' @ rest)) \<and>
    flat s' = drop (len - tot) (flat s) \<and> good s'"
  using assms
proof (induction "len - tot" arbitrary: tot buf s rule: less_induct)
  case less
  show ?case
  proof (cases "tot = len")
    case True
    then show ?thesis using less.prems by (subst body_loop.simps) auto
  next
    case False
    then have lt: "tot < len" "0 < len - tot" using less.prems(1) by simp_all
    then have "flat s \<noteq> []" using less.prems(5) by auto
    then obtain bs s1 where r: "net_read (len - tot) (s @ rest) = Some (Some bs, s1 @ rest)" "bs \<noteq> []"
      "length bs \<le> len - tot" "flat s = bs @ flat s1" "good s1"
      using good_read [OF less.prems(4) _ lt(2)] by blast
    have step: "body_loop len tot buf (s @ rest) = body_loop len (tot + length bs) (buf @ bs) (s1 @ rest)"
    proof -
      have "\<not> BUFFER_SIZE < length buf + length bs" using lt r(3) less.prems(2,3) by simp
      with lt r(1) less.prems(2) show ?thesis by (subst body_loop.simps) simp
    qed
    have "len - (tot + length bs) < len - tot" using lt r(2) by (cases bs) auto
    from less.hyps [OF this, of "buf @ bs" s1] r less.prems obtain s' where
      "body_loop len (tot + length bs) (buf @ bs) (s1 @ rest) =
        Some (Received ((buf @ bs) @ take (len - (tot + length bs)) (flat s1)) (s' @ rest))"
      "flat s' = drop (len - (tot + length bs)) (flat s1)" "good s'" by fastforce
    with step r show ?thesis by (simp add: algebra_simps)
  qed
qed

lemma body_loop_overrun:
  assumes "tot \<le> len" "BUFFER_SIZE < len + 6" "len < BUFFER_SIZE" "length buf = 6 + tot" "length buf \<le> BUFFER_SIZE"
    "good s" "len - tot \<le> length (flat s)"
  shows "body_loop len tot buf (s @ rest) = Some Overrun"
  using assms
proof (induction "len - tot" arbitrary: tot buf s rule: less_induct)
  case less
  have lt: "tot < len" "0 < len - tot" "tot < BUFFER_SIZE" using less.prems by simp_all
  then have "flat s \<noteq> []" using less.prems(7) by auto
  then obtain bs s1 where r: "net_read (len - tot) (s @ rest) = Some (Some bs, s1 @ rest)" "bs \<noteq> []"
    "length bs \<le> len - tot" "flat s = bs @ flat s1" "good s1"
    using good_read [OF less.prems(6) _ lt(2)] by blast
  show ?case
  proof (cases "BUFFER_SIZE < length buf + length bs")
    case True
    with lt r(1) less.prems(3) show ?thesis by (subst body_loop.simps) simp
  next
    case False
    have "body_loop len tot buf (s @ rest) = body_loop len (tot + length bs) (buf @ bs) (s1 @ rest)"
      using lt r(1) less.prems(3) False by (subst body_loop.simps) simp
    moreover have "len - (tot + length bs) < len - tot" using lt r(2) by (cases bs) auto
    ultimately show ?thesis
      using less.hyps [of "tot + length bs" "buf @ bs" s1] r less.prems False by simp
  qed
qed

text \<open>The peer closes in the middle of a body.\<close>

definition closes_early :: "nat \<Rightarrow> nat \<Rightarrow> byte list \<Rightarrow> socket \<Rightarrow> bool" where
  "closes_early len tot buf s \<longleftrightarrow> (\<exists>cs rest. good cs \<and> s = cs @ Some [] # rest \<and>
     tot + length (flat cs) < len \<and> len + 6 \<le> BUFFER_SIZE \<and> length buf = 6 + tot)"

lemma closes_early_read:
  assumes "closes_early len tot buf s"
  shows "\<exists>bs s'. net_read (len - tot) s = Some (Some bs, s') \<and> closes_early len (tot + length bs) (buf @ bs) s' \<and>
    tot < len \<and> len + 6 \<le> BUFFER_SIZE \<and> \<not> BUFFER_SIZE < length buf + length bs"
proof -
  obtain cs rest where s: "good cs" "s = cs @ Some [] # rest" "tot + length (flat cs) < len"
    "len + 6 \<le> BUFFER_SIZE" "length buf = 6 + tot" using assms by (auto simp: closes_early_def)
  show ?thesis
  proof (cases "flat cs = []")
    case True
    then have "cs = []" using s(1) by (cases cs) (auto simp: flat_def good_def)
    then have "net_read (len - tot) s = Some (Some [], s)" using s(2) by (simp add: net_read_def)
    with s assms show ?thesis by (intro exI [of _ "[]"] exI [of _ s]) simp
  next
    case False
    obtain bs s1 where r: "net_read (len - tot) s = Some (Some bs, s1 @ Some [] # rest)" "bs \<noteq> []"
      "length bs \<le> len - tot" "flat cs = bs @ flat s1" "good s1"
      unfolding s(2) using good_read [OF s(1) False, of "len - tot"] s(3) by auto
    have "closes_early len (tot + length bs) (buf @ bs) (s1 @ Some [] # rest)"
      unfolding closes_early_def using r(4,5) s(3-5) by (intro exI [of _ s1] exI [of _ rest]) simp
    with r s(3-5) show ?thesis by auto
  qed
qed

lemma body_loop_never_returns: "closes_early len tot buf s \<Longrightarrow> body_loop len tot buf s = None"
proof -
  have "\<not> closes_early len tot buf s" if "body_loop len tot buf s = Some r" for r
  proof (rule body_loop.raw_induct [where P = "\<lambda>len tot buf s r. \<not> closes_early len tot buf s", OF _ that])
    fix loop :: "nat \<Rightarrow> nat \<Rightarrow> byte list \<Rightarrow> socket \<Rightarrow> recv_result option"
      and len tot buf s r
    assume IH: "\<And>len tot buf s r. loop len tot buf s = Some r \<Longrightarrow> \<not> closes_early len tot buf s"
      and run: "(if tot < len \<and> len < BUFFER_SIZE then
        (if BUFFER_SIZE \<le> tot then Some (Received buf s)
         else (case net_read (len - tot) s of
                 None \<Rightarrow> Some Waiting
               | Some (None, s') \<Rightarrow> Some (Received buf s')
               | Some (Some bs, s') \<Rightarrow>
                   if BUFFER_SIZE < length buf + length bs then Some Overrun
                   else loop len (tot + length bs) (buf @ bs) s'))
      else Some (Received buf s)) = Some r"
    show "\<not> closes_early len tot buf s"
    proof
      assume "closes_early len tot buf s"
      then obtain bs s' where b: "net_read (len - tot) s = Some (Some bs, s')"
        "closes_early len (tot + length bs) (buf @ bs) s'" "tot < len" "len + 6 \<le> BUFFER_SIZE"
        "\<not> BUFFER_SIZE < length buf + length bs" using closes_early_read by blast
      then have "loop len (tot + length bs) (buf @ bs) s' = Some r" using run by simp
      from IH [OF this] b(2) show False by simp
    qed
  qed
  then show "closes_early len tot buf s \<Longrightarrow> body_loop len tot buf s = None"
    by (cases "body_loop len tot buf s") auto
qed

section \<open>Packets\<close>

lemma tx_flat:
  assumes "length hdr = PACKET_HEADER_LEN" "hdr @ rest = tx_packet v data @ behind"
    and "length data < 2 ^ 32"
  shows "rx_version hdr = v" "unat (rx_length hdr) = length data" "rest = data @ behind"
    "rx_length hdr = of_nat (length data)"
proof -
  let ?h = "[v, 7] @ le_bytes (BSWAP_32 (of_nat (length data)))"
  have eq: "hdr @ rest = ?h @ data @ behind" using assms(2) by (simp add: tx_packet_def)
  have l: "length ?h = length hdr" using assms(1) by simp
  have hdr: "hdr = ?h" "rest = data @ behind" using eq l by (metis append_eq_append_conv)+
  then show "rest = data @ behind" by simp
  obtain a b c d where w: "le_bytes (BSWAP_32 (of_nat (length data))) = [a, b, c, d]"
    by (simp add: le_bytes_def)
  have "map (buf_at hdr) [2, 3, 4, 5] = le_bytes (BSWAP_32 (of_nat (length data)))"
    unfolding hdr(1) w by (simp add: buf_at_def numeral_nat)
  then show len: "rx_length hdr = of_nat (length data)"
    unfolding rx_length_def by (simp only: le_word_bytes BSWAP_swap)
  show "unat (rx_length hdr) = length data" using assms(3) len by (simp add: unat_of_nat take_bit_nat_eq_self)
  show "rx_version hdr = v" unfolding hdr(1) by (simp add: rx_version_def buf_at_def)
qed

text \<open>The header of a packet whose first chunk has all of it.\<close>

lemma header_read:
  assumes "good (Some bs # s)" "PACKET_HEADER_LEN \<le> length bs"
  obtains hdr s' where "net_read PACKET_HEADER_LEN (Some bs # s @ rest) = Some (Some hdr, s' @ rest)"
    "length hdr = PACKET_HEADER_LEN" "hdr @ flat s' = flat (Some bs # s)" "good s'"
proof -
  obtain y ys where ys: "bs = y # ys" using assms(2) by (cases bs) auto
  show thesis
  proof (cases "length bs \<le> PACKET_HEADER_LEN")
    case True
    with assms ys show ?thesis by (intro that [of bs s]) (auto simp: net_read_def flat_def good_def)
  next
    case False
    with assms ys show ?thesis
      by (intro that [of "take PACKET_HEADER_LEN bs" "Some (drop PACKET_HEADER_LEN bs) # s"])
        (auto simp: net_read_def flat_def good_def)
  qed
qed

lemma recv_packet_header:
  assumes "net_read PACKET_HEADER_LEN s = Some (Some hdr, s')" "length hdr = PACKET_HEADER_LEN"
  shows "recv_packet s = map_option (\<lambda>r. case r of Waiting \<Rightarrow> NoPacket | Overrun \<Rightarrow> PacketOverrun
    | Received buf s'' \<Rightarrow> Packet (rx_version hdr) (rx_length hdr) (drop PACKET_HEADER_LEN buf) s'')
    (body_loop (unat (rx_length hdr)) 0 hdr s')"
proof -
  obtain y ys where ys: "hdr = y # ys" using assms(2) by (cases hdr) auto
  show ?thesis using assms(2) unfolding recv_packet_def assms(1)
    by (cases "body_loop (unat (rx_length hdr)) 0 hdr s'") (auto simp: ys split: recv_result.split)
qed

section \<open>Tables\<close>

lemma register_loop_spec:
  "register_loop cb t i = (if \<exists>r\<in>set t. rn_callback r = None \<or> rn_callback r = Some cb
     then Some (i + length (takeWhile (\<lambda>r. rn_callback r \<noteq> None \<and> rn_callback r \<noteq> Some cb) t)) else None)"
  by (induction t arbitrary: i) auto

text \<open>The entries up to the first empty one.\<close>

definition used :: "register_table \<Rightarrow> register_table" where
  "used t = takeWhile (\<lambda>r. rn_callback r \<noteq> None) t"

lemma notify_loop_used:
  "notify_loop b t = map (\<lambda>r. the (rn_callback r)) (filter (\<lambda>r. bit (rn_cmd_map r) b) (used t))"
  by (induction t) (auto simp: used_def split: option.splits)

lemma notify_loop_split:
  "\<forall>r\<in>set xs. rn_callback r \<noteq> None \<Longrightarrow> notify_loop b (xs @ ys) = notify_loop b xs @ notify_loop b ys"
  by (induction xs) (auto split: option.splits)

lemma notify_loop_mem: "cb \<in> set (notify_loop b xs) \<Longrightarrow> \<exists>r\<in>set xs. rn_callback r = Some cb"
  by (induction xs) (auto split: option.splits if_splits)

section \<open>Properties\<close>

text \<open>C36: a packet that is sent arrives. Whatever the chunks the network cuts the stream into, if the first
  has the header, one round of the receive loop gives version, length and data as they were sent, for
  every length that fits the buffer, and leaves what comes behind the packet for the next round.\<close>

theorem packet_roundtrip:
  assumes "good (Some bs # cs)" "PACKET_HEADER_LEN \<le> length bs"
    and "flat (Some bs # cs) = tx_packet v data @ behind" "length data + PACKET_HEADER_LEN \<le> BUFFER_SIZE"
  shows "\<exists>s'. recv_packet (Some bs # cs) = Some (Packet v (of_nat (length data)) data s') \<and>
    flat s' = behind \<and> good s'"
proof -
  obtain hdr s1 where r: "net_read PACKET_HEADER_LEN (Some bs # cs @ []) = Some (Some hdr, s1 @ [])"
    "length hdr = PACKET_HEADER_LEN" "hdr @ flat s1 = flat (Some bs # cs)" "good s1"
    using header_read [OF assms(1,2)] by metis
  have h: "rx_version hdr = v" "unat (rx_length hdr) = length data" "flat s1 = data @ behind"
    "rx_length hdr = of_nat (length data)"
    using tx_flat [OF r(2), of "flat s1" v data behind] r(3) assms(3,4) by simp_all
  obtain s' where "body_loop (length data) 0 hdr (s1 @ []) =
      Some (Received (hdr @ take (length data) (flat s1)) (s' @ []))" "flat s' = drop (length data) (flat s1)" "good s'"
    using body_loop_whole [of 0 "length data" hdr s1 "[]"] r(2,4) h(3) assms(4) by auto
  then show ?thesis
    using recv_packet_header [of "Some bs # cs" hdr s1] r h by simp
qed

theorem packet_roundtrip_witness:
  "\<exists>s'. recv_packet [Some ([0x80, 7, 0, 0, 0, 3, 1]), Some [2], Some [3, 9]] = Some (Packet 0x80 3 [1, 2, 3] s')"
proof -
  have "le_bytes (BSWAP_32 3) = [0, 0, 0, 3]" by (simp add: le_bytes_def BSWAP_32_def)
  then have "flat [Some ([0x80, 7, 0, 0, 0, 3, 1]), Some [2], Some [3, 9]] = tx_packet 0x80 [1, 2, 3] @ [9]"
    by (simp add: flat_def tx_packet_def)
  from packet_roundtrip [OF _ _ this] show ?thesis by (auto simp: good_def)
qed

text \<open>The bound of the receive loop is wrong by the length of the header: data of 12283 to 12287 bytes is
  accepted and written past the end of the buffer.\<close>

theorem long_packet_overruns_the_buffer:
  assumes "good (Some bs # cs)" "PACKET_HEADER_LEN \<le> length bs"
    and "flat (Some bs # cs) = tx_packet v data @ behind"
    and "BUFFER_SIZE < length data + PACKET_HEADER_LEN" "length data < BUFFER_SIZE"
  shows "recv_packet (Some bs # cs) = Some PacketOverrun"
proof -
  obtain hdr s1 where r: "net_read PACKET_HEADER_LEN (Some bs # cs @ []) = Some (Some hdr, s1 @ [])"
    "length hdr = PACKET_HEADER_LEN" "hdr @ flat s1 = flat (Some bs # cs)" "good s1"
    using header_read [OF assms(1,2)] by metis
  have h: "unat (rx_length hdr) = length data" "flat s1 = data @ behind"
    using tx_flat [OF r(2), of "flat s1" v data behind] r(3) assms(3,5) by simp_all
  have "body_loop (length data) 0 hdr (s1 @ []) = Some Overrun"
    using body_loop_overrun [of 0 "length data" hdr s1 "[]"] r(2,4) h(2) assms(4,5) by simp
  with recv_packet_header [of "Some bs # cs" hdr s1] r h show ?thesis by simp
qed

theorem long_packet_overruns_the_buffer_witness:
  "recv_packet [Some (tx_packet 0x80 (replicate 12283 65))] = Some PacketOverrun"
proof (rule long_packet_overruns_the_buffer [where behind = "[]" and data = "replicate 12283 65" and v = "0x80"])
  show "good [Some (tx_packet 0x80 (replicate 12283 65))]" by (simp add: good_def tx_packet_def)
  show "flat [Some (tx_packet 0x80 (replicate 12283 65))] = tx_packet 0x80 (replicate 12283 65) @ []"
    by (simp add: flat_def)
qed (simp_all add: tx_packet_def)

text \<open>A header that arrives in two pieces is misread: the first piece is taken for a whole packet without
  data, and the next round takes what is left of the header and the data for the next header.\<close>

theorem split_header_is_misread:
  assumes "bs \<noteq> []" "length bs < PACKET_HEADER_LEN"
  shows "recv_packet (Some bs # cs) = Some (Packet (bs ! 0) (rx_length bs) [] cs)"
proof -
  obtain y ys where ys: "bs = y # ys" using assms(1) by (cases bs) auto
  have "net_read PACKET_HEADER_LEN (Some bs # cs) = Some (Some bs, cs)"
    using assms ys by (simp add: net_read_def)
  moreover have "drop PACKET_HEADER_LEN bs = []" using assms(2) by simp
  ultimately show ?thesis using assms ys
    by (simp add: recv_packet_def rx_version_def buf_at_def)
qed

theorem split_header_is_misread_witness:
  "recv_packet [Some [0x80, 7], Some [0, 0, 0, 3, 1, 2, 3]] =
     Some (Packet 0x80 (rx_length [0x80, 7]) [] [Some [0, 0, 0, 3, 1, 2, 3]])"
  using split_header_is_misread [of "[0x80, 7]"] by simp

text \<open>If the server closes the connection in the middle of the data of a packet, the receive loop never
  ends: \<open>read\<close> gives 0 for ever and only a negative result ends the loop.\<close>

theorem closed_in_the_data_never_returns:
  assumes "good (Some bs # cs)" "PACKET_HEADER_LEN \<le> length bs"
    and "flat (Some bs # cs) @ missing = tx_packet v data" "missing \<noteq> []"
    and "length data + PACKET_HEADER_LEN \<le> BUFFER_SIZE"
  shows "recv_packet (Some bs # cs @ Some [] # rest) = None"
proof -
  obtain hdr s1 where r:
    "net_read PACKET_HEADER_LEN (Some bs # cs @ Some [] # rest) = Some (Some hdr, s1 @ Some [] # rest)"
    "length hdr = PACKET_HEADER_LEN" "hdr @ flat s1 = flat (Some bs # cs)" "good s1"
    using header_read [OF assms(1,2)] by metis
  have "hdr @ (flat s1 @ missing) = tx_packet v data @ []"
    using r(3) assms(3) by (simp del: append_assoc add: append_assoc [symmetric])
  from tx_flat [OF r(2) this] assms(5)
  have h: "unat (rx_length hdr) = length data" "flat s1 @ missing = data" by simp_all
  have "length (flat s1) < length data" using h(2) assms(4) by auto
  then have "closes_early (length data) 0 hdr (s1 @ Some [] # rest)"
    using r(2,4) assms(5) unfolding closes_early_def by (intro exI [of _ s1] exI [of _ rest]) simp
  with body_loop_never_returns recv_packet_header [OF r(1,2)] h(1) show ?thesis by simp
qed

theorem closed_in_the_data_never_returns_witness:
  "recv_packet [Some [0x80, 7, 0, 0, 0, 3, 1], Some []] = None"
proof -
  have "le_bytes (BSWAP_32 3) = [0, 0, 0, 3]" by (simp add: le_bytes_def BSWAP_32_def)
  then have "flat [Some [0x80, 7, 0, 0, 0, 3, 1]] @ [2, 3] = tx_packet 0x80 [1, 2, 3]"
    by (simp add: flat_def tx_packet_def)
  from closed_in_the_data_never_returns [OF _ _ this, of "[]"] show ?thesis by (simp add: good_def)
qed

text \<open>Registering a callback is undefined exactly when the table is full: with ten other callbacks the
  loop reads behind the last entry before it tests its bound.\<close>

theorem register_overruns_iff_full:
  "remote_cmd_register bits cb t = None \<longleftrightarrow>
     (\<forall>r\<in>set t. rn_callback r \<noteq> None \<and> rn_callback r \<noteq> Some cb)"
  by (auto simp: remote_cmd_register_def register_loop_spec)

theorem register_overruns_iff_full_witness:
  "remote_cmd_register 1 99 (replicate 10 \<lparr>rn_cmd_map = 1, rn_callback = Some 5\<rparr>) = None \<and>
   remote_cmd_register 1 99 register_zero \<noteq> None"
  using register_overruns_iff_full [of 1 99 "replicate 10 \<lparr>rn_cmd_map = 1, rn_callback = Some 5\<rparr>"]
    register_overruns_iff_full [of 1 99 register_zero] by (simp add: register_zero_def)

text \<open>CX: in a table without holes, registering a callback adds it to the listeners of its bits, once, and
  changes nothing for any other callback.\<close>

theorem registered_callback_is_called:
  assumes "t = xs @ ys" "\<forall>r\<in>set xs. rn_callback r \<noteq> None" "\<forall>r\<in>set ys. r = \<lparr>rn_cmd_map = 0, rn_callback = None\<rparr>"
    and "remote_cmd_register bits cb t = Some (t', i)"
  shows "(cb \<in> set (notify_loop b t') \<longleftrightarrow> bit bits b \<or> cb \<in> set (notify_loop b t)) \<and>
    filter (\<lambda>c. c \<noteq> cb) (notify_loop b t') = filter (\<lambda>c. c \<noteq> cb) (notify_loop b t)"
proof (cases "\<exists>r\<in>set xs. rn_callback r = Some cb")
  case True
  then obtain as r bs where xs: "xs = as @ r # bs" "rn_callback r = Some cb" "\<forall>x\<in>set as. rn_callback x \<noteq> Some cb"
    using split_list_first_prop [OF True] by blast
  then have "takeWhile (\<lambda>r. rn_callback r \<noteq> None \<and> rn_callback r \<noteq> Some cb) t = as"
    using assms(1,2) by (simp add: takeWhile_append2)
  then have "i = length as" "t' = as @ \<lparr>rn_cmd_map = or (rn_cmd_map r) bits, rn_callback = Some cb\<rparr> # bs @ ys"
    using assms(1,4) xs by (auto simp: remote_cmd_register_def register_loop_spec ub_simps split: if_splits)
  moreover have "\<forall>x\<in>set as. rn_callback x \<noteq> None" using xs(1) assms(2) by simp
  ultimately show ?thesis using xs assms(1) notify_loop_mem [of cb b as]
    by (auto simp: notify_loop_split bit_simps)
next
  case False
  then have tw: "takeWhile (\<lambda>r. rn_callback r \<noteq> None \<and> rn_callback r \<noteq> Some cb) t = xs"
    using assms(1-3) by (cases ys) (auto simp: takeWhile_append2)
  moreover obtain zs where ys: "ys = \<lparr>rn_cmd_map = 0, rn_callback = None\<rparr> # zs"
    using assms(3,4) False assms(1,2)
    by (cases ys) (auto simp: remote_cmd_register_def register_loop_spec ub_simps split: if_splits)
  ultimately have "t' = xs @ \<lparr>rn_cmd_map = bits, rn_callback = Some cb\<rparr> # zs"
    using assms(1,4) by (auto simp: remote_cmd_register_def register_loop_spec ub_simps nth_append split: if_splits)
  moreover have "notify_loop b zs = []" using assms(3) ys by (cases zs) auto
  ultimately show ?thesis using assms(1,2) ys notify_loop_mem [of cb b xs] False
    by (auto simp: notify_loop_split)
qed

theorem registered_callback_is_called_witness:
  "\<exists>t' i. remote_cmd_register 2 99 register_zero = Some (t', i) \<and> 99 \<in> set (notify_loop 1 t')"
proof -
  have "remote_cmd_register 2 99 register_zero \<noteq> None"
    using register_overruns_iff_full [of 2 99 register_zero] by (simp add: register_zero_def)
  then obtain t' i where r: "remote_cmd_register 2 99 register_zero = Some (t', i)" by fast
  have "bit (2 :: 32 word) 1" by (simp add: bit_numeral_rec)
  moreover have "register_zero = [] @ register_zero" "\<forall>r\<in>set []. rn_callback r \<noteq> None"
    "\<forall>r\<in>set register_zero. r = \<lparr>rn_cmd_map = 0, rn_callback = None\<rparr>" by (simp_all add: register_zero_def)
  ultimately have "99 \<in> set (notify_loop 1 t')"
    using registered_callback_is_called [of register_zero "[]" register_zero 2 99 t' i 1] r by blast
  with r show ?thesis by blast
qed

text \<open>Unregistering a callback also silences every callback registered after it: the dispatch stops at
  the first empty entry.\<close>

theorem unregister_silences_later_callbacks:
  assumes "k < length t" "length t = REGISTER_TASK_SIZE" "\<forall>r\<in>set (take (k + 1) t). rn_callback r \<noteq> None"
  shows "notify_loop b (fst (remote_cmd_unregister k t)) = notify_loop b (take k t)"
proof -
  have t: "t = take k t @ t ! k # drop (Suc k) t" using assms(1) by (simp add: id_take_nth_drop)
  have "t ! k \<in> set (take (k + 1) t)" using assms(1) by (simp add: take_Suc_conv_app_nth)
  then have "fst (remote_cmd_unregister k t) = t[k := \<lparr>rn_cmd_map = 0, rn_callback = None\<rparr>]"
    using assms by (auto simp: remote_cmd_unregister_def)
  also have "\<dots> = take k t @ \<lparr>rn_cmd_map = 0, rn_callback = None\<rparr> # drop (Suc k) t"
    using assms(1) by (simp add: upd_conv_take_nth_drop)
  finally have u: "fst (remote_cmd_unregister k t) = take k t @ \<lparr>rn_cmd_map = 0, rn_callback = None\<rparr> # drop (Suc k) t" .
  have "\<forall>r\<in>set (take k t). rn_callback r \<noteq> None"
    using assms(3) set_take_subset_set_take [of k "k + 1" t] by auto
  from notify_loop_split [OF this] show ?thesis unfolding u by simp
qed

theorem unregister_silences_later_callbacks_witness:
  "notify_loop 0 (fst (remote_cmd_unregister 1 (replicate 10 \<lparr>rn_cmd_map = 1, rn_callback = Some 5\<rparr>))) = [5]"
  using unregister_silences_later_callbacks [of 1 "replicate 10 \<lparr>rn_cmd_map = 1, rn_callback = Some 5\<rparr>" 0]
  by simp

end
