(* ===== verification/RemoteCommand_Props.thy ===== *)
theory RemoteCommand_Props
  imports RemoteCommand RemotePacket_Props
begin

text \<open>
  The connection to the server as a machine whose inputs are the rounds of its two tasks, the answers
  of the login and the calls of the other components, with what holds in every state it reaches: no
  request is freed twice, requests are written in the order they were queued, and a request that comes
  during the login is lost.
\<close>

section \<open>The machine\<close>

text \<open>\<open>malloc\<close> gives an address for the set of the live ones, or nothing.\<close>

datatype remote_op = SendTask send_env | ReceiveTask socket | LoginAnswer "32 word" "string option"
  | Assemble "16 word" nat "16 word" "byte list" | SetStatus remote_cmd_all_status_t

definition remote_step :: "'j cjson \<Rightarrow> (addr set \<Rightarrow> addr option) \<Rightarrow> remote_op \<Rightarrow> remote \<Rightarrow> remote option" where
  "remote_step j malloc op s =
     (case op of
        SendTask e \<Rightarrow> remote_command_connect_send_task e s
      | ReceiveTask sock \<Rightarrow> map_option fst (receive_round j (malloc (dom (r_heap s))) sock s)
      | LoginAnswer reason file \<Rightarrow> download_callback j reason file s
      | Assemble version task_code ty data \<Rightarrow>
          Some (fst (assemble_remote_json version task_code ty data (malloc (dom (r_heap s))) s))
      | SetStatus st \<Rightarrow> Some (set_server_connect_status st s))"

text \<open>The blocks of a list of requests.\<close>

fun datas :: "remote_cmd_info_t list \<Rightarrow> addr list" where
  "datas [] = []"
| "datas (b # bs) = (case ri_pdata b of None \<Rightarrow> datas bs | Some a \<Rightarrow> a # datas bs)"

definition blocks :: "remote \<Rightarrow> addr list" where
  "blocks s = datas (r_req s # r_send_queue s)"

text \<open>Every request owns its block, and every queued request that is not a wake-up has one.\<close>

definition remote_inv :: "remote \<Rightarrow> bool" where
  "remote_inv s \<longleftrightarrow> distinct (blocks s) \<and> set (blocks s) \<subseteq> dom (r_heap s) \<and>
     (\<forall>b\<in>set (r_send_queue s). ri_type b \<noteq> SYNC_DISCONNECT_TYPE \<longrightarrow> ri_pdata b \<noteq> None)"

text \<open>A live block that no request owns.\<close>

definition leaked :: "remote \<Rightarrow> addr \<Rightarrow> bool" where
  "leaked s a \<longleftrightarrow> a \<in> dom (r_heap s) \<and> a \<notin> set (blocks s)"

text \<open>What a step may do to requests and blocks.\<close>

definition spares :: "remote \<Rightarrow> remote \<Rightarrow> bool" where
  "spares s s' \<longleftrightarrow> (remote_inv s \<longrightarrow> remote_inv s' \<and> (\<forall>a. leaked s a \<longrightarrow> leaked s' a))"

named_theorems spares_intro

lemma datas_append [simp]: "datas (xs @ ys) = datas xs @ datas ys"
  by (induction xs) (auto split: option.splits)

lemma spares_refl [spares_intro]: "spares s s"
  by (simp add: spares_def)

lemma spares_trans: "spares s t \<Longrightarrow> spares t u \<Longrightarrow> spares s u"
  by (auto simp: spares_def)

text \<open>A step that touches neither the requests nor the heap.\<close>

lemma spares_frame [spares_intro]:
  "r_req s' = r_req s \<Longrightarrow> r_send_queue s' = r_send_queue s \<Longrightarrow> r_heap s' = r_heap s \<Longrightarrow> spares s s'"
  by (simp add: spares_def remote_inv_def leaked_def blocks_def)

lemma remote_inv_frame:
  "r_req s' = r_req s \<Longrightarrow> r_send_queue s' = r_send_queue s \<Longrightarrow> r_heap s' = r_heap s
    \<Longrightarrow> remote_inv s' = remote_inv s"
  by (simp add: remote_inv_def blocks_def)

lemma keeps_take_request [spares_intro]: "spares s (take_request s)"
  by (auto simp: spares_def remote_inv_def leaked_def blocks_def take_request_def split: list.splits option.splits)

lemma free_request_inv:
  assumes "remote_inv s"
  shows "\<exists>s'. free_request s = Some s' \<and> spares s s' \<and> r_send_queue s' = r_send_queue s \<and>
    r_req s' = zero_request"
proof (cases "ri_pdata (r_req s)")
  case None
  with assms show ?thesis
    by (simp add: free_request_def spares_def remote_inv_def leaked_def blocks_def zero_request_def)
next
  case (Some a)
  with assms obtain d where d: "r_heap s a = Some d" "distinct (a # datas (r_send_queue s))"
      "set (datas (r_send_queue s)) \<subseteq> dom (r_heap s)"
    by (auto simp: remote_inv_def blocks_def)
  with Some assms show ?thesis
    by (auto simp: free_request_def spares_def remote_inv_def leaked_def blocks_def zero_request_def)
qed

lemma drain_inv: "remote_inv s \<Longrightarrow> \<exists>s'. drain s = Some s' \<and> spares s s' \<and> ri_pdata (r_req s') = None \<and>
    r_ip s' = r_ip s \<and> r_status s' = r_status s \<and> r_port s' = r_port s"
proof (induction s rule: drain.induct)
  case (1 s)
  show ?case
  proof (cases "ri_pdata (r_req s)")
    case None
    then show ?thesis by (simp add: drain.simps [of s] spares_refl)
  next
    case (Some a)
    obtain s1 where s1: "free_request s = Some s1" "spares s s1" "r_req s1 = zero_request"
      using free_request_inv [OF 1(2)] by blast
    then have f: "r_ip s1 = r_ip s" "r_status s1 = r_status s" "r_port s1 = r_port s"
      by (auto simp: free_request_def split: option.splits)
    show ?thesis
    proof (cases "r_send_queue s1 = []")
      case True
      with Some s1 f show ?thesis by (simp add: drain.simps [of s] zero_request_def)
    next
      case False
      have k: "spares s (take_request s1)" using spares_trans [OF s1(2) keeps_take_request] .
      with 1(2) have "remote_inv (take_request s1)" by (simp add: spares_def)
      from 1(1) [OF _ s1(1) False this] Some obtain s2 where "drain (take_request s1) = Some s2"
        "spares (take_request s1) s2" "ri_pdata (r_req s2) = None" "r_ip s2 = r_ip (take_request s1)"
        "r_status s2 = r_status (take_request s1)" "r_port s2 = r_port (take_request s1)" by auto
      with Some s1 f k False show ?thesis
        by (auto simp: drain.simps [of s] take_request_def intro: spares_trans split: list.splits)
    qed
  qed
qed

lemma spares_enqueue [spares_intro]:
  assumes "ri_pdata b = None" "ri_type b = SYNC_DISCONNECT_TYPE"
  shows "spares s (send_net_req_Q b s)"
  using assms by (auto simp: spares_def remote_inv_def leaked_def blocks_def send_net_req_Q_def queue_send_def
    split: option.splits)

lemma spares_assemble:
  assumes "mem = None \<or> (\<exists>a. mem = Some a \<and> a \<notin> dom (r_heap s))"
  shows "spares s (fst (assemble_remote_json version code ty data mem s))"
  using assms
  by (cases mem)
    (auto simp: spares_def remote_inv_def leaked_def blocks_def assemble_remote_json_def split: option.splits)

section \<open>The send task\<close>

lemma send_request_inv:
  assumes "remote_inv s" "ri_type (r_req s) \<noteq> SYNC_DISCONNECT_TYPE \<Longrightarrow> ri_pdata (r_req s) \<noteq> None"
  shows "\<exists>s'. send_request e s = Some s' \<and> spares s s'"
proof (cases "r_status s = REMOTE_CMD_DISCONNECT")
  case True
  then show ?thesis by (auto simp: send_request_def intro!: spares_frame)
next
  case False
  have fin: "\<exists>s'. free_request t = Some s' \<and> spares s s'"
    if "r_req t = r_req s" "r_send_queue t = r_send_queue s" "r_heap t = r_heap s" for t
    using free_request_inv [of t] remote_inv_frame [OF that] assms(1) spares_trans [OF spares_frame [OF that]]
    by auto
  show ?thesis
  proof (cases "ri_type (r_req s) = SYNC_DISCONNECT_TYPE")
    case True
    with False show ?thesis by (auto simp: send_request_def Let_def r_emit_def intro!: fin)
  next
    case ty: False
    with assms obtain a d where "ri_pdata (r_req s) = Some a" "r_heap s a = Some d"
      by (auto simp: remote_inv_def blocks_def)
    with ty False show ?thesis by (auto simp: send_request_def Let_def r_emit_def intro!: fin)
  qed
qed

text \<open>The two ways for the send task to write behind an array: the address and the port of the login.\<close>

definition login_fits :: "send_env \<Rightarrow> remote \<Rightarrow> bool" where
  "login_fits e s \<longleftrightarrow>
     (r_pc s = PcTop \<longrightarrow> r_status s = REMOTE_CMD_INIT \<longrightarrow> length (r_ip s) < 15) \<and>
     (r_pc s = PcLogin \<longrightarrow> (\<forall>m q. r_login_queue s = m # q \<longrightarrow> get_word OFF_REASON m = 0 \<longrightarrow>
        get_word OFF_CODE m = 0 \<longrightarrow> sprintf_port (get_word OFF_PORT m) \<noteq> None))"

lemma keeps_start_login [spares_intro]: "spares s t \<Longrightarrow> spares s (start_login t)"
  by (rule spares_trans [OF _ spares_frame]) (simp_all add: start_login_def r_emit_def)

lemma login_answer_inv:
  assumes "get_word OFF_REASON m = 0 \<Longrightarrow> get_word OFF_CODE m = 0 \<Longrightarrow> sprintf_port (get_word OFF_PORT m) \<noteq> None"
  shows "\<exists>s'. login_answer m s = Some s' \<and> spares s s'"
proof (cases "get_word OFF_REASON m = 0 \<and> get_word OFF_CODE m = 0")
  case True
  with assms show ?thesis by (auto simp: login_answer_def intro!: spares_frame)
next
  case False
  have "spares s (start_login (take_request (s\<lparr>r_status := REMOTE_CMD_LOGIN\<rparr>)))"
    by (rule keeps_start_login, rule spares_trans [OF spares_frame keeps_take_request]) simp_all
  with False show ?thesis by (auto simp: login_answer_def)
qed

lemma connect_server_inv:
  assumes "remote_inv s" "length (r_ip s) < 15"
  shows "\<exists>s'. connect_server e s = Some s' \<and> spares s s'"
proof -
  obtain s1 where "drain s = Some s1" "spares s s1" "r_ip s1 = r_ip s"
    using drain_inv [OF assms(1)] by blast
  with assms(2) show ?thesis
    by (auto simp: connect_server_def Let_def r_emit_def intro: spares_trans [OF _ spares_frame])
qed

lemma send_top_inv:
  assumes "remote_inv s" "r_status s = REMOTE_CMD_INIT \<Longrightarrow> length (r_ip s) < 15"
  shows "\<exists>s'. send_top e s = Some s' \<and> spares s s'"
proof -
  define s1 where "s1 = (if \<not> se_wifi e \<and> r_status s = REMOTE_CMD_CONNECT
                then s\<lparr>r_status := REMOTE_CMD_DISCONNECT\<rparr> else s)"
  have k: "spares s s1" by (rule spares_frame) (simp_all add: s1_def)
  have i: "remote_inv s1" "r_ip s1 = r_ip s" "r_status s1 = REMOTE_CMD_INIT \<Longrightarrow> r_status s = REMOTE_CMD_INIT"
    using assms(1) k by (auto simp: s1_def spares_def split: if_splits)
  show ?thesis
  proof (cases "\<not> se_wifi e \<and> r_status s1 = REMOTE_CMD_LOGIN")
    case True
    then have "send_top e s = Some (take_request s1)" by (auto simp: send_top_def s1_def split: if_splits)
    then show ?thesis using spares_trans [OF k keeps_take_request] by simp
  next
    case False
    then have e: "send_top e s = (case r_status s1 of
                 REMOTE_CMD_LOGIN \<Rightarrow> Some (start_login s1)
               | REMOTE_CMD_INIT \<Rightarrow> connect_server e s1
               | REMOTE_CMD_CONNECT \<Rightarrow> Some (s1\<lparr>r_pc := PcReceive\<rparr>)
               | REMOTE_CMD_DISCONNECT \<Rightarrow> do {
                   s2 \<leftarrow> free_request (s1\<lparr>r_status := REMOTE_CMD_LOGIN\<rparr>);
                   Some (r_emit [SockClose] s2) })"
      unfolding send_top_def Let_def s1_def [symmetric] by (simp only: False if_False)
    show ?thesis
    proof (cases "r_status s1")
      case REMOTE_CMD_LOGIN
      with e k show ?thesis by (auto intro: keeps_start_login)
    next
      case REMOTE_CMD_INIT
      with e i assms(2) connect_server_inv [of s1 e] k show ?thesis by (auto intro: spares_trans)
    next
      case REMOTE_CMD_CONNECT
      with e k show ?thesis by (auto intro: spares_trans [OF _ spares_frame])
    next
      case REMOTE_CMD_DISCONNECT
      have kt: "spares s (s1\<lparr>r_status := REMOTE_CMD_LOGIN\<rparr>)" by (rule spares_trans [OF k spares_frame]) simp_all
      with assms(1) have "remote_inv (s1\<lparr>r_status := REMOTE_CMD_LOGIN\<rparr>)" by (simp add: spares_def)
      from free_request_inv [OF this] obtain s2 where
        "free_request (s1\<lparr>r_status := REMOTE_CMD_LOGIN\<rparr>) = Some s2" "spares s s2"
        using spares_trans [OF kt] by blast
      with e REMOTE_CMD_DISCONNECT show ?thesis
        by (auto simp: r_emit_def intro: spares_trans [OF _ spares_frame])
    qed
  qed
qed

lemma send_task_inv:
  assumes "remote_inv s" "login_fits e s"
  shows "\<exists>s'. remote_command_connect_send_task e s = Some s' \<and> spares s s'"
proof (cases "r_pc s")
  case PcTop
  with assms send_top_inv show ?thesis
    by (simp add: remote_command_connect_send_task_def login_fits_def)
next
  case PcLogin
  show ?thesis
  proof (cases "r_login_queue s")
    case Nil
    with PcLogin show ?thesis by (simp add: remote_command_connect_send_task_def spares_refl)
  next
    case (Cons m q)
    with PcLogin assms(2) login_answer_inv [of m "s\<lparr>r_login_queue := q\<rparr>"]
    obtain s' where "login_answer m (s\<lparr>r_login_queue := q\<rparr>) = Some s'"
      "spares (s\<lparr>r_login_queue := q\<rparr>) s'" by (auto simp: login_fits_def)
    moreover have "spares s (s\<lparr>r_login_queue := q\<rparr>)" by (rule spares_frame) simp_all
    ultimately show ?thesis using PcLogin Cons
      by (auto simp: remote_command_connect_send_task_def intro: spares_trans)
  qed
next
  case PcReceive
  show ?thesis
  proof (cases "r_send_queue s")
    case Nil
    with PcReceive show ?thesis by (simp add: remote_command_connect_send_task_def spares_refl)
  next
    case (Cons b q)
    then have q: "r_req (take_request s) = b" by (simp add: take_request_def)
    have "remote_inv (take_request s)" using keeps_take_request assms(1) by (simp add: spares_def)
    moreover have "ri_type b \<noteq> SYNC_DISCONNECT_TYPE \<Longrightarrow> ri_pdata b \<noteq> None"
      using assms(1) Cons by (simp add: remote_inv_def)
    ultimately obtain s' where "send_request e (take_request s) = Some s'" "spares (take_request s) s'"
      using send_request_inv q by metis
    with PcReceive Cons show ?thesis
      by (auto simp: remote_command_connect_send_task_def intro: spares_trans [OF keeps_take_request])
  qed
qed

section \<open>The other inputs\<close>

lemma download_callback_frame:
  "download_callback j reason file s = Some s' \<Longrightarrow>
     r_req s' = r_req s \<and> r_send_queue s' = r_send_queue s \<and> r_heap s' = r_heap s"
  by (auto simp: download_callback_def ub_simps Let_def r_emit_def split: if_splits option.splits)

lemma keeps_take_sync [spares_intro]: "spares s (take_sync s)"
  by (rule spares_frame) (simp_all add: take_sync_def split: list.splits)

lemma clear_sync_frame:
  "r_req (clear_sync s) = r_req s \<and> r_send_queue (clear_sync s) = r_send_queue s \<and> r_heap (clear_sync s) = r_heap s"
proof (induction s rule: clear_sync.induct)
  case (1 s)
  then show ?case by (auto simp: clear_sync.simps [of s] take_sync_def split: list.splits)
qed

lemma receive_packet_spares:
  assumes "receive_packet j mem sock s = Some (s', sock')" "mem = None \<or> (\<exists>a. mem = Some a \<and> a \<notin> dom (r_heap s))"
  shows "spares s s'"
proof -
  obtain p where p: "recv_packet sock = Some p" using assms(1) by (auto simp: receive_packet_def ub_simps)
  show ?thesis
  proof (cases p)
    case (Packet version len data sock1)
    define s1 where "s1 = take_sync (s\<lparr>r_wait_type := 0, r_reading := True\<rparr>)"
    have k: "spares s s1" unfolding s1_def by (rule spares_trans [OF spares_frame keeps_take_sync]) simp_all
    have h: "r_heap s1 = r_heap s" by (simp add: s1_def take_sync_def split: list.splits)
    obtain n where n: "notify_all_register_app j (r_table s1) version data = Some n"
      "s' = r_emit (map (\<lambda>(cb, ty). CallApp cb ty) (fst (snd n)))
        (case snd (snd n) of None \<Rightarrow> s1 | Some msgid \<Rightarrow>
            fst (assemble_remote_json (ucast DEVICE_MSGID_VERSION) (unat DEVICE_MSGID_VERSION)
                   (ucast DEVICE_MSGID_VERSION) (str_bytes msgid) mem s1))"
      using assms(1) p Packet by (auto simp: receive_packet_def ub_simps Let_def simp flip: s1_def)
    have "spares s1 (case snd (snd n) of None \<Rightarrow> s1 | Some msgid \<Rightarrow>
            fst (assemble_remote_json (ucast DEVICE_MSGID_VERSION) (unat DEVICE_MSGID_VERSION)
                   (ucast DEVICE_MSGID_VERSION) (str_bytes msgid) mem s1))"
      using assms(2) h by (auto intro: spares_refl spares_assemble split: option.splits)
    with k have "spares s (case snd (snd n) of None \<Rightarrow> s1 | Some msgid \<Rightarrow>
            fst (assemble_remote_json (ucast DEVICE_MSGID_VERSION) (unat DEVICE_MSGID_VERSION)
                   (ucast DEVICE_MSGID_VERSION) (str_bytes msgid) mem s1))" by (rule spares_trans)
    then show ?thesis unfolding n(2) by (rule spares_trans) (rule spares_frame; simp add: r_emit_def)
  qed (use assms(1) p in \<open>auto simp: receive_packet_def intro!: spares_frame\<close>)
qed

lemma receive_round_spares:
  assumes "receive_round j mem sock s = Some (s', sock')" "mem = None \<or> (\<exists>a. mem = Some a \<and> a \<notin> dom (r_heap s))"
  shows "spares s s'"
proof (cases "r_reading s \<or> r_status s = REMOTE_CMD_CONNECT")
  case True
  with assms(1) have "receive_packet j mem sock s = Some (s', sock')"
    by (auto simp: receive_round_def split: if_splits)
  with assms(2) show ?thesis by (rule receive_packet_spares [rotated -1])
next
  case False
  show ?thesis
  proof (cases "r_status s")
    case REMOTE_CMD_DISCONNECT
    have k: "spares s (clear_sync s)" by (rule spares_frame) (simp_all add: clear_sync_frame)
    have "s' = send_net_req_Q (zero_request\<lparr>ri_type := SYNC_DISCONNECT_TYPE\<rparr>) (clear_sync s)"
      using assms(1) False REMOTE_CMD_DISCONNECT by (simp add: receive_round_def)
    moreover have "spares (clear_sync s)
        (send_net_req_Q (zero_request\<lparr>ri_type := SYNC_DISCONNECT_TYPE\<rparr>) (clear_sync s))"
      by (rule spares_enqueue) (simp_all add: zero_request_def)
    ultimately show ?thesis using spares_trans [OF k] by metis
  qed (use assms(1) False in \<open>auto simp: receive_round_def keeps_take_sync\<close>)
qed

text \<open>What is asked of \<open>malloc\<close>: it never gives a block that is in use.\<close>

definition fresh_malloc :: "(addr set \<Rightarrow> addr option) \<Rightarrow> bool" where
  "fresh_malloc malloc \<longleftrightarrow> (\<forall>H a. malloc H = Some a \<longrightarrow> a \<notin> H)"

lemma fresh_mallocD: "fresh_malloc malloc \<Longrightarrow> malloc H = None \<or> (\<exists>a. malloc H = Some a \<and> a \<notin> H)"
  by (cases "malloc H") (auto simp: fresh_malloc_def)

lemma send_task_overruns:
  assumes "remote_inv s" "\<not> login_fits e s"
  shows "remote_command_connect_send_task e s = None"
proof (cases "r_pc s = PcLogin")
  case True
  with assms(2) show ?thesis
    by (auto simp: login_fits_def remote_command_connect_send_task_def login_answer_def)
next
  case False
  with assms(2) have i: "r_pc s = PcTop" "r_status s = REMOTE_CMD_INIT" "\<not> length (r_ip s) < 15"
    by (auto simp: login_fits_def)
  obtain s1 where "drain s = Some s1" "r_ip s1 = r_ip s" using drain_inv [OF assms(1)] by blast
  with i show ?thesis by (simp add: remote_command_connect_send_task_def send_top_def connect_server_def)
qed

lemma send_task_spares:
  "remote_command_connect_send_task e s = Some s' \<Longrightarrow> spares s s'"
  using send_task_inv [of s e] send_task_overruns [of s e] by (cases "login_fits e s") (auto simp: spares_def)

lemma remote_step_spares:
  assumes "fresh_malloc malloc" "remote_step j malloc op s = Some s'"
  shows "spares s s'"
proof (cases op)
  case (SendTask e)
  then show ?thesis using send_task_spares assms(2) by (auto simp: remote_step_def)
next
  case (ReceiveTask sock)
  then show ?thesis using assms receive_round_spares [OF _ fresh_mallocD [OF assms(1)]]
    by (auto simp: remote_step_def)
next
  case (LoginAnswer reason fl)
  then show ?thesis using assms(2) download_callback_frame [of j reason fl s s']
    by (auto simp: remote_step_def intro: spares_frame)
next
  case (Assemble version code ty data)
  then show ?thesis using assms spares_assemble [OF fresh_mallocD [OF assms(1)]]
    by (auto simp: remote_step_def)
next
  case (SetStatus st)
  have "spares s (set_server_connect_status st s)" unfolding set_server_connect_status_def
    by (rule spares_trans [OF spares_frame spares_enqueue]) (simp_all add: zero_request_def)
  with SetStatus assms(2) show ?thesis by (simp add: remote_step_def)
qed

lemma run_spares:
  assumes "fresh_malloc malloc" "run_opt (remote_step j malloc) ops s = Some s'"
  shows "spares s s'"
  using assms(2)
proof (induction ops arbitrary: s)
  case Nil
  then show ?case by (simp add: spares_refl)
next
  case (Cons op ops)
  then obtain s1 where "remote_step j malloc op s = Some s1" "run_opt (remote_step j malloc) ops s1 = Some s'"
    by (auto simp: ub_simps)
  with Cons.IH remote_step_spares [OF assms(1)] show ?case by (blast intro: spares_trans)
qed

lemma remote_inv_zero: "remote_inv remote_zero"
  by (simp add: remote_inv_def remote_zero_def blocks_def zero_request_def)

section \<open>The queue as a sequence of packets\<close>

text \<open>What a queued request will write, what is queued, and what was written.\<close>

definition request_packet :: "(addr \<rightharpoonup> byte list) \<Rightarrow> remote_cmd_info_t \<Rightarrow> byte list list" where
  "request_packet h b =
     (if ri_type b = SYNC_DISCONNECT_TYPE then [] else [take (ri_len b) (the (h (the (ri_pdata b))))])"

definition pending_packets :: "remote \<Rightarrow> byte list list" where
  "pending_packets s = concat (map (request_packet (r_heap s)) (r_send_queue s))"

fun writes :: "remote_event list \<Rightarrow> byte list list" where
  "writes [] = []"
| "writes (SockWrite d # es) = d # writes es"
| "writes (e # es) = writes es"

fun accepted_packets :: "remote_op list \<Rightarrow> byte list list" where
  "accepted_packets [] = []"
| "accepted_packets (Assemble version task_code ty data # ops) =
     (if ty = SYNC_DISCONNECT_TYPE then [] else [tx_packet (ucast version) data]) @ accepted_packets ops"
| "accepted_packets (op # ops) = accepted_packets ops"

text \<open>The network is up: wifi, the first write of a request succeeds, and the server answers.\<close>

definition network_up :: "send_env \<Rightarrow> bool" where
  "network_up e \<longleftrightarrow> se_wifi e \<and> se_write_ok e 0 \<and> se_select_ready e"

definition sending :: "remote \<Rightarrow> bool" where
  "sending s \<longleftrightarrow> remote_inv s \<and> finite (dom (r_heap s)) \<and> r_status s = REMOTE_CMD_CONNECT \<and>
     r_pc s \<noteq> PcLogin \<and> ri_pdata (r_req s) = None"

lemma writes_append [simp]: "writes (xs @ ys) = writes xs @ writes ys"
  by (induction xs rule: writes.induct) simp_all

lemma request_packet_cong:
  "(\<And>a. ri_pdata b = Some a \<Longrightarrow> h a = h' a) \<Longrightarrow> ri_type b \<noteq> SYNC_DISCONNECT_TYPE \<longrightarrow> ri_pdata b \<noteq> None
    \<Longrightarrow> request_packet h b = request_packet h' b"
  by (auto simp: request_packet_def)

lemma data_in_datas: "b \<in> set bs \<Longrightarrow> ri_pdata b = Some a \<Longrightarrow> a \<in> set (datas bs)"
  by (induction bs) (auto split: option.splits)

text \<open>A step that does not touch the blocks of the queued requests leaves the pending packets as they are.\<close>

lemma pending_cong:
  assumes "r_send_queue s' = r_send_queue s" "\<forall>b\<in>set (r_send_queue s). ri_type b \<noteq> SYNC_DISCONNECT_TYPE \<longrightarrow> ri_pdata b \<noteq> None"
    and "\<And>a. a \<in> set (datas (r_send_queue s)) \<Longrightarrow> r_heap s' a = r_heap s a"
  shows "pending_packets s' = pending_packets s"
  unfolding pending_packets_def assms(1)
  by (rule arg_cong [where f = concat], rule map_cong [OF refl], rule request_packet_cong)
    (use assms data_in_datas in blast)+

definition send_steps :: "remote \<Rightarrow> nat" where
  "send_steps s = 2 * length (r_send_queue s) + (if r_pc s = PcTop then 1 else 0)"

text \<open>A step of the send task while it sends: the front packet goes out, or nothing happens.\<close>

lemma write_loop_ok: "ok 0 \<Longrightarrow> write_loop ok ERROR_RETRY_COUNT 0 = 0"
  by (simp add: eval_nat_numeral)

lemma receive_step:
  assumes "sending s" "network_up e" "r_pc s = PcReceive" "r_send_queue s = b # q"
  shows "\<exists>s'. remote_command_connect_send_task e s = Some s' \<and> sending s' \<and>
    writes (r_trace s') = writes (r_trace s) @ request_packet (r_heap s) b \<and> pending_packets s = request_packet (r_heap s) b @ pending_packets s' \<and>
    r_send_queue s' = q \<and> r_pc s' = PcTop"
proof -
  have inv: "remote_inv s" and st: "r_status s = REMOTE_CMD_CONNECT" and fin: "finite (dom (r_heap s))"
    using assms(1) by (simp_all add: sending_def)
  have dist: "distinct (datas (b # q))" using inv assms(4)
    by (auto simp: remote_inv_def blocks_def split: option.splits)
  have live: "set (datas (b # q)) \<subseteq> dom (r_heap s)" using inv assms(4)
    by (auto simp: remote_inv_def blocks_def split: option.splits)
  have okq: "\<forall>b\<in>set (b # q). ri_type b \<noteq> SYNC_DISCONNECT_TYPE \<longrightarrow> ri_pdata b \<noteq> None"
    using inv assms(4) by (simp add: remote_inv_def)
  define t where "t = take_request s"
  have t: "t = s\<lparr>r_req := b, r_send_queue := q\<rparr>" using assms(4) by (simp add: t_def take_request_def)
  have run: "remote_command_connect_send_task e s = send_request e t"
    using assms(3,4) by (simp add: remote_command_connect_send_task_def t_def)
  have "remote_inv t" using keeps_take_request [of s] inv by (simp add: spares_def t_def)
  then have "\<exists>s'. send_request e t = Some s' \<and> spares t s'"
    using okq t by (intro send_request_inv) simp_all
  then obtain s' where s': "send_request e t = Some s'" "spares t s'" by blast
  have "remote_inv s'" using s'(2) keeps_take_request [of s] inv by (simp add: spares_def t_def)
  moreover have "r_status s' = REMOTE_CMD_CONNECT \<and> r_pc s' = PcTop \<and> ri_pdata (r_req s') = None \<and>
      r_send_queue s' = q \<and> writes (r_trace s') = writes (r_trace s) @ request_packet (r_heap s) b \<and>
      (\<forall>a. Some a \<noteq> ri_pdata b \<longrightarrow> r_heap s' a = r_heap s a) \<and> dom (r_heap s') \<subseteq> dom (r_heap s)"
    using s'(1) assms(2) write_loop_ok [of "se_write_ok e"] st
    by (auto simp: send_request_def t ub_simps Let_def r_emit_def free_request_def network_up_def request_packet_def
        zero_request_def split: if_splits option.splits)
  moreover have "pending_packets s' = pending_packets (s\<lparr>r_send_queue := q\<rparr>)"
  proof (rule pending_cong)
    fix a assume "a \<in> set (datas (r_send_queue (s\<lparr>r_send_queue := q\<rparr>)))"
    with dist have "Some a \<noteq> ri_pdata b" by (auto split: option.splits)
    then show "r_heap s' a = r_heap (s\<lparr>r_send_queue := q\<rparr>) a" using calculation by simp
  qed (use calculation okq in auto)
  ultimately show ?thesis using run s'(1) assms(4) fin
    by (auto simp: sending_def pending_packets_def intro: finite_subset)
qed

lemma sending_send_step:
  assumes "sending s" "network_up e"
  shows "\<exists>s'. remote_command_connect_send_task e s = Some s' \<and> sending s' \<and>
    writes (r_trace s') @ pending_packets s' = writes (r_trace s) @ pending_packets s \<and>
    send_steps s' = send_steps s - 1"
proof (cases "r_pc s")
  case PcTop
  with assms have "remote_command_connect_send_task e s = Some (s\<lparr>r_pc := PcReceive\<rparr>)"
    by (simp add: remote_command_connect_send_task_def send_top_def sending_def network_up_def)
  moreover have "remote_inv (s\<lparr>r_pc := PcReceive\<rparr>) = remote_inv s" by (rule remote_inv_frame) simp_all
  ultimately show ?thesis using assms(1) PcTop by (simp add: sending_def pending_packets_def send_steps_def)
next
  case PcLogin
  with assms(1) show ?thesis by (simp add: sending_def)
next
  case PcReceive
  show ?thesis
  proof (cases "r_send_queue s")
    case Nil
    with PcReceive assms(1) show ?thesis by (simp add: remote_command_connect_send_task_def send_steps_def)
  next
    case (Cons b q)
    from receive_step [OF assms PcReceive Cons] PcReceive Cons show ?thesis
      by (auto simp: send_steps_def)
  qed
qed

lemma sending_assemble:
  assumes "sending s" "mem = Some a" "a \<notin> dom (r_heap s)"
  shows "sending (fst (assemble_remote_json version code ty data mem s)) \<and>
    writes (r_trace (fst (assemble_remote_json version code ty data mem s))) = writes (r_trace s) \<and>
    pending_packets (fst (assemble_remote_json version code ty data mem s)) =
      pending_packets s @ accepted_packets [Assemble version code ty data] \<and>
    send_steps (fst (assemble_remote_json version code ty data mem s)) = send_steps s + 2"
proof -
  define h where "h = (r_heap s)(a \<mapsto> tx_packet (ucast version) data)"
  define b where "b = \<lparr>ri_task_code = code, ri_pdata = Some a, ri_len = length data + PACKET_HEADER_LEN, ri_type = ty\<rparr>"
  have e: "fst (assemble_remote_json version code ty data mem s) =
      s\<lparr>r_heap := h, r_send_queue := r_send_queue s @ [b]\<rparr>"
    using assms by (simp add: assemble_remote_json_def sending_def get_server_connect_status_def h_def b_def)
  have "spares s (fst (assemble_remote_json version code ty data mem s))"
    by (rule spares_assemble) (use assms in auto)
  then have "remote_inv (s\<lparr>r_heap := h, r_send_queue := r_send_queue s @ [b]\<rparr>)"
    using assms(1) unfolding e by (simp add: spares_def sending_def)
  moreover have "pending_packets (s\<lparr>r_heap := h\<rparr>) = pending_packets s"
  proof (rule pending_cong)
    show "\<forall>b\<in>set (r_send_queue s). ri_type b \<noteq> SYNC_DISCONNECT_TYPE \<longrightarrow> ri_pdata b \<noteq> None"
      using assms(1) by (simp add: sending_def remote_inv_def)
    fix c assume "c \<in> set (datas (r_send_queue s))"
    then have "c \<in> dom (r_heap s)" using assms(1)
      by (auto simp: sending_def remote_inv_def blocks_def split: option.splits)
    then show "r_heap (s\<lparr>r_heap := h\<rparr>) c = r_heap s c" using assms(3) by (auto simp: h_def)
  qed simp
  moreover have "length (tx_packet (ucast version) data) = length data + PACKET_HEADER_LEN"
    by (simp add: tx_packet_def le_bytes_def)
  ultimately show ?thesis using assms(1) unfolding e
    by (simp add: sending_def send_steps_def pending_packets_def request_packet_def b_def h_def)
qed

text \<open>\<open>malloc\<close> that always finds memory.\<close>

definition ample_malloc :: "(addr set \<Rightarrow> addr option) \<Rightarrow> bool" where
  "ample_malloc malloc \<longleftrightarrow> (\<forall>H. finite H \<longrightarrow> (\<exists>a. malloc H = Some a \<and> a \<notin> H))"

fun sending_op :: "remote_op \<Rightarrow> bool" where
  "sending_op (SendTask e) = network_up e"
| "sending_op (Assemble version code ty data) = True"
| "sending_op op = False"

fun steps_after :: "nat \<Rightarrow> remote_op list \<Rightarrow> nat" where
  "steps_after n [] = n"
| "steps_after n (Assemble version code ty data # ops) = steps_after (n + 2) ops"
| "steps_after n (op # ops) = steps_after (n - 1) ops"

lemma sending_run:
  assumes "ample_malloc malloc" "sending s" "list_all sending_op ops"
  shows "\<exists>s'. run_opt (remote_step j malloc) ops s = Some s' \<and> sending s' \<and>
    writes (r_trace s') @ pending_packets s' = writes (r_trace s) @ pending_packets s @ accepted_packets ops \<and>
    send_steps s' = steps_after (send_steps s) ops"
  using assms(2,3)
proof (induction ops arbitrary: s)
  case Nil
  then show ?case by simp
next
  case (Cons op ops)
  from Cons.prems(2) consider (S) e where "op = SendTask e" "network_up e"
    | (A) version code ty data where "op = Assemble version code ty data"
    by (cases op) auto
  then show ?case
  proof cases
    case S
    with sending_send_step [OF Cons.prems(1)] obtain s1 where "remote_step j malloc op s = Some s1" "sending s1"
      "writes (r_trace s1) @ pending_packets s1 = writes (r_trace s) @ pending_packets s"
      "send_steps s1 = send_steps s - 1" by (auto simp: remote_step_def)
    with Cons.IH [of s1] Cons.prems(2) S show ?thesis by (auto simp: append_assoc [symmetric] simp del: append_assoc)
  next
    case A
    obtain a where a: "malloc (dom (r_heap s)) = Some a" "a \<notin> dom (r_heap s)"
      using assms(1) Cons.prems(1) by (auto simp: ample_malloc_def sending_def)
    define s1 where "s1 = fst (assemble_remote_json version code ty data (malloc (dom (r_heap s))) s)"
    have "remote_step j malloc op s = Some s1" by (simp add: remote_step_def A s1_def)
    with sending_assemble [OF Cons.prems(1) a, of version code ty data] Cons.IH [of s1] Cons.prems(2) A
    show ?thesis by (auto simp flip: s1_def)
  qed
qed

lemma steps_after_idle: "steps_after n (replicate k (SendTask e)) = n - k"
  by (induction k arbitrary: n) auto

lemma steps_after_append: "steps_after n (xs @ ys) = steps_after (steps_after n xs) ys"
  by (induction xs arbitrary: n rule: accepted_packets.induct) auto

lemma accepted_append: "accepted_packets (xs @ ys) = accepted_packets xs @ accepted_packets ys"
  by (induction xs rule: accepted_packets.induct) auto

lemma accepted_idle [simp]: "accepted_packets (replicate k (SendTask e)) = []"
  by (induction k) auto

section \<open>Properties\<close>


definition max_malloc :: "addr set \<Rightarrow> addr option" where
  "max_malloc H = Some (if H = {} then 0 else Max H + 1)"

lemma max_malloc_ample: "ample_malloc max_malloc"
proof (unfold ample_malloc_def, intro allI impI)
  fix H :: "addr set"
  assume "finite H"
  then have "H \<noteq> {} \<Longrightarrow> Max H + 1 \<notin> H" by (metis Max_ge Suc_eq_plus1 not_less_eq_eq order_refl)
  then show "\<exists>a. max_malloc H = Some a \<and> a \<notin> H" by (auto simp: max_malloc_def)
qed

lemma max_malloc_finite: "finite H \<Longrightarrow> \<exists>a. max_malloc H = Some a \<and> a \<notin> H"
  using max_malloc_ample by (simp add: ample_malloc_def)

definition no_json :: "unit cjson" where
  "no_json = \<lparr>cJSON_Parse = (\<lambda>t. None), cJSON_GetObjectItem = (\<lambda>j k. None), cj_valuestring = (\<lambda>j. None),
     cj_valueint = (\<lambda>j. 0)\<rparr>"

definition up_env :: send_env where
  "up_env = \<lparr>se_wifi = True, se_connect_error = 0, se_write_ok = (\<lambda>i. True), se_select_ready = True\<rparr>"


text \<open>In every state the connection reaches, each queued request owns its block of memory, so the send
  task never frees a block twice or writes a freed one; it is undefined exactly when the answer of the
  login does not fit the arrays for the address and the port.\<close>

theorem send_task_never_double_frees:
  assumes "fresh_malloc malloc" "run_opt (remote_step j malloc) ops remote_zero = Some s"
  shows "distinct (blocks s) \<and> set (blocks s) \<subseteq> dom (r_heap s) \<and>
    (remote_command_connect_send_task e s \<noteq> None \<longleftrightarrow> login_fits e s)"
proof -
  have "remote_inv s" using run_spares [OF assms] remote_inv_zero by (simp add: spares_def)
  with send_task_inv [of s e] send_task_overruns [of s e]
  have "remote_command_connect_send_task e s \<noteq> None \<longleftrightarrow> login_fits e s" by (cases "login_fits e s") auto
  with \<open>remote_inv s\<close> show ?thesis by (simp add: remote_inv_def)
qed

theorem send_task_never_double_frees_witness:
  "\<exists>s. run_opt (remote_step no_json (\<lambda>H. None)) [SetStatus REMOTE_CMD_CONNECT, SendTask up_env] remote_zero = Some s \<and>
     remote_command_connect_send_task up_env s \<noteq> None"
proof -
  have f: "fresh_malloc (\<lambda>H. None)" by (simp add: fresh_malloc_def)
  have "\<exists>s. run_opt (remote_step no_json (\<lambda>H. None)) [SetStatus REMOTE_CMD_CONNECT, SendTask up_env] remote_zero = Some s \<and>
      r_pc s = PcReceive"
    by (simp add: remote_step_def set_server_connect_status_def remote_zero_def send_net_req_Q_def queue_send_def
        remote_command_connect_send_task_def send_top_def up_env_def)
  then obtain s where s: "run_opt (remote_step no_json (\<lambda>H. None)) [SetStatus REMOTE_CMD_CONNECT, SendTask up_env] remote_zero = Some s"
    "r_pc s = PcReceive" by blast
  have "remote_command_connect_send_task up_env s \<noteq> None"
    using send_task_never_double_frees [OF f s(1), of up_env] s(2) by (simp add: login_fits_def)
  with s(1) show ?thesis by blast
qed

text \<open>A request that the send task takes from its queue while the login fails is lost with its memory: at
  the next failed login the next request overwrites it, and whatever happens afterwards its block stays
  allocated and no request refers to it.\<close>

theorem failed_login_leaks_requests:
  assumes "fresh_malloc malloc" "remote_inv s" "r_pc s = PcLogin" "ri_pdata (r_req s) = Some a"
    and "r_login_queue s = m # q" "get_word OFF_REASON m \<noteq> 0 \<or> get_word OFF_CODE m \<noteq> 0" "r_send_queue s \<noteq> []"
    and "run_opt (remote_step j malloc) (SendTask e # ops) s = Some s'"
  shows "leaked s' a"
proof -
  define s1 where "s1 = start_login (take_request (s\<lparr>r_login_queue := q, r_status := REMOTE_CMD_LOGIN\<rparr>))"
  have w: "\<not> (get_word OFF_REASON m = 0 \<and> get_word OFF_CODE m = 0)" using assms(6) by blast
  have "login_answer m (s\<lparr>r_login_queue := q\<rparr>) = Some s1" by (simp only: login_answer_def w if_False) (simp add: s1_def)
  then have "remote_step j malloc (SendTask e) s = Some s1"
    using assms(3,5) by (simp add: remote_step_def remote_command_connect_send_task_def)
  moreover have "leaked s1 a" "remote_inv s1"
    using assms(2,4,7)
    by (auto simp: s1_def leaked_def remote_inv_def blocks_def take_request_def start_login_def r_emit_def
        split: list.splits option.splits)
  ultimately show ?thesis using run_spares [OF assms(1), of j ops s1 s'] assms(8) by (auto simp: spares_def)
qed

theorem failed_login_leaks_requests_witness:
  "\<exists>s'. run_opt (remote_step no_json (\<lambda>H. None)) [SendTask up_env]
     (remote_zero\<lparr>r_pc := PcLogin, r_heap := [7 \<mapsto> [1]], r_req := zero_request\<lparr>ri_pdata := Some 7\<rparr>,
        r_send_queue := [zero_request\<lparr>ri_type := SYNC_DISCONNECT_TYPE\<rparr>],
        r_login_queue := [replicate 55 0 @ [1, 0, 0, 0]]\<rparr>) = Some s' \<and> leaked s' 7"
proof -
  let ?m = "replicate 55 0 @ [1, 0, 0, 0] :: byte list"
  let ?s = "remote_zero\<lparr>r_pc := PcLogin, r_heap := [7 \<mapsto> [1]], r_req := zero_request\<lparr>ri_pdata := Some 7\<rparr>,
        r_send_queue := [zero_request\<lparr>ri_type := SYNC_DISCONNECT_TYPE\<rparr>],
        r_login_queue := [?m]\<rparr>"
  have "fresh_malloc (\<lambda>H. None)" by (simp add: fresh_malloc_def)
  moreover have "remote_inv ?s" by (simp add: remote_inv_def blocks_def zero_request_def)
  moreover have w: "get_word OFF_REASON ?m \<noteq> 0" by (simp add: get_word_def le_word_def)
  moreover have "\<exists>s'. run_opt (remote_step no_json (\<lambda>H. None)) [SendTask up_env] ?s = Some s'"
    using w by (simp add: remote_step_def remote_command_connect_send_task_def login_answer_def)
  ultimately show ?thesis
    using failed_login_leaks_requests [of "\<lambda>H. None" ?s 7 ?m "[]" no_json up_env "[]"] by auto
qed

end
