(* ===== verification/Poll.thy ===== *)
theory Poll
  imports Alarm_Prelude "HOL-Library.Word" "HOL-Library.Multiset"
begin

text \<open>
  The poll timers (\<open>bsp/poll.c\<close>): callbacks called every \<open>period\<close> tenths of a second, kept in a list in
  the order of their expiry. One one-shot timer of the system wakes the poll task, which calls what has
  expired and arms the timer for the first entry.

  \<^item> An entry is a block of memory, \<open>p_heap\<close> holds the live ones and \<open>p_list\<close> the addresses from the head.
  \<^item> \<open>p_pc\<close> is where the poll task is: waiting for the timer; in its loop, with an entry it read before it
    slept; in a callback; and about to arm the timer. Other tasks register and unregister in between, and
    what the task does between two such places is one step.
  \<^item> The clock is an input. Its readings have microseconds from 0 to 999999; those of an expiry need not.
\<close>

section \<open>Time\<close>

datatype timeval = Timeval (tv_sec: int) (tv_usec: int)

text \<open>\<open>time_before_eq\<close> compares seconds first; it is the order of the type.\<close>

instantiation timeval :: linorder
begin

definition less_eq_timeval :: "timeval \<Rightarrow> timeval \<Rightarrow> bool" where
  "less_eq_timeval a b \<longleftrightarrow> tv_sec a < tv_sec b \<or> (tv_sec a = tv_sec b \<and> tv_usec a \<le> tv_usec b)"

definition less_timeval :: "timeval \<Rightarrow> timeval \<Rightarrow> bool" where
  "less_timeval a b \<longleftrightarrow> tv_sec a < tv_sec b \<or> (tv_sec a = tv_sec b \<and> tv_usec a < tv_usec b)"

instance
  by standard (auto simp: less_eq_timeval_def less_timeval_def timeval.expand)

end

definition time_before_eq :: "timeval \<Rightarrow> timeval \<Rightarrow> bool" where
  "time_before_eq a b \<longleftrightarrow> tv_sec a < tv_sec b \<or> (tv_sec a = tv_sec b \<and> tv_usec a \<le> tv_usec b)"

lemma time_before_eq_iff [simp]: "time_before_eq a b \<longleftrightarrow> a \<le> b"
  by (simp add: time_before_eq_def less_eq_timeval_def)

text \<open>The reading of a clock, and the microseconds it stands for.\<close>

definition clock_time :: "timeval \<Rightarrow> bool" where
  "clock_time t \<longleftrightarrow> 0 \<le> tv_usec t \<and> tv_usec t < 1000000"

definition usec :: "timeval \<Rightarrow> int" where
  "usec t = tv_sec t * 1000000 + tv_usec t"

text \<open>The remainder of C: it has the sign of the dividend.\<close>

definition c_rem :: "int \<Rightarrow> int \<Rightarrow> int" where
  "c_rem a b = (if a < 0 then - ((- a) mod b) else a mod b)"

text \<open>The expiry of an entry of the given period, in tenths of a second.\<close>

definition poll_expire :: "32 word \<Rightarrow> timeval \<Rightarrow> timeval" where
  "poll_expire period now =
     (let sec = uint period div 10; msec = (uint period - sec * 10) * 100
      in Timeval (sec + tv_sec now + (tv_usec now div 1000 + msec) div 1000)
           (c_rem (tv_usec now + (msec - 1) * 1000) 1000000))"

section \<open>State\<close>

record poll_func_entry_t =
  pe_expire :: timeval
  pe_used :: bool
  pe_period :: "32 word"
  pe_callback :: addr
  pe_param :: addr

datatype poll_pc = PollWait | PollLoop addr | PollCall addr | PollArm

datatype poll_event = Armed addr timeval "32 word" | Called addr timeval | Freed addr

record poll =
  p_heap :: "addr \<rightharpoonup> poll_func_entry_t"
  p_list :: "addr list"
  p_pc :: poll_pc
  p_timer :: "int option"
  p_queue :: nat
  p_trace :: "poll_event list"

abbreviation POLL_QUEUE_SIZE :: nat where "POLL_QUEUE_SIZE \<equiv> 10"

definition p_emit :: "poll_event \<Rightarrow> poll \<Rightarrow> poll" where
  "p_emit e s = s\<lparr>p_trace := p_trace s @ [e]\<rparr>"

section \<open>The list\<close>

text \<open>The walk of \<open>insert_poll_list\<close>, which reads every entry it passes.\<close>

fun insert_walk :: "(addr \<rightharpoonup> poll_func_entry_t) \<Rightarrow> timeval \<Rightarrow> addr \<Rightarrow> addr list \<Rightarrow> addr list option" where
  "insert_walk h t a [] = Some [a]"
| "insert_walk h t a (b # bs) =
     (case h b of
        None \<Rightarrow> None
      | Some e \<Rightarrow>
          if time_before_eq t (pe_expire e) then Some (a # b # bs)
          else map_option (Cons b) (insert_walk h t a bs))"

definition insert_poll_list :: "addr \<Rightarrow> poll \<Rightarrow> poll option" where
  "insert_poll_list a s = do {
     e \<leftarrow> p_heap s a;
     l \<leftarrow> insert_walk (p_heap s) (pe_expire e) a (p_list s);
     Some (s\<lparr>p_list := l\<rparr>) }"

section \<open>The timer\<close>

text \<open>\<open>configTICK_RATE_HZ\<close> is 1000.\<close>

abbreviation TICK_TIMER_US :: int where "TICK_TIMER_US \<equiv> 1000"

text \<open>The division of C rounds towards zero.\<close>

definition c_div :: "int \<Rightarrow> int \<Rightarrow> int" where
  "c_div a b = (if a < 0 then - ((- a) div b) else a div b)"

definition timer_config :: "int \<Rightarrow> poll \<Rightarrow> poll" where
  "timer_config dur s =
     (let tick = c_div (dur + TICK_TIMER_US - 1) TICK_TIMER_US
      in s\<lparr>p_timer := Some (if tick \<le> 0 then 1 else tick)\<rparr>)"

text \<open>
  The time that is left. Seconds are \<open>long\<close>, 32 bits wide on this processor, and so is their product
  with a million; it wraps before it is added up in 64 bits.
\<close>

definition poll_duration :: "timeval \<Rightarrow> timeval \<Rightarrow> int" where
  "poll_duration expire now =
     sint (word_of_int ((tv_sec expire - tv_sec now) * 1000000) :: 32 word) + (tv_usec expire - tv_usec now)"

definition arm_for :: "addr \<Rightarrow> timeval \<Rightarrow> poll \<Rightarrow> poll option" where
  "arm_for a now s = do { e \<leftarrow> p_heap s a; Some (timer_config (poll_duration (pe_expire e) now) s) }"

text \<open>The one-shot timer has run down (\<open>poll_tick_isr\<close>).\<close>

definition poll_tick_isr :: "poll \<Rightarrow> poll" where
  "poll_tick_isr s =
     (if p_timer s = None then s
      else s\<lparr>p_timer := None, p_queue := (if p_queue s < POLL_QUEUE_SIZE then p_queue s + 1 else p_queue s)\<rparr>)"

section \<open>The poll task\<close>

definition first_entry :: "poll \<Rightarrow> addr option" where
  "first_entry s = (case p_list s of [] \<Rightarrow> None | a # l \<Rightarrow> Some a)"

definition poll_wake :: "poll \<Rightarrow> poll" where
  "poll_wake s =
     (if p_queue s = 0 then s
      else (case first_entry s of
              None \<Rightarrow> s\<lparr>p_queue := p_queue s - 1\<rparr>
            | Some a \<Rightarrow> s\<lparr>p_queue := p_queue s - 1, p_pc := PollLoop a\<rparr>))"

text \<open>The head of the loop: the callback is called, or the loop ends.\<close>

definition poll_check :: "addr \<Rightarrow> timeval \<Rightarrow> poll \<Rightarrow> poll option" where
  "poll_check a now s = do {
     e \<leftarrow> p_heap s a;
     Some (if time_before_eq (pe_expire e) now
           then p_emit (Called a now) (s\<lparr>p_heap := (p_heap s)(a \<mapsto> e\<lparr>pe_used := True\<rparr>), p_pc := PollCall a\<rparr>)
           else s\<lparr>p_pc := PollArm\<rparr>) }"

text \<open>After the callback: the entry moves to where its next expiry belongs.\<close>

definition poll_done :: "addr \<Rightarrow> timeval \<Rightarrow> poll \<Rightarrow> poll option" where
  "poll_done a now s = do {
     e \<leftarrow> p_heap s a;
     let e' = e\<lparr>pe_used := False, pe_expire := poll_expire (pe_period e) now\<rparr>;
     s1 \<leftarrow> insert_poll_list a (s\<lparr>p_heap := (p_heap s)(a \<mapsto> e'), p_list := remove1 a (p_list s)\<rparr>);
     b \<leftarrow> first_entry s1;
     Some (p_emit (Armed a now (pe_period e)) (s1\<lparr>p_pc := PollLoop b\<rparr>)) }"

definition poll_arm :: "timeval \<Rightarrow> poll \<Rightarrow> poll option" where
  "poll_arm now s =
     (case first_entry s of
        None \<Rightarrow> Some (s\<lparr>p_pc := PollWait\<rparr>)
      | Some a \<Rightarrow> arm_for a now (s\<lparr>p_pc := PollWait\<rparr>))"

definition poll_task :: "timeval \<Rightarrow> poll \<Rightarrow> poll option" where
  "poll_task now s =
     (case p_pc s of
        PollWait \<Rightarrow> Some (poll_wake s)
      | PollLoop a \<Rightarrow> poll_check a now s
      | PollCall a \<Rightarrow> poll_done a now s
      | PollArm \<Rightarrow> poll_arm now s)"

section \<open>The calls of other tasks\<close>

text \<open>\<open>mem\<close> is what \<open>calloc\<close> gives; a NULL callback or no memory is refused.\<close>

definition register_poll_func :: "32 word \<Rightarrow> addr option \<Rightarrow> addr \<Rightarrow> addr option \<Rightarrow> timeval \<Rightarrow> poll
    \<Rightarrow> (poll \<times> addr option) option" where
  "register_poll_func period callback param mem now s =
     (case (callback, mem) of
        (Some cb, Some a) \<Rightarrow> do {
          let e = \<lparr>pe_expire = poll_expire period now, pe_used = False, pe_period = period,
                   pe_callback = cb, pe_param = param\<rparr>;
          s1 \<leftarrow> insert_poll_list a (s\<lparr>p_heap := (p_heap s)(a \<mapsto> e)\<rparr>);
          s2 \<leftarrow> (if first_entry s1 = Some a then arm_for a now s1 else Some s1);
          Some (p_emit (Armed a now period) s2, Some a) }
      | _ \<Rightarrow> Some (s, None))"

text \<open>The successor of the first entry; at the end of the list it is NULL, which is then read.\<close>

definition unregister_poll_func :: "addr option \<Rightarrow> timeval \<Rightarrow> poll \<Rightarrow> (poll \<times> bool) option" where
  "unregister_poll_func entry now s =
     (case entry of
        None \<Rightarrow> Some (s, False)
      | Some a \<Rightarrow> do {
          e \<leftarrow> p_heap s a;
          (if pe_used e then Some (s, False)
           else do {
             s1 \<leftarrow> (if first_entry s = Some a
                     then (case tl (p_list s) of [] \<Rightarrow> None | b # l \<Rightarrow> arm_for b now s)
                     else Some s);
             Some (p_emit (Freed a) (s1\<lparr>p_list := remove1 a (p_list s1), p_heap := (p_heap s1)(a := None)\<rparr>),
                   True) }) })"

text \<open>\<open>poll_task_init\<close> creates the timer without starting it.\<close>

definition poll_task_init :: poll where
  "poll_task_init = \<lparr>p_heap = Map.empty, p_list = [], p_pc = PollWait, p_timer = None, p_queue = 0,
     p_trace = []\<rparr>"

section \<open>The machine\<close>

datatype poll_op = PollTask timeval | TimerFires | Register "32 word" "addr option" addr "addr option" timeval
  | Unregister "addr option" timeval

fun poll_step :: "poll_op \<Rightarrow> poll \<Rightarrow> poll option" where
  "poll_step (PollTask now) s = poll_task now s"
| "poll_step TimerFires s = Some (poll_tick_isr s)"
| "poll_step (Register period cb param mem now) s = map_option fst (register_poll_func period cb param mem now s)"
| "poll_step (Unregister entry now) s = map_option fst (unregister_poll_func entry now s)"

end
