(* ===== verification/Poll_Props.thy ===== *)
theory Poll_Props
  imports Poll
begin

text \<open>
  The poll timers as a priority queue: the contract \<open>priority_queue\<close> and that the sorted list keeps it;
  the invariant of the poll task with other tasks registering and unregistering at any time; and what
  follows for the callbacks: no timer is lost, and none is called early.
\<close>

section \<open>The contract of a priority queue\<close>

locale priority_queue =
  fixes ins :: "addr \<Rightarrow> 's \<Rightarrow> 's option"
    and del :: "addr \<Rightarrow> 's \<Rightarrow> 's"
    and first :: "'s \<Rightarrow> addr option"
    and key :: "'s \<Rightarrow> addr \<Rightarrow> timeval"
    and items :: "'s \<Rightarrow> addr multiset"
    and known :: "'s \<Rightarrow> addr \<Rightarrow> bool"
    and inv :: "'s \<Rightarrow> bool"
  assumes ins: "inv s \<Longrightarrow> known s a \<Longrightarrow>
      \<exists>s'. ins a s = Some s' \<and> inv s' \<and> items s' = add_mset a (items s) \<and> key s' = key s"
    and del: "inv s \<Longrightarrow> inv (del a s) \<and> items (del a s) = items s - {#a#} \<and> key (del a s) = key s"
    and first_None: "first s = None \<longleftrightarrow> items s = {#}"
    and first_Some: "inv s \<Longrightarrow> first s = Some a \<Longrightarrow> a \<in># items s \<and> (\<forall>b\<in>#items s. key s a \<le> key s b)"
begin

text \<open>The queue as a multiset of keyed items.\<close>

definition keyed :: "'s \<Rightarrow> (timeval \<times> addr) multiset" where
  "keyed s = image_mset (\<lambda>a. (key s a, a)) (items s)"

lemma keyed_ins:
  "inv s \<Longrightarrow> known s a \<Longrightarrow> ins a s = Some s' \<Longrightarrow> keyed s' = add_mset (key s a, a) (keyed s)"
  using ins by (fastforce simp: keyed_def)

lemma keyed_del: "inv s \<Longrightarrow> a \<in># items s \<Longrightarrow> keyed (del a s) = keyed s - {#(key s a, a)#}"
  using del by (simp add: keyed_def image_mset_Diff)

lemma first_least: "inv s \<Longrightarrow> first s = Some a \<Longrightarrow> x \<in># keyed s \<Longrightarrow> key s a \<le> fst x"
  using first_Some by (auto simp: keyed_def)

lemma first_ins:
  assumes "inv s" "known s a" "ins a s = Some s'"
  shows "\<exists>b. first s' = Some b"
proof -
  obtain s1 where "ins a s = Some s1" "items s1 = add_mset a (items s)" using ins [OF assms(1,2)] by blast
  with assms(3) have "items s' \<noteq> {#}" by simp
  then show ?thesis using first_None by blast
qed

end

section \<open>The sorted list keeps it\<close>

definition expiry :: "poll \<Rightarrow> addr \<Rightarrow> timeval" where
  "expiry s a = (case p_heap s a of None \<Rightarrow> Timeval 0 0 | Some e \<Rightarrow> pe_expire e)"

definition list_sorted :: "poll \<Rightarrow> bool" where
  "list_sorted s \<longleftrightarrow> set (p_list s) \<subseteq> dom (p_heap s) \<and> sorted (map (expiry s) (p_list s))"

lemma insert_poll_list_insort:
  assumes "set (p_list s) \<subseteq> dom (p_heap s)" "a \<in> dom (p_heap s)"
  shows "insert_poll_list a s = Some (s\<lparr>p_list := insort_key (expiry s) a (p_list s)\<rparr>)"
proof -
  obtain e where e: "p_heap s a = Some e" using assms(2) by blast
  have "insert_walk (p_heap s) (pe_expire e) a l = Some (insort_key (expiry s) a l)" if "set l \<subseteq> dom (p_heap s)" for l
    using that e by (induction l) (auto simp: expiry_def)
  with e assms(1) show ?thesis by (simp add: insert_poll_list_def)
qed

lemma expiry_list [simp]: "expiry (s\<lparr>p_list := l\<rparr>) = expiry s"
  by (simp add: expiry_def fun_eq_iff)

definition unlink_entry :: "addr \<Rightarrow> poll \<Rightarrow> poll" where
  "unlink_entry a s = s\<lparr>p_list := remove1 a (p_list s)\<rparr>"

lemma sorted_map_remove: "sorted (map f l) \<Longrightarrow> sorted (map f (remove1 a l))"
  by (induction l) (auto dest: notin_set_remove1)

interpretation pq: priority_queue insert_poll_list unlink_entry first_entry expiry "\<lambda>s. mset (p_list s)"
  "\<lambda>s a. a \<in> dom (p_heap s)" list_sorted
proof unfold_locales
  fix s a
  assume "list_sorted s" "a \<in> dom (p_heap s)"
  then show "\<exists>s'. insert_poll_list a s = Some s' \<and> list_sorted s' \<and> mset (p_list s') = add_mset a (mset (p_list s)) \<and>
      expiry s' = expiry s"
    by (simp add: insert_poll_list_insort list_sorted_def sorted_insort_key set_insort_key)
next
  fix s a
  assume "list_sorted s"
  then show "list_sorted (unlink_entry a s) \<and> mset (p_list (unlink_entry a s)) = mset (p_list s) - {#a#} \<and>
      expiry (unlink_entry a s) = expiry s"
    by (auto simp: list_sorted_def unlink_entry_def sorted_map_remove dest: notin_set_remove1)
next
  fix s a
  assume "list_sorted s" "first_entry s = Some a"
  then show "a \<in># mset (p_list s) \<and> (\<forall>b\<in>#mset (p_list s). expiry s a \<le> expiry s b)"
    by (auto simp: list_sorted_def first_entry_def split: list.splits)
qed (auto simp: first_entry_def split: list.splits)

section \<open>The time of an expiry\<close>

lemma poll_expire_exact:
  assumes "clock_time now"
  shows "usec (poll_expire p now) = usec now + uint p * 100000 - 1000 +
    (if 0 < uint p mod 10 \<and> tv_usec now div 1000 + (uint p mod 10) * 100 = 1000 then 1000000 else 0)"
proof -
  define m where "m = uint p mod 10"
  define u where "u = tv_usec now"
  have m: "0 \<le> m" "m < 10" by (simp_all add: m_def)
  have u: "0 \<le> u" "u < 1000000" using assms by (simp_all add: clock_time_def u_def)
  have p: "uint p = uint p div 10 * 10 + m" by (simp add: m_def)
  have ms: "(uint p - uint p div 10 * 10) * 100 = m * 100" using p by simp
  have e: "poll_expire p now = Timeval (uint p div 10 + tv_sec now + (u div 1000 + m * 100) div 1000)
      (c_rem (u + (m * 100 - 1) * 1000) 1000000)"
    by (simp only: poll_expire_def Let_def ms u_def)
  have k: "((u div 1000 + m * 100) div 1000) * 1000000 + c_rem (u + (m * 100 - 1) * 1000) 1000000 =
      u + m * 100000 - 1000 + (if 0 < m \<and> u div 1000 + m * 100 = 1000 then 1000000 else 0)"
  proof (cases "m = 0")
    case True
    with u show ?thesis by (cases "u < 1000") (simp_all add: c_rem_def)
  next
    case False
    define d where "d = u div 1000"
    have d: "0 \<le> d" "d < 1000" "d * 1000 \<le> u" "u < d * 1000 + 1000" using u by (auto simp: d_def)
    define x where "x = u + (m * 100 - 1) * 1000"
    have x: "0 \<le> x" "x < 2000000" using u m False by (simp_all add: x_def)
    consider "d + m * 100 < 1000" | "d + m * 100 = 1000" | "1000 < d + m * 100" by linarith
    then show ?thesis
    proof cases
      case 1
      then have "(d + m * 100) div 1000 = 0" "x < 1000000" using d m by (simp_all add: x_def)
      with x 1 show ?thesis unfolding x_def [symmetric] d_def [symmetric] by (simp add: c_rem_def x_def)
    next
      case 2
      then have "x < 1000000" using d m by (simp add: x_def)
      with x 2 False m show ?thesis unfolding x_def [symmetric] d_def [symmetric] by (simp add: c_rem_def x_def)
    next
      case 3
      then have "(d + m * 100) div 1000 = 1" using d m by linarith
      moreover have "x mod 1000000 = x - 1000000"
        using 3 d x by (subst mod_pos_geq) (simp_all add: x_def)
      ultimately show ?thesis using x 3 unfolding x_def [symmetric] d_def [symmetric]
        by (simp add: c_rem_def x_def)
    qed
  qed
  show ?thesis using k p unfolding e by (simp add: usec_def m_def [symmetric] u_def [symmetric] algebra_simps)
qed

section \<open>The invariant\<close>

fun event_entry :: "poll_event \<Rightarrow> addr" where
  "event_entry (Armed a t p) = a"
| "event_entry (Called a t) = a"
| "event_entry (Freed a) = a"

text \<open>When the entry was armed last, if nothing happened to it since.\<close>

fun last_armed :: "addr \<Rightarrow> poll_event list \<Rightarrow> (timeval \<times> 32 word) option" where
  "last_armed a [] = None"
| "last_armed a (e # es) =
     (if a \<in> set (map event_entry es) then last_armed a es
      else (case e of Armed b t p \<Rightarrow> if b = a then Some (t, p) else None | _ \<Rightarrow> None))"

definition armed :: "poll \<Rightarrow> bool" where
  "armed s \<longleftrightarrow> p_timer s \<noteq> None \<or> 0 < p_queue s \<or> p_pc s \<noteq> PollWait"

definition poll_inv :: "poll \<Rightarrow> bool" where
  "poll_inv s \<longleftrightarrow> distinct (p_list s) \<and> set (p_list s) = dom (p_heap s) \<and> list_sorted s \<and>
     (\<forall>a e. p_heap s a = Some e \<longrightarrow> (pe_used e \<longleftrightarrow> p_pc s = PollCall a)) \<and>
     (\<forall>a. p_pc s = PollLoop a \<or> p_pc s = PollCall a \<longrightarrow> a \<in> dom (p_heap s)) \<and>
     (p_list s \<noteq> [] \<longrightarrow> armed s)"

text \<open>Every entry that is not being called waits for the expiry computed when it was armed last.\<close>

definition expiry_inv :: "poll \<Rightarrow> bool" where
  "expiry_inv s \<longleftrightarrow> (\<forall>a e. p_heap s a = Some e \<longrightarrow> p_pc s \<noteq> PollCall a \<longrightarrow>
     (\<exists>t. clock_time t \<and> last_armed a (p_trace s) = Some (t, pe_period e) \<and> pe_expire e = poll_expire (pe_period e) t))"

text \<open>
  What the other tasks keep to: the clock gives readings, \<open>calloc\<close> fresh memory; an entry is
  unregistered once, not as the last one, and not while the poll task sleeps with it in hand.
\<close>

fun poll_ok :: "poll_op \<Rightarrow> poll \<Rightarrow> bool" where
  "poll_ok (PollTask now) s = clock_time now"
| "poll_ok TimerFires s = True"
| "poll_ok (Register period cb param mem now) s =
     (clock_time now \<and> (\<forall>a. mem = Some a \<longrightarrow> a \<notin> dom (p_heap s)))"
| "poll_ok (Unregister entry now) s =
     (\<forall>a. entry = Some a \<longrightarrow> a \<in> dom (p_heap s) \<and> p_list s \<noteq> [a] \<and> p_pc s \<noteq> PollLoop a)"

lemma last_armed_snoc:
  "last_armed a (es @ [e]) = (if event_entry e = a then (case e of Armed b t p \<Rightarrow> Some (t, p) | _ \<Rightarrow> None)
     else last_armed a es)"
  by (induction es) (auto split: poll_event.splits)

lemma expiry_in_heap: "p_heap s a = Some e \<Longrightarrow> expiry s a = pe_expire e"
  by (simp add: expiry_def)

lemma list_sorted_frame:
  "p_list s' = p_list s \<Longrightarrow> dom (p_heap s') = dom (p_heap s) \<Longrightarrow> (\<And>a. a \<in> set (p_list s) \<Longrightarrow> expiry s' a = expiry s a)
    \<Longrightarrow> list_sorted s' = list_sorted s"
  by (simp add: list_sorted_def cong: map_cong)

lemma sorted_map_cong: "(\<And>x. x \<in> set l \<Longrightarrow> f x = g x) \<Longrightarrow> sorted (map f l) = sorted (map g l)"
  by (metis map_cong)

text \<open>The parts of a step.\<close>

lemma arm_for_defined:
  "a \<in> dom (p_heap s) \<Longrightarrow> \<exists>k. arm_for a now s = Some (s\<lparr>p_timer := Some k\<rparr>)"
  by (auto simp: arm_for_def timer_config_def Let_def)

lemma first_in_list: "first_entry s = Some a \<Longrightarrow> a \<in> set (p_list s)"
  by (auto simp: first_entry_def split: list.splits)

lemma insert_step:
  assumes "list_sorted s" "a \<in> dom (p_heap s)" "a \<notin> set (p_list s)" "distinct (p_list s)"
  shows "\<exists>l. insert_poll_list a s = Some (s\<lparr>p_list := l\<rparr>) \<and> set l = insert a (set (p_list s)) \<and> distinct l \<and>
    list_sorted (s\<lparr>p_list := l\<rparr>) \<and> mset l = add_mset a (mset (p_list s))"
proof -
  obtain s' where s': "insert_poll_list a s = Some s'" "list_sorted s'"
    "mset (p_list s') = add_mset a (mset (p_list s))"
    using pq.ins [OF assms(1,2)] by blast
  then have "s' = s\<lparr>p_list := p_list s'\<rparr>" by (auto simp: insert_poll_list_def ub_simps)
  moreover have "set (p_list s') = insert a (set (p_list s))" using s'(3) by (metis set_mset_add_mset_insert set_mset_mset)
  moreover have "distinct (p_list s')"
    using s'(3) assms(3,4) by (metis distinct.simps(2) mset.simps(2) mset_eq_imp_distinct_iff)
  ultimately show ?thesis using s' by metis
qed

text \<open>The multiset of expiries and entries that the list stands for.\<close>

definition poll_queue :: "poll \<Rightarrow> (timeval \<times> addr) multiset" where
  "poll_queue s = image_mset (\<lambda>a. (expiry s a, a)) (mset (p_list s))"

fun queue_after :: "poll_op \<Rightarrow> poll \<Rightarrow> (timeval \<times> addr) multiset" where
  "queue_after (Register period (Some cb) param (Some a) now) s =
     add_mset (poll_expire period now, a) (poll_queue s)"
| "queue_after (Unregister (Some a) now) s =
     (if p_pc s = PollCall a then poll_queue s else poll_queue s - {#(expiry s a, a)#})"
| "queue_after (PollTask now) s =
     (case p_pc s of
        PollCall a \<Rightarrow> add_mset (poll_expire (pe_period (the (p_heap s a))) now, a)
                         (poll_queue s - {#(expiry s a, a)#})
      | _ \<Rightarrow> poll_queue s)"
| "queue_after op s = poll_queue s"

lemma poll_queue_frame:
  "p_list s' = p_list s \<Longrightarrow> (\<And>a. a \<in> set (p_list s) \<Longrightarrow> expiry s' a = expiry s a) \<Longrightarrow> poll_queue s' = poll_queue s"
  by (auto simp: poll_queue_def intro!: image_mset_cong)

definition good_step :: "poll_op \<Rightarrow> poll \<Rightarrow> bool" where
  "good_step op s \<longleftrightarrow> (\<exists>s'. poll_step op s = Some s' \<and> poll_inv s' \<and> expiry_inv s' \<and> poll_queue s' = queue_after op s)"

text \<open>A step that moves only the place of the task, the timer and its queue.\<close>

lemma good_quiet:
  assumes "poll_step op s = Some s'" "poll_inv s" "expiry_inv s" "queue_after op s = poll_queue s"
    and "p_heap s' = p_heap s" "p_list s' = p_list s" "p_trace s' = p_trace s"
    and "\<forall>a. p_pc s \<noteq> PollCall a" "\<forall>a. p_pc s' \<noteq> PollCall a"
    and "\<forall>a. p_pc s' = PollLoop a \<longrightarrow> a \<in> dom (p_heap s)" "p_list s \<noteq> [] \<Longrightarrow> armed s'"
  shows "good_step op s"
proof -
  have "list_sorted s' = list_sorted s" by (rule list_sorted_frame) (simp_all add: assms expiry_def)
  moreover have "poll_queue s' = poll_queue s" by (rule poll_queue_frame) (simp_all add: assms expiry_def)
  ultimately show ?thesis using assms by (auto simp: good_step_def poll_inv_def expiry_inv_def)
qed

lemma good_timer: 
  assumes "poll_inv s" "expiry_inv s"
  shows "good_step TimerFires s"
proof -
  have "list_sorted (poll_tick_isr s) = list_sorted s"
    by (rule list_sorted_frame) (simp_all add: poll_tick_isr_def expiry_def)
  moreover have "poll_queue (poll_tick_isr s) = poll_queue s"
    by (rule poll_queue_frame) (simp_all add: poll_tick_isr_def expiry_def)
  ultimately show ?thesis using assms
    by (auto simp: good_step_def poll_inv_def expiry_inv_def armed_def poll_tick_isr_def)
qed

lemma good_wake:
  assumes "poll_inv s" "expiry_inv s" "p_pc s = PollWait"
  shows "good_step (PollTask now) s"
proof (rule good_quiet [where s' = "poll_wake s"])
  show "poll_step (PollTask now) s = Some (poll_wake s)" by (simp add: poll_task_def assms(3))
  show "\<forall>a. p_pc (poll_wake s) = PollLoop a \<longrightarrow> a \<in> dom (p_heap s)"
    using assms(1,3) first_in_list [of s] by (auto simp: poll_wake_def poll_inv_def split: option.splits)
  show "p_list s \<noteq> [] \<Longrightarrow> armed (poll_wake s)"
    using assms(1,3) by (auto simp: poll_wake_def poll_inv_def armed_def first_entry_def split: option.splits list.splits)
qed (use assms in \<open>auto simp: poll_wake_def split: option.splits\<close>)

lemma good_arm:
  assumes "poll_inv s" "expiry_inv s" "p_pc s = PollArm"
  shows "good_step (PollTask now) s"
proof (cases "first_entry s")
  case None
  then show ?thesis
    by (intro good_quiet [where s' = "s\<lparr>p_pc := PollWait\<rparr>"])
      (use assms in \<open>auto simp: poll_task_def poll_arm_def first_entry_def split: list.splits\<close>)
next
  case (Some a)
  then have "a \<in> dom (p_heap (s\<lparr>p_pc := PollWait\<rparr>))" using first_in_list assms(1) by (auto simp: poll_inv_def)
  then obtain k where "arm_for a now (s\<lparr>p_pc := PollWait\<rparr>) = Some (s\<lparr>p_pc := PollWait, p_timer := Some k\<rparr>)"
    using arm_for_defined by fastforce
  with Some show ?thesis
    by (intro good_quiet [where s' = "s\<lparr>p_pc := PollWait, p_timer := Some k\<rparr>"])
      (use assms in \<open>auto simp: poll_task_def poll_arm_def armed_def\<close>)
qed

lemma good_check:
  assumes "poll_inv s" "expiry_inv s" "p_pc s = PollLoop a"
  shows "good_step (PollTask now) s"
proof -
  obtain e where e: "p_heap s a = Some e" using assms(1,3) by (auto simp: poll_inv_def)
  show ?thesis
  proof (cases "pe_expire e \<le> now")
    case False
    then show ?thesis
      by (intro good_quiet [where s' = "s\<lparr>p_pc := PollArm\<rparr>"])
        (use assms e in \<open>auto simp: poll_task_def poll_check_def armed_def\<close>)
  next
    case True
    define s' where "s' = p_emit (Called a now) (s\<lparr>p_heap := (p_heap s)(a \<mapsto> e\<lparr>pe_used := True\<rparr>), p_pc := PollCall a\<rparr>)"
    have x: "expiry s' = expiry s" using e by (auto simp: s'_def p_emit_def expiry_def fun_eq_iff)
    have "list_sorted s' = list_sorted s"
      by (rule list_sorted_frame) (use x e in \<open>auto simp: s'_def p_emit_def\<close>)
    moreover have "poll_queue s' = poll_queue s"
      by (rule poll_queue_frame) (simp_all add: x, simp add: s'_def p_emit_def)
    moreover have "poll_step (PollTask now) s = Some s'"
      using assms(3) True e by (simp add: poll_task_def poll_check_def s'_def)
    moreover have "poll_inv s'" using assms(1,3) e calculation(1)
      by (auto simp: poll_inv_def armed_def s'_def p_emit_def)
    moreover have "expiry_inv s'" using assms(2,3)
      by (auto simp: expiry_inv_def s'_def p_emit_def last_armed_snoc)
    ultimately show ?thesis using assms(3) by (simp add: good_step_def)
  qed
qed

lemma good_done:
  assumes "poll_inv s" "expiry_inv s" "p_pc s = PollCall a" "clock_time now"
  shows "good_step (PollTask now) s"
proof -
  obtain e where e: "p_heap s a = Some e" using assms(1,3) by (auto simp: poll_inv_def)
  have l: "a \<in> set (p_list s)" "distinct (p_list s)" "set (p_list s) = dom (p_heap s)" "list_sorted s"
    using assms(1) e by (auto simp: poll_inv_def)
  define e' where "e' = e\<lparr>pe_used := False, pe_expire := poll_expire (pe_period e) now\<rparr>"
  define s0 where "s0 = s\<lparr>p_heap := (p_heap s)(a \<mapsto> e'), p_list := remove1 a (p_list s)\<rparr>"
  have rest: "set (p_list s0) = set (p_list s) - {a}" "distinct (p_list s0)" using l by (simp_all add: s0_def)
  have x: "expiry s0 b = expiry s b" if "b \<noteq> a" for b using that by (simp add: s0_def expiry_def)
  have "list_sorted (unlink_entry a s)" using pq.del l(4) by blast
  moreover have "list_sorted s0 = list_sorted (unlink_entry a s)"
    by (rule list_sorted_frame) (use e rest x in \<open>auto simp: s0_def unlink_entry_def l\<close>)
  moreover have "a \<in> dom (p_heap s0)" by (simp add: s0_def)
  ultimately obtain xs where xs: "insert_poll_list a s0 = Some (s0\<lparr>p_list := xs\<rparr>)" "set xs = set (p_list s)"
    "distinct xs" "list_sorted (s0\<lparr>p_list := xs\<rparr>)" "mset xs = add_mset a (mset (p_list s0))"
    using insert_step [of s0 a] rest l(1) by (auto simp: insert_absorb)
  then obtain b ys where b: "xs = b # ys" using l(1) by (cases xs) auto
  define s' where "s' = p_emit (Armed a now (pe_period e)) (s0\<lparr>p_list := xs, p_pc := PollLoop b\<rparr>)"
  have run: "poll_step (PollTask now) s = Some s'" using e xs(1) b assms(3)
    by (simp add: poll_task_def poll_done_def Let_def first_entry_def s'_def flip: e'_def s0_def)
  have x': "expiry s' = expiry s0" by (simp add: s'_def p_emit_def expiry_def fun_eq_iff)
  have "list_sorted s' = list_sorted (s0\<lparr>p_list := xs\<rparr>)"
    by (rule list_sorted_frame) (simp_all add: x', simp_all add: s'_def p_emit_def)
  then have "poll_inv s'" using xs(2-4) l(3) b e assms(1,3)
    by (auto simp: poll_inv_def armed_def s'_def p_emit_def s0_def e'_def)
  moreover have "expiry_inv s'" using assms(2-4)
    by (auto simp: expiry_inv_def s'_def p_emit_def s0_def e'_def last_armed_snoc)
  moreover have "poll_queue s' = add_mset (poll_expire (pe_period e) now, a) (poll_queue s0)"
    using xs(5) x' by (simp add: poll_queue_def s'_def p_emit_def) (simp add: s0_def expiry_def e'_def)
  moreover have "poll_queue s0 = poll_queue (unlink_entry a s)"
  proof (rule poll_queue_frame)
    show "p_list s0 = p_list (unlink_entry a s)" by (simp add: s0_def unlink_entry_def)
    show "b \<in> set (p_list (unlink_entry a s)) \<Longrightarrow> expiry s0 b = expiry (unlink_entry a s) b" for b
      using x [of b] l(2) by (auto simp: unlink_entry_def)
  qed
  moreover have "poll_queue (unlink_entry a s) = poll_queue s - {#(expiry s a, a)#}"
    using pq.keyed_del [OF l(4)] l(1) by (simp add: poll_queue_def pq.keyed_def)
  ultimately show ?thesis using run assms(3) e by (simp add: good_step_def)
qed

lemma good_register:
  assumes "poll_inv s" "expiry_inv s" "clock_time now" "a \<notin> dom (p_heap s)"
  shows "good_step (Register period (Some cb) param (Some a) now) s"
proof -
  define e where "e = \<lparr>pe_expire = poll_expire period now, pe_used = False, pe_period = period,
                   pe_callback = cb, pe_param = param\<rparr>"
  define s0 where "s0 = s\<lparr>p_heap := (p_heap s)(a \<mapsto> e)\<rparr>"
  have l: "distinct (p_list s)" "set (p_list s) = dom (p_heap s)" "list_sorted s"
    using assms(1) by (auto simp: poll_inv_def)
  have x: "expiry s0 b = expiry s b" if "b \<noteq> a" for b using that by (simp add: s0_def expiry_def)
  have "sorted (map (expiry s0) (p_list s)) = sorted (map (expiry s) (p_list s))"
    by (rule sorted_map_cong, rule x) (use l(2) assms(4) in auto)
  then have "list_sorted s0" using l(2,3) assms(4) by (auto simp: list_sorted_def s0_def)
  then obtain xs where xs: "insert_poll_list a s0 = Some (s0\<lparr>p_list := xs\<rparr>)" "set xs = insert a (set (p_list s))"
    "distinct xs" "list_sorted (s0\<lparr>p_list := xs\<rparr>)" "mset xs = add_mset a (mset (p_list s))"
    using insert_step [of s0 a] l(1,2) assms(4) by (auto simp: s0_def)
  define s1 where "s1 = s0\<lparr>p_list := xs\<rparr>"
  have "a \<in> dom (p_heap s1)" by (simp add: s1_def s0_def)
  then obtain k where k: "arm_for a now s1 = Some (s1\<lparr>p_timer := Some k\<rparr>)" using arm_for_defined by blast
  define s2 where "s2 = (if first_entry s1 = Some a then s1\<lparr>p_timer := Some k\<rparr> else s1)"
  define s' where "s' = p_emit (Armed a now period) s2"
  have run: "poll_step (Register period (Some cb) param (Some a) now) s = Some s'"
    using xs(1) k by (simp add: register_poll_func_def Let_def s1_def s2_def s'_def flip: e_def s0_def)
  have f: "p_list s' = xs" "p_heap s' = p_heap s0" "p_pc s' = p_pc s" "p_trace s' = p_trace s @ [Armed a now period]"
    by (simp_all add: s'_def s2_def s1_def s0_def p_emit_def)
  have x': "expiry s' = expiry s0" by (simp add: f expiry_def fun_eq_iff)
  have "list_sorted s' = list_sorted (s0\<lparr>p_list := xs\<rparr>)"
    by (rule list_sorted_frame) (simp_all add: x' f)
  moreover have "armed s'"
  proof (cases "p_list s = []")
    case True
    with xs(2,3) have "xs = [a]" by (cases xs) (auto simp: subset_singleton_iff)
    then show ?thesis by (simp add: armed_def s'_def s2_def s1_def p_emit_def first_entry_def)
  next
    case False
    with assms(1) show ?thesis by (auto simp: poll_inv_def armed_def s'_def s2_def s1_def s0_def p_emit_def)
  qed
  moreover have "p_pc s \<noteq> PollCall a" "p_pc s \<noteq> PollLoop a" using assms(1,4) by (auto simp: poll_inv_def)
  ultimately have "poll_inv s'" using xs(2-4) l(2) assms(1,4)
    by (auto simp: poll_inv_def f s0_def e_def)
  moreover have "expiry_inv s'" using assms(2-4)
    by (auto simp: expiry_inv_def f s0_def e_def last_armed_snoc)
  moreover have "poll_queue s' = add_mset (poll_expire period now, a) (poll_queue s)"
    using xs(5) x x' l(2) assms(4) unfolding poll_queue_def f
    by (auto simp: s0_def expiry_def e_def intro!: image_mset_cong)
  ultimately show ?thesis using run unfolding good_step_def queue_after.simps by blast
qed

lemma good_unregister:
  assumes "poll_inv s" "expiry_inv s" "a \<in> dom (p_heap s)" "p_list s \<noteq> [a]" "p_pc s \<noteq> PollLoop a"
  shows "good_step (Unregister (Some a) now) s"
proof -
  obtain e where e: "p_heap s a = Some e" using assms(3) by blast
  show ?thesis
  proof (cases "pe_used e")
    case True
    then have "p_pc s = PollCall a" using assms(1) e by (auto simp: poll_inv_def)
    then show ?thesis using True e assms(1,2) by (simp add: good_step_def unregister_poll_func_def)
  next
    case False
    then have pc: "p_pc s \<noteq> PollCall a" using assms(1) e by (auto simp: poll_inv_def)
    have l: "distinct (p_list s)" "set (p_list s) = dom (p_heap s)" "list_sorted s" "a \<in> set (p_list s)"
      using assms(1,3) by (auto simp: poll_inv_def)
    have "\<exists>s1. (if first_entry s = Some a then (case tl (p_list s) of [] \<Rightarrow> None | b # l \<Rightarrow> arm_for b now s) else Some s) = Some s1 \<and>
        p_list s1 = p_list s \<and> p_heap s1 = p_heap s \<and> p_pc s1 = p_pc s \<and> p_trace s1 = p_trace s \<and> (armed s \<longrightarrow> armed s1)"
    proof (cases "first_entry s = Some a")
      case True
      then obtain b ys where b: "p_list s = a # b # ys" using assms(4)
        by (auto simp: first_entry_def neq_Nil_conv split: list.splits)
      then have "b \<in> dom (p_heap s)" using l(2) by (metis list.set_intros(1) list.set_intros(2))
      then obtain k where "arm_for b now s = Some (s\<lparr>p_timer := Some k\<rparr>)" using arm_for_defined by blast
      with True b show ?thesis by (simp add: armed_def)
    qed simp
    then obtain s1 where s1: "(if first_entry s = Some a then (case tl (p_list s) of [] \<Rightarrow> None | b # l \<Rightarrow> arm_for b now s) else Some s) = Some s1"
      "p_list s1 = p_list s" "p_heap s1 = p_heap s" "p_pc s1 = p_pc s" "p_trace s1 = p_trace s" "armed s \<longrightarrow> armed s1" by blast
    define s' where "s' = p_emit (Freed a) (s1\<lparr>p_list := remove1 a (p_list s1), p_heap := (p_heap s1)(a := None)\<rparr>)"
    have run: "poll_step (Unregister (Some a) now) s = Some s'"
      using e False s1(1) by (simp add: unregister_poll_func_def s'_def)
    have f: "p_list s' = remove1 a (p_list s)" "p_heap s' = (p_heap s)(a := None)" "p_pc s' = p_pc s"
      "p_trace s' = p_trace s @ [Freed a]" by (simp_all add: s'_def p_emit_def s1)
    have arm: "armed s \<longrightarrow> armed s'" using s1(6) by (simp add: armed_def s'_def p_emit_def)
    have rest: "set (remove1 a (p_list s)) = set (p_list s) - {a}" using l(1) by simp
    have x: "expiry s' b = expiry s b" if "b \<noteq> a" for b using that by (simp add: f expiry_def)
    have "list_sorted (unlink_entry a s)" using pq.del l(3) by blast
    moreover have "sorted (map (expiry s') (remove1 a (p_list s))) = sorted (map (expiry s) (remove1 a (p_list s)))"
      by (rule sorted_map_cong, rule x) (use rest in auto)
    ultimately have "list_sorted s'" using rest l(2) by (auto simp: list_sorted_def unlink_entry_def f)
    then have "poll_inv s'" using assms(1,5) l arm pc
      by (auto simp: poll_inv_def f split: if_splits)
    moreover have "expiry_inv s'" using assms(2) by (auto simp: expiry_inv_def f last_armed_snoc)
    moreover have "poll_queue s' = poll_queue (unlink_entry a s)"
    proof (rule poll_queue_frame)
      show "p_list s' = p_list (unlink_entry a s)" by (simp add: f unlink_entry_def)
      show "b \<in> set (p_list (unlink_entry a s)) \<Longrightarrow> expiry s' b = expiry (unlink_entry a s) b" for b
        using x [of b] rest by (auto simp: unlink_entry_def)
    qed
    moreover have "poll_queue (unlink_entry a s) = poll_queue s - {#(expiry s a, a)#}"
      using pq.keyed_del [OF l(3)] l(4) by (simp add: poll_queue_def pq.keyed_def)
    ultimately have "poll_queue s' = queue_after (Unregister (Some a) now) s" "expiry_inv s'" "poll_inv s'"
      using pc by simp_all
    with run show ?thesis unfolding good_step_def by blast
  qed
qed

lemma good_unchanged: "poll_inv s \<Longrightarrow> expiry_inv s \<Longrightarrow> poll_step op s = Some s \<Longrightarrow> queue_after op s = poll_queue s
    \<Longrightarrow> good_step op s"
  by (simp add: good_step_def)

lemma poll_good:
  assumes "poll_inv s" "expiry_inv s" "poll_ok op s"
  shows "good_step op s"
proof (cases op)
  case (PollTask now)
  with assms good_wake good_check good_done good_arm show ?thesis by (cases "p_pc s") auto
next
  case TimerFires
  with assms good_timer show ?thesis by simp
next
  case (Register period cb param mem now)
  show ?thesis
  proof (cases "cb = None \<or> mem = None")
    case True
    with Register assms show ?thesis
      by (auto intro!: good_unchanged simp: register_poll_func_def split: option.splits)
  next
    case False
    with Register assms good_register show ?thesis by auto
  qed
next
  case (Unregister entry now)
  show ?thesis
  proof (cases entry)
    case None
    with Unregister assms show ?thesis by (auto intro!: good_unchanged simp: unregister_poll_func_def)
  next
    case (Some a)
    with Unregister assms good_unregister show ?thesis by auto
  qed
qed

interpretation poll: safe_machine poll_step "\<lambda>s. poll_inv s \<and> expiry_inv s" poll_ok
  by unfold_locales (use poll_good in \<open>auto simp: good_step_def\<close>)

lemma poll_inv_init: "poll_inv poll_task_init" "expiry_inv poll_task_init"
  by (auto simp: poll_inv_def expiry_inv_def poll_task_init_def list_sorted_def)

section \<open>Calls are on time\<close>

definition on_time :: "poll_event list \<Rightarrow> bool" where
  "on_time tr \<longleftrightarrow> (\<forall>xs a t1 p ys t2 zs. tr = xs @ Armed a t1 p # ys @ Called a t2 # zs \<longrightarrow>
     a \<notin> set (map event_entry ys) \<longrightarrow> usec t1 + uint p * 100000 - 1000 \<le> usec t2)"

lemma last_armed_fresh: "a \<notin> set (map event_entry ys) \<Longrightarrow> last_armed a (xs @ Armed a t p # ys) = Some (t, p)"
  by (induction xs) auto

lemma on_time_snoc:
  assumes "on_time tr"
    and "\<And>a t1 p t2. e = Called a t2 \<Longrightarrow> last_armed a tr = Some (t1, p) \<Longrightarrow> usec t1 + uint p * 100000 - 1000 \<le> usec t2"
  shows "on_time (tr @ [e])"
  unfolding on_time_def
proof (intro allI impI)
  fix xs a t1 p ys t2 zs
  assume tr: "tr @ [e] = xs @ Armed a t1 p # ys @ Called a t2 # zs" and ys: "a \<notin> set (map event_entry ys)"
  show "usec t1 + uint p * 100000 - 1000 \<le> usec t2"
  proof (cases zs rule: rev_cases)
    case Nil
    with tr have "e = Called a t2" "tr = xs @ Armed a t1 p # ys"
      using append_eq_append_conv [of "[e]" "[Called a t2]" tr "xs @ Armed a t1 p # ys"] by auto
    with assms(2) last_armed_fresh [OF ys] show ?thesis by blast
  next
    case (snoc zs' z)
    with tr have "tr @ [e] = (xs @ Armed a t1 p # ys @ Called a t2 # zs') @ [z]" by simp
    then have "tr = xs @ Armed a t1 p # ys @ Called a t2 # zs'" by (simp only: append1_eq_conv)
    with assms(1) ys show ?thesis unfolding on_time_def by blast
  qed
qed

lemma c_rem_less: "0 < b \<Longrightarrow> c_rem a b < b"
  by (simp add: c_rem_def) (smt (verit) pos_mod_sign)

lemma le_usec: "a \<le> b \<Longrightarrow> tv_usec a < 1000000 \<Longrightarrow> clock_time b \<Longrightarrow> usec a \<le> usec b"
  by (auto simp: less_eq_timeval_def usec_def clock_time_def)

lemma poll_expire_usec_less: "tv_usec (poll_expire p now) < 1000000"
  by (simp add: poll_expire_def Let_def c_rem_less)

lemma step_on_time:
  assumes "on_time (p_trace s)" "expiry_inv s" "poll_inv s" "poll_ok op s" "poll_step op s = Some s'"
  shows "on_time (p_trace s')"
proof (cases "\<exists>a now. op = PollTask now \<and> p_pc s = PollLoop a \<and> p_trace s' = p_trace s @ [Called a now]")
  case True
  then obtain a now where a: "op = PollTask now" "p_pc s = PollLoop a" "p_trace s' = p_trace s @ [Called a now]" by blast
  obtain e where e: "p_heap s a = Some e" using assms(3) a(2) by (auto simp: poll_inv_def)
  then obtain t where t: "clock_time t" "last_armed a (p_trace s) = Some (t, pe_period e)"
    "pe_expire e = poll_expire (pe_period e) t" using assms(2) a(2) by (fastforce simp: expiry_inv_def)
  have "pe_expire e \<le> now" using assms(5) a e
    by (auto simp: poll_task_def poll_check_def p_emit_def split: if_splits)
  then have "usec (poll_expire (pe_period e) t) \<le> usec now"
    using le_usec poll_expire_usec_less assms(4) a(1) t(3) by simp
  then have "usec t + uint (pe_period e) * 100000 - 1000 \<le> usec now"
    using poll_expire_exact [OF t(1), of "pe_period e"] by (simp split: if_splits)
  with assms(1) t(2) show ?thesis unfolding a(3) by (intro on_time_snoc) auto
next
  case False
  have "p_trace s' = p_trace s \<or> (\<exists>e. p_trace s' = p_trace s @ [e] \<and> (\<forall>a t. e \<noteq> Called a t))"
  proof (cases op)
    case (PollTask now)
    then show ?thesis using assms(5) False
      by (cases "p_pc s")
        (auto simp: poll_task_def poll_wake_def poll_check_def poll_done_def poll_arm_def arm_for_def timer_config_def
          insert_poll_list_def p_emit_def ub_simps Let_def split: option.splits if_splits)
  qed (use assms(5) in \<open>auto simp: poll_tick_isr_def register_poll_func_def unregister_poll_func_def arm_for_def
         timer_config_def insert_poll_list_def p_emit_def ub_simps Let_def split: option.splits if_splits list.splits\<close>)
  with assms(1) on_time_snoc show ?thesis by fastforce
qed

lemma reach_on_time:
  "reach poll_step poll_ok {poll_task_init} s \<Longrightarrow> poll_inv s \<and> expiry_inv s \<and> on_time (p_trace s)"
proof (induction rule: reach.induct)
  case (reach_init s)
  then show ?case using poll_inv_init by (auto simp: on_time_def poll_task_init_def)
next
  case (reach_step s i s')
  then show ?case using poll.step_inv step_on_time by blast
qed

section \<open>Properties\<close>

lemma poll_reach_first:
  "poll_step op poll_task_init = Some s \<Longrightarrow> poll_ok op poll_task_init \<Longrightarrow> reach poll_step poll_ok {poll_task_init} s"
  by (rule reach_step [where i = op and s = poll_task_init]) (auto intro: reach_init)

lemma round_up: "x \<le> (x + 999) div 1000 * 1000 \<and> (x + 999) div 1000 * 1000 < x + 1000" for x :: int
proof -
  have "(x + 999) div 1000 * 1000 = x + 999 - (x + 999) mod 1000" by (simp add: minus_mod_eq_div_mult)
  moreover have "0 \<le> (x + 999) mod 1000" "(x + 999) mod 1000 < 1000" by simp_all
  ultimately show ?thesis by linarith
qed

lemma sint_seconds: "0 \<le> d \<Longrightarrow> d \<le> 2147 \<Longrightarrow> sint (word_of_int (d * 1000000) :: 32 word) = d * 1000000"
  by (simp only: sint_sbintrunc') (simp add: signed_take_bit_int_eq_self)

text \<open>C37: the timer list refines a priority queue: in every reached state every step that the other tasks may
  make is defined, it changes the multiset of expiries and entries exactly as the abstract operation does
  (add, remove, or replace after a callback), and the head of the list stays an entry with the least
  expiry.\<close>

theorem poll_list_refines_priority_queue:
  assumes "reach poll_step poll_ok {poll_task_init} s" "poll_ok op s"
  shows "\<exists>s'. poll_step op s = Some s' \<and> poll_queue s' = queue_after op s \<and>
    (\<forall>a. first_entry s' = Some a \<longrightarrow> (\<forall>x\<in>#poll_queue s'. expiry s' a \<le> fst x))"
proof -
  have "good_step op s" using reach_on_time [OF assms(1)] poll_good assms(2) by blast
  then obtain s' where s': "poll_step op s = Some s'" "poll_inv s'" "poll_queue s' = queue_after op s"
    by (auto simp: good_step_def)
  have "list_sorted s'" using s'(2) by (simp add: poll_inv_def)
  then have "\<forall>a. first_entry s' = Some a \<longrightarrow> (\<forall>x\<in>#poll_queue s'. expiry s' a \<le> fst x)"
    using pq.first_least by (simp add: poll_queue_def pq.keyed_def)
  with s' show ?thesis by blast
qed

theorem poll_list_refines_priority_queue_witness:
  "\<exists>s s'. reach poll_step poll_ok {poll_task_init} s \<and>
     poll_step (Register 5 (Some 100) 0 (Some 2) (Timeval 10 0)) s = Some s' \<and>
     poll_queue s' = {#(Timeval 10 499000, 2), (Timeval 11 199000, 1)#}"
proof -
  let ?r = "Register 12 (Some 100) 0 (Some 1) (Timeval 10 0)"
  obtain s where s: "poll_step ?r poll_task_init = Some s" "poll_queue s = queue_after ?r poll_task_init" "p_pc s = PollWait"
    "dom (p_heap s) = {1}"
    by (simp add: register_poll_func_def Let_def insert_poll_list_def poll_task_init_def first_entry_def arm_for_def
        timer_config_def p_emit_def poll_queue_def expiry_def)
  have r: "reach poll_step poll_ok {poll_task_init} s"
    by (rule poll_reach_first [OF s(1)]) (simp_all add: clock_time_def poll_task_init_def)
  have ok: "poll_ok (Register 5 (Some 100) 0 (Some 2) (Timeval 10 0)) s" using s(4) by (simp add: clock_time_def)
  have e: "poll_expire 5 (Timeval 10 0) = Timeval 10 499000" "poll_expire 12 (Timeval 10 0) = Timeval 11 199000"
    by (simp_all add: poll_expire_def Let_def c_rem_def)
  have q: "queue_after (Register 5 (Some 100) 0 (Some 2) (Timeval 10 0)) s = {#(Timeval 10 499000, 2), (Timeval 11 199000, 1)#}"
    using s(2) by (simp add: poll_queue_def poll_task_init_def e)
  show ?thesis using poll_list_refines_priority_queue [OF r ok] r unfolding q by blast
qed

text \<open>No callback is called early: in every run, between the moment an entry was armed (when it was
  registered, or when its last callback returned) and its next call at least its period less one
  millisecond passes.\<close>

theorem callbacks_keep_their_distance:
  assumes "reach poll_step poll_ok {poll_task_init} s"
    and "p_trace s = xs @ Armed a t1 period # ys @ Called a t2 # zs" "a \<notin> set (map event_entry ys)"
  shows "usec t1 + uint period * 100000 - 1000 \<le> usec t2"
  using reach_on_time [OF assms(1)] assms(2,3) unfolding on_time_def by blast

theorem callbacks_keep_their_distance_witness:
  "\<exists>s. reach poll_step poll_ok {poll_task_init} s \<and>
     p_trace s = [Armed 1 (Timeval 10 0) 5, Called 1 (Timeval 10 499000)] \<and>
     usec (Timeval 10 0) + uint (5 :: 32 word) * 100000 - 1000 \<le> usec (Timeval 10 499000)"
proof -
  let ?ops = "[Register 5 (Some 100) 0 (Some 1) (Timeval 10 0), TimerFires, PollTask (Timeval 10 499000),
     PollTask (Timeval 10 499000)]"
  have steps: "poll_step (Register 5 (Some 100) 0 (Some 1) (Timeval 10 0)) poll_task_init =
      Some \<lparr>p_heap = [1 \<mapsto> \<lparr>pe_expire = Timeval 10 499000, pe_used = False, pe_period = 5, pe_callback = 100, pe_param = 0\<rparr>],
        p_list = [1], p_pc = PollWait, p_timer = Some 499, p_queue = 0, p_trace = [Armed 1 (Timeval 10 0) 5]\<rparr>"
    by (simp add: register_poll_func_def Let_def insert_poll_list_def poll_task_init_def first_entry_def arm_for_def
        timer_config_def p_emit_def poll_expire_def c_rem_def poll_duration_def c_div_def)
  define s1 where "s1 = \<lparr>p_heap = [1 \<mapsto> \<lparr>pe_expire = Timeval 10 499000, pe_used = False, pe_period = 5, pe_callback = 100, pe_param = 0\<rparr>],
        p_list = [1], p_pc = PollWait, p_timer = Some 499, p_queue = 0, p_trace = [Armed 1 (Timeval 10 0) 5]\<rparr>"
  have r1: "reach poll_step poll_ok {poll_task_init} s1"
    by (rule poll_reach_first [OF steps [folded s1_def]]) (simp_all add: clock_time_def poll_task_init_def)
  define s2 where "s2 = s1\<lparr>p_timer := None, p_queue := 1\<rparr>"
  have r2: "reach poll_step poll_ok {poll_task_init} s2"
    by (rule reach_step [OF r1, of TimerFires]) (simp_all add: poll_tick_isr_def s1_def s2_def)
  define s3 where "s3 = s2\<lparr>p_queue := 0, p_pc := PollLoop 1\<rparr>"
  have r3: "reach poll_step poll_ok {poll_task_init} s3"
    by (rule reach_step [OF r2, of "PollTask (Timeval 10 499000)"])
      (simp_all add: clock_time_def poll_task_def poll_wake_def first_entry_def s1_def s2_def s3_def)
  obtain s4 where s4: "poll_step (PollTask (Timeval 10 499000)) s3 = Some s4"
    "p_trace s4 = [] @ Armed 1 (Timeval 10 0) 5 # [] @ Called 1 (Timeval 10 499000) # []"
    by (simp add: poll_task_def poll_check_def less_eq_timeval_def p_emit_def s1_def s2_def s3_def)
  have r4: "reach poll_step poll_ok {poll_task_init} s4"
    by (rule reach_step [OF r3 _ s4(1)]) (simp add: clock_time_def)
  have "usec (Timeval 10 0) + uint (5 :: 32 word) * 100000 - 1000 \<le> usec (Timeval 10 499000)"
    using callbacks_keep_their_distance [OF r4 s4(2)] by simp
  with r4 s4(2) show ?thesis by auto
qed

text \<open>No timer is lost: whatever was registered, unregistered and called before, while there are entries
  and the task waits, the system's timer is armed or has already queued its wake-up, and once it has
  fired the task calls the first entry if it is due.\<close>

theorem due_entry_is_called:
  assumes "reach poll_step poll_ok {poll_task_init} s" "p_pc s = PollWait" "p_list s = a # l"
    and "expiry s a \<le> now"
  shows "(p_timer s \<noteq> None \<or> 0 < p_queue s) \<and>
    (\<exists>s'. run_opt poll_step [TimerFires, PollTask before, PollTask now] s = Some s' \<and>
       p_trace s' = p_trace s @ [Called a now] \<and> p_pc s' = PollCall a)"
proof -
  have inv: "poll_inv s" using reach_on_time [OF assms(1)] by blast
  then have arm: "p_timer s \<noteq> None \<or> 0 < p_queue s" using assms(2,3) by (simp add: poll_inv_def armed_def)
  obtain e where e: "p_heap s a = Some e" "pe_expire e \<le> now" using inv assms(3,4)
    by (force simp: poll_inv_def expiry_def)
  define s1 where "s1 = poll_tick_isr s"
  have s1: "0 < p_queue s1" "p_list s1 = a # l" "p_pc s1 = PollWait" "p_heap s1 = p_heap s" "p_trace s1 = p_trace s"
    using arm assms(2,3) by (auto simp: s1_def poll_tick_isr_def)
  then have s2: "poll_step (PollTask before) s1 = Some (s1\<lparr>p_queue := p_queue s1 - 1, p_pc := PollLoop a\<rparr>)"
    by (simp add: poll_task_def poll_wake_def first_entry_def)
  show ?thesis using arm e s1 s2
    by (simp flip: s1_def) (simp add: poll_task_def poll_check_def p_emit_def)
qed

theorem due_entry_is_called_witness:
  "\<exists>s'. run_opt poll_step [Register 5 (Some 100) 0 (Some 1) (Timeval 10 0), TimerFires, PollTask (Timeval 11 0),
      PollTask (Timeval 11 0)] poll_task_init = Some s' \<and> p_pc s' = PollCall 1"
proof -
  obtain s where s: "poll_step (Register 5 (Some 100) 0 (Some 1) (Timeval 10 0)) poll_task_init = Some s"
    "p_pc s = PollWait" "p_list s = [1]" "expiry s 1 \<le> Timeval 11 0"
    by (simp add: register_poll_func_def Let_def insert_poll_list_def poll_task_init_def first_entry_def arm_for_def
        timer_config_def p_emit_def poll_expire_def c_rem_def expiry_def less_eq_timeval_def)
  have "reach poll_step poll_ok {poll_task_init} s"
    by (rule poll_reach_first [OF s(1)]) (simp_all add: clock_time_def poll_task_init_def)
  from due_entry_is_called [OF this s(2-4), of "Timeval 11 0"] s(1) show ?thesis by auto
qed

text \<open>
  The two rules for \<open>unregister_poll_func\<close> that \<open>poll_ok\<close> asks for are needed: the last entry cannot be
  unregistered (the code reads the expiry of its successor, NULL), and one that the task holds while it
  sleeps is freed under its hands.
\<close>

theorem unregister_of_the_last_entry_reads_null:
  assumes "poll_inv s" "p_list s = [a]" "p_pc s \<noteq> PollCall a"
  shows "unregister_poll_func (Some a) now s = None"
proof -
  obtain e where "p_heap s a = Some e" using assms(1,2) by (force simp: poll_inv_def)
  moreover from this have "\<not> pe_used e" using assms(1,3) by (simp add: poll_inv_def)
  ultimately show ?thesis using assms(2) by (simp add: unregister_poll_func_def first_entry_def)
qed

theorem unregister_while_the_task_sleeps:
  assumes "poll_inv s" "p_pc s = PollLoop a" "unregister_poll_func (Some a) now s = Some (s', True)"
  shows "poll_task later s' = None"
  using assms by (auto simp: unregister_poll_func_def poll_task_def poll_check_def p_emit_def ub_simps arm_for_def
      timer_config_def Let_def split: if_splits list.splits)

text \<open>The timer runs for the time that is left, rounded up to ticks, if that is less than 35 minutes.\<close>

theorem timer_covers_the_time_left:
  assumes "0 \<le> tv_sec e - tv_sec now" "tv_sec e - tv_sec now \<le> 2147" "0 < usec e - usec now"
    and "p_timer (timer_config (poll_duration e now) s) = Some k"
  shows "usec e - usec now \<le> k * 1000 \<and> k * 1000 < usec e - usec now + 1000"
proof -
  have "sint (word_of_int ((tv_sec e - tv_sec now) * 1000000) :: 32 word) = (tv_sec e - tv_sec now) * 1000000"
    using assms(1,2) by (rule sint_seconds)
  then have d: "poll_duration e now = usec e - usec now" by (simp add: poll_duration_def usec_def algebra_simps)
  have k: "k = (usec e - usec now + 999) div 1000"
    using assms(3,4) d by (auto simp: timer_config_def Let_def c_div_def split: if_splits)
  show ?thesis unfolding k by (rule round_up)
qed

theorem long_period_wakes_every_tick:
  "poll_duration (Timeval 2200 0) (Timeval 0 0) < 0 \<and>
   p_timer (timer_config (poll_duration (Timeval 2200 0) (Timeval 0 0)) s) = Some 1"
  by (simp add: poll_duration_def timer_config_def Let_def c_div_def)

end
