(* ===== verification/PowerManager.thy ===== *)
theory PowerManager
  imports Alarm_Prelude
begin

text \<open>
  The power manager (\<open>sys/power_manager/power_manager.c\<close>): clients hold wake locks; a timer ticks every
  minute, and a tick that finds no lock held puts the device to sleep (display dimmed, codec stopped);
  acquiring a lock wakes it.

  \<^item> The list of locks has a head node of its own, made with the first lock; \<open>pm_locks\<close> are the nodes
    behind it. A queue item is a copy of a lock.
  \<^item> \<open>pm_ready\<close>: the queue and the timer exist, that is, \<open>power_manager_init\<close> has run.
\<close>

section \<open>State\<close>

datatype wake_type_t = WAKE_LOCK_KEY | WAKE_LOCK_MUSIC | WAKE_LOCK_RECORD | WAKE_LOCK_NONE

record wake_lock_t =
  wl_type :: wake_type_t
  wl_active :: bool
  wl_name :: string

datatype pm_event = Brightness nat | CodecStop | CodecStart

record power =
  pm_heap :: "addr \<rightharpoonup> wake_lock_t"
  wake_lock_head :: "addr option"
  pm_locks :: "addr list"
  pm_queue :: "wake_lock_t list"
  pm_ready :: bool
  pm_timer :: bool
  sleep_manager_status :: bool
  pm_trace :: "pm_event list"

abbreviation PM_QUEUE_SIZE :: nat where "PM_QUEUE_SIZE \<equiv> 10"
abbreviation NAME_LEN :: nat where "NAME_LEN \<equiv> 24"

section \<open>The calls of the clients\<close>

text \<open>
  \<open>mem\<close> is the memory of the lock and \<open>mem_head\<close> that of the head node, which is used without a test.
  \<open>memcpy\<close> copies 24 bytes of a name whatever its length; the model keeps the name.
\<close>

definition wake_lock_init :: "wake_type_t \<Rightarrow> string \<Rightarrow> addr option \<Rightarrow> addr option \<Rightarrow> power
    \<Rightarrow> (power \<times> addr option) option" where
  "wake_lock_init ty name mem mem_head s =
     (case mem of
        None \<Rightarrow> Some (s, None)
      | Some a \<Rightarrow> do {
          let s1 = s\<lparr>pm_heap := (pm_heap s)(a \<mapsto> \<lparr>wl_type = ty, wl_active = False, wl_name = take NAME_LEN name\<rparr>)\<rparr>;
          s2 \<leftarrow> (if wake_lock_head s1 = None then do {
                   h \<leftarrow> mem_head;
                   Some (s1\<lparr>wake_lock_head := Some h,
                     pm_heap := (pm_heap s1)(h \<mapsto> \<lparr>wl_type = WAKE_LOCK_NONE, wl_active = False, wl_name = ''none_wake_lock''\<rparr>),
                     pm_locks := [a]\<rparr>) }
                 else Some (s1\<lparr>pm_locks := a # pm_locks s1\<rparr>));
          Some (s2, Some a) })"

definition wake_lock_destroy :: "addr \<Rightarrow> power \<Rightarrow> (power \<times> int) option" where
  "wake_lock_destroy d s =
     (case wake_lock_head s of
        None \<Rightarrow> Some (s, -1)
      | Some h \<Rightarrow>
          if h = d then
            Some (s\<lparr>wake_lock_head := (case pm_locks s of [] \<Rightarrow> None | a # as \<Rightarrow> Some a),
                    pm_locks := tl (pm_locks s), pm_heap := (pm_heap s)(d := None)\<rparr>, 0)
          else if d \<in> set (pm_locks s) then
            Some (s\<lparr>pm_locks := remove1 d (pm_locks s), pm_heap := (pm_heap s)(d := None)\<rparr>, 0)
          else Some (s, 0))"

definition acquire_wake_lock :: "addr \<Rightarrow> power \<Rightarrow> power option" where
  "acquire_wake_lock a s =
     (if \<not> pm_ready s then Some s
      else do {
        l \<leftarrow> pm_heap s a;
        let l' = l\<lparr>wl_active := True\<rparr>;
        Some (s\<lparr>pm_heap := (pm_heap s)(a \<mapsto> l'), pm_queue := queue_send PM_QUEUE_SIZE l' (pm_queue s)\<rparr>) })"

text \<open>\<open>xTimerReset\<close> starts a timer that was stopped.\<close>

definition release_wake_lock :: "addr \<Rightarrow> power \<Rightarrow> power option" where
  "release_wake_lock a s = do {
     l \<leftarrow> pm_heap s a;
     let s1 = s\<lparr>pm_heap := (pm_heap s)(a \<mapsto> l\<lparr>wl_active := False\<rparr>)\<rparr>;
     Some (if pm_ready s1 then s1\<lparr>pm_timer := True\<rparr> else s1) }"

section \<open>The task\<close>

text \<open>The loop reads the first node behind the head before it tests for the end.\<close>

definition search_wake_lock :: "power \<Rightarrow> bool option" where
  "search_wake_lock s =
     (case wake_lock_head s of
        None \<Rightarrow> Some False
      | Some h \<Rightarrow>
          if pm_locks s = [] then None
          else map_option (\<lambda>r. r \<noteq> None) (find_node wl_active (pm_heap s) (pm_locks s)))"

definition power_manager_tick :: "power \<Rightarrow> power option" where
  "power_manager_tick s =
     (case wake_lock_head s of
        None \<Rightarrow> Some s
      | Some h \<Rightarrow>
          if \<not> pm_ready s then Some s
          else do { l \<leftarrow> pm_heap s h; Some (s\<lparr>pm_queue := queue_send PM_QUEUE_SIZE l (pm_queue s)\<rparr>) })"

definition device_sleep :: "power \<Rightarrow> power" where
  "device_sleep s =
     (if sleep_manager_status s
      then s\<lparr>sleep_manager_status := False, pm_timer := False, pm_trace := pm_trace s @ [Brightness 0x88, CodecStop]\<rparr>
      else s)"

definition device_wake :: "power \<Rightarrow> power" where
  "device_wake s =
     (if \<not> sleep_manager_status s
      then s\<lparr>sleep_manager_status := True, pm_timer := True, pm_trace := pm_trace s @ [Brightness 0x8f, CodecStart]\<rparr>
      else s)"

definition power_manager_task :: "power \<Rightarrow> power option" where
  "power_manager_task s =
     (case queue_receive (pm_queue s) of
        None \<Rightarrow> Some s
      | Some (notify, q) \<Rightarrow>
          let s1 = s\<lparr>pm_queue := q\<rparr>
          in (case wl_type notify of
                WAKE_LOCK_NONE \<Rightarrow> do {
                  held \<leftarrow> search_wake_lock s1;
                  Some (if held then s1 else device_sleep s1) }
              | _ \<Rightarrow> Some (if wl_active notify then device_wake s1 else s1)))"

definition power_manager_init :: "power \<Rightarrow> power" where
  "power_manager_init s = s\<lparr>pm_ready := True, pm_timer := True\<rparr>"

definition power_zero :: power where
  "power_zero = \<lparr>pm_heap = Map.empty, wake_lock_head = None, pm_locks = [], pm_queue = [], pm_ready = False,
     pm_timer = False, sleep_manager_status = True, pm_trace = []\<rparr>"

section \<open>The machine\<close>

datatype power_op = PmStart | PmInit wake_type_t string "addr option" "addr option" | PmDestroy addr
  | PmAcquire addr | PmRelease addr | PmTick | PmTask

fun power_step :: "power_op \<Rightarrow> power \<Rightarrow> power option" where
  "power_step PmStart s = Some (power_manager_init s)"
| "power_step (PmInit ty name mem mem_head) s = map_option fst (wake_lock_init ty name mem mem_head s)"
| "power_step (PmDestroy a) s = map_option fst (wake_lock_destroy a s)"
| "power_step (PmAcquire a) s = acquire_wake_lock a s"
| "power_step (PmRelease a) s = release_wake_lock a s"
| "power_step PmTick s = power_manager_tick s"
| "power_step PmTask s = power_manager_task s"

section \<open>The invariant\<close>

text \<open>A client's lock that is held.\<close>

definition lock_held :: "power \<Rightarrow> bool" where
  "lock_held s \<longleftrightarrow> (\<exists>a\<in>set (pm_locks s). \<exists>l. pm_heap s a = Some l \<and> wl_active l)"

definition is_tick :: "wake_lock_t \<Rightarrow> bool" where
  "is_tick l \<longleftrightarrow> wl_type l = WAKE_LOCK_NONE"

definition power_inv :: "power \<Rightarrow> bool" where
  "power_inv s \<longleftrightarrow> distinct (pm_locks s) \<and> set (pm_locks s) \<union> set_option (wake_lock_head s) = dom (pm_heap s) \<and>
     set_option (wake_lock_head s) \<inter> set (pm_locks s) = {} \<and> (wake_lock_head s = None \<longleftrightarrow> pm_locks s = []) \<and>
     (\<forall>h. wake_lock_head s = Some h \<longrightarrow> (\<exists>l. pm_heap s h = Some l \<and> is_tick l)) \<and>
     (\<forall>a\<in>set (pm_locks s). \<exists>l. pm_heap s a = Some l \<and> \<not> is_tick l) \<and>
     (\<forall>m\<in>set (pm_queue s). \<not> is_tick m \<longrightarrow> wl_active m) \<and>
     (lock_held s \<longrightarrow> \<not> sleep_manager_status s \<longrightarrow> (\<exists>m\<in>set (pm_queue s). \<not> is_tick m))"

text \<open>
  What the clients keep to: they use their own locks, never of the head's type, keep one lock, and there
  is room in the queue when a lock is acquired.
\<close>

fun power_ok :: "power_op \<Rightarrow> power \<Rightarrow> bool" where
  "power_ok (PmInit ty name mem mem_head) s =
     (ty \<noteq> WAKE_LOCK_NONE \<and> set_option mem \<inter> dom (pm_heap s) = {} \<and> mem_head \<noteq> None \<and>
      set_option mem_head \<inter> (dom (pm_heap s) \<union> set_option mem) = {})"
| "power_ok (PmDestroy a) s = (a \<in> set (pm_locks s) \<and> pm_locks s \<noteq> [a])"
| "power_ok (PmAcquire a) s = (a \<in> set (pm_locks s) \<and> length (pm_queue s) < PM_QUEUE_SIZE)"
| "power_ok (PmRelease a) s = (a \<in> set (pm_locks s))"
| "power_ok op s = True"

lemma find_active:
  "set as \<subseteq> dom h \<Longrightarrow> find_node wl_active h as = Some r \<Longrightarrow>
     r \<noteq> None \<longleftrightarrow> (\<exists>a\<in>set as. \<exists>l. h a = Some l \<and> wl_active l)"
  by (induction as) (auto split: option.splits if_splits)

lemma search_spec:
  assumes "power_inv s"
  shows "search_wake_lock s = Some (lock_held s)"
proof -
  have sub: "set (pm_locks s) \<subseteq> dom (pm_heap s)" using assms(1) by (auto simp: power_inv_def)
  obtain r where r: "find_node wl_active (pm_heap s) (pm_locks s) = Some r"
    using find_node_total [OF sub, of wl_active] by blast
  have "(r \<noteq> None) = lock_held s" unfolding lock_held_def by (rule find_active [OF sub r])
  moreover have "wake_lock_head s = None \<longleftrightarrow> pm_locks s = []" using assms by (simp add: power_inv_def)
  ultimately show ?thesis using r by (cases "wake_lock_head s") (auto simp: search_wake_lock_def lock_held_def)
qed

definition good_power :: "power_op \<Rightarrow> power \<Rightarrow> bool" where
  "good_power op s \<longleftrightarrow> (\<exists>s'. power_step op s = Some s' \<and> power_inv s')"

lemma good_powerI: "power_step op s = Some s' \<Longrightarrow> power_inv s' \<Longrightarrow> good_power op s"
  by (auto simp: good_power_def)

lemma good_PmInit:
  assumes "power_inv s" "power_ok (PmInit ty name mem mem_head) s"
  shows "good_power (PmInit ty name mem mem_head) s"
proof (cases mem)
  case None
  with assms show ?thesis by (simp add: good_power_def wake_lock_init_def)
next
  case (Some a)
  define l where "l = \<lparr>wl_type = ty, wl_active = False, wl_name = take NAME_LEN name\<rparr>"
  have l: "\<not> is_tick l" "\<not> wl_active l" using assms(2) by (auto simp: l_def is_tick_def)
  obtain h0 where h0: "mem_head = Some h0" "h0 \<notin> dom (pm_heap s)" "h0 \<noteq> a" "a \<notin> dom (pm_heap s)"
    using assms(2) Some by auto
  show ?thesis
  proof (cases "wake_lock_head s")
    case None
    with assms(1) have e: "pm_locks s = []" "pm_heap s = Map.empty"
      unfolding power_inv_def by (simp, metis None dom_eq_empty_conv set_empty sup_bot.right_neutral option.set(1))
    have q: "\<forall>m\<in>set (pm_queue s). \<not> is_tick m \<longrightarrow> wl_active m" using assms(1) by (simp add: power_inv_def)
    define hd0 where "hd0 = \<lparr>wl_type = WAKE_LOCK_NONE, wl_active = False, wl_name = ''none_wake_lock''\<rparr>"
    show ?thesis
    proof (rule good_powerI)
      show "power_step (PmInit ty name mem mem_head) s = Some
          (s\<lparr>pm_heap := (pm_heap s)(a \<mapsto> l, h0 \<mapsto> hd0), wake_lock_head := Some h0, pm_locks := [a]\<rparr>)"
        using None Some h0 by (simp add: wake_lock_init_def flip: l_def hd0_def)
      show "power_inv (s\<lparr>pm_heap := (pm_heap s)(a \<mapsto> l, h0 \<mapsto> hd0), wake_lock_head := Some h0, pm_locks := [a]\<rparr>)"
        using e h0 l q by (auto simp: power_inv_def lock_held_def) (simp_all add: hd0_def is_tick_def)
    qed
  next
    case head: (Some h)
    then have "h \<noteq> a" "h \<in> dom (pm_heap s)" using assms(1) h0(4) by (auto simp: power_inv_def)
    with head Some h0 l assms(1) show ?thesis
      by (auto simp: good_power_def wake_lock_init_def power_inv_def lock_held_def simp flip: l_def)
  qed
qed

lemma good_PmDestroy:
  assumes "power_inv s" "a \<in> set (pm_locks s)" "pm_locks s \<noteq> [a]"
  shows "good_power (PmDestroy a) s"
proof -
  obtain h where h: "wake_lock_head s = Some h" "h \<noteq> a" using assms(1,2) by (auto simp: power_inv_def)
  have "distinct (pm_locks s)" using assms(1) by (simp add: power_inv_def)
  moreover from this have "remove1 a (pm_locks s) \<noteq> []"
    using assms(2,3) by (cases "pm_locks s") (auto split: if_splits)
  ultimately show ?thesis using h assms(1,2)
    by (auto simp: good_power_def wake_lock_destroy_def power_inv_def lock_held_def)
qed

lemma good_PmAcquire:
  assumes "power_inv s" "a \<in> set (pm_locks s)" "length (pm_queue s) < PM_QUEUE_SIZE"
  shows "good_power (PmAcquire a) s"
proof (cases "pm_ready s")
  case True
  obtain l where "pm_heap s a = Some l" "\<not> is_tick l" using assms(1,2) by (auto simp: power_inv_def)
  define l' where "l' = l\<lparr>wl_active := True\<rparr>"
  have l': "\<not> is_tick l'" "wl_active l'" using \<open>\<not> is_tick l\<close> by (simp_all add: l'_def is_tick_def)
  show ?thesis
  proof (rule good_powerI)
    show "power_step (PmAcquire a) s = Some (s\<lparr>pm_heap := (pm_heap s)(a \<mapsto> l'), pm_queue := pm_queue s @ [l']\<rparr>)"
      using True assms(3) \<open>pm_heap s a = Some l\<close> by (simp add: acquire_wake_lock_def queue_send_def Let_def l'_def)
    show "power_inv (s\<lparr>pm_heap := (pm_heap s)(a \<mapsto> l'), pm_queue := pm_queue s @ [l']\<rparr>)"
      using assms(1,2) l' by (auto simp: power_inv_def)
  qed
qed (use assms(1) in \<open>simp add: good_power_def acquire_wake_lock_def\<close>)

lemma good_PmRelease:
  assumes "power_inv s" "a \<in> set (pm_locks s)"
  shows "good_power (PmRelease a) s"
proof -
  obtain l where "pm_heap s a = Some l" "\<not> is_tick l" using assms by (auto simp: power_inv_def)
  define l' where "l' = l\<lparr>wl_active := False\<rparr>"
  have l': "\<not> is_tick l'" "\<not> wl_active l'" using \<open>\<not> is_tick l\<close> by (simp_all add: l'_def is_tick_def)
  define s' where "s' = (if pm_ready s then s\<lparr>pm_heap := (pm_heap s)(a \<mapsto> l'), pm_timer := True\<rparr>
    else s\<lparr>pm_heap := (pm_heap s)(a \<mapsto> l')\<rparr>)"
  have f: "pm_heap s' = (pm_heap s)(a \<mapsto> l')" "pm_locks s' = pm_locks s" "wake_lock_head s' = wake_lock_head s"
    "pm_queue s' = pm_queue s" "sleep_manager_status s' = sleep_manager_status s" by (simp_all add: s'_def)
  show ?thesis
  proof (rule good_powerI)
    show "power_step (PmRelease a) s = Some s'"
      using \<open>pm_heap s a = Some l\<close> by (simp add: release_wake_lock_def Let_def s'_def l'_def)
    have "lock_held s' \<longrightarrow> lock_held s" using l' by (auto simp: lock_held_def f split: if_splits)
    then show "power_inv s'" using assms l' unfolding power_inv_def f by auto
  qed
qed

lemma good_PmTick:
  assumes "power_inv s"
  shows "good_power PmTick s"
proof (cases "wake_lock_head s")
  case (Some h)
  then obtain l where "pm_heap s h = Some l" "is_tick l" using assms by (auto simp: power_inv_def)
  show ?thesis
  proof (cases "pm_ready s \<and> length (pm_queue s) < PM_QUEUE_SIZE")
    case True
    show ?thesis
    proof (rule good_powerI)
      show "power_step PmTick s = Some (s\<lparr>pm_queue := pm_queue s @ [l]\<rparr>)"
        using Some True \<open>pm_heap s h = Some l\<close> by (simp add: power_manager_tick_def queue_send_def)
      show "power_inv (s\<lparr>pm_queue := pm_queue s @ [l]\<rparr>)"
        using assms \<open>is_tick l\<close> by (auto simp: power_inv_def lock_held_def)
    qed
  next
    case False
    with Some assms \<open>pm_heap s h = Some l\<close> show ?thesis
      by (auto simp: good_power_def power_manager_tick_def queue_send_def)
  qed
qed (use assms in \<open>simp add: good_power_def power_manager_tick_def\<close>)

lemma is_tick_cases:
  "wl_type m = WAKE_LOCK_NONE \<longleftrightarrow> is_tick m"
  by (simp add: is_tick_def)

text \<open>A round of the task.\<close>

lemma task_tick:
  assumes "power_inv s" "pm_queue s = m # q" "is_tick m"
  shows "power_manager_task s = Some (if lock_held s then s\<lparr>pm_queue := q\<rparr> else device_sleep (s\<lparr>pm_queue := q\<rparr>))"
proof -
  have "search_wake_lock (s\<lparr>pm_queue := q\<rparr>) = search_wake_lock s"
    by (simp add: search_wake_lock_def split: option.split)
  with search_spec [OF assms(1)] assms(2,3) show ?thesis
    by (simp add: power_manager_task_def is_tick_def)
qed

lemma task_notify:
  assumes "power_inv s" "pm_queue s = m # q" "\<not> is_tick m"
  shows "power_manager_task s = Some (device_wake (s\<lparr>pm_queue := q\<rparr>))"
proof -
  have "wl_active m" using assms by (auto simp: power_inv_def)
  with assms(2,3) show ?thesis by (cases "wl_type m") (simp_all add: power_manager_task_def is_tick_def)
qed

lemma good_PmTask:
  assumes "power_inv s"
  shows "good_power PmTask s"
proof (cases "pm_queue s")
  case Nil
  with assms show ?thesis by (simp add: good_power_def power_manager_task_def)
next
  case (Cons m q)
  show ?thesis
  proof (cases "is_tick m")
    case True
    show ?thesis
    proof (rule good_powerI)
      show "power_step PmTask s = Some (if lock_held s then s\<lparr>pm_queue := q\<rparr> else device_sleep (s\<lparr>pm_queue := q\<rparr>))"
        using task_tick [OF assms Cons True] by simp
      show "power_inv (if lock_held s then s\<lparr>pm_queue := q\<rparr> else device_sleep (s\<lparr>pm_queue := q\<rparr>))"
        using assms Cons True by (auto simp: power_inv_def device_sleep_def lock_held_def)
    qed
  next
    case False
    show ?thesis
    proof (rule good_powerI)
      show "power_step PmTask s = Some (device_wake (s\<lparr>pm_queue := q\<rparr>))" using task_notify [OF assms Cons False] by simp
      show "power_inv (device_wake (s\<lparr>pm_queue := q\<rparr>))"
        using assms Cons by (auto simp: power_inv_def device_wake_def lock_held_def)
    qed
  qed
qed

interpretation power: safe_machine power_step power_inv power_ok
proof unfold_locales
  fix s op
  assume "power_inv s" "power_ok op s"
  then have "good_power op s"
  proof (cases op)
    case PmStart
    with \<open>power_inv s\<close> show ?thesis
      by (auto simp: power_inv_def power_manager_init_def lock_held_def intro!: good_powerI)
  qed (use good_PmInit good_PmDestroy good_PmAcquire good_PmRelease good_PmTick good_PmTask in auto)
  then show "\<exists>s'. power_step op s = Some s' \<and> power_inv s'" by (simp add: good_power_def)
qed

lemma power_inv_zero: "power_inv power_zero"
  by (simp add: power_inv_def power_zero_def lock_held_def)

lemma reach_power_inv: "reach power_step power_ok {power_zero} s \<Longrightarrow> power_inv s"
  by (rule power.reach_inv) (auto intro: power_inv_zero)

section \<open>Properties\<close>

text \<open>C38: the device follows its wake locks. In every reached state in which the messages of the locks are
  handled, the next tick and its handling are defined and leave the device awake if a lock is held and
  asleep if none is.\<close>

theorem device_follows_wake_locks:
  assumes "reach power_step power_ok {power_zero} s" "pm_queue s = []" "pm_ready s" "pm_locks s \<noteq> []"
  shows "\<exists>s'. run_opt power_step [PmTick, PmTask] s = Some s' \<and> (sleep_manager_status s' \<longleftrightarrow> lock_held s) \<and>
    pm_queue s' = []"
proof -
  have inv: "power_inv s" by (rule reach_power_inv [OF assms(1)])
  then obtain h l where h: "wake_lock_head s = Some h" "pm_heap s h = Some l" "is_tick l"
    using assms(4) unfolding power_inv_def by (metis option.exhaust)
  define s1 where "s1 = s\<lparr>pm_queue := [l]\<rparr>"
  have t: "power_step PmTick s = Some s1"
    using h assms(2,3) by (simp add: power_manager_tick_def queue_send_def s1_def)
  then have "power_inv s1" using good_PmTick [OF inv] by (simp add: good_power_def)
  from task_tick [OF this _ h(3), of "[]"]
  have k: "power_manager_task s1 = Some (if lock_held s1 then s1\<lparr>pm_queue := []\<rparr> else device_sleep (s1\<lparr>pm_queue := []\<rparr>))"
    by (simp add: s1_def)
  have "lock_held s1 = lock_held s" by (simp add: lock_held_def s1_def)
  moreover have "lock_held s \<longrightarrow> sleep_manager_status s" using inv assms(2) by (auto simp: power_inv_def)
  ultimately show ?thesis using t k by (auto simp: s1_def device_sleep_def)
qed

theorem device_follows_wake_locks_witness:
  "\<exists>s s'. reach power_step power_ok {power_zero} s \<and> run_opt power_step [PmTick, PmTask] s = Some s' \<and>
     \<not> sleep_manager_status s'"
proof -
  define s1 where "s1 = power_manager_init power_zero"
  have r1: "reach power_step power_ok {power_zero} s1"
    by (rule reach_step [of _ _ _ power_zero PmStart]) (simp_all add: reach_init s1_def)
  obtain s where s: "power_step (PmInit WAKE_LOCK_KEY ''key'' (Some 1) (Some 2)) s1 = Some s" "pm_queue s = []" "pm_ready s"
    "pm_locks s \<noteq> []" "\<not> lock_held s"
    by (simp add: wake_lock_init_def s1_def power_manager_init_def power_zero_def lock_held_def)
  have "reach power_step power_ok {power_zero} s"
    by (rule reach_step [OF r1 _ s(1)]) (simp add: s1_def power_manager_init_def power_zero_def)
  with device_follows_wake_locks [OF this s(2-4)] s(5) show ?thesis by blast
qed

text \<open>A lock that is held keeps the device awake: in every reached state with a held lock, once the task
  has handled what is in its queue the device is awake and the lock still held, whatever ticks are among
  the messages.\<close>

theorem held_lock_wakes_device:
  assumes "reach power_step power_ok {power_zero} s" "lock_held s"
  shows "\<exists>s'. run_opt power_step (replicate (length (pm_queue s)) PmTask) s = Some s' \<and> sleep_manager_status s' \<and>
    lock_held s' \<and> pm_queue s' = []"
proof -
  have "power_inv s" by (rule reach_power_inv [OF assms(1)])
  then show ?thesis using assms(2)
  proof (induction "pm_queue s" arbitrary: s)
    case Nil
    then show ?case by (auto simp: power_inv_def simp flip: Nil.hyps)
  next
    case (Cons m q)
    note c = Cons.hyps(2) [symmetric]
    obtain s1 where s1: "power_manager_task s = Some s1" "pm_queue s1 = q" "lock_held s1"
      using task_tick [OF Cons.prems(1) c] task_notify [OF Cons.prems(1) c] Cons.prems(2)
      by (cases "is_tick m") (auto simp: device_wake_def lock_held_def)
    have "power_inv s1" using good_PmTask [OF Cons.prems(1)] s1(1) by (simp add: good_power_def)
    from Cons.hyps(1) [OF s1(2) [symmetric] this s1(3)] s1(1,2) show ?case by (simp flip: Cons.hyps(2))
  qed
qed

theorem held_lock_wakes_device_witness:
  "\<exists>s s'. reach power_step power_ok {power_zero} s \<and> lock_held s \<and>
     run_opt power_step (replicate (length (pm_queue s)) PmTask) s = Some s' \<and> sleep_manager_status s'"
proof -
  define s1 where "s1 = power_manager_init power_zero"
  have r1: "reach power_step power_ok {power_zero} s1"
    by (rule reach_step [of _ _ _ power_zero PmStart]) (simp_all add: reach_init s1_def)
  obtain s2 where s2: "power_step (PmInit WAKE_LOCK_KEY ''key'' (Some 1) (Some 2)) s1 = Some s2" "pm_queue s2 = []" "pm_ready s2"
    "pm_locks s2 = [1]" "1 \<in> dom (pm_heap s2)"
    by (simp add: wake_lock_init_def s1_def power_manager_init_def power_zero_def)
  have r2: "reach power_step power_ok {power_zero} s2"
    by (rule reach_step [OF r1 _ s2(1)]) (simp add: s1_def power_manager_init_def power_zero_def)
  obtain s3 where s3: "power_step (PmAcquire 1) s2 = Some s3" "lock_held s3"
    using s2 by (auto simp: acquire_wake_lock_def lock_held_def Let_def)
  have r3: "reach power_step power_ok {power_zero} s3"
    by (rule reach_step [OF r2 _ s3(1)]) (simp add: s2)
  from held_lock_wakes_device [OF r3 s3(2)] r3 s3(2) show ?thesis by blast
qed

text \<open>
  That \<open>power_ok\<close> asks for a lock to remain is needed: when the last one is destroyed the next tick reads
  the node behind the head, NULL.
\<close>

theorem tick_without_locks_reads_null:
  assumes "wake_lock_head s = Some h" "pm_heap s h = Some l" "is_tick l" "pm_locks s = []" "pm_queue s = []" "pm_ready s"
  shows "run_opt power_step [PmTick, PmTask] s = None"
  using assms by (simp add: power_manager_tick_def queue_send_def power_manager_task_def search_wake_lock_def is_tick_def)

end
