(* ===== verification/Transfer_Types.thy ===== *)
theory Transfer_Types
  imports Alarm_Prelude
begin

text \<open>
  What the clients of the download and the upload server share with them: the reasons for which a
  transfer ends (\<open>include/socket_plus.h\<close>) and the requests (\<open>include/download_server.h\<close>,
  \<open>include/upload_server.h\<close>).
\<close>

datatype download_upload_finish_reason_t = LOAD_SUCC | LOAD_HALF | WIFI_DISSCONNECT | SERVER_CONNECT_FAILED
  | RECEVCE_FILESIZE_FAILED | QUERY_DNS_FAILED | OPEN_SOCKET_FAILED | HTTP_REQ_FAILED | OPEN_FILE_FAILED
  | PARSE_URL_FAILED | WRITE_FILE_FAILED | READ_FILE_FAILED | LOAD_TIME_OUT | FILE_SIZE_ERROR
  | NOT_FIND_HTTP_BODY_END | HTTP_TIMEOUT | DOWNLOAD_TASK_CREATE_ERR | DOWNLOAD_TASK_PARAM_ERR
  | DOWNLOAD_SIZE_OVERFLOW_ERR

text \<open>The requests to the two transfer servers, with the lengths of their arrays.\<close>

record transfer_info =
  ti_file_path_name :: string
  ti_path :: string
  ti_port_number :: string

abbreviation TRANSFER_FILE_SIZE :: nat where "TRANSFER_FILE_SIZE \<equiv> 64"
abbreviation TRANSFER_PATH_SIZE :: nat where "TRANSFER_PATH_SIZE \<equiv> 320"
abbreviation TRANSFER_PORT_SIZE :: nat where "TRANSFER_PORT_SIZE \<equiv> 6"

end
