(* ===== verification/Wechat.thy ===== *)
theory Wechat
  imports Audio_Types Transfer_Types "HOL-Library.Word"
begin

text \<open>
  Voice messages (\<open>app/wechat.c\<close>): a key records a message, which is uploaded; the server announces
  messages, which are downloaded and played when the key is pressed. Four workers each own a list of
  actions: recording, upload, download and play (with the last one played kept for a repeat). All work
  is done by one task from a queue; the callbacks of the recorder, the player, the two transfer servers
  and the timers only queue commands.

  \<^item> Actions are blocks of memory (\<open>w_heap\<close>); a worker's list is the list of their addresses. An action
    is in one list at a time, so its \<open>next\<close> field needs no place of its own.
  \<^item> Calls on other components are recorded in \<open>w_trace\<close>; \<open>WOverrun\<close> marks a string written with its
    terminator one byte behind the array \<open>mac\<close>, a byte the model leaves out.
\<close>

section \<open>Data\<close>

datatype wechat_action_state = WECHAT_SEND_IDLE | WECHAT_SEND_START_RECORD | WECHAT_SEND_FINISH_RECORD
  | WECHAT_SEND_START_UPLOAD | WECHAT_SEND_FINISH_UPLOAD | WECHAT_RECV_IDLE | WECHAT_RECV_START_DOWNLOAD
  | WECHAT_RECV_FINISH_DOWNLOAD | WECHAT_RECV_START_PLAY | WECHAT_RECV_FINISH_PLAY

datatype wechat_action_type = WECHAT_ACTION_T_SEND | WECHAT_ACTION_T_RECV | WECHAT_ACTION_T_UNDEFINE

datatype wechat_cmd_value = WECHAT_CMD_RECORD_START | WECHAT_CMD_RECORD_FINISH | WECHAT_CMD_RECORD_TIMEOUT
  | WECHAT_CMD_RECORD_ERROR | WECHAT_CMD_UPLOAD_START | WECHAT_CMD_UPLOAD_FINISH | WECHAT_CMD_UPLOAD_ERROR
  | WECHAT_CMD_RECV_MSG | WECHAT_CMD_DOWNLOAD_START | WECHAT_CMD_DOWNLOAD_FINISH | WECHAT_CMD_DOWNLOAD_ERROR
  | WECHAT_CMD_PLAY_START | WECHAT_CMD_PLAY_FINISH | WECHAT_CMD_PLAY_PREVIOUS | WECHAT_CMD_PLAY_ERROR
  | WECHAT_CMD_UNDEFINE

datatype wechat_param = ParamNull | ParamOne | ParamStatus NotifyStatus | ParamReason download_upload_finish_reason_t | ParamCmd addr

record wechat_cmd_node =
  wn_cmd_value :: wechat_cmd_value
  wn_param :: wechat_param

record wechat_action_t =
  wa_type :: wechat_action_type
  wa_state :: wechat_action_state
  wa_msg_id :: string
  wa_local_path :: string
  wa_remote_path :: string

abbreviation FILE_PATH_MAX_SIZE :: nat where "FILE_PATH_MAX_SIZE \<equiv> 128"
abbreviation WECHAT_QUEUE_SIZE :: nat where "WECHAT_QUEUE_SIZE \<equiv> 50"
abbreviation WECHAT_HTTP_ADDRESS_MAX_SIZE :: nat where "WECHAT_HTTP_ADDRESS_MAX_SIZE \<equiv> 240"

definition WECHAT_UPLOAD_HEAD :: string where
  "WECHAT_UPLOAD_HEAD = ''http://alarm.onegohome.com/api/test/upload?mac=''"

datatype wechat_event = WPlay play_param_t | WPlayStop AudioAppType | WRecordStart AudioAppType string
  | WRecordStop AudioAppType | WToneSync string | WSetFront | WUpload transfer_info | WDownload transfer_info
  | WMsgFinish string | WLedOff | WLedBlink | WOverrun string

abbreviation WECHAT_PLAY_CB :: addr where "WECHAT_PLAY_CB \<equiv> 1"

record wechat =
  w_heap :: "addr \<rightharpoonup> wechat_action_t"
  w_cmds :: "addr \<rightharpoonup> string \<times> nat"
  w_record :: "addr list"
  w_play :: "addr list"
  w_previous :: "addr list"
  w_upload :: "addr list"
  w_download :: "addr list"
  w_record_time :: nat
  w_record_timer :: bool
  w_key_timer :: bool
  w_record_file_id :: "8 word"
  w_upload_err_cnt :: "8 word"
  w_download_err_cnt :: "8 word"
  w_queue :: "wechat_cmd_node list"
  w_trace :: "wechat_event list"

definition w_emit :: "wechat_event list \<Rightarrow> wechat \<Rightarrow> wechat" where
  "w_emit es s = s\<lparr>w_trace := w_trace s @ es\<rparr>"

definition wechat_notify :: "wechat_cmd_value \<Rightarrow> wechat_param \<Rightarrow> wechat \<Rightarrow> wechat" where
  "wechat_notify c p s =
     s\<lparr>w_queue := queue_send WECHAT_QUEUE_SIZE \<lparr>wn_cmd_value = c, wn_param = p\<rparr> (w_queue s)\<rparr>"

section \<open>Lists of actions\<close>

definition add_action_head :: "addr list \<Rightarrow> addr \<Rightarrow> addr list" where
  "add_action_head l a = a # l"

definition add_action_tail :: "addr list \<Rightarrow> addr \<Rightarrow> addr list" where
  "add_action_tail l a = l @ [a]"

text \<open>With an empty list the walk reads \<open>NULL->next\<close>.\<close>

definition remove_action :: "addr list \<Rightarrow> addr \<Rightarrow> addr list option" where
  "remove_action l a = (case l of [] \<Rightarrow> None | b # bs \<Rightarrow> Some (if b = a then bs else b # remove1 a bs))"

definition set_action :: "addr \<Rightarrow> (wechat_action_t \<Rightarrow> wechat_action_t) \<Rightarrow> wechat \<Rightarrow> wechat option" where
  "set_action a f s = (case w_heap s a of None \<Rightarrow> None | Some x \<Rightarrow> Some (s\<lparr>w_heap := (w_heap s)(a \<mapsto> f x)\<rparr>))"

definition free_action :: "addr \<Rightarrow> wechat \<Rightarrow> wechat option" where
  "free_action a s = (case w_heap s a of None \<Rightarrow> None | Some x \<Rightarrow> Some (s\<lparr>w_heap := (w_heap s)(a := None)\<rparr>))"

fun free_chain :: "addr list \<Rightarrow> wechat \<Rightarrow> wechat option" where
  "free_chain [] s = Some s"
| "free_chain (a # as) s = Option.bind (free_action a s) (free_chain as)"

definition add_action_previous :: "addr \<Rightarrow> wechat \<Rightarrow> wechat option" where
  "add_action_previous a s = do { s1 \<leftarrow> free_chain (w_previous s) s; Some (s1\<lparr>w_previous := [a]\<rparr>) }"

section \<open>Recording\<close>

text \<open>What a round of the task takes from outside: memory, the address of the device, the light.\<close>

record wechat_env =
  we_mem :: "addr option"
  we_mac :: string
  we_led_blinks :: bool

definition record_path :: "8 word \<Rightarrow> string" where
  "record_path i = ''/sdcard/wechat/record'' @ dec_nat (unat i) @ ''.amr''"

definition record_start_cmd :: "wechat_env \<Rightarrow> wechat_param \<Rightarrow> wechat \<Rightarrow> wechat option" where
  "record_start_cmd e p s =
     (if w_record s \<noteq> [] then Some s
      else (case we_mem e of
              None \<Rightarrow> Some s
            | Some a \<Rightarrow>
                let path = record_path (w_record_file_id s);
                    x = \<lparr>wa_type = WECHAT_ACTION_T_SEND, wa_state = WECHAT_SEND_START_RECORD, wa_msg_id = [],
                         wa_local_path = path, wa_remote_path = WECHAT_UPLOAD_HEAD @ take 12 (we_mac e)\<rparr>
                in Some (w_emit (WOverrun (we_mac e) #
                            (if p = ParamNull then [WToneSync ''NOTIFY_AUDIO_WECHAT_STARTRECORD''] else []) @
                            [WRecordStart AUDIO_APP_WECHAT path])
                     (s\<lparr>w_record := add_action_head (w_record s) a, w_heap := (w_heap s)(a \<mapsto> x),
                        w_record_file_id := w_record_file_id s + 1, w_record_time := 0, w_record_timer := True\<rparr>))))"

text \<open>The recorder has stopped.\<close>

definition record_over :: "addr \<Rightarrow> wechat_param \<Rightarrow> wechat \<Rightarrow> wechat option" where
  "record_over a p s = do {
     l \<leftarrow> remove_action (w_record s) a;
     let s1 = s\<lparr>w_record := l\<rparr>;
     (if p = ParamStatus NOTIFY_STATUS_RECORD_STOPPED
      then Some (wechat_notify WECHAT_CMD_UPLOAD_START ParamNull (s1\<lparr>w_upload := add_action_tail (w_upload s1) a\<rparr>))
      else free_action a s1) }"

definition record_error_cmd :: "wechat_param \<Rightarrow> wechat \<Rightarrow> wechat option" where
  "record_error_cmd p s =
     (case w_record s of
        [] \<Rightarrow> Some s
      | a # as \<Rightarrow> do {
          x \<leftarrow> w_heap s a;
          let s1 = s\<lparr>w_record_timer := False\<rparr>;
          (case wa_state x of
             WECHAT_SEND_START_RECORD \<Rightarrow>
               if p = ParamStatus NOTIFY_STATUS_RECORD_EXCEED then do {
                 s2 \<leftarrow> set_action a (\<lambda>x. x\<lparr>wa_state := WECHAT_SEND_FINISH_RECORD\<rparr>) s1;
                 record_over a (ParamStatus NOTIFY_STATUS_RECORD_STOPPED) s2 }
               else do {
                 l \<leftarrow> remove_action (w_record s1) a;
                 s2 \<leftarrow> free_action a (s1\<lparr>w_record := l\<rparr>);
                 Some (wechat_notify WECHAT_CMD_RECORD_START ParamOne s2) }
           | WECHAT_SEND_FINISH_RECORD \<Rightarrow> record_over a p s1
           | _ \<Rightarrow> Some s1) })"

definition record_stop_cmd :: "wechat_event list \<Rightarrow> wechat \<Rightarrow> wechat option" where
  "record_stop_cmd es s =
     (case w_record s of
        [] \<Rightarrow> Some s
      | a # as \<Rightarrow>
          set_action a (\<lambda>x. x\<lparr>wa_state := WECHAT_SEND_FINISH_RECORD\<rparr>) (w_emit es (s\<lparr>w_record_timer := False\<rparr>)))"

definition record_finish_cmd :: "wechat \<Rightarrow> wechat option" where
  "record_finish_cmd = record_stop_cmd [WPlayStop AUDIO_APP_NOTIFY, WRecordStop AUDIO_APP_WECHAT]"

definition record_timeout_cmd :: "wechat \<Rightarrow> wechat option" where
  "record_timeout_cmd = record_stop_cmd [WRecordStop AUDIO_APP_WECHAT]"

section \<open>Playing\<close>

definition wechat_song :: "wechat_action_t \<Rightarrow> addr option \<Rightarrow> play_param_t" where
  "wechat_song x cb = \<lparr>pp_play_app_type = AUDIO_APP_WECHAT, pp_is_local_file = True,
     pp_uri = Some (wa_local_path x), pp_tone = None, pp_cb = cb, pp_cb_param = None\<rparr>"

definition play_start_cmd :: "wechat \<Rightarrow> wechat option" where
  "play_start_cmd s =
     (case w_play s of
        [] \<Rightarrow> Some s
      | a # as \<Rightarrow> do {
          x \<leftarrow> w_heap s a;
          (if wa_state x = WECHAT_RECV_FINISH_DOWNLOAD
           then set_action a (\<lambda>x. x\<lparr>wa_state := WECHAT_RECV_START_PLAY\<rparr>)
                  (w_emit [WPlay (wechat_song x (Some WECHAT_PLAY_CB))] s)
           else Some s) })"

definition led_off_if :: "wechat_env \<Rightarrow> wechat_event list" where
  "led_off_if e = (if we_led_blinks e then [WLedOff] else [])"

definition play_finish_cmd :: "wechat_env \<Rightarrow> wechat \<Rightarrow> wechat option" where
  "play_finish_cmd e s =
     (case w_play s of
        [] \<Rightarrow> Some s
      | a # as \<Rightarrow> do {
          x \<leftarrow> w_heap s a;
          s1 \<leftarrow> set_action a (\<lambda>x. x\<lparr>wa_state := WECHAT_RECV_FINISH_PLAY\<rparr>) (w_emit [WMsgFinish (wa_msg_id x)] s);
          l \<leftarrow> remove_action (w_play s1) a;
          s2 \<leftarrow> add_action_previous a (s1\<lparr>w_play := l\<rparr>);
          Some (if w_play s2 \<noteq> [] then wechat_notify WECHAT_CMD_PLAY_START ParamNull s2
                else w_emit (led_off_if e) s2) })"

definition play_previous_cmd :: "wechat \<Rightarrow> wechat option" where
  "play_previous_cmd s =
     (case w_previous s of
        [] \<Rightarrow> Some s
      | a # as \<Rightarrow> do { x \<leftarrow> w_heap s a; Some (w_emit [WPlay (wechat_song x None)] s) })"

definition play_error_cmd :: "wechat_env \<Rightarrow> wechat \<Rightarrow> wechat option" where
  "play_error_cmd e s =
     (case w_play s of
        [] \<Rightarrow> Some s
      | a # as \<Rightarrow> set_action a (\<lambda>x. x\<lparr>wa_state := WECHAT_RECV_FINISH_DOWNLOAD\<rparr>) (w_emit (led_off_if e) s))"

section \<open>Upload\<close>

definition duration_text :: "nat \<Rightarrow> string" where
  "duration_text t = ''&duration='' @ dec_nat (t div 10)"

definition upload_request :: "wechat_action_t \<Rightarrow> nat \<Rightarrow> transfer_info" where
  "upload_request x t =
     \<lparr>ti_file_path_name = take TRANSFER_FILE_SIZE (wa_local_path x),
      ti_path = take TRANSFER_PATH_SIZE (wa_remote_path x) @ duration_text t @ ''&type=0'',
      ti_port_number = ''80''\<rparr>"

definition upload_start_cmd :: "wechat \<Rightarrow> wechat option" where
  "upload_start_cmd s =
     (case w_upload s of
        [] \<Rightarrow> Some s
      | a # as \<Rightarrow> do {
          x \<leftarrow> w_heap s a;
          (if wa_state x = WECHAT_SEND_FINISH_RECORD \<or> wa_state x = WECHAT_SEND_START_UPLOAD then do {
             s1 \<leftarrow> set_action a (\<lambda>x. x\<lparr>wa_state := WECHAT_SEND_START_UPLOAD\<rparr>) s;
             Some (if w_record_time s1 div 10 = 0
                   then wechat_notify WECHAT_CMD_UPLOAD_FINISH (ParamReason FILE_SIZE_ERROR) s1
                   else w_emit ((if length (duration_text (w_record_time s1)) < 12 then []
                                 else [WOverrun (duration_text (w_record_time s1))]) @
                                [WUpload (upload_request x (w_record_time s1))]) s1) }
           else Some s) })"

text \<open>\<open>cnt++ < 5\<close> on a byte.\<close>

definition retry :: "8 word \<Rightarrow> bool" where
  "retry cnt \<longleftrightarrow> cnt < 5"

definition sent_song :: play_param_t where
  "sent_song = \<lparr>pp_play_app_type = AUDIO_APP_WECHAT, pp_is_local_file = True,
     pp_uri = Some ''NOTIFY_AUDIO_WECHAT_SENDMSG'', pp_tone = None, pp_cb = None, pp_cb_param = None\<rparr>"

definition upload_finish_cmd :: "wechat_param \<Rightarrow> wechat \<Rightarrow> wechat option" where
  "upload_finish_cmd p s =
     (case w_upload s of
        [] \<Rightarrow> Some s
      | a # as \<Rightarrow> do {
          s1 \<leftarrow> set_action a (\<lambda>x. x\<lparr>wa_state := WECHAT_SEND_FINISH_UPLOAD\<rparr>) s;
          l \<leftarrow> remove_action (w_upload s1) a;
          let s2 = s1\<lparr>w_upload := l\<rparr>;
          s3 \<leftarrow> (if p = ParamReason LOAD_SUCC then
                   map_option (\<lambda>s. s\<lparr>w_upload_err_cnt := 0\<rparr>) (free_action a (w_emit [WPlay sent_song] s2))
                 else if p = ParamReason FILE_SIZE_ERROR then free_action a s2
                 else (let s' = s2\<lparr>w_upload_err_cnt := w_upload_err_cnt s2 + 1\<rparr>
                       in if retry (w_upload_err_cnt s2)
                          then set_action a (\<lambda>x. x\<lparr>wa_state := WECHAT_SEND_FINISH_RECORD\<rparr>)
                                 (s'\<lparr>w_upload := add_action_tail (w_upload s') a\<rparr>)
                          else free_action a s'));
          Some (if w_upload s3 \<noteq> [] then wechat_notify WECHAT_CMD_UPLOAD_START ParamNull s3 else s3) })"

section \<open>Received messages\<close>

text \<open>
  The text behind the last slash of the first \<open>n + 1\<close> characters; without a slash \<open>NULL + 1\<close> is used as
  a string.
\<close>

definition convert_url_to_filename :: "string \<Rightarrow> nat \<Rightarrow> string option" where
  "convert_url_to_filename url n =
     (let pre = take (n + 1) url
      in if CHR ''/'' \<in> set pre
         then Some (drop (length pre - length (takeWhile (\<lambda>c. c \<noteq> CHR ''/'') (rev pre))) url) else None)"

text \<open>
  The port is what stands between the second colon and the next slash, with no test that it is a number:
  the test of the code, \<open>*pos < '0' && *pos > '9'\<close>, is never true. \<open>strncpy\<close> leaves six characters
  without a terminator.
\<close>

definition convert_url_to_portnumber :: "string \<Rightarrow> nat \<Rightarrow> string" where
  "convert_url_to_portnumber url port_size =
     (case dropWhile (\<lambda>c. c \<noteq> CHR '':'') url of
        [] \<Rightarrow> ''80''
      | _ # rest \<Rightarrow>
          (case dropWhile (\<lambda>c. c \<noteq> CHR '':'') rest of
             [] \<Rightarrow> ''80''
           | _ # start \<Rightarrow>
               if CHR ''/'' \<in> set start then take port_size (takeWhile (\<lambda>c. c \<noteq> CHR ''/'') start) else ''80''))"

definition free_cmd_buffer :: "addr \<Rightarrow> wechat \<Rightarrow> wechat option" where
  "free_cmd_buffer c s = (if w_cmds s c = None then None else Some (s\<lparr>w_cmds := (w_cmds s)(c := None)\<rparr>))"

text \<open>The new action: the server's identifier and address are copied as far as they go.\<close>

definition recv_action :: "string option \<Rightarrow> string \<Rightarrow> string \<Rightarrow> nat \<Rightarrow> wechat_action_t option" where
  "recv_action msg_id name url n =
     (if min n (length url) < WECHAT_HTTP_ADDRESS_MAX_SIZE then
        Some \<lparr>wa_type = WECHAT_ACTION_T_RECV, wa_state = WECHAT_RECV_IDLE,
              wa_msg_id = (case msg_id of None \<Rightarrow> [] | Some v \<Rightarrow> take 30 v),
              wa_local_path = take (FILE_PATH_MAX_SIZE - 1) (''/sdcard/wechat/'' @ name),
              wa_remote_path = take n url\<rparr>
      else None)"

text \<open>A message whose JSON lacks something is dropped and its buffer not freed.\<close>

definition recv_msg_cmd :: "'j cjson \<Rightarrow> wechat_env \<Rightarrow> wechat_param \<Rightarrow> wechat \<Rightarrow> wechat option" where
  "recv_msg_cmd j e p s =
     (case p of
        ParamCmd c \<Rightarrow> do {
          t \<leftarrow> w_cmds s c;
          (case Option.bind (cJSON_Parse j (fst t)) (\<lambda>root. cJSON_GetObjectItem j root ''data'') of
             None \<Rightarrow> Some s
           | Some d \<Rightarrow>
               (case (cJSON_GetObjectItem j d ''play_url'', cJSON_GetObjectItem j d ''id'') of
                  (Some u, Some i) \<Rightarrow> do {
                    name \<leftarrow> (case cj_valuestring j u of
                               None \<Rightarrow> Some ''NULL'' | Some url \<Rightarrow> convert_url_to_filename url (snd t));
                    s1 \<leftarrow> (case we_mem e of
                             None \<Rightarrow> Some s
                           | Some a \<Rightarrow> do {
                               url \<leftarrow> cj_valuestring j u;
                               x \<leftarrow> recv_action (cj_valuestring j i) name url (snd t);
                               Some (wechat_notify WECHAT_CMD_DOWNLOAD_START ParamNull
                                 (s\<lparr>w_heap := (w_heap s)(a \<mapsto> x), w_download := add_action_tail (w_download s) a\<rparr>)) });
                    free_cmd_buffer c s1 }
                | _ \<Rightarrow> Some s)) }
      | _ \<Rightarrow> None)"

definition download_request :: "wechat_action_t \<Rightarrow> transfer_info" where
  "download_request x =
     \<lparr>ti_file_path_name = take TRANSFER_FILE_SIZE (wa_local_path x),
      ti_path = take TRANSFER_PATH_SIZE (wa_remote_path x),
      ti_port_number = convert_url_to_portnumber (wa_remote_path x) TRANSFER_PORT_SIZE\<rparr>"

definition download_start_cmd :: "wechat \<Rightarrow> wechat option" where
  "download_start_cmd s =
     (case w_download s of
        [] \<Rightarrow> Some s
      | a # as \<Rightarrow> do {
          x \<leftarrow> w_heap s a;
          (if wa_state x = WECHAT_RECV_IDLE
           then set_action a (\<lambda>x. x\<lparr>wa_state := WECHAT_RECV_START_DOWNLOAD\<rparr>) (w_emit [WDownload (download_request x)] s)
           else Some s) })"

definition download_finish_cmd :: "wechat_param \<Rightarrow> wechat \<Rightarrow> wechat option" where
  "download_finish_cmd p s =
     (case w_download s of
        [] \<Rightarrow> Some s
      | a # as \<Rightarrow> do {
          s1 \<leftarrow> set_action a (\<lambda>x. x\<lparr>wa_state := WECHAT_RECV_FINISH_DOWNLOAD\<rparr>) s;
          l \<leftarrow> remove_action (w_download s1) a;
          let s2 = s1\<lparr>w_download := l\<rparr>;
          s3 \<leftarrow> (if p = ParamReason LOAD_SUCC then
                   Some (w_emit [WLedBlink] (s2\<lparr>w_play := add_action_tail (w_play s2) a, w_download_err_cnt := 0\<rparr>))
                 else (let s' = s2\<lparr>w_download_err_cnt := w_download_err_cnt s2 + 1\<rparr>
                       in if retry (w_download_err_cnt s2)
                          then set_action a (\<lambda>x. x\<lparr>wa_state := WECHAT_RECV_IDLE\<rparr>)
                                 (s'\<lparr>w_download := add_action_tail (w_download s') a\<rparr>)
                          else free_action a s'));
          Some (if w_download s3 \<noteq> [] then wechat_notify WECHAT_CMD_DOWNLOAD_START ParamNull s3 else s3) })"

section \<open>The task\<close>

definition execute_wechat_cmd :: "'j cjson \<Rightarrow> wechat_env \<Rightarrow> wechat_cmd_node \<Rightarrow> wechat \<Rightarrow> wechat option" where
  "execute_wechat_cmd j e n s =
     (case wn_cmd_value n of
        WECHAT_CMD_RECORD_START \<Rightarrow> record_start_cmd e (wn_param n) s
      | WECHAT_CMD_RECORD_ERROR \<Rightarrow> record_error_cmd (wn_param n) s
      | WECHAT_CMD_RECORD_FINISH \<Rightarrow> record_finish_cmd s
      | WECHAT_CMD_RECORD_TIMEOUT \<Rightarrow> record_timeout_cmd s
      | WECHAT_CMD_PLAY_START \<Rightarrow> play_start_cmd s
      | WECHAT_CMD_PLAY_FINISH \<Rightarrow> play_finish_cmd e s
      | WECHAT_CMD_PLAY_PREVIOUS \<Rightarrow> play_previous_cmd s
      | WECHAT_CMD_PLAY_ERROR \<Rightarrow> play_error_cmd e s
      | WECHAT_CMD_UPLOAD_START \<Rightarrow> upload_start_cmd s
      | WECHAT_CMD_UPLOAD_FINISH \<Rightarrow> upload_finish_cmd (wn_param n) s
      | WECHAT_CMD_UPLOAD_ERROR \<Rightarrow> upload_finish_cmd (wn_param n) s
      | WECHAT_CMD_RECV_MSG \<Rightarrow> recv_msg_cmd j e (wn_param n) s
      | WECHAT_CMD_DOWNLOAD_START \<Rightarrow> download_start_cmd s
      | WECHAT_CMD_DOWNLOAD_FINISH \<Rightarrow> download_finish_cmd (wn_param n) s
      | WECHAT_CMD_DOWNLOAD_ERROR \<Rightarrow> download_finish_cmd (wn_param n) s
      | WECHAT_CMD_UNDEFINE \<Rightarrow> Some s)"

definition wechat_task :: "'j cjson \<Rightarrow> wechat_env \<Rightarrow> wechat \<Rightarrow> wechat option" where
  "wechat_task j e s =
     (case queue_receive (w_queue s) of
        None \<Rightarrow> Some s
      | Some (n, q) \<Rightarrow> execute_wechat_cmd j e n (s\<lparr>w_queue := q\<rparr>))"

section \<open>Callbacks\<close>

datatype wechat_key = KEY_EVNET_PRESS | KEY_EVNET_RELEASE | KEY_EVNET_OTHER

definition wechat_keyprocess :: "wechat_key \<Rightarrow> bool \<Rightarrow> wechat \<Rightarrow> wechat" where
  "wechat_keyprocess k wifi s =
     (case k of
        KEY_EVNET_PRESS \<Rightarrow>
          if \<not> wifi then w_emit [WToneSync ''NOTIFY_AUDIO_NOT_CONNECT''] s else s\<lparr>w_key_timer := True\<rparr>
      | KEY_EVNET_RELEASE \<Rightarrow>
          (let s1 = s\<lparr>w_key_timer := False\<rparr>
           in if \<not> wifi then s1
              else if w_record s1 \<noteq> [] then wechat_notify WECHAT_CMD_RECORD_FINISH ParamNull s1
              else if w_play s1 \<noteq> [] then wechat_notify WECHAT_CMD_PLAY_START ParamNull (w_emit [WSetFront] s1)
              else if w_previous s1 \<noteq> [] then wechat_notify WECHAT_CMD_PLAY_PREVIOUS ParamNull (w_emit [WSetFront] s1)
              else s1)
      | KEY_EVNET_OTHER \<Rightarrow> s)"

definition wechat_keytimer_cb :: "wechat \<Rightarrow> wechat" where
  "wechat_keytimer_cb s =
     (if w_record s = [] then wechat_notify WECHAT_CMD_RECORD_START ParamNull s else s)"

definition wechat_timer_cb :: "wechat \<Rightarrow> wechat" where
  "wechat_timer_cb s =
     (let s1 = s\<lparr>w_record_time := w_record_time s + 1\<rparr>
      in if 150 \<le> w_record_time s1 then wechat_notify WECHAT_CMD_RECORD_TIMEOUT ParamNull s1 else s1)"

text \<open>A packet of the server; \<open>mem\<close> is the memory for its copy.\<close>

definition wechat_command_cb :: "bool \<Rightarrow> string \<Rightarrow> nat \<Rightarrow> addr option \<Rightarrow> wechat \<Rightarrow> wechat" where
  "wechat_command_cb push text n mem s =
     (case mem of
        None \<Rightarrow> s
      | Some c \<Rightarrow>
          if push then wechat_notify WECHAT_CMD_RECV_MSG (ParamCmd c) (s\<lparr>w_cmds := (w_cmds s)(c \<mapsto> (text, n))\<rparr>)
          else s)"

definition wechat_audio_play_cb :: "NotifyStatus \<Rightarrow> wechat \<Rightarrow> wechat" where
  "wechat_audio_play_cb st s =
     (case st of
        NOTIFY_STATUS_PLAY_FINISH \<Rightarrow> wechat_notify WECHAT_CMD_PLAY_FINISH (ParamStatus st) s
      | NOTIFY_STATUS_PLAY_ERROR \<Rightarrow> wechat_notify WECHAT_CMD_PLAY_FINISH (ParamStatus st) s
      | NOTIFY_STATUS_PLAY_DISTURBED \<Rightarrow> wechat_notify WECHAT_CMD_PLAY_ERROR (ParamStatus st) s
      | _ \<Rightarrow> s)"

definition wechat_audio_record_cb :: "NotifyStatus \<Rightarrow> wechat \<Rightarrow> wechat" where
  "wechat_audio_record_cb st = wechat_notify WECHAT_CMD_RECORD_ERROR (ParamStatus st)"

definition upload_callback :: "download_upload_finish_reason_t \<Rightarrow> wechat \<Rightarrow> wechat" where
  "upload_callback r = wechat_notify WECHAT_CMD_UPLOAD_FINISH (ParamReason r)"

definition wechat_download_callback :: "download_upload_finish_reason_t \<Rightarrow> wechat \<Rightarrow> wechat" where
  "wechat_download_callback r = wechat_notify WECHAT_CMD_DOWNLOAD_FINISH (ParamReason r)"

definition wechat_zero :: wechat where
  "wechat_zero = \<lparr>w_heap = Map.empty, w_cmds = Map.empty, w_record = [], w_play = [], w_previous = [], w_upload = [],
     w_download = [], w_record_time = 0, w_record_timer = False, w_key_timer = False, w_record_file_id = 0,
     w_upload_err_cnt = 0, w_download_err_cnt = 0, w_queue = [], w_trace = []\<rparr>"

section \<open>The machine\<close>

datatype wechat_op = WTask wechat_env | WKey wechat_key bool | WKeyTimer | WRecordTick
  | WCommand bool string nat "addr option" | WPlayStatus NotifyStatus | WRecordStatus NotifyStatus
  | WUploaded download_upload_finish_reason_t | WDownloaded download_upload_finish_reason_t

text \<open>A timer's callback runs only while it is active; the one of the key runs once.\<close>

fun wechat_step :: "'j cjson \<Rightarrow> wechat_op \<Rightarrow> wechat \<Rightarrow> wechat option" where
  "wechat_step j (WTask e) s = wechat_task j e s"
| "wechat_step j (WKey k wifi) s = Some (wechat_keyprocess k wifi s)"
| "wechat_step j WKeyTimer s = Some (if w_key_timer s then wechat_keytimer_cb (s\<lparr>w_key_timer := False\<rparr>) else s)"
| "wechat_step j WRecordTick s = Some (if w_record_timer s then wechat_timer_cb s else s)"
| "wechat_step j (WCommand push text n mem) s = Some (wechat_command_cb push text n mem s)"
| "wechat_step j (WPlayStatus st) s = Some (wechat_audio_play_cb st s)"
| "wechat_step j (WRecordStatus st) s = Some (wechat_audio_record_cb st s)"
| "wechat_step j (WUploaded r) s = Some (upload_callback r s)"
| "wechat_step j (WDownloaded r) s = Some (wechat_download_callback r s)"

end
