(* ===== verification/Wechat_Inv.thy ===== *)
theory Wechat_Inv
  imports Wechat "HOL-Library.Multiset"
begin

text \<open>
  The voice messages as a machine: every action is in exactly one worker's list or freed, and every
  handler is defined and keeps it so.
\<close>

section \<open>The lists own the actions\<close>

interpretation worker: tail_list "\<lambda>l. l" "\<lambda>a l. add_action_tail l a" "\<lambda>a l. the (remove_action l a)"
  by unfold_locales (auto simp: add_action_tail_def remove_action_def split: list.splits)

lemma remove_head [simp]: "remove_action (a # l) a = Some l"
  by (simp add: remove_action_def)

definition w_lists :: "wechat \<Rightarrow> addr list" where
  "w_lists s = w_record s @ w_play s @ w_previous s @ w_upload s @ w_download s"

definition owns :: "wechat \<Rightarrow> bool" where
  "owns s \<longleftrightarrow> distinct (w_lists s) \<and> set (w_lists s) = dom (w_heap s)"

text \<open>The buffers of the commands that wait.\<close>

definition cmd_buffer :: "wechat_cmd_node \<Rightarrow> addr list" where
  "cmd_buffer n =
     (if wn_cmd_value n = WECHAT_CMD_RECV_MSG then (case wn_param n of ParamCmd c \<Rightarrow> [c] | _ \<Rightarrow> []) else [])"

definition cmd_buffers :: "wechat_cmd_node list \<Rightarrow> addr list" where
  "cmd_buffers q = concat (map cmd_buffer q)"

text \<open>A packet whose address, if it has one, has a slash and fits.\<close>

definition good_message :: "'j cjson \<Rightarrow> string \<Rightarrow> nat \<Rightarrow> bool" where
  "good_message j text n \<longleftrightarrow> (\<forall>root d u i. cJSON_Parse j text = Some root \<longrightarrow> cJSON_GetObjectItem j root ''data'' = Some d \<longrightarrow>
     cJSON_GetObjectItem j d ''play_url'' = Some u \<longrightarrow> cJSON_GetObjectItem j d ''id'' = Some i \<longrightarrow>
     (\<exists>url. cj_valuestring j u = Some url \<and> CHR ''/'' \<in> set (take (n + 1) url) \<and>
        min n (length url) < WECHAT_HTTP_ADDRESS_MAX_SIZE))"

definition wechat_inv :: "'j cjson \<Rightarrow> wechat \<Rightarrow> bool" where
  "wechat_inv j s \<longleftrightarrow> owns s \<and> distinct (cmd_buffers (w_queue s)) \<and>
     (\<forall>n\<in>set (w_queue s). wn_cmd_value n = WECHAT_CMD_RECV_MSG \<longrightarrow>
        (\<exists>c text k. wn_param n = ParamCmd c \<and> w_cmds s c = Some (text, k) \<and> good_message j text k))"

text \<open>What is asked of the environment: fresh memory and good messages.\<close>

fun wechat_ok :: "'j cjson \<Rightarrow> wechat_op \<Rightarrow> wechat \<Rightarrow> bool" where
  "wechat_ok j (WTask e) s = (set_option (we_mem e) \<inter> dom (w_heap s) = {})"
| "wechat_ok j (WCommand push text n mem) s = (set_option mem \<inter> dom (w_cmds s) = {} \<and> good_message j text n)"
| "wechat_ok j op s = True"

text \<open>A handler that is defined and keeps what the lists own; it may queue commands, but no news from outside.\<close>

abbreviation news :: "wechat_cmd_value set" where
  "news \<equiv> {WECHAT_CMD_RECV_MSG, WECHAT_CMD_DOWNLOAD_FINISH, WECHAT_CMD_DOWNLOAD_ERROR}"

definition quiet_queue :: "wechat \<Rightarrow> wechat \<Rightarrow> bool" where
  "quiet_queue s s' \<longleftrightarrow> w_cmds s' = w_cmds s \<and>
     (\<exists>ns. w_queue s' = w_queue s @ ns \<and> (\<forall>n\<in>set ns. wn_cmd_value n \<notin> news))"

definition safe_handler :: "wechat \<Rightarrow> wechat option \<Rightarrow> bool" where
  "safe_handler s r \<longleftrightarrow> (\<exists>s'. r = Some s' \<and> owns s' \<and> quiet_queue s s')"

lemma safe_handlerI: "r = Some s' \<Longrightarrow> owns s' \<Longrightarrow> quiet_queue s s' \<Longrightarrow> safe_handler s r"
  by (auto simp: safe_handler_def)

lemma quiet_refl [simp, intro]: "w_cmds s' = w_cmds s \<Longrightarrow> w_queue s' = w_queue s \<Longrightarrow> quiet_queue s s'"
  by (auto simp: quiet_queue_def)

lemma quiet_notify [simp, intro]:
  "c \<notin> news \<Longrightarrow> quiet_queue s s' \<Longrightarrow> quiet_queue s (wechat_notify c p s')"
  by (auto simp: quiet_queue_def wechat_notify_def queue_send_def)

lemma notify_fields [simp]:
  "w_heap (wechat_notify c p s) = w_heap s" "w_cmds (wechat_notify c p s) = w_cmds s"
  "w_record (wechat_notify c p s) = w_record s" "w_play (wechat_notify c p s) = w_play s"
  "w_previous (wechat_notify c p s) = w_previous s" "w_upload (wechat_notify c p s) = w_upload s"
  "w_download (wechat_notify c p s) = w_download s" "w_trace (wechat_notify c p s) = w_trace s"
  by (simp_all add: wechat_notify_def)

lemma emit_heap [simp]:
  "w_heap (w_emit es s) = w_heap s" "w_cmds (w_emit es s) = w_cmds s" "w_queue (w_emit es s) = w_queue s"
  "w_record (w_emit es s) = w_record s" "w_play (w_emit es s) = w_play s"
  "w_previous (w_emit es s) = w_previous s" "w_upload (w_emit es s) = w_upload s"
  "w_download (w_emit es s) = w_download s" "w_trace (w_emit es s) = w_trace s @ es"
  "w_record_time (w_emit es s) = w_record_time s"
  by (simp_all add: w_emit_def)

lemma set_action_Some: "a \<in> dom (w_heap s) \<Longrightarrow>
    set_action a f s = Some (s\<lparr>w_heap := (w_heap s)(a \<mapsto> f (the (w_heap s a)))\<rparr>)"
  by (auto simp: set_action_def)

lemma free_action_Some: "a \<in> dom (w_heap s) \<Longrightarrow> free_action a s = Some (s\<lparr>w_heap := (w_heap s)(a := None)\<rparr>)"
  by (auto simp: free_action_def)

lemma free_chain_Some:
  "distinct l \<Longrightarrow> set l \<subseteq> dom (w_heap s) \<Longrightarrow> free_chain l s = Some (s\<lparr>w_heap := (w_heap s) |` (- set l)\<rparr>)"
proof (induction l arbitrary: s)
  case Nil
  then show ?case by (simp add: restrict_map_def)
next
  case (Cons a l)
  let ?s = "s\<lparr>w_heap := (w_heap s)(a := None)\<rparr>"
  have "free_chain l ?s = Some (?s\<lparr>w_heap := (w_heap ?s) |` (- set l)\<rparr>)"
    using Cons.prems by (intro Cons.IH) auto
  moreover have "((w_heap s)(a := None)) |` (- set l) = (w_heap s) |` (- set (a # l))"
    by (auto simp: restrict_map_def fun_eq_iff)
  ultimately show ?case using Cons.prems free_action_Some [of a s] by simp
qed

lemma owns_dom:
  "owns s \<Longrightarrow> a \<in> set (w_record s) \<union> set (w_play s) \<union> set (w_previous s) \<union> set (w_upload s) \<union> set (w_download s)
    \<Longrightarrow> a \<in> dom (w_heap s)"
  by (auto simp: owns_def w_lists_def)

text \<open>The lists of a state that follow from those of another by moving, adding or freeing one action.\<close>

lemma owns_move: "owns s \<Longrightarrow> mset (w_lists s') = mset (w_lists s) \<Longrightarrow> dom (w_heap s') = dom (w_heap s) \<Longrightarrow> owns s'"
  unfolding owns_def by (metis mset_eq_imp_distinct_iff mset_eq_setD)

lemma owns_add: "owns s \<Longrightarrow> a \<notin> dom (w_heap s) \<Longrightarrow> mset (w_lists s') = add_mset a (mset (w_lists s)) \<Longrightarrow>
    dom (w_heap s') = insert a (dom (w_heap s)) \<Longrightarrow> owns s'"
  unfolding owns_def
  by (metis distinct.simps(2) list.simps(15) mset.simps(2) mset_eq_imp_distinct_iff mset_eq_setD)

lemma owns_free:
  assumes "owns s" "add_mset a (mset (w_lists s')) = mset (w_lists s)" "dom (w_heap s') = dom (w_heap s) - {a}"
  shows "owns s'"
proof -
  have m: "mset (a # w_lists s') = mset (w_lists s)" using assms(2) by simp
  then have "distinct (a # w_lists s')" "set (a # w_lists s') = dom (w_heap s)"
    using assms(1) unfolding owns_def by (metis mset_eq_imp_distinct_iff, metis mset_eq_setD)
  with assms(3) show ?thesis by (auto simp: owns_def)
qed

section \<open>Every handler is safe\<close>

lemma record_start_safe:
  assumes "owns s" "set_option (we_mem e) \<inter> dom (w_heap s) = {}"
  shows "safe_handler s (record_start_cmd e p s)"
proof (cases "w_record s = [] \<and> we_mem e \<noteq> None")
  case True
  then obtain a where a: "we_mem e = Some a" "a \<notin> dom (w_heap s)" using assms(2) by auto
  show ?thesis
    by (rule safe_handlerI) (use True a in \<open>simp add: record_start_cmd_def Let_def\<close>,
      rule owns_add [OF assms(1) a(2)], use True in \<open>auto simp: w_lists_def add_action_head_def\<close>)
next
  case False
  then have "record_start_cmd e p s = Some s" by (auto simp: record_start_cmd_def)
  with assms(1) show ?thesis by (auto intro: safe_handlerI)
qed

lemma record_over_safe:
  assumes "owns s" "w_record s = a # as"
  shows "safe_handler s (record_over a p s)"
proof (cases "p = ParamStatus NOTIFY_STATUS_RECORD_STOPPED")
  case True
  show ?thesis
    by (rule safe_handlerI) (use True assms(2) in \<open>simp add: record_over_def\<close>,
      rule owns_move [OF assms(1)], use assms(2) in \<open>auto simp: w_lists_def add_action_tail_def\<close>)
next
  case False
  have "a \<in> dom (w_heap s)" using owns_dom assms by auto
  then show ?thesis
    by (intro safe_handlerI) (use False assms(2) in \<open>simp add: record_over_def free_action_Some\<close>,
      rule owns_free [OF assms(1), of a], use assms(2) in \<open>auto simp: w_lists_def\<close>)
qed

lemma safe_trans:
  assumes "owns t" "quiet_queue s t" "safe_handler t r"
  shows "safe_handler s r"
proof -
  obtain s' where s': "r = Some s'" "owns s'" "quiet_queue t s'" using assms(3) by (auto simp: safe_handler_def)
  have "quiet_queue s s'" using assms(2) s'(3) unfolding quiet_queue_def by (metis Un_iff append_assoc set_append)
  with s' show ?thesis by (auto intro: safe_handlerI)
qed

text \<open>Changing a live action's fields and things outside the lists.\<close>

lemma safe_set:
  assumes "owns s" "w_lists t = w_lists s" "w_heap t = w_heap s" "a \<in> dom (w_heap s)" "quiet_queue s t"
  shows "safe_handler s (set_action a f t)"
proof -
  have "a \<in> dom (w_heap t)" using assms(3,4) by simp
  then show ?thesis
    by (intro safe_handlerI [OF set_action_Some] owns_move [OF assms(1)])
      (use assms in \<open>auto simp: w_lists_def quiet_queue_def\<close>)
qed

lemma record_error_safe:
  assumes "owns s"
  shows "safe_handler s (record_error_cmd p s)"
proof (cases "w_record s")
  case Nil
  then show ?thesis using assms by (auto simp: record_error_cmd_def intro!: safe_handlerI)
next
  case (Cons a as)
  obtain x where x: "w_heap s a = Some x" using owns_dom [OF assms, of a] Cons by auto
  define s1 where "s1 = s\<lparr>w_record_timer := False\<rparr>"
  have s1: "owns s1" "w_record s1 = a # as" "w_heap s1 a = Some x" using assms Cons x
    by (simp_all add: s1_def owns_def w_lists_def)
  have q: "quiet_queue s s1" by (auto simp: s1_def)
  have e: "record_error_cmd p s = (case wa_state x of
             WECHAT_SEND_START_RECORD \<Rightarrow>
               if p = ParamStatus NOTIFY_STATUS_RECORD_EXCEED then do {
                 s2 \<leftarrow> set_action a (\<lambda>x. x\<lparr>wa_state := WECHAT_SEND_FINISH_RECORD\<rparr>) s1;
                 record_over a (ParamStatus NOTIFY_STATUS_RECORD_STOPPED) s2 }
               else do {
                 l \<leftarrow> remove_action (w_record s1) a;
                 s2 \<leftarrow> free_action a (s1\<lparr>w_record := l\<rparr>);
                 Some (wechat_notify WECHAT_CMD_RECORD_START ParamOne s2) }
           | WECHAT_SEND_FINISH_RECORD \<Rightarrow> record_over a p s1
           | _ \<Rightarrow> Some s1)"
    unfolding s1_def using Cons x by (simp add: record_error_cmd_def Let_def)
  have exceed: "safe_handler s1 (do { s2 \<leftarrow> set_action a (\<lambda>x. x\<lparr>wa_state := WECHAT_SEND_FINISH_RECORD\<rparr>) s1;
                 record_over a (ParamStatus NOTIFY_STATUS_RECORD_STOPPED) s2 })"
  proof -
    have "safe_handler s1 (set_action a (\<lambda>x. x\<lparr>wa_state := WECHAT_SEND_FINISH_RECORD\<rparr>) s1)"
      by (rule safe_set [OF s1(1)]) (use s1 in auto)
    then obtain s2 where s2: "set_action a (\<lambda>x. x\<lparr>wa_state := WECHAT_SEND_FINISH_RECORD\<rparr>) s1 = Some s2" "owns s2"
      "quiet_queue s1 s2" by (auto simp: safe_handler_def)
    then have "w_record s2 = a # as" using s1 by (auto simp: set_action_def)
    with safe_trans [OF s2(2,3)] record_over_safe s2 show ?thesis by simp
  qed
  have err: "safe_handler s1 (do { l \<leftarrow> remove_action (w_record s1) a; s2 \<leftarrow> free_action a (s1\<lparr>w_record := l\<rparr>);
                 Some (wechat_notify WECHAT_CMD_RECORD_START ParamOne s2) })"
    by (rule safe_handlerI) (use s1 in \<open>simp add: free_action_def\<close>, rule owns_free [OF s1(1), of a],
      use s1 in \<open>auto simp: w_lists_def\<close>)
  have "safe_handler s1 (record_error_cmd p s)"
    unfolding e using exceed err record_over_safe [OF s1(1,2)] s1(1)
    by (cases "wa_state x") (auto intro: safe_handlerI)
  then show ?thesis using safe_trans q s1(1) by blast
qed

lemma record_stop_safe: "owns s \<Longrightarrow> safe_handler s (record_stop_cmd es s)"
proof (cases "w_record s")
  case (Cons a as)
  assume "owns s"
  with Cons show ?thesis unfolding record_stop_cmd_def
    by (simp, intro safe_set) (auto simp: w_lists_def owns_def)
qed (auto simp: record_stop_cmd_def intro: safe_handlerI)

lemma play_start_safe: "owns s \<Longrightarrow> safe_handler s (play_start_cmd s)"
proof (cases "w_play s")
  case (Cons a as)
  assume o: "owns s"
  then obtain x where "w_heap s a = Some x" using owns_dom [of s a] Cons by auto
  with Cons o show ?thesis unfolding play_start_cmd_def
    by (cases "wa_state x = WECHAT_RECV_FINISH_DOWNLOAD") (simp, intro safe_set, auto simp: w_lists_def intro: safe_handlerI)
qed (auto simp: play_start_cmd_def intro: safe_handlerI)

lemma play_error_safe: "owns s \<Longrightarrow> safe_handler s (play_error_cmd e s)"
proof (cases "w_play s")
  case (Cons a as)
  assume "owns s"
  with Cons show ?thesis unfolding play_error_cmd_def
    by (simp, intro safe_set) (auto simp: w_lists_def owns_def)
qed (auto simp: play_error_cmd_def intro: safe_handlerI)

lemma play_previous_safe: "owns s \<Longrightarrow> safe_handler s (play_previous_cmd s)"
proof (cases "w_previous s")
  case (Cons a as)
  assume o: "owns s"
  then obtain x where "w_heap s a = Some x" using owns_dom [of s a] Cons by auto
  with Cons o show ?thesis unfolding play_previous_cmd_def
    by (auto intro!: safe_handlerI simp: owns_def w_lists_def)
qed (auto simp: play_previous_cmd_def intro: safe_handlerI)

lemma play_finish_safe:
  assumes "owns s"
  shows "safe_handler s (play_finish_cmd e s)"
proof (cases "w_play s")
  case Nil
  with assms show ?thesis by (auto simp: play_finish_cmd_def intro: safe_handlerI)
next
  case (Cons a as)
  obtain x where x: "w_heap s a = Some x" using owns_dom [OF assms, of a] Cons by auto
  define x' where "x' = x\<lparr>wa_state := WECHAT_RECV_FINISH_PLAY\<rparr>"
  define s1 where "s1 = (w_emit [WMsgFinish (wa_msg_id x)] s)\<lparr>w_heap := (w_heap s)(a \<mapsto> x'), w_play := as\<rparr>"
  have d: "distinct (w_previous s)" "set (w_previous s) \<subseteq> dom (w_heap s1)" "a \<notin> set (w_previous s)"
    using assms Cons owns_dom [OF assms] by (auto simp: owns_def w_lists_def s1_def)
  define s2 where "s2 = s1\<lparr>w_heap := w_heap s1 |` (- set (w_previous s)), w_previous := [a]\<rparr>"
  have p: "add_action_previous a s1 = Some s2"
    using free_chain_Some [OF d(1,2)] by (simp add: add_action_previous_def s1_def s2_def)
  have run: "play_finish_cmd e s = Some (if w_play s2 \<noteq> [] then wechat_notify WECHAT_CMD_PLAY_START ParamNull s2
                else w_emit (led_off_if e) s2)"
    using Cons x p by (simp add: play_finish_cmd_def set_action_def x'_def s1_def)
  have "owns s2" using assms Cons x d(3)
    by (auto simp: owns_def w_lists_def s2_def s1_def)
  then have o: "owns (wechat_notify WECHAT_CMD_PLAY_START ParamNull s2)" "owns (w_emit (led_off_if e) s2)"
    by (simp_all add: owns_def w_lists_def)
  have "quiet_queue s s2" by (auto simp: s2_def s1_def)
  then have "quiet_queue s (wechat_notify WECHAT_CMD_PLAY_START ParamNull s2)" "quiet_queue s (w_emit (led_off_if e) s2)"
    by simp (simp add: s2_def s1_def)
  with o run show ?thesis by (cases "w_play s2 = []") (auto intro: safe_handlerI)
qed

lemma upload_start_safe:
  assumes "owns s"
  shows "safe_handler s (upload_start_cmd s)"
proof (cases "w_upload s")
  case Nil
  with assms show ?thesis by (auto simp: upload_start_cmd_def intro: safe_handlerI)
next
  case (Cons a as)
  obtain x where x: "w_heap s a = Some x" using owns_dom [OF assms, of a] Cons by auto
  have "safe_handler s (set_action a (\<lambda>x. x\<lparr>wa_state := WECHAT_SEND_START_UPLOAD\<rparr>) s)"
    by (rule safe_set [OF assms]) (use x in auto)
  then obtain s1 where s1: "set_action a (\<lambda>x. x\<lparr>wa_state := WECHAT_SEND_START_UPLOAD\<rparr>) s = Some s1" "owns s1"
    "quiet_queue s s1" by (auto simp: safe_handler_def)
  have "owns (wechat_notify c p s1)" "owns (w_emit es s1)" "quiet_queue s (w_emit es s1)" for c p es
    using s1(2,3) by (simp_all add: owns_def w_lists_def quiet_queue_def)
  with s1 x Cons assms show ?thesis
    by (cases "wa_state x = WECHAT_SEND_FINISH_RECORD \<or> wa_state x = WECHAT_SEND_START_UPLOAD")
      (auto simp: upload_start_cmd_def intro!: safe_handlerI)
qed

text \<open>The end of a transfer: the action leaves its list and goes to the tail of a list or is freed.\<close>

lemma moved_owns:
  assumes "owns s" "mset (w_lists t) = mset (w_lists s)" "w_heap t = (w_heap s)(a \<mapsto> x)" "a \<in> dom (w_heap s)"
    and "w_cmds t = w_cmds s" "w_queue t = w_queue s"
  shows "owns t \<and> quiet_queue s t"
  using owns_move [OF assms(1,2)] assms(3-6) by auto

lemma freed_owns:
  assumes "owns s" "add_mset a (mset (w_lists t)) = mset (w_lists s)" "w_heap t = (w_heap s)(a := None)"
    and "w_cmds t = w_cmds s" "w_queue t = w_queue s"
  shows "owns t \<and> quiet_queue s t"
  using owns_free [OF assms(1,2)] assms(3-5) by simp

lemma upload_finish_safe:
  assumes "owns s"
  shows "safe_handler s (upload_finish_cmd p s)"
proof (cases "w_upload s")
  case Nil
  with assms show ?thesis by (auto simp: upload_finish_cmd_def intro: safe_handlerI)
next
  case (Cons a as)
  obtain x where x: "w_heap s a = Some x" using owns_dom [OF assms, of a] Cons by auto
  define s1 where "s1 = s\<lparr>w_heap := (w_heap s)(a \<mapsto> x\<lparr>wa_state := WECHAT_SEND_FINISH_UPLOAD\<rparr>), w_upload := as\<rparr>"
  have a: "a \<in> dom (w_heap s1)" by (simp add: s1_def)
  have live: "a \<in> dom (w_heap s)" using x by auto
  define r where "r = (if p = ParamReason LOAD_SUCC then
                   map_option (\<lambda>s. s\<lparr>w_upload_err_cnt := 0\<rparr>) (free_action a (w_emit [WPlay sent_song] s1))
                 else if p = ParamReason FILE_SIZE_ERROR then free_action a s1
                 else (let s' = s1\<lparr>w_upload_err_cnt := w_upload_err_cnt s1 + 1\<rparr>
                       in if retry (w_upload_err_cnt s1)
                          then set_action a (\<lambda>x. x\<lparr>wa_state := WECHAT_SEND_FINISH_RECORD\<rparr>)
                                 (s'\<lparr>w_upload := add_action_tail (w_upload s') a\<rparr>)
                          else free_action a s'))"
  have "\<exists>s3. r = Some s3 \<and> owns s3 \<and> quiet_queue s s3"
  proof -
    consider (S) "p = ParamReason LOAD_SUCC" | (F) "p = ParamReason FILE_SIZE_ERROR"
      | (R) "p \<noteq> ParamReason LOAD_SUCC" "p \<noteq> ParamReason FILE_SIZE_ERROR" "retry (w_upload_err_cnt s)"
      | (D) "p \<noteq> ParamReason LOAD_SUCC" "p \<noteq> ParamReason FILE_SIZE_ERROR" "\<not> retry (w_upload_err_cnt s)" by blast
    then show ?thesis
    proof cases
      case R
      then have "\<exists>s3. r = Some s3 \<and> w_lists s3 = w_lists (s\<lparr>w_upload := as @ [a]\<rparr>) \<and> w_cmds s3 = w_cmds s \<and> w_queue s3 = w_queue s \<and>
          w_heap s3 = (w_heap s)(a \<mapsto> x\<lparr>wa_state := WECHAT_SEND_FINISH_RECORD\<rparr>)"
        using a by (simp add: r_def Let_def set_action_Some) (simp add: s1_def add_action_tail_def w_lists_def)
      moreover have "mset (w_lists (s\<lparr>w_upload := as @ [a]\<rparr>)) = mset (w_lists s)" using Cons by (simp add: w_lists_def)
      ultimately show ?thesis using moved_owns [OF assms _ _ live] by metis
    qed (use a freed_owns [OF assms, of a] Cons in \<open>simp add: r_def Let_def free_action_Some s1_def w_lists_def\<close>)+
  qed
  then obtain s3 where s3: "r = Some s3" "owns s3" "quiet_queue s s3" by blast
  have "upload_finish_cmd p s = Option.bind r (\<lambda>s3. Some (if w_upload s3 \<noteq> [] then wechat_notify WECHAT_CMD_UPLOAD_START ParamNull s3 else s3))"
    using Cons x by (simp add: upload_finish_cmd_def set_action_def r_def s1_def)
  moreover have "owns (wechat_notify c q s3)" for c q using s3(2) by (simp add: owns_def w_lists_def)
  ultimately show ?thesis using s3 by (auto intro!: safe_handlerI)
qed

lemma download_start_safe: "owns s \<Longrightarrow> safe_handler s (download_start_cmd s)"
proof (cases "w_download s")
  case (Cons a as)
  assume o: "owns s"
  then obtain x where "w_heap s a = Some x" using owns_dom [of s a] Cons by auto
  with Cons o show ?thesis unfolding download_start_cmd_def
    by (cases "wa_state x = WECHAT_RECV_IDLE") (simp, intro safe_set, auto simp: w_lists_def intro: safe_handlerI)
qed (auto simp: download_start_cmd_def intro: safe_handlerI)

lemma download_finish_safe:
  assumes "owns s"
  shows "safe_handler s (download_finish_cmd p s)"
proof (cases "w_download s")
  case Nil
  with assms show ?thesis by (auto simp: download_finish_cmd_def intro: safe_handlerI)
next
  case (Cons a as)
  obtain x where x: "w_heap s a = Some x" using owns_dom [OF assms, of a] Cons by auto
  define s1 where "s1 = s\<lparr>w_heap := (w_heap s)(a \<mapsto> x\<lparr>wa_state := WECHAT_RECV_FINISH_DOWNLOAD\<rparr>), w_download := as\<rparr>"
  have a: "a \<in> dom (w_heap s1)" by (simp add: s1_def)
  have live: "a \<in> dom (w_heap s)" using x by auto
  define r where "r = (if p = ParamReason LOAD_SUCC then
                   Some (w_emit [WLedBlink] (s1\<lparr>w_play := add_action_tail (w_play s1) a, w_download_err_cnt := 0\<rparr>))
                 else (let s' = s1\<lparr>w_download_err_cnt := w_download_err_cnt s1 + 1\<rparr>
                       in if retry (w_download_err_cnt s1)
                          then set_action a (\<lambda>x. x\<lparr>wa_state := WECHAT_RECV_IDLE\<rparr>)
                                 (s'\<lparr>w_download := add_action_tail (w_download s') a\<rparr>)
                          else free_action a s'))"
  have "\<exists>s3. r = Some s3 \<and> owns s3 \<and> quiet_queue s s3"
  proof -
    consider (S) "p = ParamReason LOAD_SUCC" | (R) "p \<noteq> ParamReason LOAD_SUCC" "retry (w_download_err_cnt s)"
      | (D) "p \<noteq> ParamReason LOAD_SUCC" "\<not> retry (w_download_err_cnt s)" by blast
    then show ?thesis
    proof cases
      case R
      then have "\<exists>s3. r = Some s3 \<and> w_lists s3 = w_lists (s\<lparr>w_download := as @ [a]\<rparr>) \<and> w_cmds s3 = w_cmds s \<and> w_queue s3 = w_queue s \<and>
          w_heap s3 = (w_heap s)(a \<mapsto> x\<lparr>wa_state := WECHAT_RECV_IDLE\<rparr>)"
        using a by (simp add: r_def Let_def set_action_Some) (simp add: s1_def add_action_tail_def w_lists_def)
      moreover have "mset (w_lists (s\<lparr>w_download := as @ [a]\<rparr>)) = mset (w_lists s)" using Cons by (simp add: w_lists_def)
      ultimately show ?thesis using moved_owns [OF assms _ _ live] by metis
    next
      case S
      then have "\<exists>s3. r = Some s3 \<and> w_lists s3 = w_lists (s\<lparr>w_download := as, w_play := w_play s @ [a]\<rparr>) \<and> w_cmds s3 = w_cmds s \<and>
          w_queue s3 = w_queue s \<and> w_heap s3 = (w_heap s)(a \<mapsto> x\<lparr>wa_state := WECHAT_RECV_FINISH_DOWNLOAD\<rparr>)"
        by (simp add: r_def) (simp add: s1_def add_action_tail_def w_lists_def)
      moreover have "mset (w_lists (s\<lparr>w_download := as, w_play := w_play s @ [a]\<rparr>)) = mset (w_lists s)" using Cons by (simp add: w_lists_def)
      ultimately show ?thesis using moved_owns [OF assms _ _ live] by metis
    next
      case D
      with a freed_owns [OF assms, of a] Cons show ?thesis by (simp add: r_def Let_def free_action_Some s1_def w_lists_def)
    qed
  qed
  then obtain s3 where s3: "r = Some s3" "owns s3" "quiet_queue s s3" by blast
  have "download_finish_cmd p s = Option.bind r (\<lambda>s3. Some (if w_download s3 \<noteq> [] then wechat_notify WECHAT_CMD_DOWNLOAD_START ParamNull s3 else s3))"
    using Cons x by (simp add: download_finish_cmd_def set_action_def r_def s1_def)
  moreover have "owns (wechat_notify c q s3)" for c q using s3(2) by (simp add: owns_def w_lists_def)
  ultimately show ?thesis using s3 by (auto intro!: safe_handlerI)
qed

text \<open>A received message: its buffer is freed or kept, and the action goes to the tail of the downloads.\<close>

lemma recv_msg_safe:
  assumes "owns s" "set_option (we_mem e) \<inter> dom (w_heap s) = {}" "w_cmds s c = Some (text, k)" "good_message j text k"
  shows "\<exists>s'. recv_msg_cmd j e (ParamCmd c) s = Some s' \<and> owns s' \<and>
    (w_cmds s' = w_cmds s \<or> w_cmds s' = (w_cmds s)(c := None)) \<and>
    (\<exists>ns. w_queue s' = w_queue s @ ns \<and> (\<forall>n\<in>set ns. wn_cmd_value n \<notin> news))"
proof -
  have stay: "?thesis" if "recv_msg_cmd j e (ParamCmd c) s = Some s" using that assms(1) by auto
  show ?thesis
  proof (cases "Option.bind (cJSON_Parse j text) (\<lambda>root. cJSON_GetObjectItem j root ''data'')")
    case None
    with assms(3) show ?thesis by (intro stay) (simp add: recv_msg_cmd_def)
  next
    case (Some d)
    then obtain root where root: "cJSON_Parse j text = Some root" "cJSON_GetObjectItem j root ''data'' = Some d"
      by (auto simp: ub_simps)
    show ?thesis
    proof (cases "cJSON_GetObjectItem j d ''play_url'' = None \<or> cJSON_GetObjectItem j d ''id'' = None")
      case True
      with Some assms(3) show ?thesis by (intro stay) (auto simp: recv_msg_cmd_def split: option.splits)
    next
      case False
      then obtain u i where ui: "cJSON_GetObjectItem j d ''play_url'' = Some u" "cJSON_GetObjectItem j d ''id'' = Some i" by auto
      obtain url where url: "cj_valuestring j u = Some url" "CHR ''/'' \<in> set (take (k + 1) url)"
        "min k (length url) < WECHAT_HTTP_ADDRESS_MAX_SIZE"
        using assms(4) root ui unfolding good_message_def by blast
      obtain name where name: "convert_url_to_filename url k = Some name"
        using url(2) by (simp add: convert_url_to_filename_def Let_def)
      obtain x where x: "recv_action (cj_valuestring j i) name url k = Some x" using url(3) by (simp add: recv_action_def)
      show ?thesis
      proof (cases "we_mem e")
        case None
        with Some ui url(1) name assms(1,3) show ?thesis
          by (simp add: recv_msg_cmd_def free_cmd_buffer_def owns_def w_lists_def)
      next
        case mem: (Some a)
        define s1 where "s1 = s\<lparr>w_heap := (w_heap s)(a \<mapsto> x), w_download := add_action_tail (w_download s) a\<rparr>"
        have "owns s1" by (rule owns_add [OF assms(1), of a])
            (use assms(2) mem in \<open>auto simp: s1_def w_lists_def add_action_tail_def\<close>)
        moreover have "recv_msg_cmd j e (ParamCmd c) s = free_cmd_buffer c (wechat_notify WECHAT_CMD_DOWNLOAD_START ParamNull s1)"
          using Some ui url(1) name x mem assms(3) by (simp add: recv_msg_cmd_def s1_def)
        ultimately show ?thesis using assms(3)
          by (auto simp: free_cmd_buffer_def owns_def w_lists_def s1_def wechat_notify_def queue_send_def)
      qed
    qed
  qed
qed

section \<open>The machine is safe\<close>

lemma cmd_buffers_simps [simp]:
  "cmd_buffers [] = []" "cmd_buffers (n # q) = cmd_buffer n @ cmd_buffers q"
  "cmd_buffers (xs @ ys) = cmd_buffers xs @ cmd_buffers ys"
  by (simp_all add: cmd_buffers_def)

lemma cmd_buffer_other [simp]: "wn_cmd_value n \<noteq> WECHAT_CMD_RECV_MSG \<Longrightarrow> cmd_buffer n = []"
  by (simp add: cmd_buffer_def)

lemma cmd_buffer_recv [simp]:
  "wn_cmd_value n = WECHAT_CMD_RECV_MSG \<Longrightarrow> wn_param n = ParamCmd c \<Longrightarrow> cmd_buffer n = [c]"
  by (simp add: cmd_buffer_def)

lemma cmd_buffer_mem: "c \<in> set (cmd_buffer n) \<longleftrightarrow> wn_cmd_value n = WECHAT_CMD_RECV_MSG \<and> wn_param n = ParamCmd c"
  by (cases "wn_cmd_value n = WECHAT_CMD_RECV_MSG"; cases "wn_param n") (auto simp: cmd_buffer_def)

lemma cmd_buffers_quiet: "\<forall>n\<in>set ns. wn_cmd_value n \<notin> news \<Longrightarrow> cmd_buffers ns = []"
  by (induction ns) simp_all

lemma cmd_buffers_mem: "n \<in> set q \<Longrightarrow> wn_cmd_value n = WECHAT_CMD_RECV_MSG \<Longrightarrow> wn_param n = ParamCmd c \<Longrightarrow>
    c \<in> set (cmd_buffers q)"
  unfolding cmd_buffers_def by (simp add: cmd_buffer_mem) blast

lemma cmd_buffers_node: "c \<in> set (cmd_buffers q) \<Longrightarrow>
    \<exists>n\<in>set q. wn_cmd_value n = WECHAT_CMD_RECV_MSG \<and> wn_param n = ParamCmd c"
  unfolding cmd_buffers_def by (simp add: cmd_buffer_mem)

lemma quiet_inv:
  assumes "wechat_inv j s" "owns s'" "quiet_queue s s'"
  shows "wechat_inv j s'"
proof -
  obtain ns where ns: "w_queue s' = w_queue s @ ns" "\<forall>n\<in>set ns. wn_cmd_value n \<notin> news"
    using assms(3) by (auto simp: quiet_queue_def)
  moreover have "w_cmds s' = w_cmds s" using assms(3) by (simp add: quiet_queue_def)
  ultimately show ?thesis using assms(1,2) cmd_buffers_quiet [OF ns(2)] by (auto simp: wechat_inv_def)
qed

lemma inv_queue_front: "wechat_inv j s \<Longrightarrow> w_queue s = n # q \<Longrightarrow> wechat_inv j (s\<lparr>w_queue := q\<rparr>)"
  unfolding wechat_inv_def by (simp add: owns_def w_lists_def)

lemma execute_quiet:
  assumes "owns s" "set_option (we_mem e) \<inter> dom (w_heap s) = {}" "wn_cmd_value n \<noteq> WECHAT_CMD_RECV_MSG"
  shows "safe_handler s (execute_wechat_cmd j e n s)"
  using assms record_start_safe record_error_safe record_stop_safe play_start_safe play_error_safe play_previous_safe
    play_finish_safe upload_start_safe upload_finish_safe download_start_safe download_finish_safe
  by (cases "wn_cmd_value n")
    (auto simp: execute_wechat_cmd_def record_finish_cmd_def record_timeout_cmd_def intro: safe_handlerI)

lemma wechat_task_safe:
  assumes "wechat_inv j s" "set_option (we_mem e) \<inter> dom (w_heap s) = {}"
  shows "\<exists>s'. wechat_task j e s = Some s' \<and> wechat_inv j s'"
proof (cases "w_queue s")
  case Nil
  with assms(1) show ?thesis by (simp add: wechat_task_def)
next
  case (Cons n q)
  define t where "t = s\<lparr>w_queue := q\<rparr>"
  have inv: "wechat_inv j t" unfolding t_def by (rule inv_queue_front [OF assms(1) Cons])
  then have o: "owns t" by (simp add: wechat_inv_def)
  have run: "wechat_task j e s = execute_wechat_cmd j e n t" using Cons by (simp add: wechat_task_def t_def)
  show ?thesis
  proof (cases "wn_cmd_value n = WECHAT_CMD_RECV_MSG")
    case False
    have "safe_handler t (execute_wechat_cmd j e n t)" using execute_quiet [OF o _ False] assms(2) by (simp add: t_def)
    with run quiet_inv [OF inv] show ?thesis by (auto simp: safe_handler_def)
  next
    case True
    then obtain c tx k where c: "wn_param n = ParamCmd c" "w_cmds t c = Some (tx, k)" "good_message j tx k"
      using assms(1) Cons by (auto simp: wechat_inv_def t_def)
    obtain s' where s': "recv_msg_cmd j e (ParamCmd c) t = Some s'" "owns s'"
      "w_cmds s' = w_cmds t \<or> w_cmds s' = (w_cmds t)(c := None)"
      "\<exists>ns. w_queue s' = w_queue t @ ns \<and> (\<forall>n\<in>set ns. wn_cmd_value n \<notin> news)"
      using recv_msg_safe [OF o _ c(2,3), of e] assms(2) by (auto simp: t_def)
    obtain ns where ns: "w_queue s' = q @ ns" "\<forall>n\<in>set ns. wn_cmd_value n \<notin> news"
      using s'(4) by (auto simp: t_def)
    have "c \<notin> set (cmd_buffers q)" using assms(1) Cons True c(1) by (auto simp: wechat_inv_def)
    then have "wechat_inv j s'" using inv s'(2,3) ns cmd_buffers_quiet [OF ns(2)] cmd_buffers_mem [of _ q]
      by (fastforce simp: wechat_inv_def t_def)
    with run True c(1) s'(1) show ?thesis by (simp add: execute_wechat_cmd_def)
  qed
qed

lemma inv_same: "wechat_inv j s \<Longrightarrow> w_heap s' = w_heap s \<Longrightarrow> w_lists s' = w_lists s \<Longrightarrow> quiet_queue s s' \<Longrightarrow> wechat_inv j s'"
  by (rule quiet_inv) (auto simp: wechat_inv_def owns_def)

interpretation wechat: safe_machine "wechat_step j" "wechat_inv j" "wechat_ok j" for j
proof unfold_locales
  fix s op
  assume inv: "wechat_inv j s" and ok: "wechat_ok j op s"
  show "\<exists>s'. wechat_step j op s = Some s' \<and> wechat_inv j s'"
  proof (cases op)
    case (WTask e)
    with inv ok wechat_task_safe show ?thesis by simp
  next
    case (WCommand push tx n mem)
    show ?thesis
    proof (cases "mem = None \<or> \<not> push")
      case True
      with WCommand inv show ?thesis by (auto simp: wechat_command_cb_def split: option.splits)
    next
      case False
      then obtain c where c: "mem = Some c" "push" by auto
      have "c \<notin> set (cmd_buffers (w_queue s))"
      proof
        assume "c \<in> set (cmd_buffers (w_queue s))"
        from cmd_buffers_node [OF this] obtain n where "n \<in> set (w_queue s)" "wn_cmd_value n = WECHAT_CMD_RECV_MSG"
          "wn_param n = ParamCmd c" by blast
        with inv have "c \<in> dom (w_cmds s)" unfolding wechat_inv_def by (metis domI wechat_param.inject(3))
        with ok WCommand c show False by simp
      qed
      with WCommand c inv ok show ?thesis
        by (fastforce simp: wechat_command_cb_def wechat_inv_def owns_def w_lists_def wechat_notify_def queue_send_def)
    qed
  next
    case (WKey k wifi)
    have "wechat_inv j (wechat_keyprocess k wifi s)"
      by (rule inv_same [OF inv]; cases k) (simp_all add: wechat_keyprocess_def Let_def w_lists_def)
    with WKey show ?thesis by simp
  next
    case WKeyTimer
    have "wechat_inv j (if w_key_timer s then wechat_keytimer_cb (s\<lparr>w_key_timer := False\<rparr>) else s)"
      by (rule inv_same [OF inv]) (simp_all add: wechat_keytimer_cb_def w_lists_def)
    with WKeyTimer show ?thesis by simp
  next
    case WRecordTick
    have "wechat_inv j (if w_record_timer s then wechat_timer_cb s else s)"
      by (rule inv_same [OF inv]) (simp_all add: wechat_timer_cb_def Let_def w_lists_def)
    with WRecordTick show ?thesis by simp
  next
    case (WPlayStatus st)
    have "wechat_inv j (wechat_audio_play_cb st s)"
      by (rule inv_same [OF inv]; cases st) (simp_all add: wechat_audio_play_cb_def w_lists_def)
    with WPlayStatus show ?thesis by simp
  next
    case (WRecordStatus st)
    have "wechat_inv j (wechat_audio_record_cb st s)"
      by (rule inv_same [OF inv]) (simp_all add: wechat_audio_record_cb_def w_lists_def)
    with WRecordStatus show ?thesis by simp
  next
    case (WUploaded r)
    have "wechat_inv j (upload_callback r s)"
      by (rule inv_same [OF inv]) (simp_all add: upload_callback_def w_lists_def)
    with WUploaded show ?thesis by simp
  next
    case (WDownloaded r)
    have "wechat_inv j (wechat_download_callback r s)" using inv
      by (auto simp: wechat_download_callback_def wechat_inv_def owns_def w_lists_def wechat_notify_def queue_send_def)
    with WDownloaded show ?thesis by simp
  qed
qed

lemma wechat_inv_zero: "wechat_inv j wechat_zero"
  by (simp add: wechat_inv_def wechat_zero_def owns_def w_lists_def)

end
