(* ===== verification/Wechat_Props.thy ===== *)
theory Wechat_Props
  imports Wechat_Inv
begin

text \<open>
  The messages are finished in the order they came, and how an upload is lost.
\<close>

section \<open>Messages in order\<close>

fun finished :: "wechat_event list \<Rightarrow> string list" where
  "finished [] = []"
| "finished (WMsgFinish i # es) = i # finished es"
| "finished (e # es) = finished es"

definition id_of :: "(addr \<rightharpoonup> wechat_action_t) \<Rightarrow> addr \<Rightarrow> string" where
  "id_of h a = (case h a of None \<Rightarrow> [] | Some x \<Rightarrow> wa_msg_id x)"

text \<open>The messages that wait, those to play before those to download; all messages ever, by their place.\<close>

definition inbox :: "wechat \<Rightarrow> string list" where
  "inbox s = map (id_of (w_heap s)) (w_play s @ w_download s)"

definition all_messages :: "wechat \<Rightarrow> string list" where
  "all_messages s = finished (w_trace s) @ inbox s"

text \<open>The identifier of the message that a step takes in, if it takes one.\<close>

definition message_id :: "'j cjson \<Rightarrow> string \<Rightarrow> string list" where
  "message_id j tx =
     (case Option.bind (cJSON_Parse j tx) (\<lambda>root. cJSON_GetObjectItem j root ''data'') of
        None \<Rightarrow> []
      | Some d \<Rightarrow>
          (case (cJSON_GetObjectItem j d ''play_url'', cJSON_GetObjectItem j d ''id'') of
             (Some u, Some i) \<Rightarrow> [case cj_valuestring j i of None \<Rightarrow> [] | Some v \<Rightarrow> take 30 v]
           | _ \<Rightarrow> []))"

definition taken_in :: "'j cjson \<Rightarrow> wechat_op \<Rightarrow> wechat \<Rightarrow> string list" where
  "taken_in j op s =
     (case op of
        WTask e \<Rightarrow>
          (case w_queue s of
             [] \<Rightarrow> []
           | n # q \<Rightarrow>
               if wn_cmd_value n = WECHAT_CMD_RECV_MSG \<and> we_mem e \<noteq> None then
                 (case wn_param n of
                    ParamCmd c \<Rightarrow> (case w_cmds s c of None \<Rightarrow> [] | Some t \<Rightarrow> message_id j (fst t))
                  | _ \<Rightarrow> [])
               else [])
      | _ \<Rightarrow> [])"

fun taken_in_run :: "'j cjson \<Rightarrow> wechat_op list \<Rightarrow> wechat \<Rightarrow> string list" where
  "taken_in_run j [] s = []"
| "taken_in_run j (op # ops) s =
     taken_in j op s @ (case wechat_step j op s of None \<Rightarrow> [] | Some s' \<Rightarrow> taken_in_run j ops s')"

text \<open>No download fails.\<close>

fun no_failed_download :: "wechat_op \<Rightarrow> bool" where
  "no_failed_download (WDownloaded r) = (r = LOAD_SUCC)"
| "no_failed_download op = True"

definition good_node :: "wechat_cmd_node \<Rightarrow> bool" where
  "good_node n \<longleftrightarrow> (wn_cmd_value n = WECHAT_CMD_DOWNLOAD_FINISH \<longrightarrow> wn_param n = ParamReason LOAD_SUCC) \<and>
     wn_cmd_value n \<noteq> WECHAT_CMD_DOWNLOAD_ERROR"

lemma finished_append [simp]: "finished (xs @ ys) = finished xs @ finished ys"
  by (induction xs rule: finished.induct) simp_all

lemma same_messages:
  assumes "w_play s' = w_play s" "w_download s' = w_download s" "finished (w_trace s') = finished (w_trace s)"
    and "\<And>a. a \<in> set (w_play s @ w_download s) \<Longrightarrow> id_of (w_heap s') a = id_of (w_heap s) a"
  shows "all_messages s' = all_messages s"
  using assms by (auto simp: all_messages_def inbox_def)

lemma id_of_simps [simp]:
  "id_of (h(a \<mapsto> x)) b = (if b = a then wa_msg_id x else id_of h b)"
  "id_of (h(a := None)) b = (if b = a then [] else id_of h b)"
  by (simp_all add: id_of_def)

lemma id_of_live: "h a = Some x \<Longrightarrow> id_of h a = wa_msg_id x"
  by (simp add: id_of_def)

lemma disjoint_lists:
  "owns s \<Longrightarrow> a \<in> set (w_record s) \<union> set (w_upload s) \<union> set (w_previous s) \<Longrightarrow> a \<notin> set (w_play s) \<and> a \<notin> set (w_download s)"
  by (auto simp: owns_def w_lists_def)

text \<open>What a set of a state does to identifiers: nothing.\<close>

definition msgs_kept :: "wechat \<Rightarrow> wechat \<Rightarrow> bool" where
  "msgs_kept s s' \<longleftrightarrow> w_play s' = w_play s \<and> w_download s' = w_download s \<and>
     finished (w_trace s') = finished (w_trace s) \<and>
     (\<forall>a. a \<in> set (w_play s @ w_download s) \<longrightarrow> id_of (w_heap s') a = id_of (w_heap s) a)"

lemma msgs_kept_all: "msgs_kept s s' \<Longrightarrow> all_messages s' = all_messages s"
  by (rule same_messages) (auto simp: msgs_kept_def)

lemma msgs_kept_refl [simp]: "msgs_kept s s"
  by (simp add: msgs_kept_def)

lemma msgs_kept_trans: "msgs_kept s t \<Longrightarrow> msgs_kept t u \<Longrightarrow> msgs_kept s u"
  by (simp add: msgs_kept_def)

lemma set_action_kept:
  "set_action a f s = Some s' \<Longrightarrow> (\<And>x. wa_msg_id (f x) = wa_msg_id x) \<Longrightarrow> msgs_kept s s'"
  by (auto simp: set_action_def msgs_kept_def id_of_live split: option.splits)

lemma free_action_kept:
  "free_action a s = Some s' \<Longrightarrow> a \<notin> set (w_play s) \<Longrightarrow> a \<notin> set (w_download s) \<Longrightarrow> msgs_kept s s'"
  by (auto simp: free_action_def msgs_kept_def split: option.splits)

lemma notify_kept [simp]: "msgs_kept s (wechat_notify c p t) = msgs_kept s t"
  by (simp add: msgs_kept_def)

lemma emit_kept: "finished es = [] \<Longrightarrow> msgs_kept s (w_emit es t) = msgs_kept s t"
  by (simp add: msgs_kept_def)

text \<open>The places outside the two lists do not matter.\<close>

lemma msgs_kept_frame [simp]:
  "msgs_kept s (t\<lparr>w_record := l\<rparr>) = msgs_kept s t" "msgs_kept s (t\<lparr>w_upload := l\<rparr>) = msgs_kept s t"
  "msgs_kept s (t\<lparr>w_record_timer := b\<rparr>) = msgs_kept s t" "msgs_kept s (t\<lparr>w_upload_err_cnt := c\<rparr>) = msgs_kept s t"
  "msgs_kept s (t\<lparr>w_queue := q\<rparr>) = msgs_kept s t" "msgs_kept s (t\<lparr>w_cmds := m\<rparr>) = msgs_kept s t"
  by (simp_all add: msgs_kept_def)

lemma record_start_kept:
  assumes "owns s" "set_option (we_mem e) \<inter> dom (w_heap s) = {}" "record_start_cmd e p s = Some s'"
  shows "msgs_kept s s'"
proof (cases "w_record s = [] \<and> we_mem e \<noteq> None")
  case True
  then obtain a where a: "we_mem e = Some a" "a \<notin> dom (w_heap s)" using assms(2) by auto
  then have "a \<notin> set (w_play s)" "a \<notin> set (w_download s)" using owns_dom [OF assms(1), of a] by auto
  with a True assms(3) show ?thesis by (auto simp: record_start_cmd_def Let_def msgs_kept_def)
next
  case False
  with assms(3) have "s' = s" by (auto simp: record_start_cmd_def split: if_splits)
  then show ?thesis by simp
qed

lemma record_over_kept:
  assumes "owns s" "a \<in> set (w_record s)" "record_over a p s = Some s'"
  shows "msgs_kept s s'"
proof -
  obtain l where l: "remove_action (w_record s) a = Some l" using assms(3) by (auto simp: record_over_def ub_simps)
  have "msgs_kept (s\<lparr>w_record := l\<rparr>) s'" if "free_action a (s\<lparr>w_record := l\<rparr>) = Some s'"
    using free_action_kept [OF that] disjoint_lists [OF assms(1), of a] assms(2) by simp
  moreover have "msgs_kept s (s\<lparr>w_record := l\<rparr>)" by simp
  ultimately have free: "msgs_kept s s'" if "free_action a (s\<lparr>w_record := l\<rparr>) = Some s'"
    using that msgs_kept_trans by blast
  show ?thesis using assms(3) l free by (auto simp: record_over_def Let_def split: if_splits)
qed

lemma set_action_owns:
  assumes "owns s" "set_action a f s = Some s'"
  shows "owns s' \<and> w_record s' = w_record s"
proof -
  obtain x where x: "w_heap s a = Some x" "s' = s\<lparr>w_heap := (w_heap s)(a \<mapsto> f x)\<rparr>"
    using assms(2) by (auto simp: set_action_def split: option.splits)
  have "owns s'" by (rule owns_move [OF assms(1)]) (use x in \<open>auto simp: w_lists_def\<close>)
  with x(2) show ?thesis by simp
qed

lemma record_error_kept:
  assumes "owns s" "record_error_cmd p s = Some s'"
  shows "msgs_kept s s'"
proof (cases "w_record s")
  case (Cons a as)
  obtain x where x: "w_heap s a = Some x" using owns_dom [OF assms(1), of a] Cons by auto
  define s1 where "s1 = s\<lparr>w_record_timer := False\<rparr>"
  have s1: "owns s1" "a \<in> set (w_record s1)" "msgs_kept s s1" "w_record s1 = a # as" using assms(1) Cons
    by (simp_all add: s1_def owns_def w_lists_def)
  have "msgs_kept s1 s'"
  proof (cases "wa_state x")
    case WECHAT_SEND_START_RECORD
    show ?thesis
    proof (cases "p = ParamStatus NOTIFY_STATUS_RECORD_EXCEED")
      case True
      then obtain s2 where s2: "set_action a (\<lambda>x. x\<lparr>wa_state := WECHAT_SEND_FINISH_RECORD\<rparr>) s1 = Some s2"
        "record_over a (ParamStatus NOTIFY_STATUS_RECORD_STOPPED) s2 = Some s'"
        using assms(2) Cons x WECHAT_SEND_START_RECORD by (auto simp: record_error_cmd_def Let_def s1_def ub_simps)
      have "owns s2" "a \<in> set (w_record s2)" using set_action_owns [OF s1(1) s2(1)] s1(2) by simp_all
      from record_over_kept [OF this s2(2)] have "msgs_kept s2 s'" .
      moreover have "msgs_kept s1 s2" by (rule set_action_kept [OF s2(1)]) simp
      ultimately show ?thesis using msgs_kept_trans by blast
    next
      case False
      then obtain s2 where s2: "free_action a (s1\<lparr>w_record := as\<rparr>) = Some s2"
        "s' = wechat_notify WECHAT_CMD_RECORD_START ParamOne s2"
        using assms(2) Cons x WECHAT_SEND_START_RECORD by (auto simp: record_error_cmd_def Let_def s1_def ub_simps)
      have "msgs_kept (s1\<lparr>w_record := as\<rparr>) s2"
        using free_action_kept [OF s2(1)] disjoint_lists [OF s1(1), of a] s1(2) by simp
      moreover have "msgs_kept s1 (s1\<lparr>w_record := as\<rparr>)" by simp
      ultimately have "msgs_kept s1 s2" using msgs_kept_trans by blast
      then show ?thesis using s2(2) by simp
    qed
  qed (use assms(2) Cons x record_over_kept [OF s1(1,2)] in \<open>auto simp: record_error_cmd_def Let_def s1_def\<close>)
  with s1(3) show ?thesis by (rule msgs_kept_trans)
qed (use assms(2) in \<open>simp add: record_error_cmd_def\<close>)

text \<open>A handler that sets an action's state after some calls.\<close>

lemma set_after_kept:
  "set_action a f t = Some s' \<Longrightarrow> msgs_kept s t \<Longrightarrow> (\<And>x. wa_msg_id (f x) = wa_msg_id x) \<Longrightarrow> msgs_kept s s'"
  using set_action_kept msgs_kept_trans by blast

lemma record_stop_kept: "record_stop_cmd es s = Some s' \<Longrightarrow> finished es = [] \<Longrightarrow> msgs_kept s s'"
  by (auto simp: record_stop_cmd_def emit_kept split: list.splits intro: set_after_kept)

lemma play_start_kept: "play_start_cmd s = Some s' \<Longrightarrow> msgs_kept s s'"
  by (auto simp: play_start_cmd_def emit_kept ub_simps split: list.splits if_splits intro: set_after_kept)

lemma led_off_quiet [simp]: "finished (led_off_if e) = []"
  by (simp add: led_off_if_def)

lemma play_error_kept: "play_error_cmd e s = Some s' \<Longrightarrow> msgs_kept s s'"
  by (auto simp: play_error_cmd_def emit_kept split: list.splits intro: set_after_kept)

lemma play_previous_kept: "play_previous_cmd s = Some s' \<Longrightarrow> msgs_kept s s'"
  by (auto simp: play_previous_cmd_def emit_kept ub_simps split: list.splits)

lemma download_start_kept: "download_start_cmd s = Some s' \<Longrightarrow> msgs_kept s s'"
  by (auto simp: download_start_cmd_def emit_kept ub_simps split: list.splits if_splits intro: set_after_kept)

lemma upload_start_kept:
  assumes "upload_start_cmd s = Some s'"
  shows "msgs_kept s s'"
proof (cases "w_upload s")
  case (Cons a as)
  have k: "msgs_kept s s1" if "set_action a (\<lambda>x. x\<lparr>wa_state := WECHAT_SEND_START_UPLOAD\<rparr>) s = Some s1" for s1
    by (rule set_action_kept [OF that]) simp
  obtain x where x: "w_heap s a = Some x" using assms Cons by (auto simp: upload_start_cmd_def ub_simps)
  show ?thesis
  proof (cases "wa_state x = WECHAT_SEND_FINISH_RECORD \<or> wa_state x = WECHAT_SEND_START_UPLOAD")
    case True
    then obtain s1 where s1: "set_action a (\<lambda>x. x\<lparr>wa_state := WECHAT_SEND_START_UPLOAD\<rparr>) s = Some s1"
      "s' = (if w_record_time s1 div 10 = 0
             then wechat_notify WECHAT_CMD_UPLOAD_FINISH (ParamReason FILE_SIZE_ERROR) s1
             else w_emit ((if length (duration_text (w_record_time s1)) < 12 then []
                           else [WOverrun (duration_text (w_record_time s1))]) @
                          [WUpload (upload_request x (w_record_time s1))]) s1)"
      using assms Cons x by (simp add: upload_start_cmd_def set_action_def)
    show ?thesis unfolding s1(2) using k [OF s1(1)] by (simp add: emit_kept)
  next
    case False
    with assms Cons x show ?thesis by (simp add: upload_start_cmd_def)
  qed
qed (use assms in \<open>simp add: upload_start_cmd_def\<close>)

lemma upload_finish_kept:
  assumes "owns s" "upload_finish_cmd p s = Some s'"
  shows "msgs_kept s s'"
proof (cases "w_upload s")
  case (Cons a as)
  have na: "a \<notin> set (w_play s)" "a \<notin> set (w_download s)" using disjoint_lists [OF assms(1), of a] Cons by auto
  obtain s1 where s1: "set_action a (\<lambda>x. x\<lparr>wa_state := WECHAT_SEND_FINISH_UPLOAD\<rparr>) s = Some s1"
    using assms(2) Cons by (auto simp: upload_finish_cmd_def ub_simps)
  have k: "msgs_kept s s1" by (rule set_action_kept [OF s1]) simp
  have f: "w_upload s1 = w_upload s" using s1 by (auto simp: set_action_def split: option.splits)
  have fr: "msgs_kept s u" if "free_action a t = Some u" "msgs_kept s t" for t u
  proof -
    have "msgs_kept t u" using free_action_kept [OF that(1)] that(2) na by (simp add: msgs_kept_def)
    with that(2) show ?thesis by (rule msgs_kept_trans)
  qed
  define t where "t = s1\<lparr>w_upload := as\<rparr>"
  have t: "msgs_kept s t" using k by (simp add: t_def)
  define t' where "t' = t\<lparr>w_upload_err_cnt := w_upload_err_cnt s1 + 1\<rparr>"
  have t': "msgs_kept s t'" "msgs_kept s (t'\<lparr>w_upload := l\<rparr>)" "msgs_kept s (w_emit [WPlay sent_song] t)" for l
    using t by (simp_all add: t'_def emit_kept)
  define r where "r = (if p = ParamReason LOAD_SUCC then
                   map_option (\<lambda>s. s\<lparr>w_upload_err_cnt := 0\<rparr>) (free_action a (w_emit [WPlay sent_song] t))
                 else if p = ParamReason FILE_SIZE_ERROR then free_action a t
                 else (if retry (w_upload_err_cnt s1)
                          then set_action a (\<lambda>x. x\<lparr>wa_state := WECHAT_SEND_FINISH_RECORD\<rparr>)
                                 (t'\<lparr>w_upload := add_action_tail as a\<rparr>)
                          else free_action a t'))"
  have "upload_finish_cmd p s = Option.bind r (\<lambda>s3. Some (if w_upload s3 \<noteq> [] then wechat_notify WECHAT_CMD_UPLOAD_START ParamNull s3 else s3))"
    unfolding r_def t_def t'_def using Cons s1 f by (simp add: upload_finish_cmd_def Let_def)
  with assms(2) obtain s3 where s3: "r = Some s3"
    "s' = (if w_upload s3 \<noteq> [] then wechat_notify WECHAT_CMD_UPLOAD_START ParamNull s3 else s3)"
    by (auto simp only: bind_Some_ex option.inject)
  have "msgs_kept s s3"
  proof (cases "p = ParamReason LOAD_SUCC")
    case True
    then obtain z where "free_action a (w_emit [WPlay sent_song] t) = Some z" "s3 = z\<lparr>w_upload_err_cnt := 0\<rparr>"
      using s3(1) unfolding r_def by auto
    with fr [OF _ t'(3)] show ?thesis by simp
  next
    case False
    with s3(1) [unfolded r_def] fr [OF _ t] fr [OF _ t'(1)] set_after_kept [OF _ t'(2)] show ?thesis by (simp split: if_splits)
  qed
  then show ?thesis using s3(2) by simp
qed (use assms(2) in \<open>simp add: upload_finish_cmd_def\<close>)

lemma play_finish_messages:
  assumes "owns s" "play_finish_cmd e s = Some s'"
  shows "all_messages s' = all_messages s"
proof (cases "w_play s")
  case (Cons a as)
  obtain x where x: "w_heap s a = Some x" using owns_dom [OF assms(1), of a] Cons by auto
  define x' where "x' = x\<lparr>wa_state := WECHAT_RECV_FINISH_PLAY\<rparr>"
  define s1 where "s1 = (w_emit [WMsgFinish (wa_msg_id x)] s)\<lparr>w_heap := (w_heap s)(a \<mapsto> x'), w_play := as\<rparr>"
  have o: "distinct (w_previous s)" "set (w_previous s) \<subseteq> dom (w_heap s1)"
    using assms(1) owns_dom [OF assms(1)] by (auto simp: owns_def w_lists_def s1_def)
  have d: "b \<notin> set (w_previous s) \<and> b \<noteq> a" if "b \<in> set as \<union> set (w_download s)" for b
    using assms(1) Cons that by (auto simp: owns_def w_lists_def)
  define s2 where "s2 = s1\<lparr>w_heap := w_heap s1 |` (- set (w_previous s)), w_previous := [a]\<rparr>"
  have "add_action_previous a s1 = Some s2"
    using free_chain_Some [OF o] by (simp add: add_action_previous_def s1_def s2_def)
  then have "s' = (if w_play s2 \<noteq> [] then wechat_notify WECHAT_CMD_PLAY_START ParamNull s2
                else w_emit (led_off_if e) s2)"
    using assms(2) Cons x by (simp add: play_finish_cmd_def set_action_def x'_def s1_def)
  then have "all_messages s' = all_messages s2" by (simp add: all_messages_def inbox_def)
  also have "map (id_of (w_heap s2)) (as @ w_download s) = map (id_of (w_heap s)) (as @ w_download s)"
    using d by (auto simp: s2_def s1_def id_of_def restrict_map_def)
  then have "all_messages s2 = all_messages s"
    using Cons x by (simp add: all_messages_def inbox_def id_of_live) (simp add: s2_def s1_def)
  finally show ?thesis .
qed (use assms(2) in \<open>simp add: play_finish_cmd_def\<close>)

lemma download_finish_messages:
  assumes "owns s" "download_finish_cmd (ParamReason LOAD_SUCC) s = Some s'"
  shows "all_messages s' = all_messages s"
proof (cases "w_download s")
  case (Cons a as)
  obtain x where x: "w_heap s a = Some x" using owns_dom [OF assms(1), of a] Cons by auto
  define s3 where "s3 = w_emit [WLedBlink] (s\<lparr>w_heap := (w_heap s)(a \<mapsto> x\<lparr>wa_state := WECHAT_RECV_FINISH_DOWNLOAD\<rparr>),
      w_download := as, w_play := w_play s @ [a], w_download_err_cnt := 0\<rparr>)"
  have "s' = (if w_download s3 \<noteq> [] then wechat_notify WECHAT_CMD_DOWNLOAD_START ParamNull s3 else s3)"
    using assms(2) Cons x by (cases "as = []") (auto simp: download_finish_cmd_def set_action_def s3_def add_action_tail_def Let_def)
  then have "all_messages s' = all_messages s3" by (simp add: all_messages_def inbox_def)
  also have "id_of (w_heap s3) = id_of (w_heap s)" using x by (simp add: s3_def fun_eq_iff id_of_live)
  then have "all_messages s3 = all_messages s"
    using Cons by (simp add: all_messages_def inbox_def) (simp add: s3_def)
  finally show ?thesis .
qed (use assms(2) in \<open>simp add: download_finish_cmd_def\<close>)

lemma recv_msg_messages:
  assumes "owns s" "set_option (we_mem e) \<inter> dom (w_heap s) = {}" "w_cmds s c = Some (tx, k)" "good_message j tx k"
    and "recv_msg_cmd j e (ParamCmd c) s = Some s'"
  shows "all_messages s' = all_messages s @ (if we_mem e = None then [] else message_id j tx)"
proof (cases "Option.bind (cJSON_Parse j tx) (\<lambda>root. cJSON_GetObjectItem j root ''data'')")
  case None
  with assms(3,5) show ?thesis by (simp add: recv_msg_cmd_def message_id_def)
next
  case (Some d)
  show ?thesis
  proof (cases "cJSON_GetObjectItem j d ''play_url'' = None \<or> cJSON_GetObjectItem j d ''id'' = None")
    case True
    with Some assms(3,5) show ?thesis by (auto simp: recv_msg_cmd_def message_id_def split: option.splits)
  next
    case False
    then obtain u i where ui: "cJSON_GetObjectItem j d ''play_url'' = Some u" "cJSON_GetObjectItem j d ''id'' = Some i" by auto
    obtain root where "cJSON_Parse j tx = Some root" "cJSON_GetObjectItem j root ''data'' = Some d"
      using Some by (auto simp: ub_simps)
    with assms(4) ui obtain url where url: "cj_valuestring j u = Some url" "CHR ''/'' \<in> set (take (k + 1) url)"
      "min k (length url) < WECHAT_HTTP_ADDRESS_MAX_SIZE" unfolding good_message_def by blast
    obtain name where name: "convert_url_to_filename url k = Some name"
      using url(2) by (simp add: convert_url_to_filename_def Let_def)
    obtain x where x: "recv_action (cj_valuestring j i) name url k = Some x"
      "wa_msg_id x = (case cj_valuestring j i of None \<Rightarrow> [] | Some v \<Rightarrow> take 30 v)"
      using url(3) by (auto simp: recv_action_def)
    have m: "message_id j tx = [wa_msg_id x]" using Some ui x(2) by (simp add: message_id_def)
    show ?thesis
    proof (cases "we_mem e")
      case None
      with Some ui url(1) name assms(3,5) show ?thesis
        by (auto simp: recv_msg_cmd_def free_cmd_buffer_def all_messages_def inbox_def)
    next
      case mem: (Some a)
      have "a \<notin> dom (w_heap s)" using mem assms(2) by auto
      then have na: "a \<notin> set (w_play s)" "a \<notin> set (w_download s)" using owns_dom [OF assms(1), of a] by auto
      define s1 where "s1 = s\<lparr>w_heap := (w_heap s)(a \<mapsto> x), w_download := add_action_tail (w_download s) a\<rparr>"
      have "recv_msg_cmd j e (ParamCmd c) s = free_cmd_buffer c (wechat_notify WECHAT_CMD_DOWNLOAD_START ParamNull s1)"
        using Some ui url(1) name x mem assms(3) by (simp add: recv_msg_cmd_def s1_def)
      with assms(5) have "all_messages s' = all_messages s1"
        by (auto simp: free_cmd_buffer_def all_messages_def inbox_def split: if_splits)
      also have "all_messages s1 = all_messages s @ [wa_msg_id x]"
        using na by (auto simp: all_messages_def inbox_def s1_def add_action_tail_def)
      finally show ?thesis using m mem by simp
    qed
  qed
qed

text \<open>A round of the task and the messages.\<close>

lemma task_nodes:
  assumes "wechat_inv j s" "set_option (we_mem e) \<inter> dom (w_heap s) = {}" "w_queue s = n # q" "wechat_task j e s = Some s'"
  shows "\<exists>ns. w_queue s' = q @ ns \<and> (\<forall>n\<in>set ns. wn_cmd_value n \<notin> news)"
proof -
  define t where "t = s\<lparr>w_queue := q\<rparr>"
  have o: "owns t" "set_option (we_mem e) \<inter> dom (w_heap t) = {}"
    using inv_queue_front [OF assms(1,3)] assms(2) by (simp_all add: t_def wechat_inv_def)
  have run: "execute_wechat_cmd j e n t = Some s'" using assms(3,4) by (simp add: wechat_task_def t_def)
  show ?thesis
  proof (cases "wn_cmd_value n = WECHAT_CMD_RECV_MSG")
    case False
    then obtain u where "execute_wechat_cmd j e n t = Some u" "quiet_queue t u"
      using execute_quiet [OF o False, of j] by (auto simp: safe_handler_def)
    with run show ?thesis by (auto simp: quiet_queue_def t_def)
  next
    case True
    then obtain c tx k where c: "wn_param n = ParamCmd c" "w_cmds t c = Some (tx, k)" "good_message j tx k"
      using assms(1,3) by (auto simp: wechat_inv_def t_def)
    with recv_msg_safe [OF o(1,2) c(2,3)] run True show ?thesis by (auto simp: execute_wechat_cmd_def t_def)
  qed
qed

lemma quiet_command_kept:
  assumes "owns s" "set_option (we_mem e) \<inter> dom (w_heap s) = {}" "wn_cmd_value n \<noteq> WECHAT_CMD_RECV_MSG" "good_node n"
    and "execute_wechat_cmd j e n s = Some s'"
  shows "all_messages s' = all_messages s"
proof -
  note kept = record_start_kept [OF assms(1,2)] record_error_kept [OF assms(1)] record_stop_kept play_start_kept
    play_error_kept play_previous_kept upload_start_kept upload_finish_kept [OF assms(1)] download_start_kept
  show ?thesis
    using assms(3-5) kept [THEN msgs_kept_all] play_finish_messages [OF assms(1)] download_finish_messages [OF assms(1)]
    by (cases "wn_cmd_value n")
      (simp_all add: execute_wechat_cmd_def record_finish_cmd_def record_timeout_cmd_def good_node_def)
qed

lemma task_messages:
  assumes "wechat_inv j s" "set_option (we_mem e) \<inter> dom (w_heap s) = {}" "\<forall>n\<in>set (w_queue s). good_node n"
    and "wechat_task j e s = Some s'"
  shows "all_messages s' = all_messages s @ taken_in j (WTask e) s \<and> (\<forall>n\<in>set (w_queue s'). good_node n)"
proof (cases "w_queue s")
  case Nil
  with assms(3,4) show ?thesis by (simp add: wechat_task_def taken_in_def)
next
  case (Cons n q)
  define t where "t = s\<lparr>w_queue := q\<rparr>"
  have o: "owns t" "set_option (we_mem e) \<inter> dom (w_heap t) = {}"
    using inv_queue_front [OF assms(1) Cons] assms(2) by (simp_all add: t_def wechat_inv_def)
  have run: "execute_wechat_cmd j e n t = Some s'" using Cons assms(4) by (simp add: wechat_task_def t_def)
  have m: "all_messages t = all_messages s" by (simp add: t_def all_messages_def inbox_def)
  have "all_messages s' = all_messages s @ taken_in j (WTask e) s"
  proof (cases "wn_cmd_value n = WECHAT_CMD_RECV_MSG")
    case False
    with quiet_command_kept [OF o False _ run] m Cons assms(3) show ?thesis by (simp add: taken_in_def)
  next
    case True
    then obtain c tx k where c: "wn_param n = ParamCmd c" "w_cmds t c = Some (tx, k)" "good_message j tx k"
      using assms(1) Cons by (auto simp: wechat_inv_def t_def)
    from recv_msg_messages [OF o c(2,3)] run True c m Cons show ?thesis
      by (simp add: execute_wechat_cmd_def taken_in_def t_def)
  qed
  moreover have "\<forall>n\<in>set (w_queue s'). good_node n"
    using task_nodes [OF assms(1,2) Cons assms(4)] assms(3) Cons by (auto simp: good_node_def)
  ultimately show ?thesis by blast
qed

lemma step_messages:
  assumes "wechat_inv j s" "wechat_ok j op s" "\<forall>n\<in>set (w_queue s). good_node n" "no_failed_download op"
    and "wechat_step j op s = Some s'"
  shows "all_messages s' = all_messages s @ taken_in j op s \<and> (\<forall>n\<in>set (w_queue s'). good_node n)"
proof (cases op)
  case (WTask e)
  with assms task_messages show ?thesis by simp
next
  case (WKey k wifi)
  with assms(3,5) show ?thesis
    by (cases k) (auto simp: taken_in_def wechat_keyprocess_def Let_def all_messages_def inbox_def wechat_notify_def
        queue_send_def good_node_def w_emit_def split: if_splits)
next
  case (WCommand push tx n mem)
  with assms(3,5) show ?thesis
    by (auto simp: taken_in_def wechat_command_cb_def all_messages_def inbox_def wechat_notify_def queue_send_def
        good_node_def split: if_splits option.splits)
next
  case (WPlayStatus st)
  with assms(3,5) show ?thesis
    by (cases st) (auto simp: taken_in_def wechat_audio_play_cb_def all_messages_def inbox_def wechat_notify_def
        queue_send_def good_node_def split: if_splits)
qed (use assms(3-5) in \<open>auto simp: taken_in_def wechat_keytimer_cb_def wechat_timer_cb_def wechat_audio_record_cb_def
        upload_callback_def wechat_download_callback_def all_messages_def inbox_def wechat_notify_def queue_send_def
        good_node_def Let_def split: if_splits\<close>)

lemma run_messages:
  assumes "wechat_inv j s" "\<forall>n\<in>set (w_queue s). good_node n" "safe_machine.oks (wechat_step j) (wechat_ok j) ops s"
    "list_all no_failed_download ops" "run_opt (wechat_step j) ops s = Some s'"
  shows "all_messages s' = all_messages s @ taken_in_run j ops s"
  using assms
proof (induction ops arbitrary: s)
  case Nil
  then show ?case by simp
next
  case (Cons op ops)
  then obtain s1 where s1: "wechat_step j op s = Some s1" "run_opt (wechat_step j) ops s1 = Some s'"
    by (auto simp: ub_simps)
  have ok: "wechat_ok j op s" "safe_machine.oks (wechat_step j) (wechat_ok j) ops s1"
    using Cons.prems(3) s1(1) by (simp_all add: wechat.oks.simps)
  have "no_failed_download op" using Cons.prems(4) by simp
  from step_messages [OF Cons.prems(1) ok(1) Cons.prems(2) this s1(1)] Cons.IH [OF wechat.step_inv [OF Cons.prems(1) ok(1) s1(1)] _ ok(2) _ s1(2)]
    Cons.prems(4) s1(1) show ?case by simp
qed

section \<open>Properties\<close>


text \<open>A parser for messages that are their own address and identifier.\<close>

definition plain_json :: "string cjson" where
  "plain_json = \<lparr>cJSON_Parse = Some, cJSON_GetObjectItem = (\<lambda>t k. Some t), cj_valuestring = Some, cj_valueint = (\<lambda>t. 0)\<rparr>"

lemma plain_good: "CHR ''/'' \<in> set tx \<Longrightarrow> length tx = n \<Longrightarrow> n < 240 \<Longrightarrow> good_message plain_json tx n"
  by (simp add: good_message_def plain_json_def)

definition room :: "addr option \<Rightarrow> wechat_env" where
  "room m = \<lparr>we_mem = m, we_mac = ''0123456789ab'', we_led_blinks = False\<rparr>"


text \<open>C30: While no download fails, messages are finished in the order in which they were taken from the
  server: those finished, then those that wait to be played, then those that wait for their download are
  at all times the identifiers taken in so far, in order and with none lost or repeated.
\<close>

theorem messages_finish_in_order:
  assumes "safe_machine.oks (wechat_step j) (wechat_ok j) ops wechat_zero" and "list_all no_failed_download ops"
  shows "\<exists>s. run_opt (wechat_step j) ops wechat_zero = Some s \<and>
    finished (w_trace s) @ map (id_of (w_heap s)) (w_play s @ w_download s) = taken_in_run j ops wechat_zero"
proof -
  obtain s where s: "run_opt (wechat_step j) ops wechat_zero = Some s"
    using wechat.run_safe [OF wechat_inv_zero assms(1)] by blast
  have "\<forall>n\<in>set (w_queue wechat_zero). good_node n" by (simp add: wechat_zero_def)
  from run_messages [OF wechat_inv_zero this assms s] s show ?thesis
    by (simp add: all_messages_def inbox_def) (simp add: wechat_zero_def)
qed

abbreviation two_messages :: "wechat_op list" where
  "two_messages \<equiv> [WCommand True ''http://h/a'' 10 (Some 1), WCommand True ''http://h/b'' 10 (Some 2),
     WTask (room (Some 1)), WTask (room (Some 2)), WDownloaded LOAD_SUCC]"

lemma messages_finish_in_order_witness:
  "\<exists>s. run_opt (wechat_step plain_json) two_messages wechat_zero = Some s \<and>
    finished (w_trace s) @ map (id_of (w_heap s)) (w_play s @ w_download s) = [''http://h/a'', ''http://h/b'']"
proof -
  have g: "good_message plain_json ''http://h/a'' 10" "good_message plain_json ''http://h/b'' 10"
    by (simp_all add: plain_good)
  have run: "wechat_step plain_json (WCommand True ''http://h/a'' 10 (Some 1)) wechat_zero =
       Some (wechat_zero\<lparr>w_cmds := [1 \<mapsto> (''http://h/a'', 10)], w_queue := [\<lparr>wn_cmd_value = WECHAT_CMD_RECV_MSG, wn_param = ParamCmd 1\<rparr>]\<rparr>)"
    by (simp add: wechat_command_cb_def wechat_notify_def queue_send_def wechat_zero_def)
  have oks: "safe_machine.oks (wechat_step plain_json) (wechat_ok plain_json) two_messages wechat_zero"
    using g by (simp add: wechat.oks.simps run)
      (simp add: wechat_command_cb_def wechat_notify_def queue_send_def wechat_zero_def wechat_task_def
        queue_receive_def execute_wechat_cmd_def recv_msg_cmd_def plain_json_def room_def convert_url_to_filename_def
        Let_def recv_action_def free_cmd_buffer_def)
  have "taken_in_run plain_json two_messages wechat_zero = [''http://h/a'', ''http://h/b'']"
    by (simp add: run) (simp add: taken_in_def message_id_def wechat_command_cb_def wechat_notify_def queue_send_def wechat_zero_def
        wechat_task_def queue_receive_def execute_wechat_cmd_def recv_msg_cmd_def plain_json_def room_def
        convert_url_to_filename_def Let_def recv_action_def free_cmd_buffer_def)
  with messages_finish_in_order [OF oks] show ?thesis by simp
qed

text \<open>An upload that failed and should be tried again is lost if a new recording has just begun: its time,
  which the task keeps in one place for all, reads less than a second, so the message counts as empty and is
  freed without another request to the server.
\<close>

theorem retry_during_recording_is_dropped:
  assumes "w_upload s = [a]" "a \<in> dom (w_heap s)" "retry (w_upload_err_cnt s)" "w_record_time s < 10"
    and "r \<noteq> LOAD_SUCC" "r \<noteq> FILE_SIZE_ERROR"
    and "w_queue s = [\<lparr>wn_cmd_value = WECHAT_CMD_UPLOAD_FINISH, wn_param = ParamReason r\<rparr>]"
  shows "\<exists>s'. run_opt (wechat_step j) [WTask e1, WTask e2, WTask e3] s = Some s' \<and>
    w_upload s' = [] \<and> w_heap s' a = None \<and> w_trace s' = w_trace s \<and> w_record s' = w_record s"
proof -
  obtain x where x: "w_heap s a = Some x" using assms(2) by auto
  let ?x = "\<lambda>st. x\<lparr>wa_state := st\<rparr>"
  let ?again = "\<lparr>wn_cmd_value = WECHAT_CMD_UPLOAD_START, wn_param = ParamNull\<rparr>"
  let ?empty = "\<lparr>wn_cmd_value = WECHAT_CMD_UPLOAD_FINISH, wn_param = ParamReason FILE_SIZE_ERROR\<rparr>"
  define s1 where "s1 = s\<lparr>w_heap := (w_heap s)(a \<mapsto> ?x WECHAT_SEND_FINISH_RECORD), w_upload := [a],
    w_upload_err_cnt := w_upload_err_cnt s + 1, w_queue := [?again]\<rparr>"
  define s2 where "s2 = s1\<lparr>w_heap := (w_heap s)(a \<mapsto> ?x WECHAT_SEND_START_UPLOAD), w_queue := [?empty]\<rparr>"
  define s3 where "s3 = s2\<lparr>w_heap := (w_heap s)(a := None), w_upload := [], w_queue := []\<rparr>"
  have "wechat_task j e1 s = Some s1" using assms x
    by (simp add: s1_def wechat_task_def queue_receive_def execute_wechat_cmd_def upload_finish_cmd_def set_action_def
        Let_def add_action_tail_def wechat_notify_def queue_send_def)
  moreover have "wechat_task j e2 s1 = Some s2" using assms(4)
    by (simp add: s2_def s1_def wechat_task_def queue_receive_def execute_wechat_cmd_def upload_start_cmd_def set_action_def
        wechat_notify_def queue_send_def)
  moreover have "wechat_task j e3 s2 = Some s3"
    by (simp add: s3_def s2_def s1_def wechat_task_def queue_receive_def execute_wechat_cmd_def upload_finish_cmd_def
        set_action_def free_action_def Let_def)
  ultimately have "run_opt (wechat_step j) [WTask e1, WTask e2, WTask e3] s = Some s3" by simp
  then show ?thesis by (auto simp: s3_def s2_def s1_def)
qed

abbreviation recorded :: wechat_action_t where
  "recorded \<equiv> \<lparr>wa_type = WECHAT_ACTION_T_SEND, wa_state = WECHAT_SEND_START_UPLOAD, wa_msg_id = [],
     wa_local_path = record_path 0, wa_remote_path = WECHAT_UPLOAD_HEAD\<rparr>"

lemma retry_during_recording_is_dropped_witness:
  "\<exists>s'. run_opt (wechat_step plain_json) [WTask (room None), WTask (room None), WTask (room None)]
      (wechat_zero\<lparr>w_upload := [1], w_heap := [1 \<mapsto> recorded], w_queue :=
         [\<lparr>wn_cmd_value = WECHAT_CMD_UPLOAD_FINISH, wn_param = ParamReason SERVER_CONNECT_FAILED\<rparr>]\<rparr>) = Some s' \<and>
    w_upload s' = [] \<and> w_heap s' 1 = None \<and> w_trace s' = [] \<and> w_record s' = []"
  using retry_during_recording_is_dropped [of "wechat_zero\<lparr>w_upload := [1], w_heap := [1 \<mapsto> recorded], w_queue :=
         [\<lparr>wn_cmd_value = WECHAT_CMD_UPLOAD_FINISH, wn_param = ParamReason SERVER_CONNECT_FAILED\<rparr>]\<rparr>" 1 SERVER_CONNECT_FAILED plain_json
      "room None" "room None" "room None"]
  by (simp add: retry_def wechat_zero_def)

section \<open>Further behaviour\<close>

text \<open>A message whose address has no slash is undefined behaviour.\<close>

lemma message_without_slash_crashes:
  "CHR ''/'' \<notin> set tx \<Longrightarrow> w_cmds s c = Some (tx, length tx) \<Longrightarrow> recv_msg_cmd plain_json e (ParamCmd c) s = None"
  by (simp add: recv_msg_cmd_def plain_json_def convert_url_to_filename_def Let_def)

text \<open>After five failures in a row the message is dropped and the count stays: the next message has one try.\<close>

lemma given_up_count_stays:
  assumes "w_upload s = [a]" "w_heap s a = Some x" "\<not> retry (w_upload_err_cnt s)" "r \<noteq> LOAD_SUCC" "r \<noteq> FILE_SIZE_ERROR"
  shows "upload_finish_cmd (ParamReason r) s =
    Some (s\<lparr>w_heap := (w_heap s)(a := None), w_upload := [], w_upload_err_cnt := w_upload_err_cnt s + 1\<rparr>)"
  using assms by (simp add: upload_finish_cmd_def set_action_def free_action_def Let_def)

text \<open>A message that is being sent is sent again when another recording is over.\<close>

lemma upload_in_flight_is_sent_again:
  assumes "w_upload s = a # as" "w_heap s a = Some x" "wa_state x = WECHAT_SEND_START_UPLOAD" "10 \<le> w_record_time s"
    "w_record_time s < 100"
  shows "upload_start_cmd s = Some (w_emit [WUpload (upload_request x (w_record_time s))] (s\<lparr>w_heap := (w_heap s)(a \<mapsto> x\<lparr>wa_state := WECHAT_SEND_START_UPLOAD\<rparr>)\<rparr>))"
proof -
  have "length (duration_text (w_record_time s)) < 12"
    using assms(4,5) by (simp add: duration_text_def dec_nat.simps)
  then show ?thesis using assms by (simp add: upload_start_cmd_def set_action_def)
qed

end
