(* ===== verification/Crc_Props.thy ===== *)
theory Crc_Props
  imports Crc
begin

text \<open>
  The check sums are the remainders of a division bit by bit, and a change of a message within as many
  bits as the sum has is always seen.
\<close>

section \<open>A register that divides\<close>

lemma xor_eq_zero: "x XOR y = 0 \<longleftrightarrow> x = y" for x y :: "'a::len word"
  by (metis xor.assoc xor.left_neutral xor.right_neutral xor_self_eq)

lemma xor_cancel: "x XOR z = y XOR z \<longleftrightarrow> x = y" for x y z :: "'a::len word"
  by (metis xor.assoc xor.right_neutral xor_self_eq)

text \<open>A message bit is added at its place and the register makes one step.\<close>

definition feed :: "('w::len word \<Rightarrow> 'w word) \<Rightarrow> nat \<Rightarrow> 'w word \<Rightarrow> bool \<Rightarrow> 'w word" where
  "feed step p r m = step (r XOR (if m then 2 ^ p else 0))"

fun embed :: "(nat \<Rightarrow> nat) \<Rightarrow> nat \<Rightarrow> bool list \<Rightarrow> 'w::len word" where
  "embed pos k [] = 0"
| "embed pos k (m # ms) = (if m then 2 ^ pos k else 0) XOR embed pos (Suc k) ms"

locale shift_register =
  fixes step :: "'w::len word \<Rightarrow> 'w word"
    and pos :: "nat \<Rightarrow> nat"
  assumes step_xor: "step (x XOR y) = step x XOR step y"
    and step_inj: "step x = 0 \<Longrightarrow> x = 0"
    and step_place: "Suc k < LENGTH('w) \<Longrightarrow> step (2 ^ pos (Suc k)) = 2 ^ pos k"
    and pos_less: "k < LENGTH('w) \<Longrightarrow> pos k < LENGTH('w)"
    and pos_inj: "inj_on pos {..<LENGTH('w)}"
begin

lemma step_0 [simp]: "step 0 = 0"
  using step_xor [of 0 0] by simp

lemma steps_xor: "(step ^^ n) (x XOR y) = (step ^^ n) x XOR (step ^^ n) y"
  by (induction n) (simp_all add: step_xor)

lemma steps_0 [simp]: "(step ^^ n) 0 = 0"
  by (induction n) simp_all

lemma steps_zero: "(step ^^ n) x = 0 \<Longrightarrow> x = 0"
  by (induction n arbitrary: x) (auto dest: step_inj)

lemma steps_inj: "(step ^^ n) x = (step ^^ n) y \<Longrightarrow> x = y"
  using steps_zero [of n "x XOR y"] by (simp add: steps_xor xor_eq_zero)

lemma step_embed: "Suc k + length ms \<le> LENGTH('w) \<Longrightarrow> step (embed pos (Suc k) ms) = embed pos k ms"
  by (induction ms arbitrary: k) (auto simp: step_xor step_place)

lemma foldl_feed:
  "length ms \<le> LENGTH('w) \<Longrightarrow> foldl (feed step (pos 0)) r ms = (step ^^ length ms) (r XOR embed pos 0 ms)"
proof (induction ms arbitrary: r)
  case Nil
  then show ?case by simp
next
  case (Cons m ms)
  have "embed pos 0 ms = step (embed pos (Suc 0) ms)" using Cons.prems step_embed [of 0 ms] by simp
  with Cons show ?case by (simp add: feed_def step_xor funpow_swap1 xor.assoc)
qed

lemma embed_bit:
  "k + length ms \<le> LENGTH('w) \<Longrightarrow> j < LENGTH('w) \<Longrightarrow>
   bit (embed pos k ms :: 'w word) (pos j) \<longleftrightarrow> k \<le> j \<and> j < k + length ms \<and> ms ! (j - k)"
proof (induction ms arbitrary: k)
  case Nil
  then show ?case by simp
next
  case (Cons m ms)
  have "bit (2 ^ pos k :: 'w word) (pos j) \<longleftrightarrow> j = k"
    using Cons.prems pos_less [of j] pos_inj by (auto simp: bit_simps inj_on_def)
  with Cons show ?case by (auto simp: bit_xor_iff nth_Cons' Suc_diff_le not_less_eq_eq)
qed

lemma embed_inj:
  assumes "length ms = length ms'" "length ms \<le> LENGTH('w)" "(embed pos 0 ms :: 'w word) = embed pos 0 ms'"
  shows "ms = ms'"
proof (rule nth_equalityI [OF assms(1)])
  fix i assume "i < length ms"
  with assms embed_bit [of 0 ms i] embed_bit [of 0 ms' i] show "ms ! i = ms' ! i" by simp
qed

lemma feed_inj: "foldl (feed step p) r ms = foldl (feed step p) r' ms \<Longrightarrow> r = r'"
proof (induction ms arbitrary: r r')
  case (Cons m ms)
  from Cons.IH [of "feed step p r m" "feed step p r' m"] Cons.prems have "feed step p r m = feed step p r' m" by simp
  then have "step (r XOR r') = 0" by (auto simp: feed_def step_xor xor_cancel)
  from step_inj [OF this] show ?case by (simp add: xor_eq_zero)
qed simp

text \<open>Two messages that differ only in a burst no longer than the register.\<close>

lemma burst_seen:
  assumes "length ms = length ms'" "length ms \<le> LENGTH('w)" "ms \<noteq> ms'"
  shows "foldl (feed step (pos 0)) r (pre @ ms @ post) \<noteq> foldl (feed step (pos 0)) r (pre @ ms' @ post)"
proof
  let ?f = "foldl (feed step (pos 0))"
  assume "?f r (pre @ ms @ post) = ?f r (pre @ ms' @ post)"
  then have "?f (?f r pre) ms = ?f (?f r pre) ms'" by (auto dest: feed_inj)
  then have "?f r pre XOR embed pos 0 ms = ?f r pre XOR embed pos 0 ms'"
    using assms(1,2) foldl_feed [of ms] foldl_feed [of ms'] steps_inj by metis
  then have "(embed pos 0 ms :: 'w word) = embed pos 0 ms'" by (metis xor.left_neutral xor.assoc xor_self_eq)
  with embed_inj assms show False by blast
qed

end

section \<open>The two registers\<close>

text \<open>The polynomials \<open>x^16 + x^12 + x^5 + 1\<close>, most significant bit first, and that of CRC-32, reflected.\<close>

definition div16 :: "16 word \<Rightarrow> 16 word" where
  "div16 r = (if bit r 15 then push_bit 1 r XOR 0x1021 else push_bit 1 r)"

definition div32 :: "32 word \<Rightarrow> 32 word" where
  "div32 r = (if bit r 0 then drop_bit 1 r XOR 0xEDB88320 else drop_bit 1 r)"

lemma div16_bit: "bit (div16 r) n \<longleftrightarrow> n < 16 \<and> ((0 < n \<and> bit r (n - 1)) \<noteq> (bit r 15 \<and> bit (0x1021 :: 16 word) n))"
  by (cases "n < 16") (simp_all add: div16_def bit_xor_iff bit_push_bit_iff Suc_le_eq del: push_bit_numeral push_bit_Suc)

lemma div32_bit: "bit (div32 r) n \<longleftrightarrow> bit r (Suc n) \<noteq> (bit r 0 \<and> bit (0xEDB88320 :: 32 word) n)"
  by (simp add: div32_def bit_xor_iff bit_drop_bit_eq)

lemma div16_zero: "div16 x = 0 \<Longrightarrow> x = 0"
proof -
  assume d: "div16 x = 0"
  have n: "\<not> bit x 15"
  proof
    assume "bit x 15"
    then have "bit (div16 x) 0" by (simp add: div16_bit)
    with d show False by simp
  qed
  have "bit x k = False" if "k < 16" for k
  proof (cases "k = 15")
    case False
    have "bit (div16 x) (Suc k) = bit x k" using n that False by (simp add: div16_bit)
    with d show ?thesis by simp
  qed (use n in simp)
  then show "x = 0" by (intro bit_word_eqI) simp
qed

lemma div32_zero: "div32 x = 0 \<Longrightarrow> x = 0"
proof -
  assume d: "div32 x = 0"
  have n: "\<not> bit x 0"
  proof
    assume "bit x 0"
    then have "bit (div32 x) 31" using bit_imp_le_length [of x 32] by (auto simp: div32_bit)
    with d show False by simp
  qed
  have "bit x k = False" if "k < 32" for k
  proof (cases k)
    case (Suc m)
    have "bit (div32 x) m = bit x (Suc m)" using n by (simp add: div32_bit)
    with d Suc show ?thesis by simp
  qed (use n in simp)
  then show "x = 0" by (intro bit_word_eqI) simp
qed

interpretation reg16: shift_register div16 "\<lambda>k. 15 - k"
proof unfold_locales
  fix x y :: "16 word"
  show "div16 (x XOR y) = div16 x XOR div16 y"
    by (rule bit_word_eqI) (auto simp: div16_bit bit_simps)
next
  fix k assume "Suc k < LENGTH(16)"
  then show "div16 (2 ^ (15 - Suc k)) = 2 ^ (15 - k)"
    by (intro bit_word_eqI) (auto simp: div16_bit bit_simps)
qed (auto simp: inj_on_def intro: div16_zero)

interpretation reg32: shift_register div32 "\<lambda>k. k"
proof unfold_locales
  fix x y :: "32 word"
  show "div32 (x XOR y) = div32 x XOR div32 y"
    by (rule bit_word_eqI) (auto simp: div32_bit bit_simps)
next
  fix k assume "Suc k < LENGTH(32)"
  then show "div32 (2 ^ Suc k) = 2 ^ k"
    by (intro bit_word_eqI) (auto simp: div32_bit bit_simps)
qed (auto simp: inj_on_def intro: div32_zero)

section \<open>The tables\<close>

text \<open>A table of a linear function, built from its values at powers of two.\<close>

definition doubled :: "'a::len word list \<Rightarrow> 'a word list" where
  "doubled rs = foldl (\<lambda>t x. t @ map (\<lambda>y. y XOR x) t) [0] rs"

lemma doubled_snoc: "doubled (rs @ [x]) = doubled rs @ map (\<lambda>y. y XOR x) (doubled rs)"
  by (simp add: doubled_def)

lemma doubled_length: "length (doubled rs) = 2 ^ length rs"
  by (induction rs rule: rev_induct) (simp_all add: doubled_snoc, simp add: doubled_def)

lemma low_xor_exp:
  assumes "j < 2 ^ n"
  shows "2 ^ n + word_of_nat j = (word_of_nat j XOR 2 ^ n :: 'a::len word)"
proof -
  have "take_bit n j = j" using assms by (simp add: take_bit_nat_eq_self)
  then have "\<not> bit j n" by (metis bit_take_bit_iff less_irrefl)
  then have "j AND 2 ^ n = 0" by (intro bit_eqI) (auto simp: bit_simps)
  then have "2 ^ n + j = j XOR 2 ^ n" using disjunctive_add_eq_xor [of j "2 ^ n"] by (simp add: add.commute)
  then have "word_of_nat (2 ^ n + j) = (word_of_nat (j XOR 2 ^ n) :: 'a word)" by (rule arg_cong)
  then show ?thesis by (simp add: of_nat_xor_eq)
qed

lemma doubled_nth:
  assumes lin: "\<And>x y. f (x XOR y) = f x XOR f y"
  shows "i < 2 ^ n \<Longrightarrow> doubled (map (\<lambda>k. f (2 ^ k)) [0..<n]) ! i = (f (word_of_nat i) :: 'b::len word)"
proof (induction n arbitrary: i)
  case 0
  have "f 0 = 0" using lin [of 0 0] by simp
  with 0 show ?case by (simp add: doubled_def)
next
  case (Suc n)
  show ?case
  proof (cases "i < 2 ^ n")
    case True
    with Suc.IH show ?thesis by (simp add: doubled_snoc nth_append doubled_length)
  next
    case False
    then obtain j where j: "i = 2 ^ n + j" "j < 2 ^ n" using Suc.prems by (metis add_less_cancel_left le_add_diff_inverse linorder_not_le mult_2 power_Suc)
    with Suc.IH [of j] show ?thesis by (simp add: doubled_snoc nth_append doubled_length low_xor_exp lin)
  qed
qed

lemma table16: "CrcCCITTTable = doubled [0x1021, 0x2042, 0x4084, 0x8108, 0x1231, 0x2462, 0x48C4, 0x9188]"
  by (simp add: CrcCCITTTable_def doubled_def)

lemma table32: "crypto_crc32_table = doubled [0x77073096, 0xee0e612c, 0x076dc419, 0x0edb8832, 0x1db71064, 0x3b6e20c8, 0x76dc4190, 0xedb88320]"
  by (simp add: crypto_crc32_table_def doubled_def)

lemma eight: "(f ^^ 8) x = f (f (f (f (f (f (f (f x)))))))"
  by (simp add: eval_nat_numeral)

lemma powers: "map (\<lambda>k. f (2 ^ k)) [0..<8] = [f 1, f 2, f 4, f 8, f 0x10, f 0x20, f 0x40, f (0x80 :: 'a::len word)]"
proof -
  have "[0..<8] = [0, 1, 2, 3, 4, 5, 6, 7]" by (simp add: upt_rec)
  then show ?thesis by simp
qed

lemma rems16: "map (\<lambda>k. (div16 ^^ 8) (push_bit 8 (2 ^ k))) [0..<8] =
    [0x1021, 0x2042, 0x4084, 0x8108, 0x1231, 0x2462, 0x48C4, 0x9188]"
  by (rule trans [OF powers [of "\<lambda>x. (div16 ^^ 8) (push_bit 8 x)"]]) (simp only: eight, simp add: div16_def)

lemma rems32: "map (\<lambda>k. (div32 ^^ 8) (2 ^ k)) [0..<8] =
    [0x77073096, 0xee0e612c, 0x076dc419, 0x0edb8832, 0x1db71064, 0x3b6e20c8, 0x76dc4190, 0xedb88320]"
  by (rule trans [OF powers [of "\<lambda>x. (div32 ^^ 8) x"]]) (simp only: eight, simp add: div32_def)

lemma entry16: "i < 256 \<Longrightarrow> CrcCCITTTable ! i = (div16 ^^ 8) (push_bit 8 (word_of_nat i))"
proof -
  assume "i < 256"
  then have "doubled (map (\<lambda>k. (div16 ^^ 8) (push_bit 8 (2 ^ k))) [0..<8]) ! i = (div16 ^^ 8) (push_bit 8 (word_of_nat i))"
    by (intro doubled_nth) (simp_all add: reg16.steps_xor push_bit_xor)
  then show ?thesis by (simp only: rems16 table16)
qed

lemma entry32: "i < 256 \<Longrightarrow> crypto_crc32_table ! i = (div32 ^^ 8) (word_of_nat i)"
proof -
  assume "i < 256"
  then have "doubled (map (\<lambda>k. (div32 ^^ 8) (2 ^ k)) [0..<8]) ! i = (div32 ^^ 8) (word_of_nat i)"
    by (intro doubled_nth) (simp_all add: reg32.steps_xor)
  then show ?thesis by (simp only: rems32 table32)
qed

section \<open>The loops\<close>

text \<open>The bits of a byte in the order they are sent, and the references.\<close>

definition msb_first :: "8 word \<Rightarrow> bool list" where
  "msb_first b = map (\<lambda>k. bit b (7 - k)) [0..<8]"

definition lsb_first :: "8 word \<Rightarrow> bool list" where
  "lsb_first b = map (bit b) [0..<8]"

definition crc16_ref :: "8 word list \<Rightarrow> 16 word \<Rightarrow> 16 word" where
  "crc16_ref buf crc = foldl (feed div16 15) crc (concat (map msb_first buf))"

definition crc32_ref :: "8 word list \<Rightarrow> 32 word \<Rightarrow> 32 word" where
  "crc32_ref buf crc = foldl (feed div32 0) crc (concat (map lsb_first buf))"

lemma bit_byte: "bit b n \<Longrightarrow> n < 8" for b :: "8 word"
  using bit_imp_le_length [of b n] by simp

lemma embed_msb: "embed (\<lambda>k. 15 - k) 0 (msb_first b) = (push_bit 8 (ucast b) :: 16 word)"
proof (rule bit_word_eqI)
  fix n assume n: "n < LENGTH(16)"
  then have "bit (embed (\<lambda>k. 15 - k) 0 (msb_first b) :: 16 word) (15 - (15 - n)) \<longleftrightarrow> 15 - n < 8 \<and> msb_first b ! (15 - n)"
    by (subst reg16.embed_bit) (simp_all add: msb_first_def)
  then show "bit (embed (\<lambda>k. 15 - k) 0 (msb_first b) :: 16 word) n \<longleftrightarrow> bit (push_bit 8 (ucast b) :: 16 word) n"
    using n bit_byte [of b "n - 8"] by (auto simp: msb_first_def bit_simps)
qed

lemma embed_lsb: "embed (\<lambda>k. k) 0 (lsb_first b) = (ucast b :: 32 word)"
proof (rule bit_word_eqI)
  fix n assume n: "n < LENGTH(32)"
  then have "bit (embed (\<lambda>k. k) 0 (lsb_first b) :: 32 word) n \<longleftrightarrow> n < 8 \<and> lsb_first b ! n"
    by (subst reg32.embed_bit) (simp_all add: lsb_first_def)
  then show "bit (embed (\<lambda>k. k) 0 (lsb_first b) :: 32 word) n \<longleftrightarrow> bit (ucast b :: 32 word) n"
    using n bit_byte [of b n] by (auto simp: lsb_first_def bit_simps)
qed

text \<open>One byte: the division of the high part comes from the table, the low part is only shifted.\<close>

lemma low_byte: "w AND 0xFF = take_bit 8 (w :: 'a::len word)"
  by (simp add: take_bit_eq_mask mask_eq_decr_exp)

lemma div16_shift: "n \<le> 8 \<Longrightarrow> (div16 ^^ n) (take_bit 8 x) = push_bit n (take_bit 8 x)"
proof (induction n)
  case (Suc n)
  then have "(div16 ^^ Suc n) (take_bit 8 x) = div16 (push_bit n (take_bit 8 x))" by simp
  also have "\<dots> = push_bit (Suc n) (take_bit 8 x)"
    using Suc.prems by (intro bit_word_eqI) (auto simp: div16_bit bit_push_bit_iff bit_take_bit_iff Suc_le_eq
        simp del: push_bit_Suc)
  finally show ?case .
qed simp

lemma div32_shift: "n \<le> 8 \<Longrightarrow> (div32 ^^ n) (push_bit 8 (x :: 32 word)) = drop_bit n (push_bit 8 x)"
proof (induction n)
  case (Suc n)
  then have "(div32 ^^ Suc n) (push_bit 8 x) = div32 (drop_bit n (push_bit 8 x))" by simp
  also have "\<dots> = drop_bit (Suc n) (push_bit 8 x)"
    using Suc.prems by (intro bit_word_eqI) (auto simp: div32_bit bit_simps)
  finally show ?case .
qed simp

lemma low_byte_less: "unat (take_bit 8 (w :: 'a::len word)) < 256"
  by (simp add: unsigned_take_bit_eq take_bit_nat_less_exp [where n = 8, simplified])

lemma step16: "push_bit 8 crc XOR CrcCCITTTable ! unat ((drop_bit 8 crc XOR ucast b) AND 0x00FF) =
    (div16 ^^ 8) (crc XOR push_bit 8 (ucast b))" for b :: "8 word"
proof -
  define h where "h = take_bit 8 (drop_bit 8 crc XOR ucast b)"
  have "crc XOR push_bit 8 (ucast b) = push_bit 8 h XOR take_bit 8 crc"
    using bit_byte [of b] by (intro bit_word_eqI) (auto simp: h_def bit_simps)
  moreover have "CrcCCITTTable ! unat h = (div16 ^^ 8) (push_bit 8 h)"
    using entry16 [of "unat h"] low_byte_less [of "drop_bit 8 crc XOR ucast b"] by (simp add: h_def)
  moreover have "push_bit 8 (take_bit 8 crc) = push_bit 8 crc" by (intro bit_word_eqI) (auto simp: bit_simps)
  ultimately show ?thesis
    using div16_shift [of 8 crc] by (simp add: low_byte h_def reg16.steps_xor xor.commute)
qed

lemma step32: "crypto_crc32_table ! unat ((crc XOR ucast b) AND 0xff) XOR drop_bit 8 crc = (div32 ^^ 8) (crc XOR ucast b)" for b :: "8 word"
proof -
  define h where "h = take_bit 8 (crc XOR ucast b)"
  have low: "(crc XOR ucast b) AND 0xff = h" by (simp only: low_byte h_def)
  have split: "crc XOR ucast b = h XOR push_bit 8 (drop_bit 8 crc)"
    using bit_byte [of b] by (intro bit_word_eqI) (auto simp: h_def bit_simps)
  have entry: "crypto_crc32_table ! unat h = (div32 ^^ 8) h"
    using entry32 [of "unat h"] low_byte_less [of "crc XOR ucast b"] by (simp add: h_def)
  have high: "drop_bit 8 (push_bit 8 (drop_bit 8 crc)) = drop_bit 8 crc"
    by (intro bit_word_eqI) (auto simp: bit_simps dest: bit_imp_le_length)
  have "(div32 ^^ 8) (crc XOR ucast b) = (div32 ^^ 8) h XOR drop_bit 8 crc"
    using div32_shift [of 8 "drop_bit 8 crc"] high by (subst split) (simp add: reg32.steps_xor)
  then show ?thesis by (simp only: low entry)
qed

lemma CRC16_ref: "CRC16 buf crc = crc16_ref buf crc"
proof (induction buf arbitrary: crc)
  case (Cons b buf)
  have "foldl (feed div16 15) crc (msb_first b) = (div16 ^^ 8) (crc XOR push_bit 8 (ucast b))"
    using reg16.foldl_feed [of "msb_first b" crc] by (simp add: embed_msb) (simp add: msb_first_def)
  with Cons show ?case by (simp add: step16 crc16_ref_def)
qed (simp add: crc16_ref_def)

lemma crc32_loop_ref: "crc32_loop buf crc = crc32_ref buf crc"
proof (induction buf arbitrary: crc)
  case (Cons b buf)
  have "foldl (feed div32 0) crc (lsb_first b) = (div32 ^^ 8) (crc XOR ucast b)"
    using reg32.foldl_feed [of "lsb_first b" crc] by (simp add: embed_lsb) (simp add: lsb_first_def)
  with Cons show ?case by (simp add: step32 crc32_ref_def)
qed (simp add: crc32_ref_def)

section \<open>Properties\<close>

text \<open>C39: Both table-driven check sums are, for every message and every start value, the remainders that a
  register computes bit by bit: CRC-16 with the CCITT polynomial, the first bit of a byte the highest, and
  CRC-32 with the reflected polynomial, the first bit the lowest, its start and result inverted. All 512
  entries of the two tables are right.\<close>

theorem check_sums_are_remainders:
  "CRC16 buf crc = crc16_ref buf crc \<and> crypto_crc32 crc' buf = NOT (crc32_ref buf (NOT crc'))"
  by (simp add: CRC16_ref crypto_crc32_def crc32_loop_ref)

lemma concat_inj:
  "inj f \<Longrightarrow> (\<And>b. length (f b) = k) \<Longrightarrow> length bs = length bs' \<Longrightarrow> concat (map f bs) = concat (map f bs') \<Longrightarrow> bs = bs'"
proof (induction bs bs' rule: list_induct2')
  case (4 b bs b' bs')
  then have "f b = f b' \<and> concat (map f bs) = concat (map f bs')" by (simp add: append_eq_append_conv)
  with 4 show ?case by (simp add: inj_eq)
qed simp_all

lemma bits_inj: "inj msb_first" "inj lsb_first"
proof -
  have m: "bit b n = bit b' n" if "msb_first b = msb_first b'" "n < 8" for b b' n
    using arg_cong [OF that(1), of "\<lambda>l. l ! (7 - n)"] that(2) nth_upt [of 0 "7 - n" 8] by (simp add: msb_first_def)
  show "inj msb_first" by (intro injI bit_word_eqI m) simp_all
  have l: "bit b n = bit b' n" if "lsb_first b = lsb_first b'" "n < 8" for b b' n
    using arg_cong [OF that(1), of "\<lambda>l. l ! n"] that(2) by (simp add: lsb_first_def)
  show "inj lsb_first" by (intro injI bit_word_eqI l) simp_all
qed

lemma bits_length: "length (msb_first b) = 8" "length (lsb_first b) = 8"
  by (simp_all add: msb_first_def lsb_first_def)

lemma bytes_length: "length (concat (map msb_first m)) = 8 * length m" "length (concat (map lsb_first m)) = 8 * length m"
  by (induction m) (simp_all add: bits_length)

text \<open>C40: Two messages of the same length that differ only within two neighbouring bytes have different
  CRC-16 sums, and two that differ only within four neighbouring bytes have different CRC-32 sums, whatever
  stands before and behind.\<close>

theorem bursts_are_detected:
  assumes "length m = length m'" "m \<noteq> m'"
  shows "(length m \<le> 2 \<longrightarrow> CRC16 (pre @ m @ post) c \<noteq> CRC16 (pre @ m' @ post) c) \<and>
    (length m \<le> 4 \<longrightarrow> crypto_crc32 d (pre @ m @ post) \<noteq> crypto_crc32 d (pre @ m' @ post))"
proof -
  let ?f = "\<lambda>m. concat (map msb_first m)" and ?g = "\<lambda>m. concat (map lsb_first m)"
  have ne: "?f m \<noteq> ?f m'" "?g m \<noteq> ?g m'"
    using concat_inj [OF bits_inj(1) bits_length(1) assms(1)] concat_inj [OF bits_inj(2) bits_length(2) assms(1)] assms(2) by auto
  show ?thesis
    using reg16.burst_seen [of "?f m" "?f m'" c "?f pre" "?f post"] reg32.burst_seen [of "?g m" "?g m'" "NOT d" "?g pre" "?g post"] ne assms(1)
    by (simp add: CRC16_ref crc16_ref_def crypto_crc32_def crc32_loop_ref crc32_ref_def bytes_length bit.compl_eq_compl_iff)
qed

lemma bursts_are_detected_witness:
  "CRC16 ([1] @ [2, 3] @ [4]) 0 \<noteq> CRC16 ([1] @ [3, 2] @ [4]) 0 \<and>
   crypto_crc32 0 ([1] @ [2, 3] @ [4]) \<noteq> crypto_crc32 0 ([1] @ [3, 2] @ [4])"
  using bursts_are_detected [of "[2, 3]" "[3, 2]" "[1]" "[4]" 0 0] by simp

text \<open>A message can be summed in pieces.\<close>

lemma CRC16_append: "CRC16 (xs @ ys) crc = CRC16 ys (CRC16 xs crc)"
  by (simp add: CRC16_ref crc16_ref_def)

lemma crypto_crc32_append: "crypto_crc32 crc (xs @ ys) = crypto_crc32 (crypto_crc32 crc xs) ys"
  by (simp add: crypto_crc32_def crc32_loop_ref crc32_ref_def)

text \<open>The usual check values.\<close>

lemma check_values:
  "CRC16 [0x31, 0x32, 0x33, 0x34, 0x35, 0x36, 0x37, 0x38, 0x39] 0 = 0x31C3"
  "crypto_crc32 0 [0x31, 0x32, 0x33, 0x34, 0x35, 0x36, 0x37, 0x38, 0x39] = 0xCBF43926"
  by code_simp+

end
