(* ===== verification/AuthCrypto.thy ===== *)
theory AuthCrypto
  imports Alarm_Prelude "HOL-Library.Word"
begin

text \<open>
  The random strings, nonces and keys that authorise a request to the cloud
  (\<open>sys/DCL/authorization/auth_crypto.c\<close>). The digest and the base-64 coder of mbedtls, the random numbers
  and the clock are parameters:
  \<^item> \<open>sha1\<close> gives the 20 bytes of the digest, \<open>base64\<close> the text of some bytes;
  \<^item> \<open>rand s i\<close> is the \<open>i\<close>-th number after \<open>srand(s)\<close>, \<open>now\<close> the clock in milliseconds.
  Strings are their characters before the terminator.
\<close>

type_synonym bytes = "8 word list"

record crypto_lib =
  sha1 :: "string \<Rightarrow> bytes"
  base64 :: "bytes \<Rightarrow> string"
  rand :: "nat \<Rightarrow> nat \<Rightarrow> nat"

section \<open>Operations\<close>

definition metachar :: string where
  "metachar = ''ABCDEFGHIJKLMNOPQRSTUVWXYZabcdefghijklmnopqrstuvwxyz0123456789''"

text \<open>\<open>iLen - 1\<close> is unsigned: a length of zero runs through the memory.\<close>

definition crypto_rand_str :: "crypto_lib \<Rightarrow> nat \<Rightarrow> nat \<Rightarrow> string option" where
  "crypto_rand_str l now iLen =
     (if iLen = 0 then None else Some (map (\<lambda>i. metachar ! (rand l now i mod 62)) [0..<iLen - 1]))"

definition as_text :: "bytes \<Rightarrow> string" where
  "as_text = map (\<lambda>b. char_of (unat b))"

definition snprintf_str :: "nat \<Rightarrow> string \<Rightarrow> string" where
  "snprintf_str n s = take (n - 1) s"

definition crypto_sha1prng :: "crypto_lib \<Rightarrow> nat \<Rightarrow> string \<Rightarrow> bytes option" where
  "crypto_sha1prng l now strMac = do {
     strSeed \<leftarrow> crypto_rand_str l now 17;
     let strSeedFull = snprintf_str 64 (strMac @ strSeed);
     let digest1 = sha1 l strSeedFull;
     let digest2 = sha1 l (as_text digest1);
     Some (take 16 digest2) }"

definition hex_digit :: "bool \<Rightarrow> nat \<Rightarrow> char" where
  "hex_digit upper d = char_of (if d < 10 then 48 + d else if upper then 55 + d else 87 + d)"

text \<open>\<open>%02X\<close> and \<open>%02x\<close> of a byte.\<close>

definition hex2 :: "bool \<Rightarrow> 8 word \<Rightarrow> string" where
  "hex2 upper b = [hex_digit upper (unat b div 16), hex_digit upper (unat b mod 16)]"

definition hex_text :: "bool \<Rightarrow> bytes \<Rightarrow> string" where
  "hex_text upper bs = concat (map (hex2 upper) bs)"

text \<open>
  The raw bytes of the address of the device are used as a string: they end at the first zero byte, and
  six bytes with none among them are read past their end.
\<close>

definition raw_mac_text :: "bytes \<Rightarrow> string option" where
  "raw_mac_text mac = c_str (length mac) (as_text (takeWhile (\<lambda>b. b \<noteq> 0) mac))"

definition crypto_random_byte :: "crypto_lib \<Rightarrow> nat \<Rightarrow> bytes \<Rightarrow> bytes option" where
  "crypto_random_byte l now mac = do { m \<leftarrow> raw_mac_text mac; crypto_sha1prng l now m }"

definition crypto_generate_request_id :: "crypto_lib \<Rightarrow> nat \<Rightarrow> bytes \<Rightarrow> nat \<Rightarrow> string option" where
  "crypto_generate_request_id l now mac out_len = do {
     m \<leftarrow> raw_mac_text mac;
     byte \<leftarrow> crypto_sha1prng l now m;
     Some (snprintf_str out_len (hex_text False byte)) }"

definition crypto_generate_nonce :: "crypto_lib \<Rightarrow> nat \<Rightarrow> bytes \<Rightarrow> nat \<Rightarrow> string option" where
  "crypto_generate_nonce l now mac iStrLen = do {
     s \<leftarrow> crypto_sha1prng l now (hex_text True mac);
     Some (if length (base64 l s) < iStrLen then base64 l s else []) }"

definition crypto_generate_nonce_hex :: "crypto_lib \<Rightarrow> nat \<Rightarrow> bytes \<Rightarrow> nat \<Rightarrow> string option" where
  "crypto_generate_nonce_hex l now mac iStrLen = do {
     s \<leftarrow> crypto_sha1prng l now (hex_text True mac);
     Some (snprintf_str iStrLen (hex_text True s)) }"

text \<open>When the buffer is too small the coder of mbedtls writes nothing; here the buffer keeps its old content.\<close>

definition crypto_generate_private_key :: "crypto_lib \<Rightarrow> string \<Rightarrow> nat \<Rightarrow> string \<Rightarrow> string \<Rightarrow> string \<Rightarrow> string" where
  "crypto_generate_private_key l old iStrLen strNonce strTimeStamp strRobotID =
     (let digest = sha1 l (snprintf_str 256 (strNonce @ strTimeStamp @ strRobotID));
          s = base64 l digest
      in if length s < iStrLen then s else old)"

section \<open>Facts\<close>

definition unhex_digit :: "char \<Rightarrow> nat" where
  "unhex_digit c = (let n = of_char c in if n < 58 then n - 48 else if n < 71 then n - 55 else n - 87)"

fun unhex :: "string \<Rightarrow> bytes" where
  "unhex (a # b # s) = word_of_nat (16 * unhex_digit a + unhex_digit b) # unhex s"
| "unhex _ = []"

lemma unhex_digit: "d < 16 \<Longrightarrow> unhex_digit (hex_digit u d) = d"
  by (auto simp: unhex_digit_def hex_digit_def)

lemma unhex_hex: "unhex (hex_text u bs) = bs"
proof (induction bs)
  case (Cons b bs)
  have "unat b < 256" using unsigned_less [of b] by simp
  then have "unat b div 16 < 16" "unat b mod 16 < 16" by auto
  with Cons show ?case by (simp add: hex_text_def hex2_def unhex_digit)
qed (simp add: hex_text_def)

lemma hex_length: "length (hex_text u bs) = 2 * length bs"
  by (induction bs) (simp_all add: hex_text_def hex2_def)

text \<open>What mbedtls promises: a digest has 20 bytes.\<close>

definition sha1_spec :: "crypto_lib \<Rightarrow> bool" where
  "sha1_spec l \<longleftrightarrow> (\<forall>s. length (sha1 l s) = 20)"

lemma sha1prng_length: "sha1_spec l \<Longrightarrow> crypto_sha1prng l now m = Some s \<Longrightarrow> length s = 16"
  by (auto simp: crypto_sha1prng_def sha1_spec_def crypto_rand_str_def Let_def)

text \<open>In a buffer of more than 32 bytes the hexadecimal nonce is always complete: it has 32 characters,
  and reading them back gives the 16 bytes of the double digest, whose seed is the address of the device in
  hexadecimal and sixteen random letters and digits.\<close>

theorem nonce_hex_is_readable:
  assumes "sha1_spec l" and "32 < iStrLen" and "length mac = 6"
  shows "\<exists>s r. crypto_generate_nonce_hex l now mac iStrLen = Some s \<and> length s = 32 \<and>
    unhex s = take 16 (sha1 l (as_text (sha1 l (hex_text True mac @ r)))) \<and> length r = 16 \<and> set r \<subseteq> set metachar"
proof -
  let ?r = "map (\<lambda>i. metachar ! (rand l now i mod 62)) [0..<16]"
  have r: "crypto_rand_str l now 17 = Some ?r" by (simp add: crypto_rand_str_def)
  have "length metachar = 62" by (simp add: metachar_def)
  then have m: "set ?r \<subseteq> set metachar" by (auto intro!: nth_mem)
  let ?d = "take 16 (sha1 l (as_text (sha1 l (hex_text True mac @ ?r))))"
  have "snprintf_str 64 (hex_text True mac @ ?r) = hex_text True mac @ ?r"
    using assms(3) by (simp add: snprintf_str_def hex_length)
  then have p: "crypto_sha1prng l now (hex_text True mac) = Some ?d"
    unfolding crypto_sha1prng_def r by (simp only: bind_Some_left Let_def)
  have "length (hex_text True ?d) = 32" using assms(1) by (simp add: hex_length sha1_spec_def)
  then have "crypto_generate_nonce_hex l now mac iStrLen = Some (hex_text True ?d)"
    using assms(2) unfolding crypto_generate_nonce_hex_def p by (simp add: snprintf_str_def)
  with \<open>length (hex_text True ?d) = 32\<close> m show ?thesis
    by (intro exI [of _ "hex_text True ?d"] exI [of _ ?r]) (simp add: unhex_hex)
qed

definition const_lib :: crypto_lib where
  "const_lib = \<lparr>sha1 = (\<lambda>s. replicate 20 7), base64 = (\<lambda>b. []), rand = (\<lambda>s i. i)\<rparr>"

lemma nonce_hex_is_readable_witness:
  "\<exists>s r. crypto_generate_nonce_hex const_lib 0 [1, 2, 3, 4, 5, 6] 64 = Some s \<and> length s = 32 \<and>
    unhex s = take 16 (sha1 const_lib (as_text (sha1 const_lib (hex_text True [1, 2, 3, 4, 5, 6] @ r)))) \<and>
    length r = 16 \<and> set r \<subseteq> set metachar"
  by (rule nonce_hex_is_readable) (simp_all add: sha1_spec_def const_lib_def)

text \<open>The identifier of a request is read from unterminated memory unless the address has a zero byte.\<close>

lemma request_id_needs_a_zero_byte:
  "crypto_generate_request_id l now mac n = None \<longleftrightarrow> 0 \<notin> set mac"
proof -
  have "length (takeWhile (\<lambda>b. b \<noteq> 0) mac) < length mac \<longleftrightarrow> 0 \<in> set mac"
    by (induction mac) auto
  then show ?thesis
    by (simp add: crypto_generate_request_id_def raw_mac_text_def c_str_def as_text_def crypto_sha1prng_def
        crypto_rand_str_def Let_def)
qed

end
