(* ===== verification/Led.thy ===== *)
theory Led
  imports KeyEvent
begin

text \<open>
  The lights: the LED task with its clients and modes (\<open>bsp/led.c\<close>), the registers of the colour chip and
  the pins of the night light behind it (\<open>bsp/extern_gpio.c\<close>), and the battery check, which shows a low
  battery (\<open>bsp/get_voltage.c\<close>).

  \<^item> \<open>l_dim\<close> is what the brightness registers of the chip hold; while \<open>l_bus\<close> is false the bus does not
    answer and a write is lost, which no caller looks at.
  \<^item> The callbacks of clients are recorded in \<open>l_trace\<close>, as are the calls on the key task.
\<close>

section \<open>Data\<close>

datatype led_client_pri_t = LED_CLIENT_PRI_URGENT | LED_CLIENT_PRI_SYS | LED_CLIENT_PRI_USR

datatype led_client_app_t = LED_CLIENT_BATTERY | LED_CLIENT_WECHAT | LED_CLIENT_ALARM | LED_CLIENT_OTHER

datatype led_breath_color_t = LED_BREATH_COLOR_RED | LED_BREATH_COLOR_BLUE | LED_BREATH_COLOR_GREEN
  | LED_BREATH_COLOR_PURPLE | LED_BREATH_COLOR_CYAN | LED_BREATH_COLOR_YELLOW | LED_BREATH_COLOR_WHITE

datatype led_mode_t = LED_MODE_ALL_OFF | LED_MODE_NIGHT_HALF | LED_MODE_NIGHT_ON | LED_MODE_RED_ON
  | LED_MODE_BLUE_ON | LED_MODE_GREEN_ON | LED_MODE_PURPLE_ON | LED_MODE_CYAN_ON | LED_MODE_COLORFUL_LOOP
  | LED_MODE_COLORFUL_BREATH | LED_MODE_RED_BLINK | LED_MODE_GREEN_BLINK | LED_MODE_BLUE_BLINK
  | LED_MODE_AUTO | LED_MODE_UNDEFINE

datatype led_notify_t = LED_NOTIFY_MODE_SWITCH_IGNORED | LED_NOTIFY_CLIENT_OCCUPY | LED_NOTIFY_UNDEFINE

text \<open>The enumerators in the order of their values.\<close>

fun pri_code :: "led_client_pri_t \<Rightarrow> nat" where
  "pri_code LED_CLIENT_PRI_URGENT = 0"
| "pri_code LED_CLIENT_PRI_SYS = 1"
| "pri_code LED_CLIENT_PRI_USR = 2"

definition led_modes :: "led_mode_t list" where
  "led_modes = [LED_MODE_ALL_OFF, LED_MODE_NIGHT_HALF, LED_MODE_NIGHT_ON, LED_MODE_RED_ON, LED_MODE_BLUE_ON,
     LED_MODE_GREEN_ON, LED_MODE_PURPLE_ON, LED_MODE_CYAN_ON, LED_MODE_COLORFUL_LOOP, LED_MODE_COLORFUL_BREATH,
     LED_MODE_RED_BLINK, LED_MODE_GREEN_BLINK, LED_MODE_BLUE_BLINK, LED_MODE_AUTO, LED_MODE_UNDEFINE]"

fun mode_code :: "led_mode_t \<Rightarrow> nat" where
  "mode_code LED_MODE_ALL_OFF = 0"
| "mode_code LED_MODE_NIGHT_HALF = 1"
| "mode_code LED_MODE_NIGHT_ON = 2"
| "mode_code LED_MODE_RED_ON = 3"
| "mode_code LED_MODE_BLUE_ON = 4"
| "mode_code LED_MODE_GREEN_ON = 5"
| "mode_code LED_MODE_PURPLE_ON = 6"
| "mode_code LED_MODE_CYAN_ON = 7"
| "mode_code LED_MODE_COLORFUL_LOOP = 8"
| "mode_code LED_MODE_COLORFUL_BREATH = 9"
| "mode_code LED_MODE_RED_BLINK = 10"
| "mode_code LED_MODE_GREEN_BLINK = 11"
| "mode_code LED_MODE_BLUE_BLINK = 12"
| "mode_code LED_MODE_AUTO = 13"
| "mode_code LED_MODE_UNDEFINE = 14"

definition led_colors :: "led_breath_color_t list" where
  "led_colors = [LED_BREATH_COLOR_RED, LED_BREATH_COLOR_BLUE, LED_BREATH_COLOR_GREEN, LED_BREATH_COLOR_PURPLE,
     LED_BREATH_COLOR_CYAN, LED_BREATH_COLOR_YELLOW, LED_BREATH_COLOR_WHITE]"

fun next_color :: "led_breath_color_t \<Rightarrow> led_breath_color_t" where
  "next_color LED_BREATH_COLOR_RED = LED_BREATH_COLOR_BLUE"
| "next_color LED_BREATH_COLOR_BLUE = LED_BREATH_COLOR_GREEN"
| "next_color LED_BREATH_COLOR_GREEN = LED_BREATH_COLOR_PURPLE"
| "next_color LED_BREATH_COLOR_PURPLE = LED_BREATH_COLOR_CYAN"
| "next_color LED_BREATH_COLOR_CYAN = LED_BREATH_COLOR_YELLOW"
| "next_color LED_BREATH_COLOR_YELLOW = LED_BREATH_COLOR_WHITE"
| "next_color LED_BREATH_COLOR_WHITE = LED_BREATH_COLOR_RED"

record led_client_t =
  lc_app :: led_client_app_t
  lc_pri :: led_client_pri_t
  lc_cb :: "addr option"

record ledmsg_t =
  lm_client :: led_client_t
  lm_mode :: led_mode_t

datatype led_event = LedCallback addr led_notify_t | LedMaskKeys "32 word" | LedUnmaskKeys "32 word"

record led_state =
  l_client :: led_client_t
  l_mode :: led_mode_t
  l_breath_step :: nat
  l_breath_color :: led_breath_color_t
  l_blink_step :: nat
  l_blink_onoff :: bool
  l_enable :: bool
  l_queue :: "ledmsg_t list"
  l_dim :: "8 word \<Rightarrow> 8 word"
  l_bus :: bool
  l_night :: "bool \<times> bool"
  l_trace :: "led_event list"

abbreviation LED_QUEUE_SIZE :: nat where "LED_QUEUE_SIZE \<equiv> 5"
abbreviation BLINK_STEPS :: nat where "BLINK_STEPS \<equiv> 800 div 100"

definition led_step_value :: "8 word list" where
  "led_step_value = [
    0x01, 0x02, 0x04, 0x06, 0x08, 0x0A, 0x0C, 0x0E,
    0x10, 0x14, 0x18, 0x1C, 0x20, 0x28, 0x30, 0x38,
    0x40, 0x50, 0x60, 0x70, 0x80, 0xA0, 0xC0, 0xE0,
    0xFF, 0xE0, 0xC0, 0xA0, 0x80, 0x70, 0x60, 0x50,
    0x40, 0x38, 0x30, 0x28, 0x20, 0x1C, 0x18, 0x14,
    0x10, 0x0E, 0x0C, 0x0A, 0x08, 0x06, 0x04, 0x02]"

section \<open>The chip and the pins\<close>

definition i2c_write_reg :: "8 word \<Rightarrow> 8 word \<Rightarrow> led_state \<Rightarrow> led_state" where
  "i2c_write_reg reg v s = (if l_bus s then s\<lparr>l_dim := (l_dim s)(reg := v)\<rparr> else s)"

abbreviation BLUE_1_DIM :: "8 word" where "BLUE_1_DIM \<equiv> 0x20"
abbreviation GREEN_1_DIM :: "8 word" where "GREEN_1_DIM \<equiv> 0x21"
abbreviation RED_1_DIM :: "8 word" where "RED_1_DIM \<equiv> 0x22"
abbreviation BLUE_2_DIM :: "8 word" where "BLUE_2_DIM \<equiv> 0x23"
abbreviation GREEN_2_DIM :: "8 word" where "GREEN_2_DIM \<equiv> 0x24"
abbreviation RED_2_DIM :: "8 word" where "RED_2_DIM \<equiv> 0x25"
abbreviation BLUE_3_DIM :: "8 word" where "BLUE_3_DIM \<equiv> 0x26"
abbreviation GREEN_3_DIM :: "8 word" where "GREEN_3_DIM \<equiv> 0x27"
abbreviation RED_3_DIM :: "8 word" where "RED_3_DIM \<equiv> 0x28"

definition rgb_display_red :: "8 word \<Rightarrow> led_state \<Rightarrow> led_state" where
  "rgb_display_red v s = i2c_write_reg RED_3_DIM v (i2c_write_reg RED_2_DIM v (i2c_write_reg RED_1_DIM v s))"

definition rgb_display_green :: "8 word \<Rightarrow> led_state \<Rightarrow> led_state" where
  "rgb_display_green v s =
     i2c_write_reg GREEN_3_DIM v (i2c_write_reg GREEN_2_DIM v (i2c_write_reg GREEN_1_DIM v s))"

definition rgb_display_blue :: "8 word \<Rightarrow> led_state \<Rightarrow> led_state" where
  "rgb_display_blue v s = i2c_write_reg BLUE_3_DIM v (i2c_write_reg BLUE_2_DIM v (i2c_write_reg BLUE_1_DIM v s))"

definition rgb_display_cyan :: "8 word \<Rightarrow> led_state \<Rightarrow> led_state" where
  "rgb_display_cyan v s = rgb_display_blue v (rgb_display_green v s)"

definition rgb_display_purple :: "8 word \<Rightarrow> led_state \<Rightarrow> led_state" where
  "rgb_display_purple v s = rgb_display_blue v (rgb_display_red v s)"

definition rgb_display_yellow :: "8 word \<Rightarrow> led_state \<Rightarrow> led_state" where
  "rgb_display_yellow v s = rgb_display_green v (rgb_display_red v s)"

definition rgb_display_white :: "8 word \<Rightarrow> led_state \<Rightarrow> led_state" where
  "rgb_display_white v s = rgb_display_blue v (rgb_display_green v (rgb_display_red v s))"

definition rgb_display_reset :: "led_state \<Rightarrow> led_state" where
  "rgb_display_reset s = rgb_display_blue 0 (rgb_display_green 0 (rgb_display_red 0 s))"

datatype night_light = NIGHT_LIGHT_OFF | NIGHT_LIGHT_HALF | NIGHT_LIGHT_ON

definition night_led_onoff :: "night_light \<Rightarrow> led_state \<Rightarrow> led_state" where
  "night_led_onoff v s =
     (case v of
        NIGHT_LIGHT_ON \<Rightarrow> s\<lparr>l_night := (False, True)\<rparr>
      | NIGHT_LIGHT_HALF \<Rightarrow> s\<lparr>l_night := (True, False)\<rparr>
      | NIGHT_LIGHT_OFF \<Rightarrow> s\<lparr>l_night := (False, False)\<rparr>)"

section \<open>The LED task\<close>

definition led_callback :: "addr option \<Rightarrow> led_notify_t \<Rightarrow> led_state \<Rightarrow> led_state" where
  "led_callback cb n s = (case cb of None \<Rightarrow> s | Some c \<Rightarrow> s\<lparr>l_trace := l_trace s @ [LedCallback c n]\<rparr>)"

definition free_client :: "led_client_t \<Rightarrow> led_client_t" where
  "free_client c = c\<lparr>lc_app := LED_CLIENT_OTHER, lc_pri := LED_CLIENT_PRI_USR, lc_cb := None\<rparr>"

text \<open>Lights of a mode when it begins; a mode without a case is set off, and its lights stay.\<close>

definition led_mode_begin :: "led_state \<Rightarrow> led_state" where
  "led_mode_begin s =
     (case l_mode s of
        LED_MODE_NIGHT_HALF \<Rightarrow> night_led_onoff NIGHT_LIGHT_HALF (rgb_display_reset s)
      | LED_MODE_NIGHT_ON \<Rightarrow> night_led_onoff NIGHT_LIGHT_ON (rgb_display_reset s)
      | LED_MODE_RED_ON \<Rightarrow> night_led_onoff NIGHT_LIGHT_OFF (rgb_display_red 0xFF (rgb_display_reset s))
      | LED_MODE_BLUE_ON \<Rightarrow> night_led_onoff NIGHT_LIGHT_OFF (rgb_display_blue 0xFF (rgb_display_reset s))
      | LED_MODE_GREEN_ON \<Rightarrow> night_led_onoff NIGHT_LIGHT_OFF (rgb_display_green 0xFF (rgb_display_reset s))
      | LED_MODE_PURPLE_ON \<Rightarrow> night_led_onoff NIGHT_LIGHT_OFF (rgb_display_purple 0xFF (rgb_display_reset s))
      | LED_MODE_CYAN_ON \<Rightarrow> night_led_onoff NIGHT_LIGHT_OFF (rgb_display_cyan 0xFF (rgb_display_reset s))
      | LED_MODE_AUTO \<Rightarrow> s\<lparr>l_mode := LED_MODE_ALL_OFF\<rparr>
      | LED_MODE_UNDEFINE \<Rightarrow> s\<lparr>l_mode := LED_MODE_ALL_OFF\<rparr>
      | _ \<Rightarrow> night_led_onoff NIGHT_LIGHT_OFF (rgb_display_reset
               (s\<lparr>l_breath_color := LED_BREATH_COLOR_RED, l_breath_step := 0, l_blink_step := 0,
                  l_blink_onoff := True\<rparr>)))"

text \<open>The mode a pat leads to.\<close>

definition auto_mode :: "led_mode_t \<Rightarrow> led_mode_t" where
  "auto_mode m =
     (if mode_code m \<le> mode_code LED_MODE_RED_BLINK then
        (let m' = led_modes ! ((mode_code m + 1) mod mode_code LED_MODE_RED_BLINK)
         in if m' = LED_MODE_COLORFUL_LOOP then LED_MODE_COLORFUL_BREATH else m')
      else LED_MODE_NIGHT_HALF)"

definition led_work_mode_switch :: "ledmsg_t \<Rightarrow> led_state \<Rightarrow> led_state" where
  "led_work_mode_switch msg s =
     (if pri_code (lc_pri (lm_client msg)) \<le> pri_code (lc_pri (l_client s)) then
        (let s1 = (led_callback (lc_cb (l_client s)) LED_NOTIFY_CLIENT_OCCUPY s)\<lparr>l_client := lm_client msg\<rparr>;
             s2 = (if lm_mode msg = LED_MODE_AUTO then s1\<lparr>l_mode := auto_mode (l_mode s1)\<rparr>
                   else if lm_mode msg = LED_MODE_ALL_OFF
                   then s1\<lparr>l_mode := lm_mode msg, l_client := free_client (l_client s1)\<rparr>
                   else s1\<lparr>l_mode := lm_mode msg\<rparr>)
         in led_mode_begin s2)
      else led_callback (lc_cb (lm_client msg)) LED_NOTIFY_MODE_SWITCH_IGNORED s)"

definition rgb_display :: "led_breath_color_t \<Rightarrow> 8 word \<Rightarrow> led_state \<Rightarrow> led_state" where
  "rgb_display c v s =
     (case c of
        LED_BREATH_COLOR_RED \<Rightarrow> rgb_display_red v s
      | LED_BREATH_COLOR_BLUE \<Rightarrow> rgb_display_blue v s
      | LED_BREATH_COLOR_GREEN \<Rightarrow> rgb_display_green v s
      | LED_BREATH_COLOR_PURPLE \<Rightarrow> rgb_display_purple v s
      | LED_BREATH_COLOR_CYAN \<Rightarrow> rgb_display_cyan v s
      | LED_BREATH_COLOR_YELLOW \<Rightarrow> rgb_display_yellow v s
      | LED_BREATH_COLOR_WHITE \<Rightarrow> rgb_display_white v s)"

definition breath_tick :: "led_state \<Rightarrow> led_state option" where
  "breath_tick s =
     (if l_breath_step s < length led_step_value then
        (let s1 = rgb_display (l_breath_color s) (led_step_value ! l_breath_step s) s;
             n = (l_breath_step s + 1) mod length led_step_value
         in Some (s1\<lparr>l_breath_step := n, l_breath_color := (if n = 0 then next_color (l_breath_color s) else l_breath_color s)\<rparr>))
      else None)"

text \<open>One tick of a light that goes on and off; \<open>c\<close> is its colour and \<open>off\<close> what else happens when it goes off.\<close>

definition blink_tick :: "led_breath_color_t \<Rightarrow> (led_state \<Rightarrow> led_state) \<Rightarrow> led_state \<Rightarrow> led_state" where
  "blink_tick c off s =
     (let s1 = (if l_blink_step s = 0 then
                  (if l_blink_onoff s then (rgb_display c 0xFF s)\<lparr>l_blink_onoff := False\<rparr>
                   else (off (rgb_display c 0 s))\<lparr>l_blink_onoff := True\<rparr>)
                else s)
      in s1\<lparr>l_blink_step := (l_blink_step s + 1) mod BLINK_STEPS\<rparr>)"

definition led_breath_blink_simulate :: "led_state \<Rightarrow> led_state option" where
  "led_breath_blink_simulate s =
     (case l_mode s of
        LED_MODE_COLORFUL_BREATH \<Rightarrow> breath_tick s
      | LED_MODE_COLORFUL_LOOP \<Rightarrow>
          Some (blink_tick (l_breath_color s) (\<lambda>s'. s'\<lparr>l_breath_color := next_color (l_breath_color s')\<rparr>) s)
      | LED_MODE_RED_BLINK \<Rightarrow> Some (blink_tick LED_BREATH_COLOR_RED (\<lambda>s. s) s)
      | LED_MODE_GREEN_BLINK \<Rightarrow> Some (blink_tick LED_BREATH_COLOR_GREEN (\<lambda>s. s) s)
      | LED_MODE_BLUE_BLINK \<Rightarrow> Some (blink_tick LED_BREATH_COLOR_BLUE (\<lambda>s. s) s)
      | _ \<Rightarrow> Some s)"

text \<open>A round of the task: a message, or nothing for 100 ms.\<close>

definition led_task :: "led_state \<Rightarrow> led_state option" where
  "led_task s =
     (case queue_receive (l_queue s) of
        Some (msg, q) \<Rightarrow> Some (led_work_mode_switch msg (s\<lparr>l_queue := q\<rparr>))
      | None \<Rightarrow> led_breath_blink_simulate s)"

section \<open>Clients\<close>

definition led_pri :: "led_client_app_t \<Rightarrow> led_client_pri_t" where
  "led_pri app =
     (case app of
        LED_CLIENT_BATTERY \<Rightarrow> LED_CLIENT_PRI_URGENT
      | LED_CLIENT_WECHAT \<Rightarrow> LED_CLIENT_PRI_SYS
      | LED_CLIENT_ALARM \<Rightarrow> LED_CLIENT_PRI_USR
      | LED_CLIENT_OTHER \<Rightarrow> LED_CLIENT_PRI_USR)"

definition led_msg :: "led_client_app_t \<Rightarrow> led_mode_t \<Rightarrow> addr option \<Rightarrow> ledmsg_t" where
  "led_msg app mode cb = \<lparr>lm_client = \<lparr>lc_app = app, lc_pri = led_pri app, lc_cb = cb\<rparr>, lm_mode = mode\<rparr>"

text \<open>A full queue makes the caller wait.\<close>

definition led_mode_set :: "led_client_app_t \<Rightarrow> led_mode_t \<Rightarrow> addr option \<Rightarrow> led_state \<Rightarrow> led_state option" where
  "led_mode_set app mode cb s =
     (if length (l_queue s) < LED_QUEUE_SIZE then Some (s\<lparr>l_queue := queue_send LED_QUEUE_SIZE (led_msg app mode cb) (l_queue s)\<rparr>)
      else None)"

definition led_mode_get :: "led_state \<Rightarrow> led_mode_t" where
  "led_mode_get s = l_mode s"

abbreviation KEY_CODE_BRIGHTNESS :: nat where "KEY_CODE_BRIGHTNESS \<equiv> 4"

definition led_keyprocess :: "nat \<Rightarrow> keypress_event_t \<Rightarrow> led_state \<Rightarrow> led_state option" where
  "led_keyprocess code ty s =
     (if code = KEY_CODE_BRIGHTNESS \<and> ty = KEY_EVNET_PRESS then
        (if l_enable s then
           (let s1 = s\<lparr>l_enable := False, l_trace := l_trace s @ [LedMaskKeys (KEYCODE_TO_KEYMASK KEY_CODE_PAT)]\<rparr>
            in if led_mode_get s1 \<noteq> LED_MODE_ALL_OFF then led_mode_set LED_CLIENT_OTHER LED_MODE_ALL_OFF None s1 else Some s1)
         else
           led_mode_set LED_CLIENT_OTHER LED_MODE_NIGHT_HALF None
             (s\<lparr>l_enable := True, l_trace := l_trace s @ [LedUnmaskKeys (KEYCODE_TO_KEYMASK KEY_CODE_PAT)]\<rparr>))
      else if code = KEY_CODE_PAT \<and> l_enable s \<and> ty = KEY_EVNET_PRESS
      then led_mode_set LED_CLIENT_OTHER LED_MODE_AUTO None s
      else Some s)"

definition led_init :: "(8 word \<Rightarrow> 8 word) \<Rightarrow> led_state" where
  "led_init dim = \<lparr>l_client = \<lparr>lc_app = LED_CLIENT_OTHER, lc_pri = LED_CLIENT_PRI_USR, lc_cb = None\<rparr>,
     l_mode = LED_MODE_ALL_OFF, l_breath_step = 0, l_breath_color = LED_BREATH_COLOR_RED, l_blink_step = 0,
     l_blink_onoff = False, l_enable = False, l_queue = [], l_dim = dim, l_bus = True, l_night = (False, False),
     l_trace = [LedMaskKeys (KEYCODE_TO_KEYMASK KEY_CODE_PAT)]\<rparr>"

section \<open>The battery\<close>

record battery =
  b_voltage :: "32 word"
  b_low :: int
  b_count :: "8 word"

datatype battery_result = Stays battery led_state | Restarts

text \<open>The check that the timer makes; \<open>mv\<close> is what the converter reads.\<close>

definition period_get_voltage_cb :: "32 word \<Rightarrow> battery \<Rightarrow> led_state \<Rightarrow> battery_result option" where
  "period_get_voltage_cb mv b s =
     (let v = mv + 250; b1 = b\<lparr>b_voltage := v\<rparr>
      in if v < 3600 \<and> 0 < b_low b1 \<and> 3500 < v then
           (let b2 = b1\<lparr>b_low := b_low b1 - 1, b_count := 0\<rparr>
            in if b_low b2 = 0 then map_option (Stays b2) (led_mode_set LED_CLIENT_BATTERY LED_MODE_RED_BLINK None s)
               else Some (Stays b2 s))
         else if 3700 < v then
           (let b2 = b1\<lparr>b_count := 0, b_low := 5\<rparr>
            in if led_mode_get s = LED_MODE_RED_BLINK
               then map_option (Stays b2) (led_mode_set LED_CLIENT_BATTERY LED_MODE_ALL_OFF None s)
               else Some (Stays b2 s))
         else if v < 3500 then
           (let b2 = b1\<lparr>b_count := b_count b1 + 1\<rparr>
            in if 3 < b_count b2 then Some Restarts else Some (Stays b2 s))
         else Some (Stays b1 s))"

definition battery_init :: battery where
  "battery_init = \<lparr>b_voltage = 4000, b_low = 5, b_count = 0\<rparr>"

text \<open>At the start the device waits for three good readings in a row; \<open>c\<close> counts them in a byte.\<close>

fun get_voltage_init :: "32 word list \<Rightarrow> 8 word \<Rightarrow> bool" where
  "get_voltage_init [] c = False"
| "get_voltage_init (mv # mvs) c =
     (let c1 = (if 3550 < mv + 250 then c + 1 else 0) in if 2 < c1 then True else get_voltage_init mvs c1)"

section \<open>The machine\<close>

datatype led_op = LedTask | LedSet led_client_app_t led_mode_t "addr option" | LedKey nat keypress_event_t | LedBus bool

fun led_step :: "led_op \<Rightarrow> led_state \<Rightarrow> led_state option" where
  "led_step LedTask s = led_task s"
| "led_step (LedSet app mode cb) s = led_mode_set app mode cb s"
| "led_step (LedKey code ty) s = led_keyprocess code ty s"
| "led_step (LedBus b) s = Some (s\<lparr>l_bus := b\<rparr>)"

end
