(* ===== verification/Led_Props.thy ===== *)
theory Led_Props
  imports Led
begin

text \<open>
  The lights: every round is defined, a low battery stays shown, pats go round nine modes, a blinking light
  is on and off in turn, and what the breathing colours leave behind.
\<close>

section \<open>What the calls leave alone\<close>

definition same_control :: "led_state \<Rightarrow> led_state \<Rightarrow> bool" where
  "same_control s s' \<longleftrightarrow> l_client s' = l_client s \<and> l_mode s' = l_mode s \<and> l_breath_step s' = l_breath_step s \<and>
     l_breath_color s' = l_breath_color s \<and> l_blink_step s' = l_blink_step s \<and> l_blink_onoff s' = l_blink_onoff s \<and>
     l_enable s' = l_enable s \<and> l_queue s' = l_queue s \<and> l_bus s' = l_bus s \<and> l_trace s' = l_trace s"

lemma i2c_fields [simp]:
  "l_client (i2c_write_reg r v s) = l_client s" "l_mode (i2c_write_reg r v s) = l_mode s"
  "l_breath_step (i2c_write_reg r v s) = l_breath_step s" "l_breath_color (i2c_write_reg r v s) = l_breath_color s"
  "l_blink_step (i2c_write_reg r v s) = l_blink_step s" "l_blink_onoff (i2c_write_reg r v s) = l_blink_onoff s"
  "l_enable (i2c_write_reg r v s) = l_enable s" "l_queue (i2c_write_reg r v s) = l_queue s"
  "l_bus (i2c_write_reg r v s) = l_bus s" "l_trace (i2c_write_reg r v s) = l_trace s"
  "l_night (i2c_write_reg r v s) = l_night s"
  by (simp_all add: i2c_write_reg_def)

lemma i2c_dim: "l_dim (i2c_write_reg r v s) = (if l_bus s then (l_dim s)(r := v) else l_dim s)"
  by (simp add: i2c_write_reg_def)

lemmas rgb_defs = rgb_display_red_def rgb_display_green_def rgb_display_blue_def rgb_display_cyan_def
  rgb_display_purple_def rgb_display_yellow_def rgb_display_white_def rgb_display_reset_def

lemma rgb_control: "same_control s (rgb_display c v s)" "l_night (rgb_display c v s) = l_night s"
  by (cases c; simp add: same_control_def rgb_display_def rgb_defs)+

lemma reset_control: "same_control s (rgb_display_reset s)"
  by (simp add: same_control_def rgb_defs)

lemma rgb_fields [simp]:
  "l_client (rgb_display c v s) = l_client s" "l_mode (rgb_display c v s) = l_mode s"
  "l_breath_step (rgb_display c v s) = l_breath_step s" "l_breath_color (rgb_display c v s) = l_breath_color s"
  "l_blink_step (rgb_display c v s) = l_blink_step s" "l_blink_onoff (rgb_display c v s) = l_blink_onoff s"
  "l_enable (rgb_display c v s) = l_enable s" "l_queue (rgb_display c v s) = l_queue s"
  "l_bus (rgb_display c v s) = l_bus s" "l_trace (rgb_display c v s) = l_trace s"
  using rgb_control(1) [of s c v] by (simp_all add: same_control_def)

text \<open>The registers that belong to a colour.\<close>

definition color_regs :: "led_breath_color_t \<Rightarrow> 8 word set" where
  "color_regs c =
     (let r = {RED_1_DIM, RED_2_DIM, RED_3_DIM}; g = {GREEN_1_DIM, GREEN_2_DIM, GREEN_3_DIM};
          b = {BLUE_1_DIM, BLUE_2_DIM, BLUE_3_DIM}
      in case c of
           LED_BREATH_COLOR_RED \<Rightarrow> r
         | LED_BREATH_COLOR_BLUE \<Rightarrow> b
         | LED_BREATH_COLOR_GREEN \<Rightarrow> g
         | LED_BREATH_COLOR_PURPLE \<Rightarrow> r \<union> b
         | LED_BREATH_COLOR_CYAN \<Rightarrow> g \<union> b
         | LED_BREATH_COLOR_YELLOW \<Rightarrow> r \<union> g
         | LED_BREATH_COLOR_WHITE \<Rightarrow> r \<union> g \<union> b)"

lemma rgb_dim: "l_bus s \<Longrightarrow> l_dim (rgb_display c v s) = (\<lambda>r. if r \<in> color_regs c then v else l_dim s r)"
  by (cases c) (auto simp: rgb_display_def rgb_defs i2c_dim color_regs_def fun_eq_iff)

lemma reset_dim: "l_bus s \<Longrightarrow> l_dim (rgb_display_reset s) = (\<lambda>r. if r \<in> color_regs LED_BREATH_COLOR_WHITE then 0 else l_dim s r)"
  by (auto simp: rgb_defs i2c_dim color_regs_def fun_eq_iff)

section \<open>Every round is defined\<close>

definition led_inv :: "led_state \<Rightarrow> bool" where
  "led_inv s \<longleftrightarrow> l_mode s \<noteq> LED_MODE_AUTO \<and> l_mode s \<noteq> LED_MODE_UNDEFINE \<and>
     l_breath_step s < length led_step_value \<and> l_blink_step s < BLINK_STEPS \<and> length (l_queue s) \<le> LED_QUEUE_SIZE"

text \<open>A client calls when there is room in the queue.\<close>

fun led_ok :: "led_op \<Rightarrow> led_state \<Rightarrow> bool" where
  "led_ok LedTask s = True"
| "led_ok (LedBus b) s = True"
| "led_ok op s = (length (l_queue s) < LED_QUEUE_SIZE)"

lemma steps_48 [simp]: "length led_step_value = 48"
  by (simp add: led_step_value_def)

lemma night_fields [simp]:
  "l_client (night_led_onoff v s) = l_client s" "l_mode (night_led_onoff v s) = l_mode s"
  "l_breath_step (night_led_onoff v s) = l_breath_step s" "l_breath_color (night_led_onoff v s) = l_breath_color s"
  "l_blink_step (night_led_onoff v s) = l_blink_step s" "l_blink_onoff (night_led_onoff v s) = l_blink_onoff s"
  "l_enable (night_led_onoff v s) = l_enable s" "l_queue (night_led_onoff v s) = l_queue s"
  "l_bus (night_led_onoff v s) = l_bus s" "l_trace (night_led_onoff v s) = l_trace s" "l_dim (night_led_onoff v s) = l_dim s"
  by (cases v; simp add: night_led_onoff_def)+

lemma begin_fields [simp]:
  "l_client (led_mode_begin s) = l_client s" "l_enable (led_mode_begin s) = l_enable s"
  "l_queue (led_mode_begin s) = l_queue s" "l_bus (led_mode_begin s) = l_bus s" "l_trace (led_mode_begin s) = l_trace s"
  by (cases "l_mode s"; simp add: led_mode_begin_def rgb_defs)+

lemma begin_mode: "l_mode (led_mode_begin s) = (if l_mode s \<in> {LED_MODE_AUTO, LED_MODE_UNDEFINE} then LED_MODE_ALL_OFF else l_mode s)"
  by (cases "l_mode s") (simp_all add: led_mode_begin_def rgb_defs)

lemma begin_steps:
  "l_breath_step s < 48 \<Longrightarrow> l_breath_step (led_mode_begin s) < 48"
  "l_blink_step s < 8 \<Longrightarrow> l_blink_step (led_mode_begin s) < 8"
  by (cases "l_mode s"; simp add: led_mode_begin_def rgb_defs)+

lemma callback_fields [simp]:
  "l_client (led_callback cb n s) = l_client s" "l_mode (led_callback cb n s) = l_mode s"
  "l_breath_step (led_callback cb n s) = l_breath_step s" "l_blink_step (led_callback cb n s) = l_blink_step s"
  "l_queue (led_callback cb n s) = l_queue s" "l_bus (led_callback cb n s) = l_bus s" "l_enable (led_callback cb n s) = l_enable s"
  "l_dim (led_callback cb n s) = l_dim s"
  by (cases cb; simp add: led_callback_def)+

lemma switch_inv: "led_inv s \<Longrightarrow> led_inv (led_work_mode_switch msg s)"
  by (auto simp: led_inv_def led_work_mode_switch_def Let_def begin_mode begin_steps)

lemma blink_fields [simp]:
  "l_client (blink_tick c (\<lambda>s. s) s) = l_client s" "l_mode (blink_tick c (\<lambda>s. s) s) = l_mode s"
  "l_queue (blink_tick c (\<lambda>s. s) s) = l_queue s" "l_bus (blink_tick c (\<lambda>s. s) s) = l_bus s"
  by (simp_all add: blink_tick_def Let_def)

lemma blink_inv: "led_inv s \<Longrightarrow> (\<And>t. l_mode (off t) = l_mode t \<and> l_breath_step (off t) = l_breath_step t \<and> l_queue (off t) = l_queue t)
    \<Longrightarrow> led_inv (blink_tick c off s)"
  by (auto simp: led_inv_def blink_tick_def Let_def)

lemma simulate_inv: "led_inv s \<Longrightarrow> \<exists>s'. led_breath_blink_simulate s = Some s' \<and> led_inv s'"
  by (cases "l_mode s")
    (auto simp: led_breath_blink_simulate_def breath_tick_def Let_def intro!: blink_inv, simp_all add: led_inv_def)

interpretation led: safe_machine led_step led_inv led_ok
proof unfold_locales
  fix s op
  assume inv: "led_inv s" and ok: "led_ok op s"
  show "\<exists>s'. led_step op s = Some s' \<and> led_inv s'"
  proof (cases op)
    case LedTask
    show ?thesis
    proof (cases "l_queue s")
      case Nil
      with LedTask simulate_inv [OF inv] show ?thesis by (simp add: led_task_def)
    next
      case (Cons msg q)
      have "led_inv (s\<lparr>l_queue := q\<rparr>)" using inv Cons by (simp add: led_inv_def)
      with LedTask Cons switch_inv show ?thesis by (simp add: led_task_def)
    qed
  qed (use inv ok in \<open>auto simp: led_inv_def led_mode_set_def led_keyprocess_def queue_send_def Let_def\<close>)
qed

lemma led_inv_init: "led_inv (led_init dim)"
  by (simp add: led_inv_def led_init_def)

text \<open>C31: In every state that the LED task and its clients can reach, whatever the bus does, every round of
  the task and every call made with room in the queue is defined; the mode is one that has lights, and the
  tables are read inside their bounds.\<close>

theorem led_machine_is_safe:
  assumes "reach led_step led_ok (range led_init) s" and "led_ok op s"
  shows "\<exists>s'. led_step op s = Some s' \<and> l_mode s' \<noteq> LED_MODE_AUTO \<and> l_mode s' \<noteq> LED_MODE_UNDEFINE \<and>
    l_breath_step s' < length led_step_value \<and> l_blink_step s' < BLINK_STEPS \<and> length (l_queue s') \<le> LED_QUEUE_SIZE"
proof -
  obtain s' where "led_step op s = Some s'" "led_inv s'"
    using led.reach_not_stuck [OF assms(1) _ assms(2)] led_inv_init by blast
  then show ?thesis by (auto simp: led_inv_def)
qed

lemma led_machine_is_safe_witness:
  "\<exists>s'. led_step (LedKey 4 KEY_EVNET_PRESS) (led_init (\<lambda>r. 0)) = Some s' \<and> l_mode s' \<noteq> LED_MODE_AUTO \<and>
    l_mode s' \<noteq> LED_MODE_UNDEFINE \<and> l_breath_step s' < length led_step_value \<and> l_blink_step s' < BLINK_STEPS \<and>
    length (l_queue s') \<le> LED_QUEUE_SIZE"
  by (rule led_machine_is_safe) (auto intro: reach_init simp: led_init_def)

section \<open>Priorities\<close>

text \<open>What a message of a client of lower priority does: the client is told, and nothing else.\<close>

lemma lower_is_ignored:
  "pri_code (lc_pri (l_client s)) < pri_code (lc_pri (lm_client msg)) \<Longrightarrow>
   led_work_mode_switch msg s = led_callback (lc_cb (lm_client msg)) LED_NOTIFY_MODE_SWITCH_IGNORED s"
  by (simp add: led_work_mode_switch_def)

definition shows_low_battery :: "led_state \<Rightarrow> bool" where
  "shows_low_battery s \<longleftrightarrow> l_mode s = LED_MODE_RED_BLINK \<and> lc_pri (l_client s) = LED_CLIENT_PRI_URGENT \<and>
     (\<forall>m\<in>set (l_queue s). lc_pri (lm_client m) \<noteq> LED_CLIENT_PRI_URGENT)"

fun not_battery :: "led_op \<Rightarrow> bool" where
  "not_battery (LedSet app mode cb) = (app \<noteq> LED_CLIENT_BATTERY)"
| "not_battery op = True"

lemma led_pri_urgent: "led_pri app = LED_CLIENT_PRI_URGENT \<longleftrightarrow> app = LED_CLIENT_BATTERY"
  by (cases app) (simp_all add: led_pri_def)

lemma pri_zero: "pri_code p = 0 \<longleftrightarrow> p = LED_CLIENT_PRI_URGENT"
  by (cases p) simp_all

lemma set_keeps:
  assumes "shows_low_battery s" "app \<noteq> LED_CLIENT_BATTERY" "led_mode_set app mode cb s = Some s'"
  shows "shows_low_battery s'"
  using assms by (auto simp: shows_low_battery_def led_mode_set_def queue_send_def led_msg_def led_pri_urgent split: if_splits)

lemma low_battery_frame:
  "shows_low_battery s \<Longrightarrow> shows_low_battery (s\<lparr>l_enable := b, l_trace := tr\<rparr>)"
  by (simp add: shows_low_battery_def)

lemma low_battery_step:
  assumes "shows_low_battery s" "not_battery op" "led_step op s = Some s'"
  shows "shows_low_battery s' \<and> l_client s' = l_client s"
proof (cases op)
  case LedTask
  show ?thesis
  proof (cases "l_queue s")
    case Nil
    with LedTask assms show ?thesis
      by (auto simp: led_task_def led_breath_blink_simulate_def shows_low_battery_def)
  next
    case (Cons msg q)
    have "pri_code (lc_pri (lm_client msg)) \<noteq> 0" using assms(1) Cons pri_zero by (auto simp: shows_low_battery_def)
    then have "led_work_mode_switch msg (s\<lparr>l_queue := q\<rparr>) = led_callback (lc_cb (lm_client msg)) LED_NOTIFY_MODE_SWITCH_IGNORED (s\<lparr>l_queue := q\<rparr>)"
      using assms(1) by (intro lower_is_ignored) (auto simp: shows_low_battery_def)
    with LedTask Cons assms show ?thesis by (auto simp: led_task_def shows_low_battery_def)
  qed
next
  case (LedSet app mode cb)
  with assms set_keeps [OF assms(1)] show ?thesis by (auto simp: led_mode_set_def split: if_splits)
next
  case (LedKey code ty)
  have "shows_low_battery s'" using assms(1,3) LedKey
    by (auto simp: led_keyprocess_def led_mode_set_def queue_send_def led_msg_def led_pri_def shows_low_battery_def
        Let_def split: if_splits)
  moreover have "l_client s' = l_client s" using assms(3) LedKey
    by (auto simp: led_keyprocess_def led_mode_set_def Let_def split: if_splits)
  ultimately show ?thesis by simp
next
  case (LedBus b)
  with assms show ?thesis by (auto simp: shows_low_battery_def)
qed

text \<open>Once the battery shows its red blinking light, nothing that keys, voice messages, alarms and other
  clients do can change the mode or take the light away, in any order of calls and rounds of the task; only
  a call of the battery can.\<close>

theorem low_battery_stays_shown:
  assumes "led.oks ops s" and "led_inv s" and "shows_low_battery s" and "list_all not_battery ops"
  shows "\<exists>s'. run_opt led_step ops s = Some s' \<and> l_mode s' = LED_MODE_RED_BLINK \<and> l_client s' = l_client s"
proof -
  obtain s' where s': "run_opt led_step ops s = Some s'" using led.run_safe [OF assms(2,1)] by blast
  have "shows_low_battery s' \<and> l_client s' = l_client s" using assms(3,4) s'
  proof (induction ops arbitrary: s)
    case (Cons op ops)
    then obtain s1 where s1: "led_step op s = Some s1" "run_opt led_step ops s1 = Some s'" by (auto simp: ub_simps)
    with low_battery_step [OF Cons.prems(1) _ s1(1)] Cons show ?case by auto
  qed simp
  with s' show ?thesis by (auto simp: shows_low_battery_def)
qed

definition blinking :: led_state where
  "blinking = (led_init (\<lambda>r. 0))\<lparr>l_mode := LED_MODE_RED_BLINK, l_client := lm_client (led_msg LED_CLIENT_BATTERY LED_MODE_RED_BLINK None)\<rparr>"

lemma low_battery_stays_shown_witness:
  "\<exists>s'. run_opt led_step [LedKey 4 KEY_EVNET_PRESS, LedTask, LedKey 11 KEY_EVNET_PRESS, LedTask] blinking = Some s' \<and>
    l_mode s' = LED_MODE_RED_BLINK \<and> l_client s' = l_client blinking"
  by (rule low_battery_stays_shown)
    (simp_all add: led.oks.simps blinking_def led_init_def led_inv_def shows_low_battery_def led_msg_def led_pri_def
      led_keyprocess_def led_mode_set_def led_task_def led_work_mode_switch_def led_callback_def queue_send_def Let_def)

section \<open>The battery\<close>

text \<open>Checks one after the other.\<close>

fun battery_run :: "32 word list \<Rightarrow> battery \<Rightarrow> led_state \<Rightarrow> battery_result option" where
  "battery_run [] b s = Some (Stays b s)"
| "battery_run (mv # mvs) b s =
     (case period_get_voltage_cb mv b s of
        Some (Stays b' s') \<Rightarrow> battery_run mvs b' s'
      | r \<Rightarrow> r)"

definition low_reading :: "32 word \<Rightarrow> bool" where
  "low_reading mv \<longleftrightarrow> 3500 < mv + 250 \<and> mv + 250 < 3600"

lemma battery_low_step:
  "low_reading mv \<Longrightarrow> 1 < b_low b \<Longrightarrow>
   period_get_voltage_cb mv b s = Some (Stays (b\<lparr>b_voltage := mv + 250, b_low := b_low b - 1, b_count := 0\<rparr>) s)"
  by (simp add: period_get_voltage_cb_def Let_def low_reading_def)

lemma battery_last_step:
  "low_reading mv \<Longrightarrow> b_low b = 1 \<Longrightarrow> l_queue s = [] \<Longrightarrow>
   period_get_voltage_cb mv b s = Some (Stays (b\<lparr>b_voltage := mv + 250, b_low := 0, b_count := 0\<rparr>)
     (s\<lparr>l_queue := [led_msg LED_CLIENT_BATTERY LED_MODE_RED_BLINK None]\<rparr>))"
  by (simp add: period_get_voltage_cb_def Let_def low_reading_def led_mode_set_def queue_send_def)

lemma battery_lows:
  "list_all low_reading mvs \<Longrightarrow> int (length mvs) < b_low b \<Longrightarrow>
   \<exists>b'. battery_run mvs b s = Some (Stays b' s) \<and> b_low b' = b_low b - int (length mvs)"
proof (induction mvs arbitrary: b)
  case (Cons mv mvs)
  let ?b = "b\<lparr>b_voltage := mv + 250, b_low := b_low b - 1, b_count := 0\<rparr>"
  from Cons.IH [of ?b] Cons.prems obtain b' where "battery_run mvs ?b s = Some (Stays b' s)" "b_low b' = b_low ?b - int (length mvs)"
    by auto
  with Cons.prems battery_low_step [of mv b s] show ?case by simp
qed simp

lemma battery_run_append:
  "battery_run mvs b s = Some (Stays b' s') \<Longrightarrow> battery_run (mvs @ ws) b s = battery_run ws b' s'"
  by (induction mvs arbitrary: b s) (auto split: option.splits battery_result.splits)

text \<open>Five checks in a row that read between 3.5 and 3.6 volts, the first after a full battery, make the
  light blink red in the next round of the LED task, whatever it showed before and whoever had it.\<close>

theorem low_battery_gets_shown:
  assumes "list_all low_reading mvs" "length mvs = 5" "b_low b = 5" "l_queue s = []"
  shows "\<exists>b' s' s''. battery_run mvs b s = Some (Stays b' s') \<and> b_low b' = 0 \<and> led_task s' = Some s'' \<and>
    shows_low_battery s''"
proof -
  obtain ws w where w: "mvs = ws @ [w]" "length ws = 4" using assms(2) by (cases mvs rule: rev_cases) auto
  obtain b1 where b1: "battery_run ws b s = Some (Stays b1 s)" "b_low b1 = 1"
    using battery_lows [of ws b s] assms(1,3) w by auto
  let ?s = "s\<lparr>l_queue := [led_msg LED_CLIENT_BATTERY LED_MODE_RED_BLINK None]\<rparr>"
  have "battery_run mvs b s = Some (Stays (b1\<lparr>b_voltage := w + 250, b_low := 0, b_count := 0\<rparr>) ?s)"
    using battery_run_append [OF b1(1)] battery_last_step [of w b1 s] assms(1,4) w b1(2) by simp
  moreover obtain s'' where "led_task ?s = Some s''" "shows_low_battery s''"
    by (simp add: led_task_def led_work_mode_switch_def led_msg_def led_pri_def Let_def shows_low_battery_def begin_mode)
  ultimately show ?thesis by (intro exI conjI) auto
qed

lemma low_battery_gets_shown_witness:
  "\<exists>b' s' s''. battery_run [3300, 3310, 3300, 3260, 3349] battery_init (led_init (\<lambda>r. 0)) = Some (Stays b' s') \<and> b_low b' = 0 \<and>
    led_task s' = Some s'' \<and> shows_low_battery s''"
  by (rule low_battery_gets_shown) (simp_all add: low_reading_def battery_init_def led_init_def)

section \<open>Lights in time\<close>

fun blink_color :: "led_mode_t \<Rightarrow> led_breath_color_t option" where
  "blink_color LED_MODE_RED_BLINK = Some LED_BREATH_COLOR_RED"
| "blink_color LED_MODE_GREEN_BLINK = Some LED_BREATH_COLOR_GREEN"
| "blink_color LED_MODE_BLUE_BLINK = Some LED_BREATH_COLOR_BLUE"
| "blink_color _ = None"

lemma blink_task:
  "blink_color (l_mode s) = Some c \<Longrightarrow> l_queue s = [] \<Longrightarrow> led_task s = Some (blink_tick c (\<lambda>s. s) s)"
  by (cases "l_mode s") (auto simp: led_task_def led_breath_blink_simulate_def)

lemma run_snoc: "run_opt step (is @ [i]) s = Option.bind (run_opt step is s) (step i)"
proof (cases "run_opt step is s")
  case (Some a)
  then show ?thesis by (cases "step i a") (simp_all add: run_opt_append)
qed (simp add: run_opt_append)

lemma blink_begin:
  assumes "blink_color (l_mode s) = Some c" "l_bus s"
  shows "l_blink_step (led_mode_begin s) = 0 \<and> l_blink_onoff (led_mode_begin s) \<and> l_mode (led_mode_begin s) = l_mode s \<and>
    (\<forall>r\<in>color_regs LED_BREATH_COLOR_WHITE. l_dim (led_mode_begin s) r = 0)"
  using assms by (cases "l_mode s") (simp_all add: led_mode_begin_def reset_dim, simp_all add: rgb_defs)

lemma blink_tick_simps:
  "l_blink_step (blink_tick c (\<lambda>s. s) s) = (l_blink_step s + 1) mod 8"
  "l_blink_onoff (blink_tick c (\<lambda>s. s) s) = (if l_blink_step s = 0 then \<not> l_blink_onoff s else l_blink_onoff s)"
  "l_bus s \<Longrightarrow> l_dim (blink_tick c (\<lambda>s. s) s) r =
     (if l_blink_step s = 0 \<and> r \<in> color_regs c then (if l_blink_onoff s then 0xFF else 0) else l_dim s r)"
  by (simp_all add: blink_tick_def Let_def rgb_dim)

lemma blink_run:
  assumes "blink_color (l_mode s) = Some c" "l_bus s" "l_queue s = []" "l_blink_step s = 0" "l_blink_onoff s"
    and "\<forall>r\<in>color_regs LED_BREATH_COLOR_WHITE. l_dim s r = 0"
  shows "\<exists>s'. run_opt led_step (replicate n LedTask) s = Some s' \<and> l_mode s' = l_mode s \<and> l_bus s' \<and> l_queue s' = [] \<and>
    l_blink_step s' = n mod 8 \<and> (l_blink_onoff s' \<longleftrightarrow> even (n div 8) = (n mod 8 = 0)) \<and>
    (\<forall>r\<in>color_regs LED_BREATH_COLOR_WHITE. l_dim s' r = (if r \<in> color_regs c \<and> 0 < n \<and> even ((n - 1) div 8) then 0xFF else 0))"
proof (induction n)
  case 0
  with assms show ?case by simp
next
  case (Suc n)
  from Suc.IH obtain s1 where s1: "run_opt led_step (replicate n LedTask) s = Some s1" "l_mode s1 = l_mode s" "l_bus s1" "l_queue s1 = []"
    "l_blink_step s1 = n mod 8" "l_blink_onoff s1 \<longleftrightarrow> even (n div 8) = (n mod 8 = 0)"
    "\<forall>r\<in>color_regs LED_BREATH_COLOR_WHITE. l_dim s1 r = (if r \<in> color_regs c \<and> 0 < n \<and> even ((n - 1) div 8) then 0xFF else 0)"
    by (elim exE conjE) (rule that; assumption)
  let ?s = "blink_tick c (\<lambda>s. s) s1"
  have run: "run_opt led_step (replicate (Suc n) LedTask) s = Some ?s"
    using s1 blink_task [of s1 c] assms(1) run_snoc [of led_step "replicate n LedTask" LedTask s]
    by (simp add: replicate_append_same)
  have on: "l_blink_onoff ?s \<longleftrightarrow> even (Suc n div 8) = (Suc n mod 8 = 0)"
    using s1(5,6) by (auto simp: blink_tick_simps div_Suc mod_Suc)
  have dim: "l_dim ?s r = (if r \<in> color_regs c \<and> 0 < Suc n \<and> even ((Suc n - 1) div 8) then 0xFF else 0)"
    if r: "r \<in> color_regs LED_BREATH_COLOR_WHITE" for r
  proof (cases "n mod 8 = 0")
    case True
    with s1 r show ?thesis by (auto simp: blink_tick_simps)
  next
    case False
    then obtain m where "n = Suc m" by (cases n) auto
    with s1 False r show ?thesis by (simp add: blink_tick_simps div_Suc)
  qed
  have st: "l_blink_step ?s = Suc n mod 8" using s1(5) by (simp add: blink_tick_simps mod_Suc_eq)
  show ?case
    by (rule exI [of _ ?s], intro conjI ballI; (rule run on st dim; assumption?)?) (use s1 in simp_all)
qed

text \<open>A blinking light, in the time between messages, is on for eight rounds of 100 ms and off for
  eight, starting with on: after \<open>n\<close> rounds the registers of its colour are full or zero accordingly and the
  others zero.\<close>

theorem blinking_light_in_time:
  assumes "blink_color (l_mode s) = Some c" "l_bus s" "l_queue s = []"
  shows "\<exists>s'. run_opt led_step (replicate n LedTask) (led_mode_begin s) = Some s' \<and>
    (\<forall>r\<in>color_regs LED_BREATH_COLOR_WHITE. l_dim s' r = (if r \<in> color_regs c \<and> 0 < n \<and> even ((n - 1) div 8) then 0xFF else 0))"
  using blink_run [of "led_mode_begin s" c n] blink_begin [OF assms(1,2)] assms by auto

lemma blinking_light_in_time_witness:
  "\<exists>s'. run_opt led_step (replicate 20 LedTask) (led_mode_begin blinking) = Some s' \<and>
    (\<forall>r\<in>color_regs LED_BREATH_COLOR_WHITE. l_dim s' r = (if r \<in> color_regs LED_BREATH_COLOR_RED \<and> 0 < (20::nat) \<and> even ((20 - 1) div 8 :: nat) then 0xFF else 0))"
  by (rule blinking_light_in_time) (simp_all add: blinking_def led_init_def)

section \<open>Pats\<close>

definition pat_cycle :: "led_mode_t list" where
  "pat_cycle = [LED_MODE_ALL_OFF, LED_MODE_NIGHT_HALF, LED_MODE_NIGHT_ON, LED_MODE_RED_ON, LED_MODE_BLUE_ON,
     LED_MODE_GREEN_ON, LED_MODE_PURPLE_ON, LED_MODE_CYAN_ON, LED_MODE_COLORFUL_BREATH]"

lemma below_9: "k < 9 \<Longrightarrow> k = 0 \<or> k = 1 \<or> k = 2 \<or> k = 3 \<or> k = 4 \<or> k = 5 \<or> k = 6 \<or> k = 7 \<or> k = (8::nat)"
  by presburger

lemma auto_mode_cycle: "k < 9 \<Longrightarrow> auto_mode (pat_cycle ! k) = pat_cycle ! ((k + 1) mod 9)"
  by (drule below_9) (elim disjE; simp add: auto_mode_def pat_cycle_def led_modes_def)

lemma pat_cycle_mode: "k < 9 \<Longrightarrow> pat_cycle ! k \<notin> {LED_MODE_AUTO, LED_MODE_UNDEFINE}"
  by (drule below_9) (elim disjE; simp add: pat_cycle_def)

lemma one_pat:
  assumes "l_enable s" "l_queue s = []" "lc_pri (l_client s) = LED_CLIENT_PRI_USR" "l_mode s = pat_cycle ! k" "k < 9"
  shows "\<exists>s'. run_opt led_step [LedKey KEY_CODE_PAT KEY_EVNET_PRESS, LedTask] s = Some s' \<and> l_enable s' \<and> l_queue s' = [] \<and>
    lc_pri (l_client s') = LED_CLIENT_PRI_USR \<and> l_mode s' = pat_cycle ! ((k + 1) mod 9)"
  using assms pat_cycle_mode [of "(k + 1) mod 9"]
  by (simp add: led_keyprocess_def led_mode_set_def queue_send_def led_task_def led_work_mode_switch_def led_msg_def led_pri_def
      Let_def begin_mode auto_mode_cycle)

text \<open>While no other client has the light, pats go round nine modes: off, the night light half and full,
  five plain colours and the breathing colours; after nine pats the light is off again.\<close>

theorem pats_go_round:
  assumes "l_enable s" "l_queue s = []" "lc_pri (l_client s) = LED_CLIENT_PRI_USR" "l_mode s = LED_MODE_ALL_OFF"
  shows "\<exists>s'. run_opt led_step (concat (replicate k [LedKey KEY_CODE_PAT KEY_EVNET_PRESS, LedTask])) s = Some s' \<and>
    l_mode s' = pat_cycle ! (k mod 9)"
proof -
  have "\<exists>s'. run_opt led_step (concat (replicate k [LedKey KEY_CODE_PAT KEY_EVNET_PRESS, LedTask])) s = Some s' \<and> l_enable s' \<and>
    l_queue s' = [] \<and> lc_pri (l_client s') = LED_CLIENT_PRI_USR \<and> l_mode s' = pat_cycle ! (k mod 9)"
  proof (induction k)
    case 0
    with assms show ?case by (simp add: pat_cycle_def)
  next
    case (Suc k)
    then obtain s1 where s1: "run_opt led_step (concat (replicate k [LedKey KEY_CODE_PAT KEY_EVNET_PRESS, LedTask])) s = Some s1"
      "l_enable s1" "l_queue s1 = []" "lc_pri (l_client s1) = LED_CLIENT_PRI_USR" "l_mode s1 = pat_cycle ! (k mod 9)" by blast
    have "replicate (Suc k) [LedKey KEY_CODE_PAT KEY_EVNET_PRESS, LedTask] =
      replicate k [LedKey KEY_CODE_PAT KEY_EVNET_PRESS, LedTask] @ [[LedKey KEY_CODE_PAT KEY_EVNET_PRESS, LedTask]]"
      by (simp add: replicate_append_same)
    then have "run_opt led_step (concat (replicate (Suc k) [LedKey KEY_CODE_PAT KEY_EVNET_PRESS, LedTask])) s =
      run_opt led_step [LedKey KEY_CODE_PAT KEY_EVNET_PRESS, LedTask] s1"
      using s1(1) by (simp only: concat_append run_opt_append bind_Some_left concat.simps append_Nil2)
    with one_pat [OF s1(2-5)] show ?case by (simp add: mod_Suc_eq)
  qed
  then show ?thesis by blast
qed

lemma pats_go_round_witness:
  "\<exists>s'. run_opt led_step (concat (replicate 12 [LedKey KEY_CODE_PAT KEY_EVNET_PRESS, LedTask])) ((led_init (\<lambda>r. 0))\<lparr>l_enable := True\<rparr>) = Some s' \<and>
    l_mode s' = LED_MODE_RED_ON"
  using pats_go_round [of "(led_init (\<lambda>r. 0))\<lparr>l_enable := True\<rparr>" 12] by (simp add: led_init_def pat_cycle_def)

section \<open>The breathing colours\<close>

text \<open>In its first 48 rounds the light breathes red; then red stays at its last value while blue begins.\<close>

lemma breath_run:
  assumes "l_mode s = LED_MODE_COLORFUL_BREATH" "l_queue s = []" "l_bus s" "l_breath_step s = 0" "l_breath_color s = c"
  shows "0 < n \<Longrightarrow> n \<le> 48 \<Longrightarrow> \<exists>s'. run_opt led_step (replicate n LedTask) s = Some s' \<and> l_mode s' = LED_MODE_COLORFUL_BREATH \<and>
    l_queue s' = [] \<and> l_bus s' \<and> l_breath_step s' = n mod 48 \<and> l_breath_color s' = (if n = 48 then next_color c else c) \<and>
    l_dim s' = (\<lambda>r. if r \<in> color_regs c then led_step_value ! (n - 1) else l_dim s r)"
proof (induction n)
  case (Suc n)
  show ?case
  proof (cases "n = 0")
    case True
    with assms show ?thesis
      by (auto simp: led_task_def led_breath_blink_simulate_def breath_tick_def Let_def rgb_dim fun_eq_iff)
  next
    case False
    with Suc obtain s1 where s1: "run_opt led_step (replicate n LedTask) s = Some s1" "l_mode s1 = LED_MODE_COLORFUL_BREATH"
      "l_queue s1 = []" "l_bus s1" "l_breath_step s1 = n" "l_breath_color s1 = c"
      "l_dim s1 = (\<lambda>r. if r \<in> color_regs c then led_step_value ! (n - 1) else l_dim s r)" by auto
    have "run_opt led_step (replicate (Suc n) LedTask) s = led_task s1"
      using s1 run_snoc [of led_step "replicate n LedTask" LedTask s] by (simp add: replicate_append_same)
    with s1 Suc.prems show ?thesis
      by (auto simp: led_task_def led_breath_blink_simulate_def breath_tick_def Let_def rgb_dim fun_eq_iff)
  qed
qed simp

lemma breath_leaves_red:
  assumes "l_mode s = LED_MODE_COLORFUL_BREATH" "l_queue s = []" "l_bus s"
  shows "\<exists>s'. run_opt led_step (replicate 49 LedTask) (led_mode_begin s) = Some s' \<and>
    (\<forall>r\<in>color_regs LED_BREATH_COLOR_RED. l_dim s' r = 2) \<and> (\<forall>r\<in>color_regs LED_BREATH_COLOR_BLUE. l_dim s' r = 1)"
proof -
  let ?s = "led_mode_begin s"
  have b: "l_mode ?s = LED_MODE_COLORFUL_BREATH" "l_queue ?s = []" "l_bus ?s" "l_breath_step ?s = 0" "l_breath_color ?s = LED_BREATH_COLOR_RED"
    using assms by (simp_all add: led_mode_begin_def rgb_defs)
  from breath_run [OF b, of 48] obtain s1 where s1: "run_opt led_step (replicate 48 LedTask) ?s = Some s1"
    "l_mode s1 = LED_MODE_COLORFUL_BREATH" "l_queue s1 = []" "l_bus s1" "l_breath_step s1 = 0"
    "l_breath_color s1 = LED_BREATH_COLOR_BLUE"
    "l_dim s1 = (\<lambda>r. if r \<in> color_regs LED_BREATH_COLOR_RED then led_step_value ! (48 - 1) else l_dim ?s r)" by auto
  have "replicate 49 LedTask = replicate 48 LedTask @ [LedTask]" by (simp add: numeral_eq_Suc)
  then have "run_opt led_step (replicate 49 LedTask) ?s = led_task s1" using s1(1) by (simp only: run_snoc) simp
  moreover have "led_step_value ! (48 - 1) = 2" "led_step_value ! 0 = 1" by (simp_all add: led_step_value_def)
  ultimately show ?thesis using s1
    by (auto simp: led_task_def led_breath_blink_simulate_def breath_tick_def Let_def rgb_dim color_regs_def)
qed

end
