(* ===== verification/Display.thy ===== *)
theory Display
  imports KeyEvent
begin

text \<open>
  The clock display and the keys behind it: the display task with its clients (\<open>bsp/display.c\<close>) and the
  driver of the TM1628 chip (\<open>bsp/tm1628.c\<close>), which is spoken to over three pins.

  \<^item> What the driver does to the pins is recorded in \<open>d_pins\<close>; the levels it reads are an input.
  \<^item> The display memory \<open>tm1628_display_reg\<close> is the list of its 14 bytes, two for each of the seven grids; a
    segment is a bit.
  \<^item> The messages to the key task are recorded in \<open>d_notify\<close>.
  \<^item> A buffer of a client is its rectangle and the bytes of the union.
\<close>

section \<open>Data\<close>

datatype pin = Stb bool | Clk bool | Dio bool | DioInput | DioOutput

datatype display_rect_t = DISPLAY_RECT_TIME | DISPLAY_RECT_WIFI | DISPLAY_RECT_BRIGHTNESSE | DISPLAY_RECT_NONE

record display_buff_t =
  db_rect :: display_rect_t
  db_byte0 :: "8 word"
  db_byte1 :: "8 word"

record display_client_t =
  dc_id :: nat
  dc_buffer :: display_buff_t

abbreviation DISPLAY_CLIENT_MAX :: nat where "DISPLAY_CLIENT_MAX \<equiv> 2"
abbreviation DISPLAY_QUEUE_SIZE :: nat where "DISPLAY_QUEUE_SIZE \<equiv> 4"
abbreviation COL_NUM :: nat where "COL_NUM \<equiv> 2"
abbreviation ROW_NUM :: nat where "ROW_NUM \<equiv> 5"
abbreviation TM1628_GRID_MAX :: nat where "TM1628_GRID_MAX \<equiv> 7"
abbreviation COLON_TICKS :: "8 word" where "COLON_TICKS \<equiv> 10"

record display =
  d_client :: "display_client_t list"
  d_next :: nat
  d_queue :: "nat list"
  d_reg :: "8 word list"
  d_colon :: bool
  d_count :: "8 word"
  d_hour :: "8 word"
  d_minute :: "8 word"
  d_keys :: "keypress_t list list"
  d_reset :: keypress_t
  d_pins :: "pin list"
  d_notify :: "(nat \<times> keypress_t) list"

definition leddata :: "8 word list" where
  "leddata = [0x3F, 0x18, 0x6D, 0x7C, 0x5A, 0x76, 0x77, 0x1C, 0x7F, 0x7E]"

abbreviation KEY_CODE_RESET :: nat where "KEY_CODE_RESET \<equiv> 12"

definition key_code_array :: "nat list list" where
  "key_code_array = [[3, 5, 6, 2, 9], [4, 10, 0, 8, 1]]"

section \<open>The chip\<close>

text \<open>Eight bits, the lowest first; the chip takes a bit when the clock rises.\<close>

fun shift_out :: "nat \<Rightarrow> 8 word \<Rightarrow> pin list" where
  "shift_out 0 cmd = []"
| "shift_out (Suc n) cmd = [Clk False, Dio (cmd AND 0x01 \<noteq> 0), Clk True] @ shift_out n (drop_bit 1 cmd)"

definition d_emit :: "pin list \<Rightarrow> display \<Rightarrow> display" where
  "d_emit ps s = s\<lparr>d_pins := d_pins s @ ps\<rparr>"

definition tm1628_send_command :: "8 word \<Rightarrow> display \<Rightarrow> display" where
  "tm1628_send_command cmd = d_emit ([DioOutput, Stb False] @ shift_out 8 cmd @ [Stb True])"

text \<open>Sending shifts the bytes out of the memory: it is zero afterwards.\<close>

definition tm1628_write_multi_data :: "8 word \<Rightarrow> display \<Rightarrow> display" where
  "tm1628_write_multi_data cmd s =
     (d_emit ([DioOutput, Stb False] @ shift_out 8 cmd @ concat (map (shift_out 8) (d_reg s)) @ [Stb True]) s)
       \<lparr>d_reg := map (\<lambda>b. drop_bit 8 b) (d_reg s)\<rparr>"

definition shift_in_pins :: "pin list" where
  "shift_in_pins = concat (replicate 8 [Clk False, Clk True])"

text \<open>The bits of a byte in the order they are read.\<close>

fun shift_in :: "nat \<Rightarrow> bool list \<Rightarrow> 8 word" where
  "shift_in i [] = 0"
| "shift_in i (b # bs) = (if b then set_bit i (shift_in (Suc i) bs) else unset_bit i (shift_in (Suc i) bs))"

definition tm1628_read_multi_data :: "8 word \<Rightarrow> bool list list \<Rightarrow> display \<Rightarrow> 8 word list \<times> display" where
  "tm1628_read_multi_data cmd input s =
     (map (shift_in 0) input,
      d_emit ([DioOutput, Stb False] @ shift_out 8 cmd @ [DioInput] @ concat (map (\<lambda>b. shift_in_pins) input) @ [Stb True]) s)"

section \<open>The digits\<close>

definition put_bit :: "nat \<Rightarrow> bool \<Rightarrow> 8 word \<Rightarrow> 8 word" where
  "put_bit i b w = (if b then set_bit i w else unset_bit i w)"

definition put_seg :: "nat \<Rightarrow> nat \<Rightarrow> bool \<Rightarrow> 8 word list \<Rightarrow> 8 word list" where
  "put_seg i k b reg = reg[i := put_bit k b (reg ! i)]"

text \<open>A grid holds one segment of each of the four digits.\<close>

definition update_grid :: "8 word \<Rightarrow> 8 word \<Rightarrow> 8 word \<Rightarrow> 8 word \<Rightarrow> nat \<Rightarrow> 8 word list \<Rightarrow> 8 word list" where
  "update_grid a b c d g reg =
     put_seg (2 * g + 1) 0 (bit d g) (put_seg (2 * g) 7 (bit c g) (put_seg (2 * g) 6 (bit b g) (put_seg (2 * g) 5 (bit a g) reg)))"

definition tm1628_update_time :: "8 word \<Rightarrow> 8 word \<Rightarrow> display \<Rightarrow> display option" where
  "tm1628_update_time hours minutes s =
     (let h = unat hours; m = unat minutes
      in if h div 10 < length leddata \<and> m div 10 < length leddata
         then Some (s\<lparr>d_reg := fold (update_grid (leddata ! (h div 10)) (leddata ! (h mod 10)) (leddata ! (m div 10))
                (leddata ! (m mod 10))) [0..<TM1628_GRID_MAX] (d_reg s)\<rparr>)
         else None)"

definition tm1628_update_colon :: "bool \<Rightarrow> display \<Rightarrow> display" where
  "tm1628_update_colon on s = s\<lparr>d_reg := put_seg 3 1 on (put_seg 1 1 on (d_reg s))\<rparr>"

section \<open>The keys\<close>

definition report_keycode :: "nat \<Rightarrow> nat \<Rightarrow> keypress_t \<Rightarrow> display \<Rightarrow> display option" where
  "report_keycode col row press s =
     (if COL_NUM < col \<or> ROW_NUM < row then Some s
      else if col = COL_NUM \<or> row = ROW_NUM then None
      else if d_keys s ! col ! row \<noteq> press then
        Some (s\<lparr>d_keys := (d_keys s)[col := (d_keys s ! col)[row := press]],
                d_notify := d_notify s @ [(key_code_array ! col ! row, press)]\<rparr>)
      else Some s)"

text \<open>The keys in the order they are looked at: column, row, byte and bit.\<close>

definition scan_plan :: "(nat \<times> nat \<times> nat \<times> 8 word) list" where
  "scan_plan = [(0, 0, 0, 0x01), (0, 1, 0, 0x08), (1, 0, 0, 0x02), (1, 1, 0, 0x10),
     (0, 2, 1, 0x01), (1, 2, 1, 0x02), (0, 3, 1, 0x08), (1, 3, 1, 0x10), (0, 4, 2, 0x01), (1, 4, 2, 0x02)]"

fun scan_keys :: "8 word list \<Rightarrow> (nat \<times> nat \<times> nat \<times> 8 word) list \<Rightarrow> display \<Rightarrow> display option" where
  "scan_keys reg [] s = Some s"
| "scan_keys reg ((col, row, byte, msk) # ps) s =
     Option.bind (report_keycode col row (if msk AND reg ! byte \<noteq> 0 then KEY_ACTION_PRESS else KEY_ACTION_RELEASE) s)
       (scan_keys reg ps)"

definition check_reset_status :: "bool \<Rightarrow> display \<Rightarrow> display" where
  "check_reset_status level s =
     (let press = (if level then KEY_ACTION_RELEASE else KEY_ACTION_PRESS)
      in if d_reset s = press then s else s\<lparr>d_reset := press, d_notify := d_notify s @ [(KEY_CODE_RESET, press)]\<rparr>)"

section \<open>A tick\<close>

text \<open>What a tick takes from outside: factory mode, the bits that the chip sends, the level of the reset key.\<close>

record tick_env =
  te_factory :: bool
  te_input :: "bool list list"
  te_reset :: bool

definition show_time :: "display \<Rightarrow> display option" where
  "show_time s =
     map_option (\<lambda>s1. tm1628_write_multi_data 0xC0 (tm1628_update_colon (d_colon s1) s1)) (tm1628_update_time (d_hour s) (d_minute s) s)"

definition tm1628_tick_process :: "tick_env \<Rightarrow> display_buff_t option \<Rightarrow> display \<Rightarrow> display option" where
  "tm1628_tick_process e buff s =
     (let s1 = (case buff of None \<Rightarrow> s | Some b \<Rightarrow> s\<lparr>d_hour := db_byte0 b, d_minute := db_byte1 b\<rparr>);
          turn = (d_count s1 = COLON_TICKS);
          s2 = (if turn then s1\<lparr>d_colon := \<not> d_colon s1, d_count := 0\<rparr> else s1\<lparr>d_count := d_count s1 + 1\<rparr>);
          need_update = ((buff \<noteq> None \<or> turn) \<and> \<not> te_factory e)
      in do {
        s3 \<leftarrow> (if need_update then show_time s2 else Some s2);
        let (reg, s4) = tm1628_read_multi_data 0x42 (te_input e) s3;
        s5 \<leftarrow> scan_keys reg scan_plan s4;
        Some (check_reset_status (te_reset e) s5) })"

definition tm1628_set_brightness :: "display_buff_t \<Rightarrow> display \<Rightarrow> display" where
  "tm1628_set_brightness b = tm1628_send_command (db_byte0 b)"

definition tm1628_init :: "bool \<Rightarrow> display \<Rightarrow> display option" where
  "tm1628_init factory s =
     (let s1 = s\<lparr>d_reg := replicate 14 0\<rparr>
      in do {
        s2 \<leftarrow> (if factory then map_option (tm1628_update_colon True) (tm1628_update_time 88 88 s1) else Some s1);
        Some (tm1628_send_command 0x8F (tm1628_write_multi_data 0xC0
          (tm1628_send_command 0x40 (tm1628_send_command 0x03 s2)))) })"

section \<open>The display task\<close>

definition alloc_display_client :: "display \<Rightarrow> nat option \<times> display" where
  "alloc_display_client s =
     (if d_next s < DISPLAY_CLIENT_MAX
      then (Some (d_next s), s\<lparr>d_client := (d_client s)[d_next s := (d_client s ! d_next s)\<lparr>dc_id := d_next s + 1\<rparr>],
              d_next := d_next s + 1\<rparr>)
      else (None, s))"

definition blank_client :: display_client_t where
  "blank_client = \<lparr>dc_id = 0, dc_buffer = \<lparr>db_rect = DISPLAY_RECT_TIME, db_byte0 = 0, db_byte1 = 0\<rparr>\<rparr>"

definition free_display_client :: "nat option \<Rightarrow> display \<Rightarrow> display" where
  "free_display_client buff s =
     (case buff of None \<Rightarrow> s | Some i \<Rightarrow> s\<lparr>d_client := (d_client s)[i := blank_client]\<rparr>)"

text \<open>A client writes into its buffer, then sends the pointer; a full queue makes it wait.\<close>

definition fill_buffer :: "nat \<Rightarrow> display_buff_t \<Rightarrow> display \<Rightarrow> display" where
  "fill_buffer i b s = s\<lparr>d_client := (d_client s)[i := (d_client s ! i)\<lparr>dc_buffer := b\<rparr>]\<rparr>"

definition display_update :: "nat \<Rightarrow> display \<Rightarrow> display option" where
  "display_update i s =
     (if length (d_queue s) < DISPLAY_QUEUE_SIZE then Some (s\<lparr>d_queue := queue_send DISPLAY_QUEUE_SIZE i (d_queue s)\<rparr>) else None)"

definition display_task :: "tick_env \<Rightarrow> display \<Rightarrow> display option" where
  "display_task e s =
     (case queue_receive (d_queue s) of
        None \<Rightarrow> tm1628_tick_process e None s
      | Some (i, q) \<Rightarrow>
          (if i < length (d_client s) then
             (let s1 = s\<lparr>d_queue := q\<rparr>; b = dc_buffer (d_client s ! i)
              in case db_rect b of
                   DISPLAY_RECT_TIME \<Rightarrow> tm1628_tick_process e (Some b) s1
                 | DISPLAY_RECT_BRIGHTNESSE \<Rightarrow> Some (tm1628_set_brightness b s1)
                 | _ \<Rightarrow> Some s1)
           else None))"

definition display_task_init :: "8 word list \<Rightarrow> display" where
  "display_task_init reg = \<lparr>d_client = replicate DISPLAY_CLIENT_MAX blank_client, d_next = 0, d_queue = [], d_reg = reg,
     d_colon = True, d_count = 0, d_hour = 0, d_minute = 0,
     d_keys = replicate COL_NUM (replicate ROW_NUM KEY_ACTION_RELEASE), d_reset = KEY_ACTION_RELEASE,
     d_pins = [], d_notify = []\<rparr>"

datatype display_op = DTask tick_env | DAlloc | DFree "nat option" | DUpdate nat display_buff_t

fun display_step :: "display_op \<Rightarrow> display \<Rightarrow> display option" where
  "display_step (DTask e) s = display_task e s"
| "display_step DAlloc s = Some (snd (alloc_display_client s))"
| "display_step (DFree i) s = Some (free_display_client i s)"
| "display_step (DUpdate i b) s = display_update i (fill_buffer i b s)"

end
