(* ===== verification/Display_Props.thy ===== *)
theory Display_Props
  imports Display
begin

text \<open>
  The display and its keys: every step is defined; what the pins carry is what the chip receives, and the
  time it shows can be read off it; a key is reported exactly when its state changes.
\<close>

section \<open>The shift register\<close>

text \<open>
  The chip as its data sheet describes it: while \<open>Stb\<close> is low it takes the level of \<open>Dio\<close> whenever the
  clock rises and the pin is an output; a transfer ends when \<open>Stb\<close> rises.
\<close>

fun chip :: "bool \<Rightarrow> bool \<Rightarrow> bool list \<Rightarrow> pin list \<Rightarrow> bool list list" where
  "chip out dio acc [] = []"
| "chip out dio acc (Stb False # ps) = chip out dio [] ps"
| "chip out dio acc (Stb True # ps) = acc # chip out dio [] ps"
| "chip out dio acc (Clk False # ps) = chip out dio acc ps"
| "chip out dio acc (Clk True # ps) = chip out dio (if out then acc @ [dio] else acc) ps"
| "chip out dio acc (Dio b # ps) = chip out b acc ps"
| "chip out dio acc (DioInput # ps) = chip False dio acc ps"
| "chip out dio acc (DioOutput # ps) = chip True dio acc ps"

text \<open>Bytes, the lowest bit first.\<close>

fun byte_list :: "bool list \<Rightarrow> 8 word list" where
  "byte_list (a # b # c # d # e # f # g # h # bs) = shift_in 0 [a, b, c, d, e, f, g, h] # byte_list bs"
| "byte_list _ = []"

definition transfers :: "pin list \<Rightarrow> 8 word list list" where
  "transfers ps = map byte_list (chip False False [] ps)"

definition byte_bits :: "8 word \<Rightarrow> bool list" where
  "byte_bits b = map (bit b) [0..<8]"

lemma shift_out_chip:
  "chip True dio acc (shift_out n b @ ps) = chip True (if n = 0 then dio else bit b (n - 1)) (acc @ map (bit b) [0..<n]) ps"
proof (induction n arbitrary: b dio acc)
  case (Suc n)
  have odd: "b AND 0x01 \<noteq> 0 \<longleftrightarrow> bit b 0" by (simp add: and_one_eq bit_0 odd_iff_mod_2_eq_one)
  have bits: "[bit b 0] @ map (bit (drop_bit 1 b)) [0..<n] = map (bit b) [0..<Suc n]"
    by (rule nth_equalityI) (auto simp: bit_drop_bit_eq nth_Cons' simp del: upt_Suc)
  have "chip True dio acc (shift_out (Suc n) b @ ps) = chip True (bit b 0) (acc @ [bit b 0]) (shift_out n (drop_bit 1 b) @ ps)"
    by (simp add: odd [simplified])
  also have "\<dots> = chip True (if n = 0 then bit b 0 else bit (drop_bit 1 b) (n - 1)) ((acc @ [bit b 0]) @ map (bit (drop_bit 1 b)) [0..<n]) ps"
    by (rule Suc.IH)
  also have "(acc @ [bit b 0]) @ map (bit (drop_bit 1 b)) [0..<n] = acc @ map (bit b) [0..<Suc n]"
    by (simp only: bits append_assoc)
  also have "(if n = 0 then bit b 0 else bit (drop_bit 1 b) (n - 1)) = bit b n" by (cases n) (simp_all add: bit_drop_bit_eq)
  finally show ?case by simp
qed simp

lemma shift_byte: "\<exists>d. chip True dio acc (shift_out 8 b @ ps) = chip True d (acc @ byte_bits b) ps"
  by (simp only: shift_out_chip byte_bits_def) auto

lemma shift_bytes: "\<exists>d. chip True dio acc (concat (map (shift_out 8) bs) @ ps) = chip True d (acc @ concat (map byte_bits bs)) ps"
proof (induction bs arbitrary: dio acc)
  case (Cons b bs)
  obtain d where "chip True dio acc (shift_out 8 b @ concat (map (shift_out 8) bs) @ ps) =
      chip True d (acc @ byte_bits b) (concat (map (shift_out 8) bs) @ ps)" using shift_byte by blast
  with Cons.IH [of d "acc @ byte_bits b"] show ?case by simp
qed auto

lemma upt_8: "[0..<8] = [0, 1, 2, 3, 4, 5, 6, 7]"
  by (simp add: upt_rec)

lemma shift_in_bit: "bit (shift_in i bs) k \<longleftrightarrow> i \<le> k \<and> k < i + length bs \<and> k < 8 \<and> bs ! (k - i)"
  by (induction bs arbitrary: i) (auto simp: bit_set_bit_iff bit_unset_bit_iff nth_Cons' Suc_diff_le not_less_eq_eq)

lemma shift_in_bits: "shift_in 0 (byte_bits b) = b"
  by (rule bit_word_eqI) (auto simp: shift_in_bit byte_bits_def)

lemma byte_list_bits: "byte_list (byte_bits b @ bs) = b # byte_list bs"
  using shift_in_bits [of b] by (simp add: byte_bits_def upt_8)

lemma byte_list_concat: "byte_list (concat (map byte_bits bs)) = bs"
  by (induction bs) (simp_all add: byte_list_bits)

lemma write_chip:
  "\<exists>d. chip out dio acc ([DioOutput, Stb False] @ shift_out 8 cmd @ concat (map (shift_out 8) bs) @ [Stb True] @ ps) =
     concat (map byte_bits (cmd # bs)) # chip True d [] ps"
proof -
  obtain d where d: "chip True dio [] (shift_out 8 cmd @ concat (map (shift_out 8) bs) @ [Stb True] @ ps) =
     chip True d (byte_bits cmd) (concat (map (shift_out 8) bs) @ [Stb True] @ ps)" using shift_byte [of dio "[]"] by auto
  obtain d' where "chip True d (byte_bits cmd) (concat (map (shift_out 8) bs) @ [Stb True] @ ps) =
     chip True d' (byte_bits cmd @ concat (map byte_bits bs)) ([Stb True] @ ps)" using shift_bytes [of d] by blast
  with d show ?thesis by auto
qed

lemma write_transfers:
  "\<exists>out d. transfers ([DioOutput, Stb False] @ shift_out 8 cmd @ concat (map (shift_out 8) bs) @ [Stb True] @ ps) =
     (cmd # bs) # map byte_list (chip out d [] ps)"
proof -
  obtain d where "chip False False [] ([DioOutput, Stb False] @ shift_out 8 cmd @ concat (map (shift_out 8) bs) @ [Stb True] @ ps) =
     concat (map byte_bits (cmd # bs)) # chip True d [] ps" using write_chip by blast
  then show ?thesis unfolding transfers_def
    using byte_list_concat [of "cmd # bs"] by (intro exI [of _ True] exI [of _ d]) simp
qed

section \<open>The digits on the display\<close>

text \<open>A digit as the eye reads it: the segments of one position, from the seven grids.\<close>

definition segments :: "8 word list \<Rightarrow> nat \<Rightarrow> nat \<Rightarrow> bool list" where
  "segments reg byte k = map (\<lambda>g. bit (reg ! (2 * g + byte)) k) [0..<TM1628_GRID_MAX]"

definition digit_segments :: "nat \<Rightarrow> bool list" where
  "digit_segments d = map (bit (leddata ! d)) [0..<TM1628_GRID_MAX]"

definition read_digit :: "bool list \<Rightarrow> nat option" where
  "read_digit segs = List.find (\<lambda>d. digit_segments d = segs) [0..<10]"

definition read_clock :: "8 word list \<Rightarrow> (nat \<times> nat \<times> bool) option" where
  "read_clock reg = do {
     a \<leftarrow> read_digit (segments reg 0 5);
     b \<leftarrow> read_digit (segments reg 0 6);
     c \<leftarrow> read_digit (segments reg 0 7);
     d \<leftarrow> read_digit (segments reg 1 0);
     Some (10 * a + b, 10 * c + d, bit (reg ! 1) 1 \<and> bit (reg ! 3) 1) }"

lemma upt_10: "[0..<10] = [0, 1, 2, 3, 4, 5, 6, 7, 8, 9]"
  by (simp add: upt_rec)

lemma upt_7: "[0..<7] = [0, 1, 2, 3, 4, 5, 6]"
  by (simp add: upt_rec)

lemma below_10: "d < 10 \<Longrightarrow> d = 0 \<or> d = 1 \<or> d = 2 \<or> d = 3 \<or> d = 4 \<or> d = 5 \<or> d = 6 \<or> d = 7 \<or> d = 8 \<or> d = (9::nat)"
  by presburger

text \<open>No two digits look alike.\<close>

lemma read_digit_segments: "d < 10 \<Longrightarrow> read_digit (digit_segments d) = Some d"
  by (drule below_10) (elim disjE; simp add: read_digit_def digit_segments_def leddata_def upt_10 upt_7 bit_0)

lemma put_bit_bit: "bit (put_bit i b w) k \<longleftrightarrow> k < 8 \<and> (if k = i then b else bit w k)"
  by (auto simp: put_bit_def bit_set_bit_iff bit_unset_bit_iff dest: bit_imp_le_length)

lemma put_seg_length [simp]: "length (put_seg i k b reg) = length reg"
  by (simp add: put_seg_def)

lemma put_seg_bit: "i < length reg \<Longrightarrow>
    bit (put_seg i k b reg ! j) n \<longleftrightarrow> (if j = i then n < 8 \<and> (if n = k then b else bit (reg ! i) n) else bit (reg ! j) n)"
  by (simp add: put_seg_def put_bit_bit)

lemma update_grid_length [simp]: "length (update_grid a b c d g reg) = length reg"
  by (simp add: update_grid_def)

lemma fold_update_length [simp]: "length (fold (update_grid a b c d) gs reg) = length reg"
  by (induction gs arbitrary: reg) simp_all

lemma update_grid_bits:
  assumes "length reg = 14" "g < 7" "h < 7"
  shows "bit (update_grid a b c d g reg ! (2 * h)) 5 = (if h = g then bit a g else bit (reg ! (2 * h)) 5)"
    "bit (update_grid a b c d g reg ! (2 * h)) 6 = (if h = g then bit b g else bit (reg ! (2 * h)) 6)"
    "bit (update_grid a b c d g reg ! (2 * h)) 7 = (if h = g then bit c g else bit (reg ! (2 * h)) 7)"
    "bit (update_grid a b c d g reg ! (2 * h + 1)) 0 = (if h = g then bit d g else bit (reg ! (2 * h + 1)) 0)"
proof -
  have ne: "2 * h \<noteq> 2 * g + 1" "2 * h + 1 \<noteq> 2 * g" by presburger+
  show "bit (update_grid a b c d g reg ! (2 * h)) 5 = (if h = g then bit a g else bit (reg ! (2 * h)) 5)"
    "bit (update_grid a b c d g reg ! (2 * h)) 6 = (if h = g then bit b g else bit (reg ! (2 * h)) 6)"
    "bit (update_grid a b c d g reg ! (2 * h)) 7 = (if h = g then bit c g else bit (reg ! (2 * h)) 7)"
    "bit (update_grid a b c d g reg ! (2 * h + 1)) 0 = (if h = g then bit d g else bit (reg ! (2 * h + 1)) 0)"
    using assms ne by (auto simp: update_grid_def put_seg_bit)
qed

lemma fold_update_bits:
  assumes "length reg = 14" "n \<le> 7" "h < n"
  shows "bit (fold (update_grid a b c d) [0..<n] reg ! (2 * h)) 5 = bit a h \<and>
    bit (fold (update_grid a b c d) [0..<n] reg ! (2 * h)) 6 = bit b h \<and>
    bit (fold (update_grid a b c d) [0..<n] reg ! (2 * h)) 7 = bit c h \<and>
    bit (fold (update_grid a b c d) [0..<n] reg ! (2 * h + 1)) 0 = bit d h"
  using assms(2,3)
proof (induction n)
  case (Suc n)
  have l: "length (fold (update_grid a b c d) [0..<n] reg) = 14" "n < 7" "h < 7" using assms(1) Suc.prems by simp_all
  have f: "fold (update_grid a b c d) [0..<Suc n] reg = update_grid a b c d n (fold (update_grid a b c d) [0..<n] reg)" by simp
  show ?case unfolding f update_grid_bits [OF l] using Suc by auto
qed simp

lemma clock_shown:
  assumes "length reg = 14" "h < 100" "m < 100"
  shows "read_clock (put_seg 3 1 on (put_seg 1 1 on (fold (update_grid (leddata ! (h div 10)) (leddata ! (h mod 10))
      (leddata ! (m div 10)) (leddata ! (m mod 10))) [0..<TM1628_GRID_MAX] reg))) = Some (h, m, on)"
proof -
  define R where "R = fold (update_grid (leddata ! (h div 10)) (leddata ! (h mod 10)) (leddata ! (m div 10)) (leddata ! (m mod 10))) [0..<7] reg"
  define C where "C = put_seg 3 1 on (put_seg 1 1 on R)"
  have l: "length R = 14" using assms(1) by (simp add: R_def)
  have c: "bit (C ! j) k = bit (R ! j) k" if "k \<noteq> 1" "k < 8" for j k using l that by (simp add: C_def put_seg_bit)
  have "segments C 0 5 = digit_segments (h div 10)" "segments C 0 6 = digit_segments (h mod 10)"
    "segments C 0 7 = digit_segments (m div 10)" "segments C 1 0 = digit_segments (m mod 10)"
    using fold_update_bits [OF assms(1), of 7] by (simp_all add: segments_def digit_segments_def c) (simp_all add: R_def)
  moreover have "bit (C ! 1) 1 = on" "bit (C ! 3) 1 = on" using l by (simp_all add: C_def put_seg_bit)
  ultimately have "read_clock C = Some (h, m, on)" using assms(2,3)
    by (simp add: read_clock_def read_digit_segments div_less_iff_less_mult)
  then show ?thesis by (simp only: C_def R_def)
qed

section \<open>Every step is defined\<close>

definition keys_shape :: "display \<Rightarrow> bool" where
  "keys_shape s \<longleftrightarrow> length (d_keys s) = COL_NUM \<and> (\<forall>r\<in>set (d_keys s). length r = ROW_NUM)"

definition good_buffer :: "display_buff_t \<Rightarrow> bool" where
  "good_buffer b \<longleftrightarrow> (db_rect b = DISPLAY_RECT_TIME \<longrightarrow> unat (db_byte0 b) < 100 \<and> unat (db_byte1 b) < 100)"

definition display_inv :: "display \<Rightarrow> bool" where
  "display_inv s \<longleftrightarrow> length (d_reg s) = 14 \<and> keys_shape s \<and> unat (d_hour s) < 100 \<and> unat (d_minute s) < 100 \<and>
     d_count s \<le> COLON_TICKS \<and> length (d_client s) = DISPLAY_CLIENT_MAX \<and> (\<forall>c\<in>set (d_client s). good_buffer (dc_buffer c)) \<and>
     (\<forall>i\<in>set (d_queue s). i < DISPLAY_CLIENT_MAX) \<and> length (d_queue s) \<le> DISPLAY_QUEUE_SIZE"

definition good_env :: "tick_env \<Rightarrow> bool" where
  "good_env e \<longleftrightarrow> length (te_input e) = 5 \<and> (\<forall>b\<in>set (te_input e). length b = 8)"

text \<open>The chip sends five bytes; clients use their own buffer, with hours and minutes below 100, and wait for room.\<close>

fun display_ok :: "display_op \<Rightarrow> display \<Rightarrow> bool" where
  "display_ok (DTask e) s = good_env e"
| "display_ok DAlloc s = True"
| "display_ok (DFree i) s = True"
| "display_ok (DUpdate i b) s = (i < DISPLAY_CLIENT_MAX \<and> good_buffer b \<and> length (d_queue s) < DISPLAY_QUEUE_SIZE)"

lemma report_safe:
  assumes "keys_shape s" "c < COL_NUM" "r < ROW_NUM"
  shows "\<exists>s'. report_keycode c r p s = Some s' \<and> keys_shape s' \<and> d_reg s' = d_reg s \<and> d_hour s' = d_hour s \<and>
    d_minute s' = d_minute s \<and> d_count s' = d_count s \<and> d_client s' = d_client s \<and> d_queue s' = d_queue s \<and> d_pins s' = d_pins s \<and>
    d_colon s' = d_colon s"
proof -
  have "length (d_keys s ! c) = ROW_NUM" using assms by (simp add: keys_shape_def)
  with assms show ?thesis by (auto simp: report_keycode_def keys_shape_def dest!: set_update_subset_insert [THEN subsetD])
qed

definition plan_ok :: "(nat \<times> nat \<times> nat \<times> 8 word) list \<Rightarrow> bool" where
  "plan_ok ps \<longleftrightarrow> (\<forall>(c, r, b, m)\<in>set ps. c < COL_NUM \<and> r < ROW_NUM)"

lemma scan_safe:
  "keys_shape s \<Longrightarrow> plan_ok ps \<Longrightarrow> \<exists>s'. scan_keys reg ps s = Some s' \<and> keys_shape s' \<and> d_reg s' = d_reg s \<and> d_hour s' = d_hour s \<and>
    d_minute s' = d_minute s \<and> d_count s' = d_count s \<and> d_client s' = d_client s \<and> d_queue s' = d_queue s \<and> d_pins s' = d_pins s \<and>
    d_colon s' = d_colon s"
proof (induction ps arbitrary: s)
  case (Cons p ps)
  obtain c r b m where p: "p = (c, r, b, m)" by (cases p)
  let ?press = "if m AND reg ! b \<noteq> 0 then KEY_ACTION_PRESS else KEY_ACTION_RELEASE"
  have "c < COL_NUM" "r < ROW_NUM" "plan_ok ps" using Cons.prems(2) p by (auto simp: plan_ok_def)
  from report_safe [OF Cons.prems(1) this(1,2), of ?press] obtain s1 where s1: "report_keycode c r ?press s = Some s1"
    "keys_shape s1" "d_reg s1 = d_reg s" "d_hour s1 = d_hour s" "d_minute s1 = d_minute s" "d_count s1 = d_count s"
    "d_client s1 = d_client s" "d_queue s1 = d_queue s" "d_pins s1 = d_pins s" "d_colon s1 = d_colon s" by blast
  from Cons.IH [OF s1(2) \<open>plan_ok ps\<close>] s1 p show ?case by auto
qed simp

lemma plan_ok_scan: "plan_ok scan_plan"
  by (simp add: plan_ok_def scan_plan_def)

text \<open>The state before the keys are read: the new time, the colon and, if shown, the pins.\<close>

definition clock_tick :: "display_buff_t option \<Rightarrow> display \<Rightarrow> display" where
  "clock_tick buff s =
     (let s1 = (case buff of None \<Rightarrow> s | Some b \<Rightarrow> s\<lparr>d_hour := db_byte0 b, d_minute := db_byte1 b\<rparr>)
      in if d_count s1 = COLON_TICKS then s1\<lparr>d_colon := \<not> d_colon s1, d_count := 0\<rparr> else s1\<lparr>d_count := d_count s1 + 1\<rparr>)"

definition shows_on :: "tick_env \<Rightarrow> display_buff_t option \<Rightarrow> display \<Rightarrow> bool" where
  "shows_on e buff s \<longleftrightarrow> (buff \<noteq> None \<or> d_count s = COLON_TICKS) \<and> \<not> te_factory e"

lemma tick_eq:
  "tm1628_tick_process e buff s = do {
     s3 \<leftarrow> (if shows_on e buff s then show_time (clock_tick buff s) else Some (clock_tick buff s));
     let (reg, s4) = tm1628_read_multi_data 0x42 (te_input e) s3;
     s5 \<leftarrow> scan_keys reg scan_plan s4;
     Some (check_reset_status (te_reset e) s5) }"
  by (cases buff) (simp_all add: tm1628_tick_process_def clock_tick_def shows_on_def Let_def)

lemma clock_tick_fields [simp]:
  "d_reg (clock_tick b s) = d_reg s" "d_keys (clock_tick b s) = d_keys s" "d_client (clock_tick b s) = d_client s"
  "d_queue (clock_tick b s) = d_queue s" "d_pins (clock_tick b s) = d_pins s" "d_notify (clock_tick b s) = d_notify s"
  "d_reset (clock_tick b s) = d_reset s"
  by (cases b; simp add: clock_tick_def Let_def)+

lemma clock_tick_time:
  "d_hour (clock_tick b s) = (case b of None \<Rightarrow> d_hour s | Some b \<Rightarrow> db_byte0 b)"
  "d_minute (clock_tick b s) = (case b of None \<Rightarrow> d_minute s | Some b \<Rightarrow> db_byte1 b)"
  "d_count (clock_tick b s) = (if d_count s = COLON_TICKS then 0 else d_count s + 1)"
  by (cases b; simp add: clock_tick_def Let_def)+

lemma count_bound: "c \<le> 10 \<Longrightarrow> c \<noteq> 10 \<Longrightarrow> c + 1 \<le> (10 :: 8 word)"
  by (metis add.commute inc_le order.not_eq_order_implies_strict)

lemma time_fits: "n < 100 \<Longrightarrow> n div 10 < length leddata"
  by (simp add: leddata_def)

lemma show_time_Some:
  assumes "length (d_reg s) = 14" "unat (d_hour s) < 100" "unat (d_minute s) < 100"
  shows "\<exists>reg. show_time s = Some (tm1628_write_multi_data 0xC0 (s\<lparr>d_reg := reg\<rparr>)) \<and> length reg = 14 \<and>
    read_clock reg = Some (unat (d_hour s), unat (d_minute s), d_colon s)"
proof -
  let ?r = "put_seg 3 1 (d_colon s) (put_seg 1 1 (d_colon s) (fold (update_grid (leddata ! (unat (d_hour s) div 10))
    (leddata ! (unat (d_hour s) mod 10)) (leddata ! (unat (d_minute s) div 10)) (leddata ! (unat (d_minute s) mod 10)))
    [0..<TM1628_GRID_MAX] (d_reg s)))"
  have "show_time s = Some (tm1628_write_multi_data 0xC0 (s\<lparr>d_reg := ?r\<rparr>))"
    using time_fits [OF assms(2)] time_fits [OF assms(3)]
    by (simp add: show_time_def tm1628_update_time_def tm1628_update_colon_def Let_def)
  moreover have "length ?r = 14" using assms(1) by simp
  ultimately show ?thesis using clock_shown [OF assms, of "d_colon s"] by blast
qed

lemma check_reset_fields [simp]:
  "d_reg (check_reset_status l s) = d_reg s" "d_keys (check_reset_status l s) = d_keys s" "d_client (check_reset_status l s) = d_client s"
  "d_queue (check_reset_status l s) = d_queue s" "d_pins (check_reset_status l s) = d_pins s" "d_hour (check_reset_status l s) = d_hour s"
  "d_minute (check_reset_status l s) = d_minute s" "d_count (check_reset_status l s) = d_count s" "d_colon (check_reset_status l s) = d_colon s"
  by (simp_all add: check_reset_status_def Let_def)

definition good_time :: "display_buff_t option \<Rightarrow> bool" where
  "good_time buff \<longleftrightarrow> (\<forall>b. buff = Some b \<longrightarrow> unat (db_byte0 b) < 100 \<and> unat (db_byte1 b) < 100)"

text \<open>A tick in a good state: what goes over the pins and what stays.\<close>

lemma tick_result:
  assumes "display_inv s" "good_time buff"
  shows "\<exists>s' ps. tm1628_tick_process e buff s = Some s' \<and> display_inv s' \<and> d_pins s' = d_pins s @ ps \<and>
    (shows_on e buff s \<longrightarrow> (\<exists>bytes rest. transfers ps = (0xC0 # bytes) # rest \<and>
       read_clock bytes = Some (unat (d_hour s'), unat (d_minute s'), d_colon s')))"
proof -
  let ?t = "clock_tick buff s"
  have t: "length (d_reg ?t) = 14" "unat (d_hour ?t) < 100" "unat (d_minute ?t) < 100" "keys_shape ?t" "d_count ?t \<le> COLON_TICKS"
    using assms count_bound [of "d_count s"]
    by (auto simp: display_inv_def clock_tick_time good_time_def keys_shape_def split: option.splits)
  from show_time_Some [OF t(1-3)] obtain reg where reg: "show_time ?t = Some (tm1628_write_multi_data 0xC0 (?t\<lparr>d_reg := reg\<rparr>))"
    "length reg = 14" "read_clock reg = Some (unat (d_hour ?t), unat (d_minute ?t), d_colon ?t)" by blast
  define s3 where "s3 = (if shows_on e buff s then tm1628_write_multi_data 0xC0 (?t\<lparr>d_reg := reg\<rparr>) else ?t)"
  obtain bs s4 where r: "tm1628_read_multi_data 0x42 (te_input e) s3 = (bs, s4)" by (cases "tm1628_read_multi_data 0x42 (te_input e) s3")
  have s4: "s4 = d_emit ([DioOutput, Stb False] @ shift_out 8 0x42 @ [DioInput] @ concat (map (\<lambda>b. shift_in_pins) (te_input e)) @ [Stb True]) s3"
    using r by (simp add: tm1628_read_multi_data_def)
  have k: "keys_shape s4" using t(4) by (simp add: s4 s3_def d_emit_def tm1628_write_multi_data_def keys_shape_def)
  from scan_safe [OF k plan_ok_scan, of bs] obtain s5 where s5: "scan_keys bs scan_plan s4 = Some s5" "keys_shape s5"
    "d_reg s5 = d_reg s4" "d_hour s5 = d_hour s4" "d_minute s5 = d_minute s4" "d_count s5 = d_count s4" "d_client s5 = d_client s4"
    "d_queue s5 = d_queue s4" "d_pins s5 = d_pins s4" "d_colon s5 = d_colon s4" by blast
  have run: "tm1628_tick_process e buff s = Some (check_reset_status (te_reset e) s5)"
  proof -
    have "(if shows_on e buff s then show_time ?t else Some ?t) = Some s3" by (simp add: s3_def reg(1))
    then show ?thesis unfolding tick_eq by (simp add: r s5(1))
  qed
  have f: "d_hour s5 = d_hour ?t" "d_minute s5 = d_minute ?t" "d_colon s5 = d_colon ?t" "d_count s5 = d_count ?t" "d_client s5 = d_client s"
    "d_queue s5 = d_queue s" "length (d_reg s5) = 14"
    using s5 reg(2) t(1) by (simp_all add: s4 s3_def d_emit_def tm1628_write_multi_data_def)
  have inv: "display_inv (check_reset_status (te_reset e) s5)"
    using assms(1) t s5(2) by (simp add: display_inv_def f keys_shape_def)
  let ?read = "[DioOutput, Stb False] @ shift_out 8 0x42 @ [DioInput] @ concat (map (\<lambda>b. shift_in_pins) (te_input e)) @ [Stb True]"
  define ps where "ps = (if shows_on e buff s then [DioOutput, Stb False] @ shift_out 8 0xC0 @ concat (map (shift_out 8) reg) @ [Stb True] else []) @ ?read"
  have pins: "d_pins s5 = d_pins s @ ps" by (simp add: s5 s4 s3_def d_emit_def tm1628_write_multi_data_def ps_def)
  have "\<exists>rest. transfers ps = (0xC0 # reg) # rest" if "shows_on e buff s"
    using write_transfers [of "0xC0" reg ?read] that by (auto simp: ps_def)
  with reg(3) have "shows_on e buff s \<longrightarrow> (\<exists>bytes rest. transfers ps = (0xC0 # bytes) # rest \<and>
       read_clock bytes = Some (unat (d_hour s5), unat (d_minute s5), d_colon s5))" by (auto simp: f)
  with run inv pins show ?thesis by (intro exI [of _ "check_reset_status (te_reset e) s5"] exI [of _ ps]) simp
qed

text \<open>The time that a tick leaves is that of its buffer.\<close>

lemma tick_time:
  assumes "display_inv s" "tm1628_tick_process e buff s = Some s'"
  shows "d_hour s' = d_hour (clock_tick buff s) \<and> d_minute s' = d_minute (clock_tick buff s)"
proof -
  obtain s3 where s3: "(if shows_on e buff s then show_time (clock_tick buff s) else Some (clock_tick buff s)) = Some s3"
    "(case tm1628_read_multi_data 0x42 (te_input e) s3 of (reg, s4) \<Rightarrow>
       Option.bind (scan_keys reg scan_plan s4) (\<lambda>s5. Some (check_reset_status (te_reset e) s5))) = Some s'"
    using assms(2) unfolding tick_eq bind_Some_ex Let_def by (elim exE conjE) (rule that)
  obtain bs s4 where s4: "tm1628_read_multi_data 0x42 (te_input e) s3 = (bs, s4)" by (cases "tm1628_read_multi_data 0x42 (te_input e) s3")
  with s3(2) obtain s5 where "scan_keys bs scan_plan s4 = Some s5" "s' = check_reset_status (te_reset e) s5"
    by (auto simp: ub_simps)
  note r = s3(1) s4 this
  have s3: "d_hour s3 = d_hour (clock_tick buff s)" "d_minute s3 = d_minute (clock_tick buff s)" "d_keys s3 = d_keys s"
    using r(1) by (auto simp: show_time_def tm1628_update_time_def tm1628_update_colon_def tm1628_write_multi_data_def
        d_emit_def Let_def split: if_splits)
  have s4: "d_hour s4 = d_hour s3" "d_minute s4 = d_minute s3" "d_keys s4 = d_keys s3"
    using r(2) by (auto simp: tm1628_read_multi_data_def d_emit_def)
  have "keys_shape s4" using assms(1) s3(3) s4(3) by (simp add: display_inv_def keys_shape_def)
  from scan_safe [OF this plan_ok_scan, of bs] r(3) have "d_hour s5 = d_hour s4" "d_minute s5 = d_minute s4" by auto
  with s3 s4 r(4) show ?thesis by simp
qed

lemma task_result:
  assumes "display_inv s"
  shows "\<exists>s'. display_task e s = Some s' \<and> display_inv s'"
proof (cases "d_queue s")
  case Nil
  then show ?thesis using tick_result [OF assms, of None e] by (auto simp: display_task_def good_time_def)
next
  case (Cons i q)
  let ?s = "s\<lparr>d_queue := q\<rparr>" and ?b = "dc_buffer (d_client s ! i)"
  have i: "i < length (d_client s)" using assms Cons by (simp add: display_inv_def)
  have inv: "display_inv ?s" using assms Cons by (simp add: display_inv_def keys_shape_def)
  have b: "good_buffer ?b" using assms i by (simp add: display_inv_def)
  have run: "display_task e s = (case db_rect ?b of
                   DISPLAY_RECT_TIME \<Rightarrow> tm1628_tick_process e (Some ?b) ?s
                 | DISPLAY_RECT_BRIGHTNESSE \<Rightarrow> Some (tm1628_set_brightness ?b ?s)
                 | _ \<Rightarrow> Some ?s)" using Cons i by (simp add: display_task_def Let_def)
  show ?thesis
  proof (cases "db_rect ?b")
    case DISPLAY_RECT_TIME
    then have "good_time (Some ?b)" using b by (simp add: good_time_def good_buffer_def)
    with tick_result [OF inv this, of e] run DISPLAY_RECT_TIME show ?thesis by auto
  qed (use run inv in \<open>simp_all add: tm1628_set_brightness_def tm1628_send_command_def d_emit_def display_inv_def keys_shape_def\<close>)
qed

lemma good_list_update: "(\<forall>x\<in>set l. P x) \<Longrightarrow> P y \<Longrightarrow> \<forall>x\<in>set (l[i := y]). P x"
  using set_update_subset_insert [of l i y] by blast

interpretation display: safe_machine display_step display_inv display_ok
proof unfold_locales
  fix s op
  assume inv: "display_inv s" and ok: "display_ok op s"
  show "\<exists>s'. display_step op s = Some s' \<and> display_inv s'"
  proof (cases op)
    case (DTask e)
    with task_result [OF inv] show ?thesis by simp
  next
    case DAlloc
    have g: "good_buffer (dc_buffer ((d_client s ! d_next s)\<lparr>dc_id := d_next s + 1\<rparr>))" if "d_next s < DISPLAY_CLIENT_MAX"
      using inv that by (simp add: display_inv_def)
    have "d_next s < DISPLAY_CLIENT_MAX \<longrightarrow>
        (\<forall>c\<in>set ((d_client s)[d_next s := (d_client s ! d_next s)\<lparr>dc_id := d_next s + 1\<rparr>]). good_buffer (dc_buffer c))"
      using g inv by (intro impI good_list_update) (simp_all add: display_inv_def)
    with DAlloc inv show ?thesis
      by (simp add: alloc_display_client_def display_inv_def keys_shape_def)
  next
    case (DFree i)
    have "good_buffer (dc_buffer blank_client)" by (simp add: good_buffer_def blank_client_def)
    with DFree inv good_list_update [of "d_client s" "\<lambda>c. good_buffer (dc_buffer c)" blank_client] show ?thesis
      by (cases i) (simp_all add: free_display_client_def display_inv_def keys_shape_def)
  next
    case (DUpdate i b)
    with inv ok good_list_update [of "d_client s" "\<lambda>c. good_buffer (dc_buffer c)" "(d_client s ! i)\<lparr>dc_buffer := b\<rparr>" i] show ?thesis
      by (simp add: display_update_def fill_buffer_def display_inv_def keys_shape_def queue_send_def)
  qed
qed

lemma display_inv_init: "length reg = 14 \<Longrightarrow> display_inv (display_task_init reg)"
  by (simp add: display_inv_def display_task_init_def keys_shape_def good_buffer_def blank_client_def)

text \<open>C32: After the start the display task never faults, whatever its clients allocate, free and send, as long
  as they send times below 100; and whenever it sends a time, what the chip receives over the pins is the
  write command and 14 bytes from which the eye reads exactly the hour, the minute and the colon kept by the
  task.\<close>

theorem display_shows_the_time:
  assumes "reach display_step display_ok (display_task_init ` {reg. length reg = 14}) s"
    and "i < DISPLAY_CLIENT_MAX" "d_queue s = [i]" "dc_buffer (d_client s ! i) = \<lparr>db_rect = DISPLAY_RECT_TIME, db_byte0 = h, db_byte1 = m\<rparr>"
    and "good_env e" "\<not> te_factory e"
  shows "\<exists>s' ps bytes rest. display_step (DTask e) s = Some s' \<and> d_pins s' = d_pins s @ ps \<and>
    transfers ps = (0xC0 # bytes) # rest \<and> read_clock bytes = Some (unat h, unat m, d_colon s')"
proof -
  have inv: "display_inv s" using display.reach_inv [OF assms(1)] display_inv_init by blast
  let ?s = "s\<lparr>d_queue := []\<rparr>" and ?b = "dc_buffer (d_client s ! i)"
  have l: "i < length (d_client s)" using inv assms(2) by (simp add: display_inv_def)
  then have g: "good_buffer ?b" using inv by (simp add: display_inv_def)
  have inv': "display_inv ?s" using inv by (simp add: display_inv_def keys_shape_def)
  have run: "display_task e s = tm1628_tick_process e (Some ?b) ?s" using assms(3,4) l by (simp add: display_task_def)
  have "good_time (Some ?b)" using g assms(4) by (simp add: good_time_def good_buffer_def)
  from tick_result [OF inv' this, of e] obtain s' ps where s': "tm1628_tick_process e (Some ?b) ?s = Some s'" "d_pins s' = d_pins s @ ps"
    "shows_on e (Some ?b) ?s \<longrightarrow> (\<exists>bytes rest. transfers ps = (0xC0 # bytes) # rest \<and>
       read_clock bytes = Some (unat (d_hour s'), unat (d_minute s'), d_colon s'))" by auto
  have "d_hour s' = h \<and> d_minute s' = m" using tick_time [OF inv' s'(1)] assms(4) by (simp add: clock_tick_time)
  with s' run assms(6) show ?thesis by (auto simp: shows_on_def)
qed

definition noon :: display_buff_t where
  "noon = \<lparr>db_rect = DISPLAY_RECT_TIME, db_byte0 = 12, db_byte1 = 34\<rparr>"

definition quiet_env :: tick_env where
  "quiet_env = \<lparr>te_factory = False, te_input = replicate 5 (replicate 8 False), te_reset = True\<rparr>"

definition asked :: display where
  "asked = (fill_buffer 0 noon (display_task_init (replicate 14 0)))\<lparr>d_queue := [0]\<rparr>"

lemma asked_reached: "reach display_step display_ok (display_task_init ` {reg. length reg = 14}) asked"
proof (rule reach_step)
  show "reach display_step display_ok (display_task_init ` {reg. length reg = 14}) (display_task_init (replicate 14 0))"
    by (intro reach_init imageI) simp
  show "display_ok (DUpdate 0 noon) (display_task_init (replicate 14 0))"
    by (simp add: good_buffer_def noon_def display_task_init_def)
  show "display_step (DUpdate 0 noon) (display_task_init (replicate 14 0)) = Some asked"
    by (simp add: display_update_def asked_def fill_buffer_def display_task_init_def queue_send_def)
qed

lemma display_shows_the_time_witness:
  "\<exists>s' ps bytes rest. display_step (DTask quiet_env) asked = Some s' \<and> d_pins s' = d_pins asked @ ps \<and>
    transfers ps = (0xC0 # bytes) # rest \<and> read_clock bytes = Some (12, 34, d_colon s')"
  using display_shows_the_time [OF asked_reached, of 0 12 34 quiet_env]
  by (simp add: asked_def fill_buffer_def noon_def display_task_init_def quiet_env_def good_env_def)

section \<open>Keys\<close>

text \<open>The messages of one key, and what they should be: the changes of its level.\<close>

definition msgs_of :: "nat \<Rightarrow> (nat \<times> keypress_t) list \<Rightarrow> keypress_t list" where
  "msgs_of k ns = map snd (filter (\<lambda>n. fst n = k) ns)"

fun edges :: "keypress_t \<Rightarrow> keypress_t list \<Rightarrow> keypress_t list" where
  "edges p [] = []"
| "edges p (x # xs) = (if x = p then edges p xs else x # edges x xs)"

lemma edges_snoc: "edges p (xs @ [x]) = edges p xs @ (if x = last (p # xs) then [] else [x])"
  by (induction xs arbitrary: p) auto

text \<open>Where a key of the matrix stands in the bytes of the chip.\<close>

definition key_level :: "tick_env \<Rightarrow> nat \<Rightarrow> nat \<Rightarrow> bool" where
  "key_level e col row = te_input e ! (row div 2) ! ((if odd row then 3 else 0) + col)"

definition key_press :: "tick_env \<Rightarrow> nat \<Rightarrow> nat \<Rightarrow> keypress_t" where
  "key_press e col row = (if key_level e col row then KEY_ACTION_PRESS else KEY_ACTION_RELEASE)"

lemma report_key:
  assumes "report_keycode c r p s = Some s'" "keys_shape s" "c < COL_NUM" "r < ROW_NUM"
  shows "d_keys s' ! c' ! r' = (if c' = c \<and> r' = r then p else d_keys s ! c' ! r') \<and>
    d_notify s' = d_notify s @ (if d_keys s ! c ! r = p then [] else [(key_code_array ! c ! r, p)])"
proof -
  have "c < length (d_keys s)" "r < length (d_keys s ! c)" using assms(2-4) by (simp_all add: keys_shape_def)
  with assms show ?thesis by (auto simp: report_keycode_def nth_list_update split: if_splits)
qed

abbreviation two_by_five :: "(nat \<times> nat) list" where
  "two_by_five \<equiv> [(0, 0), (0, 1), (0, 2), (0, 3), (0, 4), (1, 0), (1, 1), (1, 2), (1, 3), (1, 4)]"

lemma key_places: "c < COL_NUM \<Longrightarrow> r < ROW_NUM \<Longrightarrow> (c, r) \<in> set two_by_five"
  by (cases c; cases r) (auto simp: less_Suc_eq numeral_eq_Suc)

lemma codes_differ:
  "c < COL_NUM \<Longrightarrow> r < ROW_NUM \<Longrightarrow> c' < COL_NUM \<Longrightarrow> r' < ROW_NUM \<Longrightarrow>
   key_code_array ! c ! r = key_code_array ! c' ! r' \<longleftrightarrow> c = c' \<and> r = r'"
proof -
  assume "c < COL_NUM" "r < ROW_NUM" "c' < COL_NUM" "r' < ROW_NUM"
  then have "(c, r) \<in> set two_by_five" "(c', r') \<in> set two_by_five" by (simp_all only: key_places)
  moreover have "distinct (map (\<lambda>(c, r). key_code_array ! c ! r) two_by_five)" by (simp add: key_code_array_def)
  then have "inj_on (\<lambda>(c, r). key_code_array ! c ! r) (set two_by_five)" by (simp only: distinct_map)
  ultimately show ?thesis using inj_on_eq_iff [of "\<lambda>(c, r). key_code_array ! c ! r" "set two_by_five" "(c, r)" "(c', r')"] by auto
qed

lemma code_not_reset: "c < COL_NUM \<Longrightarrow> r < ROW_NUM \<Longrightarrow> key_code_array ! c ! r \<noteq> KEY_CODE_RESET"
proof -
  assume "c < COL_NUM" "r < ROW_NUM"
  then have "(c, r) \<in> set two_by_five" by (rule key_places)
  moreover have "\<forall>(c, r)\<in>set two_by_five. key_code_array ! c ! r \<noteq> KEY_CODE_RESET" by (simp add: key_code_array_def)
  ultimately show ?thesis by blast
qed

text \<open>A scan reports a key of the plan as the byte and mask say; \<open>places\<close> are the keys of a plan.\<close>

definition places :: "(nat \<times> nat \<times> nat \<times> 8 word) list \<Rightarrow> (nat \<times> nat) list" where
  "places ps = map (\<lambda>(c, r, b, m). (c, r)) ps"

lemma places_Cons [simp]: "places ((c, r, b, m) # ps) = (c, r) # places ps"
  by (simp add: places_def)

definition mask_press :: "8 word list \<Rightarrow> nat \<Rightarrow> 8 word \<Rightarrow> keypress_t" where
  "mask_press reg b m = (if m AND reg ! b \<noteq> 0 then KEY_ACTION_PRESS else KEY_ACTION_RELEASE)"

lemma scan_key:
  assumes "c < COL_NUM" "r < ROW_NUM"
  shows "scan_keys reg ps s = Some s' \<Longrightarrow> keys_shape s \<Longrightarrow> plan_ok ps \<Longrightarrow> distinct (places ps) \<Longrightarrow>
    (\<forall>b m. (c, r, b, m) \<in> set ps \<longrightarrow> d_keys s' ! c ! r = mask_press reg b m \<and>
       msgs_of (key_code_array ! c ! r) (d_notify s') = msgs_of (key_code_array ! c ! r) (d_notify s) @
         (if d_keys s ! c ! r = mask_press reg b m then [] else [mask_press reg b m])) \<and>
    ((c, r) \<notin> set (places ps) \<longrightarrow> d_keys s' ! c ! r = d_keys s ! c ! r \<and>
       msgs_of (key_code_array ! c ! r) (d_notify s') = msgs_of (key_code_array ! c ! r) (d_notify s))"
proof (induction ps arbitrary: s)
  case (Cons p ps)
  obtain c1 r1 b1 m1 where p: "p = (c1, r1, b1, m1)" by (cases p)
  have ok: "c1 < COL_NUM" "r1 < ROW_NUM" "plan_ok ps" "distinct (places ps)" "(c1, r1) \<notin> set (places ps)"
    using Cons.prems(3,4) p by (auto simp: plan_ok_def places_def)
  obtain s1 where s1: "report_keycode c1 r1 (mask_press reg b1 m1) s = Some s1" "scan_keys reg ps s1 = Some s'"
    using Cons.prems(1) p by (auto simp: mask_press_def ub_simps)
  have shape: "keys_shape s1" using report_safe [OF Cons.prems(2) ok(1,2), of "mask_press reg b1 m1"] s1(1) by auto
  have key: "d_keys s1 ! c ! r = (if c = c1 \<and> r = r1 then mask_press reg b1 m1 else d_keys s ! c ! r)"
    and ntf: "d_notify s1 = d_notify s @ (if d_keys s ! c1 ! r1 = mask_press reg b1 m1 then [] else [(key_code_array ! c1 ! r1, mask_press reg b1 m1)])"
    using report_key [OF s1(1) Cons.prems(2) ok(1,2)] by blast+
  have same: "key_code_array ! c1 ! r1 = key_code_array ! c ! r \<longleftrightarrow> c1 = c \<and> r1 = r" using codes_differ ok(1,2) assms by blast
  have msgs: "msgs_of (key_code_array ! c ! r) (d_notify s1) = msgs_of (key_code_array ! c ! r) (d_notify s) @
      (if c1 = c \<and> r1 = r \<and> d_keys s ! c ! r \<noteq> mask_press reg b1 m1 then [mask_press reg b1 m1] else [])"
    using same by (auto simp: ntf msgs_of_def)
  note IH = Cons.IH [OF s1(2) shape ok(3,4)]
  show ?case
  proof (cases "c1 = c \<and> r1 = r")
    case True
    then have "(c, r) \<notin> set (places ps)" using ok(5) by simp
    moreover from this have "(c, r, b, m) \<notin> set ps" for b m by (force simp: places_def)
    moreover have "(c, r, b, m) \<in> set (p # ps) \<longleftrightarrow> b = b1 \<and> m = m1 \<or> (c, r, b, m) \<in> set ps" for b m using True p by auto
    moreover have "(c, r) \<in> set (places (p # ps))" using True p by (auto simp: places_def)
    ultimately show ?thesis using IH key msgs True by simp
  next
    case False
    then have "d_keys s1 ! c ! r = d_keys s ! c ! r"
      "msgs_of (key_code_array ! c ! r) (d_notify s1) = msgs_of (key_code_array ! c ! r) (d_notify s)"
      using key msgs by auto
    moreover have "(c, r, b, m) \<in> set (p # ps) \<longleftrightarrow> (c, r, b, m) \<in> set ps" for b m using False p by auto
    moreover have "(c, r) \<in> set (places (p # ps)) \<longleftrightarrow> (c, r) \<in> set (places ps)" using False p by auto
    ultimately show ?thesis using IH by (simp only:)
  qed
qed (simp add: places_def)

lemma plan_places: "distinct (places scan_plan)"
  by (simp add: places_def scan_plan_def)

lemma mask_bit: "k < 8 \<Longrightarrow> (2 ^ k AND w \<noteq> 0) = bit w k" for w :: "8 word"
  by (simp add: bit_iff_and_push_bit_not_eq_0 push_bit_eq_mult and.commute)

lemma input_press:
  assumes "good_env e" "c < COL_NUM" "r < ROW_NUM"
  shows "\<exists>b m. (c, r, b, m) \<in> set scan_plan \<and> mask_press (map (shift_in 0) (te_input e)) b m = key_press e c r"
proof -
  have l: "length (te_input e) = 5" "\<And>b. b < 5 \<Longrightarrow> length (te_input e ! b) = 8"
    using assms(1) by (simp_all add: good_env_def)
  let ?b = "r div 2" and ?k = "(if odd r then 3 else 0) + c"
  have "(c, r) \<in> set two_by_five" using assms(2,3) by (rule key_places)
  moreover have "\<forall>(c, r)\<in>set two_by_five. (c, r, r div 2, 2 ^ ((if odd r then 3 else 0) + c)) \<in> set scan_plan"
    by (simp add: scan_plan_def)
  ultimately have "(c, r, ?b, 2 ^ ?k) \<in> set scan_plan" by blast
  moreover have "?b < 5" "?k < 8" using assms(2,3) by auto
  then have "mask_press (map (shift_in 0) (te_input e)) ?b (2 ^ ?k) = key_press e c r"
    using l mask_bit [of ?k "shift_in 0 (te_input e ! ?b)"]
    by (simp add: mask_press_def key_press_def key_level_def shift_in_bit)
  ultimately show ?thesis by blast
qed

text \<open>The rounds of the task that read the keys, and the state of a key after them.\<close>

definition scanned :: "display_op \<Rightarrow> display \<Rightarrow> tick_env list" where
  "scanned op s =
     (case op of
        DTask e \<Rightarrow>
          (case d_queue s of
             [] \<Rightarrow> [e]
           | i # q \<Rightarrow> if db_rect (dc_buffer (d_client s ! i)) = DISPLAY_RECT_TIME then [e] else [])
      | _ \<Rightarrow> [])"

fun scans_run :: "display_op list \<Rightarrow> display \<Rightarrow> tick_env list" where
  "scans_run [] s = []"
| "scans_run (op # ops) s = scanned op s @ (case display_step op s of None \<Rightarrow> [] | Some s' \<Rightarrow> scans_run ops s')"

lemma tick_queue:
  assumes "display_inv s" "tm1628_tick_process e None s = Some s'"
  shows "d_queue s' = d_queue s"
proof -
  obtain s3 where s3: "(if shows_on e None s then show_time (clock_tick None s) else Some (clock_tick None s)) = Some s3"
    "(case tm1628_read_multi_data 0x42 (te_input e) s3 of (reg, s4) \<Rightarrow>
       Option.bind (scan_keys reg scan_plan s4) (\<lambda>s5. Some (check_reset_status (te_reset e) s5))) = Some s'"
    using assms(2) unfolding tick_eq bind_Some_ex Let_def by (elim exE conjE) (rule that)
  have q3: "d_queue s3 = d_queue s" "d_keys s3 = d_keys s"
    using s3(1) by (auto simp: show_time_def tm1628_update_time_def tm1628_update_colon_def tm1628_write_multi_data_def
        d_emit_def Let_def split: if_splits)
  obtain bs s4 where s4: "tm1628_read_multi_data 0x42 (te_input e) s3 = (bs, s4)" by (cases "tm1628_read_multi_data 0x42 (te_input e) s3")
  then have q4: "d_queue s4 = d_queue s3" "d_keys s4 = d_keys s3" by (auto simp: tm1628_read_multi_data_def d_emit_def)
  have "keys_shape s4" using assms(1) q3 q4 by (simp add: display_inv_def keys_shape_def)
  from scan_safe [OF this plan_ok_scan, of bs] s3(2) s4 q3 q4 show ?thesis by (auto simp: ub_simps)
qed

lemma tick_key:
  assumes "display_inv s" "good_env e" "tm1628_tick_process e buff s = Some s'" "c < COL_NUM" "r < ROW_NUM"
  shows "d_keys s' ! c ! r = key_press e c r \<and>
    msgs_of (key_code_array ! c ! r) (d_notify s') = msgs_of (key_code_array ! c ! r) (d_notify s) @
      (if d_keys s ! c ! r = key_press e c r then [] else [key_press e c r])"
proof -
  obtain s3 where s3: "(if shows_on e buff s then show_time (clock_tick buff s) else Some (clock_tick buff s)) = Some s3"
    "(case tm1628_read_multi_data 0x42 (te_input e) s3 of (reg, s4) \<Rightarrow>
       Option.bind (scan_keys reg scan_plan s4) (\<lambda>s5. Some (check_reset_status (te_reset e) s5))) = Some s'"
    using assms(3) unfolding tick_eq bind_Some_ex Let_def by (elim exE conjE) (rule that)
  obtain bs s4 where s4: "tm1628_read_multi_data 0x42 (te_input e) s3 = (bs, s4)" by (cases "tm1628_read_multi_data 0x42 (te_input e) s3")
  with s3(2) obtain s5 where s5: "scan_keys bs scan_plan s4 = Some s5" "s' = check_reset_status (te_reset e) s5"
    by (auto simp: ub_simps)
  have k3: "d_keys s3 = d_keys s" "d_notify s3 = d_notify s"
    using s3(1) by (auto simp: show_time_def tm1628_update_time_def tm1628_update_colon_def tm1628_write_multi_data_def
        d_emit_def Let_def split: if_splits)
  have k4: "d_keys s4 = d_keys s3" "d_notify s4 = d_notify s3" "bs = map (shift_in 0) (te_input e)"
    using s4 by (auto simp: tm1628_read_multi_data_def d_emit_def)
  have shape: "keys_shape s4" using assms(1) k3 k4 by (simp add: display_inv_def keys_shape_def)
  obtain b m where bm: "(c, r, b, m) \<in> set scan_plan" "mask_press bs b m = key_press e c r"
    using input_press [OF assms(2,4,5)] k4(3) by blast
  have "d_keys s5 ! c ! r = key_press e c r \<and>
    msgs_of (key_code_array ! c ! r) (d_notify s5) = msgs_of (key_code_array ! c ! r) (d_notify s4) @
      (if d_keys s4 ! c ! r = key_press e c r then [] else [key_press e c r])"
    using scan_key [OF assms(4,5) s5(1) shape plan_ok_scan plan_places] bm by metis
  moreover have "msgs_of (key_code_array ! c ! r) (d_notify (check_reset_status (te_reset e) s5)) = msgs_of (key_code_array ! c ! r) (d_notify s5)"
    using code_not_reset [OF assms(4,5)] by (auto simp: check_reset_status_def msgs_of_def Let_def)
  ultimately show ?thesis by (simp add: s5(2) k3 k4)
qed

lemma step_key:
  assumes "display_inv s" "display_ok op s" "display_step op s = Some s'" "c < COL_NUM" "r < ROW_NUM"
  shows "d_keys s' ! c ! r = last (d_keys s ! c ! r # map (\<lambda>e. key_press e c r) (scanned op s)) \<and>
    msgs_of (key_code_array ! c ! r) (d_notify s') = msgs_of (key_code_array ! c ! r) (d_notify s) @
      edges (d_keys s ! c ! r) (map (\<lambda>e. key_press e c r) (scanned op s))"
proof (cases op)
  case (DTask e)
  have e: "good_env e" using assms(2) DTask by simp
  show ?thesis
  proof (cases "d_queue s")
    case Nil
    then have "tm1628_tick_process e None s = Some s'" using assms(3) DTask by (simp add: display_task_def)
    from tick_key [OF assms(1) e this assms(4,5)] Nil DTask show ?thesis by (auto simp: scanned_def)
  next
    case (Cons i q)
    let ?s = "s\<lparr>d_queue := q\<rparr>" and ?b = "dc_buffer (d_client s ! i)"
    have "i < length (d_client s)" using assms(1) Cons by (simp add: display_inv_def)
    then have run: "(case db_rect ?b of DISPLAY_RECT_TIME \<Rightarrow> tm1628_tick_process e (Some ?b) ?s
                 | DISPLAY_RECT_BRIGHTNESSE \<Rightarrow> Some (tm1628_set_brightness ?b ?s) | _ \<Rightarrow> Some ?s) = Some s'"
      using assms(3) Cons DTask by (simp add: display_task_def Let_def)
    have inv: "display_inv ?s" using assms(1) Cons by (simp add: display_inv_def keys_shape_def)
    show ?thesis
    proof (cases "db_rect ?b")
      case DISPLAY_RECT_TIME
      then have "tm1628_tick_process e (Some ?b) ?s = Some s'" using run by simp
      from tick_key [OF inv e this assms(4,5)] Cons DTask DISPLAY_RECT_TIME show ?thesis by (auto simp: scanned_def)
    qed (use run Cons DTask in \<open>auto simp: scanned_def tm1628_set_brightness_def tm1628_send_command_def d_emit_def\<close>)
  qed
qed (use assms(3) in \<open>auto simp: scanned_def alloc_display_client_def free_display_client_def display_update_def fill_buffer_def
       split: option.splits if_splits\<close>)

lemma edges_append: "edges p (xs @ ys) = edges p xs @ edges (last (p # xs)) ys"
  by (induction xs arbitrary: p) auto

text \<open>Whatever the clients of the display do, a key of the matrix is reported to the key task exactly
  when its level changes: the messages sent for it are the changes of the levels that the chip gave in the
  rounds that read the keys, so presses and releases alternate and none is lost or repeated.\<close>

theorem key_reports_are_changes:
  assumes "safe_machine.oks display_step display_ok ops (display_task_init reg)" "length reg = 14" "c < COL_NUM" "r < ROW_NUM"
  shows "\<exists>s. run_opt display_step ops (display_task_init reg) = Some s \<and>
    msgs_of (key_code_array ! c ! r) (d_notify s) =
      edges KEY_ACTION_RELEASE (map (\<lambda>e. key_press e c r) (scans_run ops (display_task_init reg)))"
proof -
  obtain s where s: "run_opt display_step ops (display_task_init reg) = Some s"
    using display.run_safe [OF display_inv_init [OF assms(2)] assms(1)] by blast
  have gen: "msgs_of (key_code_array ! c ! r) (d_notify s) = msgs_of (key_code_array ! c ! r) (d_notify t) @
      edges (d_keys t ! c ! r) (map (\<lambda>e. key_press e c r) (scans_run ops t))"
    if "display_inv t" "safe_machine.oks display_step display_ok ops t" "run_opt display_step ops t = Some s" for t
    using that
  proof (induction ops arbitrary: t)
    case (Cons op ops)
    then obtain t1 where t1: "display_step op t = Some t1" "run_opt display_step ops t1 = Some s" by (auto simp: ub_simps)
    have ok: "display_ok op t" "safe_machine.oks display_step display_ok ops t1"
      using Cons.prems(2) t1(1) by (simp_all add: display.oks.simps)
    from Cons.IH [OF display.step_inv [OF Cons.prems(1) ok(1) t1(1)] ok(2) t1(2)]
      step_key [OF Cons.prems(1) ok(1) t1(1) assms(3,4)] t1(1) show ?case by (simp add: edges_append)
  qed simp
  have "d_keys (display_task_init reg) ! c ! r = KEY_ACTION_RELEASE" using assms(3,4)
    by (simp add: display_task_init_def)
  with gen [OF display_inv_init [OF assms(2)] assms(1) s] s show ?thesis
    by (simp add: display_task_init_def msgs_of_def)
qed

definition pressed_env :: tick_env where
  "pressed_env = quiet_env\<lparr>te_input := [True # replicate 7 False, replicate 8 False, replicate 8 False, replicate 8 False, replicate 8 False]\<rparr>"

lemma key_reports_are_changes_witness:
  "\<exists>s. run_opt display_step [DTask pressed_env, DTask quiet_env] (display_task_init (replicate 14 0)) = Some s \<and>
    msgs_of 3 (d_notify s) = [KEY_ACTION_PRESS, KEY_ACTION_RELEASE]"
proof -
  let ?s = "display_task_init (replicate 14 0)"
  have g: "good_env pressed_env" "good_env quiet_env" by (simp_all add: good_env_def pressed_env_def quiet_env_def)
  obtain s1 where s1: "tm1628_tick_process pressed_env None ?s = Some s1" "display_inv s1"
    using tick_result [OF display_inv_init [of "replicate 14 0"], of None pressed_env] by (auto simp: good_time_def)
  have q: "d_queue s1 = []" using tick_queue [OF _ s1(1)] display_inv_init [of "replicate 14 0"] by (simp add: display_task_init_def)
  obtain s2 where s2: "tm1628_tick_process quiet_env None s1 = Some s2"
    using tick_result [OF s1(2), of None quiet_env] g(2) by (auto simp: good_time_def)
  have step: "display_step (DTask pressed_env) ?s = Some s1" "display_step (DTask quiet_env) s1 = Some s2"
    using s1(1) s2 q by (simp_all add: display_task_def display_task_init_def)
  have scans: "scanned (DTask pressed_env) ?s = [pressed_env]" "scanned (DTask quiet_env) s1 = [quiet_env]"
    using q by (simp_all add: scanned_def display_task_init_def)
  have "key_press pressed_env 0 0 = KEY_ACTION_PRESS" "key_press quiet_env 0 0 = KEY_ACTION_RELEASE"
    by (simp_all add: key_press_def key_level_def pressed_env_def quiet_env_def)
  moreover have "safe_machine.oks display_step display_ok [DTask pressed_env, DTask quiet_env] ?s"
    using g step by (simp add: display.oks.simps del: display_step.simps)
  moreover have "scans_run [DTask pressed_env, DTask quiet_env] ?s = [pressed_env, quiet_env]"
    using step scans by (simp del: display_step.simps)
  ultimately show ?thesis
    using key_reports_are_changes [of "[DTask pressed_env, DTask quiet_env]" "replicate 14 0" 0 0]
    by (simp add: key_code_array_def del: display_step.simps run_opt.simps scans_run.simps)
qed

end
