(* ===== verification/Ota.thy ===== *)
theory Ota
  imports Transfer_Types "HOL-Library.Word"
begin

text \<open>
  The firmware update: the task that fetches an image and the steps that install it over several restarts
  (\<open>app/ota.c\<close>), with the start of the device, which runs these steps (\<open>init/init.c\<close>,
  \<open>bsp/nv_interface.c\<close>).

  \<^item> The step is kept in a file on the card; the images are files on the card. A write of the step file may
    fail after some bytes and a read may end early; \<open>cut_info\<close> is what such a record reads as.
  \<^item> Of the two program partitions one is running, one is started next (\<open>o_boot\<close>). A partition is the bytes
    written since it was erased; behind them it reads as 0xFF. The results of the SDK's calls, what the flash
    stores and how much of a file can be read are inputs of a start (\<open>boot_env\<close>).
  \<^item> No image is named as the step file is.
\<close>

section \<open>Data\<close>

type_synonym image = "8 word list"

abbreviation NORMAL_STARTUP :: "8 word" where "NORMAL_STARTUP \<equiv> 0"
abbreviation DOWNLOAD_BIN_FINISH :: "8 word" where "DOWNLOAD_BIN_FINISH \<equiv> 1"
abbreviation ALREADY_WRITE_IN_FLASH :: "8 word" where "ALREADY_WRITE_IN_FLASH \<equiv> 2"
abbreviation CHECK_FLASH_IS_RIGHT :: "8 word" where "CHECK_FLASH_IS_RIGHT \<equiv> 4"
abbreviation FACTORY_MODE_STARTUP :: "8 word" where "FACTORY_MODE_STARTUP \<equiv> 5"
abbreviation MAX_RETRY :: "8 word" where "MAX_RETRY \<equiv> 3"
abbreviation OTA_BUFFER_SIZE :: nat where "OTA_BUFFER_SIZE \<equiv> 1024"
abbreviation UPGRADE_NAME_SIZE :: nat where "UPGRADE_NAME_SIZE \<equiv> 50"

record upgrade_step_info_t =
  us_step :: "8 word"
  us_retry :: "8 word"
  us_before :: "8 word"
  us_file :: string
  us_size :: "32 word"

definition zero_info :: upgrade_step_info_t where
  "zero_info = \<lparr>us_step = 0, us_retry = 0, us_before = 0, us_file = [], us_size = 0\<rparr>"

text \<open>A zeroed record after the first \<open>n\<close> of its 60 bytes have been read: three bytes, the name, the padding
  up to byte 56 and the size, lowest byte first.\<close>

definition cut_info :: "nat \<Rightarrow> upgrade_step_info_t \<Rightarrow> upgrade_step_info_t" where
  "cut_info n i =
     \<lparr>us_step = (if 1 \<le> n then us_step i else 0),
      us_retry = (if 2 \<le> n then us_retry i else 0),
      us_before = (if 3 \<le> n then us_before i else 0),
      us_file = take (n - 3) (us_file i),
      us_size = (if n \<le> 56 then 0 else if n < 60 then take_bit (8 * (n - 56)) (us_size i) else us_size i)\<rparr>"

text \<open>\<open>ShortFile i\<close> is a file that ends early; \<open>i\<close> is what it reads as.\<close>

datatype step_file = NoFile | ShortFile upgrade_step_info_t | StepFile upgrade_step_info_t

record device =
  o_step :: step_file
  o_files :: "string \<rightharpoonup> image"
  o_part :: "bool \<Rightarrow> image"
  o_running :: bool
  o_boot :: bool

datatype read_result = ReadOk | ReadNoFile | ReadShort nat
datatype write_result = WriteOk | WriteNoFile | WriteShort nat

record boot_env =
  be_nv :: bool
  be_read :: read_result
  be_write :: write_result
  be_write_again :: write_result
  be_open :: bool
  be_readable :: nat
  be_begin :: "image option"
  be_store :: "nat \<Rightarrow> image \<Rightarrow> bool \<times> image"
  be_end :: bool
  be_flash_read :: "nat \<Rightarrow> bool"
  be_set_boot :: bool

section \<open>The step file\<close>

definition get_upgrade_step :: "read_result \<Rightarrow> device \<Rightarrow> int \<times> upgrade_step_info_t" where
  "get_upgrade_step r d =
     (if r = ReadNoFile then (-2, zero_info)
      else (case o_step d of
              NoFile \<Rightarrow> (-2, zero_info)
            | ShortFile i \<Rightarrow> (-3, (case r of ReadShort n \<Rightarrow> cut_info n i | _ \<Rightarrow> i))
            | StepFile i \<Rightarrow> (case r of ReadShort n \<Rightarrow> (-3, cut_info n i) | _ \<Rightarrow> (0, i))))"

text \<open>Opening the file for writing empties it.\<close>

definition set_upgrade_file :: "write_result \<Rightarrow> upgrade_step_info_t \<Rightarrow> device \<Rightarrow> int \<times> device" where
  "set_upgrade_file w i d =
     (case w of
        WriteOk \<Rightarrow> (0, d\<lparr>o_step := StepFile i\<rparr>)
      | WriteNoFile \<Rightarrow> (-2, d)
      | WriteShort n \<Rightarrow> (-3, d\<lparr>o_step := ShortFile (cut_info n i)\<rparr>))"

definition unlink_file :: "string \<Rightarrow> device \<Rightarrow> device" where
  "unlink_file name d = d\<lparr>o_files := (o_files d)(name := None)\<rparr>"

definition delete_all_upgrade_file :: "string \<Rightarrow> device \<Rightarrow> device" where
  "delete_all_upgrade_file name d = (unlink_file name d)\<lparr>o_step := NoFile\<rparr>"

section \<open>Writing and checking the flash\<close>

text \<open>Blocks of the file, as they are read and written; \<open>acc\<close> is what the flash holds so far.\<close>

function flash_loop :: "(nat \<Rightarrow> image \<Rightarrow> bool \<times> image) \<Rightarrow> image \<Rightarrow> image \<Rightarrow> bool \<times> image" where
  "flash_loop store img acc =
     (if img = [] then (True, acc)
      else (case store (length acc) (take OTA_BUFFER_SIZE img) of
              (True, bs) \<Rightarrow> flash_loop store (drop OTA_BUFFER_SIZE img) (acc @ bs)
            | (False, bs) \<Rightarrow> (False, acc @ bs)))"
  by pat_completeness auto
termination by (relation "measure (\<lambda>(store, img, acc). length img)") auto

declare flash_loop.simps [simp del]

definition put_flash :: "image \<Rightarrow> device \<Rightarrow> device" where
  "put_flash bs d = d\<lparr>o_part := (o_part d)(\<not> o_running d := bs)\<rparr>"

text \<open>A failed \<open>assert\<close> is undefined here.\<close>

definition start_to_upgrade :: "boot_env \<Rightarrow> string \<Rightarrow> 32 word \<Rightarrow> device \<Rightarrow> (int \<times> device) option" where
  "start_to_upgrade e name sz d =
     (case (if be_open e then o_files d name else None) of
        None \<Rightarrow> Some (-1, d)
      | Some img \<Rightarrow>
          (if o_boot d \<noteq> o_running d then None
           else (case be_begin e of
                   Some junk \<Rightarrow> Some (-2, put_flash junk d)
                 | None \<Rightarrow>
                     (let bytes = take (be_readable e) img
                      in (case flash_loop (be_store e) bytes [] of
                            (False, bs) \<Rightarrow> Some (-3, put_flash bs d)
                          | (True, bs) \<Rightarrow>
                              Some (if of_nat (length bytes) \<noteq> sz then -4 else if be_end e then 0 else -5, put_flash bs d))))))"

text \<open>\<open>strncmp(a, b, n)\<close> of two blocks of \<open>n\<close> bytes is zero.\<close>

fun strncmp_eq :: "image \<Rightarrow> image \<Rightarrow> bool" where
  "strncmp_eq (a # as) (b # bs) = (a = b \<and> (a = 0 \<or> strncmp_eq as bs))"
| "strncmp_eq _ _ = True"

definition flash_read :: "image \<Rightarrow> nat \<Rightarrow> nat \<Rightarrow> image" where
  "flash_read flash off n = take n (drop off flash @ replicate n 0xFF)"

function check_loop :: "(nat \<Rightarrow> bool) \<Rightarrow> image \<Rightarrow> image \<Rightarrow> nat \<Rightarrow> nat \<Rightarrow> int" where
  "check_loop ok flash img off n =
     (if n = 0 then 0
      else (let k = min n OTA_BUFFER_SIZE; block = take k (drop off img)
            in if \<not> ok off then -3
               else if length block \<noteq> k then -4
               else if \<not> strncmp_eq (flash_read flash off k) block then -5
               else check_loop ok flash img (off + k) (n - k)))"
  by pat_completeness auto
termination by (relation "measure (\<lambda>(ok, flash, img, off, n). n)") auto

declare check_loop.simps [simp del]

definition check_write_in_flase_error :: "boot_env \<Rightarrow> string \<Rightarrow> 32 word \<Rightarrow> device \<Rightarrow> int" where
  "check_write_in_flase_error e name sz d =
     (case (if be_open e then o_files d name else None) of
        None \<Rightarrow> -1
      | Some img \<Rightarrow> check_loop (be_flash_read e) (o_part d (\<not> o_running d)) (take (be_readable e) img) 0 (unat sz))"

definition change_boot_partition :: "boot_env \<Rightarrow> device \<Rightarrow> int \<times> device" where
  "change_boot_partition e d =
     (if o_boot d \<noteq> o_running d then (-1, d)
      else if \<not> be_set_boot e then (-3, d)
      else (0, d\<lparr>o_boot := \<not> o_running d\<rparr>))"

section \<open>The steps of an update\<close>

text \<open>A start goes on with the services, in factory mode or not, or the device restarts.\<close>

datatype startup = Boots bool device | Restarts device

text \<open>What is kept after a check or a change that may be tried again.\<close>

definition next_step :: "int \<Rightarrow> 8 word \<Rightarrow> upgrade_step_info_t \<Rightarrow> upgrade_step_info_t" where
  "next_step ret st i =
     (if ret = 0 then i\<lparr>us_before := us_step i, us_step := st, us_retry := 0\<rparr>
      else i\<lparr>us_step := (if MAX_RETRY \<le> us_retry i then NORMAL_STARTUP else us_step i), us_retry := us_retry i + 1\<rparr>)"

definition download_bin_finish :: "boot_env \<Rightarrow> upgrade_step_info_t \<Rightarrow> device \<Rightarrow> startup option" where
  "download_bin_finish e i d =
     (if MAX_RETRY \<le> us_retry i
      then Some (Boots False (snd (set_upgrade_file (be_write e) (i\<lparr>us_step := NORMAL_STARTUP\<rparr>) d)))
      else do {
        let i1 = i\<lparr>us_retry := us_retry i + 1\<rparr>;
        (ret, d1) \<leftarrow> start_to_upgrade e (us_file i) (us_size i) (snd (set_upgrade_file (be_write e) i1 d));
        Some (Restarts (snd (set_upgrade_file (be_write_again e)
          (if ret = 0 then i1\<lparr>us_before := us_step i1, us_step := ALREADY_WRITE_IN_FLASH, us_retry := 0\<rparr> else i1) d1))) })"

definition already_write_in_flash :: "boot_env \<Rightarrow> upgrade_step_info_t \<Rightarrow> device \<Rightarrow> startup" where
  "already_write_in_flash e i d =
     Restarts (snd (set_upgrade_file (be_write e)
       (next_step (check_write_in_flase_error e (us_file i) (us_size i) d) CHECK_FLASH_IS_RIGHT i) d))"

definition check_flash_is_right :: "boot_env \<Rightarrow> upgrade_step_info_t \<Rightarrow> device \<Rightarrow> startup" where
  "check_flash_is_right e i d =
     (case change_boot_partition e d of
        (ret, d1) \<Rightarrow> Restarts (snd (set_upgrade_file (be_write e) (next_step ret NORMAL_STARTUP i) d1)))"

definition doing_ota_upgrade :: "boot_env \<Rightarrow> upgrade_step_info_t \<Rightarrow> device \<Rightarrow> startup option" where
  "doing_ota_upgrade e i d =
     (if us_step i = NORMAL_STARTUP
      then Some (Boots False (if us_before i = CHECK_FLASH_IS_RIGHT then unlink_file (us_file i) d else d))
      else if us_step i = DOWNLOAD_BIN_FINISH then download_bin_finish e i d
      else if us_step i = ALREADY_WRITE_IN_FLASH then Some (already_write_in_flash e i d)
      else if us_step i = CHECK_FLASH_IS_RIGHT then Some (check_flash_is_right e i d)
      else Some (Restarts (d\<lparr>o_step := NoFile\<rparr>)))"

text \<open>A store of parameters without free pages, or one that cannot be started, restarts the device.\<close>

definition pre_system_check_and_init :: "boot_env \<Rightarrow> device \<Rightarrow> startup option" where
  "pre_system_check_and_init e d =
     (if \<not> be_nv e then Some (Restarts d)
      else (case get_upgrade_step (be_read e) d of
              (ret, i) \<Rightarrow>
                if ret \<noteq> 0 then Some (Restarts (snd (set_upgrade_file (be_write e) i d)))
                else if us_step i = FACTORY_MODE_STARTUP then Some (Boots True d)
                else doing_ota_upgrade e i d))"

text \<open>The starts of the device one after the other, until one goes on.\<close>

definition esp_restart :: "device \<Rightarrow> device" where
  "esp_restart d = d\<lparr>o_running := o_boot d\<rparr>"

fun starts :: "boot_env list \<Rightarrow> device \<Rightarrow> startup option" where
  "starts [] d = Some (Restarts d)"
| "starts (e # es) d =
     (case pre_system_check_and_init e d of
        None \<Rightarrow> None
      | Some (Boots f d') \<Rightarrow> Some (Boots f d')
      | Some (Restarts d') \<Rightarrow> starts es (esp_restart d'))"

section \<open>The update task\<close>

record load_finish_info_t =
  lf_path :: string
  lf_reason :: download_upload_finish_reason_t
  lf_size :: "32 word"

datatype ota_params = OtaRequest string | OtaLoaded load_finish_info_t
datatype ota_cmd_type = GET_OTA_VERSION | FINISH_OTA_FILE_DOWNLOAD

record ota_task =
  ot_device :: device
  ot_cmds :: "addr \<rightharpoonup> ota_params"
  ot_infos :: "addr set"
  ot_queue :: "(ota_cmd_type \<times> addr) list"
  ot_is_upgrade :: bool
  ot_requests :: "transfer_info list"

abbreviation OTA_QUEUE_SIZE :: nat where "OTA_QUEUE_SIZE \<equiv> 2"
abbreviation OTA_PATH_SIZE :: nat where "OTA_PATH_SIZE \<equiv> 56"
abbreviation OTA_VERSION_SIZE :: nat where "OTA_VERSION_SIZE \<equiv> 30"

definition BIN_FILE_PATH :: string where "BIN_FILE_PATH = ''/sdcard/''"

text \<open>A full queue makes the sender wait: it sends later.\<close>

definition send_ota_request_Q :: "ota_cmd_type \<times> addr \<Rightarrow> ota_task \<Rightarrow> ota_task option" where
  "send_ota_request_Q c s =
     (if length (ot_queue s) < OTA_QUEUE_SIZE then Some (s\<lparr>ot_queue := queue_send OTA_QUEUE_SIZE c (ot_queue s)\<rparr>) else None)"

text \<open>The answer of the download server; the memory for its copy is not tested.\<close>

definition ota_download_callback :: "addr option \<Rightarrow> download_upload_finish_reason_t \<Rightarrow> string \<Rightarrow> 32 word \<Rightarrow> ota_task
    \<Rightarrow> ota_task option" where
  "ota_download_callback mem reason path sz s =
     (case mem of
        None \<Rightarrow> None
      | Some a \<Rightarrow> send_ota_request_Q (FINISH_OTA_FILE_DOWNLOAD, a)
          (s\<lparr>ot_cmds := (ot_cmds s)(a \<mapsto> OtaLoaded \<lparr>lf_path = take (OTA_PATH_SIZE - 1) path, lf_reason = reason, lf_size = sz\<rparr>)\<rparr>))"

definition ota_command_recevie :: "addr option \<Rightarrow> bool \<Rightarrow> string \<Rightarrow> ota_task \<Rightarrow> ota_task option" where
  "ota_command_recevie mem update_push json s =
     (case mem of
        None \<Rightarrow> Some s
      | Some a \<Rightarrow>
          (if update_push then send_ota_request_Q (GET_OTA_VERSION, a) (s\<lparr>ot_cmds := (ot_cmds s)(a \<mapsto> OtaRequest json)\<rparr>)
           else Some s))"

text \<open>The request for a version at an address; writing behind the 320 bytes is undefined.\<close>

definition ota_request :: "string \<Rightarrow> string \<Rightarrow> transfer_info option" where
  "ota_request url version =
     map_option (\<lambda>path. \<lparr>ti_file_path_name = BIN_FILE_PATH @ take OTA_VERSION_SIZE version, ti_path = path, ti_port_number = []\<rparr>)
       (c_strncpy TRANSFER_PATH_SIZE url (length url))"

text \<open>\<open>mem\<close> is the memory of \<open>ota_info\<close>, \<open>sent\<close> whether the download server runs. When an update is
  under way the memory is not given back.\<close>

definition get_ota_version :: "'j cjson \<Rightarrow> addr option \<Rightarrow> bool \<Rightarrow> string \<Rightarrow> ota_task \<Rightarrow> ota_task option" where
  "get_ota_version j mem sent json s =
     (case Option.bind (cJSON_Parse j json) (\<lambda>root. cJSON_GetObjectItem j root ''data'') of
        None \<Rightarrow> Some s
      | Some data \<Rightarrow>
          (case cJSON_GetObjectItem j data ''ota_url'' of
             None \<Rightarrow> Some s
           | Some u \<Rightarrow> do {
               url \<leftarrow> cj_valuestring j u;
               (case mem of
                  None \<Rightarrow> Some s
                | Some a \<Rightarrow>
                    (case cJSON_GetObjectItem j data ''soft_version'' of
                       None \<Rightarrow> Some s
                     | Some v \<Rightarrow> do {
                         version \<leftarrow> cj_valuestring j v;
                         (if ot_is_upgrade s then Some (s\<lparr>ot_infos := insert a (ot_infos s)\<rparr>)
                          else do {
                            r \<leftarrow> ota_request url version;
                            let s1 = s\<lparr>ot_device := unlink_file (ti_file_path_name r) (ot_device s)\<rparr>;
                            Some (if sent then s1\<lparr>ot_requests := ot_requests s1 @ [r], ot_is_upgrade := True\<rparr> else s1) }) })) }))"

datatype ota_round = Goes_on ota_task | Upgrade_restart ota_task

text \<open>The check of the sum is always skipped: \<open>is_need_crc\<close> is zero.\<close>

definition check_net_resouce_is_right :: "bool \<Rightarrow> bool \<Rightarrow> int" where
  "check_net_resouce_is_right need_crc opens = (if \<not> need_crc then 0 else if opens then 0 else -1)"

definition finish_ota_file_download :: "write_result \<Rightarrow> load_finish_info_t \<Rightarrow> ota_task \<Rightarrow> ota_round" where
  "finish_ota_file_download w l s =
     (let i = \<lparr>us_step = DOWNLOAD_BIN_FINISH, us_retry = 0, us_before = NORMAL_STARTUP,
                us_file = take UPGRADE_NAME_SIZE (lf_path l), us_size = lf_size l\<rparr>;
          good = (lf_reason l = LOAD_SUCC \<and> 1024 < lf_size l \<and> check_net_resouce_is_right False True = 0);
          (ret, d) = (if good then set_upgrade_file w i (ot_device s) else (-1, ot_device s))
      in if ret = 0 then Upgrade_restart (s\<lparr>ot_device := d\<rparr>)
         else Goes_on (s\<lparr>ot_device := delete_all_upgrade_file (lf_path l) d, ot_is_upgrade := False\<rparr>))"

record ota_env =
  oe_mem :: "addr option"
  oe_sent :: bool
  oe_write :: write_result

definition free_params :: "addr \<Rightarrow> ota_task \<Rightarrow> ota_task option" where
  "free_params a s = (case ot_cmds s a of None \<Rightarrow> None | Some p \<Rightarrow> Some (s\<lparr>ot_cmds := (ot_cmds s)(a := None)\<rparr>))"

text \<open>A round of the task. The parameter of a command is what its sender made of it.\<close>

definition ota_update_task :: "'j cjson \<Rightarrow> ota_env \<Rightarrow> ota_task \<Rightarrow> ota_round option" where
  "ota_update_task j e s =
     (case queue_receive (ot_queue s) of
        None \<Rightarrow> Some (Goes_on s)
      | Some ((ty, a), q) \<Rightarrow> do {
          p \<leftarrow> ot_cmds s a;
          r \<leftarrow> (case (ty, p) of
                  (GET_OTA_VERSION, OtaRequest json) \<Rightarrow>
                    map_option Goes_on (get_ota_version j (oe_mem e) (oe_sent e) json (s\<lparr>ot_queue := q\<rparr>))
                | (FINISH_OTA_FILE_DOWNLOAD, OtaLoaded l) \<Rightarrow>
                    Some (finish_ota_file_download (oe_write e) l (s\<lparr>ot_queue := q\<rparr>))
                | _ \<Rightarrow> None);
          (case r of
             Goes_on s1 \<Rightarrow> map_option Goes_on (free_params a s1)
           | Upgrade_restart s1 \<Rightarrow> Some (Upgrade_restart s1)) })"

definition ota_task_init :: "device \<Rightarrow> ota_task" where
  "ota_task_init d = \<lparr>ot_device = d, ot_cmds = Map.empty, ot_infos = {}, ot_queue = [], ot_is_upgrade = False, ot_requests = []\<rparr>"

section \<open>The machine\<close>

text \<open>The update task with what reaches it: a round, a packet of the server, the answer to a download.
  The number counts the answers.\<close>

datatype ota_op = OtaRound ota_env | OtaPush "addr option" bool string
  | OtaDone "addr option" download_upload_finish_reason_t string "32 word"

fun ota_step :: "'j cjson \<Rightarrow> ota_op \<Rightarrow> ota_round \<times> nat \<Rightarrow> (ota_round \<times> nat) option" where
  "ota_step j op (Upgrade_restart s, n) = Some (Upgrade_restart s, n)"
| "ota_step j (OtaRound e) (Goes_on s, n) = map_option (\<lambda>r. (r, n)) (ota_update_task j e s)"
| "ota_step j (OtaPush mem push json) (Goes_on s, n) =
     map_option (\<lambda>s'. (Goes_on s', n)) (ota_command_recevie mem push json s)"
| "ota_step j (OtaDone mem reason path sz) (Goes_on s, n) =
     map_option (\<lambda>s'. (Goes_on s', n + 1)) (ota_download_callback mem reason path sz s)"

end
