(* ===== verification/Ota_Props.thy ===== *)
theory Ota_Props
  imports Ota
begin

text \<open>
  The update: what the check of the flash establishes, that an update ends after a bounded number of
  restarts, that it only starts what it has checked and that, when nothing fails, it installs the image; and
  the update task, which has one download at a time.
\<close>

section \<open>The check of the flash\<close>

lemma strncmp_eq_iff:
  "length as = length bs \<Longrightarrow> strncmp_eq as bs \<longleftrightarrow> (\<forall>k<length bs. (\<forall>j<k. bs ! j \<noteq> 0) \<longrightarrow> as ! k = bs ! k)"
proof (induction "as" bs rule: strncmp_eq.induct)
  case (1 a as' b bs)
  have "(\<forall>k<Suc (length bs). (\<forall>j<k. (b # bs) ! j \<noteq> 0) \<longrightarrow> (a # as') ! k = (b # bs) ! k) \<longleftrightarrow>
    a = b \<and> (b = 0 \<or> (\<forall>k<length bs. (\<forall>j<k. bs ! j \<noteq> 0) \<longrightarrow> as' ! k = bs ! k))"
    unfolding All_less_Suc2 by (auto simp: All_less_Suc2)
  with 1 show ?case by auto
qed auto

text \<open>The byte of a partition, and what the check compares: in each block the bytes up to the first zero.\<close>

definition flash_byte :: "image \<Rightarrow> nat \<Rightarrow> 8 word" where
  "flash_byte flash k = (if k < length flash then flash ! k else 0xFF)"

definition flash_matches :: "image \<Rightarrow> image \<Rightarrow> nat \<Rightarrow> bool" where
  "flash_matches flash img n \<longleftrightarrow>
     (\<forall>k<n. k < length img \<and> ((\<forall>j. k - k mod OTA_BUFFER_SIZE \<le> j \<and> j < k \<longrightarrow> img ! j \<noteq> 0) \<longrightarrow> flash_byte flash k = img ! k))"

lemma length_flash_read [simp]: "length (flash_read flash off n) = n"
  by (simp add: flash_read_def)

lemma nth_flash_read: "k < n \<Longrightarrow> flash_read flash off n ! k = flash_byte flash (off + k)"
  by (auto simp: flash_read_def flash_byte_def nth_append)

lemma check_loop_matches:
  assumes "check_loop ok flash img off n = 0" "off mod OTA_BUFFER_SIZE = 0"
  shows "\<forall>k. off \<le> k \<and> k < off + n \<longrightarrow> k < length img \<and>
    ((\<forall>j. k - k mod OTA_BUFFER_SIZE \<le> j \<and> j < k \<longrightarrow> img ! j \<noteq> 0) \<longrightarrow> flash_byte flash k = img ! k)"
  using assms
proof (induction ok flash img off n rule: check_loop.induct)
  case (1 ok flash img off n)
  show ?case
  proof (cases "n = 0")
    case False
    define b where "b = min n OTA_BUFFER_SIZE"
    have b: "0 < b" "b \<le> n" "b \<le> OTA_BUFFER_SIZE" using False by (simp_all add: b_def)
    have run: "length (take b (drop off img)) = b" "strncmp_eq (flash_read flash off b) (take b (drop off img))"
      "check_loop ok flash img (off + b) (n - b) = 0"
      using 1(2) False unfolding check_loop.simps [of ok flash img off n] by (auto simp: Let_def b_def split: if_splits)
    have len: "off + b \<le> length img" using run(1) b(1) by (simp add: min_def split: if_splits)
    have here: "flash_byte flash k = img ! k"
      if k: "off \<le> k" "k < off + b" "\<forall>j. k - k mod OTA_BUFFER_SIZE \<le> j \<and> j < k \<longrightarrow> img ! j \<noteq> 0" for k
    proof -
      obtain m where m: "k = off + m" "m < b" using k(1,2) by (metis le_Suc_ex nat_add_left_cancel_less)
      then have "k - k mod OTA_BUFFER_SIZE = off" using 1(3) b(3) by (simp add: mod_add_left_eq [symmetric] del: mod_add_left_eq)
      then have "\<forall>j<m. take b (drop off img) ! j \<noteq> 0" using k(3) m len by simp
      then have "flash_read flash off b ! m = take b (drop off img) ! m"
        using run(1,2) m(2) by (simp add: strncmp_eq_iff)
      then show ?thesis using m len by (simp add: nth_flash_read)
    qed
    have rest: "\<forall>k. off + b \<le> k \<and> k < off + n \<longrightarrow> k < length img \<and>
      ((\<forall>j. k - k mod OTA_BUFFER_SIZE \<le> j \<and> j < k \<longrightarrow> img ! j \<noteq> 0) \<longrightarrow> flash_byte flash k = img ! k)"
    proof (cases "b = n")
      case more: False
      then have "b = OTA_BUFFER_SIZE" using b by (simp add: b_def min_def split: if_splits)
      then have "(off + b) mod OTA_BUFFER_SIZE = 0" using 1(3) by simp
      moreover have "ok off" using 1(2) False by (simp add: check_loop.simps [of ok flash img off n] Let_def split: if_splits)
      moreover have "off + b + (n - b) = off + n" using b(2) by simp
      ultimately show ?thesis using 1(1) [OF False b_def refl] run by simp
    qed auto
    show ?thesis using here rest len by (metis less_le_trans not_less)
  qed auto
qed

lemma check_matches:
  "check_loop ok flash img 0 n = 0 \<Longrightarrow> flash_matches flash img n"
  using check_loop_matches [of ok flash img 0 n] by (simp add: flash_matches_def)

lemma strncmp_eq_refl: "strncmp_eq as as"
  by (induction as) auto

lemma check_written:
  assumes "\<And>n. ok n" "off + n \<le> length img"
  shows "check_loop ok img img off n = 0"
  using assms
proof (induction n arbitrary: off rule: less_induct)
  case (less n)
  have "check_loop ok img img (off + min n OTA_BUFFER_SIZE) (n - min n OTA_BUFFER_SIZE) = 0" if "n \<noteq> 0"
    using less.prems that by (intro less.IH) auto
  then show ?case using less.prems unfolding check_loop.simps [of ok img img off n]
    by (simp add: Let_def flash_read_def strncmp_eq_refl)
qed

lemma flash_matches_take: "flash_matches flash (take r img) n \<Longrightarrow> flash_matches flash img n"
  by (auto simp: flash_matches_def)

text \<open>Behind the first zero of a block nothing is compared: a flash that differs there passes the check.\<close>

lemma check_ignores_behind_nul:
  assumes "\<And>n. ok n" "n \<le> OTA_BUFFER_SIZE" "n \<le> length (0 # cs)"
  shows "check_loop ok (0 # bs) (0 # cs) 0 n = 0"
  using assms by (cases n) (simp_all add: check_loop.simps Let_def flash_read_def)

section \<open>A start of the device\<close>

text \<open>The step file and the store of parameters work.\<close>

definition card_ok :: "boot_env \<Rightarrow> bool" where
  "card_ok e \<longleftrightarrow> be_nv e \<and> be_read e = ReadOk \<and> be_write e = WriteOk \<and> be_write_again e = WriteOk"

text \<open>How many restarts are left at most.\<close>

definition steps_left :: "step_file \<Rightarrow> nat" where
  "steps_left f =
     (let left = (\<lambda>i.
        if us_step i = NORMAL_STARTUP \<or> us_step i = FACTORY_MODE_STARTUP then 1
        else if us_step i = DOWNLOAD_BIN_FINISH then (if 3 \<le> unat (us_retry i) then 1 else 12 - unat (us_retry i))
        else if us_step i = ALREADY_WRITE_IN_FLASH then (if 3 \<le> unat (us_retry i) then 6 else 9 - unat (us_retry i))
        else if us_step i = CHECK_FLASH_IS_RIGHT then (if 3 \<le> unat (us_retry i) then 2 else 5 - unat (us_retry i))
        else 3)
      in case f of NoFile \<Rightarrow> 2 | StepFile i \<Rightarrow> left i | ShortFile i \<Rightarrow> left i + 1)"

lemma retry_less: "\<not> MAX_RETRY \<le> r \<Longrightarrow> unat (r + 1) = unat r + 1 \<and> unat r < 3" for r :: "8 word"
  by (simp add: word_le_nat_alt unat_word_ariths)

lemma retry_ge: "MAX_RETRY \<le> r \<Longrightarrow> 3 \<le> unat r" for r :: "8 word"
  by unat_arith

lemma put_flash_simps [simp]:
  "o_step (put_flash bs d) = o_step d" "o_files (put_flash bs d) = o_files d" "o_running (put_flash bs d) = o_running d"
  "o_boot (put_flash bs d) = o_boot d" "o_part (put_flash bs d) = (o_part d)(\<not> o_running d := bs)"
  by (simp_all add: put_flash_def)

lemma start_to_upgrade_result:
  assumes "o_boot d = o_running d"
  shows "\<exists>ret bs. start_to_upgrade e name sz d = Some (ret, d) \<or> start_to_upgrade e name sz d = Some (ret, put_flash bs d)"
  using assms by (auto simp: start_to_upgrade_def Let_def split: option.splits prod.splits bool.splits)

lemma set_ok [simp]: "set_upgrade_file WriteOk i d = (0, d\<lparr>o_step := StepFile i\<rparr>)"
  by (simp add: set_upgrade_file_def)

lemma steps_left_simps:
  "us_step i = 0 \<or> us_step i = 5 \<Longrightarrow> steps_left (StepFile i) = 1"
  "us_step i = 1 \<Longrightarrow> steps_left (StepFile i) = (if 3 \<le> unat (us_retry i) then 1 else 12 - unat (us_retry i))"
  "us_step i = 2 \<Longrightarrow> steps_left (StepFile i) = (if 3 \<le> unat (us_retry i) then 6 else 9 - unat (us_retry i))"
  "us_step i = 4 \<Longrightarrow> steps_left (StepFile i) = (if 3 \<le> unat (us_retry i) then 2 else 5 - unat (us_retry i))"
  "us_step i \<noteq> 0 \<Longrightarrow> us_step i \<noteq> 1 \<Longrightarrow> us_step i \<noteq> 2 \<Longrightarrow> us_step i \<noteq> 4 \<Longrightarrow> us_step i \<noteq> 5 \<Longrightarrow> steps_left (StepFile i) = 3"
  "steps_left NoFile = 2"
  "steps_left (ShortFile i) = steps_left (StepFile i) + 1"
  by (auto simp: steps_left_def Let_def)

lemma steps_left_bound: "1 \<le> steps_left f \<and> steps_left f \<le> 13"
  by (cases f) (auto simp: steps_left_def Let_def)

lemma next_step_less:
  assumes "us_step i = 2 \<and> st = 4 \<or> us_step i = 4 \<and> st = 0"
  shows "steps_left (StepFile (next_step ret st i)) < steps_left (StepFile i)"
proof (cases "ret = 0")
  case True
  then show ?thesis using assms by (auto simp: next_step_def steps_left_simps)
next
  case False
  then show ?thesis using assms retry_less [of "us_retry i"] retry_ge [of "us_retry i"]
    by (cases "MAX_RETRY \<le> us_retry i") (auto simp: next_step_def steps_left_simps)
qed

lemma update_progress:
  assumes "card_ok e" "o_boot d = o_running d"
  shows "\<exists>r. pre_system_check_and_init e d = Some r \<and>
    (case r of Boots f d' \<Rightarrow> True | Restarts d' \<Rightarrow> steps_left (o_step d') < steps_left (o_step d))"
proof (cases "o_step d")
  case (StepFile i)
  have pre: "pre_system_check_and_init e d =
      (if us_step i = FACTORY_MODE_STARTUP then Some (Boots True d) else doing_ota_upgrade e i d)"
    using assms(1) StepFile by (simp add: pre_system_check_and_init_def card_ok_def get_upgrade_step_def)
  consider "us_step i = 0" | "us_step i = 5" | "us_step i = 1" "MAX_RETRY \<le> us_retry i" | "us_step i = 1" "\<not> MAX_RETRY \<le> us_retry i"
    | "us_step i = 2" | "us_step i = 4" | "us_step i \<notin> {0, 1, 2, 4, 5}" by blast
  then show ?thesis
  proof cases
    case 4
    let ?i = "i\<lparr>us_retry := us_retry i + 1\<rparr>" and ?d = "d\<lparr>o_step := StepFile (i\<lparr>us_retry := us_retry i + 1\<rparr>)\<rparr>"
    obtain ret d1 where s: "start_to_upgrade e (us_file i) (us_size i) ?d = Some (ret, d1)"
      using start_to_upgrade_result [of ?d e "us_file i" "us_size i"] assms(2) by auto
    show ?thesis using 4 assms(1) s retry_less [OF 4(2)] StepFile
      by (simp add: pre doing_ota_upgrade_def download_bin_finish_def card_ok_def steps_left_simps Let_def) auto
  next
    case 5
    then show ?thesis using assms(1) StepFile next_step_less [of i 4]
      by (simp add: pre doing_ota_upgrade_def already_write_in_flash_def card_ok_def)
  next
    case 6
    then show ?thesis using assms(1) StepFile next_step_less [of i 0]
      by (auto simp: pre doing_ota_upgrade_def check_flash_is_right_def card_ok_def change_boot_partition_def)
  qed (use assms(1) StepFile in \<open>auto simp: pre doing_ota_upgrade_def download_bin_finish_def card_ok_def steps_left_simps\<close>)
qed (use assms(1) in \<open>simp_all add: pre_system_check_and_init_def card_ok_def get_upgrade_step_def zero_info_def steps_left_simps\<close>)

text \<open>C18: When the step file can be read and written, the device comes up after at most thirteen starts from
  whatever state the card is in, however often the image cannot be read, written, checked or selected.\<close>

theorem update_comes_to_an_end:
  assumes "list_all card_ok es" "13 \<le> length es" "o_boot d = o_running d"
  shows "\<exists>f d'. starts es d = Some (Boots f d')"
proof -
  have "\<exists>f d'. starts es d = Some (Boots f d')"
    if "list_all card_ok es" "steps_left (o_step d) \<le> length es" "o_boot d = o_running d" for es d
    using that
  proof (induction es arbitrary: d)
    case Nil
    then show ?case using steps_left_bound [of "o_step d"] by simp
  next
    case (Cons e es)
    then obtain r where r: "pre_system_check_and_init e d = Some r"
      "case r of Boots f d' \<Rightarrow> True | Restarts d' \<Rightarrow> steps_left (o_step d') < steps_left (o_step d)"
      using update_progress [of e d] by auto
    show ?case
    proof (cases r)
      case (Restarts d')
      with r Cons.prems have "\<exists>f d''. starts es (esp_restart d') = Some (Boots f d'')"
        by (intro Cons.IH) (auto simp: esp_restart_def)
      with Restarts r(1) show ?thesis by simp
    qed (use r(1) in simp)
  qed
  with assms steps_left_bound [of "o_step d"] show ?thesis by (meson le_trans)
qed

definition fine_env :: boot_env where
  "fine_env = \<lparr>be_nv = True, be_read = ReadOk, be_write = WriteOk, be_write_again = WriteOk, be_open = True,
     be_readable = 4, be_begin = None, be_store = (\<lambda>k bs. (True, bs)), be_end = True, be_flash_read = (\<lambda>k. True), be_set_boot = True\<rparr>"

definition some_device :: "8 word \<Rightarrow> device" where
  "some_device st = \<lparr>o_step = StepFile \<lparr>us_step = st, us_retry = 0, us_before = 0, us_file = ''/sdcard/2.0'', us_size = 2\<rparr>,
     o_files = [''/sdcard/2.0'' \<mapsto> [0xE9, 0]], o_part = (\<lambda>p. if p then [0xE9, 0] else [1]), o_running = False, o_boot = False\<rparr>"

lemma fine_env_card: "card_ok fine_env"
  by (simp add: fine_env_def card_ok_def)

lemma update_comes_to_an_end_witness: "\<exists>f d'. starts (replicate 13 fine_env) (some_device 3) = Some (Boots f d')"
  by (rule update_comes_to_an_end) (simp_all add: fine_env_card list_all_iff some_device_def)

text \<open>Without a card that can be written the device restarts for ever.\<close>

lemma no_card_restarts_for_ever:
  "starts (replicate n e) d = Some (Restarts d)" if "be_read e = ReadNoFile" "be_write e = WriteNoFile" "o_boot d = o_running d"
  using that by (induction n) (auto simp: pre_system_check_and_init_def get_upgrade_step_def set_upgrade_file_def esp_restart_def)

section \<open>Only what was checked is started\<close>

text \<open>The image of that name and size has been compared with the partition that is not running.\<close>

definition compared :: "string \<Rightarrow> 32 word \<Rightarrow> (string \<rightharpoonup> image) \<Rightarrow> image \<Rightarrow> bool" where
  "compared name sz files flash \<longleftrightarrow> (\<exists>img. files name = Some img \<and> flash_matches flash img (unat sz))"

definition updating :: "string \<Rightarrow> 32 word \<Rightarrow> (string \<rightharpoonup> image) \<Rightarrow> bool \<Rightarrow> device \<Rightarrow> bool" where
  "updating name sz files run d \<longleftrightarrow> o_boot d = run \<and> o_running d = run \<and> o_files d = files \<and>
     (case o_step d of
        NoFile \<Rightarrow> True
      | ShortFile i \<Rightarrow> False
      | StepFile i \<Rightarrow> us_step i \<in> {1, 2, 4} \<longrightarrow> us_file i = name \<and> us_size i = sz \<and>
          (us_step i = 4 \<longrightarrow> compared name sz files (o_part d (\<not> run))))"

definition switched :: "string \<Rightarrow> 32 word \<Rightarrow> (string \<rightharpoonup> image) \<Rightarrow> bool \<Rightarrow> device \<Rightarrow> bool" where
  "switched name sz files run d \<longleftrightarrow> o_boot d = (\<not> run) \<and> compared name sz files (o_part d (\<not> run)) \<and>
     (\<exists>i. o_step d = StepFile i \<and> us_step i = 0)"

lemma check_compared:
  "check_write_in_flase_error e name sz d = 0 \<Longrightarrow> compared name sz (o_files d) (o_part d (\<not> o_running d))"
  by (auto simp: check_write_in_flase_error_def compared_def split: option.splits if_splits dest!: check_matches
      dest: flash_matches_take)

lemma updating_step:
  assumes "card_ok e" "updating name sz files run d" "pre_system_check_and_init e d = Some r"
  shows "case r of Boots f d' \<Rightarrow> o_boot d' = run
    | Restarts d' \<Rightarrow> updating name sz files run (esp_restart d') \<or> switched name sz files run (esp_restart d')"
proof (cases "o_step d")
  case NoFile
  then show ?thesis using assms
    by (auto simp: pre_system_check_and_init_def card_ok_def get_upgrade_step_def updating_def zero_info_def esp_restart_def)
next
  case (ShortFile i)
  then show ?thesis using assms(2) by (simp add: updating_def)
next
  case (StepFile i)
  have d: "o_boot d = run" "o_running d = run" "o_files d = files" using assms(2) by (simp_all add: updating_def)
  have r: "us_step i = FACTORY_MODE_STARTUP \<Longrightarrow> r = Boots True d"
    "us_step i \<noteq> FACTORY_MODE_STARTUP \<Longrightarrow> doing_ota_upgrade e i d = Some r"
    using assms(1,3) StepFile by (simp_all add: pre_system_check_and_init_def card_ok_def get_upgrade_step_def)
  have i: "us_step i \<in> {1, 2, 4} \<Longrightarrow> us_file i = name \<and> us_size i = sz"
    "us_step i = 4 \<Longrightarrow> compared name sz files (o_part d (\<not> run))"
    using assms(2) StepFile by (auto simp: updating_def)
  consider "us_step i = 0" | "us_step i = 5" | "us_step i = 1" | "us_step i = 2" | "us_step i = 4" | "us_step i \<notin> {0, 1, 2, 4, 5}" by blast
  then show ?thesis
  proof cases
    case 3
    show ?thesis
    proof (cases "MAX_RETRY \<le> us_retry i")
      case True
      then show ?thesis using 3 r(2) assms(1) d by (auto simp: doing_ota_upgrade_def download_bin_finish_def card_ok_def)
    next
      case False
      let ?d = "d\<lparr>o_step := StepFile (i\<lparr>us_retry := us_retry i + 1\<rparr>)\<rparr>"
      obtain ret bs d1 where s: "start_to_upgrade e name sz ?d = Some (ret, d1)" "d1 = ?d \<or> d1 = put_flash bs ?d"
        using start_to_upgrade_result [of ?d e name sz] d by auto
      then have "o_boot d1 = run" "o_running d1 = run" "o_files d1 = files" using d by auto
      then show ?thesis using 3 False r(2) assms(1) s(1) i(1)
        by (auto simp: doing_ota_upgrade_def download_bin_finish_def card_ok_def Let_def updating_def esp_restart_def)
    qed
  next
    case 4
    then have "r = Restarts (d\<lparr>o_step := StepFile (next_step (check_write_in_flase_error e name sz d) 4 i)\<rparr>)"
      using r(2) i(1) assms(1) by (simp add: doing_ota_upgrade_def already_write_in_flash_def card_ok_def)
    then show ?thesis using 4 d i(1) check_compared [of e name sz d] by (auto simp: updating_def esp_restart_def next_step_def)
  next
    case 5
    then show ?thesis using r(2) i assms(1) d
      by (auto simp: doing_ota_upgrade_def check_flash_is_right_def card_ok_def change_boot_partition_def next_step_def
          updating_def switched_def esp_restart_def)
  qed (use r assms(1) d in \<open>auto simp: doing_ota_upgrade_def updating_def esp_restart_def unlink_file_def\<close>)
qed

lemma switched_step:
  assumes "card_ok e" "switched name sz files run d"
  shows "\<exists>d'. pre_system_check_and_init e d = Some (Boots False d') \<and> o_boot d' = (\<not> run) \<and> o_part d' = o_part d"
  using assms
  by (auto simp: switched_def pre_system_check_and_init_def card_ok_def get_upgrade_step_def doing_ota_upgrade_def unlink_file_def
      split: if_splits)

definition device_of :: "startup \<Rightarrow> device" where
  "device_of r = (case r of Boots f d \<Rightarrow> d | Restarts d \<Rightarrow> d)"

text \<open>C17: In however many starts, and whatever goes wrong with the image, the flash and the partition table, the
  partition that is started changes only to one whose content has been compared, in full length, with the image
  that was recorded for the update; the comparison covers in each block the bytes up to the first zero.\<close>

theorem only_compared_images_are_started:
  assumes "list_all card_ok es" "starts es d = Some r" "o_step d = StepFile i" "us_step i \<noteq> CHECK_FLASH_IS_RIGHT"
    and "o_boot d = o_running d" "o_boot (device_of r) \<noteq> o_boot d"
  shows "\<exists>img. o_files d (us_file i) = Some img \<and>
    flash_matches (o_part (device_of r) (o_boot (device_of r))) img (unat (us_size i))"
proof -
  let ?n = "us_file i" and ?z = "us_size i" and ?F = "o_files d" and ?R = "o_running d"
  have "compared ?n ?z ?F (o_part (device_of r) (\<not> ?R))"
    if "list_all card_ok es" "starts es d1 = Some r" "updating ?n ?z ?F ?R d1 \<or> switched ?n ?z ?F ?R d1"
      "o_boot (device_of r) \<noteq> ?R" for es d1
    using that
  proof (induction es arbitrary: d1)
    case Nil
    then show ?case by (auto simp: device_of_def updating_def switched_def)
  next
    case (Cons e es)
    from Cons.prems(3) show ?case
    proof
      assume sw: "switched ?n ?z ?F ?R d1"
      then obtain d' where "pre_system_check_and_init e d1 = Some (Boots False d')" "o_part d' = o_part d1"
        using switched_step [of e] Cons.prems(1) by (metis list.pred_inject(2))
      then show ?thesis using Cons.prems(2) sw by (auto simp: device_of_def switched_def)
    next
      assume up: "updating ?n ?z ?F ?R d1"
      then obtain q where q: "pre_system_check_and_init e d1 = Some q" using Cons.prems(2) by (auto split: option.splits)
      have e: "card_ok e" "list_all card_ok es" using Cons.prems(1) by simp_all
      show ?thesis
      proof (cases q)
        case (Boots f d')
        then show ?thesis using updating_step [OF e(1) up q] q Cons.prems(2,4) by (auto simp: device_of_def)
      next
        case (Restarts d')
        then have "starts es (esp_restart d') = Some r" using q Cons.prems(2) by simp
        moreover have "updating ?n ?z ?F ?R (esp_restart d') \<or> switched ?n ?z ?F ?R (esp_restart d')"
          using updating_step [OF e(1) up q] Restarts by simp
        ultimately show ?thesis using Cons.IH [OF e(2)] Cons.prems(4) by blast
      qed
    qed
  qed
  moreover have "updating ?n ?z ?F ?R d" using assms(3-5) by (simp add: updating_def)
  ultimately have "compared ?n ?z ?F (o_part (device_of r) (\<not> ?R))" using assms(1,2,5,6) by blast
  then show ?thesis using assms(5,6) by (auto simp: compared_def)
qed

lemma only_compared_images_are_started_witness:
  "\<exists>r img. starts [fine_env, fine_env, fine_env] (some_device 2) = Some r \<and> o_boot (device_of r) \<and>
    o_files (some_device 2) ''/sdcard/2.0'' = Some img \<and> flash_matches (o_part (device_of r) True) img 2"
proof -
  have c: "check_loop (\<lambda>k. True) [0xE9, 0] [0xE9, 0] 0 2 = 0" by (rule check_written) simp_all
  obtain r where r: "starts [fine_env, fine_env, fine_env] (some_device 2) = Some r" "o_boot (device_of r)"
    by (simp add: pre_system_check_and_init_def get_upgrade_step_def doing_ota_upgrade_def already_write_in_flash_def
        check_write_in_flase_error_def c next_step_def check_flash_is_right_def change_boot_partition_def esp_restart_def
        some_device_def fine_env_def unlink_file_def device_of_def)
  from only_compared_images_are_started [OF _ r(1)] r(2) fine_env_card
  have "\<exists>img. o_files (some_device 2) ''/sdcard/2.0'' = Some img \<and> flash_matches (o_part (device_of r) True) img 2"
    by (simp add: some_device_def)
  with r show ?thesis by blast
qed

section \<open>An update without failures\<close>

text \<open>Everything works, and the flash stores what is written.\<close>

definition all_ok :: "nat \<Rightarrow> boot_env \<Rightarrow> bool" where
  "all_ok n e \<longleftrightarrow> card_ok e \<and> be_open e \<and> n \<le> be_readable e \<and> be_begin e = None \<and> (\<forall>k bs. be_store e k bs = (True, bs)) \<and>
     be_end e \<and> (\<forall>k. be_flash_read e k) \<and> be_set_boot e"

lemma flash_loop_ok: "(\<And>k bs. store k bs = (True, bs)) \<Longrightarrow> flash_loop store img acc = (True, acc @ img)"
proof (induction "length img" arbitrary: img acc rule: less_induct)
  case less
  then show ?case unfolding flash_loop.simps [of store img acc] by simp
qed

lemma unat_length: "length img < 2 ^ 32 \<Longrightarrow> unat (of_nat (length img) :: 32 word) = length img"
  by (simp add: unat_of_nat)

text \<open>C19: An image that is on the card when its update begins, and whose recorded size is its length, is installed by
  four starts when nothing fails: the other partition then holds exactly its bytes, is the one that runs and
  is started, and the file is gone; every other file and the old partition are as before.\<close>

theorem update_installs_the_image:
  assumes "list_all (all_ok (length img)) es" "length es = 4" "o_boot d = o_running d"
    and "o_step d = StepFile i" "us_step i = DOWNLOAD_BIN_FINISH" "us_retry i < MAX_RETRY"
    and "o_files d (us_file i) = Some img" "us_size i = of_nat (length img)" "length img < 2 ^ 32"
  shows "\<exists>d'. starts es d = Some (Boots False d') \<and> o_running d' = (\<not> o_running d) \<and> o_boot d' = o_running d' \<and>
    o_part d' = (o_part d)(o_running d' := img) \<and> o_files d' = (o_files d)(us_file i := None)"
proof -
  obtain e1 e2 e3 e4 where es: "es = [e1, e2, e3, e4]" using assms(2)
    by (auto simp: eval_nat_numeral length_Suc_conv)
  have ok: "all_ok (length img) e1" "all_ok (length img) e2" "all_ok (length img) e3" "all_ok (length img) e4"
    using assms(1) es by simp_all
  define i2 where "i2 = i\<lparr>us_retry := 0, us_before := 1, us_step := 2\<rparr>"
  define d2 where "d2 = (put_flash img d)\<lparr>o_step := StepFile i2\<rparr>"
  define i3 where "i3 = i2\<lparr>us_before := 2, us_step := 4\<rparr>"
  define d3 where "d3 = d2\<lparr>o_step := StepFile i3\<rparr>"
  define i4 where "i4 = i3\<lparr>us_before := 4, us_step := 0\<rparr>"
  define d4 where "d4 = d3\<lparr>o_step := StepFile i4, o_boot := \<not> o_running d\<rparr>"
  note defs = pre_system_check_and_init_def get_upgrade_step_def doing_ota_upgrade_def
  have "start_to_upgrade e1 (us_file i) (us_size i) (d\<lparr>o_step := x\<rparr>) = Some (0, put_flash img (d\<lparr>o_step := x\<rparr>))" for x
    using ok(1) assms(3,7,8) by (simp add: start_to_upgrade_def all_ok_def flash_loop_ok)
  then have s1: "pre_system_check_and_init e1 d = Some (Restarts d2)"
    using ok(1) assms(4,5,6) by (simp add: defs all_ok_def card_ok_def download_bin_finish_def Let_def d2_def i2_def put_flash_def not_le)
  have "check_write_in_flase_error e2 (us_file i2) (us_size i2) d2 = 0"
    using ok(2) assms(7,8,9) by (simp add: check_write_in_flase_error_def all_ok_def d2_def i2_def check_written unat_length)
  then have s2: "pre_system_check_and_init e2 d2 = Some (Restarts d3)"
    using ok(2) by (simp add: defs all_ok_def card_ok_def already_write_in_flash_def next_step_def d2_def d3_def i3_def i2_def)
  have s3: "pre_system_check_and_init e3 d3 = Some (Restarts d4)"
    using ok(3) assms(3) by (simp add: defs all_ok_def card_ok_def check_flash_is_right_def change_boot_partition_def next_step_def
        d2_def d3_def d4_def i4_def i3_def i2_def)
  have s4: "pre_system_check_and_init e4 (esp_restart d4) = Some (Boots False (unlink_file (us_file i) (esp_restart d4)))"
    using ok(4) by (simp add: defs all_ok_def card_ok_def esp_restart_def d4_def i4_def i3_def i2_def)
  have "esp_restart d2 = d2" "esp_restart d3 = d3" using assms(3) by (simp_all add: esp_restart_def d3_def d2_def)
  then have "starts es d = Some (Boots False (unlink_file (us_file i) (esp_restart d4)))"
    by (simp add: es s1 s2 s3 s4)
  then show ?thesis by (simp add: unlink_file_def esp_restart_def d4_def d3_def d2_def)
qed

lemma update_installs_the_image_witness:
  "\<exists>d'. starts (replicate 4 fine_env) (some_device 1) = Some (Boots False d') \<and> o_running d' \<and> o_boot d' \<and>
    o_part d' True = [0xE9, 0] \<and> o_files d' ''/sdcard/2.0'' = None"
proof -
  have "list_all (all_ok (length [0xE9, 0 :: 8 word])) (replicate 4 fine_env)"
    by (simp add: fine_env_def card_ok_def all_ok_def list_all_iff)
  from update_installs_the_image [OF this, of "some_device 1"] show ?thesis
    by (auto simp: some_device_def)
qed

section \<open>The update task\<close>

text \<open>A request whose address and version are strings, the address not longer than its array.\<close>

definition request_ok :: "'j cjson \<Rightarrow> string \<Rightarrow> bool" where
  "request_ok j json \<longleftrightarrow>
     (\<forall>root data u. cJSON_Parse j json = Some root \<longrightarrow> cJSON_GetObjectItem j root ''data'' = Some data \<longrightarrow>
        cJSON_GetObjectItem j data ''ota_url'' = Some u \<longrightarrow>
        (\<exists>url. cj_valuestring j u = Some url \<and> length url \<le> TRANSFER_PATH_SIZE) \<and>
        (\<forall>v. cJSON_GetObjectItem j data ''soft_version'' = Some v \<longrightarrow> cj_valuestring j v \<noteq> None))"

text \<open>Memory that is given is free; senders wait for room; each request is answered once.\<close>

fun ota_ok :: "'j cjson \<Rightarrow> ota_op \<Rightarrow> ota_round \<times> nat \<Rightarrow> bool" where
  "ota_ok j (OtaRound e) r = True"
| "ota_ok j op (Upgrade_restart s, n) = True"
| "ota_ok j (OtaPush mem push json) (Goes_on s, n) =
     (length (ot_queue s) < OTA_QUEUE_SIZE \<and> (\<forall>a. mem = Some a \<longrightarrow> a \<notin> dom (ot_cmds s)) \<and> request_ok j json)"
| "ota_ok j (OtaDone mem reason path sz) (Goes_on s, n) =
     (length (ot_queue s) < OTA_QUEUE_SIZE \<and> (\<exists>a. mem = Some a \<and> a \<notin> dom (ot_cmds s)) \<and> n < length (ot_requests s))"

fun cmd_ok :: "'j cjson \<Rightarrow> ota_cmd_type \<Rightarrow> ota_params option \<Rightarrow> bool" where
  "cmd_ok j GET_OTA_VERSION (Some (OtaRequest json)) = request_ok j json"
| "cmd_ok j FINISH_OTA_FILE_DOWNLOAD (Some (OtaLoaded l)) = True"
| "cmd_ok j _ _ = False"

definition answers_waiting :: "(ota_cmd_type \<times> addr) list \<Rightarrow> nat" where
  "answers_waiting q = length (filter (\<lambda>c. fst c = FINISH_OTA_FILE_DOWNLOAD) q)"

definition ota_inv :: "'j cjson \<Rightarrow> ota_round \<times> nat \<Rightarrow> bool" where
  "ota_inv j r \<longleftrightarrow>
     (case r of
        (Upgrade_restart s, n) \<Rightarrow> True
      | (Goes_on s, n) \<Rightarrow>
          distinct (map snd (ot_queue s)) \<and> (\<forall>(ty, a)\<in>set (ot_queue s). cmd_ok j ty (ot_cmds s a)) \<and>
          length (ot_requests s) + answers_waiting (ot_queue s) = n + (if ot_is_upgrade s then 1 else 0) \<and>
          n \<le> length (ot_requests s))"

lemma cmd_ok_live: "cmd_ok j ty x \<Longrightarrow> x \<noteq> None"
  by (cases x) auto

lemma get_ota_version_safe:
  assumes "request_ok j json"
  shows "\<exists>s'. get_ota_version j mem sent json s = Some s' \<and> ot_cmds s' = ot_cmds s \<and> ot_queue s' = ot_queue s \<and>
    (ot_requests s' = ot_requests s \<and> ot_is_upgrade s' = ot_is_upgrade s \<or>
     length (ot_requests s') = Suc (length (ot_requests s)) \<and> \<not> ot_is_upgrade s \<and> ot_is_upgrade s')"
proof (cases "Option.bind (cJSON_Parse j json) (\<lambda>root. cJSON_GetObjectItem j root ''data'')")
  case (Some data)
  show ?thesis
  proof (cases "cJSON_GetObjectItem j data ''ota_url''")
    case u: (Some u)
    then obtain url where url: "cj_valuestring j u = Some url" "length url \<le> TRANSFER_PATH_SIZE"
      "\<forall>v. cJSON_GetObjectItem j data ''soft_version'' = Some v \<longrightarrow> cj_valuestring j v \<noteq> None"
      using assms Some unfolding request_ok_def bind_Some_ex by blast
    then show ?thesis using Some u
      by (auto simp: get_ota_version_def ota_request_def c_strncpy_def Let_def split: option.splits)
  qed (use Some in \<open>simp add: get_ota_version_def\<close>)
qed (simp add: get_ota_version_def)

lemma finish_result:
  "(\<exists>s'. finish_ota_file_download w l s = Upgrade_restart s') \<or>
   (\<exists>d. finish_ota_file_download w l s = Goes_on (s\<lparr>ot_device := d, ot_is_upgrade := False\<rparr>))"
  by (cases "lf_reason l = LOAD_SUCC \<and> 1024 < lf_size l"; cases w)
    (auto simp: finish_ota_file_download_def check_net_resouce_is_right_def set_upgrade_file_def)

lemma answers_waiting_simps [simp]:
  "answers_waiting [] = 0"
  "answers_waiting ((GET_OTA_VERSION, a) # q) = answers_waiting q"
  "answers_waiting ((FINISH_OTA_FILE_DOWNLOAD, a) # q) = Suc (answers_waiting q)"
  "answers_waiting (q @ q') = answers_waiting q + answers_waiting q'"
  by (simp_all add: answers_waiting_def)

lemma ota_round_safe:
  assumes "ota_inv j (Goes_on s, n)"
  shows "\<exists>r. ota_update_task j e s = Some r \<and> ota_inv j (r, n)"
proof (cases "ot_queue s")
  case Nil
  then show ?thesis using assms by (simp add: ota_update_task_def)
next
  case (Cons c q)
  obtain ty a where c: "c = (ty, a)" by (cases c)
  have inv: "distinct (map snd q)" "a \<notin> snd ` set q" "\<forall>(ty, a)\<in>set q. cmd_ok j ty (ot_cmds s a)" "cmd_ok j ty (ot_cmds s a)"
    "length (ot_requests s) + answers_waiting (c # q) = n + (if ot_is_upgrade s then 1 else 0)" "n \<le> length (ot_requests s)"
    using assms Cons c by (auto simp: ota_inv_def)
  have rest: "\<forall>(ty, b)\<in>set q. cmd_ok j ty (((ot_cmds s)(a := None)) b)" using inv(2,3) by force
  show ?thesis
  proof (cases ty)
    case GET_OTA_VERSION
    then obtain json where p: "ot_cmds s a = Some (OtaRequest json)" "request_ok j json"
      using inv(4) by (cases "ot_cmds s a") (auto elim: cmd_ok.elims)
    let ?s = "s\<lparr>ot_queue := q\<rparr>"
    obtain s' where s': "get_ota_version j (oe_mem e) (oe_sent e) json ?s = Some s'" "ot_cmds s' = ot_cmds s" "ot_queue s' = q"
      "ot_requests s' = ot_requests s \<and> ot_is_upgrade s' = ot_is_upgrade s \<or>
       length (ot_requests s') = Suc (length (ot_requests s)) \<and> \<not> ot_is_upgrade s \<and> ot_is_upgrade s'"
      using get_ota_version_safe [OF p(2), of "oe_mem e" "oe_sent e" ?s] by auto
    then show ?thesis using inv rest p(1) Cons c GET_OTA_VERSION
      by (auto simp: ota_update_task_def free_params_def ota_inv_def)
  next
    case FINISH_OTA_FILE_DOWNLOAD
    then obtain l where p: "ot_cmds s a = Some (OtaLoaded l)"
      using inv(4) by (cases "ot_cmds s a") (auto elim: cmd_ok.elims)
    let ?s = "s\<lparr>ot_queue := q\<rparr>"
    consider s' where "finish_ota_file_download (oe_write e) l ?s = Upgrade_restart s'"
      | d where "finish_ota_file_download (oe_write e) l ?s = Goes_on (?s\<lparr>ot_device := d, ot_is_upgrade := False\<rparr>)"
      using finish_result [of "oe_write e" l ?s] by blast
    then show ?thesis using inv rest p Cons c FINISH_OTA_FILE_DOWNLOAD
      by cases (auto simp: ota_update_task_def free_params_def ota_inv_def split: if_splits)
  qed
qed

interpretation ota: safe_machine "ota_step j" "ota_inv j" "ota_ok j" for j
proof
  fix r op
  assume inv: "ota_inv j r" and ok: "ota_ok j op r"
  obtain x n where r: "r = (x, n)" by (cases r)
  show "\<exists>r'. ota_step j op r = Some r' \<and> ota_inv j r'"
  proof (cases x)
    case (Upgrade_restart s)
    then show ?thesis using inv r by simp
  next
    case (Goes_on s)
    show ?thesis
    proof (cases op)
      case (OtaRound e)
      then show ?thesis using ota_round_safe [of j s n e] inv r Goes_on by auto
    qed (use inv ok r Goes_on in \<open>auto simp: ota_inv_def ota_command_recevie_def ota_download_callback_def
        send_ota_request_Q_def queue_send_def split: option.splits if_splits\<close>; force dest: cmd_ok_live)+
  qed
qed

text \<open>Whatever packets arrive and however downloads end, in every reached state the update task and its callbacks are
  defined for what the environment may do, and at most one download that it asked for is unanswered, so no
  image is overwritten or deleted while it is being fetched.\<close>

theorem one_update_at_a_time:
  assumes "reach (ota_step j) (ota_ok j) {(Goes_on (ota_task_init d), 0)} (Goes_on s, n)"
  shows "(\<forall>op. ota_ok j op (Goes_on s, n) \<longrightarrow> ota_step j op (Goes_on s, n) \<noteq> None) \<and>
    n \<le> length (ot_requests s) \<and> length (ot_requests s) \<le> n + 1 \<and> (length (ot_requests s) = n + 1 \<longrightarrow> ot_is_upgrade s)"
proof -
  have init: "ota_inv j (Goes_on (ota_task_init d), 0)" by (simp add: ota_inv_def ota_task_init_def)
  have "ota_inv j (Goes_on s, n)" using ota.reach_inv [OF assms] init by simp
  then show ?thesis using ota.step_safe by (fastforce simp: ota_inv_def split: if_splits)
qed

text \<open>A packet and the round that handles it.\<close>

definition push_json :: "nat cjson" where
  "push_json = \<lparr>cJSON_Parse = (\<lambda>text. Some 0),
     cJSON_GetObjectItem = (\<lambda>v name. if name = ''data'' then Some 1 else if name = ''ota_url'' then Some 2
       else if name = ''soft_version'' then Some 3 else None),
     cj_valuestring = (\<lambda>v. if v = 2 then Some ''http://a/2.0'' else if v = 3 then Some ''2.0'' else None), cj_valueint = (\<lambda>v. 0)\<rparr>"

definition push_ops :: "ota_op list" where
  "push_ops = [OtaPush (Some 1) True ''{}'', OtaRound \<lparr>oe_mem = Some 2, oe_sent = True, oe_write = WriteOk\<rparr>]"

lemma one_update_at_a_time_witness:
  "\<exists>s. run_opt (ota_step push_json) push_ops (Goes_on (ota_task_init (some_device 0)), 0) = Some (Goes_on s, 0) \<and>
    length (ot_requests s) = 1 \<and> ot_is_upgrade s"
proof -
  let ?i = "(Goes_on (ota_task_init (some_device 0)), 0 :: nat)"
  define s1 where "s1 = (ota_task_init (some_device 0))\<lparr>ot_cmds := [1 \<mapsto> OtaRequest ''{}''], ot_queue := [(GET_OTA_VERSION, 1)]\<rparr>"
  have st1: "ota_step push_json (OtaPush (Some 1) True ''{}'') ?i = Some (Goes_on s1, 0)"
    by (simp add: s1_def ota_command_recevie_def send_ota_request_Q_def queue_send_def ota_task_init_def)
  obtain s2 where s2: "ota_step push_json (OtaRound \<lparr>oe_mem = Some 2, oe_sent = True, oe_write = WriteOk\<rparr>) (Goes_on s1, 0) = Some (Goes_on s2, 0)"
    "length (ot_requests s2) = 1"
    by (simp add: s1_def ota_update_task_def get_ota_version_def push_json_def ota_request_def c_strncpy_def free_params_def ota_task_init_def)
  have r0: "reach (ota_step push_json) (ota_ok push_json) {?i} ?i" by (rule reach_init) simp
  have r1: "reach (ota_step push_json) (ota_ok push_json) {?i} (Goes_on s1, 0)"
  proof (rule reach_step [OF r0])
    show "ota_ok push_json (OtaPush (Some 1) True ''{}'') ?i" by (simp add: ota_task_init_def request_ok_def push_json_def)
  qed (rule st1)
  have "reach (ota_step push_json) (ota_ok push_json) {?i} (Goes_on s2, 0)"
  proof (rule reach_step [OF r1])
    show "ota_ok push_json (OtaRound \<lparr>oe_mem = Some 2, oe_sent = True, oe_write = WriteOk\<rparr>) (Goes_on s1, 0)" by simp
  qed (rule s2(1))
  from one_update_at_a_time [OF this] st1 s2 show ?thesis by (simp add: push_ops_def del: ota_step.simps)
qed

end
