(* ===== verification/StoryPush.thy ===== *)
theory StoryPush
  imports StoryPlayer Alarms
begin

text \<open>
  Alarms that the server sets (\<open>app/story_push.c\<close>): a push lists alarms with their songs; when one of them
  rings the address of a song is requested, the answer is checked against the songs of the alarm and the song
  is played once, three times or until a key ends it.

  \<^item> The alarms are a table of ten entries, an entry without identifier is free. The songs of an alarm are
    nodes of memory (\<open>sp_songs\<close>); a list is the list of its nodes' addresses.
  \<^item> The text of a packet is a block of memory (\<open>sp_cmds\<close>) until the task frees it.
  \<^item> Calls on other components are recorded in \<open>sp_trace\<close>. Identifiers are compared as 32-bit words.
  \<^item> \<open>check_https_to_http\<close> and \<open>check_file_in_dir\<close> are copies of the functions of the story player.
\<close>

section \<open>Data\<close>

datatype story_push_cmd_value = STORY_PUSH_CMD_LESSON_DELETE | STORY_PUSH_CMD_LESSON_PUSH | STORY_PUSH_CMD_DOWNLOAD_START
  | STORY_PUSH_CMD_DOWNLOAD_FINISH | STORY_PUSH_CMD_DOWNLOAD_ERROR | STORY_PUSH_CMD_ALARM_START | STORY_PUSH_CMD_ALARM_PLAY
  | STORY_PUSH_CMD_ALARM_STOP | STORY_PUSH_CMD_SONG_PLAY | STORY_PUSH_CMD_LESSON_RESULT_REPORT | STORY_PUSH_CMD_ALARM_PLAY_ERROR
  | STORY_PUSH_CMD_UNDEFINE

text \<open>The parameter of a command; only a packet has a size.\<close>

datatype push_param = PushNull | PushBool bool | PushAlarm "32 word" | PushPacket addr

record story_push_cmd_node =
  pn_cmd_value :: story_push_cmd_value
  pn_param :: push_param

datatype alarm_s_list_state = ALARM_SONG_PLAY_IDLE | ALARM_SONG_PLAY_INDEX | ALARM_SONG_PLAY_ACTIVE | ALARM_SONG_PLAY_UNDEF

record songUidList_t =
  sg_songID :: string
  sg_sate :: alarm_s_list_state

record alarm_push_item_t =
  ap_alarm_id :: "32 word"
  ap_daysofweek :: "8 word"
  ap_enable :: "8 word"
  ap_hour :: "8 word"
  ap_minute :: "8 word"
  ap_listenDays :: "32 word"
  ap_playType :: "8 word"
  ap_songList :: "addr list"

record alarm_song_info_t =
  as_playCount :: "8 word"
  as_alarm_id :: "32 word"
  as_songID :: string
  as_url :: string

datatype push_event = PushAddAlarm alarm_t | PushRemoveAlarm "32 word" | PushPlayStop | PushPlayStart play_param_t
  | PushMaskKeys | PushUnmaskKeys | PushLedBreath | PushLedOff | PushRequest "16 word" string "32 word" "32 word"

record push =
  sp_items :: "alarm_push_item_t list"
  sp_songs :: "addr \<rightharpoonup> songUidList_t"
  sp_current :: alarm_song_info_t
  sp_led :: bool
  sp_queue :: "story_push_cmd_node list"
  sp_cmds :: "addr \<rightharpoonup> string"
  sp_trace :: "push_event list"

abbreviation STORY_PUSH_QUEUE_SIZE :: nat where "STORY_PUSH_QUEUE_SIZE \<equiv> 10"
abbreviation ALARM_ITEMS :: nat where "ALARM_ITEMS \<equiv> 10"
abbreviation SONG_ID_SIZE :: nat where "SONG_ID_SIZE \<equiv> 20"
abbreviation SYNC_ID_SIZE :: nat where "SYNC_ID_SIZE \<equiv> 30"
abbreviation SONG_URL_SIZE :: nat where "SONG_URL_SIZE \<equiv> 128"
abbreviation ALARM_CALLBACK :: addr where "ALARM_CALLBACK \<equiv> 1"
abbreviation ALARM_PLAY_CB :: addr where "ALARM_PLAY_CB \<equiv> 2"
abbreviation NO_ALARM :: "32 word" where "NO_ALARM \<equiv> -1"
abbreviation S2C_STORY_LESSON_SYNC :: "16 word" where "S2C_STORY_LESSON_SYNC \<equiv> 0x8203"
abbreviation S2C_STORY_LESSON_RESULT_ACK :: "16 word" where "S2C_STORY_LESSON_RESULT_ACK \<equiv> 0x8206"

definition no_item :: alarm_push_item_t where
  "no_item = \<lparr>ap_alarm_id = 0, ap_daysofweek = 0, ap_enable = 0, ap_hour = 0, ap_minute = 0, ap_listenDays = 0,
     ap_playType = 0, ap_songList = []\<rparr>"

definition sp_emit :: "push_event list \<Rightarrow> push \<Rightarrow> push" where
  "sp_emit es s = s\<lparr>sp_trace := sp_trace s @ es\<rparr>"

definition story_push_notify :: "story_push_cmd_value \<Rightarrow> push_param \<Rightarrow> push \<Rightarrow> push" where
  "story_push_notify c p s =
     s\<lparr>sp_queue := queue_send STORY_PUSH_QUEUE_SIZE \<lparr>pn_cmd_value = c, pn_param = p\<rparr> (sp_queue s)\<rparr>"

section \<open>Songs\<close>

definition set_song :: "addr \<Rightarrow> alarm_s_list_state \<Rightarrow> push \<Rightarrow> push option" where
  "set_song a st s =
     (case sp_songs s a of None \<Rightarrow> None | Some n \<Rightarrow> Some (s\<lparr>sp_songs := (sp_songs s)(a \<mapsto> n\<lparr>sg_sate := st\<rparr>)\<rparr>))"

text \<open>Without memory a song is left out.\<close>

definition add_songUidlist :: "addr option \<Rightarrow> songUidList_t \<Rightarrow> addr list \<times> push \<Rightarrow> addr list \<times> push" where
  "add_songUidlist mem n = (\<lambda>(l, s).
     (case mem of None \<Rightarrow> (l, s) | Some a \<Rightarrow> (l @ [a], s\<lparr>sp_songs := (sp_songs s)(a \<mapsto> n)\<rparr>)))"

fun destroy_songUidlist :: "addr list \<Rightarrow> push \<Rightarrow> push option" where
  "destroy_songUidlist [] s = Some s"
| "destroy_songUidlist (a # as) s =
     (case sp_songs s a of None \<Rightarrow> None | Some n \<Rightarrow> destroy_songUidlist as (s\<lparr>sp_songs := (sp_songs s)(a := None)\<rparr>))"

text \<open>The node of that index, or the first.\<close>

definition change_songlist_state :: "addr list \<Rightarrow> nat \<Rightarrow> alarm_s_list_state \<Rightarrow> push \<Rightarrow> push option" where
  "change_songlist_state l i st s =
     (case l of [] \<Rightarrow> Some s | a # as \<Rightarrow> set_song (if i < length l then l ! i else a) st s)"

definition search_song_by_state :: "addr list \<Rightarrow> alarm_s_list_state \<Rightarrow> push \<Rightarrow> addr option option" where
  "search_song_by_state l st s = find_node (\<lambda>n. sg_sate n = st) (sp_songs s) l"

definition song_after :: "addr list \<Rightarrow> addr \<Rightarrow> addr" where
  "song_after l a = (case dropWhile (\<lambda>b. b \<noteq> a) l of x # y # zs \<Rightarrow> y | _ \<Rightarrow> hd l)"

definition search_song_by_state_next :: "addr list \<Rightarrow> alarm_s_list_state \<Rightarrow> push \<Rightarrow> addr option option" where
  "search_song_by_state_next l st s = map_option (map_option (song_after l)) (search_song_by_state l st s)"

section \<open>The table of alarms\<close>

definition search_item_by_alarm_id :: "32 word \<Rightarrow> push \<Rightarrow> nat option" where
  "search_item_by_alarm_id i s = List.find (\<lambda>k. ap_alarm_id (sp_items s ! k) = i) [0..<ALARM_ITEMS]"

definition del_alarm_from_headlist :: "nat \<Rightarrow> push \<Rightarrow> push option" where
  "del_alarm_from_headlist k s =
     map_option (\<lambda>s1. s1\<lparr>sp_items := (sp_items s1)[k := no_item]\<rparr>) (destroy_songUidlist (ap_songList (sp_items s ! k)) s)"

definition add_alarm_to_headlist :: "alarm_push_item_t \<Rightarrow> push \<Rightarrow> push" where
  "add_alarm_to_headlist it s =
     (case search_item_by_alarm_id 0 s of None \<Rightarrow> s | Some k \<Rightarrow> s\<lparr>sp_items := (sp_items s)[k := it]\<rparr>)"

section \<open>A push of the server\<close>

definition int_item :: "('j, 'a) cjson_scheme \<Rightarrow> 'j \<Rightarrow> string \<Rightarrow> int" where
  "int_item j v name = (case cJSON_GetObjectItem j v name of None \<Rightarrow> 0 | Some x \<Rightarrow> cj_valueint j x)"

text \<open>The songs of an item; \<open>mem\<close> is what the allocations give, one after the other.\<close>

fun song_loop :: "'j cjson_array \<Rightarrow> 'j list \<Rightarrow> addr option list \<Rightarrow> addr list \<times> push \<Rightarrow> ((addr list \<times> push) \<times> addr option list) option"
  where
  "song_loop j [] mem ls = Some (ls, mem)"
| "song_loop j (v # vs) mem ls = do {
     name \<leftarrow> cj_valuestring j v;
     song_loop j vs (tl mem) (add_songUidlist (if mem = [] then None else hd mem)
       \<lparr>sg_songID = take SONG_ID_SIZE name, sg_sate = ALARM_SONG_PLAY_IDLE\<rparr> ls) }"

text \<open>The item keeps the list of the one before when it has no songs of its own.\<close>

definition analysis_alarm_push :: "'j cjson_array \<Rightarrow> 'j \<Rightarrow> addr option list \<Rightarrow> alarm_push_item_t \<Rightarrow> push
    \<Rightarrow> (alarm_push_item_t \<times> push \<times> addr option list) option" where
  "analysis_alarm_push j v mem it s =
     (let it1 = it\<lparr>ap_alarm_id := of_int (int_item j v ''id''), ap_daysofweek := of_int (int_item j v ''daysofweek''),
                   ap_enable := of_int (int_item j v ''enable''), ap_hour := of_int (int_item j v ''hour''),
                   ap_minute := of_int (int_item j v ''minute''), ap_listenDays := of_int (int_item j v ''listenIndex''),
                   ap_playType := of_int (int_item j v ''playType'')\<rparr>
      in case cJSON_GetObjectItem j v ''songUidList'' of
           None \<Rightarrow> Some (it1, s, mem)
         | Some l \<Rightarrow> do {
             ((songs, s1), mem1) \<leftarrow> song_loop j (cj_children j l) mem ([], s);
             (if songs = [] then Some (it1, s1, mem1)
              else do {
                let k = unat (ap_listenDays it1) mod length (cj_children j l);
                s2 \<leftarrow> change_songlist_state songs k ALARM_SONG_PLAY_INDEX s1;
                Some (it1\<lparr>ap_songList := songs, ap_listenDays := of_nat k\<rparr>, s2, mem1) }) })"

definition week_map_of :: "8 word \<Rightarrow> 8 word" where
  "week_map_of d = (push_bit 1 d AND 0x7E) + (if d AND 0x40 \<noteq> 0 then 1 else 0)"

definition app_alarm :: "alarm_push_item_t \<Rightarrow> alarm_t" where
  "app_alarm it =
     \<lparr>al_state = (if ap_enable it = 0 then ALARM_ST_OFF else if ap_enable it = 1 then ALARM_ST_ON else ALARM_ST_UNDEFINE),
      al_one_shot = False, al_hour = unat (ap_hour it), al_minute = unat (ap_minute it),
      al_week_map = week_map_of (ap_daysofweek it), al_alarm_id = sint (ap_alarm_id it), al_callback = Some ALARM_CALLBACK\<rparr>"

fun govnor_loop :: "'j cjson_array \<Rightarrow> 'j list \<Rightarrow> addr option list \<Rightarrow> alarm_push_item_t \<Rightarrow> push \<Rightarrow> push option" where
  "govnor_loop j [] mem it s = Some s"
| "govnor_loop j (v # vs) mem it s = do {
     (it1, s1, mem1) \<leftarrow> analysis_alarm_push j v mem it s;
     s2 \<leftarrow> (case search_item_by_alarm_id (ap_alarm_id it1) s1 of
              None \<Rightarrow> Some s1
            | Some k \<Rightarrow> del_alarm_from_headlist k (sp_emit [PushRemoveAlarm (ap_alarm_id it1)] s1));
     govnor_loop j vs mem1 it1 (sp_emit [PushAddAlarm (app_alarm it1)] (add_alarm_to_headlist it1 s2)) }"

definition update_govnor :: "'j cjson_array \<Rightarrow> addr option list \<Rightarrow> string \<Rightarrow> push \<Rightarrow> push option" where
  "update_govnor j mem text s =
     (case Option.bind (cJSON_Parse j text) (\<lambda>root. cJSON_GetObjectItem j root ''data'') of
        None \<Rightarrow> Some s
      | Some data \<Rightarrow>
          (case cJSON_GetObjectItem j data ''habitList'' of
             None \<Rightarrow> Some s
           | Some l \<Rightarrow> govnor_loop j (cj_children j l) mem no_item s))"

definition del_alarm :: "'j cjson_array \<Rightarrow> string \<Rightarrow> push \<Rightarrow> push option" where
  "del_alarm j text s =
     (case Option.bind (cJSON_Parse j text) (\<lambda>root. cJSON_GetObjectItem j root ''data'') of
        None \<Rightarrow> Some s
      | Some data \<Rightarrow>
          (case cJSON_GetObjectItem j data ''id'' of
             None \<Rightarrow> Some s
           | Some x \<Rightarrow>
               (let i = of_int (cj_valueint j x)
                in case search_item_by_alarm_id i s of
                     None \<Rightarrow> Some s
                   | Some k \<Rightarrow> del_alarm_from_headlist k (sp_emit [PushRemoveAlarm i] s))))"

section \<open>The answer with a song\<close>

definition play_count :: "8 word \<Rightarrow> 8 word" where
  "play_count ty = (if ty = 3 then 4 else if ty = 2 then 3 else ty)"

text \<open>The song that was asked for has been answered: its turn is over, the next one has it.\<close>

definition sync_song :: "nat \<Rightarrow> 32 word \<Rightarrow> string \<Rightarrow> string \<Rightarrow> addr \<Rightarrow> push \<Rightarrow> push option" where
  "sync_song k i uid url a s = do {
     next \<leftarrow> Option.bind (search_song_by_state_next (ap_songList (sp_items s ! k)) ALARM_SONG_PLAY_ACTIVE s) (\<lambda>x. x);
     s1 \<leftarrow> set_song next ALARM_SONG_PLAY_INDEX s;
     s2 \<leftarrow> set_song a ALARM_SONG_PLAY_IDLE s1;
     u \<leftarrow> c_strncpy SONG_URL_SIZE url (length url);
     Some (s2\<lparr>sp_current := \<lparr>as_playCount = play_count (ap_playType (sp_items s ! k)), as_alarm_id = i,
                as_songID = take SONG_ID_SIZE uid, as_url = u\<rparr>\<rparr>) }"

text \<open>The result is 0 when the answer is taken; \<open>uid\<close> is in an array of 30 bytes.\<close>

definition sync_item :: "32 word \<Rightarrow> string \<Rightarrow> string \<Rightarrow> push \<Rightarrow> (32 word \<times> push) option" where
  "sync_item i uid url s =
     (if url = [] then Some (i, s)
      else (case search_item_by_alarm_id i s of
              None \<Rightarrow> Some (i, s)
            | Some k \<Rightarrow> do {
                r \<leftarrow> search_song_by_state (ap_songList (sp_items s ! k)) ALARM_SONG_PLAY_ACTIVE s;
                (case r of
                   None \<Rightarrow> Some (i, s)
                 | Some a \<Rightarrow> do {
                     sync \<leftarrow> c_str SYNC_ID_SIZE uid;
                     n \<leftarrow> sp_songs s a;
                     (if take (length sync) (sg_songID n) = sync then map_option (\<lambda>s1. (0, s1)) (sync_song k i sync url a s)
                      else Some (i, s)) }) }))"

definition alarm_url_sync :: "'j cjson_array \<Rightarrow> string \<Rightarrow> push \<Rightarrow> (32 word \<times> push) option" where
  "alarm_url_sync j text s =
     (case Option.bind (cJSON_Parse j text) (\<lambda>root. cJSON_GetObjectItem j root ''data'') of
        None \<Rightarrow> Some (NO_ALARM, s)
      | Some data \<Rightarrow>
          (case cJSON_GetObjectItem j data ''id'' of
             None \<Rightarrow> Some (NO_ALARM, s)
           | Some x \<Rightarrow>
               (let i = of_int (cj_valueint j x)
                in case cJSON_GetObjectItem j data ''songUid'' of
                     None \<Rightarrow> Some (i, s)
                   | Some y \<Rightarrow> do {
                       uid \<leftarrow> cj_valuestring j y;
                       (case cJSON_GetObjectItem j data ''play_url'' of
                          None \<Rightarrow> Some (i, s)
                        | Some z \<Rightarrow> do { url \<leftarrow> cj_valuestring j z; sync_item i (take SYNC_ID_SIZE uid) url s }) })))"

section \<open>Playing\<close>

definition alarm_play_param :: "string \<Rightarrow> play_param_t" where
  "alarm_play_param url = \<lparr>pp_play_app_type = AUDIO_APP_ALARM, pp_is_local_file = False, pp_uri = Some url, pp_tone = None,
     pp_cb = Some ALARM_PLAY_CB, pp_cb_param = None\<rparr>"

text \<open>The player is started with a copy of the address, if there is memory for it.\<close>

definition start_song :: "bool \<Rightarrow> push_event list \<Rightarrow> push \<Rightarrow> push option" where
  "start_song malloc_ok before s = do {
     url \<leftarrow> c_str SONG_URL_SIZE (as_url (sp_current s));
     (if malloc_ok then do {
        http \<leftarrow> check_https_to_http (url @ [CHR 0x00]);
        Some ((sp_emit (before @ [PushPlayStart (alarm_play_param (terminated http)), PushMaskKeys, PushLedBreath]) s)\<lparr>sp_led := True\<rparr>) }
      else Some s) }"

definition play_alarm_song :: "bool \<Rightarrow> push \<Rightarrow> push option" where
  "play_alarm_song malloc_ok s =
     (if as_alarm_id (sp_current s) \<noteq> NO_ALARM \<and> search_item_by_alarm_id (as_alarm_id (sp_current s)) s \<noteq> None
      then start_song malloc_ok [PushPlayStop] s else Some s)"

definition play_song_repeat :: "bool \<Rightarrow> push \<Rightarrow> push option" where
  "play_song_repeat malloc_ok s =
     (if as_alarm_id (sp_current s) = NO_ALARM then Some s
      else (case search_item_by_alarm_id (as_alarm_id (sp_current s)) s of
              None \<Rightarrow> Some s
            | Some k \<Rightarrow>
                (let ty = ap_playType (sp_items s ! k);
                     count = as_playCount (sp_current s) - (if ty = 2 \<or> ty = 1 then 1 else 0);
                     s1 = s\<lparr>sp_current := (sp_current s)\<lparr>as_playCount := count\<rparr>\<rparr>
                 in if count = 0 then Some (s1\<lparr>sp_current := (sp_current s1)\<lparr>as_alarm_id := NO_ALARM\<rparr>\<rparr>)
                    else start_song malloc_ok [] s1)))"

section \<open>Requests\<close>

text \<open>The identifier as a string: behind 20 bytes comes the state of the node, by then 2.\<close>

definition uid_string :: "string \<Rightarrow> string" where
  "uid_string uid = (if length uid < SONG_ID_SIZE then uid else uid @ [CHR 0x02])"

definition request_song :: "16 word \<Rightarrow> nat \<Rightarrow> addr \<Rightarrow> push \<Rightarrow> push option" where
  "request_song ty k a s = do {
     s1 \<leftarrow> set_song a ALARM_SONG_PLAY_ACTIVE s;
     n \<leftarrow> sp_songs s1 a;
     let it = (sp_items s1 ! k)\<lparr>ap_listenDays := ap_listenDays (sp_items s1 ! k) + 1\<rparr>;
     Some (sp_emit [PushRequest ty (uid_string (sg_songID n)) (ap_alarm_id it) (ap_listenDays it)]
       (s1\<lparr>sp_items := (sp_items s1)[k := it]\<rparr>)) }"

definition request_by_type :: "16 word \<Rightarrow> 32 word \<Rightarrow> push \<Rightarrow> push option" where
  "request_by_type ty i s =
     (case search_item_by_alarm_id i s of
        None \<Rightarrow> Some s
      | Some k \<Rightarrow> do {
          r \<leftarrow> search_song_by_state (ap_songList (sp_items s ! k)) ALARM_SONG_PLAY_INDEX s;
          (case r of
             Some a \<Rightarrow> request_song ty k a s
           | None \<Rightarrow> do {
               r2 \<leftarrow> search_song_by_state (ap_songList (sp_items s ! k)) ALARM_SONG_PLAY_IDLE s;
               (case r2 of Some a \<Rightarrow> request_song ty k a s | None \<Rightarrow> Some s) }) })"

definition request_alarm_song :: "32 word \<Rightarrow> push \<Rightarrow> push option" where
  "request_alarm_song = request_by_type S2C_STORY_LESSON_RESULT_ACK"

definition request_next_alarm_song :: "32 word \<Rightarrow> push \<Rightarrow> push option" where
  "request_next_alarm_song = request_by_type S2C_STORY_LESSON_SYNC"

section \<open>The task\<close>

record push_env =
  pe_mem :: "addr option list"
  pe_url_mem :: bool

definition packet_text :: "push_param \<Rightarrow> push \<Rightarrow> string option" where
  "packet_text p s = (case p of PushPacket a \<Rightarrow> sp_cmds s a | _ \<Rightarrow> None)"

definition lights_off :: "push \<Rightarrow> push" where
  "lights_off = sp_emit [PushLedOff, PushUnmaskKeys]"

text \<open>When the answer is taken the command is overwritten before its packet is freed.\<close>

definition alarm_play_cmd :: "'j cjson_array \<Rightarrow> push_param \<Rightarrow> push \<Rightarrow> (push_param \<times> push) option" where
  "alarm_play_cmd j p s = do {
     text \<leftarrow> packet_text p s;
     (i, s1) \<leftarrow> alarm_url_sync j text s;
     (if i \<noteq> 0 then map_option (\<lambda>s2. (p, s2)) (request_next_alarm_song i s1)
      else Some (PushNull, story_push_notify STORY_PUSH_CMD_SONG_PLAY PushNull s1)) }"

definition alarm_stop_cmd :: "push \<Rightarrow> push" where
  "alarm_stop_cmd s =
     (let s1 = sp_emit [PushPlayStop] s; s2 = (if sp_led s1 then lights_off s1 else s1)
      in s2\<lparr>sp_current := (sp_current s2)\<lparr>as_alarm_id := NO_ALARM\<rparr>\<rparr>)"

definition song_over_cmd :: "push_env \<Rightarrow> push_param \<Rightarrow> push \<Rightarrow> push option" where
  "song_over_cmd e p s =
     (if p = PushBool True then do {
        s1 \<leftarrow> play_song_repeat (pe_url_mem e) s;
        Some (if sp_led s1 \<and> as_alarm_id (sp_current s1) = NO_ALARM then (lights_off s1)\<lparr>sp_led := False\<rparr> else s1) }
      else Some s)"

definition play_error_of_alarm :: "push \<Rightarrow> push" where
  "play_error_of_alarm s =
     (let s1 = s\<lparr>sp_current := (sp_current s)\<lparr>as_alarm_id := NO_ALARM\<rparr>\<rparr>
      in if sp_led s1 then (lights_off s1)\<lparr>sp_led := False\<rparr> else s1)"

definition execute_push_cmd :: "'j cjson_array \<Rightarrow> push_env \<Rightarrow> story_push_cmd_node \<Rightarrow> push \<Rightarrow> (push_param \<times> push) option" where
  "execute_push_cmd j e n s =
     (let p = pn_param n in case pn_cmd_value n of
        STORY_PUSH_CMD_LESSON_DELETE \<Rightarrow> do { text \<leftarrow> packet_text p s; s1 \<leftarrow> del_alarm j text s; Some (p, s1) }
      | STORY_PUSH_CMD_LESSON_PUSH \<Rightarrow> do { text \<leftarrow> packet_text p s; s1 \<leftarrow> update_govnor j (pe_mem e) text s; Some (p, s1) }
      | STORY_PUSH_CMD_ALARM_PLAY \<Rightarrow> alarm_play_cmd j p s
      | STORY_PUSH_CMD_ALARM_START \<Rightarrow>
          (case p of PushAlarm i \<Rightarrow> map_option (\<lambda>s1. (p, s1)) (request_alarm_song i s) | _ \<Rightarrow> None)
      | STORY_PUSH_CMD_ALARM_STOP \<Rightarrow> Some (p, alarm_stop_cmd s)
      | STORY_PUSH_CMD_LESSON_RESULT_REPORT \<Rightarrow> map_option (\<lambda>s1. (p, s1)) (song_over_cmd e p s)
      | STORY_PUSH_CMD_ALARM_PLAY_ERROR \<Rightarrow> Some (p, play_error_of_alarm s)
      | STORY_PUSH_CMD_SONG_PLAY \<Rightarrow> map_option (\<lambda>s1. (p, s1)) (play_alarm_song (pe_url_mem e) s)
      | _ \<Rightarrow> Some (p, s))"

definition free_packet :: "push_param \<Rightarrow> push \<Rightarrow> push option" where
  "free_packet p s =
     (case p of
        PushPacket a \<Rightarrow> (case sp_cmds s a of None \<Rightarrow> None | Some t \<Rightarrow> Some (s\<lparr>sp_cmds := (sp_cmds s)(a := None)\<rparr>))
      | _ \<Rightarrow> Some s)"

definition story_push_task :: "'j cjson_array \<Rightarrow> push_env \<Rightarrow> push \<Rightarrow> push option" where
  "story_push_task j e s =
     (case queue_receive (sp_queue s) of
        None \<Rightarrow> Some s
      | Some (n, q) \<Rightarrow> do { (p, s1) \<leftarrow> execute_push_cmd j e n (s\<lparr>sp_queue := q\<rparr>); free_packet p s1 })"

section \<open>Callbacks\<close>

definition push_audio_play_cb :: "NotifyStatus \<Rightarrow> push \<Rightarrow> push" where
  "push_audio_play_cb ret s =
     (case ret of
        NOTIFY_STATUS_PLAY_FINISH \<Rightarrow> story_push_notify STORY_PUSH_CMD_LESSON_RESULT_REPORT (PushBool True) s
      | NOTIFY_STATUS_PLAY_DISTURBED \<Rightarrow> story_push_notify STORY_PUSH_CMD_ALARM_PLAY_ERROR (PushBool False) s
      | NOTIFY_STATUS_PLAY_ERROR \<Rightarrow> story_push_notify STORY_PUSH_CMD_ALARM_PLAY_ERROR (PushBool False) s
      | _ \<Rightarrow> s)"

definition alarm_callback :: "32 word \<Rightarrow> push \<Rightarrow> push" where
  "alarm_callback i = story_push_notify STORY_PUSH_CMD_ALARM_START (PushAlarm i)"

definition alarm_keyprocess :: "bool \<Rightarrow> push \<Rightarrow> push" where
  "alarm_keyprocess alarm_press s =
     (if alarm_press then story_push_notify STORY_PUSH_CMD_ALARM_STOP PushNull s else s)"

datatype push_type = PUSH_LESSON_DELETE | PUSH_LESSON_PUSH | PUSH_LESSON_RESULT_ACK | PUSH_OTHER

text \<open>A packet for which the queue has no room is lost, and its memory with it.\<close>

definition story_push_command_cb :: "addr option \<Rightarrow> push_type \<Rightarrow> string \<Rightarrow> push \<Rightarrow> push" where
  "story_push_command_cb mem ty text s =
     (case mem of
        None \<Rightarrow> s
      | Some a \<Rightarrow>
          (let keep = (\<lambda>c. story_push_notify c (PushPacket a) (s\<lparr>sp_cmds := (sp_cmds s)(a \<mapsto> text)\<rparr>))
           in case ty of
                PUSH_LESSON_DELETE \<Rightarrow> keep STORY_PUSH_CMD_LESSON_DELETE
              | PUSH_LESSON_PUSH \<Rightarrow> keep STORY_PUSH_CMD_LESSON_PUSH
              | PUSH_LESSON_RESULT_ACK \<Rightarrow> keep STORY_PUSH_CMD_ALARM_PLAY
              | PUSH_OTHER \<Rightarrow> s))"

definition push_zero :: push where
  "push_zero = \<lparr>sp_items = replicate ALARM_ITEMS no_item, sp_songs = Map.empty,
     sp_current = \<lparr>as_playCount = 0, as_alarm_id = 0, as_songID = [], as_url = []\<rparr>, sp_led = False,
     sp_queue = [], sp_cmds = Map.empty, sp_trace = []\<rparr>"

definition story_push_init :: "(string \<Rightarrow> bool) \<Rightarrow> bool \<Rightarrow> string list \<Rightarrow> (string list \<times> push) option" where
  "story_push_init reopen_ok pair dir = map_option (\<lambda>left. (left, push_zero)) (check_file_in_dir reopen_ok pair dir)"

datatype push_op = PushTask push_env | PushCmd "addr option" push_type string | PushPlayed NotifyStatus
  | PushRing "32 word" | PushKey bool

fun push_step :: "'j cjson_array \<Rightarrow> push_op \<Rightarrow> push \<Rightarrow> push option" where
  "push_step j (PushTask e) s = story_push_task j e s"
| "push_step j (PushCmd mem ty text) s = Some (story_push_command_cb mem ty text s)"
| "push_step j (PushPlayed ret) s = Some (push_audio_play_cb ret s)"
| "push_step j (PushRing i) s = Some (alarm_callback i s)"
| "push_step j (PushKey b) s = Some (alarm_keyprocess b s)"

end
