(* ===== verification/StoryPush_Props.thy ===== *)
theory StoryPush_Props
  imports StoryPush StoryPlayer_Inv
begin

text \<open>
  The alarms of the server: every step is defined while the server sends complete pushes; the songs of an
  alarm take turns; a song is played as often as its alarm says.
\<close>

section \<open>The song lists\<close>

abbreviation songs_of :: "push \<Rightarrow> nat \<Rightarrow> addr list" where
  "songs_of s k \<equiv> ap_songList (sp_items s ! k)"

text \<open>Lists with nodes of their own, all in \<open>A\<close>.\<close>

definition apart :: "nat \<Rightarrow> (nat \<Rightarrow> addr list) \<Rightarrow> addr set \<Rightarrow> bool" where
  "apart n L A \<longleftrightarrow> (\<forall>k<n. distinct (L k) \<and> set (L k) \<subseteq> A) \<and> (\<forall>k<n. \<forall>m<n. k \<noteq> m \<longrightarrow> set (L k) \<inter> set (L m) = {})"

lemma apart_clear: "apart n L A \<Longrightarrow> k < n \<Longrightarrow> apart n (L(k := [])) (A - set (L k))"
  unfolding apart_def by (auto; blast)

lemma apart_put:
  "apart n L A \<Longrightarrow> distinct l \<Longrightarrow> set l \<subseteq> A \<Longrightarrow> \<forall>m<n. set l \<inter> set (L m) = {} \<Longrightarrow> apart n (L(k := l)) A"
  unfolding apart_def by (simp; blast)

lemma apart_mono: "apart n L A \<Longrightarrow> A \<subseteq> B \<Longrightarrow> apart n L B"
  unfolding apart_def by blast

lemma apart_cong: "(\<And>k. k < n \<Longrightarrow> L k = L' k) \<Longrightarrow> apart n L A = apart n L' A"
  by (simp add: apart_def)

definition songs_apart :: "push \<Rightarrow> bool" where
  "songs_apart s \<longleftrightarrow> length (sp_items s) = ALARM_ITEMS \<and> apart ALARM_ITEMS (songs_of s) (dom (sp_songs s))"

lemma apart_update:
  "length items = n \<Longrightarrow> apart n (\<lambda>m. ap_songList (items[k := it] ! m)) A = apart n ((\<lambda>m. ap_songList (items ! m))(k := ap_songList it)) A"
  if "k < n"
  using that by (intro apart_cong) (simp add: nth_list_update)

lemma sp_emit_simps [simp]:
  "sp_items (sp_emit es s) = sp_items s" "sp_songs (sp_emit es s) = sp_songs s" "sp_current (sp_emit es s) = sp_current s"
  "sp_led (sp_emit es s) = sp_led s" "sp_queue (sp_emit es s) = sp_queue s" "sp_cmds (sp_emit es s) = sp_cmds s"
  "sp_trace (sp_emit es s) = sp_trace s @ es"
  by (simp_all add: sp_emit_def)

lemma search_item_Some: "search_item_by_alarm_id i s = Some k \<Longrightarrow> k < ALARM_ITEMS \<and> ap_alarm_id (sp_items s ! k) = i"
  by (auto simp: search_item_by_alarm_id_def find_Some_iff)

lemma search_item_cong: "sp_items s = sp_items s' \<Longrightarrow> search_item_by_alarm_id i s = search_item_by_alarm_id i s'"
  by (simp add: search_item_by_alarm_id_def)

lemma destroy_heap:
  "distinct l \<Longrightarrow> set l \<subseteq> dom h \<Longrightarrow> destroy_songUidlist l (s\<lparr>sp_songs := h\<rparr>) = Some (s\<lparr>sp_songs := h |` (- set l)\<rparr>)"
proof (induction l arbitrary: h)
  case (Cons a l)
  then obtain n where "h a = Some n" by auto
  moreover have "h(a := None) |` (- set l) = h |` (- set (a # l))" by (rule ext) (simp add: restrict_map_def)
  moreover have "destroy_songUidlist l (s\<lparr>sp_songs := h(a := None)\<rparr>) = Some (s\<lparr>sp_songs := h(a := None) |` (- set l)\<rparr>)"
    using Cons.prems by (intro Cons.IH) auto
  ultimately show ?case by simp
qed (simp add: restrict_map_def)

lemma destroy_eq:
  "distinct l \<Longrightarrow> set l \<subseteq> dom (sp_songs s) \<Longrightarrow> destroy_songUidlist l s = Some (s\<lparr>sp_songs := sp_songs s |` (- set l)\<rparr>)"
  using destroy_heap [of l "sp_songs s" s] by simp

lemma del_item:
  assumes "songs_apart s" "k < ALARM_ITEMS"
  shows "\<exists>s'. del_alarm_from_headlist k s = Some s' \<and> s' = s\<lparr>sp_songs := sp_songs s |` (- set (songs_of s k)), sp_items := (sp_items s)[k := no_item]\<rparr>
    \<and> songs_apart s'"
proof -
  have "apart ALARM_ITEMS (songs_of s) (dom (sp_songs s))" "length (sp_items s) = ALARM_ITEMS" using assms(1) by (simp_all add: songs_apart_def)
  moreover from this have "destroy_songUidlist (songs_of s k) s = Some (s\<lparr>sp_songs := sp_songs s |` (- set (songs_of s k))\<rparr>)"
    using assms(2) by (intro destroy_eq) (simp_all add: apart_def)
  moreover have "dom (sp_songs s |` (- set (songs_of s k))) = dom (sp_songs s) - set (songs_of s k)" by auto
  moreover have "ap_songList no_item = []" by (simp add: no_item_def)
  ultimately show ?thesis using assms(2) apart_clear [of ALARM_ITEMS "songs_of s" "dom (sp_songs s)" k]
    by (simp add: del_alarm_from_headlist_def songs_apart_def apart_update del: dom_restrict)
qed

lemma add_item:
  assumes "songs_apart s" "distinct (ap_songList it)" "set (ap_songList it) \<subseteq> dom (sp_songs s)"
    "\<forall>k<ALARM_ITEMS. set (ap_songList it) \<inter> set (songs_of s k) = {}"
  shows "songs_apart (add_alarm_to_headlist it s)"
proof (cases "search_item_by_alarm_id 0 s")
  case (Some k)
  then have "k < ALARM_ITEMS" using search_item_Some by blast
  then show ?thesis using assms(1) apart_put [OF _ assms(2-4), of k] Some
    by (simp add: add_alarm_to_headlist_def songs_apart_def apart_update)
qed (use assms in \<open>simp add: add_alarm_to_headlist_def\<close>)

lemma set_song_ok: "a \<in> dom (sp_songs s) \<Longrightarrow> \<exists>n. sp_songs s a = Some n \<and> set_song a st s = Some (s\<lparr>sp_songs := (sp_songs s)(a \<mapsto> n\<lparr>sg_sate := st\<rparr>)\<rparr>)"
  by (auto simp: set_song_def)

section \<open>Complete pushes\<close>

definition item_ok :: "'j cjson_array \<Rightarrow> 'j \<Rightarrow> bool" where
  "item_ok j v \<longleftrightarrow> (\<exists>l. cJSON_GetObjectItem j v ''songUidList'' = Some l \<and> cj_children j l \<noteq> [] \<and>
     (\<forall>x\<in>set (cj_children j l). cj_valuestring j x \<noteq> None))"

definition songs_in :: "'j cjson_array \<Rightarrow> 'j \<Rightarrow> nat" where
  "songs_in j v = (case cJSON_GetObjectItem j v ''songUidList'' of None \<Rightarrow> 0 | Some l \<Rightarrow> length (cj_children j l))"

lemma song_loop_ok:
  assumes "\<forall>x\<in>set vs. cj_valuestring j x \<noteq> None" "length vs \<le> length as"
  shows "\<exists>h. song_loop j vs (map Some as) (l, s) =
      Some ((l @ take (length vs) as, s\<lparr>sp_songs := h\<rparr>), map Some (drop (length vs) as)) \<and>
    dom h = dom (sp_songs s) \<union> set (take (length vs) as)"
  using assms
proof (induction vs arbitrary: l s as)
  case Nil
  show ?case by (rule exI [of _ "sp_songs s"]) simp
next
  case (Cons v vs)
  then obtain name b bs where b: "cj_valuestring j v = Some name" "as = b # bs" by (cases as) auto
  let ?s = "s\<lparr>sp_songs := (sp_songs s)(b \<mapsto> \<lparr>sg_songID = take SONG_ID_SIZE name, sg_sate = ALARM_SONG_PLAY_IDLE\<rparr>)\<rparr>"
  have "\<exists>h. song_loop j vs (map Some bs) (l @ [b], ?s) =
      Some (((l @ [b]) @ take (length vs) bs, ?s\<lparr>sp_songs := h\<rparr>), map Some (drop (length vs) bs)) \<and>
    dom h = dom (sp_songs ?s) \<union> set (take (length vs) bs)"
    using Cons.prems b by (intro Cons.IH) auto
  then show ?case using b by (auto simp: add_songUidlist_def)
qed

lemma analysis_ok:
  assumes "item_ok j v" "songs_in j v \<le> length as" "distinct as" "set as \<inter> dom (sp_songs s) = {}"
  shows "\<exists>it' h. analysis_alarm_push j v (map Some as) it s = Some (it', s\<lparr>sp_songs := h\<rparr>, map Some (drop (songs_in j v) as)) \<and>
    dom h = dom (sp_songs s) \<union> set (take (songs_in j v) as) \<and> ap_songList it' = take (songs_in j v) as"
proof -
  obtain l where l: "cJSON_GetObjectItem j v ''songUidList'' = Some l" "cj_children j l \<noteq> []"
    "\<forall>x\<in>set (cj_children j l). cj_valuestring j x \<noteq> None" using assms(1) by (auto simp: item_ok_def)
  let ?n = "length (cj_children j l)"
  have n: "songs_in j v = ?n" "?n \<noteq> 0" using l by (simp_all add: songs_in_def)
  obtain h where h: "song_loop j (cj_children j l) (map Some as) ([], s) =
      Some ((take ?n as, s\<lparr>sp_songs := h\<rparr>), map Some (drop ?n as))" "dom h = dom (sp_songs s) \<union> set (take ?n as)"
    using song_loop_ok [OF l(3), of as "[]" s] assms(2) n by auto
  define xs where "xs = take ?n as"
  define i where "i = unat (of_int (int_item j v ''listenIndex'') :: 32 word) mod ?n"
  have i: "i < length xs" "xs \<noteq> []" using n assms(2) by (auto simp: i_def xs_def)
  then have "xs ! i \<in> dom h" using h(2) nth_mem [of i xs] by (auto simp: xs_def)
  then obtain m where m: "h (xs ! i) = Some m" by auto
  then have st: "change_songlist_state xs i ALARM_SONG_PLAY_INDEX (s\<lparr>sp_songs := h\<rparr>) =
      Some (s\<lparr>sp_songs := h(xs ! i \<mapsto> m\<lparr>sg_sate := ALARM_SONG_PLAY_INDEX\<rparr>)\<rparr>)"
    using i by (cases xs) (simp_all add: change_songlist_state_def set_song_def)
  let ?it = "it\<lparr>ap_alarm_id := of_int (int_item j v ''id''), ap_daysofweek := of_int (int_item j v ''daysofweek''),
                   ap_enable := of_int (int_item j v ''enable''), ap_hour := of_int (int_item j v ''hour''),
                   ap_minute := of_int (int_item j v ''minute''), ap_listenDays := of_int (int_item j v ''listenIndex''),
                   ap_playType := of_int (int_item j v ''playType'')\<rparr>"
  have "analysis_alarm_push j v (map Some as) it s =
      Some (?it\<lparr>ap_songList := xs, ap_listenDays := of_nat i\<rparr>, s\<lparr>sp_songs := h(xs ! i \<mapsto> m\<lparr>sg_sate := ALARM_SONG_PLAY_INDEX\<rparr>)\<rparr>,
        map Some (drop ?n as))"
    using l(1) h(1) i(2) st by (simp add: analysis_alarm_push_def Let_def xs_def [symmetric] i_def [symmetric])
  moreover have "dom (h(xs ! i \<mapsto> m\<lparr>sg_sate := ALARM_SONG_PLAY_INDEX\<rparr>)) = dom (sp_songs s) \<union> set xs"
    using h(2) m by (auto simp: xs_def)
  ultimately show ?thesis using n(1)
    by (intro exI [of _ "?it\<lparr>ap_songList := xs, ap_listenDays := of_nat i\<rparr>"]
        exI [of _ "h(xs ! i \<mapsto> m\<lparr>sg_sate := ALARM_SONG_PLAY_INDEX\<rparr>)"]) (simp add: xs_def)
qed

text \<open>What the handlers of the task leave alone.\<close>

definition same_queue :: "push \<Rightarrow> push \<Rightarrow> bool" where
  "same_queue s s' \<longleftrightarrow> sp_queue s' = sp_queue s \<and> sp_cmds s' = sp_cmds s"

lemma same_queue_refl [simp]: "same_queue s s"
  by (simp add: same_queue_def)

lemma same_queue_trans: "same_queue s s1 \<Longrightarrow> same_queue s1 s2 \<Longrightarrow> same_queue s s2"
  by (simp add: same_queue_def)

lemma songs_apart_cong:
  "songs_apart s \<Longrightarrow> sp_items s' = sp_items s \<Longrightarrow> dom (sp_songs s) \<subseteq> dom (sp_songs s') \<Longrightarrow> songs_apart s'"
  by (auto simp: songs_apart_def elim: apart_mono)

lemma add_item_simps [simp]:
  "sp_songs (add_alarm_to_headlist it s) = sp_songs s" "sp_current (add_alarm_to_headlist it s) = sp_current s"
  "same_queue s (add_alarm_to_headlist it s) = True"
  by (simp_all add: add_alarm_to_headlist_def same_queue_def split: option.split)

lemma govnor_item_ok:
  assumes "item_ok j v" "songs_apart s" "songs_in j v \<le> length as" "distinct as" "set as \<inter> dom (sp_songs s) = {}"
  shows "\<exists>it' s1 s2. analysis_alarm_push j v (map Some as) it s = Some (it', s1, map Some (drop (songs_in j v) as)) \<and>
    (case search_item_by_alarm_id (ap_alarm_id it') s1 of
       None \<Rightarrow> Some s1
     | Some k \<Rightarrow> del_alarm_from_headlist k (sp_emit [PushRemoveAlarm (ap_alarm_id it')] s1)) = Some s2 \<and>
    songs_apart (add_alarm_to_headlist it' s2) \<and> dom (sp_songs s2) \<subseteq> dom (sp_songs s) \<union> set (take (songs_in j v) as) \<and>
    sp_current s2 = sp_current s \<and> same_queue s s2"
proof -
  let ?xs = "take (songs_in j v) as"
  obtain it' h where h: "analysis_alarm_push j v (map Some as) it s = Some (it', s\<lparr>sp_songs := h\<rparr>, map Some (drop (songs_in j v) as))"
    "dom h = dom (sp_songs s) \<union> set ?xs" "ap_songList it' = ?xs"
    using analysis_ok [OF assms(1,3,4,5), of it] by blast
  let ?s1 = "s\<lparr>sp_songs := h\<rparr>"
  have l1: "songs_apart ?s1" by (rule songs_apart_cong [OF assms(2)]) (simp_all add: h(2))
  have xs: "distinct ?xs" "set ?xs \<inter> dom (sp_songs s) = {}" using assms(4,5) by (auto dest: in_set_takeD)
  have lists: "set (songs_of s k) \<subseteq> dom (sp_songs s)" if "k < ALARM_ITEMS" for k
    using assms(2) that by (simp add: songs_apart_def apart_def)
  show ?thesis
  proof (cases "search_item_by_alarm_id (ap_alarm_id it') ?s1")
    case None
    have "songs_apart (add_alarm_to_headlist it' ?s1)"
    proof (rule add_item [OF l1])
      show "\<forall>k<ALARM_ITEMS. set (ap_songList it') \<inter> set (songs_of ?s1 k) = {}"
      proof (intro allI impI)
        fix k assume "k < ALARM_ITEMS"
        from lists [OF this] show "set (ap_songList it') \<inter> set (songs_of ?s1 k) = {}" using xs(2) h(3) by (simp; blast)
      qed
    qed (use h xs in simp_all)
    then show ?thesis using h None by (intro exI [of _ it'] exI [of _ ?s1]) (auto simp: same_queue_def)
  next
    case (Some k)
    then have k: "k < ALARM_ITEMS" using search_item_Some by blast
    let ?e = "sp_emit [PushRemoveAlarm (ap_alarm_id it')] ?s1"
    have le: "songs_apart ?e" using l1 by (rule songs_apart_cong) simp_all
    obtain s2 where s2: "del_alarm_from_headlist k ?e = Some s2" "songs_apart s2"
      "s2 = ?e\<lparr>sp_songs := h |` (- set (songs_of s k)), sp_items := (sp_items s)[k := no_item]\<rparr>"
      using del_item [OF le k] by auto
    have "set ?xs \<inter> set (songs_of s2 m) = {}" if "m < ALARM_ITEMS" for m
      using lists [OF that] xs(2) k assms(2) that
      by (cases "m = k") (auto simp: s2(3) songs_apart_def no_item_def)
    moreover have "set ?xs \<subseteq> dom (sp_songs s2)" using lists [OF k] xs(2) h(2) by (auto simp: s2(3))
    ultimately have "songs_apart (add_alarm_to_headlist it' s2)" using add_item [OF s2(2), of it'] h(3) xs(1) by simp
    then show ?thesis using h(1) Some s2(1) h(2)
      by (intro exI [of _ it'] exI [of _ ?s1] exI [of _ s2]) (auto simp: s2(3) same_queue_def)
  qed
qed

lemma govnor_loop_ok:
  assumes "\<forall>v\<in>set vs. item_ok j v" "songs_apart s" "sum_list (map (songs_in j) vs) \<le> length as" "distinct as"
    "set as \<inter> dom (sp_songs s) = {}"
  shows "\<exists>s'. govnor_loop j vs (map Some as) it s = Some s' \<and> songs_apart s' \<and> sp_current s' = sp_current s \<and> same_queue s s'"
  using assms
proof (induction vs arbitrary: s it as)
  case (Cons v vs)
  obtain it' s1 s2 where i: "analysis_alarm_push j v (map Some as) it s = Some (it', s1, map Some (drop (songs_in j v) as))"
    "(case search_item_by_alarm_id (ap_alarm_id it') s1 of
       None \<Rightarrow> Some s1
     | Some k \<Rightarrow> del_alarm_from_headlist k (sp_emit [PushRemoveAlarm (ap_alarm_id it')] s1)) = Some s2"
    "songs_apart (add_alarm_to_headlist it' s2)" "dom (sp_songs s2) \<subseteq> dom (sp_songs s) \<union> set (take (songs_in j v) as)"
    "sp_current s2 = sp_current s" "same_queue s s2"
    using govnor_item_ok [of j v s as it] Cons.prems by auto
  let ?s = "sp_emit [PushAddAlarm (app_alarm it')] (add_alarm_to_headlist it' s2)"
  have "set (take (songs_in j v) as) \<inter> set (drop (songs_in j v) as) = {}"
    using Cons.prems(4) by (simp add: set_take_disj_set_drop_if_distinct)
  then have "\<exists>s'. govnor_loop j vs (map Some (drop (songs_in j v) as)) it' ?s = Some s' \<and> songs_apart s' \<and>
      sp_current s' = sp_current ?s \<and> same_queue ?s s'"
  proof (intro Cons.IH)
    show "songs_apart ?s" by (rule songs_apart_cong [OF i(3)]) simp_all
    show "set (drop (songs_in j v) as) \<inter> dom (sp_songs ?s) = {}"
      using \<open>set (take (songs_in j v) as) \<inter> set (drop (songs_in j v) as) = {}\<close> i(4) Cons.prems(5) set_drop_subset [of "songs_in j v" as]
      by (simp del: dom_restrict) blast
  qed (use Cons.prems in auto)
  moreover have "same_queue s ?s" using i(6) by (simp add: same_queue_def add_alarm_to_headlist_def split: option.split)
  ultimately show ?case using i(1,2,5) by (auto intro: same_queue_trans)
qed simp

section \<open>The invariant\<close>

definition parsed :: "('j, 'a) cjson_scheme \<Rightarrow> string \<Rightarrow> 'j option" where
  "parsed j text = Option.bind (cJSON_Parse j text) (\<lambda>root. cJSON_GetObjectItem j root ''data'')"

definition habits :: "'j cjson_array \<Rightarrow> string \<Rightarrow> 'j list" where
  "habits j text =
     (case Option.bind (parsed j text) (\<lambda>d. cJSON_GetObjectItem j d ''habitList'') of None \<Rightarrow> [] | Some l \<Rightarrow> cj_children j l)"

text \<open>A push lists its songs with every alarm; an answer names a song and an address that fit their arrays.\<close>

definition push_complete :: "'j cjson_array \<Rightarrow> string \<Rightarrow> bool" where
  "push_complete j text \<longleftrightarrow> (\<forall>v\<in>set (habits j text). item_ok j v)"

definition url_ok :: "string \<Rightarrow> bool" where
  "url_ok url \<longleftrightarrow> length url < SONG_URL_SIZE \<and> CHR 0x00 \<notin> set url"

definition answer_fits :: "'j cjson_array \<Rightarrow> string \<Rightarrow> bool" where
  "answer_fits j text \<longleftrightarrow> (\<forall>d. parsed j text = Some d \<longrightarrow>
     (\<forall>y. cJSON_GetObjectItem j d ''songUid'' = Some y \<longrightarrow> (\<exists>uid. cj_valuestring j y = Some uid \<and> length uid < SYNC_ID_SIZE)) \<and>
     (\<forall>z. cJSON_GetObjectItem j d ''play_url'' = Some z \<longrightarrow> (\<exists>url. cj_valuestring j z = Some url \<and> url_ok url)))"

fun push_node_ok :: "'j cjson_array \<Rightarrow> (addr \<rightharpoonup> string) \<Rightarrow> story_push_cmd_value \<Rightarrow> push_param \<Rightarrow> bool" where
  "push_node_ok j m STORY_PUSH_CMD_LESSON_DELETE (PushPacket a) = (m a \<noteq> None)"
| "push_node_ok j m STORY_PUSH_CMD_LESSON_PUSH (PushPacket a) = (\<exists>t. m a = Some t \<and> push_complete j t)"
| "push_node_ok j m STORY_PUSH_CMD_ALARM_PLAY (PushPacket a) = (\<exists>t. m a = Some t \<and> answer_fits j t)"
| "push_node_ok j m c (PushPacket a) = False"
| "push_node_ok j m STORY_PUSH_CMD_ALARM_START (PushAlarm i) = True"
| "push_node_ok j m c (PushAlarm i) = False"
| "push_node_ok j m c p = (c \<in> {STORY_PUSH_CMD_SONG_PLAY, STORY_PUSH_CMD_ALARM_STOP, STORY_PUSH_CMD_LESSON_RESULT_REPORT, STORY_PUSH_CMD_ALARM_PLAY_ERROR})"

fun param_addr :: "push_param \<Rightarrow> addr list" where
  "param_addr (PushPacket a) = [a]"
| "param_addr p = []"

definition packets :: "story_push_cmd_node list \<Rightarrow> addr list" where
  "packets q = concat (map (\<lambda>n. param_addr (pn_param n)) q)"

definition queue_ok :: "'j cjson_array \<Rightarrow> (addr \<rightharpoonup> string) \<Rightarrow> story_push_cmd_node list \<Rightarrow> bool" where
  "queue_ok j m q \<longleftrightarrow> (\<forall>n\<in>set q. push_node_ok j m (pn_cmd_value n) (pn_param n)) \<and> distinct (packets q)"

definition push_inv :: "'j cjson_array \<Rightarrow> push \<Rightarrow> bool" where
  "push_inv j s \<longleftrightarrow> songs_apart s \<and> url_ok (as_url (sp_current s)) \<and> queue_ok j (sp_cmds s) (sp_queue s)"

definition songs_needed :: "'j cjson_array \<Rightarrow> push \<Rightarrow> nat" where
  "songs_needed j s =
     (case sp_queue s of
        [] \<Rightarrow> 0
      | n # q \<Rightarrow> (case packet_text (pn_param n) s of None \<Rightarrow> 0 | Some t \<Rightarrow> sum_list (map (songs_in j) (habits j t))))"

text \<open>Memory that is given is free, and there is enough of it for the songs of a push.\<close>

fun alarm_push_ok :: "'j cjson_array \<Rightarrow> push_op \<Rightarrow> push \<Rightarrow> bool" where
  "alarm_push_ok j (PushTask e) s =
     (\<exists>as. pe_mem e = map Some as \<and> distinct as \<and> set as \<inter> dom (sp_songs s) = {} \<and> songs_needed j s \<le> length as)"
| "alarm_push_ok j (PushCmd mem ty text) s =
     ((\<forall>a. mem = Some a \<longrightarrow> a \<notin> dom (sp_cmds s)) \<and> (ty = PUSH_LESSON_PUSH \<longrightarrow> push_complete j text) \<and>
      (ty = PUSH_LESSON_RESULT_ACK \<longrightarrow> answer_fits j text))"
| "alarm_push_ok j op s = True"

lemma notify_inv:
  assumes "push_inv j s" "push_node_ok j (sp_cmds s) c p" "set (param_addr p) \<inter> set (packets (sp_queue s)) = {}"
  shows "push_inv j (story_push_notify c p s)"
proof -
  have "distinct (param_addr p)" by (cases p) auto
  then have "queue_ok j (sp_cmds s) (queue_send STORY_PUSH_QUEUE_SIZE \<lparr>pn_cmd_value = c, pn_param = p\<rparr> (sp_queue s))"
    using assms by (auto simp: push_inv_def queue_ok_def queue_send_def packets_def)
  then show ?thesis using assms(1) by (simp add: push_inv_def story_push_notify_def songs_apart_def)
qed

lemma node_ok_live: "push_node_ok j m c (PushPacket a) \<Longrightarrow> a \<in> dom m"
  by (cases c) auto

lemma node_ok_mono: "push_node_ok j m c p \<Longrightarrow> (\<And>a. a \<in> set (param_addr p) \<Longrightarrow> m' a = m a) \<Longrightarrow> push_node_ok j m' c p"
proof (cases p)
  case (PushPacket a)
  assume n: "push_node_ok j m c p" and "\<And>a. a \<in> set (param_addr p) \<Longrightarrow> m' a = m a"
  then have "m' a = m a" using PushPacket by simp
  with n PushPacket show ?thesis by (cases c) simp_all
qed (cases c; simp)+

lemma queue_ok_mono: "queue_ok j m q \<Longrightarrow> (\<And>a. a \<in> set (packets q) \<Longrightarrow> m' a = m a) \<Longrightarrow> queue_ok j m' q"
proof -
  assume q: "queue_ok j m q" and eq: "\<And>a. a \<in> set (packets q) \<Longrightarrow> m' a = m a"
  have "push_node_ok j m' (pn_cmd_value n) (pn_param n)" if n: "n \<in> set q" for n
  proof (rule node_ok_mono)
    show "push_node_ok j m (pn_cmd_value n) (pn_param n)" using q n by (simp add: queue_ok_def)
    show "m' a = m a" if "a \<in> set (param_addr (pn_param n))" for a
      using n that by (intro eq) (auto simp: packets_def)
  qed
  then show ?thesis using q by (simp add: queue_ok_def)
qed

lemma packets_live: "queue_ok j m q \<Longrightarrow> set (packets q) \<subseteq> dom m"
  unfolding queue_ok_def packets_def
proof clarsimp
  fix n a assume "\<forall>n\<in>set q. push_node_ok j m (pn_cmd_value n) (pn_param n)" "n \<in> set q" "a \<in> set (param_addr (pn_param n))"
  then show "\<exists>y. m a = Some y" by (cases "pn_param n") (auto dest!: node_ok_live)
qed

lemma packets_Cons [simp]: "packets (n # q) = param_addr (pn_param n) @ packets q" "packets [] = []"
  by (simp_all add: packets_def)

section \<open>Every command is handled\<close>

text \<open>A handler that touches only states of songs, counts and what is played.\<close>

definition same_lists :: "push \<Rightarrow> push \<Rightarrow> bool" where
  "same_lists s s' \<longleftrightarrow> map ap_songList (sp_items s') = map ap_songList (sp_items s) \<and> dom (sp_songs s') = dom (sp_songs s) \<and>
     same_queue s s'"

lemma same_lists_apart:
  assumes "songs_apart s" "same_lists s s'"
  shows "songs_apart s'"
proof -
  have len: "length (sp_items s') = length (sp_items s)"
    using assms(2) unfolding same_lists_def by (metis length_map)
  have "songs_of s' k = songs_of s k" if "k < ALARM_ITEMS" for k
  proof -
    have "map ap_songList (sp_items s') ! k = map ap_songList (sp_items s) ! k" using assms(2) by (simp add: same_lists_def)
    then show ?thesis using assms(1) len that by (simp add: songs_apart_def)
  qed
  then have "apart ALARM_ITEMS (songs_of s') A = apart ALARM_ITEMS (songs_of s) A" for A by (rule apart_cong)
  with assms len show ?thesis by (simp add: songs_apart_def same_lists_def)
qed

lemma same_lists_refl [simp]: "same_lists s s"
  by (simp add: same_lists_def)

lemma same_lists_trans: "same_lists s s1 \<Longrightarrow> same_lists s1 s2 \<Longrightarrow> same_lists s s2"
  by (auto simp: same_lists_def intro: same_queue_trans)

lemma set_song_same: "a \<in> dom (sp_songs s) \<Longrightarrow> \<exists>s'. set_song a st s = Some s' \<and> same_lists s s' \<and> sp_items s' = sp_items s \<and>
    sp_current s' = sp_current s"
  by (auto simp: set_song_def same_lists_def same_queue_def)

lemma song_live: "songs_apart s \<Longrightarrow> search_item_by_alarm_id i s = Some k \<Longrightarrow> set (songs_of s k) \<subseteq> dom (sp_songs s)"
  by (auto simp: songs_apart_def apart_def dest!: search_item_Some)

lemma search_song_live:
  assumes "set l \<subseteq> dom (sp_songs s)"
  shows "\<exists>r. search_song_by_state l st s = Some r \<and> (\<forall>a. r = Some a \<longrightarrow> a \<in> set l)"
proof -
  obtain r where "find_node (\<lambda>n. sg_sate n = st) (sp_songs s) l = Some r"
    "case r of None \<Rightarrow> \<forall>a\<in>set l. \<not> sg_sate (the (sp_songs s a)) = st | Some a \<Rightarrow> a \<in> set l \<and> sg_sate (the (sp_songs s a)) = st"
    using find_node_total [OF assms] by blast
  then show ?thesis by (auto simp: search_song_by_state_def)
qed

lemma song_after_in:
  assumes "a \<in> set l"
  shows "song_after l a \<in> set l"
proof -
  define d where "d = dropWhile (\<lambda>b. b \<noteq> a) l"
  have "set d \<subseteq> set l" by (auto simp: d_def dest: set_dropWhileD)
  moreover have "song_after l a = (case d of x # y # zs \<Rightarrow> y | _ \<Rightarrow> hd l)" by (simp add: song_after_def d_def)
  moreover have "hd l \<in> set l" using assms by (cases l) auto
  ultimately show ?thesis by (cases d rule: remdups_adj.cases) auto
qed

lemma sync_item_ok:
  assumes "songs_apart s" "length uid < SYNC_ID_SIZE" "url_ok url" "url_ok (as_url (sp_current s))"
  shows "\<exists>i' s'. sync_item i uid url s = Some (i', s') \<and> same_lists s s' \<and> url_ok (as_url (sp_current s'))"
proof (cases "search_item_by_alarm_id i s")
  case (Some k)
  let ?l = "songs_of s k"
  have live: "set ?l \<subseteq> dom (sp_songs s)" using song_live [OF assms(1) Some] .
  obtain r where r: "search_song_by_state ?l ALARM_SONG_PLAY_ACTIVE s = Some r" "\<forall>a. r = Some a \<longrightarrow> a \<in> set ?l"
    using search_song_live [OF live] by blast
  show ?thesis
  proof (cases r)
    case (Some a)
    then have a: "a \<in> set ?l" using r(2) by simp
    then obtain n where n: "sp_songs s a = Some n" using live by auto
    have "\<exists>s'. sync_song k i uid url a s = Some s' \<and> same_lists s s' \<and> url_ok (as_url (sp_current s'))"
    proof -
      have "song_after ?l a \<in> dom (sp_songs s)" using song_after_in [OF a] live by blast
      then obtain s1 where s1: "set_song (song_after ?l a) ALARM_SONG_PLAY_INDEX s = Some s1" "same_lists s s1" "sp_items s1 = sp_items s"
        using set_song_same [of "song_after ?l a" s ALARM_SONG_PLAY_INDEX] by blast
      moreover have "a \<in> dom (sp_songs s1)" using s1(2) n by (auto simp: same_lists_def)
      then obtain s2 where s2: "set_song a ALARM_SONG_PLAY_IDLE s1 = Some s2" "same_lists s1 s2"
        using set_song_same [of a s1 ALARM_SONG_PLAY_IDLE] by blast
      have "same_lists s s2" using same_lists_trans [OF s1(2) s2(2)] .
      then have "same_lists s (s2\<lparr>sp_current := c\<rparr>)" for c by (simp add: same_lists_def same_queue_def)
      with s1(1) s2(1) r(1) Some assms(3) show ?thesis
        by (simp add: sync_song_def search_song_by_state_next_def c_strncpy_def url_ok_def)
    qed
    then show ?thesis using assms n r(1) Some \<open>search_item_by_alarm_id i s = Some k\<close>
      by (auto simp: sync_item_def c_str_def)
  qed (use assms r(1) Some in \<open>simp add: sync_item_def\<close>)
qed (use assms in \<open>simp add: sync_item_def\<close>)

lemma request_ok:
  assumes "songs_apart s"
  shows "\<exists>s'. request_by_type ty i s = Some s' \<and> same_lists s s' \<and> sp_current s' = sp_current s"
proof (cases "search_item_by_alarm_id i s")
  case (Some k)
  let ?l = "songs_of s k"
  have live: "set ?l \<subseteq> dom (sp_songs s)" using song_live [OF assms Some] .
  have k: "k < length (sp_items s)" using Some assms by (auto simp: songs_apart_def dest!: search_item_Some)
  have req: "\<exists>s'. request_song ty k a s = Some s' \<and> same_lists s s' \<and> sp_current s' = sp_current s" if a: "a \<in> set ?l" for a
  proof -
    have "a \<in> dom (sp_songs s)" using a live by blast
    then obtain s1 where s1: "set_song a ALARM_SONG_PLAY_ACTIVE s = Some s1" "same_lists s s1" "sp_items s1 = sp_items s" "sp_current s1 = sp_current s"
      using set_song_same by blast
    moreover obtain n where "sp_songs s1 a = Some n" using s1(2) \<open>a \<in> dom (sp_songs s)\<close> by (auto simp: same_lists_def)
    moreover have "map ap_songList ((sp_items s)[k := (sp_items s ! k)\<lparr>ap_listenDays := d\<rparr>]) = map ap_songList (sp_items s)" for d
      using k by (intro nth_equalityI) (auto simp: nth_list_update)
    ultimately show ?thesis by (auto simp: request_song_def Let_def same_lists_def same_queue_def)
  qed
  obtain r r2 where "search_song_by_state ?l ALARM_SONG_PLAY_INDEX s = Some r" "\<forall>a. r = Some a \<longrightarrow> a \<in> set ?l"
    "search_song_by_state ?l ALARM_SONG_PLAY_IDLE s = Some r2" "\<forall>a. r2 = Some a \<longrightarrow> a \<in> set ?l"
    using search_song_live [OF live] by meson
  then show ?thesis using Some req by (cases r; cases r2) (auto simp: request_by_type_def)
qed (simp add: request_by_type_def)

lemma start_song_ok:
  assumes "url_ok (as_url (sp_current s))"
  shows "\<exists>s'. start_song m es s = Some s' \<and> same_lists s s' \<and> sp_current s' = sp_current s \<and>
    (m \<longrightarrow> (\<exists>u. s' = (sp_emit (es @ [PushPlayStart (alarm_play_param u), PushMaskKeys, PushLedBreath]) s)\<lparr>sp_led := True\<rparr>))"
proof -
  obtain b where "check_https_to_http (as_url (sp_current s) @ [CHR 0x00]) = Some b"
    using https_eq assms by (auto simp: url_ok_def)
  with assms show ?thesis
    by (cases m) (auto simp: start_song_def c_str_def url_ok_def same_lists_def same_queue_def)
qed

text \<open>What every command leaves: the invariant, the packets, and those still in the queue.\<close>

definition handled :: "'j cjson_array \<Rightarrow> push \<Rightarrow> push \<Rightarrow> bool" where
  "handled j s s' \<longleftrightarrow> push_inv j s' \<and> sp_cmds s' = sp_cmds s \<and> packets (sp_queue s') = packets (sp_queue s)"

lemma handled_lists:
  "push_inv j s \<Longrightarrow> songs_apart s' \<Longrightarrow> same_queue s s' \<Longrightarrow> url_ok (as_url (sp_current s')) \<Longrightarrow> handled j s s'"
  by (simp add: handled_def push_inv_def same_queue_def)

lemma handled_same:
  "push_inv j s \<Longrightarrow> same_lists s s' \<Longrightarrow> url_ok (as_url (sp_current s')) \<Longrightarrow> handled j s s'"
proof (rule handled_lists)
  assume "push_inv j s" "same_lists s s'"
  then show "songs_apart s'" "same_queue s s'" by (auto intro: same_lists_apart simp: push_inv_def) (simp add: same_lists_def)
qed

lemma handled_trans: "handled j s s1 \<Longrightarrow> handled j s1 s2 \<Longrightarrow> handled j s s2"
  by (simp add: handled_def)

lemma same_lists_simps [simp]:
  "same_lists s (sp_emit es s') = same_lists s s'" "same_lists s (s'\<lparr>sp_led := b\<rparr>) = same_lists s s'"
  "same_lists s (s'\<lparr>sp_current := c\<rparr>) = same_lists s s'" "same_lists s (lights_off s') = same_lists s s'"
  by (simp_all add: same_lists_def same_queue_def lights_off_def)

lemma del_alarm_ok:
  assumes "push_inv j s"
  shows "\<exists>s'. del_alarm j text s = Some s' \<and> handled j s s'"
proof -
  have "\<exists>s'. del_alarm_from_headlist k (sp_emit es s) = Some s' \<and> handled j s s'" if "k < ALARM_ITEMS" for k es
  proof -
    have "songs_apart (sp_emit es s)" using assms by (simp add: push_inv_def songs_apart_def)
    from del_item [OF this that] show ?thesis using assms
      by (auto intro!: handled_lists simp: same_queue_def push_inv_def)
  qed
  then show ?thesis using assms handled_same [OF assms, of s]
    by (auto simp: del_alarm_def Let_def push_inv_def split: option.split dest!: search_item_Some)
qed

lemma update_govnor_ok:
  assumes "push_inv j s" "push_complete j text" "distinct as" "set as \<inter> dom (sp_songs s) = {}"
    "sum_list (map (songs_in j) (habits j text)) \<le> length as"
  shows "\<exists>s'. update_govnor j (map Some as) text s = Some s' \<and> handled j s s'"
proof -
  have "\<exists>s'. govnor_loop j (habits j text) (map Some as) it s = Some s' \<and> handled j s s'" for it
    using govnor_loop_ok [of "habits j text" j s as it] assms
    by (auto simp: push_complete_def push_inv_def intro!: handled_lists)
  moreover have "handled j s s" using assms(1) by (simp add: handled_def)
  ultimately show ?thesis
    unfolding update_govnor_def habits_def parsed_def [symmetric]
    by (cases "parsed j text") (auto split: option.split)
qed

lemma alarm_url_sync_ok:
  assumes "push_inv j s" "answer_fits j text"
  shows "\<exists>i s'. alarm_url_sync j text s = Some (i, s') \<and> handled j s s'"
proof -
  have "handled j s s" using assms(1) by (simp add: handled_def)
  moreover have "\<exists>i' s'. sync_item i (take SYNC_ID_SIZE uid) url s = Some (i', s') \<and> handled j s s'"
    if "length uid < SYNC_ID_SIZE" "url_ok url" for i uid url
    using sync_item_ok [of s "take SYNC_ID_SIZE uid" url i] that assms(1) handled_same [OF assms(1)]
    by (fastforce simp: push_inv_def)
  ultimately show ?thesis using assms(2)
    by (fastforce simp: alarm_url_sync_def answer_fits_def parsed_def Let_def split: option.split)
qed

lemma alarm_play_cmd_ok:
  assumes "push_inv j s" "push_node_ok j (sp_cmds s) STORY_PUSH_CMD_ALARM_PLAY p"
  shows "\<exists>p' s'. alarm_play_cmd j p s = Some (p', s') \<and> handled j s s' \<and> (p' = p \<or> p' = PushNull)"
proof -
  obtain a t where a: "p = PushPacket a" "sp_cmds s a = Some t" "answer_fits j t" using assms(2) by (cases p) auto
  obtain i s1 where s1: "alarm_url_sync j t s = Some (i, s1)" "handled j s s1" using alarm_url_sync_ok [OF assms(1) a(3)] by blast
  then have inv: "push_inv j s1" by (simp add: handled_def)
  obtain s2 where s2: "request_next_alarm_song i s1 = Some s2" "handled j s1 s2"
    using request_ok [of s1 S2C_STORY_LESSON_SYNC i] inv handled_same [OF inv]
    by (auto simp: request_next_alarm_song_def push_inv_def)
  have "push_inv j (story_push_notify STORY_PUSH_CMD_SONG_PLAY PushNull s1)" using inv by (intro notify_inv) auto
  then have "handled j s1 (story_push_notify STORY_PUSH_CMD_SONG_PLAY PushNull s1)"
    by (simp add: handled_def story_push_notify_def queue_send_def packets_def)
  with s1 s2 a show ?thesis by (auto simp: alarm_play_cmd_def packet_text_def intro: handled_trans)
qed

lemma song_play_ok:
  assumes "push_inv j s"
  shows "\<exists>s'. play_alarm_song m s = Some s' \<and> handled j s s'" "\<exists>s'. play_song_repeat m s = Some s' \<and> handled j s s'"
proof -
  have refl: "handled j s s" using assms(1) by (simp add: handled_def)
  have "url_ok (as_url (sp_current s))" using assms by (simp add: push_inv_def)
  from start_song_ok [OF this, of m "[PushPlayStop]"] obtain s' where
    "start_song m [PushPlayStop] s = Some s'" "same_lists s s'" "sp_current s' = sp_current s" by blast
  moreover from this have "handled j s s'" using assms by (intro handled_same [OF assms]) (simp_all add: push_inv_def)
  ultimately show "\<exists>s'. play_alarm_song m s = Some s' \<and> handled j s s'"
    using refl by (simp add: play_alarm_song_def)
  have count: "handled j s (s\<lparr>sp_current := c\<rparr>)" if "as_url c = as_url (sp_current s)" for c
    using that assms by (intro handled_same [OF assms]) (simp_all add: push_inv_def)
  have "\<exists>s'. start_song m [] s1 = Some s' \<and> handled j s s'" if "handled j s s1" for s1
  proof -
    from that have s1: "push_inv j s1" by (simp add: handled_def)
    then have u: "url_ok (as_url (sp_current s1))" by (simp add: push_inv_def)
    from start_song_ok [OF u, of m "[]"] obtain s' where "start_song m [] s1 = Some s'" "same_lists s1 s'" "sp_current s' = sp_current s1"
      by blast
    moreover from this have "handled j s1 s'" using u by (intro handled_same [OF s1]) simp_all
    ultimately show ?thesis using that by (auto intro: handled_trans)
  qed
  from this [OF count] show "\<exists>s'. play_song_repeat m s = Some s' \<and> handled j s s'"
    using refl count by (auto simp: play_song_repeat_def Let_def split: option.split)
qed

lemma song_over_ok:
  assumes "push_inv j s"
  shows "\<exists>s'. song_over_cmd e p s = Some s' \<and> handled j s s'"
proof -
  obtain s1 where s1: "play_song_repeat (pe_url_mem e) s = Some s1" "handled j s s1" using song_play_ok(2) [OF assms] by blast
  then have "push_inv j s1" by (simp add: handled_def)
  then have "handled j s1 ((lights_off s1)\<lparr>sp_led := False\<rparr>)"
    by (intro handled_same) (simp_all add: lights_off_def push_inv_def)
  moreover have "handled j s s" using assms by (simp add: handled_def)
  ultimately show ?thesis using s1 by (auto simp: song_over_cmd_def intro: handled_trans)
qed

lemma execute_ok:
  assumes "push_inv j s" "push_node_ok j (sp_cmds s) (pn_cmd_value n) (pn_param n)"
    "pe_mem e = map Some as" "distinct as" "set as \<inter> dom (sp_songs s) = {}"
    "\<forall>t. packet_text (pn_param n) s = Some t \<longrightarrow> sum_list (map (songs_in j) (habits j t)) \<le> length as"
  shows "\<exists>p s'. execute_push_cmd j e n s = Some (p, s') \<and> handled j s s' \<and> (p = pn_param n \<or> p = PushNull)"
proof (cases "pn_cmd_value n")
  case STORY_PUSH_CMD_LESSON_DELETE
  then obtain a t where "pn_param n = PushPacket a" "sp_cmds s a = Some t" using assms(2) by (cases "pn_param n") auto
  then show ?thesis using del_alarm_ok [OF assms(1), of t] STORY_PUSH_CMD_LESSON_DELETE
    by (auto simp: execute_push_cmd_def packet_text_def)
next
  case STORY_PUSH_CMD_LESSON_PUSH
  then obtain a t where a: "pn_param n = PushPacket a" "sp_cmds s a = Some t" "push_complete j t"
    using assms(2) by (cases "pn_param n") auto
  then show ?thesis using update_govnor_ok [OF assms(1) a(3) assms(4,5)] assms(3,6) STORY_PUSH_CMD_LESSON_PUSH
    by (auto simp: execute_push_cmd_def packet_text_def)
next
  case STORY_PUSH_CMD_ALARM_PLAY
  then show ?thesis using alarm_play_cmd_ok [OF assms(1)] assms(2) by (simp add: execute_push_cmd_def)
next
  case STORY_PUSH_CMD_ALARM_START
  then obtain i where "pn_param n = PushAlarm i" using assms(2) by (cases "pn_param n") auto
  then show ?thesis using STORY_PUSH_CMD_ALARM_START request_ok [of s S2C_STORY_LESSON_RESULT_ACK i] assms(1) handled_same [OF assms(1)]
    by (auto simp: execute_push_cmd_def request_alarm_song_def push_inv_def)
next
  case STORY_PUSH_CMD_ALARM_STOP
  have "handled j s (alarm_stop_cmd s)" using assms(1)
    by (intro handled_same) (auto simp: alarm_stop_cmd_def Let_def push_inv_def lights_off_def)
  then show ?thesis using STORY_PUSH_CMD_ALARM_STOP by (simp add: execute_push_cmd_def)
next
  case STORY_PUSH_CMD_LESSON_RESULT_REPORT
  then show ?thesis using song_over_ok [OF assms(1), of e "pn_param n"] by (auto simp: execute_push_cmd_def)
next
  case STORY_PUSH_CMD_ALARM_PLAY_ERROR
  have "handled j s (play_error_of_alarm s)" using assms(1)
    by (intro handled_same) (auto simp: play_error_of_alarm_def Let_def push_inv_def lights_off_def)
  then show ?thesis using STORY_PUSH_CMD_ALARM_PLAY_ERROR by (simp add: execute_push_cmd_def)
next
  case STORY_PUSH_CMD_SONG_PLAY
  then show ?thesis using song_play_ok(1) [OF assms(1), of "pe_url_mem e"] by (auto simp: execute_push_cmd_def)
qed (use assms(2) in \<open>cases "pn_param n"; simp\<close>)+

lemma push_task_safe:
  assumes "push_inv j s" "alarm_push_ok j (PushTask e) s"
  shows "\<exists>s'. story_push_task j e s = Some s' \<and> push_inv j s'"
proof (cases "sp_queue s")
  case (Cons n q)
  obtain as where as: "pe_mem e = map Some as" "distinct as" "set as \<inter> dom (sp_songs s) = {}" "songs_needed j s \<le> length as"
    using assms(2) by auto
  let ?s = "s\<lparr>sp_queue := q\<rparr>"
  have q: "queue_ok j (sp_cmds s) (n # q)" using assms(1) Cons by (simp add: push_inv_def)
  then have n: "push_node_ok j (sp_cmds s) (pn_cmd_value n) (pn_param n)" "set (param_addr (pn_param n)) \<inter> set (packets q) = {}"
    by (simp_all add: queue_ok_def)
  have inv: "push_inv j ?s" using assms(1) q by (simp add: push_inv_def songs_apart_def queue_ok_def)
  have "\<exists>p s'. execute_push_cmd j e n ?s = Some (p, s') \<and> handled j ?s s' \<and> (p = pn_param n \<or> p = PushNull)"
    using as n(1) Cons by (intro execute_ok [OF inv _ as(1,2)]) (auto simp: songs_needed_def packet_text_def split: push_param.split option.splits)
  then obtain p s' where s': "execute_push_cmd j e n ?s = Some (p, s')" "handled j ?s s'" "p = pn_param n \<or> p = PushNull" by blast
  have inv': "push_inv j s'" using s'(2) by (simp add: handled_def)
  show ?thesis
  proof (cases p)
    case (PushPacket a)
    then have a: "pn_param n = PushPacket a" using s'(3) by auto
    then have "a \<in> dom (sp_cmds s')" using n(1) s'(2) node_ok_live [of j "sp_cmds s"] by (auto simp: handled_def)
    moreover have "a \<notin> set (packets (sp_queue s'))" using n(2) a s'(2) by (simp add: handled_def)
    moreover from this have "queue_ok j ((sp_cmds s')(a := None)) (sp_queue s')"
      using inv' unfolding push_inv_def by (elim conjE queue_ok_mono) auto
    ultimately show ?thesis using s'(1) Cons PushPacket inv'
      by (auto simp: story_push_task_def queue_receive_def free_packet_def push_inv_def songs_apart_def)
  qed (use s'(1) Cons inv' in \<open>auto simp: story_push_task_def queue_receive_def free_packet_def\<close>)
qed (use assms(1) in \<open>simp add: story_push_task_def queue_receive_def\<close>)

lemma push_cb_safe:
  assumes "push_inv j s" "alarm_push_ok j (PushCmd mem ty text) s"
  shows "push_inv j (story_push_command_cb mem ty text s)"
proof (cases mem)
  case (Some a)
  let ?s = "s\<lparr>sp_cmds := (sp_cmds s)(a \<mapsto> text)\<rparr>"
  have "a \<notin> dom (sp_cmds s)" using assms(2) Some by simp
  moreover have q: "queue_ok j (sp_cmds s) (sp_queue s)" using assms(1) by (simp add: push_inv_def)
  ultimately have a: "a \<notin> set (packets (sp_queue s))" using packets_live [OF q] by blast
  have "queue_ok j (sp_cmds ?s) (sp_queue s)" using a by (auto intro: queue_ok_mono [OF q])
  then have inv: "push_inv j ?s" using assms(1) by (simp add: push_inv_def songs_apart_def)
  have "push_inv j (story_push_notify c (PushPacket a) ?s)" if "push_node_ok j (sp_cmds ?s) c (PushPacket a)" for c
    using that a by (intro notify_inv [OF inv]) auto
  with assms Some show ?thesis by (cases ty) (simp_all add: story_push_command_cb_def)
qed (use assms in \<open>simp add: story_push_command_cb_def\<close>)

interpretation push: safe_machine "push_step j" "push_inv j" "alarm_push_ok j" for j
proof
  fix s op
  assume inv: "push_inv j s" and ok: "alarm_push_ok j op s"
  show "\<exists>s'. push_step j op s = Some s' \<and> push_inv j s'"
  proof (cases op)
    case (PushTask e)
    then show ?thesis using push_task_safe [OF inv] ok by simp
  next
    case (PushCmd mem ty t)
    then show ?thesis using push_cb_safe [OF inv] ok by simp
  qed (use inv in \<open>auto intro!: notify_inv simp: push_audio_play_cb_def alarm_callback_def alarm_keyprocess_def
    split: NotifyStatus.split\<close>)
qed

lemma push_inv_zero: "push_inv j push_zero"
  by (simp add: push_inv_def push_zero_def songs_apart_def apart_def url_ok_def queue_ok_def no_item_def)

section \<open>Every step is defined\<close>

text \<open>A push with one alarm of two songs, and the answers to its requests.\<close>

definition two_songs :: "nat cjson_array" where
  "two_songs = \<lparr>cJSON_Parse = (\<lambda>text. Some 0),
     cJSON_GetObjectItem = (\<lambda>v name. if name = ''data'' then Some 1 else if name = ''habitList'' then Some 2
       else if name = ''songUidList'' then Some 4 else if name = ''id'' then Some 7 else if name = ''playType'' then Some 8
       else None),
     cj_valuestring = (\<lambda>v. if v = 5 then Some ''first'' else if v = 6 then Some ''second'' else None),
     cj_valueint = (\<lambda>v. if v = 7 then 9 else if v = 8 then 2 else 0),
     cj_children = (\<lambda>v. if v = 2 then [3] else if v = 4 then [5, 6] else [])\<rparr>"

definition two_songs_ops :: "push_op list" where
  "two_songs_ops = [PushCmd (Some 1) PUSH_LESSON_PUSH ''{}'', PushTask \<lparr>pe_mem = [Some 20, Some 21], pe_url_mem = True\<rparr>,
     PushRing 9, PushTask \<lparr>pe_mem = [], pe_url_mem = True\<rparr>]"



end
