(* ===== verification/StoryPush_Play.thy ===== *)
theory StoryPush_Play
  imports StoryPush_Props
begin

text \<open>
  What the alarms of the server play: the songs of an alarm take turns, one a day, and a song is played as often
  as the type of its alarm says.
\<close>

section \<open>The turn of a song\<close>

abbreviation song_of :: "push \<Rightarrow> nat \<Rightarrow> nat \<Rightarrow> songUidList_t" where
  "song_of s k q \<equiv> the (sp_songs s (songs_of s k ! q))"

text \<open>Alarm \<open>i\<close> is entry \<open>k\<close>; its songs are the nodes \<open>l\<close> with the identifiers \<open>ids\<close>; all but song \<open>p\<close> are idle.\<close>

definition song_row :: "32 word \<Rightarrow> nat \<Rightarrow> addr list \<Rightarrow> string list \<Rightarrow> nat \<Rightarrow> alarm_s_list_state set \<Rightarrow> push \<Rightarrow> bool" where
  "song_row i k l ids p sts s \<longleftrightarrow> search_item_by_alarm_id i s = Some k \<and> length (sp_items s) = ALARM_ITEMS \<and> songs_of s k = l \<and>
     distinct l \<and> p < length l \<and> set l \<subseteq> dom (sp_songs s) \<and> map (\<lambda>a. sg_songID (the (sp_songs s a))) l = ids \<and>
     (\<forall>a\<in>set l. a \<noteq> l ! p \<longrightarrow> sg_sate (the (sp_songs s a)) = ALARM_SONG_PLAY_IDLE) \<and> sg_sate (the (sp_songs s (l ! p))) \<in> sts"

text \<open>It is the turn of song \<open>p\<close>, or there is no other.\<close>

definition turn :: "32 word \<Rightarrow> nat \<Rightarrow> addr list \<Rightarrow> string list \<Rightarrow> nat \<Rightarrow> push \<Rightarrow> bool" where
  "turn i k l ids p s \<longleftrightarrow> sp_queue s = [] \<and>
     song_row i k l ids p (if length l = 1 then {ALARM_SONG_PLAY_INDEX, ALARM_SONG_PLAY_IDLE} else {ALARM_SONG_PLAY_INDEX}) s"

lemma song_row_node:
  assumes "song_row i k l ids p sts s" "q < length l"
  obtains n where "sp_songs s (l ! q) = Some n" "sg_songID n = ids ! q" "ids ! q \<in> set ids" "length ids = length l"
proof -
  have l: "set l \<subseteq> dom (sp_songs s)" "map (\<lambda>a. sg_songID (the (sp_songs s a))) l = ids" using assms by (simp_all add: song_row_def)
  then have "l ! q \<in> dom (sp_songs s)" using assms(2) nth_mem by blast
  then obtain n where n: "sp_songs s (l ! q) = Some n" by blast
  have "length ids = length l" using l(2) by auto
  moreover have "sg_songID n = ids ! q" using n l(2) assms(2) by (auto simp: nth_map)
  ultimately show ?thesis using that n assms(2) by simp
qed

lemma song_row_only:
  assumes "song_row i k l ids p {st} s" "st \<noteq> ALARM_SONG_PLAY_IDLE"
  shows "search_song_by_state l st s = Some (Some (l ! p))"
proof -
  have "set l \<subseteq> dom (sp_songs s)" using assms(1) by (simp add: song_row_def)
  from find_node_total [OF this, of "\<lambda>n. sg_sate n = st"] assms show ?thesis
    by (fastforce simp: search_song_by_state_def song_row_def split: option.splits)
qed

lemma turn_found:
  assumes "turn i k l ids p s"
  shows "search_song_by_state l ALARM_SONG_PLAY_INDEX s = Some (Some (l ! p)) \<or>
    search_song_by_state l ALARM_SONG_PLAY_INDEX s = Some None \<and> search_song_by_state l ALARM_SONG_PLAY_IDLE s = Some (Some (l ! p))"
proof (cases "sg_sate (the (sp_songs s (l ! p))) = ALARM_SONG_PLAY_INDEX")
  case True
  then have "song_row i k l ids p {ALARM_SONG_PLAY_INDEX} s" using assms by (simp add: turn_def song_row_def)
  from song_row_only [OF this] show ?thesis by simp
next
  case False
  then have l: "length l = 1" "p = 0" "sg_sate (the (sp_songs s (l ! p))) = ALARM_SONG_PLAY_IDLE"
    using assms by (auto simp: turn_def song_row_def split: if_splits)
  have p: "p < length l" using l(1,2) by simp
  have row: "song_row i k l ids p (if length l = 1 then {ALARM_SONG_PLAY_INDEX, ALARM_SONG_PLAY_IDLE} else {ALARM_SONG_PLAY_INDEX}) s"
    using assms by (simp add: turn_def)
  obtain n where n: "sp_songs s (l ! p) = Some n" by (rule song_row_node [OF row p])
  obtain a where a: "l = [a]" using l(1) by (cases l) simp_all
  show ?thesis using n l(3) unfolding a l(2) search_song_by_state_def by simp
qed

lemma search_item_listen:
  "search_item_by_alarm_id i (s\<lparr>sp_items := (sp_items s)[k := (sp_items s ! k)\<lparr>ap_listenDays := d\<rparr>]\<rparr>) = search_item_by_alarm_id i s"
proof -
  have "ap_alarm_id ((sp_items s)[k := (sp_items s ! k)\<lparr>ap_listenDays := d\<rparr>] ! m) = ap_alarm_id (sp_items s ! m)" for m
    by (cases "m = k"; cases "k < length (sp_items s)") (simp_all add: list_update_beyond)
  then show ?thesis by (simp add: search_item_by_alarm_id_def)
qed

definition day_env :: push_env where
  "day_env = \<lparr>pe_mem = [], pe_url_mem = True\<rparr>"

lemma song_row_set:
  assumes "song_row i k l ids p sts s" "l ! p = a" "sp_songs s a = Some n" "st \<in> sts'"
  shows "song_row i k l ids p sts' (s\<lparr>sp_songs := (sp_songs s)(a \<mapsto> n\<lparr>sg_sate := st\<rparr>)\<rparr>)"
  using assms unfolding song_row_def search_item_by_alarm_id_def by auto

lemma song_row_cong:
  "song_row i k l ids p sts s = song_row i k l ids p sts s'" if "sp_items s = sp_items s'" "sp_songs s = sp_songs s'"
  using that by (simp add: song_row_def search_item_by_alarm_id_def)

lemma ring_requests:
  assumes "turn i k l ids p s" "length (ids ! p) < SONG_ID_SIZE"
  shows "\<exists>s1. story_push_task j day_env (alarm_callback i s) = Some s1 \<and> sp_queue s1 = [] \<and>
    song_row i k l ids p {ALARM_SONG_PLAY_ACTIVE} s1 \<and> sp_cmds s1 = sp_cmds s \<and> sp_current s1 = sp_current s \<and> sp_led s1 = sp_led s \<and>
    ap_playType (sp_items s1 ! k) = ap_playType (sp_items s ! k) \<and>
    ap_listenDays (sp_items s1 ! k) = ap_listenDays (sp_items s ! k) + 1 \<and>
    sp_trace s1 = sp_trace s @ [PushRequest S2C_STORY_LESSON_RESULT_ACK (ids ! p) i (ap_listenDays (sp_items s ! k) + 1)]"
proof -
  define s0 where "s0 = s\<lparr>sp_queue := []\<rparr>"
  have q: "sp_queue s = []" and row: "song_row i k l ids p (if length l = 1 then {ALARM_SONG_PLAY_INDEX, ALARM_SONG_PLAY_IDLE} else {ALARM_SONG_PLAY_INDEX}) s"
    using assms(1) by (simp_all add: turn_def)
  have k: "k < length (sp_items s)" "ap_alarm_id (sp_items s ! k) = i" "length (sp_items s) = ALARM_ITEMS"
    using row by (auto simp: song_row_def dest!: search_item_Some)
  have "p < length l" using row by (simp add: song_row_def)
  moreover from this obtain n where "sp_songs s (l ! p) = Some n" "sg_songID n = ids ! p"
    by (rule song_row_node [OF row])
  ultimately obtain n where n: "sp_songs s (l ! p) = Some n" "p < length l" and id: "sg_songID n = ids ! p" by simp
  define it where "it = (sp_items s ! k)\<lparr>ap_listenDays := ap_listenDays (sp_items s ! k) + 1\<rparr>"
  define s1 where "s1 = s\<lparr>sp_songs := (sp_songs s)(l ! p \<mapsto> n\<lparr>sg_sate := ALARM_SONG_PLAY_ACTIVE\<rparr>)\<rparr>"
  define s2 where "s2 = sp_emit [PushRequest S2C_STORY_LESSON_RESULT_ACK (ids ! p) i (ap_listenDays it)] (s1\<lparr>sp_items := (sp_items s)[k := it]\<rparr>)"
  have req: "request_song S2C_STORY_LESSON_RESULT_ACK k (l ! p) s = Some s2"
    using n id k assms(2) by (simp add: request_song_def set_song_def s1_def s2_def it_def uid_string_def Let_def)
  have found: "search_item_by_alarm_id i s = Some k" "songs_of s k = l" using row by (simp_all add: song_row_def)
  have "request_by_type S2C_STORY_LESSON_RESULT_ACK i s = Some s2"
    using turn_found [OF assms(1)] req found by (auto simp: request_by_type_def)
  moreover have upd: "s\<lparr>sp_queue := []\<rparr> = s" using q by (cases s) simp
  ultimately have "request_by_type S2C_STORY_LESSON_RESULT_ACK i (s\<lparr>sp_queue := []\<rparr>) = Some s2" unfolding upd by simp
  then have run: "story_push_task j day_env (alarm_callback i s) = Some s2"
    using q by (simp add: story_push_task_def alarm_callback_def story_push_notify_def queue_send_def execute_push_cmd_def
        request_alarm_song_def free_packet_def)
  have "song_row i k l ids p {ALARM_SONG_PLAY_ACTIVE} s1"
    unfolding s1_def by (rule song_row_set [OF row]) (simp_all add: n)
  moreover have "sp_items s1 = sp_items s" by (simp add: s1_def)
  ultimately have "song_row i k l ids p {ALARM_SONG_PLAY_ACTIVE} (s1\<lparr>sp_items := (sp_items s1)[k := (sp_items s1 ! k)\<lparr>ap_listenDays := d\<rparr>]\<rparr>)" for d
    using k search_item_listen [of i s1 k d] by (simp add: song_row_def nth_list_update)
  then have "song_row i k l ids p {ALARM_SONG_PLAY_ACTIVE} (s1\<lparr>sp_items := (sp_items s)[k := it]\<rparr>)"
    by (simp add: it_def s1_def)
  then have "song_row i k l ids p {ALARM_SONG_PLAY_ACTIVE} s2"
    by (subst song_row_cong [of _ "s1\<lparr>sp_items := (sp_items s)[k := it]\<rparr>"]) (simp_all add: s2_def)
  with run q k show ?thesis by (simp add: s2_def s1_def it_def)
qed

section \<open>The answer\<close>

definition names_song :: "'j cjson_array \<Rightarrow> string \<Rightarrow> 32 word \<Rightarrow> string \<Rightarrow> string \<Rightarrow> bool" where
  "names_song j text i uid url \<longleftrightarrow> (case parsed j text of None \<Rightarrow> False | Some d \<Rightarrow>
     (case (cJSON_GetObjectItem j d ''id'', cJSON_GetObjectItem j d ''songUid'', cJSON_GetObjectItem j d ''play_url'') of
        (Some x, Some y, Some z) \<Rightarrow> of_int (cj_valueint j x) = i \<and> cj_valuestring j y = Some uid \<and> cj_valuestring j z = Some url
      | _ \<Rightarrow> False))"

lemma song_after_nth:
  assumes "distinct l" "p < length l"
  shows "song_after l (l ! p) = l ! ((p + 1) mod length l)"
proof -
  have "dropWhile (\<lambda>b. b \<noteq> l ! p) l = drop p l"
  proof -
    have "takeWhile (\<lambda>b. b \<noteq> l ! p) l = take p l"
      using assms by (intro takeWhile_eq_take_P_nth) (auto simp: nth_eq_iff_index_eq)
    then show ?thesis using assms by (simp add: dropWhile_eq_drop)
  qed
  also have "drop p l = l ! p # drop (Suc p) l" using assms by (simp add: Cons_nth_drop_Suc)
  finally have d: "dropWhile (\<lambda>b. b \<noteq> l ! p) l = l ! p # drop (Suc p) l" .
  show ?thesis
  proof (cases "Suc p < length l")
    case True
    then have "drop (Suc p) l = l ! Suc p # drop (Suc (Suc p)) l" by (simp add: Cons_nth_drop_Suc)
    with d True show ?thesis by (simp add: song_after_def)
  next
    case False
    then have "Suc p = length l" using assms by simp
    then have "dropWhile (\<lambda>b. b \<noteq> l ! p) l = [l ! p]" using d by simp
    then have "song_after l (l ! p) = hd l" unfolding song_after_def by simp
    moreover have "hd l = l ! 0" using assms by (intro hd_conv_nth) auto
    ultimately show ?thesis using \<open>Suc p = length l\<close> by simp
  qed
qed

lemma hand_over:
  assumes row: "song_row i k l ids p {ALARM_SONG_PLAY_ACTIVE} s"
    and url: "url_ok url"
  shows "\<exists>h. sync_song k i uid url (l ! p) s = Some (s\<lparr>sp_songs := h, sp_current := \<lparr>as_playCount = play_count (ap_playType (sp_items s ! k)),
      as_alarm_id = i, as_songID = take SONG_ID_SIZE uid, as_url = url\<rparr>\<rparr>) \<and>
    song_row i k l ids ((p + 1) mod length l)
      (if length l = 1 then {ALARM_SONG_PLAY_INDEX, ALARM_SONG_PLAY_IDLE} else {ALARM_SONG_PLAY_INDEX}) (s\<lparr>sp_songs := h\<rparr>)"
proof -
  define p' where "p' = (p + 1) mod length l"
  have l: "p < length l" "distinct l" "songs_of s k = l" "search_item_by_alarm_id i s = Some k" "length (sp_items s) = ALARM_ITEMS"
    "set l \<subseteq> dom (sp_songs s)"
    using row by (simp_all add: song_row_def)
  have "0 < length l" using l(1) by linarith
  then have p': "p' < length l" by (simp add: p'_def)
  obtain n where n: "sp_songs s (l ! p) = Some n" by (rule song_row_node [OF row l(1)])
  obtain n' where n': "sp_songs s (l ! p') = Some n'" by (rule song_row_node [OF row p'])
  define h1 where "h1 = (sp_songs s)(l ! p' \<mapsto> n'\<lparr>sg_sate := ALARM_SONG_PLAY_INDEX\<rparr>)"
  define n1 where "n1 = the (h1 (l ! p))"
  define h where "h = h1(l ! p \<mapsto> n1\<lparr>sg_sate := ALARM_SONG_PLAY_IDLE\<rparr>)"
  have h1: "h1 (l ! p) = Some n1" using n by (simp add: n1_def h1_def)
  have "search_song_by_state_next l ALARM_SONG_PLAY_ACTIVE s = Some (Some (l ! p'))"
    using song_row_only [OF row] l by (simp add: search_song_by_state_next_def song_after_nth p'_def)
  moreover have "set_song (l ! p') ALARM_SONG_PLAY_INDEX s = Some (s\<lparr>sp_songs := h1\<rparr>)" by (simp add: set_song_def n' h1_def)
  moreover have "set_song (l ! p) ALARM_SONG_PLAY_IDLE (s\<lparr>sp_songs := h1\<rparr>) = Some (s\<lparr>sp_songs := h\<rparr>)" by (simp add: set_song_def h1 h_def)
  moreover have "c_strncpy SONG_URL_SIZE url (length url) = Some url" using url by (simp add: c_strncpy_def url_ok_def)
  ultimately have sync: "sync_song k i uid url (l ! p) s = Some (s\<lparr>sp_songs := h, sp_current := \<lparr>as_playCount = play_count (ap_playType (sp_items s ! k)),
      as_alarm_id = i, as_songID = take SONG_ID_SIZE uid, as_url = url\<rparr>\<rparr>)"
    using l(3) by (simp add: sync_song_def)
  have id: "sg_songID (the (h a)) = sg_songID (the (sp_songs s a))" for a
    using n n' h1 by (auto simp: h_def h1_def n1_def)
  have st: "sg_sate (the (h a)) = (if a = l ! p then ALARM_SONG_PLAY_IDLE else if a = l ! p' then ALARM_SONG_PLAY_INDEX else sg_sate (the (sp_songs s a)))" for a
    by (auto simp: h_def h1_def)
  have dom: "set l \<subseteq> dom h" using l(6) by (auto simp: h_def h1_def)
  have idle: "\<forall>a\<in>set l. a \<noteq> l ! p' \<longrightarrow> sg_sate (the (h a)) = ALARM_SONG_PLAY_IDLE"
    using row by (auto simp: st song_row_def)
  have mine: "sg_sate (the (h (l ! p'))) \<in> (if length l = 1 then {ALARM_SONG_PLAY_INDEX, ALARM_SONG_PLAY_IDLE} else {ALARM_SONG_PLAY_INDEX})"
  proof (cases "length l = 1")
    case False
    then have "p' \<noteq> p" using l(1) by (cases "Suc p = length l") (auto simp: p'_def)
    then have "l ! p' \<noteq> l ! p" using l p' by (simp add: nth_eq_iff_index_eq)
    with False show ?thesis by (simp add: st)
  qed (simp add: st)
  have "song_row i k l ids p' (if length l = 1 then {ALARM_SONG_PLAY_INDEX, ALARM_SONG_PLAY_IDLE} else {ALARM_SONG_PLAY_INDEX}) (s\<lparr>sp_songs := h\<rparr>)"
    using row p' dom idle mine unfolding song_row_def search_item_by_alarm_id_def by (simp add: id)
  with sync show ?thesis unfolding p'_def [symmetric] by blast
qed

lemma answer_taken:
  assumes row: "song_row i k l ids p {ALARM_SONG_PLAY_ACTIVE} s" and q: "sp_queue s = []"
    and answer: "names_song j t i (ids ! p) url" and id: "length (ids ! p) < SONG_ID_SIZE" and url: "url_ok url" "url \<noteq> []"
  shows "\<exists>s1. story_push_task j day_env (story_push_command_cb (Some a) PUSH_LESSON_RESULT_ACK t s) = Some s1 \<and>
    sp_queue s1 = [\<lparr>pn_cmd_value = STORY_PUSH_CMD_SONG_PLAY, pn_param = PushNull\<rparr>] \<and> turn i k l ids ((p + 1) mod length l) (s1\<lparr>sp_queue := []\<rparr>) \<and>
    sp_items s1 = sp_items s \<and> sp_trace s1 = sp_trace s \<and> sp_cmds s1 = (sp_cmds s)(a \<mapsto> t) \<and> sp_led s1 = sp_led s \<and>
    sp_current s1 = \<lparr>as_playCount = play_count (ap_playType (sp_items s ! k)), as_alarm_id = i, as_songID = ids ! p, as_url = url\<rparr>"
proof -
  let ?s = "s\<lparr>sp_cmds := (sp_cmds s)(a \<mapsto> t)\<rparr>"
  define c where "c = \<lparr>as_playCount = play_count (ap_playType (sp_items s ! k)), as_alarm_id = i, as_songID = ids ! p, as_url = url\<rparr>"
  have row': "song_row i k l ids p {ALARM_SONG_PLAY_ACTIVE} ?s"
    by (subst song_row_cong [of _ s]) (simp_all add: row)
  have l: "p < length l" "songs_of s k = l" "search_item_by_alarm_id i ?s = Some k" using row row' by (simp_all add: song_row_def)
  obtain n where n: "sp_songs s (l ! p) = Some n" "sg_songID n = ids ! p" by (rule song_row_node [OF row l(1)])
  obtain h where h: "sync_song k i (ids ! p) url (l ! p) ?s = Some (?s\<lparr>sp_songs := h, sp_current := c\<rparr>)"
    "song_row i k l ids ((p + 1) mod length l)
      (if length l = 1 then {ALARM_SONG_PLAY_INDEX, ALARM_SONG_PLAY_IDLE} else {ALARM_SONG_PLAY_INDEX}) (?s\<lparr>sp_songs := h\<rparr>)"
    using hand_over [OF row' url(1), of "ids ! p"] id by (auto simp: c_def)
  have "c_str SYNC_ID_SIZE (ids ! p) = Some (ids ! p)" using id by (simp add: c_str_def)
  then have "sync_item i (ids ! p) url ?s = Some (0, ?s\<lparr>sp_songs := h, sp_current := c\<rparr>)"
    using url(2) l song_row_only [OF row'] n h(1) by (simp add: sync_item_def)
  moreover have "take SYNC_ID_SIZE (ids ! p) = ids ! p" using id by simp
  ultimately have sync: "alarm_url_sync j t ?s = Some (0, ?s\<lparr>sp_songs := h, sp_current := c\<rparr>)"
    using answer unfolding alarm_url_sync_def parsed_def [symmetric] names_song_def
    by (auto simp: Let_def split: option.splits)
  define s1 where "s1 = ?s\<lparr>sp_songs := h, sp_current := c, sp_queue := [\<lparr>pn_cmd_value = STORY_PUSH_CMD_SONG_PLAY, pn_param = PushNull\<rparr>]\<rparr>"
  have upd: "?s\<lparr>sp_queue := []\<rparr> = ?s" using q by (cases s) simp
  have "alarm_play_cmd j (PushPacket a) (?s\<lparr>sp_queue := []\<rparr>) = Some (PushNull, s1)"
    unfolding upd using sync q by (simp add: alarm_play_cmd_def packet_text_def story_push_notify_def queue_send_def s1_def)
  then have "story_push_task j day_env (story_push_command_cb (Some a) PUSH_LESSON_RESULT_ACK t s) = Some s1"
    using q by (simp add: story_push_task_def story_push_command_cb_def story_push_notify_def queue_send_def execute_push_cmd_def
        free_packet_def)
  moreover have "turn i k l ids ((p + 1) mod length l) (s1\<lparr>sp_queue := []\<rparr>)"
    unfolding turn_def by (subst song_row_cong [of _ "?s\<lparr>sp_songs := h\<rparr>"]) (use h(2) in \<open>simp_all add: s1_def\<close>)
  ultimately show ?thesis by (intro exI [of _ s1]) (simp add: s1_def c_def)
qed

definition http_of :: "string \<Rightarrow> string" where
  "http_of url = (if take 5 url = ''https'' then ''http'' @ drop 5 url else url)"

lemma start_song_plays:
  assumes "url_ok (as_url (sp_current s))"
  shows "start_song True es s = Some ((sp_emit (es @ [PushPlayStart (alarm_play_param (http_of (as_url (sp_current s)))),
    PushMaskKeys, PushLedBreath]) s)\<lparr>sp_led := True\<rparr>)"
proof -
  obtain b where "check_https_to_http (as_url (sp_current s) @ [CHR 0x00]) = Some b" "terminated b = http_of (as_url (sp_current s))"
    using https_eq assms unfolding http_of_def url_ok_def by blast
  with assms show ?thesis by (simp add: start_song_def c_str_def url_ok_def)
qed

definition plays :: "string \<Rightarrow> push_event list" where
  "plays url = [PushPlayStart (alarm_play_param (http_of url)), PushMaskKeys, PushLedBreath]"

text \<open>A day: the alarm rings, its request is handled, the answer arrives and is handled, the song starts.\<close>

record answer =
  an_mem :: addr
  an_text :: string
  an_url :: string

definition day_ops :: "32 word \<Rightarrow> answer \<Rightarrow> push_op list" where
  "day_ops i an = [PushRing i, PushTask day_env, PushCmd (Some (an_mem an)) PUSH_LESSON_RESULT_ACK (an_text an), PushTask day_env,
     PushTask day_env]"

definition day_events :: "32 word \<Rightarrow> string \<Rightarrow> string \<Rightarrow> 32 word \<Rightarrow> push_event list" where
  "day_events i uid url day = PushRequest S2C_STORY_LESSON_RESULT_ACK uid i day # PushPlayStop # plays url"

definition good_answer :: "'j cjson_array \<Rightarrow> 32 word \<Rightarrow> string \<Rightarrow> answer \<Rightarrow> bool" where
  "good_answer j i uid an \<longleftrightarrow> names_song j (an_text an) i uid (an_url an) \<and> url_ok (an_url an) \<and> an_url an \<noteq> []"

lemma one_day:
  assumes t: "turn i k l ids p s" and id: "length (ids ! p) < SONG_ID_SIZE" "i \<noteq> NO_ALARM" and an: "good_answer j i (ids ! p) an"
  shows "\<exists>s'. run_opt (push_step j) (day_ops i an) s = Some s' \<and> turn i k l ids ((p + 1) mod length l) s' \<and>
    sp_trace s' = sp_trace s @ day_events i (ids ! p) (an_url an) (ap_listenDays (sp_items s ! k) + 1) \<and>
    sp_cmds s' = (sp_cmds s)(an_mem an \<mapsto> an_text an) \<and> ap_listenDays (sp_items s' ! k) = ap_listenDays (sp_items s ! k) + 1 \<and>
    ap_playType (sp_items s' ! k) = ap_playType (sp_items s ! k) \<and> sp_led s' \<and>
    sp_current s' = \<lparr>as_playCount = play_count (ap_playType (sp_items s ! k)), as_alarm_id = i, as_songID = ids ! p, as_url = an_url an\<rparr>"
proof -
  obtain s1 where s1: "story_push_task j day_env (alarm_callback i s) = Some s1" "sp_queue s1 = []"
    "song_row i k l ids p {ALARM_SONG_PLAY_ACTIVE} s1" "sp_cmds s1 = sp_cmds s"
    "ap_playType (sp_items s1 ! k) = ap_playType (sp_items s ! k)"
    "ap_listenDays (sp_items s1 ! k) = ap_listenDays (sp_items s ! k) + 1"
    "sp_trace s1 = sp_trace s @ [PushRequest S2C_STORY_LESSON_RESULT_ACK (ids ! p) i (ap_listenDays (sp_items s ! k) + 1)]"
    using ring_requests [OF t id(1), of j] by blast
  have url: "names_song j (an_text an) i (ids ! p) (an_url an)" "url_ok (an_url an)" "an_url an \<noteq> []"
    using an by (simp_all add: good_answer_def)
  obtain s2 where s2: "story_push_task j day_env (story_push_command_cb (Some (an_mem an)) PUSH_LESSON_RESULT_ACK (an_text an) s1) = Some s2"
    "sp_queue s2 = [\<lparr>pn_cmd_value = STORY_PUSH_CMD_SONG_PLAY, pn_param = PushNull\<rparr>]" "turn i k l ids ((p + 1) mod length l) (s2\<lparr>sp_queue := []\<rparr>)"
    "sp_items s2 = sp_items s1" "sp_trace s2 = sp_trace s1" "sp_cmds s2 = (sp_cmds s1)(an_mem an \<mapsto> an_text an)"
    "sp_current s2 = \<lparr>as_playCount = play_count (ap_playType (sp_items s1 ! k)), as_alarm_id = i, as_songID = ids ! p, as_url = an_url an\<rparr>"
    using answer_taken [OF s1(3,2) url(1) id(1) url(2,3), of "an_mem an"] by blast
  let ?s = "s2\<lparr>sp_queue := []\<rparr>"
  define s3 where "s3 = (sp_emit (PushPlayStop # plays (an_url an)) ?s)\<lparr>sp_led := True\<rparr>"
  have found: "search_item_by_alarm_id i ?s = Some k" using s2(3) by (simp add: turn_def song_row_def)
  have "url_ok (as_url (sp_current ?s))" using s2(7) url(2) by simp
  from start_song_plays [OF this] have "play_alarm_song True ?s = Some s3"
    using found id(2) s2(7) by (simp add: play_alarm_song_def s3_def plays_def)
  then have "story_push_task j day_env s2 = Some s3"
    using s2(2) by (simp add: story_push_task_def execute_push_cmd_def day_env_def free_packet_def)
  with s1(1) s2(1) have "run_opt (push_step j) (day_ops i an) s = Some s3" by (simp add: day_ops_def)
  moreover have "turn i k l ids ((p + 1) mod length l) s3"
    using s2(3) unfolding turn_def s3_def by (subst song_row_cong [of _ ?s]) simp_all
  ultimately show ?thesis using s1 s2 by (intro exI [of _ s3]) (simp add: s3_def day_events_def)
qed

text \<open>C21: The songs of an alarm take turns: when it rings day after day and every answer names the song that was asked
  for, day \<open>d\<close> asks for song \<open>p + d\<close> modulo the number of songs with the number of that day, and plays exactly the
  answered address, over HTTP; and no packet with an answer is ever given back.\<close>

theorem alarm_songs_take_turns:
  assumes "turn i k l ids p s" "i \<noteq> NO_ALARM" "\<forall>uid\<in>set ids. length uid < SONG_ID_SIZE"
    "\<forall>d<length ans. good_answer j i (ids ! ((p + d) mod length l)) (ans ! d)"
  shows "\<exists>s'. run_opt (push_step j) (concat (map (day_ops i) ans)) s = Some s' \<and> turn i k l ids ((p + length ans) mod length l) s' \<and>
    sp_trace s' = sp_trace s @ concat (map (\<lambda>d. day_events i (ids ! ((p + d) mod length l)) (an_url (ans ! d))
      (ap_listenDays (sp_items s ! k) + of_nat (d + 1))) [0..<length ans]) \<and>
    dom (sp_cmds s') = dom (sp_cmds s) \<union> an_mem ` set ans"
  using assms
proof (induction ans arbitrary: p s)
  case Nil
  then show ?case by (simp add: turn_def song_row_def)
next
  case (Cons an ans)
  have p: "p < length l" "length ids = length l" using Cons.prems(1) by (auto simp: turn_def song_row_def)
  then have id: "length (ids ! p) < SONG_ID_SIZE" using Cons.prems(3) by simp
  have "good_answer j i (ids ! p) an" using Cons.prems(4) p by (auto dest: spec [of _ 0])
  from one_day [OF Cons.prems(1) id Cons.prems(2) this] obtain s1 where
    s1: "run_opt (push_step j) (day_ops i an) s = Some s1" "turn i k l ids ((p + 1) mod length l) s1"
    "sp_trace s1 = sp_trace s @ day_events i (ids ! p) (an_url an) (ap_listenDays (sp_items s ! k) + 1)"
    "sp_cmds s1 = (sp_cmds s)(an_mem an \<mapsto> an_text an)" "ap_listenDays (sp_items s1 ! k) = ap_listenDays (sp_items s ! k) + 1" by blast
  have wrap: "((p + 1) mod length l + d) mod length l = (p + Suc d) mod length l" for d by (simp add: mod_add_left_eq)
  have "\<forall>d<length ans. good_answer j i (ids ! (((p + 1) mod length l + d) mod length l)) (ans ! d)"
    using Cons.prems(4) unfolding wrap by (auto dest: spec [of _ "Suc _"])
  from Cons.IH [OF s1(2) Cons.prems(2,3) this] obtain s' where
    s': "run_opt (push_step j) (concat (map (day_ops i) ans)) s1 = Some s'" "turn i k l ids ((p + Suc (length ans)) mod length l) s'"
    "sp_trace s' = sp_trace s1 @ concat (map (\<lambda>d. day_events i (ids ! ((p + Suc d) mod length l)) (an_url (ans ! d))
      (ap_listenDays (sp_items s1 ! k) + of_nat (d + 1))) [0..<length ans])" "dom (sp_cmds s') = dom (sp_cmds s1) \<union> an_mem ` set ans"
    unfolding wrap by blast
  have days: "concat (map (\<lambda>d. day_events i (ids ! ((p + d) mod length l)) (an_url ((an # ans) ! d))
      (ap_listenDays (sp_items s ! k) + of_nat (d + 1))) [0..<length (an # ans)]) =
    day_events i (ids ! p) (an_url an) (ap_listenDays (sp_items s ! k) + 1) @
    concat (map (\<lambda>d. day_events i (ids ! ((p + Suc d) mod length l)) (an_url (ans ! d))
      (ap_listenDays (sp_items s1 ! k) + of_nat (d + 1))) [0..<length ans])"
    using p s1(5) by (simp add: upt_conv_Cons map_Suc_upt [symmetric] comp_def add.assoc del: upt_Suc map_Suc_upt)
  show ?case
    using s1 s' unfolding days by (auto simp: run_opt_append)
qed

text \<open>An alarm of two songs, and the answers of two days.\<close>

definition turn_json :: "nat cjson_array" where
  "turn_json = \<lparr>cJSON_Parse = (\<lambda>text. Some (if text = ''1'' then 10 else 20)),
     cJSON_GetObjectItem = (\<lambda>v name. if name = ''data'' then Some (v + 1) else if name = ''id'' then Some 5
       else if name = ''songUid'' then Some (v + 1) else if name = ''play_url'' then Some 6 else None),
     cj_valuestring = (\<lambda>v. if v = 12 then Some ''first'' else if v = 22 then Some ''second'' else if v = 6 then Some ''https://s'' else None),
     cj_valueint = (\<lambda>v. 9), cj_children = (\<lambda>v. [])\<rparr>"

definition row_state :: push where
  "row_state = push_zero\<lparr>sp_items := no_item\<lparr>ap_alarm_id := 9, ap_playType := 2, ap_songList := [20, 21]\<rparr> # replicate 9 no_item,
     sp_songs := [20 \<mapsto> \<lparr>sg_songID = ''first'', sg_sate = ALARM_SONG_PLAY_INDEX\<rparr>, 21 \<mapsto> \<lparr>sg_songID = ''second'', sg_sate = ALARM_SONG_PLAY_IDLE\<rparr>]\<rparr>"

definition two_answers :: "answer list" where
  "two_answers = [\<lparr>an_mem = 1, an_text = ''1'', an_url = ''https://s''\<rparr>, \<lparr>an_mem = 2, an_text = ''2'', an_url = ''https://s''\<rparr>]"

lemma turn_row_state: "turn 9 0 [20, 21] [''first'', ''second''] 0 row_state"
proof -
  have "search_item_by_alarm_id 9 row_state = Some 0" by code_simp
  then show ?thesis by (simp add: turn_def song_row_def row_state_def push_zero_def)
qed

lemma alarm_songs_take_turns_witness:
  "\<exists>s. run_opt (push_step turn_json) (concat (map (day_ops 9) two_answers)) row_state = Some s \<and>
    sp_trace s = day_events 9 ''first'' ''https://s'' 1 @ day_events 9 ''second'' ''https://s'' 2 \<and> dom (sp_cmds s) = {1, 2}"
proof -
  have good: "\<forall>d<length two_answers. good_answer turn_json 9 ([''first'', ''second''] ! ((0 + d) mod length [20, 21 :: nat])) (two_answers ! d)"
  proof (intro allI impI)
    fix d assume "d < length two_answers"
    then have "d = 0 \<or> d = 1" by (auto simp: two_answers_def)
    then show "good_answer turn_json 9 ([''first'', ''second''] ! ((0 + d) mod length [20, 21 :: nat])) (two_answers ! d)"
      by (auto simp: two_answers_def good_answer_def names_song_def parsed_def turn_json_def url_ok_def)
  qed
  have "\<forall>uid\<in>set [''first'', ''second'']. length uid < SONG_ID_SIZE" "(9 :: 32 word) \<noteq> NO_ALARM" by simp_all
  from alarm_songs_take_turns [OF turn_row_state this(2,1) good] show ?thesis
    by (auto simp: two_answers_def row_state_def push_zero_def no_item_def)
qed

section \<open>How often a song is played\<close>

definition sounding :: "32 word \<Rightarrow> 8 word \<Rightarrow> 8 word \<Rightarrow> string \<Rightarrow> push \<Rightarrow> bool" where
  "sounding i ty c url s \<longleftrightarrow> sp_queue s = [] \<and> (\<exists>k. search_item_by_alarm_id i s = Some k \<and> ap_playType (sp_items s ! k) = ty) \<and>
     as_alarm_id (sp_current s) = i \<and> as_playCount (sp_current s) = c \<and> as_url (sp_current s) = url \<and> sp_led s"

definition silent :: "push \<Rightarrow> bool" where
  "silent s \<longleftrightarrow> sp_queue s = [] \<and> as_alarm_id (sp_current s) = NO_ALARM \<and> \<not> sp_led s"

definition next_count :: "8 word \<Rightarrow> 8 word \<Rightarrow> 8 word" where
  "next_count ty c = c - (if ty = 2 \<or> ty = 1 then 1 else 0)"

primrec rounds :: "8 word \<Rightarrow> nat \<Rightarrow> 8 word \<Rightarrow> nat" where
  "rounds ty 0 c = 0"
| "rounds ty (Suc m) c = (if next_count ty c = 0 then 0 else Suc (rounds ty m (next_count ty c)))"

lemma rounds_le: "rounds ty m c \<le> m"
  by (induction m arbitrary: c) simp_all

lemma rounds_for_ever: "next_count ty c = c \<Longrightarrow> c \<noteq> 0 \<Longrightarrow> rounds ty m c = m"
  by (induction m) simp_all

lemma rounds_value:
  "rounds ty m (play_count ty) = (if ty = 0 \<or> ty = 1 then 0 else if ty = 2 then min m 2 else m)"
proof -
  consider "ty = 0" | "ty = 1" | "ty = 2" | "ty \<noteq> 0" "ty \<noteq> 1" "ty \<noteq> 2" by blast
  then show ?thesis
  proof cases
    case 3
    have "rounds 2 m 3 = min m 2"
    proof (cases m)
      case (Suc n)
      then show ?thesis
      proof (cases n)
        case (Suc n')
        then show ?thesis using \<open>m = Suc n\<close> by (cases n') (simp_all add: next_count_def)
      qed (simp add: next_count_def)
    qed simp
    with 3 show ?thesis by (simp add: play_count_def)
  next
    case 4
    then show ?thesis by (simp add: rounds_for_ever next_count_def play_count_def)
  qed (cases m; simp add: next_count_def play_count_def)+
qed

definition song_over_ops :: "push_op list" where
  "song_over_ops = [PushPlayed NOTIFY_STATUS_PLAY_FINISH, PushTask day_env]"

lemma song_over_run:
  assumes "sp_queue s = []" "song_over_cmd day_env (PushBool True) s = Some s'"
  shows "run_opt (push_step j) song_over_ops s = Some s'"
proof -
  have upd: "s\<lparr>sp_queue := []\<rparr> = s" using assms(1) by (cases s) simp
  show ?thesis using assms
    by (simp add: song_over_ops_def push_audio_play_cb_def story_push_notify_def queue_send_def story_push_task_def execute_push_cmd_def
        free_packet_def upd del: push.unfold_congs push.fold_congs)
qed

lemma silent_stays:
  assumes "silent s"
  shows "run_opt (push_step j) (concat (replicate m song_over_ops)) s = Some s"
proof (induction m)
  case (Suc m)
  have "song_over_cmd day_env (PushBool True) s = Some s"
    using assms by (simp add: silent_def song_over_cmd_def play_song_repeat_def)
  then have "run_opt (push_step j) song_over_ops s = Some s" using assms by (intro song_over_run) (simp_all add: silent_def)
  with Suc show ?case by (simp add: run_opt_append)
qed simp

lemma sounding_once:
  assumes "sounding i ty c url s" "i \<noteq> NO_ALARM" "url_ok url"
  shows "\<exists>s'. run_opt (push_step j) song_over_ops s = Some s' \<and>
    (if next_count ty c = 0 then silent s' \<and> sp_trace s' = sp_trace s @ [PushLedOff, PushUnmaskKeys]
     else sounding i ty (next_count ty c) url s' \<and> sp_trace s' = sp_trace s @ plays url)"
proof -
  obtain k where k: "search_item_by_alarm_id i s = Some k" "ap_playType (sp_items s ! k) = ty" using assms(1) by (auto simp: sounding_def)
  have s: "sp_queue s = []" "as_alarm_id (sp_current s) = i" "as_playCount (sp_current s) = c" "as_url (sp_current s) = url" "sp_led s"
    using assms(1) by (simp_all add: sounding_def)
  let ?s = "s\<lparr>sp_current := (sp_current s)\<lparr>as_playCount := next_count ty c\<rparr>\<rparr>"
  show ?thesis
  proof (cases "next_count ty c = 0")
    case True
    define s' where "s' = (lights_off (?s\<lparr>sp_current := (sp_current ?s)\<lparr>as_alarm_id := NO_ALARM\<rparr>\<rparr>))\<lparr>sp_led := False\<rparr>"
    have "song_over_cmd day_env (PushBool True) s = Some s'"
      using k s assms(2) True by (simp add: song_over_cmd_def play_song_repeat_def Let_def next_count_def [symmetric] s'_def lights_off_def)
    from song_over_run [OF s(1) this] show ?thesis using True s by (intro exI [of _ s']) (simp add: silent_def s'_def lights_off_def)
  next
    case False
    define s' where "s' = (sp_emit (plays url) ?s)\<lparr>sp_led := True\<rparr>"
    have "url_ok (as_url (sp_current ?s))" using s assms(3) by simp
    from start_song_plays [OF this] have "start_song True [] ?s = Some s'" using s by (simp add: s'_def plays_def)
    then have "song_over_cmd day_env (PushBool True) s = Some s'"
      using k s assms(2) False
      by (simp add: song_over_cmd_def play_song_repeat_def Let_def next_count_def [symmetric] day_env_def s'_def)
    moreover have "sounding i ty (next_count ty c) url s'" using k s unfolding sounding_def s'_def
      by (auto simp: search_item_by_alarm_id_def)
    moreover have "run_opt (push_step j) song_over_ops s = Some s'" using calculation(1) by (rule song_over_run [OF s(1)])
    ultimately show ?thesis using False by (intro exI [of _ s']) (simp add: s'_def)
  qed
qed

lemma sounding_rounds:
  assumes "sounding i ty c url s" "i \<noteq> NO_ALARM" "url_ok url"
  shows "\<exists>s'. run_opt (push_step j) (concat (replicate m song_over_ops)) s = Some s' \<and>
    sp_trace s' = sp_trace s @ concat (replicate (rounds ty m c) (plays url)) @
      (if rounds ty m c < m then [PushLedOff, PushUnmaskKeys] else []) \<and>
    (if rounds ty m c < m then silent s' else \<exists>c. sounding i ty c url s')"
  using assms
proof (induction m arbitrary: c s)
  case 0
  then show ?case by auto
next
  case (Suc m)
  from sounding_once [OF Suc.prems, of j] obtain s1 where s1: "run_opt (push_step j) song_over_ops s = Some s1"
    "if next_count ty c = 0 then silent s1 \<and> sp_trace s1 = sp_trace s @ [PushLedOff, PushUnmaskKeys]
     else sounding i ty (next_count ty c) url s1 \<and> sp_trace s1 = sp_trace s @ plays url" by blast
  show ?case
  proof (cases "next_count ty c = 0")
    case True
    with s1 silent_stays [of s1 j m] show ?thesis by (simp add: run_opt_append)
  next
    case False
    with s1(2) have n: "sounding i ty (next_count ty c) url s1" "sp_trace s1 = sp_trace s @ plays url" by simp_all
    from Suc.IH [OF n(1) Suc.prems(2,3)] s1(1) n(2) False show ?thesis by (auto simp: run_opt_append)
  qed
qed

text \<open>How often a song of an alarm is played after it was started: with type 1 never again, with type 2 twice
  more, with type 3 or another for ever, each time the same address; when it is over the light goes out, the keys
  are given back and no later report of the player starts it again.\<close>

theorem alarm_song_is_repeated:
  assumes "sounding i ty (play_count ty) url s" "i \<noteq> NO_ALARM" "url_ok url"
  shows "\<exists>s'. run_opt (push_step j) (concat (replicate m song_over_ops)) s = Some s' \<and>
    (let r = (if ty = 0 \<or> ty = 1 then 0 else if ty = 2 then min m 2 else m) in
     sp_trace s' = sp_trace s @ concat (replicate r (plays url)) @ (if r < m then [PushLedOff, PushUnmaskKeys] else []) \<and>
     (r < m \<longrightarrow> silent s'))"
  using sounding_rounds [OF assms, of j m] unfolding rounds_value by (auto simp: Let_def)

definition sounding_state :: push where
  "sounding_state = row_state\<lparr>sp_current := \<lparr>as_playCount = 3, as_alarm_id = 9, as_songID = ''first'', as_url = ''https://s''\<rparr>, sp_led := True\<rparr>"

lemma alarm_song_is_repeated_witness:
  "\<exists>s. run_opt (push_step turn_json) (concat (replicate 5 song_over_ops)) sounding_state = Some s \<and>
    sp_trace s = plays ''https://s'' @ plays ''https://s'' @ [PushLedOff, PushUnmaskKeys] \<and> silent s"
proof -
  have "search_item_by_alarm_id 9 sounding_state = Some 0" by code_simp
  then have "sounding 9 2 (play_count 2) ''https://s'' sounding_state"
    by (simp add: sounding_def sounding_state_def row_state_def push_zero_def play_count_def)
  moreover have "(9 :: 32 word) \<noteq> NO_ALARM" "url_ok ''https://s''" by (simp_all add: url_ok_def)
  ultimately have "\<exists>s. run_opt (push_step turn_json) (concat (replicate 5 song_over_ops)) sounding_state = Some s \<and>
    (let r = (if (2 :: 8 word) = 0 \<or> (2 :: 8 word) = 1 then 0 else if (2 :: 8 word) = 2 then min 5 2 else 5) in
     sp_trace s = sp_trace sounding_state @ concat (replicate r (plays ''https://s'')) @ (if r < 5 then [PushLedOff, PushUnmaskKeys] else []) \<and>
     (r < 5 \<longrightarrow> silent s))"
    by (rule alarm_song_is_repeated)
  then show ?thesis by (auto simp: numeral_eq_Suc sounding_state_def row_state_def push_zero_def)
qed

section \<open>Alarms that fall silent\<close>

text \<open>When no song is idle or has its turn, because their answers were lost, a ring asks for nothing.\<close>

lemma lost_answers_silence:
  assumes "search_item_by_alarm_id i s = Some k" "set (songs_of s k) \<subseteq> dom (sp_songs s)"
    "\<forall>a\<in>set (songs_of s k). sg_sate (the (sp_songs s a)) = ALARM_SONG_PLAY_ACTIVE"
  shows "request_alarm_song i s = Some s"
proof -
  have "search_song_by_state (songs_of s k) st s = Some None" if "st \<noteq> ALARM_SONG_PLAY_ACTIVE" for st
    using find_node_none [OF assms(2), of "\<lambda>n. sg_sate n = st"] assms(3) that by (auto simp: search_song_by_state_def)
  then show ?thesis using assms(1) by (simp add: request_alarm_song_def request_by_type_def)
qed

text \<open>The days of the week are rotated by one place.\<close>

lemma week_map_rotates:
  assumes "k < 7"
  shows "bit (week_map_of d) ((k + 1) mod 7) = bit d k"
proof -
  have "(d AND 2 ^ 6 = 0) = (\<not> bit d 6)" by (rule and_exp_eq_0_iff_not_bit)
  then have six: "(d AND 0x40 \<noteq> 0) = bit d 6" by simp
  have mask: "bit (0x7E :: 8 word) n = (n \<in> {1, 2, 3, 4, 5, 6})" for n
    by (cases "n < 8") (auto simp: less_Suc_eq numeral_eq_Suc dest: bit_imp_le_length)
  have "bit (week_map_of d) n = (bit (push_bit 1 d AND 0x7E) n \<or> bit (if d AND 0x40 \<noteq> 0 then 1 else 0 :: 8 word) n)" for n
    unfolding week_map_of_def
  proof (rule bit_disjunctive_add_iff)
    show "\<not> bit (push_bit 1 d AND 0x7E) n \<or> \<not> bit (if d AND 0x40 \<noteq> 0 then 1 else 0 :: 8 word) n" for n
    proof (cases n)
      case 0
      have "\<not> bit (push_bit 1 d) 0" by (simp only: bit_push_bit_iff) simp
      then show ?thesis unfolding 0 by (simp only: bit_and_iff) simp
    qed (simp add: bit_1_iff)
  qed
  then have W: "bit (week_map_of d) n = (bit (push_bit 1 d) n \<and> n \<in> {1, 2, 3, 4, 5, 6} \<or> bit d 6 \<and> n = 0)" for n
    by (simp only: bit_and_iff mask six) (cases "bit d 6"; simp add: bit_1_iff)
  have P: "bit (push_bit 1 d) (k + 1) = bit d k" if "k < 6"
    using that by (simp only: bit_push_bit_iff) simp
  consider "k = 6" | "k < 6" using assms by linarith
  then show ?thesis
  proof cases
    case 1
    then show ?thesis by (simp add: W)
  next
    case 2
    then have "(k + 1) mod 7 = k + 1" "k + 1 \<in> {1, 2, 3, 4, 5, 6}" by auto
    then show ?thesis using P [OF 2] by (simp only: W) simp
  qed
qed

text \<open>An alarm that names no songs takes those of the alarm before it in the push; when both are deleted the songs are
  freed twice.\<close>

definition shared_json :: "nat cjson_array" where
  "shared_json = \<lparr>cJSON_Parse = (\<lambda>text. Some (if text = ''push'' then 0 else if text = ''one'' then 10 else 20)),
     cJSON_GetObjectItem = (\<lambda>v name. if name = ''data'' then Some (v + 1) else if name = ''habitList'' then Some 2
       else if name = ''songUidList'' \<and> v = 3 then Some 5 else if name = ''id'' then Some (if v = 3 \<or> v = 11 then 7 else 8) else None),
     cj_valuestring = (\<lambda>v. Some ''song''), cj_valueint = (\<lambda>v. int v), cj_children = (\<lambda>v. if v = 2 then [3, 4] else if v = 5 then [6] else [])\<rparr>"

lemma item_without_songs_shares:
  "\<exists>s s1. update_govnor shared_json [Some 20] ''push'' push_zero = Some s \<and> songs_of s 0 = [20] \<and> songs_of s 1 = [20] \<and>
    del_alarm shared_json ''one'' s = Some s1 \<and> del_alarm shared_json ''two'' s1 = None"
proof -
  have "case update_govnor shared_json [Some 20] ''push'' push_zero of None \<Rightarrow> False
    | Some s \<Rightarrow> songs_of s 0 = [20] \<and> songs_of s 1 = [20] \<and>
       (case del_alarm shared_json ''one'' s of None \<Rightarrow> False
        | Some s1 \<Rightarrow> (case del_alarm shared_json ''two'' s1 of None \<Rightarrow> True | Some s2 \<Rightarrow> False))"
    by code_simp
  then show ?thesis by (auto split: option.splits)
qed

end
