(* ===== verification/Http.thy ===== *)
theory Http
  imports Transfer_Types "HOL-Library.Word"
begin

text \<open>
  The helpers of the transfer servers for addresses and sockets (\<open>sys/net_common/socket_plus.c\<close>) and for HTTP
  (\<open>sys/net_common/http_api.c\<close>).

  \<^item> An array that a caller hands over is the list of all its bytes; writing behind it is \<open>None\<close>.
  \<^item> What the sockets of lwIP answer is an argument: the results of \<open>getaddrinfo\<close>, \<open>socket\<close>, \<open>connect\<close>,
    \<open>send\<close> and \<open>recv\<close>.
  \<^item> Texts are lists of the bytes before the terminator.
\<close>

section \<open>Arrays of bytes\<close>

abbreviation NUL :: char where "NUL \<equiv> CHR 0x00"

text \<open>\<open>strncpy\<close> writes all of its \<open>n\<close> bytes; a negative difference of pointers is a huge \<open>n\<close>.\<close>

definition buf_strncpy :: "string \<Rightarrow> string \<Rightarrow> int \<Rightarrow> string option" where
  "buf_strncpy buf src n =
     (if 0 \<le> n \<and> nat n \<le> length buf
      then Some (take (nat n) src @ replicate (nat n - length src) NUL @ drop (nat n) buf) else None)"

definition buf_strcpy :: "string \<Rightarrow> string \<Rightarrow> string option" where
  "buf_strcpy buf src = (if length src < length buf then Some (src @ [NUL] @ drop (length src + 1) buf) else None)"

definition buf_str :: "string \<Rightarrow> string option" where
  "buf_str buf = (if NUL \<in> set buf then Some (takeWhile (\<lambda>c. c \<noteq> NUL) buf) else None)"

section \<open>Addresses\<close>

definition domain_start :: "string \<Rightarrow> string option" where
  "domain_start url =
     (if take 8 url = ''https://'' then Some (drop 8 url) else if take 7 url = ''http://'' then Some (drop 7 url) else None)"

text \<open>\<open>port\<close> and \<open>port_end\<close> are the text from the first colon and from the first slash on.\<close>

definition copy_params :: "string option \<Rightarrow> string \<Rightarrow> string option option" where
  "copy_params params e = (case params of None \<Rightarrow> Some None | Some buf \<Rightarrow> map_option Some (buf_strcpy buf e))"

definition sock_get_server_info_plus :: "string \<Rightarrow> string \<Rightarrow> string \<Rightarrow> string option
    \<Rightarrow> (download_upload_finish_reason_t \<times> string \<times> string \<times> string option) option" where
  "sock_get_server_info_plus url domain port params =
     (case domain_start url of
        None \<Rightarrow> Some (PARSE_URL_FAILED, domain, port, params)
      | Some d \<Rightarrow>
          if d = [] then Some (PARSE_URL_FAILED, domain, port, params)
          else (case (strstr d '':'', strstr d ''/'') of
                  (None, None) \<Rightarrow> do {
                    p \<leftarrow> buf_strcpy port ''80'';
                    h \<leftarrow> buf_strcpy domain d;
                    Some (LOAD_SUCC, h, p, params) }
                | (None, Some e) \<Rightarrow> do {
                    p \<leftarrow> buf_strcpy port ''80'';
                    h \<leftarrow> buf_strncpy domain d (int (length d) - int (length e));
                    q \<leftarrow> copy_params params e;
                    Some (LOAD_SUCC, h, p, q) }
                | (Some c, None) \<Rightarrow> do {
                    h \<leftarrow> buf_strncpy domain d (int (length d) - int (length c));
                    p \<leftarrow> buf_strcpy port (tl c);
                    Some (LOAD_SUCC, h, p, params) }
                | (Some c, Some e) \<Rightarrow> do {
                    h \<leftarrow> buf_strncpy domain d (int (length d) - int (length c));
                    p \<leftarrow> buf_strncpy port (tl c) (int (length (tl c)) - int (length e));
                    q \<leftarrow> copy_params params e;
                    Some (LOAD_SUCC, h, p, q) }))"

section \<open>Sockets\<close>

abbreviation INVALID_SOCK :: int where "INVALID_SOCK \<equiv> -1"

text \<open>One address that the name server gave: the socket for it and whether the connection is made.\<close>

record ainfo =
  ai_socket :: int
  ai_connect :: bool

text \<open>The sockets that are closed again on the way to the one that connects.\<close>

fun connect_loop :: "ainfo list \<Rightarrow> int list \<Rightarrow> int option \<times> int list" where
  "connect_loop [] closed = (None, closed)"
| "connect_loop (a # as) closed =
     (if ai_socket a < 0 then connect_loop as closed
      else if ai_connect a then (Some (ai_socket a), closed)
      else connect_loop as (closed @ [ai_socket a]))"

definition sock_connect_plus :: "ainfo list option \<Rightarrow> download_upload_finish_reason_t
    \<Rightarrow> int \<times> download_upload_finish_reason_t \<times> int list" where
  "sock_connect_plus res reason =
     (case res of
        None \<Rightarrow> (INVALID_SOCK, QUERY_DNS_FAILED, [])
      | Some [] \<Rightarrow> (INVALID_SOCK, QUERY_DNS_FAILED, [])
      | Some (a # as) \<Rightarrow>
          (case connect_loop (a # as) [] of
             (None, closed) \<Rightarrow> (INVALID_SOCK, SERVER_CONNECT_FAILED, closed)
           | (Some s, closed) \<Rightarrow> (s, reason, closed)))"

abbreviation s_MAX_SOCKET_WRITE_SIZE :: int where "s_MAX_SOCKET_WRITE_SIZE \<equiv> 512"

text \<open>The result is the place that is reached; \<open>send p n\<close> is what the socket takes of \<open>n\<close> bytes from place \<open>p\<close> on.\<close>

function sock_write_loop :: "(int \<Rightarrow> int \<Rightarrow> int) \<Rightarrow> int \<Rightarrow> int \<Rightarrow> int" where
  "sock_write_loop send position data_len =
     (if 0 < data_len then
        (let ret = send position (if data_len \<le> s_MAX_SOCKET_WRITE_SIZE then data_len else s_MAX_SOCKET_WRITE_SIZE)
         in if 0 < ret then sock_write_loop send (position + ret) (data_len - ret) else position)
      else position)"
  by pat_completeness auto
termination by (relation "measure (\<lambda>(send, position, data_len). nat data_len)") auto

declare sock_write_loop.simps [simp del]

definition sock_write_plus :: "(int \<Rightarrow> int \<Rightarrow> int) \<Rightarrow> string \<Rightarrow> int" where
  "sock_write_plus send data = sock_write_loop send 0 (int (length data))"

section \<open>HTTP texts\<close>

abbreviation crlf :: string where "crlf \<equiv> [CHR 0x0D, CHR 0x0A]"

definition http_get_body :: "string \<Rightarrow> string option" where
  "http_get_body s = map_option (drop 4) (strstr s (crlf @ crlf))"

definition http_get_error_code :: "string \<Rightarrow> int" where
  "http_get_error_code s = (if 12 < length s \<and> strstr s ''200'' = Some (drop 9 s) then 200 else -1)"

definition http_request_text :: "string \<Rightarrow> string \<Rightarrow> string" where
  "http_request_text url domain =
     ''GET '' @ url @ '' HTTP/1.1'' @ crlf @
     ''Accept:text/html,application/xhtml+xml,application/xml;q=0.9,image/webp,*/*;q=0.8'' @ crlf @
     ''User-Agent:Mozilla/5.0 (X11; Linux x86_64) AppleWebKit/537(KHTML, like Gecko) Chrome/47.0.2526Safari/537.36'' @ crlf @
     ''Host:'' @ domain @ crlf @
     ''Connection:close'' @ crlf @ crlf"

text \<open>The request is printed into the caller's array and sent; \<open>None\<close>: it does not fit.\<close>

definition http_send_req :: "(int \<Rightarrow> int \<Rightarrow> int) \<Rightarrow> string \<Rightarrow> string \<Rightarrow> nat
    \<Rightarrow> (download_upload_finish_reason_t \<times> string) option" where
  "http_send_req send url domain buffer_size =
     (let text = http_request_text url domain
      in if length text < buffer_size
         then Some (if sock_write_plus send text \<noteq> int (length text) then HTTP_REQ_FAILED else LOAD_SUCC, text)
         else None)"

definition isspace :: "char \<Rightarrow> bool" where
  "isspace c \<longleftrightarrow> c = CHR 0x20 \<or> (9 \<le> (of_char c :: nat) \<and> (of_char c :: nat) \<le> 13)"

definition isdigit :: "char \<Rightarrow> bool" where
  "isdigit c \<longleftrightarrow> 48 \<le> (of_char c :: nat) \<and> (of_char c :: nat) \<le> 57"

definition digits_value :: "string \<Rightarrow> nat" where
  "digits_value ds = foldl (\<lambda>v c. 10 * v + (of_char c - 48)) 0 ds"

text \<open>\<open>strtoul(p, NULL, 10)\<close>, 32 bits wide.\<close>

definition strtoul10 :: "string \<Rightarrow> 32 word" where
  "strtoul10 s =
     (let t = dropWhile isspace s;
          neg = (t \<noteq> [] \<and> hd t = CHR ''-'');
          u = (if t \<noteq> [] \<and> (hd t = CHR ''-'' \<or> hd t = CHR ''+'') then tl t else t);
          v = digits_value (takeWhile isdigit u)
      in if 2 ^ 32 \<le> v then -1 else if neg then - of_nat v else of_nat v)"

text \<open>\<open>None\<close>: there is no colon behind the name, and the text at address 1 is read.\<close>

definition http_get_download_filesize :: "string \<Rightarrow> 32 word option" where
  "http_get_download_filesize s =
     (case strstr s ''Content-Length'' of
        None \<Rightarrow> Some 0
      | Some t \<Rightarrow> map_option (\<lambda>u. strtoul10 (tl u)) (strstr t '':''))"

text \<open>The text between a name and the end of its line, if it is not empty and fits an array of \<open>n + 2\<close> bytes.\<close>

definition header_value :: "string \<Rightarrow> nat \<Rightarrow> string \<Rightarrow> string option" where
  "header_value name n s = do {
     start \<leftarrow> strstr s name;
     end \<leftarrow> strstr start crlf;
     let len = int (length start) - int (length name) - int (length end);
     if 0 < len \<and> len < int n then Some (take (nat len) (drop (length name) start)) else None }"

definition http_get_content_length :: "string option \<Rightarrow> int option" where
  "http_get_content_length body =
     (case Option.bind body (header_value ''Content-Length:'' 15) of
        None \<Rightarrow> Some (-1)
      | Some v \<Rightarrow> (let n = digits_value (filter isdigit v) in if n < 2 ^ 31 then Some (int n) else None))"

definition http_get_content_type :: "nat \<Rightarrow> string option \<Rightarrow> int \<times> string option" where
  "http_get_content_type type_len body =
     (case Option.bind body (header_value ''Content-Type:'' 63) of
        None \<Rightarrow> (-1, None)
      | Some v \<Rightarrow> (0, if type_len = 0 then None else Some (take (type_len - 1) v)))"

section \<open>Chunked bodies\<close>

record chunk_state =
  ck_state :: nat
  ck_len :: string
  ck_dest :: string

text \<open>\<open>strcat\<close> of one character; \<open>sz\<close> bytes are in the array.\<close>

definition strcat1 :: "nat \<Rightarrow> string \<Rightarrow> char \<Rightarrow> string option" where
  "strcat1 sz s c = (if length s + 1 < sz then Some (s @ [c]) else None)"

definition chunk_step :: "nat \<Rightarrow> char \<Rightarrow> chunk_state \<Rightarrow> chunk_state option" where
  "chunk_step dest_len ch k =
     (if ck_state k = 0 then
        (if ch = CHR 0x0D then Some (k\<lparr>ck_state := 1\<rparr>)
         else if ch = CHR ''0'' then Some (k\<lparr>ck_state := 4\<rparr>)
         else map_option (\<lambda>l. k\<lparr>ck_len := l\<rparr>) (strcat1 16 (ck_len k) ch))
      else if ck_state k = 1 then
        (if ch = CHR 0x0A then Some (k\<lparr>ck_state := 2\<rparr>) else Some (k\<lparr>ck_state := 0, ck_len := []\<rparr>))
      else if ck_state k = 2 then
        (if ch = CHR 0x0D then Some (k\<lparr>ck_state := 3\<rparr>)
         else map_option (\<lambda>d. k\<lparr>ck_dest := d\<rparr>) (strcat1 dest_len (ck_dest k) ch))
      else if ck_state k = 3 then Some (k\<lparr>ck_state := 0, ck_len := []\<rparr>)
      else Some k)"

definition http_get_chunked_body :: "nat \<Rightarrow> string \<Rightarrow> string option" where
  "http_get_chunked_body dest_len src =
     map_option ck_dest (run_opt (chunk_step dest_len) src \<lparr>ck_state = 0, ck_len = [], ck_dest = []\<rparr>)"

end
