(* ===== verification/TransferServer.thy ===== *)
theory TransferServer
  imports Http
begin

text \<open>
  The two servers that move files: \<open>sys/download_server/download_server.c\<close> and
  \<open>sys/upload_server/upload_server.c\<close>. A client queues a request; the task of the server connects, moves the file and
  calls the client back with a reason.

  \<^item> A round is the work of a server's task on one request. What the network, the card and the timer do in it is its
    environment: the bytes of every \<open>recv\<close>, the results of \<open>write\<close> and \<open>fwrite\<close>, the read in which the timer runs out.
  \<^item> The second task of the download server reads the answer: one step per \<open>recv\<close>. Its result comes through a queue of
    one place which the timer uses too.
  \<^item> What the servers do outside is recorded in traces.
\<close>

section \<open>The download server: reading an answer\<close>

abbreviation DOWNLOAD_BUFFER_SIZE :: nat where "DOWNLOAD_BUFFER_SIZE \<equiv> 512"
abbreviation TOTAL_BUFFER_SIZE :: nat where "TOTAL_BUFFER_SIZE \<equiv> 1024"
abbreviation DOWNLOAD_REQUEST_QUEUE_SIZE :: nat where "DOWNLOAD_REQUEST_QUEUE_SIZE \<equiv> 5"

record download_finish_info_t =
  df_error_reason :: download_upload_finish_reason_t
  df_real_filesize :: "32 word"
  df_http_include_filesize :: "32 word"

datatype dl_phase = Header nat "32 word" string | Body "32 word" "32 word" | Finished download_finish_info_t

record dl_run =
  dr_phase :: dl_phase
  dr_file :: string
  dr_writes :: nat

text \<open>A write of no bytes gives 0, which counts as failed; \<open>Some k\<close>: the write fails behind \<open>k\<close> bytes.\<close>

definition file_write :: "(nat \<Rightarrow> nat option) \<Rightarrow> string \<Rightarrow> dl_run \<Rightarrow> bool \<times> dl_run" where
  "file_write fails data x =
     (case fails (dr_writes x) of
        None \<Rightarrow> (data \<noteq> [], x\<lparr>dr_file := dr_file x @ data, dr_writes := dr_writes x + 1\<rparr>)
      | Some k \<Rightarrow> (False, x\<lparr>dr_file := dr_file x @ take k data, dr_writes := dr_writes x + 1\<rparr>))"

definition finish_with :: "download_upload_finish_reason_t \<Rightarrow> 32 word \<Rightarrow> 32 word \<Rightarrow> dl_run \<Rightarrow> dl_run" where
  "finish_with reason real fsize x =
     x\<lparr>dr_phase := Finished \<lparr>df_error_reason = reason, df_real_filesize = real, df_http_include_filesize = fsize\<rparr>\<rparr>"

text \<open>The first bytes of the file; without a body none, and no size is reported.\<close>

definition first_write :: "(nat \<Rightarrow> nat option) \<Rightarrow> string \<Rightarrow> 32 word \<Rightarrow> 32 word \<Rightarrow> dl_run \<Rightarrow> dl_run" where
  "first_write fails data filesize fsize x =
     (let (ok, x1) = file_write fails data x
      in if ok then x1\<lparr>dr_phase := Body (of_nat (length data)) filesize\<rparr>
         else finish_with WRITE_FILE_FAILED (of_nat (length data)) fsize x1)"

definition header_failed :: "(nat \<Rightarrow> nat option) \<Rightarrow> nat \<Rightarrow> 32 word \<Rightarrow> dl_run \<Rightarrow> dl_run" where
  "header_failed fails count filesize x =
     (if filesize = 0 then finish_with RECEVCE_FILESIZE_FAILED 0 0 x
      else if 3 \<le> count then finish_with NOT_FIND_HTTP_BODY_END 0 0 x
      else first_write fails [] filesize 0 x)"

text \<open>A \<open>recv\<close> while the header is read; without a size in it the old bytes stay in the buffer behind the new ones.\<close>

definition header_read :: "(nat \<Rightarrow> nat option) \<Rightarrow> string \<Rightarrow> nat \<Rightarrow> 32 word \<Rightarrow> string \<Rightarrow> dl_run \<Rightarrow> dl_run option" where
  "header_read fails data count filesize buf x =
     (if 3 \<le> count then Some (header_failed fails count filesize x)
      else do {
        let buf1 = data @ drop (length data) buf;
        s \<leftarrow> buf_str buf1;
        fsize \<leftarrow> (if filesize = 0 then http_get_download_filesize s else Some filesize);
        (if fsize = 0 then Some (x\<lparr>dr_phase := Header (count + 1) 0 buf1\<rparr>)
         else (case http_get_body s of
                 None \<Rightarrow> Some (x\<lparr>dr_phase := Header (count + 1) fsize (replicate DOWNLOAD_BUFFER_SIZE NUL)\<rparr>)
               | Some p \<Rightarrow>
                   (let offset = length s - length p
                    in if length data < offset then None
                       else Some (first_write fails (drop offset data) fsize fsize x)))) })"

definition body_done :: "32 word \<Rightarrow> 32 word \<Rightarrow> dl_run \<Rightarrow> dl_run" where
  "body_done copy_sum filesize = finish_with (if copy_sum < filesize then LOAD_HALF else LOAD_SUCC) copy_sum filesize"

definition body_read :: "(nat \<Rightarrow> nat option) \<Rightarrow> string \<Rightarrow> 32 word \<Rightarrow> 32 word \<Rightarrow> dl_run \<Rightarrow> dl_run" where
  "body_read fails data copy_sum filesize x =
     (let (ok, x1) = file_write fails data x; sum = copy_sum + of_nat (length data)
      in if \<not> ok then finish_with WRITE_FILE_FAILED copy_sum filesize x1
         else if sum = filesize then body_done sum filesize x1
         else if sum > filesize then finish_with DOWNLOAD_SIZE_OVERFLOW_ERR sum filesize x1
         else x1\<lparr>dr_phase := Body sum filesize\<rparr>)"

definition download_read :: "(nat \<Rightarrow> nat option) \<Rightarrow> string \<Rightarrow> dl_run \<Rightarrow> dl_run option" where
  "download_read fails data x =
     (case dr_phase x of
        Header count filesize buf \<Rightarrow> header_read fails data count filesize buf x
      | Body copy_sum filesize \<Rightarrow> Some (body_read fails data copy_sum filesize x)
      | Finished i \<Rightarrow> Some x)"

text \<open>\<open>recv\<close> gives no more bytes: the connection is closed or three seconds have passed.\<close>

definition download_end :: "(nat \<Rightarrow> nat option) \<Rightarrow> dl_run \<Rightarrow> dl_run" where
  "download_end fails x =
     (case dr_phase x of
        Header count filesize buf \<Rightarrow> header_failed fails count filesize x
      | Body copy_sum filesize \<Rightarrow> body_done copy_sum filesize x
      | Finished i \<Rightarrow> x)"

definition dl_start :: dl_run where
  "dl_start = \<lparr>dr_phase = Header 0 0 (replicate DOWNLOAD_BUFFER_SIZE NUL), dr_file = [], dr_writes = 0\<rparr>"

text \<open>The whole run when no timer stops it.\<close>

definition execute_download_task :: "(nat \<Rightarrow> nat option) \<Rightarrow> string list \<Rightarrow> dl_run option" where
  "execute_download_task fails reads = map_option (download_end fails) (run_opt (download_read fails) reads dl_start)"

section \<open>The download server: its task\<close>

record download_info_t = transfer_info +
  di_callback :: bool

datatype dl_event = DlConnect string string | DlSend string
  | DlReport download_upload_finish_reason_t "32 word" string "32 word"

record download_server =
  ds_running :: bool
  ds_requests :: "download_info_t list"
  ds_finish :: "download_finish_info_t list"
  ds_files :: "string \<rightharpoonup> string"
  ds_trace :: "dl_event list"

text \<open>
  \<open>de_stop\<close>: the timer runs out behind so many reads; \<open>de_late\<close>: what the other sender still puts into the queue before
  the task stops it.
\<close>

record download_env =
  de_wifi :: bool
  de_fopen :: bool
  de_dns :: "ainfo list option"
  de_send :: "int \<Rightarrow> int \<Rightarrow> int"
  de_task :: bool
  de_reads :: "string list"
  de_fails :: "nat \<Rightarrow> nat option"
  de_stop :: "nat option"
  de_late :: "download_finish_info_t option"

definition ds_emit :: "dl_event list \<Rightarrow> download_server \<Rightarrow> download_server" where
  "ds_emit es s = s\<lparr>ds_trace := ds_trace s @ es\<rparr>"

definition send_download_finish_Q :: "download_finish_info_t \<Rightarrow> download_server \<Rightarrow> download_server option" where
  "send_download_finish_Q i s = (if ds_finish s = [] then Some (s\<lparr>ds_finish := [i]\<rparr>) else None)"

text \<open>What the timer sends.\<close>

definition sock_timer_cb_func :: download_finish_info_t where
  "sock_timer_cb_func = \<lparr>df_error_reason = HTTP_TIMEOUT, df_real_filesize = 0, df_http_include_filesize = 0\<rparr>"

text \<open>\<open>None\<close>: the queue is full and the client waits.\<close>

definition send_download_req_Q :: "download_info_t \<Rightarrow> download_server \<Rightarrow> (int \<times> download_server) option" where
  "send_download_req_Q q s =
     (if \<not> ds_running s then Some (-1, s)
      else if length (ds_requests s) < DOWNLOAD_REQUEST_QUEUE_SIZE then Some (0, s\<lparr>ds_requests := ds_requests s @ [q]\<rparr>) else None)"

definition report_download :: "download_info_t \<Rightarrow> string \<Rightarrow> download_finish_info_t \<Rightarrow> download_server \<Rightarrow> download_server" where
  "report_download q name i s =
     (if di_callback q then ds_emit [DlReport (df_error_reason i) (df_http_include_filesize i) name (df_real_filesize i)] s else s)"

definition failed_info :: "download_upload_finish_reason_t \<Rightarrow> download_finish_info_t" where
  "failed_info r = \<lparr>df_error_reason = r, df_real_filesize = 0, df_http_include_filesize = 0\<rparr>"

text \<open>The file as it is when the result is taken, the result, and what is left in the queue.\<close>

definition await_finish :: "download_env \<Rightarrow> download_finish_info_t list
    \<Rightarrow> (string \<times> download_finish_info_t \<times> download_finish_info_t list) option" where
  "await_finish e queue =
     (let late = (case de_late e of None \<Rightarrow> [] | Some i \<Rightarrow> [i])
      in case queue of
           i # _ \<Rightarrow> Some ([], i, late)
         | [] \<Rightarrow> do {
             x \<leftarrow> (case de_stop e of
                     None \<Rightarrow> execute_download_task (de_fails e) (de_reads e)
                   | Some k \<Rightarrow> run_opt (download_read (de_fails e)) (take k (de_reads e)) dl_start);
             Some (dr_file x, (case dr_phase x of Finished i \<Rightarrow> i | _ \<Rightarrow> sock_timer_cb_func), late) })"

text \<open>From the request on the file is open and the server connected.\<close>

definition transfer_file :: "download_env \<Rightarrow> string \<Rightarrow> download_server \<Rightarrow> (download_finish_info_t \<times> download_server) option" where
  "transfer_file e name s =
     (if \<not> de_task e then Some (failed_info DOWNLOAD_TASK_CREATE_ERR, s)
      else map_option (\<lambda>(file, i, rest). (i, s\<lparr>ds_finish := rest, ds_files := (ds_files s)(name \<mapsto> file)\<rparr>)) (await_finish e (ds_finish s)))"

definition serve_download :: "download_env \<Rightarrow> download_info_t \<Rightarrow> download_server \<Rightarrow> (download_finish_info_t \<times> download_server) option" where
  "serve_download e q s =
     (if \<not> de_wifi e then Some (failed_info WIFI_DISSCONNECT, s)
      else do {
        (reason, domain, port, _) \<leftarrow> sock_get_server_info_plus (ti_path q) (replicate 48 NUL) (replicate 6 NUL) None;
        (if reason \<noteq> LOAD_SUCC then Some (failed_info reason, s)
         else do {
           host \<leftarrow> buf_str domain;
           own_port \<leftarrow> buf_str port;
           name \<leftarrow> c_str TRANSFER_FILE_SIZE (ti_file_path_name q);
           (if \<not> de_fopen e then Some (failed_info OPEN_FILE_FAILED, s)
            else do {
              let used = (if ti_port_number q = [] then own_port else ti_port_number q);
              let (sock, reason1, closed) = sock_connect_plus (de_dns e) LOAD_SUCC;
              let s1 = ds_emit [DlConnect host used] (s\<lparr>ds_files := (ds_files s)(name \<mapsto> [])\<rparr>);
              (if reason1 \<noteq> LOAD_SUCC then Some (failed_info reason1, s1)
               else do {
                 (reason2, text) \<leftarrow> http_send_req (de_send e) (ti_path q) host TOTAL_BUFFER_SIZE;
                 (if reason2 \<noteq> LOAD_SUCC then Some (failed_info reason2, s1)
                  else transfer_file e name (ds_emit [DlSend text] s1)) }) }) }) })"

definition mng_download_task :: "download_env \<Rightarrow> download_server \<Rightarrow> download_server option" where
  "mng_download_task e s =
     (case queue_receive (ds_requests s) of
        None \<Rightarrow> Some s
      | Some (q, qs) \<Rightarrow> do {
          (i, s1) \<leftarrow> serve_download e q (s\<lparr>ds_requests := qs\<rparr>);
          Some (report_download q (ti_file_path_name q) i s1) })"

text \<open>The timer, the two queues and the buffer, in the order in which they are made; the task runs if all are there.\<close>

definition download_zero :: download_server where
  "download_zero = \<lparr>ds_running = False, ds_requests = [], ds_finish = [], ds_files = Map.empty, ds_trace = []\<rparr>"

definition download_task_init :: "bool \<Rightarrow> bool \<Rightarrow> bool \<Rightarrow> bool \<Rightarrow> int" where
  "download_task_init timer requests buffer finish = (if timer \<and> requests \<and> buffer \<and> finish then 0 else -1)"

definition download_task_uninit :: "download_server \<Rightarrow> download_server" where
  "download_task_uninit s = s\<lparr>ds_running := True, ds_requests := [], ds_finish := []\<rparr>"

definition download_server_init :: "bool \<Rightarrow> bool \<Rightarrow> bool \<Rightarrow> bool \<Rightarrow> bool \<Rightarrow> download_server" where
  "download_server_init timer requests buffer finish task =
     (if download_task_init timer requests buffer finish = -1 then download_zero
      else if task then download_zero\<lparr>ds_running := True\<rparr>
      else download_task_uninit (download_zero\<lparr>ds_running := False\<rparr>))"

section \<open>The upload server\<close>

abbreviation BUFFER_SIZE :: nat where "BUFFER_SIZE \<equiv> 512"
abbreviation HTTP_BUFFER_SIZE :: nat where "HTTP_BUFFER_SIZE \<equiv> 1024"
abbreviation UPLOAD_REQUEST_QUEUE_SIZE :: nat where "UPLOAD_REQUEST_QUEUE_SIZE \<equiv> 5"

definition BODY_END :: string where
  "BODY_END = crlf @ ''--jqk123--'' @ crlf"

definition BODY_HEAD :: string where
  "BODY_HEAD = ''--jqk123'' @ crlf @ ''Content-Disposition: form-data; name='' @ [CHR 0x22] @ ''media'' @ [CHR 0x22] @ '';filename='' @
     [CHR 0x22] @ ''haha.amr'' @ [CHR 0x22] @ crlf @ ''Content-Type:application/octet-stream'' @ crlf @ crlf"

record upload_info_t = transfer_info +
  ui_socket_upload :: int
  ui_callback :: bool

text \<open>\<open>uw_write k n\<close>: what the socket takes of the \<open>n\<close> bytes of write \<open>k\<close>, negative on an error.\<close>

record wire =
  wi_bytes :: string
  wi_writes :: nat

definition wire_write :: "(nat \<Rightarrow> nat \<Rightarrow> int) \<Rightarrow> string \<Rightarrow> wire \<Rightarrow> bool \<times> wire" where
  "wire_write wr data w =
     (let r = wr (wi_writes w) (length data)
      in (0 \<le> r, w\<lparr>wi_bytes := wi_bytes w @ take (nat r) data, wi_writes := wi_writes w + 1\<rparr>))"

definition post_request_text :: "string \<Rightarrow> string \<Rightarrow> nat \<Rightarrow> string" where
  "post_request_text url domain total_size =
     ''POST '' @ url @ '' HTTP/1.1'' @ crlf @ ''Host:'' @ domain @ crlf @ ''Connection: Keep-Alive'' @ crlf @
     ''Accept: */*'' @ crlf @ ''Pragma: no-cache'' @ crlf @ ''Content-type: multipart/form-data;boundary=jqk123'' @ crlf @
     ''Content-length:'' @ dec_nat total_size @ '' '' @ crlf @ crlf @ BODY_HEAD"

text \<open>The text that is sent, the number that is returned (a reason, 7, when the write fails) and the wire.\<close>

definition assmble_http_post_req :: "(nat \<Rightarrow> nat \<Rightarrow> int) \<Rightarrow> string \<Rightarrow> string \<Rightarrow> string \<Rightarrow> wire \<Rightarrow> int \<times> string \<times> wire" where
  "assmble_http_post_req wr url domain file w =
     (let total_size = length file + length BODY_HEAD + length BODY_END;
          text = take (HTTP_BUFFER_SIZE - 1) (post_request_text url domain total_size);
          (ok, w1) = wire_write wr text w
      in (if ok then int (total_size + length text) else 7, text, w1))"

text \<open>The file is sent in pieces of 512 bytes.\<close>

function upload_loop :: "(nat \<Rightarrow> nat \<Rightarrow> int) \<Rightarrow> string \<Rightarrow> wire \<Rightarrow> bool \<times> wire" where
  "upload_loop wr file w =
     (if file = [] then (True, w)
      else (let (ok, w1) = wire_write wr (take BUFFER_SIZE file) w
            in if ok then upload_loop wr (drop BUFFER_SIZE file) w1 else (False, w1)))"
  by pat_completeness auto
termination by (relation "measure (\<lambda>(wr, file, w). length file)") auto

declare upload_loop.simps [simp del]

definition upload_file :: "(nat \<Rightarrow> nat \<Rightarrow> int) \<Rightarrow> string \<Rightarrow> wire \<Rightarrow> download_upload_finish_reason_t \<times> wire" where
  "upload_file wr file w =
     (let (ok, w1) = upload_loop wr file w
      in if \<not> ok then (HTTP_REQ_FAILED, w1)
         else let (ok2, w2) = wire_write wr BODY_END w1 in (if ok2 then LOAD_SUCC else HTTP_REQ_FAILED, w2))"

datatype up_event = UpConnect string string | UpReport download_upload_finish_reason_t string

text \<open>The array of the server's name is cleared only once; \<open>us_wires\<close> holds the bytes sent for each request.\<close>

record upload_server =
  us_running :: bool
  us_requests :: "upload_info_t list"
  us_domain :: string
  us_wires :: "string list"
  us_trace :: "up_event list"

record upload_env =
  ue_wifi :: bool
  ue_files :: "string \<rightharpoonup> string"
  ue_dns :: "ainfo list option"
  ue_write :: "nat \<Rightarrow> nat \<Rightarrow> int"
  ue_response :: string

definition send_upload_req_Q :: "upload_info_t \<Rightarrow> upload_server \<Rightarrow> (int \<times> upload_server) option" where
  "send_upload_req_Q q s =
     (if \<not> us_running s then Some (-1, s)
      else if length (us_requests s) < UPLOAD_REQUEST_QUEUE_SIZE then Some (0, s\<lparr>us_requests := us_requests s @ [q]\<rparr>) else None)"

text \<open>From the connection on no failure reaches the reason; \<open>http_request\<close> is the text of the request or of the answer.\<close>

definition send_file :: "upload_env \<Rightarrow> upload_info_t \<Rightarrow> string \<Rightarrow> string \<Rightarrow> upload_server
    \<Rightarrow> download_upload_finish_reason_t \<times> string \<times> upload_server" where
  "send_file e q host file s =
     (let (filesize, text, w) = assmble_http_post_req (ue_write e) (ti_path q) host file \<lparr>wi_bytes = [], wi_writes = 0\<rparr>
      in if filesize = -1 then (FILE_SIZE_ERROR, text, s\<lparr>us_wires := us_wires s @ [wi_bytes w]\<rparr>)
         else let (r, w1) = upload_file (ue_write e) file w
              in (LOAD_SUCC, if r = LOAD_SUCC then take HTTP_BUFFER_SIZE (ue_response e) else text,
                  s\<lparr>us_wires := us_wires s @ [wi_bytes w1]\<rparr>))"

definition serve_upload :: "upload_env \<Rightarrow> upload_info_t \<Rightarrow> upload_server
    \<Rightarrow> (download_upload_finish_reason_t \<times> string \<times> upload_server) option" where
  "serve_upload e q s =
     (if \<not> ue_wifi e then Some (WIFI_DISSCONNECT, [], s)
      else do {
        (reason, domain, port, _) \<leftarrow> sock_get_server_info_plus (ti_path q) (us_domain s) (replicate 6 NUL) None;
        let s1 = s\<lparr>us_domain := domain\<rparr>;
        (if reason \<noteq> LOAD_SUCC then Some (reason, [], s1)
         else do {
           host \<leftarrow> buf_str domain;
           name \<leftarrow> c_str TRANSFER_FILE_SIZE (ti_file_path_name q);
           (case ue_files e name of
              None \<Rightarrow> Some (OPEN_FILE_FAILED, [], s1)
            | Some file \<Rightarrow>
                (if 0 < ui_socket_upload q then Some (send_file e q host file s1)
                 else (let (sock, reason1, closed) = sock_connect_plus (ue_dns e) LOAD_SUCC;
                           s2 = s1\<lparr>us_trace := us_trace s1 @ [UpConnect host (ti_port_number q)]\<rparr>
                       in if reason1 \<noteq> LOAD_SUCC then Some (reason1, [], s2) else Some (send_file e q host file s2)))) }) })"

definition report_upload :: "upload_info_t \<Rightarrow> download_upload_finish_reason_t \<Rightarrow> string \<Rightarrow> upload_server \<Rightarrow> upload_server" where
  "report_upload q reason text s = (if ui_callback q then s\<lparr>us_trace := us_trace s @ [UpReport reason text]\<rparr> else s)"

definition execute_upload_task :: "upload_env \<Rightarrow> upload_server \<Rightarrow> upload_server option" where
  "execute_upload_task e s =
     (case queue_receive (us_requests s) of
        None \<Rightarrow> Some s
      | Some (q, qs) \<Rightarrow> do {
          (reason, text, s1) \<leftarrow> serve_upload e q (s\<lparr>us_requests := qs\<rparr>);
          Some (report_upload q reason text s1) })"

definition upload_zero :: upload_server where
  "upload_zero = \<lparr>us_running = False, us_requests = [], us_domain = replicate 32 NUL, us_wires = [], us_trace = []\<rparr>"

definition upload_task_init :: "bool \<Rightarrow> bool \<Rightarrow> bool \<Rightarrow> int" where
  "upload_task_init requests request_buffer transfer_buffer = (if requests \<and> request_buffer \<and> transfer_buffer then 0 else -1)"

definition upload_task_uninit :: "upload_server \<Rightarrow> upload_server" where
  "upload_task_uninit s = s\<lparr>us_running := False, us_requests := []\<rparr>"

definition upload_server_init :: "bool \<Rightarrow> bool \<Rightarrow> bool \<Rightarrow> bool \<Rightarrow> upload_server" where
  "upload_server_init requests request_buffer transfer_buffer task =
     (if upload_task_init requests request_buffer transfer_buffer = -1 then upload_zero
      else if task then upload_zero\<lparr>us_running := True\<rparr>
      else upload_task_uninit (upload_zero\<lparr>us_running := False\<rparr>))"

end
