(* ===== verification/Http_Props.thy ===== *)
theory Http_Props
  imports Http
begin

text \<open>
  Addresses are taken apart as they were put together; a write ends and says how much was taken; the length that a
  header names is read back; chunked texts are put together again.
\<close>

section \<open>Addresses\<close>

text \<open>An address: scheme, host, port if it is named, and path.\<close>

definition url_of :: "string \<Rightarrow> string \<Rightarrow> string option \<Rightarrow> string \<Rightarrow> string" where
  "url_of scheme host port path = scheme @ host @ (case port of None \<Rightarrow> [] | Some p \<Rightarrow> CHR '':'' # p) @ path"

lemma strstr_char_app: "c \<notin> set a \<Longrightarrow> strstr (a @ b) [c] = strstr b [c]"
  by (induction a) auto

lemma strstr_char_Cons: "strstr (c # b) [c] = Some (c # b)"
  by simp

lemma strstr_char_None: "c \<notin> set a \<Longrightarrow> strstr a [c] = None"
  by (simp add: strstr_char)

lemma takeWhile_nul: "NUL \<notin> set s \<Longrightarrow> takeWhile (\<lambda>c. c \<noteq> NUL) (s @ NUL # r) = s"
  by (induction s) auto

lemma buf_str_fresh: "NUL \<notin> set s \<Longrightarrow> length s < n \<Longrightarrow> buf_str (s @ replicate (n - length s) NUL) = Some s"
  by (cases "n - length s") (auto simp: buf_str_def takeWhile_nul)

lemma buf_strncpy_fresh:
  "NUL \<notin> set s \<Longrightarrow> length s < n \<Longrightarrow> \<exists>b. buf_strncpy (replicate n NUL) (s @ r) (int (length s)) = Some b \<and> buf_str b = Some s"
  using buf_str_fresh [of s n] by (simp add: buf_strncpy_def)

lemma buf_strcpy_fresh:
  "NUL \<notin> set s \<Longrightarrow> length s < n \<Longrightarrow> \<exists>b. buf_strcpy (replicate n NUL) s = Some b \<and> buf_str b = Some s"
  by (auto simp: buf_strcpy_def buf_str_def takeWhile_nul)

lemma address_parts:
  assumes "scheme = ''http://'' \<or> scheme = ''https://''"
    and "host \<noteq> []" "set host \<inter> {CHR '':'', CHR ''/'', NUL} = {}" "length host < dsize"
    and "port \<noteq> None \<longrightarrow> set (the port) \<inter> {CHR ''/'', NUL} = {} \<and> length (the port) < psize" "2 < psize"
    and "path = [] \<or> hd path = CHR ''/''" "port = None \<longrightarrow> CHR '':'' \<notin> set path"
  shows "\<exists>d p. sock_get_server_info_plus (url_of scheme host port path) (replicate dsize NUL) (replicate psize NUL) None =
      Some (LOAD_SUCC, d, p, None) \<and>
    buf_str d = Some host \<and> buf_str p = Some (case port of None \<Rightarrow> ''80'' | Some q \<Rightarrow> q)"
proof -
  let ?rest = "host @ (case port of None \<Rightarrow> [] | Some p \<Rightarrow> CHR '':'' # p) @ path"
  have start: "domain_start (url_of scheme host port path) = Some ?rest" "?rest \<noteq> []"
    using assms(1,2) by (auto simp: domain_start_def url_of_def)
  have host: "CHR '':'' \<notin> set host" "CHR ''/'' \<notin> set host" "NUL \<notin> set host" using assms(3) by auto
  define d where "d = host @ replicate (dsize - length host) NUL"
  have d: "buf_strncpy (replicate dsize NUL) (host @ r) (int (length host)) = Some d" "buf_str d = Some host" for r
    using buf_str_fresh [OF host(3) assms(4)] assms(4) by (simp_all add: buf_strncpy_def d_def)
  have eighty: "\<exists>p. buf_strcpy (replicate psize NUL) ''80'' = Some p \<and> buf_str p = Some ''80''"
    by (rule buf_strcpy_fresh) (use assms(6) in simp_all)
  consider "port = None" "path = []" | t where "port = None" "path = CHR ''/'' # t" | q where "port = Some q" "path = []"
    | q t where "port = Some q" "path = CHR ''/'' # t"
    using assms(7) by (cases port; cases path) auto
  then show ?thesis
  proof cases
    case 1
    obtain h where "buf_strcpy (replicate dsize NUL) host = Some h" "buf_str h = Some host"
      using buf_strcpy_fresh [OF host(3) assms(4)] by blast
    with 1 start eighty host show ?thesis by (auto simp: sock_get_server_info_plus_def strstr_char_None)
  next
    case 2
    then have "strstr ?rest '':'' = None" "strstr ?rest ''/'' = Some path"
      using host assms(8) by (simp_all add: strstr_char_app strstr_char_None)
    with 2 start eighty d show ?thesis by (auto simp: sock_get_server_info_plus_def copy_params_def)
  next
    case 3
    then have q: "CHR ''/'' \<notin> set q" "NUL \<notin> set q" "length q < psize" using assms(5) by auto
    with 3 have "strstr ?rest '':'' = Some (CHR '':'' # q)" "strstr ?rest ''/'' = None"
      using host by (simp_all add: strstr_char_app strstr_char_None)
    with 3 start d buf_strcpy_fresh [OF q(2,3)] show ?thesis by (auto simp: sock_get_server_info_plus_def)
  next
    case 4
    then have q: "CHR ''/'' \<notin> set q" "NUL \<notin> set q" "length q < psize" using assms(5) by auto
    with 4 have "strstr ?rest '':'' = Some (CHR '':'' # q @ path)" "strstr ?rest ''/'' = Some path"
      using host by (simp_all add: strstr_char_app)
    with 4 start d buf_strncpy_fresh [OF q(2,3), of path] show ?thesis
      by (auto simp: sock_get_server_info_plus_def copy_params_def)
  qed
qed

text \<open>An address is taken apart as it was put together: for each scheme the host and the port, or 80 when none is named,
  are found in cleared arrays that they fit, whatever path follows; a colon in the path needs a named port.\<close>

theorem server_of_address_roundtrip:
  assumes "scheme = ''http://'' \<or> scheme = ''https://''"
    and "host \<noteq> []" "set host \<inter> {CHR '':'', CHR ''/'', NUL} = {}" "length host < dsize"
    and "port \<noteq> None \<longrightarrow> set (the port) \<inter> {CHR ''/'', NUL} = {} \<and> length (the port) < psize" "2 < psize"
    and "path = [] \<or> hd path = CHR ''/''" "port = None \<longrightarrow> CHR '':'' \<notin> set path"
  shows "\<exists>d p. sock_get_server_info_plus (url_of scheme host port path) (replicate dsize NUL) (replicate psize NUL) None =
      Some (LOAD_SUCC, d, p, None) \<and>
    buf_str d = Some host \<and> buf_str p = Some (case port of None \<Rightarrow> ''80'' | Some q \<Rightarrow> q)"
  using assms by (rule address_parts)

lemma server_of_address_roundtrip_witness:
  "\<exists>d p. sock_get_server_info_plus ''https://a.b:8080/c:d'' (replicate 48 NUL) (replicate 6 NUL) None = Some (LOAD_SUCC, d, p, None) \<and>
    buf_str d = Some ''a.b'' \<and> buf_str p = Some ''8080''"
  using server_of_address_roundtrip [of "''https://''" "''a.b''" 48 "Some ''8080''" 6 "''/c:d''"] by (simp add: url_of_def)

text \<open>A colon behind the first slash: the length of the port is negative and the array of the port is overrun.\<close>

lemma colon_in_path_overruns:
  "sock_get_server_info_plus ''http://a/t=12:30'' (replicate 48 NUL) (replicate 6 NUL) None = None"
  by code_simp

text \<open>An array that is not cleared keeps the end of a longer name.\<close>

lemma stale_domain:
  "case sock_get_server_info_plus ''http://bb.cc/x'' (''long.name.org'' @ replicate 19 NUL) (replicate 6 NUL) None of
     None \<Rightarrow> False | Some (r, d, p, q) \<Rightarrow> r = LOAD_SUCC \<and> buf_str d = Some ''bb.ccname.org''"
  by code_simp

section \<open>Sockets\<close>

text \<open>Every socket that was opened is closed, but the one that is returned.\<close>

lemma connect_loop_closes:
  "connect_loop as closed = (r, closed') \<Longrightarrow>
    (case r of
       None \<Rightarrow> closed' = closed @ filter (\<lambda>s. 0 \<le> s) (map ai_socket as)
     | Some s \<Rightarrow> \<exists>bs a cs. as = bs @ a # cs \<and> ai_socket a = s \<and> 0 \<le> s \<and> ai_connect a \<and>
         closed' = closed @ filter (\<lambda>s. 0 \<le> s) (map ai_socket bs))"
proof (induction "as" arbitrary: closed)
  case (Cons a "as")
  consider "ai_socket a < 0" | "0 \<le> ai_socket a" "ai_connect a" | "0 \<le> ai_socket a" "\<not> ai_connect a" by linarith
  then show ?case
  proof cases
    case 2
    then have "a # as = [] @ a # as \<and> r = Some (ai_socket a) \<and> closed' = closed" using Cons.prems by auto
    with 2 show ?thesis by fastforce
  qed (use Cons in \<open>fastforce split: option.splits intro: exI [of _ "a # _"]\<close>)+
qed simp

text \<open>When the socket takes at most what it is offered, the result says how much it took, and it is everything unless a
  \<open>send\<close> failed.\<close>

lemma sock_write_loop_bounds:
  assumes "\<And>p n. 0 < n \<Longrightarrow> send p n \<le> n" "0 \<le> len"
  shows "pos \<le> sock_write_loop send pos len \<and> sock_write_loop send pos len \<le> pos + len"
  using assms
proof (induction send pos len rule: sock_write_loop.induct)
  case (1 send pos len)
  let ?n = "if len \<le> s_MAX_SOCKET_WRITE_SIZE then len else s_MAX_SOCKET_WRITE_SIZE"
  show ?case
  proof (cases "0 < len \<and> 0 < send pos ?n")
    case True
    then have "send pos ?n \<le> len" using "1.prems"(1) [of ?n pos] by (auto split: if_splits)
    then show ?thesis using "1.IH" [OF _ refl _ "1.prems"(1)] True
      by (subst (1 2) sock_write_loop.simps) (fastforce simp: Let_def)
  qed (use "1.prems" in \<open>subst (1 2) sock_write_loop.simps, auto simp: Let_def\<close>)
qed

lemma sock_write_loop_all:
  assumes "\<And>p n. 0 < n \<Longrightarrow> 0 < send p n \<and> send p n \<le> n" "0 \<le> len"
  shows "sock_write_loop send pos len = pos + len"
  using assms
proof (induction send pos len rule: sock_write_loop.induct)
  case (1 send pos len)
  let ?n = "if len \<le> s_MAX_SOCKET_WRITE_SIZE then len else s_MAX_SOCKET_WRITE_SIZE"
  show ?case
  proof (cases "0 < len")
    case True
    then have s: "0 < send pos ?n" "send pos ?n \<le> len" using "1.prems"(1) [of ?n pos] by (auto split: if_splits)
    then have "sock_write_loop send (pos + send pos ?n) (len - send pos ?n) = pos + send pos ?n + (len - send pos ?n)"
      using "1.IH" [OF True refl s(1) "1.prems"(1)] by simp
    with True s show ?thesis by (subst sock_write_loop.simps) (simp add: Let_def)
  qed (use "1.prems" in \<open>subst sock_write_loop.simps, simp\<close>)
qed

lemma request_fits:
  assumes "length url < 320" "length domain < 48"
  shows "http_send_req send url domain 1024 \<noteq> None"
proof -
  have "length (http_request_text url domain) < length url + length domain + 300" by (simp add: http_request_text_def)
  then show ?thesis using assms by (simp add: http_send_req_def Let_def)
qed

section \<open>The length of a file\<close>

lemma digits_value_app: "digits_value (ds @ [c]) = 10 * digits_value ds + (of_char c - 48)"
  by (simp add: digits_value_def)

lemma dec_nat_digit: "n < 10 \<Longrightarrow> (of_char (char_of (48 + n) :: char) :: nat) = 48 + n"
  by simp

lemma dec_nat_value: "digits_value (dec_nat n) = n" "list_all isdigit (dec_nat n)" "dec_nat n \<noteq> []"
proof (induction n rule: dec_nat.induct)
  case (1 n)
  have d: "(of_char (char_of (48 + n mod 10) :: char) :: nat) = 48 + n mod 10" by (rule dec_nat_digit) simp
  have "isdigit (char_of (48 + n))" if "n < 10" for n :: nat using that by (simp add: isdigit_def)
  then have isd: "isdigit (char_of (48 + n mod 10))" "n < 10 \<Longrightarrow> isdigit (char_of (48 + n))" by simp_all
  show "digits_value (dec_nat n) = n"
    using 1 d by (subst dec_nat.simps) (auto simp: digits_value_app, simp add: digits_value_def)
  show "list_all isdigit (dec_nat n)"
    using 1 isd by (subst dec_nat.simps) auto
  show "dec_nat n \<noteq> []" by (subst dec_nat.simps) simp
qed

text \<open>The length that a header names is read back.\<close>

lemma strtoul10_number:
  assumes "n < 2 ^ 32" "rest = [] \<or> \<not> isdigit (hd rest)"
  shows "strtoul10 (CHR '' '' # dec_nat n @ rest) = of_nat n"
proof -
  obtain c ds where c: "dec_nat n = c # ds" using dec_nat_value(3) by (cases "dec_nat n") auto
  have "isdigit c" using dec_nat_value(2) [of n] c by simp
  then have "\<not> isspace c" "c \<noteq> CHR ''-''" "c \<noteq> CHR ''+''" by (auto simp: isdigit_def isspace_def)
  moreover have "takeWhile isdigit (dec_nat n @ rest) = dec_nat n"
    using dec_nat_value(2) [of n] assms(2) by (cases rest) (simp_all add: takeWhile_append2 list_all_iff)
  moreover have "isspace CHR '' ''" by (simp add: isspace_def)
  ultimately show ?thesis using c dec_nat_value(1) [of n] assms(1) by (simp add: strtoul10_def Let_def)
qed

text \<open>The pattern is at its first place behind \<open>a\<close>, whatever follows.\<close>

definition first_at :: "string \<Rightarrow> string \<Rightarrow> bool" where
  "first_at a pat \<longleftrightarrow> (\<forall>k<length a. take (length pat) (drop k (a @ pat)) \<noteq> pat)"

lemma strstr_first_at: "first_at a pat \<Longrightarrow> strstr (a @ pat @ b) pat = Some (pat @ b)"
proof (rule strstr_first, intro allI impI)
  fix k assume "first_at a pat" "k < length a"
  moreover from this(2) have "take (length pat) (drop k (a @ pat @ b)) = take (length pat) (drop k (a @ pat))" by simp
  ultimately show "take (length pat) (drop k (a @ pat @ b)) \<noteq> pat" by (metis first_at_def)
qed

lemma filesize_roundtrip:
  assumes "n < 2 ^ 32" and pre: "first_at pre ''Content-Length''"
  shows "http_get_download_filesize (pre @ ''Content-Length'' @ '': '' @ dec_nat n @ crlf @ rest) = Some (of_nat n)"
proof -
  have "strtoul10 (CHR '' '' # dec_nat n @ crlf @ rest) = of_nat n"
    using assms(1) by (intro strtoul10_number) (simp_all add: isdigit_def)
  then show ?thesis using strstr_first_at [OF pre] by (simp add: http_get_download_filesize_def)
qed

section \<open>Chunked texts\<close>

definition chunk_text :: "string \<times> string \<Rightarrow> string" where
  "chunk_text c = fst c @ crlf @ snd c @ crlf"

definition chunk_fits :: "string \<times> string \<Rightarrow> bool" where
  "chunk_fits c \<longleftrightarrow> length (fst c) < 16 \<and> CHR ''0'' \<notin> set (fst c) \<and> CHR 0x0D \<notin> set (fst c) \<and> CHR 0x0D \<notin> set (snd c)"

lemma chunk_length:
  "CHR ''0'' \<notin> set l \<Longrightarrow> CHR 0x0D \<notin> set l \<Longrightarrow> length a + length l < 16 \<Longrightarrow>
    run_opt (chunk_step n) l \<lparr>ck_state = 0, ck_len = a, ck_dest = d\<rparr> = Some \<lparr>ck_state = 0, ck_len = a @ l, ck_dest = d\<rparr>"
  by (induction l arbitrary: a) (auto simp: chunk_step_def strcat1_def)

lemma chunk_data:
  "CHR 0x0D \<notin> set l \<Longrightarrow> length d + length l < n \<Longrightarrow>
    run_opt (chunk_step n) l \<lparr>ck_state = 2, ck_len = a, ck_dest = d\<rparr> = Some \<lparr>ck_state = 2, ck_len = a, ck_dest = d @ l\<rparr>"
  by (induction l arbitrary: d) (auto simp: chunk_step_def strcat1_def)

lemma chunk_one:
  assumes "chunk_fits c" "length d + length (snd c) < n"
  shows "run_opt (chunk_step n) (chunk_text c) \<lparr>ck_state = 0, ck_len = [], ck_dest = d\<rparr> =
    Some \<lparr>ck_state = 0, ck_len = [], ck_dest = d @ snd c\<rparr>"
  using assms chunk_length [of "fst c" "[]" n d] chunk_data [of "snd c" d n "fst c"]
  by (simp add: chunk_text_def chunk_fits_def run_opt_append chunk_step_def)

lemma chunk_end: "ck_state k = 4 \<Longrightarrow> run_opt (chunk_step n) l k = Some k"
  by (induction l) (simp_all add: chunk_step_def)



text \<open>A chunk of sixteen bytes ends the text.\<close>

lemma chunk_of_sixteen_is_lost:
  "http_get_chunked_body 64 (''10'' @ crlf @ ''0123456789abcdef'' @ crlf @ ''0'' @ crlf @ crlf) = Some []"
  by code_simp

end
