(* ===== verification/TransferServer_Props.thy ===== *)
theory TransferServer_Props
  imports TransferServer Http_Props
begin

text \<open>
  What the transfer servers promise: a download that is reported as complete has stored the bytes of the body, a shorter
  one says so; an upload sends the file with the length that its request names.
\<close>

section \<open>Reading an answer\<close>

text \<open>A header with the length of its body; it ends at its first empty line.\<close>

definition good_header :: "string \<Rightarrow> nat \<Rightarrow> bool" where
  "good_header hdr n \<longleftrightarrow> NUL \<notin> set hdr \<and>
     (\<exists>pre rest. hdr = pre @ ''Content-Length'' @ '': '' @ dec_nat n @ crlf @ rest \<and> first_at pre ''Content-Length'') \<and>
     (\<exists>h. hdr = h @ crlf @ crlf \<and> first_at h (crlf @ crlf))"

lemma good_header_read:
  assumes "good_header hdr n" "n < 2 ^ 32"
  shows "http_get_download_filesize (hdr @ t) = Some (of_nat n)" "http_get_body (hdr @ t) = Some t"
proof -
  obtain pre rest h where p: "hdr = pre @ ''Content-Length'' @ '': '' @ dec_nat n @ crlf @ rest" "first_at pre ''Content-Length''"
    "hdr = h @ crlf @ crlf" "first_at h (crlf @ crlf)" using assms(1) unfolding good_header_def by blast
  from filesize_roundtrip [OF assms(2) p(2), of "rest @ t"] show "http_get_download_filesize (hdr @ t) = Some (of_nat n)"
    unfolding p(1) by simp
  from strstr_first_at [OF p(4), of t] show "http_get_body (hdr @ t) = Some t"
    unfolding p(3) by (simp add: http_get_body_def)
qed

abbreviation no_fails :: "nat \<Rightarrow> nat option" where "no_fails \<equiv> \<lambda>i. None"

lemma takeWhile_app_nul: "NUL \<notin> set a \<Longrightarrow> takeWhile (\<lambda>c. c \<noteq> NUL) (a @ b) = a @ takeWhile (\<lambda>c. c \<noteq> NUL) b"
  by (induction a) auto

text \<open>The first bytes that arrive hold the header and a part of the body.\<close>

lemma header_step:
  assumes "good_header hdr n" "0 < n" "n < 2 ^ 32" "b \<noteq> []" "length hdr + length b < DOWNLOAD_BUFFER_SIZE"
  shows "\<exists>w. download_read no_fails (hdr @ b) dl_start = Some \<lparr>dr_phase = Body (of_nat (length b)) (of_nat n), dr_file = b, dr_writes = w\<rparr>"
proof -
  let ?buf = "(hdr @ b) @ drop (length (hdr @ b)) (replicate DOWNLOAD_BUFFER_SIZE NUL)"
  define t where "t = takeWhile (\<lambda>c. c \<noteq> NUL) (b @ replicate (DOWNLOAD_BUFFER_SIZE - length (hdr @ b)) NUL)"
  have "NUL \<notin> set hdr" using assms(1) by (simp add: good_header_def)
  then have s: "buf_str ?buf = Some (hdr @ t)"
    using assms(5) by (simp add: buf_str_def t_def takeWhile_app_nul)
  have n: "(of_nat n :: 32 word) \<noteq> 0" using assms(2,3) by (simp add: word_of_nat_eq_0_iff nat_dvd_not_less)
  show ?thesis
    using good_header_read [OF assms(1,3), of t] s n assms(4)
    by (simp add: download_read_def dl_start_def header_read_def first_write_def file_write_def)
qed

lemma of_nat_less_32: "m < 2 ^ 32 \<Longrightarrow> n < 2 ^ 32 \<Longrightarrow> ((of_nat m :: 32 word) < of_nat n) = (m < n)"
  by (simp add: word_less_nat_alt unat_of_nat)

lemma of_nat_eq_32: "m < 2 ^ 32 \<Longrightarrow> n < 2 ^ 32 \<Longrightarrow> ((of_nat m :: 32 word) = of_nat n) = (m = n)"
  by (metis of_nat_less_32 linorder_neqE_nat less_irrefl)

lemma body_steps:
  assumes "n < 2 ^ 32" "\<forall>d\<in>set ds. d \<noteq> []" "length f + length (concat ds) \<le> n" "ds \<noteq> [] \<longrightarrow> length f < n"
  shows "\<exists>x w. run_opt (download_read no_fails) ds \<lparr>dr_phase = Body (of_nat (length f)) (of_nat n), dr_file = f, dr_writes = v\<rparr> = Some x \<and>
    download_end no_fails x = \<lparr>dr_phase = Finished \<lparr>df_error_reason = (if length f + length (concat ds) = n then LOAD_SUCC else LOAD_HALF),
      df_real_filesize = of_nat (length f + length (concat ds)), df_http_include_filesize = of_nat n\<rparr>, dr_file = f @ concat ds, dr_writes = w\<rparr>"
  using assms
proof (induction ds arbitrary: f v)
  case Nil
  then have "length f < 2 ^ 32" by simp
  with Nil show ?case by (simp add: download_end_def body_done_def finish_with_def of_nat_less_32)
next
  case (Cons d ds)
  have d: "d \<noteq> []" "length f + length d \<le> n" "length f < n" using Cons.prems by simp_all
  then have lt: "length f + length d < 2 ^ 32" using Cons.prems(1) by simp
  have sum: "(of_nat (length f) + of_nat (length d) :: 32 word) = of_nat (length f + length d)" by simp
  show ?case
  proof (cases "length f + length d = n")
    case True
    then have "length (concat ds) = 0" using Cons.prems(3) by (simp only: concat.simps length_append)
    then have ds: "ds = []" using Cons.prems(2) by (cases ds) auto
    have "(of_nat (length f) + of_nat (length d) :: 32 word) = of_nat n" using True sum by simp
    then show ?thesis using d True ds
      by (simp add: download_read_def body_read_def file_write_def body_done_def finish_with_def download_end_def Let_def)
  next
    case False
    then have "(of_nat (length f + length d) :: 32 word) \<noteq> of_nat n" "\<not> (of_nat n :: 32 word) < of_nat (length f + length d)"
      using d lt Cons.prems(1) of_nat_less_32 [OF Cons.prems(1) lt] of_nat_eq_32 [OF lt Cons.prems(1)] by simp_all
    then have step: "download_read no_fails d \<lparr>dr_phase = Body (of_nat (length f)) (of_nat n), dr_file = f, dr_writes = v\<rparr> =
        Some \<lparr>dr_phase = Body (of_nat (length (f @ d))) (of_nat n), dr_file = f @ d, dr_writes = v + 1\<rparr>"
      using d by (simp add: download_read_def body_read_def file_write_def)
    have "length (f @ d) + length (concat ds) \<le> n" "ds \<noteq> [] \<longrightarrow> length (f @ d) < n" "\<forall>d\<in>set ds. d \<noteq> []"
      using Cons.prems False d by auto
    note IH = Cons.IH [OF Cons.prems(1) this(3,1,2), of "v + 1"]
    have eq: "length (f @ d) + length (concat ds) = length f + length (concat (d # ds))" "(f @ d) @ concat ds = f @ concat (d # ds)"
      by simp_all
    show ?thesis using IH unfolding eq run_opt.simps step Option.bind.simps .
  qed
qed

lemma download_run:
  assumes "good_header hdr n" "n < 2 ^ 32" "b \<noteq> []" "length hdr + length b < DOWNLOAD_BUFFER_SIZE"
    "\<forall>d\<in>set ds. d \<noteq> []" "length b + length (concat ds) \<le> n"
  shows "\<exists>w. execute_download_task no_fails ((hdr @ b) # ds) =
    Some \<lparr>dr_phase = Finished \<lparr>df_error_reason = (if length b + length (concat ds) = n then LOAD_SUCC else LOAD_HALF),
      df_real_filesize = of_nat (length b + length (concat ds)), df_http_include_filesize = of_nat n\<rparr>, dr_file = b @ concat ds, dr_writes = w\<rparr>"
proof -
  have n: "0 < n" using assms(3,6) by (cases b) auto
  obtain v where v: "download_read no_fails (hdr @ b) dl_start = Some \<lparr>dr_phase = Body (of_nat (length b)) (of_nat n), dr_file = b, dr_writes = v\<rparr>"
    using header_step [OF assms(1) n assms(2,3,4)] by blast
  have "ds \<noteq> [] \<longrightarrow> length b < n"
  proof
    assume "ds \<noteq> []"
    then have "0 < length (concat ds)" using assms(5) by (cases ds) auto
    with assms(6) show "length b < n" by linarith
  qed
  from body_steps [OF assms(2,5,6) this, of v] v show ?thesis by (auto simp: execute_download_task_def)
qed

section \<open>A download from the request to the report\<close>

definition sends_all :: "(int \<Rightarrow> int \<Rightarrow> int) \<Rightarrow> bool" where
  "sends_all send \<longleftrightarrow> (\<forall>p n. 0 < n \<longrightarrow> 0 < send p n \<and> send p n \<le> n)"

lemma send_req_ok:
  assumes "sends_all send" "length url < TRANSFER_PATH_SIZE" "length host < 48"
  shows "http_send_req send url host TOTAL_BUFFER_SIZE = Some (LOAD_SUCC, http_request_text url host)"
proof -
  have "length (http_request_text url host) < length url + length host + 300" by (simp add: http_request_text_def)
  moreover have "sock_write_plus send t = int (length t)" for t
    using sock_write_loop_all [of send "int (length t)" 0] assms(1) by (simp add: sock_write_plus_def sends_all_def)
  ultimately show ?thesis using assms(2,3) by (simp add: http_send_req_def Let_def)
qed

text \<open>Everything the round needs works: the net, the card and the second task.\<close>

definition all_well :: "download_env \<Rightarrow> bool" where
  "all_well e \<longleftrightarrow> de_wifi e \<and> de_fopen e \<and> fst (snd (sock_connect_plus (de_dns e) LOAD_SUCC)) = LOAD_SUCC \<and>
     sends_all (de_send e) \<and> de_task e \<and> de_fails e = no_fails \<and> de_stop e = None \<and> de_late e = None"

record address =
  ad_scheme :: string
  ad_host :: string
  ad_port :: "string option"
  ad_path :: string

definition address_ok :: "address \<Rightarrow> bool" where
  "address_ok a \<longleftrightarrow> ad_scheme a \<in> {''http://'', ''https://''} \<and> ad_host a \<noteq> [] \<and> set (ad_host a) \<inter> {CHR '':'', CHR ''/'', NUL} = {} \<and>
     length (ad_host a) < 48 \<and>
     (ad_port a \<noteq> None \<longrightarrow> set (the (ad_port a)) \<inter> {CHR ''/'', NUL} = {} \<and> length (the (ad_port a)) < 6) \<and>
     (ad_path a = [] \<or> hd (ad_path a) = CHR ''/'') \<and> (ad_port a = None \<longrightarrow> CHR '':'' \<notin> set (ad_path a))"

definition address_text :: "address \<Rightarrow> string" where
  "address_text a = url_of (ad_scheme a) (ad_host a) (ad_port a) (ad_path a)"

definition port_of :: "address \<Rightarrow> string" where
  "port_of a = (case ad_port a of None \<Rightarrow> ''80'' | Some q \<Rightarrow> q)"

lemma address_text_parts:
  "address_ok a \<Longrightarrow> \<exists>d p. sock_get_server_info_plus (address_text a) (replicate 48 NUL) (replicate 6 NUL) None = Some (LOAD_SUCC, d, p, None) \<and>
    buf_str d = Some (ad_host a) \<and> buf_str p = Some (port_of a)"
  unfolding address_text_def port_of_def by (rule address_parts) (auto simp: address_ok_def)

lemma body_stored:
  assumes "all_well e" "ds_requests s = q # qs" "ds_finish s = []" "di_callback q"
    and "address_ok a" "ti_path q = address_text a" "length (ti_path q) < TRANSFER_PATH_SIZE" "ti_port_number q = []"
    and "length (ti_file_path_name q) < TRANSFER_FILE_SIZE"
    and "de_reads e = (hdr @ b) # ds" "good_header hdr n" "n < 2 ^ 32" "b \<noteq> []" "length hdr + length b < DOWNLOAD_BUFFER_SIZE"
    and "\<forall>d\<in>set ds. d \<noteq> []" "body = b @ concat ds" "length body \<le> n"
  shows "mng_download_task e s = Some (s\<lparr>ds_requests := qs, ds_files := (ds_files s)(ti_file_path_name q \<mapsto> body),
    ds_trace := ds_trace s @ [DlConnect (ad_host a) (port_of a), DlSend (http_request_text (ti_path q) (ad_host a)),
      DlReport (if length body = n then LOAD_SUCC else LOAD_HALF) (of_nat n) (ti_file_path_name q) (of_nat (length body))]\<rparr>)"
proof -
  obtain d p where dp: "sock_get_server_info_plus (ti_path q) (replicate 48 NUL) (replicate 6 NUL) None = Some (LOAD_SUCC, d, p, None)"
    "buf_str d = Some (ad_host a)" "buf_str p = Some (port_of a)" using address_text_parts [OF assms(5)] assms(6) by auto
  have send: "http_send_req (de_send e) (ti_path q) (ad_host a) TOTAL_BUFFER_SIZE = Some (LOAD_SUCC, http_request_text (ti_path q) (ad_host a))"
    using assms(1,5,7) by (intro send_req_ok) (simp_all add: all_well_def address_ok_def)
  obtain w where "execute_download_task no_fails (de_reads e) =
    Some \<lparr>dr_phase = Finished \<lparr>df_error_reason = (if length body = n then LOAD_SUCC else LOAD_HALF),
      df_real_filesize = of_nat (length body), df_http_include_filesize = of_nat n\<rparr>, dr_file = body, dr_writes = w\<rparr>"
    using download_run [OF assms(11,12,13,14,15)] assms(10,16,17) by auto
  then have run: "await_finish e [] = Some (body, \<lparr>df_error_reason = (if length body = n then LOAD_SUCC else LOAD_HALF),
      df_real_filesize = of_nat (length body), df_http_include_filesize = of_nat n\<rparr>, [])"
    using assms(1) by (simp add: await_finish_def all_well_def)
  obtain sock closed where sock: "sock_connect_plus (de_dns e) LOAD_SUCC = (sock, LOAD_SUCC, closed)"
    using assms(1) by (cases "sock_connect_plus (de_dns e) LOAD_SUCC") (auto simp: all_well_def)
  show ?thesis using assms(1-4,8,9) dp send run sock
    by (simp add: mng_download_task_def serve_download_def transfer_file_def all_well_def c_str_def Let_def ds_emit_def report_download_def)
qed

text \<open>C22: A download stores the bytes of the body: when the net and the card work and the first bytes hold the header and a part
  of the body, the server connects to the host and port of the address, asks for it, writes exactly the body's bytes
  to the file, however they are cut into pieces, and reports \<open>LOAD_SUCC\<close> when they are as many as the header says
  and \<open>LOAD_HALF\<close> when the connection ends before.\<close>

theorem download_stores_the_body:
  assumes "all_well e" "ds_requests s = q # qs" "ds_finish s = []" "di_callback q"
    and "address_ok a" "ti_path q = address_text a" "length (ti_path q) < TRANSFER_PATH_SIZE" "ti_port_number q = []"
    and "length (ti_file_path_name q) < TRANSFER_FILE_SIZE"
    and "de_reads e = (hdr @ b) # ds" "good_header hdr n" "n < 2 ^ 32" "b \<noteq> []" "length hdr + length b < DOWNLOAD_BUFFER_SIZE"
    and "\<forall>d\<in>set ds. d \<noteq> []" "body = b @ concat ds" "length body \<le> n"
  shows "mng_download_task e s = Some (s\<lparr>ds_requests := qs, ds_files := (ds_files s)(ti_file_path_name q \<mapsto> body),
    ds_trace := ds_trace s @ [DlConnect (ad_host a) (port_of a), DlSend (http_request_text (ti_path q) (ad_host a)),
      DlReport (if length body = n then LOAD_SUCC else LOAD_HALF) (of_nat n) (ti_file_path_name q) (of_nat (length body))]\<rparr>)"
  using assms by (rule body_stored)

text \<open>A song of five bytes that arrives in two pieces.\<close>

definition song_header :: string where
  "song_header = ''HTTP/1.1 200 OK'' @ crlf @ ''Content-Length'' @ '': '' @ ''5'' @ crlf @ crlf"

lemma five: "dec_nat 5 = ''5''"
  by code_simp

definition song_env :: download_env where
  "song_env = \<lparr>de_wifi = True, de_fopen = True, de_dns = Some [\<lparr>ai_socket = 3, ai_connect = True\<rparr>], de_send = (\<lambda>p n. n), de_task = True,
     de_reads = [song_header @ ''ab'', ''cde''], de_fails = no_fails, de_stop = None, de_late = None\<rparr>"

definition song_request :: download_info_t where
  "song_request = \<lparr>ti_file_path_name = ''/sdcard/s.mp3'', ti_path = ''http://a.b/s'', ti_port_number = [], di_callback = True\<rparr>"

lemma first_at_less: "(\<forall>k\<in>set [0..<length a]. take (length pat) (drop k (a @ pat)) \<noteq> pat) \<Longrightarrow> first_at a pat"
  by (simp add: first_at_def)

lemma song_header_good: "good_header song_header 5"
proof -
  have "first_at (''HTTP/1.1 200 OK'' @ crlf) ''Content-Length''" by (rule first_at_less) code_simp
  moreover have "first_at (''HTTP/1.1 200 OK'' @ crlf @ ''Content-Length: 5'') (crlf @ crlf)" by (rule first_at_less) code_simp
  moreover have "song_header = (''HTTP/1.1 200 OK'' @ crlf) @ ''Content-Length'' @ '': '' @ dec_nat 5 @ crlf @ crlf"
    "song_header = (''HTTP/1.1 200 OK'' @ crlf @ ''Content-Length: 5'') @ crlf @ crlf" "NUL \<notin> set song_header"
    by (simp_all add: song_header_def five)
  ultimately show ?thesis unfolding good_header_def by blast
qed

definition song_address :: address where
  "song_address = \<lparr>ad_scheme = ''http://'', ad_host = ''a.b'', ad_port = None, ad_path = ''/s''\<rparr>"

definition song_queued :: download_server where
  "song_queued = download_zero\<lparr>ds_running := True, ds_requests := [song_request]\<rparr>"

lemma song_facts:
  "all_well song_env" "address_ok song_address" "de_reads song_env = (song_header @ ''ab'') # [''cde'']"
  "ti_path song_request = address_text song_address" "length (ti_path song_request) < TRANSFER_PATH_SIZE" "ti_port_number song_request = []"
  "length (ti_file_path_name song_request) < TRANSFER_FILE_SIZE" "di_callback song_request"
  "ds_requests song_queued = song_request # []" "ds_finish song_queued = []" "length song_header + length ''ab'' < DOWNLOAD_BUFFER_SIZE"
  by (simp_all add: all_well_def song_env_def sock_connect_plus_def sends_all_def address_ok_def song_address_def song_request_def
      address_text_def url_of_def song_queued_def download_zero_def song_header_def)

lemma download_stores_the_body_witness:
  "\<exists>s. mng_download_task song_env song_queued = Some s \<and> ds_files s ''/sdcard/s.mp3'' = Some ''abcde'' \<and>
    last (ds_trace s) = DlReport LOAD_SUCC 5 ''/sdcard/s.mp3'' 5"
proof -
  have n: "(5 :: nat) < 2 ^ 32" "''ab'' \<noteq> []" "\<forall>d\<in>set [''cde'']. d \<noteq> []" "''abcde'' = ''ab'' @ concat [''cde'']" "length ''abcde'' \<le> 5" by simp_all
  from download_stores_the_body [OF song_facts(1,9,10,8,2,4,5,6,7,3) song_header_good n(1,2) song_facts(11) n(3,4,5)]
  show ?thesis by (simp add: song_request_def)
qed

section \<open>Reports are honest\<close>

text \<open>What holds of the file and the count behind the bytes \<open>r\<close>.\<close>

definition honest_info :: "string \<Rightarrow> string \<Rightarrow> download_finish_info_t \<Rightarrow> bool" where
  "honest_info r file i \<longleftrightarrow> (df_error_reason i \<in> {LOAD_SUCC, LOAD_HALF, DOWNLOAD_SIZE_OVERFLOW_ERR} \<longrightarrow>
     (\<exists>pre post. r = pre @ file @ post) \<and> df_real_filesize i = of_nat (length file) \<and>
     (df_error_reason i = LOAD_SUCC \<longrightarrow> df_http_include_filesize i \<le> df_real_filesize i) \<and>
     (df_error_reason i = LOAD_HALF \<longrightarrow> df_real_filesize i < df_http_include_filesize i) \<and>
     (df_error_reason i = DOWNLOAD_SIZE_OVERFLOW_ERR \<longrightarrow> df_http_include_filesize i < df_real_filesize i))"

definition honest :: "string \<Rightarrow> dl_run \<Rightarrow> bool" where
  "honest r x \<longleftrightarrow> (case dr_phase x of
     Header count filesize buf \<Rightarrow> dr_file x = []
   | Body copy_sum filesize \<Rightarrow> (\<exists>pre. r = pre @ dr_file x) \<and> copy_sum = of_nat (length (dr_file x))
   | Finished i \<Rightarrow> honest_info r (dr_file x) i)"

lemma honest_info_mono: "honest_info r file i \<Longrightarrow> honest_info (r @ d) file i"
  unfolding honest_info_def by (metis append.assoc)

lemma honest_failed:
  "reason \<notin> {LOAD_SUCC, LOAD_HALF, DOWNLOAD_SIZE_OVERFLOW_ERR} \<Longrightarrow> honest r (finish_with reason real fsize x)"
  by (simp add: honest_def finish_with_def honest_info_def)

lemma honest_header_failed: "honest r (header_failed fails count filesize x)"
  by (auto simp: header_failed_def first_write_def file_write_def honest_failed split: option.split)

lemma honest_first_write:
  assumes "dr_file x = []" "r = pre @ data"
  shows "honest r (first_write fails data filesize fsize x)"
proof -
  have "honest r (x\<lparr>dr_file := dr_file x @ data, dr_writes := v, dr_phase := Body (of_nat (length data)) filesize\<rparr>)" for v
    using assms by (simp add: honest_def)
  then show ?thesis by (auto simp: first_write_def file_write_def honest_failed split: option.split)
qed

lemma honest_body_done:
  assumes "r = pre @ dr_file x" "copy_sum = of_nat (length (dr_file x))"
  shows "honest r (body_done copy_sum filesize x)"
proof -
  have "\<exists>p q. r = p @ dr_file x @ q" using assms(1) by (metis append_Nil2)
  then show ?thesis using assms(2) by (simp add: honest_def body_done_def finish_with_def honest_info_def not_less)
qed

lemma honest_read:
  assumes "honest r x" "download_read fails d x = Some x'"
  shows "honest (r @ d) x'"
proof (cases "dr_phase x")
  case (Header count filesize buf)
  then have f: "dr_file x = []" using assms(1) by (simp add: honest_def)
  have "honest (r @ d) (first_write fails (drop k d) a b x)" for k a b
    by (rule honest_first_write [OF f, of _ "r @ take k d"]) simp
  then show ?thesis using assms(2) Header f honest_header_failed
    by (auto simp: download_read_def header_read_def honest_def [of _ "x\<lparr>dr_phase := _\<rparr>"] Let_def
        split: if_splits option.splits Option.bind_splits)
next
  case (Body copy_sum filesize)
  then obtain pre where p: "r = pre @ dr_file x" "copy_sum = of_nat (length (dr_file x))" using assms(1) by (auto simp: honest_def)
  let ?x = "x\<lparr>dr_file := dr_file x @ d, dr_writes := dr_writes x + 1\<rparr>"
  have sum: "copy_sum + of_nat (length d) = of_nat (length (dr_file ?x))" "r @ d = pre @ dr_file ?x" using p by simp_all
  have fin: "honest (r @ d) (body_done (copy_sum + of_nat (length d)) filesize ?x)" by (rule honest_body_done [OF sum(2,1)])
  have over: "honest (r @ d) (finish_with DOWNLOAD_SIZE_OVERFLOW_ERR (copy_sum + of_nat (length d)) filesize ?x)"
    if "filesize < copy_sum + of_nat (length d)"
  proof -
    have "\<exists>p q. r @ d = p @ dr_file ?x @ q" using sum(2) by (metis append_Nil2)
    then show ?thesis using that sum(1) by (simp add: honest_def finish_with_def honest_info_def)
  qed
  have go: "honest (r @ d) (?x\<lparr>dr_phase := Body (copy_sum + of_nat (length d)) filesize\<rparr>)"
    using sum by (auto simp: honest_def)
  show ?thesis using assms(2) Body fin over go
    by (auto simp: download_read_def body_read_def file_write_def honest_failed Let_def split: option.splits if_splits)
next
  case (Finished i)
  then show ?thesis using assms by (auto simp: download_read_def honest_def intro: honest_info_mono)
qed

lemma honest_end: "honest r x \<Longrightarrow> honest r (download_end fails x)"
proof (cases "dr_phase x")
  case (Body copy_sum filesize)
  assume "honest r x"
  then show ?thesis using Body honest_body_done by (fastforce simp: download_end_def honest_def)
qed (simp_all add: download_end_def honest_header_failed)

lemma honest_run: "honest r x \<Longrightarrow> run_opt (download_read fails) ds x = Some x' \<Longrightarrow> honest (r @ concat ds) x'"
proof (induction ds arbitrary: r x)
  case (Cons d ds)
  then obtain x1 where x1: "download_read fails d x = Some x1" "run_opt (download_read fails) ds x1 = Some x'"
    by (auto split: Option.bind_splits)
  from Cons.IH [OF honest_read [OF Cons.prems(1) x1(1)] x1(2)] show ?case by simp
qed simp

lemma honest_start: "honest [] dl_start"
  by (simp add: honest_def dl_start_def)

lemma await_honest:
  assumes "await_finish e [] = Some (file, i, rest)"
  shows "honest_info (concat (de_reads e)) file i"
proof (cases "de_stop e")
  case None
  then obtain x where "run_opt (download_read (de_fails e)) (de_reads e) dl_start = Some x" "file = dr_file (download_end (de_fails e) x)"
    "i = (case dr_phase (download_end (de_fails e) x) of Finished i \<Rightarrow> i | _ \<Rightarrow> sock_timer_cb_func)"
    using assms by (auto simp: await_finish_def execute_download_task_def split: Option.bind_splits)
  with honest_end [OF honest_run [OF honest_start]] show ?thesis
    by (fastforce simp: honest_def honest_info_def sock_timer_cb_func_def split: dl_phase.splits)
next
  case (Some k)
  then obtain x where "run_opt (download_read (de_fails e)) (take k (de_reads e)) dl_start = Some x" "file = dr_file x"
    "i = (case dr_phase x of Finished i \<Rightarrow> i | _ \<Rightarrow> sock_timer_cb_func)"
    using assms by (auto simp: await_finish_def split: Option.bind_splits)
  with honest_run [OF honest_start] have "honest_info (concat (take k (de_reads e))) file i"
    by (fastforce simp: honest_def honest_info_def sock_timer_cb_func_def split: dl_phase.splits)
  from honest_info_mono [OF this, of "concat (drop k (de_reads e))"] show ?thesis
    by (simp add: concat_append [symmetric] del: concat_append)
qed

lemma connect_reason:
  "sock_connect_plus dns LOAD_SUCC = (sock, r, closed) \<Longrightarrow> r \<in> {LOAD_SUCC, QUERY_DNS_FAILED, SERVER_CONNECT_FAILED}"
  by (auto simp: sock_connect_plus_def split: option.splits list.splits prod.splits)

lemma info_reason: "sock_get_server_info_plus url d p ps = Some (r, d', p', ps') \<Longrightarrow> r \<in> {LOAD_SUCC, PARSE_URL_FAILED}"
  by (auto simp: sock_get_server_info_plus_def split: option.splits Option.bind_splits if_splits)

lemma send_req_reason: "http_send_req send url h n = Some (r, t) \<Longrightarrow> r \<in> {LOAD_SUCC, HTTP_REQ_FAILED}"
  by (auto simp: http_send_req_def Let_def split: if_splits)

lemma serve_honest:
  assumes "serve_download e q s = Some (i, s1)" "ds_finish s = []"
  shows "(\<exists>es. ds_trace s1 = ds_trace s @ es) \<and>
    (df_error_reason i \<notin> {LOAD_SUCC, LOAD_HALF, DOWNLOAD_SIZE_OVERFLOW_ERR} \<or>
     (\<exists>file. ds_files s1 (ti_file_path_name q) = Some file \<and> honest_info (concat (de_reads e)) file i))"
proof -
  have transfer: "(\<exists>es. ds_trace s1 = ds_trace t @ es) \<and>
      (df_error_reason i \<notin> {LOAD_SUCC, LOAD_HALF, DOWNLOAD_SIZE_OVERFLOW_ERR} \<or>
       (\<exists>file. ds_files s1 name = Some file \<and> honest_info (concat (de_reads e)) file i))"
    if "transfer_file e name t = Some (i, s1)" "ds_finish t = []" for name t
    using that by (auto simp: transfer_file_def failed_info_def dest!: await_honest split: if_splits)
  have failed: "df_error_reason (failed_info r) = r" for r by (simp add: failed_info_def)
  show ?thesis
    using assms
    by (auto simp: serve_download_def failed Let_def c_str_def ds_emit_def dest!: info_reason connect_reason send_req_reason transfer
      split: if_splits prod.splits Option.bind_splits)
qed



text \<open>A first piece that ends with the header: a write of no bytes counts as failed and the download with it.\<close>

lemma header_alone_fails:
  assumes "good_header hdr n" "0 < n" "n < 2 ^ 32" "length hdr < DOWNLOAD_BUFFER_SIZE"
  shows "\<exists>x. download_read no_fails hdr dl_start = Some x \<and>
    dr_phase x = Finished \<lparr>df_error_reason = WRITE_FILE_FAILED, df_real_filesize = 0, df_http_include_filesize = of_nat n\<rparr>"
proof -
  have "NUL \<notin> set hdr" using assms(1) by (simp add: good_header_def)
  then have s: "buf_str (hdr @ drop (length hdr) (replicate DOWNLOAD_BUFFER_SIZE NUL)) = Some (hdr @ [])"
    using assms(4) by (cases "DOWNLOAD_BUFFER_SIZE - length hdr") (auto simp: buf_str_def takeWhile_nul)
  have "(of_nat n :: 32 word) \<noteq> 0" using assms(2,3) by (simp add: word_of_nat_eq_0_iff nat_dvd_not_less)
  then show ?thesis using good_header_read [OF assms(1,3), of "[]"] s
    by (simp add: download_read_def dl_start_def header_read_def first_write_def file_write_def finish_with_def)
qed

text \<open>A result that the timer or the reader left in the queue is taken for the next download, of which nothing is stored.\<close>

lemma stale_result_is_reported:
  assumes "ds_finish s = [old]" "de_task e"
  shows "\<exists>s'. transfer_file e name s = Some (old, s') \<and> ds_files s' name = Some []"
  using assms by (simp add: transfer_file_def await_finish_def Let_def)

section \<open>Uploads\<close>

text \<open>The request without the body it announces.\<close>

definition post_header :: "string \<Rightarrow> string \<Rightarrow> nat \<Rightarrow> string" where
  "post_header url domain n =
     ''POST '' @ url @ '' HTTP/1.1'' @ crlf @ ''Host:'' @ domain @ crlf @ ''Connection: Keep-Alive'' @ crlf @
     ''Accept: */*'' @ crlf @ ''Pragma: no-cache'' @ crlf @ ''Content-type: multipart/form-data;boundary=jqk123'' @ crlf @
     ''Content-length:'' @ dec_nat n @ '' '' @ crlf @ crlf"

definition writes_all :: "(nat \<Rightarrow> nat \<Rightarrow> int) \<Rightarrow> bool" where
  "writes_all wr \<longleftrightarrow> (\<forall>k n. wr k n = int n)"

lemma wire_write_all: "writes_all wr \<Longrightarrow> wire_write wr d w = (True, w\<lparr>wi_bytes := wi_bytes w @ d, wi_writes := wi_writes w + 1\<rparr>)"
  by (simp add: wire_write_def writes_all_def)

lemma upload_loop_all:
  assumes "writes_all wr"
  shows "\<exists>n. upload_loop wr file w = (True, w\<lparr>wi_bytes := wi_bytes w @ file, wi_writes := n\<rparr>)"
  using assms
proof (induction wr "file" w rule: upload_loop.induct)
  case (1 wr f w)
  show ?case
  proof (cases "f = []")
    case True
    then show ?thesis by (subst upload_loop.simps) (auto intro: exI [of _ "wi_writes w"])
  next
    case False
    let ?w = "w\<lparr>wi_bytes := wi_bytes w @ take BUFFER_SIZE f, wi_writes := wi_writes w + 1\<rparr>"
    have w: "wire_write wr (take BUFFER_SIZE f) w = (True, ?w)" using wire_write_all [OF "1.prems"] .
    from "1.IH" [OF False w [symmetric] refl TrueI "1.prems"] obtain n where
      "upload_loop wr (drop BUFFER_SIZE f) ?w = (True, ?w\<lparr>wi_bytes := wi_bytes ?w @ drop BUFFER_SIZE f, wi_writes := n\<rparr>)" by blast
    with False w show ?thesis by (subst upload_loop.simps) auto
  qed
qed

text \<open>C24: An upload sends the file whole: when the socket takes every write and the request fits its array, the bytes on the wire
  are the request for the address and the host, then the opening of the form, the file as it is and the end of the form,
  and the length in the request is exactly the number of bytes behind it; the client gets \<open>LOAD_SUCC\<close> and the answer of the
  server.\<close>

theorem upload_sends_the_file:
  assumes "writes_all (ue_write e)" and body: "body = BODY_HEAD @ file @ BODY_END"
    and fits: "length (post_header (ti_path q) host (length body)) + length BODY_HEAD < HTTP_BUFFER_SIZE"
  shows "send_file e q host file s = (LOAD_SUCC, take HTTP_BUFFER_SIZE (ue_response e),
    s\<lparr>us_wires := us_wires s @ [post_header (ti_path q) host (length body) @ body]\<rparr>)"
proof -
  have n: "length file + length BODY_HEAD + length BODY_END = length body" using body by simp
  have t: "post_request_text (ti_path q) host (length body) = post_header (ti_path q) host (length body) @ BODY_HEAD"
    by (simp add: post_request_text_def post_header_def)
  then have fit: "take (HTTP_BUFFER_SIZE - 1) (post_request_text (ti_path q) host (length body)) = post_header (ti_path q) host (length body) @ BODY_HEAD"
    using fits by simp
  obtain k where loop: "upload_loop (ue_write e) file \<lparr>wi_bytes = post_header (ti_path q) host (length body) @ BODY_HEAD, wi_writes = 1\<rparr> =
      (True, \<lparr>wi_bytes = (post_header (ti_path q) host (length body) @ BODY_HEAD) @ file, wi_writes = k\<rparr>)"
    using upload_loop_all [OF assms(1), of "file" "\<lparr>wi_bytes = post_header (ti_path q) host (length body) @ BODY_HEAD, wi_writes = 1\<rparr>"] by auto
  show ?thesis
    using loop wire_write_all [OF assms(1)] unfolding send_file_def assmble_http_post_req_def Let_def n fit
    by (simp add: upload_file_def body)
qed

definition upload_env0 :: upload_env where
  "upload_env0 = \<lparr>ue_wifi = True, ue_files = Map.empty, ue_dns = None, ue_write = (\<lambda>k n. int n), ue_response = ''ok''\<rparr>"

definition upload_request0 :: upload_info_t where
  "upload_request0 = \<lparr>ti_file_path_name = ''/f'', ti_path = ''http://a/u'', ti_port_number = ''80'', ui_socket_upload = 0, ui_callback = True\<rparr>"

lemma body_length: "length BODY_HEAD = 117" "length BODY_END = 14"
  by (simp_all add: BODY_HEAD_def BODY_END_def)

lemma upload_sends_the_file_witness:
  "us_wires (snd (snd (send_file upload_env0 upload_request0 ''a'' ''voice'' upload_zero))) =
    [post_header ''http://a/u'' ''a'' 136 @ BODY_HEAD @ ''voice'' @ BODY_END]"
proof -
  have "length (dec_nat 136) = 3" by code_simp
  then have "length (post_header (ti_path upload_request0) ''a'' (length (BODY_HEAD @ ''voice'' @ BODY_END))) + length BODY_HEAD < HTTP_BUFFER_SIZE"
    by (simp add: post_header_def upload_request0_def body_length)
  from upload_sends_the_file [OF _ refl this, of upload_env0 upload_zero] show ?thesis
    by (simp add: writes_all_def upload_env0_def upload_request0_def upload_zero_def body_length)
qed

text \<open>Once the server is connected every upload is reported as \<open>LOAD_SUCC\<close>, even if no byte was sent.\<close>

lemma upload_failures_are_not_reported: "fst (send_file e q host file s) = LOAD_SUCC"
  by (simp add: send_file_def assmble_http_post_req_def Let_def split: prod.split)

end
