(* ===== verification/SdCard.thy ===== *)
theory SdCard
  imports Alarm_Prelude "HOL-Library.Word"
begin

text \<open>
  The keeper of the card (\<open>bsp/gc.c\<close>, built with \<open>USER_TASK\<close>): it mounts the card, looks at it every thirty seconds,
  tells the player when it comes or goes, and deletes old voice messages when their folder is full.

  \<^item> The card is outside: what mounting, opening and reading give is the environment of a tick, with the entries of
    the folder as \<open>readdir\<close> lists them.
  \<^item> The timer runs once; \<open>gc_armed\<close> says that it will run out and send its command.
  \<^item> What is done to the card and told to the player is recorded in \<open>gc_trace\<close>.
\<close>

section \<open>Deleting old files\<close>

text \<open>\<open>fe_today\<close>: the file was made on the day on which it is looked at.\<close>

record file_entry =
  fe_name :: string
  fe_size :: nat
  fe_open :: bool
  fe_stat :: bool
  fe_today :: bool

abbreviation SD_FILE_PATH_MAX_SIZE :: nat where "SD_FILE_PATH_MAX_SIZE \<equiv> 256"

text \<open>\<open>strncpy\<close> of the folder, then \<open>strcat\<close> of a slash and of the name.\<close>

definition file_path_of :: "nat \<Rightarrow> string \<Rightarrow> string \<Rightarrow> string option" where
  "file_path_of sz in_dir name =
     (if length in_dir + 1 + length name < sz then Some (in_dir @ ''/'' @ name) else None)"

fun size_loop :: "string \<Rightarrow> file_entry list \<Rightarrow> nat \<Rightarrow> nat option" where
  "size_loop in_dir [] total_size = Some total_size"
| "size_loop in_dir (de # des) total_size =
     Option.bind (file_path_of SD_FILE_PATH_MAX_SIZE in_dir (fe_name de)) (\<lambda>path.
       size_loop in_dir des (if fe_open de \<and> fe_stat de then total_size + fe_size de else total_size))"

text \<open>The paths that are deleted and the sum of their sizes, which is compared with \<open>limit\<close> behind each.\<close>

fun delete_loop :: "string \<Rightarrow> 32 word \<Rightarrow> file_entry list \<Rightarrow> nat \<Rightarrow> string list \<Rightarrow> (nat \<times> string list) option" where
  "delete_loop in_dir limit [] total_size gone = Some (total_size, gone)"
| "delete_loop in_dir limit (de # des) total_size gone =
     Option.bind (file_path_of SD_FILE_PATH_MAX_SIZE in_dir (fe_name de)) (\<lambda>path.
       (if fe_open de \<and> fe_stat de \<and> \<not> fe_today de then
          (if unat limit \<le> total_size + fe_size de then Some (total_size + fe_size de, gone @ [path])
           else delete_loop in_dir limit des (total_size + fe_size de) (gone @ [path]))
        else delete_loop in_dir limit des total_size gone))"

text \<open>
  The folder is opened twice; \<open>None\<close> for a folder that does not open, the second time it is read all the same. The
  result is the size of the folder in KB or, after a cleaning, the bytes that were deleted.
\<close>

definition gc_one_folder :: "string \<Rightarrow> file_entry list option \<Rightarrow> file_entry list option \<Rightarrow> 32 word
    \<Rightarrow> (32 word \<times> string list) option" where
  "gc_one_folder in_dir first second folder_max_size =
     (case first of
        None \<Rightarrow> Some (0, [])
      | Some des \<Rightarrow> do {
          bytes \<leftarrow> size_loop in_dir des 0;
          let total_size = bytes div 1024;
          (if total_size < unat folder_max_size then Some (of_nat total_size, [])
           else (case second of
                   None \<Rightarrow> None
                 | Some des2 \<Rightarrow>
                     map_option (\<lambda>(n, gone). (of_nat n, gone))
                       (delete_loop in_dir (of_nat total_size - folder_max_size div 2) des2 0 []))) })"

record card_entry =
  ce_name :: string
  ce_dir :: "(file_entry list option \<times> file_entry list option) option"
  ce_size :: nat
  ce_open :: bool
  ce_stat :: bool

fun space_loop :: "32 word \<Rightarrow> card_entry list \<Rightarrow> 32 word \<Rightarrow> string list \<Rightarrow> (32 word \<times> string list) option" where
  "space_loop card_size [] use_space gone = Some (use_space, gone)"
| "space_loop card_size (c # cs) use_space gone = do {
     name \<leftarrow> file_path_of 128 ''/sdcard'' (ce_name c);
     (case ce_dir c of
        Some (first, second) \<Rightarrow> do {
          (n, lost) \<leftarrow> gc_one_folder name first second card_size;
          space_loop card_size cs (use_space + n) (gone @ lost) }
      | None \<Rightarrow>
          space_loop card_size cs (if ce_open c \<and> ce_stat c then use_space + of_nat (ce_size c div 1024 + 1) else use_space) gone) }"

definition get_sd_free_space :: "32 word \<Rightarrow> card_entry list option \<Rightarrow> (32 word \<times> 32 word \<times> string list) option" where
  "get_sd_free_space sd_total_size root =
     (case root of
        None \<Rightarrow> Some (sd_total_size, 0, [])
      | Some cs \<Rightarrow> map_option (\<lambda>(use_space, gone). (sd_total_size, use_space, gone)) (space_loop sd_total_size cs 0 []))"

section \<open>The task\<close>

datatype sdcard_state_t = SD_CARD_ST_UNMOUNT | SD_CARD_ST_MOUNTED

datatype gc_event = GcMount bool | GcUnmount | GcTold bool | GcUnlink string

record gc =
  gc_state :: sdcard_state_t
  gc_retry :: nat
  gc_listening :: bool
  gc_armed :: bool
  gc_total :: "32 word"
  gc_trace :: "gc_event list"

abbreviation SD_MOUNT_RETRY_MAX :: nat where "SD_MOUNT_RETRY_MAX \<equiv> 1"
abbreviation WECHAT_FOLDER_MAX :: "32 word" where "WECHAT_FOLDER_MAX \<equiv> 512 * 1024"

text \<open>\<open>ge_mount\<close>: the size of the card in KB when it mounts; \<open>ge_root\<close>: its root opens and is not empty.\<close>

record gc_env =
  ge_mount :: "32 word option"
  ge_root :: bool
  ge_first :: "file_entry list option"
  ge_second :: "file_entry list option"

definition gc_emit :: "gc_event list \<Rightarrow> gc \<Rightarrow> gc" where
  "gc_emit es s = s\<lparr>gc_trace := gc_trace s @ es\<rparr>"

definition sd_card_mount :: "32 word option \<Rightarrow> gc \<Rightarrow> bool \<times> gc" where
  "sd_card_mount m s =
     (case m of
        None \<Rightarrow> (False, gc_emit [GcMount False] s)
      | Some n \<Rightarrow> (True, gc_emit [GcMount True] (s\<lparr>gc_total := n\<rparr>)))"

definition sd_card_unmount :: "gc \<Rightarrow> gc" where
  "sd_card_unmount = gc_emit [GcUnmount]"

definition notify_media_sd_state :: "gc \<Rightarrow> gc" where
  "notify_media_sd_state s = (if gc_listening s then gc_emit [GcTold (gc_state s = SD_CARD_ST_MOUNTED)] s else s)"

definition sd_card_state_update :: "sdcard_state_t \<Rightarrow> gc \<Rightarrow> gc" where
  "sd_card_state_update st s = (if gc_state s = st then s else notify_media_sd_state (s\<lparr>gc_state := st\<rparr>))"

definition register_sdcard_notify :: "bool \<Rightarrow> gc \<Rightarrow> gc" where
  "register_sdcard_notify fd s = (if fd then notify_media_sd_state (s\<lparr>gc_listening := True\<rparr>) else s)"

definition check_sdcard_state :: "gc_env \<Rightarrow> int" where
  "check_sdcard_state e = (if ge_root e then 0 else -1)"

definition gc_process :: "gc_env \<Rightarrow> gc \<Rightarrow> gc option" where
  "gc_process e s = do {
     (n, gone) \<leftarrow> gc_one_folder ''/sdcard/wechat'' (ge_first e) (ge_second e) WECHAT_FOLDER_MAX;
     Some (gc_emit (map GcUnlink gone) s) }"

text \<open>A command of the timer, which runs only once unless it is set again.\<close>

definition gc_task :: "gc_env \<Rightarrow> gc \<Rightarrow> gc option" where
  "gc_task e s =
     (case gc_state s of
        SD_CARD_ST_UNMOUNT \<Rightarrow>
          (let s1 = s\<lparr>gc_retry := gc_retry s + 1\<rparr>
           in if gc_retry s < SD_MOUNT_RETRY_MAX then
                let (ok, s2) = sd_card_mount (ge_mount e) s1
                in Some ((if ok then sd_card_state_update SD_CARD_ST_MOUNTED s2 else s2)\<lparr>gc_armed := True\<rparr>)
              else Some s1)
      | SD_CARD_ST_MOUNTED \<Rightarrow>
          (if check_sdcard_state e \<noteq> 0 then
             Some ((sd_card_unmount (sd_card_state_update SD_CARD_ST_UNMOUNT s))\<lparr>gc_retry := 0, gc_armed := True\<rparr>)
           else map_option (\<lambda>s1. s1\<lparr>gc_armed := True\<rparr>) (gc_process e s)))"

definition gc_zero :: gc where
  "gc_zero = \<lparr>gc_state = SD_CARD_ST_UNMOUNT, gc_retry = 0, gc_listening = False, gc_armed = False, gc_total = 0, gc_trace = []\<rparr>"

definition garbage_cleanup_init :: "32 word option \<Rightarrow> bool \<Rightarrow> gc" where
  "garbage_cleanup_init m timer_ok =
     (let (ok, s) = sd_card_mount m gc_zero; s1 = (if ok then s\<lparr>gc_state := SD_CARD_ST_MOUNTED\<rparr> else s)
      in if timer_ok then s1\<lparr>gc_armed := True\<rparr> else sd_card_unmount s1)"

text \<open>
  \<open>task_exit\<close> is taken by the task when it starts and given back behind its \<open>vTaskDelete\<close>, which is never: who waits for it
  waits for ever. Only before the task has run the end comes.
\<close>

definition garbage_cleanup_uninit :: "bool \<Rightarrow> gc \<Rightarrow> gc option" where
  "garbage_cleanup_uninit task_started s =
     (let s1 = s\<lparr>gc_armed := False\<rparr> in if task_started then None else Some (sd_card_unmount s1))"

text \<open>The timer runs out and its command is handled; or a player registers.\<close>

datatype gc_op = GcTick gc_env | GcRegister bool

fun gc_step :: "gc_op \<Rightarrow> gc \<Rightarrow> gc option" where
  "gc_step (GcTick e) s = (if gc_armed s then gc_task e (s\<lparr>gc_armed := False\<rparr>) else Some s)"
| "gc_step (GcRegister fd) s = Some (register_sdcard_notify fd s)"

end
