(* ===== verification/SdCard_Props.thy ===== *)
theory SdCard_Props
  imports SdCard
begin

text \<open>
  The player always knows whether the card is mounted; a cleaning deletes the first old files, and none of today;
  when the card does not come at once it is given up.
\<close>

section \<open>What is deleted\<close>

definition old_files :: "file_entry list \<Rightarrow> file_entry list" where
  "old_files = filter (\<lambda>de. fe_open de \<and> fe_stat de \<and> \<not> fe_today de)"

definition sizes :: "file_entry list \<Rightarrow> nat" where
  "sizes des = sum_list (map fe_size des)"

lemma sizes_append [simp]: "sizes (xs @ ys) = sizes xs + sizes ys"
  by (simp add: sizes_def)

lemma delete_loop_prefix:
  assumes "\<forall>de\<in>set des. length in_dir + 1 + length (fe_name de) < SD_FILE_PATH_MAX_SIZE" "t < unat limit \<or> old_files des = []"
  shows "\<exists>k\<le>length (old_files des). delete_loop in_dir limit des t gone =
      Some (t + sizes (take k (old_files des)), gone @ map (\<lambda>de. in_dir @ ''/'' @ fe_name de) (take k (old_files des))) \<and>
    (k < length (old_files des) \<longrightarrow> unat limit \<le> t + sizes (take k (old_files des))) \<and>
    (\<forall>m<k. t + sizes (take m (old_files des)) < unat limit)"
  using assms
proof (induction des arbitrary: t gone)
  case Nil
  then show ?case by (simp add: old_files_def sizes_def)
next
  case (Cons de des)
  let ?path = "in_dir @ ''/'' @ fe_name de"
  have path: "file_path_of SD_FILE_PATH_MAX_SIZE in_dir (fe_name de) = Some ?path" using Cons.prems(1) by (simp add: file_path_of_def)
  show ?case
  proof (cases "fe_open de \<and> fe_stat de \<and> \<not> fe_today de")
    case False
    then have "old_files (de # des) = old_files des" by (auto simp: old_files_def)
    with Cons.IH [of t gone] Cons.prems path False show ?thesis by auto
  next
    case True
    then have old: "old_files (de # des) = de # old_files des" by (simp add: old_files_def)
    then have t: "t < unat limit" using Cons.prems(2) by simp
    show ?thesis
    proof (cases "unat limit \<le> t + fe_size de")
      case full: True
      have "delete_loop in_dir limit (de # des) t gone = Some (t + fe_size de, gone @ [?path])" using path True full by simp
      then show ?thesis using t full unfolding old by (intro exI [of _ 1]) (simp add: sizes_def)
    next
      case False
      from Cons.IH [of "t + fe_size de" "gone @ [?path]"] False Cons.prems(1) obtain k where
        k: "k \<le> length (old_files des)" "delete_loop in_dir limit des (t + fe_size de) (gone @ [?path]) =
          Some (t + fe_size de + sizes (take k (old_files des)), (gone @ [?path]) @ map (\<lambda>de. in_dir @ ''/'' @ fe_name de) (take k (old_files des)))"
        "k < length (old_files des) \<longrightarrow> unat limit \<le> t + fe_size de + sizes (take k (old_files des))"
        "\<forall>m<k. t + fe_size de + sizes (take m (old_files des)) < unat limit" by auto
      have "\<forall>m<Suc k. t + sizes (take m (de # old_files des)) < unat limit"
      proof (intro allI impI)
        fix m assume "m < Suc k"
        then show "t + sizes (take m (de # old_files des)) < unat limit"
          using t k(4) by (cases m) (simp_all add: sizes_def add.assoc)
      qed
      with k path True False show ?thesis unfolding old
        by (intro exI [of _ "Suc k"]) (simp add: sizes_def add.assoc)
    qed
  qed
qed

lemma size_loop_total:
  "\<forall>de\<in>set des. length in_dir + 1 + length (fe_name de) < SD_FILE_PATH_MAX_SIZE \<Longrightarrow>
    size_loop in_dir des t = Some (t + sizes (filter (\<lambda>de. fe_open de \<and> fe_stat de) des))"
  by (induction des arbitrary: t) (auto simp: file_path_of_def sizes_def)

lemma delete_loop_returns:
  "\<forall>de\<in>set des. length in_dir + 1 + length (fe_name de) < SD_FILE_PATH_MAX_SIZE \<Longrightarrow>
    \<exists>r. delete_loop in_dir limit des t gone = Some r"
  by (induction des arbitrary: t gone) (auto simp: file_path_of_def)

section \<open>What the player knows\<close>

fun told_of :: "gc_event \<Rightarrow> bool option" where
  "told_of (GcTold b) = Some b"
| "told_of e = None"

definition last_told :: "gc_event list \<Rightarrow> bool option" where
  "last_told es = (case List.map_filter told_of es of [] \<Rightarrow> None | bs \<Rightarrow> Some (last bs))"

lemma last_told_Nil [simp]: "last_told [] = None"
  by (simp add: last_told_def map_filter_simps)

lemma map_filter_append: "List.map_filter f (xs @ ys) = List.map_filter f xs @ List.map_filter f ys"
  by (simp add: map_filter_def)

lemma last_told_append:
  "last_told (es @ fs) = (case last_told fs of None \<Rightarrow> last_told es | Some b \<Rightarrow> Some b)"
proof (cases "List.map_filter told_of fs")
  case Nil
  then show ?thesis by (simp add: last_told_def map_filter_append)
next
  case (Cons b bs)
  then have "last_told fs = Some (last (b # bs))" by (simp add: last_told_def)
  moreover have "last_told (es @ fs) = Some (last (b # bs))"
    by (cases "List.map_filter told_of es") (simp_all add: last_told_def map_filter_append Cons)
  ultimately show ?thesis by simp
qed

lemma last_told_one: "last_told [e] = told_of e"
  by (cases e) (simp_all add: last_told_def map_filter_simps)

lemma last_told_unlinks: "last_told (map GcUnlink ps) = None"
  by (induction ps) (simp_all add: last_told_def map_filter_simps)

definition told_inv :: "gc \<Rightarrow> bool" where
  "told_inv s \<longleftrightarrow> (gc_listening s \<longrightarrow> last_told (gc_trace s) = Some (gc_state s = SD_CARD_ST_MOUNTED))"

lemma told_emit: "told_inv s \<Longrightarrow> last_told es = None \<Longrightarrow> told_inv (gc_emit es s)"
  by (simp add: told_inv_def gc_emit_def last_told_append)

lemma told_cong: "told_inv s \<Longrightarrow> gc_listening s' = gc_listening s \<Longrightarrow> gc_trace s' = gc_trace s \<Longrightarrow> gc_state s' = gc_state s \<Longrightarrow> told_inv s'"
  by (simp add: told_inv_def)

lemma told_notify: "told_inv (notify_media_sd_state s)"
  by (simp add: told_inv_def notify_media_sd_state_def gc_emit_def last_told_append last_told_one)

lemma told_update: "told_inv s \<Longrightarrow> told_inv (sd_card_state_update st s)"
  by (simp add: sd_card_state_update_def told_notify)

lemma told_mount: "told_inv s \<Longrightarrow> told_inv (snd (sd_card_mount m s))"
  by (auto simp: sd_card_mount_def last_told_one intro!: told_emit told_cong [of s] split: option.split)

lemma told_reset: "told_inv s \<Longrightarrow> told_inv (s\<lparr>gc_retry := r, gc_armed := a\<rparr>)"
  "told_inv s \<Longrightarrow> told_inv (s\<lparr>gc_armed := a\<rparr>)" "told_inv s \<Longrightarrow> told_inv (s\<lparr>gc_retry := r\<rparr>)"
  by (simp_all add: told_inv_def)

lemma told_task:
  assumes "told_inv s" "gc_task e s = Some s'"
  shows "told_inv s'"
proof (cases "gc_state s")
  case SD_CARD_ST_UNMOUNT
  have "told_inv (snd (sd_card_mount (ge_mount e) (s\<lparr>gc_retry := gc_retry s + 1\<rparr>)))"
    by (intro told_mount told_reset assms(1))
  with told_update [OF this, of SD_CARD_ST_MOUNTED] told_reset(3) [OF assms(1)] SD_CARD_ST_UNMOUNT assms(2) show ?thesis
    by (auto simp: gc_task_def Let_def told_reset split: if_splits prod.splits)
next
  case SD_CARD_ST_MOUNTED
  have "told_inv (sd_card_unmount (sd_card_state_update SD_CARD_ST_UNMOUNT s))"
    unfolding sd_card_unmount_def by (rule told_emit) (simp_all add: told_update assms(1) last_told_one)
  moreover have "told_inv (gc_emit (map GcUnlink ps) s)" for ps by (rule told_emit [OF assms(1) last_told_unlinks])
  ultimately show ?thesis using assms(2) SD_CARD_ST_MOUNTED
    by (auto simp: gc_task_def gc_process_def told_reset split: if_splits Option.bind_splits)
qed

definition folder_ok :: "string \<Rightarrow> file_entry list option \<Rightarrow> file_entry list option \<Rightarrow> bool" where
  "folder_ok in_dir first second \<longleftrightarrow>
     (\<forall>des. first = Some des \<longrightarrow> second \<noteq> None \<and>
       (\<forall>de\<in>set des \<union> set (the second). length in_dir + 1 + length (fe_name de) < SD_FILE_PATH_MAX_SIZE))"

fun gc_ok :: "gc_op \<Rightarrow> gc \<Rightarrow> bool" where
  "gc_ok (GcTick e) s = folder_ok ''/sdcard/wechat'' (ge_first e) (ge_second e)"
| "gc_ok (GcRegister fd) s = True"

lemma gc_one_folder_safe:
  assumes "folder_ok in_dir first second"
  shows "\<exists>n gone. gc_one_folder in_dir first second limit = Some (n, gone)"
proof (cases first)
  case None
  then show ?thesis by (simp add: gc_one_folder_def)
next
  case (Some des)
  with assms obtain des2 where des2: "second = Some des2" by (auto simp: folder_ok_def)
  have fit: "\<forall>de\<in>set des. length in_dir + 1 + length (fe_name de) < SD_FILE_PATH_MAX_SIZE"
    "\<forall>de\<in>set des2. length in_dir + 1 + length (fe_name de) < SD_FILE_PATH_MAX_SIZE"
    using assms Some des2 by (auto simp: folder_ok_def)
  show ?thesis
    using size_loop_total [OF fit(1), of 0] delete_loop_returns [OF fit(2)] Some des2
    by (fastforce simp: gc_one_folder_def Let_def)
qed

lemma gc_task_safe:
  assumes "gc_ok (GcTick e) s"
  shows "\<exists>s'. gc_task e s = Some s'"
  using gc_one_folder_safe [of "''/sdcard/wechat''" "ge_first e" "ge_second e" WECHAT_FOLDER_MAX] assms
  by (cases "gc_state s") (auto simp: gc_task_def gc_process_def Let_def split: prod.splits)

interpretation card: safe_machine gc_step told_inv gc_ok
proof unfold_locales
  fix op s assume s: "told_inv s" "gc_ok op s"
  show "\<exists>s'. gc_step op s = Some s' \<and> told_inv s'"
  proof (cases op)
    case (GcTick e)
    obtain s' where "gc_task e (s\<lparr>gc_armed := False\<rparr>) = Some s'" using gc_task_safe [of e] s(2) GcTick by auto
    then show ?thesis using told_task [OF told_reset(2) [OF s(1)]] s(1) GcTick by simp
  next
    case (GcRegister fd)
    then show ?thesis using s(1) by (simp add: register_sdcard_notify_def told_notify)
  qed
qed

lemma told_init: "told_inv (garbage_cleanup_init m t)"
  by (simp add: garbage_cleanup_init_def sd_card_mount_def gc_zero_def gc_emit_def told_inv_def sd_card_unmount_def split: option.split)


definition gone_env :: gc_env where
  "gone_env = \<lparr>ge_mount = None, ge_root = False, ge_first = None, ge_second = None\<rparr>"


section \<open>What a cleaning deletes\<close>

lemma cleaning_target:
  assumes "unat m \<le> n" "n < 2 ^ 32"
  shows "unat (of_nat n - m div 2 :: 32 word) = n - unat m div 2"
proof -
  have n: "unat (of_nat n :: 32 word) = n" using assms(2) by (simp add: unat_of_nat)
  have "unat (m div 2) = unat m div 2" by (simp add: unat_div)
  moreover have "m div 2 \<le> of_nat n" using assms(1) n calculation by (simp add: word_le_nat_alt)
  ultimately show ?thesis using n by (simp add: unat_sub)
qed

definition folder_bytes :: "file_entry list \<Rightarrow> nat" where
  "folder_bytes des = sizes (filter (\<lambda>de. fe_open de \<and> fe_stat de) des)"

text \<open>A folder below its limit (in KB) is left alone. In a folder that has reached it a cleaning deletes files that can be read and were
not made today, the first ones as the folder lists them, and no more of them than are needed for their sizes to reach the target, which
is the size of the folder in KB less half of its limit; only when there are no more does it stop short of the target.\<close>

theorem cleanup_spares_todays_files:
  assumes "folder_ok in_dir (Some des) (Some des2)" "0 < max_size" "folder_bytes des div 1024 < 2 ^ 32"
  shows "\<exists>n k. gc_one_folder in_dir (Some des) (Some des2) max_size =
      Some (n, map (\<lambda>de. in_dir @ ''/'' @ fe_name de) (take k (old_files des2))) \<and> k \<le> length (old_files des2) \<and>
    (if folder_bytes des div 1024 < unat max_size then k = 0
     else (k < length (old_files des2) \<longrightarrow> folder_bytes des div 1024 - unat max_size div 2 \<le> sizes (take k (old_files des2))) \<and>
       (\<forall>m<k. sizes (take m (old_files des2)) < folder_bytes des div 1024 - unat max_size div 2))"
proof (cases "folder_bytes des div 1024 < unat max_size")
  case True
  have "size_loop in_dir des 0 = Some (folder_bytes des)"
    using size_loop_total [of des in_dir 0] assms(1) by (simp add: folder_ok_def folder_bytes_def)
  with True show ?thesis by (intro exI [of _ 0] exI) (simp add: gc_one_folder_def Let_def)
next
  case False
  let ?limit = "of_nat (folder_bytes des div 1024) - max_size div 2 :: 32 word"
  have lim: "unat ?limit = folder_bytes des div 1024 - unat max_size div 2" using False assms(3) by (intro cleaning_target) simp_all
  have "0 < unat max_size" using assms(2) by (simp add: word_less_nat_alt)
  then have "0 < unat ?limit" unfolding lim using False by linarith
  moreover have fit: "\<forall>de\<in>set des2. length in_dir + 1 + length (fe_name de) < SD_FILE_PATH_MAX_SIZE"
    using assms(1) by (simp add: folder_ok_def)
  ultimately obtain k where k: "k \<le> length (old_files des2)" "delete_loop in_dir ?limit des2 0 [] =
      Some (sizes (take k (old_files des2)), map (\<lambda>de. in_dir @ ''/'' @ fe_name de) (take k (old_files des2)))"
    "k < length (old_files des2) \<longrightarrow> unat ?limit \<le> sizes (take k (old_files des2))"
    "\<forall>m<k. sizes (take m (old_files des2)) < unat ?limit"
    using delete_loop_prefix [OF fit, of 0 ?limit "[]"] by auto
  have "size_loop in_dir des 0 = Some (folder_bytes des)"
    using size_loop_total [of des in_dir 0] assms(1) by (simp add: folder_ok_def folder_bytes_def)
  then have "gc_one_folder in_dir (Some des) (Some des2) max_size =
      Some (of_nat (sizes (take k (old_files des2))), map (\<lambda>de. in_dir @ ''/'' @ fe_name de) (take k (old_files des2)))"
    using False k(2) by (simp add: gc_one_folder_def Let_def)
  with False k show ?thesis unfolding lim by auto
qed

definition voice_file :: "string \<Rightarrow> bool \<Rightarrow> file_entry" where
  "voice_file name today = \<lparr>fe_name = name, fe_size = 4096, fe_open = True, fe_stat = True, fe_today = today\<rparr>"

lemma cleanup_spares_todays_files_witness:
  "let des = [voice_file ''new'' True, voice_file ''old'' False] in
   gc_one_folder ''/sdcard/wechat'' (Some des) (Some des) 8 = Some (4096, [''/sdcard/wechat/old''])"
proof -
  let ?des = "[voice_file ''new'' True, voice_file ''old'' False]"
  have ok: "folder_ok ''/sdcard/wechat'' (Some ?des) (Some ?des)" "0 < (8 :: 32 word)" "folder_bytes ?des div 1024 < 2 ^ 32"
    by (simp_all add: folder_ok_def voice_file_def folder_bytes_def sizes_def)
  show ?thesis
    using cleanup_spares_todays_files [OF ok]
    by (simp add: gc_one_folder_def file_path_of_def voice_file_def old_files_def sizes_def folder_bytes_def Let_def)
qed

text \<open>The target counts KB and the deleted sizes count bytes: one file of as many bytes as there are KB to free ends the cleaning.\<close>

lemma one_file_ends_the_cleaning:
  assumes "file_path_of SD_FILE_PATH_MAX_SIZE in_dir (fe_name de) = Some path" "fe_open de" "fe_stat de" "\<not> fe_today de"
    "unat limit \<le> fe_size de"
  shows "delete_loop in_dir limit (de # des) 0 [] = Some (fe_size de, [path])"
  using assms by simp

section \<open>A card that does not come back\<close>

definition given_up :: "gc \<Rightarrow> bool" where
  "given_up s \<longleftrightarrow> gc_state s = SD_CARD_ST_UNMOUNT \<and> \<not> gc_armed s"

text \<open>A card that is missing at the start and at the first look is not tried a third time.\<close>

lemma missing_card_is_given_up:
  assumes "ge_mount e1 = None"
  shows "\<exists>s. run_opt gc_step [GcTick e1, GcTick e2] (garbage_cleanup_init None True) = Some s \<and> given_up s"
  using assms by (simp add: garbage_cleanup_init_def sd_card_mount_def gc_zero_def gc_emit_def gc_task_def Let_def given_up_def)

lemma given_up_stays:
  "given_up s \<Longrightarrow> \<exists>s'. run_opt gc_step ops s = Some s' \<and> given_up s' \<and> filter (\<lambda>e. e = GcMount True) (gc_trace s') = filter (\<lambda>e. e = GcMount True) (gc_trace s)"
proof (induction ops arbitrary: s)
  case (Cons op ops)
  obtain s1 where "gc_step op s = Some s1" "given_up s1" "filter (\<lambda>e. e = GcMount True) (gc_trace s1) = filter (\<lambda>e. e = GcMount True) (gc_trace s)"
    using Cons.prems by (cases op) (auto simp: given_up_def register_sdcard_notify_def notify_media_sd_state_def gc_emit_def)
  with Cons.IH [of s1] show ?case by auto
qed simp

text \<open>A card that was mounted and is pulled out is looked for once.\<close>

lemma card_may_come_back_once:
  assumes "gc_state s = SD_CARD_ST_MOUNTED" "gc_armed s" "\<not> ge_root e1" "ge_mount e2 = Some n"
  shows "\<exists>s'. run_opt gc_step [GcTick e1, GcTick e2] s = Some s' \<and> gc_state s' = SD_CARD_ST_MOUNTED \<and> gc_armed s' \<and> gc_total s' = n"
  using assms by (simp add: gc_task_def check_sdcard_state_def sd_card_state_update_def notify_media_sd_state_def gc_emit_def
    sd_card_unmount_def sd_card_mount_def Let_def)

end
