(* ===== verification/OfflineLog.thy ===== *)
theory OfflineLog
  imports AuthCrypto Transfer_Types
begin

text \<open>
  The log that is kept on the card (\<open>bsp/log.c\<close> and the macros of \<open>include/log.h\<close>, with
  \<open>CONFIG_USE_OFFLINE_LOG\<close>): every task writes its lines into one of two buffers, and a task of its own
  changes the buffers every twenty seconds and appends the old one to a file.

  \<^item> A buffer is an array of \<open>LOG_BUFFER_SIZE\<close> bytes; \<open>buffer_used_size\<close> counts what \<open>snprintf\<close> would
    have written, as the code does.
  \<^item> A macro is two steps, since its test stands before the critical section: \<open>LogCheck\<close> and, if it was passed,
    \<open>LogWrite\<close>; between them other tasks run. The messages of the log task itself are lines like others.
  \<^item> The compressor of one piece is a parameter (zlib); so is what the card allows.
\<close>

section \<open>Buffers\<close>

abbreviation LOG_BUFFER_SIZE :: nat where "LOG_BUFFER_SIZE \<equiv> 10240"
definition LOG_BUFFER_WATER_MARK :: int where "LOG_BUFFER_WATER_MARK = 0"
abbreviation OFFLINE_LOG_QUEUE_SIZE :: nat where "OFFLINE_LOG_QUEUE_SIZE \<equiv> 10"
abbreviation OFFLINE_LOG_FILE_MAX_SIZE :: int where "OFFLINE_LOG_FILE_MAX_SIZE \<equiv> 8388608"
abbreviation NUL :: char where "NUL \<equiv> CHR 0x00"

definition CRLF :: string where "CRLF = [CHR 0x0D, CHR 0x0A]"

definition OFFLINE_LOG_FILE_HEAD :: string where
  "OFFLINE_LOG_FILE_HEAD = CRLF @ ''OFFLINE LOG BEGINNING >>>>>>'' @ CRLF"

record log_buffer_t =
  buffer_total_size :: int
  buffer_water_mark :: int
  buffer_used_size :: int
  file_used_size :: int
  log_bytes :: string

text \<open>
  \<open>snprintf(&buf[off], n, ...)\<close> of a text: at most \<open>n - 1\<close> bytes and a zero byte. The room is a difference of
  \<open>int\<close>s that becomes a \<open>size_t\<close>. \<open>None\<close>: a write outside the array.
\<close>

definition snprintf_at :: "string \<Rightarrow> int \<Rightarrow> int \<Rightarrow> string \<Rightarrow> string option" where
  "snprintf_at buf off room line =
     (let n = nat (room mod 2 ^ 32);
          out = (if n = 0 then [] else take (n - 1) line @ [NUL])
      in if 0 \<le> off \<and> nat off + length out \<le> length buf
         then Some (take (nat off) buf @ out @ drop (nat off + length out) buf) else None)"

definition log_append :: "string \<Rightarrow> log_buffer_t \<Rightarrow> log_buffer_t option" where
  "log_append line b =
     map_option (\<lambda>bytes. b\<lparr>log_bytes := bytes, buffer_used_size := buffer_used_size b + int (length line)\<rparr>)
       (snprintf_at (log_bytes b) (buffer_used_size b) (buffer_total_size b - buffer_used_size b) line)"

section \<open>The state\<close>

datatype offline_log_cmd_t = OFFLINE_LOG_CMD_SYNC | OFFLINE_LOG_CMD_UPLOAD

datatype ping_pong = Ping | Pong

text \<open>\<open>ol_pending t\<close>: the line of task \<open>t\<close>, which has passed the test of the macro.\<close>

record offline_log =
  ol_ping :: log_buffer_t
  ol_pong :: log_buffer_t
  ol_current :: "ping_pong option"
  ol_first :: bool
  ol_file :: "string option"
  ol_pending :: "nat \<Rightarrow> string option"
  ol_queue :: "offline_log_cmd_t list"
  ol_uploads :: "transfer_info list"

definition log_buffer :: "ping_pong \<Rightarrow> offline_log \<Rightarrow> log_buffer_t" where
  "log_buffer w s = (case w of Ping \<Rightarrow> ol_ping s | Pong \<Rightarrow> ol_pong s)"

definition set_log_buffer :: "ping_pong \<Rightarrow> log_buffer_t \<Rightarrow> offline_log \<Rightarrow> offline_log" where
  "set_log_buffer w b s = (case w of Ping \<Rightarrow> s\<lparr>ol_ping := b\<rparr> | Pong \<Rightarrow> s\<lparr>ol_pong := b\<rparr>)"

definition other_buffer :: "ping_pong \<Rightarrow> ping_pong" where
  "other_buffer w = (case w of Ping \<Rightarrow> Pong | Pong \<Rightarrow> Ping)"

text \<open>The two halves of \<open>LOG_ERR\<close>, \<open>LOG_INFO\<close> and \<open>LOG_DBG\<close> in task \<open>t\<close>.\<close>

definition log_check :: "nat \<Rightarrow> string \<Rightarrow> offline_log \<Rightarrow> offline_log" where
  "log_check t line s =
     (case ol_current s of
        None \<Rightarrow> s
      | Some w \<Rightarrow>
          (let b = log_buffer w s
           in if buffer_used_size b < buffer_total_size b then s\<lparr>ol_pending := (ol_pending s)(t := Some line)\<rparr> else s))"

definition log_write :: "nat \<Rightarrow> offline_log \<Rightarrow> offline_log option" where
  "log_write t s =
     (case (ol_pending s t, ol_current s) of
        (Some line, Some w) \<Rightarrow>
          map_option (\<lambda>b. set_log_buffer w b (s\<lparr>ol_pending := (ol_pending s)(t := None)\<rparr>)) (log_append line (log_buffer w s))
      | _ \<Rightarrow> Some s)"

definition log_buffer_zero :: "int \<Rightarrow> log_buffer_t" where
  "log_buffer_zero st_size =
     \<lparr>buffer_total_size = int LOG_BUFFER_SIZE, buffer_water_mark = LOG_BUFFER_WATER_MARK, buffer_used_size = 0,
      file_used_size = st_size, log_bytes = replicate LOG_BUFFER_SIZE NUL\<rparr>"

text \<open>The start; with no room for the buffers or no timer the tasks log to the serial line only, or to a buffer that is never saved.\<close>

definition offline_log_init :: "bool \<Rightarrow> string option \<Rightarrow> offline_log" where
  "offline_log_init alloc_ok saved =
     (let b = log_buffer_zero (case saved of None \<Rightarrow> 0 | Some bytes \<Rightarrow> int (length bytes))
      in \<lparr>ol_ping = b, ol_pong = b, ol_current = (if alloc_ok then Some Ping else None), ol_first = True, ol_file = saved,
          ol_pending = (\<lambda>t. None), ol_queue = [], ol_uploads = []\<rparr>)"

section \<open>The log task\<close>

definition switch_buffer :: "ping_pong \<Rightarrow> offline_log \<Rightarrow> offline_log" where
  "switch_buffer w s =
     (let v = other_buffer w
      in set_log_buffer v ((log_buffer v s)\<lparr>buffer_used_size := 0\<rparr>) (s\<lparr>ol_current := Some v\<rparr>))"

definition check_buffer :: "log_buffer_t \<Rightarrow> bool" where
  "check_buffer b \<longleftrightarrow> buffer_water_mark b \<le> buffer_used_size b"

text \<open>
  The file is opened for appending, so that \<open>fseek\<close> does not move its writes. \<open>None\<close>: \<open>fwrite\<close> reads behind the
  end of the array.
\<close>

definition write_back_to_file :: "bool \<Rightarrow> ping_pong \<Rightarrow> offline_log \<Rightarrow> offline_log option" where
  "write_back_to_file fopen_ok w s =
     (let b = log_buffer w s;
          full = OFFLINE_LOG_FILE_MAX_SIZE \<le> file_used_size b;
          b1 = (if full then b\<lparr>file_used_size := 0\<rparr> else b);
          saved = (if full then None else ol_file s)
      in if \<not> fopen_ok then Some (set_log_buffer w b1 (s\<lparr>ol_file := saved\<rparr>))
         else if buffer_used_size b \<le> int (length (log_bytes b)) then
           Some (set_log_buffer w (b1\<lparr>file_used_size := file_used_size b1 + buffer_used_size b\<rparr>)
             (s\<lparr>ol_first := False,
                ol_file := Some ((case saved of None \<Rightarrow> [] | Some bytes \<Rightarrow> bytes) @
                  (if ol_first s then OFFLINE_LOG_FILE_HEAD else []) @ take (nat (buffer_used_size b)) (log_bytes b))\<rparr>))
         else None)"

definition log_sync :: "bool \<Rightarrow> offline_log \<Rightarrow> offline_log option" where
  "log_sync fopen_ok s =
     (case ol_current s of
        None \<Rightarrow> Some s
      | Some w \<Rightarrow> if check_buffer (log_buffer w s) then write_back_to_file fopen_ok w (switch_buffer w s) else Some s)"

section \<open>Compressing and uploading\<close>

abbreviation GZ_BUFFER_SIZE :: nat where "GZ_BUFFER_SIZE \<equiv> 1024"

text \<open>Each piece is compressed on its own; \<open>gz\<close> gives \<open>None\<close> when zlib fails.\<close>

function gz_loop :: "(string \<Rightarrow> string option) \<Rightarrow> string \<Rightarrow> string \<Rightarrow> bool \<times> string" where
  "gz_loop gz unread out =
     (if unread = [] then (True, out)
      else case gz (take GZ_BUFFER_SIZE unread) of
             None \<Rightarrow> (False, out)
           | Some z \<Rightarrow> gz_loop gz (drop GZ_BUFFER_SIZE unread) (out @ z))"
  by pat_completeness auto
termination by (relation "measure (\<lambda>(gz, unread, out). length unread)") auto

declare gz_loop.simps [simp del]

record gz_env =
  gz_in :: bool
  gz_fbuf :: bool
  gz_out :: bool
  gz_cbuf :: bool

text \<open>Success, what the packed file then holds if it was opened, and the files that are left open.\<close>

definition compress_file_to_gzip :: "(string \<Rightarrow> string option) \<Rightarrow> gz_env \<Rightarrow> string option \<Rightarrow> bool \<times> string option \<times> nat" where
  "compress_file_to_gzip gz e saved =
     (case saved of
        None \<Rightarrow> (False, None, 0)
      | Some bytes \<Rightarrow>
          if \<not> gz_in e \<or> \<not> gz_fbuf e \<or> \<not> gz_out e then (False, None, 0)
          else if \<not> gz_cbuf e then (False, Some [], 1)
          else (let (ok, out) = gz_loop gz bytes [] in (ok, Some out, if ok then 0 else 1)))"

definition LOG_UPLOAD_HEAD :: string where "LOG_UPLOAD_HEAD = ''http://alarm.onegohome.com/api/test/upload?mac=''"

text \<open>The address of the device is printed into \<open>char mac[12]\<close>.\<close>

definition log_upload_info :: "bytes \<Rightarrow> transfer_info option" where
  "log_upload_info p = do {
     file_path \<leftarrow> c_strncpy TRANSFER_FILE_SIZE ''/sdcard/offlinelog.zip'' TRANSFER_FILE_SIZE;
     upload_path \<leftarrow> c_strncpy TRANSFER_PATH_SIZE LOG_UPLOAD_HEAD TRANSFER_PATH_SIZE;
     mac \<leftarrow> c_str 12 (hex_text False p);
     upload_path \<leftarrow> c_strncat TRANSFER_PATH_SIZE upload_path mac (length mac);
     upload_path \<leftarrow> c_strncat TRANSFER_PATH_SIZE upload_path ''&duration=0'' 11;
     upload_path \<leftarrow> c_strncat TRANSFER_PATH_SIZE upload_path ''&type=1'' 7;
     port \<leftarrow> c_strncpy TRANSFER_PORT_SIZE ''80'' TRANSFER_PORT_SIZE;
     Some \<lparr>ti_file_path_name = file_path, ti_path = upload_path, ti_port_number = port\<rparr> }"

definition log_upload :: "(string \<Rightarrow> string option) \<Rightarrow> bytes \<Rightarrow> gz_env \<Rightarrow> offline_log \<Rightarrow> offline_log option" where
  "log_upload gz mac e s =
     (case compress_file_to_gzip gz e (ol_file s) of
        (True, _) \<Rightarrow> map_option (\<lambda>q. s\<lparr>ol_uploads := ol_uploads s @ [q]\<rparr>) (log_upload_info mac)
      | (False, _) \<Rightarrow> Some s)"

abbreviation S2C_LOG_UPLOAD :: int where "S2C_LOG_UPLOAD \<equiv> 0x820c"

definition log_command_cb :: "int \<Rightarrow> offline_log \<Rightarrow> offline_log" where
  "log_command_cb cmd_type s =
     (if cmd_type = S2C_LOG_UPLOAD then s\<lparr>ol_queue := queue_send OFFLINE_LOG_QUEUE_SIZE OFFLINE_LOG_CMD_UPLOAD (ol_queue s)\<rparr> else s)"

definition offline_log_tick :: "offline_log \<Rightarrow> offline_log" where
  "offline_log_tick s = s\<lparr>ol_queue := queue_send OFFLINE_LOG_QUEUE_SIZE OFFLINE_LOG_CMD_SYNC (ol_queue s)\<rparr>"

record log_env =
  le_fopen :: bool
  le_gz :: gz_env

definition offline_log_task :: "(string \<Rightarrow> string option) \<Rightarrow> bytes \<Rightarrow> log_env \<Rightarrow> offline_log \<Rightarrow> offline_log option" where
  "offline_log_task gz mac e s =
     (case queue_receive (ol_queue s) of
        None \<Rightarrow> Some s
      | Some (cmd, q) \<Rightarrow>
          (let s1 = s\<lparr>ol_queue := q\<rparr>
           in case cmd of OFFLINE_LOG_CMD_SYNC \<Rightarrow> log_sync (le_fopen e) s1
              | OFFLINE_LOG_CMD_UPLOAD \<Rightarrow> log_upload gz mac (le_gz e) s1))"

datatype log_op = LogCheck nat string | LogWrite nat | LogTick | LogCommand int | LogRound log_env

fun log_step :: "(string \<Rightarrow> string option) \<Rightarrow> bytes \<Rightarrow> log_op \<Rightarrow> offline_log \<Rightarrow> offline_log option" where
  "log_step gz mac (LogCheck t line) s = Some (log_check t line s)"
| "log_step gz mac (LogWrite t) s = log_write t s"
| "log_step gz mac LogTick s = Some (offline_log_tick s)"
| "log_step gz mac (LogCommand ty) s = Some (log_command_cb ty s)"
| "log_step gz mac (LogRound e) s = offline_log_task gz mac e s"

end
