(* ===== verification/OfflineLog_Props.thy ===== *)
theory OfflineLog_Props
  imports OfflineLog
begin

text \<open>
  While the lines fit, the file and the buffer in use hold every line in order, under every interleaving of the tasks, the ticks and the
  log task; and what happens when a line does not fit or the file is full.
\<close>

section \<open>One write\<close>

lemma snprintf_fits:
  assumes "length buf = n" "int (length line) < room" "0 \<le> off" "off + room = int n" "n < 2 ^ 32"
  shows "\<exists>buf'. snprintf_at buf off room line = Some buf' \<and> length buf' = n \<and>
    take (nat (off + int (length line))) buf' = take (nat off) buf @ line"
proof -
  have room: "room mod 4294967296 = room" "room \<noteq> 0" using assms by (simp_all add: mod_pos_pos_trivial)
  have out: "take (nat room - 1) line = line" using assms(2) by simp
  have fits: "nat off + Suc (length line) \<le> n" using assms by linarith
  let ?b = "take (nat off) buf @ (line @ [NUL]) @ drop (nat off + Suc (length line)) buf"
  have "snprintf_at buf off room line = Some ?b"
    using assms room out fits by (simp add: snprintf_at_def Let_def)
  moreover have "length ?b = n" using fits assms(1) by simp
  moreover have "take (nat (off + int (length line))) ?b = take (nat off) buf @ line"
    using fits assms(1,3) by (simp add: nat_add_distrib)
  ultimately show ?thesis by blast
qed

definition buffer_inv :: "log_buffer_t \<Rightarrow> bool" where
  "buffer_inv b \<longleftrightarrow> buffer_total_size b = int LOG_BUFFER_SIZE \<and> buffer_water_mark b = 0 \<and> length (log_bytes b) = LOG_BUFFER_SIZE \<and>
     0 \<le> buffer_used_size b \<and> buffer_used_size b < int LOG_BUFFER_SIZE"

definition buffer_text :: "log_buffer_t \<Rightarrow> string" where
  "buffer_text b = take (nat (buffer_used_size b)) (log_bytes b)"

lemma append_fits:
  assumes "buffer_inv b" "buffer_used_size b + int (length line) < buffer_total_size b"
  shows "\<exists>b'. log_append line b = Some b' \<and> buffer_inv b' \<and> buffer_text b' = buffer_text b @ line"
proof -
  from assms snprintf_fits [of "log_bytes b" LOG_BUFFER_SIZE line "buffer_total_size b - buffer_used_size b" "buffer_used_size b"]
  obtain bytes where bytes: "snprintf_at (log_bytes b) (buffer_used_size b) (buffer_total_size b - buffer_used_size b) line = Some bytes"
    "length bytes = LOG_BUFFER_SIZE" "take (nat (buffer_used_size b + int (length line))) bytes = take (nat (buffer_used_size b)) (log_bytes b) @ line"
    by (auto simp: buffer_inv_def)
  then show ?thesis using assms by (simp add: log_append_def buffer_inv_def buffer_text_def)
qed

section \<open>The log as a whole\<close>

definition log_inv :: "offline_log \<Rightarrow> bool" where
  "log_inv s \<longleftrightarrow> ol_current s \<noteq> None \<and> buffer_inv (ol_ping s) \<and> buffer_inv (ol_pong s)"

definition saved_text :: "offline_log \<Rightarrow> string" where
  "saved_text s = (case ol_file s of None \<Rightarrow> [] | Some bytes \<Rightarrow> bytes)"

text \<open>The file, the head that is written with the first lines, and what is in the buffer in use.\<close>

definition log_text :: "offline_log \<Rightarrow> string" where
  "log_text s = saved_text s @ (if ol_first s then OFFLINE_LOG_FILE_HEAD else []) @
     (case ol_current s of None \<Rightarrow> [] | Some w \<Rightarrow> buffer_text (log_buffer w s))"

text \<open>The lines that the steps of the tasks write, of which \<open>p\<close> have been tested.\<close>

fun logged :: "(nat \<Rightarrow> string option) \<Rightarrow> log_op list \<Rightarrow> string" where
  "logged p [] = []"
| "logged p (LogCheck t line # ops) = logged (p(t := Some line)) ops"
| "logged p (LogWrite t # ops) = (case p t of None \<Rightarrow> logged p ops | Some line \<Rightarrow> line @ logged (p(t := None)) ops)"
| "logged p (op # ops) = logged p ops"

text \<open>Lines fit, the file opens and has not reached its limit, and the packer fails.\<close>

definition log_ok :: "(string \<Rightarrow> string option) \<Rightarrow> log_op \<Rightarrow> offline_log \<Rightarrow> bool" where
  "log_ok gz op s =
     (case op of
        LogWrite t \<Rightarrow>
          (case (ol_pending s t, ol_current s) of
             (Some line, Some w) \<Rightarrow> buffer_used_size (log_buffer w s) + int (length line) < buffer_total_size (log_buffer w s)
           | _ \<Rightarrow> True)
      | LogRound e \<Rightarrow>
          (case ol_queue s of
             [] \<Rightarrow> True
           | OFFLINE_LOG_CMD_SYNC # q \<Rightarrow>
               le_fopen e \<and> (case ol_current s of None \<Rightarrow> True | Some w \<Rightarrow> file_used_size (log_buffer w s) < OFFLINE_LOG_FILE_MAX_SIZE)
           | OFFLINE_LOG_CMD_UPLOAD # q \<Rightarrow> \<not> fst (compress_file_to_gzip gz (le_gz e) (ol_file s)))
      | _ \<Rightarrow> True)"

lemma log_buffer_set [simp]: "log_buffer v (set_log_buffer w b s) = (if v = w then b else log_buffer v s)"
  by (cases v; cases w) (simp_all add: log_buffer_def set_log_buffer_def)

lemma log_buffer_update [simp]:
  "log_buffer w (s\<lparr>ol_pending := p\<rparr>) = log_buffer w s" "log_buffer w (s\<lparr>ol_queue := q\<rparr>) = log_buffer w s"
  "log_buffer w (s\<lparr>ol_current := c\<rparr>) = log_buffer w s" "log_buffer w (s\<lparr>ol_file := f\<rparr>) = log_buffer w s"
  "log_buffer w (s\<lparr>ol_first := i\<rparr>) = log_buffer w s" "log_buffer w (s\<lparr>ol_uploads := u\<rparr>) = log_buffer w s"
  by (cases w; simp add: log_buffer_def)+

lemma set_log_buffer_sel [simp]:
  "ol_current (set_log_buffer w b s) = ol_current s" "ol_first (set_log_buffer w b s) = ol_first s"
  "ol_file (set_log_buffer w b s) = ol_file s" "ol_pending (set_log_buffer w b s) = ol_pending s"
  "ol_queue (set_log_buffer w b s) = ol_queue s" "ol_uploads (set_log_buffer w b s) = ol_uploads s"
  by (cases w; simp add: set_log_buffer_def)+

lemma other_buffer_neq [simp]: "other_buffer w \<noteq> w" "w \<noteq> other_buffer w"
  by (cases w; simp add: other_buffer_def)+

lemma log_inv_iff: "log_inv s \<longleftrightarrow> ol_current s \<noteq> None \<and> (\<forall>w. buffer_inv (log_buffer w s))"
proof -
  have "(\<forall>w. buffer_inv (log_buffer w s)) \<longleftrightarrow> buffer_inv (ol_ping s) \<and> buffer_inv (ol_pong s)"
  proof
    assume "\<forall>w. buffer_inv (log_buffer w s)"
    then have "buffer_inv (log_buffer Ping s)" "buffer_inv (log_buffer Pong s)" by blast+
    then show "buffer_inv (ol_ping s) \<and> buffer_inv (ol_pong s)" by (simp add: log_buffer_def)
  qed (simp add: log_buffer_def split: ping_pong.split)
  then show ?thesis by (simp add: log_inv_def)
qed

lemma log_sync_text:
  assumes "log_inv s" "ol_current s = Some w" "file_used_size (log_buffer w s) < OFFLINE_LOG_FILE_MAX_SIZE"
  shows "\<exists>s'. log_sync True s = Some s' \<and> log_inv s' \<and> log_text s' = log_text s \<and> ol_pending s' = ol_pending s"
proof -
  have b: "buffer_inv (log_buffer w s)" "buffer_inv (log_buffer (other_buffer w) s)" using assms(1) by (simp_all add: log_inv_iff)
  then have "check_buffer (log_buffer w s)" "\<not> OFFLINE_LOG_FILE_MAX_SIZE \<le> file_used_size (log_buffer w s)"
    "buffer_used_size (log_buffer w s) \<le> int (length (log_bytes (log_buffer w s)))"
    using assms(3) by (simp_all add: check_buffer_def buffer_inv_def)
  then obtain s' where s': "log_sync True s = Some s'"
    "s' = set_log_buffer w ((log_buffer w s)\<lparr>file_used_size := file_used_size (log_buffer w s) + buffer_used_size (log_buffer w s)\<rparr>)
      ((switch_buffer w s)\<lparr>ol_first := False, ol_file := Some (saved_text s @ (if ol_first s then OFFLINE_LOG_FILE_HEAD else []) @
        buffer_text (log_buffer w s))\<rparr>)"
    using assms(2) by (auto simp: log_sync_def write_back_to_file_def switch_buffer_def Let_def saved_text_def buffer_text_def)
  have "log_text s' = log_text s"
    using s'(2) assms(2) by (simp add: log_text_def switch_buffer_def Let_def saved_text_def buffer_text_def)
  moreover have "log_inv s'"
    using s'(2) b assms(1) by (auto simp: log_inv_iff switch_buffer_def Let_def buffer_inv_def)
  moreover have "ol_pending s' = ol_pending s" using s'(2) by (simp add: switch_buffer_def Let_def)
  ultimately show ?thesis using s'(1) by blast
qed

lemma log_step_text:
  assumes "log_inv s" "log_ok gz op s"
  shows "\<exists>s'. log_step gz mac op s = Some s' \<and> log_inv s' \<and> (\<forall>ops. log_text s @ logged (ol_pending s) (op # ops) = log_text s' @ logged (ol_pending s') ops)"
proof -
  obtain w where w: "ol_current s = Some w" using assms(1) by (auto simp: log_inv_def)
  have b: "buffer_inv (log_buffer w s)" using assms(1) by (simp add: log_inv_iff)
  have keep: "log_inv (s\<lparr>ol_queue := q\<rparr>)" "log_text (s\<lparr>ol_queue := q\<rparr>) = log_text s" for q
    using assms(1) by (simp_all add: log_inv_def log_text_def saved_text_def split: option.split)
  show ?thesis
  proof (cases op)
    case (LogCheck t line)
    have "buffer_used_size (log_buffer w s) < buffer_total_size (log_buffer w s)" using b by (simp add: buffer_inv_def)
    then have "log_step gz mac op s = Some (s\<lparr>ol_pending := (ol_pending s)(t := Some line)\<rparr>)"
      using LogCheck w by (simp add: log_check_def Let_def)
    then show ?thesis using LogCheck assms(1) w by (simp add: log_inv_def log_text_def saved_text_def)
  next
    case (LogWrite t)
    show ?thesis
    proof (cases "ol_pending s t")
      case None
      then show ?thesis using LogWrite assms(1) by (simp add: log_write_def)
    next
      case (Some line)
      then have "buffer_used_size (log_buffer w s) + int (length line) < buffer_total_size (log_buffer w s)"
        using assms(2) LogWrite w by (simp add: log_ok_def)
      from append_fits [OF b this] obtain b' where b': "log_append line (log_buffer w s) = Some b'" "buffer_inv b'"
        "buffer_text b' = buffer_text (log_buffer w s) @ line" by blast
      let ?s = "set_log_buffer w b' (s\<lparr>ol_pending := (ol_pending s)(t := None)\<rparr>)"
      have "log_step gz mac op s = Some ?s" using LogWrite Some w b'(1) by (simp add: log_write_def)
      moreover have "log_inv ?s" using assms(1) b'(2) by (auto simp: log_inv_iff)
      moreover have "log_text ?s = log_text s @ line" using w b'(3) by (simp add: log_text_def saved_text_def)
      ultimately show ?thesis using LogWrite Some by simp
    qed
  next
    case LogTick
    then show ?thesis using keep by (simp add: offline_log_tick_def)
  next
    case (LogCommand ty)
    then show ?thesis using keep assms(1) by (simp add: log_command_cb_def)
  next
    case (LogRound e)
    show ?thesis
    proof (cases "ol_queue s")
      case Nil
      then show ?thesis using LogRound assms(1) by (simp add: offline_log_task_def)
    next
      case (Cons cmd q)
      let ?s = "s\<lparr>ol_queue := q\<rparr>"
      show ?thesis
      proof (cases cmd)
        case OFFLINE_LOG_CMD_SYNC
        then have "le_fopen e" "file_used_size (log_buffer w ?s) < OFFLINE_LOG_FILE_MAX_SIZE"
          using assms(2) LogRound Cons w by (simp_all add: log_ok_def)
        then show ?thesis using log_sync_text [OF keep(1), of q w] keep(2) [of q] LogRound Cons OFFLINE_LOG_CMD_SYNC w
          by (auto simp: offline_log_task_def)
      next
        case OFFLINE_LOG_CMD_UPLOAD
        then have "\<not> fst (compress_file_to_gzip gz (le_gz e) (ol_file s))"
          using assms(2) LogRound Cons by (simp add: log_ok_def)
        then have "log_step gz mac op s = Some ?s"
          using LogRound Cons OFFLINE_LOG_CMD_UPLOAD
          by (cases "compress_file_to_gzip gz (le_gz e) (ol_file s)") (simp add: offline_log_task_def log_upload_def)
        then show ?thesis using keep [of q] LogRound by simp
      qed
    qed
  qed
qed

interpretation offline: safe_machine "log_step gz mac" log_inv "log_ok gz" for gz mac
  using log_step_text by unfold_locales blast

lemma log_run_text:
  "log_inv s \<Longrightarrow> safe_machine.oks (log_step gz mac) (log_ok gz) ops s \<Longrightarrow>
    \<exists>s'. run_opt (log_step gz mac) ops s = Some s' \<and> log_text s' = log_text s @ logged (ol_pending s) ops"
proof (induction ops arbitrary: s)
  case (Cons op ops)
  have ok: "log_ok gz op s" using Cons.prems(2) by (simp add: offline.oks.simps)
  from log_step_text [OF Cons.prems(1) ok, of mac] obtain s1 where s1: "log_step gz mac op s = Some s1" "log_inv s1"
    "log_text s @ logged (ol_pending s) (op # ops) = log_text s1 @ logged (ol_pending s1) ops" by blast
  with Cons.prems(2) have "safe_machine.oks (log_step gz mac) (log_ok gz) ops s1" by (simp add: offline.oks.simps)
  from Cons.IH [OF s1(2) this] s1 show ?case by auto
qed simp

text \<open>C27: From the start with a file of any content, in every interleaving of the tasks that write lines with the ticks of the timer, the
commands and the rounds of the log task: while every line fits into what is left of the buffer, the file opens and is not full, and no
packing succeeds, every step is defined and the file, the head that announces a start and the buffer in use hold the old file, the head
and exactly the lines that were written, in their order.\<close>

theorem log_keeps_every_line:
  assumes "safe_machine.oks (log_step gz mac) (log_ok gz) ops (offline_log_init True saved)"
  shows "\<exists>s. run_opt (log_step gz mac) ops (offline_log_init True saved) = Some s \<and>
    log_text s = (case saved of None \<Rightarrow> [] | Some bytes \<Rightarrow> bytes) @ OFFLINE_LOG_FILE_HEAD @ logged (\<lambda>t. None) ops"
proof -
  let ?i = "offline_log_init True saved"
  have "log_inv ?i" by (simp add: log_inv_def buffer_inv_def offline_log_init_def log_buffer_zero_def LOG_BUFFER_WATER_MARK_def Let_def)
  moreover have "log_text ?i = (case saved of None \<Rightarrow> [] | Some bytes \<Rightarrow> bytes) @ OFFLINE_LOG_FILE_HEAD"
    by (simp add: log_text_def saved_text_def offline_log_init_def log_buffer_zero_def LOG_BUFFER_WATER_MARK_def Let_def buffer_text_def log_buffer_def)
  moreover have "ol_pending ?i = (\<lambda>t. None)" by (simp add: offline_log_init_def Let_def)
  ultimately show ?thesis using log_run_text [of ?i gz mac ops] assms by simp
qed

text \<open>Two tasks, one tick and one round.\<close>

definition two_tasks :: "log_op list" where
  "two_tasks = [LogCheck 1 ''one'', LogCheck 2 ''two'', LogWrite 2, LogWrite 1, LogTick,
     LogRound \<lparr>le_fopen = True, le_gz = \<lparr>gz_in = True, gz_fbuf = True, gz_out = True, gz_cbuf = True\<rparr>\<rparr>]"

lemmas log_run_simps = log_check_def log_write_def log_append_def snprintf_at_def offline_log_tick_def offline_log_task_def
  log_sync_def check_buffer_def switch_buffer_def write_back_to_file_def log_buffer_def set_log_buffer_def other_buffer_def
  offline_log_init_def log_buffer_zero_def LOG_BUFFER_WATER_MARK_def queue_send_def log_ok_def Let_def

lemma log_keeps_every_line_witness:
  "case run_opt (log_step Some []) two_tasks (offline_log_init True (Some ''old'')) of None \<Rightarrow> False
   | Some s \<Rightarrow> log_text s = ''old'' @ OFFLINE_LOG_FILE_HEAD @ ''twoone''"
proof -
  have "safe_machine.oks (log_step Some []) (log_ok Some) two_tasks (offline_log_init True (Some ''old''))"
    by (simp add: offline.oks.simps two_tasks_def log_run_simps)
  from log_keeps_every_line [OF this] show ?thesis by (auto simp: two_tasks_def)
qed

section \<open>Lines that do not fit\<close>

text \<open>The last line of a full buffer is cut, but counted whole: the log task then reads behind the array.\<close>

lemma long_line_is_read_behind:
  assumes "log_inv s" "ol_current s = Some w" "file_used_size (log_buffer w s) < OFFLINE_LOG_FILE_MAX_SIZE"
    "ol_pending s t = Some line" "int LOG_BUFFER_SIZE < buffer_used_size (log_buffer w s) + int (length line)"
  shows "\<exists>s'. log_write t s = Some s' \<and> log_sync True s' = None"
proof -
  let ?b = "log_buffer w s" let ?n = "nat (int LOG_BUFFER_SIZE - buffer_used_size ?b)"
  have b: "buffer_inv ?b" using assms(1) by (simp add: log_inv_iff)
  have room: "(buffer_total_size ?b - buffer_used_size ?b) mod 2 ^ 32 = int LOG_BUFFER_SIZE - buffer_used_size ?b" "?n \<noteq> 0"
    using b by (auto simp: buffer_inv_def mod_pos_pos_trivial)
  have "length (take (?n - 1) line @ [NUL]) = ?n" using assms(5) room(2) by simp
  then have fits: "0 \<le> buffer_used_size ?b \<and> nat (buffer_used_size ?b) + length (take (?n - 1) line @ [NUL]) \<le> length (log_bytes ?b)"
    using b unfolding buffer_inv_def by auto
  obtain bytes where bytes: "snprintf_at (log_bytes ?b) (buffer_used_size ?b) (buffer_total_size ?b - buffer_used_size ?b) line = Some bytes"
    "length bytes = LOG_BUFFER_SIZE"
  proof
    let ?bytes = "take (nat (buffer_used_size ?b)) (log_bytes ?b) @ (take (?n - 1) line @ [NUL]) @
      drop (nat (buffer_used_size ?b) + length (take (?n - 1) line @ [NUL])) (log_bytes ?b)"
    show "snprintf_at (log_bytes ?b) (buffer_used_size ?b) (buffer_total_size ?b - buffer_used_size ?b) line = Some ?bytes"
      unfolding snprintf_at_def Let_def room(1) using fits room(2) by simp
    show "length ?bytes = LOG_BUFFER_SIZE" using fits b by (simp add: buffer_inv_def)
  qed
  then show ?thesis using assms b
    by (simp add: log_write_def log_append_def log_sync_def check_buffer_def buffer_inv_def write_back_to_file_def switch_buffer_def Let_def)
qed

lemma neg_mod:
  fixes x m :: int
  assumes "0 < x" "x < m"
  shows "(- x) mod m = m - x"
proof -
  have "(- x) mod m = (m - x) mod m" by simp
  also have "\<dots> = m - x" using assms by (intro mod_pos_pos_trivial) simp_all
  finally show ?thesis .
qed

text \<open>
  Two tasks that pass the test before one of them fills the buffer: the room of the second is negative, as a
  \<open>size_t\<close> it is huge, and the line is written behind the array.
\<close>

lemma second_task_overruns:
  assumes "log_inv s" "ol_current s = Some w" "t \<noteq> u" "length line < 2 ^ 31" "length line2 < 2 ^ 31"
    "ol_pending s t = Some line" "ol_pending s u = Some line2" "int LOG_BUFFER_SIZE < buffer_used_size (log_buffer w s) + int (length line)"
    "log_write t s = Some s'"
  shows "log_write u s' = None"
proof -
  let ?b = "log_buffer w s" let ?over = "buffer_used_size ?b + int (length line) - int LOG_BUFFER_SIZE"
  have b: "buffer_inv ?b" using assms(1) by (simp add: log_inv_iff)
  obtain b' where b': "log_append line ?b = Some b'" "s' = set_log_buffer w b' (s\<lparr>ol_pending := (ol_pending s)(t := None)\<rparr>)"
    using assms(2,6,9) by (auto simp: log_write_def)
  then have used: "buffer_used_size b' = int LOG_BUFFER_SIZE + ?over" "buffer_total_size b' = int LOG_BUFFER_SIZE"
    using b by (auto simp: log_append_def buffer_inv_def)
  have len: "length (log_bytes b') \<le> LOG_BUFFER_SIZE"
    using b' b by (auto simp: log_append_def buffer_inv_def snprintf_at_def Let_def split: if_splits)
  have over: "0 < ?over" "?over < 2 ^ 32" using assms(4,8) b by (auto simp: buffer_inv_def)
  then have "(buffer_total_size b' - buffer_used_size b') mod 2 ^ 32 = 2 ^ 32 - ?over"
    using neg_mod [of ?over "2 ^ 32"] unfolding used by simp
  then have "snprintf_at (log_bytes b') (buffer_used_size b') (buffer_total_size b' - buffer_used_size b') line2 = None"
    using used over len by (simp add: snprintf_at_def Let_def)
  then show ?thesis using b'(2) assms(2,3,7) by (simp add: log_write_def log_append_def)
qed

section \<open>A full file\<close>

text \<open>
  Each buffer counts the file for itself, from its length at the start. When both counts have reached the limit the file
  is deleted twice: what the first buffer had written into the new file is lost with the second.
\<close>

lemma other_buffer_deletes_again:
  assumes "log_inv s" "ol_current s = Some w" "\<not> ol_first s"
    "OFFLINE_LOG_FILE_MAX_SIZE \<le> file_used_size (ol_ping s)" "OFFLINE_LOG_FILE_MAX_SIZE \<le> file_used_size (ol_pong s)"
  shows "\<exists>s1 s2. log_sync True s = Some s1 \<and> ol_file s1 = Some (buffer_text (log_buffer w s)) \<and>
    log_sync True s1 = Some s2 \<and> ol_file s2 = Some []"
  using assms by (cases w) (simp_all add: log_inv_def buffer_inv_def log_sync_def check_buffer_def write_back_to_file_def switch_buffer_def
    log_buffer_def set_log_buffer_def other_buffer_def buffer_text_def Let_def)

section \<open>The packed file\<close>

fun pieces :: "nat \<Rightarrow> string \<Rightarrow> string list" where
  "pieces 0 bytes = []"
| "pieces (Suc k) bytes = (if bytes = [] then [] else take GZ_BUFFER_SIZE bytes # pieces k (drop GZ_BUFFER_SIZE bytes))"

lemma gz_loop_pieces:
  assumes "\<And>c. gz c \<noteq> None" "length bytes \<le> k"
  shows "gz_loop gz bytes out = (True, out @ concat (map (\<lambda>c. the (gz c)) (pieces k bytes)))"
  using assms(2)
proof (induction k arbitrary: bytes out)
  case 0
  then show ?case by (simp add: gz_loop.simps)
next
  case (Suc k)
  obtain z where "gz (take GZ_BUFFER_SIZE bytes) = Some z" using assms(1) by blast
  with Suc show ?case by (simp add: gz_loop.simps [of gz bytes])
qed

text \<open>An unpacker that reads one piece after the other gives the log back.\<close>

lemma packed_log_unpacks:
  assumes "\<And>c. gz c \<noteq> None" "gunzip [] = []" "\<And>c rest. c \<noteq> [] \<Longrightarrow> gunzip (the (gz c) @ rest) = c @ gunzip rest"
    "gz_in e" "gz_fbuf e" "gz_out e" "gz_cbuf e"
  shows "\<exists>packed. compress_file_to_gzip gz e (Some bytes) = (True, Some packed, 0) \<and> gunzip packed = bytes"
proof -
  have "gunzip (concat (map (\<lambda>c. the (gz c)) (pieces k bs))) = bs" if "length bs \<le> k" for k bs
    using that by (induction k bs rule: pieces.induct) (simp_all add: assms(2,3))
  then show ?thesis using gz_loop_pieces [where gz = gz and bytes = bytes and out = "[]", OF assms(1) order_refl] assms(4-7)
    by (simp add: compress_file_to_gzip_def)
qed

text \<open>The twelve digits of the address and their terminator do not fit into \<open>mac[12]\<close>: every upload that has been packed writes behind it.\<close>

lemma upload_always_overruns:
  assumes "length mac = 6" "fst (compress_file_to_gzip gz e (ol_file s))"
  shows "log_upload gz mac e s = None"
proof -
  have "length (hex_text False bs) = 2 * length bs" for bs by (induction bs) (simp_all add: hex_text_def hex2_def)
  with assms show ?thesis
    by (cases "compress_file_to_gzip gz e (ol_file s)") (simp add: log_upload_def log_upload_info_def c_str_def c_strncpy_def)
qed

text \<open>A packing that fails after the packed file was opened leaves it open.\<close>

lemma failed_packing_leaks:
  "compress_file_to_gzip gz e (Some bytes) = (False, Some out, n) \<Longrightarrow> n = 1"
  by (auto simp: compress_file_to_gzip_def split: if_splits prod.splits)

end
