(* ===== verification/SystemManager.thy ===== *)
theory SystemManager
  imports SdCard
begin

text \<open>
  The system manager (\<open>app/system_manager.c\<close>): the handshakes with the server, the clock, the reports of the
  state of the device and the return to the factory settings; and the items it keeps in flash
  (\<open>bsp/nv_interface.c\<close>).

  \<^item> A report is a block of memory whose address travels through the queue of the task; \<open>sy_store\<close> holds the
    live blocks. \<open>Uninit\<close> is the parameter of a notification whose sender set the command only.
  \<^item> A request to the server is an event with the version, the length, the type and the data that
    \<open>assemble_remote_json\<close> is called with.
  \<^item> The JSON of a report is a tree; printing it is the library's (\<open>jprint\<close>).
  \<^item> The flash library keeps a map from keys to numbers; each of its calls may fail.
\<close>

section \<open>Items in flash\<close>

datatype nv_type_t = NV_ITEM_AUDIO_VOLUME | NV_ITEM_POWER_ON_MODE | NV_ITEM_SYSTEM_PANIC_COUNT | NV_ITEM_UNDEFINE

definition nv_key :: "nv_type_t \<Rightarrow> string option" where
  "nv_key name =
     (case name of
        NV_ITEM_AUDIO_VOLUME \<Rightarrow> Some ''audio_volume''
      | NV_ITEM_SYSTEM_PANIC_COUNT \<Rightarrow> Some ''panic_count''
      | NV_ITEM_POWER_ON_MODE \<Rightarrow> Some ''power_on''
      | NV_ITEM_UNDEFINE \<Rightarrow> None)"

abbreviation ESP_ERR_INVALID_ARG :: int where "ESP_ERR_INVALID_ARG \<equiv> 0x102"
abbreviation ESP_ERR_INVALID_RESPONSE :: int where "ESP_ERR_INVALID_RESPONSE \<equiv> 0x108"
abbreviation ESP_ERR_NVS_NOT_FOUND :: int where "ESP_ERR_NVS_NOT_FOUND \<equiv> 0x1102"

text \<open>The error and the value of the item behind the call.\<close>

definition get_nv_item :: "bool \<Rightarrow> nv_type_t \<times> int \<Rightarrow> (string \<rightharpoonup> int) \<Rightarrow> int \<times> int" where
  "get_nv_item open_ok item nv =
     (if \<not> open_ok then (- ESP_ERR_INVALID_RESPONSE, snd item)
      else (case nv_key (fst item) of
              None \<Rightarrow> (- ESP_ERR_INVALID_ARG, snd item)
            | Some key \<Rightarrow> (case nv key of None \<Rightarrow> (ESP_ERR_NVS_NOT_FOUND, snd item) | Some v \<Rightarrow> (0, v))))"

text \<open>\<open>set_err\<close>, \<open>commit_err\<close>: what the library answers, 0 when it works.\<close>

definition set_nv_item :: "bool \<Rightarrow> int \<Rightarrow> int \<Rightarrow> nv_type_t \<times> int \<Rightarrow> (string \<rightharpoonup> int) \<Rightarrow> int \<times> (string \<rightharpoonup> int)" where
  "set_nv_item open_ok set_err commit_err item nv =
     (if \<not> open_ok then (- ESP_ERR_INVALID_RESPONSE, nv)
      else (case nv_key (fst item) of
              None \<Rightarrow> (- ESP_ERR_INVALID_ARG, nv)
            | Some key \<Rightarrow> (if set_err \<noteq> 0 then (set_err, nv) else (commit_err, nv(key \<mapsto> snd item)))))"

section \<open>Numbers in texts\<close>

definition digit_val :: "char \<Rightarrow> nat" where
  "digit_val c =
     (let n = (of_char c :: nat)
      in if 48 \<le> n \<and> n \<le> 57 then n - 48 else if 97 \<le> n \<and> n \<le> 102 then n - 87 else if 65 \<le> n \<and> n \<le> 70 then n - 55 else 36)"

fun digits_val :: "nat \<Rightarrow> nat \<Rightarrow> string \<Rightarrow> nat" where
  "digits_val base acc [] = acc"
| "digits_val base acc (c # cs) = (if digit_val c < base then digits_val base (acc * base + digit_val c) cs else acc)"

definition is_white :: "char \<Rightarrow> bool" where
  "is_white c \<longleftrightarrow> c = CHR '' '' \<or> (of_char c :: nat) \<in> {9..13}"

text \<open>\<open>strtol(s, NULL, 0)\<close> with a \<open>long\<close> of 32 bits.\<close>

definition strtol0 :: "string \<Rightarrow> int" where
  "strtol0 s =
     (let t = dropWhile is_white s;
          u = (case t of [] \<Rightarrow> [] | c # cs \<Rightarrow> if c = CHR ''-'' \<or> c = CHR ''+'' then cs else t);
          n = (case u of
                 a # b # c # cs \<Rightarrow>
                   if a = CHR ''0'' \<and> (b = CHR ''x'' \<or> b = CHR ''X'') \<and> digit_val c < 16 then digits_val 16 0 (c # cs)
                   else if a = CHR ''0'' then digits_val 8 0 u else digits_val 10 0 u
               | a # cs \<Rightarrow> if a = CHR ''0'' then digits_val 8 0 u else digits_val 10 0 u
               | [] \<Rightarrow> 0);
          v = (if t \<noteq> [] \<and> hd t = CHR ''-'' then - int n else int n)
      in max (- (2 ^ 31)) (min (2 ^ 31 - 1) v))"

definition dec_int :: "int \<Rightarrow> string" where
  "dec_int i = (if i < 0 then CHR ''-'' # dec_nat (nat (- i)) else dec_nat (nat i))"

section \<open>The state\<close>

datatype system_cmd_t = SYS_CMD_POWERON_HANDSHAKE | SYS_CMD_HEARTBEAT_HANDSHAKE | SYS_CMD_DEVICE_STATUS_FIRST
  | SYS_CMD_DEVICE_STATUS | SYS_CMD_FACTORY_RESET | SYS_CMD_UNDEFINE

record device_notify_t =
  dn_first :: bool
  dn_volume :: bool
  dn_song :: bool
  dn_song_time :: "32 word"

datatype notify_param = Uninit | Param addr

record system_notify_t =
  sn_command :: system_cmd_t
  sn_param :: notify_param

datatype json = JNum int | JStr string | JObj "(string \<times> json) list"

datatype sys_event = SysSend int nat int string | SysSetTime int | SysFreshAlarm | SysUnlink string | SysForgetWifi

abbreviation SYSTEM_QUEUE_SIZE :: nat where "SYSTEM_QUEUE_SIZE \<equiv> 10"
abbreviation S2C_DEVICE_HEARTBEAT_ACK :: int where "S2C_DEVICE_HEARTBEAT_ACK \<equiv> 2"
abbreviation S2C_FACTORY_RESET :: int where "S2C_FACTORY_RESET \<equiv> 0x8201"
abbreviation S2C_DEVICE_STATUS :: int where "S2C_DEVICE_STATUS \<equiv> 0x820a"
abbreviation LOGIN_VERSION_FAIL :: int where "LOGIN_VERSION_FAIL \<equiv> 1"
abbreviation LOGIN_VERSION_SUCCEED :: int where "LOGIN_VERSION_SUCCEED \<equiv> 0"
abbreviation DEVICE_HEARTBEAT_VERSION :: int where "DEVICE_HEARTBEAT_VERSION \<equiv> 2"
abbreviation DEVICE_DATA_VERSION :: int where "DEVICE_DATA_VERSION \<equiv> 0x80"

text \<open>\<open>sy_up\<close>: the device has not been restarted; \<open>sy_clock\<close>: the seconds of the clock.\<close>

record sysman =
  sy_queue :: "system_notify_t list"
  sy_store :: "addr \<rightharpoonup> device_notify_t"
  sy_connected_server :: bool
  sy_task :: bool
  sy_clock :: int
  sy_nv :: "string \<rightharpoonup> int"
  sy_up :: bool
  sy_trace :: "sys_event list"

definition sy_emit :: "sys_event list \<Rightarrow> sysman \<Rightarrow> sysman" where
  "sy_emit es s = s\<lparr>sy_trace := sy_trace s @ es\<rparr>"

definition sys_send :: "system_cmd_t \<Rightarrow> sysman \<Rightarrow> sysman" where
  "sys_send c s = s\<lparr>sy_queue := queue_send SYSTEM_QUEUE_SIZE \<lparr>sn_command = c, sn_param = Uninit\<rparr> (sy_queue s)\<rparr>"

section \<open>Reports\<close>

text \<open>
  \<open>mem\<close> is what \<open>malloc\<close> gives. The sender waits when the queue is full, that is, sends later: \<open>None\<close>.
\<close>

definition send_device_status :: "bool \<Rightarrow> addr option \<Rightarrow> bool \<Rightarrow> bool \<Rightarrow> bool \<Rightarrow> 32 word \<Rightarrow> sysman \<Rightarrow> sysman option" where
  "send_device_status online mem first song volume song_time s =
     (if \<not> online then Some s
      else (case mem of
              None \<Rightarrow> Some s
            | Some a \<Rightarrow>
                if length (sy_queue s) < SYSTEM_QUEUE_SIZE then
                  Some (s\<lparr>sy_store := (sy_store s)(a \<mapsto> \<lparr>dn_first = first, dn_volume = volume, dn_song = song, dn_song_time = song_time\<rparr>),
                          sy_queue := sy_queue s @ [\<lparr>sn_command = SYS_CMD_DEVICE_STATUS, sn_param = Param a\<rparr>]\<rparr>)
                else None))"

text \<open>What the rest of the device gives for a report, and the folders that a reset empties.\<close>

record sys_env =
  se_voltage :: "32 word"
  se_sn :: string
  se_sd_total :: "32 word"
  se_root :: "card_entry list option"
  se_volume :: int
  se_play :: "(string \<times> int) option"
  se_song :: string
  se_album :: string
  se_wechat :: "string list option"
  se_playlog :: "string list option"
  se_nv :: "bool \<times> int \<times> int"

text \<open>
  \<open>file\<close> has 48 bytes, the two identifiers 20: names that fill them have no terminator, and the JSON library reads on. Without
  an item \<open>file\<close> holds what was printed before.
\<close>

definition get_device_status :: "sys_env \<Rightarrow> bool \<Rightarrow> bool \<Rightarrow> bool \<Rightarrow> 32 word \<Rightarrow> (json \<times> string list) option" where
  "get_device_status e first volume song song_time = do {
     (spaces, file, gone) \<leftarrow>
       (if first then do {
          (total_space, use_space, gone) \<leftarrow> get_sd_free_space (se_sd_total e) (se_root e);
          let used = take 47 (dec_int (sint use_space) @ ''KB'');
          let all_space = take 47 (dec_int (sint total_space) @ ''KB'');
          Some ([(''used_space'', JStr used), (''total_space'', JStr all_space)], all_space, gone) }
        else Some ([], [], []));
     let vols = (if volume then [(''volume'', JNum (se_volume e))] else []);
     songs \<leftarrow>
       (if song then do {
          let (text, status) = (case se_play e of Some (name, st) \<Rightarrow> (take 48 name, st) | None \<Rightarrow> (file, 0));
          name \<leftarrow> c_str 48 text;
          songid \<leftarrow> c_str 20 (take 20 (se_song e));
          album \<leftarrow> c_str 20 (take 20 (se_album e));
          Some [(''name'', JStr name), (''status'', JNum status), (''mseconds'', JNum (uint song_time)),
            (''songUid'', JStr songid), (''albumUid'', JStr album)] }
        else Some []);
     Some (JObj [(''type'', JNum S2C_DEVICE_STATUS), (''data'', JObj (spaces @ vols @ songs))], gone) }"

definition report_status :: "(json \<Rightarrow> string) \<Rightarrow> json \<times> string list \<Rightarrow> sysman \<Rightarrow> sysman" where
  "report_status jprint r s =
     (let json_data = jprint (fst r)
      in sy_emit (map SysUnlink (snd r) @ [SysSend DEVICE_DATA_VERSION (length json_data) S2C_DEVICE_STATUS json_data]) s)"

section \<open>Back to the factory settings\<close>

fun delete_names :: "string \<Rightarrow> string list \<Rightarrow> string list option" where
  "delete_names path [] = Some []"
| "delete_names path (name # names) = do {
     g_file_path \<leftarrow> file_path_of 256 path name;
     rest \<leftarrow> delete_names path names;
     Some (g_file_path # rest) }"

definition delete_file :: "string \<Rightarrow> string list option \<Rightarrow> string list option" where
  "delete_file path dir = (case dir of None \<Rightarrow> Some [] | Some names \<Rightarrow> delete_names path names)"

definition restore_gactory_setting :: "sys_env \<Rightarrow> sysman \<Rightarrow> sysman option" where
  "restore_gactory_setting e s = do {
     voices \<leftarrow> delete_file ''/sdcard/wechat'' (se_wechat e);
     plays \<leftarrow> delete_file ''/sdcard/PLAYLOG'' (se_playlog e);
     let s1 = sy_emit (map SysUnlink (voices @ plays @ [''/sdcard/wifi_info'', ''/sdcard/offlinelog.txt''])) s;
     let (open_ok, set_err, commit_err) = se_nv e;
     let s2 = s1\<lparr>sy_nv := snd (set_nv_item open_ok set_err commit_err (NV_ITEM_POWER_ON_MODE, 0) (sy_nv s1))\<rparr>;
     Some ((sy_emit [SysForgetWifi] s2)\<lparr>sy_up := False\<rparr>) }"

section \<open>Commands of the server\<close>

definition long_vaule_cmp :: "int \<Rightarrow> int \<Rightarrow> int" where
  "long_vaule_cmp a b = (if b < a then a - b else b - a)"

definition system_command_cb :: "bool \<times> int \<times> int \<Rightarrow> int \<Rightarrow> string \<Rightarrow> sysman \<Rightarrow> sysman" where
  "system_command_cb nv_env cmd_type data s =
     (if cmd_type = S2C_DEVICE_HEARTBEAT_ACK then
        (let new_time = strtol0 data
         in if long_vaule_cmp (sy_clock s) new_time > 3
            then sy_emit [SysSetTime (new_time + 1), SysFreshAlarm] (s\<lparr>sy_clock := new_time + 1\<rparr>) else s)
      else if cmd_type = LOGIN_VERSION_FAIL then sys_send SYS_CMD_POWERON_HANDSHAKE (s\<lparr>sy_connected_server := False\<rparr>)
      else if cmd_type = LOGIN_VERSION_SUCCEED then
        (let (open_ok, set_err, commit_err) = nv_env
         in s\<lparr>sy_connected_server := True, sy_nv := snd (set_nv_item open_ok set_err commit_err (NV_ITEM_POWER_ON_MODE, 1) (sy_nv s))\<rparr>)
      else if cmd_type = S2C_DEVICE_STATUS then sys_send SYS_CMD_DEVICE_STATUS s
      else if cmd_type = S2C_FACTORY_RESET then sys_send SYS_CMD_FACTORY_RESET s
      else s)"

section \<open>The task and the timer\<close>

text \<open>
  The parameter is read before it is tested. All 32 bytes of the array of the serial number are sent.
\<close>

definition system_task :: "(json \<Rightarrow> string) \<Rightarrow> sys_env \<Rightarrow> sysman \<Rightarrow> sysman option" where
  "system_task jprint e s =
     (case queue_receive (sy_queue s) of
        None \<Rightarrow> Some s
      | Some (n, q) \<Rightarrow>
          (let s1 = s\<lparr>sy_queue := q\<rparr>
           in case sn_command n of
                SYS_CMD_HEARTBEAT_HANDSHAKE \<Rightarrow>
                  (let buf = take 9 (dec_int (sint (se_voltage e)))
                   in Some (sy_emit [SysSend DEVICE_HEARTBEAT_VERSION (length buf) S2C_DEVICE_HEARTBEAT_ACK buf] s1))
              | SYS_CMD_POWERON_HANDSHAKE \<Rightarrow> Some (sy_emit [SysSend LOGIN_VERSION_SUCCEED 32 0 (se_sn e)] s1)
              | SYS_CMD_DEVICE_STATUS \<Rightarrow>
                  (case sn_param n of
                     Uninit \<Rightarrow> None
                   | Param a \<Rightarrow> do {
                       d \<leftarrow> sy_store s1 a;
                       r \<leftarrow> get_device_status e (dn_first d) (dn_volume d) (dn_song d) (dn_song_time d);
                       Some (report_status jprint r (s1\<lparr>sy_store := (sy_store s1)(a := None)\<rparr>)) })
              | SYS_CMD_DEVICE_STATUS_FIRST \<Rightarrow> map_option (\<lambda>r. report_status jprint r s1) (get_device_status e True True False 0)
              | SYS_CMD_FACTORY_RESET \<Rightarrow> restore_gactory_setting e s1
              | SYS_CMD_UNDEFINE \<Rightarrow> Some s1))"

definition system_manager_tick :: "bool \<Rightarrow> sysman \<Rightarrow> sysman" where
  "system_manager_tick online s =
     (if online then sys_send (if sy_connected_server s then SYS_CMD_HEARTBEAT_HANDSHAKE else SYS_CMD_POWERON_HANDSHAKE) s else s)"

definition force_handshake_with_server :: "bool \<Rightarrow> sysman \<Rightarrow> sysman" where
  "force_handshake_with_server online s =
     (if sy_task s then system_manager_tick online (s\<lparr>sy_connected_server := False\<rparr>) else s)"

definition system_manager_init :: "bool \<Rightarrow> (string \<rightharpoonup> int) \<Rightarrow> sysman" where
  "system_manager_init timer_ok nv =
     \<lparr>sy_queue = [], sy_store = Map.empty, sy_connected_server = False, sy_task = timer_ok, sy_clock = 0, sy_nv = nv, sy_up = True, sy_trace = []\<rparr>"

text \<open>As \<open>task_exit\<close> is never given back, who ends the manager while its task has run waits for ever.\<close>

definition system_manager_uninit :: "sysman \<Rightarrow> sysman option" where
  "system_manager_uninit s = (if sy_task s then None else Some (sys_send SYS_CMD_UNDEFINE s))"

datatype sys_op = SysCommand "bool \<times> int \<times> int" int string | SysReport bool "addr option" bool bool bool "32 word"
  | SysTick bool | SysForce bool | SysRound sys_env | SysClock int

text \<open>\<open>SysClock\<close>: the clock runs on, or another part of the device sets it.\<close>

definition sys_step :: "(json \<Rightarrow> string) \<Rightarrow> sys_op \<Rightarrow> sysman \<Rightarrow> sysman option" where
  "sys_step jprint op s =
     (if \<not> sy_up s then Some s
      else (case op of
        SysCommand nv_env ty data \<Rightarrow> Some (system_command_cb nv_env ty data s)
      | SysReport online mem first song volume song_time \<Rightarrow> send_device_status online mem first song volume song_time s
      | SysTick online \<Rightarrow> Some (system_manager_tick online s)
      | SysForce online \<Rightarrow> Some (force_handshake_with_server online s)
      | SysRound e \<Rightarrow> if sy_task s then system_task jprint e s else Some s
      | SysClock t \<Rightarrow> Some (s\<lparr>sy_clock := t\<rparr>)))"

end
