(* ===== verification/SystemManager_Props.thy ===== *)
theory SystemManager_Props
  imports SystemManager
begin

text \<open>
  Reports are neither lost nor read twice; the clock follows the server; the handshake is repeated until the login has
  succeeded; items in flash are read back.
\<close>

section \<open>Reports\<close>

definition params :: "system_notify_t list \<Rightarrow> addr list" where
  "params q = concat (map (\<lambda>n. case sn_param n of Uninit \<Rightarrow> [] | Param a \<Rightarrow> [a]) q)"

lemma params_simps [simp]:
  "params [] = []" "params (n # q) = (case sn_param n of Uninit \<Rightarrow> [] | Param a \<Rightarrow> [a]) @ params q"
  "params (q @ q') = params q @ params q'"
  by (simp_all add: params_def)

text \<open>The live blocks are those of the queue, each once, and a report always has one.\<close>

definition sys_inv :: "sysman \<Rightarrow> bool" where
  "sys_inv s \<longleftrightarrow> (sy_up s \<longrightarrow> length (sy_queue s) \<le> SYSTEM_QUEUE_SIZE \<and> distinct (params (sy_queue s)) \<and>
     dom (sy_store s) = set (params (sy_queue s)) \<and>
     (\<forall>n\<in>set (sy_queue s). (sn_command n = SYS_CMD_DEVICE_STATUS) = (sn_param n \<noteq> Uninit)))"

lemma sys_inv_send: "sys_inv s \<Longrightarrow> c \<noteq> SYS_CMD_DEVICE_STATUS \<Longrightarrow> sys_inv (sys_send c s)"
  by (auto simp: sys_inv_def sys_send_def queue_send_def)

lemma sys_inv_fields [simp]:
  "sys_inv (s\<lparr>sy_clock := t\<rparr>) = sys_inv s" "sys_inv (s\<lparr>sy_connected_server := b\<rparr>) = sys_inv s"
  "sys_inv (s\<lparr>sy_nv := nv\<rparr>) = sys_inv s" "sys_inv (sy_emit es s) = sys_inv s"
  by (simp_all add: sys_inv_def sy_emit_def)

text \<open>The card, the story player and the folders give names that fit into the arrays they are copied to.\<close>

definition sys_env_ok :: "sys_env \<Rightarrow> bool" where
  "sys_env_ok e \<longleftrightarrow> get_sd_free_space (se_sd_total e) (se_root e) \<noteq> None \<and>
     (\<forall>name st. se_play e = Some (name, st) \<longrightarrow> length name < 48) \<and> length (se_song e) < 20 \<and> length (se_album e) < 20 \<and>
     delete_file ''/sdcard/wechat'' (se_wechat e) \<noteq> None \<and> delete_file ''/sdcard/PLAYLOG'' (se_playlog e) \<noteq> None"

definition sys_ok :: "sys_op \<Rightarrow> sysman \<Rightarrow> bool" where
  "sys_ok op s =
     (case op of
        SysCommand nv_env ty data \<Rightarrow> ty \<noteq> S2C_DEVICE_STATUS
      | SysReport online mem first song volume t \<Rightarrow>
          online \<longrightarrow> length (sy_queue s) < SYSTEM_QUEUE_SIZE \<and> (\<forall>a. mem = Some a \<longrightarrow> a \<notin> dom (sy_store s))
      | SysRound e \<Rightarrow> sys_env_ok e
      | _ \<Rightarrow> True)"

lemma get_device_status_defined:
  assumes "sys_env_ok e"
  shows "\<exists>r. get_device_status e first volume song t = Some r"
proof -
  obtain a b c where "get_sd_free_space (se_sd_total e) (se_root e) = Some (a, b, c)"
    using assms by (cases "get_sd_free_space (se_sd_total e) (se_root e)") (auto simp: sys_env_ok_def)
  with assms show ?thesis by (cases "se_play e") (auto simp: sys_env_ok_def get_device_status_def Let_def c_str_def)
qed

lemma restore_defined:
  assumes "sys_env_ok e"
  shows "\<exists>s'. restore_gactory_setting e s = Some s' \<and> \<not> sy_up s'"
  using assms by (auto simp: sys_env_ok_def restore_gactory_setting_def Let_def split: prod.splits)

lemma sys_inv_down: "\<not> sy_up s \<Longrightarrow> sys_inv s"
  by (simp add: sys_inv_def)

lemma sys_inv_receive:
  assumes "sys_inv s" "sy_queue s = n # q" "sn_param n = Uninit"
  shows "sys_inv (s\<lparr>sy_queue := q\<rparr>)"
  using assms by (auto simp: sys_inv_def)

lemma sys_inv_free:
  assumes "sys_inv s" "sy_queue s = n # q" "sn_param n = Param a"
  shows "sys_inv (s\<lparr>sy_queue := q, sy_store := (sy_store s)(a := None)\<rparr>)"
  using assms by (auto simp: sys_inv_def)

lemma system_task_safe:
  assumes "sys_inv s" "sys_env_ok e" "sy_up s"
  shows "\<exists>s'. system_task jprint e s = Some s' \<and> sys_inv s'"
proof (cases "sy_queue s")
  case Nil
  then show ?thesis using assms by (simp add: system_task_def)
next
  case (Cons n q)
  show ?thesis
  proof (cases "sn_param n")
    case (Param a)
    then have c: "sn_command n = SYS_CMD_DEVICE_STATUS" and "a \<in> dom (sy_store s)" using assms Cons by (auto simp: sys_inv_def)
    then obtain d where d: "sy_store s a = Some d" by blast
    obtain r where "get_device_status e (dn_first d) (dn_volume d) (dn_song d) (dn_song_time d) = Some r"
      using get_device_status_defined [OF assms(2)] by blast
    with c d Cons Param sys_inv_free [OF assms(1) Cons Param] show ?thesis
      by (simp add: system_task_def report_status_def Let_def)
  next
    case Uninit
    then have c: "sn_command n \<noteq> SYS_CMD_DEVICE_STATUS" using assms Cons by (auto simp: sys_inv_def)
    note inv = sys_inv_receive [OF assms(1) Cons Uninit]
    obtain r where r: "get_device_status e True True False 0 = Some r" using get_device_status_defined [OF assms(2)] by blast
    obtain s' where s': "restore_gactory_setting e (s\<lparr>sy_queue := q\<rparr>) = Some s'" "\<not> sy_up s'"
      using restore_defined [OF assms(2)] by blast
    show ?thesis
      using c Cons inv r s' sys_inv_down [of s'] by (cases "sn_command n") (simp_all add: system_task_def report_status_def Let_def)
  qed
qed

interpretation sysm: safe_machine "sys_step jprint" sys_inv sys_ok for jprint
proof unfold_locales
  fix s op
  assume s: "sys_inv s" "sys_ok op s"
  show "\<exists>s'. sys_step jprint op s = Some s' \<and> sys_inv s'"
  proof (cases "sy_up s")
    case True
    show ?thesis
    proof (cases op)
      case (SysCommand nv_env ty data)
      then have "sys_inv (system_command_cb nv_env ty data s)"
        using s by (auto simp: system_command_cb_def sys_ok_def sys_inv_send Let_def split: prod.split)
      then show ?thesis using SysCommand True by (simp add: sys_step_def)
    next
      case (SysReport online mem first song volume t)
      then show ?thesis using s True
        by (cases mem) (auto simp: sys_step_def sys_ok_def send_device_status_def sys_inv_def)
    next
      case (SysTick online)
      then show ?thesis using s True by (simp add: sys_step_def system_manager_tick_def sys_inv_send)
    next
      case (SysForce online)
      then show ?thesis using s True by (simp add: sys_step_def force_handshake_with_server_def system_manager_tick_def sys_inv_send)
    next
      case (SysRound e)
      then show ?thesis using s True system_task_safe [of s e jprint] by (simp add: sys_step_def sys_ok_def)
    next
      case (SysClock t)
      then show ?thesis using s True by (simp add: sys_step_def)
    qed
  qed (simp add: sys_step_def s(1))
qed

lemma sys_inv_init: "sys_inv (system_manager_init timer_ok nv)"
  by (simp add: sys_inv_def system_manager_init_def)


definition idle_env :: sys_env where
  "idle_env = \<lparr>se_voltage = 3900, se_sn = replicate 32 CHR ''7'', se_sd_total = 1000, se_root = None, se_volume = 5, se_play = None,
     se_song = [], se_album = [], se_wechat = None, se_playlog = None, se_nv = (True, 0, 0)\<rparr>"


text \<open>The server's own question sends a notification without a parameter, which the task reads through.\<close>

lemma status_question_is_undefined:
  assumes "sy_up s" "sy_task s" "sy_queue s = []"
  shows "run_opt (sys_step jprint) [SysCommand nv_env S2C_DEVICE_STATUS data, SysRound e] s = None"
  using assms by (simp add: sys_step_def system_command_cb_def sys_send_def queue_send_def system_task_def)

section \<open>The clock\<close>

lemma digits_val_append:
  "\<forall>c\<in>set xs. digit_val c < base \<Longrightarrow> digits_val base acc (xs @ ys) = digits_val base (digits_val base acc xs) ys"
  by (induction xs arbitrary: acc) simp_all

lemma digit_val_digit: "d < 10 \<Longrightarrow> digit_val (char_of (48 + d)) = d"
  by (simp add: digit_val_def Let_def of_char_of)

lemma digit_char_neq:
  fixes d :: nat
  assumes "d < 10" "(of_char c :: nat) \<notin> {48..57}"
  shows "char_of (48 + d) \<noteq> c"
proof
  assume "char_of (48 + d) = c"
  then have "(of_char c :: nat) = (48 + d) mod 256" by (auto simp: of_char_of)
  with assms show False by simp
qed

lemma dec_nat_digits: "\<forall>c\<in>set (dec_nat n). digit_val c < 10 \<and> \<not> is_white c \<and> c \<noteq> CHR ''-'' \<and> c \<noteq> CHR ''+''"
proof (induction n rule: dec_nat.induct)
  case (1 n)
  have d: "digit_val (char_of (48 + d)) < 10 \<and> \<not> is_white (char_of (48 + d)) \<and> (char_of (48 + d) :: char) \<noteq> CHR ''-'' \<and> (char_of (48 + d) :: char) \<noteq> CHR ''+''"
    if "d < 10" for d :: nat
    using that digit_val_digit [OF that] digit_char_neq [OF that, of "CHR '' ''"] digit_char_neq [OF that, of "CHR ''-''"]
      digit_char_neq [OF that, of "CHR ''+''"] by (simp add: is_white_def of_char_of)
  show ?case
  proof (cases "n < 10")
    case True
    then show ?thesis using d [of n] by (simp add: dec_nat.simps [of n])
  next
    case False
    then show ?thesis using 1 d [of "n mod 10"] by (simp add: dec_nat.simps [of n])
  qed
qed

lemma digits_val_dec: "digits_val 10 0 (dec_nat n) = n"
proof (induction n rule: dec_nat.induct)
  case (1 n)
  show ?case
  proof (cases "n < 10")
    case True
    then show ?thesis by (simp add: dec_nat.simps [of n] digit_val_digit)
  next
    case False
    then show ?thesis using 1 dec_nat_digits [of "n div 10"]
      by (simp add: dec_nat.simps [of n] digits_val_append digit_val_digit)
  qed
qed

lemma dec_nat_head: "0 < n \<Longrightarrow> \<exists>c cs. dec_nat n = c # cs \<and> c \<noteq> CHR ''0''"
proof (induction n rule: dec_nat.induct)
  case (1 n)
  show ?case
  proof (cases "n < 10")
    case True
    have "char_of (48 + n) \<noteq> CHR ''0''"
    proof
      assume "char_of (48 + n) = CHR ''0''"
      then have "digit_val CHR ''0'' = n" using digit_val_digit [OF True] by simp
      with "1.prems" show False by (simp add: digit_val_def)
    qed
    with True show ?thesis by (simp add: dec_nat.simps [of n])
  next
    case False
    then have "0 < n div 10" by (simp add: div_greater_zero_iff)
    with 1 False obtain c cs where "dec_nat (n div 10) = c # cs" "c \<noteq> CHR ''0''" by blast
    then show ?thesis using False by (simp add: dec_nat.simps [of n])
  qed
qed

lemma strtol0_dec: "n < 2 ^ 31 \<Longrightarrow> strtol0 (dec_nat n) = int n"
proof (cases "n = 0")
  case True
  have "char_of (of_char CHR ''0'' :: nat) = CHR ''0''" by (rule char_of_char)
  then have z: "dec_nat 0 = ''0''" by (simp add: dec_nat.simps [of 0])
  show ?thesis unfolding True z by (simp add: strtol0_def is_white_def digit_val_def)
next
  case False
  assume n: "n < 2 ^ 31"
  obtain c cs where c: "dec_nat n = c # cs" "c \<noteq> CHR ''0''" using False dec_nat_head by blast
  have ws: "\<not> is_white c" "c \<noteq> CHR ''-''" "c \<noteq> CHR ''+''" using dec_nat_digits [of n] c(1) by simp_all
  have v: "digits_val 10 0 (c # cs) = n" using digits_val_dec [of n] c(1) by simp
  show ?thesis unfolding strtol0_def c(1) using ws c(2) v n
    by (cases cs; cases "tl cs") (simp_all add: Let_def del: digits_val.simps)
qed

text \<open>The server answers a heartbeat with its time in decimal seconds. Then the clock is at most three seconds away from it; it is set, and
the alarms are told to start afresh, exactly when it was further away; nothing else changes.\<close>

theorem clock_follows_the_server:
  assumes "t < 2 ^ 31" "sy_up s"
  shows "\<exists>s'. sys_step jprint (SysCommand nv_env S2C_DEVICE_HEARTBEAT_ACK (dec_nat t)) s = Some s' \<and>
    \<bar>sy_clock s' - int t\<bar> \<le> 3 \<and>
    sy_trace s' = sy_trace s @ (if \<bar>sy_clock s - int t\<bar> \<le> 3 then [] else [SysSetTime (int t + 1), SysFreshAlarm]) \<and>
    s' = s\<lparr>sy_clock := sy_clock s', sy_trace := sy_trace s'\<rparr>"
  using assms strtol0_dec [OF assms(1)]
  by (auto simp: sys_step_def system_command_cb_def long_vaule_cmp_def sy_emit_def Let_def abs_if split: if_splits)

lemma clock_follows_the_server_witness:
  "sy_trace (the (sys_step (\<lambda>j. []) (SysCommand (True, 0, 0) S2C_DEVICE_HEARTBEAT_ACK (dec_nat 1514764800)) (system_manager_init True Map.empty)))
     = [SysSetTime 1514764801, SysFreshAlarm]"
  using clock_follows_the_server [of 1514764800 "system_manager_init True Map.empty" "\<lambda>j. []" "(True, 0, 0)"]
  by (auto simp: system_manager_init_def)

text \<open>\<open>strtol\<close> is called with base 0: a leading zero makes the number octal.\<close>

lemma leading_zero_is_octal: "strtol0 ''0100'' = 64"
  by (simp add: strtol0_def is_white_def digit_val_def)

section \<open>Handshakes\<close>

text \<open>Whether the last word on the login was a success.\<close>

fun logged_in :: "bool \<Rightarrow> sys_op list \<Rightarrow> bool" where
  "logged_in b [] = b"
| "logged_in b (SysCommand nv_env ty data # ops) =
     logged_in (if ty = LOGIN_VERSION_SUCCEED then True else if ty = LOGIN_VERSION_FAIL then False else b) ops"
| "logged_in b (SysForce online # ops) = logged_in False ops"
| "logged_in b (op # ops) = logged_in b ops"

lemma step_login:
  assumes "sys_step jprint op s = Some s'" "sy_up s'" "sy_task s"
  shows "sy_task s' \<and> sy_up s \<and> logged_in (sy_connected_server s) (op # ops) = logged_in (sy_connected_server s') ops"
proof -
  have up: "sy_up s" using assms(1,2) by (auto simp: sys_step_def split: if_splits)
  have "restore_gactory_setting e t = Some t' \<Longrightarrow> \<not> sy_up t'" for e t t'
    by (cases "se_nv e") (auto simp: restore_gactory_setting_def Let_def ub_simps)
  then show ?thesis using assms up
    by (cases op) (auto simp: sys_step_def system_command_cb_def sys_send_def sy_emit_def Let_def send_device_status_def system_manager_tick_def
      force_handshake_with_server_def system_task_def report_status_def ub_simps
      split: if_splits option.splits prod.splits system_cmd_t.splits notify_param.splits)
qed

text \<open>Until a login has succeeded, and again from a forced handshake on, a tick asks for the login and not for a heartbeat.\<close>

lemma handshake_until_login:
  assumes "run_opt (sys_step jprint) ops s = Some s'" "sy_task s" "sy_up s'"
  shows "sy_connected_server s' = logged_in (sy_connected_server s) ops"
  using assms
proof (induction ops arbitrary: s)
  case (Cons op ops)
  then obtain s1 where s1: "sys_step jprint op s = Some s1" "run_opt (sys_step jprint) ops s1 = Some s'" by (auto simp: ub_simps)
  have down: "run_opt (sys_step jprint) ops t = Some t' \<Longrightarrow> \<not> sy_up t \<Longrightarrow> \<not> sy_up t'" for ops t t'
    by (induction ops arbitrary: t) (auto simp: sys_step_def)
  have "sy_up s1" using down [OF s1(2)] Cons.prems(3) by blast
  from step_login [OF s1(1) this Cons.prems(2), of ops] Cons.IH [OF s1(2)] Cons.prems(3) show ?case by simp
qed simp

section \<open>Items in flash\<close>

lemma nv_roundtrip:
  assumes "set_nv_item open_ok 0 commit_err (name, v) nv = (0, nv')" "name \<noteq> NV_ITEM_UNDEFINE"
  shows "get_nv_item True (name, w) nv' = (0, v)" "name' \<noteq> name \<Longrightarrow> get_nv_item True (name', w) nv' = get_nv_item True (name', w) nv"
proof -
  obtain key where key: "nv_key name = Some key" using assms(2) by (cases name) (simp_all add: nv_key_def)
  then have nv': "nv' = nv(key \<mapsto> v)" using assms(1) by (simp add: set_nv_item_def split: if_splits)
  then show "get_nv_item True (name, w) nv' = (0, v)" using key by (simp add: get_nv_item_def)
  show "get_nv_item True (name', w) nv' = get_nv_item True (name', w) nv" if "name' \<noteq> name"
    using that key nv' by (cases name; cases name') (auto simp: get_nv_item_def nv_key_def)
qed

lemma failed_open_keeps_item: "get_nv_item False (name, w) nv = (- ESP_ERR_INVALID_RESPONSE, w)"
  by (simp add: get_nv_item_def)

end
