(* ===== verification/Restore.thy ===== *)
theory Restore
  imports KeyEvent
begin

text \<open>
  The reset key and the keys in factory mode (\<open>bsp/restore.c\<close>): the listener compares the time of the release of the
  reset key with that of its last press and sends a long press to a task, which restarts the device.

  \<^item> \<open>rs_stamp\<close> is the time of the press, a static variable of the listener; it is not cleared by a release.
  \<^item> \<open>rs_queue\<close> is \<open>None\<close> until it has been created; a sender that finds it full waits: \<open>None\<close>.
  \<^item> Tones, records and deletions are events.
\<close>

abbreviation KEY_CODE_VOICE_RECOGNIZE :: nat where "KEY_CODE_VOICE_RECOGNIZE \<equiv> 3"
abbreviation KEY_CODE_RESET :: nat where "KEY_CODE_RESET \<equiv> 12"
abbreviation RESTORE_QUEUE_SIZE :: nat where "RESTORE_QUEUE_SIZE \<equiv> 15"
abbreviation RESTORE_SEC :: int where "RESTORE_SEC \<equiv> 5"

datatype restore_event = RsTone string | RsRecordStart | RsRecordStop | RsPlay string | RsUnlink string | RsRestart

record restore =
  rs_factory :: bool
  rs_stamp :: timeval
  rs_queue :: "nat list option"
  rs_task :: bool
  rs_up :: bool
  rs_trace :: "restore_event list"

definition rs_emit :: "restore_event list \<Rightarrow> restore \<Rightarrow> restore" where
  "rs_emit es s = s\<lparr>rs_trace := rs_trace s @ es\<rparr>"

definition zero_time :: timeval where "zero_time = \<lparr>tv_sec = 0, tv_usec = 0\<rparr>"

definition restore_send :: "nat \<Rightarrow> restore \<Rightarrow> restore option" where
  "restore_send cmd s =
     (case rs_queue s of
        None \<Rightarrow> None
      | Some q \<Rightarrow> if length q < RESTORE_QUEUE_SIZE then Some (s\<lparr>rs_queue := Some (q @ [cmd])\<rparr>) else None)"

definition system_reset_keyprocess :: "keyevent_t \<Rightarrow> restore \<Rightarrow> restore option" where
  "system_reset_keyprocess event s =
     (if ke_code event = KEY_CODE_RESET then
        (case ke_type event of
           KEY_EVNET_PRESS \<Rightarrow>
             (let s1 = s\<lparr>rs_stamp := ke_timestamp event\<rparr>
              in Some (if rs_factory s then rs_emit [RsTone ''/sdcard/factory/test_reset.mp3''] s1 else s1))
         | KEY_EVNET_RELEASE \<Rightarrow>
             (if tv_sec (rs_stamp s) \<noteq> 0 \<or> tv_usec (rs_stamp s) \<noteq> 0 then
                (let threshold = sint (tv_sec (ke_timestamp event) - tv_sec (rs_stamp s))
                 in if threshold > RESTORE_SEC then restore_send (ke_code event) s else Some s)
              else Some (s\<lparr>rs_stamp := zero_time\<rparr>))
         | _ \<Rightarrow> Some (s\<lparr>rs_stamp := zero_time\<rparr>))
      else if \<not> rs_factory s then Some s
      else if ke_type event = KEY_EVNET_PRESS \<and> ke_code event = KEY_CODE_VOICE_RECOGNIZE then
        Some (rs_emit [RsTone ''/sdcard/factory/3.mp3'', RsRecordStart] s)
      else if ke_type event = KEY_EVNET_RELEASE then restore_send (ke_code event) s
      else Some s)"

definition reset_audio_record_cb :: "restore \<Rightarrow> restore" where
  "reset_audio_record_cb = rs_emit [RsPlay ''/sdcard/factory/test.amr'']"

definition tone_path :: "nat \<Rightarrow> string option" where
  "tone_path cmd = c_str 32 (''/sdcard/factory/'' @ dec_nat cmd @ ''.mp3'')"

definition restore_task :: "restore \<Rightarrow> restore option" where
  "restore_task s =
     (case rs_queue s of
        Some (cmd # q) \<Rightarrow>
          (let s1 = s\<lparr>rs_queue := Some q\<rparr>
           in if KEY_CODE_UNDEFINE \<le> cmd then Some s1
              else do {
                path \<leftarrow> tone_path cmd;
                Some (if cmd = KEY_CODE_RESET then
                        (rs_emit [RsTone path, RsUnlink ''/sdcard/factory/test.amr'', RsUnlink ''/sdcard/wifi_info'',
                           RsUnlink ''/sdcard/upgrade_step'', RsRestart] s1)\<lparr>rs_up := False\<rparr>
                      else if cmd = KEY_CODE_VOICE_RECOGNIZE then rs_emit [RsRecordStop] s1
                      else rs_emit [RsTone path] s1) })
      | _ \<Rightarrow> Some s)"

definition restore_zero :: "bool \<Rightarrow> restore" where
  "restore_zero factory = \<lparr>rs_factory = factory, rs_stamp = zero_time, rs_queue = None, rs_task = False, rs_up = True, rs_trace = []\<rparr>"

definition restore_mask :: "bool \<Rightarrow> 32 word" where
  "restore_mask factory =
     (if factory then foldr (\<lambda>k m. KEYCODE_TO_KEYMASK k OR m) [0, 1, 2, 3, 4, 5, 6, 8, 9, 10, 12] 0
      else KEYCODE_TO_KEYMASK KEY_CODE_RESET)"

text \<open>The listener is registered before there is a queue: \<open>restore_zero\<close> is what its first events may meet.\<close>

definition restore_init :: "bool \<Rightarrow> bool \<Rightarrow> bool \<Rightarrow> bool \<Rightarrow> int \<times> restore" where
  "restore_init factory listener queue_ok task_ok =
     (let s = restore_zero factory
      in if \<not> listener then (-1, s)
         else if \<not> queue_ok then (-2, s)
         else if \<not> task_ok then (-3, s)
         else (0, s\<lparr>rs_queue := Some [], rs_task := True\<rparr>))"

definition restore_uninit :: "restore \<Rightarrow> restore" where
  "restore_uninit s = s\<lparr>rs_task := False, rs_queue := None\<rparr>"

definition set_factory_mode :: "bool \<Rightarrow> restore \<Rightarrow> restore" where
  "set_factory_mode mode s = s\<lparr>rs_factory := mode\<rparr>"

datatype restore_op = RsKey keyevent_t | RsRound | RsRecorded

definition restore_step :: "restore_op \<Rightarrow> restore \<Rightarrow> restore option" where
  "restore_step op s =
     (if \<not> rs_up s then Some s
      else (case op of
        RsKey e \<Rightarrow> system_reset_keyprocess e s
      | RsRound \<Rightarrow> if rs_task s then restore_task s else Some s
      | RsRecorded \<Rightarrow> Some (reset_audio_record_cb s)))"

section \<open>Only a long press restarts the device\<close>

definition reset_press :: "keyevent_t \<Rightarrow> bool" where
  "reset_press e \<longleftrightarrow> ke_code e = KEY_CODE_RESET \<and> ke_type e = KEY_EVNET_PRESS"

text \<open>The last press of the reset key before its release is more than five seconds earlier.\<close>

definition long_press :: "restore_op list \<Rightarrow> bool" where
  "long_press ops \<longleftrightarrow>
     (\<exists>xs e1 ys e2 zs. ops = xs @ RsKey e1 # ys @ RsKey e2 # zs \<and> reset_press e1 \<and> (\<forall>e. RsKey e \<in> set ys \<longrightarrow> \<not> reset_press e) \<and>
        ke_code e2 = KEY_CODE_RESET \<and> ke_type e2 = KEY_EVNET_RELEASE \<and>
        sint (tv_sec (ke_timestamp e2) - tv_sec (ke_timestamp e1)) > RESTORE_SEC)"

definition pressed_at :: "restore_op list \<Rightarrow> timeval \<Rightarrow> bool" where
  "pressed_at ops t \<longleftrightarrow>
     (\<exists>xs e ys. ops = xs @ RsKey e # ys \<and> reset_press e \<and> ke_timestamp e = t \<and> (\<forall>e. RsKey e \<in> set ys \<longrightarrow> \<not> reset_press e))"

lemma pressed_snoc: "pressed_at ops t \<Longrightarrow> (\<And>e. op = RsKey e \<Longrightarrow> \<not> reset_press e) \<Longrightarrow> pressed_at (ops @ [op]) t"
  unfolding pressed_at_def by (elim exE conjE, rename_tac xs e ys, rule_tac x = xs in exI, rule_tac x = e in exI, rule_tac x = "ys @ [op]" in exI) auto

lemma pressed_now: "reset_press e \<Longrightarrow> pressed_at (ops @ [RsKey e]) (ke_timestamp e)"
  unfolding pressed_at_def by (intro exI [of _ ops] exI [of _ e] exI [of _ "[]"]) simp

lemma long_press_snoc: "long_press ops \<Longrightarrow> long_press (ops @ [op])"
  unfolding long_press_def by (elim exE, rename_tac xs e1 ys e2 zs, rule_tac x = xs in exI, rule_tac x = e1 in exI, rule_tac x = ys in exI,
    rule_tac x = e2 in exI, rule_tac x = "zs @ [op]" in exI) simp

lemma long_press_now:
  assumes "pressed_at ops t" "ke_code e = KEY_CODE_RESET" "ke_type e = KEY_EVNET_RELEASE" "sint (tv_sec (ke_timestamp e) - tv_sec t) > RESTORE_SEC"
  shows "long_press (ops @ [RsKey e])"
proof -
  obtain xs e1 ys where "ops = xs @ RsKey e1 # ys" "reset_press e1" "ke_timestamp e1 = t" "\<forall>e. RsKey e \<in> set ys \<longrightarrow> \<not> reset_press e"
    using assms(1) by (auto simp: pressed_at_def)
  then show ?thesis using assms(2-4) unfolding long_press_def
    by (intro exI [of _ xs] exI [of _ e1] exI [of _ ys] exI [of _ e] exI [of _ "[]"]) simp
qed

definition rs_queued :: "restore \<Rightarrow> nat list" where
  "rs_queued s = (case rs_queue s of None \<Rightarrow> [] | Some q \<Rightarrow> q)"

lemma rs_queued_fields [simp]: "rs_queued (s\<lparr>rs_stamp := t\<rparr>) = rs_queued s" "rs_queued (rs_emit es s) = rs_queued s"
  by (simp_all add: rs_queued_def rs_emit_def)

text \<open>What the state says about the past.\<close>

definition restore_past :: "restore_op list \<Rightarrow> restore \<Rightarrow> bool" where
  "restore_past ops s \<longleftrightarrow>
     (rs_up s \<and> (tv_sec (rs_stamp s) \<noteq> 0 \<or> tv_usec (rs_stamp s) \<noteq> 0) \<longrightarrow> pressed_at ops (rs_stamp s)) \<and>
     (KEY_CODE_RESET \<in> set (rs_queued s) \<or> RsRestart \<in> set (rs_trace s) \<longrightarrow> long_press ops)"

lemma restore_send_Some:
  "restore_send cmd s = Some s' \<Longrightarrow> rs_stamp s' = rs_stamp s \<and> rs_trace s' = rs_trace s \<and> rs_queued s' = rs_queued s @ [cmd]"
  by (auto simp: restore_send_def rs_queued_def split: option.splits if_splits)

lemma restore_past_key:
  assumes "restore_past ops s" "rs_up s" "system_reset_keyprocess e s = Some s'"
  shows "restore_past (ops @ [RsKey e]) s'"
proof (cases "reset_press e")
  case True
  then have "rs_stamp s' = ke_timestamp e" "rs_queued s' = rs_queued s" "RsRestart \<in> set (rs_trace s') \<longleftrightarrow> RsRestart \<in> set (rs_trace s)"
    using assms(3) by (auto simp: system_reset_keyprocess_def reset_press_def rs_emit_def rs_queued_def Let_def split: if_splits)
  with assms(1) pressed_now [OF True, of ops] show ?thesis by (auto simp: restore_past_def dest: long_press_snoc)
next
  case False
  have stamp: "rs_stamp s' = rs_stamp s \<or> rs_stamp s' = zero_time"
    using assms(3) False by (auto simp: system_reset_keyprocess_def reset_press_def rs_emit_def Let_def
      dest: restore_send_Some split: if_splits keypress_event_t.splits)
  have "RsRestart \<in> set (rs_trace s') \<longleftrightarrow> RsRestart \<in> set (rs_trace s)"
    using assms(3) by (auto simp: system_reset_keyprocess_def rs_emit_def Let_def
      dest: restore_send_Some split: if_splits keypress_event_t.splits)
  moreover have "KEY_CODE_RESET \<in> set (rs_queued s') \<Longrightarrow> KEY_CODE_RESET \<in> set (rs_queued s) \<or>
      (tv_sec (rs_stamp s) \<noteq> 0 \<or> tv_usec (rs_stamp s) \<noteq> 0) \<and> ke_code e = KEY_CODE_RESET \<and> ke_type e = KEY_EVNET_RELEASE \<and>
      sint (tv_sec (ke_timestamp e) - tv_sec (rs_stamp s)) > RESTORE_SEC"
    using assms(3) False by (auto simp: system_reset_keyprocess_def reset_press_def Let_def dest: restore_send_Some split: if_splits keypress_event_t.splits)
  ultimately show ?thesis using assms(1,2) stamp False
    by (auto simp: restore_past_def zero_time_def intro: pressed_snoc long_press_now dest: long_press_snoc)
qed

lemma restore_past_step:
  assumes "restore_past ops s" "restore_step op s = Some s'"
  shows "restore_past (ops @ [op]) s'"
proof (cases "rs_up s")
  case False
  then have "s' = s" using assms(2) by (simp add: restore_step_def)
  with False assms(1) show ?thesis by (auto simp: restore_past_def dest: long_press_snoc)
next
  case up: True
  show ?thesis
  proof (cases op)
    case (RsKey e)
    then show ?thesis using up assms restore_past_key by (simp add: restore_step_def)
  next
    case RsRound
    have "rs_stamp s' = rs_stamp s" "KEY_CODE_RESET \<in> set (rs_queued s') \<or> RsRestart \<in> set (rs_trace s') \<Longrightarrow>
        KEY_CODE_RESET \<in> set (rs_queued s) \<or> RsRestart \<in> set (rs_trace s)"
      using up assms(2) RsRound by (auto simp: restore_step_def restore_task_def rs_queued_def rs_emit_def Let_def ub_simps
        split: if_splits option.splits list.splits)
    with assms(1) RsRound up show ?thesis by (auto simp: restore_past_def intro: pressed_snoc dest: long_press_snoc)
  next
    case RsRecorded
    then have "s' = reset_audio_record_cb s" using up assms(2) by (simp add: restore_step_def)
    with assms(1) RsRecorded up show ?thesis
      by (auto simp: restore_past_def reset_audio_record_cb_def rs_emit_def rs_queued_def intro: pressed_snoc dest: long_press_snoc)
  qed
qed

lemma restore_past_run:
  "run_opt restore_step ops s = Some s' \<Longrightarrow> restore_past past s \<Longrightarrow> restore_past (past @ ops) s'"
proof (induction ops arbitrary: s past)
  case (Cons op ops)
  then obtain s1 where "restore_step op s = Some s1" "run_opt restore_step ops s1 = Some s'" by (auto simp: ub_simps)
  with Cons.IH [of s1 "past @ [op]"] restore_past_step [OF Cons.prems(2)] show ?case by simp
qed simp

text \<open>Whatever keys are pressed and released, in both modes and in every order with the rounds of the task: the device is restarted only if
the reset key was released more than five seconds, counted in whole seconds of the clock, after its last press.\<close>

theorem restart_needs_a_long_press:
  assumes "run_opt restore_step ops (snd (restore_init factory listener queue_ok task_ok)) = Some s" "RsRestart \<in> set (rs_trace s)"
  shows "long_press ops"
proof -
  have "restore_past [] (snd (restore_init factory listener queue_ok task_ok))"
    by (simp add: restore_past_def restore_init_def restore_zero_def zero_time_def rs_queued_def Let_def)
  from restore_past_run [OF assms(1) this] assms(2) show ?thesis by (simp add: restore_past_def)
qed

definition reset_event :: "keypress_event_t \<Rightarrow> 32 word \<Rightarrow> keyevent_t" where
  "reset_event ty sec = \<lparr>ke_code = KEY_CODE_RESET, ke_type = ty, ke_timestamp = \<lparr>tv_sec = sec, tv_usec = 0\<rparr>\<rparr>"

lemmas restore_run_simps = restore_step_def system_reset_keyprocess_def restore_send_def restore_task_def tone_path_def c_str_def
  rs_emit_def restore_init_def restore_zero_def zero_time_def reset_event_def dec_nat.simps Let_def

lemma restart_needs_a_long_press_witness:
  "let ops = [RsKey (reset_event KEY_EVNET_PRESS 10), RsKey (reset_event KEY_EVNET_RELEASE 16), RsRound] in
   (\<exists>s. run_opt restore_step ops (snd (restore_init False True True True)) = Some s \<and> RsRestart \<in> set (rs_trace s)) \<and> long_press ops"
proof -
  let ?ops = "[RsKey (reset_event KEY_EVNET_PRESS 10), RsKey (reset_event KEY_EVNET_RELEASE 16), RsRound]"
  obtain s where s: "run_opt restore_step ?ops (snd (restore_init False True True True)) = Some s" "RsRestart \<in> set (rs_trace s)"
    by (simp add: restore_run_simps)
  from restart_needs_a_long_press [OF s] s show ?thesis by auto
qed

text \<open>The press is not forgotten by a release: a later release without a press is measured from it.\<close>

lemma old_press_counts_again:
  "\<exists>s. run_opt restore_step [RsKey (reset_event KEY_EVNET_PRESS 10), RsKey (reset_event KEY_EVNET_RELEASE 11), RsKey (reset_event KEY_EVNET_RELEASE 16), RsRound]
     (snd (restore_init False True True True)) = Some s \<and> \<not> rs_up s"
  by (simp add: restore_run_simps)

text \<open>A clock that is set while the key is held, as at the first answer of the server, makes every press a long one.\<close>

lemma clock_set_while_held:
  "\<exists>s. run_opt restore_step [RsKey (reset_event KEY_EVNET_PRESS 10), RsKey (reset_event KEY_EVNET_RELEASE 1514764801), RsRound]
     (snd (restore_init False True True True)) = Some s \<and> \<not> rs_up s"
  by (simp add: restore_run_simps)

text \<open>A release before the queue exists is sent to no queue.\<close>

lemma early_key_has_no_queue:
  "run_opt restore_step [RsKey (reset_event KEY_EVNET_PRESS 10), RsKey (reset_event KEY_EVNET_RELEASE 16)] (restore_zero False) = None"
  by (simp add: restore_run_simps)

end
