(* ===== verification/Accel.thy ===== *)
theory Accel
  imports KeyEvent
begin

text \<open>
  The sensor that feels a pat (\<open>bsp/sc7a20.c\<close>): an interrupt of the acceleration chip, or of the spring switch on boards
  without it, sends a command to a task, which turns it into a press of the key \<open>KEY_CODE_PAT\<close> for the key task.

  \<^item> \<open>ac_listens\<close> is the pin that has a handler, \<open>ac_masked\<close> the pins whose interrupt is disabled.
  \<^item> The key task is the one of \<open>KeyEvent\<close>: a round of this task is a call of \<open>keyaction_notfiy\<close> on its state.
\<close>

datatype acc_pin = SC7A20_INT_0 | SC7A20_INT_1

datatype acc_cmd_t = ACC_CMD_INT_OCCUR | ACC_CMD_UNDEFINE

abbreviation ACC_QUEUE_SIZE :: nat where "ACC_QUEUE_SIZE \<equiv> 10"
abbreviation SC7A20_ID :: "8 word" where "SC7A20_ID \<equiv> 0x11"

record acc =
  ac_need_run :: bool
  ac_alive :: bool
  ac_use_sensor :: bool
  ac_listens :: acc_pin
  ac_masked :: "acc_pin list"
  ac_queue :: "acc_cmd_t list"

definition acc_isr :: "acc \<Rightarrow> acc" where
  "acc_isr s = (if ac_need_run s then s\<lparr>ac_queue := queue_send ACC_QUEUE_SIZE ACC_CMD_INT_OCCUR (ac_queue s)\<rparr> else s)"

text \<open>\<open>reg\<close> is what register 0x31 holds.\<close>

definition acc_task :: "8 word \<Rightarrow> timeval \<Rightarrow> acc \<times> kstate \<Rightarrow> acc \<times> kstate" where
  "acc_task reg now = (\<lambda>(s, k).
     (case queue_receive (ac_queue s) of
        None \<Rightarrow> (s, k)
      | Some (cmd, q) \<Rightarrow>
          (let s1 = s\<lparr>ac_queue := q\<rparr>
           in case cmd of
                ACC_CMD_INT_OCCUR \<Rightarrow>
                  (let val = (if ac_use_sensor s then reg else 1)
                   in if val \<noteq> 0 then
                        (s1, snd (keyaction_notfiy now (Some \<lparr>km_code = KEY_CODE_PAT, km_press = KEY_ACTION_PRESS, km_press_time = now\<rparr>) k))
                      else (s1, k))
              | ACC_CMD_UNDEFINE \<Rightarrow> (s1, k))))"

definition acc_enable :: "acc \<Rightarrow> acc" where
  "acc_enable s = s\<lparr>ac_masked := removeAll SC7A20_INT_1 (ac_masked s)\<rparr>"

definition acc_disable :: "acc \<Rightarrow> acc" where
  "acc_disable s = s\<lparr>ac_masked := List.insert SC7A20_INT_0 (ac_masked s)\<rparr>"

text \<open>
  \<open>early\<close>: the new task, which has a higher priority, runs before its creator sets \<open>task_need_run\<close>; then it leaves its
  loop at once and deletes itself.
\<close>

definition acc_init :: "8 word \<Rightarrow> bool \<Rightarrow> bool \<Rightarrow> int \<times> acc" where
  "acc_init val task_ok early =
     (let sensor = (val = SC7A20_ID);
          s = \<lparr>ac_need_run = False, ac_alive = False, ac_use_sensor = sensor,
               ac_listens = (if sensor then SC7A20_INT_0 else SC7A20_INT_1), ac_masked = [], ac_queue = []\<rparr>
      in if \<not> task_ok then (-1, s) else (0, s\<lparr>ac_need_run := True, ac_alive := \<not> early\<rparr>))"

text \<open>It waits for \<open>task_exit\<close>, which a task that has started holds for ever.\<close>

definition acc_uninit :: "acc \<Rightarrow> acc option" where
  "acc_uninit s =
     (let s1 = s\<lparr>ac_masked := List.insert SC7A20_INT_0 (ac_masked s), ac_need_run := False,
                ac_queue := queue_send ACC_QUEUE_SIZE ACC_CMD_UNDEFINE (ac_queue s)\<rparr>
      in if ac_alive s then None else Some (s1\<lparr>ac_use_sensor := False\<rparr>))"

datatype acc_op = AccEdge acc_pin | AccRound "8 word" timeval | AccEnable | AccDisable

definition acc_step :: "acc_op \<Rightarrow> acc \<times> kstate \<Rightarrow> acc \<times> kstate" where
  "acc_step op = (\<lambda>(s, k).
     (case op of
        AccEdge p \<Rightarrow> (if p = ac_listens s \<and> p \<notin> set (ac_masked s) then acc_isr s else s, k)
      | AccRound reg now \<Rightarrow> if ac_alive s then acc_task reg now (s, k) else (s, k)
      | AccEnable \<Rightarrow> (acc_enable s, k)
      | AccDisable \<Rightarrow> (acc_disable s, k)))"

fun acc_run :: "acc_op list \<Rightarrow> acc \<times> kstate \<Rightarrow> acc \<times> kstate" where
  "acc_run [] x = x"
| "acc_run (op # ops) x = acc_run ops (acc_step op x)"

section \<open>What the key task is told\<close>

text \<open>All messages that are added to the queue of the key task are presses of the pat key.\<close>

definition only_pats :: "kstate \<Rightarrow> kstate \<Rightarrow> bool" where
  "only_pats k k' \<longleftrightarrow> (\<exists>q ms. k_queue k = Some q \<and> k' = k\<lparr>k_queue := Some (q @ ms)\<rparr> \<and>
     (\<forall>m\<in>set ms. km_code m = KEY_CODE_PAT \<and> km_press m = KEY_ACTION_PRESS))"

lemma only_pats_refl: "k_queue k = Some q \<Longrightarrow> only_pats k k"
  by (auto simp: only_pats_def intro!: exI [of _ "[]"])

lemma only_pats_trans: "only_pats k k' \<Longrightarrow> only_pats k' k'' \<Longrightarrow> only_pats k k''"
  unfolding only_pats_def by (elim exE conjE, rename_tac q q' ms ms', rule_tac x = q in exI, rule_tac x = "ms @ ms'" in exI) auto

lemma notify_pat:
  assumes "k_queue k = Some q" "km_code m = KEY_CODE_PAT" "km_press m = KEY_ACTION_PRESS"
  shows "only_pats k (snd (keyaction_notfiy now (Some m) k))"
proof (cases "length q < 10")
  case True
  with assms show ?thesis
    by (auto simp: keyaction_notfiy_def queue_send_def only_pats_def intro!: exI [of _ "[m\<lparr>km_press_time := now\<rparr>]"])
next
  case False
  with assms(1) have "snd (keyaction_notfiy now (Some m) k) = k" by (simp add: keyaction_notfiy_def queue_send_def)
  with only_pats_refl [OF assms(1)] show ?thesis by simp
qed

lemma acc_step_pats: "k_queue k = Some q \<Longrightarrow> only_pats k (snd (acc_step op (s, k)))"
  using only_pats_refl [of k q] notify_pat [of k q]
  by (cases op) (auto simp: acc_step_def acc_task_def Let_def split: option.splits acc_cmd_t.splits)

lemma acc_run_pats: "k_queue k = Some q \<Longrightarrow> only_pats k (snd (acc_run ops (s, k)))"
proof (induction ops arbitrary: s k q)
  case Nil
  then show ?case by (simp add: only_pats_refl)
next
  case (Cons op ops)
  obtain s1 k1 where 1: "acc_step op (s, k) = (s1, k1)" by (cases "acc_step op (s, k)")
  with acc_step_pats [OF Cons.prems, of op s] have p: "only_pats k k1" by simp
  then obtain q1 where "k_queue k1 = Some q1" by (auto simp: only_pats_def)
  from only_pats_trans [OF p Cons.IH [OF this, of s1]] 1 show ?case by simp
qed

text \<open>An edge on the pin that is listened to, with an empty key queue, is one press of the pat key.\<close>

lemma edge_is_a_pat:
  assumes "ac_need_run s" "ac_alive s" "ac_queue s = []" "ac_listens s \<notin> set (ac_masked s)" "ac_use_sensor s \<longrightarrow> reg \<noteq> 0" "k_queue k = Some []"
  shows "k_queue (snd (acc_run [AccEdge (ac_listens s), AccRound reg now] (s, k))) =
    Some [\<lparr>km_code = KEY_CODE_PAT, km_press = KEY_ACTION_PRESS, km_press_time = now\<rparr>]"
  using assms by (simp add: acc_step_def acc_isr_def acc_task_def queue_send_def keyaction_notfiy_def Let_def)

text \<open>A task that started early is gone: no pat is ever reported.\<close>

lemma early_task_reports_nothing: "\<not> ac_alive s \<Longrightarrow> snd (acc_run ops (s, k)) = k"
proof (induction ops arbitrary: s)
  case (Cons op ops)
  obtain s1 where "acc_step op (s, k) = (s1, k)" "\<not> ac_alive s1"
    using Cons.prems by (cases op) (auto simp: acc_step_def acc_isr_def acc_enable_def acc_disable_def)
  with Cons.IH [of s1] show ?case by simp
qed simp

text \<open>Disabling masks the pin of the chip; enabling frees the other one.\<close>

lemma disabled_for_ever:
  "SC7A20_INT_0 \<in> set (ac_masked s) \<Longrightarrow> SC7A20_INT_0 \<in> set (ac_masked (fst (acc_run ops (s, k))))"
proof (induction ops arbitrary: s k)
  case (Cons op ops)
  obtain s1 k1 where 1: "acc_step op (s, k) = (s1, k1)" by (cases "acc_step op (s, k)")
  then have "SC7A20_INT_0 \<in> set (ac_masked s1)"
    using Cons.prems by (cases op) (auto simp: acc_step_def acc_isr_def acc_enable_def acc_disable_def acc_task_def Let_def
      split: if_splits option.splits acc_cmd_t.splits)
  with Cons.IH [OF this] 1 show ?case by simp
qed simp

lemma spring_is_never_disabled:
  "ac_listens s = SC7A20_INT_1 \<Longrightarrow> SC7A20_INT_1 \<notin> set (ac_masked s) \<Longrightarrow> SC7A20_INT_1 \<notin> set (ac_masked (acc_disable s))"
  by (simp add: acc_disable_def)

end
