(* ===== verification/NlpDecode.thy ===== *)
theory NlpDecode
  imports AuthCrypto
begin

text \<open>
  The answers of the speech service (\<open>sys/dcl_service/dcl_nlp_decode.c\<close>): a JSON text says whether the question was
  understood and holds either songs with their addresses or something to say.

  \<^item> Texts are their bytes; the constants of the source are in UTF-8.
  \<^item> \<open>NLP_RESULT_T\<close> has room for ten links; its arrays have 256, 1024 and 128 bytes, and \<open>snprintf\<close> cuts what is longer.
  \<^item> \<open>None\<close>: the code reads through NULL, or writes a link behind the last.
\<close>

datatype NLP_RESULT_TYPE_T = NLP_RESULT_TYPE_NONE | NLP_RESULT_TYPE_NO_ASR | NLP_RESULT_TYPE_NO_LICENSE
  | NLP_RESULT_TYPE_SHORT_AUDIO | NLP_RESULT_TYPE_CHAT | NLP_RESULT_TYPE_LINK | NLP_RESULT_TYPE_CMD
  | NLP_RESULT_TYPE_VOL_CMD | NLP_RESULT_TYPE_TRANSLATE | NLP_RESULT_TYPE_ERROR

datatype NLP_DECODE_ERRNO_t = NLP_DECODE_ERRNO_OK | NLP_DECODE_ERRNO_FAIL | NLP_DECODE_ERRNO_INVALID_JSON

record NLP_RESULT_LINK_T =
  lk_link_name :: string
  lk_link_url :: string

record NLP_RESULT_T =
  nr_input_text :: string
  nr_type :: NLP_RESULT_TYPE_T
  nr_chat_text :: string
  nr_chat_link :: string
  nr_links :: "NLP_RESULT_LINK_T list"

abbreviation NLP_SERVICE_LINK_MAX_NUM :: nat where "NLP_SERVICE_LINK_MAX_NUM \<equiv> 10"

definition nlp_zero :: NLP_RESULT_T where
  "nlp_zero = \<lparr>nr_input_text = [], nr_type = NLP_RESULT_TYPE_NONE, nr_chat_text = [], nr_chat_link = [], nr_links = []\<rparr>"

definition utf8 :: "nat list \<Rightarrow> string" where
  "utf8 bs = map char_of bs"

definition COMMAND_NAME_VOLUME_CTRL :: string where
  "COMMAND_NAME_VOLUME_CTRL = utf8 [0xE9, 0x9F, 0xB3, 0xE9, 0x87, 0x8F, 0xE8, 0xB0, 0x83, 0xE8, 0x8A, 0x82]"

definition COMMAND_NAME_MEMO_CTRL :: string where
  "COMMAND_NAME_MEMO_CTRL = utf8 [0xE5, 0xA4, 0x87, 0xE5, 0xBF, 0x98]"

text \<open>What is said before the name of a song, behind the name of its singer, and in place of a name.\<close>

definition NOW_PLAYING :: string where
  "NOW_PLAYING = utf8 [0xE6, 0xAD, 0xA3, 0xE5, 0x9C, 0xA8, 0xE7, 0xBB, 0x99, 0xE6, 0x82, 0xA8, 0xE6, 0x92, 0xAD, 0xE6, 0x94, 0xBE]"

definition SUNG_BY :: string where
  "SUNG_BY = utf8 [0xE7, 0x9A, 0x84]"

definition START_TO_PLAY :: string where
  "START_TO_PLAY = utf8 [0xE7, 0x8E, 0xB0, 0xE5, 0x9C, 0xA8, 0xE5, 0xBC, 0x80, 0xE5, 0xA7, 0x8B, 0xE6, 0x92, 0xAD, 0xE6, 0x94, 0xBE]"

definition lower :: "char \<Rightarrow> char" where
  "lower c = (let n = (of_char c :: nat) in if 65 \<le> n \<and> n \<le> 90 then char_of (n + 32) else c)"

definition strcasecmp :: "string \<Rightarrow> string \<Rightarrow> bool" where
  "strcasecmp a b \<longleftrightarrow> map lower a = map lower b"

definition member_text :: "'j cjson_array \<Rightarrow> 'j \<Rightarrow> string \<Rightarrow> string option" where
  "member_text j d name = Option.bind (cJSON_GetObjectItem j d name) (cj_valuestring j)"

section \<open>Songs\<close>

text \<open>The attributes of a song; \<open>artist_name\<close> has 32 bytes and lives for the whole list of songs.\<close>

fun attrs_loop :: "'j cjson_array \<Rightarrow> 'j list \<Rightarrow> string \<Rightarrow> string option" where
  "attrs_loop j [] artist = Some artist"
| "attrs_loop j (item # items) artist =
     Option.bind (cJSON_GetObjectItem j item ''attrName'') (\<lambda>name_item.
       (case cj_valuestring j name_item of
          None \<Rightarrow> attrs_loop j items artist
        | Some name \<Rightarrow>
            Option.bind (cJSON_GetObjectItem j item ''attrValue'') (\<lambda>value_item.
              attrs_loop j items
                (case cj_valuestring j value_item of
                   None \<Rightarrow> artist
                 | Some v \<Rightarrow> if name = ''artist'' then snprintf_str 32 (v @ SUNG_BY) else artist))))"

definition song_name :: "string \<Rightarrow> string option \<Rightarrow> string" where
  "song_name artist name =
     snprintf_str 128 (case name of Some n \<Rightarrow> NOW_PLAYING @ artist @ n | None \<Rightarrow> START_TO_PLAY)"

text \<open>
  The test for the address asks for both NULLs at once: a song without an address is read through NULL. The result of
  the loop is the list of links, the type and the last singer.
\<close>

fun music_loop :: "'j cjson_array \<Rightarrow> 'j list \<Rightarrow> string \<Rightarrow> NLP_RESULT_T \<Rightarrow> NLP_RESULT_T option" where
  "music_loop j [] artist r = Some r"
| "music_loop j (info # infos) artist r =
     Option.bind (member_text j info ''accessURL'') (\<lambda>url.
       if length (nr_links r) < NLP_SERVICE_LINK_MAX_NUM then
         Option.bind (case cJSON_GetObjectItem j info ''resAttrs'' of
                        None \<Rightarrow> Some artist
                      | Some attrs \<Rightarrow> attrs_loop j (cj_children j attrs) artist) (\<lambda>artist.
           music_loop j infos artist
             (r\<lparr>nr_type := NLP_RESULT_TYPE_LINK,
                nr_links := nr_links r @ [\<lparr>lk_link_name = song_name artist (member_text j info ''resName''),
                  lk_link_url = snprintf_str 128 url\<rparr>]\<rparr>))
       else None)"

definition chat_decode :: "'j cjson_array \<Rightarrow> 'j \<Rightarrow> NLP_RESULT_T \<Rightarrow> NLP_RESULT_T" where
  "chat_decode j d r =
     (let r0 = r\<lparr>nr_type := NLP_RESULT_TYPE_NONE\<rparr>;
          r1 = (case member_text j d ''ttsText'' of
                  None \<Rightarrow> r0
                | Some v \<Rightarrow> r0\<lparr>nr_type := NLP_RESULT_TYPE_CHAT, nr_chat_text := snprintf_str 1024 v\<rparr>)
      in case member_text j d ''ttsLink'' of
           None \<Rightarrow> r1
         | Some v \<Rightarrow> r1\<lparr>nr_type := NLP_RESULT_TYPE_CHAT, nr_chat_link := snprintf_str 1024 v\<rparr>)"

definition music_source_decode :: "'j cjson_array \<Rightarrow> 'j \<Rightarrow> NLP_RESULT_T \<Rightarrow> NLP_RESULT_T option" where
  "music_source_decode j d r = do {
     let songs = (case cJSON_GetObjectItem j d ''linkResources'' of None \<Rightarrow> [] | Some a \<Rightarrow> cj_children j a);
     r1 \<leftarrow> music_loop j (take NLP_SERVICE_LINK_MAX_NUM songs) [] r;
     Some (if nr_links r1 = [] then chat_decode j d r1 else r1) }"

section \<open>Answers\<close>

definition asr_text :: "'j cjson_array \<Rightarrow> 'j \<Rightarrow> NLP_RESULT_T \<Rightarrow> NLP_RESULT_T" where
  "asr_text j body r =
     (case Option.bind (cJSON_GetObjectItem j body ''asrData'') (\<lambda>d. member_text j d ''Result'') of
        None \<Rightarrow> r
      | Some v \<Rightarrow> r\<lparr>nr_input_text := snprintf_str 256 v\<rparr>)"

definition command_decode :: "'j cjson_array \<Rightarrow> 'j \<Rightarrow> NLP_RESULT_T \<Rightarrow> (NLP_DECODE_ERRNO_t \<times> NLP_RESULT_T) option" where
  "command_decode j body r =
     (case cJSON_GetObjectItem j body ''commandData'' of
        None \<Rightarrow> Some (NLP_DECODE_ERRNO_INVALID_JSON, r)
      | Some d \<Rightarrow>
          (case member_text j d ''commandName'' of
             None \<Rightarrow> Some (NLP_DECODE_ERRNO_INVALID_JSON, r)
           | Some name \<Rightarrow>
               if name = COMMAND_NAME_VOLUME_CTRL then Some (NLP_DECODE_ERRNO_OK, r\<lparr>nr_type := NLP_RESULT_TYPE_VOL_CMD\<rparr>)
               else if name = COMMAND_NAME_MEMO_CTRL then Some (NLP_DECODE_ERRNO_OK, r\<lparr>nr_type := NLP_RESULT_TYPE_CMD\<rparr>)
               else map_option (\<lambda>r. (NLP_DECODE_ERRNO_OK, r)) (music_source_decode j d r)))"

definition dcl_nlp_result_decode :: "'j cjson_array \<Rightarrow> string \<Rightarrow> NLP_RESULT_T \<Rightarrow> (NLP_DECODE_ERRNO_t \<times> NLP_RESULT_T) option" where
  "dcl_nlp_result_decode j json_string r =
     (case cJSON_Parse j json_string of
        None \<Rightarrow> Some (NLP_DECODE_ERRNO_INVALID_JSON, r)
      | Some body \<Rightarrow>
          (case Option.bind (cJSON_GetObjectItem j body ''responseHead'') (\<lambda>h. member_text j h ''statusCode'') of
             None \<Rightarrow> Some (NLP_DECODE_ERRNO_INVALID_JSON, r)
           | Some status \<Rightarrow>
               (let r1 = asr_text j body r
                in if strcasecmp status ''OK'' then command_decode j body r1
                   else if strcasecmp status ''RECOGNISE_FAIL'' \<or> strcasecmp status ''NO_INPUT_TEXT'' then
                     Some (NLP_DECODE_ERRNO_OK, r1\<lparr>nr_type := NLP_RESULT_TYPE_NO_ASR\<rparr>)
                   else if strcasecmp status ''NO_PRIVILEGE'' then Some (NLP_DECODE_ERRNO_OK, r1\<lparr>nr_type := NLP_RESULT_TYPE_NO_LICENSE\<rparr>)
                   else Some (NLP_DECODE_ERRNO_OK, r1\<lparr>nr_type := NLP_RESULT_TYPE_ERROR\<rparr>))))"

end
