(* ===== verification/DeepBrain.thy ===== *)
theory DeepBrain
  imports NlpDecode KeyEvent
begin

text \<open>
  The talk with the speech service (\<open>app/DeepBrainService.c\<close>): a key starts it; what is said is recorded and sent in a
  session of the service; its answer is played, and then it listens again, until nothing has been said for half a minute or the key
  is pressed again.

  \<^item> The key listener, the timer and the callbacks of the audio manager send commands to the record task; that task sends the
    finished result to the answer task. Both tasks share the handle and the result of the session.
  \<^item> \<open>db_live\<close> are the sessions that the service has memory for; ending one that is not live is undefined.
  \<^item> What the service, the memory and the clock give in a round is its environment. Calls of the audio manager, tones and calls of
    the service are events.
  \<^item> A sender that finds the queue of the record task full waits: \<open>None\<close>.
\<close>

datatype db_cmd = START_TO_RECORD | READ_TO_RECORD | STOP_TO_RECORD | SEND_AUDIO_DATA | TIME_10S_REMINED | TIME_30S_QUIT | DEEPBRAIN_QUIT

datatype DCL_ERROR_CODE_t = DCL_ERROR_CODE_OK | DCL_ERROR_CODE_FAIL | DCL_ERROR_CODE_SYS_INVALID_PARAMS
  | DCL_ERROR_CODE_SYS_NOT_ENOUGH_MEM | DCL_ERROR_CODE_NETWORK_DNS_FAIL | DCL_ERROR_CODE_NETWORK_UNAVAILABLE
  | DCL_ERROR_CODE_NETWORK_POOR | DCL_ERROR_CODE_SERVER_ERROR | DCL_ERROR_CODE_ASR_SHORT_AUDIO
  | DCL_ERROR_CODE_ASR_ENCODE_FAIL | DCL_ERROR_CODE_ASR_MAKE_PACK_FAIL

datatype db_tone = NOTIFY_AUDIO_NOT_CONNECT | NOTIFY_AUDIO_HELLO | NOTIFY_AUDIO_I_AM_IN | NOTIFY_AUDIO_START_TO_CHAT
  | NOTIFY_AUDIO_LET_ME_ALSO | NOTIFY_AUDIO_TALETELLING | NOTIFY_AUDIO_PLAY_CSONG | NOTIFY_AUDIO_READ_THREE
  | NOTIFY_AUDIO_TAKE_REST | NOTIFY_AUDIO_LEAVING | NOTIFY_AUDIO_BYE_BYE | NOTIFY_AUDIO_CAN_NOT_TRANSLATE

datatype db_event = DbFront | DbToneSync db_tone | DbTone db_tone | DbPlay string | DbRecordStart | DbRecordStop
  | DbBegin addr | DbWrite addr | DbEnd addr

abbreviation KEY_CODE_VOICE :: nat where "KEY_CODE_VOICE \<equiv> 3"
abbreviation QUEUE_MAX_SIZE :: nat where "QUEUE_MAX_SIZE \<equiv> 5"
abbreviation TIME_OUT_10S :: nat where "TIME_OUT_10S \<equiv> 8"
abbreviation TIME_OUT_20S :: nat where "TIME_OUT_20S \<equiv> 18"
abbreviation TIME_OUT_30S :: nat where "TIME_OUT_30S \<equiv> 28"

record deepbrain =
  db_working :: bool
  db_timer :: bool
  db_record_timer :: nat
  db_vad :: bool
  db_raw :: "db_cmd list"
  db_answers :: nat
  db_handle :: "addr option"
  db_live :: "addr set"
  db_error :: DCL_ERROR_CODE_t
  db_text :: string
  db_prv :: "db_cmd option"
  db_trace :: "db_event list"

definition db_emit :: "db_event list \<Rightarrow> deepbrain \<Rightarrow> deepbrain" where
  "db_emit es s = s\<lparr>db_trace := db_trace s @ es\<rparr>"

definition record_notify :: "db_cmd \<Rightarrow> deepbrain \<Rightarrow> deepbrain option" where
  "record_notify c s = (if length (db_raw s) < QUEUE_MAX_SIZE then Some (s\<lparr>db_raw := db_raw s @ [c]\<rparr>) else None)"

definition notification_record_cmd :: "db_cmd \<Rightarrow> deepbrain \<Rightarrow> deepbrain option" where
  "notification_record_cmd c s = record_notify c (db_emit [DbFront] s)"

section \<open>Callbacks, the timer and the key\<close>

datatype db_play_status = NOTIFY_STATUS_PLAY_FINISH | NOTIFY_STATUS_PLAY_ERROR | NOTIFY_STATUS_PLAY_DISTURBED | NOTIFY_STATUS_PLAY_STOPPED
  | NOTIFY_STATUS_PLAY_OTHER

datatype db_record_status = NOTIFY_STATUS_RECORD_DISTURBED | NOTIFY_STATUS_RECORD_EXCEED | NOTIFY_STATUS_RECORD_ERROR
  | NOTIFY_STATUS_RECORD_SEND | NOTIFY_STATUS_RECORD_READ | NOTIFY_STATUS_RECORD_OTHER

text \<open>Both branches of the test start the timer.\<close>

definition restart_timer :: "deepbrain \<Rightarrow> deepbrain" where
  "restart_timer s = s\<lparr>db_timer := True\<rparr>"

definition db_disturbed :: "deepbrain \<Rightarrow> deepbrain" where
  "db_disturbed s = s\<lparr>db_working := False, db_timer := False\<rparr>"

definition deepbrain_play_net_tone_cb :: "db_play_status \<Rightarrow> deepbrain \<Rightarrow> deepbrain option" where
  "deepbrain_play_net_tone_cb st s =
     (case st of
        NOTIFY_STATUS_PLAY_FINISH \<Rightarrow> if db_working s then notification_record_cmd START_TO_RECORD (restart_timer s) else Some s
      | NOTIFY_STATUS_PLAY_ERROR \<Rightarrow> if db_working s then notification_record_cmd START_TO_RECORD (restart_timer s) else Some s
      | NOTIFY_STATUS_PLAY_DISTURBED \<Rightarrow> Some (db_disturbed s)
      | _ \<Rightarrow> Some s)"

definition deepbrain_tone_play_cb :: "db_play_status \<Rightarrow> deepbrain \<Rightarrow> deepbrain option" where
  "deepbrain_tone_play_cb st s =
     (case st of
        NOTIFY_STATUS_PLAY_FINISH \<Rightarrow> if db_working s then notification_record_cmd START_TO_RECORD (restart_timer s) else Some s
      | NOTIFY_STATUS_PLAY_DISTURBED \<Rightarrow> Some (db_disturbed s)
      | _ \<Rightarrow> Some s)"

definition deepbrain_audio_record_cb :: "db_record_status \<Rightarrow> deepbrain \<Rightarrow> deepbrain option" where
  "deepbrain_audio_record_cb st s =
     (case st of
        NOTIFY_STATUS_RECORD_DISTURBED \<Rightarrow> Some (db_disturbed s)
      | NOTIFY_STATUS_RECORD_EXCEED \<Rightarrow> if db_working s then notification_record_cmd START_TO_RECORD s else Some s
      | NOTIFY_STATUS_RECORD_ERROR \<Rightarrow> if db_working s then notification_record_cmd START_TO_RECORD s else Some s
      | NOTIFY_STATUS_RECORD_SEND \<Rightarrow> if db_vad s then record_notify SEND_AUDIO_DATA (s\<lparr>db_vad := False\<rparr>) else Some s
      | NOTIFY_STATUS_RECORD_READ \<Rightarrow> notification_record_cmd READ_TO_RECORD s
      | NOTIFY_STATUS_RECORD_OTHER \<Rightarrow> Some s)"

definition play_net_tone :: "string \<Rightarrow> deepbrain \<Rightarrow> deepbrain" where
  "play_net_tone url s = db_emit [DbPlay url] (s\<lparr>db_timer := False, db_record_timer := 0\<rparr>)"

definition deepbrain_timer_fun :: "deepbrain \<Rightarrow> deepbrain option" where
  "deepbrain_timer_fun s =
     (let s1 = s\<lparr>db_record_timer := db_record_timer s + 1\<rparr>; n = db_record_timer s1
      in if n = TIME_OUT_10S then (if db_working s then notification_record_cmd TIME_10S_REMINED s1 else Some s1)
         else if n = TIME_OUT_20S then (if db_working s then notification_record_cmd TIME_10S_REMINED s1 else Some s1)
         else if TIME_OUT_30S \<le> n then
           (if db_working s then notification_record_cmd TIME_30S_QUIT (s1\<lparr>db_record_timer := 0\<rparr>) else Some s1)
         else Some s1)"

definition hello_tone :: "nat \<Rightarrow> db_tone" where
  "hello_tone get_rand =
     (if get_rand \<le> 2 then NOTIFY_AUDIO_HELLO
      else if 3 \<le> get_rand \<and> get_rand \<le> 5 then NOTIFY_AUDIO_I_AM_IN
      else if 6 \<le> get_rand \<and> get_rand \<le> 8 then NOTIFY_AUDIO_START_TO_CHAT else NOTIFY_AUDIO_LET_ME_ALSO)"

definition deepbrain_keyprocess :: "bool \<Rightarrow> nat \<Rightarrow> nat \<Rightarrow> keypress_event_t \<Rightarrow> deepbrain \<Rightarrow> deepbrain option" where
  "deepbrain_keyprocess wifi now code ty s =
     (if code = KEY_CODE_VOICE \<and> ty = KEY_EVNET_PRESS then
        (if \<not> wifi then Some (db_emit [DbToneSync NOTIFY_AUDIO_NOT_CONNECT] s)
         else if \<not> db_working s then
           map_option restart_timer (record_notify START_TO_RECORD
             (db_emit [DbToneSync (hello_tone (now mod 10)), DbFront] (s\<lparr>db_record_timer := 0\<rparr>)))
         else record_notify DEEPBRAIN_QUIT (db_emit [DbFront] (s\<lparr>db_timer := False, db_record_timer := 0\<rparr>)))
      else Some s)"

section \<open>Sessions of the service\<close>

text \<open>What the service gives: memory and result of up to two beginnings, the result of a write, the answer.\<close>

record db_env =
  de_begin :: "addr option \<times> DCL_ERROR_CODE_t"
  de_again :: "addr option \<times> DCL_ERROR_CODE_t"
  de_copy :: bool
  de_write :: DCL_ERROR_CODE_t
  de_result :: "DCL_ERROR_CODE_t \<times> string option"
  de_now :: nat

definition dcl_asr_session_end :: "deepbrain \<Rightarrow> deepbrain option" where
  "dcl_asr_session_end s =
     (case db_handle s of
        None \<Rightarrow> Some s
      | Some a \<Rightarrow> if a \<in> db_live s then Some (db_emit [DbEnd a] (s\<lparr>db_live := db_live s - {a}, db_handle := None\<rparr>)) else None)"

text \<open>The handle is set to the memory even when the connection fails.\<close>

definition dcl_asr_session_begin :: "addr option \<times> DCL_ERROR_CODE_t \<Rightarrow> deepbrain \<Rightarrow> DCL_ERROR_CODE_t \<times> deepbrain" where
  "dcl_asr_session_begin r s =
     (case fst r of
        None \<Rightarrow> (DCL_ERROR_CODE_SYS_NOT_ENOUGH_MEM, s\<lparr>db_handle := None\<rparr>)
      | Some a \<Rightarrow> (snd r, db_emit [DbBegin a] (s\<lparr>db_live := insert a (db_live s), db_handle := Some a\<rparr>)))"

definition asr_rec_begin :: "db_env \<Rightarrow> deepbrain \<Rightarrow> deepbrain option" where
  "asr_rec_begin e s = do {
     s1 \<leftarrow> dcl_asr_session_end (s\<lparr>db_error := DCL_ERROR_CODE_OK, db_text := []\<rparr>);
     let (ret, s2) = dcl_asr_session_begin (de_begin e) s1;
     let (ret, s3) = (if ret \<noteq> DCL_ERROR_CODE_OK then dcl_asr_session_begin (de_again e) s2 else (ret, s2));
     Some (if ret \<noteq> DCL_ERROR_CODE_OK then s3\<lparr>db_error := ret\<rparr> else s3) }"

definition asr_rec_runing :: "db_env \<Rightarrow> deepbrain \<Rightarrow> deepbrain option" where
  "asr_rec_runing e s =
     (case db_handle s of
        None \<Rightarrow> Some s
      | Some a \<Rightarrow>
          (let s1 = db_emit [DbWrite a] s
           in if de_write e \<noteq> DCL_ERROR_CODE_OK then dcl_asr_session_end (s1\<lparr>db_error := de_write e\<rparr>) else Some s1))"

definition asr_rec_end :: "db_env \<Rightarrow> deepbrain \<Rightarrow> deepbrain option" where
  "asr_rec_end e s =
     (case db_handle s of
        None \<Rightarrow> Some s
      | Some a \<Rightarrow>
          dcl_asr_session_end (s\<lparr>db_error := fst (de_result e), db_text := (case snd (de_result e) of None \<Rightarrow> db_text s | Some t \<Rightarrow> t)\<rparr>))"

section \<open>The record task\<close>

definition reminder :: "nat \<Rightarrow> db_tone" where
  "reminder get_rand =
     (if get_rand \<le> 2 then NOTIFY_AUDIO_START_TO_CHAT
      else if 3 \<le> get_rand \<and> get_rand \<le> 5 then NOTIFY_AUDIO_TALETELLING
      else if 6 \<le> get_rand \<and> get_rand \<le> 8 then NOTIFY_AUDIO_PLAY_CSONG else NOTIFY_AUDIO_READ_THREE)"

definition stop_if_started :: "deepbrain \<Rightarrow> deepbrain" where
  "stop_if_started s = (if db_prv s = Some START_TO_RECORD then db_emit [DbRecordStop] s else s)"

definition record_command :: "db_env \<Rightarrow> db_cmd \<Rightarrow> deepbrain \<Rightarrow> deepbrain option" where
  "record_command e c s =
     (case c of
        START_TO_RECORD \<Rightarrow> do {
          s1 \<leftarrow> (if db_handle s = None then asr_rec_begin e s else Some s);
          Some (db_emit [DbRecordStart] (s1\<lparr>db_working := True, db_prv := Some START_TO_RECORD\<rparr>)) }
      | READ_TO_RECORD \<Rightarrow> if db_working s \<and> de_copy e then asr_rec_runing e s else Some s
      | STOP_TO_RECORD \<Rightarrow>
          Some (if db_prv s = Some START_TO_RECORD \<or> db_prv s = Some SEND_AUDIO_DATA then db_emit [DbRecordStop] (s\<lparr>db_timer := False\<rparr>) else s)
      | SEND_AUDIO_DATA \<Rightarrow>
          if db_working s then map_option (\<lambda>s1. s1\<lparr>db_answers := min QUEUE_MAX_SIZE (db_answers s1 + 1)\<rparr>) (asr_rec_end e s) else Some s
      | TIME_10S_REMINED \<Rightarrow> Some (db_emit [DbTone (reminder (de_now e mod 10))] (stop_if_started s))
      | TIME_30S_QUIT \<Rightarrow>
          map_option (\<lambda>s1. db_emit [DbToneSync (if de_now e mod 10 \<le> 5 then NOTIFY_AUDIO_TAKE_REST else NOTIFY_AUDIO_LEAVING)] (s1\<lparr>db_timer := False\<rparr>))
            (dcl_asr_session_end ((stop_if_started s)\<lparr>db_working := False\<rparr>))
      | DEEPBRAIN_QUIT \<Rightarrow>
          dcl_asr_session_end (db_emit [DbToneSync NOTIFY_AUDIO_BYE_BYE] ((stop_if_started s)\<lparr>db_working := False, db_timer := False\<rparr>)))"

definition task_record_raw_read :: "db_env \<Rightarrow> deepbrain \<Rightarrow> deepbrain option" where
  "task_record_raw_read e s =
     (case queue_receive (db_raw s) of None \<Rightarrow> Some s | Some (c, q) \<Rightarrow> record_command e c (s\<lparr>db_raw := q\<rparr>))"

section \<open>The answer task\<close>

definition not_understood :: "deepbrain \<Rightarrow> deepbrain" where
  "not_understood s = db_emit [DbTone NOTIFY_AUDIO_CAN_NOT_TRANSLATE] (s\<lparr>db_record_timer := 0\<rparr>)"

text \<open>The address of a text that is to be spoken is asked for twice.\<close>

definition answer_result :: "string option \<times> string option \<Rightarrow> NLP_RESULT_T \<Rightarrow> deepbrain \<Rightarrow> deepbrain option" where
  "answer_result tts r s =
     (case nr_type r of
        NLP_RESULT_TYPE_CHAT \<Rightarrow>
          Some (if nr_chat_link r \<noteq> [] then play_net_tone (nr_chat_link r) s
                else (case (if fst tts = None then snd tts else fst tts) of
                        Some url \<Rightarrow> play_net_tone (snprintf_str 2048 url) s
                      | None \<Rightarrow> not_understood s))
      | NLP_RESULT_TYPE_LINK \<Rightarrow>
          (case nr_links r of
             [] \<Rightarrow> Some (not_understood s)
           | k # ks \<Rightarrow> Some (if lk_link_url k \<noteq> [] then play_net_tone (lk_link_url k) s else not_understood s))
      | _ \<Rightarrow> Some (not_understood s))"

definition task_deepbrain_nlp :: "'j cjson_array \<Rightarrow> string option \<times> string option \<Rightarrow> deepbrain \<Rightarrow> deepbrain option" where
  "task_deepbrain_nlp j tts s =
     (if db_answers s = 0 then Some s
      else (let s1 = s\<lparr>db_answers := db_answers s - 1\<rparr>
            in if db_error s \<noteq> DCL_ERROR_CODE_OK then Some (not_understood s1)
               else do {
                 (err, r) \<leftarrow> dcl_nlp_result_decode j (db_text s) nlp_zero;
                 (if err \<noteq> NLP_DECODE_ERRNO_OK then Some (not_understood s1) else answer_result tts r s1) }))"

section \<open>All that happens\<close>

definition deep_brain_zero :: deepbrain where
  "deep_brain_zero = \<lparr>db_working = False, db_timer = False, db_record_timer = 0, db_vad = False, db_raw = [], db_answers = 0,
     db_handle = None, db_live = {}, db_error = DCL_ERROR_CODE_OK, db_text = [], db_prv = None, db_trace = []\<rparr>"

text \<open>\<open>DbSpeech\<close>: the recorder has heard speech.\<close>

datatype db_op = DbKey bool nat nat keypress_event_t | DbTimer | DbNetCb db_play_status | DbToneCb db_play_status
  | DbRecordCb db_record_status | DbSpeech | DbRecordRound db_env | DbAnswerRound "string option \<times> string option"

definition db_step :: "'j cjson_array \<Rightarrow> db_op \<Rightarrow> deepbrain \<Rightarrow> deepbrain option" where
  "db_step j op s =
     (case op of
        DbKey wifi now code ty \<Rightarrow> deepbrain_keyprocess wifi now code ty s
      | DbTimer \<Rightarrow> if db_timer s then deepbrain_timer_fun s else Some s
      | DbNetCb st \<Rightarrow> deepbrain_play_net_tone_cb st s
      | DbToneCb st \<Rightarrow> deepbrain_tone_play_cb st s
      | DbRecordCb st \<Rightarrow> deepbrain_audio_record_cb st s
      | DbSpeech \<Rightarrow> Some (s\<lparr>db_vad := True\<rparr>)
      | DbRecordRound e \<Rightarrow> task_record_raw_read e s
      | DbAnswerRound tts \<Rightarrow> task_deepbrain_nlp j tts s)"

end
