(* ===== verification/NlpDecode_Props.thy ===== *)
theory NlpDecode_Props
  imports NlpDecode
begin

text \<open>
  What is made of the answers that the service documents: trees of texts, objects and lists, as cJSON gives them. An answer with songs
  gives their addresses in order; one with none gives what is to be said; every other status gives its type.
\<close>

section \<open>Trees\<close>

datatype jtree = JText string | JList "jtree list" | JObject "(string \<times> jtree) list"

text \<open>The library over such trees, for a parser of the texts.\<close>

definition tree_lib :: "(string \<Rightarrow> jtree option) \<Rightarrow> jtree cjson_array" where
  "tree_lib parse = \<lparr>cJSON_Parse = parse,
     cJSON_GetObjectItem = (\<lambda>d k. case d of JObject ms \<Rightarrow> map_of ms k | _ \<Rightarrow> None),
     cj_valuestring = (\<lambda>d. case d of JText t \<Rightarrow> Some t | _ \<Rightarrow> None), cj_valueint = (\<lambda>d. 0),
     cj_children = (\<lambda>d. case d of JList ds \<Rightarrow> ds | _ \<Rightarrow> [])\<rparr>"

lemma tree_lib_simps [simp]:
  "cJSON_Parse (tree_lib parse) = parse"
  "cJSON_GetObjectItem (tree_lib parse) (JObject ms) k = map_of ms k"
  "cj_valuestring (tree_lib parse) (JText t) = Some t"
  "cj_children (tree_lib parse) (JList ds) = ds"
  by (simp_all add: tree_lib_def)

text \<open>A song: its address, its name and its singer, of which the last two may be missing.\<close>

record song =
  so_url :: string
  so_name :: "string option"
  so_artist :: "string option"

definition song_tree :: "song \<Rightarrow> jtree" where
  "song_tree x = JObject ([(''accessURL'', JText (so_url x))] @
     (case so_name x of None \<Rightarrow> [] | Some n \<Rightarrow> [(''resName'', JText n)]) @
     (case so_artist x of None \<Rightarrow> []
      | Some a \<Rightarrow> [(''resAttrs'', JList [JObject [(''attrName'', JText ''artist''), (''attrValue'', JText a)]])]))"

definition answer_tree :: "string \<Rightarrow> string \<Rightarrow> string option \<Rightarrow> (string \<times> jtree) list \<Rightarrow> jtree" where
  "answer_tree status command heard members = JObject ([(''responseHead'', JObject [(''statusCode'', JText status)])] @
     (case heard of None \<Rightarrow> [] | Some t \<Rightarrow> [(''asrData'', JObject [(''Result'', JText t)])]) @
     [(''commandData'', JObject ((''commandName'', JText command) # members))])"

section \<open>Songs\<close>

text \<open>Who is announced with each song: a song without a singer is announced with the one before.\<close>

fun singers :: "string \<Rightarrow> song list \<Rightarrow> string list" where
  "singers a [] = []"
| "singers a (x # xs) =
     (let a' = (case so_artist x of None \<Rightarrow> a | Some v \<Rightarrow> take 31 (v @ SUNG_BY)) in a' # singers a' xs)"

definition song_links :: "song list \<Rightarrow> NLP_RESULT_LINK_T list" where
  "song_links xs = map2 (\<lambda>a x. \<lparr>lk_link_name = song_name a (so_name x), lk_link_url = take 127 (so_url x)\<rparr>) (singers [] xs) xs"

lemma song_tree_members:
  "member_text (tree_lib p) (song_tree x) ''accessURL'' = Some (so_url x)"
  "member_text (tree_lib p) (song_tree x) ''resName'' = so_name x"
  "(case cJSON_GetObjectItem (tree_lib p) (song_tree x) ''resAttrs'' of None \<Rightarrow> Some a
    | Some attrs \<Rightarrow> attrs_loop (tree_lib p) (cj_children (tree_lib p) attrs) a) =
   Some (case so_artist x of None \<Rightarrow> a | Some v \<Rightarrow> take 31 (v @ SUNG_BY))"
  by (auto simp: member_text_def song_tree_def snprintf_str_def split: option.splits)

lemma music_loop_songs:
  "length (nr_links r) + length xs \<le> NLP_SERVICE_LINK_MAX_NUM \<Longrightarrow>
    music_loop (tree_lib p) (map song_tree xs) a r =
      Some (r\<lparr>nr_type := (if xs = [] then nr_type r else NLP_RESULT_TYPE_LINK),
        nr_links := nr_links r @ map2 (\<lambda>a x. \<lparr>lk_link_name = song_name a (so_name x), lk_link_url = take 127 (so_url x)\<rparr>) (singers a xs) xs\<rparr>)"
proof (induction xs arbitrary: a r)
  case Nil
  then show ?case by simp
next
  case (Cons x xs)
  then show ?case by (simp add: song_tree_members snprintf_str_def Let_def)
qed

lemma answer_tree_members:
  assumes "command \<noteq> COMMAND_NAME_VOLUME_CTRL" "command \<noteq> COMMAND_NAME_MEMO_CTRL" "parse t = Some (answer_tree status command heard ms)"
    "strcasecmp status ''OK''"
  shows "dcl_nlp_result_decode (tree_lib parse) t nlp_zero =
    map_option (\<lambda>r. (NLP_DECODE_ERRNO_OK, r)) (music_source_decode (tree_lib parse) (JObject ((''commandName'', JText command) # ms))
      (nlp_zero\<lparr>nr_input_text := (case heard of None \<Rightarrow> [] | Some h \<Rightarrow> take 255 h)\<rparr>))"
  using assms by (cases heard)
    (simp_all add: dcl_nlp_result_decode_def answer_tree_def member_text_def asr_text_def command_decode_def snprintf_str_def nlp_zero_def Let_def)

lemma songs_answer:
  assumes "parse t = Some (answer_tree status command heard (ms @ [(''linkResources'', JList (map song_tree xs))]))"
    "map_of ms ''linkResources'' = None" "strcasecmp status ''OK''" "command \<noteq> COMMAND_NAME_VOLUME_CTRL" "command \<noteq> COMMAND_NAME_MEMO_CTRL" "xs \<noteq> []"
  shows "dcl_nlp_result_decode (tree_lib parse) t nlp_zero =
    Some (NLP_DECODE_ERRNO_OK, nlp_zero\<lparr>nr_input_text := (case heard of None \<Rightarrow> [] | Some h \<Rightarrow> take 255 h), nr_type := NLP_RESULT_TYPE_LINK,
      nr_links := song_links (take NLP_SERVICE_LINK_MAX_NUM xs)\<rparr>)"
proof -
  let ?r = "nlp_zero\<lparr>nr_input_text := (case heard of None \<Rightarrow> [] | Some h \<Rightarrow> take 255 h)\<rparr>"
  let ?d = "JObject ((''commandName'', JText command) # ms @ [(''linkResources'', JList (map song_tree xs))])"
  have "cJSON_GetObjectItem (tree_lib parse) ?d ''linkResources'' = Some (JList (map song_tree xs))"
    using assms(2) by (simp add: map_add_def)
  moreover have "music_loop (tree_lib parse) (map song_tree (take NLP_SERVICE_LINK_MAX_NUM xs)) [] ?r =
      Some (?r\<lparr>nr_type := NLP_RESULT_TYPE_LINK, nr_links := song_links (take NLP_SERVICE_LINK_MAX_NUM xs)\<rparr>)"
    using music_loop_songs [of ?r "take NLP_SERVICE_LINK_MAX_NUM xs" parse "[]"] assms(6) by (simp add: nlp_zero_def song_links_def)
  moreover have "song_links (take NLP_SERVICE_LINK_MAX_NUM xs) \<noteq> []"
    using assms(6) by (cases xs) (simp_all add: song_links_def Let_def)
  ultimately show ?thesis
    using answer_tree_members [where parse = parse and t = t, OF assms(4,5,1,3)] by (simp add: music_source_decode_def take_map)
qed


definition two_song_list :: "song list" where
  "two_song_list = [\<lparr>so_url = ''http://a'', so_name = Some ''A'', so_artist = Some ''Li''\<rparr>, \<lparr>so_url = ''http://b'', so_name = None, so_artist = None\<rparr>]"

definition two_songs_answer :: jtree where
  "two_songs_answer = answer_tree ''Ok'' ''music'' (Some ''sing'') ([] @ [(''linkResources'', JList (map song_tree two_song_list))])"

lemma answer_names:
  "strcasecmp ''Ok'' ''OK''" "''music'' \<noteq> COMMAND_NAME_VOLUME_CTRL" "''music'' \<noteq> COMMAND_NAME_MEMO_CTRL"
  by code_simp+

lemma two_songs_decoded:
  "dcl_nlp_result_decode (tree_lib (\<lambda>t. Some two_songs_answer)) t nlp_zero = Some (NLP_DECODE_ERRNO_OK,
    nlp_zero\<lparr>nr_input_text := ''sing'', nr_type := NLP_RESULT_TYPE_LINK, nr_links := song_links two_song_list\<rparr>)"
  using songs_answer [where parse = "\<lambda>t. Some two_songs_answer" and t = t and heard = "Some ''sing''" and ms = "[]" and xs = two_song_list, OF _ _ answer_names]
  by (simp add: two_songs_answer_def two_song_list_def)


section \<open>Other answers\<close>

text \<open>An answer with something to say gives its text and its address; with neither it is nothing.\<close>

lemma chat_is_decoded:
  assumes "parse t = Some (answer_tree status command heard [(''ttsText'', JText say), (''ttsLink'', JText url)])"
    "strcasecmp status ''OK''" "command \<noteq> COMMAND_NAME_VOLUME_CTRL" "command \<noteq> COMMAND_NAME_MEMO_CTRL"
  shows "dcl_nlp_result_decode (tree_lib parse) t nlp_zero =
    Some (NLP_DECODE_ERRNO_OK, nlp_zero\<lparr>nr_input_text := (case heard of None \<Rightarrow> [] | Some h \<Rightarrow> take 255 h), nr_type := NLP_RESULT_TYPE_CHAT,
      nr_chat_text := take 1023 say, nr_chat_link := take 1023 url\<rparr>)"
  using answer_tree_members [where parse = parse and t = t, OF assms(3,4,1,2)]
  by (simp add: music_source_decode_def chat_decode_def member_text_def nlp_zero_def snprintf_str_def Let_def)

text \<open>The type of an answer whose status is not \<open>OK\<close> is that of the status.\<close>

lemma status_decides:
  assumes "cJSON_Parse j t = Some body" "cJSON_GetObjectItem j body ''responseHead'' = Some h" "member_text j h ''statusCode'' = Some status"
    "\<not> strcasecmp status ''OK''"
  shows "\<exists>r'. dcl_nlp_result_decode j t r = Some (NLP_DECODE_ERRNO_OK, r') \<and>
    nr_type r' = (if strcasecmp status ''RECOGNISE_FAIL'' \<or> strcasecmp status ''NO_INPUT_TEXT'' then NLP_RESULT_TYPE_NO_ASR
      else if strcasecmp status ''NO_PRIVILEGE'' then NLP_RESULT_TYPE_NO_LICENSE else NLP_RESULT_TYPE_ERROR)"
  using assms by (auto simp: dcl_nlp_result_decode_def Let_def)

text \<open>A song without an address is read through NULL.\<close>

lemma song_without_address_is_null:
  "member_text j info ''accessURL'' = None \<Longrightarrow> music_loop j (info # infos) a r = None"
  by simp

text \<open>A song without a singer is announced with the singer of the song before.\<close>

lemma singer_stays: "singers [] [\<lparr>so_url = u, so_name = n, so_artist = Some v\<rparr>, \<lparr>so_url = u', so_name = n', so_artist = None\<rparr>] =
    [take 31 (v @ SUNG_BY), take 31 (v @ SUNG_BY)]"
  by (simp add: Let_def)

end
