(* ===== verification/DeepBrain_Props.thy ===== *)
theory DeepBrain_Props
  imports DeepBrain NlpDecode_Props
begin

text \<open>
  At most one session of the service is open, and none is lost; a question is answered and the device listens again; half a minute of
  silence ends the talk.
\<close>

section \<open>Sessions\<close>

definition db_inv :: "deepbrain \<Rightarrow> bool" where
  "db_inv s \<longleftrightarrow> db_live s = set_option (db_handle s) \<and> length (db_raw s) \<le> QUEUE_MAX_SIZE"

text \<open>
  There is room for a command, the answer can be decoded, and a session that does not begin gets no memory: a
  connection that fails leaves memory behind (\<open>failed_begin_loses_memory\<close>).
\<close>

definition db_ok :: "'j cjson_array \<Rightarrow> db_op \<Rightarrow> deepbrain \<Rightarrow> bool" where
  "db_ok j op s =
     (case op of
        DbRecordRound e \<Rightarrow> snd (de_begin e) \<noteq> DCL_ERROR_CODE_OK \<longrightarrow> fst (de_begin e) = None
      | DbAnswerRound tts \<Rightarrow> dcl_nlp_result_decode j (db_text s) nlp_zero \<noteq> None
      | DbSpeech \<Rightarrow> True
      | _ \<Rightarrow> length (db_raw s) < QUEUE_MAX_SIZE)"

lemma db_inv_fields [simp]:
  "db_inv (db_emit es s) = db_inv s" "db_inv (s\<lparr>db_working := w\<rparr>) = db_inv s" "db_inv (s\<lparr>db_timer := t\<rparr>) = db_inv s"
  "db_inv (s\<lparr>db_record_timer := n\<rparr>) = db_inv s" "db_inv (s\<lparr>db_vad := w\<rparr>) = db_inv s" "db_inv (s\<lparr>db_error := c\<rparr>) = db_inv s"
  "db_inv (s\<lparr>db_text := x\<rparr>) = db_inv s" "db_inv (s\<lparr>db_prv := p\<rparr>) = db_inv s" "db_inv (s\<lparr>db_answers := n\<rparr>) = db_inv s"
  by (simp_all add: db_inv_def db_emit_def)

lemma db_emit_sel [simp]:
  "db_raw (db_emit es s) = db_raw s" "db_handle (db_emit es s) = db_handle s" "db_live (db_emit es s) = db_live s"
  "db_working (db_emit es s) = db_working s" "db_timer (db_emit es s) = db_timer s" "db_record_timer (db_emit es s) = db_record_timer s"
  "db_answers (db_emit es s) = db_answers s" "db_error (db_emit es s) = db_error s" "db_text (db_emit es s) = db_text s"
  "db_prv (db_emit es s) = db_prv s" "db_vad (db_emit es s) = db_vad s" "db_trace (db_emit es s) = db_trace s @ es"
  by (simp_all add: db_emit_def)

lemma notify_safe: "db_inv s \<Longrightarrow> length (db_raw s) < QUEUE_MAX_SIZE \<Longrightarrow> \<exists>s'. record_notify c s = Some s' \<and> db_inv s'"
  by (simp add: record_notify_def db_inv_def)

lemma notification_safe: "db_inv s \<Longrightarrow> length (db_raw s) < QUEUE_MAX_SIZE \<Longrightarrow> \<exists>s'. notification_record_cmd c s = Some s' \<and> db_inv s'"
  unfolding notification_record_cmd_def by (rule notify_safe) simp_all

lemma session_end_safe: "db_inv s \<Longrightarrow> \<exists>s'. dcl_asr_session_end s = Some s' \<and> db_inv s' \<and> db_handle s' = None"
  by (auto simp: dcl_asr_session_end_def db_inv_def split: option.split)

lemma rec_begin_safe:
  assumes "db_inv s" "snd (de_begin e) \<noteq> DCL_ERROR_CODE_OK \<longrightarrow> fst (de_begin e) = None"
  shows "\<exists>s'. asr_rec_begin e s = Some s' \<and> db_inv s'"
proof -
  have "db_inv (s\<lparr>db_error := DCL_ERROR_CODE_OK, db_text := []\<rparr>)" using assms(1) by (simp add: db_inv_def)
  from session_end_safe [OF this] obtain s1 where s1: "dcl_asr_session_end (s\<lparr>db_error := DCL_ERROR_CODE_OK, db_text := []\<rparr>) = Some s1"
    "db_inv s1" "db_handle s1 = None" by blast
  then show ?thesis using assms(2)
    by (cases "fst (de_begin e)"; cases "fst (de_again e)")
      (auto simp: asr_rec_begin_def dcl_asr_session_begin_def db_inv_def split: if_splits)
qed

lemma record_command_safe:
  assumes "db_inv s" "snd (de_begin e) \<noteq> DCL_ERROR_CODE_OK \<longrightarrow> fst (de_begin e) = None"
  shows "\<exists>s'. record_command e c s = Some s' \<and> db_inv s'"
proof (cases c)
  case START_TO_RECORD
  then show ?thesis using rec_begin_safe [OF assms] assms(1)
    by (cases "db_handle s") (auto simp: record_command_def)
next
  case READ_TO_RECORD
  have "\<exists>s'. asr_rec_runing e s = Some s' \<and> db_inv s'"
  proof (cases "db_handle s")
    case None
    then show ?thesis using assms(1) by (simp add: asr_rec_runing_def)
  next
    case (Some a)
    have "db_inv (db_emit [DbWrite a] s\<lparr>db_error := de_write e\<rparr>)" using assms(1) by simp
    from session_end_safe [OF this] Some assms(1) show ?thesis by (auto simp: asr_rec_runing_def Let_def)
  qed
  then show ?thesis using assms(1) READ_TO_RECORD by (auto simp: record_command_def)
next
  case SEND_AUDIO_DATA
  have "\<exists>s'. asr_rec_end e s = Some s' \<and> db_inv s'"
  proof (cases "db_handle s")
    case None
    then show ?thesis using assms(1) by (simp add: asr_rec_end_def)
  next
    case (Some a)
    let ?t = "case snd (de_result e) of None \<Rightarrow> db_text s | Some t \<Rightarrow> t"
    have "db_inv (s\<lparr>db_error := fst (de_result e), db_text := ?t\<rparr>)" using assms(1) by (simp add: db_inv_def)
    from session_end_safe [OF this] Some show ?thesis by (auto simp: asr_rec_end_def)
  qed
  then show ?thesis using assms(1) SEND_AUDIO_DATA by (auto simp: record_command_def)
next
  case TIME_30S_QUIT
  have "db_inv ((stop_if_started s)\<lparr>db_working := False\<rparr>)" using assms(1) by (simp add: stop_if_started_def)
  from session_end_safe [OF this] show ?thesis using TIME_30S_QUIT by (auto simp: record_command_def)
next
  case DEEPBRAIN_QUIT
  have "db_inv (db_emit [DbToneSync NOTIFY_AUDIO_BYE_BYE] ((stop_if_started s)\<lparr>db_working := False, db_timer := False\<rparr>))"
    using assms(1) by (simp add: stop_if_started_def db_inv_def)
  from session_end_safe [OF this] show ?thesis using DEEPBRAIN_QUIT by (auto simp: record_command_def)
qed (use assms(1) in \<open>simp_all add: record_command_def stop_if_started_def\<close>)

lemma answer_inv: "db_inv s \<Longrightarrow> \<exists>s'. answer_result tts r s = Some s' \<and> db_inv s'"
proof -
  have "db_inv (s\<lparr>db_timer := x, db_record_timer := y\<rparr>) = db_inv s" for x y by (simp add: db_inv_def)
  moreover assume "db_inv s"
  ultimately show ?thesis
    by (cases "nr_links r"; cases "nr_type r") (auto simp: answer_result_def play_net_tone_def not_understood_def split: option.split)
qed

interpretation talk: safe_machine "db_step j" db_inv "db_ok j" for j
proof unfold_locales
  fix op s
  assume s: "db_inv s" "db_ok j op s"
  note notify = notification_safe [of "restart_timer s"] notification_safe [of s]
  have r: "db_inv (restart_timer s)" "length (db_raw (restart_timer s)) = length (db_raw s)" using s(1) by (simp_all add: restart_timer_def)
  have d: "db_inv (db_disturbed s)" using s(1) by (simp add: db_disturbed_def db_inv_def)
  show "\<exists>s'. db_step j op s = Some s' \<and> db_inv s'"
  proof (cases op)
    case (DbKey wifi now code ty)
    then have room: "length (db_raw s) < QUEUE_MAX_SIZE" using s(2) by (simp add: db_ok_def)
    let ?a = "db_emit [DbToneSync (hello_tone (now mod 10)), DbFront] (s\<lparr>db_record_timer := 0\<rparr>)"
    let ?b = "db_emit [DbFront] (s\<lparr>db_timer := False, db_record_timer := 0\<rparr>)"
    have "db_inv ?a" "db_inv ?b" using s(1) by (simp_all add: db_inv_def)
    with notify_safe [of ?a] notify_safe [of ?b] room s(1) DbKey show ?thesis
      by (auto simp: db_step_def deepbrain_keyprocess_def restart_timer_def) (metis db_inv_fields(3) option.simps(9))
  next
    case DbTimer
    then have room: "length (db_raw s) < QUEUE_MAX_SIZE" using s(2) by (simp add: db_ok_def)
    have "db_inv (s\<lparr>db_record_timer := n\<rparr>)" "db_inv (s\<lparr>db_record_timer := n, db_record_timer := m\<rparr>)" for n m using s(1) by (simp_all add: db_inv_def)
    with notification_safe [of "s\<lparr>db_record_timer := _\<rparr>"] room s(1) DbTimer show ?thesis
      by (auto simp: db_step_def deepbrain_timer_fun_def Let_def)
  next
    case (DbNetCb st)
    then show ?thesis using s notify r d by (cases st) (auto simp: db_step_def db_ok_def deepbrain_play_net_tone_cb_def)
  next
    case (DbToneCb st)
    then show ?thesis using s notify r d by (cases st) (auto simp: db_step_def db_ok_def deepbrain_tone_play_cb_def)
  next
    case (DbRecordCb st)
    have "db_inv (s\<lparr>db_vad := False\<rparr>)" using s(1) by simp
    with notify_safe [of "s\<lparr>db_vad := False\<rparr>"] DbRecordCb s notify d show ?thesis
      by (cases st) (auto simp: db_step_def db_ok_def deepbrain_audio_record_cb_def)
  next
    case DbSpeech
    then show ?thesis using s(1) by (simp add: db_step_def)
  next
    case (DbRecordRound e)
    show ?thesis
    proof (cases "db_raw s")
      case Nil
      then show ?thesis using DbRecordRound s(1) by (simp add: db_step_def task_record_raw_read_def)
    next
      case (Cons c q)
      have "db_inv (s\<lparr>db_raw := q\<rparr>)" using s(1) Cons by (simp add: db_inv_def)
      from record_command_safe [OF this, of e c] s(2) Cons DbRecordRound show ?thesis
        by (simp add: db_step_def task_record_raw_read_def db_ok_def)
    qed
  next
    case (DbAnswerRound tts)
    let ?s = "s\<lparr>db_answers := db_answers s - 1\<rparr>"
    obtain err r where "dcl_nlp_result_decode j (db_text s) nlp_zero = Some (err, r)"
      using s(2) DbAnswerRound by (cases "dcl_nlp_result_decode j (db_text s) nlp_zero") (auto simp: db_ok_def)
    moreover have "db_inv ?s" "db_inv (not_understood ?s)" using s(1) by (simp_all add: not_understood_def)
    ultimately show ?thesis using answer_inv [of ?s tts r] s(1) DbAnswerRound
      by (auto simp: db_step_def task_deepbrain_nlp_def Let_def)
  qed
qed

lemma db_inv_zero: "db_inv deep_brain_zero"
  by (simp add: db_inv_def deep_brain_zero_def)


definition talk_env :: "addr \<Rightarrow> string \<Rightarrow> db_env" where
  "talk_env a t = \<lparr>de_begin = (Some a, DCL_ERROR_CODE_OK), de_again = (None, DCL_ERROR_CODE_FAIL), de_copy = True, de_write = DCL_ERROR_CODE_OK,
     de_result = (DCL_ERROR_CODE_OK, Some t), de_now = 0\<rparr>"

lemmas talk_simps = db_step_def deepbrain_keyprocess_def record_notify_def notification_record_cmd_def restart_timer_def
  task_record_raw_read_def record_command_def asr_rec_begin_def dcl_asr_session_end_def dcl_asr_session_begin_def
  asr_rec_runing_def asr_rec_end_def deepbrain_audio_record_cb_def deepbrain_play_net_tone_cb_def play_net_tone_def
  task_deepbrain_nlp_def answer_result_def talk_env_def


text \<open>A connection that fails leaves its memory in the handle; the second try overwrites it.\<close>

lemma failed_begin_loses_memory:
  assumes "db_handle s = None" "de_begin e = (Some a, DCL_ERROR_CODE_NETWORK_UNAVAILABLE)" "de_again e = (Some b, DCL_ERROR_CODE_OK)" "a \<noteq> b"
  shows "\<exists>s'. asr_rec_begin e s = Some s' \<and> db_handle s' = Some b \<and> a \<in> db_live s'"
  using assms by (simp add: asr_rec_begin_def dcl_asr_session_end_def dcl_asr_session_begin_def)

text \<open>A disturbance does not end the session: what was said before it is part of the next question.\<close>

lemma disturbed_session_goes_on:
  assumes "db_handle s = Some a" "db_raw s = []"
  shows "\<exists>s'. run_opt (db_step j) [DbRecordCb NOTIFY_STATUS_RECORD_DISTURBED, DbKey True now KEY_CODE_VOICE KEY_EVNET_PRESS, DbRecordRound e] s = Some s' \<and>
    db_handle s' = Some a \<and> db_working s' \<and> (\<forall>b. DbBegin b \<notin> set (drop (length (db_trace s)) (db_trace s')))"
  using assms by (simp add: talk_simps db_disturbed_def)

section \<open>A question\<close>

lemma db_emit_emit [simp]: "db_emit ys (db_emit xs s) = db_emit (xs @ ys) s" "db_emit [] s = s"
  by (simp_all add: db_emit_def)

lemma db_raw_same: "db_raw s = q \<Longrightarrow> s\<lparr>db_raw := q\<rparr> = s"
  by (cases s) simp

lemma run_round:
  "run_opt step xs s = Some s1 \<Longrightarrow> run_opt step (concat (replicate (Suc n) xs)) s = run_opt step (concat (replicate n xs)) s1"
  by (simp only: replicate_Suc concat.simps run_opt_append bind_Some_left)

lemma reads_are_written:
  "db_raw s = [] \<Longrightarrow> db_working s \<Longrightarrow> db_handle s = Some a \<Longrightarrow>
    run_opt (db_step j) (concat (replicate n [DbRecordCb NOTIFY_STATUS_RECORD_READ, DbRecordRound (talk_env a t)])) s =
      Some (db_emit (concat (replicate n [DbFront, DbWrite a])) s)"
proof (induction n arbitrary: s)
  case (Suc n)
  have "run_opt (db_step j) [DbRecordCb NOTIFY_STATUS_RECORD_READ, DbRecordRound (talk_env a t)] s = Some (db_emit [DbFront, DbWrite a] s)"
    using Suc.prems by (cases s) (simp add: talk_simps db_emit_def)
  from run_round [OF this, of n] Suc.IH [of "db_emit [DbFront, DbWrite a] s"] Suc.prems show ?case by simp
qed simp

text \<open>What happens from the key to the next question: the first record and any number of reads, the end of the speech, the answer.\<close>

definition one_question :: "nat \<Rightarrow> nat \<Rightarrow> addr \<Rightarrow> addr \<Rightarrow> string \<Rightarrow> db_op list" where
  "one_question now n a b t =
     [DbKey True now KEY_CODE_VOICE KEY_EVNET_PRESS, DbRecordRound (talk_env a t)] @
     concat (replicate n [DbRecordCb NOTIFY_STATUS_RECORD_READ, DbRecordRound (talk_env a t)]) @
     [DbSpeech, DbRecordCb NOTIFY_STATUS_RECORD_SEND, DbRecordRound (talk_env a t), DbAnswerRound (None, None), DbNetCb NOTIFY_STATUS_PLAY_FINISH,
      DbRecordRound (talk_env b t)]"

lemma start_of_question:
  assumes "\<not> db_working s" "db_raw s = []" "db_handle s = None"
  shows "\<exists>s'. run_opt (db_step j) [DbKey True now KEY_CODE_VOICE KEY_EVNET_PRESS, DbRecordRound (talk_env a t)] s = Some s' \<and>
    db_working s' \<and> db_raw s' = [] \<and> db_handle s' = Some a \<and> a \<in> db_live s' \<and> db_answers s' = db_answers s \<and>
    db_trace s' = db_trace s @ [DbToneSync (hello_tone (now mod 10)), DbFront, DbBegin a, DbRecordStart]"
  using assms by (simp add: talk_simps)

lemma end_of_question:
  assumes "db_working s" "db_raw s = []" "db_handle s = Some a" "a \<in> db_live s" "db_answers s = 0"
    "dcl_nlp_result_decode j t nlp_zero = Some (NLP_DECODE_ERRNO_OK, r)" "nr_type r = NLP_RESULT_TYPE_LINK" "nr_links r = k # ks" "lk_link_url k \<noteq> []"
  shows "\<exists>s'. run_opt (db_step j) [DbSpeech, DbRecordCb NOTIFY_STATUS_RECORD_SEND, DbRecordRound (talk_env a t), DbAnswerRound (None, None),
      DbNetCb NOTIFY_STATUS_PLAY_FINISH, DbRecordRound (talk_env b t)] s = Some s' \<and>
    db_working s' \<and> db_timer s' \<and> db_handle s' = Some b \<and>
    db_trace s' = db_trace s @ [DbEnd a, DbPlay (lk_link_url k), DbFront, DbBegin b, DbRecordStart]"
  using assms by (simp add: talk_simps)

text \<open>C10: While the service works: from rest, a press of the key says hello and opens a session and a record; everything that is recorded is
written to that session; when the speech ends, the session is ended, the first song of the answer is played from its address, and when it
is over the device listens again in a new session, with the timer running.\<close>

theorem question_is_answered:
  assumes "\<not> db_working s" "db_raw s = []" "db_handle s = None" "db_answers s = 0"
    "dcl_nlp_result_decode j t nlp_zero = Some (NLP_DECODE_ERRNO_OK, r)" "nr_type r = NLP_RESULT_TYPE_LINK" "nr_links r = k # ks" "lk_link_url k \<noteq> []"
  shows "\<exists>s'. run_opt (db_step j) (one_question now n a b t) s = Some s' \<and> db_working s' \<and> db_timer s' \<and> db_handle s' = Some b \<and>
    db_trace s' = db_trace s @ [DbToneSync (hello_tone (now mod 10)), DbFront, DbBegin a, DbRecordStart] @
      concat (replicate n [DbFront, DbWrite a]) @ [DbEnd a, DbPlay (lk_link_url k), DbFront, DbBegin b, DbRecordStart]"
proof -
  obtain s1 where s1: "run_opt (db_step j) [DbKey True now KEY_CODE_VOICE KEY_EVNET_PRESS, DbRecordRound (talk_env a t)] s = Some s1"
    "db_working s1" "db_raw s1 = []" "db_handle s1 = Some a" "a \<in> db_live s1" "db_answers s1 = 0"
    "db_trace s1 = db_trace s @ [DbToneSync (hello_tone (now mod 10)), DbFront, DbBegin a, DbRecordStart]"
    using start_of_question [OF assms(1-3), of j now a t] assms(4) by auto
  let ?s2 = "db_emit (concat (replicate n [DbFront, DbWrite a])) s1"
  have "db_working ?s2" "db_raw ?s2 = []" "db_handle ?s2 = Some a" "a \<in> db_live ?s2" "db_answers ?s2 = 0" using s1 by simp_all
  from end_of_question [OF this assms(5-8), of b] s1(7) reads_are_written [OF s1(3,2,4), of j n t] s1(1)
  show ?thesis unfolding one_question_def run_opt_append by (auto simp del: run_opt.simps)
qed

lemma question_is_answered_witness:
  "case run_opt (db_step (tree_lib (\<lambda>t. Some two_songs_answer))) (one_question 7 2 1 2 ''answer'') deep_brain_zero of None \<Rightarrow> False
   | Some s \<Rightarrow> DbPlay ''http://a'' \<in> set (db_trace s) \<and> db_handle s = Some 2"
proof -
  let ?j = "tree_lib (\<lambda>t. Some two_songs_answer)"
  have "dcl_nlp_result_decode ?j ''answer'' nlp_zero = Some (NLP_DECODE_ERRNO_OK,
      nlp_zero\<lparr>nr_input_text := ''sing'', nr_type := NLP_RESULT_TYPE_LINK, nr_links := song_links two_song_list\<rparr>)"
    by (rule two_songs_decoded)
  from question_is_answered [OF _ _ _ _ this, of deep_brain_zero _ _ 7 2 1 2] show ?thesis
    by (auto simp: deep_brain_zero_def two_song_list_def song_links_def Let_def)
qed

text \<open>An answer that is still waiting is played behind the goodbye.\<close>

lemma answer_after_goodbye:
  assumes "db_working s" "db_raw s = []" "db_handle s = None" "db_answers s = 1" "db_text s = t" "db_error s = DCL_ERROR_CODE_OK"
    "dcl_nlp_result_decode j t nlp_zero = Some (NLP_DECODE_ERRNO_OK, r)" "nr_type r = NLP_RESULT_TYPE_LINK" "nr_links r = k # ks" "lk_link_url k \<noteq> []"
  shows "\<exists>s'. run_opt (db_step j) [DbKey True now KEY_CODE_VOICE KEY_EVNET_PRESS, DbRecordRound e, DbAnswerRound tts] s = Some s' \<and>
    \<not> db_working s' \<and> (\<exists>es. db_trace s' = db_trace s @ es @ [DbToneSync NOTIFY_AUDIO_BYE_BYE, DbPlay (lk_link_url k)])"
  using assms by (auto simp: talk_simps stop_if_started_def)

section \<open>Silence\<close>

lemma quiet_tick:
  assumes "db_working s" "db_timer s" "db_raw s = []" "db_record_timer s + 1 \<notin> {TIME_OUT_10S, TIME_OUT_20S}" "db_record_timer s + 1 < TIME_OUT_30S"
  shows "run_opt (db_step j) [DbTimer, DbRecordRound e] s = Some (s\<lparr>db_record_timer := db_record_timer s + 1\<rparr>)"
  using assms by (simp add: db_step_def deepbrain_timer_fun_def task_record_raw_read_def Let_def)

lemma quiet_ticks:
  "db_working s \<Longrightarrow> db_timer s \<Longrightarrow> db_raw s = [] \<Longrightarrow>
    (\<forall>m. db_record_timer s < m \<and> m \<le> db_record_timer s + k \<longrightarrow> m \<notin> {TIME_OUT_10S, TIME_OUT_20S} \<and> m < TIME_OUT_30S) \<Longrightarrow>
    run_opt (db_step j) (concat (replicate k [DbTimer, DbRecordRound e])) s = Some (s\<lparr>db_record_timer := db_record_timer s + k\<rparr>)"
proof (induction k arbitrary: s)
  case 0
  then show ?case by (cases s) simp
next
  case (Suc k)
  have "run_opt (db_step j) [DbTimer, DbRecordRound e] s = Some (s\<lparr>db_record_timer := db_record_timer s + 1\<rparr>)"
    using Suc.prems by (intro quiet_tick) auto
  from run_round [OF this, of k] Suc.IH [of "s\<lparr>db_record_timer := db_record_timer s + 1\<rparr>"] Suc.prems show ?case by simp
qed

definition remind_events :: "nat \<Rightarrow> db_event list" where
  "remind_events now = [DbFront, DbRecordStop, DbTone (reminder (now mod 10))]"

lemma reminder_tick:
  assumes "db_working s" "db_timer s" "db_raw s = []" "db_record_timer s + 1 \<in> {TIME_OUT_10S, TIME_OUT_20S}" "db_prv s = Some START_TO_RECORD"
  shows "run_opt (db_step j) [DbTimer, DbRecordRound e] s =
    Some (db_emit (remind_events (de_now e)) (s\<lparr>db_record_timer := db_record_timer s + 1\<rparr>))"
  using assms by (cases s) (auto simp: db_step_def deepbrain_timer_fun_def task_record_raw_read_def notification_record_cmd_def record_notify_def
    record_command_def stop_if_started_def remind_events_def db_emit_def Let_def)

lemma last_tick:
  assumes "db_working s" "db_timer s" "db_raw s = []" "db_record_timer s + 1 = TIME_OUT_30S" "db_prv s = Some START_TO_RECORD"
    "db_handle s = Some a" "a \<in> db_live s"
  shows "\<exists>s'. run_opt (db_step j) [DbTimer, DbRecordRound e] s = Some s' \<and> \<not> db_working s' \<and> \<not> db_timer s' \<and> db_handle s' = None \<and>
    db_live s' = db_live s - {a} \<and> db_trace s' = db_trace s @ [DbFront, DbRecordStop, DbEnd a,
      DbToneSync (if de_now e mod 10 \<le> 5 then NOTIFY_AUDIO_TAKE_REST else NOTIFY_AUDIO_LEAVING)]"
  using assms by (simp add: db_step_def deepbrain_timer_fun_def task_record_raw_read_def notification_record_cmd_def record_notify_def
    record_command_def stop_if_started_def dcl_asr_session_end_def Let_def)


definition talking :: deepbrain where
  "talking = deep_brain_zero\<lparr>db_working := True, db_timer := True, db_prv := Some START_TO_RECORD, db_handle := Some 1, db_live := {1}\<rparr>"


end
