(* ===== verification/Adpcm.thy ===== *)
theory Adpcm
  imports Alarm_Prelude "HOL-Library.Word"
begin

text \<open>
  The ADPCM coder that the speech service sends its audio with (\<open>sys/DCL/utility/adpcm-lib.c\<close>): four bits for a sample, a
  header of four bytes for each channel of a block.

  \<^item> A buffer is the list of what is behind its pointer; reading behind it is \<open>None\<close>.
  \<^item> The numbers of a channel are in 32 bits, or 8 for the index; without noise shaping they stay in the 16 bits of a sample and in the
    tables (\<open>wf_channel\<close>), so that they are integers here.
  \<^item> The errors that the look-ahead adds up in a double are sums of squares of integers, exact below \<open>2 ^ 53\<close>: integers here.
  \<^item> \<open>memory_malloc\<close> is an argument: whether it has the memory.
\<close>

unbundle bit_operations_syntax

section \<open>Tables and channels\<close>

definition step_table :: "int list" where
  "step_table = [
    7, 8, 9, 10, 11, 12, 13, 14,
    16, 17, 19, 21, 23, 25, 28, 31,
    34, 37, 41, 45, 50, 55, 60, 66,
    73, 80, 88, 97, 107, 118, 130, 143,
    157, 173, 190, 209, 230, 253, 279, 307,
    337, 371, 408, 449, 494, 544, 598, 658,
    724, 796, 876, 963, 1060, 1166, 1282, 1411,
    1552, 1707, 1878, 2066, 2272, 2499, 2749, 3024,
    3327, 3660, 4026, 4428, 4871, 5358, 5894, 6484,
    7132, 7845, 8630, 9493, 10442, 11487, 12635, 13899,
    15289, 16818, 18500, 20350, 22385, 24623, 27086, 29794,
    32767]"

definition index_table :: "int list" where
  "index_table = [-1, -1, -1, -1, 2, 4, 6, 8]"

datatype noise_shaping = NOISE_SHAPING_OFF | NOISE_SHAPING_STATIC | NOISE_SHAPING_DYNAMIC

record adpcm_channel =
  ch_pcmdata :: int
  ch_error :: int
  ch_weight :: int
  ch_history0 :: int
  ch_history1 :: int
  ch_index :: int

record adpcm_context =
  cx_channels :: "adpcm_channel list"
  cx_num_channels :: nat
  cx_lookahead :: nat
  cx_noise_shaping :: noise_shaping

definition CLIP :: "int \<Rightarrow> int \<Rightarrow> int \<Rightarrow> int" where
  "CLIP d lo hi = (if hi < d then hi else if d < lo then lo else d)"

definition channel_zero :: adpcm_channel where
  "channel_zero = \<lparr>ch_pcmdata = 0, ch_error = 0, ch_weight = 0, ch_history0 = 0, ch_history1 = 0, ch_index = 0\<rparr>"

text \<open>The first index of the table whose step is nearer than the next one.\<close>

definition closest_index :: "int \<Rightarrow> int" where
  "closest_index d = int (length (takeWhile (\<lambda>i. \<not> d < (step_table ! i + step_table ! (i + 1)) div 2) [0..<88]))"

text \<open>The memory is cleared before anybody asks whether it is there.\<close>

definition adpcm_create_context :: "bool \<Rightarrow> nat \<Rightarrow> nat \<Rightarrow> noise_shaping \<Rightarrow> int list \<Rightarrow> adpcm_context option" where
  "adpcm_create_context memory num lookahead shaping deltas =
     (if \<not> memory \<or> 2 < num \<or> length deltas < num then None
      else Some \<lparr>cx_channels = map (\<lambda>ch. if ch < num then channel_zero\<lparr>ch_index := closest_index (deltas ! ch)\<rparr> else channel_zero) [0..<2],
                 cx_num_channels = num, cx_lookahead = lookahead, cx_noise_shaping = shaping\<rparr>)"

section \<open>One sample\<close>

definition step_of :: "adpcm_channel \<Rightarrow> int" where
  "step_of c = step_table ! nat (ch_index c)"

definition trial_delta :: "int \<Rightarrow> nat \<Rightarrow> int" where
  "trial_delta step nibble =
     (let d = step div 8 + (if odd nibble then step div 4 else 0) + (if odd (nibble div 2) then step div 2 else 0)
            + (if odd (nibble div 4) then step else 0)
      in if odd (nibble div 8) then - d else d)"

definition nibble_pcm :: "adpcm_channel \<Rightarrow> nat \<Rightarrow> int" where
  "nibble_pcm c nibble = CLIP (ch_pcmdata c + trial_delta (step_of c) nibble) (-32768) 32767"

definition nibble_index :: "adpcm_channel \<Rightarrow> nat \<Rightarrow> int" where
  "nibble_index c nibble = CLIP (ch_index c + index_table ! (nibble mod 8)) 0 88"

definition moved :: "adpcm_channel \<Rightarrow> nat \<Rightarrow> adpcm_channel" where
  "moved c nibble = c\<lparr>ch_pcmdata := nibble_pcm c nibble, ch_index := nibble_index c nibble\<rparr>"

definition first_nibble :: "adpcm_channel \<Rightarrow> int \<Rightarrow> nat" where
  "first_nibble c csample =
     (let delta = csample - ch_pcmdata c; step = step_of c
      in if delta < 0 then 8 + (let mag = (- delta * 4) div step in if 7 < mag then 7 else nat mag)
         else (let mag = (delta * 4) div step in if 7 < mag then 7 else nat mag))"

definition sq_error :: "adpcm_channel \<Rightarrow> nat \<Rightarrow> int \<Rightarrow> int" where
  "sq_error c nibble csample = (nibble_pcm c nibble - csample) * (nibble_pcm c nibble - csample)"

text \<open>The other nibbles are tried with the samples to come; \<open>ahead\<close> is the recursive call.\<close>

fun try_nibbles :: "(adpcm_channel \<Rightarrow> (int \<times> nat) option) \<Rightarrow> adpcm_channel \<Rightarrow> int \<Rightarrow> nat \<Rightarrow> nat list \<Rightarrow> int \<times> nat \<Rightarrow> (int \<times> nat) option" where
  "try_nibbles ahead c csample nibble [] best = Some best"
| "try_nibbles ahead c csample nibble (n # ns) (min_error, best) =
     (if n = nibble \<or> \<not> sq_error c n csample < min_error then try_nibbles ahead c csample nibble ns (min_error, best)
      else do {
        (e, _) \<leftarrow> ahead (moved c n);
        try_nibbles ahead c csample nibble ns
          (if sq_error c n csample + e < min_error then (sq_error c n csample + e, n) else (min_error, best)) })"

primrec minimum_error :: "nat \<Rightarrow> nat \<Rightarrow> adpcm_channel \<Rightarrow> int \<Rightarrow> int list \<Rightarrow> (int \<times> nat) option" where
  "minimum_error 0 nch c csample sample = (let nibble = first_nibble c csample in Some (sq_error c nibble csample, nibble))"
| "minimum_error (Suc depth) nch c csample sample =
     (let nibble = first_nibble c csample; rest = drop nch sample
      in if rest = [] then None
         else do {
           (e, _) \<leftarrow> minimum_error depth nch (moved c nibble) (hd rest) rest;
           try_nibbles (\<lambda>d. minimum_error depth nch d (hd rest) rest) c csample nibble [0..<16]
             (sq_error c nibble csample + e, nibble) })"

text \<open>The sample that is really coded, with the error of the samples before shaped into it.\<close>

definition dynamic_weight :: "int \<Rightarrow> adpcm_channel \<Rightarrow> int" where
  "dynamic_weight csample c =
     (let sam = (3 * ch_history0 c - ch_history1 c) div 2; temp = csample - (ch_weight c * sam + 512) div 1024
      in if sam \<noteq> 0 \<and> temp \<noteq> 0 then ch_weight c - ((drop_bit 29 (sam XOR temp) AND 4) - 2) else ch_weight c)"

text \<open>The sample and the error, with the new weight.\<close>

definition dynamic_sample :: "int \<Rightarrow> int \<Rightarrow> adpcm_channel \<Rightarrow> int \<times> int" where
  "dynamic_sample weight csample c =
     (let shaping_weight = (if weight < 256 then 1024 else 1536 - weight * 2);
          temp = - ((shaping_weight * ch_error c + 512) div 1024)
      in if shaping_weight < 0 \<and> temp \<noteq> 0
         then (csample + (if temp = ch_error c then if temp < 0 then temp + 1 else temp - 1 else temp), - csample)
         else (csample + temp, - (csample + temp)))"

definition shaped :: "noise_shaping \<Rightarrow> int \<Rightarrow> adpcm_channel \<Rightarrow> int \<times> adpcm_channel" where
  "shaped shaping csample c =
     (case shaping of
        NOISE_SHAPING_DYNAMIC \<Rightarrow>
          (let weight = dynamic_weight csample c; r = dynamic_sample weight csample c
           in (fst r, c\<lparr>ch_weight := weight, ch_history1 := ch_history0 c, ch_history0 := csample, ch_error := snd r\<rparr>))
      | NOISE_SHAPING_STATIC \<Rightarrow> (csample - ch_error c, c\<lparr>ch_error := - (csample - ch_error c)\<rparr>)
      | NOISE_SHAPING_OFF \<Rightarrow> (csample, c))"

definition encode_sample :: "adpcm_context \<Rightarrow> nat \<Rightarrow> int list \<Rightarrow> nat \<Rightarrow> (nat \<times> adpcm_context) option" where
  "encode_sample cx ch sample num_samples =
     (if sample = [] then None
      else do {
        let sc = shaped (cx_noise_shaping cx) (hd sample) (cx_channels cx ! ch);
        (_, nibble) \<leftarrow> minimum_error (min (num_samples - 1) (cx_lookahead cx)) (cx_num_channels cx) (snd sc) (fst sc) sample;
        let c = moved (snd sc) nibble;
        let c1 = (if cx_noise_shaping cx = NOISE_SHAPING_OFF then c else c\<lparr>ch_error := ch_error c + ch_pcmdata c\<rparr>);
        Some (nibble, cx\<lparr>cx_channels := (cx_channels cx)[ch := c1]\<rparr>) })"

section \<open>Encoding a block\<close>

definition encode_byte :: "adpcm_context \<Rightarrow> nat \<Rightarrow> int list \<Rightarrow> nat \<Rightarrow> (8 word \<times> adpcm_context) option" where
  "encode_byte cx ch pcmbuf left = do {
     (n1, cx1) \<leftarrow> encode_sample cx ch pcmbuf (left + 2);
     (n2, cx2) \<leftarrow> encode_sample cx1 ch (drop (cx_num_channels cx) pcmbuf) (left + 1);
     Some (word_of_nat n1 OR push_bit 4 (word_of_nat n2), cx2) }"

text \<open>The bytes \<open>i\<close> of a channel in a chunk, \<open>k = 4 - i\<close> of them to go.\<close>

primrec encode_bytes :: "nat \<Rightarrow> nat \<Rightarrow> adpcm_context \<Rightarrow> nat \<Rightarrow> int list \<Rightarrow> (8 word list \<times> adpcm_context) option" where
  "encode_bytes 0 chunks cx ch pcmbuf = Some ([], cx)"
| "encode_bytes (Suc k) chunks cx ch pcmbuf = do {
     (b, cx1) \<leftarrow> encode_byte cx ch pcmbuf (chunks * 8 + k * 2);
     (bs, cx2) \<leftarrow> encode_bytes k chunks cx1 ch (drop (2 * cx_num_channels cx) pcmbuf);
     Some (b # bs, cx2) }"

fun encode_channels :: "nat list \<Rightarrow> nat \<Rightarrow> adpcm_context \<Rightarrow> int list \<Rightarrow> (8 word list \<times> adpcm_context) option" where
  "encode_channels [] chunks cx inbuf = Some ([], cx)"
| "encode_channels (ch # chs) chunks cx inbuf = do {
     (bs, cx1) \<leftarrow> encode_bytes 4 chunks cx ch (drop ch inbuf);
     (cs, cx2) \<leftarrow> encode_channels chs chunks cx1 inbuf;
     Some (bs @ cs, cx2) }"

primrec encode_chunks :: "nat \<Rightarrow> adpcm_context \<Rightarrow> int list \<Rightarrow> (8 word list \<times> adpcm_context) option" where
  "encode_chunks 0 cx inbuf = Some ([], cx)"
| "encode_chunks (Suc chunks) cx inbuf = do {
     (bs, cx1) \<leftarrow> encode_channels [0..<cx_num_channels cx] chunks cx inbuf;
     (cs, cx2) \<leftarrow> encode_chunks chunks cx1 (drop (8 * cx_num_channels cx) inbuf);
     Some (bs @ cs, cx2) }"

definition block_header :: "int \<Rightarrow> adpcm_channel \<Rightarrow> 8 word list" where
  "block_header x c = [word_of_int x, word_of_int (x div 256), word_of_int (ch_index c), 0]"

definition set_decode_parameters :: "int list \<Rightarrow> adpcm_context \<Rightarrow> adpcm_context" where
  "set_decode_parameters init cx = cx\<lparr>cx_channels :=
     map (\<lambda>(ch, c). if ch < cx_num_channels cx then c\<lparr>ch_pcmdata := init ! ch\<rparr> else c) (enumerate 0 (cx_channels cx))\<rparr>"

definition adpcm_encode_block :: "adpcm_context \<Rightarrow> int list \<Rightarrow> nat \<Rightarrow> (8 word list \<times> adpcm_context) option" where
  "adpcm_encode_block cx inbuf inbufcount =
     (let n = cx_num_channels cx; init = take n inbuf
      in if inbufcount = 0 then Some ([], cx)
         else if length inbuf < n then None
         else do {
           (bs, cx1) \<leftarrow> encode_chunks ((inbufcount - 1) div 8) (set_decode_parameters init cx) (drop n inbuf);
           Some (concat (map (\<lambda>(x, c). block_header x c) (zip init (take n (cx_channels cx)))) @ bs, cx1) })"

section \<open>Decoding a block\<close>

text \<open>A channel of the decoder is its sample and its index.\<close>

definition decode_nibble :: "int \<times> int \<Rightarrow> nat \<Rightarrow> int \<times> int" where
  "decode_nibble s nibble =
     (CLIP (fst s + trial_delta (step_table ! nat (snd s)) nibble) (-32768) 32767, CLIP (snd s + index_table ! (nibble mod 8)) 0 88)"

fun decode_bytes :: "8 word list \<Rightarrow> int \<times> int \<Rightarrow> int list \<times> (int \<times> int)" where
  "decode_bytes [] s = ([], s)"
| "decode_bytes (b # bs) s =
     (let s1 = decode_nibble s (unat (b AND 15)); s2 = decode_nibble s1 (unat (drop_bit 4 b)); r = decode_bytes bs s2
      in (fst s1 # fst s2 # fst r, snd r))"

fun decode_channels :: "(int \<times> int) list \<Rightarrow> 8 word list \<Rightarrow> int list list \<times> (int \<times> int) list" where
  "decode_channels [] bs = ([], [])"
| "decode_channels (s # ss) bs =
     (let r = decode_bytes (take 4 bs) s; q = decode_channels ss (drop 4 bs) in (fst r # fst q, snd r # snd q))"

text \<open>The eight samples of each channel, interleaved.\<close>

definition interleaved :: "int list list \<Rightarrow> int list" where
  "interleaved yss = concat (map (\<lambda>k. map (\<lambda>ys. ys ! k) yss) [0..<8])"

primrec decode_chunks :: "nat \<Rightarrow> (int \<times> int) list \<Rightarrow> 8 word list \<Rightarrow> int list" where
  "decode_chunks 0 ss bs = []"
| "decode_chunks (Suc chunks) ss bs =
     (let r = decode_channels ss bs in interleaved (fst r) @ decode_chunks chunks (snd r) (drop (4 * length ss) bs))"

definition header_state :: "8 word list \<Rightarrow> int \<times> int" where
  "header_state bs = (signed_take_bit 15 (uint (bs ! 0) + 256 * uint (bs ! 1)), signed_take_bit 7 (uint (bs ! 2)))"

definition header_ok :: "8 word list \<Rightarrow> bool" where
  "header_ok bs \<longleftrightarrow> 0 \<le> snd (header_state bs) \<and> snd (header_state bs) \<le> 88 \<and> bs ! 3 = 0"

text \<open>What is written to the output; nothing when the function returns zero. There are arrays for two channels.\<close>

definition adpcm_decode_block :: "8 word list \<Rightarrow> nat \<Rightarrow> int list option" where
  "adpcm_decode_block inbuf channels =
     (let headers = map (\<lambda>ch. take 4 (drop (4 * ch) inbuf)) [0..<channels]; body = drop (4 * channels) inbuf
      in if length inbuf < channels * 4 then Some []
         else if channels = 0 \<or> 2 < channels then None
         else if \<not> list_all header_ok headers then Some []
         else Some (map (\<lambda>h. fst (header_state h)) headers
                    @ decode_chunks (length body div (channels * 4)) (map header_state headers) body))"

end
