(* ===== verification/Socket.thy ===== *)
theory Socket
  imports Http
begin

text \<open>
  The sockets of the cloud clients (\<open>sys/socket/socket.c\<close>): the parts of an address, connecting with a time limit, and reading
  and writing until all bytes are through or the time is over.

  \<^item> What lwIP answers in each round of a loop is a list of rounds: the results of \<open>select\<close>, \<open>FD_ISSET\<close>, the error of the socket,
    the milliseconds since the start, and what \<open>send\<close> or \<open>recv\<close> give. A loop whose rounds are all gone has not ended: \<open>None\<close>.
  \<^item> A buffer is the text in it. \<open>wire\<close> is what the socket has taken.
\<close>

section \<open>Addresses\<close>

definition http_host_start :: "string \<Rightarrow> string option" where
  "http_host_start url = map_option (drop 7) (strstr url ''http://'')"

text \<open>The results are 0 and -1. A slash before the colon makes the length of the port negative.\<close>

definition sock_get_server_info :: "string option \<Rightarrow> string \<Rightarrow> string \<Rightarrow> string \<Rightarrow> (int \<times> string \<times> string \<times> string) option" where
  "sock_get_server_info str_web_url str_domain str_port str_params =
     (case Option.bind str_web_url http_host_start of
        None \<Rightarrow> Some (-1, str_domain, str_port, str_params)
      | Some d \<Rightarrow>
          if d = [] then Some (-1, str_domain, str_port, str_params)
          else (case (strstr d '':'', strstr d ''/'') of
                  (None, None) \<Rightarrow> do {
                    p \<leftarrow> buf_strcpy str_port ''80'';
                    h \<leftarrow> buf_strcpy str_domain d;
                    Some (0, h, p, str_params) }
                | (None, Some e) \<Rightarrow> do {
                    p \<leftarrow> buf_strcpy str_port ''80'';
                    h \<leftarrow> buf_strncpy str_domain d (int (length d) - int (length e));
                    q \<leftarrow> buf_strcpy str_params e;
                    Some (0, h, p, q) }
                | (Some c, None) \<Rightarrow> do {
                    h \<leftarrow> buf_strncpy str_domain d (int (length d) - int (length c));
                    p \<leftarrow> buf_strcpy str_port (tl c);
                    Some (0, h, p, str_params) }
                | (Some c, Some e) \<Rightarrow> do {
                    h \<leftarrow> buf_strncpy str_domain d (int (length d) - int (length c));
                    p \<leftarrow> buf_strncpy str_port (tl c) (int (length (tl c)) - int (length e));
                    q \<leftarrow> buf_strcpy str_params e;
                    Some (0, h, p, q) }))"

section \<open>Connecting\<close>

text \<open>One address: the socket for it, the results of \<open>connect\<close> and \<open>select\<close>, whether the error of the socket is \<open>EINPROGRESS\<close>
  and whether it can be written.\<close>

record conn_try =
  ct_socket :: int
  ct_connect :: int
  ct_in_progress :: bool
  ct_select :: int
  ct_writable :: bool

definition try_connects :: "conn_try \<Rightarrow> bool" where
  "try_connects t \<longleftrightarrow> ct_connect t = 0 \<or> (ct_in_progress t \<and> ct_select t = 1 \<and> ct_writable t)"

text \<open>The sockets that are closed again come with the result.\<close>

fun connect_tries :: "conn_try list \<Rightarrow> int \<times> int list" where
  "connect_tries [] = (INVALID_SOCK, [])"
| "connect_tries (t # ts) =
     (if ct_socket t < 0 then connect_tries ts
      else if try_connects t then (ct_socket t, [])
      else (let r = connect_tries ts in (fst r, ct_socket t # snd r)))"

definition sock_connect :: "conn_try list option \<Rightarrow> int \<times> int list" where
  "sock_connect res = (case res of None \<Rightarrow> (INVALID_SOCK, []) | Some ts \<Rightarrow> connect_tries ts)"

section \<open>Reading and writing\<close>

record sock_round =
  sr_select :: int
  sr_isset :: bool
  sr_errno :: int
  sr_elapsed :: nat
  sr_sent :: int
  sr_got :: "string option"
  sr_errno2 :: int

abbreviation MAX_SOCKET_WRITE_SIZE :: nat where "MAX_SOCKET_WRITE_SIZE \<equiv> 512"
abbreviation EINTR :: int where "EINTR \<equiv> 4"
abbreviation EAGAIN :: int where "EAGAIN \<equiv> 11"

definition sock_interrupted :: "int \<Rightarrow> bool" where
  "sock_interrupted err \<longleftrightarrow> err \<noteq> 0 \<and> err \<noteq> EAGAIN \<and> err = EINTR"

text \<open>\<open>send\<close> gets at most 512 bytes from the place that is reached; \<open>taken\<close> is what it accepts of them.\<close>

definition write_len :: "string \<Rightarrow> nat" where
  "write_len data = min (length data) MAX_SOCKET_WRITE_SIZE"

definition taken :: "int \<Rightarrow> string \<Rightarrow> string" where
  "taken ret data = take (nat ret) (take (write_len data) data)"

text \<open>The bytes that are written; \<open>data\<close> is what is left.\<close>

fun writen_timeout_loop :: "nat \<Rightarrow> sock_round list \<Rightarrow> string \<Rightarrow> string option" where
  "writen_timeout_loop ms [] data = (if data = [] then Some [] else None)"
| "writen_timeout_loop ms (r # rs) data =
     (if data = [] then Some []
      else if sr_select r = -1 \<or> sr_select r = 0 then Some []
      else if \<not> sr_isset r then writen_timeout_loop ms rs data
      else if sock_interrupted (sr_errno r) \<or> ms \<le> sr_elapsed r then Some []
      else if 0 < sr_sent r then map_option ((@) (taken (sr_sent r) data)) (writen_timeout_loop ms rs (drop (length (taken (sr_sent r) data)) data))
      else if sr_sent r < 0 then writen_timeout_loop ms rs data
      else Some [])"

definition sock_writen_with_timeout :: "sock_round list \<Rightarrow> string \<Rightarrow> nat \<Rightarrow> (nat \<times> string) option" where
  "sock_writen_with_timeout rs buff ms = map_option (\<lambda>w. (length w, w)) (writen_timeout_loop ms rs buff)"

text \<open>\<open>sock_writen\<close> and \<open>sock_write\<close> are the same loop without a limit.\<close>

fun writen_loop :: "int list \<Rightarrow> string \<Rightarrow> string option" where
  "writen_loop [] data = (if data = [] then Some [] else None)"
| "writen_loop (ret # rs) data =
     (if data = [] then Some []
      else if 0 < ret then map_option ((@) (taken ret data)) (writen_loop rs (drop (length (taken ret data)) data))
      else if ret < 0 then writen_loop rs data
      else Some [])"

definition sock_writen :: "int list \<Rightarrow> string \<Rightarrow> (nat \<times> string) option" where
  "sock_writen rs buff = map_option (\<lambda>w. (length w, w)) (writen_loop rs buff)"

definition sock_write :: "int list \<Rightarrow> string \<Rightarrow> (nat \<times> string) option" where
  "sock_write rs buff = map_option (\<lambda>w. (length w, w)) (writen_loop rs buff)"

text \<open>What is read, where \<open>len\<close> bytes are still wanted; \<open>recv\<close> gives no more than it is asked for, and \<open>None\<close> is its error.\<close>

fun readn_loop :: "string option list \<Rightarrow> nat \<Rightarrow> string option" where
  "readn_loop [] len = None"
| "readn_loop (None # rs) len = (if len = 0 then Some [] else readn_loop rs len)"
| "readn_loop (Some got # rs) len =
     (let g = take len got
      in if g = [] then Some []
         else if length g = len then Some g
         else map_option ((@) g) (readn_loop rs (len - length g)))"

definition sock_readn :: "string option list \<Rightarrow> nat \<Rightarrow> (nat \<times> string) option" where
  "sock_readn rs len = map_option (\<lambda>w. (length w, w)) (readn_loop rs len)"

text \<open>\<open>continue\<close> goes to the condition of the loop, which ends it when nothing more is wanted.\<close>

fun readn_timeout_loop :: "nat \<Rightarrow> sock_round list \<Rightarrow> nat \<Rightarrow> string option" where
  "readn_timeout_loop ms [] len = (if ms = 0 then Some [] else None)"
| "readn_timeout_loop ms (r # rs) len =
     (let again = (if len = 0 then Some [] else readn_timeout_loop ms rs len)
      in if ms \<le> sr_elapsed r \<or> sr_select r = -1 \<or> sr_select r = 0 then Some []
         else if \<not> sr_isset r then again
         else if sock_interrupted (sr_errno r) then Some []
         else case sr_got r of
             None \<Rightarrow> if sock_interrupted (sr_errno2 r) then Some [] else again
           | Some got \<Rightarrow>
               (let g = take len got
                in if g = [] then Some []
                   else if length g = len then Some g
                   else map_option ((@) g) (readn_timeout_loop ms rs (len - length g))))"

definition sock_readn_with_timeout :: "sock_round list \<Rightarrow> nat \<Rightarrow> nat \<Rightarrow> (nat \<times> string) option" where
  "sock_readn_with_timeout rs len ms = map_option (\<lambda>w. (length w, w)) (readn_timeout_loop ms rs len)"

section \<open>Facts\<close>

lemma taken_prefix: "taken r data @ drop (length (taken r data)) data = data"
  by (simp add: taken_def min_def)

lemma taken_then:
  assumes "w = take (length w) (drop (length (taken r data)) data)"
  shows "taken r data @ w = take (length (taken r data) + length w) data"
proof -
  have "take (length (taken r data) + length w) data = take (length (taken r data)) data @ w"
    using assms by (simp add: take_add)
  then show ?thesis by (metis taken_prefix append_eq_conv_conj)
qed

text \<open>What reaches the wire is always the beginning of the buffer, as long as the result says.\<close>

lemma writen_timeout_prefix: "writen_timeout_loop ms rs data = Some w \<Longrightarrow> w = take (length w) data"
proof (induction ms rs data arbitrary: w rule: writen_timeout_loop.induct)
  case (2 ms r rs data)
  then show ?case
    by (auto split: if_splits intro: taken_then)
qed (simp split: if_splits)

lemma writen_prefix: "writen_loop rs data = Some w \<Longrightarrow> w = take (length w) data"
proof (induction rs data arbitrary: w rule: writen_loop.induct)
  case (2 ret rs data)
  then show ?case
    by (auto split: if_splits intro: taken_then)
qed (simp split: if_splits)

lemma written_is_a_prefix: "sock_writen_with_timeout rs buff ms = Some (n, w) \<Longrightarrow> w = take n buff \<and> n \<le> length buff"
  using writen_timeout_prefix [of ms rs buff w] by (auto simp: sock_writen_with_timeout_def)

lemma nothing_to_write: "sock_writen_with_timeout rs [] ms = Some (0, [])"
  by (cases rs) (simp_all add: sock_writen_with_timeout_def)

text \<open>A limit of zero milliseconds is over before anything is read.\<close>

lemma no_time_no_data: "sock_readn_with_timeout rs len 0 = Some (0, [])"
  by (cases rs) (simp_all add: sock_readn_with_timeout_def Let_def)

text \<open>The addresses that are tried, up to the first that connects. Their sockets are closed again, but for the one that is the result.\<close>

fun tried :: "conn_try list \<Rightarrow> conn_try list" where
  "tried [] = []"
| "tried (t # ts) = (if ct_socket t < 0 then tried ts else if try_connects t then [t] else t # tried ts)"

lemma connect_leaks_nothing:
  "connect_tries ts = (s, closed) \<Longrightarrow> closed @ (if s = INVALID_SOCK then [] else [s]) = map ct_socket (tried ts)"
  by (induction ts arbitrary: closed) (auto split: if_splits simp: Let_def prod_eq_iff)

end
