(* ===== verification/Asr.thy ===== *)
theory Asr
  imports Adpcm Socket AuthCrypto DeepBrain
begin

text \<open>
  The client of the speech recognition (\<open>sys/DCL/asr/dcl_asr_api.c\<close>): the sound of a session is cut into frames of 7993 samples,
  each frame is coded and sent in a request of its own, and after the last one the answer is read.

  \<^item> The coder is \<^theory_text>\<open>Adpcm\<close>, the socket \<^theory_text>\<open>Socket\<close>; nonces and keys come from \<^theory_text>\<open>AuthCrypto\<close>.
  \<^item> \<open>inpcm\<close> and \<open>adpcm\<close> are the used parts of the buffers; \<open>ah_trace\<close> is what the socket has seen.
  \<^item> What memory, clock, random numbers and network give in a call is its environment.
  \<^item> The counters of bytes and times are only logged and left out. Reading away old answers after a packet has a limit of zero
    milliseconds and reads nothing (\<open>no_time_no_data\<close>).
  \<^item> The handle is there: the service asks before every call.
\<close>

section \<open>A session\<close>

datatype DCL_ASR_MODE_t = DCL_ASR_MODE_ASR | DCL_ASR_MODE_ASR_NLP

record DCL_AUTH_PARAMS_t =
  au_app_id :: string
  au_robot_id :: string
  au_device_id :: string
  au_user_id :: string
  au_city_name :: string
  au_city_longitude :: string
  au_city_latitude :: string

definition no_auth :: DCL_AUTH_PARAMS_t where
  "no_auth = \<lparr>au_app_id = [], au_robot_id = [], au_device_id = [], au_user_id = [], au_city_name = [],
     au_city_longitude = [], au_city_latitude = []\<rparr>"

text \<open>A request: its index, its header and its body.\<close>

record asr_packet =
  pk_index :: int
  pk_header :: string
  pk_body :: "8 word list"

text \<open>\<open>AsrSend s p n\<close>: the socket \<open>s\<close> has taken the first \<open>n\<close> bytes of \<open>p\<close>.\<close>

datatype asr_event = AsrConnect int | AsrClose int | AsrSend int asr_packet nat

record 'j asr_handle =
  ah_url :: string
  ah_lang :: nat
  ah_mode :: DCL_ASR_MODE_t
  ah_auth :: DCL_AUTH_PARAMS_t
  ah_timeout :: nat
  ah_ctx :: "adpcm_context option"
  ah_inpcm :: "8 word list"
  ah_adpcm :: "8 word list"
  ah_sock :: int
  ah_udid :: string
  ah_index :: int
  ah_stamp :: string
  ah_nonce :: string
  ah_key :: string
  ah_domain :: string
  ah_port :: string
  ah_params :: string
  ah_cjson :: "'j option"
  ah_result :: "string option"
  ah_trace :: "asr_event list"

abbreviation INPCM_SIZE :: nat where "INPCM_SIZE \<equiv> 32000"
abbreviation HTTP_REQUEST_SIZE :: nat where "HTTP_REQUEST_SIZE \<equiv> 32768"
abbreviation ADPCM_ONE_FRAME_SAMPLES :: nat where "ADPCM_ONE_FRAME_SAMPLES \<equiv> 7993"
abbreviation FRAME_BYTES :: nat where "FRAME_BYTES \<equiv> 15986"

definition asr_packet_text :: "asr_packet \<Rightarrow> string" where
  "asr_packet_text p = pk_header p @ as_text (pk_body p)"

definition asr_emit :: "asr_event list \<Rightarrow> 'j asr_handle \<Rightarrow> 'j asr_handle" where
  "asr_emit es h = h\<lparr>ah_trace := ah_trace h @ es\<rparr>"

definition asr_zero :: "'j asr_handle" where
  "asr_zero = \<lparr>ah_url = [], ah_lang = 0, ah_mode = DCL_ASR_MODE_ASR, ah_auth = no_auth, ah_timeout = 0, ah_ctx = None, ah_inpcm = [],
     ah_adpcm = [], ah_sock = 0, ah_udid = [], ah_index = 0, ah_stamp = [], ah_nonce = [], ah_key = [], ah_domain = [], ah_port = [],
     ah_params = [], ah_cjson = None, ah_result = None, ah_trace = []\<rparr>"

definition DCL_ASR_API_URL :: string where
  "DCL_ASR_API_URL = ''http://asr.deepbrain.ai/open-api/asr/recognise''"

text \<open>The handle is given back also when the address or the connection failed.\<close>

definition asr_session_begin :: "bool \<Rightarrow> conn_try list option \<Rightarrow> (DCL_ERROR_CODE_t \<times> 'j asr_handle option) option" where
  "asr_session_begin memory res =
     (if \<not> memory then Some (DCL_ERROR_CODE_SYS_NOT_ENOUGH_MEM, None)
      else do {
        let h = asr_zero\<lparr>ah_sock := INVALID_SOCK, ah_lang := 1536, ah_mode := DCL_ASR_MODE_ASR, ah_timeout := 2500,
                         ah_url := snprintf_str 128 DCL_ASR_API_URL\<rparr>;
        (ret, d, p, q) \<leftarrow> sock_get_server_info (Some (ah_url h)) (replicate 64 NUL) (replicate 8 NUL) (replicate 64 NUL);
        domain \<leftarrow> buf_str d;
        port \<leftarrow> buf_str p;
        params \<leftarrow> buf_str q;
        let h1 = h\<lparr>ah_domain := domain, ah_port := port, ah_params := params\<rparr>;
        if ret \<noteq> 0 then Some (DCL_ERROR_CODE_NETWORK_DNS_FAIL, Some h1)
        else do {
          let s = fst (sock_connect res);
          if s = INVALID_SOCK then Some (DCL_ERROR_CODE_NETWORK_UNAVAILABLE, Some h1)
          else Some (DCL_ERROR_CODE_OK, Some (asr_emit [AsrConnect s] (h1\<lparr>ah_sock := s\<rparr>))) } })"

text \<open>Its last words; the handle, the coder and the tree of the answer are freed.\<close>

definition asr_session_end :: "'j asr_handle \<Rightarrow> asr_event list" where
  "asr_session_end h = ah_trace h @ (if ah_sock h \<noteq> INVALID_SOCK then [AsrClose (ah_sock h)] else [])"

datatype asr_param = DCL_ASR_PARAMS_INDEX_LANGUAGE nat | DCL_ASR_PARAMS_INDEX_MODE DCL_ASR_MODE_t
  | DCL_ASR_PARAMS_INDEX_AUTH_PARAMS DCL_AUTH_PARAMS_t | DCL_ASR_PARAMS_INDEX_OTHER

definition dcl_asr_set_param :: "asr_param \<Rightarrow> 'j asr_handle \<Rightarrow> 'j asr_handle" where
  "dcl_asr_set_param p h =
     (case p of
        DCL_ASR_PARAMS_INDEX_LANGUAGE l \<Rightarrow> h\<lparr>ah_lang := l\<rparr>
      | DCL_ASR_PARAMS_INDEX_MODE m \<Rightarrow> h\<lparr>ah_mode := m\<rparr>
      | DCL_ASR_PARAMS_INDEX_AUTH_PARAMS a \<Rightarrow> h\<lparr>ah_auth := a\<rparr>
      | DCL_ASR_PARAMS_INDEX_OTHER \<Rightarrow> h)"

section \<open>Frames\<close>

text \<open>Bytes as samples of 16 bits; a last odd byte is in none.\<close>

fun samples_of :: "8 word list \<Rightarrow> int list" where
  "samples_of (a # b # bs) = signed_take_bit 15 (uint a + 256 * uint b) # samples_of bs"
| "samples_of _ = []"

text \<open>Half of a sum, towards zero as C divides, from the last sample to the first.\<close>

definition half_to_zero :: "int \<Rightarrow> int" where
  "half_to_zero a = (if a < 0 then - (- a div 2) else a div 2)"

definition initial_delta :: "int list \<Rightarrow> int" where
  "initial_delta xs = foldr (\<lambda>x d. half_to_zero (d + x)) xs (hd xs)"

text \<open>The coder is made from the first sample; without one it is read from nowhere.\<close>

definition asr_coder :: "bool \<Rightarrow> 8 word list option \<Rightarrow> 'j asr_handle \<Rightarrow> 'j asr_handle option" where
  "asr_coder memory pcm h =
     (case ah_ctx h of
        Some _ \<Rightarrow> Some h
      | None \<Rightarrow> (case pcm of
            None \<Rightarrow> None
          | Some bs \<Rightarrow>
              if samples_of bs = [] then None
              else map_option (\<lambda>c. h\<lparr>ah_ctx := Some c\<rparr>)
                     (adpcm_create_context memory 1 0 NOISE_SHAPING_OFF (replicate 2 (initial_delta (samples_of bs))))))"

text \<open>\<open>code_frame xs h\<close> codes a frame of samples into \<open>adpcm\<close>.\<close>

definition code_frame :: "int list \<Rightarrow> nat \<Rightarrow> 'j asr_handle \<Rightarrow> 'j asr_handle option" where
  "code_frame xs n h = do {
     c \<leftarrow> ah_ctx h;
     (bs, c1) \<leftarrow> adpcm_encode_block c xs n;
     if 8000 < length bs then None else Some (h\<lparr>ah_ctx := Some c1, ah_adpcm := bs\<rparr>) }"

text \<open>What is left of the buffer moves to its front and the rest of the new bytes behind it; what does not fit is lost.\<close>

definition dcl_asr_pcm_encode :: "bool \<Rightarrow> 8 word list option \<Rightarrow> 'j asr_handle \<Rightarrow> (DCL_ERROR_CODE_t \<times> 'j asr_handle) option" where
  "dcl_asr_pcm_encode memory pcm h0 = do {
     h \<leftarrow> asr_coder memory pcm h0;
     case pcm of
       None \<Rightarrow>
         if ah_inpcm h \<noteq> [] then map_option (Pair DCL_ERROR_CODE_OK) (code_frame (samples_of (ah_inpcm h)) (length (ah_inpcm h) div 2) h)
         else Some (DCL_ERROR_CODE_OK, h\<lparr>ah_adpcm := []\<rparr>)
     | Some bs \<Rightarrow>
         if bs = [] then Some (DCL_ERROR_CODE_SYS_INVALID_PARAMS, h)
         else do {
           let copy = (if INPCM_SIZE < length (ah_inpcm h) + length bs then INPCM_SIZE - length (ah_inpcm h) else length bs);
           let inpcm = ah_inpcm h @ take copy bs;
           let remain = drop copy bs;
           if FRAME_BYTES \<le> length inpcm
           then do {
             h1 \<leftarrow> code_frame (samples_of (take FRAME_BYTES inpcm)) ADPCM_ONE_FRAME_SAMPLES h;
             let swap = drop FRAME_BYTES inpcm;
             Some (DCL_ERROR_CODE_OK, h1\<lparr>ah_inpcm :=
               (if 0 < length swap + length remain \<and> length swap + length remain \<le> INPCM_SIZE then swap @ remain
                else if 0 < length swap + length remain then swap @ take (INPCM_SIZE - length swap) remain
                else [])\<rparr>) }
           else Some (DCL_ERROR_CODE_OK, h\<lparr>ah_inpcm := inpcm, ah_adpcm := []\<rparr>) } }"

section \<open>Packets\<close>

definition dec_signed :: "int \<Rightarrow> string" where
  "dec_signed i = (if i < 0 then ''-'' @ dec_nat (nat (- i)) else dec_nat (nat i))"

definition asr_header :: "'j asr_handle \<Rightarrow> string" where
  "asr_header h =
     (let a = ah_auth h; n = dec_nat (length (ah_adpcm h)) in
      ''POST '' @ ah_params h @ '' HTTP/1.0'' @ crlf @
      ''HOST: '' @ ah_domain h @ '':'' @ ah_port h @ crlf @
      ''Content-Type: application/octet-stream;charset=iso-8859-1'' @ crlf @
      ''Connection: '' @ (if ah_index h < 0 then ''Close'' else ''Keep-Alive'') @ crlf @
      ''Content-Length: '' @ n @ crlf @
      ''CreatedTime: '' @ ah_stamp h @ crlf @
      ''PrivateKey: '' @ ah_key h @ crlf @
      ''Key: '' @ au_robot_id a @ crlf @
      ''Nonce: '' @ ah_nonce h @ crlf @
      ''x-udid: '' @ ah_udid h @ crlf @
      ''x-task-config: audioformat=adpcm16k16bit,framesize='' @ n @ '',lan='' @ dec_nat (ah_lang h) @ '',vadSeg=500,index='' @ dec_signed (ah_index h) @ crlf @
      ''x-nlp-switch: '' @ (if ah_mode h = DCL_ASR_MODE_ASR then ''no'' else ''yes'') @ crlf @
      ''x-user-id: '' @ au_user_id a @ crlf @
      ''x-device-id: '' @ au_device_id a @ crlf @
      ''x-app-id: '' @ au_app_id a @ crlf @
      ''x-robot-id: '' @ au_robot_id a @ crlf @
      ''x-sdk-version: 0.1'' @ crlf @
      ''x-result-format: json'' @ crlf @ crlf)"

text \<open>One call of \<open>dcl_asr_audio_write_packet\<close>: the rounds of its two writes, and the error of the socket after the first.\<close>

record asr_sending =
  as_rounds1 :: "sock_round list"
  as_errno :: int
  as_rounds2 :: "sock_round list"

record asr_env =
  ae_memory :: bool
  ae_now :: nat
  ae_stamp :: string
  ae_first :: asr_sending
  ae_tries :: "conn_try list option"
  ae_second :: asr_sending

definition dcl_asr_make_packet :: "crypto_lib \<Rightarrow> bytes \<Rightarrow> asr_env \<Rightarrow> 'j asr_handle \<Rightarrow> (asr_packet \<times> 'j asr_handle) option" where
  "dcl_asr_make_packet l mac e h0 = do {
     h \<leftarrow> (if ah_udid h0 = [] then map_option (\<lambda>u. h0\<lparr>ah_udid := u, ah_index := 0\<rparr>) (crypto_generate_nonce_hex l (ae_now e) mac 64)
           else Some h0);
     nonce \<leftarrow> crypto_generate_nonce l (ae_now e) mac 63;
     let stamp = snprintf_str 32 (ae_stamp e);
     let h1 = h\<lparr>ah_index := (if 0 \<le> ah_index h then ah_index h + 1 else ah_index h - 1), ah_nonce := nonce, ah_stamp := stamp,
                ah_key := crypto_generate_private_key l (ah_key h) 64 nonce stamp (au_robot_id (ah_auth h))\<rparr>;
     let p = \<lparr>pk_index = ah_index h1, pk_header = asr_header h1, pk_body = ah_adpcm h1\<rparr>;
     if HTTP_REQUEST_SIZE \<le> length (pk_header p) \<or> HTTP_REQUEST_SIZE < length (asr_packet_text p) then None else Some (p, h1) }"

definition dcl_asr_audio_write_packet :: "asr_sending \<Rightarrow> asr_packet \<Rightarrow> 'j asr_handle \<Rightarrow> (DCL_ERROR_CODE_t \<times> 'j asr_handle) option" where
  "dcl_asr_audio_write_packet s p h = do {
     let text = asr_packet_text p;
     (n1, w1) \<leftarrow> sock_writen_with_timeout (as_rounds1 s) text (ah_timeout h);
     (n2, w2) \<leftarrow> (if n1 \<noteq> length text \<and> as_errno s = 104 then Some (0, [])
                  else sock_writen_with_timeout (as_rounds2 s) (drop n1 text) (ah_timeout h));
     Some (if n1 + n2 = length text then DCL_ERROR_CODE_OK else DCL_ERROR_CODE_NETWORK_UNAVAILABLE, asr_emit [AsrSend (ah_sock h) p (n1 + n2)] h) }"

definition dcl_asr_reconnect :: "conn_try list option \<Rightarrow> 'j asr_handle \<Rightarrow> DCL_ERROR_CODE_t \<times> 'j asr_handle" where
  "dcl_asr_reconnect res h =
     (let h1 = (if ah_sock h \<noteq> INVALID_SOCK then asr_emit [AsrClose (ah_sock h)] h else h); s = fst (sock_connect res)
      in if s = INVALID_SOCK then (DCL_ERROR_CODE_NETWORK_UNAVAILABLE, h1\<lparr>ah_sock := INVALID_SOCK\<rparr>)
         else (DCL_ERROR_CODE_OK, asr_emit [AsrConnect s] (h1\<lparr>ah_sock := s\<rparr>)))"

definition dcl_asr_audio_write :: "crypto_lib \<Rightarrow> bytes \<Rightarrow> asr_env \<Rightarrow> 8 word list option \<Rightarrow> 'j asr_handle
    \<Rightarrow> (DCL_ERROR_CODE_t \<times> 'j asr_handle) option" where
  "dcl_asr_audio_write l mac e pcm h0 =
     (if ah_sock h0 = INVALID_SOCK then Some (DCL_ERROR_CODE_NETWORK_UNAVAILABLE, h0)
      else do {
        (ret, h) \<leftarrow> dcl_asr_pcm_encode (ae_memory e) pcm h0;
        if ret \<noteq> DCL_ERROR_CODE_OK then Some (DCL_ERROR_CODE_ASR_ENCODE_FAIL, h)
        else if ah_adpcm h = [] \<and> 0 \<le> ah_index h then Some (DCL_ERROR_CODE_OK, h)
        else do {
          (p, h1) \<leftarrow> dcl_asr_make_packet l mac e h;
          (ret1, h2) \<leftarrow> dcl_asr_audio_write_packet (ae_first e) p h1;
          if ret1 = DCL_ERROR_CODE_OK then Some (DCL_ERROR_CODE_OK, h2)
          else do {
            let (ret2, h3) = dcl_asr_reconnect (ae_tries e) h2;
            if ret2 \<noteq> DCL_ERROR_CODE_OK then Some (DCL_ERROR_CODE_NETWORK_UNAVAILABLE, h3)
            else dcl_asr_audio_write_packet (ae_second e) p h3 } } })"

section \<open>The answer\<close>

text \<open>At most fifty reads of a tenth of a second, until one has a brace; then the tree, with one longer read more when it is not complete.
  The result is the tree and the text that it starts in.\<close>

fun read_answer :: "'j cjson \<Rightarrow> nat \<Rightarrow> sock_round list list \<Rightarrow> sock_round list \<Rightarrow> 'j option \<times> string option
    \<Rightarrow> ('j option \<times> string option) option" where
  "read_answer j 0 rs extra r = Some r"
| "read_answer j (Suc n) [] extra r = None"
| "read_answer j (Suc n) (reading # rs) extra r = do {
     (ret, got) \<leftarrow> sock_readn_with_timeout reading HTTP_REQUEST_SIZE 100;
     if ret = HTTP_REQUEST_SIZE then None
     else (let text = takeWhile (\<lambda>c. c \<noteq> NUL) got in
       case strstr text ''{'' of
         None \<Rightarrow> read_answer j n rs extra (fst r, None)
       | Some start \<Rightarrow>
           if cJSON_Parse j start \<noteq> None then Some (cJSON_Parse j start, Some start)
           else do {
             (ret2, got2) \<leftarrow> sock_readn_with_timeout extra (HTTP_REQUEST_SIZE - ret) 3000;
             if ret2 + ret = HTTP_REQUEST_SIZE then None
             else (let start2 = takeWhile (\<lambda>c. c \<noteq> NUL) (drop (length text - length start) (got @ got2))
                   in Some (cJSON_Parse j start2, Some start2)) }) }"

text \<open>The code, and the text for the caller when there is one.\<close>

definition dcl_asr_decode_packet :: "'j cjson \<Rightarrow> nat \<Rightarrow> 'j asr_handle \<Rightarrow> (DCL_ERROR_CODE_t \<times> string option) option" where
  "dcl_asr_decode_packet j result_len h =
     (case ah_cjson h of
        None \<Rightarrow> Some (DCL_ERROR_CODE_NETWORK_POOR, None)
      | Some tree \<Rightarrow> (case cJSON_GetObjectItem j tree ''responseHead'' of
          None \<Rightarrow> Some (DCL_ERROR_CODE_SERVER_ERROR, None)
        | Some head \<Rightarrow>
            if ah_mode h = DCL_ASR_MODE_ASR
            then (case cJSON_GetObjectItem j tree ''asrData'' of
                    None \<Rightarrow> Some (DCL_ERROR_CODE_SERVER_ERROR, None)
                  | Some d \<Rightarrow> Some (DCL_ERROR_CODE_OK,
                      map_option (snprintf_str result_len) (Option.bind (cJSON_GetObjectItem j d ''Result'') (cj_valuestring j))))
            else (case Option.bind (cJSON_GetObjectItem j head ''statusCode'') (cj_valuestring j) of
                    None \<Rightarrow> Some (DCL_ERROR_CODE_SERVER_ERROR, None)
                  | Some _ \<Rightarrow> map_option (\<lambda>t. (DCL_ERROR_CODE_OK, Some (snprintf_str result_len t))) (ah_result h))))"

definition dcl_asr_get_result :: "crypto_lib \<Rightarrow> bytes \<Rightarrow> 'j cjson \<Rightarrow> asr_env \<Rightarrow> sock_round list list \<Rightarrow> sock_round list \<Rightarrow> nat
    \<Rightarrow> 'j asr_handle \<Rightarrow> (DCL_ERROR_CODE_t \<times> string option \<times> 'j asr_handle) option" where
  "dcl_asr_get_result l mac j e rs extra result_len h =
     (if result_len = 0 then Some (DCL_ERROR_CODE_SYS_INVALID_PARAMS, None, h)
      else do {
        (ret, h1) \<leftarrow> dcl_asr_audio_write l mac e None (h\<lparr>ah_index := - ah_index h\<rparr>);
        if ret \<noteq> DCL_ERROR_CODE_OK then Some (ret, None, h1)
        else do {
          (tree, start) \<leftarrow> read_answer j 50 rs extra (ah_cjson h1, ah_result h1);
          let h2 = h1\<lparr>ah_cjson := tree, ah_result := start\<rparr>;
          (ret1, text) \<leftarrow> dcl_asr_decode_packet j result_len h2;
          Some (ret1, text, h2) } })"

end
