(* ===== verification/Dcl.thy ===== *)
theory Dcl
  imports Asr
begin

text \<open>
  The four clients of the cloud that ask one question and end (\<open>sys/DCL\<close>): the address of spoken text
  (\<open>tts/dcl_tts_api.c\<close>), the meaning of a text (\<open>nlp/dcl_nlp_api.c\<close>), a translation (\<open>other/dcl_translate_api.c\<close>) and
  the licence of the device (\<open>license/dcl_device_license.c\<close>).

  \<^item> They are copies of each other but for the address, the texts and the members of the answer: \<open>session_begin\<close>, \<open>service_packet\<close>,
    \<open>decoded_answer\<close> and \<open>ask_server\<close> hold what is the same, and each client is given by its own functions over them.
  \<^item> \<open>dcl_event\<close>s are what a call does to memory, sockets and trees, in order.
  \<^item> Texts of the caller are there and end inside their arrays.
\<close>

section \<open>A session\<close>

datatype dcl_event = DclMalloc | DclFree | DclConnect int | DclClose int | DclSend string | DclParse | DclDelete

record dcl_http =
  hb_sock :: int
  hb_domain :: string
  hb_port :: string
  hb_params :: string
  hb_header :: string
  hb_body :: string
  hb_request :: string
  hb_nonce :: string
  hb_stamp :: string
  hb_key :: string

record dcl_env =
  dv_memory :: bool
  dv_tries :: "conn_try list option"
  dv_now :: nat
  dv_stamp :: string
  dv_mac :: bytes
  dv_write :: "sock_round list"
  dv_read :: "sock_round list"

definition http_zero :: dcl_http where
  "http_zero = \<lparr>hb_sock = 0, hb_domain = [], hb_port = [], hb_params = [], hb_header = [], hb_body = [], hb_request = [],
     hb_nonce = [], hb_stamp = [], hb_key = []\<rparr>"

text \<open>\<open>keep\<close>: the handle is given back also when the address or the connection failed; otherwise it is freed.\<close>

definition session_begin :: "bool \<Rightarrow> string \<Rightarrow> dcl_env \<Rightarrow> (DCL_ERROR_CODE_t \<times> dcl_http option \<times> dcl_event list) option" where
  "session_begin keep url e =
     (if \<not> dv_memory e then Some (DCL_ERROR_CODE_SYS_NOT_ENOUGH_MEM, None, [])
      else do {
        (ret, d, p, q) \<leftarrow> sock_get_server_info (Some url) (replicate 128 NUL) (replicate 8 NUL) (replicate 1024 NUL);
        domain \<leftarrow> buf_str d;
        port \<leftarrow> buf_str p;
        params \<leftarrow> buf_str q;
        let h = http_zero\<lparr>hb_sock := INVALID_SOCK, hb_domain := domain, hb_port := port, hb_params := params\<rparr>;
        let failed = (\<lambda>c. Some (c, if keep then Some h else None, DclMalloc # (if keep then [] else [DclFree])));
        if ret \<noteq> 0 then failed DCL_ERROR_CODE_NETWORK_DNS_FAIL
        else do {
          let s = fst (sock_connect (dv_tries e));
          if s = INVALID_SOCK then failed DCL_ERROR_CODE_NETWORK_UNAVAILABLE
          else Some (DCL_ERROR_CODE_OK, Some (h\<lparr>hb_sock := s\<rparr>), [DclMalloc, DclConnect s]) } })"

text \<open>\<open>tree\<close>: an answer has been parsed.\<close>

definition session_end :: "bool \<Rightarrow> dcl_http option \<Rightarrow> dcl_event list" where
  "session_end tree handle =
     (case handle of
        None \<Rightarrow> []
      | Some h \<Rightarrow> (if hb_sock h \<noteq> INVALID_SOCK then [DclClose (hb_sock h)] else []) @ (if tree then [DclDelete] else []) @ [DclFree])"

section \<open>Packets\<close>

text \<open>Keys and times of a request; the header of the three services and the one of the meaning.\<close>

definition fresh_keys :: "crypto_lib \<Rightarrow> dcl_env \<Rightarrow> DCL_AUTH_PARAMS_t \<Rightarrow> dcl_http \<Rightarrow> dcl_http option" where
  "fresh_keys l e a h = do {
     nonce \<leftarrow> crypto_generate_nonce l (dv_now e) (dv_mac e) 64;
     let stamp = snprintf_str 64 (dv_stamp e);
     Some (h\<lparr>hb_nonce := nonce, hb_stamp := stamp,
             hb_key := crypto_generate_private_key l (hb_key h) 64 nonce stamp (au_robot_id a)\<rparr>) }"

definition service_header :: "DCL_AUTH_PARAMS_t \<Rightarrow> dcl_http \<Rightarrow> string" where
  "service_header a h =
     ''POST '' @ hb_params h @ '' HTTP/1.0'' @ crlf @ ''Host: '' @ hb_domain h @ '':'' @ hb_port h @ crlf @
     ''Accept: application/json'' @ crlf @ ''Accept-Language: zh-cn'' @ crlf @
     ''Content-Length: '' @ dec_nat (length (hb_body h)) @ crlf @ ''Content-Type: application/json'' @ crlf @
     ''Nonce: '' @ hb_nonce h @ crlf @ ''CreatedTime: '' @ hb_stamp h @ crlf @ ''PrivateKey: '' @ hb_key h @ crlf @
     ''Key: '' @ au_robot_id a @ crlf @ ''Connection:close'' @ crlf @ crlf"

definition with_request :: "string \<Rightarrow> dcl_http \<Rightarrow> dcl_http" where
  "with_request header h =
     (let hd1 = snprintf_str 2048 header in h\<lparr>hb_header := hd1, hb_request := snprintf_str 4096 (hd1 @ hb_body h)\<rparr>)"

text \<open>The body gets the identifier of the request.\<close>

definition service_packet :: "(string \<Rightarrow> string) \<Rightarrow> crypto_lib \<Rightarrow> dcl_env \<Rightarrow> DCL_AUTH_PARAMS_t \<Rightarrow> dcl_http \<Rightarrow> dcl_http option" where
  "service_packet body l e a h = do {
     request_id \<leftarrow> crypto_generate_request_id l (dv_now e) (dv_mac e) 64;
     h1 \<leftarrow> fresh_keys l e a (h\<lparr>hb_nonce := request_id, hb_body := snprintf_str 2048 (body request_id)\<rparr>);
     Some (with_request (service_header a h1) h1) }"

text \<open>A member of a JSON text, the way the clients print it: the text is not quoted.\<close>

definition json_member :: "string \<Rightarrow> string \<Rightarrow> string" where
  "json_member k v = [CHR 0x22] @ k @ [CHR 0x22] @ '':'' @ [CHR 0x22] @ v @ [CHR 0x22]"

definition json_member_sp :: "string \<Rightarrow> string \<Rightarrow> string" where
  "json_member_sp k v = [CHR 0x22] @ k @ [CHR 0x22] @ '': '' @ [CHR 0x22] @ v @ [CHR 0x22]"

definition named :: "string \<Rightarrow> string" where
  "named k = [CHR 0x22] @ k @ [CHR 0x22] @ '':''"

section \<open>Answers\<close>

definition status_ok :: "string \<Rightarrow> bool" where
  "status_ok v \<longleftrightarrow> map lower (take 2 v) = ''ok''"

text \<open>\<open>use\<close> takes the tree and the text of the answer. The result: the code, whether there is a tree, and the output.\<close>

definition decoded_answer :: "'j cjson \<Rightarrow> ('j \<Rightarrow> string \<Rightarrow> DCL_ERROR_CODE_t \<times> 'o option) \<Rightarrow> string \<Rightarrow> DCL_ERROR_CODE_t \<times> bool \<times> 'o option" where
  "decoded_answer j use response =
     (if http_get_error_code response = 200
      then (case http_get_body response of
              None \<Rightarrow> (DCL_ERROR_CODE_OK, False, None)
            | Some body \<Rightarrow>
                (case cJSON_Parse j body of
                   None \<Rightarrow> (DCL_ERROR_CODE_NETWORK_POOR, False, None)
                 | Some tree \<Rightarrow> (case use tree body of (ret, out) \<Rightarrow> (ret, True, out))))
      else (DCL_ERROR_CODE_NETWORK_POOR, False, None))"

definition text_of :: "'j cjson \<Rightarrow> 'j \<Rightarrow> string \<Rightarrow> string option" where
  "text_of j d k = Option.bind (cJSON_GetObjectItem j d k) (cj_valuestring j)"

definition content_of :: "'j cjson \<Rightarrow> 'j \<Rightarrow> 'j option" where
  "content_of j tree =
     (case text_of j tree ''statusCode'' of
        None \<Rightarrow> None
      | Some v \<Rightarrow> if status_ok v then cJSON_GetObjectItem j tree ''content'' else None)"

text \<open>One text of the content.\<close>

definition content_text :: "'j cjson \<Rightarrow> string \<Rightarrow> nat \<Rightarrow> 'j \<Rightarrow> string \<Rightarrow> DCL_ERROR_CODE_t \<times> string option" where
  "content_text j k len tree body =
     (case Option.bind (content_of j tree) (\<lambda>c. text_of j c k) of
        None \<Rightarrow> (DCL_ERROR_CODE_SERVER_ERROR, None)
      | Some t \<Rightarrow> (DCL_ERROR_CODE_OK, Some (snprintf_str len t)))"

section \<open>A question\<close>

text \<open>Begin, packet, sending, receiving, decoding; the session ends behind each failure.\<close>

definition ask_server :: "(dcl_env \<Rightarrow> (DCL_ERROR_CODE_t \<times> dcl_http option \<times> dcl_event list) option) \<Rightarrow> (dcl_http \<Rightarrow> dcl_http option)
    \<Rightarrow> nat \<Rightarrow> (string \<Rightarrow> DCL_ERROR_CODE_t \<times> bool \<times> 'o option) \<Rightarrow> dcl_env \<Rightarrow> (DCL_ERROR_CODE_t \<times> 'o option \<times> dcl_event list) option" where
  "ask_server begin_session make_packet limit decode e = do {
     (ret, handle, es) \<leftarrow> begin_session e;
     case handle of
       None \<Rightarrow> Some (ret, None, es @ session_end False None)
     | Some h \<Rightarrow>
         if ret \<noteq> DCL_ERROR_CODE_OK then Some (ret, None, es @ session_end False (Some h))
         else do {
           h1 \<leftarrow> make_packet h;
           (n, w) \<leftarrow> sock_writen_with_timeout (dv_write e) (hb_request h1) 1000;
           if n \<noteq> length (hb_request h1)
           then Some (DCL_ERROR_CODE_NETWORK_POOR, None, es @ DclSend w # session_end False (Some h1))
           else do {
             (got, answer) \<leftarrow> sock_readn_with_timeout (dv_read e) (30 * 1024 - 1) limit;
             if got = 0 then Some (DCL_ERROR_CODE_NETWORK_POOR, None, es @ DclSend w # session_end False (Some h1))
             else do {
               let (ret1, tree, out) = decode (takeWhile (\<lambda>c. c \<noteq> NUL) answer);
               Some (ret1, out, es @ DclSend w # (if tree then [DclParse] else []) @ session_end tree (Some h1)) } } } }"

section \<open>Spoken text\<close>

definition DCL_SERVER_API_URL :: string where
  "DCL_SERVER_API_URL = ''http://api.deepbrain.ai:8383/open-api/service''"

definition dcl_tts_session_begin :: "dcl_env \<Rightarrow> (DCL_ERROR_CODE_t \<times> dcl_http option \<times> dcl_event list) option" where
  "dcl_tts_session_begin = session_begin True DCL_SERVER_API_URL"

definition dcl_tts_session_end :: "bool \<Rightarrow> dcl_http option \<Rightarrow> dcl_event list" where
  "dcl_tts_session_end = session_end"

definition dcl_tts_make_packet :: "crypto_lib \<Rightarrow> dcl_env \<Rightarrow> DCL_AUTH_PARAMS_t \<Rightarrow> string \<Rightarrow> dcl_http \<Rightarrow> dcl_http option" where
  "dcl_tts_make_packet l e a input_text =
     service_packet (\<lambda>request_id. ''{ '' @ json_member_sp ''app_id'' (au_app_id a) @ '','' @ named ''content'' @ '' {'' @ json_member ''inputText'' input_text @ ''},''
       @ json_member_sp ''device_id'' (au_device_id a) @ '','' @ json_member_sp ''request_id'' request_id @ '','' @ json_member_sp ''robot_id'' (au_robot_id a) @ '',''
       @ json_member_sp ''service'' ''DeepBrainTTSServiceImpl'' @ '','' @ json_member_sp ''user_id'' (au_user_id a) @ '','' @ json_member_sp ''version'' ''2.0'' @ ''}'') l e a"

definition dcl_tts_decode_packet :: "'j cjson \<Rightarrow> nat \<Rightarrow> string \<Rightarrow> DCL_ERROR_CODE_t \<times> bool \<times> string option" where
  "dcl_tts_decode_packet j len = decoded_answer j (content_text j ''ttsLink'' len)"

definition dcl_get_tts_url :: "crypto_lib \<Rightarrow> 'j cjson \<Rightarrow> dcl_env \<Rightarrow> DCL_AUTH_PARAMS_t \<Rightarrow> string \<Rightarrow> nat
    \<Rightarrow> (DCL_ERROR_CODE_t \<times> string option \<times> dcl_event list) option" where
  "dcl_get_tts_url l j e a input_text len =
     (if input_text = [] \<or> len = 0 then Some (DCL_ERROR_CODE_SYS_INVALID_PARAMS, None, [])
      else ask_server dcl_tts_session_begin (dcl_tts_make_packet l e a input_text) 2000 (dcl_tts_decode_packet j len) e)"

section \<open>The meaning of a text\<close>

definition DCL_NLP_API_URL :: string where
  "DCL_NLP_API_URL = ''http://api.deepbrain.ai:8383/deep-brain-api/ask''"

definition dcl_nlp_session_begin :: "dcl_env \<Rightarrow> (DCL_ERROR_CODE_t \<times> dcl_http option \<times> dcl_event list) option" where
  "dcl_nlp_session_begin = session_begin True DCL_NLP_API_URL"

definition dcl_nlp_session_end :: "bool \<Rightarrow> dcl_http option \<Rightarrow> dcl_event list" where
  "dcl_nlp_session_end = session_end"

definition dcl_nlp_make_packet :: "crypto_lib \<Rightarrow> dcl_env \<Rightarrow> DCL_AUTH_PARAMS_t \<Rightarrow> string \<Rightarrow> dcl_http \<Rightarrow> dcl_http option" where
  "dcl_nlp_make_packet l e a input_text h = do {
     h1 \<leftarrow> fresh_keys l e a h;
     let body = ''{'' @ named ''location'' @ ''{'' @ json_member ''cityName'' (au_city_name a) @ '','' @ json_member ''longitude'' (au_city_longitude a) @ '',''
       @ json_member ''latitude'' (au_city_latitude a) @ ''},'' @ named ''requestHead'' @ ''{'' @ named ''accessToken'' @ ''{'' @ json_member ''nonce'' (hb_nonce h1) @ '',''
       @ json_member ''privateKey'' (hb_key h1) @ '','' @ json_member ''createdTime'' (hb_stamp h1) @ ''},'' @ named ''apiAccount'' @ ''{''
       @ json_member ''appId'' (au_app_id a) @ '','' @ json_member ''robotId'' (au_robot_id a) @ '','' @ json_member ''userId'' (au_user_id a) @ '',''
       @ json_member ''deviceId'' (au_device_id a) @ ''}},'' @ named ''nlpData'' @ ''{'' @ json_member ''inputText'' input_text @ ''},''
       @ named ''simpleView'' @ ''true}'';
     let h2 = h1\<lparr>hb_body := snprintf_str 2048 body\<rparr>;
     Some (with_request (''POST '' @ hb_params h2 @ '' HTTP/1.0'' @ crlf @ ''Host: '' @ hb_domain h2 @ '':'' @ hb_port h2 @ crlf @
       ''User-Agent: esp-idf/1.0 esp32'' @ crlf @ ''Content-Type: application/json; charset=utf-8'' @ crlf @ ''Accept: */*'' @ crlf @
       ''Content-Length: '' @ dec_nat (length (hb_body h2)) @ crlf @ crlf) h2) }"

definition dcl_nlp_decode_packet :: "'j cjson \<Rightarrow> nat \<Rightarrow> string \<Rightarrow> DCL_ERROR_CODE_t \<times> bool \<times> string option" where
  "dcl_nlp_decode_packet j len = decoded_answer j (\<lambda>tree body.
     case Option.bind (cJSON_GetObjectItem j tree ''responseHead'') (\<lambda>h. text_of j h ''statusCode'') of
       None \<Rightarrow> (DCL_ERROR_CODE_SERVER_ERROR, None)
     | Some v \<Rightarrow> if status_ok v then (DCL_ERROR_CODE_OK, Some (snprintf_str len body)) else (DCL_ERROR_CODE_SERVER_ERROR, None))"

definition dcl_get_nlp_result :: "crypto_lib \<Rightarrow> 'j cjson \<Rightarrow> dcl_env \<Rightarrow> DCL_AUTH_PARAMS_t \<Rightarrow> string \<Rightarrow> nat
    \<Rightarrow> (DCL_ERROR_CODE_t \<times> string option \<times> dcl_event list) option" where
  "dcl_get_nlp_result l j e a input_text len =
     (if input_text = [] \<or> len = 0 then Some (DCL_ERROR_CODE_SYS_INVALID_PARAMS, None, [])
      else ask_server dcl_nlp_session_begin (dcl_nlp_make_packet l e a input_text) 5000 (dcl_nlp_decode_packet j len) e)"

section \<open>Translation\<close>

datatype DCL_TRANSLATE_MODE_t = DCL_TRANSLATE_MODE_CH_AND_EN | DCL_TRANSLATE_MODE_CH_TO_EN | DCL_TRANSLATE_MODE_EN_TO_CH

definition DCL_TRANSLATE_URL :: string where
  "DCL_TRANSLATE_URL = ''http://api.deepbrain.ai:8383/open-api/service''"

definition PARAMS_CHINESE :: string where
  "PARAMS_CHINESE = utf8 [0xE4, 0xB8, 0xAD, 0xE6, 0x96, 0x87]"

definition PARAMS_ENGLISH :: string where
  "PARAMS_ENGLISH = utf8 [0xE8, 0x8B, 0xB1, 0xE8, 0xAF, 0xAD]"

definition dcl_translate_session_begin :: "dcl_env \<Rightarrow> (DCL_ERROR_CODE_t \<times> dcl_http option \<times> dcl_event list) option" where
  "dcl_translate_session_begin = session_begin True DCL_TRANSLATE_URL"

definition dcl_translate_session_end :: "bool \<Rightarrow> dcl_http option \<Rightarrow> dcl_event list" where
  "dcl_translate_session_end = session_end"

text \<open>The languages from and to; both arrays have eight bytes.\<close>

definition dcl_translate_make_translate_mode :: "DCL_TRANSLATE_MODE_t \<Rightarrow> string \<times> string" where
  "dcl_translate_make_translate_mode m =
     (case m of
        DCL_TRANSLATE_MODE_CH_AND_EN \<Rightarrow> ([], [])
      | DCL_TRANSLATE_MODE_CH_TO_EN \<Rightarrow> (snprintf_str 8 PARAMS_CHINESE, snprintf_str 8 PARAMS_ENGLISH)
      | DCL_TRANSLATE_MODE_EN_TO_CH \<Rightarrow> (snprintf_str 8 PARAMS_ENGLISH, snprintf_str 8 PARAMS_CHINESE))"

definition dcl_translate_make_packet :: "crypto_lib \<Rightarrow> dcl_env \<Rightarrow> DCL_TRANSLATE_MODE_t \<Rightarrow> DCL_AUTH_PARAMS_t \<Rightarrow> string \<Rightarrow> dcl_http \<Rightarrow> dcl_http option" where
  "dcl_translate_make_packet l e m a input_text =
     (case dcl_translate_make_translate_mode m of (from_la, to_la) \<Rightarrow>
     service_packet (\<lambda>request_id. ''{ '' @ json_member_sp ''app_id'' (au_app_id a) @ '','' @ named ''content'' @ '' {'' @ json_member ''inputText'' input_text @ '',''
       @ json_member ''fromLa'' from_la @ '','' @ json_member ''toLa'' to_la @ ''},''
       @ json_member_sp ''device_id'' (au_device_id a) @ '','' @ json_member_sp ''request_id'' request_id @ '','' @ json_member_sp ''robot_id'' (au_robot_id a) @ '',''
       @ json_member_sp ''service'' ''DeepBrainTranslateSkillService'' @ '','' @ json_member_sp ''user_id'' (au_user_id a) @ '','' @ json_member_sp ''version'' ''2.0.0.0'' @ ''}'') l e a)"

definition dcl_translate_decode_packet :: "'j cjson \<Rightarrow> nat \<Rightarrow> string \<Rightarrow> DCL_ERROR_CODE_t \<times> bool \<times> string option" where
  "dcl_translate_decode_packet j len = decoded_answer j (content_text j ''translateText'' len)"

definition dcl_get_translate_text :: "crypto_lib \<Rightarrow> 'j cjson \<Rightarrow> dcl_env \<Rightarrow> DCL_TRANSLATE_MODE_t \<Rightarrow> DCL_AUTH_PARAMS_t \<Rightarrow> string \<Rightarrow> nat
    \<Rightarrow> (DCL_ERROR_CODE_t \<times> string option \<times> dcl_event list) option" where
  "dcl_get_translate_text l j e m a input_text len =
     (if input_text = [] \<or> len = 0 then Some (DCL_ERROR_CODE_SYS_INVALID_PARAMS, None, [])
      else ask_server dcl_translate_session_begin (dcl_translate_make_packet l e m a input_text) 2000 (dcl_translate_decode_packet j len) e)"

section \<open>The licence of the device\<close>

record DCL_DEVICE_LICENSE_RESULT_t =
  lr_device_sn :: string
  lr_device_type :: string
  lr_device_id :: string
  lr_device_license :: string

definition dlc_dev_license_session_begin :: "dcl_env \<Rightarrow> (DCL_ERROR_CODE_t \<times> dcl_http option \<times> dcl_event list) option" where
  "dlc_dev_license_session_begin = session_begin False DCL_SERVER_API_URL"

definition dlc_dev_license_session_end :: "bool \<Rightarrow> dcl_http option \<Rightarrow> dcl_event list" where
  "dlc_dev_license_session_end = session_end"

definition dlc_dev_license_make_packet :: "crypto_lib \<Rightarrow> dcl_env \<Rightarrow> DCL_AUTH_PARAMS_t \<Rightarrow> string \<Rightarrow> string \<Rightarrow> bool \<Rightarrow> dcl_http \<Rightarrow> dcl_http option" where
  "dlc_dev_license_make_packet l e a device_sn_prefix device_chip_id is_wechat_sn =
     service_packet (\<lambda>request_id. ''{'' @ json_member_sp ''app_id'' (au_app_id a) @ '','' @ named ''content'' @ ''{'' @ json_member_sp ''projectCode'' device_sn_prefix @ '',''
       @ json_member_sp ''mac'' device_chip_id @ '','' @ json_member ''type'' (if is_wechat_sn then ''weChat'' else ''deviceSn'') @ ''},''
       @ json_member_sp ''device_id'' (au_device_id a) @ '','' @ json_member_sp ''request_id'' request_id @ '','' @ json_member_sp ''robot_id'' (au_robot_id a) @ '',''
       @ json_member_sp ''service'' ''generateDeviceSNService'' @ '','' @ json_member_sp ''user_id'' (au_user_id a) @ '','' @ json_member_sp ''version'' ''2.0'' @ ''}'') l e a"

text \<open>The texts of the content, one after the other, into the fields of the result; an empty one or none ends it.\<close>

fun license_texts :: "'j cjson \<Rightarrow> 'j \<Rightarrow> (string \<times> (string \<Rightarrow> DCL_DEVICE_LICENSE_RESULT_t \<Rightarrow> DCL_DEVICE_LICENSE_RESULT_t)) list
    \<Rightarrow> DCL_DEVICE_LICENSE_RESULT_t \<Rightarrow> DCL_ERROR_CODE_t \<times> DCL_DEVICE_LICENSE_RESULT_t" where
  "license_texts j c [] r = (DCL_ERROR_CODE_OK, r)"
| "license_texts j c ((k, put) # ks) r =
     (case text_of j c k of
        None \<Rightarrow> (DCL_ERROR_CODE_SERVER_ERROR, r)
      | Some t \<Rightarrow> if t = [] then (DCL_ERROR_CODE_SERVER_ERROR, r) else license_texts j c ks (put t r))"

definition dlc_dev_license_decode_packet :: "'j cjson \<Rightarrow> bool \<Rightarrow> DCL_DEVICE_LICENSE_RESULT_t \<Rightarrow> string
    \<Rightarrow> DCL_ERROR_CODE_t \<times> bool \<times> DCL_DEVICE_LICENSE_RESULT_t option" where
  "dlc_dev_license_decode_packet j is_wechat_sn r = decoded_answer j (\<lambda>tree body.
     case content_of j tree of
       None \<Rightarrow> (DCL_ERROR_CODE_SERVER_ERROR, None)
     | Some c \<Rightarrow> (case license_texts j c
           ((''sn'', \<lambda>t r. r\<lparr>lr_device_sn := snprintf_str 64 t\<rparr>) #
            (if is_wechat_sn then [(''deviceType'', \<lambda>t r. r\<lparr>lr_device_type := snprintf_str 64 t\<rparr>),
               (''deviceId'', \<lambda>t r. r\<lparr>lr_device_id := snprintf_str 64 t\<rparr>),
               (''deviceLicense'', \<lambda>t r. r\<lparr>lr_device_license := snprintf_str 256 t\<rparr>)] else [])) r of
         (ret, r1) \<Rightarrow> (ret, Some r1)))"

definition dcl_get_device_license :: "crypto_lib \<Rightarrow> 'j cjson \<Rightarrow> dcl_env \<Rightarrow> DCL_AUTH_PARAMS_t \<Rightarrow> string \<Rightarrow> string \<Rightarrow> bool
    \<Rightarrow> DCL_DEVICE_LICENSE_RESULT_t \<Rightarrow> (DCL_ERROR_CODE_t \<times> DCL_DEVICE_LICENSE_RESULT_t option \<times> dcl_event list) option" where
  "dcl_get_device_license l j e a device_sn_prefix device_chip_id is_wechat_sn r =
     ask_server dlc_dev_license_session_begin (dlc_dev_license_make_packet l e a device_sn_prefix device_chip_id is_wechat_sn) 2000
       (dlc_dev_license_decode_packet j is_wechat_sn r) e"

end
