(* ===== verification/Adpcm_Props.thy ===== *)
theory Adpcm_Props
  imports Adpcm
begin

text \<open>
  What a block of ADPCM holds: decoding it gives the first sample and then, sample by sample, exactly the values that the encoder
  followed; and a quiet signal is followed closely.
\<close>

section \<open>The channels stay in their ranges\<close>

definition wf_channel :: "adpcm_channel \<Rightarrow> bool" where
  "wf_channel c \<longleftrightarrow> - 32768 \<le> ch_pcmdata c \<and> ch_pcmdata c \<le> 32767 \<and> 0 \<le> ch_index c \<and> ch_index c \<le> 88"

lemma CLIP_range: "lo \<le> hi \<Longrightarrow> lo \<le> CLIP d lo hi \<and> CLIP d lo hi \<le> hi"
  by (simp add: CLIP_def)

lemma wf_moved: "wf_channel (moved c n)"
  using CLIP_range [of "- 32768" 32767] CLIP_range [of 0 88]
  by (simp add: wf_channel_def moved_def nibble_pcm_def nibble_index_def)

lemma first_nibble_bound: "first_nibble c x < 16"
  by (auto simp: first_nibble_def Let_def nat_less_iff)

lemma try_nibbles_bound:
  "try_nibbles ahead c x nibble ns best = Some r \<Longrightarrow> snd best < 16 \<Longrightarrow> set ns \<subseteq> {0..<16} \<Longrightarrow> snd r < 16"
  by (induction ahead c x nibble ns best rule: try_nibbles.induct) (auto split: if_splits Option.bind_splits)

lemma minimum_error_bound: "minimum_error depth nch c x xs = Some (e, n) \<Longrightarrow> n < 16"
proof (cases depth)
  case (Suc d)
  assume "minimum_error depth nch c x xs = Some (e, n)"
  with Suc first_nibble_bound [of c x] show ?thesis
    by (auto simp: Let_def split: if_splits Option.bind_splits dest!: try_nibbles_bound)
qed (auto simp: Let_def first_nibble_bound)

lemma try_nibbles_returns:
  "(\<And>d. \<exists>r. ahead d = Some r) \<Longrightarrow> \<exists>r. try_nibbles ahead c x nibble ns best = Some r"
proof (induction ahead c x nibble ns best rule: try_nibbles.induct)
  case (2 ahead c x nibble n ns e b)
  obtain r where "ahead (moved c n) = Some r" using 2 by blast
  with 2 show ?case by (cases r) auto
qed simp

lemma minimum_error_returns:
  "depth * nch < length xs \<Longrightarrow> \<exists>r. minimum_error depth nch c x xs = Some r"
proof (induction depth arbitrary: c x xs)
  case (Suc d)
  then have l: "d * nch < length (drop nch xs)" by simp
  then have r: "drop nch xs \<noteq> []" by auto
  obtain r1 where r1: "minimum_error d nch (moved c (first_nibble c x)) (hd (drop nch xs)) (drop nch xs) = Some r1"
    using Suc.IH [OF l] by blast
  show ?case
    using r r1 try_nibbles_returns [where ahead = "\<lambda>q. minimum_error d nch q (hd (drop nch xs)) (drop nch xs)"] Suc.IH [OF l]
    by (cases r1) (auto simp: Let_def)
qed (simp add: Let_def)

section \<open>Sample by sample\<close>

text \<open>The decoder's view of the channel of a coder with one channel.\<close>

definition mono_coder :: "adpcm_context \<Rightarrow> bool" where
  "mono_coder cx \<longleftrightarrow> cx_num_channels cx = 1 \<and> length (cx_channels cx) = 2 \<and> wf_channel (hd (cx_channels cx))"

definition seen :: "adpcm_context \<Rightarrow> int \<times> int" where
  "seen cx = (ch_pcmdata (hd (cx_channels cx)), ch_index (hd (cx_channels cx)))"

text \<open>The encoder, one sample at a time, with \<open>m\<close> samples left at the end: the values that it follows.\<close>

primrec followed :: "nat \<Rightarrow> nat \<Rightarrow> adpcm_context \<Rightarrow> int list \<Rightarrow> (int list \<times> adpcm_context) option" where
  "followed 0 m cx xs = Some ([], cx)"
| "followed (Suc k) m cx xs = do {
     (_, cx1) \<leftarrow> encode_sample cx 0 xs (Suc k + m);
     (ys, cx2) \<leftarrow> followed k m cx1 (drop 1 xs);
     Some (fst (seen cx1) # ys, cx2) }"

lemma shaped_keeps [simp]:
  "ch_pcmdata (snd (shaped sh x c)) = ch_pcmdata c" "ch_index (snd (shaped sh x c)) = ch_index c"
  by (simp_all add: shaped_def Let_def split: noise_shaping.split)

lemma encode_sample_step:
  assumes "mono_coder cx" and "encode_sample cx 0 xs m = Some (n, cx1)"
  shows "mono_coder cx1 \<and> n < 16 \<and> seen cx1 = decode_nibble (seen cx) n
    \<and> cx_lookahead cx1 = cx_lookahead cx \<and> cx_noise_shaping cx1 = cx_noise_shaping cx"
proof -
  obtain c d where cd: "cx_channels cx = [c, d]" using assms(1) by (auto simp: mono_coder_def length_Suc_conv numeral_2_eq_2)
  let ?q = "snd (shaped (cx_noise_shaping cx) (hd xs) c)"
  let ?m = "minimum_error (min (m - 1) (cx_lookahead cx)) (cx_num_channels cx) ?q (fst (shaped (cx_noise_shaping cx) (hd xs) c)) xs"
  have "xs \<noteq> []" using assms(2) by (auto simp: encode_sample_def)
  then have enc: "encode_sample cx 0 xs m = Option.bind ?m (\<lambda>(e, n). Some (n, cx\<lparr>cx_channels :=
      [if cx_noise_shaping cx = NOISE_SHAPING_OFF then moved ?q n else (moved ?q n)\<lparr>ch_error := ch_error (moved ?q n) + ch_pcmdata (moved ?q n)\<rparr>, d]\<rparr>))"
    by (simp add: encode_sample_def cd Let_def)
  with assms(2) obtain e where e: "?m = Some (e, n)" by (cases ?m) (auto simp: split_beta)
  have cx1: "\<exists>c1. ch_pcmdata c1 = nibble_pcm ?q n \<and> ch_index c1 = nibble_index ?q n \<and> cx1 = cx\<lparr>cx_channels := [c1, d]\<rparr>"
    using assms(2) unfolding enc e
    by (intro exI [of _ "if cx_noise_shaping cx = NOISE_SHAPING_OFF then moved ?q n
        else (moved ?q n)\<lparr>ch_error := ch_error (moved ?q n) + ch_pcmdata (moved ?q n)\<rparr>"]) (simp add: moved_def)
  have w: "wf_channel (moved ?q n)" by (rule wf_moved)
  from cx1 obtain c1 where c1: "ch_pcmdata c1 = nibble_pcm ?q n" "ch_index c1 = nibble_index ?q n" "cx1 = cx\<lparr>cx_channels := [c1, d]\<rparr>"
    by blast
  have "seen cx1 = decode_nibble (seen cx) n"
    by (simp add: c1 seen_def cd nibble_pcm_def nibble_index_def step_of_def decode_nibble_def)
  moreover have "mono_coder cx1" using assms(1) w by (simp add: c1 mono_coder_def wf_channel_def moved_def)
  ultimately show ?thesis using minimum_error_bound [OF e] c1(3) by simp
qed

lemma encode_sample_returns:
  assumes "mono_coder cx" and "m \<le> length xs" and "0 < m"
  shows "\<exists>n cx1. encode_sample cx 0 xs m = Some (n, cx1)"
proof -
  have "min (m - 1) (cx_lookahead cx) * 1 < length xs" using assms by auto
  from minimum_error_returns [OF this] obtain r where "minimum_error (min (m - 1) (cx_lookahead cx)) (cx_num_channels cx)
      (snd (shaped (cx_noise_shaping cx) (hd xs) (cx_channels cx ! 0))) (fst (shaped (cx_noise_shaping cx) (hd xs) (cx_channels cx ! 0))) xs = Some r"
    using assms(1) by (fastforce simp: mono_coder_def)
  with assms show ?thesis by (cases r) (auto simp: encode_sample_def Let_def)
qed

lemma followed_append:
  "followed (a + b) m cx xs = Option.bind (followed a (b + m) cx xs) (\<lambda>(ys, cx1).
     Option.bind (followed b m cx1 (drop a xs)) (\<lambda>(zs, cx2). Some (ys @ zs, cx2)))"
proof (induction a arbitrary: cx xs)
  case 0
  show ?case by (cases "followed b m cx xs") auto
next
  case (Suc a)
  show ?case
  proof (cases "encode_sample cx 0 xs (Suc (a + b + m))")
    case None
    then show ?thesis by (simp add: add.assoc)
  next
    case (Some r)
    obtain n cx1 where r: "r = (n, cx1)" by force
    show ?thesis
      using Suc.IH [of cx1 "drop 1 xs"] Some
      by (cases "followed a (b + m) cx1 (drop 1 xs)") (auto simp: r add.assoc split_beta Option.bind_assoc split: Option.bind_splits)
  qed
qed

section \<open>Bytes and chunks\<close>

lemma packed_all:
  "\<forall>n1\<in>set [0..<16]. \<forall>n2\<in>set [0..<16].
     unat ((word_of_nat n1 OR push_bit 4 (word_of_nat n2) :: 8 word) AND 15) = n1
     \<and> unat (drop_bit 4 (word_of_nat n1 OR push_bit 4 (word_of_nat n2) :: 8 word)) = n2"
  by code_simp

lemma packed:
  assumes "n1 < 16" and "n2 < 16"
  shows "unat ((word_of_nat n1 OR push_bit 4 (word_of_nat n2) :: 8 word) AND 15) = n1"
    and "unat (drop_bit 4 (word_of_nat n1 OR push_bit 4 (word_of_nat n2) :: 8 word)) = n2"
  using packed_all assms by (simp_all only: set_upt atLeastLessThan_iff Ball_def) auto

lemma encode_byte_step:
  assumes "mono_coder cx" and "encode_byte cx 0 xs left = Some (b, cx2)"
  shows "mono_coder cx2 \<and> (\<exists>s1. s1 = decode_nibble (seen cx) (unat (b AND 15)) \<and> seen cx2 = decode_nibble s1 (unat (drop_bit 4 b))
    \<and> followed 2 left cx xs = Some ([fst s1, fst (seen cx2)], cx2))"
proof -
  from assms obtain n1 cx1 n2 where n: "encode_sample cx 0 xs (left + 2) = Some (n1, cx1)"
      "encode_sample cx1 0 (drop 1 xs) (left + 1) = Some (n2, cx2)" "b = word_of_nat n1 OR push_bit 4 (word_of_nat n2)"
    by (auto simp: encode_byte_def mono_coder_def split: Option.bind_splits)
  note s1 = encode_sample_step [OF assms(1) n(1)]
  then have s2: "mono_coder cx2 \<and> n2 < 16 \<and> seen cx2 = decode_nibble (seen cx1) n2" using encode_sample_step n(2) by blast
  have b: "unat (b AND 15) = n1" "unat (drop_bit 4 b) = n2" using packed [of n1 n2] s1 s2 n(3) by auto
  have "followed 2 left cx xs = Some ([fst (seen cx1), fst (seen cx2)], cx2)"
    using n(1,2) by (simp add: numeral_2_eq_2)
  with s1 s2 b show ?thesis by auto
qed

lemma encode_bytes_step:
  "mono_coder cx \<Longrightarrow> encode_bytes k chunks cx 0 xs = Some (bs, cx2) \<Longrightarrow>
     \<exists>ys. followed (2 * k) (8 * chunks) cx xs = Some (ys, cx2) \<and> decode_bytes bs (seen cx) = (ys, seen cx2)
       \<and> length bs = k \<and> length ys = 2 * k \<and> mono_coder cx2"
proof (induction k arbitrary: cx xs bs)
  case (Suc k)
  from Suc.prems obtain b cx1 cs where b: "encode_byte cx 0 xs (8 * chunks + 2 * k) = Some (b, cx1)"
      "encode_bytes k chunks cx1 0 (drop 2 xs) = Some (cs, cx2)" "bs = b # cs"
    by (auto simp: mono_coder_def mult.commute split: Option.bind_splits)
  from encode_byte_step [OF Suc.prems(1) b(1)] obtain s1 where s1: "mono_coder cx1" "s1 = decode_nibble (seen cx) (unat (b AND 15))"
      "seen cx1 = decode_nibble s1 (unat (drop_bit 4 b))" "followed 2 (8 * chunks + 2 * k) cx xs = Some ([fst s1, fst (seen cx1)], cx1)"
    by blast
  from Suc.IH [OF s1(1) b(2)] obtain ys where ys: "followed (2 * k) (8 * chunks) cx1 (drop 2 xs) = Some (ys, cx2)"
      "decode_bytes cs (seen cx1) = (ys, seen cx2)" "length cs = k" "length ys = 2 * k" "mono_coder cx2"
    by blast
  have "followed (2 + 2 * k) (8 * chunks) cx xs = Some (fst s1 # fst (seen cx1) # ys, cx2)"
    using s1(4) ys(1) unfolding followed_append by (simp add: add.commute)
  moreover have "decode_bytes bs (seen cx) = (fst s1 # fst (seen cx1) # ys, seen cx2)"
    using ys(2) by (simp add: b(3) Let_def s1(2,3))
  ultimately show ?case using ys b(3) by simp
qed simp

lemma interleaved_one: "length ys = 8 \<Longrightarrow> interleaved [ys] = ys"
  by (auto simp: interleaved_def upt_rec numeral_eq_Suc length_Suc_conv)

lemma encode_chunks_step:
  "mono_coder cx \<Longrightarrow> encode_chunks chunks cx xs = Some (bs, cx2) \<Longrightarrow>
     \<exists>ys. followed (8 * chunks) 0 cx xs = Some (ys, cx2) \<and> decode_chunks chunks [seen cx] bs = ys \<and> length bs = 4 * chunks
       \<and> length ys = 8 * chunks \<and> mono_coder cx2"
proof (induction chunks arbitrary: cx xs bs)
  case (Suc chunks)
  from Suc.prems obtain as cx1 cs where b: "encode_bytes 4 chunks cx 0 xs = Some (as, cx1)"
      "encode_chunks chunks cx1 (drop 8 xs) = Some (cs, cx2)" "bs = as @ cs"
    by (auto simp: mono_coder_def split: Option.bind_splits)
  from encode_bytes_step [OF Suc.prems(1) b(1)] obtain ys where ys: "followed 8 (8 * chunks) cx xs = Some (ys, cx1)"
      "decode_bytes as (seen cx) = (ys, seen cx1)" "length as = 4" "length ys = 8" "mono_coder cx1"
    by auto
  from Suc.IH [OF ys(5) b(2)] obtain zs where zs: "followed (8 * chunks) 0 cx1 (drop 8 xs) = Some (zs, cx2)"
      "decode_chunks chunks [seen cx1] cs = zs" "length cs = 4 * chunks" "length zs = 8 * chunks" "mono_coder cx2"
    by blast
  have "followed (8 + 8 * chunks) 0 cx xs = Some (ys @ zs, cx2)"
    using ys(1) zs(1) unfolding followed_append by simp
  moreover have "decode_chunks (Suc chunks) [seen cx] bs = ys @ zs"
    using ys zs(2) by (simp add: b(3) Let_def interleaved_one)
  ultimately show ?case using ys(3,4) zs(3,4,5) b(3) by auto
qed simp

lemma encode_bytes_returns:
  "mono_coder cx \<Longrightarrow> 2 * k + 8 * chunks \<le> length xs \<Longrightarrow> \<exists>r. encode_bytes k chunks cx 0 xs = Some r"
proof (induction k arbitrary: cx xs)
  case (Suc k)
  let ?l = "chunks * 8 + k * 2"
  obtain n1 cx1 where 1: "encode_sample cx 0 xs (?l + 2) = Some (n1, cx1)"
    using encode_sample_returns [of cx "?l + 2" xs] Suc.prems by auto
  have m1: "mono_coder cx1" using encode_sample_step [OF Suc.prems(1) 1] by blast
  obtain n2 cx2 where 2: "encode_sample cx1 0 (drop 1 xs) (?l + 1) = Some (n2, cx2)"
  proof -
    have "?l + 1 \<le> length (drop 1 xs)" using Suc.prems(2) by simp
    from encode_sample_returns [OF m1 this] that show ?thesis by auto
  qed
  have "mono_coder cx2" using encode_sample_step [OF m1 2] by blast
  moreover have "2 * k + 8 * chunks \<le> length (drop 2 xs)" using Suc.prems(2) by simp
  ultimately obtain r where "encode_bytes k chunks cx2 0 (drop 2 xs) = Some r" using Suc.IH by blast
  with 1 2 Suc.prems(1) show ?case by (cases r) (auto simp: encode_byte_def mono_coder_def)
qed simp

lemma encode_chunks_returns:
  "mono_coder cx \<Longrightarrow> 8 * chunks \<le> length xs \<Longrightarrow> \<exists>r. encode_chunks chunks cx xs = Some r"
proof (induction chunks arbitrary: cx xs)
  case (Suc chunks)
  obtain bs cx1 where 1: "encode_bytes 4 chunks cx 0 xs = Some (bs, cx1)"
    using encode_bytes_returns [of cx 4 chunks xs] Suc.prems by auto
  have "mono_coder cx1" using encode_bytes_step [OF Suc.prems(1) 1] by blast
  moreover have "8 * chunks \<le> length (drop 8 xs)" using Suc.prems(2) by simp
  ultimately obtain r where "encode_chunks chunks cx1 (drop 8 xs) = Some r" using Suc.IH by blast
  with 1 Suc.prems(1) show ?case by (cases r) (auto simp: mono_coder_def)
qed simp

section \<open>A block\<close>

definition sample16 :: "int \<Rightarrow> bool" where
  "sample16 x \<longleftrightarrow> - 32768 \<le> x \<and> x \<le> 32767"

lemma header_reads_back:
  assumes "sample16 x" and "0 \<le> i" and "i \<le> 88" and "ch_index c = i"
  shows "header_state (block_header x c) = (x, i) \<and> header_ok (block_header x c)"
proof -
  have a: "(x mod 256 + 256 * (x div 256 mod 256)) = x mod 65536"
    using zmod_zmult2_eq [of 256 x 256] by simp
  have "signed_take_bit 15 (x mod 65536) = x"
    using assms(1) by (simp add: signed_take_bit_eq_take_bit_shift take_bit_eq_mod sample16_def mod_simps)
  moreover have "signed_take_bit 7 (i mod 256) = i"
    using assms(2,3) by (simp add: signed_take_bit_eq_take_bit_shift take_bit_eq_mod)
  ultimately show ?thesis
    using assms by (simp add: header_state_def header_ok_def block_header_def uint_word_of_int a [simplified])
qed

text \<open>The channel a block starts from.\<close>

definition block_started :: "int \<Rightarrow> adpcm_context \<Rightarrow> adpcm_context" where
  "block_started x cx = set_decode_parameters [x] cx"

lemma block_started_mono:
  assumes "mono_coder cx" and "sample16 x"
  shows "mono_coder (block_started x cx) \<and> seen (block_started x cx) = (x, snd (seen cx))"
proof -
  obtain c d where cd: "cx_channels cx = [c, d]" using assms(1) by (auto simp: mono_coder_def length_Suc_conv numeral_2_eq_2)
  with assms show ?thesis
    by (auto simp: mono_coder_def block_started_def set_decode_parameters_def seen_def wf_channel_def sample16_def)
qed

lemma block_holds:
  assumes "mono_coder cx" and "list_all sample16 xs" and "xs \<noteq> []" and "count = length xs" and "n = (count - 1) div 8"
  shows "\<exists>bs cx1 ys. adpcm_encode_block cx xs count = Some (bs, cx1) \<and> length bs = 4 + 4 * n
    \<and> followed (8 * n) 0 (block_started (hd xs) cx) (tl xs) = Some (ys, cx1) \<and> length ys = 8 * n \<and> mono_coder cx1
    \<and> adpcm_decode_block bs 1 = Some (hd xs # ys)"
proof -
  obtain x rest where xs: "xs = x # rest" using assms(3) by (cases xs) auto
  have x: "sample16 x" using assms(2) xs by simp
  obtain c d where cd: "cx_channels cx = [c, d]" using assms(1) by (auto simp: mono_coder_def length_Suc_conv numeral_2_eq_2)
  have c: "0 \<le> ch_index c" "ch_index c \<le> 88" using assms(1) cd by (auto simp: mono_coder_def wf_channel_def)
  note st = block_started_mono [OF assms(1) x]
  have "8 * n \<le> length rest" using assms(4,5) xs by auto
  then obtain bs cx1 where e: "encode_chunks n (block_started x cx) rest = Some (bs, cx1)"
    using encode_chunks_returns st by fastforce
  from encode_chunks_step [OF _ e] st obtain ys where ys: "followed (8 * n) 0 (block_started x cx) rest = Some (ys, cx1)"
      "decode_chunks n [seen (block_started x cx)] bs = ys" "length bs = 4 * n" "length ys = 8 * n" "mono_coder cx1"
    by blast
  note h = header_reads_back [OF x c refl]
  have lh: "length (block_header x c) = 4" by (simp add: block_header_def)
  have enc: "adpcm_encode_block cx xs count = Some (block_header x c @ bs, cx1)"
    using assms e by (simp add: adpcm_encode_block_def mono_coder_def xs cd block_started_def Let_def)
  have "seen (block_started x cx) = (x, ch_index c)" using st by (simp add: seen_def cd)
  with ys(2) h have "adpcm_decode_block (block_header x c @ bs) 1 = Some (x # ys)"
    by (simp add: adpcm_decode_block_def lh ys(3))
  then show ?thesis using enc ys lh xs by auto
qed

section \<open>How close it is\<close>

definition plain :: "adpcm_context \<Rightarrow> bool" where
  "plain cx \<longleftrightarrow> cx_lookahead cx = 0 \<and> cx_noise_shaping cx = NOISE_SHAPING_OFF"

definition step_at :: "int \<Rightarrow> int" where
  "step_at i = step_table ! nat i"

lemma magnitude_table:
  fixes s d a b c :: int
  assumes "k < 8" and "int k * s \<le> 4 * d" and "4 * d < (int k + 1) * s"
    and "8 * a \<le> s" "s < 8 * a + 8" "4 * b \<le> s" "s < 4 * b + 4" "2 * c \<le> s" "s < 2 * c + 2"
  shows "\<bar>d - (a + (if odd k then b else 0) + (if odd (k div 2) then c else 0) + (if odd (k div 4) then s else 0))\<bar> \<le> a + 3"
proof -
  from assms(1) have "k = 0 \<or> k = 1 \<or> k = 2 \<or> k = 3 \<or> k = 4 \<or> k = 5 \<or> k = 6 \<or> k = 7" by linarith
  then show ?thesis using assms(2-) by (elim disjE) simp_all
qed

lemma magnitude_close:
  fixes s d :: int
  assumes "0 \<le> d" and "d < 2 * s" and "k = nat (4 * d div s)"
  shows "k < 8 \<and> \<bar>d - trial_delta s k\<bar> \<le> s div 8 + 3"
proof -
  have s: "0 < s" using assms by simp
  have ik: "int k = 4 * d div s" using assms s by (simp add: pos_imp_zdiv_nonneg_iff)
  have m: "4 * d div s * s + 4 * d mod s = 4 * d" "0 \<le> 4 * d mod s" "4 * d mod s < s" using s by simp_all
  have lo: "int k * s \<le> 4 * d" using m unfolding ik by linarith
  have hi: "4 * d < (int k + 1) * s" unfolding ik distrib_right using m by linarith
  have "int k * s < 8 * s" using lo assms(2) by linarith
  then have k: "k < 8" using s by simp
  have q: "8 * (s div 8) \<le> s" "s < 8 * (s div 8) + 8" "4 * (s div 4) \<le> s" "s < 4 * (s div 4) + 4" "2 * (s div 2) \<le> s" "s < 2 * (s div 2) + 2"
    by linarith+
  have "\<bar>d - trial_delta s k\<bar> \<le> s div 8 + 3"
    using magnitude_table [OF k lo hi q] k by (simp add: trial_delta_def Let_def)
  with k show ?thesis by simp
qed

lemma trial_delta_negative:
  assumes "k < 8"
  shows "trial_delta s (8 + k) = - trial_delta s k"
proof -
  have "(8 + k) div 2 = 4 + k div 2" "(8 + k) div 4 = 2 + k div 4" "(8 + k) div 8 = 1" "k div 8 = 0" using assms by presburger+
  then show ?thesis unfolding trial_delta_def Let_def by simp
qed

lemma step_table_length: "length step_table = 89"
  by (simp add: step_table_def)

lemma step_at_range: "0 \<le> i \<Longrightarrow> i \<le> 88 \<Longrightarrow> 7 \<le> step_at i"
proof -
  have "list_all ((\<le>) 7) step_table" by (simp add: step_table_def)
  moreover assume "0 \<le> i" "i \<le> 88"
  ultimately show ?thesis by (simp add: step_at_def list_all_length step_table_length)
qed

lemma CLIP_nearer: "sample16 x \<Longrightarrow> \<bar>x - CLIP y (- 32768) 32767\<bar> \<le> \<bar>x - y\<bar>"
  by (auto simp: CLIP_def sample16_def)

lemma plain_step:
  assumes "mono_coder cx" and "plain cx" and e: "encode_sample cx 0 xs m = Some (n, cx1)" and x: "sample16 (hd xs)"
    and d: "d = \<bar>hd xs - fst (seen cx)\<bar>" and i: "i = snd (seen cx)" and near: "d < 2 * step_at i"
  shows "\<bar>hd xs - fst (seen cx1)\<bar> \<le> step_at i div 8 + 3 \<and> snd (seen cx1) = CLIP (i + index_table ! nat (4 * d div step_at i)) 0 88
    \<and> mono_coder cx1 \<and> plain cx1"
proof -
  obtain c c' where cd: "cx_channels cx = [c, c']" using assms(1) by (auto simp: mono_coder_def length_Suc_conv numeral_2_eq_2)
  define k where "k = nat (4 * d div step_at i)"
  have "0 \<le> d" using d by simp
  from magnitude_close [OF this near k_def] have k: "k < 8" "\<bar>d - trial_delta (step_at i) k\<bar> \<le> step_at i div 8 + 3" by auto
  have si: "step_of c = step_at i" "ch_pcmdata c = fst (seen cx)" by (simp_all add: step_of_def step_at_def i seen_def cd)
  have nk: "n = (if hd xs - fst (seen cx) < 0 then 8 + k else k)"
  proof -
    have k7: "\<not> 7 < 4 * d div step_at i" using k(1) unfolding k_def by linarith
    have "first_nibble c (hd xs) = (if hd xs - fst (seen cx) < 0 then 8 + k else k)"
    proof (cases "hd xs - fst (seen cx) < 0")
      case True
      then have "- (hd xs - fst (seen cx)) * 4 = 4 * d" by (simp add: d)
      with True k7 show ?thesis unfolding first_nibble_def si Let_def k_def by presburger
    next
      case False
      then have "(hd xs - fst (seen cx)) * 4 = 4 * d" by (simp add: d)
      with False k7 show ?thesis unfolding first_nibble_def si Let_def k_def by presburger
    qed
    moreover have "n = first_nibble c (hd xs)"
      using e assms(2) by (auto simp: encode_sample_def cd plain_def shaped_def Let_def split: if_splits)
    ultimately show ?thesis by simp
  qed
  note st = encode_sample_step [OF assms(1) e]
  have mod: "n mod 8 = k" using k(1) by (simp add: nk)
  have "\<bar>hd xs - (fst (seen cx) + trial_delta (step_at i) n)\<bar> \<le> step_at i div 8 + 3"
    using k(2) d trial_delta_negative [OF k(1), of "step_at i"] by (auto simp: nk)
  moreover have "fst (seen cx1) = CLIP (fst (seen cx) + trial_delta (step_at i) n) (- 32768) 32767"
    using st by (simp add: decode_nibble_def step_at_def i)
  moreover have "snd (seen cx1) = CLIP (i + index_table ! k) 0 88"
    using st mod by (simp add: decode_nibble_def i)
  ultimately show ?thesis using CLIP_nearer [OF x, of "fst (seen cx) + trial_delta (step_at i) n"] st assms(2)
    by (auto simp: k_def plain_def)
qed

lemma step_pairs: "list_all (\<lambda>(s, t). s \<le> t \<and> 11 + t div 8 < 2 * s) (zip step_table (tl step_table @ [32767]))"
  by (simp add: step_table_def)

lemma step_pairs_late: "list_all (\<lambda>(s, t). 11 + t div 8 < s) (zip (drop 6 step_table) (drop 7 step_table @ [32767]))"
  by (simp add: step_table_def)

lemma table_next: "n \<le> 88 \<Longrightarrow> (tl step_table @ [32767]) ! n = step_table ! min 88 (n + 1)"
proof (cases "n = 88")
  case True
  then show ?thesis by (simp add: step_table_def)
next
  case False
  moreover assume "n \<le> 88"
  ultimately show ?thesis by (simp add: nth_append step_table_length nth_tl)
qed

lemma table_next_late:
  assumes "6 \<le> n" and "n \<le> 88"
  shows "(drop 7 step_table @ [32767]) ! (n - 6) = step_table ! min 88 (n + 1)"
proof -
  obtain m where m: "n = m + 6" using assms(1) by (metis le_add_diff_inverse2)
  have "(drop 7 step_table @ [32767]) ! m = (tl step_table @ [32767]) ! n"
    using assms by (simp add: m nth_append step_table_length nth_tl add.commute)
  with table_next [OF assms(2)] show ?thesis by (simp add: m)
qed

lemma next_step:
  assumes "0 \<le> i" and "i \<le> 88"
  shows "11 + step_at (min 88 (i + 1)) div 8 < 2 * step_at i"
    and "6 \<le> i \<Longrightarrow> 11 + step_at (min 88 (i + 1)) div 8 < step_at i"
proof -
  have n: "nat i \<le> 88" "step_at (min 88 (i + 1)) = step_table ! min 88 (nat i + 1)"
    using assms by (auto simp: step_at_def nat_add_distrib min_def)
  show "11 + step_at (min 88 (i + 1)) div 8 < 2 * step_at i"
    using step_pairs n(1) table_next [OF n(1)] unfolding list_all_length n(2)
    by (force simp: step_table_length step_at_def dest: spec [of _ "nat i"])
  assume i6: "6 \<le> i"
  then have n6: "6 \<le> nat i" by simp
  have "drop 6 step_table ! (nat i - 6) = step_table ! nat i" using n6 n(1) by (simp add: step_table_length)
  then show "11 + step_at (min 88 (i + 1)) div 8 < step_at i"
    using step_pairs_late n(1) n6 table_next_late [OF n6 n(1)] unfolding list_all_length n(2)
    by (force simp: step_table_length step_at_def dest: spec [of _ "nat i - 6"])
qed

text \<open>A signal whose neighbours are at most eight apart moves the index of the encoder up to seven at most.\<close>

definition early_ok :: "nat \<Rightarrow> nat \<Rightarrow> bool" where
  "early_ok i d \<longleftrightarrow> int i + index_table ! nat (4 * int d div step_table ! i) \<le> 7"

lemma early_all: "list_all (\<lambda>i. list_all (early_ok i) [0..<13]) [0..<6]"
  by code_simp

lemma index_table_quiet: "k < 4 \<Longrightarrow> index_table ! k = -1"
  by (auto simp: index_table_def less_Suc_eq numeral_eq_Suc)

lemma quotient_below:
  fixes a s k :: int
  assumes "a < k * s" and "0 < s"
  shows "a div s < k"
proof -
  have "a div s * s \<le> a" using div_mult_mod_eq [of a s] pos_mod_sign [OF assms(2), of a] by linarith
  then have "a div s * s < k * s" using assms(1) by linarith
  with assms(2) show ?thesis by simp
qed

lemma quiet_index:
  assumes "0 \<le> i" and "i \<le> 88" and "0 \<le> d" and "d \<le> 11 + step_at (min 88 (i + 1)) div 8"
  shows "CLIP (i + index_table ! nat (4 * d div step_at i)) 0 88 \<le> max i 7
    \<and> i - 1 \<le> CLIP (i + index_table ! nat (4 * d div step_at i)) 0 88"
proof -
  have st: "7 \<le> step_at i" using step_at_range assms by blast
  have "list_all ((\<le>) (- 1)) index_table" "length index_table = 8" by (simp_all add: index_table_def)
  then have ge: "\<forall>k<8. - 1 \<le> index_table ! k" by (simp add: list_all_length)
  have "4 * d div step_at i < 8" using next_step(1) [OF assms(1,2)] assms st by (intro quotient_below) linarith+
  then have k: "nat (4 * d div step_at i) < 8" by simp
  have up: "i + index_table ! nat (4 * d div step_at i) \<le> max i 7"
  proof (cases "6 \<le> i")
    case True
    then have "d < step_at i" using next_step(2) [OF assms(1,2)] assms(4) by linarith
    then have "4 * d div step_at i < 4" using st by (intro quotient_below) linarith+
    then have "nat (4 * d div step_at i) < 4" by simp
    then show ?thesis by (simp add: index_table_quiet)
  next
    case False
    then have i6: "i = 0 \<or> i = 1 \<or> i = 2 \<or> i = 3 \<or> i = 4 \<or> i = 5" using assms(1) by linarith
    then have "d \<le> 12" using assms(4) by (elim disjE) (simp_all add: step_at_def step_table_def)
    then have "nat i \<in> set [0..<6]" "nat d \<in> set [0..<13]" using assms False by auto
    with early_all have "early_ok (nat i) (nat d)" unfolding list_all_iff by blast
    then show ?thesis using assms by (simp add: early_ok_def step_at_def)
  qed
  with ge k assms show ?thesis by (auto simp: CLIP_def)
qed

fun quiet_steps :: "int list \<Rightarrow> bool" where
  "quiet_steps (x # y # xs) = (\<bar>y - x\<bar> \<le> 8 \<and> quiet_steps (y # xs))"
| "quiet_steps _ = True"

definition quiet_error :: "int \<Rightarrow> int" where
  "quiet_error i = step_at (max i 7) div 8 + 3"

lemma step_mono: "0 \<le> i \<Longrightarrow> i \<le> j \<Longrightarrow> j \<le> 88 \<Longrightarrow> step_at i \<le> step_at j"
proof -
  have "step_table ! n \<le> step_table ! Suc n" if "Suc n < length step_table" for n
    using step_pairs that table_next [of n] unfolding list_all_length
    by (force simp: step_table_length dest: spec [of _ n])
  then have "sorted step_table" by (simp add: sorted_iff_nth_Suc)
  moreover assume "0 \<le> i" "i \<le> j" "j \<le> 88"
  ultimately show ?thesis by (simp add: step_at_def sorted_iff_nth_mono step_table_length)
qed

lemma followed_quiet:
  assumes "mono_coder cx" and "plain cx" and "list_all sample16 xs" and "quiet_steps (x # xs)" and "k \<le> length xs"
    and "\<bar>x - fst (seen cx)\<bar> \<le> step_at (min 88 (snd (seen cx) + 1)) div 8 + 3" and "max (snd (seen cx)) 7 \<le> max i 7" and "0 \<le> i" and "i \<le> 88"
    and "followed k m cx xs = Some (ys, cx2)"
  shows "list_all2 (\<lambda>x y. \<bar>x - y\<bar> \<le> quiet_error i) (take k xs) ys"
  using assms
proof (induction k arbitrary: cx xs x ys)
  case (Suc k)
  from Suc.prems(5) obtain z zs where xs: "xs = z # zs" by (cases xs) auto
  from Suc.prems(10) obtain n cx1 vs where f: "encode_sample cx 0 xs (Suc k + m) = Some (n, cx1)"
      "followed k m cx1 zs = Some (vs, cx2)" "ys = fst (seen cx1) # vs"
    by (auto simp: xs split: Option.bind_splits)
  let ?i = "snd (seen cx)"
  have ir: "0 \<le> ?i" "?i \<le> 88" using Suc.prems(1) by (auto simp: mono_coder_def seen_def wf_channel_def)
  have z: "sample16 (hd xs)" "\<bar>z - x\<bar> \<le> 8" using Suc.prems(3,4) by (auto simp: xs)
  have d: "\<bar>hd xs - fst (seen cx)\<bar> \<le> 11 + step_at (min 88 (?i + 1)) div 8" using z(2) Suc.prems(6) xs by simp
  note st = plain_step [OF Suc.prems(1,2) f(1) z(1) refl refl order.strict_trans1 [OF d next_step(1) [OF ir]]]
  note q = quiet_index [OF ir abs_ge_zero d]
  let ?j = "snd (seen cx1)"
  have s1: "\<bar>z - fst (seen cx1)\<bar> \<le> step_at ?i div 8 + 3" using conjunct1 [OF st] by (simp only: xs list.sel)
  have "?j = CLIP (?i + index_table ! nat (4 * \<bar>hd xs - fst (seen cx)\<bar> div step_at ?i)) 0 88" using st by blast
  then have j: "?j \<le> max ?i 7" "?i - 1 \<le> ?j" "mono_coder cx1" "plain cx1" using q st by argo+
  have jr: "0 \<le> ?j" "?j \<le> 88" using j(3) by (auto simp: mono_coder_def seen_def wf_channel_def)
  have "step_at ?i \<le> step_at (min 88 (?j + 1))" using step_mono [of ?i "min 88 (?j + 1)"] ir jr j(2) by simp
  then have e1: "\<bar>z - fst (seen cx1)\<bar> \<le> step_at (min 88 (?j + 1)) div 8 + 3"
    using s1 zdiv_mono1 [of "step_at ?i" "step_at (min 88 (?j + 1))" 8] by linarith
  have "step_at ?i \<le> step_at (max i 7)" using step_mono [of ?i "max i 7"] ir Suc.prems(7,9) by simp
  then have e2: "\<bar>z - fst (seen cx1)\<bar> \<le> quiet_error i"
    unfolding quiet_error_def using s1 zdiv_mono1 [of "step_at ?i" "step_at (max i 7)" 8] by linarith
  have "list_all2 (\<lambda>x y. \<bar>x - y\<bar> \<le> quiet_error i) (take k zs) vs"
  proof (rule Suc.IH [where cx = cx1 and x = z])
    show "quiet_steps (z # zs)" using Suc.prems(4) by (simp add: xs)
    show "max ?j 7 \<le> max i 7" using j(1) Suc.prems(7) by simp
    show "list_all sample16 zs" "k \<le> length zs" using Suc.prems(3,5) by (simp_all add: xs)
  qed (rule j(3,4) e1 f(2) Suc.prems(8,9))+
  with e2 show ?case by (simp add: xs f(3))
qed simp

lemma closest_index_range: "0 \<le> closest_index d \<and> closest_index d \<le> 88"
proof -
  have "length (takeWhile P [0..<88]) \<le> 88" for P using length_takeWhile_le [of P "[0..<88]"] by simp
  then show ?thesis unfolding closest_index_def by (metis (no_types, lifting) of_nat_0_le_iff of_nat_le_iff of_nat_numeral)
qed

lemma created_mono:
  "adpcm_create_context True 1 lookahead shaping (d # ds) = Some cx \<Longrightarrow> mono_coder cx \<and> seen cx = (0, closest_index d)
     \<and> (lookahead = 0 \<and> shaping = NOISE_SHAPING_OFF \<longrightarrow> plain cx)"
  using closest_index_range [of d]
  by (auto simp: adpcm_create_context_def mono_coder_def seen_def plain_def wf_channel_def channel_zero_def upt_rec numeral_2_eq_2)

lemma take_prefix_length: "n = (length xs - 1) div 8 \<Longrightarrow> xs \<noteq> [] \<Longrightarrow> 8 * n \<le> length (tl xs)"
  by (cases xs) auto

section \<open>Properties\<close>

text \<open>C15: A block of at least one sample is always coded, into four bytes and four more for each eight samples behind the first; decoding
  it gives the first sample and then exactly the values that the encoder followed sample by sample, whatever its look-ahead and noise
  shaping; and the coder stays in its ranges.\<close>

theorem block_decodes_as_followed:
  assumes "mono_coder cx" and "list_all sample16 xs" and "xs \<noteq> []"
  shows "let n = (length xs - 1) div 8 in
    \<exists>bs cx1 ys. adpcm_encode_block cx xs (length xs) = Some (bs, cx1) \<and> length bs = 4 + 4 * n
      \<and> followed (8 * n) 0 (block_started (hd xs) cx) (tl xs) = Some (ys, cx1) \<and> length ys = 8 * n \<and> mono_coder cx1
      \<and> adpcm_decode_block bs 1 = Some (hd xs # ys)"
  using block_holds [OF assms refl refl] by (simp only: Let_def)

definition small_wave :: "int list" where
  "small_wave = [0, 5, 9, 12, 9, 5, 0, - 5, - 9, - 12]"

definition fresh_coder :: adpcm_context where
  "fresh_coder = the (adpcm_create_context True 1 3 NOISE_SHAPING_STATIC [0, 0])"

theorem block_decodes_as_followed_witness:
  "\<exists>bs cx1 ys. adpcm_encode_block fresh_coder small_wave 10 = Some (bs, cx1) \<and> length bs = 8
      \<and> followed 8 0 (block_started 0 fresh_coder) (tl small_wave) = Some (ys, cx1) \<and> length ys = 8 \<and> mono_coder cx1
      \<and> adpcm_decode_block bs 1 = Some (0 # ys)"
proof -
  have c: "adpcm_create_context True 1 3 NOISE_SHAPING_STATIC (0 # [0]) = Some fresh_coder"
    by (simp add: fresh_coder_def adpcm_create_context_def)
  have "mono_coder fresh_coder" using created_mono [OF c] by simp
  moreover have "list_all sample16 small_wave" "small_wave \<noteq> []" "length small_wave = 10" "hd small_wave = 0"
    by (simp_all add: small_wave_def sample16_def)
  ultimately show ?thesis using block_decodes_as_followed [of fresh_coder small_wave] by (simp add: Let_def)
qed

text \<open>C16: With the settings of the speech service (no look-ahead, no noise shaping) a signal whose neighbours are at most eight apart
  comes back, sample by sample, within an eighth of the step of the coder plus three, where a fresh coder and silence mean four.\<close>

theorem quiet_signal_is_kept:
  assumes "mono_coder cx" and "plain cx" and "list_all sample16 xs" and "xs \<noteq> []" and "quiet_steps xs"
  shows "\<exists>bs cx1 ys. adpcm_encode_block cx xs (length xs) = Some (bs, cx1) \<and> adpcm_decode_block bs 1 = Some ys
    \<and> length ys = 1 + 8 * ((length xs - 1) div 8)
    \<and> list_all2 (\<lambda>x y. \<bar>x - y\<bar> \<le> quiet_error (snd (seen cx))) (take (length ys) xs) ys"
proof -
  let ?n = "(length xs - 1) div 8"
  from block_holds [OF assms(1,3,4) refl refl] obtain bs cx1 ys where b: "adpcm_encode_block cx xs (length xs) = Some (bs, cx1)"
      "followed (8 * ?n) 0 (block_started (hd xs) cx) (tl xs) = Some (ys, cx1)" "length ys = 8 * ?n" "adpcm_decode_block bs 1 = Some (hd xs # ys)"
    by blast
  have x: "sample16 (hd xs)" "list_all sample16 (tl xs)" "hd xs # tl xs = xs" using assms(3,4) by (cases xs; simp)+
  note st = block_started_mono [OF assms(1) x(1)]
  have pl: "plain (block_started (hd xs) cx)" using assms(2) by (simp add: plain_def block_started_def set_decode_parameters_def)
  have i: "0 \<le> snd (seen cx)" "snd (seen cx) \<le> 88" using assms(1) by (auto simp: mono_coder_def seen_def wf_channel_def)
  then have s: "0 \<le> step_at (min 88 (snd (seen cx) + 1)) div 8" using step_at_range [of "min 88 (snd (seen cx) + 1)"] by simp
  have "list_all2 (\<lambda>x y. \<bar>x - y\<bar> \<le> quiet_error (snd (seen cx))) (take (8 * ?n) (tl xs)) ys"
    using followed_quiet [of "block_started (hd xs) cx" "tl xs" "hd xs" "8 * ?n" "snd (seen cx)" 0 ys cx1]
      take_prefix_length [OF refl assms(4)] st pl x assms(5) i s b(2) by simp
  moreover have "0 \<le> quiet_error (snd (seen cx))" 
    using step_at_range [of "max (snd (seen cx)) 7"] i pos_imp_zdiv_nonneg_iff [of 8 "step_at (max (snd (seen cx)) 7)"]
    by (simp add: quiet_error_def max_def split: if_splits)
  moreover have "take (length (hd xs # ys)) xs = hd xs # take (8 * ?n) (tl xs)" using assms(4) b(3) by (cases xs) auto
  ultimately show ?thesis using b by (intro exI [of _ bs] exI [of _ cx1] exI [of _ "hd xs # ys"]) simp
qed

definition plain_coder :: adpcm_context where
  "plain_coder = the (adpcm_create_context True 1 0 NOISE_SHAPING_OFF [0, 0])"

lemma plain_coder_mono: "mono_coder plain_coder \<and> seen plain_coder = (0, 0) \<and> plain plain_coder"
proof -
  have "adpcm_create_context True 1 0 NOISE_SHAPING_OFF (0 # [0]) = Some plain_coder" by (simp add: plain_coder_def adpcm_create_context_def)
  moreover have "closest_index 0 = 0" by code_simp
  ultimately show ?thesis using created_mono by simp
qed

theorem quiet_signal_is_kept_witness:
  "\<exists>bs cx1 ys. adpcm_encode_block plain_coder small_wave 10 = Some (bs, cx1) \<and> adpcm_decode_block bs 1 = Some ys
    \<and> length ys = 9 \<and> list_all2 (\<lambda>x y. \<bar>x - y\<bar> \<le> 4) (take 9 small_wave) ys"
proof -
  have s: "list_all sample16 small_wave" "small_wave \<noteq> []" "quiet_steps small_wave" "length small_wave = 10" by (simp_all add: small_wave_def sample16_def)
  have q: "quiet_error 0 = 4" by (simp add: quiet_error_def step_at_def step_table_def)
  from quiet_signal_is_kept [OF _ _ s(1,2,3), of plain_coder] plain_coder_mono
  show ?thesis by (auto simp: s(4) q intro: sym)
qed

end
