(* ===== verification/Asr_Props.thy ===== *)
theory Asr_Props
  imports Asr Adpcm_Props
begin

text \<open>
  What a session of the speech recognition promises: the requests that arrive hold the frames of the sound in order, however the sound was
  cut into writes; and on a good line the answer comes back.
\<close>

section \<open>Samples\<close>

lemma samples_of_range: "list_all sample16 (samples_of bs)"
proof (induction bs rule: samples_of.induct)
  case (1 a b bs)
  let ?v = "signed_take_bit 15 (uint a + 256 * uint b)"
  have "- 32768 \<le> ?v" using signed_take_bit_int_greater_eq_minus_exp [of 15 "uint a + 256 * uint b"] by simp
  moreover have "?v < 32768" using signed_take_bit_int_less_exp [of 15 "uint a + 256 * uint b"] by simp
  ultimately show ?case using 1 by (simp add: sample16_def)
qed simp_all

lemma samples_of_length: "length (samples_of bs) = length bs div 2"
  by (induction bs rule: samples_of.induct) simp_all

section \<open>The frames of a sound\<close>

text \<open>The first \<open>n\<close> frames of a sound, coded one after the other.\<close>

primrec coded :: "nat \<Rightarrow> adpcm_context \<Rightarrow> 8 word list \<Rightarrow> (8 word list list \<times> adpcm_context) option" where
  "coded 0 c pcm = Some ([], c)"
| "coded (Suc n) c pcm = do {
     (bs, c1) \<leftarrow> adpcm_encode_block c (samples_of (take FRAME_BYTES pcm)) ADPCM_ONE_FRAME_SAMPLES;
     (bss, c2) \<leftarrow> coded n c1 (drop FRAME_BYTES pcm);
     Some (bs # bss, c2) }"

lemma coded_Suc: "coded (Suc n) c pcm = Option.bind (coded n c pcm) (\<lambda>(bss, c1).
    Option.bind (adpcm_encode_block c1 (samples_of (take FRAME_BYTES (drop (n * FRAME_BYTES) pcm))) ADPCM_ONE_FRAME_SAMPLES)
      (\<lambda>(bs, c2). Some (bss @ [bs], c2)))"
proof (induction n arbitrary: c pcm)
  case 0
  show ?case by (cases "adpcm_encode_block c (samples_of (take FRAME_BYTES pcm)) ADPCM_ONE_FRAME_SAMPLES") auto
next
  case (Suc n)
  show ?case
  proof (cases "adpcm_encode_block c (samples_of (take FRAME_BYTES pcm)) ADPCM_ONE_FRAME_SAMPLES")
    case None
    then show ?thesis by simp
  next
    case (Some r)
    obtain bs c1 where r: "r = (bs, c1)" by force
    let ?d = "drop FRAME_BYTES pcm"
    have l: "coded (Suc (Suc n)) c pcm = Option.bind (coded (Suc n) c1 ?d) (\<lambda>(bss, c2). Some (bs # bss, c2))"
      by (subst coded.simps) (simp add: Some r del: coded.simps)
    have r1: "coded (Suc n) c pcm = Option.bind (coded n c1 ?d) (\<lambda>(bss, c2). Some (bs # bss, c2))"
      by (subst coded.simps) (simp add: Some r del: coded.simps)
    have d: "drop (n * FRAME_BYTES) ?d = drop (Suc n * FRAME_BYTES) pcm" by (simp add: add.commute)
    show ?thesis
      unfolding l r1 Suc.IH [of c1 ?d] d by (cases "coded n c1 ?d") (auto split: Option.bind_splits)
  qed
qed

lemma coded_append: "n * FRAME_BYTES \<le> length pcm \<Longrightarrow> coded n c (pcm @ w) = coded n c pcm"
proof (induction n arbitrary: c pcm)
  case (Suc n)
  then have "FRAME_BYTES \<le> length pcm" "n * FRAME_BYTES \<le> length (drop FRAME_BYTES pcm)" by simp_all
  with Suc.IH [of "drop FRAME_BYTES pcm"] show ?case by simp
qed simp

text \<open>A frame is always coded, into 4000 bytes that decode to its 7993 samples.\<close>

definition block_ok :: "8 word list \<Rightarrow> bool" where
  "block_ok b \<longleftrightarrow> length b = 4000 \<and> (\<exists>ys. adpcm_decode_block b 1 = Some ys \<and> length ys = ADPCM_ONE_FRAME_SAMPLES)"

lemma frame_coded:
  assumes "mono_coder c" and "length f = FRAME_BYTES"
  shows "\<exists>bs c1. adpcm_encode_block c (samples_of f) ADPCM_ONE_FRAME_SAMPLES = Some (bs, c1) \<and> mono_coder c1 \<and> block_ok bs"
proof -
  have l: "length (samples_of f) = ADPCM_ONE_FRAME_SAMPLES" using assms(2) by (simp add: samples_of_length)
  then have "samples_of f \<noteq> []" by auto
  from block_holds [OF assms(1) samples_of_range this l [symmetric] refl] show ?thesis
    by (auto simp: block_ok_def)
qed

section \<open>What has arrived\<close>

text \<open>The packets that a socket has taken whole.\<close>

definition delivered :: "asr_event list \<Rightarrow> asr_packet list" where
  "delivered es = concat (map (\<lambda>e. case e of AsrSend s p n \<Rightarrow> if n = length (asr_packet_text p) then [p] else [] | _ \<Rightarrow> []) es)"

lemma delivered_simps [simp]:
  "delivered [] = []" "delivered (a @ b) = delivered a @ delivered b"
  "delivered (AsrSend s p n # es) = (if n = length (asr_packet_text p) then p # delivered es else delivered es)"
  "delivered (AsrClose s # es) = delivered es" "delivered (AsrConnect s # es) = delivered es"
  by (simp_all add: delivered_def)

text \<open>What a call leaves alone.\<close>

definition same_session :: "'j asr_handle \<Rightarrow> 'j asr_handle \<Rightarrow> bool" where
  "same_session h h1 \<longleftrightarrow> ah_ctx h1 = ah_ctx h \<and> ah_inpcm h1 = ah_inpcm h \<and> ah_udid h1 = ah_udid h \<and> ah_index h1 = ah_index h
     \<and> ah_cjson h1 = ah_cjson h \<and> ah_result h1 = ah_result h \<and> ah_mode h1 = ah_mode h \<and> ah_adpcm h1 = ah_adpcm h"

lemma write_packet_step:
  assumes "dcl_asr_audio_write_packet s p h = Some (ret, h1)"
  shows "same_session h h1 \<and> (ret = DCL_ERROR_CODE_OK \<longrightarrow> delivered (ah_trace h1) = delivered (ah_trace h) @ [p])
    \<and> (ret \<noteq> DCL_ERROR_CODE_OK \<longrightarrow> delivered (ah_trace h1) = delivered (ah_trace h))"
  using assms by (auto simp: dcl_asr_audio_write_packet_def Let_def asr_emit_def same_session_def split: Option.bind_splits if_splits)

lemma reconnect_step: "same_session h (snd (dcl_asr_reconnect ts h)) \<and> delivered (ah_trace (snd (dcl_asr_reconnect ts h))) = delivered (ah_trace h)"
  by (auto simp: dcl_asr_reconnect_def Let_def asr_emit_def same_session_def)

text \<open>The packet of a call, sent at once or over a new connection.\<close>

definition send_packet :: "asr_env \<Rightarrow> asr_packet \<Rightarrow> 'j asr_handle \<Rightarrow> (DCL_ERROR_CODE_t \<times> 'j asr_handle) option" where
  "send_packet e p h1 = do {
     (ret1, h2) \<leftarrow> dcl_asr_audio_write_packet (ae_first e) p h1;
     if ret1 = DCL_ERROR_CODE_OK then Some (DCL_ERROR_CODE_OK, h2)
     else do {
       let (ret2, h3) = dcl_asr_reconnect (ae_tries e) h2;
       if ret2 \<noteq> DCL_ERROR_CODE_OK then Some (DCL_ERROR_CODE_NETWORK_UNAVAILABLE, h3)
       else dcl_asr_audio_write_packet (ae_second e) p h3 } }"

lemma send_packet_step:
  assumes "send_packet e p h = Some (DCL_ERROR_CODE_OK, h1)"
  shows "same_session h h1 \<and> delivered (ah_trace h1) = delivered (ah_trace h) @ [p]"
proof -
  from assms obtain ret1 h2 where w: "dcl_asr_audio_write_packet (ae_first e) p h = Some (ret1, h2)"
    by (auto simp: send_packet_def split: Option.bind_splits)
  show ?thesis
  proof (cases "ret1 = DCL_ERROR_CODE_OK")
    case True
    with assms w write_packet_step [OF w] show ?thesis by (simp add: send_packet_def)
  next
    case False
    obtain ret2 h3 where r: "dcl_asr_reconnect (ae_tries e) h2 = (ret2, h3)" by force
    from assms w False r have w2: "dcl_asr_audio_write_packet (ae_second e) p h3 = Some (DCL_ERROR_CODE_OK, h1)"
      by (auto simp: send_packet_def split: if_splits)
    from write_packet_step [OF w] False write_packet_step [OF w2] reconnect_step [of h2 "ae_tries e"] r show ?thesis
      by (simp add: same_session_def)
  qed
qed

lemma nonce_hex_nonempty:
  assumes "sha1_spec l" and "crypto_generate_nonce_hex l now mac 64 = Some u"
  shows "u \<noteq> []"
proof -
  from assms(2) obtain s where s: "crypto_sha1prng l now (hex_text True mac) = Some s" "u = snprintf_str 64 (hex_text True s)"
    by (auto simp: crypto_generate_nonce_hex_def split: Option.bind_splits)
  have "length u = 32" using sha1prng_length [OF assms(1) s(1)] by (simp add: s(2) snprintf_str_def hex_length)
  then show ?thesis by auto
qed

lemma make_packet_step:
  assumes "sha1_spec l" and "dcl_asr_make_packet l mac e h = Some (p, h1)" and "0 \<le> ah_index h" and "ah_udid h = [] \<longrightarrow> ah_index h = 0"
  shows "pk_index p = ah_index h + 1 \<and> pk_body p = ah_adpcm h \<and> ah_index h1 = ah_index h + 1 \<and> ah_udid h1 \<noteq> [] \<and> ah_ctx h1 = ah_ctx h
    \<and> ah_inpcm h1 = ah_inpcm h \<and> ah_trace h1 = ah_trace h \<and> ah_mode h1 = ah_mode h"
  using assms nonce_hex_nonempty
  by (auto simp: dcl_asr_make_packet_def Let_def split: Option.bind_splits if_splits)

text \<open>The state of a session after the sound \<open>pcm\<close>, with the coder \<open>c0\<close> at its start.\<close>

definition spoken :: "adpcm_context \<Rightarrow> 8 word list \<Rightarrow> 'j asr_handle \<Rightarrow> bool" where
  "spoken c0 pcm h \<longleftrightarrow> (let n = length pcm div FRAME_BYTES in
     \<exists>bss c. coded n c0 pcm = Some (bss, c) \<and> ah_ctx h = Some c \<and> mono_coder c \<and> ah_inpcm h = drop (n * FRAME_BYTES) pcm
       \<and> list_all block_ok bss \<and> length bss = n \<and> ah_index h = int n \<and> (ah_udid h = [] \<longrightarrow> n = 0)
       \<and> map (\<lambda>p. (pk_index p, pk_body p)) (delivered (ah_trace h)) = zip (map int [1..<Suc n]) bss)"

lemma audio_write_cases:
  assumes "dcl_asr_audio_write l mac e pcm h = Some (DCL_ERROR_CODE_OK, h1)"
  obtains h2 where "dcl_asr_pcm_encode (ae_memory e) pcm h = Some (DCL_ERROR_CODE_OK, h2)" "ah_adpcm h2 = []" "0 \<le> ah_index h2" "h1 = h2"
  | h2 h3 p where "dcl_asr_pcm_encode (ae_memory e) pcm h = Some (DCL_ERROR_CODE_OK, h2)" "\<not> (ah_adpcm h2 = [] \<and> 0 \<le> ah_index h2)"
      "dcl_asr_make_packet l mac e h2 = Some (p, h3)" "send_packet e p h3 = Some (DCL_ERROR_CODE_OK, h1)"
  using assms by (auto simp: dcl_asr_audio_write_def send_packet_def Let_def split: Option.bind_splits if_splits)

text \<open>What is put into the buffer, when there is room for it.\<close>

lemma pcm_encode_step:
  assumes "ah_ctx h = Some c" and "mono_coder c" and "length (ah_inpcm h) < FRAME_BYTES" and "w \<noteq> []" and "length w \<le> FRAME_BYTES"
  shows "if FRAME_BYTES \<le> length (ah_inpcm h @ w)
    then \<exists>bs c1. adpcm_encode_block c (samples_of (take FRAME_BYTES (ah_inpcm h @ w))) ADPCM_ONE_FRAME_SAMPLES = Some (bs, c1) \<and> mono_coder c1
      \<and> block_ok bs \<and> dcl_asr_pcm_encode memory (Some w) h = Some (DCL_ERROR_CODE_OK,
          h\<lparr>ah_ctx := Some c1, ah_adpcm := bs, ah_inpcm := drop FRAME_BYTES (ah_inpcm h @ w)\<rparr>)
    else dcl_asr_pcm_encode memory (Some w) h = Some (DCL_ERROR_CODE_OK, h\<lparr>ah_inpcm := ah_inpcm h @ w, ah_adpcm := []\<rparr>)"
proof -
  have room: "\<not> INPCM_SIZE < length (ah_inpcm h) + length w" using assms(3,5) by simp
  show ?thesis
  proof (cases "FRAME_BYTES \<le> length (ah_inpcm h @ w)")
    case True
    then have "length (take FRAME_BYTES (ah_inpcm h @ w)) = FRAME_BYTES" by (simp only: length_take min_def) simp
    from frame_coded [OF assms(2) this] obtain bs c1 where b:
        "adpcm_encode_block c (samples_of (take FRAME_BYTES (ah_inpcm h @ w))) ADPCM_ONE_FRAME_SAMPLES = Some (bs, c1)" "mono_coder c1" "block_ok bs"
      by blast
    have "length bs = 4000" using b(3) by (simp add: block_ok_def)
    then have cf: "code_frame (samples_of (take FRAME_BYTES (ah_inpcm h @ w))) ADPCM_ONE_FRAME_SAMPLES h = Some (h\<lparr>ah_ctx := Some c1, ah_adpcm := bs\<rparr>)"
      using b(1) by (simp add: code_frame_def assms(1) del: take_append)
    have "dcl_asr_pcm_encode memory (Some w) h = Some (DCL_ERROR_CODE_OK,
          h\<lparr>ah_ctx := Some c1, ah_adpcm := bs, ah_inpcm := drop FRAME_BYTES (ah_inpcm h @ w)\<rparr>)"
      using True room cf assms(1,4,5) by (simp add: dcl_asr_pcm_encode_def asr_coder_def Let_def del: take_append drop_append)
    with b True show ?thesis by auto
  next
    case False
    then show ?thesis using room assms(1,4) by (simp add: dcl_asr_pcm_encode_def asr_coder_def Let_def)
  qed
qed

lemma write_step:
  assumes "sha1_spec l" and sp: "spoken c0 pcm h" and w: "w \<noteq> []" "length w \<le> FRAME_BYTES"
    and e: "dcl_asr_audio_write l mac e (Some w) h = Some (DCL_ERROR_CODE_OK, h1)"
  shows "spoken c0 (pcm @ w) h1"
proof -
  let ?n = "length pcm div FRAME_BYTES" and ?m = "length (pcm @ w) div FRAME_BYTES"
  from sp obtain bss c where c: "coded ?n c0 pcm = Some (bss, c)" "ah_ctx h = Some c" "mono_coder c" "ah_inpcm h = drop (?n * FRAME_BYTES) pcm"
      "list_all block_ok bss" "length bss = ?n" "ah_index h = int ?n" "ah_udid h = [] \<longrightarrow> ?n = 0"
      "map (\<lambda>p. (pk_index p, pk_body p)) (delivered (ah_trace h)) = zip (map int [1..<Suc ?n]) bss"
    by (auto simp: spoken_def Let_def)
  have le: "?n * FRAME_BYTES \<le> length pcm" by simp
  have buf: "ah_inpcm h @ w = drop (?n * FRAME_BYTES) (pcm @ w)" using c(4) le by simp
  have short: "length (ah_inpcm h) < FRAME_BYTES" using c(4) by (simp add: minus_div_mult_eq_mod)
  note enc = pcm_encode_step [OF c(2,3) short w, of "ae_memory e"]
  have app: "coded ?n c0 (pcm @ w) = Some (bss, c)" using coded_append [OF le] c(1) by simp
  show ?thesis
  proof (cases "FRAME_BYTES \<le> length (ah_inpcm h @ w)")
    case False
    then have en: "dcl_asr_pcm_encode (ae_memory e) (Some w) h = Some (DCL_ERROR_CODE_OK, h\<lparr>ah_inpcm := ah_inpcm h @ w, ah_adpcm := []\<rparr>)"
      using enc by argo
    have h1: "h1 = h\<lparr>ah_inpcm := ah_inpcm h @ w, ah_adpcm := []\<rparr>"
      using e en c(7) by (auto simp: dcl_asr_audio_write_def split: if_splits)
    have m: "?m = ?n"
    proof (rule div_nat_eqI)
      show "FRAME_BYTES * ?n \<le> length (pcm @ w)" by (simp add: trans_le_add1)
      show "length (pcm @ w) < FRAME_BYTES * Suc ?n" using False unfolding buf by simp
    qed
    show ?thesis unfolding spoken_def Let_def m using app c buf by (simp add: h1)
  next
    case True
    with enc obtain bs c1 where b: "adpcm_encode_block c (samples_of (take FRAME_BYTES (ah_inpcm h @ w))) ADPCM_ONE_FRAME_SAMPLES = Some (bs, c1)"
        "mono_coder c1" "block_ok bs" "dcl_asr_pcm_encode (ae_memory e) (Some w) h = Some (DCL_ERROR_CODE_OK,
          h\<lparr>ah_ctx := Some c1, ah_adpcm := bs, ah_inpcm := drop FRAME_BYTES (ah_inpcm h @ w)\<rparr>)"
      by auto
    let ?h2 = "h\<lparr>ah_ctx := Some c1, ah_adpcm := bs, ah_inpcm := drop FRAME_BYTES (ah_inpcm h @ w)\<rparr>"
    have m: "?m = Suc ?n"
    proof (rule div_nat_eqI)
      show "FRAME_BYTES * Suc ?n \<le> length (pcm @ w)" using True le unfolding buf by simp
      have "length (ah_inpcm h @ w) < 2 * FRAME_BYTES" using short w by simp
      then show "length (pcm @ w) < FRAME_BYTES * Suc (Suc ?n)" unfolding buf by simp
    qed
    have ne: "bs \<noteq> []" using b(3) by (auto simp: block_ok_def)
    from e obtain h3 p where p: "dcl_asr_make_packet l mac e ?h2 = Some (p, h3)" "send_packet e p h3 = Some (DCL_ERROR_CODE_OK, h1)"
      by (rule audio_write_cases) (use b(4) ne in auto)
    note mk = make_packet_step [OF assms(1) p(1)]
    note sd = send_packet_step [OF p(2)]
    have cod: "coded (Suc ?n) c0 (pcm @ w) = Some (bss @ [bs], c1)"
      using app b(1) unfolding coded_Suc buf by simp
    have inp: "drop FRAME_BYTES (ah_inpcm h @ w) = drop (Suc ?n * FRAME_BYTES) (pcm @ w)"
      unfolding buf by (simp only: drop_drop mult_Suc)
    have mk1: "pk_index p = int ?n + 1 \<and> pk_body p = bs \<and> ah_index h3 = int ?n + 1 \<and> ah_udid h3 \<noteq> [] \<and> ah_ctx h3 = Some c1
        \<and> ah_inpcm h3 = drop FRAME_BYTES (ah_inpcm h @ w) \<and> ah_trace h3 = ah_trace h"
      using mk c(7,8) by simp
    have del: "map (\<lambda>p. (pk_index p, pk_body p)) (delivered (ah_trace h1)) = zip (map int [1..<Suc (Suc ?n)]) (bss @ [bs])"
    proof -
      have "zip (map int [1..<Suc (Suc ?n)]) (bss @ [bs]) = zip (map int [1..<Suc ?n]) bss @ [(int ?n + 1, bs)]"
        using c(6) by (simp add: zip_append)
      then show ?thesis using sd mk1 c(9) by (simp del: upt_Suc)
    qed
    show ?thesis unfolding spoken_def Let_def m
      using cod del sd mk1 b(2,3) c(5,6) inp by (simp add: same_session_def del: coded.simps upt_Suc)
  qed
qed

section \<open>A whole speech\<close>

text \<open>One write after the other; the service ends the session at the first that fails.\<close>

primrec speak :: "crypto_lib \<Rightarrow> bytes \<Rightarrow> (asr_env \<times> 8 word list) list \<Rightarrow> 'j asr_handle \<Rightarrow> 'j asr_handle option" where
  "speak l mac [] h = Some h"
| "speak l mac (ew # ws) h = do {
     (ret, h1) \<leftarrow> dcl_asr_audio_write l mac (fst ew) (Some (snd ew)) h;
     if ret = DCL_ERROR_CODE_OK then speak l mac ws h1 else None }"

definition written :: "(asr_env \<times> 8 word list) list \<Rightarrow> 8 word list" where
  "written ws = concat (map snd ws)"

definition fair_writes :: "(asr_env \<times> 8 word list) list \<Rightarrow> bool" where
  "fair_writes ws \<longleftrightarrow> list_all (\<lambda>(e, w). 2 \<le> length w \<and> length w \<le> FRAME_BYTES) ws"

definition asr_fresh :: "'j asr_handle \<Rightarrow> bool" where
  "asr_fresh h \<longleftrightarrow> ah_ctx h = None \<and> ah_inpcm h = [] \<and> ah_udid h = [] \<and> ah_index h = 0 \<and> delivered (ah_trace h) = []"

text \<open>The coder that the first write makes.\<close>

definition first_coder :: "8 word list \<Rightarrow> adpcm_context option" where
  "first_coder w = adpcm_create_context True 1 0 NOISE_SHAPING_OFF (replicate 2 (initial_delta (samples_of w)))"

lemma first_coder_mono: "\<exists>c0. first_coder w = Some c0 \<and> mono_coder c0"
proof -
  obtain c0 where "first_coder w = Some c0" by (simp add: first_coder_def adpcm_create_context_def)
  moreover from this have "mono_coder c0"
    using created_mono [of 0 NOISE_SHAPING_OFF "initial_delta (samples_of w)" "[initial_delta (samples_of w)]" c0]
    by (simp add: first_coder_def numeral_2_eq_2)
  ultimately show ?thesis by simp
qed

lemma fresh_spoken: "asr_fresh h \<Longrightarrow> mono_coder c0 \<Longrightarrow> spoken c0 [] (h\<lparr>ah_ctx := Some c0\<rparr>)"
  by (simp add: spoken_def asr_fresh_def)

lemma first_write:
  assumes "asr_fresh h" and "2 \<le> length w" and "first_coder w = Some c0"
  shows "dcl_asr_audio_write l mac e (Some w) h =
    (if ah_sock h = INVALID_SOCK then Some (DCL_ERROR_CODE_NETWORK_UNAVAILABLE, h)
     else if ae_memory e then dcl_asr_audio_write l mac e (Some w) (h\<lparr>ah_ctx := Some c0\<rparr>) else None)"
proof -
  have ne: "samples_of w \<noteq> []" using assms(2) samples_of_length [of w] by auto
  have n: "\<not> ae_memory e \<Longrightarrow> adpcm_create_context (ae_memory e) 1 0 NOISE_SHAPING_OFF ds = None" for ds
    by (simp add: adpcm_create_context_def)
  have "asr_coder (ae_memory e) (Some w) h = (if ae_memory e then Some (h\<lparr>ah_ctx := Some c0\<rparr>) else None)"
    using assms ne n by (simp add: asr_coder_def asr_fresh_def first_coder_def)
  moreover have "asr_coder (ae_memory e) (Some w) (h\<lparr>ah_ctx := Some c0\<rparr>) = Some (h\<lparr>ah_ctx := Some c0\<rparr>)"
    by (simp add: asr_coder_def)
  ultimately have "dcl_asr_pcm_encode (ae_memory e) (Some w) h
      = (if ae_memory e then dcl_asr_pcm_encode (ae_memory e) (Some w) (h\<lparr>ah_ctx := Some c0\<rparr>) else None)"
    by (cases "ae_memory e") (simp_all add: dcl_asr_pcm_encode_def)
  then show ?thesis by (simp add: dcl_asr_audio_write_def)
qed

lemma speak_step:
  "sha1_spec l \<Longrightarrow> spoken c0 pcm h \<Longrightarrow> fair_writes ws \<Longrightarrow> speak l mac ws h = Some h1 \<Longrightarrow> spoken c0 (pcm @ written ws) h1"
proof (induction ws arbitrary: pcm h)
  case (Cons ew ws)
  then obtain h2 where h2: "dcl_asr_audio_write l mac (fst ew) (Some (snd ew)) h = Some (DCL_ERROR_CODE_OK, h2)" "speak l mac ws h2 = Some h1"
    by (auto split: Option.bind_splits if_splits)
  have w: "snd ew \<noteq> []" "length (snd ew) \<le> FRAME_BYTES" using Cons.prems(3) by (auto simp: fair_writes_def split: prod.splits)
  from write_step [OF Cons.prems(1,2) w h2(1)] have "spoken c0 (pcm @ snd ew) h2" .
  from Cons.IH [OF Cons.prems(1) this _ h2(2)] Cons.prems(3) show ?case by (simp add: written_def fair_writes_def)
qed (simp add: written_def)

lemma speech_is_spoken:
  assumes "sha1_spec l" and "asr_fresh h" and "fair_writes ws" and "ws \<noteq> []" and "speak l mac ws h = Some h1"
  shows "\<exists>c0. first_coder (snd (hd ws)) = Some c0 \<and> mono_coder c0 \<and> spoken c0 (written ws) h1"
proof -
  obtain ew vs where ws: "ws = ew # vs" using assms(4) by (cases ws) auto
  obtain c0 where c0: "first_coder (snd ew) = Some c0" "mono_coder c0" using first_coder_mono by blast
  have "2 \<le> length (snd ew)" using assms(3) by (simp add: ws fair_writes_def split: prod.splits)
  note fw = first_write [OF assms(2) this c0(1), of l mac "fst ew"]
  have "speak l mac ws h = speak l mac ws (h\<lparr>ah_ctx := Some c0\<rparr>)"
    using fw assms(5) by (auto simp: ws split: if_splits)
  with assms(5) have "speak l mac ws (h\<lparr>ah_ctx := Some c0\<rparr>) = Some h1" by simp
  from speak_step [OF assms(1) fresh_spoken [OF assms(2) c0(2)] assms(3) this] c0 show ?thesis by (simp add: ws)
qed

lemma begin_fresh: "asr_session_begin True res = Some (DCL_ERROR_CODE_OK, Some h) \<Longrightarrow> asr_fresh h"
  by (auto simp: asr_session_begin_def Let_def asr_fresh_def asr_zero_def asr_emit_def split: Option.bind_splits if_splits)

section \<open>The end of a speech\<close>

text \<open>The last packet holds what is left. Only when there was a packet before it does its index say that it is the last.\<close>

lemma last_write:
  assumes "sha1_spec l" and sp: "spoken c0 pcm h" and "2 \<le> length pcm"
    and e: "dcl_asr_audio_write l mac e None (h\<lparr>ah_index := - ah_index h\<rparr>) = Some (DCL_ERROR_CODE_OK, h1)"
  shows "let n = length pcm div FRAME_BYTES; rest = drop (n * FRAME_BYTES) pcm in
    \<exists>bss c body c1 p. coded n c0 pcm = Some (bss, c) \<and> (if rest = [] then body = [] else adpcm_encode_block c (samples_of rest) (length rest div 2) = Some (body, c1))
      \<and> pk_index p = (if n = 0 then 1 else - int n - 1) \<and> pk_body p = body \<and> delivered (ah_trace h1) = delivered (ah_trace h) @ [p]"
proof -
  let ?n = "length pcm div FRAME_BYTES" and ?h = "h\<lparr>ah_index := - ah_index h\<rparr>"
  let ?rest = "drop (?n * FRAME_BYTES) pcm"
  from sp obtain bss c where c: "coded ?n c0 pcm = Some (bss, c)" "ah_ctx h = Some c" "ah_inpcm h = ?rest" "ah_index h = int ?n"
      "ah_udid h = [] \<longrightarrow> ?n = 0" "mono_coder c"
    by (auto simp: spoken_def Let_def)
  obtain h2 where h2: "dcl_asr_pcm_encode (ae_memory e) None ?h = Some (DCL_ERROR_CODE_OK, h2)"
    using e by (auto elim: audio_write_cases)
  then obtain c1 where b: "if ?rest = [] then ah_adpcm h2 = [] else adpcm_encode_block c (samples_of ?rest) (length ?rest div 2) = Some (ah_adpcm h2, c1)"
      "ah_index h2 = - int ?n" "ah_udid h2 = ah_udid h" "ah_trace h2 = ah_trace h"
    by (auto simp: dcl_asr_pcm_encode_def asr_coder_def code_frame_def c(2,3,4) split: if_splits Option.bind_splits)
  have ne: "\<not> (ah_adpcm h2 = [] \<and> 0 \<le> ah_index h2)"
  proof
    assume a: "ah_adpcm h2 = [] \<and> 0 \<le> ah_index h2"
    then have n: "?n = 0" using b(2) by simp
    then have f: "adpcm_encode_block c (samples_of pcm) (length pcm div 2) = Some ([], c1)"
      using a b(1) assms(3) by (auto split: if_splits)
    have s: "samples_of pcm \<noteq> []" using samples_of_length [of pcm] assms(3) by auto
    from block_holds [OF c(6) samples_of_range s samples_of_length [of pcm, symmetric] refl] f show False by auto
  qed
  from e obtain h3 p where p: "dcl_asr_make_packet l mac e h2 = Some (p, h3)" "send_packet e p h3 = Some (DCL_ERROR_CODE_OK, h1)"
    by (rule audio_write_cases) (use h2 ne in auto)
  have mk: "pk_body p = ah_adpcm h2 \<and> pk_index p = (if ?n = 0 then 1 else - int ?n - 1) \<and> ah_trace h3 = ah_trace h2"
    using p(1) b(2,3) c(5) by (auto simp: dcl_asr_make_packet_def Let_def split: Option.bind_splits if_splits)
  from send_packet_step [OF p(2)] mk b(4) have "delivered (ah_trace h1) = delivered (ah_trace h) @ [p]" by simp
  with mk b(1) c(1) show ?thesis unfolding Let_def by (intro exI conjI) auto
qed

section \<open>A good line\<close>

text \<open>Rounds that take all of a request at once.\<close>

definition takes_all :: "sock_round list \<Rightarrow> bool" where
  "takes_all rs \<longleftrightarrow> 64 \<le> length rs
     \<and> list_all (\<lambda>r. sr_select r = 1 \<and> sr_isset r \<and> sr_errno r = 0 \<and> sr_elapsed r = 0 \<and> 512 \<le> sr_sent r) rs"

lemma takes_all_loop:
  "list_all (\<lambda>r. sr_select r = 1 \<and> sr_isset r \<and> sr_errno r = 0 \<and> sr_elapsed r = 0 \<and> 512 \<le> sr_sent r) rs \<Longrightarrow> 0 < lim
     \<Longrightarrow> length data \<le> 512 * length rs \<Longrightarrow> writen_timeout_loop lim rs data = Some data"
proof (induction rs arbitrary: data)
  case (Cons r rs)
  show ?case
  proof (cases "data = []")
    case False
    have t: "taken (sr_sent r) data = take 512 data"
    proof -
      have "512 \<le> nat (sr_sent r)" using Cons.prems(1) by auto
      then have "min (nat (sr_sent r)) (min (length data) 512) = min (length data) 512" by simp
      then show ?thesis by (simp add: taken_def write_len_def min.commute del: min.absorb2 min.absorb1) (metis min.commute take_all_iff take_take length_take min.cobounded2 take_all)
    qed
    have "length (drop (length (take 512 data)) data) \<le> 512 * length rs" using Cons.prems(3) by simp
    from Cons.IH [OF _ Cons.prems(2) this] Cons.prems(1,2) False t
    show ?thesis by (simp add: sock_interrupted_def min_def)
  qed simp
qed simp

lemma takes_all_write:
  assumes "takes_all (as_rounds1 s)" and "0 < ah_timeout h" and "length (asr_packet_text p) \<le> HTTP_REQUEST_SIZE"
  shows "dcl_asr_audio_write_packet s p h = Some (DCL_ERROR_CODE_OK, asr_emit [AsrSend (ah_sock h) p (length (asr_packet_text p))] h)"
proof -
  have "length (asr_packet_text p) \<le> 512 * length (as_rounds1 s)" using assms(1,3) by (simp add: takes_all_def)
  from takes_all_loop [OF _ assms(2) this] assms(1)
  have "writen_timeout_loop (ah_timeout h) (as_rounds1 s) (asr_packet_text p) = Some (asr_packet_text p)" by (simp add: takes_all_def)
  then show ?thesis
    by (simp add: dcl_asr_audio_write_packet_def sock_writen_with_timeout_def nothing_to_write [unfolded sock_writen_with_timeout_def] Let_def)
qed

text \<open>The texts of the handle are in their arrays.\<close>

definition asr_wf :: "'j asr_handle \<Rightarrow> bool" where
  "asr_wf h \<longleftrightarrow> length (ah_params h) < 64 \<and> length (ah_domain h) < 64 \<and> length (ah_port h) < 8 \<and> length (ah_udid h) < 64
     \<and> length (ah_nonce h) < 64 \<and> length (ah_stamp h) < 32 \<and> length (ah_key h) < 64 \<and> length (au_app_id (ah_auth h)) < 64
     \<and> length (au_robot_id (ah_auth h)) < 64 \<and> length (au_device_id (ah_auth h)) < 64 \<and> length (au_user_id (ah_auth h)) < 64
     \<and> ah_lang h < 10000 \<and> 0 < ah_timeout h \<and> ah_sock h \<noteq> INVALID_SOCK"

lemma dec_nat_length: "n < 10 ^ k \<Longrightarrow> 0 < k \<Longrightarrow> length (dec_nat n) \<le> k"
proof (induction k arbitrary: n)
  case (Suc k)
  show ?case
  proof (cases "n < 10")
    case True
    then show ?thesis by (simp add: dec_nat.simps [of n])
  next
    case False
    with Suc.prems(1) have "n div 10 < 10 ^ k" "0 < k" by (auto intro: less_mult_imp_div_less gr0I simp: mult.commute)
    with Suc.IH [of "n div 10"] False show ?thesis by (simp add: dec_nat.simps [of n])
  qed
qed simp

lemma header_short:
  assumes "asr_wf h" and "length (ah_adpcm h) < 10000" and "\<bar>ah_index h\<bar> < 1000000"
  shows "length (asr_header h) < 2000"
proof -
  have n: "length (dec_nat (length (ah_adpcm h))) \<le> 4" using dec_nat_length [of "length (ah_adpcm h)" 4] assms(2) by simp
  have m: "length (dec_nat (ah_lang h)) \<le> 4" using dec_nat_length [of "ah_lang h" 4] assms(1) by (simp add: asr_wf_def)
  have "nat (ah_index h) < 10 ^ 6" "nat (- ah_index h) < 10 ^ 6" using assms(3) by simp_all
  then have "length (dec_nat (nat (ah_index h))) \<le> 6" "length (dec_nat (nat (- ah_index h))) \<le> 6" by (simp_all add: dec_nat_length)
  then have i: "length (dec_signed (ah_index h)) \<le> 7" by (simp add: dec_signed_def)
  show ?thesis using assms(1) n m i by (simp add: asr_header_def Let_def asr_wf_def)
qed

lemma nonce_short: "crypto_generate_nonce l now mac 63 = Some x \<Longrightarrow> length x < 63"
  by (auto simp: crypto_generate_nonce_def split: Option.bind_splits if_splits)

lemma sha1prng_returns: "\<exists>s. crypto_sha1prng l now m = Some s"
  by (simp add: crypto_sha1prng_def crypto_rand_str_def Let_def)

lemma make_packet_returns:
  assumes "asr_wf h" and "length (ah_adpcm h) \<le> 8000" and "\<bar>ah_index h\<bar> < 999999"
  shows "\<exists>p h1. dcl_asr_make_packet l mac e h = Some (p, h1) \<and> length (asr_packet_text p) \<le> HTTP_REQUEST_SIZE \<and> asr_wf h1
    \<and> ah_mode h1 = ah_mode h"
proof -
  obtain s where s: "crypto_sha1prng l (ae_now e) (hex_text True mac) = Some s" using sha1prng_returns by blast
  obtain nonce where nonce: "crypto_generate_nonce l (ae_now e) mac 63 = Some nonce" "length nonce < 63"
    using nonce_short by (fastforce simp: crypto_generate_nonce_def s)
  obtain u where u: "crypto_generate_nonce_hex l (ae_now e) mac 64 = Some u" "length u < 64"
    by (simp add: crypto_generate_nonce_hex_def s snprintf_str_def)
  obtain h1 where h1: "(if ah_udid h = [] then map_option (\<lambda>u. h\<lparr>ah_udid := u, ah_index := 0\<rparr>) (crypto_generate_nonce_hex l (ae_now e) mac 64)
      else Some h) = Some h1" "asr_wf h1" "length (ah_adpcm h1) \<le> 8000" "\<bar>ah_index h1\<bar> < 999999"
      "ah_mode h1 = ah_mode h"
    using assms u by (cases "ah_udid h = []") (auto simp: asr_wf_def)
  let ?stamp = "snprintf_str 32 (ae_stamp e)"
  define h2 where "h2 = h1\<lparr>ah_index := (if 0 \<le> ah_index h1 then ah_index h1 + 1 else ah_index h1 - 1), ah_nonce := nonce, ah_stamp := ?stamp,
      ah_key := crypto_generate_private_key l (ah_key h1) 64 nonce ?stamp (au_robot_id (ah_auth h1))\<rparr>"
  have "length (crypto_generate_private_key l (ah_key h1) 64 nonce ?stamp (au_robot_id (ah_auth h1))) < 64"
    using h1(2) by (simp add: crypto_generate_private_key_def Let_def asr_wf_def)
  then have wf: "asr_wf h2" using h1(2) nonce(2) by (simp add: asr_wf_def snprintf_str_def h2_def)
  have len: "length (asr_header h2) < 2000" by (rule header_short [OF wf]) (use h1(3,4) in \<open>auto simp: h2_def\<close>)
  have "dcl_asr_make_packet l mac e h = Some (\<lparr>pk_index = ah_index h2, pk_header = asr_header h2, pk_body = ah_adpcm h2\<rparr>, h2)"
    unfolding dcl_asr_make_packet_def h1(1) nonce(1) bind_Some_left Let_def h2_def [symmetric]
    using len h1(3) by (simp add: asr_packet_text_def as_text_def h2_def)
  with wf len h1(3,5) show ?thesis by (simp add: asr_packet_text_def as_text_def h2_def)
qed

definition clear_line :: "asr_env \<Rightarrow> bool" where
  "clear_line e \<longleftrightarrow> ae_memory e \<and> takes_all (as_rounds1 (ae_first e))"

lemma asr_wf_updates [simp]:
  "asr_wf (h\<lparr>ah_ctx := a\<rparr>) = asr_wf h" "asr_wf (h\<lparr>ah_inpcm := b\<rparr>) = asr_wf h" "asr_wf (h\<lparr>ah_adpcm := c\<rparr>) = asr_wf h"
  "asr_wf (h\<lparr>ah_index := i\<rparr>) = asr_wf h" "asr_wf (asr_emit es h) = asr_wf h"
  by (simp_all add: asr_wf_def asr_emit_def)

lemma audio_write_clear:
  assumes "asr_wf h" and "clear_line e" and "dcl_asr_pcm_encode True pcm h = Some (DCL_ERROR_CODE_OK, h2)" and "asr_wf h2"
    and "length (ah_adpcm h2) \<le> 8000" and "\<bar>ah_index h2\<bar> < 999999"
  shows "\<exists>h1. dcl_asr_audio_write l mac e pcm h = Some (DCL_ERROR_CODE_OK, h1) \<and> asr_wf h1 \<and> ah_mode h1 = ah_mode h2"
proof (cases "ah_adpcm h2 = [] \<and> 0 \<le> ah_index h2")
  case True
  with assms show ?thesis by (simp add: dcl_asr_audio_write_def asr_wf_def clear_line_def)
next
  case False
  from make_packet_returns [OF assms(4,5,6), of l mac e] obtain p h3 where p: "dcl_asr_make_packet l mac e h2 = Some (p, h3)"
      "length (asr_packet_text p) \<le> HTTP_REQUEST_SIZE" "asr_wf h3" "ah_mode h3 = ah_mode h2"
    by blast
  have "0 < ah_timeout h3" using p(3) by (simp add: asr_wf_def)
  from takes_all_write [OF _ this p(2), of "ae_first e"] assms(2)
  have "dcl_asr_audio_write_packet (ae_first e) p h3 = Some (DCL_ERROR_CODE_OK, asr_emit [AsrSend (ah_sock h3) p (length (asr_packet_text p))] h3)"
    by (simp add: clear_line_def)
  with False assms(1,2,3) p show ?thesis by (auto simp: dcl_asr_audio_write_def clear_line_def asr_wf_def asr_emit_def)
qed

lemma write_clear:
  assumes "spoken c0 pcm h" and "asr_wf h" and "w \<noteq> []" and "length w \<le> FRAME_BYTES" and "clear_line e"
    and "length pcm div FRAME_BYTES < 999999"
  shows "\<exists>h1. dcl_asr_audio_write l mac e (Some w) h = Some (DCL_ERROR_CODE_OK, h1) \<and> asr_wf h1 \<and> ah_mode h1 = ah_mode h"
proof -
  from assms(1) obtain c where c: "ah_ctx h = Some c" "mono_coder c" "length (ah_inpcm h) < FRAME_BYTES" "ah_index h = int (length pcm div FRAME_BYTES)"
    by (auto simp: spoken_def Let_def minus_div_mult_eq_mod)
  obtain h2 where h2: "dcl_asr_pcm_encode True (Some w) h = Some (DCL_ERROR_CODE_OK, h2)" "asr_wf h2" "length (ah_adpcm h2) \<le> 8000"
      "ah_index h2 = ah_index h" "ah_mode h2 = ah_mode h"
  proof (cases "FRAME_BYTES \<le> length (ah_inpcm h @ w)")
    case True
    with pcm_encode_step [OF c(1,2,3) assms(3,4), of True] obtain bs c1 where "block_ok bs" "dcl_asr_pcm_encode True (Some w) h =
        Some (DCL_ERROR_CODE_OK, h\<lparr>ah_ctx := Some c1, ah_adpcm := bs, ah_inpcm := drop FRAME_BYTES (ah_inpcm h @ w)\<rparr>)"
      by auto
    with that assms(2) show ?thesis by (simp add: block_ok_def del: drop_append)
  next
    case False
    then have "dcl_asr_pcm_encode True (Some w) h = Some (DCL_ERROR_CODE_OK, h\<lparr>ah_inpcm := ah_inpcm h @ w, ah_adpcm := []\<rparr>)"
      using pcm_encode_step [OF c(1,2,3) assms(3,4), of True] by argo
    with that assms(2) show ?thesis by simp
  qed
  from audio_write_clear [OF assms(2,5) h2(1,2,3)] h2(4,5) c(4) assms(6) show ?thesis by simp
qed

lemma speak_clear:
  "sha1_spec l \<Longrightarrow> spoken c0 pcm h \<Longrightarrow> asr_wf h \<Longrightarrow> fair_writes ws \<Longrightarrow> list_all (\<lambda>ew. clear_line (fst ew)) ws
     \<Longrightarrow> length (pcm @ written ws) div FRAME_BYTES < 999999
     \<Longrightarrow> \<exists>h1. speak l mac ws h = Some h1 \<and> asr_wf h1 \<and> ah_mode h1 = ah_mode h"
proof (induction ws arbitrary: pcm h)
  case (Cons ew ws)
  have w: "snd ew \<noteq> []" "length (snd ew) \<le> FRAME_BYTES" using Cons.prems(4) by (auto simp: fair_writes_def split: prod.splits)
  have "length pcm div FRAME_BYTES < 999999"
    using Cons.prems(6) div_le_mono [of "length pcm" "length (pcm @ written (ew # ws))" FRAME_BYTES] by simp
  from write_clear [OF Cons.prems(2,3) w _ this] Cons.prems(5) obtain h2 where
    h2: "dcl_asr_audio_write l mac (fst ew) (Some (snd ew)) h = Some (DCL_ERROR_CODE_OK, h2)" "asr_wf h2" "ah_mode h2 = ah_mode h"
    by fastforce
  from Cons.IH [OF Cons.prems(1) write_step [OF Cons.prems(1,2) w h2(1)] h2(2)] Cons.prems(4,5,6) h2 show ?case
    by (simp add: written_def fair_writes_def)
qed simp

lemma last_clear:
  assumes "spoken c0 pcm h" and "asr_wf h" and "clear_line e" and "length pcm div FRAME_BYTES < 999999"
  shows "\<exists>h1. dcl_asr_audio_write l mac e None (h\<lparr>ah_index := - ah_index h\<rparr>) = Some (DCL_ERROR_CODE_OK, h1) \<and> asr_wf h1 \<and> ah_mode h1 = ah_mode h"
proof -
  let ?h = "h\<lparr>ah_index := - ah_index h\<rparr>"
  from assms(1) obtain c where c: "ah_ctx h = Some c" "mono_coder c" "length (ah_inpcm h) < FRAME_BYTES" "ah_index h = int (length pcm div FRAME_BYTES)"
    by (auto simp: spoken_def Let_def minus_div_mult_eq_mod)
  obtain h2 where h2: "dcl_asr_pcm_encode True None ?h = Some (DCL_ERROR_CODE_OK, h2)" "asr_wf h2" "length (ah_adpcm h2) \<le> 8000"
      "ah_index h2 = - ah_index h" "ah_mode h2 = ah_mode h"
  proof (cases "samples_of (ah_inpcm h) = []")
    case True
    then have z: "length (ah_inpcm h) div 2 = 0" using samples_of_length [of "ah_inpcm h"] by simp
    then have "adpcm_encode_block c (samples_of (ah_inpcm h)) (length (ah_inpcm h) div 2) = Some ([], c)" by (simp add: adpcm_encode_block_def Let_def)
    with that c(1) assms(2) show ?thesis by (cases "ah_inpcm h = []") (auto simp: dcl_asr_pcm_encode_def asr_coder_def code_frame_def)
  next
    case False
    then have ne: "ah_inpcm h \<noteq> []" by auto
    from block_holds [OF c(2) samples_of_range False samples_of_length [symmetric] refl] obtain bs c1 where
        b: "adpcm_encode_block c (samples_of (ah_inpcm h)) (length (ah_inpcm h) div 2) = Some (bs, c1)"
           "length bs = 4 + 4 * ((length (ah_inpcm h) div 2 - 1) div 8)"
      by blast
    have "length bs \<le> 8000" using b(2) c(3) by simp
    with that b(1) c(1) ne assms(2) show ?thesis by (simp add: dcl_asr_pcm_encode_def asr_coder_def code_frame_def)
  qed
  have "asr_wf ?h" using assms(2) by simp
  from audio_write_clear [OF this assms(3) h2(1,2,3)] h2(4,5) c(4) assms(4) show ?thesis by simp
qed

section \<open>The answer\<close>

text \<open>The server's text comes at once and then nothing more.\<close>

definition answer_rounds :: "string \<Rightarrow> sock_round list" where
  "answer_rounds got =
     [\<lparr>sr_select = 1, sr_isset = True, sr_errno = 0, sr_elapsed = 0, sr_sent = 0, sr_got = Some got, sr_errno2 = 0\<rparr>,
      \<lparr>sr_select = 0, sr_isset = False, sr_errno = 0, sr_elapsed = 0, sr_sent = 0, sr_got = None, sr_errno2 = 0\<rparr>]"

lemma answer_read:
  "got \<noteq> [] \<Longrightarrow> length got < HTTP_REQUEST_SIZE \<Longrightarrow> sock_readn_with_timeout (answer_rounds got) HTTP_REQUEST_SIZE 100 = Some (length got, got)"
  by (simp add: answer_rounds_def sock_readn_with_timeout_def sock_interrupted_def)

lemma read_one_answer:
  assumes "got = hdr @ json" and "CHR ''{'' \<notin> set hdr" and "json \<noteq> []" and "hd json = CHR ''{''" and "NUL \<notin> set got" and "length got < HTTP_REQUEST_SIZE"
    and "cJSON_Parse j json = Some tree"
    and "0 < n"
  shows "read_answer j n [answer_rounds got] [] r = Some (Some tree, Some json)"
proof -
  obtain m where n: "n = Suc m" using assms(8) by (cases n) auto
  have t: "takeWhile (\<lambda>c. c \<noteq> NUL) got = got" using assms(5) by (auto simp: takeWhile_eq_all_conv)
  have c: "CHR ''{'' \<in> set got" using assms(1,3,4) by (cases json) auto
  have "dropWhile (\<lambda>x. x \<noteq> CHR ''{'') got = json" using assms(1-4) by (cases json) (auto simp: dropWhile_append)
  then have st: "strstr got ''{'' = Some json" using c by (simp add: strstr_char)
  have "got \<noteq> []" using assms(1,3) by simp
  from answer_read [OF this assms(6)] assms(6,7) show ?thesis by (simp add: t st n)
qed

lemma begin_wf:
  "asr_session_begin True res = Some (DCL_ERROR_CODE_OK, Some h) \<Longrightarrow> asr_wf h"
proof -
  have s: "snprintf_str 128 DCL_ASR_API_URL = DCL_ASR_API_URL" by (simp add: snprintf_str_def DCL_ASR_API_URL_def)
  have "sock_get_server_info (Some DCL_ASR_API_URL) (replicate 64 NUL) (replicate 8 NUL) (replicate 64 NUL)
      = Some (0, ''asr.deepbrain.ai'' @ replicate 48 NUL, ''80'' @ replicate 6 NUL, ''/open-api/asr/recognise'' @ replicate 41 NUL)"
    by code_simp
  moreover have "buf_str (''asr.deepbrain.ai'' @ replicate 48 NUL) = Some ''asr.deepbrain.ai''" "buf_str (''80'' @ replicate 6 NUL) = Some ''80''"
     "buf_str (''/open-api/asr/recognise'' @ replicate 41 NUL) = Some ''/open-api/asr/recognise''"
    by (simp_all add: buf_str_def)
  moreover assume "asr_session_begin True res = Some (DCL_ERROR_CODE_OK, Some h)"
  ultimately show ?thesis
    by (auto simp: asr_session_begin_def s Let_def asr_wf_def asr_zero_def no_auth_def asr_emit_def split: if_splits)
qed

text \<open>Nothing fails when every round takes what it is given.\<close>

lemma clear_line_answers:
  assumes "sha1_spec l" and "asr_session_begin True res = Some (DCL_ERROR_CODE_OK, Some h0)"
    and "fair_writes ws" and "ws \<noteq> []" and "list_all (\<lambda>ew. clear_line (fst ew)) ws" and "clear_line e"
    and "length (written ws) div FRAME_BYTES < 999999"
    and "got = hdr @ json" and "CHR ''{'' \<notin> set hdr" and "json \<noteq> []" and "hd json = CHR ''{''" and "NUL \<notin> set got" and "length got < HTTP_REQUEST_SIZE"
    and "cJSON_Parse j json = Some tree" and "cJSON_GetObjectItem j tree ''responseHead'' = Some head"
    and "Option.bind (cJSON_GetObjectItem j head ''statusCode'') (cj_valuestring j) \<noteq> None" and "0 < len"
  shows "\<exists>h h1. speak l mac ws (dcl_asr_set_param (DCL_ASR_PARAMS_INDEX_MODE DCL_ASR_MODE_ASR_NLP) h0) = Some h
    \<and> dcl_asr_get_result l mac j e [answer_rounds got] [] len h = Some (DCL_ERROR_CODE_OK, Some (snprintf_str len json), h1)"
proof -
  let ?h0 = "dcl_asr_set_param (DCL_ASR_PARAMS_INDEX_MODE DCL_ASR_MODE_ASR_NLP) h0"
  have fresh: "asr_fresh ?h0" using begin_fresh [OF assms(2)] by (simp add: asr_fresh_def dcl_asr_set_param_def)
  have wf0: "asr_wf ?h0" "ah_mode ?h0 = DCL_ASR_MODE_ASR_NLP" using begin_wf [OF assms(2)] by (simp_all add: asr_wf_def dcl_asr_set_param_def)
  obtain ew vs where ws: "ws = ew # vs" using assms(4) by (cases ws) auto
  obtain c0 where c0: "first_coder (snd ew) = Some c0" "mono_coder c0" using first_coder_mono by blast
  let ?hc = "?h0\<lparr>ah_ctx := Some c0\<rparr>"
  have two: "2 \<le> length (snd ew)" using assms(3) by (simp add: ws fair_writes_def split: prod.splits)
  have "speak l mac ws ?h0 = speak l mac ws ?hc"
    using first_write [OF fresh two c0(1), of l mac "fst ew"] assms(5) wf0 by (simp add: ws clear_line_def asr_wf_def)
  moreover obtain h where h: "speak l mac ws ?hc = Some h" "asr_wf h" "ah_mode h = DCL_ASR_MODE_ASR_NLP"
    using speak_clear [OF assms(1) fresh_spoken [OF fresh c0(2)] _ assms(3,5)] wf0 assms(7) by (auto simp: asr_wf_def)
  moreover have sp: "spoken c0 (written ws) h" using speak_step [OF assms(1) fresh_spoken [OF fresh c0(2)] assms(3) h(1)] by simp
  from last_clear [OF sp h(2) assms(6,7), of l mac] obtain h2 where
    h2: "dcl_asr_audio_write l mac e None (h\<lparr>ah_index := - ah_index h\<rparr>) = Some (DCL_ERROR_CODE_OK, h2)" "ah_mode h2 = DCL_ASR_MODE_ASR_NLP"
    using h(3) by auto
  have "read_answer j 50 [answer_rounds got] [] (ah_cjson h2, ah_result h2) = Some (Some tree, Some json)"
    by (rule read_one_answer [OF assms(8-14)]) simp
  then have "\<exists>h1. dcl_asr_get_result l mac j e [answer_rounds got] [] len h = Some (DCL_ERROR_CODE_OK, Some (snprintf_str len json), h1)"
    using assms(15,16,17) h2 by (auto simp: dcl_asr_get_result_def dcl_asr_decode_packet_def Let_def)
  ultimately show ?thesis by auto
qed

section \<open>A small speech\<close>

text \<open>Two writes, half a frame and a frame.\<close>

definition clear_env :: asr_env where
  "clear_env = (let s = \<lparr>as_rounds1 = replicate 64 \<lparr>sr_select = 1, sr_isset = True, sr_errno = 0, sr_elapsed = 0, sr_sent = 512, sr_got = None, sr_errno2 = 0\<rparr>,
      as_errno = 0, as_rounds2 = []\<rparr>
    in \<lparr>ae_memory = True, ae_now = 0, ae_stamp = ''1525000000'', ae_first = s, ae_tries = None, ae_second = s\<rparr>)"

definition two_writes :: "(asr_env \<times> 8 word list) list" where
  "two_writes = [(clear_env, replicate 8000 0), (clear_env, replicate 15986 1)]"

definition one_address :: "conn_try list" where
  "one_address = [\<lparr>ct_socket = 54, ct_connect = 0, ct_in_progress = False, ct_select = 0, ct_writable = False\<rparr>]"

definition open_session :: "'j asr_handle" where
  "open_session = the (snd (the (asr_session_begin True (Some one_address))))"

definition ok_text :: string where
  "ok_text = ''{responseHead: {statusCode: OK}}''"

definition ok_lib :: "nat cjson" where
  "ok_lib = \<lparr>cJSON_Parse = (\<lambda>t. if t = ok_text then Some 0 else None),
     cJSON_GetObjectItem = (\<lambda>d k. if d = 0 \<and> k = ''responseHead'' then Some 1 else if d = 1 \<and> k = ''statusCode'' then Some 2 else None),
     cj_valuestring = (\<lambda>d. if d = 2 then Some ''OK'' else None), cj_valueint = (\<lambda>d. 0)\<rparr>"

lemma open_session: "asr_session_begin True (Some one_address) = Some (DCL_ERROR_CODE_OK, Some (open_session :: 'j asr_handle))"
proof -
  have s: "snprintf_str 128 DCL_ASR_API_URL = DCL_ASR_API_URL" by (simp add: snprintf_str_def DCL_ASR_API_URL_def)
  have p: "sock_get_server_info (Some DCL_ASR_API_URL) (replicate 64 NUL) (replicate 8 NUL) (replicate 64 NUL)
      = Some (0, ''asr.deepbrain.ai'' @ replicate 48 NUL, ''80'' @ replicate 6 NUL, ''/open-api/asr/recognise'' @ replicate 41 NUL)"
    by code_simp
  have "sock_connect (Some one_address) = (54, [])" by (simp add: sock_connect_def one_address_def try_connects_def)
  then show ?thesis by (simp add: open_session_def asr_session_begin_def s p buf_str_def Let_def)
qed

lemma clear_env_clear: "clear_line clear_env"
  by (simp add: clear_line_def clear_env_def takes_all_def list_all_iff Let_def)

lemma two_writes: "fair_writes two_writes" "two_writes \<noteq> []" "list_all (\<lambda>ew. clear_line (fst ew)) two_writes" "clear_line clear_env"
  "length (written two_writes) = 23986"
  by (simp_all add: two_writes_def fair_writes_def clear_env_clear written_def)

lemma http_no_brace: "CHR ''{'' \<notin> set ''HTTP ''"
  by simp

lemma small_speech_answered:
  "\<exists>h h1. speak const_lib [1, 2, 3, 4, 5, 6] two_writes (dcl_asr_set_param (DCL_ASR_PARAMS_INDEX_MODE DCL_ASR_MODE_ASR_NLP) (open_session :: nat asr_handle)) = Some h
    \<and> dcl_asr_get_result const_lib [1, 2, 3, 4, 5, 6] ok_lib clear_env [answer_rounds (''HTTP '' @ ok_text)] [] 100 h
      = Some (DCL_ERROR_CODE_OK, Some (snprintf_str 100 ok_text), h1)"
  by (rule clear_line_answers [where hdr = "''HTTP ''", OF _ open_session two_writes(1-4)])
    (simp_all add: two_writes(5) sha1_spec_def const_lib_def ok_text_def ok_lib_def http_no_brace)

section \<open>Properties\<close>

text \<open>C11: However the sound of a speech was cut into writes of at most a frame, and however often the connection broke: when the session has an answer,
  the packets that the server got whole are the frames of the sound in order, numbered from 1, each as a block of 4000 bytes that decodes to its
  7993 samples, and then one packet with what was left. Its index is negative, which marks the end of the speech, only if there was
  a packet before it: a speech of less than a frame ends with the packet 1.\<close>

theorem answered_speech_has_arrived:
  assumes "sha1_spec l" and "asr_session_begin True res = Some (DCL_ERROR_CODE_OK, Some h0)"
    and "fair_writes ws" and "ws \<noteq> []" and "speak l mac ws (dcl_asr_set_param (DCL_ASR_PARAMS_INDEX_MODE m) h0) = Some h"
    and "dcl_asr_get_result l mac j e rs extra len h = Some (DCL_ERROR_CODE_OK, text, h1)"
  shows "let pcm = written ws; n = length pcm div FRAME_BYTES; rest = drop (n * FRAME_BYTES) pcm in
    \<exists>c0 bss c (p :: asr_packet). first_coder (snd (hd ws)) = Some c0 \<and> coded n c0 pcm = Some (bss, c) \<and> length bss = n \<and> list_all block_ok bss
      \<and> (if rest = [] then pk_body p = [] else \<exists>c1. adpcm_encode_block c (samples_of rest) (length rest div 2) = Some (pk_body p, c1))
      \<and> pk_index p = (if n = 0 then 1 else - int n - 1)
      \<and> map (\<lambda>p. (pk_index p, pk_body p)) (delivered (ah_trace h1)) = zip (map int [1..<Suc n]) bss @ [(pk_index p, pk_body p)]"
proof -
  have fresh: "asr_fresh (dcl_asr_set_param (DCL_ASR_PARAMS_INDEX_MODE m) h0)"
    using begin_fresh [OF assms(2)] by (simp add: asr_fresh_def dcl_asr_set_param_def)
  from speech_is_spoken [OF assms(1) fresh assms(3,4,5)] obtain c0 where c0: "first_coder (snd (hd ws)) = Some c0" "spoken c0 (written ws) h"
    by blast
  have two: "2 \<le> length (written ws)" using assms(3,4) by (cases ws) (auto simp: written_def fair_writes_def split: prod.splits)
  from assms(6) obtain h2 where h2: "dcl_asr_audio_write l mac e None (h\<lparr>ah_index := - ah_index h\<rparr>) = Some (DCL_ERROR_CODE_OK, h2)"
      "ah_trace h1 = ah_trace h2"
    by (auto simp: dcl_asr_get_result_def Let_def split: if_splits Option.bind_splits)
  let ?n = "length (written ws) div FRAME_BYTES"
  let ?rest = "drop (?n * FRAME_BYTES) (written ws)"
  from c0(2) obtain bss c where b: "coded ?n c0 (written ws) = Some (bss, c)" "length bss = ?n" "list_all block_ok bss"
      "map (\<lambda>p. (pk_index p, pk_body p)) (delivered (ah_trace h)) = zip (map int [1..<Suc ?n]) bss"
    unfolding spoken_def Let_def by blast
  from last_write [OF assms(1) c0(2) two h2(1)] obtain c1 p where
      p: "if ?rest = [] then pk_body p = [] else adpcm_encode_block c (samples_of ?rest) (length ?rest div 2) = Some (pk_body p, c1)"
        "pk_index p = (if ?n = 0 then 1 else - int ?n - 1)" "delivered (ah_trace h2) = delivered (ah_trace h) @ [p]"
    unfolding Let_def b(1) by blast
  have arrived: "map (\<lambda>p. (pk_index p, pk_body p)) (delivered (ah_trace h1)) = zip (map int [1..<Suc ?n]) bss @ [(pk_index p, pk_body p)]"
    unfolding h2(2) p(3) map_append b(4) by simp
  have body: "if ?rest = [] then pk_body p = [] else \<exists>c1. adpcm_encode_block c (samples_of ?rest) (length ?rest div 2) = Some (pk_body p, c1)"
    using p(1) by metis
  show ?thesis unfolding Let_def
  proof (rule exI [of _ c0], rule exI [of _ bss], rule exI [of _ c], rule exI [of _ p], intro conjI)
  qed (rule c0(1) b(1,2,3) body p(2) arrived)+
qed

theorem answered_speech_has_arrived_witness:
  "\<exists>h h1 b rest. speak const_lib [1, 2, 3, 4, 5, 6] two_writes
      (dcl_asr_set_param (DCL_ASR_PARAMS_INDEX_MODE DCL_ASR_MODE_ASR_NLP) (open_session :: nat asr_handle)) = Some h
    \<and> dcl_asr_get_result const_lib [1, 2, 3, 4, 5, 6] ok_lib clear_env [answer_rounds (''HTTP '' @ ok_text)] [] 100 h
      = Some (DCL_ERROR_CODE_OK, Some (snprintf_str 100 ok_text), h1)
    \<and> length b = 4000 \<and> map (\<lambda>p. (pk_index p, pk_body p)) (delivered (ah_trace h1)) = [(1, b), (-2, rest)]"
proof -
  let ?m = "[1, 2, 3, 4, 5, 6] :: bytes"
  from small_speech_answered obtain h h1 where h:
      "speak const_lib ?m two_writes (dcl_asr_set_param (DCL_ASR_PARAMS_INDEX_MODE DCL_ASR_MODE_ASR_NLP) (open_session :: nat asr_handle)) = Some h"
      "dcl_asr_get_result const_lib ?m ok_lib clear_env [answer_rounds (''HTTP '' @ ok_text)] [] 100 h
        = Some (DCL_ERROR_CODE_OK, Some (snprintf_str 100 ok_text), h1)"
    by blast
  have "sha1_spec const_lib" by (simp add: sha1_spec_def const_lib_def)
  from answered_speech_has_arrived [OF this open_session two_writes(1,2) h] obtain bss :: "8 word list list" and p :: asr_packet where
      b: "length bss = length (written two_writes) div FRAME_BYTES" "list_all block_ok bss"
        "pk_index p = (if length (written two_writes) div FRAME_BYTES = 0 then 1 else - int (length (written two_writes) div FRAME_BYTES) - 1)"
        "map (\<lambda>p. (pk_index p, pk_body p)) (delivered (ah_trace h1))
           = zip (map int [1..<Suc (length (written two_writes) div FRAME_BYTES)]) bss @ [(pk_index p, pk_body p)]"
    unfolding Let_def by (elim exE conjE) (rule that)
  have one: "length (written two_writes) div FRAME_BYTES = 1" by (simp add: two_writes(5))
  from b(1) obtain b where "bss = [b]" by (auto simp: one length_Suc_conv)
  with b h show ?thesis unfolding one
    by (intro exI [of _ h] exI [of _ h1] exI [of _ b] exI [of _ "pk_body p"]) (simp add: block_ok_def)
qed

text \<open>C12: On a good line a speech of any length below sixteen gigabytes is answered: no write fails, and the text of the server's answer is given
  back, as much of it as the caller has room for.\<close>

theorem speech_is_answered:
  assumes "sha1_spec l" and "asr_session_begin True res = Some (DCL_ERROR_CODE_OK, Some h0)"
    and "fair_writes ws" and "ws \<noteq> []" and "list_all (\<lambda>ew. clear_line (fst ew)) ws" and "clear_line e"
    and "length (written ws) div FRAME_BYTES < 999999"
    and "got = hdr @ json" and "CHR ''{'' \<notin> set hdr" and "json \<noteq> []" and "hd json = CHR ''{''" and "NUL \<notin> set got" and "length got < HTTP_REQUEST_SIZE"
    and "cJSON_Parse j json = Some tree" and "cJSON_GetObjectItem j tree ''responseHead'' = Some head"
    and "Option.bind (cJSON_GetObjectItem j head ''statusCode'') (cj_valuestring j) \<noteq> None" and "0 < len"
  shows "\<exists>h h1. speak l mac ws (dcl_asr_set_param (DCL_ASR_PARAMS_INDEX_MODE DCL_ASR_MODE_ASR_NLP) h0) = Some h
    \<and> dcl_asr_get_result l mac j e [answer_rounds got] [] len h = Some (DCL_ERROR_CODE_OK, Some (snprintf_str len json), h1)"
  by (rule clear_line_answers [OF assms])

theorem speech_is_answered_witness:
  "\<exists>h h1. speak const_lib [1, 2, 3, 4, 5, 6] two_writes (dcl_asr_set_param (DCL_ASR_PARAMS_INDEX_MODE DCL_ASR_MODE_ASR_NLP) (open_session :: nat asr_handle)) = Some h
    \<and> dcl_asr_get_result const_lib [1, 2, 3, 4, 5, 6] ok_lib clear_env [answer_rounds (''HTTP '' @ ok_text)] [] 100 h
      = Some (DCL_ERROR_CODE_OK, Some (snprintf_str 100 ok_text), h1)"
  by (rule speech_is_answered [where hdr = "''HTTP ''", OF _ open_session two_writes(1-4)])
    (simp_all add: two_writes(5) sha1_spec_def const_lib_def ok_text_def ok_lib_def http_no_brace)

end
