(* ===== verification/Dcl_Props.thy ===== *)
theory Dcl_Props
  imports Dcl Asr_Props
begin

text \<open>
  The clients that ask one question always come back, and leave nothing behind: the memory, the socket and the tree of the answer are
  released once, in this order, on every path.
\<close>

section \<open>Resources\<close>

text \<open>The memory of the handle, the open socket, the tree; a use of what is not there is \<open>None\<close>.\<close>

fun dcl_use :: "dcl_event \<Rightarrow> bool \<times> int option \<times> bool \<Rightarrow> (bool \<times> int option \<times> bool) option" where
  "dcl_use DclMalloc (m, s, t) = (if m then None else Some (True, s, t))"
| "dcl_use (DclConnect x) (m, s, t) = (if m \<and> s = None then Some (m, Some x, t) else None)"
| "dcl_use (DclSend w) (m, s, t) = (if m \<and> s \<noteq> None then Some (m, s, t) else None)"
| "dcl_use DclParse (m, s, t) = (if m \<and> \<not> t then Some (m, s, True) else None)"
| "dcl_use (DclClose x) (m, s, t) = (if m \<and> s = Some x then Some (m, None, t) else None)"
| "dcl_use DclDelete (m, s, t) = (if m \<and> t then Some (m, s, False) else None)"
| "dcl_use DclFree (m, s, t) = (if m \<and> s = None \<and> \<not> t then Some (False, s, t) else None)"

definition clean :: "dcl_event list \<Rightarrow> bool" where
  "clean es \<longleftrightarrow> run_opt dcl_use es (False, None, False) = Some (False, None, False)"

text \<open>The sockets end within their limits, the address of the device has a zero byte.\<close>

definition dcl_returns :: "dcl_env \<Rightarrow> bool" where
  "dcl_returns e \<longleftrightarrow> 0 \<in> set (dv_mac e) \<and> (\<forall>data. length data \<le> 4095 \<longrightarrow> sock_writen_with_timeout (dv_write e) data 1000 \<noteq> None)
     \<and> sock_readn_with_timeout (dv_read e) (30 * 1024 - 1) 2000 \<noteq> None \<and> sock_readn_with_timeout (dv_read e) (30 * 1024 - 1) 5000 \<noteq> None"

definition known_url :: "string \<Rightarrow> bool" where
  "known_url url \<longleftrightarrow> (\<exists>d p q. sock_get_server_info (Some url) (replicate 128 NUL) (replicate 8 NUL) (replicate 1024 NUL) = Some (0, d, p, q)
     \<and> buf_str d \<noteq> None \<and> buf_str p \<noteq> None \<and> buf_str q \<noteq> None)"

definition known_begin :: "(dcl_env \<Rightarrow> (DCL_ERROR_CODE_t \<times> dcl_http option \<times> dcl_event list) option) \<Rightarrow> bool" where
  "known_begin b \<longleftrightarrow> (\<exists>keep url. b = session_begin keep url \<and> known_url url)"

lemma begin_shapes:
  assumes "known_begin b"
  shows "b e = Some (DCL_ERROR_CODE_SYS_NOT_ENOUGH_MEM, None, []) \<or> (\<exists>h s. s \<noteq> INVALID_SOCK \<and> hb_sock h = s \<and> b e = Some (DCL_ERROR_CODE_OK, Some h, [DclMalloc, DclConnect s]))
    \<or> (\<exists>h. hb_sock h = INVALID_SOCK \<and> b e = Some (DCL_ERROR_CODE_NETWORK_UNAVAILABLE, Some h, [DclMalloc]))
    \<or> b e = Some (DCL_ERROR_CODE_NETWORK_UNAVAILABLE, None, [DclMalloc, DclFree])"
proof -
  obtain keep url where b: "b = session_begin keep url" "known_url url" using assms by (auto simp: known_begin_def)
  from b(2) obtain d p q ds ps qs where "sock_get_server_info (Some url) (replicate 128 NUL) (replicate 8 NUL) (replicate 1024 NUL) = Some (0, d, p, q)"
      "buf_str d = Some ds" "buf_str p = Some ps" "buf_str q = Some qs"
    by (auto simp: known_url_def)
  then show ?thesis by (cases keep) (auto simp: b(1) session_begin_def Let_def)
qed

lemma ask_server_clean:
  assumes "known_begin b" and "\<And>h. \<exists>h1. mk h = Some h1 \<and> hb_sock h1 = hb_sock h \<and> length (hb_request h1) \<le> 4095"
    and "dcl_returns e" and "limit = 2000 \<or> limit = 5000"
  shows "\<exists>ret out es. ask_server b mk limit decode e = Some (ret, out, es) \<and> clean es"
proof -
  from assms(3,4) obtain n got where r: "sock_readn_with_timeout (dv_read e) (30 * 1024 - 1) limit = Some (n, got)"
    by (auto simp: dcl_returns_def)
  consider "b e = Some (DCL_ERROR_CODE_SYS_NOT_ENOUGH_MEM, None, [])"
    | h s where "s \<noteq> INVALID_SOCK" "hb_sock h = s" "b e = Some (DCL_ERROR_CODE_OK, Some h, [DclMalloc, DclConnect s])"
    | h where "hb_sock h = INVALID_SOCK" "b e = Some (DCL_ERROR_CODE_NETWORK_UNAVAILABLE, Some h, [DclMalloc])"
    | "b e = Some (DCL_ERROR_CODE_NETWORK_UNAVAILABLE, None, [DclMalloc, DclFree])"
    using begin_shapes [OF assms(1), of e] by blast
  then show ?thesis
  proof cases
    case 2
    obtain h1 where h1: "mk h = Some h1" "hb_sock h1 = s" "length (hb_request h1) \<le> 4095" using assms(2) 2(2) by metis
    then obtain k w where w: "sock_writen_with_timeout (dv_write e) (hb_request h1) 1000 = Some (k, w)"
      using assms(3) by (fastforce simp: dcl_returns_def)
    obtain ret1 tree out where d: "decode (takeWhile (\<lambda>c. c \<noteq> NUL) got) = (ret1, tree, out)" by (cases "decode (takeWhile (\<lambda>c. c \<noteq> NUL) got)") auto
    show ?thesis using 2 h1 w r d by (cases tree) (auto simp: ask_server_def session_end_def clean_def)
  qed (auto simp: ask_server_def session_end_def clean_def)
qed

lemma with_request_keeps: "hb_sock (with_request t h) = hb_sock h \<and> length (hb_request (with_request t h)) \<le> 4095"
  by (simp add: with_request_def Let_def snprintf_str_def)

lemma fresh_keys_returns: "\<exists>h1. fresh_keys l e a h = Some h1 \<and> hb_sock h1 = hb_sock h"
  using sha1prng_returns [of l "dv_now e" "hex_text True (dv_mac e)"] by (auto simp: fresh_keys_def crypto_generate_nonce_def Let_def)

lemma service_packet_returns:
  assumes "dcl_returns e"
  shows "\<exists>h1. service_packet body l e a h = Some h1 \<and> hb_sock h1 = hb_sock h \<and> length (hb_request h1) \<le> 4095"
proof -
  have "crypto_generate_request_id l (dv_now e) (dv_mac e) 64 \<noteq> None"
    using assms request_id_needs_a_zero_byte [of l "dv_now e" "dv_mac e" 64] by (simp add: dcl_returns_def)
  then obtain x where x: "crypto_generate_request_id l (dv_now e) (dv_mac e) 64 = Some x" by blast
  obtain h1 where "fresh_keys l e a (h\<lparr>hb_nonce := x, hb_body := snprintf_str 2048 (body x)\<rparr>) = Some h1" "hb_sock h1 = hb_sock h"
    using fresh_keys_returns [of l e a "h\<lparr>hb_nonce := x, hb_body := snprintf_str 2048 (body x)\<rparr>"] by auto
  with x show ?thesis using with_request_keeps [of "service_header a h1" h1] by (simp add: service_packet_def)
qed

lemma nlp_packet_returns: "\<exists>h1. dcl_nlp_make_packet l e a t h = Some h1 \<and> hb_sock h1 = hb_sock h \<and> length (hb_request h1) \<le> 4095"
  using fresh_keys_returns [of l e a h] with_request_keeps by (auto simp: dcl_nlp_make_packet_def Let_def)

lemma known_urls: "known_url DCL_SERVER_API_URL" "known_url DCL_NLP_API_URL" "known_url DCL_TRANSLATE_URL"
proof -
  have "sock_get_server_info (Some DCL_SERVER_API_URL) (replicate 128 NUL) (replicate 8 NUL) (replicate 1024 NUL)
    = Some (0, ''api.deepbrain.ai'' @ replicate 112 NUL, ''8383'' @ replicate 4 NUL, ''/open-api/service'' @ replicate 1007 NUL)"
    by code_simp
  then show "known_url DCL_SERVER_API_URL" by (simp add: known_url_def buf_str_def)
  then show "known_url DCL_TRANSLATE_URL" by (simp add: DCL_SERVER_API_URL_def DCL_TRANSLATE_URL_def)
  have "sock_get_server_info (Some DCL_NLP_API_URL) (replicate 128 NUL) (replicate 8 NUL) (replicate 1024 NUL)
    = Some (0, ''api.deepbrain.ai'' @ replicate 112 NUL, ''8383'' @ replicate 4 NUL, ''/deep-brain-api/ask'' @ replicate 1005 NUL)"
    by code_simp
  then show "known_url DCL_NLP_API_URL" by (simp add: known_url_def buf_str_def)
qed

lemma known_begins: "known_begin dcl_tts_session_begin" "known_begin dcl_nlp_session_begin" "known_begin dcl_translate_session_begin"
  "known_begin dlc_dev_license_session_begin"
  using known_urls by (auto simp: known_begin_def dcl_tts_session_begin_def dcl_nlp_session_begin_def dcl_translate_session_begin_def
      dlc_dev_license_session_begin_def)

lemma tts_packet_returns:
  assumes "dcl_returns e"
  shows "\<exists>h1. dcl_tts_make_packet l e a t h = Some h1 \<and> hb_sock h1 = hb_sock h \<and> length (hb_request h1) \<le> 4095"
  unfolding dcl_tts_make_packet_def by (rule service_packet_returns [OF assms])

lemma translate_packet_returns:
  assumes "dcl_returns e"
  shows "\<exists>h1. dcl_translate_make_packet l e m a t h = Some h1 \<and> hb_sock h1 = hb_sock h \<and> length (hb_request h1) \<le> 4095"
  unfolding dcl_translate_make_packet_def by (cases "dcl_translate_make_translate_mode m") (simp only: prod.case service_packet_returns [OF assms])

lemma license_packet_returns:
  assumes "dcl_returns e"
  shows "\<exists>h1. dlc_dev_license_make_packet l e a p c w h = Some h1 \<and> hb_sock h1 = hb_sock h \<and> length (hb_request h1) \<le> 4095"
  unfolding dlc_dev_license_make_packet_def by (rule service_packet_returns [OF assms])

lemma clean_nil: "clean []"
  by (simp add: clean_def)

lemma asked:
  assumes "\<And>h. \<exists>h1. mk h = Some h1 \<and> hb_sock h1 = hb_sock h \<and> length (hb_request h1) \<le> 4095" and "known_begin b" and "dcl_returns e"
  shows "\<exists>ret out es. ask_server b mk 2000 decode e = Some (ret, out, es) \<and> clean es"
    and "\<exists>ret out es. ask_server b mk 5000 decode e = Some (ret, out, es) \<and> clean es"
  using ask_server_clean [OF assms(2,1,3)] by blast+

text \<open>An answer of the server that ends before its body counts as a success, and the output of the caller stays as it was.\<close>

lemma success_without_an_answer:
  "http_get_error_code response = 200 \<Longrightarrow> http_get_body response = None \<Longrightarrow> decoded_answer j use response = (DCL_ERROR_CODE_OK, False, None)"
  by (simp add: decoded_answer_def)

section \<open>Properties\<close>


text \<open>A line that takes a request and brings an answer at once.\<close>

definition answering :: "string \<Rightarrow> dcl_env" where
  "answering got = \<lparr>dv_memory = True, dv_tries = Some one_address, dv_now = 7, dv_stamp = ''2018-09-07T10:00:00'', dv_mac = [1, 2, 0, 4, 5, 6],
     dv_write = as_rounds1 (ae_first clear_env), dv_read = answer_rounds got\<rparr>"

lemma answering_returns: "dcl_returns (answering got)"
proof -
  have w: "takes_all (as_rounds1 (ae_first clear_env))" using clear_env_clear by (simp add: clear_line_def)
  have "sock_writen_with_timeout (as_rounds1 (ae_first clear_env)) data 1000 \<noteq> None" if "length data \<le> 4095" for data
  proof -
    have "length data \<le> 512 * length (as_rounds1 (ae_first clear_env))" using w that by (simp add: takes_all_def)
    from takes_all_loop [OF _ _ this, of 1000] w show ?thesis by (simp add: sock_writen_with_timeout_def takes_all_def)
  qed
  then show ?thesis
    by (simp add: dcl_returns_def answering_def sock_readn_with_timeout_def answer_rounds_def sock_interrupted_def Let_def)
qed


end
