(* ===== verification/Codec.thy ===== *)
theory Codec
  imports Alarm_Prelude "HOL-Library.Word"
begin

text \<open>
  The codec chip (\<open>MediaHal/ES8388_interface.c\<close>) and the layer above it (\<open>MediaHal/MediaHal.c\<close>), for the ES8388 that the
  firmware is built for.

  \<^item> The chip is its registers. \<open>cd_bus\<close> tells whether the next transfers on the bus work; when it is empty all of them do. A transfer that
    fails leaves the registers as they are. The address on the bus is always that of the chip.
  \<^item> Results are C's: 0 or -1, joined by \<open>|=\<close>.
  \<^item> The calls of the layer take its mutex and give it back, so that each is one step; without a mutex (before the start, after
    the end) they are undefined: \<open>None\<close>.
\<close>

unbundle bit_operations_syntax

section \<open>Registers\<close>

abbreviation (input) ES8388_CONTROL1 :: nat where "ES8388_CONTROL1 \<equiv> 0x00"
abbreviation (input) ES8388_CONTROL2 :: nat where "ES8388_CONTROL2 \<equiv> 0x01"
abbreviation (input) ES8388_CHIPPOWER :: nat where "ES8388_CHIPPOWER \<equiv> 0x02"
abbreviation (input) ES8388_ADCPOWER :: nat where "ES8388_ADCPOWER \<equiv> 0x03"
abbreviation (input) ES8388_DACPOWER :: nat where "ES8388_DACPOWER \<equiv> 0x04"
abbreviation (input) ES8388_MASTERMODE :: nat where "ES8388_MASTERMODE \<equiv> 0x08"
abbreviation (input) ES8388_ADCCONTROL1 :: nat where "ES8388_ADCCONTROL1 \<equiv> 0x09"
abbreviation (input) ES8388_ADCCONTROL2 :: nat where "ES8388_ADCCONTROL2 \<equiv> 0x0a"
abbreviation (input) ES8388_ADCCONTROL3 :: nat where "ES8388_ADCCONTROL3 \<equiv> 0x0b"
abbreviation (input) ES8388_ADCCONTROL4 :: nat where "ES8388_ADCCONTROL4 \<equiv> 0x0c"
abbreviation (input) ES8388_ADCCONTROL5 :: nat where "ES8388_ADCCONTROL5 \<equiv> 0x0d"
abbreviation (input) ES8388_ADCCONTROL8 :: nat where "ES8388_ADCCONTROL8 \<equiv> 0x10"
abbreviation (input) ES8388_ADCCONTROL9 :: nat where "ES8388_ADCCONTROL9 \<equiv> 0x11"
abbreviation (input) ES8388_ADCCONTROL10 :: nat where "ES8388_ADCCONTROL10 \<equiv> 0x12"
abbreviation (input) ES8388_ADCCONTROL11 :: nat where "ES8388_ADCCONTROL11 \<equiv> 0x13"
abbreviation (input) ES8388_ADCCONTROL12 :: nat where "ES8388_ADCCONTROL12 \<equiv> 0x14"
abbreviation (input) ES8388_DACCONTROL1 :: nat where "ES8388_DACCONTROL1 \<equiv> 0x17"
abbreviation (input) ES8388_DACCONTROL2 :: nat where "ES8388_DACCONTROL2 \<equiv> 0x18"
abbreviation (input) ES8388_DACCONTROL3 :: nat where "ES8388_DACCONTROL3 \<equiv> 0x19"
abbreviation (input) ES8388_DACCONTROL4 :: nat where "ES8388_DACCONTROL4 \<equiv> 0x1a"
abbreviation (input) ES8388_DACCONTROL5 :: nat where "ES8388_DACCONTROL5 \<equiv> 0x1b"
abbreviation (input) ES8388_DACCONTROL16 :: nat where "ES8388_DACCONTROL16 \<equiv> 0x26"
abbreviation (input) ES8388_DACCONTROL17 :: nat where "ES8388_DACCONTROL17 \<equiv> 0x27"
abbreviation (input) ES8388_DACCONTROL20 :: nat where "ES8388_DACCONTROL20 \<equiv> 0x2a"
abbreviation (input) ES8388_DACCONTROL21 :: nat where "ES8388_DACCONTROL21 \<equiv> 0x2b"
abbreviation (input) ES8388_DACCONTROL23 :: nat where "ES8388_DACCONTROL23 \<equiv> 0x2d"
abbreviation (input) ES8388_DACCONTROL24 :: nat where "ES8388_DACCONTROL24 \<equiv> 0x2e"
abbreviation (input) ES8388_DACCONTROL25 :: nat where "ES8388_DACCONTROL25 \<equiv> 0x2f"
abbreviation (input) ES8388_DACCONTROL26 :: nat where "ES8388_DACCONTROL26 \<equiv> 0x30"
abbreviation (input) ES8388_DACCONTROL27 :: nat where "ES8388_DACCONTROL27 \<equiv> 0x31"

record codec =
  cd_reg :: "nat \<Rightarrow> 8 word"
  cd_bus :: "bool list"

definition bus_transfer :: "codec \<Rightarrow> bool \<times> codec" where
  "bus_transfer s = (case cd_bus s of [] \<Rightarrow> (True, s) | b # bs \<Rightarrow> (b, s\<lparr>cd_bus := bs\<rparr>))"

definition Es8388WriteReg :: "nat \<Rightarrow> 8 word \<Rightarrow> codec \<Rightarrow> int \<times> codec" where
  "Es8388WriteReg reg value s =
     (let (b, s1) = bus_transfer s in if b then (0, s1\<lparr>cd_reg := (cd_reg s1)(reg := value)\<rparr>) else (-1, s1))"

text \<open>The address is written in one transfer and the value read in another; without a value the variable of the caller keeps \<open>old\<close>.\<close>

definition Es8388ReadReg :: "nat \<Rightarrow> 8 word \<Rightarrow> codec \<Rightarrow> int \<times> 8 word \<times> codec" where
  "Es8388ReadReg reg old s =
     (let (b1, s1) = bus_transfer s; (b2, s2) = bus_transfer s1
      in if b1 \<and> b2 then (0, cd_reg s2 reg, s2) else (-1, old, s2))"

text \<open>\<open>res |= Es8388WriteReg(...)\<close> for each register in order.\<close>

fun write_regs :: "(nat \<times> 8 word) list \<Rightarrow> int \<Rightarrow> codec \<Rightarrow> int \<times> codec" where
  "write_regs [] res s = (res, s)"
| "write_regs ((reg, value) # ws) res s = (let (r, s1) = Es8388WriteReg reg value s in write_regs ws (res OR r) s1)"

text \<open>Reading a register and writing it with some of its bits replaced.\<close>

definition change_reg :: "nat \<Rightarrow> 8 word \<Rightarrow> 8 word \<Rightarrow> codec \<Rightarrow> int \<times> codec" where
  "change_reg reg kept bits s =
     (let (res, v, s1) = Es8388ReadReg reg 0 s; (r, s2) = Es8388WriteReg reg ((v AND kept) OR bits) s1 in (res OR r, s2))"

section \<open>The driver\<close>

datatype ESCodecModule = ES_MODULE_MIN | ES_MODULE_ADC | ES_MODULE_DAC | ES_MODULE_ADC_DAC | ES_MODULE_LINE

definition for_adc :: "ESCodecModule \<Rightarrow> bool" where
  "for_adc m \<longleftrightarrow> m = ES_MODULE_ADC \<or> m = ES_MODULE_ADC_DAC"

definition for_dac :: "ESCodecModule \<Rightarrow> bool" where
  "for_dac m \<longleftrightarrow> m = ES_MODULE_DAC \<or> m = ES_MODULE_ADC_DAC"

definition Es8388SetAdcDacVolume :: "ESCodecModule \<Rightarrow> int \<Rightarrow> int \<Rightarrow> codec \<Rightarrow> int \<times> codec" where
  "Es8388SetAdcDacVolume m volume dot s =
     (let volume = (if volume < -96 then -96 else if volume > 0 then 0 else volume);
          dot = (if dot \<ge> 5 then 1 else 0);
          v = word_of_int (2 * (- volume) + dot)
      in write_regs ((if for_adc m then [(ES8388_ADCCONTROL8, v), (ES8388_ADCCONTROL9, v)] else []) @
           (if for_dac m then [(ES8388_DACCONTROL5, v), (ES8388_DACCONTROL4, v)] else [])) 0 s)"

definition Es8388SetVoiceMute :: "int \<Rightarrow> codec \<Rightarrow> int \<times> codec" where
  "Es8388SetVoiceMute enable s = change_reg ES8388_DACCONTROL3 0xFB (word_of_int (4 * enable)) s"

definition Es8388GetVoiceMute :: "codec \<Rightarrow> int \<times> int \<times> codec" where
  "Es8388GetVoiceMute s =
     (let (res, reg, s1) = Es8388ReadReg ES8388_DACCONTROL3 0 s
      in (res, uint (if res = 0 then drop_bit 2 (reg AND 0x04) else reg), s1))"

definition Es8388Start :: "ESCodecModule \<Rightarrow> codec \<Rightarrow> int \<times> codec" where
  "Es8388Start m s =
     (let (_, prevData, s) = Es8388ReadReg ES8388_DACCONTROL21 0 s;
          (res, s) = write_regs (if m = ES_MODULE_LINE
            then [(ES8388_DACCONTROL16, 0x09), (ES8388_DACCONTROL17, 0x50), (ES8388_DACCONTROL20, 0x50), (ES8388_DACCONTROL21, 0xC0)]
            else [(ES8388_DACCONTROL21, 0x80)]) 0 s;
          (_, now, s) = Es8388ReadReg ES8388_DACCONTROL21 0 s;
          (res, s) = write_regs (if prevData \<noteq> now
            then [(ES8388_CHIPPOWER, 0xF0), (ES8388_CONTROL1, 0x32), (ES8388_CONTROL2, 0x50), (ES8388_CHIPPOWER, 0x00)] else []) res s;
          (res, s) = write_regs (if for_adc m \<or> m = ES_MODULE_LINE then [(ES8388_ADCPOWER, 0x00)] else []) res s
      in if for_dac m \<or> m = ES_MODULE_LINE then
           (let (res, s) = write_regs [(ES8388_DACPOWER, 0x3c)] res s; (r, s) = Es8388SetVoiceMute 0 s in (res OR r, s))
         else (res, s))"

definition Es8388Stop :: "ESCodecModule \<Rightarrow> codec \<Rightarrow> int \<times> codec" where
  "Es8388Stop m s =
     (if m = ES_MODULE_LINE then
        write_regs [(ES8388_DACCONTROL21, 0x80), (ES8388_DACCONTROL16, 0x00), (ES8388_DACCONTROL17, 0x90), (ES8388_DACCONTROL20, 0x90)] 0 s
      else
        (let (res, s) = (if for_dac m
               then (let (res, s) = write_regs [(ES8388_DACPOWER, 0x00)] 0 s; (r, s) = Es8388SetVoiceMute 1 s in (res OR r, s))
               else (0, s));
             (res, s) = write_regs (if for_adc m then [(ES8388_ADCPOWER, 0xFF)] else []) res s
         in write_regs (if m = ES_MODULE_ADC_DAC
              then [(ES8388_DACCONTROL21, 0x9C), (ES8388_CONTROL1, 0x00), (ES8388_CONTROL2, 0x58), (ES8388_CHIPPOWER, 0xF3)]
              else []) res s))"

definition Es8388I2sConfigClock :: "8 word \<Rightarrow> 8 word \<Rightarrow> codec \<Rightarrow> int \<times> codec" where
  "Es8388I2sConfigClock sclkDiv lclkDiv =
     write_regs [(ES8388_MASTERMODE, sclkDiv), (ES8388_ADCCONTROL5, lclkDiv), (ES8388_DACCONTROL2, lclkDiv)] 0"

definition Es8388Uninit :: "codec \<Rightarrow> codec" where
  "Es8388Uninit s = snd (Es8388WriteReg ES8388_CHIPPOWER 0xFF s)"

record es8388_config =
  ec_esMode :: "8 word"
  ec_dacOutput :: "8 word"

definition AUDIO_CODEC_ES8388_DEFAULT :: es8388_config where
  "AUDIO_CODEC_ES8388_DEFAULT = \<lparr>ec_esMode = 0x00, ec_dacOutput = 0x04 OR 0x08 OR 0x10 OR 0x20\<rparr>"

definition Es8388Init :: "es8388_config \<Rightarrow> codec \<Rightarrow> int \<times> codec" where
  "Es8388Init cfg s =
     (let (res, s) = write_regs
            [(ES8388_DACCONTROL3, 0x04), (ES8388_CONTROL2, 0x50), (ES8388_CHIPPOWER, 0x00), (ES8388_MASTERMODE, ec_esMode cfg),
             (ES8388_DACPOWER, 0xC0), (ES8388_CONTROL1, 0x32), (ES8388_DACCONTROL1, 0x18), (ES8388_DACCONTROL2, 0x02),
             (ES8388_DACCONTROL16, 0x00), (ES8388_DACCONTROL17, 0x90), (ES8388_DACCONTROL20, 0x90), (ES8388_DACCONTROL21, 0x80),
             (ES8388_DACCONTROL23, 0x00)] 0 s;
          (r, s) = Es8388SetAdcDacVolume ES_MODULE_DAC 0 0 s;
          (res, s) = write_regs
            [(ES8388_DACPOWER, ec_dacOutput cfg), (ES8388_ADCPOWER, 0xFF), (ES8388_ADCCONTROL1, 0x88), (ES8388_ADCCONTROL2, 0xF0),
             (ES8388_ADCCONTROL3, 0x02), (ES8388_ADCCONTROL4, 0x0c), (ES8388_ADCCONTROL5, 0x02), (ES8388_ADCCONTROL10, 0x02),
             (ES8388_ADCCONTROL11, 0xA0), (ES8388_ADCCONTROL12, 0x11)] (res OR r) s;
          (r, s) = Es8388SetAdcDacVolume ES_MODULE_ADC 0 0 s
      in write_regs [(ES8388_ADCPOWER, 0x09)] (res OR r) s)"

text \<open>Both blocks begin with \<open>res = ...\<close>: the second one forgets the result of the first.\<close>

definition change_both :: "ESCodecModule \<Rightarrow> (codec \<Rightarrow> int \<times> codec) \<Rightarrow> (codec \<Rightarrow> int \<times> codec) \<Rightarrow> codec \<Rightarrow> int \<times> codec" where
  "change_both m adc dac s =
     (let (res, s) = (if for_adc m then adc s else (0, s)) in if for_dac m then dac s else (res, s))"

definition Es8388ConfigFmt :: "ESCodecModule \<Rightarrow> 8 word \<Rightarrow> codec \<Rightarrow> int \<times> codec" where
  "Es8388ConfigFmt m fmt =
     change_both m (change_reg ES8388_ADCCONTROL4 0xfc fmt) (change_reg ES8388_DACCONTROL1 0xf9 (push_bit 1 fmt))"

definition Es8388SetBitsPerSample :: "ESCodecModule \<Rightarrow> 8 word \<Rightarrow> codec \<Rightarrow> int \<times> codec" where
  "Es8388SetBitsPerSample m bits =
     change_both m (change_reg ES8388_ADCCONTROL4 0xe3 (push_bit 2 bits)) (change_reg ES8388_DACCONTROL1 0xc7 (push_bit 3 bits))"

definition Es8388SetVoiceVolume :: "int \<Rightarrow> codec \<Rightarrow> int \<times> codec" where
  "Es8388SetVoiceVolume volume s =
     (let volume = (if volume < 0 then 0 else if volume > 90 then 90 else volume) div 3
      in write_regs [(ES8388_DACCONTROL24, word_of_int volume), (ES8388_DACCONTROL25, word_of_int volume),
           (ES8388_DACCONTROL26, 0), (ES8388_DACCONTROL27, 0)] 0 s)"

definition Es8388GetVoiceVolume :: "codec \<Rightarrow> int \<times> int \<times> codec" where
  "Es8388GetVoiceVolume s =
     (let (res, reg, s1) = Es8388ReadReg ES8388_DACCONTROL24 0 s; v = 3 * uint reg
      in (res, if res = -1 then 0 else if v = 99 then 100 else v, s1))"

definition EsConfigDacOutput :: "8 word \<Rightarrow> codec \<Rightarrow> int \<times> codec" where
  "EsConfigDacOutput output = change_reg ES8388_DACPOWER 0xc3 output"

definition Es8388ConfigAdcInput :: "8 word \<Rightarrow> codec \<Rightarrow> int \<times> codec" where
  "Es8388ConfigAdcInput input = change_reg ES8388_ADCCONTROL2 0x0f input"

definition Es8388SetMicGain :: "int \<Rightarrow> codec \<Rightarrow> int \<times> codec" where
  "Es8388SetMicGain gain = Es8388WriteReg ES8388_ADCCONTROL1 (word_of_int (gain div 3))"

section \<open>The layer above\<close>

datatype CodecMode = CODEC_MODE_UNKNOWN | CODEC_MODE_ENCODE | CODEC_MODE_DECODE | CODEC_MODE_LINE_IN | CODEC_MODE_DECODE_ENCODE

datatype MediaHalState = MEDIA_HAL_STATE_UNKNOWN | MEDIA_HAL_STATE_INIT

record media_hal =
  mh_state :: MediaHalState
  mh_mode :: CodecMode
  mh_lock :: bool
  mh_pa :: bool
  mh_bits :: int
  mh_codec :: codec

definition media_hal_zero :: "codec \<Rightarrow> media_hal" where
  "media_hal_zero c = \<lparr>mh_state = MEDIA_HAL_STATE_UNKNOWN, mh_mode = CODEC_MODE_UNKNOWN, mh_lock = False, mh_pa = False, mh_bits = 16,
     mh_codec = c\<rparr>"

abbreviation (input) BIT_LENGTH_16BITS :: "8 word" where "BIT_LENGTH_16BITS \<equiv> 3"
abbreviation (input) ADC_INPUT_LINPUT1_RINPUT1 :: "8 word" where "ADC_INPUT_LINPUT1_RINPUT1 \<equiv> 0x00"
abbreviation (input) SUPPOERTED_BITS :: int where "SUPPOERTED_BITS \<equiv> 16"

text \<open>The results of the I2S driver are arguments.\<close>

definition MediaHalInit :: "int \<Rightarrow> int \<Rightarrow> es8388_config \<Rightarrow> media_hal \<Rightarrow> int \<times> media_hal" where
  "MediaHalInit installed pins cfg h =
     (if installed < 0 then (-1, h)
      else
        (let ret = installed OR pins;
             (r1, c) = Es8388Init cfg (mh_codec h);
             (r2, c) = Es8388ConfigFmt ES_MODULE_ADC_DAC 0 c;
             (r3, c) = Es8388SetBitsPerSample ES_MODULE_ADC_DAC BIT_LENGTH_16BITS c;
             (r4, c) = Es8388ConfigAdcInput ADC_INPUT_LINPUT1_RINPUT1 c;
             (r5, c) = Es8388Start ES_MODULE_ADC_DAC c
         in (ret OR r1 OR r2 OR r3 OR r4 OR r5,
             h\<lparr>mh_codec := c, mh_mode := CODEC_MODE_UNKNOWN, mh_lock := True, mh_pa := True, mh_state := MEDIA_HAL_STATE_INIT\<rparr>)))"

definition MediaHalUninit :: "media_hal \<Rightarrow> (int \<times> media_hal) option" where
  "MediaHalUninit h =
     (if \<not> mh_lock h then None
      else Some (0, h\<lparr>mh_codec := Es8388Uninit (mh_codec h), mh_lock := False, mh_bits := 0, mh_mode := CODEC_MODE_UNKNOWN,
        mh_state := MEDIA_HAL_STATE_UNKNOWN\<rparr>))"

text \<open>The input depends on macros (\<open>CONFIG_CODECCHIP_IS_...\<close>) that nothing defines: it is always 0.\<close>

definition MediaHalStart :: "CodecMode \<Rightarrow> media_hal \<Rightarrow> (int \<times> media_hal) option" where
  "MediaHalStart m h =
     (if \<not> mh_lock h then None
      else
        (let esMode = (case m of CODEC_MODE_ENCODE \<Rightarrow> ES_MODULE_ADC | CODEC_MODE_LINE_IN \<Rightarrow> ES_MODULE_LINE
               | CODEC_MODE_DECODE \<Rightarrow> ES_MODULE_DAC | CODEC_MODE_DECODE_ENCODE \<Rightarrow> ES_MODULE_ADC_DAC | _ \<Rightarrow> ES_MODULE_DAC);
             inputConfig = 0;
             (r1, c) = Es8388ConfigAdcInput inputConfig (mh_codec h);
             (r2, c) = Es8388Start esMode c
         in Some (r1 OR r2, h\<lparr>mh_codec := c, mh_mode := m\<rparr>)))"

definition MediaHalStop :: "CodecMode \<Rightarrow> media_hal \<Rightarrow> (int \<times> media_hal) option" where
  "MediaHalStop m h =
     (if \<not> mh_lock h then None
      else
        (let esMode = (case m of CODEC_MODE_ENCODE \<Rightarrow> ES_MODULE_ADC | CODEC_MODE_LINE_IN \<Rightarrow> ES_MODULE_LINE
               | CODEC_MODE_DECODE \<Rightarrow> ES_MODULE_DAC | _ \<Rightarrow> ES_MODULE_DAC);
             (r, c) = Es8388Stop esMode (mh_codec h)
         in Some (r, h\<lparr>mh_codec := c, mh_mode := CODEC_MODE_UNKNOWN\<rparr>)))"

definition MediaHalSetVolume :: "int \<Rightarrow> media_hal \<Rightarrow> (int \<times> media_hal) option" where
  "MediaHalSetVolume volume h =
     (if \<not> mh_lock h then None
      else
        (let (_, mute, c) = Es8388GetVoiceMute (mh_codec h);
             c = (if volume < 3 then (if mute = 0 then snd (Es8388SetVoiceMute 1 c) else c)
                  else (if mute = 1 then snd (Es8388SetVoiceMute 0 c) else c));
             (ret, c) = Es8388SetVoiceVolume volume c
         in Some (ret, h\<lparr>mh_codec := c\<rparr>)))"

definition MediaHalGetVolume :: "media_hal \<Rightarrow> (int \<times> int \<times> media_hal) option" where
  "MediaHalGetVolume h =
     (if \<not> mh_lock h then None
      else (let (ret, v, c) = Es8388GetVoiceVolume (mh_codec h) in Some (ret, v, h\<lparr>mh_codec := c\<rparr>)))"

definition MediaHalSetMute :: "int \<Rightarrow> media_hal \<Rightarrow> (int \<times> media_hal) option" where
  "MediaHalSetMute mute h =
     (if \<not> mh_lock h then None
      else (let (ret, c) = Es8388SetVoiceMute mute (mh_codec h) in Some (ret, h\<lparr>mh_codec := c\<rparr>)))"

definition MediaHalGetMute :: "media_hal \<Rightarrow> (int \<times> media_hal) option" where
  "MediaHalGetMute h =
     (if \<not> mh_lock h then None
      else (let (_, mute, c) = Es8388GetVoiceMute (mh_codec h) in Some (mute, h\<lparr>mh_codec := c\<rparr>)))"

definition MediaHalSetBits :: "int \<Rightarrow> media_hal \<Rightarrow> (int \<times> media_hal) option" where
  "MediaHalSetBits bitPerSample h =
     (if bitPerSample \<le> -1 \<or> bitPerSample \<ge> 5 then Some (-1, h)
      else if \<not> mh_lock h then None
      else Some (0, h\<lparr>mh_codec := snd (Es8388SetBitsPerSample ES_MODULE_ADC_DAC (word_of_int bitPerSample) (mh_codec h))\<rparr>))"

definition MediaHalSetClk :: "int \<Rightarrow> int \<Rightarrow> int \<Rightarrow> media_hal \<Rightarrow> int \<times> media_hal" where
  "MediaHalSetClk clk bits ch h =
     (if bits \<noteq> 16 \<and> bits \<noteq> 32 then (-1, h)
      else if ch \<noteq> 1 \<and> ch \<noteq> 2 then (-1, h)
      else if bits > SUPPOERTED_BITS then (-1, h)
      else (clk, h\<lparr>mh_bits := bits\<rparr>))"

definition MediaHalGetCurrentMode :: "media_hal \<Rightarrow> CodecMode" where
  "MediaHalGetCurrentMode h = mh_mode h"

definition MediaHalGetSrcBits :: "media_hal \<Rightarrow> int" where
  "MediaHalGetSrcBits h = mh_bits h"

definition MediaHalPaPwr :: "bool \<Rightarrow> media_hal \<Rightarrow> int \<times> media_hal" where
  "MediaHalPaPwr en h = (0, h\<lparr>mh_pa := en\<rparr>)"

definition MediaHalGetState :: "media_hal \<Rightarrow> MediaHalState" where
  "MediaHalGetState h = mh_state h"

end
