(* ===== verification/Codec_Props.thy ===== *)
theory Codec_Props
  imports Codec
begin

text \<open>
  What the codec does: on a working bus the registers after a call are exact; a result of 0 means that the registers are written;
  the output is mute exactly for volumes under 3, until a start opens it again.
\<close>

section \<open>Transfers\<close>

lemma write_works [simp]: "cd_bus s = [] \<Longrightarrow> Es8388WriteReg r v s = (0, s\<lparr>cd_reg := (cd_reg s)(r := v)\<rparr>)"
  by (simp add: Es8388WriteReg_def bus_transfer_def)

lemma read_works [simp]: "cd_bus s = [] \<Longrightarrow> Es8388ReadReg r old s = (0, cd_reg s r, s)"
  by (simp add: Es8388ReadReg_def bus_transfer_def)

lemma change_works [simp]:
  "cd_bus s = [] \<Longrightarrow> change_reg r kept bits s = (0, s\<lparr>cd_reg := (cd_reg s)(r := (cd_reg s r AND kept) OR bits)\<rparr>)"
  by (simp add: change_reg_def)

text \<open>The registers after writes in order.\<close>

fun stored :: "(nat \<times> 8 word) list \<Rightarrow> (nat \<Rightarrow> 8 word) \<Rightarrow> nat \<Rightarrow> 8 word" where
  "stored [] f = f"
| "stored ((r, v) # ws) f = stored ws (f(r := v))"

lemma write_regs_works:
  "cd_bus s = [] \<Longrightarrow> write_regs ws res s = (res, s\<lparr>cd_reg := stored ws (cd_reg s)\<rparr>)"
  by (induction ws res s rule: write_regs.induct) simp_all

lemma int_or_zero: "(a :: int) OR b = 0 \<longleftrightarrow> a = 0 \<and> b = 0"
proof
  assume *: "a OR b = 0"
  have "\<not> bit a n \<and> \<not> bit b n" for n using arg_cong [OF *, of "\<lambda>x. bit x n"] by (simp add: bit_or_iff)
  then show "a = 0 \<and> b = 0" by (simp add: bit_eq_iff)
qed simp

lemma write_zero: "Es8388WriteReg r v s = (0, s') \<Longrightarrow> cd_reg s' = (cd_reg s)(r := v)"
  by (auto simp: Es8388WriteReg_def bus_transfer_def Let_def split: list.splits if_splits)

text \<open>Whatever the bus does: a result of 0 says that all registers have been written.\<close>

lemma write_regs_zero:
  "write_regs ws res s = (0, s') \<Longrightarrow> res = 0 \<and> cd_reg s' = stored ws (cd_reg s)"
proof (induction ws arbitrary: res s)
  case Nil
  then show ?case by simp
next
  case (Cons w ws)
  obtain r v where w: "w = (r, v)" by fastforce
  obtain e s1 where s1: "Es8388WriteReg r v s = (e, s1)" by fastforce
  from Cons.prems have "write_regs ws (res OR e) s1 = (0, s')" by (simp add: w s1)
  from Cons.IH [OF this] have "res OR e = 0" and reg: "cd_reg s' = stored ws (cd_reg s1)" by simp_all
  then have "res = 0" "e = 0" by (simp_all add: int_or_zero)
  with reg write_zero [of r v s s1] s1 show ?case by (simp add: w)
qed

section \<open>Volume\<close>

definition volume_part :: "int \<Rightarrow> int" where
  "volume_part v = (if v < 0 then 0 else if v > 90 then 90 else v) div 3"

definition outputs :: "codec \<Rightarrow> 8 word list" where
  "outputs c = map (cd_reg c) [ES8388_DACCONTROL24, ES8388_DACCONTROL25, ES8388_DACCONTROL26, ES8388_DACCONTROL27]"

definition muted :: "codec \<Rightarrow> bool" where
  "muted c \<longleftrightarrow> bit (cd_reg c ES8388_DACCONTROL3) 2"

lemma volume_part_bounds: "0 \<le> volume_part v" "volume_part v \<le> 30"
  by (auto simp: volume_part_def)

lemma set_volume_outputs:
  "Es8388SetVoiceVolume v s = (0, s') \<Longrightarrow> outputs s' = [word_of_int (volume_part v), word_of_int (volume_part v), 0, 0]"
  by (auto simp: Es8388SetVoiceVolume_def Let_def outputs_def volume_part_def simp del: write_regs.simps dest!: write_regs_zero)

lemma bit_four: "bit (4 :: 8 word) n \<longleftrightarrow> n = 2"
proof -
  have "(4 :: 8 word) = 2 ^ 2" by simp
  then show ?thesis by (simp only: bit_exp_iff) auto
qed

lemma get_mute_works:
  assumes "cd_bus s = []"
  shows "Es8388GetVoiceMute s = (0, of_bool (muted s), s)"
proof -
  have "w AND 4 = (if bit w 2 then 4 else 0)" for w :: "8 word"
    by (rule bit_eqI, cases "bit w 2")
      (auto simp only: bit_and_iff bit_four if_True if_False bit_0_eq bot_fun_def bot_bool_def)
  with assms show ?thesis by (simp add: Es8388GetVoiceMute_def muted_def)
qed

lemma mute_bit:
  "bit ((w AND 0xFB) OR word_of_int (4 * of_bool b) :: 8 word) 2 = b"
  "n \<noteq> 2 \<Longrightarrow> bit ((w AND 0xFB) OR word_of_int (4 * of_bool b) :: 8 word) n = bit w n"
proof -
  have k: "bit (0xFB :: 8 word) n \<longleftrightarrow> n < 8 \<and> n \<noteq> 2" for n
  proof (cases "n < 8")
    case True
    then have "n \<in> {0, 1, 2, 3, 4, 5, 6, 7}" by auto
    then show ?thesis by (auto simp: bit_numeral_word_iff)
  next
    case False
    then show ?thesis using bit_imp_le_length [of "0xFB :: 8 word" n] by auto
  qed
  have f: "bit (word_of_int (4 * of_bool b) :: 8 word) n \<longleftrightarrow> b \<and> n = 2" for n
    using bit_four [of n] by (cases b) (simp_all only: of_bool_eq mult_1_right mult_zero_right of_int_numeral of_int_0 bit_0_eq bot_apply bot_bool_def simp_thms)
  show "bit ((w AND 0xFB) OR word_of_int (4 * of_bool b) :: 8 word) 2 = b" by (simp only: bit_or_iff bit_and_iff k f) simp
  show "bit ((w AND 0xFB) OR word_of_int (4 * of_bool b) :: 8 word) n = bit w n" if "n \<noteq> 2"
    using that bit_imp_le_length [of w n, simplified] by (auto simp only: bit_or_iff bit_and_iff k f word_size len_num1 len_bit0 mult_1_right)
qed

lemma set_mute_works:
  assumes "cd_bus s = []"
  shows "Es8388SetVoiceMute (of_bool b) s = (0, snd (Es8388SetVoiceMute (of_bool b) s))"
    "muted (snd (Es8388SetVoiceMute (of_bool b) s)) = b" "cd_bus (snd (Es8388SetVoiceMute (of_bool b) s)) = []"
    "r \<noteq> ES8388_DACCONTROL3 \<Longrightarrow> cd_reg (snd (Es8388SetVoiceMute (of_bool b) s)) r = cd_reg s r"
  using assms mute_bit(1) [of _ b] by (simp_all add: Es8388SetVoiceMute_def muted_def)

definition hal_works :: "media_hal \<Rightarrow> bool" where
  "hal_works h \<longleftrightarrow> mh_lock h \<and> cd_bus (mh_codec h) = []"

theorem set_volume_works:
  assumes "hal_works h"
  shows "\<exists>c. MediaHalSetVolume v h = Some (0, h\<lparr>mh_codec := c\<rparr>) \<and> cd_bus c = [] \<and> muted c = (v < 3) \<and>
    outputs c = [word_of_int (volume_part v), word_of_int (volume_part v), 0, 0]"
proof -
  define c where "c = mh_codec h"
  have c: "cd_bus c = []" using assms by (simp add: hal_works_def c_def)
  define c1 where "c1 = (if v < 3 then (if \<not> muted c then snd (Es8388SetVoiceMute 1 c) else c)
      else (if muted c then snd (Es8388SetVoiceMute 0 c) else c))"
  have c1: "cd_bus c1 = []" "muted c1 = (v < 3)"
    using c set_mute_works(2,3) [OF c, of True] set_mute_works(2,3) [OF c, of False] by (auto simp: c1_def)
  have "Es8388SetVoiceVolume v c1 = (0, snd (Es8388SetVoiceVolume v c1))" "cd_bus (snd (Es8388SetVoiceVolume v c1)) = []"
    "muted (snd (Es8388SetVoiceVolume v c1)) = muted c1"
    using c1(1) by (simp_all add: Es8388SetVoiceVolume_def Let_def write_regs_works muted_def)
  moreover from this(1) have "outputs (snd (Es8388SetVoiceVolume v c1)) = [word_of_int (volume_part v), word_of_int (volume_part v), 0, 0]"
    by (rule set_volume_outputs)
  moreover have "MediaHalSetVolume v h = Some (fst (Es8388SetVoiceVolume v c1), h\<lparr>mh_codec := snd (Es8388SetVoiceVolume v c1)\<rparr>)"
    using assms c get_mute_works [OF c]
    by (simp add: MediaHalSetVolume_def hal_works_def c_def [symmetric] c1_def Let_def case_prod_beta)
  ultimately show ?thesis using c1(2) by (metis fst_conv)
qed

lemma get_volume_works:
  assumes "hal_works h" "outputs (mh_codec h) = [word_of_int k, word_of_int k, 0, 0]" "0 \<le> k" "k \<le> 30"
  shows "MediaHalGetVolume h = Some (0, 3 * k, h)"
proof -
  have "uint (word_of_int k :: 8 word) = k" using assms(3,4) by (simp add: unsigned_of_int take_bit_int_eq_self)
  with assms show ?thesis by (simp add: MediaHalGetVolume_def hal_works_def Es8388GetVoiceVolume_def outputs_def Let_def)
qed

section \<open>Starting and stopping\<close>

text \<open>A start opens the output, whatever the volume is.\<close>

lemma start_opens_the_output:
  assumes "cd_bus c = []" "for_dac m \<or> m = ES_MODULE_LINE"
  shows "\<exists>c'. Es8388Start m c = (0, c') \<and> \<not> muted c' \<and> cd_reg c' ES8388_DACPOWER = 0x3c \<and> cd_bus c' = []"
  using assms mute_bit(1) [of _ False]
  by (cases m) (simp_all add: Es8388Start_def for_dac_def for_adc_def write_regs_works Es8388SetVoiceMute_def muted_def
      bit_and_iff bit_numeral_word_iff Let_def)

text \<open>Stopping playing and recording together only stops playing.\<close>

lemma stop_leaves_the_microphone:
  assumes "hal_works h"
  shows "\<exists>h'. MediaHalStop CODEC_MODE_DECODE_ENCODE h = Some (0, h') \<and>
    cd_reg (mh_codec h') ES8388_ADCPOWER = cd_reg (mh_codec h) ES8388_ADCPOWER \<and> cd_reg (mh_codec h') ES8388_DACPOWER = 0"
  using assms by (simp add: MediaHalStop_def hal_works_def Es8388Stop_def for_dac_def for_adc_def write_regs_works
      Es8388SetVoiceMute_def Let_def)

text \<open>The line input is never selected.\<close>

lemma line_input_is_not_selected:
  assumes "hal_works h"
  shows "\<exists>h'. MediaHalStart CODEC_MODE_LINE_IN h = Some (0, h') \<and>
    cd_reg (mh_codec h') ES8388_ADCCONTROL2 = cd_reg (mh_codec h) ES8388_ADCCONTROL2 AND 0x0f"
  using assms by (simp add: MediaHalStart_def hal_works_def Es8388Start_def Es8388ConfigAdcInput_def for_dac_def for_adc_def
      write_regs_works Es8388SetVoiceMute_def Let_def)

text \<open>When the read fails, the other bits of the register are lost although the write works.\<close>

lemma failed_read_clears_bits:
  "cd_bus c = [False, True] \<Longrightarrow> cd_reg (snd (Es8388ConfigAdcInput 0x50 c)) ES8388_ADCCONTROL2 = 0x50"
  by (simp add: Es8388ConfigAdcInput_def change_reg_def Es8388ReadReg_def Es8388WriteReg_def bus_transfer_def)

text \<open>A failure of the first half is forgotten.\<close>

lemma failed_adc_format_is_forgotten:
  "cd_bus c = [True, True, False] \<Longrightarrow> fst (Es8388ConfigFmt ES_MODULE_ADC_DAC 0 c) = 0"
  by (simp add: Es8388ConfigFmt_def change_both_def for_adc_def for_dac_def change_reg_def Es8388ReadReg_def Es8388WriteReg_def
      bus_transfer_def)

end
