(* ===== verification/SmartConnect.thy ===== *)
theory SmartConnect
  imports Restore Http
begin

text \<open>
  The connection to the Wi-Fi (\<open>sys/smart_connect/smartconfig_main.c\<close>): the events of the SDK, the file with the name and the
  password of the network, pairing with a phone by two keys, and the task that tells how it goes.

  \<^item> Four contexts change one state: the event handler and the callback of the SDK, the key listener, the manager task and the pairing
    tasks. The manager takes a message (\<open>wf_current\<close>) and handles it in another step, so that messages can come between.
  \<^item> Calls of the SDK are in \<open>wf_trace\<close>. Whether one fails is an argument; a failed call under \<open>ESP_ERROR_CHECK\<close> takes the device
    down, and nothing happens after that.
  \<^item> The arrays of texts hold zeros behind the text: a text of the length of its array has no terminator.
  \<^item> A sender that finds the queue full waits, and an overrun of an array is undefined: \<open>None\<close>.
\<close>

section \<open>State\<close>

datatype wifi_manage_status = WIFI_STATUS_NONE | WIFI_STATUS_DISCONNECT | WIFI_STATUS_STARTCONNECT
  | WIFI_STATUS_PLEASECONNECT | WIFI_STATUS_CONNECT | WIFI_STATUS_SMARTCONFIGFAIL | WIFI_STATUS_SMARTCONFIG

record manage_connect_info =
  mc_start_esp_touch :: bool
  mc_wifi_status :: wifi_manage_status

datatype wifi_tone = NOTIFY_AUDIO_WIFI_CONNECT_FAIL | NOTIFY_AUDIO_WIFI_CONNECT_FINISH | NOTIFY_AUDIO_WIFI_SET_BY_PHONE
  | NOTIFY_AUDIO_WIFI_CONNECT_START | NOTIFY_AUDIO_CONNECT_PLEASE | NOTIFY_AUDIO_MATCHES_FAIL

datatype wifi_call = WfDisconnect | WfSetConfig string string | WfConnect | WfRestore | WfSetMode | WfStart | WfSetPs
  | WfScType | WfScStart | WfScStop | WfServerStatus | WfToneRestart wifi_tone | WfToneSync wifi_tone

datatype sc_phase = SC_STARTING | SC_WAITING | SC_FAILED

record wifi =
  wf_connected :: bool
  wf_bssid :: string
  wf_ssid :: string
  wf_ssid_len :: nat
  wf_saved_ssid :: string
  wf_saved_pswd :: string
  wf_temp_ssid :: string
  wf_temp_pswd :: string
  wf_phone_ip :: string
  wf_touch :: bool
  wf_errors :: "8 word"
  wf_up_stamp :: timeval
  wf_down_stamp :: timeval
  wf_connected_bit :: bool
  wf_done_bit :: bool
  wf_queue :: "manage_connect_info list"
  wf_current :: "manage_connect_info option"
  wf_pairing :: "sc_phase list"
  wf_file :: "string option"
  wf_factory :: bool
  wf_alive :: bool
  wf_trace :: "wifi_call list"

abbreviation (input) KEY_CODE_VOL_UP :: nat where "KEY_CODE_VOL_UP \<equiv> 1"
abbreviation (input) KEY_CODE_VOL_DOWN :: nat where "KEY_CODE_VOL_DOWN \<equiv> 2"
abbreviation (input) CONNECT_QUEUE_SIZE :: nat where "CONNECT_QUEUE_SIZE \<equiv> 5"
abbreviation (input) RETRY_COUNT :: "8 word" where "RETRY_COUNT \<equiv> 10"
abbreviation (input) SSID_SIZE :: nat where "SSID_SIZE \<equiv> 48"
abbreviation (input) PSWD_SIZE :: nat where "PSWD_SIZE \<equiv> 32"
abbreviation (input) STA_SSID_SIZE :: nat where "STA_SSID_SIZE \<equiv> 32"
abbreviation (input) STA_PSWD_SIZE :: nat where "STA_PSWD_SIZE \<equiv> 64"
abbreviation (input) READ_SIZE :: nat where "READ_SIZE \<equiv> 128"
abbreviation (input) SSID_TAG :: string where "SSID_TAG \<equiv> ''ssid=''"
abbreviation (input) PSWD_TAG :: string where "PSWD_TAG \<equiv> ''password=''"

definition wf_emit :: "wifi_call \<Rightarrow> wifi \<Rightarrow> wifi" where
  "wf_emit c s = s\<lparr>wf_trace := wf_trace s @ [c]\<rparr>"

definition wf_send :: "bool \<Rightarrow> wifi_manage_status \<Rightarrow> wifi \<Rightarrow> wifi option" where
  "wf_send start st s =
     (if length (wf_queue s) < CONNECT_QUEUE_SIZE
      then Some (s\<lparr>wf_queue := wf_queue s @ [\<lparr>mc_start_esp_touch = start, mc_wifi_status = st\<rparr>]\<rparr>) else None)"

text \<open>Calls in order; a checked one that fails is the last.\<close>

fun sdk_calls :: "(wifi_call \<Rightarrow> bool) \<Rightarrow> (bool \<times> wifi_call) list \<Rightarrow> wifi \<Rightarrow> wifi" where
  "sdk_calls fails [] s = s"
| "sdk_calls fails ((checked, c) # cs) s =
     (if checked \<and> fails c then (wf_emit c s)\<lparr>wf_alive := False\<rparr> else sdk_calls fails cs (wf_emit c s))"

section \<open>The file of the network\<close>

text \<open>\<open>fgets\<close> takes the bytes up to a newline, and at most one less than the buffer has.\<close>

definition fgets :: "nat \<Rightarrow> string \<Rightarrow> (string \<times> string) option" where
  "fgets n file_text =
     (let l = takeWhile (\<lambda>c. c \<noteq> CHR 0x0A) file_text;
          k = min (n - 1) (if length l < length file_text then length l + 1 else length l)
      in if file_text = [] then None else Some (take k file_text, drop k file_text))"

text \<open>\<open>memcpy\<close> of a text over another: what is behind it stays.\<close>

definition overlay :: "string \<Rightarrow> string \<Rightarrow> string" where
  "overlay new old = new @ drop (length new) old"

text \<open>The value (or \<open>None\<close> for -1) and what is left of the file. \<open>strstr\<close> ends at a NUL.\<close>

definition get_storage_value :: "string \<Rightarrow> string \<Rightarrow> string \<Rightarrow> nat \<Rightarrow> string option \<times> string" where
  "get_storage_value tag file_text old limit_cpy_len =
     (case fgets READ_SIZE file_text of
        None \<Rightarrow> (None, file_text)
      | Some (line, rest) \<Rightarrow>
          (case strstr (takeWhile (\<lambda>c. c \<noteq> NUL) line) tag of
             None \<Rightarrow> (None, rest)
           | Some t \<Rightarrow>
               (let p_start = drop (length tag) t
                in case strstr p_start crlf of
                     None \<Rightarrow> (None, rest)
                   | Some p_end \<Rightarrow>
                       (let v = take (length p_start - length p_end) p_start
                        in if length v < limit_cpy_len then (Some (overlay v old), rest) else (None, rest)))))"

text \<open>Two tries to open the file.\<close>

fun open_tries :: "nat \<Rightarrow> bool list \<Rightarrow> string option \<Rightarrow> string option" where
  "open_tries 0 sd f = None"
| "open_tries (Suc n) sd f = (if sd \<noteq> [] \<and> hd sd \<and> f \<noteq> None then f else open_tries n (tl sd) f)"

definition get_storage_wifi_ssid_pswd :: "bool list \<Rightarrow> wifi \<Rightarrow> wifi" where
  "get_storage_wifi_ssid_pswd sd s =
     (case open_tries 2 sd (wf_file s) of
        None \<Rightarrow> s
      | Some file_text \<Rightarrow>
          (case get_storage_value SSID_TAG file_text (wf_saved_ssid s) SSID_SIZE of
             (None, _) \<Rightarrow> s
           | (Some ssid, rest) \<Rightarrow>
               (case get_storage_value PSWD_TAG rest (wf_saved_pswd s) PSWD_SIZE of
                  (None, _) \<Rightarrow> s\<lparr>wf_saved_ssid := [], wf_saved_pswd := []\<rparr>
                | (Some pswd, _) \<Rightarrow> s\<lparr>wf_saved_ssid := ssid, wf_saved_pswd := pswd\<rparr>)))"

definition network_text :: "string \<Rightarrow> string \<Rightarrow> string" where
  "network_text ssid pswd = SSID_TAG @ ssid @ crlf @ PSWD_TAG @ pswd @ crlf"

text \<open>Opening empties the file; \<open>written\<close> bytes get into it.\<close>

definition save_wifi_ssid_pswd :: "bool \<Rightarrow> nat \<Rightarrow> wifi \<Rightarrow> wifi option" where
  "save_wifi_ssid_pswd opened written s =
     (if \<not> opened then Some s
      else do {
        t \<leftarrow> c_str READ_SIZE (network_text (wf_temp_ssid s) (wf_temp_pswd s));
        Some (s\<lparr>wf_file := Some (take written t)\<rparr>) })"

text \<open>The configuration is zeroed; a name behind its 32 bytes is written over the next member.\<close>

definition saved_config :: "wifi \<Rightarrow> wifi_call option" where
  "saved_config s =
     (if length (wf_saved_ssid s) \<le> STA_SSID_SIZE \<and> length (wf_saved_pswd s) \<le> STA_PSWD_SIZE
      then Some (WfSetConfig (wf_saved_ssid s) (wf_saved_pswd s)) else None)"

definition wifi_reconnection :: "(wifi_call \<Rightarrow> bool) \<Rightarrow> bool list \<Rightarrow> wifi \<Rightarrow> (int \<times> wifi) option" where
  "wifi_reconnection fails sd s =
     (let s1 = get_storage_wifi_ssid_pswd sd s
      in do {
        cfg \<leftarrow> saved_config s1;
        Some (if fails WfConnect then -1 else 0,
              sdk_calls fails [(False, WfDisconnect), (False, cfg), (False, WfConnect)] s1) })"

section \<open>Events of the SDK\<close>

datatype system_event = SYSTEM_EVENT_STA_START | SYSTEM_EVENT_STA_GOT_IP | SYSTEM_EVENT_STA_CONNECTED string string nat
  | SYSTEM_EVENT_STA_DISCONNECTED nat | SYSTEM_EVENT_STA_STOP | SYSTEM_EVENT_OTHER

definition forget_ap :: "wifi \<Rightarrow> wifi" where
  "forget_ap s = s\<lparr>wf_connected := False, wf_ssid := replicate 32 NUL @ drop 32 (wf_ssid s),
     wf_bssid := replicate 6 NUL, wf_ssid_len := 0\<rparr>"

definition sta_start :: "(wifi_call \<Rightarrow> bool) \<Rightarrow> wifi \<Rightarrow> wifi option" where
  "sta_start fails s =
     do {
       s1 \<leftarrow> (if wf_saved_ssid s \<noteq> [] \<and> \<not> wf_touch s then
                do {
                  cfg \<leftarrow> saved_config s;
                  let s1 = sdk_calls fails [(True, cfg), (False, WfConnect)] s;
                  if wf_alive s1 then wf_send False WIFI_STATUS_STARTCONNECT s1 else Some s1 }
              else if \<not> wf_touch s \<and> wf_saved_ssid s = [] then wf_send False WIFI_STATUS_PLEASECONNECT s
              else Some s);
       Some (if wf_alive s1 then s1\<lparr>wf_errors := 0\<rparr> else s1) }"

definition sta_disconnected :: "(wifi_call \<Rightarrow> bool) \<Rightarrow> bool list \<Rightarrow> wifi \<Rightarrow> wifi option" where
  "sta_disconnected fails sd s =
     (let s1 = forget_ap (if wf_connected s then wf_emit WfServerStatus s else s)
      in do {
        s2 \<leftarrow> (if wf_errors s1 = RETRY_COUNT
               then wf_send False WIFI_STATUS_DISCONNECT (if wf_touch s1 then s1\<lparr>wf_done_bit := True\<rparr> else s1)
               else Some s1);
        let s3 = s2\<lparr>wf_errors := wf_errors s2 + 1\<rparr>;
        s4 \<leftarrow> (if \<not> wf_touch s3 then map_option snd (wifi_reconnection fails sd s3) else Some s3);
        Some (s4\<lparr>wf_connected_bit := False\<rparr>) })"

definition wifi_net_event_handler :: "(wifi_call \<Rightarrow> bool) \<Rightarrow> bool list \<Rightarrow> system_event \<Rightarrow> wifi \<Rightarrow> wifi option" where
  "wifi_net_event_handler fails sd event s =
     (case event of
        SYSTEM_EVENT_STA_START \<Rightarrow> sta_start fails s
      | SYSTEM_EVENT_STA_GOT_IP \<Rightarrow>
          do {
            s1 \<leftarrow> wf_send False WIFI_STATUS_CONNECT (s\<lparr>wf_connected := True, wf_connected_bit := True\<rparr>);
            Some ((wf_emit WfServerStatus s1)\<lparr>wf_errors := 0\<rparr>) }
      | SYSTEM_EVENT_STA_CONNECTED bssid ssid n \<Rightarrow>
          if n \<le> 32 \<and> n \<le> length ssid
          then Some (s\<lparr>wf_bssid := take 6 bssid, wf_ssid := overlay (take n ssid) (wf_ssid s), wf_ssid_len := n, wf_errors := 0\<rparr>)
          else None
      | SYSTEM_EVENT_STA_DISCONNECTED reason \<Rightarrow> sta_disconnected fails sd s
      | SYSTEM_EVENT_STA_STOP \<Rightarrow>
          Some ((forget_ap s)\<lparr>wf_saved_ssid := [], wf_saved_pswd := [], wf_errors := 0, wf_connected_bit := False\<rparr>)
      | SYSTEM_EVENT_OTHER \<Rightarrow> Some s)"

definition wifi_connect_status :: "wifi \<Rightarrow> bool" where
  "wifi_connect_status s = wf_connected s"

text \<open>\<open>ap_info\<close>: the strength of the signal, if the SDK gives it.\<close>

definition get_connect_rssi :: "int option \<Rightarrow> wifi \<Rightarrow> int" where
  "get_connect_rssi ap_info s = (if \<not> wf_connected s then -128 else case ap_info of None \<Rightarrow> -128 | Some r \<Rightarrow> r)"

section \<open>Pairing\<close>

datatype smartconfig_status = SC_STATUS_WAIT | SC_STATUS_FIND_CHANNEL | SC_STATUS_GETTING_SSID_PSWD
  | SC_STATUS_LINK string string | SC_STATUS_LINK_OVER "string option"

definition sc_callback :: "(wifi_call \<Rightarrow> bool) \<Rightarrow> smartconfig_status \<Rightarrow> wifi \<Rightarrow> wifi option" where
  "sc_callback fails status s =
     (case status of
        SC_STATUS_LINK cfg_ssid cfg_pswd \<Rightarrow>
          do {
            ssid \<leftarrow> c_str STA_SSID_SIZE cfg_ssid;
            pswd \<leftarrow> c_str STA_PSWD_SIZE cfg_pswd;
            ssid \<leftarrow> c_str SSID_SIZE ssid;
            pswd \<leftarrow> c_str PSWD_SIZE pswd;
            Some (sdk_calls fails
              [(True, WfDisconnect), (False, WfRestore), (True, WfSetMode), (False, WfStart), (False, WfSetPs),
               (True, WfSetConfig ssid pswd), (True, WfConnect)]
              (s\<lparr>wf_temp_ssid := ssid, wf_temp_pswd := pswd, wf_phone_ip := replicate 4 NUL\<rparr>)) }
      | SC_STATUS_LINK_OVER pdata \<Rightarrow>
          Some ((case pdata of None \<Rightarrow> s | Some ip \<Rightarrow> s\<lparr>wf_phone_ip := take 4 ip\<rparr>)\<lparr>wf_done_bit := True\<rparr>)
      | _ \<Rightarrow> Some s)"

text \<open>A pairing task: it is started, waits for the bits, and after a timeout sleeps before it goes back to the old network.\<close>

definition set_phase :: "nat \<Rightarrow> sc_phase \<Rightarrow> wifi \<Rightarrow> wifi" where
  "set_phase i p s = s\<lparr>wf_pairing := (wf_pairing s)[i := p]\<rparr>"

definition end_task :: "nat \<Rightarrow> wifi \<Rightarrow> wifi" where
  "end_task i s = s\<lparr>wf_pairing := take i (wf_pairing s) @ drop (i + 1) (wf_pairing s)\<rparr>"

record pairing_env =
  pe_fails :: "wifi_call \<Rightarrow> bool"
  pe_timeout :: bool
  pe_opened :: bool
  pe_written :: nat
  pe_card :: "bool list"

definition smartconfig_wait :: "pairing_env \<Rightarrow> nat \<Rightarrow> wifi \<Rightarrow> wifi option" where
  "smartconfig_wait e i s =
     (if wf_connected_bit s \<or> wf_done_bit s then
        (let done_bit = wf_done_bit s; s1 = s\<lparr>wf_connected_bit := False, wf_done_bit := False\<rparr>
         in if done_bit then
              do {
                let s2 = wf_emit WfScStop s1;
                s3 \<leftarrow> (if wf_connected s2 then save_wifi_ssid_pswd (pe_opened e) (pe_written e) s2 else Some s2);
                Some (end_task i (s3\<lparr>wf_touch := False\<rparr>)) }
            else Some s1)
      else if pe_timeout e then
        do {
          s1 \<leftarrow> wf_send False WIFI_STATUS_SMARTCONFIGFAIL (wf_emit WfScStop s);
          Some (set_phase i SC_FAILED (s1\<lparr>wf_touch := False, wf_errors := 0\<rparr>)) }
      else Some s)"

definition smartconfig_start_task :: "pairing_env \<Rightarrow> nat \<Rightarrow> wifi \<Rightarrow> wifi option" where
  "smartconfig_start_task e i s =
     (if length (wf_pairing s) \<le> i then Some s
      else case wf_pairing s ! i of
        SC_STARTING \<Rightarrow> Some (set_phase i SC_WAITING (sdk_calls (pe_fails e) [(True, WfScType), (True, WfScStart)] s))
      | SC_WAITING \<Rightarrow> smartconfig_wait e i s
      | SC_FAILED \<Rightarrow>
          (let s1 = sdk_calls (pe_fails e) [(False, WfRestore), (True, WfSetMode), (False, WfStart), (False, WfSetPs)] s
           in if wf_alive s1 then do { (_, s2) \<leftarrow> wifi_reconnection (pe_fails e) (pe_card e) s1; Some (end_task i s2) }
              else Some s1))"

text \<open>\<open>long\<close> has 32 bits; the difference of far numbers wraps.\<close>

definition esp_touch_abs :: "32 word \<Rightarrow> 32 word \<Rightarrow> int" where
  "esp_touch_abs a b = (if sint b < sint a then sint (a - b) else sint (b - a))"

definition touch_request :: "wifi \<Rightarrow> wifi option" where
  "touch_request s =
     (if esp_touch_abs (ms (wf_up_stamp s)) (ms (wf_down_stamp s)) < 200 \<and> \<not> wf_touch s
      then wf_send True WIFI_STATUS_NONE (s\<lparr>wf_touch := True\<rparr>) else Some s)"

definition esp_touch_keyprocess :: "keyevent_t \<Rightarrow> wifi \<Rightarrow> wifi option" where
  "esp_touch_keyprocess event s =
     (if wf_factory s then Some s
      else if ke_code event = KEY_CODE_VOL_UP then
        (if ke_type event = KEY_EVNET_PRESS then touch_request (s\<lparr>wf_up_stamp := ke_timestamp event\<rparr>)
         else Some (s\<lparr>wf_up_stamp := zero_time\<rparr>))
      else if ke_code event = KEY_CODE_VOL_DOWN then
        (if ke_type event = KEY_EVNET_PRESS then touch_request (s\<lparr>wf_down_stamp := ke_timestamp event\<rparr>)
         else Some (s\<lparr>wf_down_stamp := zero_time\<rparr>))
      else Some s)"

section \<open>The manager task\<close>

definition manager_receive :: "wifi \<Rightarrow> wifi" where
  "manager_receive s =
     (case (wf_current s, wf_queue s) of
        (None, m # q) \<Rightarrow> s\<lparr>wf_current := Some m, wf_queue := q\<rparr>
      | _ \<Rightarrow> s)"

definition manager_handle :: "bool \<Rightarrow> manage_connect_info \<Rightarrow> wifi \<Rightarrow> wifi option" where
  "manager_handle created m s =
     (case mc_wifi_status m of
        WIFI_STATUS_DISCONNECT \<Rightarrow> Some (wf_emit (WfToneRestart NOTIFY_AUDIO_WIFI_CONNECT_FAIL) s)
      | WIFI_STATUS_CONNECT \<Rightarrow> Some (wf_emit (WfToneRestart NOTIFY_AUDIO_WIFI_CONNECT_FINISH) s)
      | WIFI_STATUS_SMARTCONFIG \<Rightarrow> Some (wf_emit (WfToneSync NOTIFY_AUDIO_WIFI_SET_BY_PHONE) s)
      | WIFI_STATUS_STARTCONNECT \<Rightarrow> Some (wf_emit (WfToneRestart NOTIFY_AUDIO_WIFI_CONNECT_START) s)
      | WIFI_STATUS_PLEASECONNECT \<Rightarrow> Some (wf_emit (WfToneRestart NOTIFY_AUDIO_CONNECT_PLEASE) s)
      | WIFI_STATUS_SMARTCONFIGFAIL \<Rightarrow> Some (wf_emit (WfToneRestart NOTIFY_AUDIO_MATCHES_FAIL) s)
      | WIFI_STATUS_NONE \<Rightarrow>
          if mc_start_esp_touch m then
            do {
              s1 \<leftarrow> wf_send False WIFI_STATUS_SMARTCONFIG (wf_emit WfDisconnect (s\<lparr>wf_connected := False\<rparr>));
              Some (if created then s1\<lparr>wf_pairing := wf_pairing s1 @ [SC_STARTING]\<rparr> else s1) }
          else Some s)"

definition manager_connect_task :: "bool \<Rightarrow> wifi \<Rightarrow> wifi option" where
  "manager_connect_task created s =
     (case wf_current s of
        None \<Rightarrow> Some (manager_receive s)
      | Some m \<Rightarrow> map_option (\<lambda>s. s\<lparr>wf_current := None\<rparr>) (manager_handle created m s))"

section \<open>The start\<close>

abbreviation (input) FACTORY_WIFI_SSID :: string where "FACTORY_WIFI_SSID \<equiv> ''onego_factory_ssid''"
abbreviation (input) FACTORY_WIFI_PSWD :: string where "FACTORY_WIFI_PSWD \<equiv> ''12345678''"

definition wifi_zero :: "bool \<Rightarrow> string option \<Rightarrow> wifi" where
  "wifi_zero factory f = \<lparr>wf_connected = False, wf_bssid = replicate 6 NUL, wf_ssid = replicate SSID_SIZE NUL, wf_ssid_len = 0,
     wf_saved_ssid = [], wf_saved_pswd = [], wf_temp_ssid = [], wf_temp_pswd = [], wf_phone_ip = replicate 4 NUL,
     wf_touch = False, wf_errors = 0, wf_up_stamp = zero_time, wf_down_stamp = zero_time, wf_connected_bit = False,
     wf_done_bit = False, wf_queue = [], wf_current = None, wf_pairing = [], wf_file = f, wf_factory = factory,
     wf_alive = True, wf_trace = []\<rparr>"

definition smart_connect_init :: "bool \<Rightarrow> bool list \<Rightarrow> string option \<Rightarrow> wifi" where
  "smart_connect_init factory sd f =
     (let s = wifi_zero factory f
      in if factory then s\<lparr>wf_saved_ssid := FACTORY_WIFI_SSID, wf_saved_pswd := FACTORY_WIFI_PSWD\<rparr>
         else get_storage_wifi_ssid_pswd sd s)"

section \<open>Runs\<close>

datatype wifi_input = WfEvent "wifi_call \<Rightarrow> bool" "bool list" system_event | WfSc "wifi_call \<Rightarrow> bool" smartconfig_status
  | WfKey keyevent_t | WfManage bool | WfPairing pairing_env nat

definition wifi_step :: "wifi_input \<Rightarrow> wifi \<Rightarrow> wifi option" where
  "wifi_step i s =
     (if \<not> wf_alive s then Some s
      else case i of
        WfEvent fails sd event \<Rightarrow> wifi_net_event_handler fails sd event s
      | WfSc fails status \<Rightarrow> sc_callback fails status s
      | WfKey event \<Rightarrow> esp_touch_keyprocess event s
      | WfManage created \<Rightarrow> manager_connect_task created s
      | WfPairing e n \<Rightarrow> smartconfig_start_task e n s)"

end
