(* ===== verification/SmartConnect_Props.thy ===== *)
theory SmartConnect_Props
  imports SmartConnect
begin

text \<open>
  What holds of the connection to the Wi-Fi: it is defined while the queue has room and names and passwords fit; there is one
  pairing at a time; a network that was paired is the one of the next start; failures are told once in 256.
\<close>

section \<open>Frames\<close>

lemma sdk_calls_frame [simp]:
  "wf_saved_ssid (sdk_calls fails cs s) = wf_saved_ssid s" "wf_saved_pswd (sdk_calls fails cs s) = wf_saved_pswd s"
  "wf_temp_ssid (sdk_calls fails cs s) = wf_temp_ssid s" "wf_temp_pswd (sdk_calls fails cs s) = wf_temp_pswd s"
  "wf_queue (sdk_calls fails cs s) = wf_queue s" "wf_current (sdk_calls fails cs s) = wf_current s"
  "wf_pairing (sdk_calls fails cs s) = wf_pairing s" "wf_touch (sdk_calls fails cs s) = wf_touch s"
  "wf_file (sdk_calls fails cs s) = wf_file s" "wf_errors (sdk_calls fails cs s) = wf_errors s"
  "wf_connected (sdk_calls fails cs s) = wf_connected s" "wf_done_bit (sdk_calls fails cs s) = wf_done_bit s"
  "wf_connected_bit (sdk_calls fails cs s) = wf_connected_bit s"
  by (induction fails cs s rule: sdk_calls.induct) (auto simp: wf_emit_def)

lemma wf_emit_frame [simp]:
  "wf_saved_ssid (wf_emit c s) = wf_saved_ssid s" "wf_saved_pswd (wf_emit c s) = wf_saved_pswd s"
  "wf_temp_ssid (wf_emit c s) = wf_temp_ssid s" "wf_temp_pswd (wf_emit c s) = wf_temp_pswd s"
  "wf_queue (wf_emit c s) = wf_queue s" "wf_current (wf_emit c s) = wf_current s" "wf_alive (wf_emit c s) = wf_alive s"
  "wf_pairing (wf_emit c s) = wf_pairing s" "wf_touch (wf_emit c s) = wf_touch s" "wf_file (wf_emit c s) = wf_file s"
  "wf_errors (wf_emit c s) = wf_errors s" "wf_connected (wf_emit c s) = wf_connected s"
  "wf_done_bit (wf_emit c s) = wf_done_bit s" "wf_connected_bit (wf_emit c s) = wf_connected_bit s"
  by (simp_all add: wf_emit_def)

lemma get_storage_frame [simp]:
  "wf_temp_ssid (get_storage_wifi_ssid_pswd sd s) = wf_temp_ssid s" "wf_temp_pswd (get_storage_wifi_ssid_pswd sd s) = wf_temp_pswd s"
  "wf_queue (get_storage_wifi_ssid_pswd sd s) = wf_queue s" "wf_current (get_storage_wifi_ssid_pswd sd s) = wf_current s"
  "wf_pairing (get_storage_wifi_ssid_pswd sd s) = wf_pairing s" "wf_touch (get_storage_wifi_ssid_pswd sd s) = wf_touch s"
  "wf_file (get_storage_wifi_ssid_pswd sd s) = wf_file s" "wf_errors (get_storage_wifi_ssid_pswd sd s) = wf_errors s"
  "wf_alive (get_storage_wifi_ssid_pswd sd s) = wf_alive s" "wf_trace (get_storage_wifi_ssid_pswd sd s) = wf_trace s"
  "wf_done_bit (get_storage_wifi_ssid_pswd sd s) = wf_done_bit s"
  by (auto simp: get_storage_wifi_ssid_pswd_def split: option.splits prod.splits)

lemma forget_ap_frame [simp]:
  "wf_saved_ssid (forget_ap s) = wf_saved_ssid s" "wf_saved_pswd (forget_ap s) = wf_saved_pswd s"
  "wf_temp_ssid (forget_ap s) = wf_temp_ssid s" "wf_temp_pswd (forget_ap s) = wf_temp_pswd s"
  "wf_queue (forget_ap s) = wf_queue s" "wf_current (forget_ap s) = wf_current s" "wf_pairing (forget_ap s) = wf_pairing s"
  "wf_touch (forget_ap s) = wf_touch s" "wf_file (forget_ap s) = wf_file s" "wf_errors (forget_ap s) = wf_errors s"
  "wf_done_bit (forget_ap s) = wf_done_bit s" "wf_alive (forget_ap s) = wf_alive s"
  by (simp_all add: forget_ap_def)

section \<open>One pairing at a time\<close>

text \<open>A request for pairing is a message, a message in work, or a task that has not given up.\<close>

definition asks_pairing :: "manage_connect_info \<Rightarrow> bool" where
  "asks_pairing m \<longleftrightarrow> mc_start_esp_touch m"

definition pairings :: "wifi \<Rightarrow> nat" where
  "pairings s = length (filter asks_pairing (wf_queue s)) + (case wf_current s of Some m \<Rightarrow> of_bool (asks_pairing m) | None \<Rightarrow> 0) +
     length (filter (\<lambda>p. p \<noteq> SC_FAILED) (wf_pairing s))"

definition pairing_inv :: "wifi \<Rightarrow> bool" where
  "pairing_inv s \<longleftrightarrow> pairings s \<le> of_bool (wf_touch s)"

lemma wf_send_pairings:
  "wf_send b st s = Some s' \<Longrightarrow> pairings s' = pairings s + of_bool b \<and> wf_touch s' = wf_touch s \<and> wf_pairing s' = wf_pairing s"
  by (auto simp: wf_send_def pairings_def asks_pairing_def split: if_splits option.splits)

lemma pairings_frame [simp]:
  "pairings (s\<lparr>wf_connected := x0\<rparr>) = pairings s" "pairings (s\<lparr>wf_ssid := x1\<rparr>) = pairings s" "pairings (s\<lparr>wf_ssid_len := x2\<rparr>) = pairings s"
  "pairings (s\<lparr>wf_bssid := x3\<rparr>) = pairings s" "pairings (s\<lparr>wf_saved_ssid := x4\<rparr>) = pairings s" "pairings (s\<lparr>wf_saved_pswd := x5\<rparr>) = pairings s"
  "pairings (s\<lparr>wf_temp_ssid := x6\<rparr>) = pairings s" "pairings (s\<lparr>wf_temp_pswd := x7\<rparr>) = pairings s" "pairings (s\<lparr>wf_phone_ip := x8\<rparr>) = pairings s"
  "pairings (s\<lparr>wf_touch := x9\<rparr>) = pairings s" "pairings (s\<lparr>wf_errors := x10\<rparr>) = pairings s" "pairings (s\<lparr>wf_up_stamp := x11\<rparr>) = pairings s"
  "pairings (s\<lparr>wf_down_stamp := x12\<rparr>) = pairings s" "pairings (s\<lparr>wf_connected_bit := x13\<rparr>) = pairings s" "pairings (s\<lparr>wf_done_bit := x14\<rparr>) = pairings s"
  "pairings (s\<lparr>wf_alive := x15\<rparr>) = pairings s" "pairings (s\<lparr>wf_file := x16\<rparr>) = pairings s"
  "pairings (wf_emit c s) = pairings s" "pairings (sdk_calls fails cs s) = pairings s" "pairings (forget_ap s) = pairings s"
  "pairings (get_storage_wifi_ssid_pswd sd s) = pairings s"
  by (simp_all add: pairings_def)

lemma reconnection_pairings:
  "wifi_reconnection fails sd s = Some (r, s') \<Longrightarrow> pairings s' = pairings s \<and> wf_touch s' = wf_touch s \<and> wf_pairing s' = wf_pairing s"
  by (auto simp: wifi_reconnection_def ub_simps Let_def simp del: sdk_calls.simps)

lemma filter_drop_nth:
  assumes "i < length xs"
  shows "length (filter P (take i xs @ drop (i + 1) xs)) + of_bool (P (xs ! i)) = length (filter P xs)"
proof -
  have "filter P xs = filter P (take i xs @ xs ! i # drop (Suc i) xs)" using id_take_nth_drop [OF assms] by simp
  then show ?thesis by simp
qed

lemma filter_update:
  assumes "i < length xs"
  shows "length (filter P (xs[i := x])) + of_bool (P (xs ! i)) = length (filter P xs) + of_bool (P x)"
proof -
  have "filter P (xs[i := x]) = filter P (take i xs @ x # drop (Suc i) xs)" using upd_conv_take_nth_drop [OF assms] by simp
  moreover have "filter P xs = filter P (take i xs @ xs ! i # drop (Suc i) xs)" using id_take_nth_drop [OF assms] by simp
  ultimately show ?thesis by simp
qed

lemma end_task_pairings:
  "i < length (wf_pairing s) \<Longrightarrow> pairings (end_task i s) + of_bool (wf_pairing s ! i \<noteq> SC_FAILED) = pairings s"
  using filter_drop_nth [of i "wf_pairing s" "\<lambda>p. p \<noteq> SC_FAILED"] by (simp add: pairings_def end_task_def)

lemma set_phase_pairings:
  "i < length (wf_pairing s) \<Longrightarrow>
    pairings (set_phase i p s) + of_bool (wf_pairing s ! i \<noteq> SC_FAILED) = pairings s + of_bool (p \<noteq> SC_FAILED)"
  using filter_update [of i "wf_pairing s" "\<lambda>p. p \<noteq> SC_FAILED" p] by (simp add: pairings_def set_phase_def)

lemma start_pairings:
  assumes "sta_start fails s = Some s'"
  shows "pairings s' = pairings s \<and> wf_touch s' = wf_touch s"
proof -
  from assms obtain s1 where
      s1: "(if wf_saved_ssid s \<noteq> [] \<and> \<not> wf_touch s then
              Option.bind (saved_config s) (\<lambda>cfg.
                let s1 = sdk_calls fails [(True, cfg), (False, WfConnect)] s
                in if wf_alive s1 then wf_send False WIFI_STATUS_STARTCONNECT s1 else Some s1)
            else if \<not> wf_touch s \<and> wf_saved_ssid s = [] then wf_send False WIFI_STATUS_PLEASECONNECT s
            else Some s) = Some s1"
    and s': "s' = (if wf_alive s1 then s1\<lparr>wf_errors := 0\<rparr> else s1)"
    by (auto simp only: sta_start_def ub_simps option.inject)
  have "pairings s1 = pairings s \<and> wf_touch s1 = wf_touch s"
    using s1 by (auto simp only: ub_simps Let_def pairings_frame sdk_calls_frame option.inject of_bool_def if_False add_0_right
        split: if_splits dest!: wf_send_pairings)
  then show ?thesis by (simp add: s')
qed

lemma event_pairing_inv:
  assumes "wifi_net_event_handler fails sd event s = Some s'" "pairing_inv s"
  shows "pairing_inv s'"
proof (cases event)
  case SYSTEM_EVENT_STA_START
  with assms start_pairings [of fails s s'] show ?thesis by (simp add: wifi_net_event_handler_def pairing_inv_def)
next
  case SYSTEM_EVENT_STA_GOT_IP
  with assms(1) obtain s1 where
      s1: "wf_send False WIFI_STATUS_CONNECT (s\<lparr>wf_connected := True, wf_connected_bit := True\<rparr>) = Some s1"
    and s': "s' = (wf_emit WfServerStatus s1)\<lparr>wf_errors := 0\<rparr>"
    by (auto simp: wifi_net_event_handler_def ub_simps)
  from wf_send_pairings [OF s1] assms(2) show ?thesis by (simp add: s' pairing_inv_def)
next
  case (SYSTEM_EVENT_STA_DISCONNECTED reason)
  define s0 where "s0 = forget_ap (if wf_connected s then wf_emit WfServerStatus s else s)"
  have s0: "pairings s0 = pairings s" "wf_touch s0 = wf_touch s" by (auto simp: s0_def)
  from assms(1) SYSTEM_EVENT_STA_DISCONNECTED have "sta_disconnected fails sd s = Some s'"
    by (simp add: wifi_net_event_handler_def)
  then obtain s2 s4 where
      s2: "(if wf_errors s0 = RETRY_COUNT
         then wf_send False WIFI_STATUS_DISCONNECT (if wf_touch s0 then s0\<lparr>wf_done_bit := True\<rparr> else s0) else Some s0) = Some s2"
    and s4: "(if \<not> wf_touch (s2\<lparr>wf_errors := wf_errors s2 + 1\<rparr>) then map_option snd (wifi_reconnection fails sd (s2\<lparr>wf_errors := wf_errors s2 + 1\<rparr>))
         else Some (s2\<lparr>wf_errors := wf_errors s2 + 1\<rparr>)) = Some s4"
    and s': "s' = s4\<lparr>wf_connected_bit := False\<rparr>"
    by (auto simp only: sta_disconnected_def ub_simps Let_def s0_def [symmetric] wifi.simps option.inject)
  have "pairings s2 = pairings s0 \<and> wf_touch s2 = wf_touch s0"
    using s2 by (auto dest!: wf_send_pairings split: if_splits)
  moreover have "pairings s4 = pairings s2 \<and> wf_touch s4 = wf_touch s2"
    using s4 by (auto dest!: reconnection_pairings split: if_splits)
  moreover have "pairings s' = pairings s4" by (simp add: s')
  ultimately show ?thesis using assms(2) s0 by (simp add: pairing_inv_def s')
qed (use assms in \<open>auto simp: wifi_net_event_handler_def pairing_inv_def split: if_splits\<close>)

lemma callback_pairing_inv:
  "sc_callback fails status s = Some s' \<Longrightarrow> pairing_inv s \<Longrightarrow> pairing_inv s'"
  by (auto simp: sc_callback_def ub_simps pairing_inv_def simp del: sdk_calls.simps split: smartconfig_status.splits option.splits)

lemma request_pairing_inv:
  "touch_request s = Some s' \<Longrightarrow> pairing_inv s \<Longrightarrow> pairing_inv s'"
  by (auto simp: touch_request_def pairing_inv_def dest!: wf_send_pairings split: if_splits)

lemma key_pairing_inv:
  "esp_touch_keyprocess event s = Some s' \<Longrightarrow> pairing_inv s \<Longrightarrow> pairing_inv s'"
  by (auto simp: esp_touch_keyprocess_def pairing_inv_def split: if_splits dest!: request_pairing_inv [unfolded pairing_inv_def])

lemma receive_pairings: "pairings (manager_receive s) = pairings s \<and> wf_touch (manager_receive s) = wf_touch s"
  by (auto simp: manager_receive_def pairings_def split: option.splits list.splits)

lemma handled_pairings:
  "wf_current s = Some m \<Longrightarrow> pairings (s\<lparr>wf_current := None\<rparr>) + of_bool (asks_pairing m) = pairings s"
  by (simp add: pairings_def)

lemma new_task_pairings:
  "pairings (s\<lparr>wf_pairing := wf_pairing s @ [p]\<rparr>) = pairings s + of_bool (p \<noteq> SC_FAILED)"
  by (simp add: pairings_def)

lemma handle_pairings:
  "manager_handle created m s = Some s' \<Longrightarrow>
    pairings s' \<le> pairings s + of_bool (asks_pairing m) \<and> wf_touch s' = wf_touch s \<and> wf_current s' = wf_current s"
  by (auto simp: manager_handle_def ub_simps new_task_pairings asks_pairing_def wf_send_def dest!: wf_send_pairings
      split: wifi_manage_status.splits if_splits)
    (auto simp: pairings_def asks_pairing_def)

lemma manager_pairing_inv:
  assumes "manager_connect_task created s = Some s'" "pairing_inv s"
  shows "pairing_inv s'"
proof (cases "wf_current s")
  case None
  with assms receive_pairings [of s] show ?thesis by (auto simp: manager_connect_task_def pairing_inv_def)
next
  case (Some m)
  with assms(1) obtain s1 where s1: "manager_handle created m s = Some s1" and s': "s' = s1\<lparr>wf_current := None\<rparr>"
    by (auto simp: manager_connect_task_def)
  from handle_pairings [OF s1] handled_pairings [of s1 m] Some assms(2) show ?thesis by (simp add: s' pairing_inv_def)
qed

lemma save_frame:
  "save_wifi_ssid_pswd opened n s = Some s' \<Longrightarrow> pairings s' = pairings s \<and> wf_touch s' = wf_touch s \<and> wf_pairing s' = wf_pairing s"
  by (auto simp: save_wifi_ssid_pswd_def ub_simps split: if_splits)

lemma wait_pairing_inv:
  assumes "smartconfig_wait e i s = Some s'" "pairing_inv s" "i < length (wf_pairing s)" "wf_pairing s ! i = SC_WAITING"
  shows "pairing_inv s'"
proof (cases "wf_done_bit s")
  case True
  define s2 where "s2 = wf_emit WfScStop (s\<lparr>wf_connected_bit := False, wf_done_bit := False\<rparr>)"
  from assms(1) True obtain s3 where
      s3: "(if wf_connected s2 then save_wifi_ssid_pswd (pe_opened e) (pe_written e) s2 else Some s2) = Some s3"
    and s': "s' = end_task i (s3\<lparr>wf_touch := False\<rparr>)"
    by (auto simp only: smartconfig_wait_def ub_simps Let_def s2_def if_True simp_thms option.inject)
  have s2: "pairings s2 = pairings s" "wf_pairing s2 = wf_pairing s" by (simp_all add: s2_def)
  have s3': "pairings s3 = pairings s2 \<and> wf_pairing s3 = wf_pairing s2"
    using s3 by (auto dest!: save_frame split: if_splits)
  have "pairings s' + 1 = pairings s"
    using end_task_pairings [of i "s3\<lparr>wf_touch := False\<rparr>"] assms(3,4) s3' s2 by (simp add: s')
  then show ?thesis using assms(2) by (auto simp: pairing_inv_def of_bool_def split: if_splits)
next
  case False
  show ?thesis
  proof (cases "wf_connected_bit s \<or> \<not> pe_timeout e")
    case True
    with False assms show ?thesis
      by (auto simp: smartconfig_wait_def Let_def pairing_inv_def split: if_splits)
  next
    case nobit: False
    with False assms(1) obtain s1 where s1: "wf_send False WIFI_STATUS_SMARTCONFIGFAIL (wf_emit WfScStop s) = Some s1"
      and s': "s' = set_phase i SC_FAILED (s1\<lparr>wf_touch := False, wf_errors := 0\<rparr>)"
      by (auto simp: smartconfig_wait_def ub_simps)
    have "pairings s1 = pairings s \<and> wf_pairing s1 = wf_pairing s"
      using wf_send_pairings [OF s1] by simp
    then have "pairings s' + 1 = pairings s"
      using set_phase_pairings [of i "s1\<lparr>wf_touch := False, wf_errors := 0\<rparr>" SC_FAILED] assms(3,4) by (simp add: s')
    then show ?thesis using assms(2) by (auto simp: pairing_inv_def of_bool_def split: if_splits)
  qed
qed

lemma task_pairing_inv:
  assumes "smartconfig_start_task e i s = Some s'" "pairing_inv s"
  shows "pairing_inv s'"
proof (cases "i < length (wf_pairing s)")
  case i: True
  show ?thesis
  proof (cases "wf_pairing s ! i")
    case SC_STARTING
    define s1 where "s1 = sdk_calls (pe_fails e) [(True, WfScType), (True, WfScStart)] s"
    have "wf_pairing s1 = wf_pairing s" "pairings s1 = pairings s" "wf_touch s1 = wf_touch s"
      by (simp_all only: s1_def sdk_calls_frame pairings_frame)
    moreover have "s' = set_phase i SC_WAITING s1"
      using assms(1) i SC_STARTING by (simp add: smartconfig_start_task_def s1_def del: sdk_calls.simps)
    moreover have "wf_touch (set_phase i SC_WAITING s1) = wf_touch s1" by (simp add: set_phase_def)
    ultimately show ?thesis using assms(2) i SC_STARTING set_phase_pairings [of i s1 SC_WAITING] by (simp add: pairing_inv_def)
  next
    case SC_WAITING
    with assms i show ?thesis by (intro wait_pairing_inv [of e i s s']) (simp_all add: smartconfig_start_task_def)
  next
    case SC_FAILED
    define s1 where
      "s1 = sdk_calls (pe_fails e) [(False, WfRestore), (True, WfSetMode), (False, WfStart), (False, WfSetPs)] s"
    have s1: "wf_pairing s1 = wf_pairing s" "pairings s1 = pairings s" "wf_touch s1 = wf_touch s"
      by (simp_all only: s1_def sdk_calls_frame pairings_frame)
    have "s' = s1 \<or> (\<exists>r s2. wifi_reconnection (pe_fails e) (pe_card e) s1 = Some (r, s2) \<and> s' = end_task i s2)"
      using assms(1) i SC_FAILED
      by (auto simp: smartconfig_start_task_def ub_simps s1_def [symmetric] Let_def simp del: sdk_calls.simps split: if_splits)
    then show ?thesis
    proof (elim disjE exE conjE)
      assume "s' = s1" then show ?thesis using assms(2) s1 by (simp add: pairing_inv_def)
    next
      fix r s2 assume r: "wifi_reconnection (pe_fails e) (pe_card e) s1 = Some (r, s2)" and s': "s' = end_task i s2"
      from reconnection_pairings [OF r] s1 have s2: "pairings s2 = pairings s" "wf_pairing s2 = wf_pairing s" "wf_touch s2 = wf_touch s"
        by simp_all
      have "pairings s' = pairings s" using end_task_pairings [of i s2] s2 i SC_FAILED by (simp add: s')
      then show ?thesis using assms(2) s2 by (simp add: s' pairing_inv_def end_task_def)
    qed
  qed
qed (use assms in \<open>simp add: smartconfig_start_task_def\<close>)

lemma step_pairing_inv: "wifi_step i s = Some s' \<Longrightarrow> pairing_inv s \<Longrightarrow> pairing_inv s'"
  by (auto simp: wifi_step_def split: if_splits wifi_input.splits
      intro: event_pairing_inv callback_pairing_inv key_pairing_inv manager_pairing_inv task_pairing_inv)

lemma run_pairing_inv: "run_opt wifi_step is s = Some s' \<Longrightarrow> pairing_inv s \<Longrightarrow> pairing_inv s'"
  by (induction "is" arbitrary: s) (auto simp: ub_simps dest: step_pairing_inv)

lemma init_pairing_inv: "pairing_inv (smart_connect_init factory sd f)"
  by (simp add: smart_connect_init_def pairing_inv_def pairings_def wifi_zero_def Let_def)

section \<open>The file of the network\<close>

lemma strstr_crlf:
  assumes "CHR 0x0A \<notin> set v"
  shows "strstr (v @ crlf @ b) crlf = Some (crlf @ b)"
proof (rule strstr_first, intro allI impI)
  fix k assume k: "k < length v"
  show "take (length crlf) (drop k (v @ crlf @ b)) \<noteq> crlf"
  proof
    assume "take (length crlf) (drop k (v @ crlf @ b)) = crlf"
    then have "take (length crlf) (drop k (v @ crlf @ b)) ! 1 = CHR 0x0A" by simp
    then have "(v @ crlf @ b) ! (k + 1) = CHR 0x0A" using k by (simp add: nth_append split: if_splits)
    then show False using assms k using nth_mem [of "Suc k" v] by (cases "k + 1 < length v") (auto simp: nth_append)
  qed
qed

lemma strstr_at_start: "strstr (pat @ b) pat = Some (pat @ b)"
  using strstr_first [of "[]" pat b] by simp

lemma fgets_line:
  assumes "CHR 0x0A \<notin> set l" "length l + 2 < n"
  shows "fgets n (l @ crlf @ b) = Some (l @ crlf, b)"
proof -
  have l: "takeWhile (\<lambda>c. c \<noteq> CHR 0x0A) (l @ crlf @ b) = l @ [CHR 0x0D]"
    using assms(1) by (subst takeWhile_append2) auto
  moreover have "min (n - 1) (length l + 2) = length l + 2" using assms(2) by simp
  ultimately show ?thesis by (simp add: fgets_def Let_def)
qed

lemma value_is_read:
  assumes "CHR 0x0A \<notin> set (tag @ v)" "NUL \<notin> set (tag @ v)" "length tag + length v + 2 < READ_SIZE" "length v < n"
  shows "get_storage_value tag (tag @ v @ crlf @ b) old n = (Some (overlay v old), b)"
proof -
  have "fgets READ_SIZE (tag @ v @ crlf @ b) = Some (tag @ v @ crlf, b)"
    using fgets_line [of "tag @ v" READ_SIZE b] assms by simp
  moreover have "takeWhile (\<lambda>c. c \<noteq> NUL) (tag @ v @ crlf) = tag @ v @ crlf"
    using assms(2) by (subst takeWhile_eq_all_conv) auto
  moreover have "strstr (v @ crlf) crlf = Some crlf" using strstr_crlf [of v "[]"] assms(1) by simp
  ultimately show ?thesis using assms(4) by (simp add: get_storage_value_def strstr_at_start Let_def)
qed

text \<open>Texts that fit into the arrays and into their lines.\<close>

definition network_ok :: "string \<Rightarrow> string \<Rightarrow> bool" where
  "network_ok ssid pswd \<longleftrightarrow> length ssid < STA_SSID_SIZE \<and> length pswd < PSWD_SIZE \<and>
     set (ssid @ pswd) \<inter> {NUL, CHR 0x0A} = {}"

lemma network_roundtrip:
  assumes "network_ok ssid pswd" "wf_file s = Some (network_text ssid pswd)"
  shows "get_storage_wifi_ssid_pswd (True # sd) s =
    s\<lparr>wf_saved_ssid := overlay ssid (wf_saved_ssid s), wf_saved_pswd := overlay pswd (wf_saved_pswd s)\<rparr>"
proof -
  have "get_storage_value SSID_TAG (SSID_TAG @ ssid @ crlf @ PSWD_TAG @ pswd @ crlf) (wf_saved_ssid s) SSID_SIZE =
      (Some (overlay ssid (wf_saved_ssid s)), PSWD_TAG @ pswd @ crlf)"
    using assms(1) by (intro value_is_read) (auto simp: network_ok_def)
  moreover have "get_storage_value PSWD_TAG (PSWD_TAG @ pswd @ crlf @ []) (wf_saved_pswd s) PSWD_SIZE =
      (Some (overlay pswd (wf_saved_pswd s)), [])"
    using assms(1) by (intro value_is_read) (auto simp: network_ok_def)
  ultimately show ?thesis
    using assms(2) by (simp add: get_storage_wifi_ssid_pswd_def network_text_def numeral_2_eq_2)
qed

lemma overlay_Nil [simp]: "overlay v [] = v"
  by (simp add: overlay_def)

text \<open>Only a new network changes the network that is going to be saved.\<close>

definition is_link :: "wifi_input \<Rightarrow> bool" where
  "is_link i = (case i of WfSc _ (SC_STATUS_LINK _ _) \<Rightarrow> True | _ \<Rightarrow> False)"

abbreviation temp_network :: "wifi \<Rightarrow> string \<times> string" where
  "temp_network s \<equiv> (wf_temp_ssid s, wf_temp_pswd s)"

lemma wf_send_frame:
  "wf_send b st s = Some s' \<Longrightarrow> \<exists>q. s' = s\<lparr>wf_queue := q\<rparr>"
  by (auto simp: wf_send_def split: if_splits)

lemma record_queue: "\<exists>q. s = s\<lparr>wf_queue := q\<rparr>" for s :: wifi
  by (rule exI [of _ "wf_queue s"]) simp

lemma maybe_send: "(if c then wf_send b st s else Some s) = Some s' \<Longrightarrow> \<exists>q. s' = s\<lparr>wf_queue := q\<rparr>"
  using record_queue [of s] by (cases c) (auto dest: wf_send_frame)

lemma reconnection_temp: "wifi_reconnection fails sd s = Some (r, s') \<Longrightarrow> temp_network s' = temp_network s"
  by (auto simp: wifi_reconnection_def ub_simps Let_def simp del: sdk_calls.simps)

lemma start_form:
  assumes "sta_start fails s = Some s'"
  shows "\<exists>cs q e. s' = (sdk_calls fails cs s)\<lparr>wf_queue := q, wf_errors := e\<rparr>"
proof -
  from assms obtain s1 where
      s1: "(if wf_saved_ssid s \<noteq> [] \<and> \<not> wf_touch s then
              Option.bind (saved_config s) (\<lambda>cfg.
                let s1 = sdk_calls fails [(True, cfg), (False, WfConnect)] s
                in if wf_alive s1 then wf_send False WIFI_STATUS_STARTCONNECT s1 else Some s1)
            else if \<not> wf_touch s \<and> wf_saved_ssid s = [] then wf_send False WIFI_STATUS_PLEASECONNECT s
            else Some s) = Some s1"
    and s': "s' = (if wf_alive s1 then s1\<lparr>wf_errors := 0\<rparr> else s1)"
    by (auto simp only: sta_start_def ub_simps option.inject)
  have "\<exists>cs q. s1 = (sdk_calls fails cs s)\<lparr>wf_queue := q\<rparr>"
  proof (cases "wf_saved_ssid s \<noteq> [] \<and> \<not> wf_touch s")
    case True
    with s1 obtain cfg where "(if wf_alive (sdk_calls fails [(True, cfg), (False, WfConnect)] s)
        then wf_send False WIFI_STATUS_STARTCONNECT (sdk_calls fails [(True, cfg), (False, WfConnect)] s)
        else Some (sdk_calls fails [(True, cfg), (False, WfConnect)] s)) = Some s1"
      by (auto simp only: ub_simps Let_def if_True simp_thms)
    from maybe_send [OF this] show ?thesis by blast
  next
    case False
    then have "(if \<not> wf_touch s \<and> wf_saved_ssid s = [] then wf_send False WIFI_STATUS_PLEASECONNECT s else Some s) = Some s1"
      using s1 by (simp only: if_False split: if_splits)
    from maybe_send [OF this] have "\<exists>q. s1 = (sdk_calls fails [] s)\<lparr>wf_queue := q\<rparr>" by simp
    then show ?thesis by blast
  qed
  then obtain cs q where "s1 = (sdk_calls fails cs s)\<lparr>wf_queue := q\<rparr>" by blast
  then have "s' = (sdk_calls fails cs s)\<lparr>wf_queue := q, wf_errors := wf_errors s'\<rparr>" by (simp add: s' del: sdk_calls.simps)
  then show ?thesis by blast
qed

lemma start_temp: "sta_start fails s = Some s' \<Longrightarrow> temp_network s' = temp_network s"
  by (auto simp del: sdk_calls.simps dest!: start_form)

lemma disconnected_temp: "sta_disconnected fails sd s = Some s' \<Longrightarrow> temp_network s' = temp_network s"
  by (auto simp: sta_disconnected_def ub_simps Let_def split: if_splits dest!: wf_send_frame reconnection_temp)

lemma event_temp: "wifi_net_event_handler fails sd event s = Some s' \<Longrightarrow> temp_network s' = temp_network s"
  by (cases event) (auto simp: wifi_net_event_handler_def ub_simps split: if_splits
      dest!: wf_send_frame dest: start_temp disconnected_temp)

lemma key_temp: "esp_touch_keyprocess event s = Some s' \<Longrightarrow> temp_network s' = temp_network s"
  by (auto simp: esp_touch_keyprocess_def touch_request_def split: if_splits dest!: wf_send_frame)

lemma manager_temp: "manager_connect_task created s = Some s' \<Longrightarrow> temp_network s' = temp_network s"
  by (auto simp: manager_connect_task_def manager_receive_def manager_handle_def ub_simps
      split: option.splits list.splits wifi_manage_status.splits if_splits dest!: wf_send_frame)

lemma save_temp: "save_wifi_ssid_pswd opened n s = Some s' \<Longrightarrow> temp_network s' = temp_network s"
  by (auto simp: save_wifi_ssid_pswd_def ub_simps split: if_splits)

lemma wait_temp: "smartconfig_wait e i s = Some s' \<Longrightarrow> temp_network s' = temp_network s"
  by (auto simp: smartconfig_wait_def ub_simps Let_def end_task_def set_phase_def split: if_splits
      dest!: wf_send_frame save_temp)

lemma task_temp: "smartconfig_start_task e i s = Some s' \<Longrightarrow> temp_network s' = temp_network s"
  by (auto simp: smartconfig_start_task_def ub_simps Let_def end_task_def set_phase_def simp del: sdk_calls.simps
      split: if_splits sc_phase.splits dest!: wait_temp reconnection_temp)

lemma step_temp: "wifi_step i s = Some s' \<Longrightarrow> \<not> is_link i \<Longrightarrow> temp_network s' = temp_network s"
proof (cases i)
  case (WfSc fails status)
  assume "wifi_step i s = Some s'" "\<not> is_link i"
  with WfSc show ?thesis
    by (cases status) (auto simp: wifi_step_def sc_callback_def is_link_def split: if_splits option.splits)
qed (auto simp: wifi_step_def split: if_splits dest: event_temp key_temp manager_temp task_temp)

lemma run_temp: "run_opt wifi_step is s = Some s' \<Longrightarrow> \<forall>i\<in>set is. \<not> is_link i \<Longrightarrow> temp_network s' = temp_network s"
  by (induction "is" arbitrary: s) (auto simp: ub_simps dest!: step_temp)

lemma link_temp:
  assumes "wifi_step (WfSc fails (SC_STATUS_LINK ssid pswd)) s = Some s'" "wf_alive s"
  shows "temp_network s' = (ssid, pswd)"
  using assms by (auto simp: wifi_step_def sc_callback_def ub_simps c_str_def simp del: sdk_calls.simps split: if_splits)

section \<open>Always defined\<close>

text \<open>What a file gives as the name of the network fits.\<close>

definition name_fits :: "string option \<Rightarrow> bool" where
  "name_fits f \<longleftrightarrow> (case f of None \<Rightarrow> True
     | Some t \<Rightarrow> (case fst (get_storage_value SSID_TAG t [] SSID_SIZE) of None \<Rightarrow> True | Some v \<Rightarrow> length v \<le> STA_SSID_SIZE))"

definition wifi_inv :: "wifi \<Rightarrow> bool" where
  "wifi_inv s \<longleftrightarrow> length (wf_saved_ssid s) \<le> STA_SSID_SIZE \<and> length (wf_saved_pswd s) < PSWD_SIZE \<and>
     length (wf_temp_ssid s) < STA_SSID_SIZE \<and> length (wf_temp_pswd s) < PSWD_SIZE \<and> name_fits (wf_file s)"

text \<open>The queue has room for a sender; what the phone sends fits into the arrays of the firmware.\<close>

definition wifi_ok :: "wifi_input \<Rightarrow> wifi \<Rightarrow> bool" where
  "wifi_ok i s \<longleftrightarrow>
     (case i of
        WfEvent _ _ (SYSTEM_EVENT_STA_CONNECTED _ ssid n) \<Rightarrow> n \<le> 32 \<and> n \<le> length ssid
      | WfSc _ (SC_STATUS_LINK ssid pswd) \<Rightarrow> length ssid < STA_SSID_SIZE \<and> length pswd < PSWD_SIZE
      | WfManage _ \<Rightarrow> wf_current s = None \<or> length (wf_queue s) < CONNECT_QUEUE_SIZE
      | _ \<Rightarrow> length (wf_queue s) < CONNECT_QUEUE_SIZE)"

lemma overlay_length [simp]: "length (overlay v old) = max (length v) (length old)"
  by (simp add: overlay_def)

lemma value_overlay:
  "get_storage_value tag t old n =
    (map_option (\<lambda>v. overlay v old) (fst (get_storage_value tag t [] n)), snd (get_storage_value tag t [] n))"
  by (simp add: get_storage_value_def Let_def split: option.split prod.split)

lemma value_limit: "fst (get_storage_value tag t [] n) = Some v \<Longrightarrow> length v < n"
  by (auto simp: get_storage_value_def Let_def split: option.splits prod.splits if_splits)

lemma open_tries_file: "open_tries n sd f = Some t \<Longrightarrow> f = Some t"
  by (induction n sd f rule: open_tries.induct) (auto split: if_splits)

lemma get_storage_inv: "wifi_inv s \<Longrightarrow> wifi_inv (get_storage_wifi_ssid_pswd sd s)"
proof -
  assume inv: "wifi_inv s"
  show ?thesis
  proof (cases "open_tries 2 sd (wf_file s)")
    case (Some t)
    have f: "wf_file s = Some t" by (rule open_tries_file [OF Some])
    define r where "r = get_storage_value SSID_TAG t [] SSID_SIZE"
    define r2 where "r2 = get_storage_value PSWD_TAG (snd r) [] PSWD_SIZE"
    have "fst r = Some v \<Longrightarrow> length v \<le> STA_SSID_SIZE" for v
      using inv f by (auto simp: wifi_inv_def name_fits_def r_def)
    moreover have "fst r2 = Some v \<Longrightarrow> length v < PSWD_SIZE" for v using value_limit by (simp add: r2_def)
    moreover have "get_storage_wifi_ssid_pswd sd s = (case fst r of None \<Rightarrow> s | Some v \<Rightarrow>
        (case fst r2 of None \<Rightarrow> s\<lparr>wf_saved_ssid := [], wf_saved_pswd := []\<rparr>
         | Some w \<Rightarrow> s\<lparr>wf_saved_ssid := overlay v (wf_saved_ssid s), wf_saved_pswd := overlay w (wf_saved_pswd s)\<rparr>))"
      using value_overlay [of SSID_TAG t "wf_saved_ssid s" SSID_SIZE] value_overlay [of PSWD_TAG "snd r" "wf_saved_pswd s" PSWD_SIZE]
      by (auto simp: get_storage_wifi_ssid_pswd_def Some r_def r2_def split: option.splits)
    ultimately show ?thesis using inv by (auto simp: wifi_inv_def split: option.split)
  qed (use inv in \<open>simp add: get_storage_wifi_ssid_pswd_def\<close>)
qed

text \<open>A value that is cut out of a line is no longer than what was written into it.\<close>

lemma strstr_min_length: "strstr s pat = Some t \<Longrightarrow> length pat \<le> length t"
proof (induction s pat rule: strstr.induct)
  case (2 c cs pat)
  show ?case
  proof (cases "take (length pat) (c # cs) = pat")
    case True
    then have "min (length (c # cs)) (length pat) = length pat" by (metis length_take)
    with True 2 show ?thesis by (simp add: min_def split: if_splits)
  next
    case False
    with 2 show ?thesis by simp
  qed
qed (simp split: if_splits)

lemma first_line_length:
  "length (takeWhile (\<lambda>c. c \<noteq> CHR 0x0A) (take n (a @ crlf @ b))) \<le> length a + 1"
proof -
  have "length (takeWhile P (take n xs)) \<le> length (takeWhile P xs)" for P and xs :: string
    by (induction xs arbitrary: n) (auto simp: take_Cons split: nat.split)
  moreover have "length (takeWhile (\<lambda>c. c \<noteq> CHR 0x0A) (a @ crlf @ b)) \<le> length a + 1"
    by (induction a) auto
  ultimately show ?thesis using order_trans by blast
qed

lemma value_parts:
  assumes "fst (get_storage_value tag t [] n) = Some v"
  shows "\<exists>line rest p q. fgets READ_SIZE t = Some (line, rest) \<and> strstr (takeWhile (\<lambda>c. c \<noteq> NUL) line) tag = Some p \<and>
    strstr (drop (length tag) p) crlf = Some q \<and> v = take (length p - length tag - length q) (drop (length tag) p)"
  using assms by (auto simp: get_storage_value_def Let_def split: option.splits prod.splits if_splits)

lemma saved_name_fits:
  assumes "length ssid < STA_SSID_SIZE"
  shows "name_fits (Some (take n (network_text ssid pswd)))"
proof -
  define t where "t = take n (network_text ssid pswd)"
  have tw: "length (takeWhile (\<lambda>c. c \<noteq> CHR 0x0A) t) \<le> length ssid + 6"
    using first_line_length [of n "SSID_TAG @ ssid" "PSWD_TAG @ pswd @ crlf"] by (simp add: t_def network_text_def)
  have "length v \<le> length ssid" if "fst (get_storage_value SSID_TAG t [] SSID_SIZE) = Some v" for v
  proof -
    from that obtain line rest p q where line: "fgets READ_SIZE t = Some (line, rest)"
      and p: "strstr (takeWhile (\<lambda>c. c \<noteq> NUL) line) SSID_TAG = Some p"
      and q: "strstr (drop (length SSID_TAG) p) crlf = Some q"
      and v: "v = take (length p - length SSID_TAG - length q) (drop (length SSID_TAG) p)"
      using value_parts by blast
    have "length line \<le> length ssid + 7" using line tw by (auto simp: fgets_def Let_def split: if_splits)
    moreover have "length p \<le> length line"
      using strstr_length [OF p] length_takeWhile_le [of "\<lambda>c. c \<noteq> NUL" line] by linarith
    moreover have "2 \<le> length q" using strstr_min_length [OF q] by simp
    ultimately show ?thesis by (simp add: v)
  qed
  then have "length v \<le> STA_SSID_SIZE" if "fst (get_storage_value SSID_TAG t [] SSID_SIZE) = Some v" for v
    using that assms by (meson less_imp_le_nat order_trans)
  then show ?thesis by (simp add: name_fits_def t_def [symmetric] split: option.split)
qed

lemma wf_send_room:
  "length (wf_queue s) < CONNECT_QUEUE_SIZE \<Longrightarrow> wifi_inv s \<Longrightarrow> \<exists>s'. wf_send b st s = Some s' \<and> wifi_inv s' \<and>
    wf_pairing s' = wf_pairing s"
  by (simp add: wf_send_def wifi_inv_def)

lemma wifi_inv_frame [simp]:
  "wifi_inv (s\<lparr>wf_connected := b\<rparr>) = wifi_inv s" "wifi_inv (s\<lparr>wf_errors := e\<rparr>) = wifi_inv s"
  "wifi_inv (s\<lparr>wf_connected_bit := b\<rparr>) = wifi_inv s" "wifi_inv (s\<lparr>wf_done_bit := b\<rparr>) = wifi_inv s"
  "wifi_inv (s\<lparr>wf_touch := b\<rparr>) = wifi_inv s" "wifi_inv (s\<lparr>wf_bssid := x\<rparr>) = wifi_inv s" "wifi_inv (s\<lparr>wf_ssid := x\<rparr>) = wifi_inv s"
  "wifi_inv (s\<lparr>wf_ssid_len := n\<rparr>) = wifi_inv s" "wifi_inv (s\<lparr>wf_phone_ip := x\<rparr>) = wifi_inv s"
  "wifi_inv (s\<lparr>wf_up_stamp := t\<rparr>) = wifi_inv s" "wifi_inv (s\<lparr>wf_down_stamp := t\<rparr>) = wifi_inv s"
  "wifi_inv (s\<lparr>wf_current := m\<rparr>) = wifi_inv s" "wifi_inv (s\<lparr>wf_queue := q\<rparr>) = wifi_inv s"
  "wifi_inv (s\<lparr>wf_pairing := ps\<rparr>) = wifi_inv s" "wifi_inv (sdk_calls fails cs s) = wifi_inv s"
  "wifi_inv (wf_emit c s) = wifi_inv s" "wifi_inv (forget_ap s) = wifi_inv s"
  "wifi_inv (end_task i s) = wifi_inv s" "wifi_inv (set_phase i p s) = wifi_inv s"
  by (simp_all add: wifi_inv_def end_task_def set_phase_def del: sdk_calls.simps)

lemma saved_config_defined: "wifi_inv s \<Longrightarrow> \<exists>c. saved_config s = Some c"
  by (simp add: saved_config_def wifi_inv_def)

lemma reconnection_safe: "wifi_inv s \<Longrightarrow> \<exists>r s'. wifi_reconnection fails sd s = Some (r, s') \<and> wifi_inv s'"
  using get_storage_inv [of s sd] saved_config_defined [of "get_storage_wifi_ssid_pswd sd s"]
  by (auto simp: wifi_reconnection_def Let_def simp del: sdk_calls.simps)

lemma start_safe:
  assumes "wifi_inv s" "length (wf_queue s) < CONNECT_QUEUE_SIZE"
  shows "\<exists>s'. sta_start fails s = Some s' \<and> wifi_inv s'"
proof -
  obtain c where c: "saved_config s = Some c" using saved_config_defined [OF assms(1)] by blast
  define s1 where "s1 = sdk_calls fails [(True, c), (False, WfConnect)] s"
  have s1: "wifi_inv s1" "length (wf_queue s1) < CONNECT_QUEUE_SIZE" using assms by (simp_all add: s1_def del: sdk_calls.simps)
  show ?thesis
    using wf_send_room [OF s1(2) s1(1), of False WIFI_STATUS_STARTCONNECT]
      wf_send_room [OF assms(2) assms(1), of False WIFI_STATUS_PLEASECONNECT] assms(1) s1(1)
    by (auto simp: sta_start_def c s1_def [symmetric] Let_def simp del: sdk_calls.simps)
qed

lemma disconnected_safe:
  assumes "wifi_inv s" "length (wf_queue s) < CONNECT_QUEUE_SIZE"
  shows "\<exists>s'. sta_disconnected fails sd s = Some s' \<and> wifi_inv s'"
proof -
  define s1 where "s1 = forget_ap (if wf_connected s then wf_emit WfServerStatus s else s)"
  have s1: "wifi_inv s1" "length (wf_queue s1) < CONNECT_QUEUE_SIZE" using assms by (simp_all add: s1_def)
  have "\<exists>s2. (if wf_errors s1 = RETRY_COUNT
      then wf_send False WIFI_STATUS_DISCONNECT (if wf_touch s1 then s1\<lparr>wf_done_bit := True\<rparr> else s1) else Some s1) = Some s2
      \<and> wifi_inv s2"
    using s1 wf_send_room [of "if wf_touch s1 then s1\<lparr>wf_done_bit := True\<rparr> else s1" False WIFI_STATUS_DISCONNECT] by auto
  then obtain s2 where s2: "(if wf_errors s1 = RETRY_COUNT
      then wf_send False WIFI_STATUS_DISCONNECT (if wf_touch s1 then s1\<lparr>wf_done_bit := True\<rparr> else s1) else Some s1) = Some s2"
    and inv2: "wifi_inv s2" by blast
  obtain r s4 where "wifi_reconnection fails sd (s2\<lparr>wf_errors := wf_errors s2 + 1\<rparr>) = Some (r, s4)" "wifi_inv s4"
    using reconnection_safe [of "s2\<lparr>wf_errors := wf_errors s2 + 1\<rparr>" fails sd] inv2 by auto
  with inv2 show ?thesis by (auto simp: sta_disconnected_def s1_def [symmetric] s2 Let_def)
qed

lemma event_safe:
  assumes "wifi_inv s" "wifi_ok (WfEvent fails sd event) s"
  shows "\<exists>s'. wifi_net_event_handler fails sd event s = Some s' \<and> wifi_inv s'"
proof (cases event)
  case SYSTEM_EVENT_STA_START
  with assms show ?thesis using start_safe [of s fails] by (simp add: wifi_net_event_handler_def wifi_ok_def)
next
  case SYSTEM_EVENT_STA_GOT_IP
  with assms wf_send_room [of "s\<lparr>wf_connected := True, wf_connected_bit := True\<rparr>" False WIFI_STATUS_CONNECT] show ?thesis
    by (auto simp: wifi_net_event_handler_def wifi_ok_def)
next
  case (SYSTEM_EVENT_STA_DISCONNECTED reason)
  with assms show ?thesis using disconnected_safe [of s fails sd] by (simp add: wifi_net_event_handler_def wifi_ok_def)
next
  case SYSTEM_EVENT_STA_STOP
  have "wifi_inv ((forget_ap s)\<lparr>wf_saved_ssid := [], wf_saved_pswd := [], wf_errors := 0, wf_connected_bit := False\<rparr>)"
    using assms(1) by (simp add: wifi_inv_def)
  with SYSTEM_EVENT_STA_STOP show ?thesis by (simp add: wifi_net_event_handler_def)
qed (use assms in \<open>auto simp: wifi_net_event_handler_def wifi_ok_def\<close>)

lemma callback_safe:
  assumes "wifi_inv s" "wifi_ok (WfSc fails status) s"
  shows "\<exists>s'. sc_callback fails status s = Some s' \<and> wifi_inv s'"
proof (cases status)
  case (SC_STATUS_LINK ssid pswd)
  have "wifi_inv (s\<lparr>wf_temp_ssid := ssid, wf_temp_pswd := pswd, wf_phone_ip := replicate 4 NUL\<rparr>)"
    using assms SC_STATUS_LINK by (simp add: wifi_inv_def wifi_ok_def)
  with assms SC_STATUS_LINK show ?thesis by (simp add: sc_callback_def wifi_ok_def c_str_def del: sdk_calls.simps)
qed (use assms in \<open>auto simp: sc_callback_def split: option.split\<close>)

lemma key_safe:
  assumes "wifi_inv s" "length (wf_queue s) < CONNECT_QUEUE_SIZE"
  shows "\<exists>s'. esp_touch_keyprocess event s = Some s' \<and> wifi_inv s'"
proof -
  have "\<exists>s'. touch_request s1 = Some s' \<and> wifi_inv s'" if "wifi_inv s1" "length (wf_queue s1) < CONNECT_QUEUE_SIZE" for s1
    using that wf_send_room [of "s1\<lparr>wf_touch := True\<rparr>" True WIFI_STATUS_NONE] by (auto simp: touch_request_def)
  then show ?thesis using assms by (auto simp: esp_touch_keyprocess_def)
qed

lemma manager_safe:
  assumes "wifi_inv s" "wf_current s = None \<or> length (wf_queue s) < CONNECT_QUEUE_SIZE"
  shows "\<exists>s'. manager_connect_task created s = Some s' \<and> wifi_inv s'"
proof (cases "wf_current s")
  case None
  with assms show ?thesis by (auto simp: manager_connect_task_def manager_receive_def split: list.split)
next
  case (Some m)
  with assms wf_send_room [of "wf_emit WfDisconnect (s\<lparr>wf_connected := False\<rparr>)" False WIFI_STATUS_SMARTCONFIG]
  show ?thesis by (auto simp: manager_connect_task_def manager_handle_def split: wifi_manage_status.split)
qed

lemma save_safe: "wifi_inv s \<Longrightarrow> \<exists>s'. save_wifi_ssid_pswd opened n s = Some s' \<and> wifi_inv s' \<and> wf_pairing s' = wf_pairing s"
  using saved_name_fits [of "wf_temp_ssid s" n "wf_temp_pswd s"]
  by (auto simp: save_wifi_ssid_pswd_def wifi_inv_def c_str_def network_text_def)

lemma wait_safe:
  assumes "wifi_inv s" "length (wf_queue s) < CONNECT_QUEUE_SIZE"
  shows "\<exists>s'. smartconfig_wait e i s = Some s' \<and> wifi_inv s'"
  using assms save_safe [of "wf_emit WfScStop (s\<lparr>wf_connected_bit := False, wf_done_bit := False\<rparr>)" "pe_opened e" "pe_written e"]
    wf_send_room [of "wf_emit WfScStop s" False WIFI_STATUS_SMARTCONFIGFAIL]
  by (auto simp: smartconfig_wait_def Let_def)

lemma task_safe:
  assumes "wifi_inv s" "length (wf_queue s) < CONNECT_QUEUE_SIZE"
  shows "\<exists>s'. smartconfig_start_task e i s = Some s' \<and> wifi_inv s'"
proof -
  define s1 where
    "s1 = sdk_calls (pe_fails e) [(False, WfRestore), (True, WfSetMode), (False, WfStart), (False, WfSetPs)] s"
  have "wifi_inv s1" using assms(1) by (simp add: s1_def del: sdk_calls.simps)
  then show ?thesis
    using assms wait_safe [of s e i] reconnection_safe [of s1 "pe_fails e" "pe_card e"]
    by (auto simp: smartconfig_start_task_def s1_def [symmetric] Let_def simp del: sdk_calls.simps split: sc_phase.split)
qed

interpretation wifi: safe_machine wifi_step wifi_inv wifi_ok
proof
  fix s i assume "wifi_inv s" "wifi_ok i s"
  then show "\<exists>s'. wifi_step i s = Some s' \<and> wifi_inv s'"
    using event_safe [of s] callback_safe [of s] key_safe [of s] manager_safe [of s] task_safe [of s]
    by (cases i) (auto simp: wifi_step_def wifi_ok_def)
qed

lemma init_wifi_inv: "name_fits f \<Longrightarrow> wifi_inv (smart_connect_init factory sd f)"
proof -
  assume f: "name_fits f"
  then have "wifi_inv (wifi_zero factory f)" for factory by (simp add: wifi_inv_def wifi_zero_def)
  then have "wifi_inv (get_storage_wifi_ssid_pswd sd (wifi_zero False f))" by (rule get_storage_inv)
  with f show ?thesis by (simp add: smart_connect_init_def wifi_inv_def wifi_zero_def Let_def)
qed

definition wifi_starts :: "wifi set" where
  "wifi_starts = {smart_connect_init factory sd f | factory sd f. name_fits f}"

lemma reach_pairing: "reach wifi_step wifi_ok wifi_starts s \<Longrightarrow> pairing_inv s"
  by (induction rule: reach.induct) (auto simp: wifi_starts_def init_pairing_inv dest: step_pairing_inv)

section \<open>Properties\<close>

definition no_failure :: "wifi_call \<Rightarrow> bool" where
  "no_failure c = False"

definition vol_press :: "nat \<Rightarrow> keyevent_t" where
  "vol_press k = \<lparr>ke_code = k, ke_type = KEY_EVNET_PRESS, ke_timestamp = \<lparr>tv_sec = 100, tv_usec = 0\<rparr>\<rparr>"


definition wit_pressed :: wifi where
  "wit_pressed = (wifi_zero False None)\<lparr>wf_touch := True, wf_up_stamp := \<lparr>tv_sec = 100, tv_usec = 0\<rparr>,
     wf_down_stamp := \<lparr>tv_sec = 100, tv_usec = 0\<rparr>, wf_queue := [\<lparr>mc_start_esp_touch = True, mc_wifi_status = WIFI_STATUS_NONE\<rparr>]\<rparr>"

lemma wit_pressed_reached: "reach wifi_step wifi_ok wifi_starts wit_pressed"
proof -
  let ?s0 = "smart_connect_init False [] None"
  let ?s1 = "?s0\<lparr>wf_up_stamp := \<lparr>tv_sec = 100, tv_usec = 0\<rparr>\<rparr>"
  have "?s0 \<in> wifi_starts"
    unfolding wifi_starts_def by (intro CollectI exI [of _ False] exI [of _ "[]"] exI [of _ None]) (simp add: name_fits_def)
  then have "reach wifi_step wifi_ok wifi_starts ?s0" by (rule reach_init)
  then have "reach wifi_step wifi_ok wifi_starts ?s1"
    by (rule reach_step [where i = "WfKey (vol_press 1)"])
      (simp_all add: wifi_ok_def wifi_step_def smart_connect_init_def get_storage_wifi_ssid_pswd_def numeral_2_eq_2 wifi_zero_def
        esp_touch_keyprocess_def vol_press_def touch_request_def esp_touch_abs_def ms_def zero_time_def Let_def)
  then show ?thesis
    by (rule reach_step [where i = "WfKey (vol_press 2)"])
      (simp_all add: wifi_ok_def wifi_step_def smart_connect_init_def get_storage_wifi_ssid_pswd_def numeral_2_eq_2 wifi_zero_def
        esp_touch_keyprocess_def vol_press_def touch_request_def esp_touch_abs_def ms_def zero_time_def wit_pressed_def wf_send_def Let_def)
qed


text \<open>C4: When a phone has sent a network and the device got into it, the pairing task stores it, whatever happened between, and the
  next start of the device connects to this network.
\<close>

theorem network_survives_restart:
  assumes "network_ok ssid pswd" "ssid \<noteq> []" "wf_alive s" "wifi_step (WfSc fails (SC_STATUS_LINK ssid pswd)) s = Some s1"
    and "run_opt wifi_step steps s1 = Some s2" "\<forall>i\<in>set steps. \<not> is_link i"
    and "wf_alive s2" "wf_connected s2" "wf_done_bit s2" "n < length (wf_pairing s2)" "wf_pairing s2 ! n = SC_WAITING"
    and "pe_opened e" "length (network_text ssid pswd) \<le> pe_written e"
  shows "\<exists>s3. wifi_step (WfPairing e n) s2 = Some s3 \<and> \<not> wf_touch s3 \<and>
    (\<exists>s4. wifi_step (WfEvent no_failure [] SYSTEM_EVENT_STA_START) (smart_connect_init False (True # sd) (wf_file s3)) = Some s4 \<and>
      wf_trace s4 = [WfSetConfig ssid pswd, WfConnect])"
proof -
  have temp: "wf_temp_ssid s2 = ssid" "wf_temp_pswd s2 = pswd"
    using run_temp [OF assms(5,6)] link_temp [OF assms(4,3)] by simp_all
  have fits: "length (network_text ssid pswd) < READ_SIZE" using assms(1) by (simp add: network_text_def network_ok_def)
  define s3 where "s3 = end_task n ((wf_emit WfScStop (s2\<lparr>wf_connected_bit := False, wf_done_bit := False\<rparr>))
    \<lparr>wf_file := Some (network_text ssid pswd), wf_touch := False\<rparr>)"
  have s3: "wifi_step (WfPairing e n) s2 = Some s3"
    using assms(7-13) fits temp
    by (simp add: wifi_step_def smartconfig_start_task_def smartconfig_wait_def save_wifi_ssid_pswd_def c_str_def s3_def Let_def)
  define s0 where "s0 = smart_connect_init False (True # sd) (wf_file s3)"
  have "s0 = (wifi_zero False (Some (network_text ssid pswd)))\<lparr>wf_saved_ssid := ssid, wf_saved_pswd := pswd\<rparr>"
    using network_roundtrip [OF assms(1), of "wifi_zero False (Some (network_text ssid pswd))" sd]
    by (simp add: s0_def s3_def end_task_def smart_connect_init_def wifi_zero_def)
  then have "\<exists>s4. wifi_step (WfEvent no_failure [] SYSTEM_EVENT_STA_START) s0 = Some s4 \<and> wf_trace s4 = [WfSetConfig ssid pswd, WfConnect]"
    using assms(1,2) by (simp add: wifi_step_def wifi_net_event_handler_def sta_start_def saved_config_def network_ok_def
        wifi_zero_def no_failure_def wf_emit_def wf_send_def Let_def)
  with s3 show ?thesis unfolding s0_def by (auto simp: s3_def end_task_def)
qed

definition wit_waiting :: wifi where
  "wit_waiting = (wifi_zero False None)\<lparr>wf_touch := True, wf_pairing := [SC_WAITING]\<rparr>"

definition wit_linked :: wifi where
  "wit_linked = the (wifi_step (WfSc no_failure (SC_STATUS_LINK ''Cafe'' ''espresso'')) wit_waiting)"

definition wit_over :: wifi where
  "wit_over = the (run_opt wifi_step
     [WfEvent no_failure [] SYSTEM_EVENT_STA_GOT_IP, WfSc no_failure (SC_STATUS_LINK_OVER None)] wit_linked)"

definition wit_stored :: pairing_env where
  "wit_stored = \<lparr>pe_fails = no_failure, pe_timeout = False, pe_opened = True, pe_written = 100, pe_card = []\<rparr>"

lemmas wit_network = wit_waiting_def wit_linked_def wit_over_def wit_stored_def wifi_zero_def wifi_step_def sc_callback_def
  c_str_def no_failure_def wf_emit_def wifi_net_event_handler_def wf_send_def

theorem network_survives_restart_witness:
  "\<exists>s3. wifi_step (WfPairing wit_stored 0) wit_over = Some s3 \<and> \<not> wf_touch s3 \<and>
    (\<exists>s4. wifi_step (WfEvent no_failure [] SYSTEM_EVENT_STA_START) (smart_connect_init False [True] (wf_file s3)) = Some s4 \<and>
      wf_trace s4 = [WfSetConfig ''Cafe'' ''espresso'', WfConnect])"
  by (rule network_survives_restart [where s = wit_waiting and fails = no_failure and ?s1.0 = wit_linked and sd = "[]"
        and steps = "[WfEvent no_failure [] SYSTEM_EVENT_STA_GOT_IP, WfSc no_failure (SC_STATUS_LINK_OVER None)]"])
    (simp_all add: wit_network network_ok_def is_link_def network_text_def)

section \<open>What goes wrong\<close>

text \<open>A password of 32 bytes, which WPA allows, is written behind its array.\<close>

lemma long_password_overruns: "length pswd = 32 \<Longrightarrow> sc_callback fails (SC_STATUS_LINK ssid pswd) s = None"
  by (simp add: sc_callback_def c_str_def)

text \<open>The end of a longer old name stays behind a shorter new one until the next start.\<close>

lemma old_name_stays:
  "wf_saved_ssid (get_storage_wifi_ssid_pswd [True]
     ((wifi_zero False (Some (network_text ''Cafe'' ''espresso'')))\<lparr>wf_saved_ssid := ''HomeNetwork''\<rparr>)) = ''CafeNetwork''"
  by (subst network_roundtrip [where ssid = "''Cafe''" and pswd = "''espresso''"])
    (simp_all add: network_ok_def wifi_zero_def overlay_def)

text \<open>The manager sends to the queue that only it empties: with five messages in it, it waits for itself.\<close>

lemma manager_waits_for_itself:
  "wf_current s = Some m \<Longrightarrow> asks_pairing m \<Longrightarrow> mc_wifi_status m = WIFI_STATUS_NONE \<Longrightarrow> length (wf_queue s) = 5 \<Longrightarrow>
    manager_connect_task created s = None"
  by (simp add: manager_connect_task_def manager_handle_def asks_pairing_def wf_send_def)

text \<open>When the task cannot be created, the keys stay blocked although nothing pairs.\<close>

lemma failed_task_blocks_keys:
  "\<exists>s. run_opt wifi_step [WfManage False, WfManage False] wit_pressed = Some s \<and> wf_touch s \<and> pairings s = 0"
  by (simp add: wit_pressed_def wifi_zero_def wifi_step_def manager_connect_task_def manager_receive_def manager_handle_def
      wf_send_def pairings_def asks_pairing_def wf_emit_def)

text \<open>A failure is told when ten came before it; the counter has eight bits, so that the next one is told after 256 more.\<close>

lemma failure_is_told:
  assumes "sta_disconnected fails sd s = Some s'"
  shows "wf_queue s' = wf_queue s @ (if wf_errors s = 10 then [\<lparr>mc_start_esp_touch = False, mc_wifi_status = WIFI_STATUS_DISCONNECT\<rparr>] else [])
    \<and> wf_errors s' = wf_errors s + 1"
  using assms
  by (auto simp: sta_disconnected_def ub_simps Let_def wf_send_def wifi_reconnection_def simp del: sdk_calls.simps split: if_splits)

end
