(* ===== verification/VolumeKeys.thy ===== *)
theory VolumeKeys
  imports Codec_Props SmartConnect_Props AudioManager
begin

text \<open>
  The volume keys, from the listener (\<open>audio_manager_keyprocess\<close> in \<open>sys/audio_manager/audio_manager.c\<close>) over the command in the
  audio manager to the codec, and the volume that the next start sets.

  \<^item> The listener shares its keys with the pairing of \<^theory_text>\<open>SmartConnect\<close>: both pressed together pair, one alone changes the volume.
  \<^item> \<open>vol_up\<close> and \<open>vol_down\<close> are those of \<^theory_text>\<open>AudioManager\<close>; there the codec is an environment, here it is \<^theory_text>\<open>Codec\<close>.
  \<^item> The set-up of the player library in \<open>audio_manager_init\<close> is not modelled.
\<close>

section \<open>The listener\<close>

datatype volume_request = VolumeUp | VolumeDown

record volume_keys =
  vk_up :: timeval
  vk_down :: timeval
  vk_sent :: "volume_request list"

definition vol_touch_abs :: "32 word \<Rightarrow> 32 word \<Rightarrow> int" where
  "vol_touch_abs a b = (if sint b < sint a then sint (a - b) else sint (b - a))"

definition volume_threshold :: "volume_keys \<Rightarrow> int" where
  "volume_threshold s = vol_touch_abs (ms (vk_up s)) (ms (vk_down s))"

definition audio_manager_keyprocess :: "bool \<Rightarrow> keyevent_t \<Rightarrow> volume_keys \<Rightarrow> volume_keys" where
  "audio_manager_keyprocess factory event s =
     (if factory \<and> (ke_code event = KEY_CODE_VOL_UP \<or> ke_code event = KEY_CODE_VOL_DOWN) then s
      else if ke_code event = KEY_CODE_VOL_UP then
        (case ke_type event of
           KEY_EVNET_PRESS \<Rightarrow> s\<lparr>vk_up := ke_timestamp event\<rparr>
         | KEY_EVNET_RELEASE \<Rightarrow> if volume_threshold s > 200 then s\<lparr>vk_sent := vk_sent s @ [VolumeUp]\<rparr> else s
         | _ \<Rightarrow> s)
      else if ke_code event = KEY_CODE_VOL_DOWN then
        (case ke_type event of
           KEY_EVNET_PRESS \<Rightarrow> s\<lparr>vk_down := ke_timestamp event\<rparr>
         | KEY_EVNET_RELEASE \<Rightarrow> if volume_threshold s > 200 then s\<lparr>vk_sent := vk_sent s @ [VolumeDown]\<rparr> else s
         | _ \<Rightarrow> s)
      else s)"

definition volume_keys_zero :: volume_keys where
  "volume_keys_zero = \<lparr>vk_up = zero_time, vk_down = zero_time, vk_sent = []\<rparr>"

text \<open>Both listeners get every event.\<close>

definition both_listeners :: "keyevent_t \<Rightarrow> wifi \<times> volume_keys \<Rightarrow> (wifi \<times> volume_keys) option" where
  "both_listeners event s =
     do { w \<leftarrow> esp_touch_keyprocess event (fst s); Some (w, audio_manager_keyprocess (wf_factory (fst s)) event (snd s)) }"

section \<open>The volume\<close>

text \<open>What the audio manager does for a volume command while nothing else owns the player; the value is stored in flash.\<close>

definition volume_step :: "(int \<Rightarrow> int) \<Rightarrow> media_hal \<times> int option \<Rightarrow> (media_hal \<times> int option) option" where
  "volume_step change s =
     do {
       (ret, vol, h) \<leftarrow> MediaHalGetVolume (fst s);
       if ret = 0 then
         do { (r, h) \<leftarrow> MediaHalSetVolume (change vol) h; Some (h, if r = 0 then Some (change vol) else snd s) }
       else Some (h, snd s) }"

definition volume_request_change :: "volume_request \<Rightarrow> int \<Rightarrow> int" where
  "volume_request_change r = (case r of VolumeUp \<Rightarrow> vol_up | VolumeDown \<Rightarrow> vol_down)"

abbreviation (input) DEFAULT_VOLUME :: int where "DEFAULT_VOLUME \<equiv> 54"

definition audio_volume_init :: "bool \<Rightarrow> bool \<Rightarrow> int option \<Rightarrow> media_hal \<Rightarrow> (int \<times> media_hal) option" where
  "audio_volume_init mute_on factory stored_volume h =
     (if mute_on then MediaHalSetVolume DEFAULT_VOLUME h
      else if \<not> factory then
        (case stored_volume of None \<Rightarrow> MediaHalSetVolume DEFAULT_VOLUME h | Some v \<Rightarrow> MediaHalSetVolume v h)
      else MediaHalSetVolume (DEFAULT_VOLUME + 20) h)"

section \<open>Keys\<close>

definition key_at :: "nat \<Rightarrow> keypress_event_t \<Rightarrow> timeval \<Rightarrow> keyevent_t" where
  "key_at k ty t = \<lparr>ke_code = k, ke_type = ty, ke_timestamp = t\<rparr>"

lemma vol_touch_abs_eq: "vol_touch_abs = esp_touch_abs"
  by (intro ext) (simp add: vol_touch_abs_def esp_touch_abs_def)

lemma volume_key_simps:
  "audio_manager_keyprocess False (key_at (Suc 0) KEY_EVNET_PRESS t) v = v\<lparr>vk_up := t\<rparr>"
  "audio_manager_keyprocess False (key_at 2 KEY_EVNET_PRESS t) v = v\<lparr>vk_down := t\<rparr>"
  "audio_manager_keyprocess False (key_at (Suc 0) KEY_EVNET_RELEASE t) v =
     (if volume_threshold v > 200 then v\<lparr>vk_sent := vk_sent v @ [VolumeUp]\<rparr> else v)"
  "audio_manager_keyprocess False (key_at 2 KEY_EVNET_RELEASE t) v =
     (if volume_threshold v > 200 then v\<lparr>vk_sent := vk_sent v @ [VolumeDown]\<rparr> else v)"
  by (simp_all add: audio_manager_keyprocess_def key_at_def)



text \<open>At a distance of exactly 200 ms neither listener acts.\<close>

section \<open>The volume after a restart\<close>

definition hal_state :: "media_hal \<Rightarrow> bool" where
  "hal_state h \<longleftrightarrow> hal_works h \<and>
     (\<exists>k. 0 \<le> k \<and> k \<le> 30 \<and> outputs (mh_codec h) = [word_of_int k, word_of_int k, 0, 0])"

definition sounds_as :: "media_hal \<Rightarrow> int \<Rightarrow> bool" where
  "sounds_as h v \<longleftrightarrow> muted (mh_codec h) = (v < 3) \<and>
     outputs (mh_codec h) = [word_of_int (volume_part v), word_of_int (volume_part v), 0, 0]"

lemma set_volume_state:
  assumes "hal_works h"
  shows "\<exists>h'. MediaHalSetVolume v h = Some (0, h') \<and> hal_state h' \<and> sounds_as h' v"
proof -
  obtain c where c: "MediaHalSetVolume v h = Some (0, h\<lparr>mh_codec := c\<rparr>)" "cd_bus c = []" "muted c = (v < 3)"
      "outputs c = [word_of_int (volume_part v), word_of_int (volume_part v), 0, 0]"
    using set_volume_works [OF assms] by blast
  then have "hal_state (h\<lparr>mh_codec := c\<rparr>)"
    using assms volume_part_bounds [of v] by (auto simp: hal_state_def hal_works_def)
  with c show ?thesis by (auto simp: sounds_as_def)
qed

lemma volume_step_works:
  assumes "hal_state (fst s)"
  shows "\<exists>h' v. volume_step change s = Some (h', Some v) \<and> hal_state h' \<and> sounds_as h' v"
proof -
  from assms obtain k where k: "0 \<le> k" "k \<le> 30" "outputs (mh_codec (fst s)) = [word_of_int k, word_of_int k, 0, 0]"
    and w: "hal_works (fst s)" by (auto simp: hal_state_def)
  obtain h' where "MediaHalSetVolume (change (3 * k)) (fst s) = Some (0, h')" "hal_state h'" "sounds_as h' (change (3 * k))"
    using set_volume_state [OF w] by blast
  with get_volume_works [OF w k(3,1,2)] show ?thesis by (simp add: volume_step_def)
qed

lemma volume_run_works:
  assumes "hal_state h" "reqs \<noteq> []"
  shows "\<exists>h' v. run_opt (\<lambda>r. volume_step (volume_request_change r)) reqs (h, nv) = Some (h', Some v) \<and> hal_state h' \<and> sounds_as h' v"
  using assms
proof (induction reqs arbitrary: h nv)
  case (Cons r reqs)
  obtain h1 v1 where s: "volume_step (volume_request_change r) (h, nv) = Some (h1, Some v1)" "hal_state h1" "sounds_as h1 v1"
    using volume_step_works [of "(h, nv)" "volume_request_change r"] Cons.prems(1) by auto
  show ?case
  proof (cases "reqs = []")
    case True
    with s show ?thesis by simp
  next
    case False
    from Cons.IH [OF s(2) False, of "Some v1"] s(1) show ?thesis by simp
  qed
qed simp


definition wit_hal :: media_hal where
  "wit_hal = snd (MediaHalInit 0 0 AUDIO_CODEC_ES8388_DEFAULT (media_hal_zero \<lparr>cd_reg = (\<lambda>_. 0), cd_bus = []\<rparr>))"

lemma wit_hal_works: "hal_works wit_hal"
  by (simp add: wit_hal_def hal_works_def MediaHalInit_def Es8388Init_def Es8388SetAdcDacVolume_def Es8388ConfigFmt_def
      Es8388SetBitsPerSample_def Es8388ConfigAdcInput_def Es8388Start_def Es8388SetVoiceMute_def change_both_def for_adc_def for_dac_def
      media_hal_zero_def Let_def)


section \<open>The task\<close>

text \<open>With the codec as its environment the audio manager sets and stores what \<open>volume_step\<close> does.\<close>

lemma task_sets_the_volume:
  assumes "hal_state h" "e_hal_volume e = Some v" "MediaHalGetVolume h = Some (0, v, h)" "\<And>w. e_hal_set_ok e w"
  shows "volume_blocking e change s = emits [EvHalSetVolume (change v), EvNvVolume (change v)] s \<and>
    (\<exists>h'. volume_step change (h, nv) = Some (h', Some (change v)))"
proof -
  obtain h' where "MediaHalSetVolume (change v) h = Some (0, h')"
    using set_volume_state [of h "change v"] assms(1) by (auto simp: hal_state_def)
  with assms show ?thesis by (simp add: volume_blocking_def volume_step_def)
qed

text \<open>The down key never gets under 6 from the default volume: 54, 42, 30, 18, 6.\<close>

definition volume_after_down :: "int \<Rightarrow> int" where
  "volume_after_down v = 3 * volume_part (vol_down v)"

lemma down_keys_stop_at_six: "map volume_after_down [54, 42, 30, 18, 6] = [42, 30, 18, 6, 6]"
  by (simp add: volume_after_down_def vol_down_def volume_part_def)

end
