(* ===== verification/Shell.thy ===== *)
theory Shell
  imports AuthCrypto
begin

text \<open>
  The terminal of the factory mode (\<open>sys/terminalservice/esp_shell.c\<close>, \<open>terminalcontrolservice.c\<close>): a line is read from the
  serial port, split into words, and its first word is looked up in a table of commands.

  \<^item> What comes from the port is a list of bytes; a line that is not ended waits for more: \<open>None\<close>.
  \<^item> \<open>saveptr\<close> is the text behind the last word, or \<open>None\<close> for NULL.
\<close>

abbreviation (input) SHELL_MAX_ARGUMENTS :: nat where "SHELL_MAX_ARGUMENTS \<equiv> 10"
abbreviation (input) SHELL_MAX_LINE_LENGTH :: nat where "SHELL_MAX_LINE_LENGTH \<equiv> 512"

section \<open>A line\<close>

text \<open>The line so far, and what has been typed; the result is the line and what is left.\<close>

fun shellGetLine :: "nat \<Rightarrow> string \<Rightarrow> string \<Rightarrow> (string \<times> string) option" where
  "shellGetLine sz line [] = None"
| "shellGetLine sz line (c # cs) =
     (if c = CHR 0x08 \<or> c = CHR 0x7F then shellGetLine sz (butlast line) cs
      else if c = CHR 0x0A \<or> c = CHR 0x0D then Some (line, cs)
      else if (of_char c :: nat) < 0x20 then shellGetLine sz line cs
      else if length line < sz - 1 then shellGetLine sz (line @ [c]) cs
      else shellGetLine sz line cs)"

definition is_blank :: "char \<Rightarrow> bool" where
  "is_blank c \<longleftrightarrow> c = CHR 0x20 \<or> c = CHR 0x09"

definition is_quote :: "char \<Rightarrow> bool" where
  "is_quote c \<longleftrightarrow> c = CHR 0x22"

definition parse_arguments :: "string option \<Rightarrow> string option \<times> string option" where
  "parse_arguments saveptr =
     (case saveptr of
        None \<Rightarrow> (None, None)
      | Some t \<Rightarrow>
          (let p = dropWhile is_blank t;
               (p, delim) = (if p \<noteq> [] \<and> is_quote (hd p) then (tl p, is_quote) else (p, is_blank));
               arg = takeWhile (\<lambda>c. \<not> delim c) p;
               rest = dropWhile (\<lambda>c. \<not> delim c) p
           in (if arg = [] then None else Some arg, if rest = [] then None else Some (tl rest))))"

lemma parse_arguments_shorter:
  "parse_arguments (Some t) = (a, Some r) \<Longrightarrow> length r < length t"
proof -
  assume *: "parse_arguments (Some t) = (a, Some r)"
  have le: "length (dropWhile P xs) \<le> length xs" for P and xs :: string by (rule length_dropWhile_le)
  have tl: "dropWhile P xs \<noteq> [] \<Longrightarrow> length (tl (dropWhile P xs)) < length xs" for P and xs :: string
    using le [of P xs] by (cases "dropWhile P xs") auto
  let ?p = "dropWhile is_blank t"
  show ?thesis
  proof (cases "?p \<noteq> [] \<and> is_quote (hd ?p)")
    case True
    with * have "r = tl (dropWhile (\<lambda>c. \<not> is_quote c) (tl ?p))" "dropWhile (\<lambda>c. \<not> is_quote c) (tl ?p) \<noteq> []"
      by (auto simp: parse_arguments_def Let_def split: if_splits)
    with tl [of "\<lambda>c. \<not> is_quote c" "tl ?p"] le [of is_blank t] show ?thesis by simp
  next
    case False
    with * have "r = tl (dropWhile (\<lambda>c. \<not> is_blank c) ?p)" "dropWhile (\<lambda>c. \<not> is_blank c) ?p \<noteq> []"
      by (auto simp: parse_arguments_def Let_def split: if_splits)
    with tl [of "\<lambda>c. \<not> is_blank c" ?p] le [of is_blank t] show ?thesis by simp
  qed
qed

lemma parse_arguments_measure:
  "parse_arguments s = (Some lp, r) \<Longrightarrow>
    (case r of None \<Rightarrow> 0 | Some t \<Rightarrow> Suc (length t)) < (case s of None \<Rightarrow> 0 | Some t \<Rightarrow> Suc (length t))"
  by (cases s; cases r) (auto simp: parse_arguments_def [of None] dest: parse_arguments_shorter)

text \<open>The arguments behind the command, \<open>n\<close> of them being stored already; \<open>None\<close>: too many.\<close>

function shell_arguments :: "nat \<Rightarrow> string option \<Rightarrow> string list option" where
  "shell_arguments n saveptr =
     (case parse_arguments saveptr of
        (None, _) \<Rightarrow> Some []
      | (Some lp, s) \<Rightarrow>
          if SHELL_MAX_ARGUMENTS \<le> n then None else map_option (\<lambda>as. lp # as) (shell_arguments (n + 1) s))"
  by pat_completeness auto

termination
  by (relation "measure (\<lambda>(n :: nat, s :: string option). case s of None \<Rightarrow> 0 | Some t \<Rightarrow> Suc (length t))")
    (auto dest!: parse_arguments_measure [OF sym])

declare shell_arguments.simps [simp del]

section \<open>Commands\<close>

datatype shell_event = ShTest | ShRestart | ShVersion string | ShMac string | ShUnknown string | ShTooMany

abbreviation (input) SOFTWARE_VERSION :: string where "SOFTWARE_VERSION \<equiv> ''B300_V03B01''"

fun mac_text :: "8 word list \<Rightarrow> string" where
  "mac_text [] = []"
| "mac_text [b] = hex2 True b"
| "mac_text (b # bs) = hex2 True b @ '':'' @ mac_text bs"

definition getwifimac :: "8 word list \<Rightarrow> shell_event option" where
  "getwifimac mac = map_option ShMac (c_str 18 (mac_text mac))"

text \<open>The table: names and what they do; \<open>None\<close> of the look-up means that the name is not in it.\<close>

definition command_table :: "8 word list \<Rightarrow> (string \<times> shell_event option) list" where
  "command_table mac = [(''test'', Some ShTest), (''reboot'', Some ShRestart), (''softversion'', Some (ShVersion SOFTWARE_VERSION)),
     (''wifimac'', getwifimac mac)]"

definition cmdexec :: "8 word list \<Rightarrow> string \<Rightarrow> shell_event option option" where
  "cmdexec mac name = map_of (command_table mac) name"

text \<open>One round of \<open>shell_task\<close>: what a line does; the outer \<open>None\<close> is undefined behaviour.\<close>

definition shell_round :: "8 word list \<Rightarrow> string \<Rightarrow> shell_event list option" where
  "shell_round mac line =
     (let (cmd, tokp) = parse_arguments (Some line)
      in case shell_arguments 0 tokp of
           None \<Rightarrow> Some [ShTooMany]
         | Some args \<Rightarrow>
             (case cmd of
                None \<Rightarrow> Some []
              | Some name \<Rightarrow>
                  (case cmdexec mac name of None \<Rightarrow> Some [ShUnknown name] | Some e \<Rightarrow> map_option (\<lambda>e. [e]) e)))"

section \<open>What holds\<close>

text \<open>A line fits into its buffer with its terminator.\<close>

lemma line_fits:
  "shellGetLine sz line cs = Some (l, rest) \<Longrightarrow> length line < sz \<Longrightarrow> length l < sz"
  by (induction sz line cs rule: shellGetLine.induct) (auto split: if_splits)

text \<open>A byte and then a backspace is nothing.\<close>

lemma backspace_takes_back:
  "0x20 \<le> (of_char c :: nat) \<Longrightarrow> c \<noteq> CHR 0x7F \<Longrightarrow> length line < sz - 1 \<Longrightarrow>
    shellGetLine sz line (c # CHR 0x08 # cs) = shellGetLine sz line cs"
  by auto

text \<open>No more than the array holds, besides the NULL at its end.\<close>

lemma arguments_fit:
  "shell_arguments n s = Some as \<Longrightarrow> as = [] \<or> n + length as \<le> SHELL_MAX_ARGUMENTS"
proof (induction as arbitrary: n s)
  case (Cons lp bs)
  then obtain r where "shell_arguments (n + 1) r = Some bs" "n < SHELL_MAX_ARGUMENTS"
    by (auto simp: shell_arguments.simps [of n s] split: prod.splits option.splits if_splits)
  with Cons.IH [of "n + 1" r] show ?case by auto
qed simp

text \<open>Words without blanks and quotes, joined by blanks, are found again.\<close>

definition is_word :: "string \<Rightarrow> bool" where
  "is_word w \<longleftrightarrow> w \<noteq> [] \<and> (\<forall>c\<in>set w. \<not> is_blank c \<and> \<not> is_quote c)"

fun joined :: "string list \<Rightarrow> string" where
  "joined [] = []"
| "joined [w] = w"
| "joined (w # ws) = w @ CHR 0x20 # joined ws"

lemma parse_word:
  assumes "is_word w"
  shows "parse_arguments (Some w) = (Some w, None)" "parse_arguments (Some (w @ CHR 0x20 # r)) = (Some w, Some r)"
proof -
  obtain c cs where w: "w = c # cs" using assms by (cases w) (auto simp: is_word_def)
  have c: "\<not> is_blank c" "\<not> is_quote c" using assms by (simp_all add: is_word_def w)
  have "takeWhile (\<lambda>c. \<not> is_blank c) w = w" "dropWhile (\<lambda>c. \<not> is_blank c) w = []"
    using assms by (auto simp: is_word_def takeWhile_eq_all_conv dropWhile_eq_Nil_conv)
  moreover have "takeWhile (\<lambda>c. \<not> is_blank c) (w @ CHR 0x20 # r) = w" "dropWhile (\<lambda>c. \<not> is_blank c) (w @ CHR 0x20 # r) = CHR 0x20 # r"
    using assms by (auto simp: is_word_def is_blank_def takeWhile_append dropWhile_append)
  ultimately show "parse_arguments (Some w) = (Some w, None)" "parse_arguments (Some (w @ CHR 0x20 # r)) = (Some w, Some r)"
    using c by (simp_all add: parse_arguments_def w is_blank_def [of "CHR 0x20"])
qed

lemma words_are_parsed:
  assumes "\<forall>w\<in>set ws. is_word w" "ws \<noteq> []" "n + length ws \<le> SHELL_MAX_ARGUMENTS"
  shows "shell_arguments n (Some (joined ws)) = Some ws"
  using assms
proof (induction ws arbitrary: n rule: joined.induct)
  case (2 w)
  then show ?case using parse_word [of w] by (simp add: shell_arguments.simps [of n] shell_arguments.simps [of _ None] parse_arguments_def [of None])
next
  case (3 w v ws)
  then show ?case using parse_word(2) [of w "joined (v # ws)"] by (simp add: shell_arguments.simps [of n])
qed simp

text \<open>An empty word in quotes ends the list of arguments.\<close>

lemma empty_word_ends_the_line:
  "shell_arguments 0 (Some ''\"\" reboot'') = Some []"
  by (simp add: shell_arguments.simps parse_arguments_def is_blank_def is_quote_def)

text \<open>A typed command is run.\<close>

lemma typed_command_is_run:
  "shellGetLine SHELL_MAX_LINE_LENGTH [] (''rebx'' @ CHR 0x08 # ''oot'' @ [CHR 0x0D]) = Some (''reboot'', []) \<and>
   shell_round mac ''reboot'' = Some [ShRestart]"
  by (simp add: shell_round_def cmdexec_def command_table_def shell_arguments.simps parse_arguments_def is_blank_def is_quote_def)

end
