(* ===== verification/StartUp.thy ===== *)
theory StartUp
  imports StoryPlayer Dcl VolumeKeys
begin

text \<open>
  What the services ask and check before they work: the login request (\<open>get_login_info\<close> in \<open>sys/remote_command/remote_command.c\<close>),
  the parameters of a session of the speech service (\<open>get_dcl_auth_params\<close> in \<open>app/DeepBrainService.c\<close>), the start after a
  watchdog reset (\<open>app_main\<close> in \<open>init/init.c\<close>) and the songs of the alarms (\<open>check_file_in_dir\<close> in \<open>app/story_push.c\<close>, a copy of the one of the story player).

  \<^item> \<open>spare\<close> are the bytes that the compiler leaves unused behind an array on the stack.
\<close>

section \<open>The login request\<close>

abbreviation (input) LOGIN_URL :: string where "LOGIN_URL \<equiv> ''http://alarm.onegohome.com/api/api/devlogin''"
abbreviation (input) LOGIN_FILE :: string where "LOGIN_FILE \<equiv> ''/sdcard/login''"
abbreviation (input) FIRMWARE_VERSION :: string where "FIRMWARE_VERSION \<equiv> ''B300_V03B01''"
abbreviation (input) MAC_SIZE :: nat where "MAC_SIZE \<equiv> 12"

text \<open>\<open>mac\<close> has room for the twelve digits, not for the terminator.\<close>

definition login_mac :: "nat \<Rightarrow> 8 word list \<Rightarrow> string option" where
  "login_mac spare mac = c_str (MAC_SIZE + spare) (hex_text True mac)"

definition login_mode :: "nat \<Rightarrow> nat \<Rightarrow> string option" where
  "login_mode spare mode = c_str (MAC_SIZE + spare) (''&mode='' @ dec_nat mode)"

definition get_login_info :: "nat \<Rightarrow> 8 word list \<Rightarrow> nat \<Rightarrow> transfer_info option" where
  "get_login_info spare mac mode = do {
     m \<leftarrow> login_mac spare mac;
     path \<leftarrow> c_strncpy TRANSFER_PATH_SIZE LOGIN_URL (length LOGIN_URL);
     path \<leftarrow> c_strncat TRANSFER_PATH_SIZE path ''?dev='' 5;
     path \<leftarrow> c_strncat TRANSFER_PATH_SIZE path m MAC_SIZE;
     path \<leftarrow> c_strncat TRANSFER_PATH_SIZE path ''&version='' 9;
     path \<leftarrow> c_strncat TRANSFER_PATH_SIZE path FIRMWARE_VERSION (length FIRMWARE_VERSION);
     m \<leftarrow> login_mode spare mode;
     path \<leftarrow> c_strncat TRANSFER_PATH_SIZE path m MAC_SIZE;
     Some \<lparr>ti_file_path_name = LOGIN_FILE, ti_path = path, ti_port_number = []\<rparr> }"

lemma login_overruns: "length mac = 6 \<Longrightarrow> get_login_info 0 mac mode = None"
proof -
  assume "length mac = 6"
  moreover have "length (hex_text True bs) = 2 * length bs" for bs by (induction bs) (simp_all add: hex_text_def hex2_def)
  ultimately show ?thesis by (simp add: get_login_info_def login_mac_def c_str_def)
qed

text \<open>With a byte to spare the request has the address, the version and the mode, as long as the mode has at most six digits.\<close>

lemma login_request:
  assumes "length mac = 6" "0 < spare" "length (dec_nat mode) \<le> 6"
  shows "get_login_info spare mac mode = Some \<lparr>ti_file_path_name = LOGIN_FILE,
    ti_path = LOGIN_URL @ ''?dev='' @ hex_text True mac @ ''&version='' @ FIRMWARE_VERSION @ ''&mode='' @ dec_nat mode, ti_port_number = []\<rparr>"
proof -
  have "length (hex_text True bs) = 2 * length bs" for bs by (induction bs) (simp_all add: hex_text_def hex2_def)
  then have "length (hex_text True mac) = 12" using assms(1) by simp
  then show ?thesis using assms(2,3)
    by (simp add: get_login_info_def login_mac_def login_mode_def c_str_def c_strncpy_def c_strncat_def)
qed

section \<open>The parameters of a session\<close>

abbreviation (input) AUTH_SIZE :: nat where "AUTH_SIZE \<equiv> 64"

text \<open>\<open>snprintf\<close> into a member.\<close>

definition auth_text :: "string \<Rightarrow> string" where
  "auth_text t = take (AUTH_SIZE - 1) t"

text \<open>The licence is asked with the address and the number of the chip; what it answers is the name of the device.\<close>

definition get_dcl_auth_params :: "crypto_lib \<Rightarrow> 'j cjson \<Rightarrow> dcl_env \<Rightarrow> 8 word list \<Rightarrow> DCL_AUTH_PARAMS_t
    \<Rightarrow> (DCL_AUTH_PARAMS_t \<times> dcl_event list) option" where
  "get_dcl_auth_params l j e mac a =
     (let m = take (MAC_SIZE - 1) (hex_text True mac);
          a = a\<lparr>au_app_id := auth_text ''A000000000000191'', au_robot_id := auth_text ''de5f70ba-f5b6-11e7-8672-801844e30cac'',
                au_user_id := auth_text ''B300'', au_device_id := '' '', au_city_name := '' ''\<rparr>;
          zero = \<lparr>lr_device_sn = [], lr_device_type = [], lr_device_id = [], lr_device_license = []\<rparr>
      in do {
        (_, r, tr) \<leftarrow> dcl_get_device_license l j e a m ''B300'' False zero;
        Some (a\<lparr>au_device_id := auth_text (lr_device_sn (case r of None \<Rightarrow> zero | Some r \<Rightarrow> r))\<rparr>, tr) })"

text \<open>The last digit of the address is cut off: two devices that differ in it ask for the same licence.\<close>

lemma licence_of_another_device:
  "get_dcl_auth_params l j e [1, 2, 3, 4, 5, 0x60] a = get_dcl_auth_params l j e [1, 2, 3, 4, 5, 0x6F] a"
  by (simp add: get_dcl_auth_params_def hex_text_def hex2_def hex_digit_def)

text \<open>Without a licence the device has no name.\<close>

lemma no_licence_no_name:
  "dcl_get_device_license l j e (a\<lparr>au_app_id := auth_text ''A000000000000191'',
      au_robot_id := auth_text ''de5f70ba-f5b6-11e7-8672-801844e30cac'', au_user_id := auth_text ''B300'', au_device_id := '' '',
      au_city_name := '' ''\<rparr>) (take 11 (hex_text True mac)) ''B300'' False
      \<lparr>lr_device_sn = [], lr_device_type = [], lr_device_id = [], lr_device_license = []\<rparr> = Some (err, None, tr) \<Longrightarrow>
    \<exists>a'. get_dcl_auth_params l j e mac a = Some (a', tr) \<and> au_device_id a' = []"
  by (simp add: get_dcl_auth_params_def auth_text_def)

section \<open>The songs of the alarms\<close>

definition check_alarm_files :: "(string \<Rightarrow> bool) \<Rightarrow> bool \<Rightarrow> string list \<Rightarrow> string list option" where
  "check_alarm_files reopen_ok pair dir = check_file_in_dir reopen_ok pair dir"

lemma check_keeps_tokens:
  "check_files reopen_ok dir pair ds = Some r \<Longrightarrow> is_token d \<Longrightarrow> d \<in> set ds \<Longrightarrow> d \<in> set r"
  by (induction reopen_ok dir pair ds arbitrary: r rule: check_files.induct) (auto simp: Let_def split: if_splits)

text \<open>A token is never deleted, and a song with its token stays when the folder can be opened again.\<close>

lemma check_keeps_pairs:
  "check_files reopen_ok dir pair ds = Some r \<Longrightarrow> reopen_ok d \<Longrightarrow> STORY_FILE_PREFIX @ d \<in> set dir \<Longrightarrow> d \<in> set ds \<Longrightarrow> d \<in> set r"
proof (induction reopen_ok dir pair ds arbitrary: r rule: check_files.induct)
  case (2 reopen_ok dir pair f ds)
  have "is_token (STORY_FILE_PREFIX @ d)" by (simp add: is_token_def STORY_FILE_PREFIX_def)
  with 2 show ?case by (force simp: Let_def split: if_splits)
qed simp

lemma alarm_songs_stay:
  "check_alarm_files reopen_ok pair dir = Some r \<Longrightarrow> d \<in> set dir \<Longrightarrow>
    is_token d \<or> reopen_ok d \<and> STORY_FILE_PREFIX @ d \<in> set dir \<Longrightarrow> d \<in> set r"
  using check_keeps_tokens check_keeps_pairs by (auto simp: check_alarm_files_def check_file_in_dir_def)

section \<open>The start after a watchdog reset\<close>

datatype RESET_REASON = RTCWDT_SYS_RESET | TG0WDT_SYS_RESET | OTHER_RESET

text \<open>Whether the start is to be silent, and the counter of such resets in flash: it is only counted on when it is there.\<close>

definition app_main_reset :: "RESET_REASON \<Rightarrow> RESET_REASON \<Rightarrow> int option \<Rightarrow> bool \<times> int option" where
  "app_main_reset r0 r1 count =
     (if r0 = RTCWDT_SYS_RESET \<or> r0 = TG0WDT_SYS_RESET \<or> r1 = RTCWDT_SYS_RESET \<or> r1 = TG0WDT_SYS_RESET
      then (True, map_option (\<lambda>n. n + 1) count) else (False, count))"

definition app_main_volume :: "bool \<Rightarrow> int option \<Rightarrow> media_hal \<Rightarrow> (int \<times> media_hal) option" where
  "app_main_volume mute_on stored_volume h =
     (if mute_on then MediaHalSetVolume (case stored_volume of None \<Rightarrow> DEFAULT_VOLUME | Some v \<Rightarrow> v) h else Some (0, h))"

text \<open>The silent start is at the default volume, until the services have started.\<close>

lemma silent_start_is_loud:
  assumes "hal_works h"
  shows "\<exists>h'. audio_volume_init (fst (app_main_reset RTCWDT_SYS_RESET r1 count)) factory nv h = Some (0, h') \<and>
    \<not> muted (mh_codec h') \<and> outputs (mh_codec h') = [18, 18, 0, 0]"
  using set_volume_state [OF assms, of DEFAULT_VOLUME]
  by (auto simp: app_main_reset_def audio_volume_init_def sounds_as_def volume_part_def)

text \<open>After it the volume is the stored one, as after an ordinary start.\<close>

lemma volume_after_reset:
  assumes "hal_works h" "hal_works h2" "audio_volume_init True False nv h = Some (r, h1)"
    and "audio_volume_init False False nv h2 = Some (r2, h3)"
  shows "\<exists>h4. app_main_volume True nv h1 = Some (0, h4) \<and> outputs (mh_codec h4) = outputs (mh_codec h3) \<and>
    muted (mh_codec h4) = muted (mh_codec h3)"
proof -
  define v where "v = (case nv of None \<Rightarrow> DEFAULT_VOLUME | Some v \<Rightarrow> v)"
  have "hal_works h1"
    using set_volume_state [OF assms(1), of DEFAULT_VOLUME] assms(3) by (auto simp: audio_volume_init_def hal_state_def)
  from set_volume_state [OF this, of v] obtain h4 where "MediaHalSetVolume v h1 = Some (0, h4)" "sounds_as h4 v" by blast
  moreover have "sounds_as h3 v"
    using set_volume_state [OF assms(2), of v] assms(4) by (auto simp: audio_volume_init_def v_def split: option.splits)
  ultimately show ?thesis by (simp add: app_main_volume_def v_def [symmetric] sounds_as_def)
qed

text \<open>A counter that is not in flash is never made.\<close>

lemma resets_are_not_counted: "snd (app_main_reset r0 r1 None) = None"
  by (simp add: app_main_reset_def)

end
