(* ===== verification/Spec2Isabelle.thy ===== *)
theory Spec2Isabelle
  imports AudioManager_Props AudioClient KeyEvent StoryPlayer_Props Alarms_Props RemoteCommand_Props Poll_Props PowerManager Wechat_Props Crc_Props AuthCrypto Led_Props Display_Props Ota_Props StoryPush_Play TransferServer_Props SdCard_Props OfflineLog_Props SystemManager_Props Restore Accel DeepBrain_Props Dcl_Props VolumeKeys Shell StartUp
begin

text \<open>
  A verification library for the SmartAlarm firmware, \<open>src/src/SmartAlarm\<close>: the code of a talking
  alarm clock for children on an ESP32. The firmware is a set of FreeRTOS tasks that talk through
  queues; each task owns one state that its own handler changes.

  \<^bold>\<open>The parts and how they interact.\<close>
  \<^item> Input. The display chip scans a key matrix (\<open>bsp/tm1628.c\<close>, \<open>bsp/display.c\<close>), the sensor feels pats
    (\<open>bsp/sc7a20.c\<close>); both send messages to the key task (\<open>sys/keyevent.c\<close>), which makes events of them and
    delivers them to the clients that registered for the key: the story player, the voice messages, the reset key
    (\<open>bsp/restore.c\<close>) and others.
  \<^item> Sound. The story player (\<open>app/story_player.c\<close>), the alarms with their songs (\<open>app/story_push.c\<close>) and the voice
    messages (\<open>app/wechat.c\<close>) ask the audio manager (\<open>sys/audio_manager/AudioManagerService.c\<close>) to play or record; it
    drives the media player, hears its status and calls the applications back.
  \<^item> Time. The alarm task (\<open>sys/alarms.c\<close>) keeps the alarms and calls their owners in their minute; poll timers
    (\<open>bsp/poll.c\<close>) call drivers; the power manager (\<open>sys/power_manager\<close>) lets the device sleep while no wake lock is held.
  \<^item> Server. The remote tasks (\<open>sys/remote_command\<close>) log in, keep the connection, send queued requests and hand received
    commands to the applications by a table of callbacks: the system manager (\<open>app/system_manager.c\<close>) sets the clock and
    reports the state of the device, the firmware update (\<open>app/ota.c\<close>), the story push, the voice messages and the log take
    theirs. Files are moved by the download and the upload server (\<open>sys/download_server\<close>, \<open>sys/upload_server\<close>) over the
    helpers of \<open>sys/net_common\<close>.
  \<^item> Speech. A key starts a talk with the speech service (\<open>app/DeepBrainService.c\<close>): the recorded sound is cut into frames, coded
    (\<open>sys/DCL/utility/adpcm-lib.c\<close>) and sent in requests (\<open>sys/DCL/asr/dcl_asr_api.c\<close>) over sockets (\<open>sys/socket/socket.c\<close>); the answer
    is decoded (\<open>sys/dcl_service/dcl_nlp_decode.c\<close>), and its song or its text, whose sound another client asks for
    (\<open>sys/DCL/tts\<close>), goes to the audio manager. The licence of the device, translations and meanings are asked the same way.
  \<^item> Network. The volume keys pressed together pair the device with a phone (\<open>sys/smart_connect\<close>), one alone changes the volume of the
    codec (\<open>MediaHal\<close>); the connection tells the remote tasks when it comes and goes.
  \<^item> Outside. Lights (\<open>bsp/led.c\<close>), the battery (\<open>bsp/get_voltage.c\<close>), the card (\<open>bsp/gc.c\<close>) and the log on it (\<open>bsp/log.c\<close>).

  \<^bold>\<open>Theories\<close>; a theory \<open>X\<close> has the data and operations, \<open>X_Inv\<close> its invariant, \<open>X_Props\<close> what is proved of it.
  \<^item> \<open>Alarm_Prelude\<close>: undefined behaviour as \<open>None\<close> of \<open>option\<close>; runs of a handler; reachable states and the contract
    \<open>safe_machine\<close> (a handler keeps its invariant and is defined for every input its environment may send), which every
    component interprets; the contracts of intrusive lists (\<open>tail_list\<close>) and of queues (\<open>mailbox\<close>); C strings in arrays; cJSON as
    a parameter.
  \<^item> \<open>Audio_Types\<close>, \<open>AudioManager\<close>, \<open>AudioManager_Inv\<close>, \<open>AudioManager_Props\<close>: the enumerations of
    \<open>include/audiomanagerservice.h\<close> and the audio manager task, one definition per C function; its steps from the start are
    defined, and what a start command does to a playing song is exact. \<open>AudioClient\<close>: the calls that send commands to it
    (their array bounds are exact), the synchronous tones and the recorder with its detection of speech.
  \<^item> \<open>KeyEvent\<close>: presses and releases, long presses, masks, clients and the wake lock that follows the held keys.
  \<^item> \<open>StoryPlayer\<close>, \<open>StoryPlayer_Inv\<close>, \<open>StoryPlayer_Props\<close>: four players with their play lists; the lists stay well
    formed in every order of keys, commands and callbacks.
  \<^item> \<open>Alarms\<close>, \<open>Alarms_Inv\<close>, \<open>Alarms_Props\<close>: the list of alarms and the list of today's; an alarm rings once a day.
  \<^item> \<open>StoryPush\<close>, \<open>StoryPush_Props\<close>, \<open>StoryPush_Play\<close>: alarms that the server sets, whose songs take turns.
  \<^item> \<open>Poll\<close>, \<open>Poll_Props\<close>: the timer list refines a priority queue. \<open>PowerManager\<close>: sleeping follows the wake locks.
  \<^item> \<open>RemotePacket\<close>, \<open>RemotePacket_Props\<close>: the table of callbacks and the packets, which are read back however the stream is
    cut; \<open>RemoteCommand\<close>, \<open>RemoteCommand_Props\<close>: login, sending and receiving; the accepted requests are written once and in
    order.
  \<^item> \<open>SystemManager\<close>, \<open>SystemManager_Props\<close>: handshakes, clock, reports, factory reset, items in flash. \<open>Restore\<close>: only a
    long press restarts the device. \<open>Accel\<close>: the sensor tells the key task of pats only.
  \<^item> \<open>Wechat\<close>, \<open>Wechat_Inv\<close>, \<open>Wechat_Props\<close>: voice messages; they are finished in the order they came.
  \<^item> \<open>Transfer_Types\<close>, \<open>Http\<close>, \<open>Http_Props\<close>, \<open>TransferServer\<close>, \<open>TransferServer_Props\<close>: addresses, headers, chunked texts,
    downloads and uploads; what is stored is the body, and what is reported is what was stored.
  \<^item> \<open>Ota\<close>, \<open>Ota_Props\<close>: the firmware update over several starts of the device; it ends, and only an image that was compared is
    started.
  \<^item> \<open>Led\<close>, \<open>Led_Props\<close>: clients of the light by priority, the battery on top; \<open>Display\<close>, \<open>Display_Props\<close>: what the chip receives
    reads as the time, and key reports are changes of level.
  \<^item> \<open>SdCard\<close>, \<open>SdCard_Props\<close>: mounting, telling the player, deleting old messages; \<open>OfflineLog\<close>, \<open>OfflineLog_Props\<close>: two
    buffers and a file that hold every line in order.
  \<^item> \<open>Crc\<close>, \<open>Crc_Props\<close>, \<open>AuthCrypto\<close>: the check sums are bitwise remainders; nonces and keys of requests to the cloud.
  \<^item> \<open>NlpDecode\<close>, \<open>NlpDecode_Props\<close>: the answers of the speech service; the songs of an answer are found in order. \<open>DeepBrain\<close>,
    \<open>DeepBrain_Props\<close>: the talk; there is one session at a time, a question is answered by its song, silence ends the talk.
  \<^item> \<open>Adpcm\<close>, \<open>Adpcm_Props\<close>: coder and decoder; a block decodes to exactly what the coder followed, and a quiet signal is kept within a
    bound. \<open>Socket\<close>: addresses, connecting, reading and writing with time limits.
  \<^item> \<open>Asr\<close>, \<open>Asr_Props\<close>: the client of the recognition; an answer means that the server has the frames of the sound in order, and on a
    good line every speech is answered. \<open>Dcl\<close>, \<open>Dcl_Props\<close>: the four clients that ask one question; they leave nothing behind.
  \<^item> \<open>SmartConnect\<close>, \<open>SmartConnect_Props\<close>: the Wi-Fi; one pairing at a time, and a paired network is that of the next start.
    \<open>Codec\<close>, \<open>Codec_Props\<close>: the codec by its registers. \<open>VolumeKeys\<close>: from the keys to the codec and back at the next start.
  \<^item> \<open>Shell\<close>: the terminal of the factory mode. \<open>StartUp\<close>: the login request, the parameters of a session, the start after a
    watchdog reset, the songs of the alarms.

  \<^bold>\<open>Conventions.\<close> A pointer is an address (\<open>nat\<close>) and the heap a map from addresses to records; a freed
  node is not in the map, so a read through a dangling pointer, a double free and a NULL read are
  \<open>None\<close>. Waiting for a semaphore nobody can give is \<open>None\<close> as well. Calls on parts that are not
  modelled (codec, media player, wake locks, client callbacks) are recorded in a trace in order, and
  their results are inputs of the step: a record \<open>..._env\<close> says what a round meets. Enumerators are constructors;
  where C compares their values, a \<open>code\<close> function gives them. Machine words are \<open>word\<close>s where they wrap or where bits
  count, \<open>nat\<close> or \<open>int\<close> where the values are bounded. Messages to the log are not modelled, except in \<open>OfflineLog\<close>.

  \<^bold>\<open>What the environment must keep to\<close> is a predicate \<open>..._ok\<close> of each component, which its properties name: memory that is given
  is not in use, texts fit into the arrays they are copied to, a queue has room for a sender that cannot wait, packets have the
  form the server gives them. Where the code does not check such a condition, a lemma beside the property shows the overrun, the
  read of freed memory or the lost message that follows, most often by evaluating a short run.

  \<^bold>\<open>Properties that span components.\<close> \<open>Asr_Props\<close> composes coder, packets and sockets down to the bytes that the server gets; \<open>DeepBrain_Props\<close>
  composes the record task, the answer task and the decoding of answers; \<open>VolumeKeys\<close> the two listeners of the volume keys, and the
  volume command with the registers of the codec; \<open>SystemManager\<close>, \<open>Alarms\<close> and \<open>StoryPush\<close> send what \<open>RemoteCommand\<close> writes in order.

  \<^bold>\<open>Bounds and fuel.\<close> Recursion follows lists (entries of a folder, bytes of a packet, waiting requests) or has a measure; no
  definition runs on fuel. The loops of tasks are steps, and their runs are lists of inputs of any length. The update needs at most
  thirteen starts, a time on the display at most fourteen bytes, a record at most one read beyond 24 kB: these bounds are theorems.
  A loop over a socket follows the list of what the socket gives and is \<open>None\<close> when it ends too early; its properties give lists that are
  long enough. A frame of speech has 7993 samples, which fill the 4000 bytes of one coded block exactly, so that every frame of a session
  but the last has the same length; the number of a packet stays under a million while a session lasts.

  \<^bold>\<open>Not modelled.\<close> The ESP-IDF, the codec and player libraries, zlib, the voice detector and the FFT are third-party code: their
  results are inputs. The tables of music are data. The functions of one call under \<open>sys/sdk_interfaces\<close> and \<open>SystemSal\<close> and the
  calls that create and delete tasks, queues and timers only forward to the SDK. \<open>bsp/keypad.c\<close>, \<open>bsp/touchpad.c\<close> and the GPIO part of
  \<open>bsp/extern_gpio.c\<close> are compiled out or serve other boards; the helpers of \<open>userconfig/utils.c\<close> have no caller.
\<close>

end
